(* ===== verification/Prelude.thy ===== *)
theory Prelude
  imports Main "HOL-Library.Sublist" "HOL-Library.Char_ord" "HOL-Library.Code_Target_Nat"
begin

text \<open>
  Shared vocabulary of the development: C strings, the C library's string functions the
  sources call, fixed-capacity buffers, and the collections of simplification rules the
  component theories use.

  A NUL-terminated C string is a \<^typ>\<open>string\<close> (a list of bytes) without its terminator;
  reading at or past the end yields the terminator (\<open>ch\<close> below), which is what the
  scanning loops of the sources test for.  A pointer \<open>p\<close> into a string \<open>text\<close> is a
  \<^emph>\<open>cursor\<close>: the pair of the reversed prefix \<open>rpre\<close> (so that \<open>p[-1]\<close> is the head of
  \<open>rpre\<close>) and the suffix \<open>suf\<close> (so that \<open>p[i]\<close> is \<open>ch suf i\<close>), with
  \<open>text = rev rpre @ suf\<close>.
\<close>

named_theorems cstr_simps \<open>evaluation rules of the C string layer\<close>

section \<open>C strings\<close>

abbreviation squote :: char where "squote \<equiv> CHR 0x27"
abbreviation dquote :: char where "dquote \<equiv> CHR 0x22"
abbreviation tab :: char where "tab \<equiv> CHR 0x09"
abbreviation newline :: char where "newline \<equiv> CHR 0x0A"

definition nul :: char where
  "nul = CHR 0x00"

definition ch :: "string \<Rightarrow> nat \<Rightarrow> char" where
  "ch s i = (if i < length s then s ! i else nul)"

text \<open>What a C reader sees of a buffer: the bytes before the first NUL.\<close>

definition cstr :: "string \<Rightarrow> string" where
  "cstr s = takeWhile (\<lambda>c. c \<noteq> nul) s"

text \<open>\<open>snprintf\<close> and \<open>strncpy\<close>+terminator into a buffer of \<open>cap\<close> bytes: silent truncation.\<close>

definition buf_trunc :: "nat \<Rightarrow> string \<Rightarrow> string" where
  "buf_trunc cap s = take (cap - 1) s"

text \<open>\<open>snprintf\<close> with the \<open>n >= cap\<close> test that every caller here uses as its overflow check.\<close>

definition snprintf_checked :: "nat \<Rightarrow> string \<Rightarrow> string option" where
  "snprintf_checked cap s = (if length s \<ge> cap then None else Some s)"

definition is_digit :: "char \<Rightarrow> bool" where
  "is_digit c \<longleftrightarrow> CHR ''0'' \<le> c \<and> c \<le> CHR ''9''"

definition is_upper_az :: "char \<Rightarrow> bool" where
  "is_upper_az c \<longleftrightarrow> CHR ''A'' \<le> c \<and> c \<le> CHR ''Z''"

definition is_lower_az :: "char \<Rightarrow> bool" where
  "is_lower_az c \<longleftrightarrow> CHR ''a'' \<le> c \<and> c \<le> CHR ''z''"

definition byte_of :: "char \<Rightarrow> nat" where
  "byte_of c = of_char c"

text \<open>ASCII lower-casing, as \<open>tolower\<close> in the C locale and the sources' own loops do it.\<close>

definition to_lower :: "char \<Rightarrow> char" where
  "to_lower c = (if is_upper_az c then char_of (byte_of c + 32) else c)"

definition strchr_split :: "char \<Rightarrow> string \<Rightarrow> (string \<times> string) option" where
  "strchr_split c s = (if c \<in> set s
     then Some (takeWhile (\<lambda>x. x \<noteq> c) s, tl (dropWhile (\<lambda>x. x \<noteq> c) s)) else None)"

text \<open>\<open>strrchr\<close>: the part before the last occurrence of the character and the part after it.\<close>

definition strrchr_split :: "char \<Rightarrow> string \<Rightarrow> (string \<times> string) option" where
  "strrchr_split c s = (if c \<in> set s
     then Some (rev (tl (dropWhile (\<lambda>x. x \<noteq> c) (rev s))), rev (takeWhile (\<lambda>x. x \<noteq> c) (rev s)))
     else None)"

text \<open>\<open>strstr\<close>: the suffix at the first occurrence of the pattern.\<close>

fun strstr :: "string \<Rightarrow> string \<Rightarrow> string option" where
  "strstr pat [] = (if pat = [] then Some [] else None)"
| "strstr pat (c # cs) = (if prefix pat (c # cs) then Some (c # cs) else strstr pat cs)"

text \<open>\<open>strtok_r\<close> run to exhaustion: the maximal runs of bytes that are not delimiters.\<close>

function strtok_all :: "(char \<Rightarrow> bool) \<Rightarrow> string \<Rightarrow> string list" where
  "strtok_all d s = (let t = dropWhile d s in
     if t = [] then []
     else takeWhile (\<lambda>c. \<not> d c) t # strtok_all d (dropWhile (\<lambda>c. \<not> d c) t))"
  by pat_completeness auto
termination
proof (relation "measure (\<lambda>(d, s). length s)")
  fix d s t
  assume t: "t = dropWhile d s" and ne: "t \<noteq> []"
  then have "\<not> d (hd t)" by (metis hd_dropWhile)
  then have "length (dropWhile (\<lambda>c. \<not> d c) t) < length t"
    using ne by (cases t) (auto simp: le_imp_less_Suc length_dropWhile_le)
  also have "length t \<le> length s" using t by (simp add: length_dropWhile_le)
  finally show "((d, dropWhile (\<lambda>c. \<not> d c) t), (d, s)) \<in> measure (\<lambda>(d, s). length s)" by simp
qed simp

declare strtok_all.simps [simp del]

section \<open>Lemmas on C strings\<close>

lemma ch_0_Cons [simp, cstr_simps]: "ch (c # cs) 0 = c"
  by (simp add: ch_def)

lemma ch_Suc_Cons [simp, cstr_simps]: "ch (c # cs) (Suc i) = ch cs i"
  by (simp add: ch_def)

lemma ch_Nil [simp, cstr_simps]: "ch [] i = nul"
  by (simp add: ch_def)

lemma ch_1_Cons [simp, cstr_simps]: "ch (c # cs) 1 = ch cs 0"
  by (simp add: ch_def)

lemma ch_numeral_Cons [simp, cstr_simps]: "ch (c # cs) (numeral n) = ch cs (pred_numeral n)"
  by (simp add: numeral_eq_Suc)

lemma ch_append_length [simp]: "ch (xs @ ys) (length xs) = ch ys 0"
  by (auto simp: ch_def nth_append)

lemma cstr_prefix: "prefix (cstr s) s"
  unfolding cstr_def by (simp add: takeWhile_is_prefix)

lemma cstr_no_nul [simp]: "nul \<notin> set s \<Longrightarrow> cstr s = s"
  unfolding cstr_def by (induction s) auto

lemma nul_notin_cstr [simp]: "nul \<notin> set (cstr s)"
  unfolding cstr_def by (auto dest: set_takeWhileD)

lemma length_buf_trunc: "0 < cap \<Longrightarrow> length (buf_trunc cap s) < cap"
  by (auto simp: buf_trunc_def)

lemma buf_trunc_fits [simp]: "length s < cap \<Longrightarrow> buf_trunc cap s = s"
  by (simp add: buf_trunc_def)

lemma snprintf_checked_Some [simp]:
  "snprintf_checked cap s = Some t \<longleftrightarrow> t = s \<and> length s < cap"
  by (auto simp: snprintf_checked_def)

lemma snprintf_checked_None [simp]: "snprintf_checked cap s = None \<longleftrightarrow> cap \<le> length s"
  by (auto simp: snprintf_checked_def)

lemma strstr_None_iff: "strstr pat s = None \<longleftrightarrow> \<not> sublist pat s"
  by (induction s) (auto simp: sublist_Cons_right)

lemma strstr_Some_sublist: "strstr pat s = Some t \<Longrightarrow> suffix t s \<and> prefix pat t"
  by (induction s) (auto split: if_splits intro: suffix_ConsI)

lemma strchr_split_Some:
  assumes "strchr_split c s = Some (a, b)"
  shows "s = a @ c # b" and "c \<notin> set a"
proof -
  have c: "c \<in> set s" and a: "a = takeWhile (\<lambda>x. x \<noteq> c) s"
    and b: "b = tl (dropWhile (\<lambda>x. x \<noteq> c) s)"
    using assms by (auto simp: strchr_split_def split: if_splits)
  have ne: "dropWhile (\<lambda>x. x \<noteq> c) s \<noteq> []" using c by (simp add: dropWhile_eq_Nil_conv)
  have "hd (dropWhile (\<lambda>x. x \<noteq> c) s) = c" using hd_dropWhile [OF ne] by simp
  then have "dropWhile (\<lambda>x. x \<noteq> c) s = c # b" using ne b by (metis list.collapse)
  then show "s = a @ c # b" using a by (metis takeWhile_dropWhile_id)
  show "c \<notin> set a" using a by (auto dest: set_takeWhileD)
qed

lemma strrchr_split_Some:
  assumes "strrchr_split c s = Some (a, b)"
  shows "s = a @ c # b" and "c \<notin> set b"
proof -
  have "strchr_split c (rev s) = Some (rev b, rev a)"
    using assms by (auto simp: strrchr_split_def strchr_split_def split: if_splits)
  from strchr_split_Some [OF this] have r: "rev s = rev b @ c # rev a" and n: "c \<notin> set (rev b)" .
  have "s = rev (rev b @ c # rev a)" using r by (metis rev_rev_ident)
  then show "s = a @ c # b" by simp
  show "c \<notin> set b" using n by simp
qed

lemma strtok_all_no_delim: "t \<in> set (strtok_all d s) \<Longrightarrow> t \<noteq> [] \<and> (\<forall>c \<in> set t. \<not> d c)"
proof (induction d s rule: strtok_all.induct)
  case (1 d s)
  let ?t = "dropWhile d s"
  show ?case
  proof (cases "?t = []")
    case True
    with "1.prems" show ?thesis by (simp add: strtok_all.simps [of d s])
  next
    case False
    then have h: "\<not> d (hd ?t)" by (rule hd_dropWhile)
    have "t = takeWhile (\<lambda>c. \<not> d c) ?t \<or> t \<in> set (strtok_all d (dropWhile (\<lambda>c. \<not> d c) ?t))"
      using "1.prems" False by (auto simp: strtok_all.simps [of d s] Let_def split: if_splits)
    then show ?thesis
    proof
      assume t: "t = takeWhile (\<lambda>c. \<not> d c) ?t"
      have "t \<noteq> []" using t h False by (cases ?t) auto
      moreover have "\<forall>c \<in> set t. \<not> d c" using t by (auto dest: set_takeWhileD)
      ultimately show ?thesis by simp
    next
      assume "t \<in> set (strtok_all d (dropWhile (\<lambda>c. \<not> d c) ?t))"
      then show ?thesis using "1.IH" [OF refl False] by blast
    qed
  qed
qed

lemma strtok_all_sublist: "t \<in> set (strtok_all d s) \<Longrightarrow> sublist t s"
proof (induction d s rule: strtok_all.induct)
  case (1 d s)
  let ?t = "dropWhile d s"
  show ?case
  proof (cases "?t = []")
    case True
    with "1.prems" show ?thesis by (simp add: strtok_all.simps [of d s])
  next
    case False
    have suf: "suffix ?t s" by (rule suffix_dropWhile)
    have "t = takeWhile (\<lambda>c. \<not> d c) ?t \<or> t \<in> set (strtok_all d (dropWhile (\<lambda>c. \<not> d c) ?t))"
      using "1.prems" False by (auto simp: strtok_all.simps [of d s] Let_def split: if_splits)
    then have "sublist t ?t"
    proof
      assume "t = takeWhile (\<lambda>c. \<not> d c) ?t"
      then show ?thesis using takeWhile_is_prefix [of "\<lambda>c. \<not> d c" ?t] by (simp add: prefix_imp_sublist)
    next
      assume "t \<in> set (strtok_all d (dropWhile (\<lambda>c. \<not> d c) ?t))"
      then have "sublist t (dropWhile (\<lambda>c. \<not> d c) ?t)" using "1.IH" [OF refl False] by blast
      then show ?thesis
        using suffix_dropWhile [of "\<lambda>c. \<not> d c" ?t] suffix_imp_sublist sublist_order.order_trans by blast
    qed
    then show ?thesis using suf suffix_imp_sublist sublist_order.order_trans by blast
  qed
qed

section \<open>Fixed tables\<close>

text \<open>The first index of a table whose slot satisfies a test, as the \<open>for\<close> loops search it.\<close>

definition find_index :: "('a \<Rightarrow> bool) \<Rightarrow> 'a list \<Rightarrow> nat option" where
  "find_index P xs = (let i = length (takeWhile (\<lambda>x. \<not> P x) xs) in
     if i < length xs then Some i else None)"

lemma find_index_None_iff: "find_index P xs = None \<longleftrightarrow> (\<forall>x \<in> set xs. \<not> P x)"
proof -
  have "length (takeWhile (\<lambda>x. \<not> P x) xs) < length xs
      \<longleftrightarrow> takeWhile (\<lambda>x. \<not> P x) xs \<noteq> xs"
    by (metis length_takeWhile_le nat_less_le takeWhile_eq_take take_all_iff linorder_not_less order_refl)
  then show ?thesis by (simp add: find_index_def Let_def takeWhile_eq_all_conv)
qed

lemma find_index_Some:
  assumes "find_index P xs = Some i"
  shows "i < length xs" and "P (xs ! i)" and "\<And>j. j < i \<Longrightarrow> \<not> P (xs ! j)"
proof -
  have i: "i = length (takeWhile (\<lambda>x. \<not> P x) xs)" and l: "i < length xs"
    using assms by (auto simp: find_index_def Let_def split: if_splits)
  show "i < length xs" by (rule l)
  show "P (xs ! i)" using nth_length_takeWhile [of "\<lambda>x. \<not> P x" xs] i l by simp
  fix j assume "j < i"
  then have j: "j < length (takeWhile (\<lambda>x. \<not> P x) xs)" using i by simp
  then have "takeWhile (\<lambda>x. \<not> P x) xs ! j \<in> set (takeWhile (\<lambda>x. \<not> P x) xs)" by (rule nth_mem)
  then have "\<not> P (takeWhile (\<lambda>x. \<not> P x) xs ! j)" by (auto dest: set_takeWhileD)
  then show "\<not> P (xs ! j)" using j by (simp add: takeWhile_nth)
qed

section \<open>Decimal integers\<close>

definition digit_char :: "nat \<Rightarrow> char" where
  "digit_char d = char_of (48 + d)"

definition digit_val :: "char \<Rightarrow> nat" where
  "digit_val c = byte_of c - 48"

fun nat_str :: "nat \<Rightarrow> string" where
  "nat_str n = (if n < 10 then [digit_char n] else nat_str (n div 10) @ [digit_char (n mod 10)])"

declare nat_str.simps [simp del]

text \<open>\<open>%d\<close>.\<close>

definition int_str :: "int \<Rightarrow> string" where
  "int_str i = (if i < 0 then CHR ''-'' # nat_str (nat (- i)) else nat_str (nat i))"

definition digits_val :: "string \<Rightarrow> nat" where
  "digits_val ds = foldl (\<lambda>acc c. acc * 10 + digit_val c) 0 ds"

definition is_space :: "char \<Rightarrow> bool" where
  "is_space c \<longleftrightarrow> c = CHR '' '' \<or> (9 \<le> byte_of c \<and> byte_of c \<le> 13)"

text \<open>
  \<open>strtol\<close> and \<open>strtoll\<close> in base ten on LP64: leading blanks, a sign, digits.  The scan gives the
  exact value and what is left, or \<^const>\<open>None\<close> without digits (\<open>end == s\<close>); the functions clamp the
  value to 64 bits and set \<open>ERANGE\<close> when they do.
\<close>

definition strtol_scan :: "string \<Rightarrow> (int \<times> string) option" where
  "strtol_scan s =
     (let t = dropWhile is_space s;
          (neg, u) = (case t of c # cs \<Rightarrow> if c = CHR ''-'' then (True, cs) else if c = CHR ''+'' then (False, cs) else (False, t)
                      | [] \<Rightarrow> (False, t));
          ds = takeWhile is_digit u; v = int (digits_val ds) in
      if ds = [] then None else Some (if neg then - v else v, dropWhile is_digit u))"

definition LLONG_MAX :: int where "LLONG_MAX = 9223372036854775807"
definition LLONG_MIN :: int where "LLONG_MIN = - 9223372036854775808"

definition strtol10 :: "string \<Rightarrow> int \<times> string" where
  "strtol10 s = (case strtol_scan s of None \<Rightarrow> (0, s) | Some (v, r) \<Rightarrow> (max LLONG_MIN (min LLONG_MAX v), r))"

definition strtol_erange :: "string \<Rightarrow> bool" where
  "strtol_erange s = (case strtol_scan s of None \<Rightarrow> False | Some (v, r) \<Rightarrow> v < LLONG_MIN \<or> LLONG_MAX < v)"

definition wrap32 :: "int \<Rightarrow> int" where
  "wrap32 i = (i + 2147483648) mod 4294967296 - 2147483648"

text \<open>\<open>atoi\<close>: the \<open>long\<close> converted to \<open>int\<close>.\<close>

definition atoi :: "string \<Rightarrow> int" where
  "atoi s = wrap32 (fst (strtol10 s))"

lemma digit_char_simps [simp]:
  assumes "d < 10"
  shows "is_digit (digit_char d)" "digit_val (digit_char d) = d" "byte_of (digit_char d) = 48 + d"
proof -
  show b: "byte_of (digit_char d) = 48 + d" using assms by (simp add: digit_char_def byte_of_def)
  show "digit_val (digit_char d) = d" using b by (simp add: digit_val_def)
  show "is_digit (digit_char d)"
    using assms by (simp add: is_digit_def digit_char_def less_eq_char_def)
qed

lemma nat_str_digits: "c \<in> set (nat_str n) \<Longrightarrow> is_digit c"
proof (induction n rule: nat_str.induct)
  case (1 n)
  then show ?case by (subst (asm) nat_str.simps) (auto split: if_splits)
qed

lemma nat_str_nonempty [simp]: "nat_str n \<noteq> []"
  by (subst nat_str.simps) simp

lemma length_nat_str: "n < 10 ^ Suc k \<Longrightarrow> length (nat_str n) \<le> Suc k"
proof (induction k arbitrary: n)
  case 0
  then show ?case by (subst nat_str.simps) simp
next
  case (Suc k)
  then have "n div 10 < 10 ^ Suc k" by (simp add: less_mult_imp_div_less mult.commute)
  then show ?case using Suc.IH [of "n div 10"] by (subst nat_str.simps) simp
qed

lemma digits_val_snoc: "digits_val (ds @ [c]) = digits_val ds * 10 + digit_val c"
  by (simp add: digits_val_def)

lemma digits_val_nat_str [simp]: "digits_val (nat_str n) = n"
proof (induction n rule: nat_str.induct)
  case (1 n)
  then show ?case
    by (subst nat_str.simps) (auto simp: digits_val_snoc, simp add: digits_val_def)
qed

lemma digit_not_special: "is_digit c \<Longrightarrow> \<not> is_space c \<and> c \<noteq> CHR ''-'' \<and> c \<noteq> CHR ''+''"
  by (auto simp: is_digit_def is_space_def byte_of_def less_eq_char_def)

lemma wrap32_id: "- (2 ^ 31) \<le> i \<Longrightarrow> i < 2 ^ 31 \<Longrightarrow> wrap32 i = i"
  by (simp add: wrap32_def)

text \<open>\<open>atoi\<close> reads back what \<open>%d\<close> printed, even with more text behind a non-digit.\<close>

lemma strtol_scan_nat_str:
  assumes "rest = [] \<or> \<not> is_digit (hd rest)"
  shows "strtol_scan (nat_str n @ rest) = Some (int n, rest)"
proof -
  obtain c cs where n: "nat_str n = c # cs" by (cases "nat_str n") auto
  then have "is_digit c" using nat_str_digits [of c n] by simp
  then have c: "\<not> is_space c" "c \<noteq> CHR ''-''" "c \<noteq> CHR ''+''" using digit_not_special by auto
  have all: "\<forall>x \<in> set (nat_str n). is_digit x" using nat_str_digits by blast
  have t: "takeWhile is_digit (nat_str n @ rest) = nat_str n" "dropWhile is_digit (nat_str n @ rest) = rest"
    using all assms by (cases rest; auto simp: takeWhile_append dropWhile_append)+
  have d: "dropWhile is_space (nat_str n @ rest) = nat_str n @ rest" using n c by simp
  have s: "(case nat_str n @ rest of x # xs \<Rightarrow> if x = CHR ''-'' then (True, xs)
      else if x = CHR ''+'' then (False, xs) else (False, nat_str n @ rest)
      | [] \<Rightarrow> (False, nat_str n @ rest)) = (False, nat_str n @ rest)"
    using n c by simp
  show ?thesis
    unfolding strtol_scan_def Let_def d s using t by simp
qed

lemma strtol10_nat_str:
  "int n \<le> LLONG_MAX \<Longrightarrow> rest = [] \<or> \<not> is_digit (hd rest) \<Longrightarrow> strtol10 (nat_str n @ rest) = (int n, rest)"
  by (simp add: strtol10_def strtol_scan_nat_str LLONG_MIN_def)

lemma atoi_int_str: "0 \<le> i \<Longrightarrow> i < 2 ^ 31 \<Longrightarrow> atoi (int_str i) = i"
  using strtol10_nat_str [of "nat i" "[]"] by (simp add: atoi_def int_str_def wrap32_id LLONG_MAX_def)

end
