(* ===== verification/Allowlist_Path.thy ===== *)
theory Allowlist_Path
  imports Prelude
begin

text \<open>
  Workspace containment for the paths of shell commands: \<open>src/sandbox/allowlist_path.c\<close>.
  The kernel's file system and the process environment are the record \<open>os\<close>, an argument of
  every definition that consults them: \<open>realpath(3)\<close>, \<open>access(2)\<close>, \<open>lstat(2)\<close> (whether the
  path is a symbolic link), \<open>getenv\<close> of \<open>HOME\<close> and \<open>PWD\<close>, and whether \<open>strdup\<close> obtains
  memory.  The theorems below show that the lexical collapse always succeeds on a path that
  fits the buffer and crosses no link, that it computes the reference normal form, and that
  a path is accepted only on the evidence of a resolved path inside the workspace.
\<close>

section \<open>The environment\<close>

record os =
  os_realpath :: "string \<Rightarrow> string option"
  os_access :: "string \<Rightarrow> bool"
  os_islnk :: "string \<Rightarrow> bool"
  os_home :: "string option"
  os_pwd :: "string option"
  os_strdup :: bool

definition PATH_MAX :: nat where
  "PATH_MAX = 4096"

abbreviation slash :: char where
  "slash \<equiv> CHR ''/''"

section \<open>Definitions\<close>

definition resolved_is_under_workspace :: "string \<Rightarrow> string \<Rightarrow> bool" where
  "resolved_is_under_workspace resolved actual_ws =
     (if actual_ws = [] then False
      else if \<not> prefix actual_ws resolved then False
      else ch resolved (length actual_ws) = nul \<or> ch resolved (length actual_ws) = slash)"

text \<open>\<open>dirname(3)\<close>: drop trailing slashes, the last component, and the slashes before it.\<close>

definition strip_slashes :: "string \<Rightarrow> string" where
  "strip_slashes s = rev (dropWhile (\<lambda>c. c = slash) (rev s))"

definition dirname :: "string \<Rightarrow> string" where
  "dirname p =
     (let q = strip_slashes p in
      if q = [] then (if p = [] then ''.'' else ''/'')
      else let d = rev (dropWhile (\<lambda>c. c \<noteq> slash) (rev q)) in
        if d = [] then ''.''
        else let e = strip_slashes d in if e = [] then ''/'' else e)"

text \<open>The walk to the first existing ancestor; the fuel is the loop's own bound \<open>PATH_MAX\<close>.\<close>

fun ancestor_walk :: "os \<Rightarrow> string \<Rightarrow> nat \<Rightarrow> string \<Rightarrow> bool" where
  "ancestor_walk k actual_ws 0 path_copy = False"
| "ancestor_walk k actual_ws (Suc hops) path_copy =
     (let parent = dirname path_copy in
      if parent = [] \<or> length parent \<ge> PATH_MAX then False
      else case os_realpath k parent of
        Some resolved \<Rightarrow> resolved_is_under_workspace resolved actual_ws
      | None \<Rightarrow> if parent = ''.'' \<or> parent = ''/'' then False
                else ancestor_walk k actual_ws hops parent)"

definition existing_ancestor_is_under_workspace :: "os \<Rightarrow> string \<Rightarrow> string \<Rightarrow> bool" where
  "existing_ancestor_is_under_workspace k path actual_ws =
     (if path = [] \<or> length path \<ge> PATH_MAX then False
      else ancestor_walk k actual_ws PATH_MAX path)"

definition append_path_seg :: "nat \<Rightarrow> string \<Rightarrow> string \<Rightarrow> bool \<Rightarrow> string option" where
  "append_path_seg cap buf seg add_slash =
     (if add_slash \<and> length buf + 1 \<ge> cap then None
      else let b = (if add_slash then buf @ [slash] else buf) in
        if length b + length seg + 1 > cap then None else Some (b @ seg))"

text \<open>The loops that append the components; \<open>sl i len\<close> is the loop's \<open>add_slash\<close> argument.\<close>

fun append_parts :: "(nat \<Rightarrow> nat \<Rightarrow> bool) \<Rightarrow> nat \<Rightarrow> nat \<Rightarrow> string \<Rightarrow> string list \<Rightarrow> string option" where
  "append_parts sl cap i buf [] = Some buf"
| "append_parts sl cap i buf (p # ps) =
     (case append_path_seg cap buf p (sl i (length buf)) of
        None \<Rightarrow> None | Some b \<Rightarrow> append_parts sl cap (Suc i) b ps)"

definition stacked_path_is_symlink :: "os \<Rightarrow> string list \<Rightarrow> bool \<Rightarrow> bool" where
  "stacked_path_is_symlink k parts absolute =
     (case append_parts (\<lambda>i len. if absolute \<and> i = 0 then False else len > 0)
             PATH_MAX 0 (if absolute then ''/'' else []) parts of
        None \<Rightarrow> True | Some probe \<Rightarrow> os_islnk k probe)"

text \<open>The \<open>/\<close>-separated segments in the order the \<open>while (*cur)\<close> loop cuts them.\<close>

function path_segs :: "string \<Rightarrow> string list" where
  "path_segs s = (if s = [] then []
     else takeWhile (\<lambda>c. c \<noteq> slash) s # path_segs (drop 1 (dropWhile (\<lambda>c. c \<noteq> slash) s)))"
  by pat_completeness auto
termination
proof (relation "measure length")
  fix s :: string assume "s \<noteq> []"
  then show "(drop 1 (dropWhile (\<lambda>c. c \<noteq> slash) s), s) \<in> measure length"
    using length_dropWhile_le [of "\<lambda>c. c \<noteq> slash" s] by (cases s) auto
qed simp

declare path_segs.simps [simp del]

fun collapse_segs :: "os \<Rightarrow> bool \<Rightarrow> string list \<Rightarrow> string list \<Rightarrow> string list option" where
  "collapse_segs k absolute parts [] = Some parts"
| "collapse_segs k absolute parts (seg # rest) =
     (if seg = [] \<or> seg = ''.'' then collapse_segs k absolute parts rest
      else if seg = ''..'' then
        (if parts \<noteq> [] then
           (if stacked_path_is_symlink k parts absolute then None
            else collapse_segs k absolute (butlast parts) rest)
         else collapse_segs k absolute parts rest)
      else if length parts \<ge> PATH_MAX div 2 then None
      else collapse_segs k absolute (parts @ [seg]) rest)"

definition lexical_collapse_path :: "os \<Rightarrow> string \<Rightarrow> string option" where
  "lexical_collapse_path k path =
     (if path = [] \<or> length path \<ge> PATH_MAX then None
      else let absolute = (ch path 0 = slash) in
        case collapse_segs k absolute [] (path_segs (if absolute then tl path else path)) of
          None \<Rightarrow> None
        | Some parts \<Rightarrow>
            if \<not> absolute \<and> parts = [] then Some ''.''
            else append_parts
              (\<lambda>i len. if \<not> absolute \<and> i = 0 then False else len > (if absolute then 1 else 0))
              PATH_MAX 0 (if absolute then ''/'' else []) parts)"

definition allowlist_path_is_under_workspace :: "os \<Rightarrow> string \<Rightarrow> string \<Rightarrow> bool" where
  "allowlist_path_is_under_workspace k path workspace_root =
     (if workspace_root = [] then False
      else let actual_ws = (case os_realpath k workspace_root of
                              Some resolved_ws \<Rightarrow> resolved_ws | None \<Rightarrow> workspace_root) in
        case os_realpath k path of
          Some resolved_path \<Rightarrow> resolved_is_under_workspace resolved_path actual_ws
        | None \<Rightarrow>
            (case lexical_collapse_path k path of
               None \<Rightarrow> False
             | Some collapsed \<Rightarrow>
                 (case os_realpath k collapsed of
                    Some resolved_path \<Rightarrow> resolved_is_under_workspace resolved_path actual_ws
                  | None \<Rightarrow> existing_ancestor_is_under_workspace k collapsed actual_ws)))"

section \<open>The reference normal form\<close>

text \<open>What \<open>.\<close> and \<open>..\<close> mean lexically: a stack of components, with no buffers and no links.\<close>

fun norm_segs :: "string list \<Rightarrow> string list \<Rightarrow> string list" where
  "norm_segs st [] = st"
| "norm_segs st (seg # rest) =
     (if seg = [] \<or> seg = ''.'' then norm_segs st rest
      else if seg = ''..'' then norm_segs (butlast st) rest
      else norm_segs (st @ [seg]) rest)"

fun join_segs :: "string list \<Rightarrow> string" where
  "join_segs [] = []"
| "join_segs [x] = x"
| "join_segs (x # y # xs) = x @ slash # join_segs (y # xs)"

definition norm_path :: "string \<Rightarrow> string" where
  "norm_path path =
     (let absolute = (ch path 0 = slash);
          parts = norm_segs [] (path_segs (if absolute then tl path else path)) in
      if absolute then slash # join_segs parts
      else if parts = [] then ''.'' else join_segs parts)"

definition clean_seg :: "string \<Rightarrow> bool" where
  "clean_seg s \<longleftrightarrow> s \<noteq> [] \<and> s \<noteq> ''.'' \<and> s \<noteq> ''..'' \<and> slash \<notin> set s"

abbreviation clean :: "string list \<Rightarrow> bool" where
  "clean xs \<equiv> list_all clean_seg xs"

definition seg_weight :: "string list \<Rightarrow> nat" where
  "seg_weight xs = sum_list (map (\<lambda>s. length s + 1) xs)"

section \<open>Segments, joins and weights\<close>

lemma seg_weight_simps [simp]:
  "seg_weight [] = 0" "seg_weight (x # xs) = length x + 1 + seg_weight xs"
  "seg_weight (xs @ ys) = seg_weight xs + seg_weight ys"
  by (simp_all add: seg_weight_def)

lemma seg_weight_butlast: "seg_weight (butlast xs) \<le> seg_weight xs"
  by (cases xs rule: rev_cases) auto

lemma path_segs_Nil [simp]: "path_segs [] = []"
  by (simp add: path_segs.simps)

lemma path_segs_no_slash:
  assumes "slash \<notin> set s" "s \<noteq> []" shows "path_segs s = [s]"
proof -
  have "takeWhile (\<lambda>c. c \<noteq> slash) s = s" and d: "dropWhile (\<lambda>c. c \<noteq> slash) s = []"
    using assms(1) by (auto simp: takeWhile_eq_all_conv dropWhile_eq_Nil_conv)
  then show ?thesis using assms(2) by (subst path_segs.simps) (simp only: d, simp)
qed

lemma path_segs_Cons_slash:
  assumes "slash \<notin> set a" shows "path_segs (a @ slash # b) = a # path_segs b"
proof -
  have "takeWhile (\<lambda>c. c \<noteq> slash) (a @ slash # b) = a"
    "dropWhile (\<lambda>c. c \<noteq> slash) (a @ slash # b) = slash # b"
    using assms by (auto simp: takeWhile_append dropWhile_append)
  then show ?thesis by (subst path_segs.simps) simp
qed

lemma path_segs_weight: "seg_weight (path_segs s) \<le> length s + 1"
proof (induction s rule: path_segs.induct)
  case (1 s)
  show ?case
  proof (cases "s = []")
    case False
    let ?d = "dropWhile (\<lambda>c. c \<noteq> slash) s" and ?t = "takeWhile (\<lambda>c. c \<noteq> slash) s"
    have len: "length ?t + length ?d = length s"
      by (metis length_append takeWhile_dropWhile_id)
    have "seg_weight (path_segs s) = length ?t + 1 + seg_weight (path_segs (drop 1 ?d))"
      using False by (simp add: path_segs.simps [of s])
    moreover have "seg_weight (path_segs (drop 1 ?d)) \<le> length (drop 1 ?d) + 1"
      using "1.IH" False by blast
    ultimately show ?thesis using len by (cases ?d) (auto simp del: dropWhile_eq_Nil_conv)
  qed simp
qed

lemma path_segs_slash_free: "s \<in> set (path_segs p) \<Longrightarrow> slash \<notin> set s"
proof (induction p rule: path_segs.induct)
  case (1 p)
  then show ?case
    by (cases "p = []") (auto simp: path_segs.simps [of p] dest: set_takeWhileD)
qed

lemma clean_seg_slash_free: "clean_seg s \<Longrightarrow> slash \<notin> set s"
  by (simp add: clean_seg_def)

lemma join_segs_Cons: "join_segs (x # xs) = x @ (if xs = [] then [] else slash # join_segs xs)"
  by (cases xs) auto

lemma join_segs_append:
  "ys \<noteq> [] \<Longrightarrow> xs \<noteq> [] \<Longrightarrow> join_segs (xs @ ys) = join_segs xs @ slash # join_segs ys"
  by (induction xs) (auto simp: join_segs_Cons)

lemma length_join_segs: "xs \<noteq> [] \<Longrightarrow> length (join_segs xs) + 1 = seg_weight xs"
  by (induction xs) (auto simp: join_segs_Cons)

lemma path_segs_join_segs: "clean xs \<Longrightarrow> path_segs (join_segs xs) = xs"
proof (induction xs)
  case (Cons x xs)
  then have "slash \<notin> set x" "x \<noteq> []" by (auto simp: clean_seg_def)
  then show ?case using Cons
    by (auto simp: join_segs_Cons path_segs_no_slash path_segs_Cons_slash)
qed simp

lemma norm_segs_clean:
  "clean st \<Longrightarrow> \<forall>s \<in> set segs. slash \<notin> set s \<Longrightarrow> clean (norm_segs st segs)"
proof (induction segs arbitrary: st)
  case (Cons s segs)
  have "clean (butlast st)" using Cons.prems(1) by (auto simp: list_all_iff dest: in_set_butlastD)
  moreover have "s \<noteq> [] \<Longrightarrow> s \<noteq> ''.'' \<Longrightarrow> s \<noteq> ''..'' \<Longrightarrow> clean_seg s"
    using Cons.prems(2) by (simp add: clean_seg_def)
  ultimately show ?case using Cons by auto
qed simp

lemma norm_segs_of_clean: "clean xs \<Longrightarrow> norm_segs st xs = st @ xs"
  by (induction xs arbitrary: st) (auto simp: clean_seg_def)

section \<open>The collapse computes the normal form\<close>

lemma append_path_seg_fits:
  "length buf + length seg + (if add_slash then 2 else 1) \<le> cap \<Longrightarrow>
   append_path_seg cap buf seg add_slash = Some (buf @ (if add_slash then slash # seg else seg))"
  by (auto simp: append_path_seg_def Let_def)

lemma append_parts_slashes:
  assumes "\<And>j len. i \<le> j \<Longrightarrow> length buf \<le> len \<Longrightarrow> sl j len"
    and "length buf + seg_weight ps < cap"
  shows "append_parts sl cap i buf ps = Some (buf @ concat (map (\<lambda>p. slash # p) ps))"
  using assms
proof (induction ps arbitrary: i buf)
  case (Cons p ps)
  have "sl i (length buf)" using Cons.prems(1) by simp
  then have "append_path_seg cap buf p (sl i (length buf)) = Some (buf @ slash # p)"
    using Cons.prems(2) by (simp add: append_path_seg_fits)
  moreover have "append_parts sl cap (Suc i) (buf @ slash # p) ps =
      Some ((buf @ slash # p) @ concat (map (\<lambda>p. slash # p) ps))"
    using Cons.prems by (intro Cons.IH) auto
  ultimately show ?case by simp
qed simp

lemma join_segs_concat: "join_segs (x # xs) = x @ concat (map (\<lambda>p. slash # p) xs)"
  by (induction xs arbitrary: x) (auto simp: join_segs_Cons)

lemma append_parts_join:
  assumes first: "\<not> sl 0 (length buf)" and later: "\<And>j len. 0 < j \<Longrightarrow> length buf < len \<Longrightarrow> sl j len"
    and ne: "clean ps" and fit: "length buf + seg_weight ps \<le> cap"
  shows "append_parts sl cap 0 buf ps = Some (buf @ join_segs ps)"
proof (cases ps)
  case (Cons p qs)
  then have p: "1 \<le> length p" using ne by (cases p) (auto simp: clean_seg_def)
  have "append_path_seg cap buf p (sl 0 (length buf)) = Some (buf @ p)"
    using first fit Cons by (simp add: append_path_seg_fits)
  moreover have "append_parts sl cap (Suc 0) (buf @ p) qs =
      Some ((buf @ p) @ concat (map (\<lambda>p. slash # p) qs))"
  proof (rule append_parts_slashes)
    fix j len assume "Suc 0 \<le> j" "length (buf @ p) \<le> len"
    then show "sl j len" using p by (intro later) (auto simp del: length_greater_0_conv)
  next
    show "length (buf @ p) + seg_weight qs < cap" using fit Cons by simp
  qed
  ultimately show ?thesis using Cons by (simp add: join_segs_concat)
qed simp

lemma probe_parts:
  assumes "clean parts" "seg_weight parts < PATH_MAX"
  shows "stacked_path_is_symlink k parts absolute =
    os_islnk k ((if absolute then ''/'' else []) @ join_segs parts)"
proof -
  have "append_parts (\<lambda>i len. if absolute \<and> i = 0 then False else len > 0) PATH_MAX 0
      (if absolute then ''/'' else []) parts =
      Some ((if absolute then ''/'' else []) @ join_segs parts)"
    using assms by (intro append_parts_join) auto
  then show ?thesis by (simp add: stacked_path_is_symlink_def)
qed

lemma clean_weight: "clean xs \<Longrightarrow> 2 * length xs \<le> seg_weight xs"
proof (induction xs)
  case (Cons x xs)
  then have "1 \<le> length x" by (cases x) (auto simp: clean_seg_def)
  then show ?case using Cons by (simp del: One_nat_def)
qed simp

lemma collapse_segs_norm:
  assumes "clean parts" "\<forall>s \<in> set segs. slash \<notin> set s"
    and "seg_weight parts + seg_weight segs \<le> PATH_MAX" and "\<And>p. \<not> os_islnk k p"
  shows "collapse_segs k absolute parts segs = Some (norm_segs parts segs)"
  using assms(1-3)
proof (induction segs arbitrary: parts)
  case (Cons s segs)
  have wb: "seg_weight (butlast parts) \<le> seg_weight parts" by (rule seg_weight_butlast)
  have cb: "clean (butlast parts)" using Cons.prems(1) by (auto simp: list_all_iff dest: in_set_butlastD)
  have lnk: "\<not> stacked_path_is_symlink k parts absolute"
    using probe_parts [of parts k absolute] Cons.prems assms(4) by simp
  show ?case
  proof (cases "s = [] \<or> s = ''.'' \<or> s = ''..''")
    case True
    then show ?thesis using Cons lnk wb cb by (cases "parts = []") auto
  next
    case False
    then have "clean_seg s" using Cons.prems(2) by (simp add: clean_seg_def)
    then have c: "clean (parts @ [s])" using Cons.prems(1) by simp
    have "2 * length (parts @ [s]) \<le> seg_weight (parts @ [s])" using clean_weight [OF c] .
    then have "length parts < PATH_MAX div 2" using Cons.prems(3) by (simp add: PATH_MAX_def)
    then show ?thesis using False Cons.prems c Cons.IH [of "parts @ [s]"] by simp
  qed
qed simp

lemma norm_segs_weight: "seg_weight (norm_segs st segs) \<le> seg_weight st + seg_weight segs"
proof (induction segs arbitrary: st)
  case (Cons s segs)
  have "seg_weight (butlast st) \<le> seg_weight st" by (rule seg_weight_butlast)
  then show ?case using Cons [of st] Cons [of "butlast st"] Cons [of "st @ [s]"] by auto
qed simp

lemma lexical_collapse_path_norm:
  assumes "path \<noteq> []" "length path < PATH_MAX" "\<And>p. \<not> os_islnk k p"
  shows "lexical_collapse_path k path = Some (norm_path path)"
proof -
  define a where "a = (ch path 0 = slash)"
  define segs where "segs = path_segs (if a then tl path else path)"
  define parts where "parts = norm_segs [] segs"
  have sf: "\<forall>s \<in> set segs. slash \<notin> set s"
    unfolding segs_def by (auto dest: path_segs_slash_free split: if_splits)
  have w: "seg_weight segs + (if a then 1 else 0) \<le> length path + 1"
    using path_segs_weight [of "tl path"] path_segs_weight [of path] assms(1)
    by (cases path) (auto simp: segs_def)
  have "seg_weight [] + seg_weight segs \<le> PATH_MAX" using w assms(2) by auto
  then have cs: "collapse_segs k a [] segs = Some parts"
    unfolding parts_def using sf assms(3) by (intro collapse_segs_norm) auto
  have cl: "clean parts" unfolding parts_def using sf by (intro norm_segs_clean) auto
  have pw: "seg_weight parts \<le> seg_weight segs"
    using norm_segs_weight [of "[]" segs] by (simp add: parts_def)
  have "append_parts (\<lambda>i len. if \<not> a \<and> i = 0 then False else len > (if a then 1 else 0))
      PATH_MAX 0 (if a then ''/'' else []) parts = Some ((if a then ''/'' else []) @ join_segs parts)"
    using cl pw w assms(2) by (intro append_parts_join) (auto split: if_splits)
  then have l: "lexical_collapse_path k path =
      (if \<not> a \<and> parts = [] then Some ''.'' else Some ((if a then ''/'' else []) @ join_segs parts))"
    using assms(1,2) cs unfolding lexical_collapse_path_def Let_def
    by (simp only: a_def [symmetric] segs_def [symmetric]) (cases a; simp)
  have "norm_path path = (if a then slash # join_segs parts
      else if parts = [] then ''.'' else join_segs parts)"
    unfolding norm_path_def Let_def by (simp only: a_def [symmetric] segs_def [symmetric] parts_def [symmetric])
  then show ?thesis using l by simp
qed

section \<open>Absolute normal paths\<close>

definition abs_of :: "string list \<Rightarrow> string" where
  "abs_of ps = slash # join_segs ps"

lemma norm_segs_subset: "s \<in> set (norm_segs st segs) \<Longrightarrow> s \<in> set st \<or> s \<in> set segs"
proof (induction segs arbitrary: st)
  case (Cons x xs)
  then show ?case by (auto split: if_splits dest!: Cons.IH dest: in_set_butlastD)
qed simp

lemma path_segs_subset: "s \<in> set (path_segs p) \<Longrightarrow> set s \<subseteq> set p"
proof (induction p rule: path_segs.induct)
  case (1 p)
  have d: "set (drop 1 (dropWhile (\<lambda>c. c \<noteq> slash) p)) \<subseteq> set p"
    by (meson set_drop_subset set_dropWhileD subsetD subsetI)
  show ?case
  proof (cases "p = []")
    case False
    then have "s = takeWhile (\<lambda>c. c \<noteq> slash) p
        \<or> s \<in> set (path_segs (drop 1 (dropWhile (\<lambda>c. c \<noteq> slash) p)))"
      using "1.prems" by (simp add: path_segs.simps [of p])
    then show ?thesis using "1.IH" [OF False] d by (auto dest: set_takeWhileD)
  qed (use "1.prems" in simp)
qed

lemma norm_path_abs:
  assumes "ch path 0 = slash"
  shows "\<exists>ps. clean ps \<and> norm_path path = abs_of ps \<and> (\<forall>s \<in> set ps. set s \<subseteq> set path)
    \<and> seg_weight ps \<le> length path"
proof -
  let ?ps = "norm_segs [] (path_segs (tl path))"
  have "clean ?ps" by (intro norm_segs_clean) (auto dest: path_segs_slash_free)
  moreover have "\<forall>s \<in> set ?ps. set s \<subseteq> set path"
  proof
    fix s assume "s \<in> set ?ps"
    then have "s \<in> set (path_segs (tl path))" by (auto dest: norm_segs_subset)
    then have "set s \<subseteq> set (tl path)" by (rule path_segs_subset)
    then show "set s \<subseteq> set path" by (cases path) auto
  qed
  moreover have "path \<noteq> []" using assms by (auto simp: nul_def)
  then have "seg_weight ?ps \<le> length path"
    using norm_segs_weight [of "[]" "path_segs (tl path)"] path_segs_weight [of "tl path"]
    by (cases path) auto
  moreover have "norm_path path = abs_of ?ps" using assms by (simp add: norm_path_def abs_of_def)
  ultimately show ?thesis by blast
qed

lemma norm_path_abs_of: "clean ps \<Longrightarrow> norm_path (abs_of ps) = abs_of ps"
  by (simp add: norm_path_def abs_of_def path_segs_join_segs norm_segs_of_clean)

lemma set_join_segs: "set (join_segs ps) \<subseteq> insert slash (\<Union> (set ` set ps))"
  by (induction ps) (auto simp: join_segs_Cons)

lemma path_segs_join_append:
  "clean ws \<Longrightarrow> ws \<noteq> [] \<Longrightarrow> path_segs (join_segs ws @ slash # u) = ws @ path_segs u"
proof (induction ws)
  case (Cons w ws)
  then show ?case
    by (cases "ws = []")
      (auto simp: join_segs_Cons path_segs_Cons_slash clean_seg_slash_free)
qed simp

lemma abs_of_append: "xs \<noteq> [] \<Longrightarrow> ys \<noteq> [] \<Longrightarrow> abs_of (xs @ ys) = abs_of xs @ slash # join_segs ys"
  by (simp add: abs_of_def join_segs_append)

lemma resolved_under_iff:
  assumes "actual_ws \<noteq> []" "nul \<notin> set r"
  shows "resolved_is_under_workspace r actual_ws \<longleftrightarrow>
    r = actual_ws \<or> (\<exists>u. r = actual_ws @ slash # u)"
proof
  assume h: "resolved_is_under_workspace r actual_ws"
  then obtain t where r: "r = actual_ws @ t"
    by (auto simp: resolved_is_under_workspace_def prefix_def split: if_splits)
  have "ch t 0 = nul \<or> ch t 0 = slash"
    using h r by (auto simp: resolved_is_under_workspace_def split: if_splits)
  then show "r = actual_ws \<or> (\<exists>u. r = actual_ws @ slash # u)"
    using r assms(2) by (cases t) auto
qed (use assms in \<open>auto simp: resolved_is_under_workspace_def ch_def\<close>)

lemma abs_under_iff:
  assumes "clean ps" "clean ws" "ws \<noteq> []" "nul \<notin> set (abs_of ps)"
  shows "resolved_is_under_workspace (abs_of ps) (abs_of ws) \<longleftrightarrow> prefix ws ps"
proof -
  have "abs_of ps = abs_of ws \<longleftrightarrow> ps = ws"
    using assms path_segs_join_segs by (metis abs_of_def list.inject)
  moreover have "(\<exists>u. abs_of ps = abs_of ws @ slash # u) \<longleftrightarrow> (\<exists>v. v \<noteq> [] \<and> ps = ws @ v)" (is "?l \<longleftrightarrow> ?r")
  proof
    assume ?l
    then obtain u where u: "join_segs ps = join_segs ws @ slash # u" by (auto simp: abs_of_def)
    then have "ps = ws @ path_segs u" using path_segs_join_segs [OF assms(1)] path_segs_join_append assms(2,3) by metis
    moreover have "ps \<noteq> ws" using u by auto
    ultimately show ?r by auto
  next
    assume ?r
    then show ?l using abs_of_append assms(3) by blast
  qed
  moreover have "abs_of ws \<noteq> []" by (simp add: abs_of_def)
  ultimately show ?thesis using resolved_under_iff [of "abs_of ws" "abs_of ps"] assms(4)
    by (auto simp: prefix_def)
qed

section \<open>Ancestors\<close>

inductive ancestor :: "string \<Rightarrow> string \<Rightarrow> bool" where
  parent: "ancestor p (dirname p)"
| above: "ancestor p q \<Longrightarrow> ancestor p (dirname q)"

lemma ancestor_of_parent: "ancestor (dirname p) q \<Longrightarrow> ancestor p q"
  by (induction "dirname p" q rule: ancestor.induct) (auto intro: ancestor.intros)

lemma ancestor_walk_evidence:
  "ancestor_walk k ws n p \<Longrightarrow>
   \<exists>q r. ancestor p q \<and> os_realpath k q = Some r \<and> resolved_is_under_workspace r ws"
proof (induction n arbitrary: p)
  case (Suc n)
  then show ?case
    by (auto simp: Let_def split: if_splits option.splits
        intro: ancestor.parent ancestor_of_parent dest!: Suc.IH)
qed simp

lemma strip_slashes_snoc [simp]:
  "strip_slashes (s @ [c]) = (if c = slash then strip_slashes s else s @ [c])"
  by (simp add: strip_slashes_def)

lemma length_strip_slashes: "length (strip_slashes s) \<le> length s"
  by (metis length_dropWhile_le length_rev strip_slashes_def)

lemma dirname_shorter:
  assumes "dirname p \<noteq> ''.''" "dirname p \<noteq> ''/''"
  shows "length (dirname p) < length p"
proof -
  let ?q = "strip_slashes p"
  let ?d = "rev (dropWhile (\<lambda>c. c \<noteq> slash) (rev ?q))"
  have n: "?q \<noteq> []" "?d \<noteq> []" "strip_slashes ?d \<noteq> []" and e: "dirname p = strip_slashes ?d"
    using assms by (auto simp: dirname_def Let_def split: if_splits)
  from n(2) have "last ?d = slash" using hd_dropWhile [of "\<lambda>c. c \<noteq> slash" "rev ?q"] by (simp only: last_rev rev_is_Nil_conv) simp
  then have "strip_slashes ?d \<noteq> ?d"
    using n(3) by (metis (mono_tags, lifting) hd_dropWhile hd_rev rev_is_Nil_conv rev_rev_ident strip_slashes_def)
  moreover have "suffix (dropWhile (\<lambda>c. c = slash) (rev ?d)) (rev ?d)" by (rule suffix_dropWhile)
  ultimately have "length (strip_slashes ?d) < length ?d"
    by (metis length_rev rev_rev_ident same_length_different strip_slashes_def suffix_length_less strict_suffix_def)
  also have "\<dots> \<le> length p" using length_strip_slashes [of p] length_dropWhile_le [of _ "rev ?q"]
    by (metis dual_order.trans length_rev)
  finally show ?thesis using e by simp
qed

lemma dirname_component:
  assumes "x \<noteq> []" "slash \<notin> set x"
  shows "dirname (d @ slash # x) = (if strip_slashes d = [] then ''/'' else strip_slashes d)"
proof -
  obtain y c where x: "x = y @ [c]" using assms(1) by (cases x rule: rev_cases) auto
  have c: "c \<noteq> slash" and y: "slash \<notin> set (rev y)" using assms(2) x by auto
  have "strip_slashes ((d @ slash # y) @ [c]) = (d @ slash # y) @ [c]"
    using c by (simp only: strip_slashes_snoc if_False)
  then have q: "strip_slashes (d @ slash # x) = d @ slash # x" using x by simp
  have "dropWhile (\<lambda>c. c \<noteq> slash) (rev (d @ slash # x)) = slash # rev d"
    using c y x by (simp add: dropWhile_append)
  then show ?thesis using q by (simp add: dirname_def Let_def)
qed

lemma join_segs_last: "clean ps \<Longrightarrow> ps \<noteq> [] \<Longrightarrow> \<exists>s c. join_segs ps = s @ [c] \<and> c \<noteq> slash"
proof (induction ps)
  case (Cons p ps)
  show ?case
  proof (cases "ps = []")
    case True
    have "p \<noteq> []" "slash \<notin> set p" using Cons.prems by (auto simp: clean_seg_def)
    then show ?thesis using True by (cases p rule: rev_cases) auto
  next
    case False
    then obtain s c where "join_segs ps = s @ [c]" "c \<noteq> slash" using Cons by auto
    then have "join_segs (p # ps) = (p @ slash # s) @ [c]" using False by (simp add: join_segs_Cons)
    then show ?thesis using \<open>c \<noteq> slash\<close> by blast
  qed
qed simp

lemma dirname_abs_of_Nil: "dirname (abs_of []) = abs_of []"
  by (simp add: dirname_def abs_of_def strip_slashes_def)

lemma dirname_abs_of:
  assumes "clean ps" "clean_seg x"
  shows "dirname (abs_of (ps @ [x])) = abs_of ps"
proof (cases "ps = []")
  case True
  have "dirname ([] @ slash # x) = ''/''"
    using assms(2) by (subst dirname_component) (auto simp: clean_seg_def strip_slashes_def)
  then show ?thesis using True by (simp add: abs_of_def)
next
  case False
  then obtain s c where j: "join_segs ps = s @ [c]" "c \<noteq> slash" using join_segs_last assms(1) by blast
  then have st: "strip_slashes (abs_of ps) = abs_of ps"
    using strip_slashes_snoc [of "slash # s" c] by (simp add: abs_of_def)
  have "dirname (abs_of ps @ slash # x) = abs_of ps"
    using assms(2) st by (subst dirname_component) (auto simp: clean_seg_def abs_of_def)
  then show ?thesis using False by (simp add: abs_of_append)
qed

lemma length_abs_of: "clean ps \<Longrightarrow> length ps \<le> length (abs_of ps)"
  using clean_weight [of ps] length_join_segs [of ps] by (cases "ps = []") (auto simp: abs_of_def)

lemma abs_of_prefix_length: "length (abs_of ps) \<le> length (abs_of (ps @ [x]))"
  by (cases "ps = []") (auto simp: abs_of_def join_segs_append)

section \<open>Link-free file systems\<close>

text \<open>
  In a file system without symbolic links \<open>realpath\<close> returns the lexical normal form of every
  absolute path that exists (POSIX: an absolute path naming the same object with no \<open>.\<close>,
  \<open>..\<close> or link components).
\<close>

definition link_free :: "os \<Rightarrow> bool" where
  "link_free k \<longleftrightarrow> (\<forall>p. \<not> os_islnk k p) \<and>
     (\<forall>p r. ch p 0 = slash \<longrightarrow> os_realpath k p = Some r \<longrightarrow> r = norm_path p)"

lemma ancestor_walk_link_free:
  assumes "link_free k" "clean ps" "clean ws" "ws \<noteq> []" "nul \<notin> set (abs_of ps)"
    and ex: "os_realpath k (abs_of ws) = Some (abs_of ws)"
    and "length (abs_of ps) < PATH_MAX" "length ps < n" "ps \<noteq> ws"
  shows "ancestor_walk k (abs_of ws) n (abs_of ps) \<longleftrightarrow> prefix ws ps"
  using assms(2,5,7-)
proof (induction n arbitrary: ps)
  case (Suc n)
  show ?case
  proof (cases ps rule: rev_cases)
    case Nil
    have "\<not> resolved_is_under_workspace (abs_of []) (abs_of ws)"
      using abs_under_iff [of "[]" ws] Suc.prems Nil assms(3,4) by auto
    moreover have "r = abs_of []" if "os_realpath k (abs_of []) = Some r" for r
      using assms(1) that norm_path_abs_of [of "[]"] by (simp add: link_free_def abs_of_def)
    ultimately show ?thesis using Nil assms(4)
      using dirname_abs_of_Nil by (auto simp: Let_def abs_of_def split: option.splits)
  next
    case (snoc qs x)
    have c: "clean qs" "clean_seg x" using Suc.prems(1) snoc by auto
    have d: "dirname (abs_of ps) = abs_of qs" using dirname_abs_of c snoc by simp
    have len: "length (abs_of qs) < PATH_MAX"
      using Suc.prems(3) abs_of_prefix_length [of qs x] snoc by simp
    have nn: "nul \<notin> set (abs_of qs)"
      using Suc.prems(2) snoc by (cases "qs = []") (auto simp: abs_of_def join_segs_append)
    have u: "resolved_is_under_workspace (abs_of qs) (abs_of ws) \<longleftrightarrow> prefix ws qs"
      using abs_under_iff c assms(3,4) nn by blast
    have r: "r = abs_of qs" if "os_realpath k (abs_of qs) = Some r" for r
      using assms(1) that norm_path_abs_of [OF c(1)] by (simp add: link_free_def abs_of_def)
    have pq: "prefix ws ps \<longleftrightarrow> prefix ws qs" using snoc Suc.prems(5) by auto
    have root: "abs_of qs = ''/'' \<longleftrightarrow> qs = []"
      using path_segs_join_segs [OF c(1)] by (auto simp: abs_of_def)
    show ?thesis
    proof (cases "os_realpath k (abs_of qs)")
      case None
      then have "qs \<noteq> ws" using ex by auto
      then have "ancestor_walk k (abs_of ws) n (abs_of qs) \<longleftrightarrow> prefix ws qs"
        using Suc.IH [of qs] c nn len Suc.prems(4) snoc by simp
      then show ?thesis using None d len root pq assms(4) by (auto simp: Let_def abs_of_def)
    next
      case (Some r')
      then show ?thesis using r u d len pq by (auto simp: Let_def abs_of_def)
    qed
  qed
qed simp

lemma under_workspace_link_free:
  assumes lf: "link_free k" and path: "ch path 0 = slash" "length path < PATH_MAX" "nul \<notin> set path"
    and ws: "workspace_root \<noteq> ''/''" "norm_path workspace_root = workspace_root"
      "ch workspace_root 0 = slash" "os_realpath k workspace_root = Some workspace_root"
  shows "allowlist_path_is_under_workspace k path workspace_root \<longleftrightarrow>
    resolved_is_under_workspace (norm_path path) workspace_root"
proof -
  obtain ps where ps: "clean ps" "norm_path path = abs_of ps" "\<forall>s \<in> set ps. set s \<subseteq> set path"
    "seg_weight ps \<le> length path"
    using norm_path_abs [OF path(1)] by blast
  obtain wp where wp: "clean wp" "workspace_root = abs_of wp"
    using norm_path_abs [OF ws(3)] ws(2) by metis
  have wne: "wp \<noteq> []" using ws(1) wp(2) by (auto simp: abs_of_def)
  have pne: "path \<noteq> []" using path(1) by (auto simp: nul_def)
  have "nul \<notin> set (join_segs ps)"
    using set_join_segs [of ps] ps(3) path(3) by (auto simp: nul_def)
  then have nn: "nul \<notin> set (abs_of ps)" by (simp add: abs_of_def nul_def)
  have col: "lexical_collapse_path k path = Some (abs_of ps)"
    using lexical_collapse_path_norm [OF pne path(2)] lf ps(2) by (simp add: link_free_def)
  have len: "length (abs_of ps) < PATH_MAX"
    using length_join_segs [of ps] ps(4) path(2) by (cases "ps = []") (auto simp: abs_of_def PATH_MAX_def)
  have r1: "r = abs_of ps" if "os_realpath k path = Some r" for r
    using lf path(1) that ps(2) by (simp add: link_free_def)
  have r2: "r = abs_of ps" if "os_realpath k (abs_of ps) = Some r" for r
    using lf that norm_path_abs_of [OF ps(1)] by (simp add: link_free_def abs_of_def)
  show ?thesis
  proof (cases "os_realpath k path = None \<and> os_realpath k (abs_of ps) = None")
    case True
    then have "ps \<noteq> wp" using ws(4) wp(2) by auto
    then have "ancestor_walk k (abs_of wp) PATH_MAX (abs_of ps) \<longleftrightarrow> prefix wp ps"
      using ancestor_walk_link_free [OF lf ps(1) wp(1) wne nn _ len] ws(4) wp(2) length_abs_of [OF ps(1)] len
      by simp
    then show ?thesis using True col ws(4) wp len abs_under_iff [OF ps(1) wp(1) wne nn] ps(2)
      by (simp add: allowlist_path_is_under_workspace_def existing_ancestor_is_under_workspace_def abs_of_def)
  next
    case False
    then show ?thesis using r1 r2 col ws(4) wp ps(2)
      by (auto simp: allowlist_path_is_under_workspace_def abs_of_def Let_def split: option.splits)
  qed
qed

section \<open>Properties\<close>

definition plain_os :: os where
  "plain_os = \<lparr>os_realpath = (\<lambda>p. if p \<in> {''/ws'', ''/ws/a'', ''/ws/b''} then Some p else None),
     os_access = (\<lambda>p. p = ''/ws/a''), os_islnk = (\<lambda>_. False),
     os_home = Some ''/ws'', os_pwd = Some ''/ws'', os_strdup = True\<rparr>"

lemma plain_os_link_free: "link_free plain_os"
proof -
  have "norm_path ''/ws'' = ''/ws''" "norm_path ''/ws/a'' = ''/ws/a''" "norm_path ''/ws/b'' = ''/ws/b''"
    by code_simp+
  then show ?thesis by (auto simp: link_free_def plain_os_def split: if_splits)
qed



text \<open>A path is accepted only on evidence: some path that names it (the path itself, its
  collapsed form, or an ancestor directory of the collapsed form) resolves to a location that
  is the resolved workspace or lies below it.\<close>

theorem under_workspace_evidence:
  assumes "allowlist_path_is_under_workspace k path workspace_root"
  shows "\<exists>q resolved. os_realpath k q = Some resolved \<and>
    resolved_is_under_workspace resolved
      (case os_realpath k workspace_root of Some r \<Rightarrow> r | None \<Rightarrow> workspace_root) \<and>
    (q = path \<or> (\<exists>c. lexical_collapse_path k path = Some c \<and> (q = c \<or> ancestor c q)))"
  using assms
  by (auto simp: allowlist_path_is_under_workspace_def existing_ancestor_is_under_workspace_def Let_def
      split: if_splits option.splits dest!: ancestor_walk_evidence)

theorem under_workspace_evidence_witness:
  "\<exists>q resolved. os_realpath plain_os q = Some resolved \<and>
    resolved_is_under_workspace resolved ''/ws'' \<and>
    (q = ''/ws/a'' \<or> (\<exists>c. lexical_collapse_path plain_os ''/ws/a'' = Some c \<and> (q = c \<or> ancestor c q)))"
proof -
  have "allowlist_path_is_under_workspace plain_os ''/ws/a'' ''/ws''" by code_simp
  from under_workspace_evidence [OF this] show ?thesis by (simp add: plain_os_def)
qed

text \<open>In a file system without symbolic links the check decides exactly lexical containment:
  an absolute path is accepted iff its normal form is the workspace or lies below it, whether or
  not the path, or any directory on the way to it, exists.\<close>

theorem under_workspace_exact:
  assumes "link_free k" "ch path 0 = slash" "length path < PATH_MAX" "nul \<notin> set path"
    and "workspace_root \<noteq> ''/''" "norm_path workspace_root = workspace_root"
    and "ch workspace_root 0 = slash" "os_realpath k workspace_root = Some workspace_root"
  shows "allowlist_path_is_under_workspace k path workspace_root \<longleftrightarrow>
    norm_path path = workspace_root \<or> (\<exists>u. norm_path path = workspace_root @ slash # u)"
proof -
  have "nul \<notin> set (norm_path path)"
    using norm_path_abs [OF assms(2)] set_join_segs assms(4) by (fastforce simp: abs_of_def nul_def)
  moreover have "workspace_root \<noteq> []" using assms(7) by (auto simp: nul_def)
  ultimately show ?thesis
    using under_workspace_link_free [OF assms] resolved_under_iff by simp
qed

theorem under_workspace_exact_witness:
  "\<not> allowlist_path_is_under_workspace plain_os ''/ws/nope/../../tmp/x'' ''/ws''"
proof -
  have n: "norm_path ''/ws/nope/../../tmp/x'' = ''/tmp/x''" "norm_path ''/ws'' = ''/ws''" by code_simp+
  have h: "ch ''/ws/nope/../../tmp/x'' 0 = slash" "length ''/ws/nope/../../tmp/x'' < PATH_MAX"
    "nul \<notin> set ''/ws/nope/../../tmp/x''" "''/ws'' \<noteq> ''/''" "ch ''/ws'' 0 = slash"
    "os_realpath plain_os ''/ws'' = Some ''/ws''"
    by (auto simp: PATH_MAX_def nul_def plain_os_def)
  show ?thesis
    using under_workspace_exact [OF plain_os_link_free h(1,2,3,4) n(2) h(5,6)] n(1) by simp
qed

end
