(* ===== verification/Allowlist.thy ===== *)
theory Allowlist
  imports Allowlist_Path
begin

text \<open>
  The shell-command allowlist: \<open>src/sandbox/allowlist.c\<close>.  A check returns \<open>None\<close> when the C
  function returns 0 (allowed) and \<open>Some reason\<close> when it returns 1 (blocked); \<open>reason\<close> is the
  content of \<open>reason_buf\<close>, truncated to \<open>cap\<close> bytes as \<open>snprintf\<close> does (\<open>cap = 0\<close> stands
  for a missing buffer).  A \<open>workspace_root\<close> that is NULL in the code is the empty string
  here: every use in the code treats the two alike.  The diagnostics on \<open>stderr\<close> are not
  modelled.
\<close>

section \<open>Definitions\<close>

definition BLOCK_SUBSTRINGS :: "string list" where
  "BLOCK_SUBSTRINGS =
     [''rm -rf /'', ''rm -rf /*'', ''rm -rf / '', ''rm -fr /'', ''mkfs'', ''fdisk'', ''parted'',
      ''> /dev/sd'', ''dd if='', ''dd of=/dev'', ''shutdown'', ''reboot'', ''halt'', ''poweroff'',
      ''init 0'', ''init 6'', ''systemctl poweroff'', ''systemctl reboot'', ''systemctl halt'',
      '':(){ :|:& };:'', ''fork()'', '':(){:|:&};:'', ''chmod 777 /'', ''chmod -R 777 /'',
      ''chown root'', ''sudo rm -rf'', ''/etc/shadow'', ''/etc/gshadow'', ''~/.ssh/id_'',
      ''id_rsa'', ''id_ed25519'', ''/dev/nvhost'', ''/dev/nvgpu'', ''/dev/nvmap'',
      ''/tmp/argus_socket'', ''auth_tokens.json'', ''shellclaw.pid'', ''shellclaw.log'']"

definition set_reason :: "nat \<Rightarrow> string \<Rightarrow> string \<Rightarrow> string" where
  "set_reason cap pre detail = (if cap = 0 then [] else buf_trunc cap (pre @ detail))"

definition has_path_chars :: "string \<Rightarrow> bool" where
  "has_path_chars tok \<longleftrightarrow> tok \<noteq> [] \<and>
     (ch tok 0 = CHR ''/'' \<or> ch tok 0 = CHR ''~'' \<or> ch tok 0 = CHR ''.'' \<or> ch tok 0 = CHR ''$'')"

definition is_option_token :: "string \<Rightarrow> bool" where
  "is_option_token tok =
     (if ch tok 0 \<noteq> CHR ''-'' \<or> ch tok 1 = nul then False
      else if is_digit (ch tok 1) then False else True)"

definition is_path_body_char :: "char \<Rightarrow> bool" where
  "is_path_body_char c \<longleftrightarrow> is_lower_az c \<or> is_upper_az c \<or> is_digit c \<or> c = CHR ''/'' \<or>
     c = CHR ''.'' \<or> c = CHR ''_'' \<or> c = CHR ''-'' \<or> c = CHR ''+'' \<or> c = CHR ''%'' \<or> c = CHR ''@''"

definition is_ident_cont :: "char \<Rightarrow> bool" where
  "is_ident_cont c \<longleftrightarrow> is_lower_az c \<or> is_upper_az c \<or> is_digit c \<or> c = CHR ''_''"

definition join_under_workspace :: "string \<Rightarrow> string \<Rightarrow> string option" where
  "join_under_workspace workspace_root rel =
     snprintf_checked PATH_MAX (workspace_root @ ''/'' @ rel)"

definition deny_escaped :: "nat \<Rightarrow> string \<Rightarrow> string" where
  "deny_escaped cap shown = set_reason cap ''command blocked: path escapes workspace: '' shown"

definition deny_unresolved :: "nat \<Rightarrow> string \<Rightarrow> string" where
  "deny_unresolved cap shown =
     set_reason cap ''command blocked: unresolved shell path expansion: '' shown"

definition check_joined_or_abs :: "os \<Rightarrow> string \<Rightarrow> nat \<Rightarrow> string \<Rightarrow> string option" where
  "check_joined_or_abs k workspace_root cap candidate =
     (if candidate = [] then None
      else if ch candidate 0 \<noteq> slash then
        (case join_under_workspace workspace_root candidate of
           None \<Rightarrow> Some (deny_escaped cap candidate)
         | Some joined \<Rightarrow>
             if \<not> allowlist_path_is_under_workspace k joined workspace_root
             then Some (deny_escaped cap joined) else None)
      else if \<not> allowlist_path_is_under_workspace k candidate workspace_root
      then Some (deny_escaped cap candidate) else None)"

definition block_if_relative_token_escapes :: "os \<Rightarrow> string \<Rightarrow> nat \<Rightarrow> string \<Rightarrow> string option" where
  "block_if_relative_token_escapes k workspace_root cap tok =
     (if tok = [] \<or> workspace_root = [] then None
      else if has_path_chars tok \<or> is_option_token tok then None
      else case join_under_workspace workspace_root tok of
        None \<Rightarrow> Some (deny_escaped cap tok)
      | Some joined \<Rightarrow>
          if \<not> os_access k joined then None
          else if \<not> allowlist_path_is_under_workspace k joined workspace_root
          then Some (deny_escaped cap joined) else None)"

definition strip_surrounding_quotes :: "string \<Rightarrow> string" where
  "strip_surrounding_quotes tok =
     (if length tok \<ge> 2 \<and>
         ((hd tok = squote \<and> last tok = squote) \<or> (hd tok = dquote \<and> last tok = dquote))
      then butlast (tl tok) else tok)"

text \<open>\<open>expand_env_prefix\<close> answers 1 (not this prefix), -1 (cannot expand) or 0 with the text.\<close>

datatype expansion = No_Match | Cannot_Expand | Expanded string

definition expand_env_prefix :: "string \<Rightarrow> string \<Rightarrow> bool \<Rightarrow> string option \<Rightarrow> expansion" where
  "expand_env_prefix tok pre require_slash_or_end val =
     (if \<not> prefix pre tok then No_Match
      else let suf = drop (length pre) tok in
        if require_slash_or_end \<and> ch suf 0 \<noteq> nul \<and> ch suf 0 \<noteq> slash then No_Match
        else case val of
          None \<Rightarrow> Cannot_Expand
        | Some v \<Rightarrow> (case snprintf_checked PATH_MAX (v @ suf) of
                       None \<Rightarrow> Cannot_Expand | Some e \<Rightarrow> Expanded e))"

definition expand_shell_path_token :: "os \<Rightarrow> string \<Rightarrow> string option" where
  "expand_shell_path_token k tok =
     (if ch tok 0 = CHR ''~'' then
        (case os_home k of
           None \<Rightarrow> None
         | Some home \<Rightarrow> if home = [] then None else snprintf_checked PATH_MAX (home @ tl tok))
      else if ch tok 0 \<noteq> CHR ''$'' then (if length tok \<ge> PATH_MAX then None else Some tok)
      else if ch tok 1 = squote \<or> ch tok 1 = dquote \<or> ch tok 1 = CHR ''('' then None
      else case expand_env_prefix tok ''${HOME}'' False (os_home k) of
        Expanded e \<Rightarrow> Some e | Cannot_Expand \<Rightarrow> None | No_Match \<Rightarrow>
      (case expand_env_prefix tok ''$HOME'' True (os_home k) of
        Expanded e \<Rightarrow> Some e | Cannot_Expand \<Rightarrow> None | No_Match \<Rightarrow>
      (case expand_env_prefix tok ''${PWD}'' False (os_pwd k) of
        Expanded e \<Rightarrow> Some e | Cannot_Expand \<Rightarrow> None | No_Match \<Rightarrow>
      (case expand_env_prefix tok ''$PWD'' True (os_pwd k) of
        Expanded e \<Rightarrow> Some e | Cannot_Expand \<Rightarrow> None | No_Match \<Rightarrow> None))))"

text \<open>The look-behinds of the scanners read the reversed prefix of the cursor.\<close>

definition slash_follows_home_or_pwd_brace :: "string \<Rightarrow> bool" where
  "slash_follows_home_or_pwd_brace rpre \<longleftrightarrow>
     prefix (rev ''${HOME}'') rpre \<or> prefix (rev ''${PWD}'') rpre"

definition url_stop_char :: "char \<Rightarrow> bool" where
  "url_stop_char c \<longleftrightarrow> c \<in> {CHR '' '', tab, newline, CHR '';'', CHR ''|'', CHR ''&'',
     CHR ''<'', CHR ''>'', dquote, squote}"

fun is_inside_url :: "string \<Rightarrow> bool" where
  "is_inside_url [] = False"
| "is_inside_url (c # rpre) =
     (if url_stop_char c then False
      else if prefix ''//:'' (c # rpre) then True
      else is_inside_url rpre)"

definition is_fs_absolute_path_start :: "string \<Rightarrow> string \<Rightarrow> bool" where
  "is_fs_absolute_path_start rpre suf =
     (if ch suf 0 = CHR ''.'' then
        (if \<not> (ch suf 1 = slash \<or>
               (ch suf 1 = CHR ''.'' \<and> (ch suf 2 = slash \<or> ch suf 2 = nul \<or> ch suf 2 = squote \<or>
                  ch suf 2 = dquote \<or> \<not> is_path_body_char (ch suf 2)))) then False
         else if is_inside_url rpre \<and> ch suf 1 \<noteq> CHR ''.'' then False
         else if rpre = [] then True
         else if is_path_body_char (hd rpre) \<and> hd rpre \<noteq> slash then False
         else True)
      else if ch suf 0 \<noteq> slash \<and> ch suf 0 \<noteq> CHR ''~'' then False
      else if rpre = [] then True
      else if ch suf 0 = slash \<and> hd rpre = CHR '':'' then False
      else if ch suf 0 = slash \<and> prefix ''/:'' rpre then False
      else if is_path_body_char (hd rpre) \<and> hd rpre \<noteq> slash then False
      else if hd rpre = CHR ''}'' then \<not> slash_follows_home_or_pwd_brace rpre
      else True)"

definition expand_tilde_fragment :: "os \<Rightarrow> string \<Rightarrow> string option" where
  "expand_tilde_fragment k fragment =
     (if ch fragment 0 \<noteq> CHR ''~'' then (if length fragment \<ge> PATH_MAX then None else Some fragment)
      else case os_home k of
        None \<Rightarrow> None
      | Some home \<Rightarrow> if home = [] then None else snprintf_checked PATH_MAX (home @ tl fragment))"

text \<open>The fragment that starts at a cursor: its first byte and the path bytes after it.\<close>

definition path_fragment :: "string \<Rightarrow> string" where
  "path_fragment suf = take 1 suf @ take (PATH_MAX - 2) (takeWhile is_path_body_char (tl suf))"

function block_if_embedded_paths_escape ::
  "os \<Rightarrow> string \<Rightarrow> nat \<Rightarrow> string \<Rightarrow> string \<Rightarrow> string option" where
  "block_if_embedded_paths_escape k workspace_root cap rpre suf =
     (if suf = [] then None
      else if \<not> is_fs_absolute_path_start rpre suf
      then block_if_embedded_paths_escape k workspace_root cap (hd suf # rpre) (tl suf)
      else let fragment = path_fragment suf in
        case expand_tilde_fragment k fragment of
          None \<Rightarrow> Some (deny_escaped cap fragment)
        | Some expanded \<Rightarrow>
            (case check_joined_or_abs k workspace_root cap expanded of
               Some r \<Rightarrow> Some r
             | None \<Rightarrow> block_if_embedded_paths_escape k workspace_root cap
                        (rev fragment @ rpre) (drop (length fragment) suf)))"
  by pat_completeness auto
termination
  by (relation "measure (\<lambda>(k, w, cap, rpre, suf). length suf)")
    (auto simp: path_fragment_def Suc_leI take_Suc)

declare block_if_embedded_paths_escape.simps [simp del]

definition path_suffix_len :: "string \<Rightarrow> nat" where
  "path_suffix_len p = (if ch p 0 \<noteq> slash then 0 else length (takeWhile is_path_body_char p))"

definition block_expanded_env_path ::
  "os \<Rightarrow> string \<Rightarrow> nat \<Rightarrow> string option \<Rightarrow> string \<Rightarrow> nat \<Rightarrow> string \<Rightarrow> string option" where
  "block_expanded_env_path k workspace_root cap val suf suffix_len raw =
     (case val of
        None \<Rightarrow> Some (deny_unresolved cap raw)
      | Some v \<Rightarrow> (case snprintf_checked PATH_MAX (v @ take suffix_len suf) of
          None \<Rightarrow> Some (deny_unresolved cap raw)
        | Some expanded \<Rightarrow>
            if \<not> allowlist_path_is_under_workspace k expanded workspace_root
            then Some (deny_escaped cap expanded) else None))"

text \<open>
  One \<open>$\<close> of the scan: the length of the recognised reference (7, 6, 5 or 4) and the variable's
  value, or \<open>None\<close> for every other use of \<open>$\<close>.
\<close>

definition dollar_form :: "os \<Rightarrow> string \<Rightarrow> (nat \<times> string option) option" where
  "dollar_form k p =
     (if ch p 1 = squote \<or> ch p 1 = dquote \<or> ch p 1 = CHR ''('' then None
      else if ch p 1 = CHR ''{'' then
        (if prefix ''${HOME}'' p then Some (7, os_home k)
         else if prefix ''${PWD}'' p then Some (6, os_pwd k) else None)
      else if prefix ''$HOME'' p \<and> \<not> is_ident_cont (ch p 5) then Some (5, os_home k)
      else if prefix ''$PWD'' p \<and> \<not> is_ident_cont (ch p 4) then Some (4, os_pwd k)
      else None)"

lemma dollar_form_pos: "dollar_form k p = Some (n, v) \<Longrightarrow> 0 < n"
  by (auto simp: dollar_form_def split: if_splits)

function block_if_dollar_expansions_escape :: "os \<Rightarrow> string \<Rightarrow> nat \<Rightarrow> string \<Rightarrow> string option" where
  "block_if_dollar_expansions_escape k workspace_root cap p =
     (if p = [] then None
      else if hd p \<noteq> CHR ''$'' then block_if_dollar_expansions_escape k workspace_root cap (tl p)
      else case dollar_form k p of
        None \<Rightarrow> Some (deny_unresolved cap p)
      | Some (n, val) \<Rightarrow>
          let suffix_n = path_suffix_len (drop n p) in
          (case block_expanded_env_path k workspace_root cap val (drop n p) suffix_n p of
             Some r \<Rightarrow> Some r
           | None \<Rightarrow> block_if_dollar_expansions_escape k workspace_root cap (drop (n + suffix_n) p)))"
  by pat_completeness auto
termination
  by (relation "measure (\<lambda>(k, w, cap, p). length p)") (auto dest: dollar_form_pos)

declare block_if_dollar_expansions_escape.simps [simp del]

fun prefix_ci_eq :: "string \<Rightarrow> string \<Rightarrow> bool" where
  "prefix_ci_eq p [] = True"
| "prefix_ci_eq [] (b # bs) = False"
| "prefix_ci_eq (a # p) (b # bs) = (if to_lower a \<noteq> to_lower b then False else prefix_ci_eq p bs)"

definition hex_nibble :: "char \<Rightarrow> nat option" where
  "hex_nibble c =
     (if is_digit c then Some (byte_of c - 48)
      else if CHR ''a'' \<le> c \<and> c \<le> CHR ''f'' then Some (byte_of c - 97 + 10)
      else if CHR ''A'' \<le> c \<and> c \<le> CHR ''F'' then Some (byte_of c - 65 + 10)
      else None)"

text \<open>
  The in-place decoder: success and the buffer.  On failure the buffer holds what was already
  written followed by the bytes not yet overwritten.
\<close>

fun percent_decode_loop :: "string \<Rightarrow> string \<Rightarrow> string \<Rightarrow> bool \<times> string" where
  "percent_decode_loop orig w [] = (True, cstr w)"
| "percent_decode_loop orig w (c # r) =
     (if c = CHR ''%'' then
        (case r of
           h # l # rest \<Rightarrow>
             (case (hex_nibble h, hex_nibble l) of
                (Some hi, Some lo) \<Rightarrow> percent_decode_loop orig (w @ [char_of (hi * 16 + lo)]) rest
              | _ \<Rightarrow> (False, cstr (w @ drop (length w) orig)))
         | _ \<Rightarrow> (False, cstr (w @ drop (length w) orig)))
      else percent_decode_loop orig (w @ [c]) r)"

definition percent_decode_inplace :: "string \<Rightarrow> bool \<times> string" where
  "percent_decode_inplace s = percent_decode_loop s [] s"

definition url_host_end :: "string \<Rightarrow> bool" where
  "url_host_end s \<longleftrightarrow> ch s 9 = slash \<or> ch s 9 = nul \<or> ch s 9 = squote \<or> ch s 9 = dquote"

text \<open>The path a \<open>file:\<close> URL at the cursor names, before percent-decoding.\<close>

definition file_url_path :: "string \<Rightarrow> string option" where
  "file_url_path p =
     (let s1 = dropWhile (\<lambda>c. c = slash) (drop 5 p);
          s2 = (if prefix_ci_eq s1 ''localhost'' \<and> url_host_end s1 then drop 9 s1
                else if prefix ''127.0.0.1'' s1 \<and> url_host_end s1 then drop 9 s1 else s1);
          s3 = dropWhile (\<lambda>c. c = slash) s2 in
      if s3 = [] \<or> hd s3 = squote \<or> hd s3 = dquote then None
      else Some (slash # take (PATH_MAX - 2) (takeWhile is_path_body_char s3)))"

fun block_if_file_url_escapes :: "os \<Rightarrow> string \<Rightarrow> nat \<Rightarrow> string \<Rightarrow> string \<Rightarrow> string option" where
  "block_if_file_url_escapes k workspace_root cap rpre [] = None"
| "block_if_file_url_escapes k workspace_root cap rpre (c # cs) =
     (let next = block_if_file_url_escapes k workspace_root cap (c # rpre) cs in
      if \<not> prefix_ci_eq (c # cs) ''file:'' then next
      else if rpre \<noteq> [] \<and> is_path_body_char (hd rpre) \<and> hd rpre \<noteq> slash then next
      else case file_url_path (c # cs) of
        None \<Rightarrow> next
      | Some path \<Rightarrow>
          (case percent_decode_inplace path of
             (False, shown) \<Rightarrow> Some (deny_escaped cap shown)
           | (True, decoded) \<Rightarrow>
               if \<not> allowlist_path_is_under_workspace k decoded workspace_root
               then Some (deny_escaped cap decoded) else next))"

definition at_word_start :: "string \<Rightarrow> bool" where
  "at_word_start rpre \<longleftrightarrow> rpre = [] \<or> \<not> is_ident_cont (hd rpre)"

definition name_is_home_or_pwd :: "string \<Rightarrow> bool" where
  "name_is_home_or_pwd q =
     (if prefix ''HOME'' q \<and> \<not> is_ident_cont (ch q 4) then True
      else if prefix ''PWD'' q \<and> \<not> is_ident_cont (ch q 3) then True else False)"

definition skip_blanks :: "string \<Rightarrow> string" where
  "skip_blanks q = dropWhile (\<lambda>c. c = CHR '' '' \<or> c = tab) q"

fun command_mutates_home_or_pwd :: "string \<Rightarrow> string \<Rightarrow> bool" where
  "command_mutates_home_or_pwd rpre [] = False"
| "command_mutates_home_or_pwd rpre (c # cs) =
     (let p = c # cs; next = command_mutates_home_or_pwd (c # rpre) cs in
      if \<not> at_word_start rpre then next
      else if prefix ''HOME='' p \<or> prefix ''PWD='' p then True
      else if prefix ''unset'' p \<and> \<not> is_ident_cont (ch p 5) \<and> name_is_home_or_pwd (skip_blanks (drop 5 p))
      then True
      else if prefix ''export'' p \<and> \<not> is_ident_cont (ch p 6) \<and> name_is_home_or_pwd (skip_blanks (drop 6 p))
      then True
      else next)"

definition blocklist_hit :: "nat \<Rightarrow> string \<Rightarrow> string option" where
  "blocklist_hit cap cmd =
     (case find (\<lambda>pat. strstr pat cmd \<noteq> None) BLOCK_SUBSTRINGS of
        None \<Rightarrow> None
      | Some pat \<Rightarrow>
          let r = set_reason cap (''command blocked: contains forbidden pattern '' @ [squote]) pat in
          Some (if cap > 0 \<and> length r + 2 < cap then r @ [squote] else r))"

definition allowlist_path_is_runtime_state_file :: "os \<Rightarrow> string \<Rightarrow> bool" where
  "allowlist_path_is_runtime_state_file k path =
     (if path = [] then False
      else let use = (case os_realpath k path of Some resolved \<Rightarrow> resolved | None \<Rightarrow> path);
               base = (case strrchr_split slash use of Some (_, b) \<Rightarrow> b | None \<Rightarrow> use) in
        if base = ''auth_tokens.json'' \<or> base = ''shellclaw.pid'' \<or> base = ''shellclaw.log'' then True
        else if base \<noteq> ''config.toml'' \<and> base \<noteq> ''memory.db'' \<and> \<not> prefix ''memory.db-'' base then False
        else case strrchr_split slash use of
          None \<Rightarrow> False
        | Some (parent, _) \<Rightarrow>
            if parent = [] then False
            else if length parent \<ge> PATH_MAX then False
            else (case strrchr_split slash parent of
                    Some (_, b) \<Rightarrow> b | None \<Rightarrow> parent) = ''.shellclaw'')"

definition deny_runtime_state :: "nat \<Rightarrow> string \<Rightarrow> string" where
  "deny_runtime_state cap shown = set_reason cap ''command blocked: runtime state file: '' shown"

definition runtime_state_check_path :: "os \<Rightarrow> string \<Rightarrow> string" where
  "runtime_state_check_path k tok =
     (if ch tok 0 = CHR ''~'' \<or> ch tok 0 = CHR ''$'' then
        (case expand_shell_path_token k tok of Some expanded \<Rightarrow> expanded | None \<Rightarrow> tok)
      else tok)"

definition block_if_runtime_state_token :: "os \<Rightarrow> string \<Rightarrow> nat \<Rightarrow> string \<Rightarrow> string option" where
  "block_if_runtime_state_token k workspace_root cap tok =
     (if tok = [] then None
      else let check = runtime_state_check_path k tok in
        if allowlist_path_is_runtime_state_file k check then Some (deny_runtime_state cap check)
        else if workspace_root = [] \<or> ch check 0 = slash then None
        else case join_under_workspace workspace_root check of
          None \<Rightarrow> None
        | Some joined \<Rightarrow>
            if allowlist_path_is_runtime_state_file k joined
            then Some (deny_runtime_state cap joined) else None)"

definition block_workspace_scanners :: "os \<Rightarrow> string \<Rightarrow> nat \<Rightarrow> string \<Rightarrow> string option" where
  "block_workspace_scanners k workspace_root cap cmd =
     (if command_mutates_home_or_pwd [] cmd
      then Some (set_reason cap ''command blocked: HOME/PWD assignment in command'' [])
      else case block_if_file_url_escapes k workspace_root cap [] cmd of
        Some r \<Rightarrow> Some r
      | None \<Rightarrow>
          (case block_if_dollar_expansions_escape k workspace_root cap cmd of
             Some r \<Rightarrow> Some r
           | None \<Rightarrow> block_if_embedded_paths_escape k workspace_root cap [] cmd))"

record allowlist_config =
  ac_workspace_path :: "string option"
  ac_workspace_only :: bool

definition token_delim :: "char \<Rightarrow> bool" where
  "token_delim c \<longleftrightarrow> c \<in> {CHR '' '', tab, newline, CHR '';'', CHR ''|'', CHR ''&'', CHR ''>'', CHR ''<''}"

definition check_token :: "os \<Rightarrow> string \<Rightarrow> bool \<Rightarrow> nat \<Rightarrow> string \<Rightarrow> string option" where
  "check_token k workspace_root workspace_only cap raw =
     (let tok = strip_surrounding_quotes raw in
      case block_if_runtime_state_token k workspace_root cap tok of
        Some r \<Rightarrow> Some r
      | None \<Rightarrow>
          if workspace_only \<and> has_path_chars tok then
            (case expand_shell_path_token k tok of
               None \<Rightarrow> Some (deny_unresolved cap tok)
             | Some expanded \<Rightarrow> check_joined_or_abs k workspace_root cap expanded)
          else if workspace_only then block_if_relative_token_escapes k workspace_root cap tok
          else None)"

fun check_tokens :: "os \<Rightarrow> string \<Rightarrow> bool \<Rightarrow> nat \<Rightarrow> string list \<Rightarrow> string option" where
  "check_tokens k workspace_root workspace_only cap [] = None"
| "check_tokens k workspace_root workspace_only cap (t # ts) =
     (case check_token k workspace_root workspace_only cap t of
        Some r \<Rightarrow> Some r
      | None \<Rightarrow> check_tokens k workspace_root workspace_only cap ts)"

text \<open>The workspace root the check uses: resolved when it exists, else a truncated copy.\<close>

definition resolve_workspace :: "os \<Rightarrow> allowlist_config option \<Rightarrow> string" where
  "resolve_workspace k cfg =
     (case cfg of
        None \<Rightarrow> []
      | Some c \<Rightarrow> (case ac_workspace_path c of
          None \<Rightarrow> []
        | Some p \<Rightarrow> if p = [] then []
                    else (case os_realpath k p of Some r \<Rightarrow> r | None \<Rightarrow> buf_trunc PATH_MAX p)))"

definition workspace_enforced :: "allowlist_config option \<Rightarrow> bool" where
  "workspace_enforced cfg =
     (case cfg of
        None \<Rightarrow> False
      | Some c \<Rightarrow> ac_workspace_only c \<and> ac_workspace_path c \<noteq> None \<and> ac_workspace_path c \<noteq> Some [])"

definition allowlist_check_shell_command ::
  "os \<Rightarrow> allowlist_config option \<Rightarrow> nat \<Rightarrow> string option \<Rightarrow> string option" where
  "allowlist_check_shell_command k cfg cap cmd_opt =
     (case cmd_opt of
        None \<Rightarrow> Some (set_reason cap ''null command'' [])
      | Some cmd \<Rightarrow>
          (case blocklist_hit cap cmd of
             Some r \<Rightarrow> Some r
           | None \<Rightarrow>
               let workspace_only = workspace_enforced cfg;
                   workspace_root = resolve_workspace k cfg in
               (case (if workspace_only then block_workspace_scanners k workspace_root cap cmd else None) of
                  Some r \<Rightarrow> Some r
                | None \<Rightarrow>
                    if \<not> os_strdup k then Some (set_reason cap ''command blocked: out of memory'' [])
                    else check_tokens k workspace_root workspace_only cap (strtok_all token_delim cmd))))"

section \<open>What an allowed command has passed\<close>

definition path_contained :: "os \<Rightarrow> string \<Rightarrow> string \<Rightarrow> bool" where
  "path_contained k workspace_root e \<longleftrightarrow> allowlist_path_is_under_workspace k
     (if ch e 0 = slash then e else workspace_root @ ''/'' @ e) workspace_root"

lemma check_joined_or_abs_None:
  "check_joined_or_abs k ws cap e = None \<Longrightarrow> e \<noteq> [] \<Longrightarrow> path_contained k ws e"
  by (auto simp: check_joined_or_abs_def path_contained_def join_under_workspace_def
      split: if_splits option.splits)

lemma allowed_parts:
  assumes "allowlist_check_shell_command k cfg cap cmd_opt = None"
  obtains cmd where "cmd_opt = Some cmd" "blocklist_hit cap cmd = None" "os_strdup k"
    "workspace_enforced cfg \<Longrightarrow> block_workspace_scanners k (resolve_workspace k cfg) cap cmd = None"
    "check_tokens k (resolve_workspace k cfg) (workspace_enforced cfg) cap (strtok_all token_delim cmd) = None"
  using assms
  by (auto simp: allowlist_check_shell_command_def Let_def split: option.splits if_splits)

lemma workspace_scanners_None:
  assumes "block_workspace_scanners k ws cap cmd = None"
  shows "\<not> command_mutates_home_or_pwd [] cmd" "block_if_file_url_escapes k ws cap [] cmd = None"
    "block_if_dollar_expansions_escape k ws cap cmd = None"
    "block_if_embedded_paths_escape k ws cap [] cmd = None"
  using assms by (auto simp: block_workspace_scanners_def split: if_splits option.splits)

lemma check_tokens_None:
  "check_tokens k ws wo cap ts = None \<longleftrightarrow> (\<forall>t \<in> set ts. check_token k ws wo cap t = None)"
  by (induction ts) (auto split: option.splits)

lemma find_None: "find P xs = None \<longleftrightarrow> (\<forall>x \<in> set xs. \<not> P x)"
  by (induction xs) auto

lemma blocklist_hit_None: "blocklist_hit cap cmd = None \<longleftrightarrow> (\<forall>pat \<in> set BLOCK_SUBSTRINGS. \<not> sublist pat cmd)"
  using find_None [of "\<lambda>pat. strstr pat cmd \<noteq> None" BLOCK_SUBSTRINGS]
  by (auto simp: blocklist_hit_def strstr_None_iff Let_def split: option.splits)

section \<open>The dollar scan\<close>

definition dollar_contained :: "os \<Rightarrow> string \<Rightarrow> string \<Rightarrow> bool" where
  "dollar_contained k ws q \<longleftrightarrow>
     (\<exists>n v. dollar_form k q = Some (n, Some v) \<and>
        allowlist_path_is_under_workspace k
          (v @ take (path_suffix_len (drop n q)) (drop n q)) ws)"

lemma suffix_drop: "suffix q p \<Longrightarrow> length q \<le> length p - m \<Longrightarrow> suffix q (drop m p)"
proof (cases "q = []")
  case False
  assume "suffix q p" and l: "length q \<le> length p - m"
  then obtain zs where p: "p = zs @ q" by (auto simp: suffix_def)
  then have "m \<le> length zs" using l False by (cases q) auto
  then show ?thesis using p by (simp add: suffix_def)
qed simp

lemma takeWhile_nth_sat: "j < length (takeWhile P xs) \<Longrightarrow> P (xs ! j)"
  by (metis nth_mem set_takeWhileD takeWhile_nth)

lemma path_suffix_not_dollar: "j < path_suffix_len p \<Longrightarrow> p ! j \<noteq> CHR ''$''"
proof -
  assume "j < path_suffix_len p"
  then have "j < length (takeWhile is_path_body_char p)"
    by (auto simp: path_suffix_len_def split: if_splits)
  from takeWhile_nth_sat [OF this] have "is_path_body_char (p ! j)" .
  moreover have "\<not> is_path_body_char (CHR ''$'')"
    by (simp add: is_path_body_char_def is_lower_az_def is_upper_az_def is_digit_def less_eq_char_def)
  ultimately show ?thesis by metis
qed

lemma prefix_nth: "prefix xs p \<Longrightarrow> j < length xs \<Longrightarrow> p ! j = xs ! j"
  by (auto simp: prefix_def nth_append)

lemma dollar_form_no_inner_dollar:
  assumes "dollar_form k p = Some (n, v)" "0 < j" "j < n" shows "p ! j \<noteq> CHR ''$''"
proof -
  have "\<exists>lit. length lit = n \<and> prefix lit p \<and> CHR ''$'' \<notin> set (tl lit)"
    using assms(1) unfolding dollar_form_def
    by (auto split: if_splits
        intro: exI [of _ "''${HOME}''"] exI [of _ "''${PWD}''"] exI [of _ "''$HOME''"] exI [of _ "''$PWD''"])
  then obtain lit where l: "length lit = n" "prefix lit p" "CHR ''$'' \<notin> set (tl lit)" by blast
  have "p ! j = tl lit ! (j - 1)" using prefix_nth [OF l(2)] assms(2,3) l(1) by (simp add: nth_tl)
  moreover have "tl lit ! (j - 1) \<in> set (tl lit)" using assms(2,3) l(1) by (intro nth_mem) simp
  ultimately show ?thesis using l(3) by metis
qed

lemma dollar_scan_sound:
  "block_if_dollar_expansions_escape k ws cap p = None \<Longrightarrow> suffix q p \<Longrightarrow>
   ch q 0 = CHR ''$'' \<Longrightarrow> dollar_contained k ws q"
proof (induction k ws cap p rule: block_if_dollar_expansions_escape.induct)
  case (1 k ws cap p)
  have qne: "q \<noteq> []" using "1.prems"(3) by (auto simp: nul_def)
  have pne: "p \<noteq> []" using "1.prems"(2) qne by (auto simp: suffix_def)
  show ?case
  proof (cases "hd p = CHR ''$''")
    case False
    then have "block_if_dollar_expansions_escape k ws cap (tl p) = None"
      using "1.prems"(1) pne by (simp add: block_if_dollar_expansions_escape.simps [of k ws cap p])
    moreover have "q \<noteq> p" using False "1.prems"(3) pne by (cases p) auto
    then have "suffix q (tl p)" using "1.prems"(2) by (cases p) (auto simp: suffix_Cons)
    ultimately show ?thesis using "1.IH"(1) pne False "1.prems"(3) by blast
  next
    case True
    obtain n v where f: "dollar_form k p = Some (n, v)"
      using "1.prems"(1) pne True
      by (auto simp: block_if_dollar_expansions_escape.simps [of k ws cap p] split: option.splits)
    let ?s = "path_suffix_len (drop n p)"
    have b: "block_expanded_env_path k ws cap v (drop n p) ?s p = None"
      and r: "block_if_dollar_expansions_escape k ws cap (drop (n + ?s) p) = None"
      using "1.prems"(1) pne True f
      by (auto simp: block_if_dollar_expansions_escape.simps [of k ws cap p] Let_def split: option.splits)
    show ?thesis
    proof (cases "q = p")
      case True
      then show ?thesis using b f
        by (auto simp: dollar_contained_def block_expanded_env_path_def split: option.splits if_splits)
    next
      case False
      define j where "j = length p - length q"
      have lq: "length q \<le> length p" and q: "q = drop j p"
        using "1.prems"(2) by (auto simp: j_def suffix_def)
      have j0: "0 < j" using q False by (cases j) auto
      have pj: "p ! j = CHR ''$''" and jl: "j < length p"
        using "1.prems"(3) q qne by (auto simp: ch_def split: if_splits)
      have "n + ?s \<le> j"
      proof (rule ccontr)
        assume "\<not> n + ?s \<le> j"
        then consider "j < n" | "n \<le> j" "j - n < ?s" by linarith
        then show False
        proof cases
          case 1
          then show ?thesis using dollar_form_no_inner_dollar [OF f j0] pj by simp
        next
          case 2
          then have "drop n p ! (j - n) \<noteq> CHR ''$''" by (intro path_suffix_not_dollar)
          then show ?thesis using 2 pj jl by simp
        qed
      qed
      then have "suffix q (drop (n + ?s) p)" 
        using "1.prems"(2) lq jl by (intro suffix_drop) (auto simp: j_def)
      then show ?thesis using "1.IH"(2) [OF pne] True f b r "1.prems"(3) by (auto simp: Let_def)
    qed
  qed
qed

section \<open>The embedded-path scan\<close>

definition fragment_contained :: "os \<Rightarrow> string \<Rightarrow> string \<Rightarrow> bool" where
  "fragment_contained k ws b \<longleftrightarrow>
     (\<exists>e. expand_tilde_fragment k (path_fragment b) = Some e \<and> path_contained k ws e)"

lemma path_fragment_prefix: "prefix (path_fragment b) b"
proof (cases b)
  case (Cons c cs)
  have "prefix (take (PATH_MAX - 2) (takeWhile is_path_body_char cs)) cs"
    by (meson prefix_order.trans take_is_prefix takeWhile_is_prefix)
  then show ?thesis using Cons by (simp add: path_fragment_def)
qed (simp add: path_fragment_def)

lemma path_fragment_chars:
  "b \<noteq> [] \<Longrightarrow> \<exists>fs. path_fragment b = hd b # fs \<and> (\<forall>c \<in> set fs. is_path_body_char c)"
  by (cases b) (auto simp: path_fragment_def dest!: in_set_takeD set_takeWhileD)

lemma path_start_first:
  "is_fs_absolute_path_start rpre b \<Longrightarrow> is_path_body_char (hd b) \<or> hd b = CHR ''~''"
  by (cases b) (auto simp: is_fs_absolute_path_start_def is_path_body_char_def nul_def split: if_splits)

lemma expand_fragment_nonempty:
  "expand_tilde_fragment k (path_fragment b) = Some e \<Longrightarrow> b \<noteq> [] \<Longrightarrow> e \<noteq> []"
  using path_fragment_chars [of b] by (auto simp: expand_tilde_fragment_def split: if_splits option.splits)

lemma embedded_scan_sound:
  "block_if_embedded_paths_escape k ws cap rpre suf = None \<Longrightarrow> suf = a @ b \<Longrightarrow> b \<noteq> [] \<Longrightarrow>
   is_fs_absolute_path_start (rev a @ rpre) b \<Longrightarrow>
   a = [] \<or> (\<not> is_path_body_char (last a) \<and> last a \<noteq> CHR ''~'') \<Longrightarrow> fragment_contained k ws b"
proof (induction k ws cap rpre suf arbitrary: a rule: block_if_embedded_paths_escape.induct)
  case (1 k ws cap rpre suf)
  have ne: "suf \<noteq> []" using "1.prems"(2,3) by simp
  show ?case
  proof (cases "is_fs_absolute_path_start rpre suf")
    case False
    then obtain c a' where a: "a = c # a'" using "1.prems"(2,4) by (cases a) auto
    have "block_if_embedded_paths_escape k ws cap (hd suf # rpre) (tl suf) = None"
      using "1.prems"(1) ne False by (simp add: block_if_embedded_paths_escape.simps [of k ws cap rpre suf])
    then show ?thesis
      using "1.IH"(1) [OF ne False, of a'] "1.prems" a by (cases "a' = []") auto
  next
    case True
    let ?f = "path_fragment suf"
    obtain e where e: "expand_tilde_fragment k ?f = Some e" and c: "check_joined_or_abs k ws cap e = None"
      and r: "block_if_embedded_paths_escape k ws cap (rev ?f @ rpre) (drop (length ?f) suf) = None"
      using "1.prems"(1) ne True
      by (auto simp: block_if_embedded_paths_escape.simps [of k ws cap rpre suf] Let_def split: option.splits)
    show ?thesis
    proof (cases "a = []")
      case True
      then show ?thesis using e c check_joined_or_abs_None expand_fragment_nonempty "1.prems"(2,3)
        by (auto simp: fragment_contained_def)
    next
      case False
      obtain fs where fs: "?f = hd suf # fs" "\<forall>c \<in> set fs. is_path_body_char c"
        using path_fragment_chars [OF ne] by blast
      have allf: "is_path_body_char x \<or> x = CHR ''~''" if "x \<in> set ?f" for x
        using that fs path_start_first [OF True] by auto
      have "length ?f < length a"
      proof (rule ccontr)
        assume "\<not> length ?f < length a"
        then have "prefix a ?f"
          using path_fragment_prefix [of suf] "1.prems"(2) by (metis prefixI prefix_length_prefix leI)
        then have "last a \<in> set ?f" using False by (metis last_in_set set_mono_prefix subsetD)
        then show False using allf "1.prems"(5) False by blast
      qed
      then obtain a' where a': "a = ?f @ a'" "a' \<noteq> []"
        using path_fragment_prefix [of suf] "1.prems"(2)
        by (metis prefixI prefix_length_prefix less_imp_le prefixE append_Nil2 less_irrefl)
      then have "drop (length ?f) suf = a' @ b" using "1.prems"(2) by (metis append.assoc append_eq_conv_conj)
      then show ?thesis
        using "1.IH"(2) [OF ne _ refl e c r, of a'] True "1.prems"(3-5) a' False by simp
    qed
  qed
qed

section \<open>The URL and assignment scans\<close>

lemma file_url_scan_sound:
  "block_if_file_url_escapes k ws cap rpre suf = None \<Longrightarrow> suf = a @ b \<Longrightarrow> prefix_ci_eq b ''file:'' \<Longrightarrow>
   rev a @ rpre = [] \<or> \<not> is_path_body_char (hd (rev a @ rpre)) \<or> hd (rev a @ rpre) = slash \<Longrightarrow>
   file_url_path b = Some path \<Longrightarrow>
   \<exists>d. percent_decode_inplace path = (True, d) \<and> allowlist_path_is_under_workspace k d ws"
proof (induction suf arbitrary: rpre a)
  case (Cons c cs)
  show ?case
  proof (cases a)
    case Nil
    then show ?thesis using Cons.prems by (auto simp: Let_def split: if_splits prod.splits bool.splits)
  next
    case (Cons x a')
    have "block_if_file_url_escapes k ws cap (c # rpre) cs = None"
      using Cons.prems(1) by (auto simp: Let_def split: if_splits option.splits prod.splits bool.splits)
    then show ?thesis using Cons.IH [of "c # rpre" a'] Cons.prems(2-) local.Cons by auto
  qed
qed simp

lemma mutation_scan_complete:
  "\<not> command_mutates_home_or_pwd rpre suf \<Longrightarrow> suf = a @ b \<Longrightarrow> at_word_start (rev a @ rpre) \<Longrightarrow>
   \<not> prefix ''HOME='' b \<and> \<not> prefix ''PWD='' b"
proof (induction suf arbitrary: rpre a)
  case (Cons c cs)
  show ?case
  proof (cases a)
    case Nil
    then show ?thesis using Cons.prems by (auto simp: Let_def split: if_splits)
  next
    case (Cons x a')
    have "\<not> command_mutates_home_or_pwd (c # rpre) cs"
      using Cons.prems(1) by (auto simp: Let_def split: if_splits)
    then show ?thesis using Cons.IH [of "c # rpre" a'] Cons.prems(2-) local.Cons by auto
  qed
qed simp

section \<open>Properties\<close>

definition demo_cfg :: "allowlist_config option" where
  "demo_cfg = Some \<lparr>ac_workspace_path = Some ''/ws'', ac_workspace_only = True\<rparr>"

lemma demo_cfg_simps: "workspace_enforced demo_cfg" "resolve_workspace plain_os demo_cfg = ''/ws''"
  by (simp_all add: demo_cfg_def workspace_enforced_def resolve_workspace_def plain_os_def)

lemma demo_allowed:
  "allowlist_check_shell_command plain_os demo_cfg 256 (Some ''cat /ws/a $HOME/b'') = None"
  by code_simp

text \<open>A command that is allowed, under any configuration, contains none of the forbidden
  substrings of the built-in blocklist; a missing command and an allocation failure are blocked.\<close>

theorem allowed_free_of_blocklist:
  assumes "allowlist_check_shell_command k cfg cap cmd_opt = None"
  shows "\<exists>cmd. cmd_opt = Some cmd \<and> os_strdup k \<and> (\<forall>pat \<in> set BLOCK_SUBSTRINGS. \<not> sublist pat cmd)"
  using assms by (auto elim!: allowed_parts simp: blocklist_hit_None)

theorem allowed_free_of_blocklist_witness:
  "\<not> sublist ''mkfs'' ''cat /ws/a $HOME/b''"
  using allowed_free_of_blocklist [OF demo_allowed] by (simp add: BLOCK_SUBSTRINGS_def)



text \<open>No token of an allowed command names a runtime state file of the agent, neither as
  written (after expansion of a leading tilde or variable) nor joined to the workspace, whether or
  not the workspace is enforced.\<close>

theorem allowed_no_runtime_state:
  assumes "allowlist_check_shell_command k cfg cap (Some cmd) = None"
    and "raw \<in> set (strtok_all token_delim cmd)" "tok = strip_surrounding_quotes raw" "tok \<noteq> []"
    and "check = runtime_state_check_path k tok"
  shows "\<not> allowlist_path_is_runtime_state_file k check \<and>
    (resolve_workspace k cfg \<noteq> [] \<and> ch check 0 \<noteq> slash \<and>
       length (resolve_workspace k cfg @ ''/'' @ check) < PATH_MAX \<longrightarrow>
       \<not> allowlist_path_is_runtime_state_file k (resolve_workspace k cfg @ ''/'' @ check))"
proof -
  obtain cmd' where "Some cmd = Some cmd'"
    "check_tokens k (resolve_workspace k cfg) (workspace_enforced cfg) cap (strtok_all token_delim cmd') = None"
    using allowed_parts [OF assms(1)] by blast
  then have "check_token k (resolve_workspace k cfg) (workspace_enforced cfg) cap raw = None"
    using assms(2) by (auto simp: check_tokens_None)
  then have "block_if_runtime_state_token k (resolve_workspace k cfg) cap tok = None"
    using assms(3) by (auto simp: check_token_def Let_def split: option.splits)
  then show ?thesis using assms(4,5)
    by (auto simp: block_if_runtime_state_token_def Let_def join_under_workspace_def
        split: if_splits option.splits)
qed

theorem allowed_no_runtime_state_witness:
  "\<not> allowlist_path_is_runtime_state_file plain_os ''cat''"
proof -
  have m: "''cat'' \<in> set (strtok_all token_delim ''cat /ws/a $HOME/b'')" by code_simp
  have s: "''cat'' = strip_surrounding_quotes ''cat''" by code_simp
  have c: "''cat'' = runtime_state_check_path plain_os ''cat''" by code_simp
  show ?thesis using allowed_no_runtime_state [OF demo_allowed m s _ c] by simp
qed

text \<open>With the workspace enforced, every dollar sign of an allowed command, at any position
  and inside any quoting, begins a reference to HOME or PWD whose value, followed by the path
  suffix written after it, lies in the workspace.\<close>

theorem allowed_dollars_contained:
  assumes "allowlist_check_shell_command k cfg cap (Some cmd) = None" "workspace_enforced cfg"
    and "cmd = a @ CHR ''$'' # b"
  shows "dollar_contained k (resolve_workspace k cfg) (CHR ''$'' # b)"
proof -
  have "block_workspace_scanners k (resolve_workspace k cfg) cap cmd = None"
    using allowed_parts [OF assms(1)] assms(2) by blast
  from workspace_scanners_None(3) [OF this] show ?thesis
    by (rule dollar_scan_sound) (auto simp: assms(3) suffix_def)
qed

theorem allowed_dollars_contained_witness: "dollar_contained plain_os ''/ws'' ''$HOME/b''"
proof -
  have "(''cat /ws/a $HOME/b'' :: string) = ''cat /ws/a '' @ CHR ''$'' # ''HOME/b''" by simp
  from allowed_dollars_contained [OF demo_allowed demo_cfg_simps(1) this] show ?thesis
    by (simp add: demo_cfg_simps)
qed

text \<open>With the workspace enforced, every absolute, home-relative or dot-relative path that
  begins after a separator in an allowed command (at its start, or after a quote, blank, equals
  sign or any other byte that is neither a path byte nor a tilde) lies in the workspace.\<close>

theorem allowed_embedded_paths_contained:
  assumes "allowlist_check_shell_command k cfg cap (Some cmd) = None" "workspace_enforced cfg"
    and "cmd = a @ b" "b \<noteq> []" "is_fs_absolute_path_start (rev a) b"
    and "a = [] \<or> \<not> is_path_body_char (last a) \<and> last a \<noteq> CHR ''~''"
  shows "fragment_contained k (resolve_workspace k cfg) b"
proof -
  have "block_workspace_scanners k (resolve_workspace k cfg) cap cmd = None"
    using allowed_parts [OF assms(1)] assms(2) by blast
  from workspace_scanners_None(4) [OF this] show ?thesis
    using assms(3-6) by (intro embedded_scan_sound) auto
qed

theorem allowed_embedded_paths_contained_witness: "fragment_contained plain_os ''/ws'' ''/ws/a $HOME/b''"
proof -
  have e: "(''cat /ws/a $HOME/b'' :: string) = ''cat '' @ ''/ws/a $HOME/b''" by simp
  have s: "is_fs_absolute_path_start (rev ''cat '') ''/ws/a $HOME/b''" by code_simp
  have l: "''cat '' = [] \<or> \<not> is_path_body_char (last ''cat '') \<and> last ''cat '' \<noteq> CHR ''~''" by code_simp
  show ?thesis
    using allowed_embedded_paths_contained [OF demo_allowed demo_cfg_simps(1) e _ s l] demo_cfg_simps(2) by simp
qed

text \<open>With the workspace enforced, every file URL of an allowed command that is not glued to a
  preceding path byte percent-decodes without error to a path inside the workspace.\<close>

theorem allowed_file_urls_contained:
  assumes "allowlist_check_shell_command k cfg cap (Some cmd) = None" "workspace_enforced cfg"
    and "cmd = a @ b" "prefix_ci_eq b ''file:''" "file_url_path b = Some path"
    and "a = [] \<or> \<not> is_path_body_char (last a) \<or> last a = slash"
  shows "\<exists>d. percent_decode_inplace path = (True, d) \<and>
    allowlist_path_is_under_workspace k d (resolve_workspace k cfg)"
proof -
  have "block_workspace_scanners k (resolve_workspace k cfg) cap cmd = None"
    using allowed_parts [OF assms(1)] assms(2) by blast
  from workspace_scanners_None(2) [OF this] show ?thesis
    using assms(3-6) by (intro file_url_scan_sound [where a = a and b = b]) (auto simp: hd_rev)
qed

theorem allowed_file_urls_contained_witness:
  "allowlist_path_is_under_workspace plain_os ''/ws/b'' ''/ws''"
proof -
  have al: "allowlist_check_shell_command plain_os demo_cfg 256 (Some ''echo FILE://localhost/ws/%62'') = None"
    by code_simp
  have e: "(''echo FILE://localhost/ws/%62'' :: string) = ''echo '' @ ''FILE://localhost/ws/%62''" by simp
  have p: "prefix_ci_eq ''FILE://localhost/ws/%62'' ''file:''" by code_simp
  have u: "file_url_path ''FILE://localhost/ws/%62'' = Some ''/ws/%62''" by code_simp
  have d: "percent_decode_inplace ''/ws/%62'' = (True, ''/ws/b'')" by code_simp
  have l: "''echo '' = [] \<or> \<not> is_path_body_char (last ''echo '') \<or> last ''echo '' = slash" by code_simp
  show ?thesis
    using allowed_file_urls_contained [OF al demo_cfg_simps(1) e p u l] d demo_cfg_simps(2) by simp
qed

text \<open>With the workspace enforced, a command that assigns HOME or PWD at the start of a word
  is blocked, so the values the scan expanded are the ones the shell will use.\<close>

theorem home_pwd_assignment_blocked:
  assumes "workspace_enforced cfg" "cmd = a @ b" "prefix ''HOME='' b \<or> prefix ''PWD='' b"
    and "a = [] \<or> \<not> is_ident_cont (last a)"
  shows "allowlist_check_shell_command k cfg cap (Some cmd) \<noteq> None"
proof
  assume al: "allowlist_check_shell_command k cfg cap (Some cmd) = None"
  have "block_workspace_scanners k (resolve_workspace k cfg) cap cmd = None"
    using allowed_parts [OF al] assms(1) by blast
  then have "\<not> command_mutates_home_or_pwd [] cmd" by (rule workspace_scanners_None)
  from mutation_scan_complete [OF this assms(2)] assms(3,4) show False
    by (auto simp: at_word_start_def hd_rev)
qed

theorem home_pwd_assignment_blocked_witness:
  "allowlist_check_shell_command plain_os demo_cfg 256 (Some ''ls;HOME=/ cat ~/x'') \<noteq> None"
proof -
  have e: "(''ls;HOME=/ cat ~/x'' :: string) = ''ls;'' @ ''HOME=/ cat ~/x''" by simp
  have p: "prefix ''HOME='' ''HOME=/ cat ~/x'' \<or> prefix ''PWD='' ''HOME=/ cat ~/x''" by simp
  have l: "''ls;'' = [] \<or> \<not> is_ident_cont (last ''ls;'')" by code_simp
  show ?thesis by (rule home_pwd_assignment_blocked [OF demo_cfg_simps(1) e p l])
qed

end
