(* ===== verification/Config.thy ===== *)
theory Config
  imports Prelude "HOL-Library.Word"
begin

text \<open>
  \<open>src/core/config.c\<close>: defaults, the TOML file, environment overrides, path expansion and validation.  The TOML tree of the
  vendored parser is a datatype; \<open>toml_parse_file\<close> and \<open>strtod\<close> are arguments, \<open>getenv\<close> is the argument \<open>env\<close>.  A \<open>char *\<close> that may
  be \<open>NULL\<close> is an option, a \<open>double\<close> its bit pattern.  The struct is split into one record for each section of the file, in the
  order of the parsers.  Allocation succeeds.
\<close>

section \<open>Doubles\<close>

text \<open>IEEE comparison on bit patterns; comparisons with a NaN are false.\<close>

type_synonym double = "64 word"

definition double_magnitude :: "double \<Rightarrow> int" where
  "double_magnitude d = uint d mod 9223372036854775808"

definition double_nan :: "double \<Rightarrow> bool" where
  "double_nan d \<longleftrightarrow> double_magnitude d > 9218868437227405312"

definition double_key :: "double \<Rightarrow> int" where
  "double_key d = (if uint d \<ge> 9223372036854775808 then - double_magnitude d else double_magnitude d)"

definition double_less :: "double \<Rightarrow> double \<Rightarrow> bool" where
  "double_less a b \<longleftrightarrow> \<not> double_nan a \<and> \<not> double_nan b \<and> double_key a < double_key b"

definition d_0 :: double where "d_0 = 0"
definition d_2 :: double where "d_2 = 0x4000000000000000"
definition d_90 :: double where "d_90 = 0x4056800000000000"
definition d_m90 :: double where "d_m90 = 0xC056800000000000"
definition d_180 :: double where "d_180 = 0x4066800000000000"
definition d_m180 :: double where "d_m180 = 0xC066800000000000"
definition DEFAULT_TEMPERATURE :: double where "DEFAULT_TEMPERATURE = 0x3FE6666666666666"

section \<open>The TOML tree\<close>

datatype toml =
    TString string
  | TInt int
  | TDouble double
  | TBool bool
  | TArray "toml list"
  | TTable "(string \<times> toml) list"

type_synonym toml_table = "(string \<times> toml) list"

fun toml_string :: "toml option \<Rightarrow> string option" where
  "toml_string (Some (TString s)) = Some s"
| "toml_string _ = None"

fun toml_int :: "toml option \<Rightarrow> int option" where
  "toml_int (Some (TInt i)) = Some i"
| "toml_int _ = None"

text \<open>\<open>toml_double_in\<close> converts the text of an integer, too; the conversion is the argument.\<close>

fun toml_double :: "(int \<Rightarrow> double) \<Rightarrow> toml option \<Rightarrow> double option" where
  "toml_double conv (Some (TDouble d)) = Some d"
| "toml_double conv (Some (TInt i)) = Some (conv i)"
| "toml_double conv _ = None"

fun toml_bool :: "toml option \<Rightarrow> bool option" where
  "toml_bool (Some (TBool b)) = Some b"
| "toml_bool _ = None"

fun toml_table_in :: "toml_table \<Rightarrow> string \<Rightarrow> toml_table option" where
  "toml_table_in t k = (case map_of t k of Some (TTable u) \<Rightarrow> Some u | _ \<Rightarrow> None)"

fun toml_array_in :: "toml_table \<Rightarrow> string \<Rightarrow> toml list option" where
  "toml_array_in t k = (case map_of t k of Some (TArray a) \<Rightarrow> Some a | _ \<Rightarrow> None)"

definition toml_string_in :: "toml_table \<Rightarrow> string \<Rightarrow> string option" where "toml_string_in t k = toml_string (map_of t k)"
definition toml_int_in :: "toml_table \<Rightarrow> string \<Rightarrow> int option" where "toml_int_in t k = toml_int (map_of t k)"
definition toml_bool_in :: "toml_table \<Rightarrow> string \<Rightarrow> bool option" where "toml_bool_in t k = toml_bool (map_of t k)"
definition toml_double_in :: "(int \<Rightarrow> double) \<Rightarrow> toml_table \<Rightarrow> string \<Rightarrow> double option" where "toml_double_in conv t k = toml_double conv (map_of t k)"

text \<open>\<open>if (d.ok) field = d\<close>, and for strings \<open>set_string\<close>.\<close>

definition over :: "'a option \<Rightarrow> 'a \<Rightarrow> 'a" where
  "over d old = (case d of Some v \<Rightarrow> v | None \<Rightarrow> old)"

definition over_s :: "string option \<Rightarrow> string option \<Rightarrow> string option" where
  "over_s d old = (case d of Some v \<Rightarrow> Some v | None \<Rightarrow> old)"

section \<open>The configuration\<close>

record agent_section =
  agent_model :: "string option"
  agent_max_tokens :: int
  agent_temperature :: double
  agent_max_tool_iterations :: int
  agent_max_context_messages :: int
  agent_soul_path :: "string option"
  agent_identity_path :: "string option"
  agent_user_path :: "string option"
  agent_latitude :: "double option"
  agent_longitude :: "double option"
  agent_country_code :: "string option"

record provider_section =
  provider_default :: "string option"
  provider_anthropic_api_key_env :: "string option"
  provider_openai_api_key_env :: "string option"
  provider_openai_endpoint :: "string option"
  provider_fallback_chain :: "string list"
  provider_local_endpoint :: "string option"
  provider_local_model :: "string option"

record channel_section =
  chan_enabled :: bool
  chan_token_env :: "string option"
  chan_allowed :: "string option list"

record storage_section =
  memory_db_path :: "string option"
  skills_dir :: "string option"
  workspace_only :: bool
  workspace_path :: "string option"
  shell_timeout_sec :: int
  sandbox_enabled :: bool
  sandbox_memory_max_bytes :: int
  sandbox_cpu_max :: "string option"
  sandbox_cgroup_base :: "string option"

record gateway_section =
  gateway_enabled :: bool
  gateway_host :: "string option"
  gateway_port :: int
  gateway_allow_bind_all :: bool

record asap_section =
  asap_enabled :: bool
  asap_agent_urn :: "string option"
  asap_agent_name :: "string option"
  asap_description :: "string option"
  asap_public_base_url :: "string option"
  asap_registry_url :: "string option"
  asap_skill_desc :: "(string \<times> string) list"
  asap_revocation_list_url :: "string option"
  asap_client_timeout_sec :: int
  asap_trusted_senders :: "string list"

record misc_section =
  heartbeat_enabled :: bool
  heartbeat_interval_minutes :: int
  heartbeat_default_channel :: "string option"
  brave_api_key_env :: "string option"
  tavily_api_key_env :: "string option"

record hardware_section =
  hardware_enabled :: bool
  hardware_board :: "string option"
  hardware_class :: "string option"
  hardware_model :: "string option"
  hardware_io :: "string list"
  hardware_i2c_bus :: "int option"
  hardware_camera_type :: "string option"
  hardware_camera_resolution :: "string option"
  hardware_camera_quality :: int
  hardware_gpio_test_pin :: "int option"

record config =
  c_agent :: agent_section
  c_provider :: provider_section
  c_telegram :: channel_section
  c_discord :: channel_section
  c_storage :: storage_section
  c_gateway :: gateway_section
  c_asap :: asap_section
  c_misc :: misc_section
  c_hardware :: hardware_section

definition SHELLCLAW_RELEASE_VERSION :: string where "SHELLCLAW_RELEASE_VERSION = ''1.0.0''"
definition DEFAULT_MAX_TOOL_ITERATIONS :: int where "DEFAULT_MAX_TOOL_ITERATIONS = 20"
definition DEFAULT_MAX_CONTEXT_MESSAGES :: int where "DEFAULT_MAX_CONTEXT_MESSAGES = 40"
definition DEFAULT_MAX_TOKENS :: int where "DEFAULT_MAX_TOKENS = 4096"
definition DEFAULT_SHELL_TIMEOUT_SEC :: int where "DEFAULT_SHELL_TIMEOUT_SEC = 60"
definition DEFAULT_GATEWAY_PORT :: int where "DEFAULT_GATEWAY_PORT = 18789"
definition MAX_HARDWARE_IO_ENTRIES :: nat where "MAX_HARDWARE_IO_ENTRIES = 16"
definition MAX_ASAP_SKILL_DESCRIPTIONS :: nat where "MAX_ASAP_SKILL_DESCRIPTIONS = 64"
definition DEFAULT_ASAP_DESCRIPTION :: string where "DEFAULT_ASAP_DESCRIPTION = ''C-native edge-AI ASAP agent for ShellClaw edge hardware.''"
definition DEFAULT_ASAP_PUBLIC_BASE_URL :: string where "DEFAULT_ASAP_PUBLIC_BASE_URL = ''https://shellclaw.example.com''"
definition DEFAULT_LOCAL_ENDPOINT :: string where "DEFAULT_LOCAL_ENDPOINT = ''http://127.0.0.1:8080/v1/chat/completions''"
definition DEFAULT_LOCAL_MODEL :: string where "DEFAULT_LOCAL_MODEL = ''tinyllama-1.1b-q4''"
definition DEFAULT_CAMERA_TYPE :: string where "DEFAULT_CAMERA_TYPE = ''auto''"
definition DEFAULT_CAMERA_RESOLUTION :: string where "DEFAULT_CAMERA_RESOLUTION = ''640x480''"
definition DEFAULT_CAMERA_QUALITY :: int where "DEFAULT_CAMERA_QUALITY = 75"

definition fallback_chain_defaults :: "string list" where
  "fallback_chain_defaults = [''anthropic'', ''openai'', ''local'']"

text \<open>The assignments of \<open>config_load\<close> before the file is read.\<close>

definition config_defaults :: config where
  "config_defaults =
    \<lparr>c_agent = \<lparr>agent_model = None, agent_max_tokens = DEFAULT_MAX_TOKENS, agent_temperature = DEFAULT_TEMPERATURE,
       agent_max_tool_iterations = DEFAULT_MAX_TOOL_ITERATIONS, agent_max_context_messages = DEFAULT_MAX_CONTEXT_MESSAGES,
       agent_soul_path = None, agent_identity_path = None, agent_user_path = None, agent_latitude = None, agent_longitude = None,
       agent_country_code = None\<rparr>,
     c_provider = \<lparr>provider_default = Some ''anthropic'', provider_anthropic_api_key_env = Some ''ANTHROPIC_API_KEY'',
       provider_openai_api_key_env = Some ''OPENAI_API_KEY'',
       provider_openai_endpoint = Some ''https://api.openai.com/v1/chat/completions'', provider_fallback_chain = fallback_chain_defaults,
       provider_local_endpoint = Some DEFAULT_LOCAL_ENDPOINT, provider_local_model = Some DEFAULT_LOCAL_MODEL\<rparr>,
     c_telegram = \<lparr>chan_enabled = False, chan_token_env = None, chan_allowed = []\<rparr>,
     c_discord = \<lparr>chan_enabled = False, chan_token_env = None, chan_allowed = []\<rparr>,
     c_storage = \<lparr>memory_db_path = Some ''~/.shellclaw/memory.db'', skills_dir = Some ''~/.shellclaw/skills'', workspace_only = True,
       workspace_path = Some ''~/.shellclaw/workspace'', shell_timeout_sec = DEFAULT_SHELL_TIMEOUT_SEC, sandbox_enabled = False,
       sandbox_memory_max_bytes = 0, sandbox_cpu_max = None, sandbox_cgroup_base = None\<rparr>,
     c_gateway = \<lparr>gateway_enabled = False, gateway_host = Some ''127.0.0.1'', gateway_port = DEFAULT_GATEWAY_PORT, gateway_allow_bind_all = False\<rparr>,
     c_asap = \<lparr>asap_enabled = False, asap_agent_urn = Some ''urn:asap:agent:shellclaw'', asap_agent_name = Some ''ShellClaw'',
       asap_description = Some DEFAULT_ASAP_DESCRIPTION, asap_public_base_url = Some DEFAULT_ASAP_PUBLIC_BASE_URL, asap_registry_url = None,
       asap_skill_desc = [], asap_revocation_list_url = None, asap_client_timeout_sec = 0, asap_trusted_senders = []\<rparr>,
     c_misc = \<lparr>heartbeat_enabled = False, heartbeat_interval_minutes = 30, heartbeat_default_channel = Some ''cli'',
       brave_api_key_env = Some ''BRAVE_API_KEY'', tavily_api_key_env = Some ''TAVILY_API_KEY''\<rparr>,
     c_hardware = \<lparr>hardware_enabled = True, hardware_board = None, hardware_class = None, hardware_model = None, hardware_io = [],
       hardware_i2c_bus = None, hardware_camera_type = Some DEFAULT_CAMERA_TYPE, hardware_camera_resolution = Some DEFAULT_CAMERA_RESOLUTION,
       hardware_camera_quality = DEFAULT_CAMERA_QUALITY, hardware_gpio_test_pin = None\<rparr>\<rparr>"

section \<open>The parsers of the sections\<close>

definition config_expand_tilde :: "(string \<Rightarrow> string option) \<Rightarrow> string \<Rightarrow> string" where
  "config_expand_tilde env path =
     (if ch path 0 \<noteq> CHR ''~'' then path
      else let home = (case env ''HOME'' of Some h \<Rightarrow> h | None \<Rightarrow> []) in
        if ch path 1 = nul \<or> ch path 1 = CHR ''/'' then home @ tl path else path)"

definition parse_agent :: "(int \<Rightarrow> double) \<Rightarrow> toml_table \<Rightarrow> agent_section \<Rightarrow> agent_section option" where
  "parse_agent conv root a =
     (case toml_table_in root ''agent'' of
        None \<Rightarrow> None
      | Some t \<Rightarrow>
          let a1 = a\<lparr>agent_model := over_s (toml_string_in t ''model'') (agent_model a),
                     agent_max_tokens := over (map_option wrap32 (toml_int_in t ''max_tokens'')) (agent_max_tokens a),
                     agent_temperature := over (toml_double_in conv t ''temperature'') (agent_temperature a),
                     agent_max_tool_iterations := over (map_option wrap32 (toml_int_in t ''max_tool_iterations'')) (agent_max_tool_iterations a),
                     agent_max_context_messages := over (map_option wrap32 (toml_int_in t ''max_context_messages'')) (agent_max_context_messages a)\<rparr>;
              a2 = (case toml_table_in t ''identity'' of
                      None \<Rightarrow> a1
                    | Some i \<Rightarrow> a1\<lparr>agent_soul_path := over_s (toml_string_in i ''soul'') (agent_soul_path a1),
                                    agent_identity_path := over_s (toml_string_in i ''identity'') (agent_identity_path a1),
                                    agent_user_path := over_s (toml_string_in i ''user'') (agent_user_path a1)\<rparr>) in
          Some (a2\<lparr>agent_latitude := over (map_option Some (toml_double_in conv t ''latitude'')) (agent_latitude a2),
                   agent_longitude := over (map_option Some (toml_double_in conv t ''longitude'')) (agent_longitude a2),
                   agent_country_code := over_s (toml_string_in t ''country_code'') (agent_country_code a2)\<rparr>))"

text \<open>The non-empty strings of an array, in order.\<close>

definition nonempty_strings :: "toml list \<Rightarrow> string list" where
  "nonempty_strings a = filter (\<lambda>s. s \<noteq> []) (List.map_filter (\<lambda>x. toml_string (Some x)) a)"

definition parse_fallback_array :: "toml_table \<Rightarrow> string list \<Rightarrow> string list" where
  "parse_fallback_array t old =
     (case toml_array_in t ''fallback_chain'' of
        None \<Rightarrow> old
      | Some a \<Rightarrow> if nonempty_strings a = [] then old else nonempty_strings a)"

definition parse_providers :: "toml_table \<Rightarrow> provider_section \<Rightarrow> provider_section" where
  "parse_providers root p =
     (case toml_table_in root ''providers'' of
        None \<Rightarrow> p
      | Some t \<Rightarrow>
          let sub = (\<lambda>name key. Option.bind (toml_table_in t name) (\<lambda>u. toml_string_in u key)) in
          p\<lparr>provider_default := over_s (toml_string_in t ''default'') (provider_default p),
            provider_anthropic_api_key_env := over_s (sub ''anthropic'' ''api_key_env'') (provider_anthropic_api_key_env p),
            provider_openai_api_key_env := over_s (sub ''openai'' ''api_key_env'') (provider_openai_api_key_env p),
            provider_openai_endpoint := over_s (sub ''openai'' ''endpoint'') (provider_openai_endpoint p),
            provider_local_endpoint := over_s (sub ''local'' ''endpoint'') (provider_local_endpoint p),
            provider_local_model := over_s (sub ''local'' ''model'') (provider_local_model p),
            provider_fallback_chain := parse_fallback_array t (provider_fallback_chain p)\<rparr>)"

text \<open>\<open>parse_telegram\<close> and \<open>parse_discord\<close>: an entry that is not a string stays as \<open>NULL\<close>.\<close>

definition parse_channel :: "string \<Rightarrow> string \<Rightarrow> toml_table \<Rightarrow> channel_section \<Rightarrow> channel_section" where
  "parse_channel name list_key root c =
     (case Option.bind (toml_table_in root ''channels'') (\<lambda>ch. toml_table_in ch name) of
        None \<Rightarrow> c
      | Some t \<Rightarrow>
          let c1 = c\<lparr>chan_enabled := over (toml_bool_in t ''enabled'') (chan_enabled c),
                     chan_token_env := over_s (toml_string_in t ''token_env'') (chan_token_env c)\<rparr> in
          (case toml_array_in t list_key of
             None \<Rightarrow> c1
           | Some a \<Rightarrow> if a = [] then c1 else c1\<lparr>chan_allowed := map (\<lambda>x. toml_string (Some x)) a\<rparr>))"

definition parse_telegram :: "toml_table \<Rightarrow> channel_section \<Rightarrow> channel_section" where
  "parse_telegram root c = parse_channel ''telegram'' ''allowed_users'' root c"

definition parse_discord :: "toml_table \<Rightarrow> channel_section \<Rightarrow> channel_section" where
  "parse_discord root c = parse_channel ''discord'' ''allowed_user_ids'' root c"

definition parse_gateway :: "toml_table \<Rightarrow> gateway_section \<Rightarrow> gateway_section" where
  "parse_gateway root g =
     (case toml_table_in root ''gateway'' of
        None \<Rightarrow> g
      | Some t \<Rightarrow>
          g\<lparr>gateway_enabled := over (toml_bool_in t ''enabled'') (gateway_enabled g),
            gateway_host := over_s (toml_string_in t ''host'') (gateway_host g),
            gateway_port := over (map_option wrap32 (toml_int_in t ''port'')) (gateway_port g),
            gateway_allow_bind_all := over (toml_bool_in t ''allow_bind_all'') (gateway_allow_bind_all g)\<rparr>)"

text \<open>\<open>toml_table_nkval\<close> and \<open>toml_key_in\<close>: the entries that are neither arrays nor tables.\<close>

fun is_kval :: "toml \<Rightarrow> bool" where
  "is_kval (TArray _) = False"
| "is_kval (TTable _) = False"
| "is_kval _ = True"

definition skill_descriptions :: "toml_table \<Rightarrow> (string \<times> string) list" where
  "skill_descriptions t =
     take MAX_ASAP_SKILL_DESCRIPTIONS
       (List.map_filter (\<lambda>(k, v). if k = [] then None
          else case toml_string_in t k of Some s \<Rightarrow> if s = [] then None else Some (k, s) | None \<Rightarrow> None)
         (filter (\<lambda>(k, v). is_kval v) t))"

definition parse_asap :: "toml_table \<Rightarrow> asap_section \<Rightarrow> asap_section" where
  "parse_asap root s =
     (case toml_table_in root ''asap'' of
        None \<Rightarrow> s
      | Some t \<Rightarrow>
          let descs = (case toml_table_in t ''skill_descriptions'' of Some d \<Rightarrow> skill_descriptions d | None \<Rightarrow> []);
              senders = (case toml_array_in t ''trusted_senders'' of Some a \<Rightarrow> List.map_filter (\<lambda>x. toml_string (Some x)) a | None \<Rightarrow> []) in
          s\<lparr>asap_enabled := over (toml_bool_in t ''enabled'') (asap_enabled s),
            asap_agent_urn := over_s (toml_string_in t ''agent_urn'') (asap_agent_urn s),
            asap_agent_name := over_s (toml_string_in t ''agent_name'') (asap_agent_name s),
            asap_description := over_s (toml_string_in t ''description'') (asap_description s),
            asap_public_base_url := over_s (toml_string_in t ''public_base_url'') (asap_public_base_url s),
            asap_skill_desc := (if descs = [] then asap_skill_desc s else descs),
            asap_registry_url := over_s (toml_string_in t ''registry_url'') (asap_registry_url s),
            asap_revocation_list_url := over_s (toml_string_in t ''revocation_list_url'') (asap_revocation_list_url s),
            asap_client_timeout_sec := (case toml_int_in t ''client_timeout_sec'' of
                Some i \<Rightarrow> if i > 0 then wrap32 i else asap_client_timeout_sec s | None \<Rightarrow> asap_client_timeout_sec s),
            asap_trusted_senders := (if senders = [] then asap_trusted_senders s else senders)\<rparr>)"

definition parse_heartbeat :: "toml_table \<Rightarrow> misc_section \<Rightarrow> misc_section" where
  "parse_heartbeat root m =
     (case toml_table_in root ''heartbeat'' of
        None \<Rightarrow> m
      | Some t \<Rightarrow>
          m\<lparr>heartbeat_enabled := over (toml_bool_in t ''enabled'') (heartbeat_enabled m),
            heartbeat_interval_minutes := over (map_option wrap32 (toml_int_in t ''interval_minutes'')) (heartbeat_interval_minutes m),
            heartbeat_default_channel := over_s (toml_string_in t ''default_channel'') (heartbeat_default_channel m)\<rparr>)"

definition parse_web_search :: "toml_table \<Rightarrow> misc_section \<Rightarrow> misc_section" where
  "parse_web_search root m =
     (case toml_table_in root ''web_search'' of
        None \<Rightarrow> m
      | Some t \<Rightarrow>
          m\<lparr>brave_api_key_env := over_s (toml_string_in t ''brave_api_key_env'') (brave_api_key_env m),
            tavily_api_key_env := over_s (toml_string_in t ''tavily_api_key_env'') (tavily_api_key_env m)\<rparr>)"

definition parse_hardware :: "toml_table \<Rightarrow> hardware_section \<Rightarrow> hardware_section" where
  "parse_hardware root h =
     (case toml_table_in root ''hardware'' of
        None \<Rightarrow> h
      | Some t \<Rightarrow>
          let io = (case toml_array_in t ''io'' of
                      Some a \<Rightarrow> if length a \<le> MAX_HARDWARE_IO_ENTRIES then nonempty_strings a else []
                    | None \<Rightarrow> []) in
          h\<lparr>hardware_enabled := over (toml_bool_in t ''enabled'') (hardware_enabled h),
            hardware_board := over_s (toml_string_in t ''board'') (hardware_board h),
            hardware_class := over_s (toml_string_in t ''class'') (hardware_class h),
            hardware_model := over_s (toml_string_in t ''model'') (hardware_model h),
            hardware_io := (if io = [] then hardware_io h else io),
            hardware_i2c_bus := over (map_option (\<lambda>i. Some (wrap32 i)) (toml_int_in t ''i2c_bus'')) (hardware_i2c_bus h),
            hardware_camera_type := over_s (toml_string_in t ''camera_type'') (hardware_camera_type h),
            hardware_camera_resolution := over_s (toml_string_in t ''camera_resolution'') (hardware_camera_resolution h),
            hardware_camera_quality := over (map_option wrap32 (toml_int_in t ''camera_quality'')) (hardware_camera_quality h),
            hardware_gpio_test_pin := over (map_option (\<lambda>i. Some (wrap32 i)) (toml_int_in t ''gpio_test_pin'')) (hardware_gpio_test_pin h)\<rparr>)"

definition parse_memory_skills_sandbox :: "toml_table \<Rightarrow> storage_section \<Rightarrow> storage_section" where
  "parse_memory_skills_sandbox root s =
     (let mem = (case toml_table_in root ''memory'' of Some t \<Rightarrow> toml_string_in t ''db_path'' | None \<Rightarrow> None);
          skl = (case toml_table_in root ''skills'' of Some t \<Rightarrow> toml_string_in t ''dir'' | None \<Rightarrow> None);
          s1 = s\<lparr>memory_db_path := over_s mem (memory_db_path s), skills_dir := over_s skl (skills_dir s)\<rparr> in
      (case toml_table_in root ''sandbox'' of
         None \<Rightarrow> s1
       | Some t \<Rightarrow>
           s1\<lparr>workspace_only := over (toml_bool_in t ''workspace_only'') (workspace_only s1),
              workspace_path := over_s (toml_string_in t ''workspace_path'') (workspace_path s1),
              shell_timeout_sec := over (map_option wrap32 (toml_int_in t ''shell_timeout_sec'')) (shell_timeout_sec s1),
              sandbox_enabled := over (toml_bool_in t ''enabled'') (sandbox_enabled s1),
              sandbox_memory_max_bytes := (case toml_int_in t ''memory_max_bytes'' of
                  Some i \<Rightarrow> if i > 0 then i else sandbox_memory_max_bytes s1 | None \<Rightarrow> sandbox_memory_max_bytes s1),
              sandbox_cpu_max := over_s (toml_string_in t ''cpu_max'') (sandbox_cpu_max s1),
              sandbox_cgroup_base := over_s (toml_string_in t ''cgroup_base'') (sandbox_cgroup_base s1)\<rparr>))"

section \<open>The environment\<close>

text \<open>The value to store when the text is accepted.\<close>

definition parse_int_env :: "string \<Rightarrow> int \<Rightarrow> int \<Rightarrow> int option" where
  "parse_int_env v min_val max_val =
     (let (n, rest) = strtol10 v in if rest \<noteq> [] \<or> n < min_val \<or> n > max_val then None else Some n)"

definition parse_double_env :: "(string \<Rightarrow> double \<times> string) \<Rightarrow> string \<Rightarrow> double \<Rightarrow> double \<Rightarrow> double option" where
  "parse_double_env strtod v min_val max_val =
     (let (d, rest) = strtod v in if rest \<noteq> [] \<or> double_less d min_val \<or> double_less max_val d then None else Some d)"

definition is_blank_char :: "char \<Rightarrow> bool" where
  "is_blank_char c \<longleftrightarrow> c = CHR '' '' \<or> c = tab"

definition trim_inplace :: "string \<Rightarrow> string" where
  "trim_inplace s = rev (dropWhile is_blank_char (rev (dropWhile is_blank_char s)))"

definition csv_entries :: "string \<Rightarrow> string list" where
  "csv_entries csv = filter (\<lambda>t. t \<noteq> []) (map trim_inplace (strtok_all (\<lambda>c. c = CHR '','') csv))"

definition fallback_chain_apply_csv_override :: "string \<Rightarrow> string list \<Rightarrow> string list" where
  "fallback_chain_apply_csv_override csv old = (if csv_entries csv = [] then old else csv_entries csv)"

definition env_flag :: "string option \<Rightarrow> bool \<Rightarrow> bool" where
  "env_flag v old =
     (case v of
        None \<Rightarrow> old
      | Some s \<Rightarrow>
          if s = ''1'' \<or> map to_lower s = ''true'' \<or> map to_lower s = ''yes'' then True
          else if s = ''0'' \<or> map to_lower s = ''false'' \<or> map to_lower s = ''no'' then False
          else old)"

definition nonempty :: "string option \<Rightarrow> string option" where
  "nonempty v = (case v of Some (c # cs) \<Rightarrow> Some (c # cs) | _ \<Rightarrow> None)"

definition apply_env_overrides :: "(string \<Rightarrow> double \<times> string) \<Rightarrow> (string \<Rightarrow> string option) \<Rightarrow> config \<Rightarrow> config" where
  "apply_env_overrides strtod env c =
     (let a = c_agent c; p = c_provider c; st = c_storage c; g = c_gateway c; s = c_asap c; h = c_hardware c;
          int_env = (\<lambda>name lo hi. Option.bind (env name) (\<lambda>v. parse_int_env v lo hi));
          dbl_env = (\<lambda>name lo hi. Option.bind (env name) (\<lambda>v. parse_double_env strtod v lo hi)) in
      c\<lparr>c_agent := a\<lparr>agent_model := over_s (env ''SHELLCLAW_AGENT_MODEL'') (agent_model a),
            agent_max_tokens := over (int_env ''SHELLCLAW_AGENT_MAX_TOKENS'' 1 2147483647) (agent_max_tokens a),
            agent_temperature := over (dbl_env ''SHELLCLAW_AGENT_TEMPERATURE'' d_0 d_2) (agent_temperature a),
            agent_max_tool_iterations := over (int_env ''SHELLCLAW_AGENT_MAX_TOOL_ITERATIONS'' 1 1000) (agent_max_tool_iterations a),
            agent_max_context_messages := over (int_env ''SHELLCLAW_AGENT_MAX_CONTEXT_MESSAGES'' 1 1000) (agent_max_context_messages a),
            agent_latitude := over (map_option Some (dbl_env ''SHELLCLAW_AGENT_LATITUDE'' d_m90 d_90)) (agent_latitude a),
            agent_longitude := over (map_option Some (dbl_env ''SHELLCLAW_AGENT_LONGITUDE'' d_m180 d_180)) (agent_longitude a),
            agent_country_code := over_s (nonempty (env ''SHELLCLAW_AGENT_COUNTRY_CODE'')) (agent_country_code a)\<rparr>,
        c_storage := st\<lparr>memory_db_path := over_s (env ''SHELLCLAW_MEMORY_DB_PATH'') (memory_db_path st),
            skills_dir := over_s (env ''SHELLCLAW_SKILLS_DIR'') (skills_dir st)\<rparr>,
        c_provider := p\<lparr>provider_openai_endpoint := over_s (env ''SHELLCLAW_OPENAI_ENDPOINT'') (provider_openai_endpoint p),
            provider_default := over_s (env ''SHELLCLAW_DEFAULT_PROVIDER'') (provider_default p),
            provider_local_endpoint := over_s (env ''SHELLCLAW_LOCAL_ENDPOINT'') (provider_local_endpoint p),
            provider_local_model := over_s (env ''SHELLCLAW_LOCAL_MODEL'') (provider_local_model p),
            provider_fallback_chain := (case env ''SHELLCLAW_FALLBACK_CHAIN'' of
                Some v \<Rightarrow> fallback_chain_apply_csv_override v (provider_fallback_chain p) | None \<Rightarrow> provider_fallback_chain p)\<rparr>,
        c_gateway := g\<lparr>gateway_enabled := env_flag (env ''SHELLCLAW_GATEWAY_ENABLED'') (gateway_enabled g),
            gateway_host := over_s (env ''SHELLCLAW_GATEWAY_HOST'') (gateway_host g),
            gateway_port := over (int_env ''SHELLCLAW_GATEWAY_PORT'' 1 65535) (gateway_port g),
            gateway_allow_bind_all := env_flag (env ''SHELLCLAW_GATEWAY_ALLOW_BIND_ALL'') (gateway_allow_bind_all g)\<rparr>,
        c_asap := s\<lparr>asap_registry_url := over_s (env ''SHELLCLAW_ASAP_REGISTRY_URL'') (asap_registry_url s),
            asap_revocation_list_url := over_s (env ''SHELLCLAW_ASAP_REVOCATION_LIST_URL'') (asap_revocation_list_url s),
            asap_description := over_s (nonempty (env ''SHELLCLAW_ASAP_DESCRIPTION'')) (asap_description s),
            asap_public_base_url := over_s (nonempty (env ''SHELLCLAW_ASAP_PUBLIC_BASE_URL'')) (asap_public_base_url s)\<rparr>,
        c_hardware := h\<lparr>hardware_class := over_s (nonempty (env ''SHELLCLAW_HARDWARE_CLASS'')) (hardware_class h),
            hardware_model := over_s (nonempty (env ''SHELLCLAW_HARDWARE_MODEL'')) (hardware_model h),
            hardware_board := over_s (nonempty (env ''SHELLCLAW_BOARD'')) (hardware_board h),
            hardware_i2c_bus := over (map_option Some (int_env ''SHELLCLAW_I2C_BUS'' 0 255)) (hardware_i2c_bus h),
            hardware_camera_type := over_s (nonempty (env ''SHELLCLAW_CAMERA_TYPE'')) (hardware_camera_type h)\<rparr>\<rparr>)"

definition expand_opt :: "(string \<Rightarrow> string option) \<Rightarrow> string option \<Rightarrow> string option" where
  "expand_opt env p = map_option (config_expand_tilde env) p"

definition expand_paths :: "(string \<Rightarrow> string option) \<Rightarrow> config \<Rightarrow> config" where
  "expand_paths env c =
     (let a = c_agent c; st = c_storage c in
      c\<lparr>c_agent := a\<lparr>agent_soul_path := expand_opt env (agent_soul_path a), agent_identity_path := expand_opt env (agent_identity_path a),
            agent_user_path := expand_opt env (agent_user_path a)\<rparr>,
        c_storage := st\<lparr>memory_db_path := expand_opt env (memory_db_path st), skills_dir := expand_opt env (skills_dir st),
            workspace_path := expand_opt env (workspace_path st)\<rparr>\<rparr>)"

definition validate_required :: "config \<Rightarrow> bool" where
  "validate_required c \<longleftrightarrow> nonempty (agent_model (c_agent c)) \<noteq> None"

text \<open>
  \<open>read_toml path\<close> stands for \<open>fopen\<close> and \<open>toml_parse_file\<close>: the file is missing (\<open>None\<close>), malformed (\<open>Inl\<close> with the
  parser's message) or a table.  The result is the message for \<open>errbuf\<close> (before truncation to its size) or the configuration.
\<close>

definition config_load ::
  "(string \<Rightarrow> (string + toml_table) option) \<Rightarrow> (int \<Rightarrow> double) \<Rightarrow> (string \<Rightarrow> double \<times> string) \<Rightarrow> (string \<Rightarrow> string option) \<Rightarrow> string \<Rightarrow> string + config" where
  "config_load read_toml conv strtod env path =
     (case read_toml (config_expand_tilde env path) of
        None \<Rightarrow> Inl (''cannot open config file: '' @ path)
      | Some (Inl e) \<Rightarrow> Inl (''config parse error: '' @ e)
      | Some (Inr tbl) \<Rightarrow>
          (case parse_agent conv tbl (c_agent config_defaults) of
             None \<Rightarrow> Inl ''missing [agent] section''
           | Some a \<Rightarrow>
               let c = config_defaults\<lparr>c_agent := a,
                     c_provider := parse_providers tbl (c_provider config_defaults),
                     c_telegram := parse_telegram tbl (c_telegram config_defaults),
                     c_discord := parse_discord tbl (c_discord config_defaults),
                     c_storage := parse_memory_skills_sandbox tbl (c_storage config_defaults),
                     c_gateway := parse_gateway tbl (c_gateway config_defaults),
                     c_asap := parse_asap tbl (c_asap config_defaults),
                     c_misc := parse_web_search tbl (parse_heartbeat tbl (c_misc config_defaults)),
                     c_hardware := parse_hardware tbl (c_hardware config_defaults)\<rparr>;
                   c' = expand_paths env (apply_env_overrides strtod env c) in
               if validate_required c' then Inr c' else Inl ''agent.model is required''))"

section \<open>Accessors\<close>

text \<open>Those that do more than read the field; the configuration is not \<open>NULL\<close>.\<close>

definition or_string :: "string option \<Rightarrow> string \<Rightarrow> string" where
  "or_string v d = (case v of Some s \<Rightarrow> s | None \<Rightarrow> d)"

definition or_nonempty :: "string option \<Rightarrow> string \<Rightarrow> string" where
  "or_nonempty v d = or_string (nonempty v) d"

definition or_positive :: "int \<Rightarrow> int \<Rightarrow> int" where
  "or_positive i d = (if i > 0 then i else d)"

definition entry_at :: "'a list \<Rightarrow> int \<Rightarrow> 'a option" where
  "entry_at xs i = (if i < 0 \<or> i \<ge> int (length xs) then None else Some (xs ! nat i))"

definition config_agent_latitude :: "config \<Rightarrow> double" where
  "config_agent_latitude c = (case agent_latitude (c_agent c) of Some d \<Rightarrow> d | None \<Rightarrow> d_0)"

definition config_agent_longitude :: "config \<Rightarrow> double" where
  "config_agent_longitude c = (case agent_longitude (c_agent c) of Some d \<Rightarrow> d | None \<Rightarrow> d_0)"

definition config_provider_fallback_chain_count :: "config \<Rightarrow> int" where
  "config_provider_fallback_chain_count c = int (length (provider_fallback_chain (c_provider c)))"

definition config_provider_fallback_chain_entry :: "config \<Rightarrow> int \<Rightarrow> string option" where
  "config_provider_fallback_chain_entry c i = entry_at (provider_fallback_chain (c_provider c)) i"

definition config_provider_local_endpoint :: "config \<Rightarrow> string" where
  "config_provider_local_endpoint c = or_nonempty (provider_local_endpoint (c_provider c)) DEFAULT_LOCAL_ENDPOINT"

definition config_provider_local_model :: "config \<Rightarrow> string" where
  "config_provider_local_model c = or_nonempty (provider_local_model (c_provider c)) DEFAULT_LOCAL_MODEL"

definition config_telegram_allowed_user :: "config \<Rightarrow> int \<Rightarrow> string option" where
  "config_telegram_allowed_user c i = Option.bind (entry_at (chan_allowed (c_telegram c)) i) (\<lambda>x. x)"

definition config_discord_token_env :: "config \<Rightarrow> string" where
  "config_discord_token_env c = or_nonempty (chan_token_env (c_discord c)) ''DISCORD_BOT_TOKEN''"

definition config_discord_allowed_user_id :: "config \<Rightarrow> int \<Rightarrow> string option" where
  "config_discord_allowed_user_id c i = Option.bind (entry_at (chan_allowed (c_discord c)) i) (\<lambda>x. x)"

definition config_shell_timeout_sec :: "config \<Rightarrow> int" where
  "config_shell_timeout_sec c = or_positive (shell_timeout_sec (c_storage c)) DEFAULT_SHELL_TIMEOUT_SEC"

definition config_gateway_host :: "config \<Rightarrow> string" where
  "config_gateway_host c = or_string (gateway_host (c_gateway c)) ''127.0.0.1''"

definition config_gateway_port :: "config \<Rightarrow> int" where
  "config_gateway_port c = or_positive (gateway_port (c_gateway c)) DEFAULT_GATEWAY_PORT"

definition config_asap_agent_urn :: "config \<Rightarrow> string" where
  "config_asap_agent_urn c = or_string (asap_agent_urn (c_asap c)) ''urn:asap:agent:shellclaw''"

definition config_asap_agent_name :: "config \<Rightarrow> string" where
  "config_asap_agent_name c = or_string (asap_agent_name (c_asap c)) ''ShellClaw''"

definition config_asap_description :: "config \<Rightarrow> string" where
  "config_asap_description c = or_nonempty (asap_description (c_asap c)) DEFAULT_ASAP_DESCRIPTION"

definition config_asap_public_base_url :: "config \<Rightarrow> string" where
  "config_asap_public_base_url c = or_nonempty (asap_public_base_url (c_asap c)) DEFAULT_ASAP_PUBLIC_BASE_URL"

definition config_asap_skill_description :: "config \<Rightarrow> string \<Rightarrow> string option" where
  "config_asap_skill_description c skill_id = (if skill_id = [] then None else map_of (asap_skill_desc (c_asap c)) skill_id)"

definition config_asap_client_timeout_sec :: "config \<Rightarrow> int" where
  "config_asap_client_timeout_sec c = or_positive (asap_client_timeout_sec (c_asap c)) 30"

definition config_asap_trusted_sender :: "config \<Rightarrow> int \<Rightarrow> string option" where
  "config_asap_trusted_sender c i = entry_at (asap_trusted_senders (c_asap c)) i"

definition config_heartbeat_interval_minutes :: "config \<Rightarrow> int" where
  "config_heartbeat_interval_minutes c = or_positive (heartbeat_interval_minutes (c_misc c)) 30"

definition config_heartbeat_default_channel :: "config \<Rightarrow> string" where
  "config_heartbeat_default_channel c = or_string (heartbeat_default_channel (c_misc c)) ''cli''"

definition config_brave_api_key_env :: "config \<Rightarrow> string" where
  "config_brave_api_key_env c = or_string (brave_api_key_env (c_misc c)) ''BRAVE_API_KEY''"

definition config_tavily_api_key_env :: "config \<Rightarrow> string" where
  "config_tavily_api_key_env c = or_string (tavily_api_key_env (c_misc c)) ''TAVILY_API_KEY''"

definition config_hardware_io_entry :: "config \<Rightarrow> int \<Rightarrow> string option" where
  "config_hardware_io_entry c i = entry_at (hardware_io (c_hardware c)) i"

definition config_hardware_i2c_bus :: "config \<Rightarrow> int" where
  "config_hardware_i2c_bus c = (case hardware_i2c_bus (c_hardware c) of Some b \<Rightarrow> b | None \<Rightarrow> 0)"

definition config_hardware_camera_type :: "config \<Rightarrow> string" where
  "config_hardware_camera_type c = or_nonempty (hardware_camera_type (c_hardware c)) DEFAULT_CAMERA_TYPE"

definition config_hardware_camera_resolution :: "config \<Rightarrow> string" where
  "config_hardware_camera_resolution c = or_nonempty (hardware_camera_resolution (c_hardware c)) DEFAULT_CAMERA_RESOLUTION"

definition config_hardware_camera_quality :: "config \<Rightarrow> int" where
  "config_hardware_camera_quality c = or_positive (hardware_camera_quality (c_hardware c)) DEFAULT_CAMERA_QUALITY"

definition config_hardware_gpio_test_pin :: "config \<Rightarrow> int" where
  "config_hardware_gpio_test_pin c = (case hardware_gpio_test_pin (c_hardware c) of Some b \<Rightarrow> b | None \<Rightarrow> 0)"

section \<open>Lemmas\<close>

named_theorems config_simps \<open>evaluation of the configuration's layers\<close>

declare over_def [config_simps] over_s_def [config_simps]

definition int32 :: "int \<Rightarrow> bool" where "int32 i \<longleftrightarrow> - 2147483648 \<le> i \<and> i \<le> 2147483647"

lemma int32_wrap32 [simp]: "int32 (wrap32 i)"
  by (simp add: int32_def wrap32_def)

lemma parse_int_env_range: "parse_int_env v lo hi = Some n \<Longrightarrow> lo \<le> n \<and> n \<le> hi"
  by (auto simp: parse_int_env_def split: prod.splits if_splits)

lemma or_positive_pos: "0 < d \<Longrightarrow> 0 < or_positive i d"
  by (simp add: or_positive_def)

lemma nonempty_eq [simp]: "nonempty v = None \<longleftrightarrow> v = None \<or> v = Some []"
  by (auto simp: nonempty_def split: option.splits list.splits)

lemma or_nonempty_ne: "d \<noteq> [] \<Longrightarrow> or_nonempty v d \<noteq> []"
  by (auto simp: or_nonempty_def or_string_def nonempty_def split: option.splits list.splits)

lemma nonempty_strings_ne: "[] \<notin> set (nonempty_strings a)"
  by (simp add: nonempty_strings_def)

lemma csv_entries_ne: "[] \<notin> set (csv_entries csv)"
  by (simp add: csv_entries_def)

lemma length_map_filter: "length (List.map_filter f xs) \<le> length xs"
  by (simp add: List.map_filter_def)

lemma length_nonempty_strings: "length (nonempty_strings a) \<le> length a"
  unfolding nonempty_strings_def by (rule le_trans [OF length_filter_le length_map_filter])

text \<open>Each layer keeps what the loaded configuration promises.\<close>

definition chain_ok :: "string list \<Rightarrow> bool" where
  "chain_ok xs \<longleftrightarrow> xs \<noteq> [] \<and> [] \<notin> set xs"

lemma chain_defaults: "chain_ok fallback_chain_defaults"
  by (simp add: chain_ok_def fallback_chain_defaults_def)

lemma chain_parse: "chain_ok (provider_fallback_chain p) \<Longrightarrow> chain_ok (provider_fallback_chain (parse_providers root p))"
  by (auto simp: parse_providers_def parse_fallback_array_def chain_ok_def Let_def nonempty_strings_ne split: option.splits)

lemma chain_env: "chain_ok (provider_fallback_chain (c_provider c)) \<Longrightarrow>
  chain_ok (provider_fallback_chain (c_provider (apply_env_overrides strtod env c)))"
  by (auto simp: apply_env_overrides_def chain_ok_def fallback_chain_apply_csv_override_def csv_entries_ne Let_def split: option.splits)

definition ints_ok :: "config \<Rightarrow> bool" where
  "ints_ok c \<longleftrightarrow> list_all int32 [agent_max_tokens (c_agent c), agent_max_tool_iterations (c_agent c), agent_max_context_messages (c_agent c),
     gateway_port (c_gateway c), shell_timeout_sec (c_storage c), asap_client_timeout_sec (c_asap c),
     heartbeat_interval_minutes (c_misc c), hardware_camera_quality (c_hardware c)]"

lemma int32_over: "int32 old \<Longrightarrow> int32 (over (map_option wrap32 d) old)"
  by (auto simp: over_def split: option.splits)

lemma int32_env: "int32 old \<Longrightarrow> - 2147483648 \<le> lo \<Longrightarrow> hi \<le> 2147483647 \<Longrightarrow>
  int32 (over (Option.bind v (\<lambda>s. parse_int_env s lo hi)) old)"
  by (auto simp: over_def int32_def dest: parse_int_env_range split: option.splits bind_splits)

lemma hardware_io_parse:
  "length (hardware_io h) \<le> MAX_HARDWARE_IO_ENTRIES \<Longrightarrow> length (hardware_io (parse_hardware root h)) \<le> MAX_HARDWARE_IO_ENTRIES"
  using length_nonempty_strings by (auto simp: parse_hardware_def Let_def split: option.splits intro: le_trans)

lemma skill_desc_parse:
  "length (asap_skill_desc s) \<le> MAX_ASAP_SKILL_DESCRIPTIONS \<Longrightarrow> length (asap_skill_desc (parse_asap root s)) \<le> MAX_ASAP_SKILL_DESCRIPTIONS"
  by (auto simp: parse_asap_def skill_descriptions_def Let_def split: option.splits)

lemma agent_ints:
  "parse_agent conv root a = Some b \<Longrightarrow>
   int32 (agent_max_tokens a) \<Longrightarrow> int32 (agent_max_tool_iterations a) \<Longrightarrow> int32 (agent_max_context_messages a) \<Longrightarrow>
   int32 (agent_max_tokens b) \<and> int32 (agent_max_tool_iterations b) \<and> int32 (agent_max_context_messages b)"
  by (auto simp: parse_agent_def Let_def int32_over split: option.splits)

lemma section_ints:
  "int32 (gateway_port g) \<Longrightarrow> int32 (gateway_port (parse_gateway root g))"
  "int32 (shell_timeout_sec st) \<Longrightarrow> int32 (shell_timeout_sec (parse_memory_skills_sandbox root st))"
  "int32 (asap_client_timeout_sec s) \<Longrightarrow> int32 (asap_client_timeout_sec (parse_asap root s))"
  "int32 (heartbeat_interval_minutes m) \<Longrightarrow> int32 (heartbeat_interval_minutes (parse_web_search root (parse_heartbeat root m)))"
  "int32 (hardware_camera_quality h) \<Longrightarrow> int32 (hardware_camera_quality (parse_hardware root h))"
  by (auto simp: parse_gateway_def parse_memory_skills_sandbox_def parse_asap_def parse_web_search_def parse_heartbeat_def
      parse_hardware_def Let_def int32_over split: option.splits)

lemma env_ints: "ints_ok c \<Longrightarrow> ints_ok (expand_paths env (apply_env_overrides strtod env c))"
  by (simp add: ints_ok_def apply_env_overrides_def expand_paths_def Let_def int32_env)

lemma config_load_Inr:
  assumes "config_load read_toml conv strtod env path = Inr c"
  obtains t a where "read_toml (config_expand_tilde env path) = Some (Inr t)" "parse_agent conv t (c_agent config_defaults) = Some a"
    "c = expand_paths env (apply_env_overrides strtod env (config_defaults\<lparr>c_agent := a,
          c_provider := parse_providers t (c_provider config_defaults), c_telegram := parse_telegram t (c_telegram config_defaults),
          c_discord := parse_discord t (c_discord config_defaults), c_storage := parse_memory_skills_sandbox t (c_storage config_defaults),
          c_gateway := parse_gateway t (c_gateway config_defaults), c_asap := parse_asap t (c_asap config_defaults),
          c_misc := parse_web_search t (parse_heartbeat t (c_misc config_defaults)),
          c_hardware := parse_hardware t (c_hardware config_defaults)\<rparr>))" "validate_required c"
  using assms by (auto simp: config_load_def Let_def split: option.splits sum.splits if_splits)

text \<open>(C17) What the rest of the program may rely on in a configuration that loaded, whatever the file and the environment say:
  the model is named; the fallback chain is not empty and has no empty entry; the integers fit a C int, and the accessors for
  port, timeouts, heartbeat interval and camera quality are positive; the hardware list has at most 16 entries and the skill
  descriptions at most 64; and the defaulted texts are not empty.\<close>

theorem loaded_config_typed:
  assumes "config_load read_toml conv strtod env path = Inr c"
  shows "nonempty (agent_model (c_agent c)) \<noteq> None \<and> chain_ok (provider_fallback_chain (c_provider c)) \<and> ints_ok c \<and>
    0 < config_gateway_port c \<and> 0 < config_shell_timeout_sec c \<and> 0 < config_asap_client_timeout_sec c \<and>
    0 < config_heartbeat_interval_minutes c \<and> 0 < config_hardware_camera_quality c \<and>
    length (hardware_io (c_hardware c)) \<le> MAX_HARDWARE_IO_ENTRIES \<and> length (asap_skill_desc (c_asap c)) \<le> MAX_ASAP_SKILL_DESCRIPTIONS \<and>
    config_provider_local_endpoint c \<noteq> [] \<and> config_provider_local_model c \<noteq> [] \<and> config_hardware_camera_type c \<noteq> []"
proof -
  obtain t a where h: "parse_agent conv t (c_agent config_defaults) = Some a"
    "c = expand_paths env (apply_env_overrides strtod env (config_defaults\<lparr>c_agent := a,
          c_provider := parse_providers t (c_provider config_defaults), c_telegram := parse_telegram t (c_telegram config_defaults),
          c_discord := parse_discord t (c_discord config_defaults), c_storage := parse_memory_skills_sandbox t (c_storage config_defaults),
          c_gateway := parse_gateway t (c_gateway config_defaults), c_asap := parse_asap t (c_asap config_defaults),
          c_misc := parse_web_search t (parse_heartbeat t (c_misc config_defaults)),
          c_hardware := parse_hardware t (c_hardware config_defaults)\<rparr>))" "validate_required c"
    by (rule config_load_Inr [OF assms])
  have chain: "chain_ok (provider_fallback_chain (c_provider c))"
    unfolding h(2) by (simp add: expand_paths_def Let_def) (rule chain_env, simp, rule chain_parse, simp add: config_defaults_def chain_defaults)
  have ints: "ints_ok c"
    unfolding h(2) by (rule env_ints)
      (use agent_ints [OF h(1)] in \<open>simp add: ints_ok_def section_ints config_defaults_def DEFAULT_MAX_TOKENS_def DEFAULT_MAX_TOOL_ITERATIONS_def
        DEFAULT_MAX_CONTEXT_MESSAGES_def DEFAULT_GATEWAY_PORT_def DEFAULT_SHELL_TIMEOUT_SEC_def DEFAULT_CAMERA_QUALITY_def int32_def [of 0]
        int32_def [of "numeral n" for n]\<close>)
  have io: "length (hardware_io (c_hardware c)) \<le> MAX_HARDWARE_IO_ENTRIES" "length (asap_skill_desc (c_asap c)) \<le> MAX_ASAP_SKILL_DESCRIPTIONS"
    unfolding h(2) by (simp_all add: expand_paths_def apply_env_overrides_def Let_def hardware_io_parse skill_desc_parse config_defaults_def)
  show ?thesis using chain ints io h(3)
    by (simp add: validate_required_def config_gateway_port_def config_shell_timeout_sec_def config_asap_client_timeout_sec_def
        config_heartbeat_interval_minutes_def config_hardware_camera_quality_def or_positive_pos or_nonempty_ne
        config_provider_local_endpoint_def config_provider_local_model_def config_hardware_camera_type_def DEFAULT_GATEWAY_PORT_def
        DEFAULT_SHELL_TIMEOUT_SEC_def DEFAULT_CAMERA_QUALITY_def DEFAULT_LOCAL_ENDPOINT_def DEFAULT_LOCAL_MODEL_def DEFAULT_CAMERA_TYPE_def)
qed

definition demo_toml :: toml_table where
  "demo_toml = [(''agent'', TTable [(''model'', TString ''m'')]), (''gateway'', TTable [(''port'', TInt 8080)]),
     (''providers'', TTable [(''fallback_chain'', TArray [TString ''local'', TInt 3, TString []])])]"

definition demo_getenv :: "string \<Rightarrow> string option" where
  "demo_getenv v = (if v = ''HOME'' then Some ''/h'' else if v = ''SHELLCLAW_GATEWAY_PORT'' then Some ''99999'' else None)"

definition demo_load :: "string + config" where
  "demo_load = config_load (\<lambda>p. Some (Inr demo_toml)) (\<lambda>i. d_0) (\<lambda>s. (d_0, s)) demo_getenv ''~/c''"

theorem loaded_config_typed_witness:
  "\<exists>c. demo_load = Inr c \<and> chain_ok (provider_fallback_chain (c_provider c)) \<and> 0 < config_gateway_port c \<and>
     config_gateway_port c = 8080 \<and> workspace_path (c_storage c) = Some ''/h/.shellclaw/workspace''"
proof -
  have "map_option (\<lambda>c. (config_gateway_port c, workspace_path (c_storage c))) (case demo_load of Inr c \<Rightarrow> Some c | Inl e \<Rightarrow> None) =
      Some (8080, Some ''/h/.shellclaw/workspace'')" by code_simp
  then obtain c where c: "demo_load = Inr c" "config_gateway_port c = 8080" "workspace_path (c_storage c) = Some ''/h/.shellclaw/workspace''"
    by (auto split: sum.splits)
  show ?thesis using loaded_config_typed [OF c(1) [unfolded demo_load_def]] c by blast
qed

text \<open>
  Range checks that let values through: a NaN passes every check of \<open>parse_double_env\<close>, and an empty variable is the number 0
  for \<open>parse_int_env\<close>, so that an empty \<open>SHELLCLAW_I2C_BUS\<close> selects bus 0.
\<close>

lemma nan_passes_range_check: "strtod v = (d, []) \<Longrightarrow> double_nan d \<Longrightarrow> parse_double_env strtod v lo hi = Some d"
  by (simp add: parse_double_env_def double_less_def)

lemma empty_int_env: "lo \<le> 0 \<Longrightarrow> 0 \<le> hi \<Longrightarrow> parse_int_env [] lo hi = Some 0"
  by (simp add: parse_int_env_def strtol10_def strtol_scan_def)

lemma empty_i2c_bus: "env ''SHELLCLAW_I2C_BUS'' = Some [] \<Longrightarrow> hardware_i2c_bus (c_hardware (apply_env_overrides strtod env c)) = Some 0"
  by (simp add: apply_env_overrides_def Let_def over_def empty_int_env)

end
