(* ===== verification/Cjson.thy ===== *)
theory Cjson
  imports Prelude "HOL-Library.Word"
begin

text \<open>
  The JSON tree of the vendored \<open>vendor/cJSON/cJSON.c\<close>, and the accessors the sources call.  A
  number is the bit pattern of its double.  Parsing and printing of text are not modelled: they
  are arguments of the definitions that use them.
\<close>

datatype cjson =
    CNull | CFalse | CTrue
  | CNumber "64 word"
  | CString string
  | CArray "cjson list"
  | CObject "(string \<times> cjson) list"

definition lower :: "string \<Rightarrow> string" where
  "lower s = map to_lower s"

text \<open>The children of an object; arrays have unnamed children, which no accessor by name finds.\<close>

fun members :: "cjson \<Rightarrow> (string \<times> cjson) list" where
  "members (CObject ms) = ms"
| "members _ = []"

definition cJSON_GetObjectItem :: "cjson \<Rightarrow> string \<Rightarrow> cjson option" where
  "cJSON_GetObjectItem j name = map_option snd (find (\<lambda>m. lower name = lower (fst m)) (members j))"

definition cJSON_GetObjectItemCaseSensitive :: "cjson \<Rightarrow> string \<Rightarrow> cjson option" where
  "cJSON_GetObjectItemCaseSensitive j name = map_option snd (find (\<lambda>m. name = fst m) (members j))"

definition cJSON_HasObjectItem :: "cjson \<Rightarrow> string \<Rightarrow> bool" where
  "cJSON_HasObjectItem j name \<longleftrightarrow> cJSON_GetObjectItem j name \<noteq> None"

fun cJSON_IsObject :: "cjson \<Rightarrow> bool" where
  "cJSON_IsObject (CObject _) = True"
| "cJSON_IsObject _ = False"

fun cJSON_IsArray :: "cjson \<Rightarrow> bool" where
  "cJSON_IsArray (CArray _) = True"
| "cJSON_IsArray _ = False"

text \<open>The value of a string item, for the test \<open>cJSON_IsString(item) && item->valuestring\<close>.\<close>

fun string_of :: "cjson option \<Rightarrow> string option" where
  "string_of (Some (CString s)) = Some s"
| "string_of _ = None"

text \<open>The value of a number item, for the test \<open>cJSON_IsNumber(item)\<close>.\<close>

fun number_of :: "cjson option \<Rightarrow> 64 word option" where
  "number_of (Some (CNumber d)) = Some d"
| "number_of _ = None"

fun array_items :: "cjson \<Rightarrow> cjson list" where
  "array_items (CArray xs) = xs"
| "array_items _ = []"

definition cJSON_GetArrayItem :: "cjson \<Rightarrow> nat \<Rightarrow> cjson option" where
  "cJSON_GetArrayItem a i = (if i < length (array_items a) then Some (array_items a ! i) else None)"

text \<open>An item of what may be missing or no object.\<close>

definition object_item :: "cjson option \<Rightarrow> string \<Rightarrow> cjson option" where
  "object_item j name = (case j of None \<Rightarrow> None | Some x \<Rightarrow> if cJSON_IsObject x then cJSON_GetObjectItem x name else None)"

definition cJSON_AddItemToObject :: "cjson \<Rightarrow> string \<Rightarrow> cjson \<Rightarrow> cjson" where
  "cJSON_AddItemToObject j name item = CObject (members j @ [(name, item)])"

section \<open>Lemmas\<close>

lemma string_of_Some [simp]: "string_of x = Some s \<longleftrightarrow> x = Some (CString s)"
  by (cases x rule: string_of.cases) auto

lemma get_item_nil [simp]:
  "cJSON_GetObjectItem (CObject []) name = None" "cJSON_GetObjectItemCaseSensitive (CObject []) name = None"
  by (simp_all add: cJSON_GetObjectItem_def cJSON_GetObjectItemCaseSensitive_def)

lemma get_item_cons [simp]:
  "cJSON_GetObjectItem (CObject ((k, v) # ms)) name =
     (if lower name = lower k then Some v else cJSON_GetObjectItem (CObject ms) name)"
  "cJSON_GetObjectItemCaseSensitive (CObject ((k, v) # ms)) name =
     (if name = k then Some v else cJSON_GetObjectItemCaseSensitive (CObject ms) name)"
  by (simp_all add: cJSON_GetObjectItem_def cJSON_GetObjectItemCaseSensitive_def)

lemma get_item_append:
  "cJSON_GetObjectItem (CObject (ms @ ns)) name =
     (case cJSON_GetObjectItem (CObject ms) name of None \<Rightarrow> cJSON_GetObjectItem (CObject ns) name | Some v \<Rightarrow> Some v)"
  "cJSON_GetObjectItemCaseSensitive (CObject (ms @ ns)) name =
     (case cJSON_GetObjectItemCaseSensitive (CObject ms) name of
        None \<Rightarrow> cJSON_GetObjectItemCaseSensitive (CObject ns) name | Some v \<Rightarrow> Some v)"
  by (induction ms) (auto simp del: split_paired_All)

text \<open>A member found with its exact name is also found ignoring case, but not conversely.\<close>

lemma case_sensitive_found:
  "cJSON_GetObjectItemCaseSensitive j name = Some v \<Longrightarrow> cJSON_GetObjectItem j name \<noteq> None"
  unfolding cJSON_GetObjectItem_def cJSON_GetObjectItemCaseSensitive_def
  by (induction "members j" arbitrary: j rule: list.induct)
    (auto simp: find_None_iff find_Some_iff, metis (no_types, lifting) fst_conv nth_mem snd_conv surj_pair)

lemma get_array_item [simp]: "i < length xs \<Longrightarrow> cJSON_GetArrayItem (CArray xs) i = Some (xs ! i)"
  by (simp add: cJSON_GetArrayItem_def)

end
