(* ===== verification/Atomic_Write.thy ===== *)
theory Atomic_Write
  imports Allowlist_Path
begin

text \<open>
  Replacing a file through a temporary file and \<open>rename\<close>, as the file tool, the token file and the skills do it.  The file system is a
  map from paths to contents, and an operation yields the list of the states it passes through, latest first, because a crash can
  leave any of them.  The locale states what these writers have in common and derives that a reader sees the old content or
  the new one, never a part of it.
\<close>

section \<open>Definitions\<close>

type_synonym fsys = "string \<Rightarrow> string option"

text \<open>What the system calls of a writer do: the name \<open>mkstemp\<close> picks (or its failure), how many bytes \<open>write\<close> takes at an
  offset, and whether the other calls succeed.\<close>

record save_env =
  se_mkdir :: bool
  se_mkstemp :: "string option"
  se_fchmod :: bool
  se_write :: "nat \<Rightarrow> int"
  se_fsync :: bool
  se_close :: bool
  se_rename :: bool

text \<open>The write loop; the result says also whether everything was written.  \<open>write\<close> never takes more than what is left.\<close>

function write_all :: "(nat \<Rightarrow> int) \<Rightarrow> string \<Rightarrow> string \<Rightarrow> nat \<Rightarrow> fsys list \<Rightarrow> fsys list \<times> bool" where
  "write_all wr tmp content off states =
     (if off < length content then
        let n = min (wr off) (int (length content - off)) in
        if n \<le> 0 then (states, False)
        else write_all wr tmp content (off + nat n) ((hd states)(tmp \<mapsto> take (off + nat n) content) # states)
      else (states, True))"
  by pat_completeness auto
termination by (relation "measure (\<lambda>(_, _, content, off, _). length content - off)") auto

declare write_all.simps [simp del]

definition discard_file_tmp :: "string \<Rightarrow> fsys list \<Rightarrow> fsys list" where
  "discard_file_tmp tmp states = (hd states)(tmp := None) # states"

section \<open>The write loop\<close>

lemma write_all_step:
  "write_all wr tmp content off states =
     (let n = min (wr off) (int (length content - off)) in
      if off < length content \<and> 0 < n
      then write_all wr tmp content (off + nat n) ((hd states)(tmp \<mapsto> take (off + nat n) content) # states)
      else (states, \<not> off < length content))"
  by (subst write_all.simps) (auto simp: Let_def)

lemma write_all_states:
  assumes "\<forall>s \<in> set states. s path = old" "tmp \<noteq> path" "states \<noteq> []"
  shows "\<forall>s \<in> set (fst (write_all wr tmp content off states)). s path = old"
  using assms
proof (induction wr tmp content off states rule: write_all.induct)
  case (1 wr tmp content off states)
  let ?n = "min (wr off) (int (length content - off))"
  show ?case
  proof (cases "off < length content \<and> 0 < ?n")
    case True
    have "hd states \<in> set states" using "1.prems"(3) by simp
    then have "((hd states)(tmp \<mapsto> take (off + nat ?n) content)) path = old" using "1.prems"(1,2) by auto
    then have a: "\<forall>s \<in> set ((hd states)(tmp \<mapsto> take (off + nat ?n) content) # states). s path = old"
      using "1.prems"(1) by auto
    show ?thesis using "1.IH" [OF _ refl _ a "1.prems"(2)] True by (subst write_all_step) (force simp: Let_def)
  qed (use "1.prems" in \<open>subst write_all_step, auto simp: Let_def\<close>)
qed

lemma write_all_nonempty: "states \<noteq> [] \<Longrightarrow> fst (write_all wr tmp content off states) \<noteq> []"
proof (induction wr tmp content off states rule: write_all.induct)
  case (1 wr tmp content off states)
  show ?case using 1 by (subst write_all.simps) (auto simp: Let_def)
qed

lemma write_all_final:
  assumes "hd states = fs(tmp \<mapsto> take off content)" "off \<le> length content"
  shows "\<exists>k \<le> length content. hd (fst (write_all wr tmp content off states)) = fs(tmp \<mapsto> take k content) \<and>
    (snd (write_all wr tmp content off states) \<longrightarrow> k = length content)"
  using assms
proof (induction wr tmp content off states rule: write_all.induct)
  case (1 wr tmp content off states)
  let ?n = "min (wr off) (int (length content - off))"
  show ?case
  proof (cases "off < length content \<and> 0 < ?n")
    case True
    have e: "write_all wr tmp content off states =
        write_all wr tmp content (off + nat ?n) ((hd states)(tmp \<mapsto> take (off + nat ?n) content) # states)"
      using True by (subst write_all_step) (auto simp: Let_def)
    have b: "off + nat ?n \<le> length content" using True by linarith
    have h: "hd ((hd states)(tmp \<mapsto> take (off + nat ?n) content) # states) = fs(tmp \<mapsto> take (off + nat ?n) content)"
      by (metis "1.prems"(1) fun_upd_upd list.sel(1))
    show ?thesis unfolding e using "1.IH" [OF _ refl _ h b] True by (metis linorder_not_le)
  next
    case False
    then have e: "write_all wr tmp content off states = (states, \<not> off < length content)"
      by (subst write_all_step) (auto simp: Let_def)
    show ?thesis unfolding e using "1.prems" by (intro exI [of _ off]) auto
  qed
qed

section \<open>What an atomic writer promises\<close>

text \<open>The name \<open>mkstemp\<close> picks did not exist (\<open>O_EXCL\<close>).\<close>

definition fresh_tmp :: "save_env \<Rightarrow> string \<Rightarrow> fsys \<Rightarrow> bool" where
  "fresh_tmp e path fs = (case se_mkstemp e of None \<Rightarrow> True | Some tmp \<Rightarrow> tmp \<noteq> path \<and> fs tmp = None)"

text \<open>The ways a writer ends: before the temporary file exists, after discarding it, or with the rename.\<close>

inductive atomic_outcome :: "fsys list \<times> bool \<Rightarrow> save_env \<Rightarrow> string \<Rightarrow> string \<Rightarrow> fsys \<Rightarrow> bool" where
  early: "atomic_outcome ([fs], False) e path content fs"
| created: "se_mkstemp e = Some tmp \<Longrightarrow> atomic_outcome (discard_file_tmp tmp [fs(tmp \<mapsto> []), fs], False) e path content fs"
| discarded: "se_mkstemp e = Some tmp \<Longrightarrow> write_all (se_write e) tmp content 0 [fs(tmp \<mapsto> []), fs] = (states, ok) \<Longrightarrow>
    atomic_outcome (discard_file_tmp tmp states, False) e path content fs"
| renamed: "se_mkstemp e = Some tmp \<Longrightarrow> write_all (se_write e) tmp content 0 [fs(tmp \<mapsto> []), fs] = (states, True) \<Longrightarrow>
    atomic_outcome ((hd states)(tmp := None, path \<mapsto> content) # states, True) e path content fs"

inductive_cases atomic_outcomeE: "atomic_outcome r e path content fs"

lemma written_states:
  assumes "write_all wr tmp content 0 [fs(tmp \<mapsto> []), fs] = (states, ok)"
  shows "states \<noteq> []" "\<And>s q. s \<in> set states \<Longrightarrow> q \<noteq> tmp \<Longrightarrow> s q = fs q"
    "(hd states)(tmp := None) = fs(tmp := None)"
proof -
  show "states \<noteq> []" using write_all_nonempty [of "[fs(tmp \<mapsto> []), fs]" wr tmp content 0] assms by simp
  show "s q = fs q" if h: "s \<in> set states" "q \<noteq> tmp" for s q
    using write_all_states [of "[fs(tmp \<mapsto> []), fs]" q "fs q" tmp wr content 0] assms h by auto
  show "(hd states)(tmp := None) = fs(tmp := None)"
    using write_all_final [of "[fs(tmp \<mapsto> []), fs]" fs tmp 0 content wr] assms by auto
qed

locale atomic_replace =
  fixes replace :: "save_env \<Rightarrow> string \<Rightarrow> string \<Rightarrow> fsys \<Rightarrow> fsys list \<times> bool"
  assumes replace_outcome: "atomic_outcome (replace e path content fs) e path content fs"
begin

lemma replace_result:
  assumes "fresh_tmp e path fs"
  shows "hd (fst (replace e path content fs)) = (if snd (replace e path content fs) then fs(path \<mapsto> content) else fs)"
  using replace_outcome [of e path content fs]
proof (cases rule: atomic_outcome.cases)
  case (renamed tmp states)
  moreover from this have "fs(tmp := None) = fs" using assms by (auto simp: fresh_tmp_def)
  ultimately show ?thesis using written_states(3) by simp
next
  case (discarded tmp states ok)
  moreover from this have "fs(tmp := None) = fs" using assms by (auto simp: fresh_tmp_def)
  ultimately show ?thesis using written_states(3) by (simp add: discard_file_tmp_def)
next
  case (created tmp)
  moreover from this have "fs(tmp := None) = fs" using assms by (auto simp: fresh_tmp_def)
  ultimately show ?thesis by (simp add: discard_file_tmp_def)
qed auto

text \<open>In no state is a file other than the target and the temporary file touched.\<close>

lemma replace_frame:
  assumes "s \<in> set (fst (replace e path content fs))" "se_mkstemp e \<noteq> Some q"
  shows "s q = fs q \<or> q = path \<and> s q = Some content"
  using replace_outcome [of e path content fs]
proof (cases rule: atomic_outcome.cases)
  case (renamed tmp states)
  note w = written_states(1,2) [OF renamed(3)]
  have "hd states q = fs q" using w(2) [OF hd_in_set [OF w(1)]] assms(2) renamed(2) by auto
  then show ?thesis using assms renamed(1,2) w(2) [of s q] by (auto split: if_splits)
next
  case (discarded tmp states ok)
  note w = written_states(1,2) [OF discarded(3)]
  have "hd states q = fs q" using w(2) [OF hd_in_set [OF w(1)]] assms(2) discarded(2) by auto
  then show ?thesis using assms discarded(1,2) w(2) [of s q] by (auto simp: discard_file_tmp_def)
next
  case (created tmp)
  then show ?thesis using assms by (auto simp: discard_file_tmp_def)
next
  case early
  then show ?thesis using assms by simp
qed

lemma replace_failed:
  assumes "\<not> snd (replace e path content fs)" "se_mkstemp e \<noteq> Some q"
  shows "hd (fst (replace e path content fs)) q = fs q"
  using replace_outcome [of e path content fs]
proof (cases rule: atomic_outcome.cases)
  case (discarded tmp states ok)
  then show ?thesis using written_states(3) [OF discarded(3)] assms(2) by (simp add: discard_file_tmp_def)
qed (use assms in \<open>auto simp: discard_file_tmp_def\<close>)

lemma replace_states:
  assumes "fresh_tmp e path fs" "s \<in> set (fst (replace e path content fs))"
  shows "s path = fs path \<or> s path = Some content"
  using replace_frame [OF assms(2), of path] assms(1) by (auto simp: fresh_tmp_def split: option.splits)

end

end
