(* ===== verification/File_Tool.thy ===== *)
theory File_Tool
  imports Allowlist Config Cjson Atomic_Write
begin

text \<open>
  The file tool, \<open>src/tools/file.c\<close>.  Contents are the map \<open>fsys\<close>, keyed by the path that the code hands to the system call; the rest
  of what the kernel answers is the record \<open>file_env\<close>, constant during one call.  A path check returns the content of the buffer
  \<open>resolved\<close> when the C function returns 1.  A writing operation returns the file-system states it passes through, latest first.
\<close>

section \<open>Definitions\<close>

definition MAX_FILE_SIZE :: int where "MAX_FILE_SIZE = 256 * 1024"
definition LIST_ENTRIES_MAX :: nat where "LIST_ENTRIES_MAX = 200"

text \<open>\<open>fe_special\<close>: the size that \<open>ftell\<close> reports for something other than a regular file that \<open>fopen\<close> opens (a directory, a device),
  from which nothing is read.\<close>

record file_env =
  fe_os :: os
  fe_isreg :: "string \<Rightarrow> bool"
  fe_isdir :: "string \<Rightarrow> bool"
  fe_special :: "string \<Rightarrow> int option"
  fe_dir :: "string \<Rightarrow> string list option"
  fe_save :: save_env

definition path_matches_memory_db :: "os \<Rightarrow> config option \<Rightarrow> string \<Rightarrow> bool" where
  "path_matches_memory_db k cfg candidate =
     (case cfg of
        None \<Rightarrow> False
      | Some c \<Rightarrow>
          if candidate = [] then False
          else case memory_db_path (c_storage c) of
                 None \<Rightarrow> False
               | Some db \<Rightarrow>
                   if db = [] then False
                   else if candidate = db then True
                   else case os_realpath k db of
                          None \<Rightarrow> False
                        | Some db_resolved \<Rightarrow>
                            if candidate = db_resolved then True else os_realpath k candidate = Some db_resolved)"

definition path_is_reserved_runtime_state :: "os \<Rightarrow> config option \<Rightarrow> string \<Rightarrow> string \<Rightarrow> bool" where
  "path_is_reserved_runtime_state k cfg path resolved =
     (if allowlist_path_is_runtime_state_file k path then True
      else if resolved \<noteq> [] \<and> allowlist_path_is_runtime_state_file k resolved then True
      else path_matches_memory_db k cfg path \<or> path_matches_memory_db k cfg resolved)"

definition file_resolved_is_under_workspace :: "os \<Rightarrow> config option \<Rightarrow> string \<Rightarrow> bool" where
  "file_resolved_is_under_workspace k cfg resolved =
     (case cfg of
        None \<Rightarrow> False
      | Some c \<Rightarrow>
          (case workspace_path (c_storage c) of
             None \<Rightarrow> False
           | Some workspace \<Rightarrow>
               if workspace = [] then False
               else case os_realpath k workspace of
                      None \<Rightarrow> False
                    | Some ws_resolved \<Rightarrow>
                        if \<not> prefix ws_resolved resolved then False
                        else ch resolved (length ws_resolved) = nul \<or> ch resolved (length ws_resolved) = slash))"

definition path_is_symlink :: "os \<Rightarrow> string \<Rightarrow> bool" where
  "path_is_symlink k path = os_islnk k path"

text \<open>The loop over the ancestors in \<open>path_within_workspace\<close>.\<close>

function within_ancestor :: "os \<Rightarrow> config option \<Rightarrow> string \<Rightarrow> string \<Rightarrow> string option" where
  "within_ancestor k cfg path path_copy =
     (let dir = dirname path_copy in
      if dir = [] then None
      else case os_realpath k dir of
             Some resolved \<Rightarrow>
               if \<not> file_resolved_is_under_workspace k cfg resolved then None
               else if path_is_reserved_runtime_state k cfg path resolved then None
               else Some resolved
           | None \<Rightarrow>
               if dir = ''.'' \<or> dir = ''/'' then None
               else within_ancestor k cfg path (buf_trunc PATH_MAX dir))"
  by pat_completeness auto
termination
  by (relation "measure (\<lambda>(_, _, _, p). length p)")
    (auto simp: buf_trunc_def dest: dirname_shorter intro: le_less_trans [OF min.cobounded1])

declare within_ancestor.simps [simp del]

definition file_workspace_only :: "config option \<Rightarrow> bool" where
  "file_workspace_only cfg = (case cfg of None \<Rightarrow> False | Some c \<Rightarrow> workspace_only (c_storage c))"

definition path_within_workspace :: "os \<Rightarrow> config option \<Rightarrow> string \<Rightarrow> string option" where
  "path_within_workspace k cfg path =
     (if path = [] then None
      else if \<not> file_workspace_only cfg then
        let resolved = (case os_realpath k path of Some r \<Rightarrow> r | None \<Rightarrow> buf_trunc PATH_MAX path) in
        if path_is_reserved_runtime_state k cfg path resolved then None else Some resolved
      else if (case cfg of None \<Rightarrow> True | Some c \<Rightarrow> workspace_path (c_storage c) = None \<or> workspace_path (c_storage c) = Some []) then None
      else case os_realpath k path of
             Some resolved \<Rightarrow>
               if \<not> file_resolved_is_under_workspace k cfg resolved then None
               else if path_is_reserved_runtime_state k cfg path resolved then None
               else Some resolved
           | None \<Rightarrow>
               if path_is_symlink k path then None
               else within_ancestor k cfg path (buf_trunc PATH_MAX path))"

definition resolve_workspace_write_path :: "file_env \<Rightarrow> config option \<Rightarrow> string \<Rightarrow> nat \<Rightarrow> string option" where
  "resolve_workspace_write_path v cfg path cap =
     (let k = fe_os v in
      if path_is_symlink k path then None
      else case os_realpath k path of
             Some safe_path \<Rightarrow>
               if \<not> fe_isreg v safe_path then None
               else if file_resolved_is_under_workspace k cfg safe_path then Some safe_path else None
           | None \<Rightarrow>
               if length path \<ge> PATH_MAX then None
               else case os_realpath k (dirname path) of
                      None \<Rightarrow> None
                    | Some parent \<Rightarrow>
                        if \<not> fe_isdir v parent then None
                        else if \<not> file_resolved_is_under_workspace k cfg parent then None
                        else let base = (case strrchr_split slash path of Some (_, b) \<Rightarrow> b | None \<Rightarrow> path) in
                          if base = [] \<or> base = ''.'' \<or> base = ''..'' then None
                          else snprintf_checked cap (parent @ ''/'' @ base))"

definition write_file_atomic :: "save_env \<Rightarrow> string \<Rightarrow> string \<Rightarrow> fsys \<Rightarrow> fsys list \<times> bool" where
  "write_file_atomic e path content fs =
     (if length path \<ge> PATH_MAX then ([fs], False)
      else if dirname path = [] then ([fs], False)
      else if length (dirname path @ ''/.sc-write-XXXXXX'') \<ge> PATH_MAX then ([fs], False)
      else case se_mkstemp e of
             None \<Rightarrow> ([fs], False)
           | Some tmp \<Rightarrow>
               if \<not> se_fchmod e then (discard_file_tmp tmp [fs(tmp \<mapsto> []), fs], False)
               else let (states, written) = write_all (se_write e) tmp content 0 [fs(tmp \<mapsto> []), fs] in
                 if \<not> written then (discard_file_tmp tmp states, False)
                 else if \<not> se_fsync e then (discard_file_tmp tmp states, False)
                 else if \<not> se_close e then (discard_file_tmp tmp states, False)
                 else if \<not> se_rename e then (discard_file_tmp tmp states, False)
                 else ((hd states)(tmp := None, path \<mapsto> content) # states, True))"

text \<open>A tool's result: the return code and the text in \<open>result_buf\<close>, of \<open>max_len > 0\<close> bytes.\<close>

definition tool_error :: "nat \<Rightarrow> string \<Rightarrow> int \<times> string" where
  "tool_error max_len msg = (-1, buf_trunc max_len (''{'' @ [dquote] @ ''error'' @ [dquote] @ '':'' @ [dquote] @ msg @ [dquote] @ ''}''))"

definition fopen_size :: "file_env \<Rightarrow> fsys \<Rightarrow> string \<Rightarrow> (int \<times> string) option" where
  "fopen_size v fs path =
     (case fs path of Some c \<Rightarrow> Some (int (length c), c) | None \<Rightarrow> map_option (\<lambda>sz. (sz, [])) (fe_special v path))"

definition file_read :: "file_env \<Rightarrow> config option \<Rightarrow> string \<Rightarrow> nat \<Rightarrow> fsys \<Rightarrow> int \<times> string" where
  "file_read v cfg path max_len fs =
     (case path_within_workspace (fe_os v) cfg path of
        None \<Rightarrow> tool_error max_len ''path outside workspace''
      | Some resolved \<Rightarrow>
          (case (if file_workspace_only cfg then os_realpath (fe_os v) path else Some resolved) of
             None \<Rightarrow> tool_error max_len ''cannot open file''
           | Some target \<Rightarrow>
               (case fopen_size v fs target of
                  None \<Rightarrow> tool_error max_len ''cannot open file''
                | Some (sz, bytes) \<Rightarrow>
                    if sz < 0 \<or> sz > MAX_FILE_SIZE then tool_error max_len ''file too large''
                    else if nat sz + 1 > max_len then
                      (-1, buf_trunc max_len (''{'' @ [dquote] @ ''error'' @ [dquote] @ '':'' @ [dquote] @ ''file exceeds result buffer'' @ [dquote]
                         @ '','' @ [dquote] @ ''bytes'' @ [dquote] @ '':'' @ int_str sz @ ''}''))
                    else (0, cstr (take (nat sz) bytes)))))"

definition file_write :: "file_env \<Rightarrow> config option \<Rightarrow> string \<Rightarrow> string \<Rightarrow> nat \<Rightarrow> fsys \<Rightarrow> (int \<times> string) \<times> fsys list" where
  "file_write v cfg path content max_len fs =
     (case path_within_workspace (fe_os v) cfg path of
        None \<Rightarrow> (tool_error max_len ''path outside workspace'', [fs])
      | Some _ \<Rightarrow>
          (case (if \<not> file_workspace_only cfg then Some (buf_trunc PATH_MAX path)
                 else resolve_workspace_write_path v cfg path PATH_MAX) of
             None \<Rightarrow> (tool_error max_len ''cannot write file'', [fs])
           | Some safe_path \<Rightarrow>
               let (states, ok) = write_file_atomic (fe_save v) safe_path content fs in
               if \<not> ok then (tool_error max_len ''write failed'', states)
               else ((0, buf_trunc max_len (''{'' @ [dquote] @ ''status'' @ [dquote] @ '':'' @ [dquote] @ ''ok'' @ [dquote] @ ''}'')), states)))"

text \<open>
  The \<open>readdir\<close> loop.  \<open>acc\<close> is the text before \<open>used\<close>, \<open>spill\<close> the text that an entry which did not fit left behind it.
\<close>

fun list_entries :: "nat \<Rightarrow> nat \<Rightarrow> string \<Rightarrow> string \<Rightarrow> string list \<Rightarrow> string \<times> string" where
  "list_entries max_len count acc spill [] = (acc, spill)"
| "list_entries max_len count acc spill (e # es) =
     (if count \<ge> LIST_ENTRIES_MAX then (acc, spill)
      else if e = ''.'' \<or> e = ''..'' then list_entries max_len count acc spill es
      else let line = e @ [newline] in
        if length line < max_len - length acc then list_entries max_len (Suc count) (acc @ line) [] es
        else list_entries max_len (Suc count) acc (buf_trunc (max_len - length acc) line) es)"

definition file_list :: "file_env \<Rightarrow> config option \<Rightarrow> string \<Rightarrow> nat \<Rightarrow> int \<times> string" where
  "file_list v cfg path max_len =
     (case path_within_workspace (fe_os v) cfg path of
        None \<Rightarrow> tool_error max_len ''path outside workspace''
      | Some resolved \<Rightarrow>
          (case (if file_workspace_only cfg then os_realpath (fe_os v) path else Some resolved) of
             None \<Rightarrow> tool_error max_len ''cannot list directory''
           | Some target \<Rightarrow>
               (case fe_dir v target of
                  None \<Rightarrow> tool_error max_len ''cannot list directory''
                | Some entries \<Rightarrow>
                    let (acc, spill) = list_entries max_len 0 [] [] entries in
                    (0, if acc \<noteq> [] then (if last acc = newline then butlast acc else acc @ spill) else spill))))"

definition file_execute ::
  "(string \<Rightarrow> cjson option) \<Rightarrow> file_env \<Rightarrow> config option \<Rightarrow> string \<Rightarrow> nat \<Rightarrow> fsys \<Rightarrow> (int \<times> string) \<times> fsys list" where
  "file_execute parse v cfg args_json max_len fs =
     (if max_len = 0 then ((-1, []), [fs])
      else case parse args_json of
             None \<Rightarrow> (tool_error max_len ''invalid JSON'', [fs])
           | Some root \<Rightarrow>
               if \<not> cJSON_IsObject root then (tool_error max_len ''invalid JSON'', [fs])
               else case (string_of (cJSON_GetObjectItem root ''operation''), string_of (cJSON_GetObjectItem root ''path'')) of
                 (Some op, Some path) \<Rightarrow>
                   let content = (case string_of (cJSON_GetObjectItem root ''content'') of Some t \<Rightarrow> t | None \<Rightarrow> []) in
                   if op = ''read_file'' then (file_read v cfg path max_len fs, [fs])
                   else if op = ''write_file'' then file_write v cfg path content max_len fs
                   else if op = ''list_dir'' then (file_list v cfg path max_len, [fs])
                   else (tool_error max_len ''invalid operation'', [fs])
               | _ \<Rightarrow> (tool_error max_len ''missing operation or path'', [fs]))"

section \<open>The paths that are accepted\<close>

interpretation file_writer: atomic_replace write_file_atomic
  by unfold_locales (auto simp: write_file_atomic_def Let_def split: option.splits prod.splits intro: atomic_outcome.intros)

text \<open>Inside the workspace: the resolved workspace itself, or a path below it.\<close>

definition in_workspace :: "os \<Rightarrow> config \<Rightarrow> string \<Rightarrow> bool" where
  "in_workspace k c q \<longleftrightarrow>
     (\<exists>ws wsr. workspace_path (c_storage c) = Some ws \<and> os_realpath k ws = Some wsr \<and> (q = wsr \<or> (\<exists>u. q = wsr @ slash # u)))"

text \<open>\<open>realpath\<close> yields a C string.\<close>

definition resolves_to_cstr :: "os \<Rightarrow> bool" where
  "resolves_to_cstr k \<longleftrightarrow> (\<forall>p r. os_realpath k p = Some r \<longrightarrow> nul \<notin> set r)"

lemma file_resolved_in_workspace:
  assumes "file_resolved_is_under_workspace k (Some c) q" "nul \<notin> set q"
  shows "in_workspace k c q"
proof -
  obtain ws wsr where w: "workspace_path (c_storage c) = Some ws" "os_realpath k ws = Some wsr" "prefix wsr q"
    "ch q (length wsr) = nul \<or> ch q (length wsr) = slash"
    using assms(1) by (auto simp: file_resolved_is_under_workspace_def split: option.splits if_splits)
  from w(3) obtain t where t: "q = wsr @ t" by (auto simp: prefix_def)
  then have "t = [] \<or> (\<exists>u. t = slash # u)"
    using w(4) assms(2) by (cases t) auto
  then show ?thesis using w t by (auto simp: in_workspace_def)
qed

lemma in_workspace_child: "in_workspace k c p \<Longrightarrow> in_workspace k c (p @ slash # b)"
  unfolding in_workspace_def by auto

lemma within_ancestor_reserved:
  "within_ancestor k cfg path p = Some r \<Longrightarrow> file_resolved_is_under_workspace k cfg r \<and> \<not> path_is_reserved_runtime_state k cfg path r"
  by (induction k cfg path p rule: within_ancestor.induct)
    (subst (asm) (2) within_ancestor.simps, auto simp: Let_def split: option.splits if_splits)

lemma accepted_not_reserved:
  "path_within_workspace k cfg path = Some r \<Longrightarrow> \<not> path_is_reserved_runtime_state k cfg path r"
  by (auto simp: path_within_workspace_def Let_def split: option.splits if_splits dest: within_ancestor_reserved)

lemma accepted_resolved:
  assumes "path_within_workspace k (Some c) path = Some r" "os_realpath k path = Some q" "resolves_to_cstr k"
  shows "r = q" "file_workspace_only (Some c) \<Longrightarrow> in_workspace k c q"
proof -
  show "r = q" using assms(1,2) by (auto simp: path_within_workspace_def Let_def split: option.splits if_splits)
  assume "file_workspace_only (Some c)"
  then have "file_resolved_is_under_workspace k (Some c) q"
    using assms(1,2) by (auto simp: path_within_workspace_def Let_def split: option.splits if_splits)
  then show "in_workspace k c q" using assms(2,3) by (auto simp: resolves_to_cstr_def intro: file_resolved_in_workspace)
qed

lemma write_path_in_workspace:
  assumes "resolve_workspace_write_path v (Some c) path cap = Some q" "resolves_to_cstr (fe_os v)"
  shows "in_workspace (fe_os v) c q"
proof (cases "os_realpath (fe_os v) path")
  case (Some r)
  then have "r = q" "file_resolved_is_under_workspace (fe_os v) (Some c) q"
    using assms(1) by (auto simp: resolve_workspace_write_path_def Let_def split: if_splits)
  then show ?thesis using Some assms(2) by (auto simp: resolves_to_cstr_def intro: file_resolved_in_workspace)
next
  case None
  then obtain parent base where p: "os_realpath (fe_os v) (dirname path) = Some parent"
    "file_resolved_is_under_workspace (fe_os v) (Some c) parent" "q = parent @ slash # base"
    using assms(1) by (auto simp: resolve_workspace_write_path_def Let_def split: option.splits if_splits)
  then have "in_workspace (fe_os v) c parent" using assms(2)
    by (auto simp: resolves_to_cstr_def intro: file_resolved_in_workspace)
  then show ?thesis using p(3) in_workspace_child by simp
qed


section \<open>Reads and writes\<close>

lemma file_execute_changes:
  assumes "file_execute parse v cfg args max_len fs = ((rc, out), states)" "s \<in> set states" "s q \<noteq> fs q"
  obtains root path r safe_path where "parse args = Some root" "string_of (cJSON_GetObjectItem root ''path'') = Some path"
    "path_within_workspace (fe_os v) cfg path = Some r"
    "(if \<not> file_workspace_only cfg then Some (buf_trunc PATH_MAX path) else resolve_workspace_write_path v cfg path PATH_MAX) = Some safe_path"
    "states = fst (write_file_atomic (fe_save v) safe_path
       (case string_of (cJSON_GetObjectItem root ''content'') of Some t \<Rightarrow> t | None \<Rightarrow> []) fs)"
    "rc = (if snd (write_file_atomic (fe_save v) safe_path
       (case string_of (cJSON_GetObjectItem root ''content'') of Some t \<Rightarrow> t | None \<Rightarrow> []) fs) then 0 else -1)"
proof -
  have n: "states \<noteq> [fs]" using assms(2,3) by auto
  then obtain root op path where r: "parse args = Some root" "string_of (cJSON_GetObjectItem root ''path'') = Some path"
    "((rc, out), states) = file_write v cfg path
       (case string_of (cJSON_GetObjectItem root ''content'') of Some t \<Rightarrow> t | None \<Rightarrow> []) max_len fs"
    using assms(1) by (auto simp: file_execute_def Let_def split: option.splits if_splits)
  then show ?thesis using n that [OF r(1,2)]
    by (auto simp: file_write_def tool_error_def split: option.splits if_splits prod.splits)
qed

definition link_os :: os where
  "link_os = \<lparr>os_realpath = (\<lambda>p. if p \<in> {''/ws'', ''/ws/a'', ''/ws/.shellclaw''} then Some p
       else if p = ''/ws/link'' then Some ''/ws/.shellclaw'' else None),
     os_access = (\<lambda>p. False), os_islnk = (\<lambda>p. p = ''/ws/link''), os_home = None, os_pwd = None, os_strdup = True\<rparr>"

definition demo_file_env :: file_env where
  "demo_file_env = \<lparr>fe_os = link_os, fe_isreg = (\<lambda>p. p = ''/ws/a''), fe_isdir = (\<lambda>p. p \<in> {''/ws'', ''/ws/.shellclaw''}),
     fe_special = (\<lambda>_. None), fe_dir = (\<lambda>_. None),
     fe_save = \<lparr>se_mkdir = True, se_mkstemp = Some ''/ws/.sc-write-a1b2c3'', se_fchmod = True, se_write = (\<lambda>_. 2), se_fsync = True,
       se_close = True, se_rename = True\<rparr>\<rparr>"

definition demo_file_cfg :: config where
  "demo_file_cfg = config_defaults\<lparr>c_storage := (c_storage config_defaults)\<lparr>workspace_only := True, workspace_path := Some ''/ws''\<rparr>\<rparr>"

definition demo_write :: "string \<Rightarrow> string \<Rightarrow> cjson option" where
  "demo_write path args = Some (CObject [(''operation'', CString ''write_file''), (''path'', CString path), (''content'', CString ''new'')])"

lemma link_os_cstr: "resolves_to_cstr (fe_os demo_file_env)"
  by (auto simp: resolves_to_cstr_def demo_file_env_def link_os_def nul_def split: if_splits)

text \<open>(C25) With workspace_only, whatever arguments the model passes to the file tool, in every state the file system goes
  through the only files that differ from before, the temporary file aside, lie in the resolved workspace and have exactly the content of the call;
  an existing file that is replaced is neither a runtime-state file nor the database; and a call that reports an error leaves
  every file as it was.\<close>

theorem file_writes_contained:
  assumes "file_execute parse v (Some c) args max_len fs = ((rc, out), states)" "workspace_only (c_storage c)"
    and "resolves_to_cstr (fe_os v)"
    and "s \<in> set states" "se_mkstemp (fe_save v) \<noteq> Some q" "s q \<noteq> fs q"
  shows "in_workspace (fe_os v) c q \<and> (s = hd states \<longrightarrow> rc = 0) \<and>
    (\<exists>root path. parse args = Some root \<and> string_of (cJSON_GetObjectItem root ''path'') = Some path \<and>
       s q = Some (case string_of (cJSON_GetObjectItem root ''content'') of Some t \<Rightarrow> t | None \<Rightarrow> []) \<and>
       \<not> allowlist_path_is_runtime_state_file (fe_os v) path \<and> \<not> path_matches_memory_db (fe_os v) (Some c) path \<and>
       (os_realpath (fe_os v) path = None \<or>
        os_realpath (fe_os v) path = Some q \<and> \<not> allowlist_path_is_runtime_state_file (fe_os v) q \<and>
          \<not> path_matches_memory_db (fe_os v) (Some c) q))"
proof -
  obtain root path r safe where x: "parse args = Some root" "string_of (cJSON_GetObjectItem root ''path'') = Some path"
    "path_within_workspace (fe_os v) (Some c) path = Some r"
    "(if \<not> file_workspace_only (Some c) then Some (buf_trunc PATH_MAX path)
      else resolve_workspace_write_path v (Some c) path PATH_MAX) = Some safe"
    "states = fst (write_file_atomic (fe_save v) safe
       (case string_of (cJSON_GetObjectItem root ''content'') of Some t \<Rightarrow> t | None \<Rightarrow> []) fs)"
    "rc = (if snd (write_file_atomic (fe_save v) safe
       (case string_of (cJSON_GetObjectItem root ''content'') of Some t \<Rightarrow> t | None \<Rightarrow> []) fs) then 0 else -1)"
    using file_execute_changes [OF assms(1,4,6)] by blast
  have w: "file_workspace_only (Some c)" using assms(2) by (simp add: file_workspace_only_def)
  have safe: "resolve_workspace_write_path v (Some c) path PATH_MAX = Some safe" using x(4) w by simp
  have q: "q = safe" "s q = Some (case string_of (cJSON_GetObjectItem root ''content'') of Some t \<Rightarrow> t | None \<Rightarrow> [])"
    using file_writer.replace_frame [OF assms(4) [unfolded x(5)] assms(5)] assms(6) by auto
  have rc: "s = hd states \<longrightarrow> rc = 0"
    using file_writer.replace_failed [OF _ assms(5)] x(5,6) assms(6) by force
  have res: "\<not> path_is_reserved_runtime_state (fe_os v) (Some c) path r" by (rule accepted_not_reserved [OF x(3)])
  have ex: "os_realpath (fe_os v) path = Some u \<Longrightarrow> r = u \<and> u = safe" for u
    using safe accepted_resolved(1) [OF x(3) _ assms(3)] by (auto simp: resolve_workspace_write_path_def Let_def split: if_splits)
  show ?thesis
    using write_path_in_workspace [OF safe assms(3)] q rc x(1,2) res ex
    by (cases "os_realpath (fe_os v) path")
      (auto simp: path_is_reserved_runtime_state_def allowlist_path_is_runtime_state_file_def [of _ "[]"] split: if_splits)
qed

theorem file_writes_contained_witness: "in_workspace link_os demo_file_cfg ''/ws/a''"
proof -
  let ?fs = "[''/ws/a'' \<mapsto> ''old'']"
  obtain rc out states where r: "file_execute (demo_write ''/ws/a'') demo_file_env (Some demo_file_cfg) ''{}'' 64 ?fs = ((rc, out), states)"
    by (metis surj_pair)
  have "snd (file_execute (demo_write ''/ws/a'') demo_file_env (Some demo_file_cfg) ''{}'' 64 ?fs) \<noteq> [] \<and>
      hd (snd (file_execute (demo_write ''/ws/a'') demo_file_env (Some demo_file_cfg) ''{}'' 64 ?fs)) ''/ws/a'' = Some ''new''"
    unfolding length_greater_0_conv [symmetric] by code_simp
  then show ?thesis
    using file_writes_contained [OF r _ link_os_cstr, of "hd states" "''/ws/a''"] r
    by (simp add: demo_file_env_def demo_file_cfg_def)
qed

text \<open>A read that succeeds returns the whole file, up to its first zero byte, never a prefix cut at the buffer; the file is not a
  runtime-state file nor the database, and with workspace_only it lies in the resolved workspace.\<close>

theorem file_read_whole:
  assumes "file_read v (Some c) path max_len fs = (0, out)" "resolves_to_cstr (fe_os v)"
  shows "\<exists>q bytes. (fs q = Some bytes \<or> fs q = None \<and> fe_special v q \<noteq> None \<and> bytes = []) \<and> out = cstr bytes \<and> length bytes < max_len \<and>
    \<not> allowlist_path_is_runtime_state_file (fe_os v) q \<and> \<not> path_matches_memory_db (fe_os v) (Some c) q \<and>
    (workspace_only (c_storage c) \<longrightarrow> in_workspace (fe_os v) c q)"
proof -
  obtain r q sz bytes where x: "path_within_workspace (fe_os v) (Some c) path = Some r"
    "(if file_workspace_only (Some c) then os_realpath (fe_os v) path else Some r) = Some q"
    "fopen_size v fs q = Some (sz, bytes)" "0 \<le> sz" "nat sz + 1 \<le> max_len" "out = cstr (take (nat sz) bytes)"
    using assms(1) by (auto simp: file_read_def tool_error_def split: option.splits if_splits)
  have rq: "r = q" using x(1,2) accepted_resolved(1) [OF x(1) _ assms(2)] by (auto split: if_splits)
  have "\<not> path_is_reserved_runtime_state (fe_os v) (Some c) path q" using accepted_not_reserved [OF x(1)] rq by simp
  then have n: "\<not> allowlist_path_is_runtime_state_file (fe_os v) q" "\<not> path_matches_memory_db (fe_os v) (Some c) q"
    by (auto simp: path_is_reserved_runtime_state_def allowlist_path_is_runtime_state_file_def [of _ "[]"] split: if_splits)
  have w: "workspace_only (c_storage c) \<longrightarrow> in_workspace (fe_os v) c q"
    using x(2) accepted_resolved(2) [OF x(1) _ assms(2)] by (auto simp: file_workspace_only_def)
  show ?thesis
    using x(3-6) n w by (intro exI [of _ q] exI [of _ bytes]) (auto simp: fopen_size_def split: option.splits)
qed

theorem file_read_whole_witness: "\<exists>q bytes. ([''/ws/a'' \<mapsto> ''old''] q = Some bytes \<or> False) \<and> ''old'' = cstr bytes"
proof -
  have "file_read demo_file_env (Some demo_file_cfg) ''/ws/a'' 64 [''/ws/a'' \<mapsto> ''old''] = (0, ''old'')" by code_simp
  from file_read_whole [OF this link_os_cstr] show ?thesis by (auto simp: demo_file_env_def)
qed

text \<open>A write that creates a file is checked under the name it was given, not under the resolved one: through a linked
  directory a runtime-state file that does not exist yet is created.\<close>

theorem reserved_file_created_through_link:
  "fst (fst (file_execute (demo_write ''/ws/link/config.toml'') demo_file_env (Some demo_file_cfg) ''{}'' 64 Map.empty)) = 0 \<and>
   hd (snd (file_execute (demo_write ''/ws/link/config.toml'') demo_file_env (Some demo_file_cfg) ''{}'' 64 Map.empty))
     ''/ws/.shellclaw/config.toml'' = Some ''new'' \<and>
   allowlist_path_is_runtime_state_file link_os ''/ws/.shellclaw/config.toml''"
  by code_simp

end
