(* ===== verification/Sandbox.thy ===== *)
theory Sandbox
  imports Prelude "HOL-Library.Word"
begin

unbundle bit_operations_syntax

text \<open>
  The process sandbox on Linux: \<open>src/sandbox/sandbox.c\<close>, \<open>sandbox_landlock.c\<close> and \<open>sandbox_env.c\<close>.  A process is a record of what the
  kernel has been asked to do to it; whether the \<open>n\<close>-th system call of the child succeeds is \<open>p_sys n\<close>, so the theorems speak about every pattern of
  failures.  The output pipe is a sequence of events, each a clock reading and what \<open>poll\<close> and \<open>read\<close> answer.  Diagnostics on \<open>stderr\<close>
  and the closing of single descriptors are left out.
\<close>

section \<open>Definitions\<close>

definition DEFAULT_TIMEOUT_MS :: int where "DEFAULT_TIMEOUT_MS = 10000"
definition DEFAULT_MEMORY_MAX :: nat where "DEFAULT_MEMORY_MAX = 64 * 1024 * 1024"
definition DEFAULT_CGROUP_BASE :: string where "DEFAULT_CGROUP_BASE = ''/sys/fs/cgroup''"
definition CGROUP_NAME_PREFIX :: string where "CGROUP_NAME_PREFIX = ''shellclaw_sb_''"
definition PIPE_POLL_SLICE_MS :: int where "PIPE_POLL_SLICE_MS = 500"
definition SANDBOX_ISO_NS :: nat where "SANDBOX_ISO_NS = 1"
definition SANDBOX_ISO_LL :: nat where "SANDBOX_ISO_LL = 2"

subsection \<open>The environment of the command\<close>

type_synonym environ = "string \<Rightarrow> string option"

definition FALLBACK_PATH :: string where
  "FALLBACK_PATH = ''/usr/local/sbin:/usr/local/bin:/usr/sbin:/usr/bin:/sbin:/bin''"

definition dup_env :: "environ \<Rightarrow> string \<Rightarrow> string option" where
  "dup_env env name = (case env name of None \<Rightarrow> None | Some v \<Rightarrow> if v = [] then None else Some v)"

definition put_env :: "string \<Rightarrow> string option \<Rightarrow> environ \<Rightarrow> environ" where
  "put_env name value env = (case value of None \<Rightarrow> env | Some v \<Rightarrow> if v = [] then env else env(name \<mapsto> v))"

definition sandbox_scrub_command_environment :: "string option \<Rightarrow> environ \<Rightarrow> environ" where
  "sandbox_scrub_command_environment workspace env =
     (let path = dup_env env ''PATH''; lang = dup_env env ''LANG''; lc_all = dup_env env ''LC_ALL'';
          lc_ctype = dup_env env ''LC_CTYPE''; term = dup_env env ''TERM''; tz = dup_env env ''TZ'';
          e = Map.empty;
          e = put_env ''PATH'' (case path of Some p \<Rightarrow> Some p | None \<Rightarrow> Some FALLBACK_PATH) e;
          e = put_env ''LANG'' lang e;
          e = put_env ''LC_ALL'' lc_all e;
          e = put_env ''LC_CTYPE'' lc_ctype e;
          e = put_env ''TERM'' term e;
          e = put_env ''TZ'' tz e in
      case workspace of None \<Rightarrow> e | Some w \<Rightarrow> if w = [] then e else e(''HOME'' \<mapsto> w))"

subsection \<open>Landlock\<close>

type_synonym rights = "64 word"

definition LANDLOCK_ACCESS_FS_EXECUTE :: rights where "LANDLOCK_ACCESS_FS_EXECUTE = push_bit 0 1"
definition LANDLOCK_ACCESS_FS_WRITE_FILE :: rights where "LANDLOCK_ACCESS_FS_WRITE_FILE = push_bit 1 1"
definition LANDLOCK_ACCESS_FS_READ_FILE :: rights where "LANDLOCK_ACCESS_FS_READ_FILE = push_bit 2 1"
definition LANDLOCK_ACCESS_FS_READ_DIR :: rights where "LANDLOCK_ACCESS_FS_READ_DIR = push_bit 3 1"
definition LANDLOCK_ACCESS_FS_REMOVE_DIR :: rights where "LANDLOCK_ACCESS_FS_REMOVE_DIR = push_bit 4 1"
definition LANDLOCK_ACCESS_FS_REMOVE_FILE :: rights where "LANDLOCK_ACCESS_FS_REMOVE_FILE = push_bit 5 1"
definition LANDLOCK_ACCESS_FS_MAKE_CHAR :: rights where "LANDLOCK_ACCESS_FS_MAKE_CHAR = push_bit 6 1"
definition LANDLOCK_ACCESS_FS_MAKE_DIR :: rights where "LANDLOCK_ACCESS_FS_MAKE_DIR = push_bit 7 1"
definition LANDLOCK_ACCESS_FS_MAKE_REG :: rights where "LANDLOCK_ACCESS_FS_MAKE_REG = push_bit 8 1"
definition LANDLOCK_ACCESS_FS_MAKE_SOCK :: rights where "LANDLOCK_ACCESS_FS_MAKE_SOCK = push_bit 9 1"
definition LANDLOCK_ACCESS_FS_MAKE_FIFO :: rights where "LANDLOCK_ACCESS_FS_MAKE_FIFO = push_bit 10 1"
definition LANDLOCK_ACCESS_FS_MAKE_BLOCK :: rights where "LANDLOCK_ACCESS_FS_MAKE_BLOCK = push_bit 11 1"
definition LANDLOCK_ACCESS_FS_MAKE_SYM :: rights where "LANDLOCK_ACCESS_FS_MAKE_SYM = push_bit 12 1"
definition LANDLOCK_ACCESS_FS_REFER :: rights where "LANDLOCK_ACCESS_FS_REFER = push_bit 13 1"
definition LANDLOCK_ACCESS_FS_TRUNCATE :: rights where "LANDLOCK_ACCESS_FS_TRUNCATE = push_bit 14 1"
definition LANDLOCK_ACCESS_FS_IOCTL_DEV :: rights where "LANDLOCK_ACCESS_FS_IOCTL_DEV = push_bit 15 1"

lemmas right_defs =
  LANDLOCK_ACCESS_FS_EXECUTE_def LANDLOCK_ACCESS_FS_WRITE_FILE_def LANDLOCK_ACCESS_FS_READ_FILE_def LANDLOCK_ACCESS_FS_READ_DIR_def
  LANDLOCK_ACCESS_FS_REMOVE_DIR_def LANDLOCK_ACCESS_FS_REMOVE_FILE_def LANDLOCK_ACCESS_FS_MAKE_CHAR_def LANDLOCK_ACCESS_FS_MAKE_DIR_def
  LANDLOCK_ACCESS_FS_MAKE_REG_def LANDLOCK_ACCESS_FS_MAKE_SOCK_def LANDLOCK_ACCESS_FS_MAKE_FIFO_def LANDLOCK_ACCESS_FS_MAKE_BLOCK_def
  LANDLOCK_ACCESS_FS_MAKE_SYM_def LANDLOCK_ACCESS_FS_REFER_def LANDLOCK_ACCESS_FS_TRUNCATE_def LANDLOCK_ACCESS_FS_IOCTL_DEV_def

text \<open>A ruleset: the rights it restricts and, for directories and files, the rights granted beneath them.\<close>

record ruleset =
  handled_access_fs :: rights
  path_beneath :: "(string \<times> rights) list"

subsection \<open>Processes\<close>

record proc =
  p_sys :: "nat \<Rightarrow> bool"
  p_calls :: nat
  p_userns :: bool
  p_mntns :: bool
  p_netns :: bool
  p_pidns :: bool
  p_mounts_private :: bool
  p_no_new_privs :: bool
  p_pdeathsig :: bool
  p_pid1 :: bool
  p_own_procfs :: bool
  p_cwd :: "string option"
  p_landlock :: "ruleset option"
  p_fds_closed :: bool
  p_env :: environ

type_synonym step = "proc \<Rightarrow> bool \<times> proc"

text \<open>One system call with its effect, and calls in a row that stop at the first failure.\<close>

definition sys :: "(proc \<Rightarrow> proc) \<Rightarrow> step" where
  "sys f p = (let p' = p\<lparr>p_calls := Suc (p_calls p)\<rparr> in if p_sys p (p_calls p) then (True, f p') else (False, p'))"

fun all_ok :: "step list \<Rightarrow> step" where
  "all_ok [] p = (True, p)"
| "all_ok (m # ms) p = (case m p of (True, p') \<Rightarrow> all_ok ms p' | (False, p') \<Rightarrow> (False, p'))"

subsection \<open>The ruleset\<close>

definition landlock_abi1_fs_rights :: rights where
  "landlock_abi1_fs_rights =
     LANDLOCK_ACCESS_FS_EXECUTE OR LANDLOCK_ACCESS_FS_WRITE_FILE OR LANDLOCK_ACCESS_FS_READ_FILE OR LANDLOCK_ACCESS_FS_READ_DIR OR
     LANDLOCK_ACCESS_FS_REMOVE_DIR OR LANDLOCK_ACCESS_FS_REMOVE_FILE OR LANDLOCK_ACCESS_FS_MAKE_CHAR OR LANDLOCK_ACCESS_FS_MAKE_DIR OR
     LANDLOCK_ACCESS_FS_MAKE_REG OR LANDLOCK_ACCESS_FS_MAKE_SOCK OR LANDLOCK_ACCESS_FS_MAKE_FIFO OR LANDLOCK_ACCESS_FS_MAKE_BLOCK OR
     LANDLOCK_ACCESS_FS_MAKE_SYM"

definition landlock_handled_fs :: "int \<Rightarrow> rights option" where
  "landlock_handled_fs abi =
     (if abi < 1 then None
      else let handled = landlock_abi1_fs_rights;
               handled = (if abi \<ge> 2 then handled OR LANDLOCK_ACCESS_FS_REFER else handled);
               handled = (if abi \<ge> 3 then handled OR LANDLOCK_ACCESS_FS_TRUNCATE else handled);
               handled = (if abi \<ge> 5 then handled OR LANDLOCK_ACCESS_FS_IOCTL_DEV else handled) in
        Some handled)"

definition add_rule :: "string \<Rightarrow> rights \<Rightarrow> ruleset \<Rightarrow> ruleset" where
  "add_rule path access rs = rs\<lparr>path_beneath := path_beneath rs @ [(path, access)]\<rparr>"

text \<open>A path that cannot be opened is skipped; the second call is \<open>fstat\<close> finding a directory.\<close>

definition landlock_add_path :: "string \<Rightarrow> rights \<Rightarrow> rights \<Rightarrow> ruleset \<Rightarrow> proc \<Rightarrow> ruleset option \<times> proc" where
  "landlock_add_path path dir_access file_access rs p =
     (case sys (\<lambda>p. p) p of
        (False, p1) \<Rightarrow> (Some rs, p1)
      | (True, p1) \<Rightarrow>
          (case sys (\<lambda>p. p) p1 of
             (is_dir, p2) \<Rightarrow>
               (case sys (\<lambda>p. p) p2 of
                  (True, p3) \<Rightarrow> (Some (add_rule path (if is_dir then dir_access else file_access) rs), p3)
                | (False, p3) \<Rightarrow> (None, p3))))"

definition landlock_add_workspace :: "string \<Rightarrow> rights \<Rightarrow> ruleset \<Rightarrow> proc \<Rightarrow> ruleset option \<times> proc" where
  "landlock_add_workspace workspace access rs p =
     (case sys (\<lambda>p. p) p of
        (False, p1) \<Rightarrow> (None, p1)
      | (True, p1) \<Rightarrow>
          (case sys (\<lambda>p. p) p1 of
             (True, p2) \<Rightarrow> (Some (add_rule workspace access rs), p2)
           | (False, p2) \<Rightarrow> (None, p2)))"

definition mask_workspace_access :: "rights \<Rightarrow> rights" where
  "mask_workspace_access handled =
     ((LANDLOCK_ACCESS_FS_EXECUTE OR LANDLOCK_ACCESS_FS_WRITE_FILE OR LANDLOCK_ACCESS_FS_READ_FILE OR LANDLOCK_ACCESS_FS_READ_DIR OR
       LANDLOCK_ACCESS_FS_REMOVE_DIR OR LANDLOCK_ACCESS_FS_REMOVE_FILE OR LANDLOCK_ACCESS_FS_MAKE_DIR OR LANDLOCK_ACCESS_FS_MAKE_REG OR
       LANDLOCK_ACCESS_FS_MAKE_SYM OR LANDLOCK_ACCESS_FS_MAKE_FIFO OR LANDLOCK_ACCESS_FS_MAKE_SOCK) AND handled)
     OR (LANDLOCK_ACCESS_FS_REFER AND handled) OR (LANDLOCK_ACCESS_FS_TRUNCATE AND handled)"

definition RO_PATHS :: "string list" where
  "RO_PATHS = [''/bin'', ''/usr'', ''/usr/local'', ''/lib'', ''/lib64'', ''/lib32'', ''/etc/ld.so.cache'', ''/etc/ld.so.conf'',
     ''/etc/ld.so.conf.d'', ''/etc/ssl/certs'', ''/etc/nsswitch.conf'', ''/etc/hosts'', ''/etc/resolv.conf'', ''/proc'']"

definition RW_DEV :: "string list" where
  "RW_DEV = [''/dev/null'', ''/dev/zero'', ''/dev/urandom'', ''/dev/tty'']"

fun add_paths :: "rights \<Rightarrow> rights \<Rightarrow> string list \<Rightarrow> ruleset \<Rightarrow> proc \<Rightarrow> ruleset option \<times> proc" where
  "add_paths dir_access file_access [] rs p = (Some rs, p)"
| "add_paths dir_access file_access (path # paths) rs p =
     (case landlock_add_path path dir_access file_access rs p of
        (Some rs', p') \<Rightarrow> add_paths dir_access file_access paths rs' p'
      | (None, p') \<Rightarrow> (None, p'))"

datatype ruleset_fd = Fd_Skip | Fd_Error | Fd ruleset

definition landlock_make_ruleset :: "int \<Rightarrow> string option \<Rightarrow> proc \<Rightarrow> ruleset_fd \<times> proc" where
  "landlock_make_ruleset abi workspace p =
     (case workspace of
        None \<Rightarrow> (Fd_Skip, p)
      | Some w \<Rightarrow>
          if w = [] then (Fd_Skip, p)
          else case landlock_handled_fs abi of
            None \<Rightarrow> (Fd_Error, p)
          | Some handled \<Rightarrow>
              let workspace_access = mask_workspace_access handled;
                  ro_dir = (LANDLOCK_ACCESS_FS_EXECUTE OR LANDLOCK_ACCESS_FS_READ_FILE OR LANDLOCK_ACCESS_FS_READ_DIR) AND handled;
                  ro_file = (LANDLOCK_ACCESS_FS_EXECUTE OR LANDLOCK_ACCESS_FS_READ_FILE) AND handled;
                  rw_file = ((LANDLOCK_ACCESS_FS_EXECUTE OR LANDLOCK_ACCESS_FS_READ_FILE OR LANDLOCK_ACCESS_FS_WRITE_FILE) AND handled)
                    OR (LANDLOCK_ACCESS_FS_TRUNCATE AND handled) in
              case sys (\<lambda>p. p) p of
                (False, p1) \<Rightarrow> (Fd_Error, p1)
              | (True, p1) \<Rightarrow>
                  (case landlock_add_workspace w workspace_access \<lparr>handled_access_fs = handled, path_beneath = []\<rparr> p1 of
                     (None, p2) \<Rightarrow> (Fd_Error, p2)
                   | (Some r1, p2) \<Rightarrow>
                       (case landlock_add_workspace ''/'' (LANDLOCK_ACCESS_FS_READ_DIR AND handled) r1 p2 of
                          (None, p3) \<Rightarrow> (Fd_Error, p3)
                        | (Some r2, p3) \<Rightarrow>
                            (case add_paths ro_dir ro_file RO_PATHS r2 p3 of
                               (None, p4) \<Rightarrow> (Fd_Error, p4)
                             | (Some r3, p4) \<Rightarrow>
                                 (case add_paths ro_dir rw_file RW_DEV r3 p4 of
                                    (None, p5) \<Rightarrow> (Fd_Error, p5)
                                  | (Some r4, p5) \<Rightarrow> (Fd r4, p5))))))"

definition sandbox_landlock_prepare :: "int \<Rightarrow> string option \<Rightarrow> step" where
  "sandbox_landlock_prepare abi workspace p =
     (case landlock_make_ruleset abi workspace p of
        (Fd_Skip, p') \<Rightarrow> (True, p') | (Fd_Error, p') \<Rightarrow> (False, p') | (Fd rs, p') \<Rightarrow> (True, p'))"

definition sandbox_landlock_restrict_to_workspace :: "int \<Rightarrow> string option \<Rightarrow> step" where
  "sandbox_landlock_restrict_to_workspace abi workspace p =
     (case landlock_make_ruleset abi workspace p of
        (Fd_Skip, p') \<Rightarrow> (True, p')
      | (Fd_Error, p') \<Rightarrow> (False, p')
      | (Fd rs, p') \<Rightarrow> sys (\<lambda>p. p\<lparr>p_landlock := Some rs\<rparr>) p')"

subsection \<open>Isolation\<close>

definition write_proc_str :: step where
  "write_proc_str = all_ok [sys (\<lambda>p. p), sys (\<lambda>p. p)]"

definition enter_user_namespace :: step where
  "enter_user_namespace =
     all_ok [sys (\<lambda>p. p\<lparr>p_userns := True\<rparr>), write_proc_str, write_proc_str, write_proc_str]"

definition unshare_isolation_namespaces :: step where
  "unshare_isolation_namespaces =
     all_ok [sys (\<lambda>p. p\<lparr>p_mntns := True, p_netns := True, p_pidns := True, p_mounts_private := False\<rparr>),
             sys (\<lambda>p. p\<lparr>p_mounts_private := True\<rparr>)]"

definition isolate_namespaces :: step where
  "isolate_namespaces p =
     (case unshare_isolation_namespaces p of
        (True, p1) \<Rightarrow> (True, p1)
      | (False, p1) \<Rightarrow> all_ok [enter_user_namespace, unshare_isolation_namespaces] p1)"

definition remount_procfs :: step where
  "remount_procfs p = (case sys (\<lambda>p. p) p of (_, p1) \<Rightarrow> sys (\<lambda>p. p\<lparr>p_own_procfs := True\<rparr>) p1)"

definition enter_workspace_cwd :: "string \<Rightarrow> step" where
  "enter_workspace_cwd workspace = all_ok [sys (\<lambda>p. p), sys (\<lambda>p. p\<lparr>p_cwd := Some workspace\<rparr>)]"

definition has_workspace :: "string option \<Rightarrow> bool" where
  "has_workspace workspace \<longleftrightarrow> workspace \<noteq> None \<and> workspace \<noteq> Some []"

definition setup_command_process :: "int \<Rightarrow> string option \<Rightarrow> proc \<Rightarrow> nat \<times> proc" where
  "setup_command_process abi workspace p =
     (case sys (\<lambda>p. p\<lparr>p_pdeathsig := True\<rparr>) p of
        (False, p1) \<Rightarrow> (SANDBOX_ISO_NS, p1)
      | (True, p1) \<Rightarrow>
          (case (if has_workspace workspace then enter_workspace_cwd (the workspace) p1 else (True, p1)) of
             (False, p2) \<Rightarrow> (SANDBOX_ISO_NS, p2)
           | (True, p2) \<Rightarrow>
               (case remount_procfs p2 of
                  (False, p3) \<Rightarrow> (SANDBOX_ISO_NS, p3)
                | (True, p3) \<Rightarrow>
                    (case (if has_workspace workspace then sandbox_landlock_restrict_to_workspace abi workspace p3 else (True, p3)) of
                       (False, p4) \<Rightarrow> (SANDBOX_ISO_LL, p4)
                     | (True, p4) \<Rightarrow> (0, p4)))))"

text \<open>\<open>close_range\<close>, or closing 3 to 1023 one by one.\<close>

definition close_inherited_fds :: "proc \<Rightarrow> proc" where
  "close_inherited_fds p = snd (sys (\<lambda>p. p) p)\<lparr>p_fds_closed := True\<rparr>"

definition setup_child_process :: "proc \<Rightarrow> nat \<times> proc" where
  "setup_child_process p =
     (case all_ok [sys (\<lambda>p. p), sys (\<lambda>p. p)] p of
        (False, p1) \<Rightarrow> (SANDBOX_ISO_NS, p1)
      | (True, p1) \<Rightarrow>
          (case all_ok [isolate_namespaces, sys (\<lambda>p. p\<lparr>p_no_new_privs := True\<rparr>), sys (\<lambda>p. p\<lparr>p_pdeathsig := True\<rparr>)] p1 of
             (False, p2) \<Rightarrow> (SANDBOX_ISO_NS, p2)
           | (True, p2) \<Rightarrow> (0, p2)))"

text \<open>
  The child of \<open>sandbox_exec\<close>, from the \<open>fork\<close> to \<open>execl\<close>: either the process that runs \<open>sh -c\<close>, or the failure byte (\<open>None\<close> when writing
  it fails too).  A forked process is the first one of its PID namespace and has no parent-death signal yet.
\<close>

datatype child = Executed proc string | Gave_Up "nat option"

definition give_up :: "nat \<Rightarrow> proc \<Rightarrow> child" where
  "give_up isob p = Gave_Up (if fst (sys (\<lambda>p. p) p) then Some isob else None)"

definition sandbox_child :: "int \<Rightarrow> string option \<Rightarrow> string \<Rightarrow> proc \<Rightarrow> child" where
  "sandbox_child abi workspace cmd p =
     (case setup_child_process p of
        (isob, p1) \<Rightarrow>
          if isob \<noteq> 0 then give_up isob p1
          else case sys (\<lambda>p. p\<lparr>p_pid1 := p_pidns p, p_pdeathsig := False\<rparr>) p1 of
            (False, p2) \<Rightarrow> give_up SANDBOX_ISO_NS p2
          | (True, p2) \<Rightarrow>
              (case setup_command_process abi workspace p2 of
                 (isob, p3) \<Rightarrow>
                   if isob \<noteq> 0 then give_up isob p3
                   else let p4 = close_inherited_fds p3 in
                     Executed (p4\<lparr>p_env := sandbox_scrub_command_environment workspace (p_env p4)\<rparr>) cmd))"

subsection \<open>Time and the output pipe\<close>

text \<open>A \<open>timespec\<close> as seconds and nanoseconds; \<open>None\<close> when \<open>clock_gettime\<close> fails.  C division truncates towards zero.\<close>

type_synonym timespec = "int \<times> int"

definition trunc_div :: "int \<Rightarrow> int \<Rightarrow> int" where
  "trunc_div a b = (if a < 0 then - ((- a) div b) else a div b)"

definition monotonic_elapsed_ms :: "timespec \<Rightarrow> timespec option \<Rightarrow> int" where
  "monotonic_elapsed_ms start now =
     (case now of
        None \<Rightarrow> -1
      | Some (sec, nsec) \<Rightarrow> let ms = (sec - fst start) * 1000 + trunc_div (nsec - snd start) 1000000 in if ms < 0 then 0 else ms)"

definition poll_remain_ms :: "int \<Rightarrow> int \<Rightarrow> int \<Rightarrow> int" where
  "poll_remain_ms timeout_ms elapsed_ms slice_cap =
     (let remain = timeout_ms - elapsed_ms in if remain > slice_cap then slice_cap else wrap32 remain)"

text \<open>What one iteration sees: the clock, then \<open>poll\<close> interrupted, failed, idle, or followed by a \<open>read\<close> of those bytes
  (none at end of file or on an error).  The chunk buffer holds \<open>chunk\<close> bytes.\<close>

datatype poll_event = Poll_Interrupted | Poll_Failed | Poll_Idle | Poll_Read string

text \<open>\<open>None\<close>: still in the loop when the events end.  The result is the output and whether the deadline was hit.\<close>

primrec drain_loop :: "nat \<Rightarrow> nat \<Rightarrow> int \<Rightarrow> timespec \<Rightarrow> (timespec option \<times> poll_event) list \<Rightarrow> string \<Rightarrow> (string \<times> bool) option" where
  "drain_loop chunk cap timeout_ms start [] buf = (if length buf < cap - 1 then None else Some (buf, False))"
| "drain_loop chunk cap timeout_ms start (e # evs) buf =
     (if \<not> length buf < cap - 1 then Some (buf, False)
      else if monotonic_elapsed_ms start (fst e) \<ge> timeout_ms then Some (buf, True)
      else case snd e of
             Poll_Interrupted \<Rightarrow> drain_loop chunk cap timeout_ms start evs buf
           | Poll_Failed \<Rightarrow> Some (buf, False)
           | Poll_Idle \<Rightarrow> drain_loop chunk cap timeout_ms start evs buf
           | Poll_Read bytes \<Rightarrow>
               (let got = take chunk bytes in
                if got = [] then Some (buf, False)
                else let add = (if length buf + length got \<ge> cap - 1 then cap - 1 - length buf else length got) in
                  drain_loop chunk cap timeout_ms start evs (buf @ take add got)))"

definition drain_pipe :: "nat \<Rightarrow> int \<Rightarrow> timespec \<Rightarrow> (timespec option \<times> poll_event) list \<Rightarrow> (string \<times> bool) option" where
  "drain_pipe cap timeout_ms start evs =
     (if cap = 0 then Some ([], False) else drain_loop 512 cap timeout_ms start evs [])"

text \<open>Whether the child had to be killed: it was still running at the first \<open>waitpid\<close>.\<close>

definition reap_child :: "bool \<Rightarrow> bool" where
  "reap_child running = running"

subsection \<open>Control groups\<close>

record sandbox_config =
  sc_workspace_path :: "string option"
  sc_memory_max_bytes :: nat
  sc_cpu_max :: "string option"
  sc_cgroup_base :: "string option"

definition cgroup_dir_of :: "string \<Rightarrow> string \<Rightarrow> string" where
  "cgroup_dir_of base name = base @ ''/'' @ name"

text \<open>The files written, with their values; whether the writes succeed is ignored by the code.\<close>

definition cgroup_prepare :: "bool \<Rightarrow> string \<Rightarrow> string \<Rightarrow> nat \<Rightarrow> string option \<Rightarrow> (string \<times> string) list option" where
  "cgroup_prepare mkdir_ok base name memory_max cpu_max =
     (let cpath = cgroup_dir_of base name in
      if length cpath \<ge> 1024 then None
      else if \<not> mkdir_ok then None
      else Some ((cpath @ ''/memory.max'', nat_str (if memory_max > 0 then memory_max else DEFAULT_MEMORY_MAX)) #
                 (case cpu_max of None \<Rightarrow> [] | Some c \<Rightarrow> if c = [] then [] else [(cpath @ ''/cpu.max'', c)])))"

definition cgroup_name_of :: "nat \<Rightarrow> nat \<Rightarrow> string" where
  "cgroup_name_of pid cgroup_seq = buf_trunc 80 (CGROUP_NAME_PREFIX @ nat_str pid @ ''_'' @ nat_str cgroup_seq)"

subsection \<open>The parent\<close>

text \<open>What the parent's own system calls answer.  \<open>sb_poll\<close>: whether the control pipe becomes readable in time.\<close>

record sandbox_env =
  sb_pipes :: bool
  sb_fork :: bool
  sb_poll :: bool
  sb_controllers :: bool
  sb_mkdir :: bool
  sb_pid :: nat
  sb_start :: timespec
  sb_events :: "(timespec option \<times> poll_event) list"
  sb_running :: bool

text \<open>\<open>read_isolation_byte\<close>: \<open>None\<close> for the failure, \<open>Some None\<close> at end of file.\<close>

definition read_isolation_byte :: "bool \<Rightarrow> child \<Rightarrow> nat option option" where
  "read_isolation_byte polled child = (if \<not> polled then None else Some (case child of Executed _ _ \<Rightarrow> None | Gave_Up b \<Rightarrow> b))"

definition report_isolation_failure :: "nat \<Rightarrow> nat \<Rightarrow> int \<times> string" where
  "report_isolation_failure out_cap isob =
     (-1, buf_trunc out_cap (if isob = SANDBOX_ISO_LL then ''sandbox: Landlock filesystem bound failed''
                             else ''sandbox: namespace isolation failed''))"

text \<open>The control group: the counter of groups, and the files written when it is used.\<close>

definition sandbox_cgroup :: "sandbox_env \<Rightarrow> sandbox_config option \<Rightarrow> nat \<Rightarrow> (string \<times> string) list option \<times> nat" where
  "sandbox_cgroup e cfg cgroup_seq =
     (let cgroup_base = (case cfg of None \<Rightarrow> DEFAULT_CGROUP_BASE
            | Some c \<Rightarrow> (case sc_cgroup_base c of None \<Rightarrow> DEFAULT_CGROUP_BASE | Some b \<Rightarrow> if b = [] then DEFAULT_CGROUP_BASE else b));
          memory_max = (case cfg of None \<Rightarrow> 0 | Some c \<Rightarrow> sc_memory_max_bytes c);
          cpu_max = (case cfg of None \<Rightarrow> None | Some c \<Rightarrow> sc_cpu_max c) in
      if sb_controllers e then
        let seq = (cgroup_seq + 1) mod 4294967296 in
        (cgroup_prepare (sb_mkdir e) cgroup_base (cgroup_name_of (sb_pid e) seq) memory_max cpu_max, seq)
      else (None, cgroup_seq))"

definition timeout_notice :: "int \<Rightarrow> string" where
  "timeout_notice timeout_ms = [newline] @ ''[Sandbox: command timed out after '' @ int_str timeout_ms @ '' ms]''"

text \<open>
  \<open>sandbox_exec\<close>: the return code with the output buffer (\<open>None\<close> while the command runs on after the last event), and the child, if one was
  forked.
\<close>

definition sandbox_exec ::
  "sandbox_env \<Rightarrow> int \<Rightarrow> proc \<Rightarrow> string \<Rightarrow> nat \<Rightarrow> int \<Rightarrow> sandbox_config option \<Rightarrow> (int \<times> string) option \<times> child option" where
  "sandbox_exec e abi p cmd out_cap timeout cfg =
     (let workspace = (case cfg of None \<Rightarrow> None | Some c \<Rightarrow> sc_workspace_path c);
          timeout_ms = (if timeout \<le> 0 then DEFAULT_TIMEOUT_MS else timeout) in
      if out_cap = 0 then (Some (-1, []), None)
      else if \<not> sb_pipes e then (Some (-1, []), None)
      else if \<not> sb_fork e then (Some (-1, []), None)
      else let child = sandbox_child abi workspace cmd p in
        case read_isolation_byte (sb_poll e) child of
          None \<Rightarrow> (Some (report_isolation_failure out_cap SANDBOX_ISO_NS), Some child)
        | Some (Some b) \<Rightarrow> (Some (report_isolation_failure out_cap b), Some child)
        | Some None \<Rightarrow>
            (case drain_pipe out_cap timeout_ms (sb_start e) (sb_events e) of
               None \<Rightarrow> (None, Some child)
             | Some (out, drain_deadline) \<Rightarrow>
                 let timed_out = (reap_child (sb_running e) \<or> drain_deadline) in
                 (Some (0, if timed_out \<and> int (length out) < int out_cap - 40 \<or> timed_out \<and> out_cap < 40
                           then out @ buf_trunc (out_cap - length out)
                             (timeout_notice timeout_ms)
                           else out), Some child)))"

section \<open>The environment\<close>

lemma put_envD: "put_env name v env x = Some w \<Longrightarrow> x = name \<and> v = Some w \<or> x \<noteq> name \<and> env x = Some w \<or> env x = Some w"
  by (auto simp: put_env_def split: option.splits if_splits)

lemma dup_envD: "dup_env env name = Some v \<Longrightarrow> env name = Some v"
  by (auto simp: dup_env_def split: option.splits if_splits)

lemma scrubbed_names:
  assumes "sandbox_scrub_command_environment ws env x = Some v"
  shows "x = ''HOME'' \<and> ws = Some v \<or> x = ''PATH'' \<and> v = FALLBACK_PATH \<or>
    x \<in> {''PATH'', ''LANG'', ''LC_ALL'', ''LC_CTYPE'', ''TERM'', ''TZ''} \<and> env x = Some v"
proof -
  let ?e = "put_env ''TZ'' (dup_env env ''TZ'') (put_env ''TERM'' (dup_env env ''TERM'') (put_env ''LC_CTYPE'' (dup_env env ''LC_CTYPE'')
    (put_env ''LC_ALL'' (dup_env env ''LC_ALL'') (put_env ''LANG'' (dup_env env ''LANG'')
    (put_env ''PATH'' (case dup_env env ''PATH'' of Some p \<Rightarrow> Some p | None \<Rightarrow> Some FALLBACK_PATH) Map.empty)))))"
  have "x = ''HOME'' \<and> ws = Some v \<or> ?e x = Some v"
    using assms by (auto simp: sandbox_scrub_command_environment_def Let_def split: option.splits if_splits)
  then show ?thesis
    by (auto dest!: put_envD dup_envD split: option.splits)
qed

section \<open>The output pipe\<close>

fun poll_bytes :: "nat \<Rightarrow> poll_event \<Rightarrow> string" where
  "poll_bytes chunk (Poll_Read bytes) = take chunk bytes"
| "poll_bytes chunk _ = []"

lemma drain_loop_full: "\<not> length buf < cap - 1 \<Longrightarrow> drain_loop chunk cap t start evs buf = Some (buf, False)"
  by (cases evs) simp_all

lemma drain_loop_read:
  assumes "snd e = Poll_Read bytes" "length buf < cap - 1" "monotonic_elapsed_ms start (fst e) < t" "take chunk bytes \<noteq> []"
  shows "drain_loop chunk cap t start (e # evs) buf =
    drain_loop chunk cap t start evs (buf @ take (cap - 1 - length buf) (take chunk bytes))"
proof (cases "length buf + length (take chunk bytes) \<ge> cap - 1")
  case False
  then have "take (cap - 1 - length buf) (take chunk bytes) = take chunk bytes" by (intro take_all) linarith
  then show ?thesis using assms False by (simp add: Let_def del: take_take)
qed (use assms in \<open>simp add: Let_def del: take_take\<close>)

lemma drain_loop_bounds:
  "drain_loop chunk cap t start evs buf = Some (out, d) \<Longrightarrow> length buf \<le> cap - 1 \<Longrightarrow>
   length out \<le> cap - 1 \<and> prefix out (buf @ concat (map (poll_bytes chunk \<circ> snd) evs))"
proof (induction evs arbitrary: buf)
  case Nil
  then show ?case by (auto split: if_splits)
next
  case (Cons e evs)
  consider (full) "\<not> length buf < cap - 1" | (late) "length buf < cap - 1" "t \<le> monotonic_elapsed_ms start (fst e)"
    | (go) "length buf < cap - 1" "monotonic_elapsed_ms start (fst e) < t" by linarith
  then show ?case
  proof cases
    case go
    show ?thesis
    proof (cases "take chunk (case snd e of Poll_Read bytes \<Rightarrow> bytes | _ \<Rightarrow> []) = []")
      case True
      then show ?thesis using Cons go by (auto simp: Let_def split: poll_event.splits)
    next
      case False
      then obtain bytes where b: "snd e = Poll_Read bytes" "take chunk bytes \<noteq> []"
        by (cases "snd e") auto
      let ?buf = "buf @ take (cap - 1 - length buf) (take chunk bytes)"
      have step: "drain_loop chunk cap t start evs ?buf = Some (out, d)"
        using Cons.prems(1) drain_loop_read [OF b(1) go b(2)] by simp
      have "length ?buf \<le> cap - 1" using go(1) by simp
      note ih = Cons.IH [OF step this]
      show ?thesis
      proof (cases "length ?buf < cap - 1")
        case True
        then have "take (cap - 1 - length buf) (take chunk bytes) = take chunk bytes" by (intro take_all) auto
        then show ?thesis using ih b(1) by (simp del: take_take)
      next
        case False
        then have "drain_loop chunk cap t start evs ?buf = Some (?buf, False)" by (rule drain_loop_full)
        then have "out = ?buf" using step by (simp only: option.inject prod.inject)
        then show ?thesis using ih b(1) by (simp add: take_is_prefix prefix_prefix del: take_take)
      qed
    qed
  qed (use Cons.prems in auto)
qed

text \<open>Once the clock reaches the deadline the loop has ended, whatever the writer does.\<close>

lemma drain_loop_returns:
  "\<exists>e \<in> set evs. t \<le> monotonic_elapsed_ms start (fst e) \<Longrightarrow> \<exists>r. drain_loop chunk cap t start evs buf = Some r"
  by (induction evs arbitrary: buf) (auto simp: Let_def split: poll_event.splits)

lemma poll_slice:
  assumes "0 < sl" "sl < 2 ^ 31" "elapsed < timeout"
  shows "0 < poll_remain_ms timeout elapsed sl \<and> poll_remain_ms timeout elapsed sl \<le> sl"
  using assms by (auto simp: poll_remain_ms_def Let_def wrap32_id)

section \<open>Landlock\<close>

text \<open>What the kernel allows: a right that the ruleset does not handle, or that a rule on the path or above it grants.\<close>

definition beneath :: "string \<Rightarrow> string \<Rightarrow> bool" where
  "beneath d q \<longleftrightarrow> d = ''/'' \<or> q = d \<or> prefix (d @ ''/'') q"

definition landlock_allows :: "ruleset \<Rightarrow> string \<Rightarrow> nat \<Rightarrow> bool" where
  "landlock_allows rs q n \<longleftrightarrow> \<not> bit (handled_access_fs rs) n \<or> list_ex (\<lambda>(d, a). beneath d q \<and> bit a n) (path_beneath rs)"

lemma sys_cases:
  obtains "sys f p = (True, f (p\<lparr>p_calls := Suc (p_calls p)\<rparr>))" | "sys f p = (False, p\<lparr>p_calls := Suc (p_calls p)\<rparr>)"
  by (cases "p_sys p (p_calls p)") (auto simp: sys_def Let_def)

lemma sys_id: "\<exists>b n. sys (\<lambda>p. p) p = (b, p\<lparr>p_calls := n\<rparr>)"
  by (auto simp: sys_def Let_def)

lemma add_path_rules:
  assumes "landlock_add_path path da fa rs p = (r, p')"
  shows "\<exists>n. p' = p\<lparr>p_calls := n\<rparr>" "r = Some rs' \<Longrightarrow> rs' = rs \<or> (\<exists>a \<in> {da, fa}. rs' = add_rule path a rs)"
  using assms by (auto simp: landlock_add_path_def sys_def Let_def split: prod.splits bool.splits if_splits)

lemma add_workspace_rules:
  assumes "landlock_add_workspace path a rs p = (r, p')"
  shows "\<exists>n. p' = p\<lparr>p_calls := n\<rparr>" "r = Some rs' \<Longrightarrow> rs' = add_rule path a rs"
  using assms by (auto simp: landlock_add_workspace_def sys_def Let_def split: prod.splits bool.splits if_splits)

lemma add_paths_frame: "\<exists>n. snd (add_paths da fa paths rs p) = p\<lparr>p_calls := n\<rparr>"
proof (induction paths arbitrary: rs p)
  case Nil
  show ?case by (rule exI [of _ "p_calls p"]) simp
next
  case (Cons path paths)
  obtain r p' where a: "landlock_add_path path da fa rs p = (r, p')" by (metis surj_pair)
  obtain n where n: "p' = p\<lparr>p_calls := n\<rparr>" using add_path_rules(1) [OF a] by blast
  show ?case
  proof (cases r)
    case None
    then show ?thesis using a n by auto
  next
    case (Some rs1)
    obtain m where "snd (add_paths da fa paths rs1 p') = p'\<lparr>p_calls := m\<rparr>" using Cons.IH by blast
    then have "snd (add_paths da fa (path # paths) rs p) = p\<lparr>p_calls := m\<rparr>" using a n Some by simp
    then show ?thesis by blast
  qed
qed

lemma add_paths_rules:
  "fst (add_paths da fa paths rs p) = Some rs' \<Longrightarrow>
   handled_access_fs rs' = handled_access_fs rs \<and>
   set (path_beneath rs') \<subseteq> set (path_beneath rs) \<union> {(d, a). d \<in> set paths \<and> a \<in> {da, fa}}"
proof (induction paths arbitrary: rs p)
  case (Cons path paths)
  obtain r p' where a: "landlock_add_path path da fa rs p = (r, p')" by (metis surj_pair)
  then obtain r1 where r: "r = Some r1" using Cons.prems by (cases r) auto
  have "r1 = rs \<or> (\<exists>a \<in> {da, fa}. r1 = add_rule path a rs)" by (rule add_path_rules(2) [OF a r])
  moreover have "handled_access_fs rs' = handled_access_fs r1 \<and>
      set (path_beneath rs') \<subseteq> set (path_beneath r1) \<union> {(d, a). d \<in> set paths \<and> a \<in> {da, fa}}"
    using Cons.IH Cons.prems a r by simp
  ultimately show ?case by (auto simp: add_rule_def)
qed simp

lemma add_paths_frameD: "add_paths da fa paths rs p = (r, p') \<Longrightarrow> \<exists>n. p' = p\<lparr>p_calls := n\<rparr>"
  using add_paths_frame [of da fa paths rs p] by simp

lemma sys_idD: "sys (\<lambda>p. p) p = (r, p') \<Longrightarrow> \<exists>n. p' = p\<lparr>p_calls := n\<rparr>"
  using sys_id [of p] by auto

lemma no_calls: "\<exists>n. p = p\<lparr>p_calls := n\<rparr>"
  by (rule exI [of _ "p_calls p"]) simp

lemma make_ruleset_frame: "landlock_make_ruleset abi ws p = (r, p') \<Longrightarrow> \<exists>n. p' = p\<lparr>p_calls := n\<rparr>"
  unfolding landlock_make_ruleset_def Let_def
  by (auto simp: no_calls split: option.splits if_splits prod.splits bool.splits
      dest!: sys_idD add_workspace_rules(1) add_paths_frameD)

text \<open>The rules of a complete ruleset for the workspace \<open>w\<close>.\<close>

definition rules_for :: "string \<Rightarrow> rights \<Rightarrow> (string \<times> rights) set" where
  "rules_for w handled =
     {(w, mask_workspace_access handled), (''/'', LANDLOCK_ACCESS_FS_READ_DIR AND handled)} \<union>
     {(d, a). d \<in> set RO_PATHS \<and> a \<in> {(LANDLOCK_ACCESS_FS_EXECUTE OR LANDLOCK_ACCESS_FS_READ_FILE OR LANDLOCK_ACCESS_FS_READ_DIR) AND handled,
        (LANDLOCK_ACCESS_FS_EXECUTE OR LANDLOCK_ACCESS_FS_READ_FILE) AND handled}} \<union>
     {(d, a). d \<in> set RW_DEV \<and> a \<in> {(LANDLOCK_ACCESS_FS_EXECUTE OR LANDLOCK_ACCESS_FS_READ_FILE OR LANDLOCK_ACCESS_FS_READ_DIR) AND handled,
        ((LANDLOCK_ACCESS_FS_EXECUTE OR LANDLOCK_ACCESS_FS_READ_FILE OR LANDLOCK_ACCESS_FS_WRITE_FILE) AND handled)
          OR (LANDLOCK_ACCESS_FS_TRUNCATE AND handled)}}"

lemma make_ruleset_rules:
  assumes "landlock_make_ruleset abi ws p = (Fd rs, p')"
  obtains w handled where "ws = Some w" "landlock_handled_fs abi = Some handled" "handled_access_fs rs = handled"
    "set (path_beneath rs) \<subseteq> rules_for w handled"
proof -
  obtain w handled where w: "ws = Some w" "w \<noteq> []" "landlock_handled_fs abi = Some handled"
    using assms by (auto simp: landlock_make_ruleset_def split: option.splits if_splits)
  let ?a1 = "(LANDLOCK_ACCESS_FS_EXECUTE OR LANDLOCK_ACCESS_FS_READ_FILE OR LANDLOCK_ACCESS_FS_READ_DIR) AND handled"
  let ?a2 = "(LANDLOCK_ACCESS_FS_EXECUTE OR LANDLOCK_ACCESS_FS_READ_FILE) AND handled"
  let ?a3 = "((LANDLOCK_ACCESS_FS_EXECUTE OR LANDLOCK_ACCESS_FS_READ_FILE OR LANDLOCK_ACCESS_FS_WRITE_FILE) AND handled)
          OR (LANDLOCK_ACCESS_FS_TRUNCATE AND handled)"
  obtain p1 r1 p2 r2 p3 r3 p4 where c:
    "landlock_add_workspace w (mask_workspace_access handled) \<lparr>handled_access_fs = handled, path_beneath = []\<rparr> p1 = (Some r1, p2)"
    "landlock_add_workspace ''/'' (LANDLOCK_ACCESS_FS_READ_DIR AND handled) r1 p2 = (Some r2, p3)"
    "add_paths ?a1 ?a2 RO_PATHS r2 p3 = (Some r3, p4)" "add_paths ?a1 ?a3 RW_DEV r3 p4 = (Some rs, p')"
    using assms w by (auto simp: landlock_make_ruleset_def Let_def split: prod.splits bool.splits option.splits)
  have r12: "r1 = add_rule w (mask_workspace_access handled) \<lparr>handled_access_fs = handled, path_beneath = []\<rparr>"
    "r2 = add_rule ''/'' (LANDLOCK_ACCESS_FS_READ_DIR AND handled) r1"
    using add_workspace_rules(2) [OF c(1)] add_workspace_rules(2) [OF c(2)] by auto
  have r3: "handled_access_fs r3 = handled_access_fs r2"
    "set (path_beneath r3) \<subseteq> set (path_beneath r2) \<union> {(d, a). d \<in> set RO_PATHS \<and> a \<in> {?a1, ?a2}}"
    using add_paths_rules [of ?a1 ?a2 RO_PATHS r2 p3 r3] c(3) by auto
  have r4: "handled_access_fs rs = handled_access_fs r3"
    "set (path_beneath rs) \<subseteq> set (path_beneath r3) \<union> {(d, a). d \<in> set RW_DEV \<and> a \<in> {?a1, ?a3}}"
    using add_paths_rules [of ?a1 ?a3 RW_DEV r3 p4 rs] c(4) by auto
  have "set (path_beneath r2) \<subseteq> {(w, mask_workspace_access handled), (''/'', LANDLOCK_ACCESS_FS_READ_DIR AND handled)}"
    using r12 by (simp add: add_rule_def)
  then have "set (path_beneath rs) \<subseteq> rules_for w handled" using r3(2) r4(2) unfolding rules_for_def by blast
  moreover have "handled_access_fs rs = handled" using r12 r3(1) r4(1) by (simp add: add_rule_def)
  ultimately show ?thesis using that w by blast
qed

lemma handled_bits:
  assumes "landlock_handled_fs abi = Some handled" "n < 13"
  shows "bit handled n"
proof -
  have "list_all (bit landlock_abi1_fs_rights) [0 ..< 13]"
    by (simp add: upt_rec landlock_abi1_fs_rights_def right_defs bit_or_iff bit_push_bit_iff)
  then have "bit landlock_abi1_fs_rights n" using assms(2) by (simp add: list_all_iff)
  then show ?thesis using assms(1) by (auto simp: landlock_handled_fs_def Let_def bit_or_iff split: if_splits)
qed

text \<open>What the complete ruleset allows: writing only in the workspace and to four devices, creating and removing only in the
  workspace, device nodes nowhere, reading also below the listed system directories.\<close>

definition confined_to :: "string \<Rightarrow> string \<Rightarrow> ruleset \<Rightarrow> bool" where
  "confined_to w q rs \<longleftrightarrow>
     (landlock_allows rs q 1 \<longrightarrow> beneath w q \<or> list_ex (\<lambda>d. beneath d q) RW_DEV) \<and>
     (landlock_allows rs q 2 \<longrightarrow> beneath w q \<or> list_ex (\<lambda>d. beneath d q) (RO_PATHS @ RW_DEV)) \<and>
     (\<forall>n \<in> {4, 5, 7, 8, 9, 10, 12}. landlock_allows rs q n \<longrightarrow> beneath w q) \<and>
     \<not> landlock_allows rs q 6 \<and> \<not> landlock_allows rs q 11"

lemma ruleset_confines:
  assumes "landlock_make_ruleset abi (Some w) p = (Fd rs, p')"
  shows "confined_to w q rs"
proof -
  obtain handled where h: "landlock_handled_fs abi = Some handled" "handled_access_fs rs = handled"
    "set (path_beneath rs) \<subseteq> rules_for w handled"
    using make_ruleset_rules [OF assms(1)] by blast
  have g: "\<exists>d a. (d, a) \<in> rules_for w handled \<and> beneath d q \<and> bit a n" if n: "landlock_allows rs q n" "n < 13" for n
    using n(1) h(2,3) handled_bits [OF h(1) n(2)] by (auto simp: landlock_allows_def list_ex_iff)
  note bits = rules_for_def list_ex_iff right_defs mask_workspace_access_def bit_or_iff bit_and_iff bit_push_bit_iff
  have "landlock_allows rs q 1 \<Longrightarrow> beneath w q \<or> list_ex (\<lambda>d. beneath d q) RW_DEV"
    using g [of 1] by (auto simp: bits)
  moreover have "landlock_allows rs q 2 \<Longrightarrow> beneath w q \<or> list_ex (\<lambda>d. beneath d q) (RO_PATHS @ RW_DEV)"
    using g [of 2] by (auto simp: bits)
  moreover have "\<forall>n \<in> {4, 5, 7, 8, 9, 10, 12}. landlock_allows rs q n \<longrightarrow> beneath w q"
    using g [of 4] g [of 5] g [of 7] g [of 8] g [of 9] g [of 10] g [of 12] by (auto simp: bits)
  moreover have "\<not> landlock_allows rs q 6" "\<not> landlock_allows rs q 11"
    using g [of 6] g [of 11] by (auto simp: bits)
  ultimately show ?thesis by (simp add: confined_to_def)
qed

section \<open>Isolation\<close>

lemma sys_split:
  "P (sys f p) \<longleftrightarrow> (p_sys p (p_calls p) \<longrightarrow> P (True, f (p\<lparr>p_calls := Suc (p_calls p)\<rparr>))) \<and>
     (\<not> p_sys p (p_calls p) \<longrightarrow> P (False, p\<lparr>p_calls := Suc (p_calls p)\<rparr>))"
  by (simp add: sys_def Let_def)

lemma all_ok_Cons_True: "all_ok (m # ms) p = (True, p') \<longleftrightarrow> (\<exists>p1. m p = (True, p1) \<and> all_ok ms p1 = (True, p'))"
  by (auto split: prod.splits bool.splits)

lemma sys_True: "sys f p = (True, p') \<Longrightarrow> p' = f (p\<lparr>p_calls := Suc (p_calls p)\<rparr>)"
  by (auto simp: sys_def Let_def split: if_splits)

lemma unshare_env: "p_env (snd (unshare_isolation_namespaces p)) = p_env p"
  by (auto simp: unshare_isolation_namespaces_def sys_def Let_def)

lemma unshare_ok:
  assumes "unshare_isolation_namespaces p = (True, p')"
  shows "p_mntns p' \<and> p_netns p' \<and> p_pidns p' \<and> p_mounts_private p' \<and> p_env p' = p_env p"
  using assms unfolding unshare_isolation_namespaces_def all_ok_Cons_True all_ok.simps(1)
  by (auto dest!: sys_True)

lemma user_namespace_env: "enter_user_namespace p = (True, p') \<Longrightarrow> p_env p' = p_env p"
  unfolding enter_user_namespace_def write_proc_str_def all_ok_Cons_True all_ok.simps(1)
  by (auto dest!: sys_True)

lemma isolate_ok:
  assumes "isolate_namespaces p = (True, p')"
  shows "p_mntns p' \<and> p_netns p' \<and> p_pidns p' \<and> p_mounts_private p' \<and> p_env p' = p_env p"
proof (cases "unshare_isolation_namespaces p")
  case (Pair b p1)
  then have e: "p_env p1 = p_env p" using unshare_env [of p] by simp
  show ?thesis
  proof (cases b)
    case True
    then show ?thesis using unshare_ok Pair assms by (auto simp: isolate_namespaces_def)
  next
    case False
    then have "all_ok [enter_user_namespace, unshare_isolation_namespaces] p1 = (True, p')"
      using assms Pair by (simp add: isolate_namespaces_def)
    then show ?thesis using e unfolding all_ok_Cons_True all_ok.simps(1) by (auto dest!: user_namespace_env unshare_ok)
  qed
qed

lemma child_setup_ok:
  assumes "setup_child_process p = (0, p')"
  shows "p_mntns p' \<and> p_netns p' \<and> p_pidns p' \<and> p_mounts_private p' \<and> p_no_new_privs p' \<and> p_env p' = p_env p"
proof -
  obtain p1 where "all_ok [sys (\<lambda>p. p), sys (\<lambda>p. p)] p = (True, p1)"
    "all_ok [isolate_namespaces, sys (\<lambda>p. p\<lparr>p_no_new_privs := True\<rparr>), sys (\<lambda>p. p\<lparr>p_pdeathsig := True\<rparr>)] p1 = (True, p')"
    using assms by (auto simp: setup_child_process_def SANDBOX_ISO_NS_def simp del: all_ok.simps split: prod.splits bool.splits)
  then show ?thesis unfolding all_ok_Cons_True all_ok.simps(1) by (auto dest!: sys_True isolate_ok)
qed

lemma landlock_restrict_ok:
  assumes "sandbox_landlock_restrict_to_workspace abi ws p = (True, p')" "has_workspace ws"
  shows "\<exists>n rs p1. p' = p\<lparr>p_calls := n, p_landlock := Some rs\<rparr> \<and> landlock_make_ruleset abi ws p = (Fd rs, p1)"
proof -
  obtain r p1 where m: "landlock_make_ruleset abi ws p = (r, p1)" by (metis surj_pair)
  obtain rs where r: "r = Fd rs" "sys (\<lambda>p. p\<lparr>p_landlock := Some rs\<rparr>) p1 = (True, p')"
  proof (cases r)
    case Fd_Skip
    then have "\<not> has_workspace ws"
      using m by (auto simp: landlock_make_ruleset_def has_workspace_def Let_def split: option.splits if_splits prod.splits bool.splits)
    then show ?thesis using assms(2) by simp
  qed (use assms(1) m that in \<open>auto simp: sandbox_landlock_restrict_to_workspace_def\<close>)
  obtain n where "p1 = p\<lparr>p_calls := n\<rparr>" using make_ruleset_frame [OF m] by blast
  then show ?thesis using sys_True [OF r(2)] m r(1) by auto
qed

lemma command_setup_ok:
  assumes "setup_command_process abi ws p = (0, p')"
  shows "p_pdeathsig p' \<and> p_own_procfs p' \<and> p_mntns p' = p_mntns p \<and> p_netns p' = p_netns p \<and> p_pidns p' = p_pidns p \<and>
    p_mounts_private p' = p_mounts_private p \<and> p_no_new_privs p' = p_no_new_privs p \<and> p_pid1 p' = p_pid1 p \<and> p_env p' = p_env p"
    "has_workspace ws \<Longrightarrow> p_cwd p' = ws \<and> (\<exists>rs q q'. p_landlock p' = Some rs \<and> landlock_make_ruleset abi ws q = (Fd rs, q'))"
proof -
  obtain p1 p2 p3 where c: "sys (\<lambda>p. p\<lparr>p_pdeathsig := True\<rparr>) p = (True, p1)"
    "(if has_workspace ws then enter_workspace_cwd (the ws) p1 else (True, p1)) = (True, p2)" "remount_procfs p2 = (True, p3)"
    "(if has_workspace ws then sandbox_landlock_restrict_to_workspace abi ws p3 else (True, p3)) = (True, p')"
    using assms unfolding setup_command_process_def SANDBOX_ISO_NS_def SANDBOX_ISO_LL_def
    by (auto split: prod.splits bool.splits)
  have p1: "\<exists>n. p1 = p\<lparr>p_calls := n, p_pdeathsig := True\<rparr>" using sys_True [OF c(1)] by auto
  have p2: "\<exists>n. p2 = p1\<lparr>p_calls := n, p_cwd := (if has_workspace ws then ws else p_cwd p1)\<rparr>"
  proof (cases "has_workspace ws")
    case True
    then have "all_ok [sys (\<lambda>p. p), sys (\<lambda>p. p\<lparr>p_cwd := ws\<rparr>)] p1 = (True, p2)"
      using c(2) by (auto simp: enter_workspace_cwd_def has_workspace_def)
    then show ?thesis using True unfolding all_ok_Cons_True all_ok.simps(1) by (auto dest!: sys_True)
  next
    case False
    then show ?thesis using c(2) by (intro exI [of _ "p_calls p1"]) auto
  qed
  obtain b n where "sys (\<lambda>p. p) p2 = (b, p2\<lparr>p_calls := n\<rparr>)" using sys_id by blast
  then have "p3 = p2\<lparr>p_calls := Suc n, p_own_procfs := True\<rparr>" using c(3) by (auto simp: remount_procfs_def dest!: sys_True)
  then have p3: "\<exists>n. p3 = p2\<lparr>p_calls := n, p_own_procfs := True\<rparr>" by (rule exI)
  have p4: "\<exists>n l. p' = p3\<lparr>p_calls := n, p_landlock := l\<rparr> \<and>
      (has_workspace ws \<longrightarrow> (\<exists>rs q. l = Some rs \<and> landlock_make_ruleset abi ws p3 = (Fd rs, q)))"
  proof (cases "has_workspace ws")
    case True
    then show ?thesis using c(4) landlock_restrict_ok [of abi ws p3 p'] by auto
  next
    case False
    then show ?thesis using c(4) by (intro exI [of _ "p_calls p3"] exI [of _ "p_landlock p3"]) simp
  qed
  obtain n1 n2 n3 n4 l where e: "p1 = p\<lparr>p_calls := n1, p_pdeathsig := True\<rparr>"
    "p2 = p1\<lparr>p_calls := n2, p_cwd := (if has_workspace ws then ws else p_cwd p1)\<rparr>"
    "p3 = p2\<lparr>p_calls := n3, p_own_procfs := True\<rparr>" "p' = p3\<lparr>p_calls := n4, p_landlock := l\<rparr>"
    "has_workspace ws \<longrightarrow> (\<exists>rs q. l = Some rs \<and> landlock_make_ruleset abi ws p3 = (Fd rs, q))"
    using p1 p2 p3 p4 by blast
  show "p_pdeathsig p' \<and> p_own_procfs p' \<and> p_mntns p' = p_mntns p \<and> p_netns p' = p_netns p \<and> p_pidns p' = p_pidns p \<and>
    p_mounts_private p' = p_mounts_private p \<and> p_no_new_privs p' = p_no_new_privs p \<and> p_pid1 p' = p_pid1 p \<and> p_env p' = p_env p"
    unfolding e(1-4) by simp
  show "has_workspace ws \<Longrightarrow> p_cwd p' = ws \<and> (\<exists>rs q q'. p_landlock p' = Some rs \<and> landlock_make_ruleset abi ws q = (Fd rs, q'))"
    using e(5) unfolding e(4) by (auto simp: e(2,3))
qed

text \<open>The process that runs the command.\<close>

lemma executed_child:
  assumes "sandbox_child abi ws cmd p = Executed p' cmd'"
  obtains p1 p2 p3 where "setup_child_process p = (0, p1)"
    "sys (\<lambda>p. p\<lparr>p_pid1 := p_pidns p, p_pdeathsig := False\<rparr>) p1 = (True, p2)" "setup_command_process abi ws p2 = (0, p3)"
    "p' = (close_inherited_fds p3)\<lparr>p_env := sandbox_scrub_command_environment ws (p_env p3)\<rparr>" "cmd' = cmd"
  using assms sys_id
  by (auto simp: sandbox_child_def give_up_def Let_def close_inherited_fds_def sys_def split: prod.splits bool.splits if_splits)

text \<open>What isolation means: own mount, network and PID namespaces with private mounts and an own procfs, PID 1, no new privileges, death
  with the parent, no inherited descriptors, an environment of harmless names, and, when there is a workspace, the workspace as working directory and
  a Landlock bound.\<close>

definition isolated_process :: "string option \<Rightarrow> environ \<Rightarrow> proc \<Rightarrow> bool" where
  "isolated_process ws env p' \<longleftrightarrow>
    p_mntns p' \<and> p_netns p' \<and> p_pidns p' \<and> p_pid1 p' \<and> p_mounts_private p' \<and> p_own_procfs p' \<and>
    p_no_new_privs p' \<and> p_pdeathsig p' \<and> p_fds_closed p' \<and>
    (\<forall>x v. p_env p' x = Some v \<longrightarrow> x = ''HOME'' \<and> ws = Some v \<or> x = ''PATH'' \<and> v = FALLBACK_PATH \<or>
      x \<in> {''PATH'', ''LANG'', ''LC_ALL'', ''LC_CTYPE'', ''TERM'', ''TZ''} \<and> env x = Some v) \<and>
    (\<forall>w. ws = Some w \<and> w \<noteq> [] \<longrightarrow> p_cwd p' = Some w \<and>
      (\<exists>rs. p_landlock p' = Some rs \<and> (\<forall>q. confined_to w q rs)))"

lemma command_runs_isolated:
  assumes "sandbox_child abi ws cmd p = Executed p' cmd'"
  shows "cmd' = cmd \<and> isolated_process ws (p_env p) p'"
proof -
  obtain p1 p2 p3 where c: "setup_child_process p = (0, p1)"
    "sys (\<lambda>p. p\<lparr>p_pid1 := p_pidns p, p_pdeathsig := False\<rparr>) p1 = (True, p2)" "setup_command_process abi ws p2 = (0, p3)"
    "p' = (close_inherited_fds p3)\<lparr>p_env := sandbox_scrub_command_environment ws (p_env p3)\<rparr>" "cmd' = cmd"
    using executed_child [OF assms] by blast
  have p2: "p2 = p1\<lparr>p_calls := Suc (p_calls p1), p_pid1 := p_pidns p1, p_pdeathsig := False\<rparr>" using sys_True [OF c(2)] by simp
  obtain n where p': "p' = p3\<lparr>p_calls := n, p_fds_closed := True, p_env := sandbox_scrub_command_environment ws (p_env p3)\<rparr>"
    using c(4) sys_id [of p3] by (auto simp: close_inherited_fds_def)
  note ns = child_setup_ok [OF c(1)] command_setup_ok(1) [OF c(3)]
  have env: "p_env p3 = p_env p" using ns p2 by simp
  have flags: "p_mntns p' \<and> p_netns p' \<and> p_pidns p' \<and> p_pid1 p' \<and> p_mounts_private p' \<and> p_own_procfs p' \<and>
    p_no_new_privs p' \<and> p_pdeathsig p' \<and> p_fds_closed p'"
    using ns unfolding p' p2 by simp
  have e: "p_env p' x = Some v \<Longrightarrow> x = ''HOME'' \<and> ws = Some v \<or> x = ''PATH'' \<and> v = FALLBACK_PATH \<or>
      x \<in> {''PATH'', ''LANG'', ''LC_ALL'', ''LC_CTYPE'', ''TERM'', ''TZ''} \<and> p_env p x = Some v" for x v
    using scrubbed_names [of ws "p_env p" x v] by (simp add: p' env)
  have fs: "p_cwd p' = Some w \<and> (\<exists>rs. p_landlock p' = Some rs \<and> (\<forall>q. confined_to w q rs))" if w: "ws = Some w" "w \<noteq> []" for w
    using command_setup_ok(2) [OF c(3)] w ruleset_confines unfolding p' by (auto simp: has_workspace_def)
  show ?thesis unfolding isolated_process_def using flags e c(5) fs by blast
qed

definition demo_proc :: "(nat \<Rightarrow> bool) \<Rightarrow> proc" where
  "demo_proc f = \<lparr>p_sys = f, p_calls = 0, p_userns = False, p_mntns = False, p_netns = False, p_pidns = False, p_mounts_private = False,
     p_no_new_privs = False, p_pdeathsig = False, p_pid1 = False, p_own_procfs = False, p_cwd = None, p_landlock = None,
     p_fds_closed = False, p_env = [''OPENAI_API_KEY'' \<mapsto> ''secret'', ''TERM'' \<mapsto> ''vt100'']\<rparr>"

lemmas child_eval =
  landlock_make_ruleset_def sys_def Let_def landlock_handled_fs_def landlock_add_workspace_def demo_proc_def RO_PATHS_def RW_DEV_def
  landlock_add_path_def sandbox_child_def setup_child_process_def isolate_namespaces_def unshare_isolation_namespaces_def
  enter_user_namespace_def write_proc_str_def setup_command_process_def has_workspace_def enter_workspace_cwd_def remount_procfs_def
  sandbox_landlock_restrict_to_workspace_def

text \<open>The first \<open>unshare\<close> fails, so the user namespace is entered first; everything else succeeds.\<close>

lemma demo_child_runs:
  "\<exists>p' cmd'. sandbox_child 3 (Some ''/ws'') ''ls'' (demo_proc (\<lambda>n. n \<noteq> 2)) = Executed p' cmd'"
proof -
  have "(case sandbox_child 3 (Some ''/ws'') ''ls'' (demo_proc (\<lambda>n. n \<noteq> 2)) of Executed _ _ \<Rightarrow> True | Gave_Up _ \<Rightarrow> False)"
    by (simp add: child_eval)
  then show ?thesis by (auto split: child.splits)
qed

section \<open>The parent\<close>



definition demo_sandbox_env :: sandbox_env where
  "demo_sandbox_env = \<lparr>sb_pipes = True, sb_fork = True, sb_poll = True, sb_controllers = False, sb_mkdir = False, sb_pid = 7,
     sb_start = (100, 0), sb_events = [(Some (100, 5000000), Poll_Read ''abc''), (Some (101, 0), Poll_Idle)], sb_running = True\<rparr>"


text \<open>When the child can neither isolate itself nor write its failure byte, the control pipe ends without a byte, which the parent takes for
  success.\<close>

theorem lost_failure_byte_is_success:
  assumes "sandbox_child abi (case cfg of None \<Rightarrow> None | Some c \<Rightarrow> sc_workspace_path c) cmd p = Gave_Up None"
    and "sb_pipes e" "sb_fork e" "sb_poll e" "0 < out_cap" "sandbox_exec e abi p cmd out_cap timeout cfg = (Some (rc, out), c)"
  shows "rc = 0"
  using assms by (auto simp: sandbox_exec_def read_isolation_byte_def Let_def split: option.splits prod.splits)

lemma lost_failure_byte_possible: "sandbox_child 3 (Some ''/ws'') ''ls'' (demo_proc (\<lambda>_. False)) = Gave_Up None"
  by (simp add: child_eval give_up_def SANDBOX_ISO_NS_def)

end
