(* ===== verification/Shell_Tool.thy ===== *)
theory Shell_Tool
  imports File_Tool Sandbox
begin

text \<open>
  The shell tool, \<open>src/tools/shell.c\<close>: the gate in front of the sandbox, and the fallback that runs a command without it.  The fallback's loop over the output
  pipe is that of \<open>drain_pipe\<close> with another chunk size, which is proved.
\<close>

section \<open>Definitions\<close>

definition SHELL_DEFAULT_TIMEOUT_SEC :: int where "SHELL_DEFAULT_TIMEOUT_SEC = 60"

definition FALLBACK_BLOCKLIST :: "string list" where
  "FALLBACK_BLOCKLIST = [''rm -rf /'', ''rm -rf / '', ''rm -rf /$'', ''rm -rf /*'', ''mkfs'', ''dd if='', ''dd of='', ''shutdown'', ''reboot'',
     '':(){ :|:& };:'', ''fork()'', ''> /dev/sd'', ''auth_tokens.json'', ''shellclaw.pid'', ''shellclaw.log'']"

definition fallback_is_blocked :: "string \<Rightarrow> bool" where
  "fallback_is_blocked cmd = list_ex (\<lambda>p. strstr p cmd \<noteq> None) FALLBACK_BLOCKLIST"

text \<open>The process group is killed first; the answer is whether the child was still there at the first \<open>waitpid\<close>.\<close>

definition reap_running_child :: "bool \<Rightarrow> bool" where
  "reap_running_child running = running"

definition append_unsandboxed_output :: "nat \<Rightarrow> string \<Rightarrow> string \<Rightarrow> string" where
  "append_unsandboxed_output max_len buf chunk =
     (let add = (if length buf + length chunk \<ge> max_len - 1 then max_len - 1 - length buf else length chunk) in
      if add = 0 then buf else buf @ take add chunk)"

primrec unsandboxed_loop :: "nat \<Rightarrow> int \<Rightarrow> timespec \<Rightarrow> (timespec option \<times> poll_event) list \<Rightarrow> string \<Rightarrow> (string \<times> bool) option" where
  "unsandboxed_loop max_len timeout_ms start [] buf = (if length buf < max_len - 1 then None else Some (buf, False))"
| "unsandboxed_loop max_len timeout_ms start (e # evs) buf =
     (if \<not> length buf < max_len - 1 then Some (buf, False)
      else if monotonic_elapsed_ms start (fst e) \<ge> timeout_ms then Some (buf, True)
      else case snd e of
             Poll_Interrupted \<Rightarrow> unsandboxed_loop max_len timeout_ms start evs buf
           | Poll_Failed \<Rightarrow> Some (buf, False)
           | Poll_Idle \<Rightarrow> unsandboxed_loop max_len timeout_ms start evs buf
           | Poll_Read bytes \<Rightarrow>
               if take 256 bytes = [] then Some (buf, False)
               else unsandboxed_loop max_len timeout_ms start evs (append_unsandboxed_output max_len buf (take 256 bytes)))"

record run_env =
  re_pipe :: bool
  re_fork :: bool
  re_start :: timespec
  re_events :: "(timespec option \<times> poll_event) list"
  re_running :: bool

definition shell_timeout_notice :: string where
  "shell_timeout_notice = [newline] @ ''[Command timed out]''"

text \<open>The result (\<open>None\<close>: still running after the last event) and whether the command was started.\<close>

definition run_unsandboxed :: "run_env \<Rightarrow> int \<Rightarrow> nat \<Rightarrow> (int \<times> string) option \<times> bool" where
  "run_unsandboxed r timeout_sec max_len =
     (if \<not> re_pipe r then (Some (tool_error max_len ''pipe failed''), False)
      else if \<not> re_fork r then (Some (tool_error max_len ''fork failed''), False)
      else case unsandboxed_loop max_len (timeout_sec * 1000) (re_start r) (re_events r) [] of
             None \<Rightarrow> (None, True)
           | Some (out, deadline) \<Rightarrow>
               let timed_out = (reap_running_child (re_running r) \<or> deadline) in
               (Some (0, if timed_out \<and> (int (length out) < int max_len - 32 \<or> max_len < 32)
                         then out @ buf_trunc (max_len - length out) shell_timeout_notice else out), True))"

text \<open>What was started: nothing, a child of the sandbox, or a command without isolation.\<close>

datatype started = Nothing_Started | In_Sandbox child | Without_Sandbox string

text \<open>The product of the timeout and 1000 is an \<open>int\<close>, which wraps.\<close>

definition shell_execute ::
  "(string \<Rightarrow> cjson option) \<Rightarrow> os \<Rightarrow> sandbox_env \<Rightarrow> int \<Rightarrow> proc \<Rightarrow> run_env \<Rightarrow> config option \<Rightarrow> string \<Rightarrow> nat
   \<Rightarrow> (int \<times> string) option \<times> started" where
  "shell_execute parse k e abi p r cfg args_json max_len =
     (if max_len = 0 then (Some (-1, []), Nothing_Started)
      else case parse args_json of
        None \<Rightarrow> (Some (tool_error max_len ''invalid JSON''), Nothing_Started)
      | Some root \<Rightarrow>
          if \<not> cJSON_IsObject root then (Some (tool_error max_len ''invalid JSON''), Nothing_Started)
          else case string_of (cJSON_GetObjectItem root ''command'') of
            None \<Rightarrow> (Some (tool_error max_len (''missing or invalid '' @ [squote] @ ''command'' @ [squote])), Nothing_Started)
          | Some command \<Rightarrow>
              if \<not> os_strdup k then (Some (tool_error max_len ''out of memory''), Nothing_Started)
              else
                let timeout_sec = (case cfg of None \<Rightarrow> SHELL_DEFAULT_TIMEOUT_SEC | Some c \<Rightarrow> config_shell_timeout_sec c) in
                case (case cfg of None \<Rightarrow> None | Some c \<Rightarrow> if sandbox_enabled (c_storage c) then Some c else None) of
                  Some c \<Rightarrow>
                    (case allowlist_check_shell_command k
                            (Some \<lparr>ac_workspace_path = workspace_path (c_storage c), ac_workspace_only = workspace_only (c_storage c)\<rparr>)
                            256 (Some command) of
                       Some reason \<Rightarrow>
                         (Some (tool_error max_len (''command blocked: '' @ (if reason \<noteq> [] then reason else ''allowlist''))), Nothing_Started)
                     | None \<Rightarrow>
                         (case sandbox_exec e abi p command max_len (wrap32 (timeout_sec * 1000))
                                (Some \<lparr>sc_workspace_path = workspace_path (c_storage c),
                                  sc_memory_max_bytes = nat (sandbox_memory_max_bytes (c_storage c)),
                                  sc_cpu_max = sandbox_cpu_max (c_storage c), sc_cgroup_base = sandbox_cgroup_base (c_storage c)\<rparr>) of
                            (res, Some child) \<Rightarrow> (res, In_Sandbox child)
                          | (res, None) \<Rightarrow> (res, Nothing_Started)))
                | None \<Rightarrow>
                    if allowlist_check_shell_command k None 256 (Some command) \<noteq> None \<or> fallback_is_blocked command
                    then (Some (tool_error max_len ''command blocked for safety''), Nothing_Started)
                    else (case run_unsandboxed r timeout_sec max_len of
                            (res, True) \<Rightarrow> (res, Without_Sandbox command)
                          | (res, False) \<Rightarrow> (res, Nothing_Started)))"

section \<open>The fallback's loop\<close>

lemma append_output_eq:
  assumes "length buf < max_len - 1"
  shows "append_unsandboxed_output max_len buf chunk = buf @ take (max_len - 1 - length buf) chunk"
  using assms by (auto simp: append_unsandboxed_output_def Let_def)

lemma unsandboxed_loop_drains: "unsandboxed_loop max_len t start evs buf = drain_loop 256 max_len t start evs buf"
proof (induction evs arbitrary: buf)
  case (Cons e evs)
  show ?case
  proof (cases "\<exists>bytes. snd e = Poll_Read bytes \<and> length buf < max_len - 1 \<and> monotonic_elapsed_ms start (fst e) < t \<and> take 256 bytes \<noteq> []")
    case True
    then obtain bytes where b: "snd e = Poll_Read bytes" "length buf < max_len - 1" "monotonic_elapsed_ms start (fst e) < t"
      "take 256 bytes \<noteq> []" by blast
    then show ?thesis using Cons drain_loop_read [OF b] append_output_eq [OF b(2)] by (simp del: drain_loop.simps)
  next
    case False
    then show ?thesis using Cons by (cases "snd e") (auto simp: Let_def)
  qed
qed simp

section \<open>The gate\<close>

lemma shell_execute_started:
  assumes "shell_execute parse k e abi p r cfg args max_len = (res, s)" "s \<noteq> Nothing_Started"
  obtains root command where "parse args = Some root" "string_of (cJSON_GetObjectItem root ''command'') = Some command"
    "(\<exists>c. cfg = Some c \<and> sandbox_enabled (c_storage c) \<and>
        allowlist_check_shell_command k
          (Some \<lparr>ac_workspace_path = workspace_path (c_storage c), ac_workspace_only = workspace_only (c_storage c)\<rparr>) 256 (Some command) = None \<and>
        s = In_Sandbox (sandbox_child abi (workspace_path (c_storage c)) command p)) \<or>
     (\<forall>c. cfg = Some c \<longrightarrow> \<not> sandbox_enabled (c_storage c)) \<and> s = Without_Sandbox command \<and>
       allowlist_check_shell_command k None 256 (Some command) = None \<and> \<not> fallback_is_blocked command"
proof -
  have child: "sandbox_exec e abi p command max_len t (Some sc) = (res', Some ch') \<Longrightarrow> ch' = sandbox_child abi (sc_workspace_path sc) command p"
    for command t sc res' ch'
    by (auto simp: sandbox_exec_def Let_def split: option.splits if_splits prod.splits)
  show ?thesis
    using assms that
    by (auto simp: shell_execute_def Let_def split: option.splits if_splits prod.splits bool.splits dest!: child)
qed

lemma allowed_blocklist_free:
  "allowlist_check_shell_command k cfg cap (Some cmd) = None \<Longrightarrow> pat \<in> set BLOCK_SUBSTRINGS \<Longrightarrow> \<not> sublist pat cmd"
  by (auto elim!: allowed_parts simp: blocklist_hit_None)

lemma fallback_passes: "\<not> fallback_is_blocked cmd \<longleftrightarrow> (\<forall>pat \<in> set FALLBACK_BLOCKLIST. \<not> sublist pat cmd)"
  by (simp add: fallback_is_blocked_def list_ex_iff strstr_None_iff)

text \<open>(C27) The shell tool starts nothing but the command of its arguments, and only after the checks: with the sandbox enabled the allowlist passed it under
  the configured workspace, it contains no blocklisted text, and if it reaches sh, whatever system calls fail, it runs in its own namespaces without the
  secrets of the environment and with its file access bound to the workspace; without the sandbox it contains no text of either blocklist.\<close>

theorem shell_command_gated:
  assumes "shell_execute parse k e abi p r cfg args max_len = (res, s)" "s \<noteq> Nothing_Started"
  shows "\<exists>root command. parse args = Some root \<and> string_of (cJSON_GetObjectItem root ''command'') = Some command \<and>
    (\<forall>pat \<in> set BLOCK_SUBSTRINGS. \<not> sublist pat command) \<and>
    (case s of
       Nothing_Started \<Rightarrow> False
     | In_Sandbox child \<Rightarrow>
         (\<exists>c. cfg = Some c \<and> sandbox_enabled (c_storage c) \<and>
           allowlist_check_shell_command k
             (Some \<lparr>ac_workspace_path = workspace_path (c_storage c), ac_workspace_only = workspace_only (c_storage c)\<rparr>) 256 (Some command) = None \<and>
           (\<forall>p' cmd'. child = Executed p' cmd' \<longrightarrow>
              cmd' = command \<and> isolated_process (workspace_path (c_storage c)) (p_env p) p'))
     | Without_Sandbox cmd' \<Rightarrow>
         cmd' = command \<and> (\<forall>c. cfg = Some c \<longrightarrow> \<not> sandbox_enabled (c_storage c)) \<and>
         (\<forall>pat \<in> set FALLBACK_BLOCKLIST. \<not> sublist pat command))"
proof -
  obtain root command where x: "parse args = Some root" "string_of (cJSON_GetObjectItem root ''command'') = Some command"
    "(\<exists>c. cfg = Some c \<and> sandbox_enabled (c_storage c) \<and>
        allowlist_check_shell_command k
          (Some \<lparr>ac_workspace_path = workspace_path (c_storage c), ac_workspace_only = workspace_only (c_storage c)\<rparr>) 256 (Some command) = None \<and>
        s = In_Sandbox (sandbox_child abi (workspace_path (c_storage c)) command p)) \<or>
     (\<forall>c. cfg = Some c \<longrightarrow> \<not> sandbox_enabled (c_storage c)) \<and> s = Without_Sandbox command \<and>
       allowlist_check_shell_command k None 256 (Some command) = None \<and> \<not> fallback_is_blocked command"
    by (rule shell_execute_started [OF assms])
  have "\<forall>pat \<in> set BLOCK_SUBSTRINGS. \<not> sublist pat command" using x(3) allowed_blocklist_free by blast
  moreover from x(3) have "case s of
       Nothing_Started \<Rightarrow> False
     | In_Sandbox child \<Rightarrow>
         (\<exists>c. cfg = Some c \<and> sandbox_enabled (c_storage c) \<and>
           allowlist_check_shell_command k
             (Some \<lparr>ac_workspace_path = workspace_path (c_storage c), ac_workspace_only = workspace_only (c_storage c)\<rparr>) 256 (Some command) = None \<and>
           (\<forall>p' cmd'. child = Executed p' cmd' \<longrightarrow>
              cmd' = command \<and> isolated_process (workspace_path (c_storage c)) (p_env p) p'))
     | Without_Sandbox cmd' \<Rightarrow>
         cmd' = command \<and> (\<forall>c. cfg = Some c \<longrightarrow> \<not> sandbox_enabled (c_storage c)) \<and>
         (\<forall>pat \<in> set FALLBACK_BLOCKLIST. \<not> sublist pat command)"
    by (elim disjE exE) (auto simp: fallback_passes dest: command_runs_isolated)
  ultimately show ?thesis using x(1,2) by blast
qed

definition demo_shell_cfg :: config where
  "demo_shell_cfg = config_defaults\<lparr>c_storage := (c_storage config_defaults)
     \<lparr>workspace_only := True, workspace_path := Some ''/ws'', sandbox_enabled := True\<rparr>\<rparr>"

definition demo_command :: "string \<Rightarrow> cjson option" where
  "demo_command args = Some (CObject [(''command'', CString ''ls'')])"

definition idle_run :: run_env where
  "idle_run = \<lparr>re_pipe = False, re_fork = False, re_start = (0, 0), re_events = [], re_running = False\<rparr>"

theorem shell_command_gated_witness:
  "\<exists>p'. snd (shell_execute demo_command plain_os demo_sandbox_env 3 (demo_proc (\<lambda>n. n \<noteq> 2)) idle_run (Some demo_shell_cfg) ''{}'' 100) =
     In_Sandbox (Executed p' ''ls'') \<and> isolated_process (Some ''/ws'') (p_env (demo_proc (\<lambda>n. n \<noteq> 2))) p'"
proof -
  obtain p' cmd' where ch: "sandbox_child 3 (Some ''/ws'') ''ls'' (demo_proc (\<lambda>n. n \<noteq> 2)) = Executed p' cmd'"
    using demo_child_runs by blast
  have al: "allowlist_check_shell_command plain_os (Some \<lparr>ac_workspace_path = Some ''/ws'', ac_workspace_only = True\<rparr>) 256 (Some ''ls'') = None"
    by code_simp
  obtain res s where r: "shell_execute demo_command plain_os demo_sandbox_env 3 (demo_proc (\<lambda>n. n \<noteq> 2)) idle_run (Some demo_shell_cfg) ''{}'' 100 = (res, s)"
    by (metis surj_pair)
  have "s = In_Sandbox (Executed p' cmd')"
    using r al ch
    by (auto simp: shell_execute_def demo_command_def demo_shell_cfg_def plain_os_def [THEN arg_cong [of _ _ os_strdup]] sandbox_exec_def
        demo_sandbox_env_def Let_def cJSON_GetObjectItem_def lower_def split: option.splits prod.splits)
  then show ?thesis using shell_command_gated [OF r] r by (simp add: demo_command_def demo_shell_cfg_def)
qed

end
