(* ===== verification/Slot_Table.thy ===== *)
theory Slot_Table
  imports Prelude
begin

text \<open>
  Fixed tables of slots keyed by a C string, as \<open>rate_limit.c\<close> and \<open>auth.c\<close> keep them: a slot
  whose key is the empty string is free, the other keys are meant to be distinct.  The locale
  states what an entry type provides (a key and a fresh entry for a key that fits its buffer)
  and derives the map the table represents; the two tables interpret it.
\<close>

definition slot_view :: "('e \<Rightarrow> string) \<Rightarrow> string \<Rightarrow> 'e list \<Rightarrow> 'e option" where
  "slot_view key k t = find (\<lambda>e. key e = k) t"

definition keys_distinct :: "('e \<Rightarrow> string) \<Rightarrow> 'e list \<Rightarrow> bool" where
  "keys_distinct key t \<longleftrightarrow>
     (\<forall>i < length t. \<forall>j < length t. i \<noteq> j \<longrightarrow> key (t ! i) \<noteq> [] \<longrightarrow> key (t ! i) \<noteq> key (t ! j))"

lemma keys_distinctD:
  assumes "keys_distinct key t" "i < length t" "j < length t" "key (t ! i) = key (t ! j)" "key (t ! i) \<noteq> []"
  shows "i = j"
  using assms unfolding keys_distinct_def by blast

lemma slot_view_None: "slot_view key k t = None \<longleftrightarrow> (\<forall>i < length t. key (t ! i) \<noteq> k)"
  by (auto simp: slot_view_def find_None_iff in_set_conv_nth)

lemma slot_view_Some:
  assumes "slot_view key k t = Some e"
  obtains i where "i < length t" "t ! i = e" "key e = k"
  using assms by (auto simp: slot_view_def find_Some_iff)

locale keyed_slots =
  fixes key :: "'e \<Rightarrow> string" and fresh :: "string \<Rightarrow> 'e" and cap :: nat
  assumes key_fresh: "length k \<le> cap \<Longrightarrow> key (fresh k) = k"
begin

lemma view_at:
  assumes "keys_distinct key t" "i < length t" "key (t ! i) = k" "k \<noteq> []"
  shows "slot_view key k t = Some (t ! i)"
proof (cases "slot_view key k t")
  case None
  then show ?thesis using assms by (auto simp: slot_view_None)
next
  case (Some e)
  then obtain j where j: "j < length t" "t ! j = e" "key e = k" by (rule slot_view_Some)
  then have "j = i" using assms keys_distinctD [OF assms(1), of j i] by auto
  then show ?thesis using Some j by simp
qed

lemma update_distinct:
  assumes "keys_distinct key t" "i < length t"
    and "key (t ! i) = key e \<or> slot_view key (key e) t = None"
  shows "keys_distinct key (t[i := e])"
proof -
  have one: "key (t ! j) \<noteq> key e" if "j < length t" "j \<noteq> i" "key e \<noteq> []" for j
    using assms(3) keys_distinctD [OF assms(1) that(1) assms(2)] that by (auto simp: slot_view_None)
  show ?thesis
    unfolding keys_distinct_def
  proof (intro allI impI)
    fix a b
    assume "a < length (t[i := e])" "b < length (t[i := e])" "a \<noteq> b" "key (t[i := e] ! a) \<noteq> []"
    then show "key (t[i := e] ! a) \<noteq> key (t[i := e] ! b)"
      using one [of a] one [of b] keys_distinctD [OF assms(1), of a b]
      by (cases "a = i"; cases "b = i") (auto simp: nth_list_update)
  qed
qed

lemma free_distinct:
  assumes "keys_distinct key t" "i < length t" "key e = []"
  shows "keys_distinct key (t[i := e])"
  unfolding keys_distinct_def
proof (intro allI impI)
  fix a b
  assume "a < length (t[i := e])" "b < length (t[i := e])" "a \<noteq> b" "key (t[i := e] ! a) \<noteq> []"
  then show "key (t[i := e] ! a) \<noteq> key (t[i := e] ! b)"
    using keys_distinctD [OF assms(1), of a b] assms(2,3)
    by (cases "a = i"; cases "b = i") (auto simp: nth_list_update)
qed

lemma view_free:
  assumes "keys_distinct key t" "i < length t" "key e = []" "k \<noteq> []"
  shows "slot_view key k (t[i := e]) = (if key (t ! i) = k then None else slot_view key k t)"
proof (cases "slot_view key k (t[i := e])")
  case None
  then have n: "\<forall>j < length t. j \<noteq> i \<longrightarrow> key (t ! j) \<noteq> k"
    by (auto simp: slot_view_None nth_list_update split: if_splits)
  then have "key (t ! i) \<noteq> k \<Longrightarrow> slot_view key k t = None" by (auto simp: slot_view_None)
  then show ?thesis using None by auto
next
  case (Some e')
  then obtain j where j: "j < length t" "t[i := e] ! j = e'" "key e' = k"
    by (auto elim: slot_view_Some)
  then have "j \<noteq> i" "t ! j = e'" using assms(2-4) by (auto simp: nth_list_update split: if_splits)
  moreover from this have "key (t ! i) \<noteq> k" using assms(2,4) j keys_distinctD [OF assms(1), of i j] by auto
  ultimately show ?thesis using Some view_at [OF assms(1) j(1)] j assms(4) by simp
qed

lemma view_update_same:
  assumes "keys_distinct key t" "i < length t" "key e \<noteq> []"
    and "key (t ! i) = key e \<or> slot_view key (key e) t = None"
  shows "slot_view key (key e) (t[i := e]) = Some e"
  using view_at [OF update_distinct [OF assms(1,2,4)], of i] assms(2,3) by simp

lemma view_update_other:
  assumes "keys_distinct key t" "i < length t" "k \<noteq> []" "k \<noteq> key e"
    and "key (t ! i) = key e \<or> slot_view key (key e) t = None"
  shows "slot_view key k (t[i := e]) = (if key (t ! i) = k then None else slot_view key k t)"
proof (cases "slot_view key k (t[i := e])")
  case None
  then have n: "\<forall>j < length t. j \<noteq> i \<longrightarrow> key (t ! j) \<noteq> k"
    by (auto simp: slot_view_None nth_list_update split: if_splits)
  then have "key (t ! i) \<noteq> k \<Longrightarrow> slot_view key k t = None" by (auto simp: slot_view_None)
  then show ?thesis using None by auto
next
  case (Some e')
  then obtain j where j: "j < length t" "t[i := e] ! j = e'" "key e' = k"
    by (auto elim: slot_view_Some)
  then have "j \<noteq> i" "t ! j = e'" using assms(2,4) by (auto simp: nth_list_update split: if_splits)
  moreover from this have "key (t ! i) \<noteq> k" using assms(2,3) j keys_distinctD [OF assms(1), of i j] by auto
  ultimately show ?thesis using Some view_at [OF assms(1) j(1)] j assms(3) by simp
qed

lemma replicate_free_distinct: "key e = [] \<Longrightarrow> keys_distinct key (replicate n e)"
  by (simp add: keys_distinct_def)

lemma view_insert:
  assumes "keys_distinct key t" "i < length t" "slot_view key k t = None" "k \<noteq> []" "length k \<le> cap"
  shows "slot_view key k (t[i := fresh k]) = Some (fresh k)" "keys_distinct key (t[i := fresh k])"
  using view_update_same [OF assms(1,2), of "fresh k"] update_distinct [OF assms(1,2), of "fresh k"]
    key_fresh [OF assms(5)] assms(3,4) by simp_all

text \<open>A table with no free slot that lacks a key of \<open>A\<close> has fewer slots than \<open>A\<close> has keys.\<close>

lemma full_table_card:
  assumes "keys_distinct key t" "\<forall>e \<in> set t. key e \<noteq> [] \<and> key e \<in> A" "slot_view key k t = None" "k \<in> A" "finite A"
  shows "length t < card A"
proof -
  have "inj_on (\<lambda>i. key (t ! i)) {..< length t}"
    using keys_distinctD [OF assms(1)] assms(2) by (auto simp: inj_on_def)
  then have "card ((\<lambda>i. key (t ! i)) ` {..< length t}) = length t" by (simp add: card_image)
  moreover have "(\<lambda>i. key (t ! i)) ` {..< length t} \<subseteq> A" using assms(2) by auto
  moreover have "k \<notin> (\<lambda>i. key (t ! i)) ` {..< length t}" using assms(3) by (auto simp: slot_view_None)
  ultimately show ?thesis using psubset_card_mono [OF assms(5)] assms(4) by (metis psubsetI)
qed

end

end
