(* ===== verification/Rate_Limit.thy ===== *)
theory Rate_Limit
  imports Slot_Table "HOL-Library.Word"
begin

unbundle bit_operations_syntax

text \<open>
  The gateway's per-IP limiter for \<open>POST /asap\<close>: \<open>src/gateway/rate_limit.c\<close>.  The static table
  is a list of \<open>RATE_LIMIT_TABLE_SIZE\<close> entries passed through every operation; the mutex makes each
  call atomic, so a sequence of calls is a list of steps.  Times are \<^typ>\<open>int\<close> seconds.
\<close>

section \<open>Definitions\<close>

definition RATE_LIMIT_TABLE_SIZE :: nat where "RATE_LIMIT_TABLE_SIZE = 64"
definition IP_BUF_SIZE :: nat where "IP_BUF_SIZE = 64"
definition ASAP_RATE_LIMIT_RPM :: int where "ASAP_RATE_LIMIT_RPM = 10"
definition ASAP_RATE_WINDOW_SECS :: int where "ASAP_RATE_WINDOW_SECS = 60"

record rate_entry =
  re_ip :: string
  re_window_start :: int
  re_count :: int

type_synonym rate_table = "rate_entry list"

definition ip_hash :: "string \<Rightarrow> 32 word" where
  "ip_hash ip = foldl (\<lambda>h c. (push_bit 5 h + h) XOR word_of_nat (byte_of c)) 5381 ip"

definition rate_entry_reset :: "string \<Rightarrow> int \<Rightarrow> rate_entry" where
  "rate_entry_reset ip now =
     \<lparr>re_ip = take (IP_BUF_SIZE - 1) ip, re_window_start = now, re_count = 0\<rparr>"

definition window_over :: "int \<Rightarrow> rate_entry \<Rightarrow> bool" where
  "window_over now e \<longleftrightarrow> now - re_window_start e \<ge> ASAP_RATE_WINDOW_SECS"

definition find_expired_slot :: "int \<Rightarrow> rate_table \<Rightarrow> nat option" where
  "find_expired_slot now t = find_index (\<lambda>e. re_ip e \<noteq> [] \<and> window_over now e) t"

text \<open>The linear probe: the slot holding \<open>ip\<close>, or the first free slot met on the way.\<close>

fun probe :: "rate_table \<Rightarrow> string \<Rightarrow> nat option \<Rightarrow> nat list \<Rightarrow> nat option \<times> nat option" where
  "probe t ip free_slot [] = (None, free_slot)"
| "probe t ip free_slot (slot # slots) =
     (if re_ip (t ! slot) = [] then
        probe t ip (case free_slot of None \<Rightarrow> Some slot | Some f \<Rightarrow> Some f) slots
      else if re_ip (t ! slot) = ip then (Some slot, free_slot)
      else probe t ip free_slot slots)"

definition probe_order :: "string \<Rightarrow> nat list" where
  "probe_order ip =
     map (\<lambda>i. (unat (ip_hash ip) mod RATE_LIMIT_TABLE_SIZE + i) mod RATE_LIMIT_TABLE_SIZE)
       [0 ..< RATE_LIMIT_TABLE_SIZE]"

definition find_or_create :: "string \<Rightarrow> int \<Rightarrow> rate_table \<Rightarrow> (rate_table \<times> nat) option" where
  "find_or_create ip now t =
     (case probe t ip None (probe_order ip) of
        (Some slot, _) \<Rightarrow> Some (t, slot)
      | (None, Some free_slot) \<Rightarrow> Some (t[free_slot := rate_entry_reset ip now], free_slot)
      | (None, None) \<Rightarrow>
          (case find_expired_slot now t of
             Some expired \<Rightarrow> Some (t[expired := rate_entry_reset ip now], expired)
           | None \<Rightarrow> None))"

definition safe_ip :: "string option \<Rightarrow> string" where
  "safe_ip ip = (case ip of None \<Rightarrow> ''unknown'' | Some s \<Rightarrow> if s \<noteq> [] then s else ''unknown'')"

text \<open>The end of \<open>rate_limit_asap\<close>, on the entry found: roll the window over, test, count.\<close>

definition rate_entry_hit :: "int \<Rightarrow> rate_entry \<Rightarrow> rate_entry \<times> bool" where
  "rate_entry_hit now e0 =
     (let e1 = (if window_over now e0 then e0\<lparr>re_window_start := now, re_count := 0\<rparr> else e0);
          limited = re_count e1 \<ge> ASAP_RATE_LIMIT_RPM in
      (if limited then e1 else e1\<lparr>re_count := re_count e1 + 1\<rparr>, limited))"

text \<open>The verdict is the C return value: \<open>True\<close> when the limit is exceeded.\<close>

definition rate_limit_asap :: "string option \<Rightarrow> int \<Rightarrow> rate_table \<Rightarrow> rate_table \<times> bool" where
  "rate_limit_asap ip now t =
     (case find_or_create (safe_ip ip) now t of
        None \<Rightarrow> (t, True)
      | Some (t1, slot) \<Rightarrow>
          let (e, limited) = rate_entry_hit now (t1 ! slot) in (t1[slot := e], limited))"

definition rate_limit_reset :: rate_table where
  "rate_limit_reset =
     replicate RATE_LIMIT_TABLE_SIZE \<lparr>re_ip = [], re_window_start = 0, re_count = 0\<rparr>"

text \<open>A sequence of requests, each with its address and its time; the verdicts in order.\<close>

fun rate_limit_run :: "(string option \<times> int) list \<Rightarrow> rate_table \<Rightarrow> rate_table \<times> bool list" where
  "rate_limit_run [] t = (t, [])"
| "rate_limit_run ((ip, now) # rs) t =
     (let (t1, limited) = rate_limit_asap ip now t; (t2, vs) = rate_limit_run rs t1 in (t2, limited # vs))"

definition accepted_of :: "string \<Rightarrow> (string option \<times> int) list \<Rightarrow> bool list \<Rightarrow> nat" where
  "accepted_of ip rs vs = length (filter (\<lambda>(r, limited). safe_ip (fst r) = ip \<and> \<not> limited) (zip rs vs))"

definition rl_wf :: "rate_table \<Rightarrow> bool" where
  "rl_wf t \<longleftrightarrow> length t = RATE_LIMIT_TABLE_SIZE \<and> keys_distinct re_ip t \<and>
     (\<forall>e \<in> set t. 0 \<le> re_count e \<and> re_count e \<le> ASAP_RATE_LIMIT_RPM)"

definition ip_fits :: "string option \<Rightarrow> bool" where
  "ip_fits ip \<longleftrightarrow> length (safe_ip ip) < IP_BUF_SIZE"

section \<open>The table as a map\<close>

interpretation rl: keyed_slots re_ip "\<lambda>ip. rate_entry_reset ip now" "IP_BUF_SIZE - 1"
  by unfold_locales (simp add: rate_entry_reset_def)

lemma safe_ip_nonempty [simp]: "safe_ip ip \<noteq> []"
  by (auto simp: safe_ip_def split: option.splits)

lemma probe_sound:
  "probe t ip fs slots = (Some s, x) \<Longrightarrow> ip \<noteq> [] \<Longrightarrow> s \<in> set slots \<and> re_ip (t ! s) = ip"
  by (induction slots arbitrary: fs) (auto split: if_splits option.splits)

lemma probe_complete:
  "probe t ip fs slots = (None, x) \<Longrightarrow> ip \<noteq> [] \<Longrightarrow>
   (\<forall>s \<in> set slots. re_ip (t ! s) \<noteq> ip) \<and>
   (case x of None \<Rightarrow> fs = None \<and> (\<forall>s \<in> set slots. re_ip (t ! s) \<noteq> [])
    | Some f \<Rightarrow> fs = Some f \<or> (f \<in> set slots \<and> re_ip (t ! f) = []))"
proof (induction slots arbitrary: fs)
  case (Cons s slots)
  show ?case
  proof (cases "re_ip (t ! s) = []")
    case True
    then have "probe t ip (case fs of None \<Rightarrow> Some s | Some f \<Rightarrow> Some f) slots = (None, x)"
      using Cons.prems(1) by simp
    from Cons.IH [OF this Cons.prems(2)] show ?thesis
      using True Cons.prems(2) by (cases fs; cases x) auto
  next
    case False
    then show ?thesis using Cons.prems Cons.IH [of fs] by (auto split: if_splits option.splits)
  qed
qed (auto split: option.splits)

lemma mod_shift_surj:
  assumes "(s::nat) < n" "a < n" shows "\<exists>i < n. (a + i) mod n = s"
proof (cases "a \<le> s")
  case True
  then show ?thesis using assms by (intro exI [of _ "s - a"]) auto
next
  case False
  then have "(a + (n - a + s)) mod n = s" using assms by simp
  moreover have "n - a + s < n" using False assms by linarith
  ultimately show ?thesis by blast
qed

lemma set_probe_order: "set (probe_order ip) = {..< RATE_LIMIT_TABLE_SIZE}"
proof -
  have pos: "0 < RATE_LIMIT_TABLE_SIZE" by (simp add: RATE_LIMIT_TABLE_SIZE_def)
  then show ?thesis
    using mod_shift_surj [of _ RATE_LIMIT_TABLE_SIZE "unat (ip_hash ip) mod RATE_LIMIT_TABLE_SIZE"]
    by (auto simp: probe_order_def image_iff) (metis atLeastLessThan_iff mod_less_divisor zero_le)
qed

text \<open>
  What \<open>find_or_create\<close> does to the map: it finds the entry of the address, or makes a fresh
  one in a slot that was free or whose window was over, or fails with the table untouched.
\<close>

lemma find_or_create_cases:
  assumes wf: "rl_wf t" and ne: "ip \<noteq> []" and fits: "length ip < IP_BUF_SIZE"
  obtains (found) s where "find_or_create ip now t = Some (t, s)" "s < length t" "re_ip (t ! s) = ip"
      "slot_view re_ip ip t = Some (t ! s)"
  | (created) s where "find_or_create ip now t = Some (t[s := rate_entry_reset ip now], s)"
      "s < length t" "slot_view re_ip ip t = None" "re_ip (t ! s) = [] \<or> window_over now (t ! s)"
  | (full) "find_or_create ip now t = None" "slot_view re_ip ip t = None"
proof -
  have len: "length t = RATE_LIMIT_TABLE_SIZE" and dis: "keys_distinct re_ip t"
    using wf by (auto simp: rl_wf_def)
  obtain m f where p: "probe t ip None (probe_order ip) = (m, f)" by force
  show thesis
  proof (cases m)
    case (Some s)
    then have s: "s < length t" "re_ip (t ! s) = ip"
      using probe_sound [of t ip None "probe_order ip" s f] ne p set_probe_order [of ip] len by auto
    show thesis using found [of s] p Some s rl.view_at [OF dis s ne] by (simp add: find_or_create_def)
  next
    case None
    have c: "\<forall>s < length t. re_ip (t ! s) \<noteq> ip"
      "case f of None \<Rightarrow> \<forall>s < length t. re_ip (t ! s) \<noteq> [] | Some f \<Rightarrow> f < length t \<and> re_ip (t ! f) = []"
      using probe_complete [of t ip None "probe_order ip" f] p None ne set_probe_order [of ip] len
      by (auto split: option.splits)
    then have v: "slot_view re_ip ip t = None" by (simp add: slot_view_None)
    show thesis
    proof (cases f)
      case (Some s)
      then show thesis using created [of s] p None c v by (simp add: find_or_create_def)
    next
      case fNone: None
      show thesis
      proof (cases "find_expired_slot now t")
        case None
        then show thesis using full p \<open>m = None\<close> fNone v by (simp add: find_or_create_def)
      next
        case (Some s)
        then have "s < length t" "window_over now (t ! s)"
          using find_index_Some [of _ t s] by (auto simp: find_expired_slot_def)
        then show thesis using created [of s] p \<open>m = None\<close> fNone Some v by (simp add: find_or_create_def)
      qed
    qed
  qed
qed

lemma hit_key [simp]: "re_ip (fst (rate_entry_hit now e)) = re_ip e"
  by (simp add: rate_entry_hit_def Let_def)

lemma hit_bounds:
  "0 \<le> re_count e \<Longrightarrow> re_count e \<le> ASAP_RATE_LIMIT_RPM \<Longrightarrow>
   0 \<le> re_count (fst (rate_entry_hit now e)) \<and> re_count (fst (rate_entry_hit now e)) \<le> ASAP_RATE_LIMIT_RPM"
  by (auto simp: rate_entry_hit_def Let_def ASAP_RATE_LIMIT_RPM_def)

lemma reset_simps [simp]:
  "length ip < IP_BUF_SIZE \<Longrightarrow> re_ip (rate_entry_reset ip now) = ip"
  "re_window_start (rate_entry_reset ip now) = now" "re_count (rate_entry_reset ip now) = 0"
  by (simp_all add: rate_entry_reset_def)

lemma rl_wf_update:
  assumes "rl_wf t" "i < length t" "re_ip (t ! i) = re_ip e \<or> slot_view re_ip (re_ip e) t = None"
    and "0 \<le> re_count e" "re_count e \<le> ASAP_RATE_LIMIT_RPM"
  shows "rl_wf (t[i := e])"
  using assms rl.update_distinct [of t i e] set_update_subset_insert [of t i e] by (auto simp: rl_wf_def)

lemma rl_wf_nth: "rl_wf t \<Longrightarrow> i < length t \<Longrightarrow> 0 \<le> re_count (t ! i) \<and> re_count (t ! i) \<le> ASAP_RATE_LIMIT_RPM"
  by (auto simp: rl_wf_def)

text \<open>One call as a transition of the map, for the caller's address and for the others.\<close>

definition hit_entry :: "string option \<Rightarrow> int \<Rightarrow> rate_table \<Rightarrow> rate_entry" where
  "hit_entry ip now t =
     (case slot_view re_ip (safe_ip ip) t of Some e \<Rightarrow> e | None \<Rightarrow> rate_entry_reset (safe_ip ip) now)"

definition has_room :: "int \<Rightarrow> rate_table \<Rightarrow> bool" where
  "has_room now t \<longleftrightarrow> (\<exists>e \<in> set t. re_ip e = [] \<or> window_over now e)"

lemma find_or_create_full:
  assumes "find_or_create ip now t = None" "rl_wf t" "ip \<noteq> []"
  shows "\<not> has_room now t"
proof -
  have p: "probe t ip None (probe_order ip) = (None, None)" "find_expired_slot now t = None"
    using assms(1) by (auto simp: find_or_create_def split: prod.splits option.splits)
  have "\<forall>s < length t. re_ip (t ! s) \<noteq> []"
    using probe_complete [OF p(1) assms(3)] assms(2) by (simp add: set_probe_order rl_wf_def)
  then show ?thesis
    using p(2) unfolding find_expired_slot_def find_index_None_iff has_room_def
    by (metis in_set_conv_nth)
qed

lemma rate_limit_asap_cases:
  assumes wf: "rl_wf t" and fits: "ip_fits ip"
  obtains (hit) s t1 where "s < length t" "rl_wf t1" "length t1 = length t"
      "t1 ! s = hit_entry ip now t" "re_ip (t1 ! s) = safe_ip ip"
      "rate_limit_asap ip now t =
         (t1[s := fst (rate_entry_hit now (hit_entry ip now t))], snd (rate_entry_hit now (hit_entry ip now t)))"
      "t1 = t \<or> (t1 = t[s := rate_entry_reset (safe_ip ip) now] \<and>
         slot_view re_ip (safe_ip ip) t = None \<and> (re_ip (t ! s) = [] \<or> window_over now (t ! s)))"
  | (full) "rate_limit_asap ip now t = (t, True)" "slot_view re_ip (safe_ip ip) t = None" "\<not> has_room now t"
proof -
  have l: "length (safe_ip ip) < IP_BUF_SIZE" using fits by (simp add: ip_fits_def)
  show thesis
  proof (cases rule: find_or_create_cases [OF wf safe_ip_nonempty [of ip] l, of now])
    case (1 s)
    then show thesis
      using hit [of s t] wf by (simp add: rate_limit_asap_def hit_entry_def split: prod.splits)
  next
    case (2 s)
    let ?t1 = "t[s := rate_entry_reset (safe_ip ip) now]"
    have "rl_wf ?t1"
      by (rule rl_wf_update) (use 2 wf l in \<open>auto simp: ASAP_RATE_LIMIT_RPM_def\<close>)
    then show thesis
      using hit [of s ?t1] 2 l by (simp add: rate_limit_asap_def hit_entry_def split: prod.splits)
  next
    case 3
    then show thesis
      using full find_or_create_full [OF _ wf] by (simp add: rate_limit_asap_def)
  qed
qed

lemma rate_limit_asap_wf:
  assumes "rl_wf t" "ip_fits ip"
  shows "rl_wf (fst (rate_limit_asap ip now t))"
  using assms
proof (cases rule: rate_limit_asap_cases [of t ip now])
  case (hit s t1)
  then have "rl_wf (t1[s := fst (rate_entry_hit now (t1 ! s))])"
    by (intro rl_wf_update) (use hit rl_wf_nth [of t1 s] hit_bounds [of "t1 ! s" now] in auto)
  then show ?thesis using hit by simp
qed (use assms in simp_all)

lemma rate_limit_asap_own:
  assumes "rl_wf t" "ip_fits ip"
  shows "rate_limit_asap ip now t = (t, True) \<and> slot_view re_ip (safe_ip ip) t = None \<and> \<not> has_room now t \<or>
    (slot_view re_ip (safe_ip ip) (fst (rate_limit_asap ip now t)) = Some (fst (rate_entry_hit now (hit_entry ip now t)))
     \<and> snd (rate_limit_asap ip now t) = snd (rate_entry_hit now (hit_entry ip now t)))"
  using assms
proof (cases rule: rate_limit_asap_cases [of t ip now])
  case (hit s t1)
  let ?e = "fst (rate_entry_hit now (t1 ! s))"
  have "slot_view re_ip (re_ip ?e) (t1[s := ?e]) = Some ?e"
    by (rule rl.view_update_same) (use hit in \<open>auto simp: rl_wf_def\<close>)
  then show ?thesis using hit by simp
qed (use assms in simp_all)

lemma rate_limit_asap_other:
  assumes "rl_wf t" "ip_fits ip" "k \<noteq> []" "k \<noteq> safe_ip ip"
  shows "slot_view re_ip k (fst (rate_limit_asap ip now t)) = slot_view re_ip k t \<or>
    slot_view re_ip k (fst (rate_limit_asap ip now t)) = None \<and>
    (\<exists>e. slot_view re_ip k t = Some e \<and> window_over now e)"
  using assms(1,2)
proof (cases rule: rate_limit_asap_cases [of t ip now])
  case (hit s t1)
  let ?e = "fst (rate_entry_hit now (t1 ! s))"
  have d: "keys_distinct re_ip t" "keys_distinct re_ip t1" using hit assms by (auto simp: rl_wf_def)
  have "slot_view re_ip k (t1[s := ?e]) = (if re_ip (t1 ! s) = k then None else slot_view re_ip k t1)"
    by (rule rl.view_update_other) (use hit d assms in auto)
  then have v: "slot_view re_ip k (fst (rate_limit_asap ip now t)) = slot_view re_ip k t1"
    using hit assms(4) by auto
  show ?thesis
    using hit(7)
  proof
    assume "t1 = t" then show ?thesis using v by simp
  next
    let ?r = "rate_entry_reset (safe_ip ip) now"
    assume "t1 = t[s := ?r] \<and> slot_view re_ip (safe_ip ip) t = None \<and>
      (re_ip (t ! s) = [] \<or> window_over now (t ! s))"
    then have t1: "t1 = t[s := ?r]" and n: "slot_view re_ip (safe_ip ip) t = None"
      and w: "re_ip (t ! s) = [] \<or> window_over now (t ! s)" by blast+
    have r: "re_ip ?r = safe_ip ip" using assms(2) by (simp add: ip_fits_def)
    have "slot_view re_ip k t1 = (if re_ip (t ! s) = k then None else slot_view re_ip k t)"
      unfolding t1 by (rule rl.view_update_other) (use hit d assms n r in auto)
    then show ?thesis using v w rl.view_at [OF d(1) hit(1)] assms(3) by auto
  qed
qed (use assms in simp_all)

section \<open>The limit\<close>

text \<open>
  How many more requests of an address can be accepted while all times stay in the window
  that starts at \<open>t0\<close>: an entry whose own window began earlier can roll over once.
\<close>

definition allowance :: "int \<Rightarrow> rate_entry option \<Rightarrow> int" where
  "allowance t0 v = (case v of None \<Rightarrow> ASAP_RATE_LIMIT_RPM
     | Some e \<Rightarrow> ASAP_RATE_LIMIT_RPM - re_count e +
         (if re_window_start e < t0 then ASAP_RATE_LIMIT_RPM else 0))"

definition in_window :: "int \<Rightarrow> int \<Rightarrow> bool" where
  "in_window t0 now \<longleftrightarrow> t0 \<le> now \<and> now < t0 + ASAP_RATE_WINDOW_SECS"

lemma slot_view_bounds:
  "rl_wf t \<Longrightarrow> slot_view re_ip k t = Some e \<Longrightarrow> 0 \<le> re_count e \<and> re_count e \<le> ASAP_RATE_LIMIT_RPM"
  by (auto elim!: slot_view_Some dest: rl_wf_nth)

lemma allowance_bounds:
  "rl_wf t \<Longrightarrow> 0 \<le> allowance t0 (slot_view re_ip k t) \<and> allowance t0 (slot_view re_ip k t) \<le> 2 * ASAP_RATE_LIMIT_RPM"
  using slot_view_bounds [of t k]
  by (auto simp: allowance_def ASAP_RATE_LIMIT_RPM_def split: option.splits)

lemma allowance_hit:
  assumes "0 \<le> re_count e" "re_count e \<le> ASAP_RATE_LIMIT_RPM" "in_window t0 now"
  shows "allowance t0 (Some (fst (rate_entry_hit now e))) + (if snd (rate_entry_hit now e) then 0 else 1)
    \<le> allowance t0 (Some e)"
  using assms
  by (auto simp: allowance_def rate_entry_hit_def Let_def window_over_def in_window_def
    ASAP_RATE_LIMIT_RPM_def ASAP_RATE_WINDOW_SECS_def)

lemma allowance_own:
  assumes "rl_wf t" "ip_fits ip" "in_window t0 now"
  shows "allowance t0 (slot_view re_ip (safe_ip ip) (fst (rate_limit_asap ip now t)))
      + (if snd (rate_limit_asap ip now t) then 0 else 1) \<le> allowance t0 (slot_view re_ip (safe_ip ip) t)"
proof -
  have b: "0 \<le> re_count (hit_entry ip now t) \<and> re_count (hit_entry ip now t) \<le> ASAP_RATE_LIMIT_RPM"
    using slot_view_bounds [OF assms(1), of "safe_ip ip"] assms(2)
    by (auto simp: hit_entry_def ASAP_RATE_LIMIT_RPM_def ip_fits_def split: option.splits)
  have "allowance t0 (Some (hit_entry ip now t)) = allowance t0 (slot_view re_ip (safe_ip ip) t)"
    using assms(3) by (auto simp: allowance_def hit_entry_def in_window_def split: option.splits)
  then show ?thesis
    using rate_limit_asap_own [OF assms(1,2), of now] allowance_hit [of "hit_entry ip now t" t0 now] b assms(3)
    by auto
qed

lemma allowance_other:
  assumes "rl_wf t" "ip_fits ip" "in_window t0 now" "k \<noteq> []" "k \<noteq> safe_ip ip"
  shows "allowance t0 (slot_view re_ip k (fst (rate_limit_asap ip now t))) \<le> allowance t0 (slot_view re_ip k t)"
  using rate_limit_asap_other [OF assms(1,2,4,5), of now] slot_view_bounds [OF assms(1), of k] assms(3)
  by (auto simp: allowance_def in_window_def window_over_def ASAP_RATE_WINDOW_SECS_def ASAP_RATE_LIMIT_RPM_def)

lemma accepted_Cons:
  "accepted_of k ((ip, now) # rs) (l # vs) = (if safe_ip ip = k \<and> \<not> l then 1 else 0) + accepted_of k rs vs"
  by (simp add: accepted_of_def)

lemma run_Cons:
  "rate_limit_run ((ip, now) # rs) t =
    (fst (rate_limit_run rs (fst (rate_limit_asap ip now t))),
     snd (rate_limit_asap ip now t) # snd (rate_limit_run rs (fst (rate_limit_asap ip now t))))"
  by (simp add: split_def Let_def)

definition requests_ok :: "int \<Rightarrow> (string option \<times> int) list \<Rightarrow> bool" where
  "requests_ok t0 rs = list_all (\<lambda>(ip, now). ip_fits ip \<and> in_window t0 now) rs"

lemma accepted_le_allowance:
  "rl_wf t \<Longrightarrow> requests_ok t0 rs \<Longrightarrow> k \<noteq> [] \<Longrightarrow>
   int (accepted_of k rs (snd (rate_limit_run rs t))) \<le> allowance t0 (slot_view re_ip k t)"
proof (induction rs arbitrary: t)
  case Nil
  then show ?case using allowance_bounds [of t t0 k] by (simp add: accepted_of_def)
next
  case (Cons r rs)
  obtain ip now where r: "r = (ip, now)" by force
  let ?t = "fst (rate_limit_asap ip now t)"
  have ok: "ip_fits ip" "in_window t0 now" "requests_ok t0 rs"
    using Cons.prems r by (auto simp: requests_ok_def)
  have "int (accepted_of k rs (snd (rate_limit_run rs ?t))) \<le> allowance t0 (slot_view re_ip k ?t)"
    using Cons.IH [OF rate_limit_asap_wf [OF Cons.prems(1) ok(1)] ok(3) Cons.prems(3)] .
  then show ?case
    using allowance_own [OF Cons.prems(1) ok(1,2)] allowance_other [OF Cons.prems(1) ok(1,2) Cons.prems(3)]
    unfolding r run_Cons snd_conv accepted_Cons by (cases "k = safe_ip ip") force+
qed

lemma run_wf: "rl_wf t \<Longrightarrow> list_all (\<lambda>r. ip_fits (fst r)) rs \<Longrightarrow> rl_wf (fst (rate_limit_run rs t))"
proof (induction rs arbitrary: t)
  case (Cons r rs)
  obtain ip now where r: "r = (ip, now)" by force
  show ?case
    using Cons.IH [OF rate_limit_asap_wf] Cons.prems unfolding r run_Cons by simp
qed simp

lemma reset_wf: "rl_wf rate_limit_reset"
  by (simp add: rl_wf_def rate_limit_reset_def rl.replicate_free_distinct ASAP_RATE_LIMIT_RPM_def)

lemma reset_view: "k \<noteq> [] \<Longrightarrow> slot_view re_ip k rate_limit_reset = None"
  by (simp add: slot_view_None rate_limit_reset_def)

section \<open>No request is refused below the limit\<close>

definition requests_of :: "string \<Rightarrow> (string option \<times> int) list \<Rightarrow> nat" where
  "requests_of ip rs = length (filter (\<lambda>r. safe_ip (fst r) = ip) rs)"

definition addresses :: "(string option \<times> int) list \<Rightarrow> string set" where
  "addresses rs = safe_ip ` fst ` set rs"

text \<open>Every occupied slot belongs to one of the addresses \<open>A\<close> and its window began at \<open>t0\<close> or later.\<close>

definition held_by :: "string set \<Rightarrow> int \<Rightarrow> rate_table \<Rightarrow> bool" where
  "held_by A t0 t \<longleftrightarrow> (\<forall>e \<in> set t. re_ip e \<noteq> [] \<longrightarrow> re_ip e \<in> A \<and> t0 \<le> re_window_start e)"

lemma full_table_addresses:
  assumes "rl_wf t" "held_by A t0 t" "\<not> has_room now t" "slot_view re_ip k t = None" "k \<in> A" "finite A"
  shows "RATE_LIMIT_TABLE_SIZE < card A"
proof -
  have "\<forall>e \<in> set t. re_ip e \<noteq> [] \<and> re_ip e \<in> A" using assms(2,3) by (auto simp: has_room_def held_by_def)
  then show ?thesis using rl.full_table_card [OF _ _ assms(4-6)] assms(1) by (simp add: rl_wf_def)
qed

lemma held_by_step:
  assumes "rl_wf t" "ip_fits ip" "held_by A t0 t" "safe_ip ip \<in> A" "t0 \<le> now"
  shows "held_by A t0 (fst (rate_limit_asap ip now t))"
  using assms(1,2)
proof (cases rule: rate_limit_asap_cases [of t ip now])
  case (hit s t1)
  let ?r = "rate_entry_reset (safe_ip ip) now"
  have "set t1 \<subseteq> insert ?r (set t)" using hit(7) set_update_subset_insert [of t s ?r] by blast
  moreover have "re_ip ?r = safe_ip ip" using assms(2) by (simp add: ip_fits_def)
  ultimately have h1: "held_by A t0 t1" using assms(3,4,5) by (auto simp: held_by_def)
  let ?e = "fst (rate_entry_hit now (t1 ! s))"
  have "t1 ! s \<in> set t1" using hit(1,3) by simp
  then have "t0 \<le> re_window_start (t1 ! s)" using h1 hit by (auto simp: held_by_def)
  then have "t0 \<le> re_window_start ?e" using assms(5) by (simp add: rate_entry_hit_def Let_def)
  then have "held_by A t0 (t1[s := ?e])"
    using h1 hit assms(4) set_update_subset_insert [of t1 s ?e] by (fastforce simp: held_by_def)
  then show ?thesis using hit by simp
qed (use assms in simp_all)

lemma held_by_other:
  assumes "rl_wf t" "ip_fits ip" "held_by A t0 t" "in_window t0 now" "k \<noteq> []" "k \<noteq> safe_ip ip"
  shows "slot_view re_ip k (fst (rate_limit_asap ip now t)) = slot_view re_ip k t"
proof -
  have "\<not> window_over now e" if "slot_view re_ip k t = Some e" for e
    using that assms(3,4,5)
    by (auto elim!: slot_view_Some simp: held_by_def in_window_def window_over_def)
  then show ?thesis using rate_limit_asap_other [OF assms(1,2,5,6), of now] by blast
qed

lemma held_by_own:
  assumes "rl_wf t" "ip_fits ip" "held_by A t0 t" "in_window t0 now"
    and "safe_ip ip \<in> A" "finite A" "card A \<le> RATE_LIMIT_TABLE_SIZE"
  shows "snd (rate_limit_asap ip now t) = (allowance t0 (slot_view re_ip (safe_ip ip) t) = 0)"
    and "allowance t0 (slot_view re_ip (safe_ip ip) (fst (rate_limit_asap ip now t))) =
      max 0 (allowance t0 (slot_view re_ip (safe_ip ip) t) - 1)"
proof -
  let ?e = "hit_entry ip now t"
  have room: "slot_view re_ip (safe_ip ip) t = None \<Longrightarrow> has_room now t"
    using full_table_addresses [OF assms(1,3) _ _ assms(5,6), of now] assms(7) by linarith
  have own: "slot_view re_ip (safe_ip ip) (fst (rate_limit_asap ip now t)) = Some (fst (rate_entry_hit now ?e))"
    "snd (rate_limit_asap ip now t) = snd (rate_entry_hit now ?e)"
    using rate_limit_asap_own [OF assms(1,2), of now] room by auto
  have b: "0 \<le> re_count ?e" "re_count ?e \<le> ASAP_RATE_LIMIT_RPM" "t0 \<le> re_window_start ?e"
    using slot_view_bounds [OF assms(1), of "safe_ip ip"] assms(3,4)
    by (auto simp: hit_entry_def held_by_def in_window_def ASAP_RATE_LIMIT_RPM_def
      elim!: slot_view_Some split: option.splits)
  have a: "allowance t0 (slot_view re_ip (safe_ip ip) t) = ASAP_RATE_LIMIT_RPM - re_count ?e"
    using b by (auto simp: allowance_def hit_entry_def split: option.splits)
  have h: "rate_entry_hit now ?e =
      (if re_count ?e \<ge> ASAP_RATE_LIMIT_RPM then (?e, True) else (?e\<lparr>re_count := re_count ?e + 1\<rparr>, False))"
    using b assms(4) by (auto simp: rate_entry_hit_def Let_def window_over_def in_window_def)
  show "snd (rate_limit_asap ip now t) = (allowance t0 (slot_view re_ip (safe_ip ip) t) = 0)"
    unfolding own a h using b by auto
  show "allowance t0 (slot_view re_ip (safe_ip ip) (fst (rate_limit_asap ip now t))) =
      max 0 (allowance t0 (slot_view re_ip (safe_ip ip) t) - 1)"
    unfolding own a h using b by (auto simp: allowance_def)
qed

lemma accepted_exact:
  "rl_wf t \<Longrightarrow> requests_ok t0 rs \<Longrightarrow> k \<noteq> [] \<Longrightarrow> held_by A t0 t \<Longrightarrow> addresses rs \<subseteq> A \<Longrightarrow> finite A \<Longrightarrow>
   card A \<le> RATE_LIMIT_TABLE_SIZE \<Longrightarrow>
   int (accepted_of k rs (snd (rate_limit_run rs t))) = min (allowance t0 (slot_view re_ip k t)) (int (requests_of k rs))"
proof (induction rs arbitrary: t)
  case Nil
  then show ?case using allowance_bounds [of t t0 k] by (simp add: accepted_of_def requests_of_def)
next
  case (Cons r rs)
  obtain ip now where r: "r = (ip, now)" by force
  let ?t = "fst (rate_limit_asap ip now t)"
  have ok: "ip_fits ip" "in_window t0 now" "requests_ok t0 rs" "safe_ip ip \<in> A" "addresses rs \<subseteq> A" "t0 \<le> now"
    using Cons.prems r by (auto simp: requests_ok_def addresses_def in_window_def)
  note own = held_by_own [OF Cons.prems(1) ok(1) Cons.prems(4) ok(2,4) Cons.prems(6,7)]
  note other = held_by_other [OF Cons.prems(1) ok(1) Cons.prems(4) ok(2) Cons.prems(3)]
  have "int (accepted_of k rs (snd (rate_limit_run rs ?t))) =
      min (allowance t0 (slot_view re_ip k ?t)) (int (requests_of k rs))"
    by (rule Cons.IH [OF rate_limit_asap_wf [OF Cons.prems(1) ok(1)] ok(3) Cons.prems(3)
      held_by_step [OF Cons.prems(1) ok(1) Cons.prems(4) ok(4,6)] ok(5) Cons.prems(6,7)])
  moreover have "requests_of k (r # rs) = (if k = safe_ip ip then 1 else 0) + requests_of k rs"
    by (auto simp: requests_of_def r)
  ultimately show ?case
    using own other allowance_bounds [OF Cons.prems(1), of t0 k]
    unfolding r run_Cons snd_conv accepted_Cons by (cases "k = safe_ip ip") auto
qed

text \<open>(C3) However the limiter was used before (addresses that fit their 64-byte slot, any
  times), an address gets at most 20 requests accepted among requests that all fall into one
  60-second span, and at most 10 if the table holds no entry for it at the start of the span.\<close>

theorem rate_limit_ceiling:
  assumes "list_all (\<lambda>r. ip_fits (fst r)) hs" and "requests_ok t0 rs"
    and "t = fst (rate_limit_run hs rate_limit_reset)"
  shows "accepted_of ip rs (snd (rate_limit_run rs t)) \<le> 20 \<and>
    (slot_view re_ip ip t = None \<longrightarrow> accepted_of ip rs (snd (rate_limit_run rs t)) \<le> 10)"
proof (cases "ip = []")
  case True
  then show ?thesis by (simp add: accepted_of_def)
next
  case False
  have wf: "rl_wf t" using run_wf [OF reset_wf assms(1)] assms(3) by simp
  show ?thesis
    using accepted_le_allowance [OF wf assms(2) False] allowance_bounds [OF wf, of t0 ip]
    by (auto simp: ASAP_RATE_LIMIT_RPM_def allowance_def)
qed

theorem rate_limit_ceiling_witness:
  "accepted_of ''10.0.0.1'' [(Some ''10.0.0.1'', 90), (None, 91), (Some ''10.0.0.1'', 149)]
     (snd (rate_limit_run [(Some ''10.0.0.1'', 90), (None, 91), (Some ''10.0.0.1'', 149)]
       (fst (rate_limit_run [(Some ''10.0.0.1'', 50)] rate_limit_reset)))) \<le> 20"
proof -
  have h: "list_all (\<lambda>r. ip_fits (fst r)) [(Some ''10.0.0.1'', 50::int)]"
    and r: "requests_ok 90 [(Some ''10.0.0.1'', 90), (None, 91), (Some ''10.0.0.1'', 149)]"
    by code_simp+
  show ?thesis using rate_limit_ceiling [OF h r refl, of "''10.0.0.1''"] by simp
qed

text \<open>After a reset, and as long as at most 64 addresses call within one 60-second span, the
  limiter accepts exactly the first ten requests of every address: as many as it made, and no
  more than 10.\<close>

theorem rate_limit_exact:
  assumes "requests_ok t0 rs" and "card (addresses rs) \<le> RATE_LIMIT_TABLE_SIZE"
  shows "accepted_of ip rs (snd (rate_limit_run rs rate_limit_reset)) = min 10 (requests_of ip rs)"
proof (cases "ip = []")
  case True
  then show ?thesis by (simp add: accepted_of_def requests_of_def)
next
  case False
  have "held_by (addresses rs) t0 rate_limit_reset" by (simp add: held_by_def rate_limit_reset_def)
  then have "int (accepted_of ip rs (snd (rate_limit_run rs rate_limit_reset))) =
      min (allowance t0 (slot_view re_ip ip rate_limit_reset)) (int (requests_of ip rs))"
    using accepted_exact [OF reset_wf assms(1) False _ order_refl _ assms(2)] by (simp add: addresses_def)
  then show ?thesis using False by (simp add: reset_view allowance_def ASAP_RATE_LIMIT_RPM_def)
qed

theorem rate_limit_exact_witness:
  "accepted_of ''unknown'' ((Some ''10.0.0.1'', 7) # replicate 12 (None, 5))
     (snd (rate_limit_run ((Some ''10.0.0.1'', 7) # replicate 12 (None, 5)) rate_limit_reset)) = 10"
proof -
  have r: "requests_ok 0 ((Some ''10.0.0.1'', 7) # replicate 12 (None, 5))" by code_simp
  have "addresses ((Some ''10.0.0.1'', 7) # replicate 12 (None, 5)) = {''10.0.0.1'', ''unknown''}"
    by (auto simp: addresses_def safe_ip_def)
  then have c: "card (addresses ((Some ''10.0.0.1'', 7) # replicate 12 (None, 5))) \<le> RATE_LIMIT_TABLE_SIZE"
    by (simp add: RATE_LIMIT_TABLE_SIZE_def)
  show ?thesis
    using rate_limit_exact [OF r c, of "''unknown''"] by (simp add: requests_of_def safe_ip_def)
qed

end
