(* ===== verification/Auth.thy ===== *)
theory Auth
  imports Slot_Table Cjson Atomic_Write
begin

unbundle bit_operations_syntax

text \<open>
  Pairing, bearer tokens and the \<open>/pair\<close> lockout: \<open>src/gateway/auth.c\<close>, with the lockout part of
  \<open>dispatch_route\<close> in \<open>src/gateway/routes.c\<close>.  The file system is a map from paths to contents;
  the outcomes of the system calls of the atomic write are a record; the random bytes
  \<open>crypto_read_urandom\<close> yields (or its failure) and the JSON parser and printer are arguments.
\<close>

section \<open>Definitions\<close>

definition PAIRING_CODE_LEN :: nat where "PAIRING_CODE_LEN = 6"
definition TOKEN_LEN :: nat where "TOKEN_LEN = 32"
definition LOCKOUT_TABLE_SIZE :: nat where "LOCKOUT_TABLE_SIZE = 32"
definition LOCKOUT_IP_SIZE :: nat where "LOCKOUT_IP_SIZE = 48"
definition PAIR_LOCKOUT_MAX_FAILS :: int where "PAIR_LOCKOUT_MAX_FAILS = 5"
definition PAIR_LOCKOUT_WINDOW_SECS :: int where "PAIR_LOCKOUT_WINDOW_SECS = 300"

record pair_lockout_entry =
  le_ip :: string
  fail_count :: int
  locked_until :: int

record auth_ctx =
  tokens_path :: string
  pending_pairing_code :: "string option"
  lockout :: "pair_lockout_entry list"

definition is_file_empty_or_missing :: "fsys \<Rightarrow> string \<Rightarrow> bool" where
  "is_file_empty_or_missing fs path = (case fs path of None \<Rightarrow> True | Some c \<Rightarrow> c = [])"

definition hex_digit :: "nat \<Rightarrow> char" where
  "hex_digit v = (if v < 10 then char_of (48 + v) else char_of (97 + v - 10))"

text \<open>Random bytes are numbers below 256; \<^const>\<open>None\<close> when \<open>crypto_read_urandom\<close> fails.\<close>

definition generate_random_hex :: "nat list option \<Rightarrow> nat \<Rightarrow> string option" where
  "generate_random_hex raw len =
     (if len = 0 then None
      else map_option (\<lambda>r. map (\<lambda>i. hex_digit (if i mod 2 = 0 then r ! (i div 2) div 16 else r ! (i div 2) mod 16)) [0 ..< len]) raw)"

definition generate_pairing_code :: "nat list option \<Rightarrow> string option" where
  "generate_pairing_code raw = map_option (\<lambda>r. map (\<lambda>i. char_of (48 + r ! i mod 10)) [0 ..< PAIRING_CODE_LEN]) raw"

definition constant_time_cmp :: "string \<Rightarrow> string \<Rightarrow> nat \<Rightarrow> bool" where
  "constant_time_cmp a b len =
     (foldl (\<lambda>r i. r OR (word_of_nat (byte_of (ch a i)) XOR word_of_nat (byte_of (ch b i)))) (0 :: 8 word) [0 ..< len] = 0)"

definition is_valid_6digit :: "string \<Rightarrow> bool" where
  "is_valid_6digit code \<longleftrightarrow> list_all (\<lambda>i. is_digit (ch code i)) [0 ..< PAIRING_CODE_LEN] \<and> length code = PAIRING_CODE_LEN"

text \<open>\<open>expand\<close> is \<open>config_expand_tilde\<close> of \<open>config.c\<close>.\<close>

definition free_lockout :: pair_lockout_entry where
  "free_lockout = \<lparr>le_ip = [], fail_count = 0, locked_until = 0\<rparr>"

definition auth_init :: "(string \<Rightarrow> string option) \<Rightarrow> string option \<Rightarrow> auth_ctx option" where
  "auth_init expand path =
     (case (case path of Some p \<Rightarrow> if p \<noteq> [] then Some p else expand ''~/.shellclaw/auth_tokens.json''
            | None \<Rightarrow> expand ''~/.shellclaw/auth_tokens.json'') of
        None \<Rightarrow> None
      | Some p \<Rightarrow> Some \<lparr>tokens_path = p, pending_pairing_code = None, lockout = replicate LOCKOUT_TABLE_SIZE free_lockout\<rparr>)"

definition auth_get_or_create_pairing_code :: "fsys \<Rightarrow> nat list option \<Rightarrow> auth_ctx \<Rightarrow> string option \<times> auth_ctx" where
  "auth_get_or_create_pairing_code fs raw ctx =
     (if \<not> is_file_empty_or_missing fs (tokens_path ctx) then (None, ctx)
      else case generate_pairing_code raw of
             None \<Rightarrow> (None, ctx\<lparr>pending_pairing_code := None\<rparr>)
           | Some code \<Rightarrow> (Some code, ctx\<lparr>pending_pairing_code := Some code\<rparr>))"

text \<open>\<open>ensure_tokens_dir\<close> creates the parent directory; a path without a slash, or directly under the root, needs none.\<close>

definition ensure_tokens_dir :: "bool \<Rightarrow> string \<Rightarrow> bool" where
  "ensure_tokens_dir mkdir_ok path =
     (case strrchr_split slash path of None \<Rightarrow> True | Some (dir, _) \<Rightarrow> dir = [] \<or> mkdir_ok)"

text \<open>\<open>auth_write_all\<close> and \<open>discard_tokens_tmp\<close> repeat the functions of \<open>tools/file.c\<close>.\<close>

definition auth_write_all :: "(nat \<Rightarrow> int) \<Rightarrow> string \<Rightarrow> string \<Rightarrow> nat \<Rightarrow> fsys list \<Rightarrow> fsys list \<times> bool" where
  "auth_write_all = write_all"

definition discard_tokens_tmp :: "string \<Rightarrow> fsys list \<Rightarrow> fsys list" where
  "discard_tokens_tmp = discard_file_tmp"

definition write_tokens_atomic :: "save_env \<Rightarrow> string \<Rightarrow> string \<Rightarrow> fsys \<Rightarrow> fsys list \<times> bool" where
  "write_tokens_atomic e path json fs =
     (if length path \<ge> PATH_MAX \<or> length (dirname path @ ''/.sc-auth-XXXXXX'') \<ge> PATH_MAX then ([fs], False)
      else case se_mkstemp e of
             None \<Rightarrow> ([fs], False)
           | Some tmp \<Rightarrow>
               let (states, written) = auth_write_all (se_write e) tmp json 0 [fs(tmp \<mapsto> []), fs] in
               if \<not> written then (discard_tokens_tmp tmp states, False)
               else if \<not> se_fsync e then (discard_tokens_tmp tmp states, False)
               else if \<not> se_close e then (discard_tokens_tmp tmp states, False)
               else if \<not> se_rename e then (discard_tokens_tmp tmp states, False)
               else ((hd states)(tmp := None, path \<mapsto> json) # states, True))"

text \<open>The 8 KiB read of the token file.\<close>

definition read_tokens :: "(string \<Rightarrow> cjson option) \<Rightarrow> fsys \<Rightarrow> string \<Rightarrow> cjson option" where
  "read_tokens parse fs path = (case fs path of None \<Rightarrow> None | Some c \<Rightarrow> parse (cstr (take 8191 c)))"

text \<open>The array the new token is appended to: at most the last 15 stored items.\<close>

definition kept_tokens :: "cjson option \<Rightarrow> cjson list" where
  "kept_tokens existing =
     (let arr = (case existing of Some j \<Rightarrow> if cJSON_IsArray j then array_items j else [] | None \<Rightarrow> []) in
      drop (length arr - 15) arr)"

definition auth_pair ::
  "(string \<Rightarrow> cjson option) \<Rightarrow> (cjson \<Rightarrow> string) \<Rightarrow> save_env \<Rightarrow> nat list option \<Rightarrow> fsys \<Rightarrow> auth_ctx \<Rightarrow> string option \<Rightarrow> nat
   \<Rightarrow> string option \<times> auth_ctx \<times> fsys" where
  "auth_pair parse print e raw fs ctx code token_size =
     (case code of
        None \<Rightarrow> (None, ctx, fs)
      | Some c \<Rightarrow>
          if token_size = 0 \<or> \<not> is_valid_6digit c then (None, ctx, fs)
          else case pending_pairing_code ctx of
                 None \<Rightarrow> (None, ctx, fs)
               | Some pending \<Rightarrow>
                   if \<not> constant_time_cmp c pending PAIRING_CODE_LEN then (None, ctx, fs)
                   else case generate_random_hex raw TOKEN_LEN of
                          None \<Rightarrow> (None, ctx, fs)
                        | Some new_token \<Rightarrow>
                            let json = print (CArray (kept_tokens (read_tokens parse fs (tokens_path ctx)) @ [CString new_token])) in
                            if \<not> ensure_tokens_dir (se_mkdir e) (tokens_path ctx) then (None, ctx, fs)
                            else let (states, ok) = write_tokens_atomic e (tokens_path ctx) json fs in
                              if \<not> ok then (None, ctx, hd states)
                              else (Some (take (min TOKEN_LEN (token_size - 1)) new_token),
                                    ctx\<lparr>pending_pairing_code := None\<rparr>, hd states))"

definition token_matches :: "string \<Rightarrow> cjson \<Rightarrow> bool" where
  "token_matches token item =
     (case string_of (Some item) of
        None \<Rightarrow> False
      | Some v \<Rightarrow> length v = length token \<and> constant_time_cmp v token (length token))"

definition auth_validate_token :: "(string \<Rightarrow> cjson option) \<Rightarrow> fsys \<Rightarrow> auth_ctx \<Rightarrow> string option \<Rightarrow> bool" where
  "auth_validate_token parse fs ctx token =
     (case token of
        None \<Rightarrow> False
      | Some t \<Rightarrow>
          if t = [] then False
          else (case read_tokens parse fs (tokens_path ctx) of
                  None \<Rightarrow> False
                | Some root \<Rightarrow> cJSON_IsArray root \<and> list_ex (token_matches t) (array_items root)))"

definition lockout_fresh :: "string \<Rightarrow> pair_lockout_entry" where
  "lockout_fresh ip = \<lparr>le_ip = take (LOCKOUT_IP_SIZE - 1) ip, fail_count = 0, locked_until = 0\<rparr>"

text \<open>\<open>strncmp\<close> on 47 bytes: a stored address has at most 47.\<close>

definition lockout_matches :: "string \<Rightarrow> pair_lockout_entry \<Rightarrow> bool" where
  "lockout_matches ip e \<longleftrightarrow> le_ip e \<noteq> [] \<and> take (LOCKOUT_IP_SIZE - 1) (le_ip e) = take (LOCKOUT_IP_SIZE - 1) ip"

definition lockout_find_or_create :: "string \<Rightarrow> pair_lockout_entry list \<Rightarrow> pair_lockout_entry list \<times> nat" where
  "lockout_find_or_create ip t =
     (case find_index (lockout_matches ip) t of
        Some i \<Rightarrow> (t, i)
      | None \<Rightarrow>
          (case find_index (\<lambda>e. le_ip e = []) t of
             Some i \<Rightarrow> (t[i := lockout_fresh ip], i)
           | None \<Rightarrow> (t[0 := lockout_fresh ip], 0)))"

definition lockout_ip :: "string option \<Rightarrow> string" where
  "lockout_ip ip = (case ip of Some s \<Rightarrow> if s \<noteq> [] then s else ''unknown'' | None \<Rightarrow> ''unknown'')"

definition auth_pair_check_lockout :: "string option \<Rightarrow> int \<Rightarrow> auth_ctx \<Rightarrow> bool \<times> auth_ctx" where
  "auth_pair_check_lockout ip now ctx =
     (let (t, i) = lockout_find_or_create (lockout_ip ip) (lockout ctx); e = t ! i in
      if locked_until e > 0 \<and> now < locked_until e then (True, ctx\<lparr>lockout := t\<rparr>)
      else if locked_until e > 0 \<and> now \<ge> locked_until e then
        (False, ctx\<lparr>lockout := t[i := e\<lparr>fail_count := 0, locked_until := 0\<rparr>]\<rparr>)
      else (False, ctx\<lparr>lockout := t\<rparr>))"

definition auth_pair_record_failure :: "string option \<Rightarrow> int \<Rightarrow> auth_ctx \<Rightarrow> auth_ctx" where
  "auth_pair_record_failure ip now ctx =
     (let (t, i) = lockout_find_or_create (lockout_ip ip) (lockout ctx);
          e = (t ! i)\<lparr>fail_count := fail_count (t ! i) + 1\<rparr>;
          e' = (if fail_count e \<ge> PAIR_LOCKOUT_MAX_FAILS then e\<lparr>locked_until := now + PAIR_LOCKOUT_WINDOW_SECS\<rparr> else e) in
      ctx\<lparr>lockout := t[i := e']\<rparr>)"

definition auth_pair_clear_ip :: "string option \<Rightarrow> auth_ctx \<Rightarrow> auth_ctx" where
  "auth_pair_clear_ip ip ctx =
     (let (t, i) = lockout_find_or_create (lockout_ip ip) (lockout ctx) in
      ctx\<lparr>lockout := t[i := (t ! i)\<lparr>fail_count := 0, locked_until := 0\<rparr>]\<rparr>)"

text \<open>The \<open>POST /pair\<close> branch of \<open>dispatch_route\<close>, around the pairing attempt itself, whose success is an argument.\<close>

datatype pair_outcome = Locked_Out | Paired | Refused

definition pair_route :: "string option \<Rightarrow> int \<Rightarrow> bool \<Rightarrow> auth_ctx \<Rightarrow> pair_outcome \<times> auth_ctx" where
  "pair_route ip now pair_ok ctx =
     (case auth_pair_check_lockout ip now ctx of
        (True, ctx1) \<Rightarrow> (Locked_Out, ctx1)
      | (False, ctx1) \<Rightarrow>
          if pair_ok then (Paired, auth_pair_clear_ip ip ctx1)
          else (Refused, auth_pair_record_failure ip now ctx1))"

section \<open>Codes and tokens\<close>

lemma xor_zero_iff: "x XOR y = 0 \<longleftrightarrow> x = (y :: 8 word)"
proof
  assume "x XOR y = 0"
  then have "(x XOR y) XOR y = y" by simp
  then show "x = y" by (simp add: xor.assoc)
qed simp

lemma word_xor_char: "word_of_nat (byte_of a) XOR word_of_nat (byte_of b) = (0 :: 8 word) \<longleftrightarrow> a = b"
  by (simp add: xor_zero_iff word_of_nat_eq_iff take_bit_eq_mod byte_of_def)

lemma fold_or_zero:
  "foldl (\<lambda>r i. r OR f i) r0 xs = (0 :: 8 word) \<longleftrightarrow> r0 = 0 \<and> (\<forall>i \<in> set xs. f i = 0)"
  by (induction xs arbitrary: r0) (auto simp: or_eq_0_iff)

lemma constant_time_cmp_iff: "constant_time_cmp a b len \<longleftrightarrow> (\<forall>i < len. ch a i = ch b i)"
  by (auto simp: constant_time_cmp_def fold_or_zero word_xor_char)

lemma constant_time_cmp_eq:
  "length a = len \<Longrightarrow> length b = len \<Longrightarrow> constant_time_cmp a b len \<longleftrightarrow> a = b"
  by (auto simp: constant_time_cmp_iff ch_def list_eq_iff_nth_eq)

lemma pairing_code_shape:
  assumes "generate_pairing_code raw = Some code"
  shows "length code = 6" "is_valid_6digit code"
proof -
  obtain r :: "nat list" where r: "code = map (\<lambda>i. char_of (48 + r ! i mod 10)) [0 ..< 6]"
    using assms by (auto simp: generate_pairing_code_def PAIRING_CODE_LEN_def)
  show l: "length code = 6" unfolding r by simp
  have "ch code i = digit_char (r ! i mod 10)" if "i < 6" for i
    using that unfolding r by (simp add: ch_def digit_char_def)
  then show "is_valid_6digit code" using l by (simp add: is_valid_6digit_def list_all_iff PAIRING_CODE_LEN_def)
qed

lemma random_hex_shape:
  assumes "generate_random_hex raw len = Some t"
  shows "length t = len" "0 < len"
  using assms by (auto simp: generate_random_hex_def split: if_splits)

lemma token_matches_iff: "token_matches token item \<longleftrightarrow> item = CString token"
  by (cases item) (auto simp: token_matches_def constant_time_cmp_eq)

section \<open>The atomic write\<close>

lemma write_tokens_atomic_shape:
  "atomic_outcome (write_tokens_atomic e path json fs) e path json fs"
  by (auto simp: write_tokens_atomic_def auth_write_all_def discard_tokens_tmp_def Let_def
      split: option.splits prod.splits intro: atomic_outcome.intros)

interpretation tokens_writer: atomic_replace write_tokens_atomic
  by unfold_locales (rule write_tokens_atomic_shape)

lemmas write_tokens_atomic_result = tokens_writer.replace_result
lemmas write_tokens_atomic_states = tokens_writer.replace_states

section \<open>Pairing\<close>

text \<open>The array survives printing into the file and reading back through the 8 KiB buffer.\<close>

definition stored_ok :: "(string \<Rightarrow> cjson option) \<Rightarrow> (cjson \<Rightarrow> string) \<Rightarrow> cjson list \<Rightarrow> bool" where
  "stored_ok parse print xs \<longleftrightarrow> parse (cstr (take 8191 (print (CArray xs)))) = Some (CArray xs)"

lemma auth_pair_success:
  assumes "auth_pair parse print e raw fs ctx code token_size = (Some tok, ctx', fs')"
    and "fresh_tmp e (tokens_path ctx) fs"
  obtains c pending new_token where "code = Some c" "pending_pairing_code ctx = Some pending" "is_valid_6digit c"
    "constant_time_cmp c pending 6" "generate_random_hex raw 32 = Some new_token"
    "tok = take (min 32 (token_size - 1)) new_token" "ctx' = ctx\<lparr>pending_pairing_code := None\<rparr>"
    "fs' = fs(tokens_path ctx \<mapsto>
       print (CArray (kept_tokens (read_tokens parse fs (tokens_path ctx)) @ [CString new_token])))"
proof -
  obtain c where c: "code = Some c" using assms(1) by (cases code) (auto simp: auth_pair_def)
  have v: "token_size \<noteq> 0" "is_valid_6digit c"
    using assms(1) c by (auto simp: auth_pair_def split: if_splits)
  obtain p where p: "pending_pairing_code ctx = Some p" "constant_time_cmp c p 6"
    using assms(1) c v by (auto simp: auth_pair_def PAIRING_CODE_LEN_def split: option.splits if_splits)
  obtain n where n: "generate_random_hex raw 32 = Some n"
    using assms(1) c v p by (auto simp: auth_pair_def PAIRING_CODE_LEN_def TOKEN_LEN_def split: option.splits)
  let ?json = "print (CArray (kept_tokens (read_tokens parse fs (tokens_path ctx)) @ [CString n]))"
  obtain states ok where w: "write_tokens_atomic e (tokens_path ctx) ?json fs = (states, ok)" by force
  have r: "(Some tok, ctx', fs') = (Some (take (min 32 (token_size - 1)) n), ctx\<lparr>pending_pairing_code := None\<rparr>, hd states)" "ok"
    using assms(1) c v p n w
    by (auto simp: auth_pair_def PAIRING_CODE_LEN_def TOKEN_LEN_def Let_def split: if_splits)
  have "hd states = fs(tokens_path ctx \<mapsto> ?json)"
    using write_tokens_atomic_result [OF assms(2), of ?json] w r(2) by simp
  then show thesis using that [OF c p(1) v(2) p(2) n] r(1) by simp
qed

lemma auth_pair_failure:
  assumes "auth_pair parse print e raw fs ctx code token_size = (None, ctx', fs')"
    and "fresh_tmp e (tokens_path ctx) fs"
  shows "ctx' = ctx \<and> fs' = fs"
proof -
  have "write_tokens_atomic e (tokens_path ctx) json fs = (st, False) \<Longrightarrow> hd st = fs" for json st
    using write_tokens_atomic_result [OF assms(2), of json] by simp
  then show ?thesis
    using assms(1) by (auto simp: auth_pair_def Let_def split: option.splits if_splits prod.splits)
qed

lemma validate_stored:
  assumes "stored_ok parse print xs" "fs (tokens_path ctx) = Some (print (CArray xs))" "t \<noteq> []"
  shows "auth_validate_token parse fs ctx (Some t) \<longleftrightarrow> CString t \<in> set xs"
  using assms by (auto simp: auth_validate_token_def read_tokens_def stored_ok_def list_ex_iff token_matches_iff)

section \<open>The lockout\<close>

definition lock_key :: "string option \<Rightarrow> string" where
  "lock_key ip = take (LOCKOUT_IP_SIZE - 1) (lockout_ip ip)"

interpretation lk: keyed_slots le_ip lockout_fresh "LOCKOUT_IP_SIZE - 1"
  by unfold_locales (simp add: lockout_fresh_def)

definition lockout_wf :: "pair_lockout_entry list \<Rightarrow> bool" where
  "lockout_wf t \<longleftrightarrow> length t = LOCKOUT_TABLE_SIZE \<and> keys_distinct le_ip t \<and>
     (\<forall>e \<in> set t. length (le_ip e) < LOCKOUT_IP_SIZE)"

lemma lockout_ip_nonempty [simp]: "lockout_ip ip \<noteq> []" "lock_key ip \<noteq> []"
  by (auto simp: lock_key_def lockout_ip_def LOCKOUT_IP_SIZE_def split: option.splits)

lemma lockout_matches_key:
  "length (le_ip e) < LOCKOUT_IP_SIZE \<Longrightarrow> lockout_matches (lockout_ip ip) e \<longleftrightarrow> le_ip e = lock_key ip"
  using lockout_ip_nonempty(2) [of ip]
  by (auto simp: lockout_matches_def lock_key_def LOCKOUT_IP_SIZE_def)

lemma key_lockout_fresh [simp]: "le_ip (lockout_fresh (lockout_ip ip)) = lock_key ip"
  "fail_count (lockout_fresh s) = 0" "locked_until (lockout_fresh s) = 0"
  by (simp_all add: lockout_fresh_def lock_key_def)

lemma lock_key_length: "length (lock_key ip) < LOCKOUT_IP_SIZE"
  by (simp add: lock_key_def LOCKOUT_IP_SIZE_def)

lemma lockout_wf_update:
  assumes "lockout_wf t" "i < length t" "le_ip (t ! i) = le_ip e \<or> slot_view le_ip (le_ip e) t = None"
    and "length (le_ip e) < LOCKOUT_IP_SIZE"
  shows "lockout_wf (t[i := e])"
  using assms lk.update_distinct [of t i e] set_update_subset_insert [of t i e] by (auto simp: lockout_wf_def)

lemma find_or_create_lockout:
  assumes wf: "lockout_wf t"
  obtains (found) i where "lockout_find_or_create (lockout_ip ip) t = (t, i)" "i < length t" "le_ip (t ! i) = lock_key ip"
      "slot_view le_ip (lock_key ip) t = Some (t ! i)"
  | (created) i where "lockout_find_or_create (lockout_ip ip) t = (t[i := lockout_fresh (lockout_ip ip)], i)" "i < length t"
      "slot_view le_ip (lock_key ip) t = None" "le_ip (t ! i) = [] \<or> (i = 0 \<and> (\<forall>e \<in> set t. le_ip e \<noteq> []))"
proof -
  have len: "0 < length t" and dis: "keys_distinct le_ip t"
    and fit: "\<And>i. i < length t \<Longrightarrow> length (le_ip (t ! i)) < LOCKOUT_IP_SIZE"
    using wf by (auto simp: lockout_wf_def LOCKOUT_TABLE_SIZE_def)
  show thesis
  proof (cases "find_index (lockout_matches (lockout_ip ip)) t")
    case (Some i)
    note f = find_index_Some(1,2) [OF Some]
    have k: "le_ip (t ! i) = lock_key ip" using lockout_matches_key [OF fit [OF f(1)]] f(2) by blast
    show thesis
      using found [of i] Some f(1) k lk.view_at [OF dis f(1) k lockout_ip_nonempty(2)]
      by (simp add: lockout_find_or_create_def)
  next
    case None
    have "\<forall>i < length t. le_ip (t ! i) \<noteq> lock_key ip"
      using None lockout_matches_key [OF fit] nth_mem unfolding find_index_None_iff by blast
    then have v: "slot_view le_ip (lock_key ip) t = None" by (simp add: slot_view_None)
    show thesis
    proof (cases "find_index (\<lambda>e. le_ip e = []) t")
      case (Some i)
      then show thesis
        using created [of i] None v find_index_Some(1,2) [OF Some] by (simp add: lockout_find_or_create_def)
    next
      case full: None
      then have "\<forall>e \<in> set t. le_ip e \<noteq> []" by (simp add: find_index_None_iff)
      then show thesis
        using created [of 0] None full v len by (simp add: lockout_find_or_create_def)
    qed
  qed
qed

text \<open>The entry an operation works on, and the one step all three operations share.\<close>

definition lock_entry :: "string option \<Rightarrow> pair_lockout_entry list \<Rightarrow> pair_lockout_entry" where
  "lock_entry ip t = (case slot_view le_ip (lock_key ip) t of Some e \<Rightarrow> e | None \<Rightarrow> lockout_fresh (lockout_ip ip))"

definition lock_update :: "(pair_lockout_entry \<Rightarrow> pair_lockout_entry) \<Rightarrow> string option \<Rightarrow> pair_lockout_entry list \<Rightarrow> pair_lockout_entry list" where
  "lock_update f ip t = (case lockout_find_or_create (lockout_ip ip) t of (t1, i) \<Rightarrow> t1[i := f (t1 ! i)])"

definition held_keys :: "string set \<Rightarrow> pair_lockout_entry list \<Rightarrow> bool" where
  "held_keys A t \<longleftrightarrow> (\<forall>e \<in> set t. le_ip e \<noteq> [] \<longrightarrow> le_ip e \<in> A)"

lemma free_slot_left:
  assumes "lockout_wf t" "held_keys A t" "slot_view le_ip k t = None" "k \<in> A" "finite A" "card A \<le> LOCKOUT_TABLE_SIZE"
  shows "\<exists>e \<in> set t. le_ip e = []"
proof (rule ccontr)
  assume "\<not> ?thesis"
  then have "\<forall>e \<in> set t. le_ip e \<noteq> [] \<and> le_ip e \<in> A" using assms(2) by (auto simp: held_keys_def)
  then show False using lk.full_table_card [OF _ _ assms(3-5)] assms(1,6) by (simp add: lockout_wf_def)
qed

lemma lock_update_step:
  assumes "lockout_wf t" "\<And>e. le_ip (f e) = le_ip e"
    and "held_keys A t" "lock_key ip \<in> A" "finite A" "card A \<le> LOCKOUT_TABLE_SIZE"
  shows "lockout_wf (lock_update f ip t)" "held_keys A (lock_update f ip t)"
    "slot_view le_ip (lock_key ip) (lock_update f ip t) = Some (f (lock_entry ip t))"
    "k \<noteq> [] \<Longrightarrow> k \<noteq> lock_key ip \<Longrightarrow> slot_view le_ip k (lock_update f ip t) = slot_view le_ip k t"
    "fst (lockout_find_or_create (lockout_ip ip) t) ! snd (lockout_find_or_create (lockout_ip ip) t) = lock_entry ip t"
proof -
  have "\<exists>t1 i. lockout_find_or_create (lockout_ip ip) t = (t1, i) \<and> i < length t1 \<and> lockout_wf t1 \<and> held_keys A t1 \<and>
      t1 ! i = lock_entry ip t \<and> le_ip (t1 ! i) = lock_key ip \<and>
      (\<forall>k. k \<noteq> [] \<longrightarrow> k \<noteq> lock_key ip \<longrightarrow> slot_view le_ip k t1 = slot_view le_ip k t)"
    using assms(1)
  proof (cases rule: find_or_create_lockout [of t ip])
    case (found i)
    then show ?thesis using assms by (auto simp: lock_entry_def)
  next
    case (created i)
    let ?e = "lockout_fresh (lockout_ip ip)"
    have free: "le_ip (t ! i) = []"
      using created(4) free_slot_left [OF assms(1,3) created(3) assms(4-6)] by auto
    have wf: "lockout_wf (t[i := ?e])"
      by (rule lockout_wf_update) (use assms(1) created lock_key_length in auto)
    have "held_keys A (t[i := ?e])"
      using assms(3,4) set_update_subset_insert [of t i ?e] by (fastforce simp: held_keys_def)
    moreover have "slot_view le_ip k (t[i := ?e]) = slot_view le_ip k t" if "k \<noteq> []" "k \<noteq> lock_key ip" for k
      using lk.view_update_other [of t i k ?e] assms(1) created free that by (simp add: lockout_wf_def)
    ultimately show ?thesis using created wf by (simp add: lock_entry_def)
  qed
  then obtain t1 i where 1: "lockout_find_or_create (lockout_ip ip) t = (t1, i)" "i < length t1" "lockout_wf t1"
    "held_keys A t1" "t1 ! i = lock_entry ip t" "le_ip (t1 ! i) = lock_key ip"
    "\<forall>k. k \<noteq> [] \<longrightarrow> k \<noteq> lock_key ip \<longrightarrow> slot_view le_ip k t1 = slot_view le_ip k t" by blast
  have u: "lock_update f ip t = t1[i := f (t1 ! i)]" using 1(1) by (simp add: lock_update_def)
  have d: "keys_distinct le_ip t1" using 1(3) by (simp add: lockout_wf_def)
  show "lockout_wf (lock_update f ip t)"
    unfolding u by (rule lockout_wf_update) (use 1 assms(2) lock_key_length in auto)
  show "held_keys A (lock_update f ip t)"
    unfolding u using 1(4,6) assms(2,4) set_update_subset_insert [of t1 i "f (t1 ! i)"]
    by (fastforce simp: held_keys_def)
  show "slot_view le_ip (lock_key ip) (lock_update f ip t) = Some (f (lock_entry ip t))"
    using lk.view_update_same [OF d 1(2), of "f (t1 ! i)"] 1(5,6) assms(2) by (simp add: u)
  show "slot_view le_ip k (lock_update f ip t) = slot_view le_ip k t" if "k \<noteq> []" "k \<noteq> lock_key ip"
    using lk.view_update_other [OF d 1(2) that(1), of "f (t1 ! i)"] 1(6,7) assms(2) that by (simp add: u)
  show "fst (lockout_find_or_create (lockout_ip ip) t) ! snd (lockout_find_or_create (lockout_ip ip) t) = lock_entry ip t"
    using 1 by simp
qed

definition check_entry :: "int \<Rightarrow> pair_lockout_entry \<Rightarrow> pair_lockout_entry" where
  "check_entry now e = (if locked_until e > 0 \<and> now \<ge> locked_until e then e\<lparr>fail_count := 0, locked_until := 0\<rparr> else e)"

definition fail_entry :: "int \<Rightarrow> pair_lockout_entry \<Rightarrow> pair_lockout_entry" where
  "fail_entry now e =
     (if fail_count e + 1 \<ge> PAIR_LOCKOUT_MAX_FAILS
      then e\<lparr>fail_count := fail_count e + 1, locked_until := now + PAIR_LOCKOUT_WINDOW_SECS\<rparr>
      else e\<lparr>fail_count := fail_count e + 1\<rparr>)"

lemma check_lockout_view:
  "lockout (snd (auth_pair_check_lockout ip now ctx)) = lock_update (check_entry now) ip (lockout ctx)"
  "fst (auth_pair_check_lockout ip now ctx) =
     (let e = fst (lockout_find_or_create (lockout_ip ip) (lockout ctx)) ! snd (lockout_find_or_create (lockout_ip ip) (lockout ctx))
      in 0 < locked_until e \<and> now < locked_until e)"
  by (auto simp: auth_pair_check_lockout_def lock_update_def check_entry_def Let_def split: prod.splits)

lemma record_failure_view:
  "lockout (auth_pair_record_failure ip now ctx) = lock_update (fail_entry now) ip (lockout ctx)"
  by (auto simp: auth_pair_record_failure_def lock_update_def fail_entry_def Let_def split: prod.splits)

text \<open>A sequence of refused attempts, each with its address and time; which of them were evaluated at all.\<close>

fun refused_attempts :: "(string option \<times> int) list \<Rightarrow> auth_ctx \<Rightarrow> pair_outcome list \<times> auth_ctx" where
  "refused_attempts [] ctx = ([], ctx)"
| "refused_attempts ((ip, now) # as) ctx =
     (let (r, ctx1) = pair_route ip now False ctx; (rs, ctx2) = refused_attempts as ctx1 in (r # rs, ctx2))"

definition evaluated_of :: "string \<Rightarrow> (string option \<times> int) list \<Rightarrow> pair_outcome list \<Rightarrow> nat" where
  "evaluated_of k as rs = length (filter (\<lambda>(a, r). lock_key (fst a) = k \<and> r \<noteq> Locked_Out) (zip as rs))"

definition attempt_ok :: "string set \<Rightarrow> int \<Rightarrow> string option \<times> int \<Rightarrow> bool" where
  "attempt_ok A t0 a \<longleftrightarrow> lock_key (fst a) \<in> A \<and> t0 \<le> snd a \<and> snd a < t0 + PAIR_LOCKOUT_WINDOW_SECS"

text \<open>The guesses an entry has left in the span that starts at \<open>t0\<close>.\<close>

definition guesses_left :: "int \<Rightarrow> pair_lockout_entry \<Rightarrow> int" where
  "guesses_left t0 e =
     (if locked_until e = 0 then PAIR_LOCKOUT_MAX_FAILS - fail_count e
      else if locked_until e \<ge> t0 + PAIR_LOCKOUT_WINDOW_SECS then 0 else PAIR_LOCKOUT_MAX_FAILS)"

definition entry_ok :: "pair_lockout_entry \<Rightarrow> bool" where
  "entry_ok e \<longleftrightarrow> 0 \<le> fail_count e \<and> 0 \<le> locked_until e \<and> (locked_until e = 0 \<longrightarrow> fail_count e < PAIR_LOCKOUT_MAX_FAILS)"

definition lockout_inv :: "string set \<Rightarrow> auth_ctx \<Rightarrow> bool" where
  "lockout_inv A ctx \<longleftrightarrow> lockout_wf (lockout ctx) \<and> held_keys A (lockout ctx) \<and>
     (\<forall>k e. k \<noteq> [] \<longrightarrow> slot_view le_ip k (lockout ctx) = Some e \<longrightarrow> entry_ok e)"

lemma fresh_entry_ok: "entry_ok (lockout_fresh s)"
  by (simp add: entry_ok_def PAIR_LOCKOUT_MAX_FAILS_def)

lemma lock_entry_ok:
  assumes "lockout_inv A ctx" shows "entry_ok (lock_entry ip (lockout ctx))"
proof (cases "slot_view le_ip (lock_key ip) (lockout ctx)")
  case (Some e)
  then have "entry_ok e" using assms lockout_ip_nonempty(2) unfolding lockout_inv_def by blast
  then show ?thesis using Some by (simp add: lock_entry_def)
qed (simp add: lock_entry_def fresh_entry_ok)

lemma lockout_inv_update:
  assumes "lockout_inv A ctx" "\<And>e. le_ip (f e) = le_ip e" "lock_key ip \<in> A" "finite A" "card A \<le> LOCKOUT_TABLE_SIZE"
    and "entry_ok (f (lock_entry ip (lockout ctx)))" "lockout ctx' = lock_update f ip (lockout ctx)"
  shows "lockout_inv A ctx'"
proof -
  have i: "lockout_wf (lockout ctx)" "held_keys A (lockout ctx)" using assms(1) by (auto simp: lockout_inv_def)
  note u = lock_update_step [OF i(1) assms(2) i(2) assms(3,4,5)]
  show ?thesis
    unfolding lockout_inv_def assms(7)
  proof (intro conjI allI impI)
    show "lockout_wf (lock_update f ip (lockout ctx))" "held_keys A (lock_update f ip (lockout ctx))" by (rule u)+
    fix k e assume k: "k \<noteq> []" "slot_view le_ip k (lock_update f ip (lockout ctx)) = Some e"
    show "entry_ok e"
      using assms(1,6) u(3) u(4) [OF k(1)] k by (cases "k = lock_key ip") (auto simp: lockout_inv_def)
  qed
qed

lemma entry_steps_ok:
  "entry_ok e \<Longrightarrow> entry_ok (check_entry now e)"
  "entry_ok e \<Longrightarrow> 0 \<le> now \<Longrightarrow> entry_ok (fail_entry now e)"
  "le_ip (check_entry now e) = le_ip e" "le_ip (fail_entry now e) = le_ip e"
  by (auto simp: entry_ok_def check_entry_def fail_entry_def PAIR_LOCKOUT_MAX_FAILS_def PAIR_LOCKOUT_WINDOW_SECS_def)

lemma guesses_step:
  assumes "entry_ok e" "t0 \<le> now" "now < t0 + PAIR_LOCKOUT_WINDOW_SECS" "0 \<le> t0"
  shows "0 < locked_until e \<and> now < locked_until e \<Longrightarrow> guesses_left t0 (check_entry now e) = guesses_left t0 e"
    and "\<not> (0 < locked_until e \<and> now < locked_until e) \<Longrightarrow>
      guesses_left t0 (fail_entry now (check_entry now e)) + 1 \<le> guesses_left t0 e"
  using assms by (auto simp: entry_ok_def check_entry_def fail_entry_def guesses_left_def
    PAIR_LOCKOUT_MAX_FAILS_def PAIR_LOCKOUT_WINDOW_SECS_def)

definition left_for :: "int \<Rightarrow> string \<Rightarrow> auth_ctx \<Rightarrow> int" where
  "left_for t0 k ctx = (case slot_view le_ip k (lockout ctx) of Some e \<Rightarrow> guesses_left t0 e | None \<Rightarrow> PAIR_LOCKOUT_MAX_FAILS)"

lemma left_for_own: "left_for t0 (lock_key ip) ctx = guesses_left t0 (lock_entry ip (lockout ctx))"
  by (auto simp: left_for_def lock_entry_def guesses_left_def split: option.splits)

lemma left_for_bounds:
  "lockout_inv A ctx \<Longrightarrow> k \<noteq> [] \<Longrightarrow> 0 \<le> left_for t0 k ctx \<and> left_for t0 k ctx \<le> PAIR_LOCKOUT_MAX_FAILS"
  by (auto simp: lockout_inv_def left_for_def guesses_left_def entry_ok_def PAIR_LOCKOUT_MAX_FAILS_def split: option.splits)

lemma pair_route_step:
  assumes inv: "lockout_inv A ctx" and A: "finite A" "card A \<le> LOCKOUT_TABLE_SIZE"
    and a: "attempt_ok A t0 (ip, now)" "0 \<le> t0" and k: "k \<noteq> []"
  shows "lockout_inv A (snd (pair_route ip now False ctx))"
    and "left_for t0 k (snd (pair_route ip now False ctx)) +
      (if lock_key ip = k \<and> fst (pair_route ip now False ctx) \<noteq> Locked_Out then 1 else 0) \<le> left_for t0 k ctx"
proof -
  let ?e = "lock_entry ip (lockout ctx)" and ?c = "snd (auth_pair_check_lockout ip now ctx)"
  have key: "lock_key ip \<in> A" and now: "t0 \<le> now" "now < t0 + PAIR_LOCKOUT_WINDOW_SECS" "0 \<le> now"
    using a by (auto simp: attempt_ok_def)
  have wf: "lockout_wf (lockout ctx)" "held_keys A (lockout ctx)" using inv by (auto simp: lockout_inv_def)
  note u = lock_update_step [OF wf(1) entry_steps_ok(3) wf(2) key A]
  have ok: "entry_ok ?e" by (rule lock_entry_ok [OF inv])
  have locked: "fst (auth_pair_check_lockout ip now ctx) \<longleftrightarrow> 0 < locked_until ?e \<and> now < locked_until ?e"
    using u(5) by (simp add: check_lockout_view(2) Let_def)
  have inv1: "lockout_inv A ?c"
    using lockout_inv_update [OF inv entry_steps_ok(3) key A entry_steps_ok(1) [OF ok] check_lockout_view(1)] .
  have e1: "lock_entry ip (lockout ?c) = check_entry now ?e"
    using u(3) by (simp add: check_lockout_view lock_entry_def)
  have wf1: "lockout_wf (lockout ?c)" "held_keys A (lockout ?c)" using inv1 by (auto simp: lockout_inv_def)
  note v = lock_update_step [OF wf1(1) entry_steps_ok(4) wf1(2) key A]
  let ?f = "auth_pair_record_failure ip now ?c"
  have inv2: "lockout_inv A ?f"
    by (rule lockout_inv_update [OF inv1 entry_steps_ok(4) key A _ record_failure_view])
      (use e1 entry_steps_ok ok now in simp)
  have e2: "lock_entry ip (lockout ?f) = fail_entry now (check_entry now ?e)"
    using v(3) e1 by (simp add: record_failure_view lock_entry_def)
  have o1: "lock_key ip \<noteq> k \<Longrightarrow> left_for t0 k ?c = left_for t0 k ctx"
    using u(4) [OF k] by (auto simp: left_for_def check_lockout_view)
  have o2: "lock_key ip \<noteq> k \<Longrightarrow> left_for t0 k ?f = left_for t0 k ctx"
    using v(4) [OF k] o1 by (auto simp: left_for_def record_failure_view)
  have r: "pair_route ip now False ctx =
      (if fst (auth_pair_check_lockout ip now ctx) then (Locked_Out, ?c) else (Refused, ?f))"
    by (auto simp: pair_route_def split: prod.splits bool.splits)
  show "lockout_inv A (snd (pair_route ip now False ctx))" using r inv1 inv2 by simp
  show "left_for t0 k (snd (pair_route ip now False ctx)) +
      (if lock_key ip = k \<and> fst (pair_route ip now False ctx) \<noteq> Locked_Out then 1 else 0) \<le> left_for t0 k ctx"
    using guesses_step [OF ok now(1,2) a(2)] locked o1 o2 r e1 e2
    by (cases "lock_key ip = k") (auto simp: left_for_own)
qed

lemma evaluated_le_left:
  "lockout_inv A ctx \<Longrightarrow> finite A \<Longrightarrow> card A \<le> LOCKOUT_TABLE_SIZE \<Longrightarrow> list_all (attempt_ok A t0) as \<Longrightarrow> 0 \<le> t0 \<Longrightarrow> k \<noteq> [] \<Longrightarrow>
   int (evaluated_of k as (fst (refused_attempts as ctx))) \<le> left_for t0 k ctx"
proof (induction as arbitrary: ctx)
  case Nil
  then show ?case using left_for_bounds [of A ctx k t0] by (simp add: evaluated_of_def)
next
  case (Cons a as)
  obtain ip now where a: "a = (ip, now)" by force
  note st = pair_route_step [OF Cons.prems(1-3), of t0 ip now k]
  have ok: "attempt_ok A t0 (ip, now)" "list_all (attempt_ok A t0) as" using Cons.prems(4) a by auto
  have "int (evaluated_of k as (fst (refused_attempts as (snd (pair_route ip now False ctx))))) \<le>
      left_for t0 k (snd (pair_route ip now False ctx))"
    using Cons.IH [OF st(1)] Cons.prems ok by simp
  moreover have "evaluated_of k (a # as) (fst (refused_attempts (a # as) ctx)) =
      (if lock_key ip = k \<and> fst (pair_route ip now False ctx) \<noteq> Locked_Out then 1 else 0) +
      evaluated_of k as (fst (refused_attempts as (snd (pair_route ip now False ctx))))"
    by (simp add: a evaluated_of_def split_def Let_def)
  moreover note st(2) [OF ok(1) Cons.prems(5,6)]
  ultimately show ?case by (auto split: if_splits)
qed

lemma init_lockout_inv:
  assumes "auth_init expand path = Some ctx" shows "lockout_inv A ctx"
proof -
  have "lockout ctx = replicate LOCKOUT_TABLE_SIZE free_lockout"
    using assms by (auto simp: auth_init_def split: option.splits if_splits)
  moreover have "slot_view le_ip k (replicate LOCKOUT_TABLE_SIZE free_lockout) = None" if "k \<noteq> []" for k
    using that by (simp add: slot_view_None free_lockout_def)
  ultimately show ?thesis
    by (auto simp: lockout_inv_def lockout_wf_def held_keys_def lk.replicate_free_distinct free_lockout_def
      LOCKOUT_IP_SIZE_def)
qed

lemma refused_attempts_inv:
  "lockout_inv A ctx \<Longrightarrow> finite A \<Longrightarrow> card A \<le> LOCKOUT_TABLE_SIZE \<Longrightarrow>
   list_all (\<lambda>a. lock_key (fst a) \<in> A \<and> 0 \<le> snd a) as \<Longrightarrow> lockout_inv A (snd (refused_attempts as ctx))"
proof (induction as arbitrary: ctx)
  case (Cons a as)
  obtain ip now where a: "a = (ip, now)" by force
  have "attempt_ok A now (ip, now)" "0 \<le> now" "list_all (\<lambda>a. lock_key (fst a) \<in> A \<and> 0 \<le> snd a) as"
    using Cons.prems(4) a by (auto simp: attempt_ok_def PAIR_LOCKOUT_WINDOW_SECS_def)
  then show ?case
    using Cons.IH [OF pair_route_step(1) [OF Cons.prems(1-3), of now ip now "[nul]"]] Cons.prems
    by (simp add: a split_def Let_def)
qed simp

section \<open>Properties\<close>

text \<open>Every state the token file passes through while it is replaced (in particular what a
  crash would leave) holds the old contents or the complete new ones; at the end the file system
  is the old one with the new contents if the write succeeded, and the old one otherwise, with
  no temporary file left.\<close>

theorem tokens_write_atomic:
  assumes "fresh_tmp e path fs"
  shows "list_all (\<lambda>s. s path = fs path \<or> s path = Some json) (fst (write_tokens_atomic e path json fs)) \<and>
    hd (fst (write_tokens_atomic e path json fs)) =
      (if snd (write_tokens_atomic e path json fs) then fs(path \<mapsto> json) else fs)"
  using write_tokens_atomic_states [OF assms] write_tokens_atomic_result [OF assms] by (auto simp: list_all_iff)

definition demo_env :: save_env where
  "demo_env = \<lparr>se_mkdir = True, se_mkstemp = Some ''/h/.sc-auth-a1b2c3'', se_fchmod = True, se_write = (\<lambda>off. 2), se_fsync = True,
     se_close = True, se_rename = True\<rparr>"

theorem tokens_write_atomic_witness:
  "hd (fst (write_tokens_atomic demo_env ''/h/t'' ''[1,2]'' [''/h/t'' \<mapsto> ''[]''])) ''/h/t'' = Some ''[1,2]''"
proof -
  have f: "fresh_tmp demo_env ''/h/t'' [''/h/t'' \<mapsto> ''[]'']" by (simp add: fresh_tmp_def demo_env_def)
  have "snd (write_tokens_atomic demo_env ''/h/t'' ''[1,2]'' [''/h/t'' \<mapsto> ''[]''])" by code_simp
  then show ?thesis using tokens_write_atomic [OF f, of "''[1,2]''"] by simp
qed


text \<open>A codec for arrays of plain strings, as an instance of the parser and the printer.\<close>

definition demo_print :: "cjson \<Rightarrow> string" where
  "demo_print j = CHR ''['' # concat (map (\<lambda>x. case string_of (Some x) of Some s \<Rightarrow> [dquote] @ s @ [dquote, CHR '','']
     | None \<Rightarrow> []) (array_items j)) @ '']''"

definition demo_parse :: "string \<Rightarrow> cjson option" where
  "demo_parse s = Some (CArray (map CString (strtok_all (\<lambda>c. c \<in> {CHR ''['', CHR '']'', CHR '','', dquote}) s)))"

definition demo_ctx :: auth_ctx where
  "demo_ctx = \<lparr>tokens_path = ''/h/t'', pending_pairing_code = Some ''123456'', lockout = replicate 32 free_lockout\<rparr>"

definition demo_fs :: fsys where
  "demo_fs = [''/h/t'' \<mapsto> demo_print (CArray [CString ''aa''])]"


text \<open>(C7) Whatever refused attempts came before, among attempts that all fall into one span of 300
  seconds at most five guesses of a client are evaluated, the others being answered with the
  lockout, provided no more than 32 distinct clients take part.\<close>

theorem pair_guess_bound:
  assumes "auth_init expand path = Some ctx0" and "finite A" "card A \<le> LOCKOUT_TABLE_SIZE"
    and "list_all (\<lambda>a. lock_key (fst a) \<in> A \<and> 0 \<le> snd a) before" and "list_all (attempt_ok A t0) as" "0 \<le> t0"
  shows "evaluated_of k as (fst (refused_attempts as (snd (refused_attempts before ctx0)))) \<le> 5"
proof (cases "k = []")
  case True
  then show ?thesis by (simp add: evaluated_of_def)
next
  case False
  have inv: "lockout_inv A (snd (refused_attempts before ctx0))"
    by (rule refused_attempts_inv [OF init_lockout_inv [OF assms(1)] assms(2-4)])
  show ?thesis
    using evaluated_le_left [OF inv assms(2,3,5,6) False] left_for_bounds [OF inv False, of t0]
    by (simp add: PAIR_LOCKOUT_MAX_FAILS_def)
qed

theorem pair_guess_bound_witness:
  "evaluated_of ''10.0.0.1'' (replicate 7 (Some ''10.0.0.1'', 1000))
     (fst (refused_attempts (replicate 7 (Some ''10.0.0.1'', 1000))
       (snd (refused_attempts [(Some ''10.0.0.1'', 7), (Some ''10.0.0.2'', 8)] (the (auth_init (\<lambda>p. None) (Some ''/h/t''))))))) \<le> 5"
proof -
  let ?A = "{''10.0.0.1'', ''10.0.0.2''}"
  have i: "auth_init (\<lambda>p. None) (Some ''/h/t'') = Some (the (auth_init (\<lambda>p. None) (Some ''/h/t'')))"
    by (simp add: auth_init_def)
  have c: "card ?A \<le> LOCKOUT_TABLE_SIZE" by (simp add: LOCKOUT_TABLE_SIZE_def)
  have b: "list_all (\<lambda>a. lock_key (fst a) \<in> ?A \<and> 0 \<le> snd a) [(Some ''10.0.0.1'', 7), (Some ''10.0.0.2'', 8::int)]"
    by code_simp
  have a: "list_all (attempt_ok ?A 900) (replicate 7 (Some ''10.0.0.1'', 1000))" by code_simp
  show ?thesis using pair_guess_bound [OF i _ c b a] by simp
qed

text \<open>A full lockout table forgets the client of its first slot: when an unknown client makes any
  request, slot 0 is reused and its client is no longer locked out, whatever its lock was.\<close>

theorem lockout_slot_zero_evicted:
  assumes "lockout_wf (lockout ctx)" "list_all (\<lambda>e. le_ip e \<noteq> []) (lockout ctx)"
    and "le_ip (lockout ctx ! 0) = lock_key victim" "slot_view le_ip (lock_key ip) (lockout ctx) = None"
  shows "fst (auth_pair_check_lockout victim now' (snd (auth_pair_check_lockout ip now ctx))) = False"
proof -
  let ?t = "lockout ctx" and ?e = "lockout_fresh (lockout_ip ip)"
  have len: "0 < length ?t" using assms(1) by (simp add: lockout_wf_def LOCKOUT_TABLE_SIZE_def)
  have foc: "lockout_find_or_create (lockout_ip ip) ?t = (?t[0 := ?e], 0)"
    using assms(1)
  proof (cases rule: find_or_create_lockout [of ?t ip])
    case (created i)
    then have "i = 0" using assms(2) by (auto simp: list_all_iff)
    then show ?thesis using created by simp
  qed (use assms(4) in simp)
  have t1: "lockout (snd (auth_pair_check_lockout ip now ctx)) = ?t[0 := ?e]" (is "_ = ?t1")
    using foc len by (simp add: check_lockout_view(1) lock_update_def check_entry_def)
  have ne: "lock_key victim \<noteq> lock_key ip" using assms(3,4) len by (auto simp: slot_view_None)
  have wf1: "lockout_wf ?t1"
    by (rule lockout_wf_update) (use assms(1,4) len lock_key_length in auto)
  have "slot_view le_ip (lock_key victim) ?t1 = None"
    using lk.view_update_other [OF _ len, of "lock_key victim" ?e] assms ne by (simp add: lockout_wf_def)
  with wf1 obtain t2 i where "lockout_find_or_create (lockout_ip victim) ?t1 = (t2, i)" "t2 ! i = lockout_fresh (lockout_ip victim)"
  proof (cases rule: find_or_create_lockout [of ?t1 victim])
    case (created i)
    then show ?thesis using that by simp
  qed auto
  then show ?thesis by (simp add: check_lockout_view(2) t1 Let_def)
qed

definition full_ctx :: auth_ctx where
  "full_ctx = \<lparr>tokens_path = ''/h/t'', pending_pairing_code = None,
     lockout = map (\<lambda>i. \<lparr>le_ip = nat_str i, fail_count = 5, locked_until = 1300\<rparr>) [1 ..< 33]\<rparr>"

theorem lockout_slot_zero_evicted_witness:
  "fst (auth_pair_check_lockout (Some ''1'') 1000 full_ctx) = True \<and>
   fst (auth_pair_check_lockout (Some ''1'') 1000 (snd (auth_pair_check_lockout (Some ''99'') 1000 full_ctx))) = False"
proof -
  have inj: "nat_str i = nat_str j \<Longrightarrow> i = j" for i j by (metis digits_val_nat_str)
  have "keys_distinct le_ip (lockout full_ctx)"
    by (auto simp: keys_distinct_def full_ctx_def simp del: upt_rec_numeral dest: inj)
  moreover have "list_all (\<lambda>e. length (le_ip e) < LOCKOUT_IP_SIZE) (lockout full_ctx)" by code_simp
  ultimately have wf: "lockout_wf (lockout full_ctx)"
    by (simp add: lockout_wf_def list_all_iff full_ctx_def LOCKOUT_TABLE_SIZE_def)
  have a: "list_all (\<lambda>e. le_ip e \<noteq> []) (lockout full_ctx)" by code_simp
  have v: "le_ip (lockout full_ctx ! 0) = lock_key (Some ''1'')" by code_simp
  have n: "slot_view le_ip (lock_key (Some ''99'')) (lockout full_ctx) = None" by code_simp
  have l: "fst (auth_pair_check_lockout (Some ''1'') 1000 full_ctx) = True" by code_simp
  show ?thesis using lockout_slot_zero_evicted [OF wf a v n] l by simp
qed

end
