(* ===== verification/Ulid.thy ===== *)
theory Ulid
  imports Prelude "HOL-Library.List_Lexorder"
begin

text \<open>
  ULID generation: \<open>src/asap/ulid.c\<close>.  Bytes are natural numbers below 256, with the wrap-around of
  \<open>uint8_t\<close> written out.  The clock is a sequence of readings (\<^const>\<open>None\<close> when \<open>clock_gettime\<close> fails), because the
  overflow branch reads it until it advances; the ten random bytes (or the failure to read them) are an
  argument.
\<close>

section \<open>Definitions\<close>

definition C32 :: string where
  "C32 = ''0123456789ABCDEFGHJKMNPQRSTVWXYZ''"

definition ULID_STRING_LEN :: nat where "ULID_STRING_LEN = 26"

record ulid_state =
  g_last_ms :: nat
  g_rand :: "nat list"

definition get_epoch_ms_u48 :: "(nat \<times> nat) option \<Rightarrow> nat option" where
  "get_epoch_ms_u48 ts = map_option (\<lambda>(sec, nsec). (sec * 1000 + nsec div 1000000) mod 2 ^ 48) ts"

text \<open>The loop of \<open>u80_inc\<close>, on the bytes from the last to the first; the flag is the carry out.\<close>

fun inc_rev :: "nat list \<Rightarrow> nat list \<times> bool" where
  "inc_rev [] = ([], True)"
| "inc_rev (b # bs) =
     (let b' = (b + 1) mod 256 in
      if b' \<noteq> 0 then (b' # bs, False) else let (bs', c) = inc_rev bs in (b' # bs', c))"

definition u80_inc :: "nat list \<Rightarrow> nat list \<times> bool" where
  "u80_inc bs = (case inc_rev (rev bs) of (rs, c) \<Rightarrow> (rev rs, c))"

definition time_to_bytes :: "nat \<Rightarrow> nat list" where
  "time_to_bytes t48 = map (\<lambda>i. (t48 div 2 ^ (40 - 8 * i)) mod 256) [0 ..< 6]"

definition stream_bit :: "nat list \<Rightarrow> nat \<Rightarrow> nat" where
  "stream_bit bytes i = (if i < 128 then (bytes ! (i div 8) div 2 ^ (7 - i mod 8)) mod 2 else 0)"

definition encode_bytes :: "nat list \<Rightarrow> string" where
  "encode_bytes bytes =
     map (\<lambda>c. C32 ! (foldl (\<lambda>v k. 2 * v + stream_bit bytes (c * 5 + k)) 0 [0 ..< 5] mod 32)) [0 ..< 26]"

text \<open>The \<open>do\<close> loop that waits for the next millisecond: \<open>Some None\<close> when the clock fails.\<close>

partial_function (option) next_ms :: "(nat \<Rightarrow> (nat \<times> nat) option) \<Rightarrow> nat \<Rightarrow> nat \<Rightarrow> nat option option" where
  "next_ms clock i prev_ms =
     (case get_epoch_ms_u48 (clock i) of
        None \<Rightarrow> Some None
      | Some ms \<Rightarrow> if ms \<le> prev_ms then next_ms clock (Suc i) prev_ms else Some (Some ms))"

declare next_ms.simps [code]

definition reseed :: "nat \<Rightarrow> nat list option \<Rightarrow> ulid_state \<Rightarrow> ulid_state \<times> bool" where
  "reseed ms rnd s =
     (case rnd of None \<Rightarrow> (s\<lparr>g_last_ms := ms\<rparr>, False) | Some r \<Rightarrow> (\<lparr>g_last_ms = ms, g_rand = r\<rparr>, True))"

definition finish :: "ulid_state \<times> bool \<Rightarrow> string option \<times> ulid_state" where
  "finish r = (if snd r then Some (encode_bytes (time_to_bytes (g_last_ms (fst r)) @ g_rand (fst r))) else None, fst r)"

text \<open>\<^const>\<open>None\<close>: the call does not return; otherwise the id, or \<^const>\<open>None\<close> for the error code, and the new state.\<close>

definition ulid_generate ::
  "(nat \<Rightarrow> (nat \<times> nat) option) \<Rightarrow> nat list option \<Rightarrow> nat \<Rightarrow> ulid_state \<Rightarrow> (string option \<times> ulid_state) option" where
  "ulid_generate clock rnd out_size s =
     (if out_size < ULID_STRING_LEN + 1 then Some (None, s)
      else case get_epoch_ms_u48 (clock 0) of
        None \<Rightarrow> Some (None, s)
      | Some ms \<Rightarrow>
          if ms < g_last_ms s then Some (finish (reseed ms rnd s))
          else if ms > g_last_ms s then Some (finish (reseed ms rnd s))
          else case u80_inc (g_rand s) of
                 (r, False) \<Rightarrow> Some (finish (s\<lparr>g_rand := r\<rparr>, True))
               | (r, True) \<Rightarrow>
                   (case next_ms clock 1 (g_last_ms s) of
                      None \<Rightarrow> None
                    | Some None \<Rightarrow> Some (None, s\<lparr>g_rand := r\<rparr>)
                    | Some (Some ms') \<Rightarrow> Some (finish (reseed ms' rnd (s\<lparr>g_rand := r\<rparr>)))))"

section \<open>Numbers in a base\<close>

definition val :: "nat \<Rightarrow> nat list \<Rightarrow> nat" where
  "val b ds = foldl (\<lambda>v d. b * v + d) 0 ds"

lemma val_foldl: "foldl (\<lambda>v d. b * v + d) a ds = a * b ^ length ds + val b ds"
proof (induction ds arbitrary: a)
  case (Cons d ds)
  show ?case
    using Cons.IH [of "b * a + d"] Cons.IH [of d] by (simp add: val_def algebra_simps)
qed (simp add: val_def)

lemma val_simps [simp]: "val b [] = 0" "val b (d # ds) = d * b ^ length ds + val b ds"
  using val_foldl [of b d ds] by (simp_all add: val_def)

lemma val_append: "val b (xs @ ys) = val b xs * b ^ length ys + val b ys"
  using val_foldl [of b "val b xs" ys] by (simp add: val_def)

lemma val_bound: "\<forall>d \<in> set ds. d < b \<Longrightarrow> val b ds < b ^ length ds"
proof (induction ds)
  case (Cons d ds)
  then have v: "val b ds < b ^ length ds" and d: "d + 1 \<le> b" by auto
  have "val b (d # ds) < (d + 1) * b ^ length ds" using v by (simp add: algebra_simps)
  also have "\<dots> \<le> b * b ^ length ds" using d by (rule mult_le_mono1)
  finally show ?case by simp
qed simp

text \<open>Grouping: digits in base \<open>b ^ n\<close> made of \<open>n\<close> digits in base \<open>b\<close>.\<close>

lemma val_groups:
  "\<forall>g \<in> set gs. length g = n \<Longrightarrow> val (b ^ n) (map (val b) gs) = val b (concat gs)"
proof (induction gs)
  case (Cons g gs)
  have "length (concat gs) = n * length gs" using Cons.prems by (induction gs) auto
  then show ?case using Cons by (simp add: val_append power_mult)
qed simp

text \<open>At equal length, comparing digit by digit is comparing values.\<close>

lemma val_less_lex:
  assumes "length xs = length ys" "\<forall>d \<in> set xs. d < b" "\<forall>d \<in> set ys. d < b"
  shows "val b xs < val b ys \<longleftrightarrow> xs < ys"
  using assms
proof (induction xs ys rule: list_induct2)
  case (Cons x xs y ys)
  have bx: "val b xs < b ^ length ys" using val_bound [of xs b] Cons by simp
  have by': "val b ys < b ^ length ys" using val_bound [of ys b] Cons by simp
  show ?case
  proof (cases "x = y")
    case True
    then show ?thesis using Cons by simp
  next
    case False
    have lt: "u * b ^ length ys + p < v * b ^ length ys + q" if "u < v" "p < b ^ length ys" for u v p q
    proof -
      have "u * b ^ length ys + p < (u + 1) * b ^ length ys" using that by simp
      also have "\<dots> \<le> v * b ^ length ys" using that by (intro mult_le_mono1) simp
      finally show ?thesis by linarith
    qed
    show ?thesis
    proof (cases "x < y")
      case True
      then show ?thesis using lt [of x y "val b xs" "val b ys"] bx Cons.hyps by simp
    next
      case False
      then have "y < x" using \<open>x \<noteq> y\<close> by simp
      then show ?thesis using lt [of y x "val b ys" "val b xs"] by' \<open>x \<noteq> y\<close> Cons.hyps by simp
    qed
  qed
qed simp

section \<open>The encoding\<close>

lemma concat_blocks: "concat (map (\<lambda>c. map (\<lambda>k. f (c * n + k)) [0 ..< n]) [0 ..< m]) = map f [0 ..< m * n]"
proof (induction m)
  case (Suc m)
  have "map f [m * n ..< m * n + n] = map (\<lambda>k. f (m * n + k)) [0 ..< n]"
    by (rule nth_equalityI) simp_all
  moreover have "[0 ..< Suc m * n] = [0 ..< m * n] @ [m * n ..< m * n + n]"
    using upt_add_eq_append [of 0 "m * n" n] by (simp add: add.commute)
  ultimately show ?case using Suc by simp
qed simp

lemma val_digits: "val b (map (\<lambda>k. x div b ^ (n - 1 - k) mod b) [0 ..< n]) = x mod b ^ n"
proof (induction n arbitrary: x)
  case (Suc n)
  have "map (\<lambda>k. x div b ^ (Suc n - 1 - k) mod b) [0 ..< n] = map (\<lambda>k. x div b div b ^ (n - 1 - k) mod b) [0 ..< n]"
  proof (rule map_cong [OF refl])
    fix k assume "k \<in> set [0 ..< n]"
    then have "Suc n - 1 - k = Suc (n - 1 - k)" by auto
    then show "x div b ^ (Suc n - 1 - k) mod b = x div b div b ^ (n - 1 - k) mod b"
      by (simp add: div_mult2_eq)
  qed
  then have s: "map (\<lambda>k. x div b ^ (Suc n - 1 - k) mod b) [0 ..< Suc n] =
      map (\<lambda>k. x div b div b ^ (n - 1 - k) mod b) [0 ..< n] @ [x mod b]" by simp
  have "val b (map (\<lambda>k. x div b ^ (Suc n - 1 - k) mod b) [0 ..< Suc n]) = (x div b) mod b ^ n * b + x mod b"
    unfolding s val_append Suc.IH by simp
  also have "\<dots> = x mod b ^ Suc n" by (simp add: mod_mult2_eq mult.commute)
  finally show ?case .
qed simp

lemmas val_bits = val_digits [of 2]

definition ulid_digits :: "nat list \<Rightarrow> nat list" where
  "ulid_digits bytes = map (\<lambda>c. val 2 (map (\<lambda>k. stream_bit bytes (c * 5 + k)) [0 ..< 5])) [0 ..< 26]"

lemma stream_bit_lt: "stream_bit bytes i < 2"
  by (simp add: stream_bit_def)

lemma ulid_digits_lt: "d \<in> set (ulid_digits bytes) \<Longrightarrow> d < 32"
proof -
  assume "d \<in> set (ulid_digits bytes)"
  then obtain c where "d = val 2 (map (\<lambda>k. stream_bit bytes (c * 5 + k)) [0 ..< 5])" by (auto simp: ulid_digits_def)
  moreover have "val 2 (map (\<lambda>k. stream_bit bytes (c * 5 + k)) [0 ..< 5]) < 2 ^ length (map (\<lambda>k. stream_bit bytes (c * 5 + k)) [0 ..< 5])"
    by (rule val_bound) (auto simp: stream_bit_lt simp del: upt_rec_numeral)
  ultimately show ?thesis by (simp del: upt_rec_numeral)
qed

lemma encode_digits: "encode_bytes bytes = map ((!) C32) (ulid_digits bytes)"
proof -
  have "foldl (\<lambda>v k. 2 * v + stream_bit bytes (c * 5 + k)) 0 xs = val 2 (map (\<lambda>k. stream_bit bytes (c * 5 + k)) xs)" for c xs
    by (simp add: val_def foldl_map)
  moreover have "val 2 (map (\<lambda>k. stream_bit bytes (c * 5 + k)) [0 ..< 5]) mod 32 =
      val 2 (map (\<lambda>k. stream_bit bytes (c * 5 + k)) [0 ..< 5])" if "c < 26" for c
    using ulid_digits_lt [of "val 2 (map (\<lambda>k. stream_bit bytes (c * 5 + k)) [0 ..< 5])" bytes] that
    by (simp add: ulid_digits_def del: upt_rec_numeral)
  ultimately show ?thesis
    unfolding encode_bytes_def ulid_digits_def by (simp add: o_def del: upt_rec_numeral)
qed

lemma byte_group:
  assumes "c < 16" "length bytes = 16" "\<forall>b \<in> set bytes. b < 256"
  shows "val 2 (map (\<lambda>k. stream_bit bytes (c * 8 + k)) [0 ..< 8]) = bytes ! c"
proof -
  have m: "map (\<lambda>k. stream_bit bytes (c * 8 + k)) [0 ..< 8] = map (\<lambda>k. bytes ! c div 2 ^ (8 - 1 - k) mod 2) [0 ..< 8]"
    using assms(1) by (auto simp: stream_bit_def simp del: upt_rec_numeral)
  have "bytes ! c < 2 ^ 8" using assms by simp
  then show ?thesis unfolding m val_bits by simp
qed

lemma ulid_digits_val:
  assumes "length bytes = 16" "\<forall>b \<in> set bytes. b < 256"
  shows "val 32 (ulid_digits bytes) = 4 * val 256 bytes"
proof -
  let ?g = "\<lambda>n m. map (\<lambda>c. map (\<lambda>k. stream_bit bytes (c * n + k)) [0 ..< n]) [0 ..< m]"
  have "val (2 ^ 5) (map (val 2) (?g 5 26)) = val 2 (concat (?g 5 26))"
    by (rule val_groups) (auto simp del: upt_rec_numeral)
  also have "concat (?g 5 26) = map (stream_bit bytes) [0 ..< 128] @ [0, 0]"
    unfolding concat_blocks using upt_add_eq_append [of 0 128 2] by (simp add: stream_bit_def del: upt_rec_numeral) (simp add: upt_rec stream_bit_def)
  also have "val 2 \<dots> = 4 * val 2 (map (stream_bit bytes) [0 ..< 16 * 8])" by (simp add: val_append)
  also have "map (stream_bit bytes) [0 ..< 16 * 8] = concat (?g 8 16)" by (rule concat_blocks [symmetric])
  also have "val 2 (concat (?g 8 16)) = val (2 ^ 8) (map (val 2) (?g 8 16))"
    by (rule val_groups [symmetric]) (auto simp del: upt_rec_numeral)
  also have "map (val 2) (?g 8 16) = map ((!) bytes) [0 ..< 16]"
    using byte_group [OF _ assms] by (simp del: upt_rec_numeral)
  also have "map ((!) bytes) [0 ..< 16] = bytes" using assms(1) map_nth by metis
  finally show ?thesis by (simp add: ulid_digits_def o_def del: upt_rec_numeral)
qed

lemma C32_mono: "i < j \<Longrightarrow> j < 32 \<Longrightarrow> C32 ! i < C32 ! j"
proof -
  have "sorted_wrt (<) C32" by code_simp
  moreover have "length C32 = 32" by code_simp
  ultimately show "i < j \<Longrightarrow> j < 32 \<Longrightarrow> C32 ! i < C32 ! j" by (simp add: sorted_wrt_iff_nth_less)
qed

lemma map_C32_less:
  assumes "length xs = length ys" "\<forall>d \<in> set xs. d < 32" "\<forall>d \<in> set ys. d < 32"
  shows "map ((!) C32) xs < map ((!) C32) ys \<longleftrightarrow> xs < ys"
  using assms
proof (induction xs ys rule: list_induct2)
  case (Cons x xs y ys)
  then show ?case using C32_mono [of x y] C32_mono [of y x] by (cases "x = y"; cases "x < y") auto
qed simp

text \<open>The text of an id compares as the 128-bit number it encodes.\<close>

lemma encode_order:
  assumes "length xs = 16" "\<forall>b \<in> set xs. b < 256" "length ys = 16" "\<forall>b \<in> set ys. b < 256"
  shows "encode_bytes xs < encode_bytes ys \<longleftrightarrow> val 256 xs < val 256 ys"
proof -
  have l: "length (ulid_digits xs) = length (ulid_digits ys)" by (simp add: ulid_digits_def)
  have "encode_bytes xs < encode_bytes ys \<longleftrightarrow> val 32 (ulid_digits xs) < val 32 (ulid_digits ys)"
    unfolding encode_digits
    using map_C32_less [OF l] val_less_lex [OF l, of 32] ulid_digits_lt by blast
  then show ?thesis using ulid_digits_val assms by simp
qed

section \<open>The counter and the time\<close>

lemma inc_rev_correct:
  assumes "\<forall>b \<in> set rs. b < 256" "inc_rev rs = (rs', c)"
  shows "length rs' = length rs \<and> (\<forall>b \<in> set rs'. b < 256) \<and>
    (if c then val 256 (rev rs') = 0 \<and> val 256 (rev rs) + 1 = 256 ^ length rs
     else val 256 (rev rs') = val 256 (rev rs) + 1)"
  using assms
proof (induction rs arbitrary: rs' c)
  case (Cons b bs)
  show ?case
  proof (cases "(b + 1) mod 256 = 0")
    case True
    then have "\<not> b + 1 < 256" using mod_less [of "b + 1" 256] by fastforce
    then have b: "b = 255" using Cons.prems(1) by simp
    obtain bs' c' where r: "inc_rev bs = (bs', c')" by force
    then have "rs' = 0 # bs'" "c' = c" using Cons.prems(2) True by (auto simp: Let_def)
    then show ?thesis using Cons.IH [OF _ r] Cons.prems(1) b by (auto simp: val_append split: if_splits)
  next
    case False
    then have "rs' = (b + 1) # bs" "\<not> c" using Cons.prems by (auto simp: Let_def mod_Suc split: if_splits)
    moreover have "b + 1 < 256" using False Cons.prems(1) by (cases "b = 255") auto
    ultimately show ?thesis using Cons.prems(1) by (simp add: val_append)
  qed
qed simp

lemma u80_inc_correct:
  assumes "\<forall>b \<in> set bs. b < 256" "u80_inc bs = (bs', c)"
  shows "length bs' = length bs" "\<forall>b \<in> set bs'. b < 256"
    "if c then val 256 bs' = 0 \<and> val 256 bs + 1 = 256 ^ length bs else val 256 bs' = val 256 bs + 1"
proof -
  obtain rs where r: "inc_rev (rev bs) = (rs, c)" "bs' = rev rs"
    using assms(2) by (auto simp: u80_inc_def split: prod.splits)
  show "length bs' = length bs" "\<forall>b \<in> set bs'. b < 256"
    "if c then val 256 bs' = 0 \<and> val 256 bs + 1 = 256 ^ length bs else val 256 bs' = val 256 bs + 1"
    using inc_rev_correct [OF _ r(1)] assms(1) r(2) by (auto split: if_splits)
qed

lemma time_bytes:
  "length (time_to_bytes t) = 6" "\<forall>b \<in> set (time_to_bytes t). b < 256" "t < 2 ^ 48 \<Longrightarrow> val 256 (time_to_bytes t) = t"
proof -
  show "length (time_to_bytes t) = 6" "\<forall>b \<in> set (time_to_bytes t). b < 256" by (auto simp: time_to_bytes_def)
  have "(2::nat) ^ (40 - 8 * i) = 256 ^ (6 - 1 - i)" if "i < 6" for i
  proof -
    have "40 - 8 * i = 8 * (6 - 1 - i)" using that by simp
    then show ?thesis by (simp add: power_mult)
  qed
  then have m: "time_to_bytes t = map (\<lambda>i. t div 256 ^ (6 - 1 - i) mod 256) [0 ..< 6]"
    unfolding time_to_bytes_def by (intro map_cong refl) (simp del: upt_rec_numeral)
  show "t < 2 ^ 48 \<Longrightarrow> val 256 (time_to_bytes t) = t" unfolding m val_digits by simp
qed

definition ulid_ok :: "ulid_state \<Rightarrow> bool" where
  "ulid_ok s \<longleftrightarrow> g_last_ms s < 2 ^ 48 \<and> length (g_rand s) = 10 \<and> (\<forall>b \<in> set (g_rand s). b < 256)"

definition rand_ok :: "nat list option \<Rightarrow> bool" where
  "rand_ok rnd = (case rnd of None \<Rightarrow> True | Some r \<Rightarrow> length r = 10 \<and> list_all (\<lambda>b. b < 256) r)"

definition ulid_val :: "ulid_state \<Rightarrow> nat" where
  "ulid_val s = g_last_ms s * 256 ^ 10 + val 256 (g_rand s)"

lemma ulid_val_bytes: "ulid_ok s \<Longrightarrow> val 256 (time_to_bytes (g_last_ms s) @ g_rand s) = ulid_val s"
  by (simp add: val_append time_bytes ulid_val_def ulid_ok_def)

lemma next_ms_later:
  assumes "next_ms clock i prev_ms = Some (Some ms)" shows "prev_ms < ms \<and> ms < 2 ^ 48"
proof -
  have "\<forall>m. Some ms = Some m \<longrightarrow> prev_ms < m \<and> m < 2 ^ 48"
  proof (rule next_ms.raw_induct [OF _ assms, of "\<lambda>clock i prev_ms y. \<forall>m. y = Some m \<longrightarrow> prev_ms < m \<and> m < 2 ^ 48"])
    fix f :: "(nat \<Rightarrow> (nat \<times> nat) option) \<Rightarrow> nat \<Rightarrow> nat \<Rightarrow> nat option option" and clock i prev_ms y
    assume ih: "\<And>clock i prev_ms y. f clock i prev_ms = Some y \<Longrightarrow> \<forall>m. y = Some m \<longrightarrow> prev_ms < m \<and> m < 2 ^ 48"
      and b: "(case get_epoch_ms_u48 (clock i) of None \<Rightarrow> Some None
        | Some ms \<Rightarrow> if ms \<le> prev_ms then f clock (Suc i) prev_ms else Some (Some ms)) = Some y"
    show "\<forall>m. y = Some m \<longrightarrow> prev_ms < m \<and> m < 2 ^ 48"
      using b ih [of clock "Suc i" prev_ms y] by (auto simp: get_epoch_ms_u48_def split: option.splits if_splits)
  qed
  then show ?thesis by simp
qed

text \<open>Waiting ends as soon as the clock shows a later millisecond.\<close>

lemma next_ms_returns:
  "get_epoch_ms_u48 (clock (i + n)) = Some ms \<Longrightarrow> prev_ms < ms \<Longrightarrow> next_ms clock i prev_ms \<noteq> None"
proof (induction n arbitrary: i)
  case 0
  then show ?case by (subst next_ms.simps) simp
next
  case (Suc n)
  then have "next_ms clock (Suc i) prev_ms \<noteq> None" by simp
  then show ?case by (subst next_ms.simps) (auto split: option.splits)
qed

lemma epoch_bound: "get_epoch_ms_u48 ts = Some ms \<Longrightarrow> ms < 2 ^ 48"
  by (auto simp: get_epoch_ms_u48_def)

lemma reseed_ok:
  assumes "rand_ok rnd" "ulid_ok s" "ms < 2 ^ 48"
  shows "ulid_ok (fst (reseed ms rnd s))"
  using assms by (auto simp: reseed_def ulid_ok_def rand_ok_def list_all_iff split: option.splits)

lemma ulid_val_reseed:
  assumes "rand_ok rnd" "ulid_ok s" "g_last_ms s < ms" "ms < 2 ^ 48"
  shows "ulid_val s < ulid_val (fst (reseed ms rnd s))"
proof -
  have "val 256 (g_rand s) < 256 ^ 10" using val_bound [of "g_rand s" 256] assms(2) by (simp add: ulid_ok_def)
  then have "ulid_val s < (g_last_ms s + 1) * 256 ^ 10" by (simp add: ulid_val_def)
  also have "\<dots> \<le> ms * 256 ^ 10" using assms(3) by (intro mult_le_mono1) simp
  also have "\<dots> \<le> ulid_val (fst (reseed ms rnd s))" by (simp add: ulid_val_def reseed_def split: option.splits)
  finally show ?thesis .
qed

text \<open>One call: the id encodes the new state, and the state has grown unless the clock went back.\<close>

lemma ulid_generate_step:
  assumes "ulid_generate clock rnd n s = Some (Some txt, s')" "ulid_ok s" "rand_ok rnd"
  shows "ulid_ok s' \<and> txt = encode_bytes (time_to_bytes (g_last_ms s') @ g_rand s') \<and>
    (\<forall>ms. get_epoch_ms_u48 (clock 0) = Some ms \<longrightarrow> g_last_ms s \<le> ms \<longrightarrow> ulid_val s < ulid_val s')"
proof -
  obtain ms where ms: "get_epoch_ms_u48 (clock 0) = Some ms" "ms < 2 ^ 48"
    using assms(1) epoch_bound by (auto simp: ulid_generate_def split: if_splits option.splits)
  have fin: "fst (finish r) = Some t \<Longrightarrow> snd r \<and> t = encode_bytes (time_to_bytes (g_last_ms (fst r)) @ g_rand (fst r))" for r t
    by (auto simp: finish_def split: if_splits)
  have sndf: "snd (finish r) = fst r" for r by (simp add: finish_def)
  show ?thesis
  proof (cases "ms = g_last_ms s")
    case False
    then have r: "(Some txt, s') = finish (reseed ms rnd s)"
      using assms(1) ms by (auto simp: ulid_generate_def split: if_splits)
    then have "s' = fst (reseed ms rnd s)" "fst (finish (reseed ms rnd s)) = Some txt" by (metis sndf snd_conv, metis fst_conv)
    then show ?thesis
      using fin reseed_ok [OF assms(3,2) ms(2)] ulid_val_reseed [OF assms(3,2) _ ms(2)] ms(1) False by auto
  next
    case True
    obtain r c where u: "u80_inc (g_rand s) = (r, c)" by force
    have g: "\<forall>b \<in> set (g_rand s). b < 256" "length (g_rand s) = 10" using assms(2) by (auto simp: ulid_ok_def)
    note inc = u80_inc_correct [OF g(1) u]
    have ok1: "ulid_ok (s\<lparr>g_rand := r\<rparr>)" using inc(1,2) g assms(2) by (simp add: ulid_ok_def)
    show ?thesis
    proof (cases c)
      case False
      then have "(Some txt, s') = finish (s\<lparr>g_rand := r\<rparr>, True)"
        using assms(1) ms True u by (auto simp: ulid_generate_def split: if_splits)
      then have "s' = s\<lparr>g_rand := r\<rparr>" "txt = encode_bytes (time_to_bytes (g_last_ms s') @ g_rand s')"
        by (auto simp: finish_def)
      then show ?thesis using ok1 inc(3) False by (simp add: ulid_val_def)
    next
      case carry: True
      obtain ms' where n: "next_ms clock 1 (g_last_ms s) = Some (Some ms')"
        "(Some txt, s') = finish (reseed ms' rnd (s\<lparr>g_rand := r\<rparr>))"
        using assms(1) ms True u carry by (auto simp: ulid_generate_def split: if_splits option.splits)
      have l: "g_last_ms s < ms'" "ms' < 2 ^ 48" using next_ms_later [OF n(1)] by auto
      have s': "s' = fst (reseed ms' rnd (s\<lparr>g_rand := r\<rparr>))" "fst (finish (reseed ms' rnd (s\<lparr>g_rand := r\<rparr>))) = Some txt"
        using n(2) by (metis sndf snd_conv, metis fst_conv)
      then have "reseed ms' rnd (s\<lparr>g_rand := r\<rparr>) = reseed ms' rnd s" using fin [OF s'(2)]
        by (auto simp: reseed_def split: option.splits)
      then have "ulid_val s < ulid_val s'" using ulid_val_reseed [OF assms(3,2) l] s'(1) by simp
      then show ?thesis using fin [OF s'(2)] s'(1) reseed_ok [OF assms(3) ok1 l(2)] by simp
    qed
  qed
qed

section \<open>Properties\<close>

text \<open>(C12) Identifiers grow: two successive successful calls give strings of 26 Crockford characters, the
  second strictly greater in byte order than the first, whenever the clock does not show an earlier
  millisecond than the first call used (in particular within the same millisecond).\<close>

theorem ulid_increasing:
  assumes "ulid_generate clock1 rnd1 n1 s0 = Some (Some id1, s1)" "ulid_generate clock2 rnd2 n2 s1 = Some (Some id2, s2)"
    and "ulid_ok s0" "rand_ok rnd1" "rand_ok rnd2" "get_epoch_ms_u48 (clock2 0) = Some ms" "g_last_ms s1 \<le> ms"
  shows "id1 < id2 \<and> length id1 = 26 \<and> length id2 = 26 \<and> list_all (\<lambda>c. c \<in> set C32) id2"
proof -
  note a = ulid_generate_step [OF assms(1,3,4)]
  then have ok1: "ulid_ok s1" by simp
  note b = ulid_generate_step [OF assms(2) ok1 assms(5)]
  have bytes: "length (time_to_bytes (g_last_ms s) @ g_rand s) = 16" "\<forall>x \<in> set (time_to_bytes (g_last_ms s) @ g_rand s). x < 256"
    if "ulid_ok s" for s using that time_bytes(1,2) by (auto simp: ulid_ok_def)
  have ok2: "ulid_ok s2" using b by simp
  have "val 256 (time_to_bytes (g_last_ms s1) @ g_rand s1) < val 256 (time_to_bytes (g_last_ms s2) @ g_rand s2)"
    using b assms(6,7) ulid_val_bytes [OF ok1] ulid_val_bytes [OF ok2] by simp
  then have "id1 < id2" using a b encode_order [OF bytes [OF ok1] bytes [OF ok2]] by simp
  moreover have "length C32 = 32" by code_simp
  then have "list_all (\<lambda>c. c \<in> set C32) id2"
    using b ulid_digits_lt by (auto simp: list_all_iff encode_digits)
  ultimately show ?thesis using a b by (simp add: encode_bytes_def)
qed

definition ulid_init :: ulid_state where
  "ulid_init = \<lparr>g_last_ms = 0, g_rand = replicate 10 0\<rparr>"

theorem ulid_increasing_witness:
  "the (fst (the (ulid_generate (\<lambda>_. Some (1, 0)) (Some (replicate 10 255)) 27 ulid_init))) <
   the (fst (the (ulid_generate (\<lambda>i. Some (1, i * 1000000)) (Some (replicate 10 7)) 27
     (snd (the (ulid_generate (\<lambda>_. Some (1, 0)) (Some (replicate 10 255)) 27 ulid_init))))))"
proof -
  let ?s1 = "\<lparr>g_last_ms = 1000, g_rand = replicate 10 255\<rparr>" and ?s2 = "\<lparr>g_last_ms = 1001, g_rand = replicate 10 7\<rparr>"
  let ?c2 = "\<lambda>i. Some (1, i * 1000000)"
  let ?i1 = "encode_bytes (time_to_bytes 1000 @ replicate 10 255)" and ?i2 = "encode_bytes (time_to_bytes 1001 @ replicate 10 7)"
  have u: "u80_inc (replicate 10 255) = (replicate 10 0, True)" by code_simp
  have n: "next_ms ?c2 1 1000 = Some (Some 1001)" by (subst next_ms.simps) (simp add: get_epoch_ms_u48_def)
  have a: "ulid_generate (\<lambda>_. Some (1, 0)) (Some (replicate 10 255)) 27 ulid_init = Some (Some ?i1, ?s1)"
    by (simp add: ulid_generate_def ulid_init_def ULID_STRING_LEN_def get_epoch_ms_u48_def finish_def reseed_def)
  have b: "ulid_generate ?c2 (Some (replicate 10 7)) 27 ?s1 = Some (Some ?i2, ?s2)"
    using u n by (simp add: ulid_generate_def ULID_STRING_LEN_def get_epoch_ms_u48_def finish_def reseed_def)
  have "?i1 < ?i2"
    using ulid_increasing [OF a b] by (simp add: ulid_ok_def ulid_init_def rand_ok_def get_epoch_ms_u48_def list_all_iff)
  then show ?thesis using a b by simp
qed

end
