(* ===== verification/Crypto.thy ===== *)
theory Crypto
  imports Prelude
begin

text \<open>
  \<open>src/crypto/crypto.c\<close>: Base64, and the wrappers around the vendored TweetNaCl signatures, whose
  \<open>crypto_sign_ed25519\<close> and \<open>crypto_sign_ed25519_open\<close> are arguments.  Bytes are natural numbers below
  256; the 32-bit accumulator of the decoder wraps.
\<close>

section \<open>Definitions\<close>

definition B64_TABLE :: string where
  "B64_TABLE = ''ABCDEFGHIJKLMNOPQRSTUVWXYZabcdefghijklmnopqrstuvwxyz0123456789+/''"

definition b64_decode_char :: "char \<Rightarrow> nat option" where
  "b64_decode_char c =
     (if is_upper_az c then Some (byte_of c - 65)
      else if is_lower_az c then Some (byte_of c - 97 + 26)
      else if is_digit c then Some (byte_of c - 48 + 52)
      else if c = CHR ''+'' then Some 62
      else if c = CHR ''/'' then Some 63
      else None)"

text \<open>The four characters of one 24-bit group with \<open>pad\<close> padding characters.\<close>

definition b64_group :: "nat \<Rightarrow> nat \<Rightarrow> string" where
  "b64_group v pad =
     [B64_TABLE ! (v div 2 ^ 18 mod 64), B64_TABLE ! (v div 2 ^ 12 mod 64),
      if pad < 2 then B64_TABLE ! (v div 2 ^ 6 mod 64) else CHR ''='',
      if pad < 1 then B64_TABLE ! (v mod 64) else CHR ''='']"

fun b64_encode_loop :: "nat list \<Rightarrow> string" where
  "b64_encode_loop [] = []"
| "b64_encode_loop [a] = b64_group (a * 2 ^ 16) 2"
| "b64_encode_loop [a, b] = b64_group (a * 2 ^ 16 + b * 2 ^ 8) 1"
| "b64_encode_loop (a # b # c # rest) = b64_group (a * 2 ^ 16 + b * 2 ^ 8 + c) 0 @ b64_encode_loop rest"

definition crypto_base64_encode :: "nat list \<Rightarrow> nat \<Rightarrow> string option" where
  "crypto_base64_encode xs out_cap =
     (let need = 4 * ((length xs + 2) div 3) + 1 in
      if out_cap < need then None else Some (b64_encode_loop xs))"

fun b64_decode_loop :: "nat \<Rightarrow> string \<Rightarrow> nat \<Rightarrow> nat \<Rightarrow> nat list \<Rightarrow> nat list option" where
  "b64_decode_loop out_cap [] acc bits out = Some out"
| "b64_decode_loop out_cap (c # cs) acc bits out =
     (if c = CHR ''='' then Some out
      else case b64_decode_char c of
             None \<Rightarrow> None
           | Some v \<Rightarrow>
               let acc' = (acc * 64 + v) mod 2 ^ 32; bits' = bits + 6 in
               if bits' \<ge> 8 then
                 (if length out \<ge> out_cap then None
                  else b64_decode_loop out_cap cs acc' (bits' - 8) (out @ [acc' div 2 ^ (bits' - 8) mod 256]))
               else b64_decode_loop out_cap cs acc' bits' out)"

definition crypto_base64_decode :: "string \<Rightarrow> nat \<Rightarrow> nat list option" where
  "crypto_base64_decode txt out_cap =
     (if txt = [] \<or> length txt mod 4 \<noteq> 0 then None else b64_decode_loop out_cap txt 0 0 [])"

definition ED25519_BYTES :: nat where "ED25519_BYTES = 64"

text \<open>\<open>sign m sk\<close> is the signed message, or the failure of the library call.\<close>

definition crypto_ed25519_sign ::
  "(nat list \<Rightarrow> nat list \<Rightarrow> nat list option) \<Rightarrow> nat list \<Rightarrow> nat list \<Rightarrow> nat \<Rightarrow> nat list option" where
  "crypto_ed25519_sign sign private_key message signature_out_len =
     (if length private_key < 64 \<or> signature_out_len < 64 then None
      else case sign message private_key of
             None \<Rightarrow> None
           | Some sm \<Rightarrow> if length sm \<noteq> length message + ED25519_BYTES then None else Some (take 64 sm))"

text \<open>\<open>sign_open sm pk\<close> is the opened message; the result is the code \<open>-1\<close>, \<open>0\<close> or \<open>1\<close>.\<close>

definition crypto_ed25519_verify ::
  "(nat list \<Rightarrow> nat list \<Rightarrow> nat list option) \<Rightarrow> nat list \<Rightarrow> nat list \<Rightarrow> nat list \<Rightarrow> int" where
  "crypto_ed25519_verify sign_open public_key message signature =
     (if length public_key < 32 \<or> length signature < 64 then - 1
      else case sign_open (take 64 signature @ message) public_key of
             None \<Rightarrow> 0
           | Some opened \<Rightarrow> if length opened \<noteq> length message \<or> opened \<noteq> message then 0 else 1)"

section \<open>Base64\<close>

lemma b64_table:
  assumes "v < 64" shows "b64_decode_char (B64_TABLE ! v) = Some v \<and> B64_TABLE ! v \<noteq> CHR ''=''"
proof -
  have m: "map b64_decode_char B64_TABLE = map Some [0 ..< 64]" by code_simp
  have l: "length B64_TABLE = 64" by code_simp
  have "b64_decode_char (B64_TABLE ! v) = map b64_decode_char B64_TABLE ! v" using assms l by simp
  then have d: "b64_decode_char (B64_TABLE ! v) = Some v" using assms unfolding m by (simp del: upt_rec_numeral)
  moreover have "b64_decode_char (CHR ''='') = None" by code_simp
  ultimately show ?thesis by auto
qed

text \<open>
  Of the accumulator only the \<open>bits\<close> low bits that are not yet written out matter: a character either fills the
  buffer to six bits or completes a byte and leaves two bits less.
\<close>

lemma decode_first_char:
  assumes "v < 64"
  shows "\<exists>acc'. b64_decode_loop cap (B64_TABLE ! v # cs) acc 0 out = b64_decode_loop cap cs acc' 6 out \<and> acc' mod 2 ^ 6 = v"
proof (intro exI conjI)
  show "b64_decode_loop cap (B64_TABLE ! v # cs) acc 0 out = b64_decode_loop cap cs ((acc * 64 + v) mod 2 ^ 32) 6 out"
    using b64_table [OF assms] by (simp add: Let_def)
  show "(acc * 64 + v) mod 2 ^ 32 mod 2 ^ 6 = v"
    using assms mod_mod_cancel [of "2 ^ 6" "2 ^ 32" "acc * 64 + v"] by simp
qed

lemma decode_next_char:
  assumes "v < 64" "2 \<le> bits" "bits \<le> 6" "length out < cap" "acc mod 2 ^ bits = w"
  shows "\<exists>acc'. b64_decode_loop cap (B64_TABLE ! v # cs) acc bits out =
      b64_decode_loop cap cs acc' (bits - 2) (out @ [(w * 64 + v) div 2 ^ (bits - 2)]) \<and>
    acc' mod 2 ^ (bits - 2) = (w * 64 + v) mod 2 ^ (bits - 2)"
proof (intro exI conjI)
  let ?x = "acc * 64 + v" and ?y = "w * 64 + v" and ?k = "bits - 2"
  have low: "?x mod 2 ^ (bits + 6) = ?y"
  proof -
    have "acc = acc div 2 ^ bits * 2 ^ bits + w" using assms(5) div_mult_mod_eq [of acc "2 ^ bits"] by simp
    then have "?x = (acc div 2 ^ bits * 2 ^ bits + w) * 64 + v" by simp
    also have "\<dots> = acc div 2 ^ bits * 2 ^ (bits + 6) + ?y" by (simp add: power_add algebra_simps)
    finally have "?x = acc div 2 ^ bits * 2 ^ (bits + 6) + ?y" .
    moreover have "?y < 2 ^ (bits + 6)"
    proof -
      have "w < 2 ^ bits" using assms(5) by auto
      then have "w + 1 \<le> 2 ^ bits" by simp
      then have "(w + 1) * 64 \<le> 2 ^ bits * 64" by (rule mult_le_mono1)
      then show ?thesis using assms(1) by (simp add: power_add)
    qed
    ultimately show ?thesis by (metis add.commute mod_less mod_mult_self1)
  qed
  have byte: "?x mod 2 ^ 32 div 2 ^ ?k mod 256 = ?y div 2 ^ ?k"
  proof -
    have "take_bit 8 (drop_bit ?k (take_bit 32 ?x)) = drop_bit ?k (take_bit (bits + 6) ?x)"
      using assms(2,3) by (simp add: drop_bit_take_bit take_bit_take_bit min_absorb1)
    then show ?thesis using low by (simp add: take_bit_eq_mod drop_bit_eq_div)
  qed
  then show "b64_decode_loop cap (B64_TABLE ! v # cs) acc bits out =
      b64_decode_loop cap cs (?x mod 2 ^ 32) (bits - 2) (out @ [?y div 2 ^ (bits - 2)])"
    using b64_table [OF assms(1)] assms by (simp add: Let_def)
  have "take_bit ?k (take_bit 32 ?x) = take_bit ?k (take_bit (bits + 6) ?x)"
    using assms(2,3) by (simp add: take_bit_take_bit min_absorb1)
  then show "?x mod 2 ^ 32 mod 2 ^ (bits - 2) = ?y mod 2 ^ (bits - 2)"
    using low by (simp add: take_bit_eq_mod)
qed

lemma low_bits_kept: "k \<le> 6 \<Longrightarrow> (w * 64 + v) mod 2 ^ k = v mod (2 ^ k :: nat)"
proof -
  assume "k \<le> 6"
  then have "w * 64 = (w * 2 ^ (6 - k)) * 2 ^ k" using power_add [of "2 :: nat" "6 - k" k] by simp
  then show ?thesis by (simp only: mod_mult_self3)
qed

lemma decode_second_char:
  assumes "v < 64" "length out < cap" "acc mod 2 ^ 6 = w"
  obtains acc' where "b64_decode_loop cap (B64_TABLE ! v # cs) acc 6 out = b64_decode_loop cap cs acc' 4 (out @ [(w * 64 + v) div 16])"
    "acc' mod 2 ^ 4 = v mod 16"
  using decode_next_char [OF assms(1) _ _ assms(2,3), of cs] low_bits_kept [of 4 w v]
  by (auto simp del: b64_decode_loop.simps)

lemma decode_third_char:
  assumes "v < 64" "length out < cap" "acc mod 2 ^ 4 = w"
  obtains acc' where "b64_decode_loop cap (B64_TABLE ! v # cs) acc 4 out = b64_decode_loop cap cs acc' 2 (out @ [(w * 64 + v) div 4])"
    "acc' mod 2 ^ 2 = v mod 4"
  using decode_next_char [OF assms(1) _ _ assms(2,3), of cs] low_bits_kept [of 2 w v]
  by (auto simp del: b64_decode_loop.simps)

lemma decode_fourth_char:
  assumes "v < 64" "length out < cap" "acc mod 2 ^ 2 = w"
  obtains acc' where "b64_decode_loop cap (B64_TABLE ! v # cs) acc 2 out = b64_decode_loop cap cs acc' 0 (out @ [w * 64 + v])"
  using decode_next_char [OF assms(1) _ _ assms(2,3), of cs]
  by (auto simp del: b64_decode_loop.simps)

text \<open>The groups the encoder writes, for one, two and three bytes.\<close>

lemma sextet: "z = (m * 64 + x) * k + y \<Longrightarrow> x < 64 \<Longrightarrow> y < k \<Longrightarrow> z div k mod 64 = (x :: nat)"
  by simp

lemma group_sextets:
  fixes a b c :: nat
  assumes "a < 256" "b < 256" "c < 256"
  shows "(a * 65536 + b * 256 + c) div 262144 mod 64 = a div 4"
    "(a * 65536 + b * 256 + c) div 4096 mod 64 = a mod 4 * 16 + b div 16"
    "(a * 65536 + b * 256 + c) div 64 mod 64 = b mod 16 * 4 + c div 64"
    "(a * 65536 + b * 256 + c) mod 64 = c mod 64"
proof -
  define ah al bh bl ch cl where ds: "ah = a div 4" "al = a mod 4" "bh = b div 16" "bl = b mod 16" "ch = c div 64" "cl = c mod 64"
  have a: "a = 4 * ah + al" and b: "b = 16 * bh + bl" and c: "c = 64 * ch + cl" by (simp_all add: ds)
  have lt: "al < 4" "bl < 16" "cl < 64" "ah < 64" "bh < 16" "ch < 4"
    using assms by (simp_all add: ds less_mult_imp_div_less)
  have "a * 65536 + b * 256 + c = (0 * 64 + ah) * 262144 + (al * 65536 + b * 256 + c)" using a by simp
  then show "(a * 65536 + b * 256 + c) div 262144 mod 64 = a div 4"
    unfolding ds(1) [symmetric] by (rule sextet) (use lt assms in simp_all)
  have "a * 65536 + b * 256 + c = (ah * 64 + (al * 16 + bh)) * 4096 + (bl * 256 + c)" using a b by simp
  then show "(a * 65536 + b * 256 + c) div 4096 mod 64 = a mod 4 * 16 + b div 16"
    unfolding ds(2,3) [symmetric] by (rule sextet) (use lt assms in simp_all)
  have "a * 65536 + b * 256 + c = ((a * 16 + bh) * 64 + (bl * 4 + ch)) * 64 + cl" using b c by simp
  then show "(a * 65536 + b * 256 + c) div 64 mod 64 = b mod 16 * 4 + c div 64"
    unfolding ds(4,5) [symmetric] by (rule sextet) (use lt in simp_all)
  have "a * 65536 + b * 256 + c = (a * 1024 + b * 4) * 64 + c" by simp
  then show "(a * 65536 + b * 256 + c) mod 64 = c mod 64" by (metis mod_mult_self3)
qed

lemma sextet_bounds:
  fixes a b c :: nat
  assumes "a < 256" "b < 256" "c < 256"
  shows "a div 4 < 64" "a mod 4 * 16 + b div 16 < 64" "b mod 16 * 4 + c div 64 < 64" "c mod 64 < 64"
proof -
  have "a mod 4 < 4" "b mod 16 < 16" "b div 16 < 16" "c div 64 < 4" using assms by (simp_all add: less_mult_imp_div_less)
  then show "a mod 4 * 16 + b div 16 < 64" "b mod 16 * 4 + c div 64 < 64" by linarith+
  show "a div 4 < 64" "c mod 64 < 64" using assms by (simp_all add: less_mult_imp_div_less)
qed

lemma sextets_join:
  fixes a b c :: nat
  assumes "a < 256" "b < 256" "c < 256"
  shows "(a div 4 * 64 + (a mod 4 * 16 + b div 16)) div 16 = a"
    "((a mod 4 * 16 + b div 16) mod 16 * 64 + (b mod 16 * 4 + c div 64)) div 4 = b"
    "(b mod 16 * 4 + c div 64) mod 4 * 64 + c mod 64 = c"
proof -
  have lt: "b div 16 < 16" "c div 64 < 4" using assms by (simp_all add: less_mult_imp_div_less)
  have "a div 4 * 64 + (a mod 4 * 16 + b div 16) = a * 16 + b div 16"
    using div_mult_mod_eq [of a 4] by linarith
  then show "(a div 4 * 64 + (a mod 4 * 16 + b div 16)) div 16 = a" using lt by simp
  have "(a mod 4 * 16 + b div 16) mod 16 = b div 16" using lt by simp
  moreover have "b div 16 * 64 + (b mod 16 * 4 + c div 64) = b * 4 + c div 64" using div_mult_mod_eq [of b 16] by linarith
  ultimately show "((a mod 4 * 16 + b div 16) mod 16 * 64 + (b mod 16 * 4 + c div 64)) div 4 = b" using lt by simp
  show "(b mod 16 * 4 + c div 64) mod 4 * 64 + c mod 64 = c" using lt by simp
qed

lemma decode_group:
  assumes "a < 256" "b < 256" "c < 256" "length out + 3 \<le> cap"
  obtains acc' where "b64_decode_loop cap (b64_group (a * 2 ^ 16 + b * 2 ^ 8 + c) 0 @ cs) acc 0 out =
    b64_decode_loop cap cs acc' 0 (out @ [a, b, c])"
proof -
  note lt = sextet_bounds [OF assms(1-3)]
  have g: "b64_group (a * 2 ^ 16 + b * 2 ^ 8 + c) 0 @ cs = B64_TABLE ! (a div 4) # B64_TABLE ! (a mod 4 * 16 + b div 16) #
      B64_TABLE ! (b mod 16 * 4 + c div 64) # B64_TABLE ! (c mod 64) # cs"
    using group_sextets [OF assms(1-3)] by (simp add: b64_group_def)
  obtain a1 where a1: "b64_decode_loop cap (b64_group (a * 2 ^ 16 + b * 2 ^ 8 + c) 0 @ cs) acc 0 out =
      b64_decode_loop cap (tl (b64_group (a * 2 ^ 16 + b * 2 ^ 8 + c) 0 @ cs)) a1 6 out" "a1 mod 2 ^ 6 = a div 4"
    using decode_first_char [OF lt(1)] unfolding g list.sel by blast
  have room: "length out < cap" "length (out @ [a]) < cap" "length (out @ [a, b]) < cap" using assms(4) by simp_all
  obtain a2 where a2: "b64_decode_loop cap (tl (b64_group (a * 2 ^ 16 + b * 2 ^ 8 + c) 0 @ cs)) a1 6 out =
      b64_decode_loop cap (B64_TABLE ! (b mod 16 * 4 + c div 64) # B64_TABLE ! (c mod 64) # cs) a2 4 (out @ [a])"
      "a2 mod 2 ^ 4 = (a mod 4 * 16 + b div 16) mod 16"
    using decode_second_char [OF lt(2) room(1) a1(2)] unfolding g list.sel sextets_join [OF assms(1-3)] by blast
  obtain a3 where a3: "b64_decode_loop cap (B64_TABLE ! (b mod 16 * 4 + c div 64) # B64_TABLE ! (c mod 64) # cs) a2 4 (out @ [a]) =
      b64_decode_loop cap (B64_TABLE ! (c mod 64) # cs) a3 2 (out @ [a, b])" "a3 mod 2 ^ 2 = (b mod 16 * 4 + c div 64) mod 4"
    using decode_third_char [OF lt(3) room(2) a2(2)] unfolding sextets_join [OF assms(1-3)] append.assoc append.simps by blast
  obtain a4 where "b64_decode_loop cap (B64_TABLE ! (c mod 64) # cs) a3 2 (out @ [a, b]) =
      b64_decode_loop cap cs a4 0 (out @ [a, b, c])"
    using decode_fourth_char [OF lt(4) room(3) a3(2)] unfolding sextets_join [OF assms(1-3)] append.assoc append.simps by blast
  then show thesis using that a1(1) a2(1) a3(1) by simp
qed

text \<open>The last group of one or two bytes: decoding stops at the padding.\<close>

lemma decode_pad: "b64_decode_loop cap (CHR ''='' # cs) acc bits out = Some out" by simp

lemma decode_one:
  assumes "a < 256" "length out < cap"
  shows "b64_decode_loop cap (b64_group (a * 2 ^ 16) 2) acc 0 out = Some (out @ [a])"
proof -
  have lt: "a div 4 < 64" "a mod 4 * 16 < 64" using sextet_bounds [OF assms(1), of 0 0] by auto
  have join: "(a div 4 * 64 + a mod 4 * 16) div 16 = a" using sextets_join(1) [OF assms(1), of 0 0] by simp
  have g: "b64_group (a * 2 ^ 16) 2 = [B64_TABLE ! (a div 4), B64_TABLE ! (a mod 4 * 16), CHR ''='', CHR ''='']"
    using group_sextets [OF assms(1), of 0 0] by (simp add: b64_group_def)
  obtain a1 where a1: "b64_decode_loop cap (b64_group (a * 2 ^ 16) 2) acc 0 out =
      b64_decode_loop cap [B64_TABLE ! (a mod 4 * 16), CHR ''='', CHR ''=''] a1 6 out" "a1 mod 2 ^ 6 = a div 4"
    using decode_first_char [OF lt(1)] unfolding g by blast
  show ?thesis
    using decode_second_char [OF lt(2) assms(2) a1(2), of "[CHR ''='', CHR ''='']"] unfolding a1(1) join decode_pad by blast
qed

lemma decode_two:
  assumes "a < 256" "b < 256" "length out + 2 \<le> cap"
  shows "b64_decode_loop cap (b64_group (a * 2 ^ 16 + b * 2 ^ 8) 1) acc 0 out = Some (out @ [a, b])"
proof -
  have lt: "a div 4 < 64" "a mod 4 * 16 + b div 16 < 64" "b mod 16 * 4 < 64" using sextet_bounds [OF assms(1,2), of 0] by auto
  have room: "length out < cap" "length (out @ [a]) < cap" using assms(3) by simp_all
  have g: "b64_group (a * 2 ^ 16 + b * 2 ^ 8) 1 =
      [B64_TABLE ! (a div 4), B64_TABLE ! (a mod 4 * 16 + b div 16), B64_TABLE ! (b mod 16 * 4), CHR ''='']"
    using group_sextets [OF assms(1,2), of 0] by (simp add: b64_group_def)
  obtain a1 where a1: "b64_decode_loop cap (b64_group (a * 2 ^ 16 + b * 2 ^ 8) 1) acc 0 out =
      b64_decode_loop cap [B64_TABLE ! (a mod 4 * 16 + b div 16), B64_TABLE ! (b mod 16 * 4), CHR ''=''] a1 6 out" "a1 mod 2 ^ 6 = a div 4"
    using decode_first_char [OF lt(1)] unfolding g by blast
  have j: "(a div 4 * 64 + (a mod 4 * 16 + b div 16)) div 16 = a" using sextets_join(1) [OF assms(1,2), of 0] by simp
  obtain a2 where a2: "b64_decode_loop cap [B64_TABLE ! (a mod 4 * 16 + b div 16), B64_TABLE ! (b mod 16 * 4), CHR ''=''] a1 6 out =
      b64_decode_loop cap [B64_TABLE ! (b mod 16 * 4), CHR ''=''] a2 4 (out @ [a])" "a2 mod 2 ^ 4 = (a mod 4 * 16 + b div 16) mod 16"
    using decode_second_char [OF lt(2) room(1) a1(2)] unfolding j by blast
  have b: "((a mod 4 * 16 + b div 16) mod 16 * 64 + b mod 16 * 4) div 4 = b" using sextets_join(2) [OF assms(1,2), of 0] by simp
  show ?thesis
    using decode_third_char [OF lt(3) room(2) a2(2), of "[CHR ''='']"] unfolding a1(1) a2(1) b decode_pad append.assoc append.simps by blast
qed

lemma decode_encode_loop:
  assumes "list_all (\<lambda>x. x < 256) xs" "length out + length xs \<le> cap"
  shows "b64_decode_loop cap (b64_encode_loop xs) acc 0 out = Some (out @ xs)"
  using assms
proof (induction xs arbitrary: acc out rule: b64_encode_loop.induct)
  case (4 a b c rest)
  then have h: "a < 256" "b < 256" "c < 256" "length out + 3 \<le> cap" by simp_all
  obtain acc' where "b64_decode_loop cap (b64_encode_loop (a # b # c # rest)) acc 0 out =
      b64_decode_loop cap (b64_encode_loop rest) acc' 0 (out @ [a, b, c])"
    using decode_group [OF h] unfolding b64_encode_loop.simps by blast
  then show ?case using 4 by simp
next
  case (2 a)
  then show ?case unfolding b64_encode_loop.simps by (intro decode_one) simp_all
next
  case (3 a b)
  then show ?case unfolding b64_encode_loop.simps by (intro decode_two) simp_all
qed simp

lemma encode_length: "length (b64_encode_loop xs) = 4 * ((length xs + 2) div 3)"
proof (induction xs rule: b64_encode_loop.induct)
  case (4 a b c rest)
  have "(length (a # b # c # rest) + 2) div 3 = Suc ((length rest + 2) div 3)" by simp
  then show ?case using 4 by (simp add: b64_group_def)
qed (simp_all add: b64_group_def)

text \<open>Base64 round trip: for a non-empty sequence of bytes xs and a buffer that holds the text and its
  terminator, encoding succeeds, and decoding the text with room for exactly the original bytes gives them back, whatever
  the length modulo three.  (The empty input encodes to the empty text, which the decoder refuses.)\<close>

theorem base64_roundtrip:
  assumes "list_all (\<lambda>x. x < 256) xs" "xs \<noteq> []" "4 * ((length xs + 2) div 3) < out_cap" "length xs \<le> cap"
  shows "\<exists>txt. crypto_base64_encode xs out_cap = Some txt \<and> length txt = 4 * ((length xs + 2) div 3) \<and>
    crypto_base64_decode txt cap = Some xs"
proof (intro exI conjI)
  show "crypto_base64_encode xs out_cap = Some (b64_encode_loop xs)" using assms(3) by (simp add: crypto_base64_encode_def)
  show l: "length (b64_encode_loop xs) = 4 * ((length xs + 2) div 3)" by (rule encode_length)
  have "b64_encode_loop xs \<noteq> []" using l assms(2) by (cases xs) auto
  then show "crypto_base64_decode (b64_encode_loop xs) cap = Some xs"
    using l decode_encode_loop [OF assms(1), of "[]" cap 0] assms(4) by (simp add: crypto_base64_decode_def)
qed

theorem base64_roundtrip_witness:
  "\<exists>txt. crypto_base64_encode [0, 255, 16, 77] 9 = Some txt \<and> length txt = 8 \<and> crypto_base64_decode txt 4 = Some [0, 255, 16, 77]"
  using base64_roundtrip [of "[0, 255, 16, 77]" 9 4] by simp

end
