(* ===== verification/Utf8.thy ===== *)
theory Utf8
  imports Prelude
begin

text \<open>
  Cutting UTF-8 text at a byte count.  \<open>channel_outbound_chunk_len\<close> and the summary stub of the agent back up over
  continuation bytes (\<open>(c & 0xC0) == 0x80\<close>); here is that loop, the structure of UTF-8 text as a sequence of
  runes, and the fact that a cut at a byte that is not a continuation byte falls between two runes.
\<close>

section \<open>Definitions\<close>

definition is_cont :: "char \<Rightarrow> bool" where
  "is_cont c \<longleftrightarrow> 128 \<le> byte_of c \<and> byte_of c < 192"

text \<open>\<open>while (n > 0 && is_cont(s[n])) n--\<close>\<close>

fun back_up :: "string \<Rightarrow> nat \<Rightarrow> nat" where
  "back_up s 0 = 0"
| "back_up s (Suc n) = (if is_cont (ch s (Suc n)) then back_up s n else Suc n)"

text \<open>The number of bytes a leading byte announces.\<close>

definition rune_len :: "char \<Rightarrow> nat option" where
  "rune_len c =
     (let b = byte_of c in
      if b < 128 then Some 1 else if b < 192 then None else if b < 224 then Some 2
      else if b < 240 then Some 3 else if b < 248 then Some 4 else None)"

function (sequential) utf8 :: "string \<Rightarrow> bool" where
  "utf8 [] = True"
| "utf8 (c # cs) =
     (case rune_len c of
        None \<Rightarrow> False
      | Some k \<Rightarrow> length cs \<ge> k - 1 \<and> list_all is_cont (take (k - 1) cs) \<and> utf8 (drop (k - 1) cs))"
  by pat_completeness auto
termination by (relation "measure length") auto

section \<open>Lemmas\<close>

lemma is_cont_nul [simp]: "\<not> is_cont nul"
  by (simp add: is_cont_def nul_def byte_of_def)

lemma back_up_le [simp]: "back_up s n \<le> n"
  by (induction n) (auto intro: le_SucI)

lemma back_up_boundary: "0 < back_up s n \<Longrightarrow> \<not> is_cont (ch s (back_up s n))"
  by (induction n) auto

lemma back_up_skips: "back_up s n < i \<Longrightarrow> i \<le> n \<Longrightarrow> is_cont (ch s i)"
  by (induction n) (auto split: if_splits simp: le_Suc_eq)

lemma rune_len_bounds: "rune_len c = Some k \<Longrightarrow> 1 \<le> k \<and> k \<le> 4 \<and> \<not> is_cont c"
  by (auto simp: rune_len_def Let_def is_cont_def split: if_splits)

text \<open>A cut before a byte that starts a rune (or at the end) leaves UTF-8 text on both sides.\<close>

lemma utf8_cut:
  assumes "utf8 s" "\<not> is_cont (ch s n)" "n \<le> length s"
  shows "utf8 (take n s) \<and> utf8 (drop n s)"
  using assms
proof (induction s arbitrary: n rule: utf8.induct)
  case (2 c cs)
  obtain k where k: "rune_len c = Some k" "k - 1 \<le> length cs" "list_all is_cont (take (k - 1) cs)" "utf8 (drop (k - 1) cs)"
    using 2(2) by (auto split: option.splits)
  note kb = rune_len_bounds [OF k(1)]
  show ?case
  proof (cases n)
    case (Suc m)
    have "m \<ge> k - 1"
    proof (rule ccontr)
      assume h: "\<not> k - 1 \<le> m"
      then have "is_cont (take (k - 1) cs ! m)" using k(2,3) unfolding list_all_length by (simp add: min_absorb2)
      then show False using 2(3) h k(2) by (simp add: Suc ch_def)
    qed
    then have m: "m = (k - 1) + (m - (k - 1))" by simp
    have "ch (drop (k - 1) cs) (m - (k - 1)) = ch (c # cs) n" using \<open>m \<ge> k - 1\<close> k(2) by (auto simp: Suc ch_def)
    then have ih: "utf8 (take (m - (k - 1)) (drop (k - 1) cs)) \<and> utf8 (drop (m - (k - 1)) (drop (k - 1) cs))"
      using 2(1) [OF k(1) k(4), of "m - (k - 1)"] 2(3,4) \<open>m \<ge> k - 1\<close> by (simp add: Suc)
    have "drop (k - 1) (take m cs) = take (m - (k - 1)) (drop (k - 1) cs)" by (simp add: drop_take)
    moreover have "take (k - 1) (take m cs) = take (k - 1) cs" using \<open>m \<ge> k - 1\<close> by (simp add: min_absorb1)
    moreover have "length (take m cs) \<ge> k - 1" using \<open>m \<ge> k - 1\<close> k(2) by simp
    ultimately have "utf8 (take n (c # cs))" using ih k by (simp add: Suc)
    moreover have "drop n (c # cs) = drop (m - (k - 1)) (drop (k - 1) cs)" using \<open>m \<ge> k - 1\<close> by (simp add: Suc)
    ultimately show ?thesis using ih by simp
  qed (use 2(2) in simp)
qed simp

text \<open>Backing up from four bytes or more never reaches the start of UTF-8 text.\<close>

lemma utf8_back_up_pos:
  assumes "utf8 s" "4 \<le> n" "n < length s"
  shows "0 < back_up s n"
proof (rule ccontr)
  assume "\<not> 0 < back_up s n"
  then have all: "is_cont (ch s i)" if "0 < i" "i \<le> n" for i using back_up_skips [of s n i] that by simp
  obtain c cs where s: "s = c # cs" using assms(3) by (cases s) auto
  obtain k where k: "rune_len c = Some k" "k - 1 \<le> length cs" "utf8 (drop (k - 1) cs)"
    using assms(1) s by (auto split: option.splits)
  have kb: "1 \<le> k" "k \<le> 4" using rune_len_bounds [OF k(1)] by auto
  have "is_cont (ch s k)" using all [of k] kb assms(2) by simp
  moreover have "ch s k = ch (drop (k - 1) cs) 0" using kb s by (cases k) (auto simp: ch_def)
  moreover have "\<not> is_cont (ch (drop (k - 1) cs) 0)"
    using k(3) rune_len_bounds by (cases "drop (k - 1) cs") (auto split: option.splits)
  ultimately show False by simp
qed

end
