(* ===== verification/Provider.thy ===== *)
theory Provider
  imports Cjson
begin

text \<open>
  The provider interface of \<open>src/providers/provider.h\<close> and the shared helpers of \<open>src/providers/provider_common.c\<close>: the
  growing response buffer, the model name each backend sends, the decision whether the next backend may be tried, and the
  parser of OpenAI-style answers.  A response keeps its text and tool calls; the flag \<open>error\<close> repeats the return code.
\<close>

section \<open>Definitions\<close>

subsection \<open>Types (\<open>providers/provider.h\<close>)\<close>

record provider_tool_def =
  td_name :: string
  td_description :: string
  td_parameters_json :: string

record provider_tool_call =
  tc_id :: "string option"
  tc_name :: "string option"
  tc_arguments :: "string option"

record provider_message =
  pm_role :: string
  pm_content :: string
  pm_tool_calls :: "provider_tool_call list"
  pm_tool_use_id :: "string option"

record provider_response =
  pr_content :: "string option"
  pr_tool_calls :: "provider_tool_call list"

type_synonym 'w chat_fn = "provider_message list \<Rightarrow> provider_tool_def list \<Rightarrow> 'w \<Rightarrow> (int \<times> provider_response) \<times> 'w"

definition plain_message :: "string \<Rightarrow> string \<Rightarrow> provider_message" where
  "plain_message role content = \<lparr>pm_role = role, pm_content = content, pm_tool_calls = [], pm_tool_use_id = None\<rparr>"

definition no_response :: provider_response where
  "no_response = \<lparr>pr_content = None, pr_tool_calls = []\<rparr>"

definition provider_response_clear :: "provider_response \<Rightarrow> provider_response" where
  "provider_response_clear r = no_response"

definition provider_set_error :: "provider_response \<Rightarrow> string \<Rightarrow> provider_response" where
  "provider_set_error r msg = r\<lparr>pr_content := Some msg\<rparr>"

subsection \<open>The response buffer\<close>

definition PROVIDER_RESP_BUF_INIT :: nat where "PROVIDER_RESP_BUF_INIT = 65536"
definition SIZE_MAX :: nat where "SIZE_MAX = 18446744073709551615"

record provider_curl_buf =
  cb_buf :: string
  cb_cap :: nat

text \<open>The doubling loop; the capacity it starts from is never 0.\<close>

function grow_cap :: "nat \<Rightarrow> nat \<Rightarrow> nat" where
  "grow_cap need cap = (if 0 < cap \<and> cap < need \<and> cap \<le> PROVIDER_RESP_BUF_INIT * 4 then grow_cap need (cap * 2) else cap)"
  by pat_completeness auto
termination by (relation "measure (\<lambda>(need, cap). need - cap)") auto

declare grow_cap.simps [simp del]

text \<open>\<open>ptr\<close> are the \<open>size * nmemb\<close> bytes of the chunk; the result 0 makes curl abort the transfer.\<close>

definition provider_write_cb :: "string \<Rightarrow> nat \<Rightarrow> nat \<Rightarrow> provider_curl_buf \<Rightarrow> nat \<times> provider_curl_buf" where
  "provider_write_cb ptr sz nmemb b =
     (if nmemb \<noteq> 0 \<and> sz > SIZE_MAX div nmemb then (0, b)
      else let n = sz * nmemb; need = length (cb_buf b) + n + 1 in
        if need > PROVIDER_RESP_BUF_INIT * 4 then (0, b)
        else if need > cb_cap b then
          let new_cap = grow_cap need (if cb_cap b \<noteq> 0 then cb_cap b * 2 else PROVIDER_RESP_BUF_INIT) in
          if need > new_cap then (0, b) else (n, \<lparr>cb_buf = cb_buf b @ take n ptr, cb_cap = new_cap\<rparr>)
        else (n, b\<lparr>cb_buf := cb_buf b @ take n ptr\<rparr>))"

subsection \<open>Model names\<close>

definition id_has_prefix :: "string \<Rightarrow> string \<Rightarrow> bool" where
  "id_has_prefix i pre \<longleftrightarrow> prefix pre i"

definition vendor_matches_backend :: "string \<Rightarrow> nat \<Rightarrow> string \<Rightarrow> bool" where
  "vendor_matches_backend model vendor_len backend \<longleftrightarrow>
     vendor_len = length backend \<and> lower (take (length backend) model) = lower backend"

definition bare_id_is_openai_family :: "string \<Rightarrow> bool" where
  "bare_id_is_openai_family model \<longleftrightarrow>
     id_has_prefix model ''gpt-'' \<or> id_has_prefix model ''chatgpt-'' \<or> id_has_prefix model ''o1'' \<or> id_has_prefix model ''o3'' \<or>
     id_has_prefix model ''o4''"

definition bare_model_for_backend :: "string \<Rightarrow> string \<Rightarrow> string option" where
  "bare_model_for_backend model backend =
     (if backend = ''openai'' \<and> id_has_prefix model ''claude'' then None
      else if backend = ''anthropic'' \<and> bare_id_is_openai_family model then None
      else Some model)"

definition provider_model_id_for_backend :: "string \<Rightarrow> string \<Rightarrow> string option" where
  "provider_model_id_for_backend model backend =
     (if model = [] \<or> backend = [] then Some model
      else case strchr_split (CHR ''/'') model of
        None \<Rightarrow> bare_model_for_backend model backend
      | Some (vendor, rest) \<Rightarrow>
          if vendor = [] \<or> rest = [] \<or> CHR ''/'' \<in> set rest then None
          else if vendor_matches_backend model (length vendor) backend then Some rest
          else None)"

definition provider_error_allows_fallback_retry :: "string option \<Rightarrow> bool" where
  "provider_error_allows_fallback_retry msg =
     (case msg of
        None \<Rightarrow> True
      | Some m \<Rightarrow>
          if m = [] then True
          else case strstr ''HTTP '' m of
            None \<Rightarrow> True
          | Some h \<Rightarrow>
              (case strtol_scan (drop 5 h) of
                 None \<Rightarrow> True
               | Some _ \<Rightarrow> let code = fst (strtol10 (drop 5 h)) in \<not> (400 \<le> code \<and> code \<le> 499)))"

subsection \<open>OpenAI-style answers\<close>

definition parse_tool_call :: "cjson \<Rightarrow> provider_tool_call" where
  "parse_tool_call tc =
     (let fn = cJSON_GetObjectItem tc ''function'';
          field = (\<lambda>k. case fn of Some f \<Rightarrow> if cJSON_IsObject f then string_of (cJSON_GetObjectItem f k) else None | None \<Rightarrow> None) in
      \<lparr>tc_id = string_of (cJSON_GetObjectItem tc ''id''), tc_name = field ''name'', tc_arguments = field ''arguments''\<rparr>)"

definition provider_parse_chat_completions_json ::
  "(string \<Rightarrow> cjson option) \<Rightarrow> string option \<Rightarrow> provider_response \<Rightarrow> int \<times> provider_response" where
  "provider_parse_chat_completions_json parse response_body response =
     (case response_body of
        None \<Rightarrow> (- 1, provider_set_error response ''missing response body'')
      | Some body \<Rightarrow>
     (case parse body of
        None \<Rightarrow> (- 1, provider_set_error response ''Failed to parse OpenAI response JSON'')
      | Some root \<Rightarrow>
          (case cJSON_GetObjectItem root ''error'' of
             Some (CObject e) \<Rightarrow>
               (- 1, provider_set_error response
                  (case string_of (cJSON_GetObjectItem (CObject e) ''message'') of Some m \<Rightarrow> m | None \<Rightarrow> ''OpenAI API error''))
           | _ \<Rightarrow>
               (case cJSON_GetObjectItem root ''choices'' of
                  Some (CArray (choice # _)) \<Rightarrow>
                    (case cJSON_GetObjectItem choice ''message'' of
                       Some (CObject m) \<Rightarrow>
                         (0, \<lparr>pr_content = Some (case string_of (cJSON_GetObjectItem (CObject m) ''content'') of Some c \<Rightarrow> c | None \<Rightarrow> []),
                              pr_tool_calls = (case cJSON_GetObjectItem (CObject m) ''tool_calls'' of
                                  Some (CArray tcs) \<Rightarrow> map parse_tool_call tcs | _ \<Rightarrow> [])\<rparr>)
                     | _ \<Rightarrow> (0, response))
                | _ \<Rightarrow> (0, response)))))"

section \<open>The buffer stays within bounds\<close>

definition curl_buf_ok :: "provider_curl_buf \<Rightarrow> bool" where
  "curl_buf_ok b \<longleftrightarrow> length (cb_buf b) < cb_cap b \<and> length (cb_buf b) < PROVIDER_RESP_BUF_INIT * 4"

lemma write_cb_ok:
  assumes "curl_buf_ok b" "length ptr = sz * nmemb"
  shows "curl_buf_ok (snd (provider_write_cb ptr sz nmemb b))"
    "fst (provider_write_cb ptr sz nmemb b) = sz * nmemb \<Longrightarrow> cb_buf (snd (provider_write_cb ptr sz nmemb b)) = cb_buf b @ ptr"
    "fst (provider_write_cb ptr sz nmemb b) = 0 \<Longrightarrow> cb_buf (snd (provider_write_cb ptr sz nmemb b)) = cb_buf b"
  using assms by (auto simp: provider_write_cb_def curl_buf_ok_def Let_def split: if_splits)

lemma grow_cap_reaches: "0 < cap \<Longrightarrow> need \<le> PROVIDER_RESP_BUF_INIT * 4 \<Longrightarrow> need \<le> grow_cap need cap"
  by (induction need cap rule: grow_cap.induct) (subst grow_cap.simps, auto)

text \<open>Within the limit no chunk is refused.\<close>

lemma write_cb_accepts:
  assumes "curl_buf_ok b" "length ptr = sz * nmemb" "length (cb_buf b) + sz * nmemb < PROVIDER_RESP_BUF_INIT * 4"
  shows "provider_write_cb ptr sz nmemb b = (sz * nmemb, snd (provider_write_cb ptr sz nmemb b))"
proof -
  have "\<not> (nmemb \<noteq> 0 \<and> sz > SIZE_MAX div nmemb)"
  proof
    assume h: "nmemb \<noteq> 0 \<and> SIZE_MAX div nmemb < sz"
    then have "SIZE_MAX < sz * nmemb" by (metis div_less_iff_less_mult neq0_conv)
    then show False using assms(3) by (simp add: SIZE_MAX_def PROVIDER_RESP_BUF_INIT_def)
  qed
  then show ?thesis
    using assms grow_cap_reaches [of "cb_cap b * 2" "length (cb_buf b) + sz * nmemb + 1"]
    by (auto simp: provider_write_cb_def Let_def curl_buf_ok_def not_less)
qed

section \<open>Errors that stop the chain\<close>

text \<open>The message the transports build for a status outside 200 to 299.\<close>

definition http_error_text :: "string \<Rightarrow> int \<Rightarrow> string" where
  "http_error_text label code = buf_trunc 160 (label @ '' HTTP '' @ int_str code)"

definition provider_labels :: "string list" where
  "provider_labels = [''OpenAI API'', ''Local provider'', ''Anthropic API'']"

lemma http_error_retry:
  assumes "label \<in> set provider_labels" "0 \<le> code" "code \<le> LLONG_MAX"
  shows "provider_error_allows_fallback_retry (Some (http_error_text label code)) \<longleftrightarrow> \<not> (400 \<le> code \<and> code \<le> 499)"
proof -
  have "nat code < 10 ^ Suc 19" using assms(2,3) by (simp add: LLONG_MAX_def nat_less_iff)
  then have "length (nat_str (nat code)) \<le> Suc 19" by (rule length_nat_str)
  moreover have i: "int_str code = nat_str (nat code)" using assms(2) by (simp add: int_str_def)
  ultimately have t: "http_error_text label code = label @ '' HTTP '' @ nat_str (nat code)"
    using assms(1) unfolding http_error_text_def i provider_labels_def by (intro buf_trunc_fits) auto
  have f: "strstr ''HTTP '' (label @ '' HTTP '' @ s) = Some (''HTTP '' @ s)" for s
    using assms(1) by (auto simp: provider_labels_def)
  have n: "label @ '' HTTP '' @ nat_str (nat code) \<noteq> []" by simp
  have "strtol_scan (nat_str (nat code)) = Some (code, [])" using strtol_scan_nat_str [of "[]" "nat code"] assms(2) by simp
  moreover have "strtol10 (nat_str (nat code)) = (code, [])" using strtol10_nat_str [of "nat code" "[]"] assms(2,3) by simp
  ultimately show ?thesis unfolding provider_error_allows_fallback_retry_def t option.case f using n by simp
qed

text \<open>A backend is asked only for models it can serve: a prefixed name resolves only for its own vendor.\<close>

lemma model_id_vendor:
  assumes "CHR ''/'' \<notin> set vendor" "vendor \<noteq> []" "rest \<noteq> []" "backend \<noteq> []" "CHR ''/'' \<notin> set rest"
  shows "provider_model_id_for_backend (vendor @ CHR ''/'' # rest) backend = (if lower vendor = lower backend then Some rest else None)"
proof -
  have "strchr_split (CHR ''/'') (vendor @ CHR ''/'' # rest) = Some (vendor, rest)"
    using assms(1) by (induction vendor) (auto simp: strchr_split_def)
  moreover have "lower vendor = lower backend \<Longrightarrow> length vendor = length backend" by (metis length_map lower_def)
  ultimately show ?thesis
    using assms by (auto simp: provider_model_id_for_backend_def vendor_matches_backend_def)
qed

end
