(* ===== verification/Memory_Store.thy ===== *)
theory Memory_Store
  imports Prelude "HOL-Library.List_Lexorder" "HOL-Library.Product_Lexorder"
begin

text \<open>
  The SQLite store of \<open>src/core/memory.c\<close>: memories, sessions, configuration values and cron jobs.
  SQLite itself is not modelled; a table is the list of its rows, each SQL statement of the source
  is written out as its effect on that list, and the statements succeed except where a primary key
  is violated.  The full-text search behind \<open>memory_recall\<close> (\<open>MATCH ... ORDER BY rank\<close>) is an argument, the
  list of contents it ranks.  Every operation fails when the database is not open.
\<close>

section \<open>Definitions\<close>

definition SESSION_LOAD_TOO_LARGE :: int where "SESSION_LOAD_TOO_LARGE = - 2"
definition CRON_JOB_TEXT_MAX :: nat where "CRON_JOB_TEXT_MAX = 32768"

record memory_row =
  mr_key :: string
  mr_content :: string
  mr_metadata :: string
  mr_created :: int
  mr_updated :: int

record session_row =
  sr_id :: string
  sr_messages :: string
  sr_created :: int
  sr_updated :: int

record cron_job_row =
  jr_id :: string
  jr_schedule :: string
  jr_message :: string
  jr_channel :: string
  jr_recipient :: string
  jr_next_run :: int
  jr_enabled :: int

record memdb =
  db_memories :: "memory_row list"
  db_sessions :: "session_row list"
  db_cron :: "cron_job_row list"
  db_config :: "(string \<times> string) list"

text \<open>\<open>INSERT ... ON CONFLICT(key) DO UPDATE\<close>.\<close>

definition upsert :: "('r \<Rightarrow> string) \<Rightarrow> string \<Rightarrow> 'r \<Rightarrow> ('r \<Rightarrow> 'r) \<Rightarrow> 'r list \<Rightarrow> 'r list" where
  "upsert key k new upd t = (if k \<in> key ` set t then map (\<lambda>r. if key r = k then upd r else r) t else t @ [new])"

definition memory_save :: "string \<Rightarrow> string \<Rightarrow> string option \<Rightarrow> int \<Rightarrow> memdb option \<Rightarrow> int \<times> memdb option" where
  "memory_save key content metadata now db =
     (case db of
        None \<Rightarrow> (- 1, None)
      | Some d \<Rightarrow>
          let m = (case metadata of Some x \<Rightarrow> x | None \<Rightarrow> []) in
          (0, Some (d\<lparr>db_memories := upsert mr_key key
             \<lparr>mr_key = key, mr_content = content, mr_metadata = m, mr_created = now, mr_updated = now\<rparr>
             (\<lambda>r. r\<lparr>mr_content := content, mr_metadata := m, mr_updated := now\<rparr>) (db_memories d)\<rparr>)))"

text \<open>The result buffer of \<open>memory_recall\<close>: contents separated by an empty line, cut at the capacity.\<close>

fun recall_loop :: "string list \<Rightarrow> nat \<Rightarrow> string \<Rightarrow> string" where
  "recall_loop [] max_len results = results"
| "recall_loop (content # rest) max_len results =
     (if \<not> length results < max_len - 1 then results
      else if length results > 0 \<and> length results + 2 \<ge> max_len then results
      else let r = (if length results > 0 then results @ [newline, newline] else results) in
        recall_loop rest max_len (r @ take (max_len - length r - 1) content))"

definition memory_recall :: "(string \<Rightarrow> memory_row list \<Rightarrow> string list) \<Rightarrow> string \<Rightarrow> nat \<Rightarrow> int \<Rightarrow> memdb option \<Rightarrow> string option" where
  "memory_recall match query max_len limit db =
     (case db of
        None \<Rightarrow> None
      | Some d \<Rightarrow>
          if max_len = 0 then None
          else Some (recall_loop (take (nat (if limit \<le> 0 then 10 else limit)) (match query (db_memories d))) max_len []))"

definition find_session :: "string \<Rightarrow> memdb \<Rightarrow> string option" where
  "find_session session_id d = map_option sr_messages (find (\<lambda>r. sr_id r = session_id) (db_sessions d))"

text \<open>The code and, when it is 0, the buffer.\<close>

definition session_load :: "string \<Rightarrow> nat \<Rightarrow> memdb option \<Rightarrow> int \<times> string" where
  "session_load session_id max_len db =
     (case db of
        None \<Rightarrow> (- 1, [])
      | Some d \<Rightarrow>
          if max_len = 0 then (- 1, [])
          else (case find_session session_id d of
                  None \<Rightarrow> (- 1, [])
                | Some msg \<Rightarrow> if length msg \<ge> max_len then (SESSION_LOAD_TOO_LARGE, []) else (0, msg)))"

definition put_session :: "int \<Rightarrow> string \<Rightarrow> string \<Rightarrow> memdb \<Rightarrow> memdb" where
  "put_session now session_id messages d =
     d\<lparr>db_sessions := upsert sr_id session_id
        \<lparr>sr_id = session_id, sr_messages = messages, sr_created = now, sr_updated = now\<rparr>
        (\<lambda>r. r\<lparr>sr_messages := messages, sr_updated := now\<rparr>) (db_sessions d)\<rparr>"

definition session_save :: "string \<Rightarrow> string \<Rightarrow> int \<Rightarrow> memdb option \<Rightarrow> int \<times> memdb option" where
  "session_save session_id messages now db =
     (case db of None \<Rightarrow> (- 1, None) | Some d \<Rightarrow> (0, Some (put_session now session_id messages d)))"

definition session_delete :: "string \<Rightarrow> memdb option \<Rightarrow> int \<times> memdb option" where
  "session_delete session_id db =
     (case db of
        None \<Rightarrow> (- 1, None)
      | Some d \<Rightarrow>
          (if session_id \<in> sr_id ` set (db_sessions d) then 0 else - 1,
           Some (d\<lparr>db_sessions := filter (\<lambda>r. sr_id r \<noteq> session_id) (db_sessions d)\<rparr>)))"

definition session_list :: "int \<Rightarrow> memdb option \<Rightarrow> string list option" where
  "session_list max_count db =
     (case db of
        None \<Rightarrow> None
      | Some d \<Rightarrow>
          if max_count \<le> 0 then None
          else Some (take (nat max_count) (map sr_id (sort_key (\<lambda>r. - sr_updated r) (db_sessions d)))))"

definition find_config :: "string \<Rightarrow> memdb \<Rightarrow> string option" where
  "find_config key d = map_option snd (find (\<lambda>r. fst r = key) (db_config d))"

definition config_kv_get :: "string \<Rightarrow> nat \<Rightarrow> memdb option \<Rightarrow> string option" where
  "config_kv_get key max_len db =
     (case db of
        None \<Rightarrow> None
      | Some d \<Rightarrow> if max_len = 0 then None else map_option (buf_trunc max_len) (find_config key d))"

definition put_config :: "string \<Rightarrow> string \<Rightarrow> memdb \<Rightarrow> memdb" where
  "put_config key val d = d\<lparr>db_config := upsert fst key (key, val) (\<lambda>r. (fst r, val)) (db_config d)\<rparr>"

definition config_kv_set :: "string \<Rightarrow> string \<Rightarrow> memdb option \<Rightarrow> int \<times> memdb option" where
  "config_kv_set key val db = (case db of None \<Rightarrow> (- 1, None) | Some d \<Rightarrow> (0, Some (put_config key val d)))"

definition copy_str_bounded :: "nat \<Rightarrow> string \<Rightarrow> string" where
  "copy_str_bounded dst_size src = (let n = (if length src \<ge> dst_size then dst_size - 1 else length src) in take n src)"

definition fill_cron_job_row :: "cron_job_row \<Rightarrow> cron_job_row option" where
  "fill_cron_job_row r =
     (if length (jr_schedule r) > CRON_JOB_TEXT_MAX \<or> length (jr_message r) > CRON_JOB_TEXT_MAX then None
      else Some (r\<lparr>jr_id := copy_str_bounded 128 (jr_id r), jr_channel := copy_str_bounded 64 (jr_channel r),
                  jr_recipient := copy_str_bounded 64 (jr_recipient r)\<rparr>))"

definition cron_job_create :: "cron_job_row \<Rightarrow> memdb option \<Rightarrow> int \<times> memdb option" where
  "cron_job_create row db =
     (case db of
        None \<Rightarrow> (- 1, None)
      | Some d \<Rightarrow>
          if length (jr_id row) \<ge> 128 \<or> length (jr_schedule row) > CRON_JOB_TEXT_MAX \<or> length (jr_message row) > CRON_JOB_TEXT_MAX
          then (- 1, db)
          else if jr_id row \<in> jr_id ` set (db_cron d) then (- 1, db)
          else (0, Some (d\<lparr>db_cron := db_cron d @ [row\<lparr>jr_enabled := (if jr_enabled row \<noteq> 0 then 1 else 0)\<rparr>]\<rparr>)))"

definition cron_job_delete :: "string \<Rightarrow> memdb option \<Rightarrow> int \<times> memdb option" where
  "cron_job_delete jid db =
     (case db of
        None \<Rightarrow> (- 1, None)
      | Some d \<Rightarrow>
          (if jid \<in> jr_id ` set (db_cron d) then 0 else - 1,
           Some (d\<lparr>db_cron := filter (\<lambda>r. jr_id r \<noteq> jid) (db_cron d)\<rparr>)))"

definition cron_job_toggle :: "string \<Rightarrow> memdb option \<Rightarrow> int \<times> memdb option" where
  "cron_job_toggle jid db =
     (case db of
        None \<Rightarrow> (- 1, None)
      | Some d \<Rightarrow>
          (if jid \<in> jr_id ` set (db_cron d) then 0 else - 1,
           Some (d\<lparr>db_cron := map (\<lambda>r. if jr_id r = jid then r\<lparr>jr_enabled := 1 - jr_enabled r\<rparr> else r) (db_cron d)\<rparr>)))"

definition cron_job_update_next_run :: "string \<Rightarrow> int \<Rightarrow> memdb option \<Rightarrow> int \<times> memdb option" where
  "cron_job_update_next_run jid next_run db =
     (case db of
        None \<Rightarrow> (- 1, None)
      | Some d \<Rightarrow> (0, Some (d\<lparr>db_cron := map (\<lambda>r. if jr_id r = jid then r\<lparr>jr_next_run := next_run\<rparr> else r) (db_cron d)\<rparr>)))"

text \<open>\<open>ORDER BY next_run ASC, id ASC\<close>.\<close>

definition run_order :: "cron_job_row \<Rightarrow> int \<times> string" where
  "run_order r = (jr_next_run r, jr_id r)"

fun fill_rows :: "cron_job_row list \<Rightarrow> cron_job_row list option" where
  "fill_rows [] = Some []"
| "fill_rows (r # rs) = (case fill_cron_job_row r of None \<Rightarrow> None | Some x \<Rightarrow> map_option (\<lambda>xs. x # xs) (fill_rows rs))"

definition cron_job_list :: "nat \<Rightarrow> memdb option \<Rightarrow> cron_job_row list option" where
  "cron_job_list max_count db =
     (case db of
        None \<Rightarrow> None
      | Some d \<Rightarrow> if max_count = 0 then None else fill_rows (take max_count (sort_key run_order (db_cron d))))"

definition is_due :: "int \<Rightarrow> cron_job_row \<Rightarrow> bool" where
  "is_due now r \<longleftrightarrow> jr_next_run r \<le> now \<and> jr_enabled r = 1"

definition due_rows :: "int \<Rightarrow> memdb \<Rightarrow> cron_job_row list" where
  "due_rows now d = sort_key run_order (filter (is_due now) (db_cron d))"

definition cron_job_list_due :: "int \<Rightarrow> nat \<Rightarrow> memdb option \<Rightarrow> (string \<times> int) list option" where
  "cron_job_list_due now max_count db =
     (case db of
        None \<Rightarrow> None
      | Some d \<Rightarrow>
          if max_count = 0 then None
          else Some (map (\<lambda>r. (copy_str_bounded 128 (jr_id r), jr_next_run r)) (take max_count (due_rows now d))))"

text \<open>A select: an error, no row, or a row.\<close>

datatype 'a row_result = Row_Error | No_Row | One_Row 'a

definition first_row :: "cron_job_row list \<Rightarrow> cron_job_row row_result" where
  "first_row rs = (case rs of [] \<Rightarrow> No_Row | r # _ \<Rightarrow> (case fill_cron_job_row r of None \<Rightarrow> Row_Error | Some x \<Rightarrow> One_Row x))"

definition cron_job_select_due :: "int \<Rightarrow> (int \<times> string) option \<Rightarrow> memdb option \<Rightarrow> cron_job_row row_result" where
  "cron_job_select_due now cursor db =
     (case db of
        None \<Rightarrow> Row_Error
      | Some d \<Rightarrow>
          (case cursor of
             None \<Rightarrow> first_row (due_rows now d)
           | Some (after_run, after_id) \<Rightarrow>
               if after_id = [] then Row_Error
               else first_row (filter (\<lambda>r. jr_next_run r > after_run \<or> (jr_next_run r = after_run \<and> jr_id r > after_id)) (due_rows now d))))"

definition cron_job_get_next_due :: "int \<Rightarrow> memdb option \<Rightarrow> cron_job_row row_result" where
  "cron_job_get_next_due now db = cron_job_select_due now None db"

definition cron_job_get_next_due_after :: "int \<Rightarrow> int \<Rightarrow> string \<Rightarrow> memdb option \<Rightarrow> cron_job_row row_result" where
  "cron_job_get_next_due_after now after_run after_id db = cron_job_select_due now (Some (after_run, after_id)) db"

definition cron_job_get_by_id :: "string \<Rightarrow> memdb option \<Rightarrow> cron_job_row row_result" where
  "cron_job_get_by_id jid db =
     (case db of None \<Rightarrow> Row_Error | Some d \<Rightarrow> first_row (filter (\<lambda>r. jr_id r = jid) (db_cron d)))"

definition memory_get_row_counts :: "memdb option \<Rightarrow> (nat \<times> nat \<times> nat) option" where
  "memory_get_row_counts db =
     map_option (\<lambda>d. (length (db_sessions d), length (db_memories d), length (db_cron d))) db"

section \<open>Stores of texts by name\<close>

text \<open>The interface the agent and the configuration code rely on.\<close>

locale text_store =
  fixes put :: "string \<Rightarrow> string \<Rightarrow> 's \<Rightarrow> 's" and get :: "string \<Rightarrow> 's \<Rightarrow> string option"
  assumes get_put: "get k (put k v s) = Some v"
    and get_put_other: "j \<noteq> k \<Longrightarrow> get j (put k v s) = get j s"
begin

lemma get_puts:
  "get k (foldl (\<lambda>s (j, v). put j v s) s kvs) =
     (case find (\<lambda>kv. fst kv = k) (rev kvs) of Some kv \<Rightarrow> Some (snd kv) | None \<Rightarrow> get k s)"
proof (induction kvs rule: rev_induct)
  case (snoc kv kvs)
  then show ?case by (cases kv) (auto simp: get_put get_put_other)
qed simp

lemma put_put_get: "get j (put k w (put k v s)) = get j (put k w s)"
  by (cases "j = k") (simp_all add: get_put get_put_other)

end

lemma find_map_same: "(\<And>r. P (f r) = P r) \<Longrightarrow> find P (map f t) = map_option f (find P t)"
  by (induction t) auto

lemma find_upsert:
  assumes "key new = k" "\<And>r. key (upd r) = key r"
  shows "find (\<lambda>r. key r = k) (upsert key k new upd t) =
      Some (case find (\<lambda>r. key r = k) t of Some r \<Rightarrow> upd r | None \<Rightarrow> new)"
    and "j \<noteq> k \<Longrightarrow> find (\<lambda>r. key r = j) (upsert key k new upd t) = find (\<lambda>r. key r = j) t"
proof -
  let ?f = "\<lambda>r. if key r = k then upd r else r"
  have same: "find (\<lambda>r. key r = j) (map ?f t) = map_option ?f (find (\<lambda>r. key r = j) t)" for j
    by (rule find_map_same) (use assms in auto)
  have none: "k \<notin> key ` set t \<Longrightarrow> find (\<lambda>r. key r = k) t = None" by (auto simp: find_None_iff)
  have some: "k \<in> key ` set t \<Longrightarrow> find (\<lambda>r. key r = k) t \<noteq> None" by (auto simp: find_None_iff)
  have app: "find (\<lambda>r. key r = i) (t @ [new]) = (case find (\<lambda>r. key r = i) t of Some r \<Rightarrow> Some r | None \<Rightarrow> if key new = i then Some new else None)" for i
    by (induction t) auto
  show "find (\<lambda>r. key r = k) (upsert key k new upd t) =
      Some (case find (\<lambda>r. key r = k) t of Some r \<Rightarrow> upd r | None \<Rightarrow> new)"
  proof (cases "find (\<lambda>r. key r = k) t")
    case None
    then show ?thesis using some app [of k] assms(1) by (auto simp: upsert_def)
  next
    case (Some r)
    then have "key r = k" by (auto simp: find_Some_iff)
    then show ?thesis using Some none same [of k] by (auto simp: upsert_def)
  qed
  assume j: "j \<noteq> k"
  have "map_option ?f (find (\<lambda>r. key r = j) t) = find (\<lambda>r. key r = j) t"
  proof (cases "find (\<lambda>r. key r = j) t")
    case (Some r)
    then have "key r = j" by (auto simp: find_Some_iff)
    then show ?thesis using Some j by simp
  qed simp
  then show "find (\<lambda>r. key r = j) (upsert key k new upd t) = find (\<lambda>r. key r = j) t"
    using same [of j] app [of j] assms(1) j by (auto simp: upsert_def split: option.splits)
qed

interpretation sess: text_store "put_session now" find_session
proof
  fix k v d
  show "find_session k (put_session now k v d) = Some v"
    using find_upsert(1) [of sr_id "\<lparr>sr_id = k, sr_messages = v, sr_created = now, sr_updated = now\<rparr>" k
      "\<lambda>r. r\<lparr>sr_messages := v, sr_updated := now\<rparr>" "db_sessions d"]
    by (auto simp: find_session_def put_session_def split: option.splits)
next
  fix j k v d assume "j \<noteq> (k :: string)"
  then show "find_session j (put_session now k v d) = find_session j d"
    using find_upsert(2) [of sr_id "\<lparr>sr_id = k, sr_messages = v, sr_created = now, sr_updated = now\<rparr>" k
      "\<lambda>r. r\<lparr>sr_messages := v, sr_updated := now\<rparr>" j "db_sessions d"]
    by (simp add: find_session_def put_session_def)
qed

interpretation conf: text_store put_config find_config
proof
  fix k v d
  show "find_config k (put_config k v d) = Some v"
    using find_upsert(1) [of fst "(k, v)" k "\<lambda>r. (fst r, v)" "db_config d"]
    by (auto simp: find_config_def put_config_def split: option.splits)
next
  fix j k v d assume "j \<noteq> (k :: string)"
  then show "find_config j (put_config k v d) = find_config j d"
    using find_upsert(2) [of fst "(k, v)" k "\<lambda>r. (fst r, v)" j "db_config d"]
    by (simp add: find_config_def put_config_def)
qed

section \<open>Invariant\<close>

text \<open>The primary keys, and the sizes \<open>cron_job_create\<close> checks.\<close>

definition db_wf :: "memdb \<Rightarrow> bool" where
  "db_wf d \<longleftrightarrow> distinct (map sr_id (db_sessions d)) \<and> distinct (map mr_key (db_memories d)) \<and>
     distinct (map fst (db_config d)) \<and> distinct (map jr_id (db_cron d)) \<and>
     (\<forall>r \<in> set (db_cron d). length (jr_id r) < 128 \<and> length (jr_schedule r) \<le> CRON_JOB_TEXT_MAX \<and>
        length (jr_message r) \<le> CRON_JOB_TEXT_MAX \<and> jr_enabled r \<in> {0, 1})"

lemma upsert_distinct:
  assumes "distinct (map key t)" "key new = k" "\<And>r. key (upd r) = key r"
  shows "distinct (map key (upsert key k new upd t))"
proof -
  have "map key (map (\<lambda>r. if key r = k then upd r else r) t) = map key t" using assms(3) by auto
  then show ?thesis using assms by (auto simp: upsert_def simp del: map_map)
qed

lemma map_jr_id_update: "map jr_id (map (\<lambda>r. if jr_id r = i then f r else r) t) = map jr_id t"
  if "\<And>r. jr_id (f r) = jr_id r"
  using that by auto

lemma db_wf_sessions: "db_wf d \<Longrightarrow> db_wf (put_session now k v d)"
  by (auto simp: db_wf_def put_session_def intro!: upsert_distinct)

lemma db_wf_config: "db_wf d \<Longrightarrow> db_wf (put_config k v d)"
  by (auto simp: db_wf_def put_config_def intro!: upsert_distinct)

lemma db_wf_memories: "db_wf d \<Longrightarrow> snd (memory_save k c m now (Some d)) = Some d' \<Longrightarrow> db_wf d'"
  by (auto simp: db_wf_def memory_save_def Let_def intro!: upsert_distinct)

lemma db_wf_session_delete: "db_wf d \<Longrightarrow> snd (session_delete k (Some d)) = Some d' \<Longrightarrow> db_wf d'"
  by (auto simp: db_wf_def session_delete_def intro!: distinct_map_filter)

lemma db_wf_create: "db_wf d \<Longrightarrow> snd (cron_job_create row (Some d)) = Some d' \<Longrightarrow> db_wf d'"
  by (auto simp: db_wf_def cron_job_create_def split: if_splits)

lemma db_wf_delete: "db_wf d \<Longrightarrow> snd (cron_job_delete i (Some d)) = Some d' \<Longrightarrow> db_wf d'"
  by (auto simp: db_wf_def cron_job_delete_def intro!: distinct_map_filter)

lemma db_wf_toggle: "db_wf d \<Longrightarrow> snd (cron_job_toggle i (Some d)) = Some d' \<Longrightarrow> db_wf d'"
  using map_jr_id_update [of "\<lambda>r. r\<lparr>jr_enabled := 1 - jr_enabled r\<rparr>" i "db_cron d"]
  by (fastforce simp: db_wf_def cron_job_toggle_def simp del: map_map)

lemma db_wf_next_run: "db_wf d \<Longrightarrow> snd (cron_job_update_next_run i n (Some d)) = Some d' \<Longrightarrow> db_wf d'"
  using map_jr_id_update [of "\<lambda>r. r\<lparr>jr_next_run := n\<rparr>" i "db_cron d"]
  by (fastforce simp: db_wf_def cron_job_update_next_run_def simp del: map_map)

lemma copy_str_fits [simp]: "length s < n \<Longrightarrow> copy_str_bounded n s = s"
  by (simp add: copy_str_bounded_def)

lemma fill_row_wf:
  assumes "db_wf d" "r \<in> set (db_cron d)"
  obtains x where "fill_cron_job_row r = Some x" "jr_id x = jr_id r" "jr_schedule x = jr_schedule r"
    "jr_message x = jr_message r" "jr_next_run x = jr_next_run r" "jr_enabled x = jr_enabled r"
  using assms by (auto simp: fill_cron_job_row_def db_wf_def)

lemma filter_distinct_key: "distinct (map key t) \<Longrightarrow> r \<in> set t \<Longrightarrow> filter (\<lambda>q. key q = key r) t = [r]"
  by (induction t) (auto simp: filter_empty_conv image_iff)

text \<open>One operation on the store, as the gateway and the agent issue them.\<close>

datatype db_op =
    Save_Memory string string "string option" | Save_Session string string | Delete_Session string
  | Set_Config string string | Create_Job cron_job_row | Delete_Job string | Toggle_Job string | Set_Next_Run string int

fun db_exec :: "int \<Rightarrow> db_op \<Rightarrow> memdb option \<Rightarrow> int \<times> memdb option" where
  "db_exec now (Save_Memory k c m) db = memory_save k c m now db"
| "db_exec now (Save_Session k v) db = session_save k v now db"
| "db_exec now (Delete_Session k) db = session_delete k db"
| "db_exec now (Set_Config k v) db = config_kv_set k v db"
| "db_exec now (Create_Job r) db = cron_job_create r db"
| "db_exec now (Delete_Job i) db = cron_job_delete i db"
| "db_exec now (Toggle_Job i) db = cron_job_toggle i db"
| "db_exec now (Set_Next_Run i n) db = cron_job_update_next_run i n db"

lemmas db_wf_ops = db_wf_memories db_wf_session_delete db_wf_create db_wf_delete db_wf_toggle db_wf_next_run

lemma db_exec_Some: "\<exists>e. snd (db_exec now op (Some c)) = Some e"
  by (cases op) (auto simp: memory_save_def session_save_def session_delete_def config_kv_set_def cron_job_create_def
    cron_job_delete_def cron_job_toggle_def cron_job_update_next_run_def Let_def)

lemma db_run_Some: "\<exists>d'. foldl (\<lambda>db (now, op). snd (db_exec now op db)) (Some d) ops = Some d'"
proof (induction ops arbitrary: d)
  case (Cons no ops)
  obtain e where "snd (db_exec (fst no) (snd no) (Some d)) = Some e" using db_exec_Some by blast
  then show ?case using Cons.IH [of e] by (simp add: split_def)
qed simp

lemma db_exec_wf: "db_wf d \<Longrightarrow> snd (db_exec now op (Some d)) = Some d' \<Longrightarrow> db_wf d'"
  by (cases op) (auto simp: session_save_def config_kv_set_def intro: db_wf_ops db_wf_sessions db_wf_config)

section \<open>Due jobs\<close>

lemma due_rows_set: "r \<in> set (due_rows now d) \<longleftrightarrow> r \<in> set (db_cron d) \<and> is_due now r"
  by (auto simp: due_rows_def)

lemma due_rows_sorted: "sorted (map run_order (due_rows now d))"
  by (simp add: due_rows_def)

lemma due_rows_strict:
  assumes "db_wf d" shows "sorted_wrt (\<lambda>r s. run_order r < run_order s) (due_rows now d)"
proof -
  have "distinct (map jr_id (filter (is_due now) (db_cron d)))" using assms by (simp add: db_wf_def distinct_map_filter)
  then have "distinct (map run_order (filter (is_due now) (db_cron d)))"
    by (auto simp: run_order_def distinct_map inj_on_def)
  then have "distinct (map run_order (due_rows now d))"
    by (simp add: due_rows_def distinct_map)
  then have "sorted_wrt (<) (map run_order (due_rows now d))"
    using due_rows_sorted by (simp add: strict_sorted_iff)
  then show ?thesis by (simp add: sorted_wrt_map)
qed

text \<open>The rows after a cursor are the rest of the sorted list.\<close>

lemma rows_after_cursor:
  assumes "sorted_wrt (\<lambda>r s. run_order r < run_order s) (xs @ r # ys)"
  shows "filter (\<lambda>q. jr_next_run q > jr_next_run r \<or> (jr_next_run q = jr_next_run r \<and> jr_id q > jr_id r)) (xs @ r # ys) = ys"
proof -
  have c: "(jr_next_run q > jr_next_run r \<or> (jr_next_run q = jr_next_run r \<and> jr_id q > jr_id r)) \<longleftrightarrow> run_order r < run_order q" for q
    by (auto simp: run_order_def less_prod_def)
  have "\<forall>q \<in> set xs. \<not> run_order r < run_order q" "\<forall>q \<in> set ys. run_order r < run_order q"
    using assms by (auto simp: sorted_wrt_append)
  then show ?thesis unfolding c by (simp add: filter_empty_conv filter_id_conv)
qed

section \<open>Recall\<close>

lemma recall_loop_bound:
  "length results < max_len \<Longrightarrow> length (recall_loop cs max_len results) < max_len"
proof (induction cs max_len results rule: recall_loop.induct)
  case (2 content rest max_len results)
  let ?r = "if length results > 0 then results @ [newline, newline] else results"
  show ?case
  proof (cases "\<not> length results < max_len - 1 \<or> length results > 0 \<and> length results + 2 \<ge> max_len")
    case True
    then show ?thesis using "2.prems" by auto
  next
    case False
    then have l: "length ?r < max_len" by auto
    have "length x < max_len \<Longrightarrow> length (x @ take (max_len - length x - 1) content) < max_len" for x by auto
    from this [OF l] have "length (?r @ take (max_len - length ?r - 1) content) < max_len" .
    then show ?thesis using "2.IH" [OF _ _ refl] False by (auto simp: Let_def)
  qed
qed simp

lemma recall_loop_prefix: "prefix results (recall_loop cs max_len results)"
proof (induction cs max_len results rule: recall_loop.induct)
  case (2 content rest max_len results)
  then show ?case by (auto simp: Let_def intro: append_prefixD split: if_splits)
qed simp

section \<open>Properties\<close>


definition demo_db :: memdb where
  "demo_db = \<lparr>db_memories = [], db_sessions = [],
     db_cron = [\<lparr>jr_id = ''b'', jr_schedule = ''interval:60'', jr_message = ''m'', jr_channel = ''cli'', jr_recipient = ''u'',
                 jr_next_run = 5, jr_enabled = 1\<rparr>,
                \<lparr>jr_id = ''a'', jr_schedule = ''at:9'', jr_message = ''n'', jr_channel = ''cli'', jr_recipient = ''u'',
                 jr_next_run = 5, jr_enabled = 1\<rparr>], db_config = []\<rparr>"


text \<open>(C11) The tables keep their primary keys and size limits under every sequence of operations, so
  that a stored job is always read back with its own id, schedule and message.\<close>

theorem store_invariant:
  assumes "foldl (\<lambda>db (now, op). snd (db_exec now op db)) (Some d) ops = Some d'" "db_wf d"
  shows "db_wf d' \<and> (r \<in> set (db_cron d') \<longrightarrow>
    (\<exists>x. cron_job_get_by_id (jr_id r) (Some d') = One_Row x \<and> jr_id x = jr_id r \<and>
       jr_schedule x = jr_schedule r \<and> jr_message x = jr_message r \<and> jr_next_run x = jr_next_run r))"
proof -
  have wf: "db_wf d'"
    using assms
  proof (induction ops arbitrary: d)
    case (Cons no ops)
    obtain now op where no: "no = (now, op)" by force
    obtain e where e: "snd (db_exec now op (Some d)) = Some e" using db_exec_Some by blast
    show ?case using Cons.IH [of e] Cons.prems no e db_exec_wf [OF Cons.prems(2) e] by simp
  qed simp
  show ?thesis
  proof (intro conjI impI)
    assume r: "r \<in> set (db_cron d')"
    have "filter (\<lambda>q. jr_id q = jr_id r) (db_cron d') = [r]"
      using wf r by (intro filter_distinct_key) (auto simp: db_wf_def)
    moreover obtain x where "fill_cron_job_row r = Some x" "jr_id x = jr_id r" "jr_schedule x = jr_schedule r"
      "jr_message x = jr_message r" "jr_next_run x = jr_next_run r" using fill_row_wf [OF wf r] by metis
    ultimately show "\<exists>x. cron_job_get_by_id (jr_id r) (Some d') = One_Row x \<and> jr_id x = jr_id r \<and>
       jr_schedule x = jr_schedule r \<and> jr_message x = jr_message r \<and> jr_next_run x = jr_next_run r"
      by (simp add: cron_job_get_by_id_def first_row_def)
  qed (rule wf)
qed

lemma demo_db_wf: "db_wf demo_db"
  by (simp add: db_wf_def demo_db_def CRON_JOB_TEXT_MAX_def)

theorem store_invariant_witness:
  "\<exists>d'. foldl (\<lambda>db (now, op). snd (db_exec now op db)) (Some demo_db)
       [(1, Toggle_Job ''a''), (2, Create_Job ((hd (db_cron demo_db))\<lparr>jr_id := ''c''\<rparr>)), (3, Delete_Job ''b'')] = Some d' \<and> db_wf d'"
proof -
  obtain d' where d: "foldl (\<lambda>db (now, op). snd (db_exec now op db)) (Some demo_db)
       [(1, Toggle_Job ''a''), (2, Create_Job ((hd (db_cron demo_db))\<lparr>jr_id := ''c''\<rparr>)), (3, Delete_Job ''b'')] = Some d'"
    using db_run_Some by blast
  then show ?thesis using store_invariant [OF d demo_db_wf] by blast
qed

text \<open>Walking the due jobs with the cursor visits each of them once, in the order of next run and
  id: the first call returns the first due row, and the call after a due row returns the one that
  follows it, or nothing after the last.\<close>

theorem due_cursor_walk:
  assumes "db_wf d" "due_rows now d = xs @ r # ys" "jr_id r \<noteq> []"
  shows "sorted (map run_order (due_rows now d)) \<and> distinct (due_rows now d) \<and>
    (xs = [] \<longrightarrow> (\<exists>x. cron_job_get_next_due now (Some d) = One_Row x \<and> jr_id x = jr_id r)) \<and>
    (case ys of
       [] \<Rightarrow> cron_job_get_next_due_after now (jr_next_run r) (jr_id r) (Some d) = No_Row
     | q # _ \<Rightarrow> \<exists>x. cron_job_get_next_due_after now (jr_next_run r) (jr_id r) (Some d) = One_Row x \<and> jr_id x = jr_id q)"
proof -
  have strict: "sorted_wrt (\<lambda>r s. run_order r < run_order s) (due_rows now d)" by (rule due_rows_strict [OF assms(1)])
  then have "sorted_wrt (<) (map run_order (due_rows now d))" by (simp add: sorted_wrt_map)
  then have dist: "distinct (due_rows now d)" using distinct_map strict_sorted_iff by blast
  have mem: "\<And>q. q \<in> set (due_rows now d) \<Longrightarrow> q \<in> set (db_cron d)" by (simp add: due_rows_set)
  have after: "cron_job_get_next_due_after now (jr_next_run r) (jr_id r) (Some d) = first_row ys"
    using rows_after_cursor [of xs r ys] strict assms(2,3)
    by (simp add: cron_job_get_next_due_after_def cron_job_select_due_def)
  have fst_row: "\<exists>x. first_row (q # qs) = One_Row x \<and> jr_id x = jr_id q" if q: "q \<in> set (db_cron d)" for q qs
  proof -
    obtain x where "fill_cron_job_row q = Some x" "jr_id x = jr_id q" using fill_row_wf [OF assms(1) q] by metis
    then show ?thesis by (simp add: first_row_def)
  qed
  have first: "xs = [] \<Longrightarrow> \<exists>x. cron_job_get_next_due now (Some d) = One_Row x \<and> jr_id x = jr_id r"
    using fst_row [of r ys] mem [of r] assms(2) by (simp add: cron_job_get_next_due_def cron_job_select_due_def)
  show ?thesis
  proof (cases ys)
    case Nil
    then show ?thesis using after first dist due_rows_sorted [of now d] by (simp add: first_row_def)
  next
    case (Cons q qs)
    then show ?thesis using after first dist due_rows_sorted [of now d] fst_row [of q qs] mem [of q] assms(2) by simp
  qed
qed

theorem due_cursor_walk_witness:
  "\<exists>x. cron_job_get_next_due_after 7 5 ''a'' (Some demo_db) = One_Row x \<and> jr_id x = ''b''"
proof -
  have d: "due_rows 7 demo_db = [] @ last (db_cron demo_db) # [hd (db_cron demo_db)]" by code_simp
  have n: "jr_id (last (db_cron demo_db)) \<noteq> []" by (simp add: demo_db_def)
  show ?thesis using due_cursor_walk [OF demo_db_wf d n] by (simp add: demo_db_def)
qed

text \<open>A recall never overruns its buffer, whatever the search returns, and starts with the
  highest-ranked match, cut only at the end of the buffer.\<close>

theorem recall_bounded:
  assumes "memory_recall match query max_len limit (Some d) = Some results"
  shows "length results < max_len \<and>
    (match query (db_memories d) \<noteq> [] \<longrightarrow> prefix (take (max_len - 1) (hd (match query (db_memories d)))) results)"
proof -
  let ?cs = "take (nat (if limit \<le> 0 then 10 else limit)) (match query (db_memories d))"
  have r: "results = recall_loop ?cs max_len []" "0 < max_len"
    using assms by (auto simp: memory_recall_def split: if_splits)
  have "length results < max_len" using recall_loop_bound [of "[]" max_len ?cs] r by simp
  moreover have "prefix (take (max_len - 1) (hd (match query (db_memories d)))) results" if ne: "match query (db_memories d) \<noteq> []"
  proof -
    obtain c cs where c: "?cs = c # cs" "c = hd (match query (db_memories d))"
      using ne by (cases "match query (db_memories d)"; cases "nat (if limit \<le> 0 then 10 else limit)") (auto split: if_splits)
    show ?thesis
    proof (cases "0 < max_len - 1")
      case True
      then show ?thesis
        using recall_loop_prefix [of "take (max_len - 1) c" cs max_len] unfolding r c(1) by (simp add: c(2))
    next
      case False
      then show ?thesis by simp
    qed
  qed
  ultimately show ?thesis by simp
qed

theorem recall_bounded_witness:
  "length (the (memory_recall (\<lambda>q ms. [''abc'', ''defg'']) ''q'' 8 0 (Some demo_db))) < 8"
proof -
  have "memory_recall (\<lambda>q ms. [''abc'', ''defg'']) ''q'' 8 0 (Some demo_db) = Some (''abc'' @ [newline, newline] @ ''de'')"
    by code_simp
  then show ?thesis using recall_bounded by simp
qed

end
