(* ===== verification/Agent_Session.thy ===== *)
theory Agent_Session
  imports Utf8 Provider Memory_Store
begin

text \<open>
  The session side of \<open>src/core/agent.c\<close>: the history as a JSON array of messages, its compaction by a summary the
  model writes, its conversion to provider messages, and the buffers of the system prompt.  Parsing and printing JSON
  are the arguments \<open>parse\<close> and \<open>print\<close>; \<open>provider->chat\<close> is the argument \<open>chat\<close>, a function on the state \<open>'w\<close> of
  everything outside.  Allocation succeeds.
\<close>

section \<open>Definitions\<close>

definition SYSTEM_PROMPT_MAX :: nat where "SYSTEM_PROMPT_MAX = 65536"
definition SESSION_JSON_MAX :: nat where "SESSION_JSON_MAX = 131072"
definition RECALL_BUF_SIZE :: nat where "RECALL_BUF_SIZE = 8192"
definition RECALL_LIMIT :: int where "RECALL_LIMIT = 5"
definition HISTORY_CONTENT_MAX :: nat where "HISTORY_CONTENT_MAX = 131072"
definition MAX_HISTORY_MESSAGES :: nat where "MAX_HISTORY_MESSAGES = 40"
definition ROLE_LEN :: nat where "ROLE_LEN = 16"
definition MAX_TOOL_CALLS :: nat where "MAX_TOOL_CALLS = 16"
definition TOOL_RESULT_SIZE :: nat where "TOOL_RESULT_SIZE = 4096"
definition SUMMARY_SOURCE_MAX :: nat where "SUMMARY_SOURCE_MAX = 65536"
definition SUMMARY_RESULT_MAX :: nat where "SUMMARY_RESULT_MAX = 4096"

subsection \<open>Compaction\<close>

definition copy_printed_session_json :: "nat \<Rightarrow> string option \<Rightarrow> string option" where
  "copy_printed_session_json dst_size printed =
     (case printed of None \<Rightarrow> None | Some p \<Rightarrow> if length p \<ge> dst_size then None else Some p)"

definition SUMMARIZE_SYSTEM :: string where
  "SUMMARIZE_SYSTEM = ''Summarize the following conversation in one short paragraph. Output only the summary, no preamble.''"

definition SUMMARY_TRUNC_MARKER :: string where "SUMMARY_TRUNC_MARKER = ''[truncated]''"

definition summary_line :: "string \<Rightarrow> string \<Rightarrow> string" where
  "summary_line role content = role @ '': '' @ content @ [newline]"

definition summary_source_append :: "nat \<Rightarrow> string \<Rightarrow> string \<Rightarrow> string \<Rightarrow> string option" where
  "summary_source_append cap buf role content =
     (if length buf \<ge> cap - 1 then None
      else if length (summary_line role content) \<ge> cap - length buf then None
      else Some (buf @ summary_line role content))"

definition summary_line_never_fits :: "string \<Rightarrow> string \<Rightarrow> bool" where
  "summary_line_never_fits role content \<longleftrightarrow> length role + 2 + length content + 1 \<ge> SUMMARY_SOURCE_MAX"

definition summary_source_append_truncated :: "nat \<Rightarrow> string \<Rightarrow> string \<Rightarrow> string \<Rightarrow> string option" where
  "summary_source_append_truncated cap buf role content =
     (if length buf + 1 \<ge> cap then None
      else let remain = cap - length buf;
               fixed = length role + 2 + length SUMMARY_TRUNC_MARKER + 1 + 1 in
        if remain \<le> fixed then None
        else let cut = back_up content (if remain - fixed > length content then length content else remain - fixed);
                 line = summary_line role (take cut content @ SUMMARY_TRUNC_MARKER) in
          if length line \<ge> remain then None else Some (buf @ line))"

definition item_role :: "cjson \<Rightarrow> string" where
  "item_role item = (case string_of (cJSON_GetObjectItem item ''role'') of Some r \<Rightarrow> r | None \<Rightarrow> ''user'')"

definition item_content :: "cjson \<Rightarrow> string" where
  "item_content item = (case string_of (cJSON_GetObjectItem item ''content'') of Some c \<Rightarrow> c | None \<Rightarrow> [])"

definition kept_tail_starts_with_user :: "cjson \<Rightarrow> nat \<Rightarrow> bool" where
  "kept_tail_starts_with_user root start =
     (case cJSON_GetArrayItem root start of
        None \<Rightarrow> False
      | Some item \<Rightarrow> cJSON_IsObject item \<and> string_of (cJSON_GetObjectItem item ''role'') = Some ''user'')"

text \<open>\<open>cJSON_ReplaceItemInObject\<close>: the first member whose name matches ignoring case gets the new name and value.\<close>

fun replace_member :: "string \<Rightarrow> cjson \<Rightarrow> (string \<times> cjson) list \<Rightarrow> (string \<times> cjson) list" where
  "replace_member name v [] = []"
| "replace_member name v ((k, x) # ms) = (if lower name = lower k then (name, v) # ms else (k, x) # replace_member name v ms)"

definition fold_summary_into_message :: "cjson \<Rightarrow> string \<Rightarrow> cjson" where
  "fold_summary_into_message item summary =
     (let merged = CString (summary @ [newline, newline] @ item_content item) in
      if cJSON_GetObjectItem item ''content'' \<noteq> None then CObject (replace_member ''content'' merged (members item))
      else cJSON_AddItemToObject item ''content'' merged)"

definition message_object :: "string \<Rightarrow> string \<Rightarrow> cjson" where
  "message_object role content = CObject [(''role'', CString role), (''content'', CString content)]"

definition append_summary_user :: "cjson list \<Rightarrow> string \<Rightarrow> cjson list" where
  "append_summary_user arr summary = arr @ [message_object ''user'' summary]"

text \<open>
  The loop over the messages to summarise: the source text, the index of the first one that is not in it (\<open>n\<close>, their
  number, when all are), and whether the summary has to be folded into it.
\<close>

function summary_loop :: "cjson \<Rightarrow> nat \<Rightarrow> nat \<Rightarrow> string \<Rightarrow> string \<times> nat \<times> bool" where
  "summary_loop root n i buf =
     (if i \<ge> n then (buf, n, False)
      else case cJSON_GetArrayItem root i of
        None \<Rightarrow> summary_loop root n (i + 1) buf
      | Some item \<Rightarrow>
          if \<not> cJSON_IsObject item then summary_loop root n (i + 1) buf
          else case summary_source_append SUMMARY_SOURCE_MAX buf (item_role item) (item_content item) of
            Some buf' \<Rightarrow> summary_loop root n (i + 1) buf'
          | None \<Rightarrow>
              (case (if buf = [] \<and> summary_line_never_fits (item_role item) (item_content item)
                     then summary_source_append_truncated SUMMARY_SOURCE_MAX buf (item_role item) (item_content item) else None) of
                 Some buf' \<Rightarrow> summary_loop root n (i + 1) buf'
               | None \<Rightarrow> (buf, i, i = 1 \<and> item_role item \<noteq> ''user'')))"
  by pat_completeness auto
termination by (relation "measure (\<lambda>(root, n, i, buf). n - i)") auto

declare summary_loop.simps [simp del]

text \<open>The new array: the summary in front of, or folded into, the messages that are kept.\<close>

definition compacted_items :: "cjson list \<Rightarrow> nat \<Rightarrow> bool \<Rightarrow> bool \<Rightarrow> string \<Rightarrow> cjson list option" where
  "compacted_items items start merge fold_into summary =
     (if \<not> merge \<and> \<not> fold_into then Some (append_summary_user [] summary @ drop start items)
      else case drop start items of
        [] \<Rightarrow> None
      | item # rest \<Rightarrow> Some (fold_summary_into_message item summary # rest))"

definition compact_session_via_llm ::
  "(string \<Rightarrow> cjson option) \<Rightarrow> (cjson \<Rightarrow> string option) \<Rightarrow> 'w chat_fn \<Rightarrow> string \<Rightarrow> nat \<Rightarrow> nat \<Rightarrow> nat \<Rightarrow> 'w \<Rightarrow> int \<times> string \<times> 'w" where
  "compact_session_via_llm parse print chat session_buf session_buf_size msg_count max_ctx w =
     (if msg_count \<le> max_ctx \<or> max_ctx < 2 then (0, session_buf, w)
      else case parse session_buf of
        None \<Rightarrow> (- 1, session_buf, w)
      | Some root \<Rightarrow>
          if \<not> cJSON_IsArray root then (- 1, session_buf, w)
          else let to_summarize_n = msg_count - max_ctx + 1;
                   (source_buf, next_unsummarized, fold_into_oversized) = summary_loop root to_summarize_n 0 [] in
            if source_buf = [] then (- 1, session_buf, w)
            else let ((err, resp), w') = chat [plain_message ''system'' SUMMARIZE_SYSTEM, plain_message ''user'' source_buf] [] w in
              if err \<noteq> 0 then (- 1, session_buf, w')
              else case pr_content resp of
                None \<Rightarrow> (- 1, session_buf, w')
              | Some content \<Rightarrow>
                  let summary = buf_trunc SUMMARY_RESULT_MAX content;
                      keep = max_ctx - 1;
                      start = (if next_unsummarized < to_summarize_n then next_unsummarized else msg_count - keep);
                      merge = kept_tail_starts_with_user root start in
                  (case compacted_items (take msg_count (array_items root)) start merge fold_into_oversized summary of
                     None \<Rightarrow> (- 1, session_buf, w')
                   | Some new_arr \<Rightarrow>
                       (case copy_printed_session_json session_buf_size (print (CArray new_arr)) of
                          None \<Rightarrow> (- 1, session_buf, w')
                        | Some buf \<Rightarrow> (0, buf, w'))))"

subsection \<open>Prompt and history\<close>

definition AGENT_LOCAL_OFFLINE_NOTE :: string where
  "AGENT_LOCAL_OFFLINE_NOTE =
     [newline, newline] @ ''[Operating mode: local/offline inference]'' @ [newline] @
     ''You are served by a local model; capabilities may be reduced compared to larger cloud models. '' @
     ''When relevant, acknowledge limits, avoid claiming access or tools you do not have, and prefer concise, accurate answers.''"

definition append_local_offline_note_if_needed :: "string \<Rightarrow> nat \<Rightarrow> string \<Rightarrow> string" where
  "append_local_offline_note_if_needed backend buf_size system_buf =
     (if \<not> (backend \<noteq> [] \<and> lower backend = ''local'') then system_buf
      else if length system_buf \<ge> buf_size then system_buf
      else system_buf @ take (buf_size - length system_buf - 1) AGENT_LOCAL_OFFLINE_NOTE)"

definition MEMORY_PREFIX :: string where
  "MEMORY_PREFIX = [newline, newline] @ ''Relevant memories:'' @ [newline, newline]"

definition append_memories_to_system :: "nat \<Rightarrow> string \<Rightarrow> string \<Rightarrow> string" where
  "append_memories_to_system buf_size recall_buf system_buf =
     (if system_buf = [] \<or> recall_buf = [] then system_buf
      else if length system_buf \<ge> buf_size \<or> buf_size - length system_buf < length MEMORY_PREFIX + 2 then system_buf
      else system_buf @ MEMORY_PREFIX @ take (buf_size - length system_buf - length MEMORY_PREFIX - 1) recall_buf)"

definition copy_response_to_buf :: "nat \<Rightarrow> string option \<Rightarrow> string" where
  "copy_response_to_buf response_size content = (case content of None \<Rightarrow> [] | Some c \<Rightarrow> buf_trunc response_size c)"

text \<open>The slots filled from the items: \<open>count\<close> of them so far, with \<open>used\<close> bytes of content.\<close>

fun history_loop :: "cjson list \<Rightarrow> nat \<Rightarrow> nat \<Rightarrow> nat \<Rightarrow> nat \<Rightarrow> nat \<Rightarrow> provider_message list" where
  "history_loop [] max_messages role_size content_size count used = []"
| "history_loop (item # items) max_messages role_size content_size count used =
     (if \<not> count < max_messages then []
      else if \<not> cJSON_IsObject item then history_loop items max_messages role_size content_size count used
      else if length (item_role item) \<ge> ROLE_LEN \<or> count * ROLE_LEN + ROLE_LEN > role_size then []
      else if used + length (item_content item) + 1 > content_size then []
      else plain_message (item_role item) (item_content item) #
        history_loop items max_messages role_size content_size (count + 1) (used + length (item_content item) + 1))"

definition parse_session_into_messages ::
  "(string \<Rightarrow> cjson option) \<Rightarrow> string \<Rightarrow> nat \<Rightarrow> nat \<Rightarrow> nat \<Rightarrow> provider_message list" where
  "parse_session_into_messages parse session_json max_messages role_size content_size =
     (if ch session_json 0 \<noteq> CHR ''['' then []
      else case parse session_json of
        None \<Rightarrow> []
      | Some root \<Rightarrow>
          if \<not> cJSON_IsArray root then []
          else let arr = array_items root; skip = (if length arr > max_messages then length arr - max_messages else 0) in
            history_loop (drop skip arr) max_messages role_size content_size 0 0)"

definition append_exchange_to_session_json ::
  "(string \<Rightarrow> cjson option) \<Rightarrow> (cjson \<Rightarrow> string option) \<Rightarrow> string \<Rightarrow> string \<Rightarrow> string \<Rightarrow> nat \<Rightarrow> string option" where
  "append_exchange_to_session_json parse print existing_json user_message assistant_content out_size =
     (let arr = (if ch existing_json 0 = CHR ''['' then (case parse existing_json of Some a \<Rightarrow> array_items a | None \<Rightarrow> []) else []) in
      copy_printed_session_json out_size
        (print (CArray (arr @ [message_object ''user'' user_message, message_object ''assistant'' assistant_content]))))"

section \<open>Messages of a session\<close>

text \<open>An item the agent writes itself: an object whose role is a string.\<close>

definition chat_item :: "cjson \<Rightarrow> bool" where
  "chat_item item \<longleftrightarrow> cJSON_IsObject item \<and> string_of (cJSON_GetObjectItem item ''role'') = Some (item_role item)"

lemma message_object [simp]:
  "cJSON_IsObject (message_object r c)" "item_role (message_object r c) = r" "item_content (message_object r c) = c"
  "chat_item (message_object r c)"
  by (simp_all add: message_object_def item_role_def item_content_def chat_item_def lower_def to_lower_def is_upper_az_def)

lemma role_after_content_change:
  "cJSON_GetObjectItem (CObject (replace_member ''content'' v ms)) ''role'' = cJSON_GetObjectItem (CObject ms) ''role''"
proof (induction ms)
  case (Cons m ms)
  have "lower ''content'' \<noteq> lower ''role''" by code_simp
  then show ?case using Cons by (cases m) auto
qed simp

lemma fold_summary_item:
  assumes "cJSON_IsObject item"
  shows "item_role (fold_summary_into_message item s) = item_role item"
    "chat_item item \<Longrightarrow> chat_item (fold_summary_into_message item s)"
proof -
  obtain ms where ms: "item = CObject ms" using assms by (cases item) auto
  have "lower ''content'' \<noteq> lower ''role''" by code_simp
  then have r: "cJSON_GetObjectItem (fold_summary_into_message item s) ''role'' = cJSON_GetObjectItem item ''role''"
    using role_after_content_change [of _ ms]
    by (auto simp: ms fold_summary_into_message_def Let_def cJSON_AddItemToObject_def get_item_append split: option.splits)
  then show role: "item_role (fold_summary_into_message item s) = item_role item" by (simp add: item_role_def)
  have "cJSON_IsObject (fold_summary_into_message item s)"
    by (simp add: fold_summary_into_message_def Let_def cJSON_AddItemToObject_def)
  then show "chat_item item \<Longrightarrow> chat_item (fold_summary_into_message item s)"
    using r role by (simp add: chat_item_def)
qed

section \<open>The source of the summary\<close>

text \<open>The line \<open>l\<close> stands for the message: the whole of it, or, when it can never fit, its beginning and the marker.\<close>

definition covers :: "cjson \<Rightarrow> string \<Rightarrow> bool" where
  "covers item l \<longleftrightarrow>
     l = summary_line (item_role item) (item_content item) \<or>
     summary_line_never_fits (item_role item) (item_content item) \<and>
       (\<exists>cut. l = summary_line (item_role item) (take cut (item_content item) @ SUMMARY_TRUNC_MARKER))"

lemma append_covers:
  "summary_source_append cap buf (item_role item) (item_content item) = Some buf' \<Longrightarrow> \<exists>l. buf' = buf @ l \<and> covers item l"
  by (auto simp: summary_source_append_def covers_def split: if_splits)

lemma append_truncated_covers:
  "summary_source_append_truncated cap buf (item_role item) (item_content item) = Some buf' \<Longrightarrow>
   summary_line_never_fits (item_role item) (item_content item) \<Longrightarrow> \<exists>l. buf' = buf @ l \<and> covers item l"
  unfolding summary_source_append_truncated_def covers_def Let_def by (auto split: if_splits)

lemma covers_nonempty: "covers item l \<Longrightarrow> l \<noteq> []"
  by (auto simp: covers_def summary_line_def)

text \<open>The loop consumes the messages \<open>i, ..., k - 1\<close>, one line each.\<close>

lemma summary_loop_spec:
  assumes "summary_loop (CArray items) n i buf = (buf', k, f)" "list_all chat_item items" "n \<le> length items" "i \<le> n"
  shows "i \<le> k \<and> k \<le> n \<and> f = (k < n \<and> k = 1 \<and> item_role (items ! k) \<noteq> ''user'') \<and>
    (\<exists>ls. buf' = buf @ concat ls \<and> list_all2 covers (take (k - i) (drop i items)) ls)"
  using assms
proof (induction "CArray items" n i buf arbitrary: buf' k f rule: summary_loop.induct)
  case (1 n i buf)
  show ?case
  proof (cases "i \<ge> n")
    case True
    then show ?thesis using 1(5,8) by (simp add: summary_loop.simps)
  next
    case False
    let ?it = "items ! i"
    have il: "i < length items" using False 1(7) by simp
    have ob: "cJSON_IsObject ?it" using 1(6) il by (simp add: list_all_length chat_item_def)
    have more: ?thesis if l: "b = buf @ l" "covers ?it l" and rec: "summary_loop (CArray items) n (i + 1) b = (buf', k, f)"
      and ih: "i + 1 \<le> k \<and> k \<le> n \<and> f = (k < n \<and> k = 1 \<and> item_role (items ! k) \<noteq> ''user'') \<and>
        (\<exists>ls. buf' = b @ concat ls \<and> list_all2 covers (take (k - (i + 1)) (drop (i + 1) items)) ls)" for b l
    proof -
      obtain ls where ls: "buf' = b @ concat ls" "list_all2 covers (take (k - (i + 1)) (drop (i + 1) items)) ls" using ih by blast
      have "take (k - i) (drop i items) = ?it # take (k - (i + 1)) (drop (i + 1) items)"
        using ih il by (simp add: Cons_nth_drop_Suc [symmetric] take_Cons' )
      then have "list_all2 covers (take (k - i) (drop i items)) (l # ls)" using ls(2) l(2) by simp
      moreover have "buf' = buf @ concat (l # ls)" using ls(1) l(1) by simp
      ultimately show ?thesis using ih by (metis Suc_eq_plus1 Suc_leD)
    qed
    show ?thesis
    proof (cases "summary_source_append SUMMARY_SOURCE_MAX buf (item_role ?it) (item_content ?it)")
      case (Some b)
      have rec: "summary_loop (CArray items) n (i + 1) b = (buf', k, f)"
        using 1(5) False il ob Some by (subst (asm) summary_loop.simps) simp
      have ih: "i + 1 \<le> k \<and> k \<le> n \<and> f = (k < n \<and> k = 1 \<and> item_role (items ! k) \<noteq> ''user'') \<and>
        (\<exists>ls. buf' = b @ concat ls \<and> list_all2 covers (take (k - (i + 1)) (drop (i + 1) items)) ls)"
        using 1(4) [OF False get_array_item [OF il] _ Some rec 1(6,7)] ob False by simp
      then show ?thesis using more rec append_covers [OF Some] by blast
    next
      case None
      let ?t = "if buf = [] \<and> summary_line_never_fits (item_role ?it) (item_content ?it)
        then summary_source_append_truncated SUMMARY_SOURCE_MAX buf (item_role ?it) (item_content ?it) else None"
      show ?thesis
      proof (cases ?t)
        case (Some b)
        have rec: "summary_loop (CArray items) n (i + 1) b = (buf', k, f)"
          using 1(5) False il ob None Some by (subst (asm) summary_loop.simps) simp
        have ih: "i + 1 \<le> k \<and> k \<le> n \<and> f = (k < n \<and> k = 1 \<and> item_role (items ! k) \<noteq> ''user'') \<and>
          (\<exists>ls. buf' = b @ concat ls \<and> list_all2 covers (take (k - (i + 1)) (drop (i + 1) items)) ls)"
          using 1(3) [OF False get_array_item [OF il] _ None Some rec 1(6,7)] ob False by simp
        then show ?thesis using more rec append_truncated_covers Some by (metis option.distinct(1))
      next
        case t: None
        have "buf' = buf" "k = i" "f = (i = 1 \<and> item_role ?it \<noteq> ''user'')"
          using 1(5) False il ob None t by (auto simp: summary_loop.simps [of _ n i buf])
        then show ?thesis using False by auto
      qed
    qed
  qed
qed

section \<open>What compaction keeps\<close>

text \<open>The array that replaces \<open>items\<close> when the first \<open>k\<close> of them are summarised.\<close>

definition compacted :: "cjson list \<Rightarrow> nat \<Rightarrow> string \<Rightarrow> cjson list" where
  "compacted items k summary =
     (if item_role (items ! k) = ''user'' \<or> k = 1 then fold_summary_into_message (items ! k) summary # drop (k + 1) items
      else message_object ''user'' summary # drop k items)"

lemma compacted_shorter: "1 \<le> k \<Longrightarrow> k < length items \<Longrightarrow> length (compacted items k s) < length items"
  by (auto simp: compacted_def)

lemma compacted_alternates:
  assumes "list_all chat_item items" "k < length items" "distinct_adj (map item_role items)"
  shows "distinct_adj (map item_role (compacted items k s)) \<and> list_all chat_item (compacted items k s)"
proof -
  have d: "drop k items = items ! k # drop (k + 1) items" using assms(2) by (simp add: Cons_nth_drop_Suc)
  have adj: "distinct_adj (map item_role (drop k items))"
    using assms(3) by (metis append_take_drop_id distinct_adj_appendD2 map_append)
  have wf: "list_all chat_item (drop k items)" using assms(1) by (metis append_take_drop_id list_all_append)
  then have ob: "cJSON_IsObject (items ! k)" "chat_item (items ! k)" by (simp_all add: d chat_item_def)
  show ?thesis
    using adj wf ob fold_summary_item [OF ob(1)] unfolding compacted_def d
    by (auto simp: distinct_adj_Cons hd_map)
qed

lemma compacted_items_eq:
  assumes "list_all chat_item items" "k < length items" "1 \<le> k" "k < n \<or> 2 \<le> k"
  shows "compacted_items (take (length items) items) k (kept_tail_starts_with_user (CArray items) k)
      (k < n \<and> k = 1 \<and> item_role (items ! k) \<noteq> ''user'') summary = Some (compacted items k summary)"
proof -
  have d: "drop k items = items ! k # drop (k + 1) items" using assms(2) by (simp add: Cons_nth_drop_Suc)
  have c: "chat_item (items ! k)" using assms(1,2) by (simp add: list_all_length)
  have "kept_tail_starts_with_user (CArray items) k \<longleftrightarrow> item_role (items ! k) = ''user''"
    using c assms(2) by (simp add: kept_tail_starts_with_user_def chat_item_def)
  then show ?thesis using assms by (auto simp: compacted_items_def compacted_def append_summary_user_def d)
qed

lemma compact_success:
  assumes "compact_session_via_llm parse print chat buf cap (length items) max_ctx w = (0, buf', w')"
    "parse buf = Some (CArray items)" "list_all chat_item items" "max_ctx < length items" "2 \<le> max_ctx"
  obtains k ls resp content where "1 \<le> k" "k \<le> length items - max_ctx + 1" "list_all2 covers (take k items) ls"
    "chat [plain_message ''system'' SUMMARIZE_SYSTEM, plain_message ''user'' (concat ls)] [] w = ((0, resp), w')"
    "pr_content resp = Some content"
    "print (CArray (compacted items k (buf_trunc SUMMARY_RESULT_MAX content))) = Some buf'" "length buf' < cap"
proof -
  let ?n = "Suc (length items - max_ctx)"
  obtain src k f where sl: "summary_loop (CArray items) ?n 0 [] = (src, k, f)" by (metis prod_cases3)
  have nl: "?n \<le> length items" "2 \<le> ?n" "?n < length items" using assms(4,5) by auto
  obtain ls where sp: "k \<le> ?n" "f = (k < ?n \<and> k = 1 \<and> item_role (items ! k) \<noteq> ''user'')" "src = concat ls"
      "list_all2 covers (take k items) ls"
    using summary_loop_spec [OF sl assms(3) nl(1)] by auto
  obtain err resp w1 where ch: "chat [plain_message ''system'' SUMMARIZE_SYSTEM, plain_message ''user'' src] [] w = ((err, resp), w1)"
    by (metis surj_pair)
  have st: "Suc (length items) - max_ctx = k" if "\<not> k < ?n" using that sp(1) assms(4) by simp
  note eq = assms(1) [unfolded compact_session_via_llm_def assms(2), simplified]
  have src: "src \<noteq> []" using eq assms(4,5) by (auto simp: Let_def sl split: if_splits)
  have k1: "1 \<le> k" using sp(3,4) src by (cases k) auto
  have ci: "compacted_items (take (length items) items) k (kept_tail_starts_with_user (CArray items) k) f s = Some (compacted items k s)" for s
    unfolding sp(2) by (rule compacted_items_eq) (use assms(3) sp(1) nl k1 in auto)
  obtain content where r: "err = 0" "w1 = w'" "pr_content resp = Some content"
      "copy_printed_session_json cap (print (CArray (compacted items k (buf_trunc SUMMARY_RESULT_MAX content)))) = Some buf'"
    using eq assms(4,5) src ci by (auto simp: Let_def sl ch st split: if_splits option.splits)
  show thesis
    by (rule that [OF k1 _ sp(4) _ r(3)]) (use sp(1) ch r sp(3) in \<open>auto simp: copy_printed_session_json_def split: option.splits if_splits\<close>)
qed

text \<open>(C16) Compaction loses nothing silently and always makes progress.  When it succeeds on a session of more messages
  than the limit, some k of the oldest messages (at least one) are replaced; each of them has its line in the text given to
  the model, whole, or cut and marked if it can never fit; the remaining messages stay as they are, the first one possibly
  with the summary in front of its content; the number of messages strictly decreases; and if roles alternated before, they
  alternate after, which providers require.\<close>

theorem compaction_safe:
  assumes "compact_session_via_llm parse print chat buf cap (length items) max_ctx w = (0, buf', w')"
    "parse buf = Some (CArray items)" "\<And>v s. print v = Some s \<Longrightarrow> parse s = Some v"
    "list_all chat_item items" "max_ctx < length items" "2 \<le> max_ctx"
  shows "\<exists>k ls resp content new_items. 1 \<le> k \<and> list_all2 covers (take k items) ls \<and>
    chat [plain_message ''system'' SUMMARIZE_SYSTEM, plain_message ''user'' (concat ls)] [] w = ((0, resp), w') \<and>
    pr_content resp = Some content \<and> new_items = compacted items k (buf_trunc SUMMARY_RESULT_MAX content) \<and>
    parse buf' = Some (CArray new_items) \<and> length new_items < length items \<and>
    (distinct_adj (map item_role items) \<longrightarrow> distinct_adj (map item_role new_items))"
proof -
  obtain k ls resp content where h: "1 \<le> k" "k \<le> length items - max_ctx + 1" "list_all2 covers (take k items) ls"
    "chat [plain_message ''system'' SUMMARIZE_SYSTEM, plain_message ''user'' (concat ls)] [] w = ((0, resp), w')"
    "pr_content resp = Some content"
    "print (CArray (compacted items k (buf_trunc SUMMARY_RESULT_MAX content))) = Some buf'"
    by (rule compact_success [OF assms(1,2,4-6)])
  have k: "k < length items" using h(2) assms(5,6) by linarith
  show ?thesis
    using h assms(3) [OF h(6)] compacted_shorter [OF h(1) k] compacted_alternates [OF assms(4) k] by blast
qed

definition demo_items :: "cjson list" where
  "demo_items = [message_object ''user'' ''a'', message_object ''assistant'' ''b'', message_object ''user'' ''c'']"

definition demo_json_parse :: "string \<Rightarrow> cjson option" where
  "demo_json_parse s = (if s = ''[1]'' then Some (CArray demo_items)
     else if s = ''[2]'' then Some (CArray (compacted demo_items 2 ''sum'')) else None)"

definition demo_json_print :: "cjson \<Rightarrow> string option" where
  "demo_json_print v = (if v = CArray demo_items then Some ''[1]''
     else if v = CArray (compacted demo_items 2 ''sum'') then Some ''[2]'' else None)"

definition demo_chat :: "nat chat_fn" where
  "demo_chat ms ds w = ((0, \<lparr>pr_content = Some ''sum'', pr_tool_calls = []\<rparr>), w + 1)"

lemma demo_json_roundtrip: "demo_json_print v = Some s \<Longrightarrow> demo_json_parse s = Some v"
  by (auto simp: demo_json_print_def demo_json_parse_def split: if_splits)

theorem compaction_safe_witness:
  "compact_session_via_llm demo_json_parse demo_json_print demo_chat ''[1]'' 100 3 2 0 = (0, ''[2]'', 1) \<and>
   (\<exists>new_items. demo_json_parse ''[2]'' = Some (CArray new_items) \<and> length new_items < 3 \<and> distinct_adj (map item_role new_items))"
proof -
  have r: "compact_session_via_llm demo_json_parse demo_json_print demo_chat ''[1]'' 100 (length demo_items) 2 0 = (0, ''[2]'', 1)"
    by code_simp
  have p: "demo_json_parse ''[1]'' = Some (CArray demo_items)" by code_simp
  have c: "list_all chat_item demo_items" by code_simp
  have l: "2 < length demo_items" "distinct_adj (map item_role demo_items)" "length demo_items = 3" by code_simp+
  show ?thesis
    using compaction_safe [OF r p demo_json_roundtrip c l(1) order_refl] r l by auto
qed

end
