(* ===== verification/Conversation.thy ===== *)
theory Conversation
  imports Agent_Session
begin

text \<open>
  What the agent sends to a provider and the providers' APIs require, as a predicate on message lists; the agent establishes
  it (theory \<open>Agent\<close>) and the request builders rely on it (theories \<open>Openai\<close> and \<open>Anthropic\<close>).
\<close>

section \<open>The conversation\<close>

text \<open>
  What providers accept: the system prompt, plain turns, the user's message, then rounds in which every tool call is
  answered, in order, by a message with its id.
\<close>

definition answered_round :: "provider_message list \<Rightarrow> bool" where
  "answered_round r \<longleftrightarrow>
     (case r of
        [] \<Rightarrow> False
      | m # ans \<Rightarrow>
          pm_role m = ''assistant'' \<and> pm_tool_use_id m = None \<and> pm_tool_calls m \<noteq> [] \<and> length (pm_tool_calls m) \<le> MAX_TOOL_CALLS \<and>
          map pm_tool_use_id ans = map tc_id (pm_tool_calls m) \<and>
          list_all (\<lambda>a. pm_role a = ''user'' \<and> pm_tool_calls a = []) ans)"

definition plain_turn :: "provider_message \<Rightarrow> bool" where
  "plain_turn m \<longleftrightarrow> pm_tool_calls m = [] \<and> pm_tool_use_id m = None"

definition conversation :: "provider_message list \<Rightarrow> bool" where
  "conversation ms \<longleftrightarrow>
     (\<exists>sys hist u rounds. ms = plain_message ''system'' sys # hist @ plain_message ''user'' u # concat rounds \<and>
        list_all plain_turn hist \<and> list_all answered_round rounds)"

lemma conversation_grows: "conversation ms \<Longrightarrow> answered_round r \<Longrightarrow> conversation (ms @ r)"
proof -
  assume "conversation ms" "answered_round r"
  then obtain sys hist u rounds where "ms = plain_message ''system'' sys # hist @ plain_message ''user'' u # concat rounds"
      "list_all plain_turn hist" "list_all answered_round rounds" unfolding conversation_def by blast
  then have "ms @ r = plain_message ''system'' sys # hist @ plain_message ''user'' u # concat (rounds @ [r])"
      "list_all answered_round (rounds @ [r])" using \<open>answered_round r\<close> by simp_all
  then show ?thesis unfolding conversation_def using \<open>list_all plain_turn hist\<close> by blast
qed

end
