(* ===== verification/Openai.thy ===== *)
theory Openai
  imports Provider Config
begin

text \<open>
  \<open>src/providers/openai_compat.c\<close>, \<open>openai.c\<close> and \<open>local.c\<close>: the request body of the Chat Completions API, the exchange with the
  server, and the two backends built on it.  libcurl is the arguments \<open>post\<close> and \<open>get\<close>; the body in a \<open>Http_Response\<close> is what
  \<open>provider_write_cb\<close> collected.  Times are seconds, and the difference of two times is taken modulo 2^64, as in C.
\<close>

section \<open>Definitions\<close>

datatype http_result = Curl_Failed string | Http_Response int string

type_synonym 'w http_post = "string \<Rightarrow> string list \<Rightarrow> string \<Rightarrow> 'w \<Rightarrow> http_result \<times> 'w"
type_synonym 'w http_get = "string \<Rightarrow> string list \<Rightarrow> 'w \<Rightarrow> bool \<times> 'w"

subsection \<open>Request bodies\<close>

definition opt_str :: "string \<Rightarrow> string option \<Rightarrow> string" where
  "opt_str d v = (case v of Some s \<Rightarrow> s | None \<Rightarrow> d)"

definition openai_tool_call :: "provider_tool_call \<Rightarrow> cjson" where
  "openai_tool_call tc =
     CObject [(''id'', CString (opt_str [] (tc_id tc))), (''type'', CString ''function''),
       (''function'', CObject [(''name'', CString (opt_str [] (tc_name tc))), (''arguments'', CString (opt_str ''{}'' (tc_arguments tc)))])]"

definition openai_message :: "provider_message \<Rightarrow> cjson" where
  "openai_message m =
     CObject ((case pm_tool_use_id m of
                 Some i \<Rightarrow> [(''role'', CString ''tool''), (''tool_call_id'', CString i), (''content'', CString (pm_content m))]
               | None \<Rightarrow> [(''role'', CString (pm_role m)), (''content'', CString (pm_content m))]) @
              (if pm_tool_calls m \<noteq> [] \<and> pm_role m = ''assistant''
               then [(''tool_calls'', CArray (map openai_tool_call (pm_tool_calls m)))] else []))"

definition append_messages_array :: "provider_message list \<Rightarrow> cjson list" where
  "append_messages_array messages = map openai_message messages"

definition openai_tool :: "(string \<Rightarrow> cjson option) \<Rightarrow> provider_tool_def \<Rightarrow> cjson" where
  "openai_tool parse t =
     CObject [(''type'', CString ''function''),
       (''function'', CObject ([(''name'', CString (td_name t)), (''description'', CString (td_description t))] @
          (if td_parameters_json t = [] then []
           else case parse (td_parameters_json t) of Some params \<Rightarrow> [(''parameters'', params)] | None \<Rightarrow> [])))]"

definition append_tools_array :: "(string \<Rightarrow> cjson option) \<Rightarrow> provider_tool_def list \<Rightarrow> (string \<times> cjson) list" where
  "append_tools_array parse tools = (if tools = [] then [] else [(''tools'', CArray (map (openai_tool parse) tools))])"

definition openai_body ::
  "(string \<Rightarrow> cjson option) \<Rightarrow> (int \<Rightarrow> double) \<Rightarrow> string \<Rightarrow> int \<Rightarrow> double \<Rightarrow> provider_message list \<Rightarrow> provider_tool_def list \<Rightarrow> cjson" where
  "openai_body parse conv model max_tokens temperature messages tools =
     CObject ([(''model'', CString model), (''max_tokens'', CNumber (conv (if max_tokens \<le> 0 then 4096 else max_tokens))),
       (''temperature'', CNumber temperature), (''messages'', CArray (append_messages_array messages))] @ append_tools_array parse tools)"

definition openai_compat_build_chat_body ::
  "(string \<Rightarrow> cjson option) \<Rightarrow> (cjson \<Rightarrow> string option) \<Rightarrow> (int \<Rightarrow> double) \<Rightarrow> string \<Rightarrow> int \<Rightarrow> double \<Rightarrow>
   provider_message list \<Rightarrow> provider_tool_def list \<Rightarrow> provider_response \<Rightarrow> string option \<times> provider_response" where
  "openai_compat_build_chat_body parse print conv model max_tokens temperature messages tools response =
     (if model = [] then (None, provider_set_error response ''Model not configured'')
      else case print (openai_body parse conv model max_tokens temperature messages tools) of
        None \<Rightarrow> (None, provider_set_error response ''Out of memory'')
      | Some body \<Rightarrow> (Some body, response))"

subsection \<open>The exchange\<close>

definition openai_compat_post_chat ::
  "(string \<Rightarrow> cjson option) \<Rightarrow> 'w http_post \<Rightarrow> string \<Rightarrow> string \<Rightarrow> string option \<Rightarrow> string \<Rightarrow> provider_response \<Rightarrow> 'w \<Rightarrow> (int \<times> provider_response) \<times> 'w" where
  "openai_compat_post_chat parse post url body bearer label response w =
     (let headers = ''Content-Type: application/json'' #
            (case nonempty bearer of Some t \<Rightarrow> [''Authorization: Bearer '' @ t] | None \<Rightarrow> []) in
      case post url headers body w of
        (Curl_Failed msg, w') \<Rightarrow> ((- 1, provider_set_error response msg), w')
      | (Http_Response code reply, w') \<Rightarrow>
          if code < 200 \<or> code \<ge> 300 then ((- 1, provider_set_error response (http_error_text label code)), w')
          else (provider_parse_chat_completions_json parse (Some (cstr reply)) response, w'))"

subsection \<open>\<open>openai.c\<close>\<close>

definition OPENAI_DEFAULT_ENDPOINT :: string where "OPENAI_DEFAULT_ENDPOINT = ''https://api.openai.com/v1/chat/completions''"

record oai_state =
  oai_api_key :: "string option"
  oai_cfg :: "config option"

definition openai_init :: "(string \<Rightarrow> string option) \<Rightarrow> config \<Rightarrow> oai_state \<Rightarrow> int \<times> oai_state" where
  "openai_init env cfg s =
     (case Option.bind (nonempty (provider_openai_api_key_env (c_provider cfg))) (\<lambda>n. nonempty (env n)) of
        None \<Rightarrow> (- 1, s)
      | Some key \<Rightarrow> (0, \<lparr>oai_api_key = Some key, oai_cfg = Some cfg\<rparr>))"

definition skipped_text :: "string \<Rightarrow> string \<Rightarrow> string \<Rightarrow> string" where
  "skipped_text who configured what = buf_trunc 256 (who @ '' skipped: agent model '' @ [dquote] @ configured @ [dquote] @ '' is not '' @ what)"

definition openai_build_and_send ::
  "(string \<Rightarrow> cjson option) \<Rightarrow> (cjson \<Rightarrow> string option) \<Rightarrow> (int \<Rightarrow> double) \<Rightarrow> 'w http_post \<Rightarrow> oai_state \<Rightarrow>
   provider_message list \<Rightarrow> provider_tool_def list \<Rightarrow> provider_response \<Rightarrow> 'w \<Rightarrow> (int \<times> provider_response) \<times> 'w" where
  "openai_build_and_send parse print conv post s messages tools response w =
     (case oai_cfg s of
        None \<Rightarrow> ((- 1, provider_set_error response ''OpenAI provider not initialized''), w)
      | Some cfg \<Rightarrow>
          let endpoint = or_nonempty (provider_openai_endpoint (c_provider cfg)) OPENAI_DEFAULT_ENDPOINT;
              configured = or_nonempty (agent_model (c_agent cfg)) ''gpt-4o-mini'';
              model = (if endpoint = OPENAI_DEFAULT_ENDPOINT then provider_model_id_for_backend configured ''openai'' else Some configured) in
          (case model of
             None \<Rightarrow> ((- 1, provider_set_error response (skipped_text ''OpenAI'' configured ''an OpenAI id'')), w)
           | Some m \<Rightarrow>
               (case openai_compat_build_chat_body parse print conv m (agent_max_tokens (c_agent cfg)) (agent_temperature (c_agent cfg))
                       messages tools response of
                  (None, r) \<Rightarrow> ((- 1, r), w)
                | (Some body, r) \<Rightarrow> openai_compat_post_chat parse post endpoint body (oai_api_key s) ''OpenAI API'' r w)))"

definition openai_chat ::
  "(string \<Rightarrow> cjson option) \<Rightarrow> (cjson \<Rightarrow> string option) \<Rightarrow> (int \<Rightarrow> double) \<Rightarrow> 'w http_post \<Rightarrow> oai_state \<Rightarrow>
   provider_message list \<Rightarrow> provider_tool_def list \<Rightarrow> provider_response \<Rightarrow> 'w \<Rightarrow> (int \<times> provider_response) \<times> 'w" where
  "openai_chat parse print conv post s messages tools response w =
     (if oai_api_key s = None \<or> oai_cfg s = None
      then ((- 1, provider_set_error response ''OpenAI provider not initialized or API key missing''), w)
      else openai_build_and_send parse print conv post s messages tools (provider_response_clear response) w)"

definition openai_cleanup :: "oai_state \<Rightarrow> oai_state" where
  "openai_cleanup s = \<lparr>oai_api_key = None, oai_cfg = None\<rparr>"

definition provider_openai_set_live_config :: "config \<Rightarrow> oai_state \<Rightarrow> oai_state" where
  "provider_openai_set_live_config cfg s = (if oai_api_key s \<noteq> None then s\<lparr>oai_cfg := Some cfg\<rparr> else s)"

subsection \<open>\<open>local.c\<close>\<close>

definition LOCAL_REPROBE_MIN_SEC :: int where "LOCAL_REPROBE_MIN_SEC = 15"

record local_state =
  local_cfg :: "config option"
  local_unavailable :: bool
  local_reprobe_last_wall :: int

text \<open>The part of a URL before a marker, \<open>v1 - endpoint\<close>.\<close>

definition before :: "string \<Rightarrow> string \<Rightarrow> nat option" where
  "before pat s = map_option (\<lambda>rest. length s - length rest) (strstr pat s)"

definition local_build_models_url :: "string \<Rightarrow> nat \<Rightarrow> string option" where
  "local_build_models_url endpoint bufsz =
     (case before ''/v1/'' endpoint of
        None \<Rightarrow> None
      | Some k \<Rightarrow> let pre = k + 3 in if pre + 8 \<ge> bufsz then None else Some (take pre endpoint @ ''/models''))"

definition local_build_health_url :: "string \<Rightarrow> nat \<Rightarrow> string option" where
  "local_build_health_url endpoint bufsz =
     (if endpoint = [] then None
      else case (case before ''/v1/'' endpoint of
                   Some k \<Rightarrow> Some k
                 | None \<Rightarrow> map_option (\<lambda>k. k + 3 + length (takeWhile (\<lambda>c. c \<noteq> CHR ''/'') (drop (k + 3) endpoint))) (before ''://'' endpoint)) of
        None \<Rightarrow> None
      | Some pre \<Rightarrow> if pre + 8 \<ge> bufsz then None else Some (take pre endpoint @ ''/health''))"

definition local_probe_endpoint :: "'w http_get \<Rightarrow> string \<Rightarrow> 'w \<Rightarrow> bool \<times> 'w" where
  "local_probe_endpoint get endpoint w =
     (if endpoint = [] then (False, w)
      else let (ok, w1) = (case local_build_models_url endpoint 512 of Some u \<Rightarrow> get u [] w | None \<Rightarrow> (False, w)) in
        if ok then (True, w1)
        else case local_build_health_url endpoint 512 of Some u \<Rightarrow> get u [] w1 | None \<Rightarrow> (False, w1))"

definition local_build_and_send ::
  "(string \<Rightarrow> cjson option) \<Rightarrow> (cjson \<Rightarrow> string option) \<Rightarrow> (int \<Rightarrow> double) \<Rightarrow> 'w http_post \<Rightarrow> local_state \<Rightarrow>
   provider_message list \<Rightarrow> provider_tool_def list \<Rightarrow> provider_response \<Rightarrow> 'w \<Rightarrow> (int \<times> provider_response) \<times> 'w" where
  "local_build_and_send parse print conv post s messages tools response w =
     (case local_cfg s of
        None \<Rightarrow> ((- 1, provider_set_error response ''Local provider not initialized''), w)
      | Some cfg \<Rightarrow>
          let endpoint = config_provider_local_endpoint cfg; model = config_provider_local_model cfg in
          if endpoint = [] \<or> model = []
          then ((- 1, provider_set_error response ''Local provider endpoint or model not configured''), w)
          else (case openai_compat_build_chat_body parse print conv model (agent_max_tokens (c_agent cfg)) (agent_temperature (c_agent cfg))
                        messages tools response of
                  (None, r) \<Rightarrow> ((- 1, r), w)
                | (Some body, r) \<Rightarrow> openai_compat_post_chat parse post endpoint body None ''Local provider'' r w))"

definition local_init :: "'w http_get \<Rightarrow> config \<Rightarrow> local_state \<Rightarrow> 'w \<Rightarrow> int \<times> local_state \<times> 'w" where
  "local_init get cfg s w =
     (let endpoint = config_provider_local_endpoint cfg in
      if endpoint = [] then (0, s\<lparr>local_cfg := Some cfg, local_unavailable := True\<rparr>, w)
      else let (ok, w') = local_probe_endpoint get endpoint w in (0, s\<lparr>local_cfg := Some cfg, local_unavailable := \<not> ok\<rparr>, w'))"

definition provider_local_recovery_probe_succeeded :: "local_state \<Rightarrow> local_state" where
  "provider_local_recovery_probe_succeeded s = s\<lparr>local_unavailable := False\<rparr>"

definition local_reprobe :: "'w http_get \<Rightarrow> ('w \<Rightarrow> int) \<Rightarrow> config \<Rightarrow> local_state \<Rightarrow> 'w \<Rightarrow> local_state \<times> 'w" where
  "local_reprobe get clock cfg s w =
     (if \<not> local_unavailable s then (s, w)
      else let now = clock w;
               due = (local_reprobe_last_wall s = 0 \<or> (now - local_reprobe_last_wall s) mod 18446744073709551616 \<ge> LOCAL_REPROBE_MIN_SEC) in
        if \<not> due then (s, w)
        else let s1 = s\<lparr>local_reprobe_last_wall := now\<rparr>;
                 (ok, w') = (if config_provider_local_endpoint cfg \<noteq> [] then local_probe_endpoint get (config_provider_local_endpoint cfg) w else (False, w)) in
          (if ok then provider_local_recovery_probe_succeeded s1 else s1, w'))"

definition local_chat ::
  "(string \<Rightarrow> cjson option) \<Rightarrow> (cjson \<Rightarrow> string option) \<Rightarrow> (int \<Rightarrow> double) \<Rightarrow> 'w http_post \<Rightarrow> 'w http_get \<Rightarrow> ('w \<Rightarrow> int) \<Rightarrow> local_state \<Rightarrow>
   provider_message list \<Rightarrow> provider_tool_def list \<Rightarrow> provider_response \<Rightarrow> 'w \<Rightarrow> (int \<times> provider_response) \<times> local_state \<times> 'w" where
  "local_chat parse print conv post get clock s messages tools response w =
     (case local_cfg s of
        None \<Rightarrow> ((- 1, provider_set_error response ''Local provider not initialized''), s, w)
      | Some cfg \<Rightarrow>
          let (s1, w1) = local_reprobe get clock cfg s w in
          if local_unavailable s1 then ((- 1, provider_set_error response ''Local inference server unreachable''), s1, w1)
          else let (r, w2) = local_build_and_send parse print conv post s1 messages tools (provider_response_clear response) w1 in (r, s1, w2))"

definition local_cleanup :: "local_state \<Rightarrow> local_state" where
  "local_cleanup s = \<lparr>local_cfg = None, local_unavailable = False, local_reprobe_last_wall = 0\<rparr>"

definition provider_local_set_live_config :: "config \<Rightarrow> local_state \<Rightarrow> local_state" where
  "provider_local_set_live_config cfg s = s\<lparr>local_cfg := Some cfg\<rparr>"

end
