(* ===== verification/Anthropic.thy ===== *)
theory Anthropic
  imports Conversation Openai
begin

text \<open>
  \<open>src/providers/anthropic.c\<close>: the request of the Messages API, in which all results of a turn are one user message, and the
  parser of its answers.  The text and tool-call buffers grow by reallocation, which succeeds.
\<close>

section \<open>Definitions\<close>

definition ANTHROPIC_URL :: string where "ANTHROPIC_URL = ''https://api.anthropic.com/v1/messages''"
definition ANTHROPIC_VERSION :: string where "ANTHROPIC_VERSION = ''2023-06-01''"

record anth_state =
  anth_api_key :: "string option"
  anth_cfg :: "config option"

subsection \<open>Answers\<close>

definition append_text_block :: "string \<Rightarrow> string \<Rightarrow> string" where
  "append_text_block txt_buf t = txt_buf @ t"

definition append_tool_use :: "(cjson \<Rightarrow> string option) \<Rightarrow> provider_tool_call list \<Rightarrow> cjson \<Rightarrow> provider_tool_call list" where
  "append_tool_use print calls block =
     calls @ [\<lparr>tc_id = string_of (cJSON_GetObjectItem block ''id''), tc_name = string_of (cJSON_GetObjectItem block ''name''),
               tc_arguments = Option.bind (cJSON_GetObjectItem block ''input'') print\<rparr>]"

fun parse_blocks :: "(cjson \<Rightarrow> string option) \<Rightarrow> cjson list \<Rightarrow> string \<Rightarrow> provider_tool_call list \<Rightarrow> provider_response" where
  "parse_blocks print [] txt_buf calls = \<lparr>pr_content = Some txt_buf, pr_tool_calls = calls\<rparr>"
| "parse_blocks print (b # bs) txt_buf calls =
     (let ty = string_of (cJSON_GetObjectItem b ''type'') in
      if ty = Some ''text''
      then parse_blocks print bs (append_text_block txt_buf (opt_str [] (string_of (cJSON_GetObjectItem b ''text'')))) calls
      else if ty = Some ''tool_use'' then parse_blocks print bs txt_buf (append_tool_use print calls b)
      else parse_blocks print bs txt_buf calls)"

definition parse_response_body ::
  "(string \<Rightarrow> cjson option) \<Rightarrow> (cjson \<Rightarrow> string option) \<Rightarrow> string \<Rightarrow> provider_response \<Rightarrow> int \<times> provider_response" where
  "parse_response_body parse print response_buf response =
     (case parse response_buf of
        None \<Rightarrow> (- 1, provider_set_error response ''Failed to parse Anthropic response JSON'')
      | Some root \<Rightarrow>
          (case cJSON_GetObjectItem root ''error'' of
             Some (CObject e) \<Rightarrow>
               (- 1, provider_set_error response (opt_str ''Anthropic API error'' (string_of (cJSON_GetObjectItem (CObject e) ''message''))))
           | _ \<Rightarrow>
               (case cJSON_GetObjectItem root ''content'' of
                  Some (CArray blocks) \<Rightarrow> (0, parse_blocks print blocks [] [])
                | _ \<Rightarrow> (0, response))))"

definition do_request ::
  "(string \<Rightarrow> cjson option) \<Rightarrow> (cjson \<Rightarrow> string option) \<Rightarrow> 'w http_post \<Rightarrow> anth_state \<Rightarrow> string \<Rightarrow> provider_response \<Rightarrow> 'w \<Rightarrow> (int \<times> provider_response) \<times> 'w" where
  "do_request parse print post s body response w =
     (let headers = [''Content-Type: application/json'', ''anthropic-version: '' @ ANTHROPIC_VERSION, ''x-api-key: '' @ opt_str [] (anth_api_key s)] in
      case post ANTHROPIC_URL headers body w of
        (Curl_Failed msg, w') \<Rightarrow> ((- 1, provider_set_error response msg), w')
      | (Http_Response code reply, w') \<Rightarrow>
          if code < 200 \<or> code \<ge> 300 then ((- 1, provider_set_error response (http_error_text ''Anthropic API'' code)), w')
          else (parse_response_body parse print (cstr reply) response, w'))"

subsection \<open>Requests\<close>

definition append_one_tool_result :: "provider_message \<Rightarrow> cjson" where
  "append_one_tool_result m =
     CObject [(''type'', CString ''tool_result''), (''tool_use_id'', CString (opt_str [] (pm_tool_use_id m))), (''content'', CString (pm_content m))]"

definition has_tool_use_id :: "provider_message \<Rightarrow> bool" where
  "has_tool_use_id m \<longleftrightarrow> pm_tool_use_id m \<noteq> None"

text \<open>One user message for the results from here to the last one in a row.\<close>

definition append_tool_result_message :: "provider_message list \<Rightarrow> cjson" where
  "append_tool_result_message results = CObject [(''role'', CString ''user''), (''content'', CArray (map append_one_tool_result results))]"

definition tool_use_block :: "(string \<Rightarrow> cjson option) \<Rightarrow> provider_tool_call \<Rightarrow> cjson" where
  "tool_use_block parse tc =
     CObject ([(''type'', CString ''tool_use''), (''id'', CString (opt_str [] (tc_id tc))), (''name'', CString (opt_str [] (tc_name tc)))] @
       (case (case nonempty (tc_arguments tc) of Some a \<Rightarrow> parse a | None \<Rightarrow> Some (CObject [])) of
          Some input \<Rightarrow> [(''input'', input)] | None \<Rightarrow> []))"

definition append_assistant_tool_content :: "(string \<Rightarrow> cjson option) \<Rightarrow> provider_message \<Rightarrow> cjson" where
  "append_assistant_tool_content parse m =
     CArray ((if pm_content m = [] then [] else [CObject [(''type'', CString ''text''), (''text'', CString (pm_content m))]]) @
       map (tool_use_block parse) (pm_tool_calls m))"

definition anthropic_message :: "(string \<Rightarrow> cjson option) \<Rightarrow> provider_message \<Rightarrow> cjson" where
  "anthropic_message parse m =
     CObject [(''role'', CString (pm_role m)),
       (''content'', if pm_tool_calls m \<noteq> [] \<and> pm_role m = ''assistant'' then append_assistant_tool_content parse m else CString (pm_content m))]"

function (sequential) append_anthropic_messages :: "(string \<Rightarrow> cjson option) \<Rightarrow> provider_message list \<Rightarrow> cjson list" where
  "append_anthropic_messages parse [] = []"
| "append_anthropic_messages parse (m # ms) =
     (if pm_role m = ''system'' then append_anthropic_messages parse ms
      else if has_tool_use_id m
      then append_tool_result_message (m # takeWhile has_tool_use_id ms) # append_anthropic_messages parse (dropWhile has_tool_use_id ms)
      else anthropic_message parse m # append_anthropic_messages parse ms)"
  by pat_completeness auto
termination by (relation "measure (\<lambda>(p, ms). length ms)") (auto simp: le_imp_less_Suc length_dropWhile_le)

definition anthropic_tool :: "(string \<Rightarrow> cjson option) \<Rightarrow> provider_tool_def \<Rightarrow> cjson" where
  "anthropic_tool parse t =
     CObject ([(''name'', CString (td_name t)), (''description'', CString (td_description t))] @
       (if td_parameters_json t = [] then []
        else case parse (td_parameters_json t) of Some schema \<Rightarrow> [(''input_schema'', schema)] | None \<Rightarrow> []))"

definition anthropic_body ::
  "(string \<Rightarrow> cjson option) \<Rightarrow> (int \<Rightarrow> double) \<Rightarrow> string \<Rightarrow> int \<Rightarrow> provider_message list \<Rightarrow> provider_tool_def list \<Rightarrow> cjson" where
  "anthropic_body parse conv model max_tokens messages tools =
     CObject ([(''model'', CString model), (''max_tokens'', CNumber (conv (if max_tokens \<le> 0 then 4096 else max_tokens)))] @
       (case find (\<lambda>m. pm_role m = ''system'') messages of Some m \<Rightarrow> [(''system'', CString (pm_content m))] | None \<Rightarrow> []) @
       [(''messages'', CArray (append_anthropic_messages parse messages))] @
       (if tools = [] then [] else [(''tools'', CArray (map (anthropic_tool parse) tools))]))"

definition anthropic_build_and_send ::
  "(string \<Rightarrow> cjson option) \<Rightarrow> (cjson \<Rightarrow> string option) \<Rightarrow> (int \<Rightarrow> double) \<Rightarrow> 'w http_post \<Rightarrow> anth_state \<Rightarrow>
   provider_message list \<Rightarrow> provider_tool_def list \<Rightarrow> provider_response \<Rightarrow> 'w \<Rightarrow> (int \<times> provider_response) \<times> 'w" where
  "anthropic_build_and_send parse print conv post s messages tools response w =
     (case anth_cfg s of
        None \<Rightarrow> ((- 1, provider_set_error response ''Anthropic provider not initialized''), w)
      | Some cfg \<Rightarrow>
          let configured = or_nonempty (agent_model (c_agent cfg)) ''claude-3-5-sonnet-20241022'' in
          (case provider_model_id_for_backend configured ''anthropic'' of
             None \<Rightarrow> ((- 1, provider_set_error response (skipped_text ''Anthropic'' configured ''an Anthropic id'')), w)
           | Some model \<Rightarrow>
               (case print (anthropic_body parse conv model (agent_max_tokens (c_agent cfg)) messages tools) of
                  None \<Rightarrow> ((- 1, provider_set_error response ''Out of memory''), w)
                | Some body \<Rightarrow> do_request parse print post s body response w)))"

definition anthropic_init :: "(string \<Rightarrow> string option) \<Rightarrow> config \<Rightarrow> anth_state \<Rightarrow> int \<times> anth_state" where
  "anthropic_init env cfg s =
     (case Option.bind (nonempty (provider_anthropic_api_key_env (c_provider cfg))) (\<lambda>n. nonempty (env n)) of
        None \<Rightarrow> (- 1, s)
      | Some key \<Rightarrow> (0, \<lparr>anth_api_key = Some key, anth_cfg = Some cfg\<rparr>))"

definition anthropic_chat ::
  "(string \<Rightarrow> cjson option) \<Rightarrow> (cjson \<Rightarrow> string option) \<Rightarrow> (int \<Rightarrow> double) \<Rightarrow> 'w http_post \<Rightarrow> anth_state \<Rightarrow>
   provider_message list \<Rightarrow> provider_tool_def list \<Rightarrow> provider_response \<Rightarrow> 'w \<Rightarrow> (int \<times> provider_response) \<times> 'w" where
  "anthropic_chat parse print conv post s messages tools response w =
     (if anth_api_key s = None \<or> anth_cfg s = None
      then ((- 1, provider_set_error response ''Anthropic provider not initialized or API key missing''), w)
      else anthropic_build_and_send parse print conv post s messages tools (provider_response_clear response) w)"

definition anthropic_cleanup :: "anth_state \<Rightarrow> anth_state" where
  "anthropic_cleanup s = \<lparr>anth_api_key = None, anth_cfg = None\<rparr>"

definition provider_anthropic_set_live_config :: "config \<Rightarrow> anth_state \<Rightarrow> anth_state" where
  "provider_anthropic_set_live_config cfg s = (if anth_api_key s \<noteq> None then s\<lparr>anth_cfg := Some cfg\<rparr> else s)"

section \<open>What the API requires of a request\<close>

definition json_role :: "cjson \<Rightarrow> string option" where
  "json_role j = string_of (cJSON_GetObjectItem j ''role'')"

text \<open>The ids under \<open>key\<close> in the content blocks of type \<open>ty\<close>.\<close>

definition block_ids :: "string \<Rightarrow> string \<Rightarrow> cjson \<Rightarrow> string list" where
  "block_ids ty key j =
     (case cJSON_GetObjectItem j ''content'' of
        Some c \<Rightarrow> List.map_filter (\<lambda>b. if string_of (cJSON_GetObjectItem b ''type'') = Some ty then string_of (cJSON_GetObjectItem b key) else None) (array_items c)
      | None \<Rightarrow> [])"

text \<open>Every message with tool calls is followed by a user message with exactly their results.\<close>

fun calls_answered :: "cjson list \<Rightarrow> bool" where
  "calls_answered [] = True"
| "calls_answered (j # js) \<longleftrightarrow>
     (block_ids ''tool_use'' ''id'' j = [] \<or>
      js \<noteq> [] \<and> json_role (hd js) = Some ''user'' \<and> block_ids ''tool_result'' ''tool_use_id'' (hd js) = block_ids ''tool_use'' ''id'' j) \<and>
     calls_answered js"

definition ids_present :: "provider_message list \<Rightarrow> bool" where
  "ids_present ms \<longleftrightarrow> list_all (\<lambda>m. list_all (\<lambda>c. tc_id c \<noteq> None) (pm_tool_calls m)) ms"

lemma lower_keys:
  "lower ''role'' = ''role''" "lower ''content'' = ''content''" "lower ''type'' = ''type''" "lower ''id'' = ''id''" "lower ''name'' = ''name''"
  "lower ''text'' = ''text''" "lower ''tool_use_id'' = ''tool_use_id''"
  by code_simp+

lemma json_role_message [simp]:
  "json_role (anthropic_message parse m) = Some (pm_role m)" "json_role (append_tool_result_message rs) = Some ''user''"
  by (simp_all add: json_role_def anthropic_message_def append_tool_result_message_def lower_keys)

lemma map_filter_all: "(\<And>x. x \<in> set xs \<Longrightarrow> f x = Some (g x)) \<Longrightarrow> List.map_filter f xs = map g xs"
  by (induction xs) (auto simp: List.map_filter_def)

lemma result_ids: "block_ids ''tool_result'' ''tool_use_id'' (append_tool_result_message rs) = map (\<lambda>m. opt_str [] (pm_tool_use_id m)) rs"
  by (simp add: block_ids_def append_tool_result_message_def lower_keys comp_def append_one_tool_result_def List.map_filter_def)

lemma result_no_calls [simp]: "block_ids ''tool_use'' ''id'' (append_tool_result_message rs) = []"
  by (simp add: block_ids_def append_tool_result_message_def lower_keys comp_def append_one_tool_result_def List.map_filter_def)

lemma call_ids:
  assumes "pm_role m = ''assistant''" "pm_tool_calls m \<noteq> []"
  shows "block_ids ''tool_use'' ''id'' (anthropic_message parse m) = map (\<lambda>c. opt_str [] (tc_id c)) (pm_tool_calls m)"
proof -
  have "(if string_of (cJSON_GetObjectItem (tool_use_block parse c) ''type'') = Some ''tool_use''
      then string_of (cJSON_GetObjectItem (tool_use_block parse c) ''id'') else None) = Some (opt_str [] (tc_id c))" for c
    by (simp add: tool_use_block_def lower_keys)
  then show ?thesis using assms
    by (simp add: block_ids_def anthropic_message_def append_assistant_tool_content_def lower_keys List.map_filter_def comp_def)
qed

lemma plain_no_calls [simp]: "pm_tool_calls m = [] \<Longrightarrow> block_ids ''tool_use'' ''id'' (anthropic_message parse m) = []"
  by (simp add: block_ids_def anthropic_message_def lower_keys List.map_filter_def)

text \<open>The messages of the rounds.\<close>

definition round_json :: "(string \<Rightarrow> cjson option) \<Rightarrow> provider_message list \<Rightarrow> cjson list" where
  "round_json parse r = [anthropic_message parse (hd r), append_tool_result_message (tl r)]"

lemma answered_roundD:
  assumes "answered_round r" "ids_present r"
  obtains m a as where "r = m # a # as" "pm_role m = ''assistant''" "pm_tool_use_id m = None" "pm_tool_calls m \<noteq> []"
    "list_all has_tool_use_id (a # as)" "pm_role a = ''user''"
    "map (\<lambda>x. opt_str [] (pm_tool_use_id x)) (a # as) = map (\<lambda>c. opt_str [] (tc_id c)) (pm_tool_calls m)"
proof -
  obtain m ans where r: "r = m # ans" and h: "pm_role m = ''assistant''" "pm_tool_use_id m = None" "pm_tool_calls m \<noteq> []"
    "map pm_tool_use_id ans = map tc_id (pm_tool_calls m)" "list_all (\<lambda>a. pm_role a = ''user'' \<and> pm_tool_calls a = []) ans"
    using assms(1) by (cases r) (auto simp: answered_round_def)
  obtain a as where ans: "ans = a # as" using h(3,4) by (cases ans) auto
  have "list_all (\<lambda>i. i \<noteq> None) (map tc_id (pm_tool_calls m))" using assms(2) by (simp add: ids_present_def r list_all_iff)
  then have "list_all has_tool_use_id ans" unfolding h(4) [symmetric] has_tool_use_id_def by (simp add: list_all_iff)
  then have ids: "list_all has_tool_use_id (a # as)" unfolding ans .
  have "map (\<lambda>x. opt_str [] (pm_tool_use_id x)) ans = map (opt_str []) (map pm_tool_use_id ans)" by simp
  also have "\<dots> = map (\<lambda>c. opt_str [] (tc_id c)) (pm_tool_calls m)" unfolding h(4) by simp
  finally have eq: "map (\<lambda>x. opt_str [] (pm_tool_use_id x)) (a # as) = map (\<lambda>c. opt_str [] (tc_id c)) (pm_tool_calls m)" unfolding ans .
  have user: "pm_role a = ''user''" using h(5) ans by simp
  show thesis by (rule that [OF _ h(1,2,3) ids user eq]) (simp add: r ans)
qed

lemma takeWhile_block:
  assumes "\<And>x. x \<in> set as \<Longrightarrow> P x" "bs = [] \<or> \<not> P (hd bs)"
  shows "takeWhile P (as @ bs) = as" "dropWhile P (as @ bs) = bs"
proof -
  have "takeWhile P bs = []" "dropWhile P bs = bs" using assms(2) by (cases bs; simp)+
  then show "takeWhile P (as @ bs) = as" "dropWhile P (as @ bs) = bs" using assms(1) by (simp_all add: takeWhile_append2 dropWhile_append2)
qed

lemma rounds_json:
  assumes "list_all answered_round rounds" "ids_present (concat rounds)"
  shows "append_anthropic_messages parse (concat rounds) = concat (map (round_json parse) rounds)"
  using assms
proof (induction rounds)
  case (Cons r rounds)
  obtain m a as where r: "r = m # a # as" "pm_role m = ''assistant''" "pm_tool_use_id m = None" "pm_tool_calls m \<noteq> []"
    "list_all has_tool_use_id (a # as)" "pm_role a = ''user''"
    by (rule answered_roundD [of r]) (use Cons(2,3) in \<open>auto simp: ids_present_def\<close>)
  have next_plain: "takeWhile has_tool_use_id (as @ concat rounds) = as" "dropWhile has_tool_use_id (as @ concat rounds) = concat rounds"
  proof -
    have "concat rounds = [] \<or> \<not> has_tool_use_id (hd (concat rounds))"
    proof (cases rounds)
      case (Cons r' rs)
      then obtain m' x where "r' = m' # x" "pm_tool_use_id m' = None"
        using \<open>list_all answered_round (r # rounds)\<close> by (cases r') (auto simp: answered_round_def)
      then show ?thesis using Cons by (simp add: has_tool_use_id_def)
    qed simp
    moreover have "has_tool_use_id x" if h: "x \<in> set as" for x using r(5) h by (simp add: list_all_iff)
    ultimately show "takeWhile has_tool_use_id (as @ concat rounds) = as" "dropWhile has_tool_use_id (as @ concat rounds) = concat rounds"
      using takeWhile_block [of as has_tool_use_id "concat rounds"] by blast+
  qed
  have "\<not> has_tool_use_id m" "has_tool_use_id a" using r(3,5) by (simp_all add: has_tool_use_id_def)
  then have "append_anthropic_messages parse (concat (r # rounds)) = round_json parse r @ append_anthropic_messages parse (concat rounds)"
    using r(2,6) next_plain by (simp add: r(1) round_json_def)
  then show ?case using Cons by (simp add: ids_present_def)
qed simp

lemma plain_json:
  "list_all plain_turn hist \<Longrightarrow> list_all (\<lambda>m. pm_role m \<noteq> ''system'') hist \<Longrightarrow>
   append_anthropic_messages parse (hist @ ms) = map (anthropic_message parse) hist @ append_anthropic_messages parse ms"
  by (induction hist) (auto simp: plain_turn_def has_tool_use_id_def)

lemma calls_answered_plain:
  "list_all (\<lambda>m. pm_tool_calls m = []) hist \<Longrightarrow> calls_answered (map (anthropic_message parse) hist @ js) = calls_answered js"
  by (induction hist) auto

lemma calls_answered_rounds:
  "list_all answered_round rounds \<Longrightarrow> ids_present (concat rounds) \<Longrightarrow> calls_answered (concat (map (round_json parse) rounds))"
proof (induction rounds)
  case (Cons r rounds)
  obtain m a as where r: "r = m # a # as" "pm_role m = ''assistant''" "pm_tool_calls m \<noteq> []"
    "map (\<lambda>x. opt_str [] (pm_tool_use_id x)) (a # as) = map (\<lambda>c. opt_str [] (tc_id c)) (pm_tool_calls m)"
    by (rule answered_roundD [of r]) (use Cons(2,3) in \<open>auto simp: ids_present_def\<close>)
  then show ?case using Cons by (simp add: round_json_def result_ids call_ids ids_present_def)
qed simp

lemma round_roles:
  assumes "list_all answered_round rounds"
  shows "map json_role (concat (map (round_json parse) rounds)) = concat (replicate (length rounds) [Some ''assistant'', Some ''user''])"
  using assms
proof (induction rounds)
  case (Cons r rounds)
  then have "pm_role (hd r) = ''assistant''" by (cases r) (auto simp: answered_round_def)
  then show ?case using Cons by (simp add: round_json_def)
qed simp

lemma alternating_rounds: "distinct_adj (Some ''user'' # concat (replicate n [Some ''assistant'', Some ''user'']))"
  by (induction n) (auto simp: distinct_adj_Cons)

lemma distinct_adj_Some: "distinct_adj xs \<Longrightarrow> distinct_adj (map Some xs)"
  by (rule distinct_adj_mapI) auto

text \<open>(C18) The Anthropic request built from a conversation has no two consecutive messages of the same role, and every message
  with tool calls is directly followed by one user message that carries exactly their results, in order, which is what the API
  requires.  This for a history whose roles alternate and end with a turn that is not the user's, and tool calls that have ids.\<close>

theorem anthropic_request_accepted:
  assumes "list_all plain_turn hist" "list_all (\<lambda>m. pm_role m \<noteq> ''system'') hist" "distinct_adj (map pm_role hist)"
    "hist = [] \<or> pm_role (last hist) \<noteq> ''user''" "list_all answered_round rounds" "ids_present (concat rounds)"
  shows "distinct_adj (map json_role (append_anthropic_messages parse
      (plain_message ''system'' sys # hist @ plain_message ''user'' u # concat rounds))) \<and>
    calls_answered (append_anthropic_messages parse (plain_message ''system'' sys # hist @ plain_message ''user'' u # concat rounds))"
proof -
  let ?user = "plain_message ''user'' u"
  have u: "pm_role ?user = ''user''" "pm_tool_calls ?user = []" "\<not> has_tool_use_id ?user" "pm_role (plain_message ''system'' sys) = ''system''"
    by (simp_all add: plain_message_def has_tool_use_id_def)
  have js: "append_anthropic_messages parse (plain_message ''system'' sys # hist @ ?user # concat rounds) =
      map (anthropic_message parse) hist @ anthropic_message parse ?user # concat (map (round_json parse) rounds)"
    using u plain_json [OF assms(1,2), of parse "?user # concat rounds"] rounds_json [OF assms(5,6), of parse] by simp
  have h: "list_all (\<lambda>m. pm_tool_calls m = []) hist" using assms(1) by (simp add: list_all_iff plain_turn_def)
  have "calls_answered (anthropic_message parse ?user # concat (map (round_json parse) rounds))"
    using calls_answered_rounds [OF assms(5,6)] u by simp
  then have ca: "calls_answered (map (anthropic_message parse) hist @ anthropic_message parse ?user # concat (map (round_json parse) rounds))"
    unfolding calls_answered_plain [OF h] .
  have roles: "map json_role (map (anthropic_message parse) hist @ anthropic_message parse ?user # concat (map (round_json parse) rounds)) =
      map Some (map pm_role hist) @ Some ''user'' # concat (replicate (length rounds) [Some ''assistant'', Some ''user''])"
    using u round_roles [OF assms(5), of parse] by (simp add: comp_def)
  have "distinct_adj (map Some (map pm_role hist))" using assms(3) by (rule distinct_adj_Some)
  moreover have "hist \<noteq> [] \<Longrightarrow> last (map Some (map pm_role hist)) \<noteq> Some ''user''" using assms(4) by (simp add: last_map)
  ultimately have "distinct_adj (map Some (map pm_role hist) @ Some ''user'' # concat (replicate (length rounds) [Some ''assistant'', Some ''user'']))"
    using alternating_rounds [of "length rounds"] by (auto simp: distinct_adj_append_iff)
  then show ?thesis unfolding js roles using ca by blast
qed

text \<open>Two earlier turns, then a turn with one round of two tool calls.\<close>

definition demo_history :: "provider_message list" where
  "demo_history = [plain_message ''user'' ''hi'', plain_message ''assistant'' ''hello'']"

definition demo_round :: "provider_message list" where
  "demo_round =
     [(plain_message ''assistant'' ''let me look'')\<lparr>pm_tool_calls :=
         [\<lparr>tc_id = Some ''t1'', tc_name = Some ''shell'', tc_arguments = Some ''{}''\<rparr>, \<lparr>tc_id = Some ''t2'', tc_name = Some ''file'', tc_arguments = None\<rparr>]\<rparr>,
      (plain_message ''user'' ''ok'')\<lparr>pm_tool_use_id := Some ''t1''\<rparr>, (plain_message ''user'' ''done'')\<lparr>pm_tool_use_id := Some ''t2''\<rparr>]"

theorem anthropic_request_accepted_witness:
  "distinct_adj (map json_role (append_anthropic_messages (\<lambda>_. None)
      (plain_message ''system'' ''s'' # demo_history @ plain_message ''user'' ''go'' # concat [demo_round]))) \<and>
    calls_answered (append_anthropic_messages (\<lambda>_. None) (plain_message ''system'' ''s'' # demo_history @ plain_message ''user'' ''go'' # concat [demo_round]))"
  by (rule anthropic_request_accepted)
    (simp_all add: demo_history_def demo_round_def plain_turn_def plain_message_def answered_round_def ids_present_def MAX_TOOL_CALLS_def)

end
