(* ===== verification/Router.thy ===== *)
theory Router
  imports Anthropic
begin

text \<open>
  \<open>src/providers/router.c\<close>, the composite provider that tries the backends of \<open>fallback_chain\<close> in order, and the stub backends of
  \<open>src/providers/stub.c\<close>.  The outside world (JSON library, libcurl, clock, environment) is the record \<open>net\<close>.  The three snapshot
  variables change under one mutex in the code, so each of the functions that set them is one step here; the status callback is
  counted in \<open>r_notified\<close>.
\<close>

section \<open>Definitions\<close>

definition ROUTER_BACKEND_MAX :: nat where "ROUTER_BACKEND_MAX = 32"
definition SNAP_ACT_SZ :: nat where "SNAP_ACT_SZ = 96"
definition SNAP_ERR_SZ :: nat where "SNAP_ERR_SZ = 768"
definition ROUTER_RECOVERY_INTERVAL_DEFAULT_SEC :: int where "ROUTER_RECOVERY_INTERVAL_DEFAULT_SEC = 300"
definition ANTHROPIC_MODELS_URL :: string where "ANTHROPIC_MODELS_URL = ''https://api.anthropic.com/v1/models''"
definition ANTHROPIC_VERSION_HDR :: string where "ANTHROPIC_VERSION_HDR = ''anthropic-version: 2023-06-01''"

record 'w net =
  n_parse :: "string \<Rightarrow> cjson option"
  n_print :: "cjson \<Rightarrow> string option"
  n_conv :: "int \<Rightarrow> double"
  n_post :: "'w http_post"
  n_get :: "'w http_get"
  n_clock :: "'w \<Rightarrow> int"
  n_env :: "string \<Rightarrow> string option"

datatype backend = Stub | Stub_B | Anthropic_Backend | Openai_Backend | Local_Backend

definition backend_name :: "backend \<Rightarrow> string" where
  "backend_name b = (case b of Stub \<Rightarrow> ''stub'' | Stub_B \<Rightarrow> ''stub-b'' | Anthropic_Backend \<Rightarrow> ''anthropic'' | Openai_Backend \<Rightarrow> ''openai''
     | Local_Backend \<Rightarrow> ''local'')"

subsection \<open>The stubs\<close>

record stub_b_state =
  stub_b_chat_should_fail :: bool
  stub_b_error_message :: "string option"

definition stub_b_init :: "stub_b_state \<Rightarrow> int \<times> stub_b_state" where
  "stub_b_init s = (0, \<lparr>stub_b_chat_should_fail = False, stub_b_error_message = None\<rparr>)"

definition stub_chat :: "provider_response \<Rightarrow> int \<times> provider_response" where
  "stub_chat response = (0, \<lparr>pr_content = Some [], pr_tool_calls = []\<rparr>)"

definition stub_b_chat :: "stub_b_state \<Rightarrow> provider_response \<Rightarrow> int \<times> provider_response" where
  "stub_b_chat s response =
     (if stub_b_chat_should_fail s
      then (- 1, provider_set_error response (or_nonempty (stub_b_error_message s) ''Connection refused (stub-b)''))
      else stub_chat response)"

definition stub_b_cleanup :: "stub_b_state \<Rightarrow> stub_b_state" where
  "stub_b_cleanup s = \<lparr>stub_b_chat_should_fail = False, stub_b_error_message = None\<rparr>"

definition provider_stub_b_set_chat_should_fail :: "bool \<Rightarrow> stub_b_state \<Rightarrow> stub_b_state" where
  "provider_stub_b_set_chat_should_fail should_fail s = s\<lparr>stub_b_chat_should_fail := should_fail\<rparr>"

definition provider_stub_b_set_chat_error_message :: "string option \<Rightarrow> stub_b_state \<Rightarrow> stub_b_state" where
  "provider_stub_b_set_chat_error_message message s = s\<lparr>stub_b_error_message := message\<rparr>"

subsection \<open>The backends behind their table of functions\<close>

record providers =
  p_stub_b :: stub_b_state
  p_anthropic :: anth_state
  p_openai :: oai_state
  p_local :: local_state

definition backend_init :: "'w net \<Rightarrow> backend \<Rightarrow> config \<Rightarrow> providers \<times> 'w \<Rightarrow> int \<times> providers \<times> 'w" where
  "backend_init n b cfg = (\<lambda>(ps, w).
     case b of
       Stub \<Rightarrow> (0, ps, w)
     | Stub_B \<Rightarrow> (let (r, s) = stub_b_init (p_stub_b ps) in (r, ps\<lparr>p_stub_b := s\<rparr>, w))
     | Anthropic_Backend \<Rightarrow> (let (r, s) = anthropic_init (n_env n) cfg (p_anthropic ps) in (r, ps\<lparr>p_anthropic := s\<rparr>, w))
     | Openai_Backend \<Rightarrow> (let (r, s) = openai_init (n_env n) cfg (p_openai ps) in (r, ps\<lparr>p_openai := s\<rparr>, w))
     | Local_Backend \<Rightarrow> (let (r, s, w') = local_init (n_get n) cfg (p_local ps) w in (r, ps\<lparr>p_local := s\<rparr>, w')))"

definition backend_chat ::
  "'w net \<Rightarrow> provider_message list \<Rightarrow> provider_tool_def list \<Rightarrow> backend \<Rightarrow> provider_response \<Rightarrow> providers \<times> 'w \<Rightarrow>
   (int \<times> provider_response) \<times> providers \<times> 'w" where
  "backend_chat n messages tools b response = (\<lambda>(ps, w).
     case b of
       Stub \<Rightarrow> (stub_chat response, ps, w)
     | Stub_B \<Rightarrow> (stub_b_chat (p_stub_b ps) response, ps, w)
     | Anthropic_Backend \<Rightarrow>
         (let (r, w') = anthropic_chat (n_parse n) (n_print n) (n_conv n) (n_post n) (p_anthropic ps) messages tools response w in (r, ps, w'))
     | Openai_Backend \<Rightarrow>
         (let (r, w') = openai_chat (n_parse n) (n_print n) (n_conv n) (n_post n) (p_openai ps) messages tools response w in (r, ps, w'))
     | Local_Backend \<Rightarrow>
         (let (r, s, w') = local_chat (n_parse n) (n_print n) (n_conv n) (n_post n) (n_get n) (n_clock n) (p_local ps) messages tools response w
          in (r, ps\<lparr>p_local := s\<rparr>, w')))"

definition backend_cleanup :: "backend \<Rightarrow> providers \<Rightarrow> providers" where
  "backend_cleanup b ps =
     (case b of
        Stub \<Rightarrow> ps
      | Stub_B \<Rightarrow> ps\<lparr>p_stub_b := stub_b_cleanup (p_stub_b ps)\<rparr>
      | Anthropic_Backend \<Rightarrow> ps\<lparr>p_anthropic := anthropic_cleanup (p_anthropic ps)\<rparr>
      | Openai_Backend \<Rightarrow> ps\<lparr>p_openai := openai_cleanup (p_openai ps)\<rparr>
      | Local_Backend \<Rightarrow> ps\<lparr>p_local := local_cleanup (p_local ps)\<rparr>)"

subsection \<open>Lookup and snapshots\<close>

definition str_case_equal :: "string \<Rightarrow> string \<Rightarrow> bool" where
  "str_case_equal a b \<longleftrightarrow> lower a = lower b"

definition lookup_backend :: "string \<Rightarrow> backend option" where
  "lookup_backend name =
     (if name = [] then None
      else if str_case_equal name ''stub'' then Some Stub
      else if str_case_equal name ''stub-b'' then Some Stub_B
      else if str_case_equal name ''anthropic'' then Some Anthropic_Backend
      else if str_case_equal name ''openai'' then Some Openai_Backend
      else if str_case_equal name ''local'' then Some Local_Backend
      else None)"

definition backends_contains :: "backend list \<Rightarrow> backend \<Rightarrow> bool" where
  "backends_contains bs p \<longleftrightarrow> p \<in> set bs"

record router =
  r_snap_act :: string
  r_snap_err :: string
  r_chain_ix :: nat
  r_backends :: "backend list"
  r_cfg :: "config option"
  r_recovery_interval :: int
  r_recovery_last :: int
  r_status_cb :: bool
  r_notified :: nat

definition router_start :: router where
  "router_start = \<lparr>r_snap_act = [], r_snap_err = [], r_chain_ix = 0, r_backends = [], r_cfg = None,
     r_recovery_interval = ROUTER_RECOVERY_INTERVAL_DEFAULT_SEC, r_recovery_last = 0, r_status_cb = False, r_notified = 0\<rparr>"

definition router_snap_clear_all :: "router \<Rightarrow> router" where
  "router_snap_clear_all r = r\<lparr>r_snap_act := [], r_snap_err := [], r_chain_ix := 0\<rparr>"

definition provider_router_set_status_changed_callback :: "bool \<Rightarrow> router \<Rightarrow> router" where
  "provider_router_set_status_changed_callback fn r = r\<lparr>r_status_cb := fn\<rparr>"

definition router_snap_set_active :: "string \<Rightarrow> nat \<Rightarrow> router \<Rightarrow> router" where
  "router_snap_set_active name chain_ix r =
     (let new_act = buf_trunc SNAP_ACT_SZ name;
          changed = (r_chain_ix r \<noteq> chain_ix \<or> r_snap_act r \<noteq> new_act) in
      r\<lparr>r_chain_ix := chain_ix, r_snap_act := new_act, r_notified := (if changed \<and> r_status_cb r then Suc (r_notified r) else r_notified r)\<rparr>)"

definition snapshot_set_last_err :: "string \<Rightarrow> router \<Rightarrow> router" where
  "snapshot_set_last_err msg r = r\<lparr>r_snap_err := buf_trunc SNAP_ERR_SZ msg\<rparr>"

definition provider_router_active_backend_snapshot :: "nat \<Rightarrow> router \<Rightarrow> string" where
  "provider_router_active_backend_snapshot dst_sz r = buf_trunc dst_sz (r_snap_act r)"

definition provider_router_last_error_snapshot :: "nat \<Rightarrow> router \<Rightarrow> string" where
  "provider_router_last_error_snapshot dst_sz r = buf_trunc dst_sz (r_snap_err r)"

definition clear_backends_list :: "router \<Rightarrow> router" where
  "clear_backends_list r = r\<lparr>r_backends := [], r_cfg := None\<rparr>"

subsection \<open>Recovery\<close>

definition router_build_openai_models_url :: "string option \<Rightarrow> nat \<Rightarrow> string option" where
  "router_build_openai_models_url endpoint bufsz =
     (let ep = or_nonempty endpoint ''https://api.openai.com/v1/chat/completions'' in
      case before ''/v1/'' ep of
        None \<Rightarrow> None
      | Some k \<Rightarrow> if k + 3 + 8 \<ge> bufsz then None else Some (take (k + 3) ep @ ''/models''))"

definition router_probe_backend :: "'w net \<Rightarrow> backend \<Rightarrow> config \<Rightarrow> providers \<times> 'w \<Rightarrow> bool \<times> providers \<times> 'w" where
  "router_probe_backend n b cfg = (\<lambda>(ps, w).
     case b of
       Local_Backend \<Rightarrow>
         (let (ok, w') = local_probe_endpoint (n_get n) (config_provider_local_endpoint cfg) w in
          (ok, if ok then ps\<lparr>p_local := provider_local_recovery_probe_succeeded (p_local ps)\<rparr> else ps, w'))
     | Openai_Backend \<Rightarrow>
         (case Option.bind (nonempty (provider_openai_api_key_env (c_provider cfg))) (\<lambda>v. nonempty (n_env n v)) of
            None \<Rightarrow> (False, ps, w)
          | Some key \<Rightarrow>
              (case router_build_openai_models_url (provider_openai_endpoint (c_provider cfg)) 512 of
                 None \<Rightarrow> (False, ps, w)
               | Some url \<Rightarrow> (let (ok, w') = n_get n url [''Authorization: Bearer '' @ key] w in (ok, ps, w'))))
     | Anthropic_Backend \<Rightarrow>
         (case Option.bind (nonempty (provider_anthropic_api_key_env (c_provider cfg))) (\<lambda>v. nonempty (n_env n v)) of
            None \<Rightarrow> (False, ps, w)
          | Some key \<Rightarrow> (let (ok, w') = n_get n ANTHROPIC_MODELS_URL [ANTHROPIC_VERSION_HDR, ''x-api-key: '' @ key] w in (ok, ps, w')))
     | _ \<Rightarrow> (True, ps, w))"

definition provider_router_periodic_recovery_set_interval_seconds :: "int \<Rightarrow> router \<Rightarrow> router" where
  "provider_router_periodic_recovery_set_interval_seconds interval_sec r =
     r\<lparr>r_recovery_interval := (if interval_sec \<noteq> 0 then interval_sec else ROUTER_RECOVERY_INTERVAL_DEFAULT_SEC)\<rparr>"

definition provider_router_periodic_recovery_reset_timer :: "router \<Rightarrow> router" where
  "provider_router_periodic_recovery_reset_timer r = r\<lparr>r_recovery_last := 0\<rparr>"

fun probe_loop :: "'w net \<Rightarrow> config \<Rightarrow> nat \<Rightarrow> backend list \<Rightarrow> router \<Rightarrow> providers \<times> 'w \<Rightarrow> router \<times> providers \<times> 'w" where
  "probe_loop n cfg j [] r p = (r, p)"
| "probe_loop n cfg j (b # bs) r p =
     (let (ok, p') = router_probe_backend n b cfg p in
      if ok then (snapshot_set_last_err [] (router_snap_set_active (backend_name b) j r), p')
      else probe_loop n cfg (Suc j) bs r p')"

definition provider_router_periodic_recovery_tick ::
  "'w net \<Rightarrow> int \<Rightarrow> router \<Rightarrow> providers \<times> 'w \<Rightarrow> router \<times> providers \<times> 'w" where
  "provider_router_periodic_recovery_tick n now_wall r p =
     (case r_cfg r of
        None \<Rightarrow> (r, p)
      | Some cfg \<Rightarrow>
          if length (r_backends r) < 2 \<or> r_chain_ix r = 0 \<or>
             r_recovery_last r \<noteq> 0 \<and> (now_wall - r_recovery_last r) mod 18446744073709551616 < r_recovery_interval r
          then (r, p)
          else probe_loop n cfg 0 (take (r_chain_ix r) (r_backends r)) (r\<lparr>r_recovery_last := now_wall\<rparr>) p)"

subsection \<open>The composite provider\<close>

fun init_loop :: "'w net \<Rightarrow> config \<Rightarrow> string option list \<Rightarrow> router \<Rightarrow> providers \<times> 'w \<Rightarrow> router \<times> providers \<times> 'w" where
  "init_loop n cfg [] r p = (r, p)"
| "init_loop n cfg (nm # nms) r p =
     (case Option.bind nm lookup_backend of
        None \<Rightarrow> init_loop n cfg nms r p
      | Some b \<Rightarrow>
          if backends_contains (r_backends r) b then init_loop n cfg nms r p
          else let (ret, p') = backend_init n b cfg p in
            if ret \<noteq> 0 then init_loop n cfg nms r p'
            else if length (r_backends r) \<ge> ROUTER_BACKEND_MAX then (r, p')
            else init_loop n cfg nms (r\<lparr>r_backends := r_backends r @ [b]\<rparr>) p')"

definition fallback_composite_init :: "'w net \<Rightarrow> config option \<Rightarrow> router \<Rightarrow> providers \<times> 'w \<Rightarrow> int \<times> router \<times> providers \<times> 'w" where
  "fallback_composite_init n cfg r p =
     (let r0 = router_snap_clear_all (clear_backends_list r) in
      case cfg of
        None \<Rightarrow> (- 1, r0, p)
      | Some c \<Rightarrow>
          let r1 = r0\<lparr>r_cfg := Some c\<rparr>; chain_n = config_provider_fallback_chain_count c in
          if chain_n \<le> 0 then (- 1, r1, p)
          else let (r2, p2) = init_loop n c (map (config_provider_fallback_chain_entry c) [0..chain_n - 1]) r1 p in
            (case r_backends r2 of
               [] \<Rightarrow> (- 1, clear_backends_list r2, p2)
             | b # bs \<Rightarrow>
                 (0, (snapshot_set_last_err [] (router_snap_set_active (backend_name b) 0 r2))\<lparr>r_recovery_last := n_clock n (snd p2)\<rparr>, p2)))"

definition fallback_composite_cleanup :: "router \<Rightarrow> providers \<Rightarrow> router \<times> providers" where
  "fallback_composite_cleanup r ps =
     ((clear_backends_list (router_snap_clear_all r))\<lparr>r_recovery_last := 0\<rparr>, fold backend_cleanup (rev (r_backends r)) ps)"

fun chat_loop ::
  "(backend \<Rightarrow> provider_response \<Rightarrow> 's \<Rightarrow> (int \<times> provider_response) \<times> 's) \<Rightarrow> nat \<Rightarrow> backend list \<Rightarrow> provider_response \<Rightarrow> router \<Rightarrow> 's \<Rightarrow>
   (int \<times> provider_response) \<times> router \<times> 's" where
  "chat_loop chat ix [] response r s = ((- 1, response), r, s)"
| "chat_loop chat ix (b # bs) response r s =
     (let ((ret, resp), s') = chat b response s in
      if ret = 0 then ((0, resp), snapshot_set_last_err [] (router_snap_set_active (backend_name b) ix r), s')
      else let r' = snapshot_set_last_err (opt_str [] (pr_content resp)) r in
        if \<not> provider_error_allows_fallback_retry (pr_content resp) then ((ret, resp), r', s')
        else chat_loop chat (Suc ix) bs (provider_response_clear resp) r' s')"

definition fallback_composite_chat ::
  "'w net \<Rightarrow> provider_message list \<Rightarrow> provider_tool_def list \<Rightarrow> provider_response \<Rightarrow> router \<Rightarrow> providers \<times> 'w \<Rightarrow>
   (int \<times> provider_response) \<times> router \<times> providers \<times> 'w" where
  "fallback_composite_chat n messages tools response r p =
     (if r_cfg r = None \<or> r_backends r = []
      then ((- 1, provider_set_error response ''Fallback router has no backends''), r, p)
      else chat_loop (backend_chat n messages tools) 0 (r_backends r) (provider_response_clear response) r p)"

subsection \<open>Status and reload\<close>

fun provider_entries :: "nat \<Rightarrow> nat \<Rightarrow> backend list \<Rightarrow> cjson list" where
  "provider_entries i aix [] = []"
| "provider_entries i aix (b # bs) =
     CObject ((''name'', CString (backend_name b)) #
       (if i < aix then [(''reachable'', CFalse), (''role'', CString ''unavailable'')]
        else if i = aix then [(''reachable'', CTrue), (''role'', CString (if i = 0 then ''primary'' else ''fallback''))]
        else [(''reachable'', CTrue), (''role'', CString ''standby'')])) # provider_entries (Suc i) aix bs"

definition provider_router_api_status_json :: "'w net \<Rightarrow> router \<Rightarrow> 'w \<Rightarrow> string option" where
  "provider_router_api_status_json n r w =
     (let err = provider_router_last_error_snapshot SNAP_ERR_SZ r in
      n_print n (CObject ([(''active_provider'', CString (provider_router_active_backend_snapshot SNAP_ACT_SZ r)),
         (''generated_at'', CNumber (n_conv n (n_clock n w)))] @
         (if err = [] then [] else [(''last_error'', CString err)]) @
         [(''providers'', CArray (if r_cfg r = None then [] else provider_entries 0 (r_chain_ix r) (r_backends r)))])))"

definition provider_router_set_live_config :: "config \<Rightarrow> router \<Rightarrow> router" where
  "provider_router_set_live_config cfg r = (if r_backends r = [] then r else r\<lparr>r_cfg := Some cfg\<rparr>)"

section \<open>The snapshot tells which backend is active\<close>

inductive router_step :: "'w net \<Rightarrow> router \<times> providers \<times> 'w \<Rightarrow> router \<times> providers \<times> 'w \<Rightarrow> bool" for n :: "'w net" where
  init: "fallback_composite_init n cfg r p = (ret, r', p') \<Longrightarrow> router_step n (r, p) (r', p')"
| chat: "fallback_composite_chat n messages tools response r p = (res, r', p') \<Longrightarrow> router_step n (r, p) (r', p')"
| tick: "provider_router_periodic_recovery_tick n now r p = (r', p') \<Longrightarrow> router_step n (r, p) (r', p')"
| cleanup: "fallback_composite_cleanup r ps = (r', ps') \<Longrightarrow> router_step n (r, ps, w) (r', ps', w)"
| reload: "router_step n (r, p) (provider_router_set_live_config cfg r, p)"
| timer: "router_step n (r, p) (provider_router_periodic_recovery_reset_timer r, p)"
| interval: "router_step n (r, p) (provider_router_periodic_recovery_set_interval_seconds i r, p)"
| callback: "router_step n (r, p) (provider_router_set_status_changed_callback cb r, p)"
| outside: "router_step n (r, ps, w) (r, ps', w')"

definition router_reach :: "'w net \<Rightarrow> router \<times> providers \<times> 'w \<Rightarrow> bool" where
  "router_reach n s \<longleftrightarrow> (\<exists>p. (router_step n)\<^sup>*\<^sup>* (router_start, p) s)"

definition router_ok :: "router \<Rightarrow> bool" where
  "router_ok r \<longleftrightarrow> distinct (r_backends r) \<and>
     (if r_backends r = [] then r_snap_act r = [] \<and> r_chain_ix r = 0
      else r_cfg r \<noteq> None \<and> r_chain_ix r < length (r_backends r) \<and> r_snap_act r = backend_name (r_backends r ! r_chain_ix r))"

lemma backend_name_fits [simp]: "buf_trunc SNAP_ACT_SZ (backend_name b) = backend_name b"
  by (rule buf_trunc_fits) (cases b; simp add: SNAP_ACT_SZ_def backend_name_def)

lemma set_active_fields [simp]:
  "r_backends (router_snap_set_active nm i r) = r_backends r" "r_cfg (router_snap_set_active nm i r) = r_cfg r"
  "r_chain_ix (router_snap_set_active nm i r) = i" "r_snap_act (router_snap_set_active nm i r) = buf_trunc SNAP_ACT_SZ nm"
  by (simp_all add: router_snap_set_active_def Let_def)

lemma set_last_err_fields [simp]:
  "r_backends (snapshot_set_last_err m r) = r_backends r" "r_cfg (snapshot_set_last_err m r) = r_cfg r"
  "r_chain_ix (snapshot_set_last_err m r) = r_chain_ix r" "r_snap_act (snapshot_set_last_err m r) = r_snap_act r"
  "router_ok (snapshot_set_last_err m r) = router_ok r"
  by (simp_all add: snapshot_set_last_err_def router_ok_def)

lemma set_active_ok:
  "distinct (r_backends r) \<Longrightarrow> r_cfg r \<noteq> None \<Longrightarrow> i < length (r_backends r) \<Longrightarrow> router_ok (router_snap_set_active (backend_name (r_backends r ! i)) i r)"
  by (auto simp: router_ok_def)

lemma okD: "router_ok r \<Longrightarrow> r_backends r \<noteq> [] \<Longrightarrow> distinct (r_backends r) \<and> r_cfg r \<noteq> None"
  by (simp add: router_ok_def)

lemma init_loop_frame:
  "init_loop n cfg nms r p = (r', p') \<Longrightarrow> distinct (r_backends r) \<Longrightarrow>
   distinct (r_backends r') \<and> r_cfg r' = r_cfg r \<and> r_snap_act r' = r_snap_act r \<and> r_chain_ix r' = r_chain_ix r"
proof (induction n cfg nms r p rule: init_loop.induct)
  case (2 n cfg nm nms r p)
  show ?case
  proof (cases "Option.bind nm lookup_backend")
    case (Some b)
    obtain ret q where q: "backend_init n b cfg p = (ret, q)" by (rule prod.exhaust)
    show ?thesis using 2 Some q
      by (auto simp: backends_contains_def split: if_splits)
  qed (use 2 in simp)
qed simp

lemma init_ok: "fallback_composite_init n cfg r p = (ret, r', p') \<Longrightarrow> router_ok r'"
proof -
  assume h: "fallback_composite_init n cfg r p = (ret, r', p')"
  show ?thesis
  proof (cases cfg)
    case (Some c)
    let ?r1 = "(router_snap_clear_all (clear_backends_list r))\<lparr>r_cfg := Some c\<rparr>"
    obtain r2 q where q: "init_loop n c (map (config_provider_fallback_chain_entry c) [0..config_provider_fallback_chain_count c - 1]) ?r1 p = (r2, q)"
      by (rule prod.exhaust)
    note f = init_loop_frame [OF q]
    then show ?thesis using h Some q set_active_ok [of r2 0]
      by (auto simp: fallback_composite_init_def router_ok_def router_snap_clear_all_def clear_backends_list_def Let_def split: list.splits if_splits)
  qed (use h in \<open>auto simp: fallback_composite_init_def router_ok_def router_snap_clear_all_def clear_backends_list_def\<close>)
qed

lemma chat_loop_ok:
  "chat_loop chat ix bs response r s = (res, r', s') \<Longrightarrow> router_ok r \<Longrightarrow> r_backends r = pre @ bs \<Longrightarrow> ix = length pre \<Longrightarrow> router_ok r'"
proof (induction chat ix bs response r s arbitrary: pre rule: chat_loop.induct)
  case (2 chat ix b bs response r s)
  obtain ret resp s1 where c: "chat b response s = ((ret, resp), s1)" by (metis prod.collapse)
  have "ret = 0 \<Longrightarrow> router_ok (router_snap_set_active (backend_name b) ix r)"
    using set_active_ok [of r ix] okD [OF 2(3)] 2(4,5) by (auto simp: nth_append)
  then show ?case using 2(1) [OF c [symmetric] refl, where pre = "pre @ [b]"] 2(2-5) c by (auto simp: Let_def split: if_splits)
qed simp

lemma probe_loop_ok:
  "probe_loop n cfg j bs r p = (r', p') \<Longrightarrow> router_ok r \<Longrightarrow> r_backends r = pre @ bs @ post \<Longrightarrow> j = length pre \<Longrightarrow> router_ok r'"
proof (induction n cfg j bs r p arbitrary: pre rule: probe_loop.induct)
  case (2 n cfg j b bs r p)
  obtain ok q where c: "router_probe_backend n b cfg p = (ok, q)" by (rule prod.exhaust)
  have "router_ok (router_snap_set_active (backend_name b) j r)"
    using set_active_ok [of r j] okD [OF 2(3)] 2(4,5) by (auto simp: nth_append)
  then show ?case using 2(1) [OF c [symmetric], where pre = "pre @ [b]"] 2(2-5) c by (auto split: if_splits)
qed simp

lemma tick_ok:
  assumes "provider_router_periodic_recovery_tick n now r p = (r', p')" "router_ok r"
  shows "router_ok r'"
proof -
  have "router_ok (r\<lparr>r_recovery_last := now\<rparr>)" using assms(2) by (simp add: router_ok_def)
  then have "probe_loop n cfg 0 (take (r_chain_ix r) (r_backends r)) (r\<lparr>r_recovery_last := now\<rparr>) p = (r', p') \<Longrightarrow> router_ok r'" for cfg
    using probe_loop_ok [of n cfg 0 _ _ p r' p' "[]" "drop (r_chain_ix r) (r_backends r)"] by simp
  then show ?thesis using assms by (auto simp: provider_router_periodic_recovery_tick_def split: option.splits if_splits)
qed

lemma chat_ok:
  assumes "fallback_composite_chat n messages tools response r p = (res, r', p')" "router_ok r"
  shows "router_ok r'"
  using assms chat_loop_ok [of _ 0 "r_backends r" _ r p res r' p' "[]"] by (auto simp: fallback_composite_chat_def split: if_splits)

lemma small_steps_ok:
  "router_ok (fst (fallback_composite_cleanup r ps))"
  "router_ok r \<Longrightarrow> router_ok (provider_router_set_live_config cfg r)"
  "router_ok r \<Longrightarrow> router_ok (provider_router_periodic_recovery_reset_timer r)"
  "router_ok r \<Longrightarrow> router_ok (provider_router_periodic_recovery_set_interval_seconds i r)"
  "router_ok r \<Longrightarrow> router_ok (provider_router_set_status_changed_callback cb r)"
  by (simp_all add: router_ok_def fallback_composite_cleanup_def clear_backends_list_def router_snap_clear_all_def
      provider_router_set_live_config_def provider_router_periodic_recovery_reset_timer_def
      provider_router_periodic_recovery_set_interval_seconds_def provider_router_set_status_changed_callback_def)

lemma step_ok: "router_step n s s' \<Longrightarrow> router_ok (fst s) \<Longrightarrow> router_ok (fst s')"
proof (induction rule: router_step.induct)
  case (cleanup r ps r' ps' w)
  then show ?case using small_steps_ok(1) [of r ps] by simp
qed (auto intro: init_ok tick_ok chat_ok small_steps_ok)

text \<open>In every state the router can reach, by initialisation, chats, recovery ticks, reloads and clean-ups in any order, no
  backend is listed twice, and the published status names the backend at the active position of the chain (and none when the
  router holds no backends).\<close>

theorem router_status_consistent:
  assumes "router_reach n s"
  shows "router_ok (fst s)"
proof -
  obtain p where "(router_step n)\<^sup>*\<^sup>* (router_start, p) s" using assms unfolding router_reach_def by blast
  moreover have "router_ok (fst (router_start, p))" by (simp add: router_ok_def router_start_def)
  ultimately show ?thesis by (induction rule: rtranclp_induct) (auto dest: step_ok)
qed

section \<open>Which backend answers\<close>

text \<open>The \<open>i\<close>th call when all backends before have been called, and whether it lets the chain continue.\<close>

definition call_at :: "(backend \<Rightarrow> provider_response \<Rightarrow> 's \<Rightarrow> (int \<times> provider_response) \<times> 's) \<Rightarrow> backend list \<Rightarrow> 's \<Rightarrow> nat \<Rightarrow> (int \<times> provider_response) \<times> 's" where
  "call_at chat bs s i = chat (bs ! i) no_response (fold (\<lambda>b s. snd (chat b no_response s)) (take i bs) s)"

definition passes_on :: "(int \<times> provider_response) \<times> 's \<Rightarrow> bool" where
  "passes_on out \<longleftrightarrow> fst (fst out) \<noteq> 0 \<and> provider_error_allows_fallback_retry (pr_content (snd (fst out)))"

definition deciding :: "(backend \<Rightarrow> provider_response \<Rightarrow> 's \<Rightarrow> (int \<times> provider_response) \<times> 's) \<Rightarrow> backend list \<Rightarrow> 's \<Rightarrow> nat option" where
  "deciding chat bs s = find (\<lambda>i. \<not> passes_on (call_at chat bs s i)) [0..<length bs]"

definition chain_result ::
  "(backend \<Rightarrow> provider_response \<Rightarrow> 's \<Rightarrow> (int \<times> provider_response) \<times> 's) \<Rightarrow> backend list \<Rightarrow> nat \<Rightarrow> router \<Rightarrow> 's \<Rightarrow>
   (int \<times> provider_response) \<times> router \<times> 's" where
  "chain_result chat bs ix r s =
     (case deciding chat bs s of
        Some k \<Rightarrow>
          let ((ret, resp), s') = call_at chat bs s k in
          ((ret, resp),
           if ret = 0 then snapshot_set_last_err [] (router_snap_set_active (backend_name (bs ! k)) (ix + k) r)
           else snapshot_set_last_err (opt_str [] (pr_content resp)) r, s')
      | None \<Rightarrow>
          let ((ret, resp), s') = call_at chat bs s (length bs - 1) in
          ((- 1, no_response), snapshot_set_last_err (opt_str [] (pr_content resp)) r, s'))"

lemma call_at_Cons [simp]: "call_at chat (b # bs) s (Suc i) = call_at chat bs (snd (chat b no_response s)) i"
  by (simp add: call_at_def)

lemma call_at_0 [simp]: "call_at chat (b # bs) s 0 = chat b no_response s"
  by (simp add: call_at_def)

lemma find_map_Suc: "find P (map Suc xs) = map_option Suc (find (\<lambda>i. P (Suc i)) xs)"
  by (induction xs) auto

lemma deciding_Cons:
  "deciding chat (b # bs) s = (if passes_on (chat b no_response s) then map_option Suc (deciding chat bs (snd (chat b no_response s))) else Some 0)"
proof -
  have "[0..<length (b # bs)] = 0 # map Suc [0..<length bs]" by (simp add: upt_conv_Cons map_Suc_upt del: upt_Suc)
  then show ?thesis by (simp add: deciding_def find_map_Suc del: upt_Suc)
qed

lemma set_last_err_overwrites [simp]:
  "snapshot_set_last_err a (snapshot_set_last_err b r) = snapshot_set_last_err a r"
  "snapshot_set_last_err a (router_snap_set_active nm i (snapshot_set_last_err b r)) = snapshot_set_last_err a (router_snap_set_active nm i r)"
  by (simp_all add: snapshot_set_last_err_def router_snap_set_active_def Let_def)

lemma chain_result_Cons:
  assumes "chat b no_response s = ((ret, resp), s1)" "passes_on ((ret, resp), s1)" "bs \<noteq> []"
  shows "chain_result chat (b # bs) ix r s = chain_result chat bs (Suc ix) (snapshot_set_last_err e r) s1"
  using assms by (cases "deciding chat bs s1"; cases bs) (simp_all add: chain_result_def deciding_Cons split: prod.splits)

lemma chat_loop_result:
  "bs \<noteq> [] \<Longrightarrow> chat_loop chat ix bs no_response r s = chain_result chat bs ix r s"
proof (induction bs arbitrary: ix r s)
  case (Cons b bs)
  obtain ret resp s1 where c: "chat b no_response s = ((ret, resp), s1)" by (metis prod.collapse)
  show ?case
  proof (cases "passes_on ((ret, resp), s1)")
    case True
    then have t: "chat_loop chat ix (b # bs) no_response r s =
        chat_loop chat (Suc ix) bs no_response (snapshot_set_last_err (opt_str [] (pr_content resp)) r) s1"
      using c by (simp add: passes_on_def provider_response_clear_def Let_def)
    show ?thesis
    proof (cases "bs = []")
      case True
      then show ?thesis using t c \<open>passes_on _\<close> by (simp add: chain_result_def deciding_Cons deciding_def)
    qed (use Cons t chain_result_Cons [of chat b s ret resp s1 bs ix] c \<open>passes_on _\<close> in simp)
  next
    case False
    then show ?thesis using c by (auto simp: chain_result_def deciding_Cons passes_on_def Let_def)
  qed
qed simp

text \<open>(C19) A chat through the router is decided by the first backend of the chain that either answers or fails in a way that must
  not be retried: the caller gets that backend's answer, no later backend is called, and an answer makes it the active backend.
  When every backend fails with a retryable error the result is -1 and the last message is kept for the status page.\<close>

theorem router_chat_first_decides:
  assumes "router_ok r" "r_backends r \<noteq> []"
  shows "fallback_composite_chat n messages tools response r p = chain_result (backend_chat n messages tools) (r_backends r) 0 r p"
  using assms(2) okD [OF assms] chat_loop_result [OF assms(2), of "backend_chat n messages tools" 0 r p]
  by (auto simp: fallback_composite_chat_def provider_response_clear_def)

section \<open>A rejected request is not repeated elsewhere\<close>

text \<open>(C20) When the Anthropic backend is first in the chain and the server rejects the request with a status from 400 to 499, the
  caller gets -1 with the message that names the status, no other backend is asked (the only exchange with the network is that
  one), the active backend stays and the message is published.\<close>

theorem client_error_stops_chain:
  assumes "router_ok r" "r_backends r = Anthropic_Backend # bs"
    "p_anthropic ps = \<lparr>anth_api_key = Some key, anth_cfg = Some cfg\<rparr>"
    "provider_model_id_for_backend (or_nonempty (agent_model (c_agent cfg)) ''claude-3-5-sonnet-20241022'') ''anthropic'' = Some model"
    "n_print n (anthropic_body (n_parse n) (n_conv n) model (agent_max_tokens (c_agent cfg)) messages tools) = Some body"
    "n_post n ANTHROPIC_URL [''Content-Type: application/json'', ''anthropic-version: '' @ ANTHROPIC_VERSION, ''x-api-key: '' @ key] body w = (Http_Response code reply, w')"
    "400 \<le> code" "code \<le> 499"
  shows "fallback_composite_chat n messages tools response r (ps, w) =
    ((- 1, \<lparr>pr_content = Some (http_error_text ''Anthropic API'' code), pr_tool_calls = []\<rparr>),
     snapshot_set_last_err (http_error_text ''Anthropic API'' code) r, (ps, w'))"
proof -
  have c: "backend_chat n messages tools Anthropic_Backend no_response (ps, w) =
      ((- 1, \<lparr>pr_content = Some (http_error_text ''Anthropic API'' code), pr_tool_calls = []\<rparr>), (ps, w'))"
    using assms(3-8) by (simp add: backend_chat_def anthropic_chat_def anthropic_build_and_send_def do_request_def Let_def opt_str_def
        provider_response_clear_def no_response_def provider_set_error_def)
  have stop: "\<not> provider_error_allows_fallback_retry (Some (http_error_text ''Anthropic API'' code))"
    using http_error_retry [of "''Anthropic API''" code] assms(7,8) by (simp add: provider_labels_def LLONG_MAX_def)
  have "fallback_composite_chat n messages tools response r (ps, w) =
      chat_loop (backend_chat n messages tools) 0 (Anthropic_Backend # bs) no_response r (ps, w)"
    using okD [OF assms(1)] assms(2) by (auto simp: fallback_composite_chat_def provider_response_clear_def)
  then show ?thesis using c stop by (simp add: Let_def opt_str_def)
qed

section \<open>Examples\<close>

text \<open>A network whose server rejects everything, a configuration with the chain stub-b, STUB, anthropic, stub.\<close>

definition demo_net :: "nat net" where
  "demo_net = \<lparr>n_parse = (\<lambda>_. None), n_print = (\<lambda>_. Some ''body''), n_conv = (\<lambda>_. 0), n_post = (\<lambda>_ _ _ w. (Http_Response 404 [], Suc w)),
     n_get = (\<lambda>_ _ w. (False, Suc w)), n_clock = int, n_env = (\<lambda>_. Some ''key'')\<rparr>"

definition demo_cfg :: config where
  "demo_cfg = config_defaults\<lparr>c_provider := (c_provider config_defaults) \<lparr>provider_anthropic_api_key_env := Some ''K'',
     provider_fallback_chain := [''anthropic'', ''STUB-B'', ''nobody'', ''stub'', ''stub-b'']\<rparr>\<rparr>"

definition demo_providers :: providers where
  "demo_providers = \<lparr>p_stub_b = \<lparr>stub_b_chat_should_fail = False, stub_b_error_message = None\<rparr>, p_anthropic = \<lparr>anth_api_key = None, anth_cfg = None\<rparr>,
     p_openai = \<lparr>oai_api_key = None, oai_cfg = None\<rparr>, p_local = \<lparr>local_cfg = None, local_unavailable = False, local_reprobe_last_wall = 0\<rparr>\<rparr>"

definition demo_state :: "router \<times> providers \<times> nat" where
  "demo_state = snd (fallback_composite_init demo_net (Some demo_cfg) router_start (demo_providers, 7))"

lemma demo_reached: "router_reach demo_net demo_state"
proof -
  obtain ret r' p' where i: "fallback_composite_init demo_net (Some demo_cfg) router_start (demo_providers, 7) = (ret, r', p')" by (metis prod.collapse)
  then have "router_step demo_net (router_start, (demo_providers, 7)) (r', p')" by (rule router_step.init)
  then show ?thesis unfolding router_reach_def demo_state_def i snd_conv by (blast intro: r_into_rtranclp)
qed

theorem router_status_consistent_witness: "router_ok (fst demo_state)"
  using router_status_consistent [OF demo_reached] .

lemma demo_backends: "r_backends (fst demo_state) = [Anthropic_Backend, Stub_B, Stub]"
  by code_simp


lemma demo_ok: "router_ok (fst demo_state)"
  by code_simp

theorem router_chat_first_decides_witness:
  "fallback_composite_chat demo_net [] [] no_response (fst demo_state) (snd demo_state) =
     chain_result (backend_chat demo_net [] []) (r_backends (fst demo_state)) 0 (fst demo_state) (snd demo_state) \<and>
   deciding (backend_chat demo_net [] []) (r_backends (fst demo_state)) (snd demo_state) = Some 0"
proof
  show "fallback_composite_chat demo_net [] [] no_response (fst demo_state) (snd demo_state) =
     chain_result (backend_chat demo_net [] []) (r_backends (fst demo_state)) 0 (fst demo_state) (snd demo_state)"
    by (rule router_chat_first_decides [OF demo_ok]) (simp add: demo_backends)
qed code_simp

theorem client_error_stops_chain_witness:
  "fallback_composite_chat demo_net [] [] no_response (fst demo_state)
      (demo_providers\<lparr>p_anthropic := \<lparr>anth_api_key = Some ''key'', anth_cfg = Some demo_cfg\<rparr>\<rparr>, 7) =
    ((- 1, \<lparr>pr_content = Some ''Anthropic API HTTP 404'', pr_tool_calls = []\<rparr>),
     snapshot_set_last_err ''Anthropic API HTTP 404'' (fst demo_state), (demo_providers\<lparr>p_anthropic := \<lparr>anth_api_key = Some ''key'', anth_cfg = Some demo_cfg\<rparr>\<rparr>, 8))"
proof -
  have "http_error_text ''Anthropic API'' 404 = ''Anthropic API HTTP 404''" by code_simp
  moreover have "provider_model_id_for_backend (or_nonempty (agent_model (c_agent demo_cfg)) ''claude-3-5-sonnet-20241022'') ''anthropic''
      = Some ''claude-3-5-sonnet-20241022''" by code_simp
  ultimately show ?thesis
    using client_error_stops_chain [OF demo_ok demo_backends, of "demo_providers\<lparr>p_anthropic := \<lparr>anth_api_key = Some ''key'', anth_cfg = Some demo_cfg\<rparr>\<rparr>"
        "''key''" demo_cfg "''claude-3-5-sonnet-20241022''" demo_net "[]" "[]" "''body''" 7 404 "[]" 8 no_response]
    by (simp add: demo_net_def)
qed

end
