(* ===== verification/Agent.thy ===== *)
theory Agent
  imports Conversation
begin

text \<open>
  \<open>agent_run\<close> of \<open>src/core/agent.c\<close>: preparing the context, the ReAct loop of model calls and tool calls, and saving the
  exchange.  The state is the database and the rest of the world \<open>'w\<close>; the provider acts on the world, a tool on both.
  The prompt that \<open>skill_build_system_prompt_base\<close> writes, the active backend's name, the full-text match and the
  wall clock are arguments.  Pointer arguments are not \<open>NULL\<close> and allocation succeeds.
\<close>

section \<open>Definitions\<close>

type_synonym 'w agent_state = "memdb option \<times> 'w"

text \<open>\<open>execute\<close> takes the JSON arguments and the capacity; its result is the return code and the text in the buffer.\<close>

record 'w agent_tool =
  at_name :: string
  at_description :: string
  at_parameters_json :: string
  at_execute :: "(string \<Rightarrow> nat \<Rightarrow> 'w agent_state \<Rightarrow> (int \<times> string) \<times> 'w agent_state) option"

record agent_config =
  max_context_messages :: int
  max_tool_iterations :: int

record 'w agent_env =
  env_parse :: "string \<Rightarrow> cjson option"
  env_print :: "cjson \<Rightarrow> string option"
  env_chat :: "'w chat_fn"
  env_prompt :: "string option"
  env_backend :: "'w \<Rightarrow> string"
  env_match :: "string \<Rightarrow> memory_row list \<Rightarrow> string list"
  env_now :: "'w \<Rightarrow> int"

record 'w agent_run_ctx =
  cx_session_id :: string
  cx_user_message :: string
  cx_tools :: "'w agent_tool list"
  cx_response_size :: nat
  cx_system_buf :: string
  cx_session_buf :: string
  cx_max_iter :: nat
  cx_max_ctx :: nat
  cx_skip_session_persist :: bool

definition tool_defs :: "'w agent_tool list \<Rightarrow> provider_tool_def list" where
  "tool_defs tools = map (\<lambda>t. \<lparr>td_name = at_name t, td_description = at_description t, td_parameters_json = at_parameters_json t\<rparr>) tools"

definition find_tool :: "'w agent_tool list \<Rightarrow> string option \<Rightarrow> 'w agent_tool option" where
  "find_tool tools name = (case name of None \<Rightarrow> None | Some n \<Rightarrow> find (\<lambda>t. at_name t = n) tools)"

definition run_tool_call :: "'w agent_tool list \<Rightarrow> provider_tool_call \<Rightarrow> 'w agent_state \<Rightarrow> string \<times> 'w agent_state" where
  "run_tool_call tools c st =
     (case Option.bind (find_tool tools (tc_name c)) at_execute of
        Some execute \<Rightarrow> map_prod snd id (execute (case tc_arguments c of Some a \<Rightarrow> a | None \<Rightarrow> ''{}'') TOOL_RESULT_SIZE st)
      | None \<Rightarrow> (buf_trunc TOOL_RESULT_SIZE (''error: unknown tool '' @ [dquote] @ (case tc_name c of Some n \<Rightarrow> n | None \<Rightarrow> []) @ [dquote]), st))"

fun run_tool_calls :: "'w agent_tool list \<Rightarrow> provider_tool_call list \<Rightarrow> 'w agent_state \<Rightarrow> string list \<times> 'w agent_state" where
  "run_tool_calls tools [] st = ([], st)"
| "run_tool_calls tools (c # cs) st =
     (let (r, st') = run_tool_call tools c st; (rs, st'') = run_tool_calls tools cs st' in (r # rs, st''))"

text \<open>The messages one round appends: the assistant's turn with its calls, and one result per call.\<close>

definition round_messages :: "string option \<Rightarrow> provider_tool_call list \<Rightarrow> string list \<Rightarrow> provider_message list" where
  "round_messages content calls results =
     \<lparr>pm_role = ''assistant'', pm_content = (case content of Some c \<Rightarrow> c | None \<Rightarrow> []), pm_tool_calls = calls, pm_tool_use_id = None\<rparr> #
     map (\<lambda>(c, r). \<lparr>pm_role = ''user'', pm_content = r, pm_tool_calls = [], pm_tool_use_id = tc_id c\<rparr>) (zip calls results)"

definition agent_persist_session :: "'w agent_env \<Rightarrow> 'w agent_run_ctx \<Rightarrow> string \<Rightarrow> 'w agent_state \<Rightarrow> 'w agent_state" where
  "agent_persist_session env ctx assistant_content st =
     (if cx_skip_session_persist ctx then st
      else case append_exchange_to_session_json (env_parse env) (env_print env) (cx_session_buf ctx) (cx_user_message ctx)
                  assistant_content SESSION_JSON_MAX of
             None \<Rightarrow> st
           | Some updated \<Rightarrow> (snd (session_save (cx_session_id ctx) updated (env_now env (snd st)) (fst st)), snd st))"

function agent_react_loop ::
  "'w agent_env \<Rightarrow> 'w agent_run_ctx \<Rightarrow> nat \<Rightarrow> provider_message list \<Rightarrow> 'w agent_state \<Rightarrow> int \<times> string \<times> 'w agent_state" where
  "agent_react_loop env ctx iteration messages st =
     (let ((err, response), w) = env_chat env messages (tool_defs (cx_tools ctx)) (snd st);
          text_out = copy_response_to_buf (cx_response_size ctx) (pr_content response) in
      if err \<noteq> 0 then (- 1, text_out, (fst st, w))
      else if pr_tool_calls response = [] \<or> iteration \<ge> cx_max_iter ctx
      then (0, text_out, agent_persist_session env ctx text_out (fst st, w))
      else let calls = take MAX_TOOL_CALLS (pr_tool_calls response);
               (results, st') = run_tool_calls (cx_tools ctx) calls (fst st, w) in
        agent_react_loop env ctx (iteration + 1) (messages @ round_messages (pr_content response) calls results) st')"
  by pat_completeness auto
termination by (relation "measure (\<lambda>(env, ctx, i, ms, st). cx_max_iter ctx - i)") auto

declare agent_react_loop.simps [simp del]

definition SYSTEM_PROMPT_FALLBACK :: string where "SYSTEM_PROMPT_FALLBACK = ''You are a helpful assistant.''"

definition agent_prepare_context ::
  "'w agent_env \<Rightarrow> agent_config \<Rightarrow> string \<Rightarrow> string \<Rightarrow> 'w agent_tool list \<Rightarrow> nat \<Rightarrow> 'w agent_state \<Rightarrow> 'w agent_run_ctx \<times> 'w agent_state" where
  "agent_prepare_context env cfg session_id user_message tools response_size st =
     (let base = (case env_prompt env of Some p \<Rightarrow> p | None \<Rightarrow> SYSTEM_PROMPT_FALLBACK);
          recall_buf = (case memory_recall (env_match env) user_message RECALL_BUF_SIZE RECALL_LIMIT (fst st) of Some r \<Rightarrow> r | None \<Rightarrow> []);
          system_buf = append_local_offline_note_if_needed (env_backend env (snd st)) SYSTEM_PROMPT_MAX
                         (append_memories_to_system SYSTEM_PROMPT_MAX recall_buf base);
          max_ctx = (if max_context_messages cfg \<le> 0 \<or> max_context_messages cfg > int MAX_HISTORY_MESSAGES
                     then MAX_HISTORY_MESSAGES else nat (max_context_messages cfg));
          (load_rc, session_buf) = session_load session_id SESSION_JSON_MAX (fst st);
          msg_count = (case env_parse env session_buf of Some a \<Rightarrow> length (array_items a) | None \<Rightarrow> 0);
          (session_buf', w) =
            (if msg_count > max_ctx
             then snd (compact_session_via_llm (env_parse env) (env_print env) (env_chat env) session_buf SESSION_JSON_MAX msg_count max_ctx (snd st))
             else (session_buf, snd st));
          max_iter = (if max_tool_iterations cfg \<le> 0 then 20 else nat (max_tool_iterations cfg)) in
      (\<lparr>cx_session_id = session_id, cx_user_message = user_message, cx_tools = tools, cx_response_size = response_size,
        cx_system_buf = system_buf, cx_session_buf = session_buf', cx_max_iter = max_iter, cx_max_ctx = max_ctx,
        cx_skip_session_persist = (load_rc = SESSION_LOAD_TOO_LARGE)\<rparr>, (fst st, w)))"

definition agent_build_messages :: "'w agent_env \<Rightarrow> 'w agent_run_ctx \<Rightarrow> provider_message list" where
  "agent_build_messages env ctx =
     plain_message ''system'' (cx_system_buf ctx) #
     parse_session_into_messages (env_parse env) (cx_session_buf ctx) (cx_max_ctx ctx) (MAX_HISTORY_MESSAGES * ROLE_LEN) HISTORY_CONTENT_MAX @
     [plain_message ''user'' (cx_user_message ctx)]"

definition agent_run ::
  "'w agent_env \<Rightarrow> agent_config \<Rightarrow> string \<Rightarrow> string \<Rightarrow> 'w agent_tool list \<Rightarrow> nat \<Rightarrow> 'w agent_state \<Rightarrow> int \<times> string \<times> 'w agent_state" where
  "agent_run env cfg session_id user_message tools response_size st =
     (if response_size = 0 then (- 1, [], st)
      else let (ctx, st') = agent_prepare_context env cfg session_id user_message tools response_size st in
        agent_react_loop env ctx 0 (agent_build_messages env ctx) st')"

section \<open>One round\<close>

lemma run_tool_calls_length: "length (fst (run_tool_calls tools cs st)) = length cs"
  by (induction cs arbitrary: st) (auto simp: Let_def split: prod.splits, metis fst_conv)

text \<open>A predicate on states that every tool keeps is kept by a round.\<close>

definition tools_keep :: "('w agent_state \<Rightarrow> bool) \<Rightarrow> 'w agent_tool list \<Rightarrow> bool" where
  "tools_keep P tools \<longleftrightarrow> (\<forall>t \<in> set tools. \<forall>f args n st. at_execute t = Some f \<and> P st \<longrightarrow> P (snd (f args n st)))"

lemma find_tool_mem: "find_tool tools name = Some t \<Longrightarrow> t \<in> set tools"
  by (auto simp: find_tool_def find_Some_iff split: option.splits)

lemma run_tool_call_keeps: "tools_keep P tools \<Longrightarrow> P st \<Longrightarrow> P (snd (run_tool_call tools c st))"
  by (cases st) (auto simp: run_tool_call_def tools_keep_def dest!: find_tool_mem split: option.splits bind_splits)

lemma run_tool_calls_keeps: "tools_keep P tools \<Longrightarrow> P st \<Longrightarrow> P (snd (run_tool_calls tools cs st))"
proof (induction cs arbitrary: st)
  case (Cons c cs)
  then show ?case using run_tool_call_keeps [OF Cons(2,3), of c] Cons(1) [OF Cons(2)]
    by (auto simp: Let_def split: prod.splits) (metis snd_conv)
qed simp

section \<open>The loop\<close>

text \<open>A Hoare rule for the loop: an invariant \<open>I\<close> on the iteration, the messages and the state, and a postcondition.\<close>

lemma react_loop_rule:
  assumes "I i ms st"
    and err: "\<And>i ms st err r w. I i ms st \<Longrightarrow> env_chat env ms (tool_defs (cx_tools ctx)) (snd st) = ((err, r), w) \<Longrightarrow> err \<noteq> 0 \<Longrightarrow>
      Q (- 1, copy_response_to_buf (cx_response_size ctx) (pr_content r), (fst st, w))"
    and stop: "\<And>i ms st r w. I i ms st \<Longrightarrow> env_chat env ms (tool_defs (cx_tools ctx)) (snd st) = ((0, r), w) \<Longrightarrow>
      Q (0, copy_response_to_buf (cx_response_size ctx) (pr_content r),
         agent_persist_session env ctx (copy_response_to_buf (cx_response_size ctx) (pr_content r)) (fst st, w))"
    and step: "\<And>i ms st r w cs rs st'. I i ms st \<Longrightarrow> env_chat env ms (tool_defs (cx_tools ctx)) (snd st) = ((0, r), w) \<Longrightarrow>
      i < cx_max_iter ctx \<Longrightarrow> cs = take MAX_TOOL_CALLS (pr_tool_calls r) \<Longrightarrow> cs \<noteq> [] \<Longrightarrow>
      run_tool_calls (cx_tools ctx) cs (fst st, w) = (rs, st') \<Longrightarrow> I (i + 1) (ms @ round_messages (pr_content r) cs rs) st'"
  shows "Q (agent_react_loop env ctx i ms st)"
  using assms(1)
proof (induction "cx_max_iter ctx - i" arbitrary: i ms st rule: less_induct)
  case less
  obtain err r w where c: "env_chat env ms (tool_defs (cx_tools ctx)) (snd st) = ((err, r), w)" by (metis surj_pair)
  let ?cs = "take MAX_TOOL_CALLS (pr_tool_calls r)"
  obtain rs st' where t: "run_tool_calls (cx_tools ctx) ?cs (fst st, w) = (rs, st')" by (metis surj_pair)
  show ?case
  proof (cases "err \<noteq> 0 \<or> pr_tool_calls r = [] \<or> i \<ge> cx_max_iter ctx")
    case True
    then show ?thesis using err [OF less(2) c] stop [OF less(2), of r w] c by (subst agent_react_loop.simps) (auto simp: Let_def)
  next
    case False
    then have ne: "?cs \<noteq> []" by (cases "pr_tool_calls r") (simp_all add: MAX_TOOL_CALLS_def)
    have e: "agent_react_loop env ctx i ms st = agent_react_loop env ctx (i + 1) (ms @ round_messages (pr_content r) ?cs rs) st'"
      using False c t by (subst agent_react_loop.simps) (simp add: Let_def)
    have "I (i + 1) (ms @ round_messages (pr_content r) ?cs rs) st'" using False step [OF less(2) _ _ refl ne t] c by auto
    then show ?thesis unfolding e by (rule less(1) [rotated]) (use False in auto)
  qed
qed

section \<open>Cost\<close>

text \<open>Every tool costs at most \<open>b\<close>.\<close>

definition tools_cost :: "('w \<Rightarrow> nat) \<Rightarrow> nat \<Rightarrow> 'w agent_tool list \<Rightarrow> bool" where
  "tools_cost cost b tools \<longleftrightarrow>
     (\<forall>t \<in> set tools. \<forall>f args n st. at_execute t = Some f \<longrightarrow> cost (snd (snd (f args n st))) \<le> cost (snd st) + b)"

lemma run_tool_call_cost: "tools_cost cost b tools \<Longrightarrow> cost (snd (snd (run_tool_call tools c st))) \<le> cost (snd st) + b"
  by (cases st) (auto simp: run_tool_call_def tools_cost_def dest!: find_tool_mem split: option.splits bind_splits)

lemma run_tool_calls_cost: "tools_cost cost b tools \<Longrightarrow> cost (snd (snd (run_tool_calls tools cs st))) \<le> cost (snd st) + length cs * b"
proof (induction cs arbitrary: st)
  case (Cons c cs)
  obtain r st' where r: "run_tool_call tools c st = (r, st')" by (metis surj_pair)
  have "cost (snd st') \<le> cost (snd st) + b" using run_tool_call_cost [OF Cons(2), of c st] r by simp
  moreover have "cost (snd (snd (run_tool_calls tools cs st'))) \<le> cost (snd st') + length cs * b" using Cons by blast
  moreover have "snd (run_tool_calls tools (c # cs) st) = snd (run_tool_calls tools cs st')" using r by (simp add: Let_def split: prod.splits)
  ultimately show ?case by simp
qed simp

lemma persist_world [simp]: "snd (agent_persist_session env ctx a st) = snd st"
  by (simp add: agent_persist_session_def split: option.splits)

lemma react_loop_cost:
  assumes chat: "\<And>ms ds w. cost (snd (env_chat env ms ds w)) \<le> cost w + a"
    and tools: "tools_cost cost b (cx_tools ctx)"
  shows "cost (snd (snd (snd (agent_react_loop env ctx 0 ms st)))) \<le> cost (snd st) + (cx_max_iter ctx + 1) * a + cx_max_iter ctx * (16 * b)"
proof -
  let ?B = "cost (snd st) + (cx_max_iter ctx + 1) * a + cx_max_iter ctx * (16 * b)"
  have up: "cost (snd st) + i * (a + 16 * b) + a \<le> ?B" if "i \<le> cx_max_iter ctx" for i
  proof -
    have "i * (a + 16 * b) \<le> cx_max_iter ctx * (a + 16 * b)" using that by (rule mult_le_mono1)
    then show ?thesis by (simp add: algebra_simps)
  qed
  have one: "cost w \<le> cost (snd s) + a" if "env_chat env ms ds (snd s) = ((e, r), w)" for ms ds s e r w
    using chat [of ms ds "snd s"] that by simp
  have fin: "cost w \<le> ?B" if "i \<le> cx_max_iter ctx \<and> cost (snd s) \<le> cost (snd st) + i * (a + 16 * b)"
      "env_chat env ms ds (snd s) = ((e, r), w)" for i ms ds s e r w
    using up [of i] one [OF that(2)] that(1) by linarith
  show ?thesis
  proof (rule react_loop_rule [where I = "\<lambda>i ms s. i \<le> cx_max_iter ctx \<and> cost (snd s) \<le> cost (snd st) + i * (a + 16 * b)"])
    fix i ms s r w cs rs s'
    assume h: "i \<le> cx_max_iter ctx \<and> cost (snd s) \<le> cost (snd st) + i * (a + 16 * b)"
      "env_chat env ms (tool_defs (cx_tools ctx)) (snd s) = ((0, r), w)" "i < cx_max_iter ctx"
      "cs = take MAX_TOOL_CALLS (pr_tool_calls r)" "run_tool_calls (cx_tools ctx) cs (fst s, w) = (rs, s')"
    have t: "cost (snd s') \<le> cost w + length cs * b" using run_tool_calls_cost [OF tools, of cs "(fst s, w)"] h(5) by simp
    have "length cs \<le> 16" using h(4) by (simp add: MAX_TOOL_CALLS_def)
    then have "length cs * b \<le> 16 * b" by (rule mult_le_mono1)
    then have "cost (snd s') \<le> cost (snd st) + i * (a + 16 * b) + (a + 16 * b)" using t one [OF h(2)] h(1) by linarith
    then show "i + 1 \<le> cx_max_iter ctx \<and> cost (snd s') \<le> cost (snd st) + (i + 1) * (a + 16 * b)"
      using h(3) by simp
  qed (unfold snd_conv persist_world, (blast intro: fin | simp)+)
qed

text \<open>The limit on tool rounds that \<open>agent_prepare_context\<close> derives from the configuration.\<close>

definition effective_iterations :: "agent_config \<Rightarrow> nat" where
  "effective_iterations cfg = (if max_tool_iterations cfg \<le> 0 then 20 else nat (max_tool_iterations cfg))"

lemma compact_cost:
  assumes "\<And>ms ds w. cost (snd (chat ms ds w)) \<le> cost w + a"
  shows "cost (snd (snd (compact_session_via_llm parse print chat buf cap n m w))) \<le> cost w + (a :: nat)"
  using assms by (auto simp: compact_session_via_llm_def Let_def split: option.splits prod.splits) (metis snd_conv)+

lemma prepare_fields:
  assumes "agent_prepare_context env cfg sid msg tools size_out st = (ctx, st')"
  shows "cx_tools ctx = tools" "cx_max_iter ctx = effective_iterations cfg" "fst st' = fst st" "cx_session_id ctx = sid"
    "cx_user_message ctx = msg"
  using assms by (auto simp: agent_prepare_context_def Let_def effective_iterations_def split: prod.splits if_splits)

text \<open>What the tools and the saving of the session keep of the database, a run keeps.\<close>

lemma agent_run_keeps_db:
  assumes "tools_keep (\<lambda>st. P (fst st)) tools" "P (fst st)" and save: "\<And>db msgs now. P db \<Longrightarrow> P (snd (session_save sid msgs now db))"
  shows "P (fst (snd (snd (agent_run env cfg sid u tools n st))))"
proof (cases "n = 0")
  case False
  obtain ctx st' where p: "agent_prepare_context env cfg sid u tools n st = (ctx, st')" by (metis surj_pair)
  note f = prepare_fields [OF p]
  have persist: "P (fst (agent_persist_session env ctx a s))" if "P (fst s)" for a s
    using that save f(4) by (auto simp: agent_persist_session_def split: option.splits)
  have "(\<lambda>r. P (fst (snd (snd r)))) (agent_react_loop env ctx 0 (agent_build_messages env ctx) st')"
  proof (rule react_loop_rule [where I = "\<lambda>i ms s. P (fst s)"])
    fix i ms s r w cs rs s'
    assume "P (fst s)" "run_tool_calls (cx_tools ctx) cs (fst s, w) = (rs, s')"
    then show "P (fst s')" using run_tool_calls_keeps [OF assms(1), of "(fst s, w)" cs] f(1) by simp
  qed (use f assms(2) persist in auto)
  then show ?thesis using False p by (simp add: agent_run_def)
qed (use assms(2) in \<open>simp add: agent_run_def\<close>)

lemma prepare_cost:
  fixes a :: nat
  assumes "\<And>ms ds w. cost (snd (env_chat env ms ds w)) \<le> cost w + a"
    "agent_prepare_context env cfg sid msg tools size_out st = (ctx, st')"
  shows "cost (snd st') \<le> cost (snd st) + a"
proof -
  have "cost (snd (snd (compact_session_via_llm (env_parse env) (env_print env) (env_chat env) buf cap n m (snd st)))) \<le> cost (snd st) + a" for buf cap n m
    by (rule compact_cost) (rule assms(1))
  then show ?thesis using assms(2)
    by (auto simp: agent_prepare_context_def Let_def split: prod.splits if_splits) (metis snd_conv)+
qed

text \<open>(C13) The agent always comes back, and its cost is bounded.  Whatever the model answers, if a model call costs at
  most a and a tool call at most b, under any measure of the state of the world, a run costs at most (n + 2) a + 16 n b,
  where n is the configured number of tool rounds (20 when it is not positive): at most n + 1 calls of the conversation
  and one for the summary, and at most sixteen tool calls in each round.\<close>

theorem agent_run_budget:
  assumes "\<And>ms ds w. cost (snd (env_chat env ms ds w)) \<le> cost w + a" "tools_cost cost b tools"
  shows "cost (snd (snd (snd (agent_run env cfg session_id user_message tools response_size st)))) \<le>
    cost (snd st) + (effective_iterations cfg + 2) * a + effective_iterations cfg * (16 * b)"
proof (cases "response_size = 0")
  case False
  obtain ctx st' where p: "agent_prepare_context env cfg session_id user_message tools response_size st = (ctx, st')" by (metis surj_pair)
  note f = prepare_fields [OF p]
  have "cost (snd (snd (snd (agent_react_loop env ctx 0 (agent_build_messages env ctx) st')))) \<le>
      cost (snd st') + (effective_iterations cfg + 1) * a + effective_iterations cfg * (16 * b)"
    using react_loop_cost [where env = env and a = a and b = b and ctx = ctx, OF assms(1)] assms(2) f by simp
  then show ?thesis using prepare_cost [OF assms(1) p] False p by (simp add: agent_run_def)
qed (simp add: agent_run_def)

definition demo_tool :: "nat agent_tool" where
  "demo_tool = \<lparr>at_name = ''echo'', at_description = [], at_parameters_json = ''{}'',
     at_execute = Some (\<lambda>args n st. ((0, args), (fst st, snd st + 1)))\<rparr>"

definition demo_call :: provider_tool_call where
  "demo_call = \<lparr>tc_id = Some ''c1'', tc_name = Some ''echo'', tc_arguments = Some ''{}''\<rparr>"

text \<open>A model that asks for a tool in every answer.\<close>

definition demo_agent_env :: "nat agent_env" where
  "demo_agent_env = \<lparr>env_parse = demo_json_parse, env_print = demo_json_print,
     env_chat = (\<lambda>ms ds w. ((0, \<lparr>pr_content = Some ''ok'', pr_tool_calls = [demo_call]\<rparr>), w + 1)),
     env_prompt = None, env_backend = (\<lambda>w. []), env_match = (\<lambda>q rows. []), env_now = (\<lambda>w. 0)\<rparr>"

theorem agent_run_budget_witness:
  "snd (snd (snd (agent_run demo_agent_env \<lparr>max_context_messages = 10, max_tool_iterations = 3\<rparr> ''s'' ''hi'' [demo_tool] 100 (None, 0)))) \<le> 53"
proof -
  have c: "id (snd (env_chat demo_agent_env ms ds w)) \<le> id w + 1" for ms ds w by (simp add: demo_agent_env_def)
  have t: "tools_cost id 1 [demo_tool]" by (simp add: tools_cost_def demo_tool_def)
  show ?thesis
    using agent_run_budget [of id demo_agent_env 1 1, OF c t, of "\<lparr>max_context_messages = 10, max_tool_iterations = 3\<rparr>" "''s''" "''hi''" 100 "(None, 0)"]
    by (simp add: effective_iterations_def)
qed

section \<open>The conversation\<close>

lemma round_messages_answered:
  assumes "cs \<noteq> []" "length cs \<le> MAX_TOOL_CALLS" "length rs = length cs"
  shows "answered_round (round_messages content cs rs)"
proof -
  have "map pm_tool_use_id (tl (round_messages content cs rs)) = map tc_id cs"
    using assms(3) unfolding round_messages_def list.sel by (induction cs rs rule: list_induct2') auto
  moreover have "list_all (\<lambda>a. pm_role a = ''user'' \<and> pm_tool_calls a = []) (tl (round_messages content cs rs))"
    by (auto simp: round_messages_def list_all_iff)
  ultimately show ?thesis using assms by (simp add: answered_round_def round_messages_def)
qed

lemma history_plain: "list_all plain_turn (history_loop items m rsz csz c u)"
  by (induction items m rsz csz c u rule: history_loop.induct) (auto simp: plain_turn_def plain_message_def)

lemma first_messages: "conversation (agent_build_messages env ctx)"
proof -
  let ?h = "parse_session_into_messages (env_parse env) (cx_session_buf ctx) (cx_max_ctx ctx) (MAX_HISTORY_MESSAGES * ROLE_LEN) HISTORY_CONTENT_MAX"
  have "list_all plain_turn ?h" by (auto simp: parse_session_into_messages_def Let_def history_plain split: option.splits)
  then show ?thesis unfolding conversation_def agent_build_messages_def
    by (intro exI [of _ "cx_system_buf ctx"] exI [of _ ?h] exI [of _ "cx_user_message ctx"] exI [of _ "[]"]) simp
qed

lemma summary_request: "conversation [plain_message ''system'' s, plain_message ''user'' u]"
  unfolding conversation_def by (intro exI [of _ s] exI [of _ "[]"] exI [of _ u]) simp

text \<open>Properties \<open>P\<close> of the world that calls with such messages keep.\<close>

definition chat_keeps :: "('w \<Rightarrow> bool) \<Rightarrow> 'w agent_env \<Rightarrow> bool" where
  "chat_keeps P env \<longleftrightarrow> (\<forall>ms ds w. conversation ms \<and> P w \<longrightarrow> P (snd (env_chat env ms ds w)))"

lemma chat_keepsD: "chat_keeps P env \<Longrightarrow> conversation ms \<Longrightarrow> P w \<Longrightarrow> env_chat env ms ds w = (r, w') \<Longrightarrow> P w'"
  unfolding chat_keeps_def by (metis snd_conv)

lemma compact_keeps:
  assumes "chat_keeps P env" "P w"
  shows "P (snd (snd (compact_session_via_llm parse print (env_chat env) buf cap n m w)))"
  using assms chat_keepsD [OF assms(1) summary_request assms(2)]
  by (auto simp: compact_session_via_llm_def Let_def split: option.splits prod.splits)

lemma prepare_keeps:
  assumes "chat_keeps P env" "P (snd st)" "agent_prepare_context env cfg sid msg tools size_out st = (ctx, st')"
  shows "P (snd st')"
  using assms(2,3) compact_keeps [OF assms(1,2)]
  by (auto simp: agent_prepare_context_def Let_def split: prod.splits if_splits) (metis snd_conv)+

text \<open>(C14) Every request the agent sends to the model is a well-formed conversation: the system prompt, plain turns of
  history, the user's message, and then only complete rounds, in which an assistant turn with one to sixteen tool calls is
  followed by exactly one result for each call, in order and with the call's id.  It is stated for an arbitrary property P of
  the world, for instance of a log of the requests: if a call with well-formed messages keeps P, and tools keep it, then P
  holds after the run.\<close>

theorem agent_requests_well_formed:
  assumes "chat_keeps P env" "tools_keep (\<lambda>st. P (snd st)) tools" "P (snd st)"
  shows "P (snd (snd (snd (agent_run env cfg session_id user_message tools response_size st))))"
proof (cases "response_size = 0")
  case False
  obtain ctx st' where p: "agent_prepare_context env cfg session_id user_message tools response_size st = (ctx, st')" by (metis surj_pair)
  have t: "tools_keep (\<lambda>st. P (snd st)) (cx_tools ctx)" using assms(2) prepare_fields(1) [OF p] by simp
  have "P (snd (snd (snd (agent_react_loop env ctx 0 (agent_build_messages env ctx) st'))))"
  proof (rule react_loop_rule [where I = "\<lambda>i ms s. conversation ms \<and> P (snd s)"])
    fix i ms s r w cs rs s'
    assume h: "conversation ms \<and> P (snd s)" "env_chat env ms (tool_defs (cx_tools ctx)) (snd s) = ((0, r), w)"
      "cs = take MAX_TOOL_CALLS (pr_tool_calls r)" "cs \<noteq> []" "run_tool_calls (cx_tools ctx) cs (fst s, w) = (rs, s')"
    have "P w" using chat_keepsD [OF assms(1) _ _ h(2)] h(1) by blast
    then have "P (snd s')" using run_tool_calls_keeps [OF t, of "(fst s, w)" cs] h(5) by simp
    moreover have "length rs = length cs" using run_tool_calls_length [of "cx_tools ctx" cs "(fst s, w)"] h(5) by simp
    then have "answered_round (round_messages (pr_content r) cs rs)" using round_messages_answered h(3,4) by simp
    ultimately show "conversation (ms @ round_messages (pr_content r) cs rs) \<and> P (snd s')" using conversation_grows h(1) by blast
  qed (use chat_keepsD [OF assms(1)] first_messages prepare_keeps [OF assms(1,3) p] in auto)
  then show ?thesis using False p by (simp add: agent_run_def)
qed (use assms(3) in \<open>simp add: agent_run_def\<close>)

text \<open>A model that logs its requests.\<close>

definition demo_log_env :: "provider_message list list agent_env" where
  "demo_log_env = \<lparr>env_parse = demo_json_parse, env_print = demo_json_print,
     env_chat = (\<lambda>ms ds w. ((0, \<lparr>pr_content = Some ''ok'', pr_tool_calls = [demo_call]\<rparr>), w @ [ms])),
     env_prompt = None, env_backend = (\<lambda>w. []), env_match = (\<lambda>q rows. []), env_now = (\<lambda>w. 0)\<rparr>"

theorem agent_requests_well_formed_witness:
  "list_all conversation (snd (snd (snd (agent_run demo_log_env \<lparr>max_context_messages = 10, max_tool_iterations = 2\<rparr> ''s'' ''hi'' [] 100 (None, [])))))"
proof -
  have c: "chat_keeps (list_all conversation) demo_log_env" by (simp add: chat_keeps_def demo_log_env_def)
  have t: "tools_keep (\<lambda>st. list_all conversation (snd st)) ([] :: provider_message list list agent_tool list)" by (simp add: tools_keep_def)
  show ?thesis using agent_requests_well_formed [OF c t, of "(None, [])"] by simp
qed

section \<open>What a run stores\<close>

text \<open>A history the agent can continue: messages with string roles that alternate, the last one the assistant's.\<close>

definition history_ok :: "cjson list \<Rightarrow> bool" where
  "history_ok items \<longleftrightarrow> list_all chat_item items \<and> distinct_adj (map item_role items) \<and>
     (items \<noteq> [] \<longrightarrow> item_role (last items) = ''assistant'')"

definition text_ok :: "(string \<Rightarrow> cjson option) \<Rightarrow> string \<Rightarrow> bool" where
  "text_ok parse s \<longleftrightarrow> (case parse s of Some a \<Rightarrow> history_ok (array_items a) | None \<Rightarrow> True)"

definition session_ok :: "(string \<Rightarrow> cjson option) \<Rightarrow> string \<Rightarrow> memdb option \<Rightarrow> bool" where
  "session_ok parse sid db \<longleftrightarrow>
     (case db of None \<Rightarrow> True | Some d \<Rightarrow> (case find_session sid d of None \<Rightarrow> True | Some s \<Rightarrow> text_ok parse s))"

lemma history_ok_exchange:
  "history_ok items \<Longrightarrow> history_ok (items @ [message_object ''user'' u, message_object ''assistant'' a])"
  by (auto simp: history_ok_def distinct_adj_append_iff last_map)

lemma last_compacted:
  assumes "k < length items" "cJSON_IsObject (items ! k)"
  shows "item_role (last (compacted items k s)) = item_role (last items)"
proof -
  have d: "drop k items = items ! k # drop (k + 1) items" using assms(1) by (simp add: Cons_nth_drop_Suc)
  have l: "last (drop k items) = last items" using assms(1) by (simp add: last_drop)
  show ?thesis
  proof (cases "drop (k + 1) items = []")
    case True
    then show ?thesis using l d fold_summary_item(1) [OF assms(2)] by (simp add: compacted_def)
  next
    case False
    then show ?thesis using l d by (simp add: compacted_def)
  qed
qed

lemma history_ok_compacted: "history_ok items \<Longrightarrow> k < length items \<Longrightarrow> history_ok (compacted items k s)"
proof -
  assume h: "history_ok items" "k < length items"
  then have "cJSON_IsObject (items ! k)" by (simp add: history_ok_def list_all_length chat_item_def)
  then show ?thesis
    using h compacted_alternates [of items k s] last_compacted [of k items s] by (auto simp: history_ok_def)
qed

lemma compact_text_ok:
  assumes rt: "\<And>v s. print v = Some s \<Longrightarrow> parse s = Some v" and ok: "text_ok parse buf" and p: "parse buf = Some a"
    and n: "n = length (array_items a)" "m < n"
    and c: "compact_session_via_llm parse print chat buf cap n m w = (rc, buf', w')"
  shows "text_ok parse buf'"
proof (cases "rc = 0 \<and> cJSON_IsArray a \<and> 2 \<le> m")
  case True
  then obtain items where a: "a = CArray items" by (cases a) auto
  have h: "history_ok items" using ok p a by (simp add: text_ok_def)
  have e: "compact_session_via_llm parse print chat buf cap (length items) m w = (0, buf', w')" using c True n(1) a by simp
  obtain k content where k: "k \<le> length items - m + 1" "print (CArray (compacted items k (buf_trunc SUMMARY_RESULT_MAX content))) = Some buf'"
    by (rule compact_success [OF e p [unfolded a]]) (use h n a True in \<open>auto simp: history_ok_def\<close>)
  have "k < length items" using k(1) n a True by auto
  then show ?thesis using rt [OF k(2)] history_ok_compacted [OF h] by (simp add: text_ok_def)
next
  case False
  then have "buf' = buf" using c p by (auto simp: compact_session_via_llm_def Let_def split: if_splits option.splits prod.splits)
  then show ?thesis using ok by simp
qed

lemma load_text_ok:
  assumes "session_ok parse sid db" "parse [] = None" "session_load sid cap db = (rc, buf)"
  shows "text_ok parse buf"
  using assms by (auto simp: session_load_def session_ok_def text_ok_def split: option.splits if_splits)

lemma prepare_text_ok:
  assumes rt: "\<And>v s. env_print env v = Some s \<Longrightarrow> env_parse env s = Some v" and nil: "env_parse env [] = None"
    and ok: "session_ok (env_parse env) sid (fst st)"
    and p: "agent_prepare_context env cfg sid msg tools size_out st = (ctx, st')"
  shows "text_ok (env_parse env) (cx_session_buf ctx)"
proof -
  obtain rc buf where l: "session_load sid SESSION_JSON_MAX (fst st) = (rc, buf)" by (metis surj_pair)
  note t = load_text_ok [OF ok nil l]
  let ?n = "case env_parse env buf of Some a \<Rightarrow> length (array_items a) | None \<Rightarrow> 0"
  let ?m = "if max_context_messages cfg \<le> 0 \<or> max_context_messages cfg > int MAX_HISTORY_MESSAGES
    then MAX_HISTORY_MESSAGES else nat (max_context_messages cfg)"
  obtain rc' buf' w' where c: "compact_session_via_llm (env_parse env) (env_print env) (env_chat env) buf SESSION_JSON_MAX ?n ?m (snd st) = (rc', buf', w')"
    by (metis surj_pair)
  have "cx_session_buf ctx = (if ?n > ?m then buf' else buf)"
    using p c unfolding agent_prepare_context_def l Let_def by (auto split: if_splits)
  moreover have "text_ok (env_parse env) buf'" if more: "?n > ?m"
  proof -
    obtain a where "env_parse env buf = Some a" using more by (cases "env_parse env buf") auto
    then show ?thesis using compact_text_ok [OF rt t _ _ more c, of a] by simp
  qed
  ultimately show ?thesis using t by simp
qed

lemma append_exchange_ok:
  assumes rt: "\<And>v s. print v = Some s \<Longrightarrow> parse s = Some v" and ok: "text_ok parse buf"
    and a: "append_exchange_to_session_json parse print buf u r cap = Some s"
  shows "text_ok parse s"
proof -
  let ?arr = "if ch buf 0 = CHR ''['' then (case parse buf of Some a \<Rightarrow> array_items a | None \<Rightarrow> []) else []"
  have "history_ok ?arr" using ok by (auto simp: text_ok_def history_ok_def split: option.splits)
  moreover have "print (CArray (?arr @ [message_object ''user'' u, message_object ''assistant'' r])) = Some s"
    using a unfolding append_exchange_to_session_json_def Let_def copy_printed_session_json_def
    by (auto split: option.splits if_splits)
  ultimately show ?thesis using rt history_ok_exchange by (simp add: text_ok_def)
qed

lemma persist_ok:
  assumes rt: "\<And>v s. env_print env v = Some s \<Longrightarrow> env_parse env s = Some v"
    and ok: "text_ok (env_parse env) (cx_session_buf ctx)" "session_ok (env_parse env) (cx_session_id ctx) (fst st)"
  shows "session_ok (env_parse env) (cx_session_id ctx) (fst (agent_persist_session env ctx a st))"
proof (cases "cx_skip_session_persist ctx \<or>
    append_exchange_to_session_json (env_parse env) (env_print env) (cx_session_buf ctx) (cx_user_message ctx) a SESSION_JSON_MAX = None")
  case True
  then show ?thesis using ok(2) by (auto simp: agent_persist_session_def)
next
  case False
  then obtain s where s: "append_exchange_to_session_json (env_parse env) (env_print env) (cx_session_buf ctx) (cx_user_message ctx) a SESSION_JSON_MAX = Some s"
    by auto
  then have "text_ok (env_parse env) s" using append_exchange_ok [OF rt ok(1)] by blast
  then show ?thesis
    using s False by (auto simp: agent_persist_session_def session_save_def session_ok_def sess.get_put split: option.splits)
qed



text \<open>The messages of a stored text, and the limit on them that the configuration gives.\<close>

definition text_items :: "(string \<Rightarrow> cjson option) \<Rightarrow> string \<Rightarrow> cjson list" where
  "text_items parse s = (if ch s 0 = CHR ''['' then (case parse s of Some a \<Rightarrow> array_items a | None \<Rightarrow> []) else [])"

definition effective_context :: "agent_config \<Rightarrow> nat" where
  "effective_context cfg = (if max_context_messages cfg \<le> 0 \<or> max_context_messages cfg > int MAX_HISTORY_MESSAGES
     then MAX_HISTORY_MESSAGES else nat (max_context_messages cfg))"

lemma prepare_session:
  assumes "agent_prepare_context env cfg sid msg tools size_out st = (ctx, st')" "session_load sid SESSION_JSON_MAX (fst st) = (rc, buf)"
  shows "cx_skip_session_persist ctx = (rc = SESSION_LOAD_TOO_LARGE)"
    "(case env_parse env buf of Some a \<Rightarrow> length (array_items a) | None \<Rightarrow> 0) \<le> effective_context cfg \<Longrightarrow> cx_session_buf ctx = buf"
  using assms unfolding agent_prepare_context_def effective_context_def Let_def by (auto split: prod.splits)

lemma persist_stores:
  "fst (agent_persist_session env ctx a (db, w)) =
    (if cx_skip_session_persist ctx then db
     else case env_print env (CArray (text_items (env_parse env) (cx_session_buf ctx) @
              [message_object ''user'' (cx_user_message ctx), message_object ''assistant'' a])) of
       None \<Rightarrow> db
     | Some msgs \<Rightarrow> if length msgs < SESSION_JSON_MAX then snd (session_save (cx_session_id ctx) msgs (env_now env w) db) else db)"
  by (auto simp: agent_persist_session_def append_exchange_to_session_json_def copy_printed_session_json_def text_items_def Let_def
      split: option.splits)

text \<open>What a run stores, for tools that do not write the database themselves.  A run that fails leaves the database
  as it was.  A run that succeeds writes at most the row of its own session: the history, followed by the user's message and
  the answer that is returned.  The history is the stored one when it is within the configured limit (otherwise the compacted
  one).  Nothing is written when the stored session was too large to load or the new text would be.\<close>

theorem agent_run_stores:
  assumes "tools_keep (\<lambda>st. fst st = db) tools" "session_load sid SESSION_JSON_MAX db = (lrc, buf)"
    "agent_run env cfg sid user_message tools response_size (db, w) = (rc, answer, (db', w'))"
  shows "if rc \<noteq> 0 then db' = db
    else \<exists>items now. db' =
        (if lrc = SESSION_LOAD_TOO_LARGE then db
         else case env_print env (CArray (items @ [message_object ''user'' user_message, message_object ''assistant'' answer])) of
           None \<Rightarrow> db
         | Some msgs \<Rightarrow> if length msgs < SESSION_JSON_MAX then snd (session_save sid msgs now db) else db) \<and>
      ((case env_parse env buf of Some a \<Rightarrow> length (array_items a) | None \<Rightarrow> 0) \<le> effective_context cfg \<longrightarrow>
        items = text_items (env_parse env) buf)"
proof (cases "response_size = 0")
  case True
  then show ?thesis using assms(3) by (simp add: agent_run_def)
next
  case False
  obtain ctx st' where p: "agent_prepare_context env cfg sid user_message tools response_size (db, w) = (ctx, st')" by (metis surj_pair)
  note f = prepare_fields [OF p]
  note ps = prepare_session [OF p, unfolded fst_conv, OF assms(2)]
  let ?Q = "\<lambda>(rc, answer, st). if rc \<noteq> 0 then fst st = db else \<exists>w. fst st = fst (agent_persist_session env ctx answer (db, w))"
  have "?Q (agent_react_loop env ctx 0 (agent_build_messages env ctx) st')"
  proof (rule react_loop_rule [where I = "\<lambda>i ms s. fst s = db"])
    fix i ms s r w cs rs s'
    assume "fst s = db" "run_tool_calls (cx_tools ctx) cs (fst s, w) = (rs, s')"
    then show "fst s' = db" using run_tool_calls_keeps [OF assms(1), of "(fst s, w)" cs] f(1) by simp
  qed (use f in auto)
  then have q: "if rc \<noteq> 0 then db' = db else \<exists>w. db' = fst (agent_persist_session env ctx answer (db, w))"
    using assms(3) False p by (simp add: agent_run_def split: if_splits)
  show ?thesis
  proof (cases "rc = 0")
    case True
    then obtain w1 where "db' = fst (agent_persist_session env ctx answer (db, w1))" using q by auto
    then show ?thesis
      unfolding persist_stores f ps(1) using True ps(2)
      by (intro if_not_P [THEN iffD2] exI [of _ "text_items (env_parse env) (cx_session_buf ctx)"] exI [of _ "env_now env w1"]) auto
  qed (use q in simp)
qed

definition demo_store_env :: "nat agent_env" where
  "demo_store_env = demo_agent_env\<lparr>env_print := (\<lambda>v. Some ''[9]'')\<rparr>"

theorem agent_run_stores_witness:
  "\<exists>now. fst (snd (snd (agent_run demo_store_env \<lparr>max_context_messages = 2, max_tool_iterations = 1\<rparr> ''s'' ''hi'' [demo_tool] 100 (Some demo_db, 0)))) =
     snd (session_save ''s'' ''[9]'' now (Some demo_db))"
proof -
  let ?run = "agent_run demo_store_env \<lparr>max_context_messages = 2, max_tool_iterations = 1\<rparr> ''s'' ''hi'' [demo_tool] 100 (Some demo_db, 0)"
  have t: "tools_keep (\<lambda>st. fst st = Some demo_db) [demo_tool]" by (simp add: tools_keep_def demo_tool_def)
  have l: "session_load ''s'' SESSION_JSON_MAX (Some demo_db) = (- 1, [])" by code_simp
  have r: "fst ?run = 0" by code_simp
  then obtain a db' w' where e: "?run = (0, a, (db', w'))" by (metis prod.collapse)
  have "env_print demo_store_env = (\<lambda>v. Some ''[9]'')" by (simp add: demo_store_env_def)
  then show ?thesis
    using agent_run_stores [OF t l e] e by (auto simp: SESSION_LOAD_TOO_LARGE_def SESSION_JSON_MAX_def)
qed

end
