(* ===== verification/Cron_Schedule.thy ===== *)
theory Cron_Schedule
  imports Prelude
begin

text \<open>
  The schedule language of \<open>src/tools/cron.c\<close>: field and expression parsing, the search for the
  next matching minute, intervals and one-shot times.  \<open>localtime_r\<close> is an argument, a function
  from the time to the broken-down fields the code reads (\<^const>\<open>None\<close> when the call fails); times
  are \<^typ>\<open>int\<close>, with the one place where the code guards against \<open>long long\<close> overflow written out.
\<close>

section \<open>Definitions\<close>

definition CRON_MAX_ITER_MINUTES :: nat where "CRON_MAX_ITER_MINUTES = 366 * 24 * 60"

text \<open>A wildcard is the value \<open>-1\<close>, as in the code.\<close>

definition parse_field :: "string \<Rightarrow> int \<Rightarrow> int \<Rightarrow> int option" where
  "parse_field s min_val max_val =
     (if s = ''*'' then Some (- 1)
      else let (n, rest) = strtol10 s in
        if strtol_scan s = None \<or> rest \<noteq> [] \<or> n < min_val \<or> n > max_val then None else Some n)"

definition parse_range :: "string \<Rightarrow> int \<Rightarrow> int \<Rightarrow> (int \<times> int) option" where
  "parse_range s min_val max_val =
     (case strchr_split (CHR ''-'') s of
        None \<Rightarrow> map_option (\<lambda>lo. (lo, - 1)) (parse_field s min_val max_val)
      | Some (part, rest) \<Rightarrow>
          if length part \<ge> 32 then None
          else case parse_field part min_val max_val of
                 None \<Rightarrow> None
               | Some lo \<Rightarrow>
                   (case parse_field rest min_val max_val of
                      None \<Rightarrow> None
                    | Some hi \<Rightarrow> Some (lo, if hi = - 1 then lo else hi)))"

definition field_matches :: "int \<Rightarrow> int \<times> int \<Rightarrow> bool" where
  "field_matches val f \<longleftrightarrow>
     (if fst f = - 1 then True else if snd f = - 1 then val = fst f else val \<ge> fst f \<and> val \<le> snd f)"

text \<open>The ten-element array \<open>fields\<close>, as five pairs.\<close>

record cron_fields =
  cf_min :: "int \<times> int"
  cf_hour :: "int \<times> int"
  cf_mday :: "int \<times> int"
  cf_mon :: "int \<times> int"
  cf_wday :: "int \<times> int"

record tm =
  tm_min :: int
  tm_hour :: int
  tm_mday :: int
  tm_mon :: int
  tm_wday :: int

definition cron_expr_matches :: "cron_fields \<Rightarrow> tm \<Rightarrow> bool" where
  "cron_expr_matches f t \<longleftrightarrow>
     field_matches (tm_min t) (cf_min f) \<and> field_matches (tm_hour t) (cf_hour f) \<and>
     field_matches (tm_mday t) (cf_mday f) \<and> field_matches (tm_mon t + 1) (cf_mon f) \<and>
     field_matches (tm_wday t) (cf_wday f)"

definition seven_is_sunday :: "int \<times> int \<Rightarrow> int \<times> int" where
  "seven_is_sunday r = (if fst r = 7 then 0 else fst r, if snd r = 7 then 0 else snd r)"

definition is_blank :: "char \<Rightarrow> bool" where
  "is_blank c \<longleftrightarrow> c = CHR '' '' \<or> c = tab"

definition parse_cron_expr :: "string \<Rightarrow> cron_fields option" where
  "parse_cron_expr s =
     (if length s \<ge> 256 then None
      else case take 5 (strtok_all is_blank s) of
             [t0, t1, t2, t3, t4] \<Rightarrow>
               (case (parse_range t0 0 59, parse_range t1 0 23, parse_range t2 1 31, parse_range t3 1 12, parse_range t4 0 7) of
                  (Some a, Some b, Some c, Some d, Some e) \<Rightarrow>
                    Some \<lparr>cf_min = a, cf_hour = b, cf_mday = c, cf_mon = d, cf_wday = seven_is_sunday e\<rparr>
                | _ \<Rightarrow> None)
           | _ \<Rightarrow> None)"

text \<open>The search loop: \<open>n\<close> minutes left to look at.\<close>

fun cron_search :: "(int \<Rightarrow> tm option) \<Rightarrow> cron_fields \<Rightarrow> int \<Rightarrow> nat \<Rightarrow> int option" where
  "cron_search lt f t 0 = None"
| "cron_search lt f t (Suc n) =
     (case lt t of
        None \<Rightarrow> None
      | Some tm \<Rightarrow> if cron_expr_matches f tm then Some t else cron_search lt f (t + 60) n)"

text \<open>C's \<open>%\<close> truncates towards zero.\<close>

definition c_rem :: "int \<Rightarrow> int \<Rightarrow> int" where
  "c_rem a b = (if a \<ge> 0 then a mod b else - ((- a) mod b))"

definition next_minute :: "int \<Rightarrow> int" where
  "next_minute now = now - c_rem now 60 + 60"

definition cron_next_from_expr :: "(int \<Rightarrow> tm option) \<Rightarrow> string \<Rightarrow> int \<Rightarrow> int option" where
  "cron_next_from_expr lt cron_part now =
     (case parse_cron_expr cron_part of
        None \<Rightarrow> None
      | Some f \<Rightarrow> cron_search lt f (next_minute now) CRON_MAX_ITER_MINUTES)"

definition interval_next_run :: "string \<Rightarrow> int \<Rightarrow> int option" where
  "interval_next_run num now =
     (let (sec, rest) = strtol10 num in
      if strtol_scan num = None \<or> rest \<noteq> [] \<or> strtol_erange num \<or> sec \<le> 0 then None
      else if now < 0 \<or> sec > LLONG_MAX - now then None
      else Some (now + sec))"

definition CRON_PREFIX_INTERVAL :: string where "CRON_PREFIX_INTERVAL = ''interval:''"
definition CRON_PREFIX_AT :: string where "CRON_PREFIX_AT = ''at:''"
definition CRON_PREFIX_CRON :: string where "CRON_PREFIX_CRON = ''cron:''"

definition cron_parse_next_run :: "(int \<Rightarrow> tm option) \<Rightarrow> string \<Rightarrow> int \<Rightarrow> int option" where
  "cron_parse_next_run lt schedule now =
     (if prefix CRON_PREFIX_INTERVAL schedule then interval_next_run (drop 9 schedule) now
      else if prefix CRON_PREFIX_AT schedule then
        (let num = drop 3 schedule; (ts, rest) = strtol10 num in
         if strtol_scan num = None \<or> rest \<noteq> [] then None else Some ts)
      else
        (let cron_part = (if prefix CRON_PREFIX_CRON schedule then drop 5 schedule else schedule) in
         case cron_next_from_expr lt cron_part now of
           None \<Rightarrow> None
         | Some next \<Rightarrow> if next < 0 then None else Some next))"

definition cron_is_one_shot :: "string \<Rightarrow> bool" where
  "cron_is_one_shot schedule = prefix CRON_PREFIX_AT schedule"

section \<open>Fields\<close>

lemma parse_field_Some:
  "parse_field s lo hi = Some n \<Longrightarrow> n = - 1 \<and> s = ''*'' \<or> lo \<le> n \<and> n \<le> hi \<and> s \<noteq> ''*''"
  by (auto simp: parse_field_def Let_def split: if_splits prod.splits)

lemma parse_range_bounds:
  assumes "parse_range s mn mx = Some (lo, hi)" "0 \<le> mn"
  shows "(lo = - 1 \<or> mn \<le> lo \<and> lo \<le> mx) \<and> (hi = - 1 \<or> mn \<le> hi \<and> hi \<le> mx)"
  using assms
  by (auto simp: parse_range_def split: option.splits if_splits prod.splits dest!: parse_field_Some)

text \<open>What a field means: every value, one value, or the values between two bounds.\<close>

definition field_values :: "string \<Rightarrow> int \<Rightarrow> int \<Rightarrow> int set option" where
  "field_values s mn mx =
     (case strchr_split (CHR ''-'') s of
        None \<Rightarrow> map_option (\<lambda>n. if s = ''*'' then UNIV else {n}) (parse_field s mn mx)
      | Some (a, b) \<Rightarrow>
          if length a \<ge> 32 then None
          else case (parse_field a mn mx, parse_field b mn mx) of
                 (Some lo, Some hi) \<Rightarrow>
                   Some (if a = ''*'' then UNIV else if b = ''*'' then {lo} else {lo .. hi})
               | _ \<Rightarrow> None)"

lemma parse_range_values:
  assumes "0 \<le> mn"
  shows "map_option (\<lambda>r. {v. field_matches v r}) (parse_range s mn mx) = field_values s mn mx"
proof (cases "strchr_split (CHR ''-'') s")
  case None
  show ?thesis
  proof (cases "parse_field s mn mx")
    case (Some n)
    then show ?thesis
      using None assms parse_field_Some [OF Some]
      by (auto simp: parse_range_def field_values_def field_matches_def)
  qed (use None in \<open>simp add: parse_range_def field_values_def\<close>)
next
  case (Some ab)
  obtain a b where ab: "ab = (a, b)" by force
  show ?thesis
  proof (cases "parse_field a mn mx"; cases "parse_field b mn mx")
    fix lo hi assume p: "parse_field a mn mx = Some lo" "parse_field b mn mx = Some hi"
    show ?thesis
      using Some ab p assms parse_field_Some [OF p(1)] parse_field_Some [OF p(2)]
      by (auto simp: parse_range_def field_values_def field_matches_def)
  qed (use Some ab in \<open>simp_all add: parse_range_def field_values_def\<close>)
qed

section \<open>The search\<close>

lemma cron_search_Some:
  "cron_search lt f t n = Some r \<Longrightarrow>
   \<exists>i < n. r = t + 60 * int i \<and> (\<exists>tm. lt r = Some tm \<and> cron_expr_matches f tm) \<and>
     (\<forall>j < i. \<exists>tm. lt (t + 60 * int j) = Some tm \<and> \<not> cron_expr_matches f tm)"
proof (induction n arbitrary: t)
  case (Suc n)
  obtain tm where tm: "lt t = Some tm" using Suc.prems by (auto split: option.splits)
  show ?case
  proof (cases "cron_expr_matches f tm")
    case True
    then show ?thesis using Suc.prems tm by (intro exI [of _ 0]) auto
  next
    case False
    then obtain i where i: "i < n" "r = t + 60 + 60 * int i" "\<exists>tm. lt r = Some tm \<and> cron_expr_matches f tm"
      "\<forall>j < i. \<exists>tm. lt (t + 60 + 60 * int j) = Some tm \<and> \<not> cron_expr_matches f tm"
      using Suc.IH [of "t + 60"] Suc.prems tm by auto
    have "\<forall>j < Suc i. \<exists>tm. lt (t + 60 * int j) = Some tm \<and> \<not> cron_expr_matches f tm"
    proof (intro allI impI)
      fix j assume "j < Suc i"
      then show "\<exists>tm. lt (t + 60 * int j) = Some tm \<and> \<not> cron_expr_matches f tm"
        using i(4) tm False by (cases j) (auto simp: algebra_simps)
    qed
    then show ?thesis using i by (intro exI [of _ "Suc i"]) (auto simp: algebra_simps)
  qed
qed simp

lemma cron_search_step:
  "0 < n \<Longrightarrow> cron_search lt f t n =
     (case lt t of None \<Rightarrow> None
      | Some tm \<Rightarrow> if cron_expr_matches f tm then Some t else cron_search lt f (t + 60) (n - 1))"
  by (cases n) (auto split: option.split)

lemma cron_search_complete:
  "i < n \<Longrightarrow> lt (t + 60 * int i) = Some tm \<Longrightarrow> cron_expr_matches f tm \<Longrightarrow>
   (\<And>j. j < i \<Longrightarrow> lt (t + 60 * int j) \<noteq> None) \<Longrightarrow> \<exists>r. cron_search lt f t n = Some r"
proof (induction n arbitrary: t i)
  case (Suc n)
  show ?case
  proof (cases i)
    case 0
    then show ?thesis using Suc.prems by simp
  next
    case i: (Suc i')
    have "lt t \<noteq> None" using Suc.prems(4) [of 0] i by simp
    moreover have "lt (t + 60 + 60 * int j) \<noteq> None" if "j < i'" for j
      using Suc.prems(4) [of "Suc j"] that i by (simp add: algebra_simps)
    then have "\<exists>r. cron_search lt f (t + 60) n = Some r"
      using Suc.IH [of i' "t + 60"] Suc.prems(1,2,3) i by (simp add: algebra_simps)
    ultimately show ?thesis by (auto split: option.splits)
  qed
qed simp

lemma next_minute_after: "now < next_minute now" "0 \<le> now \<Longrightarrow> next_minute now mod 60 = 0"
proof -
  have "\<bar>c_rem now 60\<bar> < 60" by (auto simp: c_rem_def)
  then show "now < next_minute now" by (auto simp: next_minute_def)
  show "0 \<le> now \<Longrightarrow> next_minute now mod 60 = 0"
    by (simp add: next_minute_def c_rem_def minus_mod_eq_mult_div)
qed

lemma next_from_expr_after: "cron_next_from_expr lt s now = Some t \<Longrightarrow> now < t"
  using next_minute_after(1) [of now]
  by (auto simp: cron_next_from_expr_def split: option.splits dest!: cron_search_Some)

lemma interval_next_run_Some:
  "interval_next_run num now = Some t \<Longrightarrow> 0 \<le> now \<and> now < t \<and> t \<le> LLONG_MAX"
  by (auto simp: interval_next_run_def Let_def split: if_splits prod.splits)

lemma minute_index:
  assumes "0 \<le> now" "now < u" "u mod 60 = 0"
  shows "\<exists>i. u = next_minute now + 60 * int i"
proof -
  obtain a where a: "u = 60 * a" using assms(3) by (auto elim: dvdE simp: mod_eq_0_iff_dvd)
  obtain b where b: "next_minute now = 60 * b"
    using next_minute_after(2) [OF assms(1)] by (auto elim: dvdE simp: mod_eq_0_iff_dvd)
  have "next_minute now - 60 \<le> now" using assms(1) by (simp add: next_minute_def c_rem_def)
  then have "b \<le> a" using a b assms(2) by simp
  then show ?thesis using a b by (intro exI [of _ "nat (a - b)"]) (simp add: algebra_simps)
qed

lemma reschedule_ahead:
  assumes "cron_parse_next_run lt schedule now = Some t" "\<not> cron_is_one_shot schedule"
  shows "now < t"
proof (cases "prefix CRON_PREFIX_INTERVAL schedule")
  case True
  then show ?thesis
    using assms(1) interval_next_run_Some [of "drop 9 schedule" now t] by (simp add: cron_parse_next_run_def)
next
  case False
  then show ?thesis
    using assms by (auto simp: cron_parse_next_run_def cron_is_one_shot_def Let_def
      split: option.splits if_splits dest: next_from_expr_after)
qed

section \<open>Properties\<close>

text \<open>(C8) The next run of a cron expression is the first matching minute: it lies after the present
  time, on a minute boundary, its local time matches the five fields, and no earlier minute boundary
  after the present matches.\<close>

theorem cron_next_first_match:
  assumes "cron_next_from_expr lt s now = Some t" "0 \<le> now"
  shows "now < t \<and> t mod 60 = 0 \<and>
    (\<exists>f tm. parse_cron_expr s = Some f \<and> lt t = Some tm \<and> cron_expr_matches f tm \<and>
      (\<forall>u. now < u \<and> u < t \<and> u mod 60 = 0 \<longrightarrow> (\<exists>tm. lt u = Some tm \<and> \<not> cron_expr_matches f tm)))"
proof -
  obtain f where f: "parse_cron_expr s = Some f" "cron_search lt f (next_minute now) CRON_MAX_ITER_MINUTES = Some t"
    using assms(1) by (auto simp: cron_next_from_expr_def split: option.splits)
  from cron_search_Some [OF f(2)] obtain i tm where i: "t = next_minute now + 60 * int i" "lt t = Some tm"
    "cron_expr_matches f tm" "\<forall>j < i. \<exists>tm. lt (next_minute now + 60 * int j) = Some tm \<and> \<not> cron_expr_matches f tm"
    by blast
  have "t mod 60 = 0" using i(1) next_minute_after(2) [OF assms(2)] by simp
  moreover have "\<exists>tm. lt u = Some tm \<and> \<not> cron_expr_matches f tm" if u: "now < u" "u < t" "u mod 60 = 0" for u
  proof -
    obtain j where j: "u = next_minute now + 60 * int j" using minute_index [OF assms(2) u(1,3)] by blast
    then have "j < i" using u(2) i(1) by simp
    then show ?thesis using i(4) j by blast
  qed
  ultimately show ?thesis using next_minute_after(1) [of now] i f(1) by auto
qed

text \<open>A calendar for the examples: sixty minutes to the hour and the rest constant.\<close>

definition demo_lt :: "int \<Rightarrow> tm option" where
  "demo_lt t = Some \<lparr>tm_min = (t div 60) mod 60, tm_hour = (t div 3600) mod 24, tm_mday = 1, tm_mon = 0, tm_wday = 4\<rparr>"

lemma demo_next: "cron_next_from_expr demo_lt ''2-3 0 * 1 4'' 7 = Some 120"
proof -
  have p: "parse_cron_expr ''2-3 0 * 1 4'' =
      Some \<lparr>cf_min = (2, 3), cf_hour = (0, - 1), cf_mday = (- 1, - 1), cf_mon = (1, - 1), cf_wday = (4, - 1)\<rparr>"
    by code_simp
  show ?thesis
    unfolding cron_next_from_expr_def p
    by (simp add: CRON_MAX_ITER_MINUTES_def cron_search_step next_minute_def c_rem_def demo_lt_def
      cron_expr_matches_def field_matches_def)
qed

theorem cron_next_first_match_witness:
  "(7::int) < 120 \<and> (\<exists>f tm. parse_cron_expr ''2-3 0 * 1 4'' = Some f \<and> demo_lt 120 = Some tm \<and> cron_expr_matches f tm)"
  using cron_next_first_match [OF demo_next] by auto

text \<open>The search does not miss a match: when some minute of the next 366 days matches and the
  calendar conversion succeeds up to it, a next run is returned.\<close>

theorem cron_next_found:
  assumes "parse_cron_expr s = Some f" "i < CRON_MAX_ITER_MINUTES"
    and "lt (next_minute now + 60 * int i) = Some tm" "cron_expr_matches f tm"
    and "\<forall>j < i. lt (next_minute now + 60 * int j) \<noteq> None"
  shows "\<exists>t. cron_next_from_expr lt s now = Some t \<and> t \<le> next_minute now + 60 * int i"
proof -
  obtain t where t: "cron_search lt f (next_minute now) CRON_MAX_ITER_MINUTES = Some t"
    using cron_search_complete [of i _ lt "next_minute now" tm f] assms by blast
  from cron_search_Some [OF this] obtain k where k: "t = next_minute now + 60 * int k"
    "\<forall>j < k. \<exists>tm. lt (next_minute now + 60 * int j) = Some tm \<and> \<not> cron_expr_matches f tm" by blast
  have "\<not> i < k" using k(2) assms(3,4) by force
  then show ?thesis using t k(1) assms(1) by (simp add: cron_next_from_expr_def)
qed

theorem cron_next_found_witness:
  "\<exists>t. cron_next_from_expr demo_lt ''2-3 0 * 1 4'' 7 = Some t \<and> t \<le> 60 + 60 * int 1"
proof -
  let ?f = "\<lparr>cf_min = (2, 3), cf_hour = (0, - 1), cf_mday = (- 1, - 1), cf_mon = (1, - 1), cf_wday = (4, - 1)\<rparr>"
  have p: "parse_cron_expr ''2-3 0 * 1 4'' = Some ?f" by code_simp
  have i: "1 < CRON_MAX_ITER_MINUTES" by (simp add: CRON_MAX_ITER_MINUTES_def)
  have n: "next_minute 7 = 60" by code_simp
  have m: "cron_expr_matches ?f (the (demo_lt (60 + 60 * int 1)))" by code_simp
  show ?thesis
    using cron_next_found [OF p i, of demo_lt 7 "the (demo_lt (60 + 60 * int 1))"] m n by (simp add: demo_lt_def)
qed

text \<open>Rescheduling a recurring job always moves it into the future: a schedule that is not
  one-shot yields a next run strictly after the present time, and an interval never overflows
  64 bits.\<close>

theorem reschedule_moves_forward:
  assumes "cron_parse_next_run lt schedule now = Some t" "\<not> cron_is_one_shot schedule"
  shows "now < t \<and> (prefix CRON_PREFIX_INTERVAL schedule \<longrightarrow> 0 \<le> now \<and> t \<le> LLONG_MAX)"
  using reschedule_ahead [OF assms] interval_next_run_Some [of "drop 9 schedule" now t] assms(1)
  by (auto simp: cron_parse_next_run_def)

theorem reschedule_moves_forward_witness:
  "cron_parse_next_run demo_lt ''interval:3600'' 1000 = Some 4600 \<and> (1000::int) < 4600"
proof -
  have "cron_parse_next_run demo_lt ''interval:3600'' 1000 = Some 4600" "\<not> cron_is_one_shot ''interval:3600''"
    by code_simp+
  then show ?thesis using reschedule_moves_forward by blast
qed

text \<open>Fields mean what they say: when an expression is accepted, each of its first four fields
  matches exactly the values its text denotes (every value for a star, one value, or an inclusive
  range), within the bounds of that field.\<close>

theorem cron_fields_denote:
  assumes "parse_cron_expr s = Some f"
  shows "\<exists>t0 t1 t2 t3 t4 rest. strtok_all is_blank s = t0 # t1 # t2 # t3 # t4 # rest \<and>
    field_values t0 0 59 = Some {v. field_matches v (cf_min f)} \<and>
    field_values t1 0 23 = Some {v. field_matches v (cf_hour f)} \<and>
    field_values t2 1 31 = Some {v. field_matches v (cf_mday f)} \<and>
    field_values t3 1 12 = Some {v. field_matches v (cf_mon f)}"
proof -
  obtain t0 t1 t2 t3 t4 a b c d e where t: "take 5 (strtok_all is_blank s) = [t0, t1, t2, t3, t4]"
    and p: "parse_range t0 0 59 = Some a" "parse_range t1 0 23 = Some b" "parse_range t2 1 31 = Some c"
      "parse_range t3 1 12 = Some d" "parse_range t4 0 7 = Some e"
    and f: "f = \<lparr>cf_min = a, cf_hour = b, cf_mday = c, cf_mon = d, cf_wday = seven_is_sunday e\<rparr>"
    using assms by (auto simp: parse_cron_expr_def split: if_splits list.splits option.splits)
  have "strtok_all is_blank s = [t0, t1, t2, t3, t4] @ drop 5 (strtok_all is_blank s)"
    using append_take_drop_id [of 5 "strtok_all is_blank s"] t by simp
  then have s: "strtok_all is_blank s = t0 # t1 # t2 # t3 # t4 # drop 5 (strtok_all is_blank s)" by simp
  show ?thesis
    using parse_range_values [of 0 t0 59] parse_range_values [of 0 t1 23] parse_range_values [of 1 t2 31]
      parse_range_values [of 1 t3 12] p f s by (intro exI) auto
qed

theorem cron_fields_denote_witness:
  "\<exists>f. parse_cron_expr ''2-3 0 * 1 4'' = Some f \<and> field_values ''2-3'' 0 59 = Some {v. field_matches v (cf_min f)}"
proof -
  let ?f = "\<lparr>cf_min = (2, 3), cf_hour = (0, - 1), cf_mday = (- 1, - 1), cf_mon = (1, - 1), cf_wday = (4, - 1)\<rparr>"
  have p: "parse_cron_expr ''2-3 0 * 1 4'' = Some ?f" by code_simp
  have "strtok_all is_blank ''2-3 0 * 1 4'' = [''2-3'', ''0'', ''*'', ''1'', ''4'']" by code_simp
  then show ?thesis using cron_fields_denote [OF p] p by auto
qed

text \<open>A day-of-week range that ends in 7 never matches: 7 is accepted as a name for Sunday but is
  turned into 0 after the range was read, so that a range such as 5-7 (Friday to Sunday) has its
  upper bound below its lower one and the expression has no next run at all.\<close>

theorem weekday_range_to_seven_dead:
  assumes "parse_cron_expr s = Some f" "strtok_all is_blank s = t0 # t1 # t2 # t3 # t4 # rest"
    and "parse_range t4 0 7 = Some (lo, 7)" "1 \<le> lo" "lo \<le> 6"
    and "\<forall>t tm. lt t = Some tm \<longrightarrow> 0 \<le> tm_wday tm"
  shows "cron_next_from_expr lt s now = None"
proof -
  have f: "cf_wday f = (lo, 0)"
    using assms by (auto simp: parse_cron_expr_def seven_is_sunday_def split: if_splits option.splits)
  have "\<not> cron_expr_matches f tm" if "lt t = Some tm" for t tm
    using that assms(4,6) f by (auto simp: cron_expr_matches_def field_matches_def)
  then have "cron_search lt f t n = None" for t n
    using cron_search_Some [of lt f t n] by (cases "cron_search lt f t n") auto
  then show ?thesis using assms(1) by (simp add: cron_next_from_expr_def)
qed

theorem weekday_range_to_seven_dead_witness:
  "cron_next_from_expr demo_lt ''0 12 * * 5-7'' 1000 = None"
proof -
  let ?f = "\<lparr>cf_min = (0, - 1), cf_hour = (12, - 1), cf_mday = (- 1, - 1), cf_mon = (- 1, - 1), cf_wday = (5, 0)\<rparr>"
  have p: "parse_cron_expr ''0 12 * * 5-7'' = Some ?f" by code_simp
  have t: "strtok_all is_blank ''0 12 * * 5-7'' = [''0'', ''12'', ''*'', ''*'', ''5-7'']" by code_simp
  have r: "parse_range ''5-7'' 0 7 = Some (5, 7)" by code_simp
  show ?thesis
    using weekday_range_to_seven_dead [OF p t r, of demo_lt 1000] by (simp add: demo_lt_def)
qed

end
