(* ===== verification/Cron.thy ===== *)
theory Cron
  imports Cron_Schedule Memory_Store Slot_Table Cjson
begin

text \<open>
  The cron channel and tool of \<open>src/tools/cron.c\<close>: the table of offered jobs, the choice of the due
  job to deliver, the acknowledgement that reschedules it, and the tool operations.  The wall clock,
  the monotonic clock readings (\<^const>\<open>None\<close> when \<open>clock_gettime\<close> fails) and the random bytes of a
  generated id are arguments; sleeping is not modelled.
\<close>

section \<open>Definitions\<close>

definition CRON_OFFER_TRACK :: nat where "CRON_OFFER_TRACK = 16"
definition CRON_DUE_SCAN_MAX :: nat where "CRON_DUE_SCAN_MAX = 64"

record timespec =
  tv_sec :: int
  tv_nsec :: int

record cron_offer_slot =
  of_id :: string
  of_mono :: timespec
  of_timeout_ms :: int

definition no_offer :: cron_offer_slot where
  "no_offer = \<lparr>of_id = [], of_mono = \<lparr>tv_sec = 0, tv_nsec = 0\<rparr>, of_timeout_ms = 0\<rparr>"

definition c_quot :: "int \<Rightarrow> int \<Rightarrow> int" where
  "c_quot a b = (if a \<ge> 0 then a div b else - ((- a) div b))"

definition cron_elapsed_ms :: "timespec \<Rightarrow> timespec \<Rightarrow> int" where
  "cron_elapsed_ms then_t now = (tv_sec now - tv_sec then_t) * 1000 + c_quot (tv_nsec now - tv_nsec then_t) 1000000"

definition cron_offer_age_ms :: "string \<Rightarrow> timespec \<Rightarrow> cron_offer_slot list \<Rightarrow> int option" where
  "cron_offer_age_ms job_id now offers =
     map_option (\<lambda>s. cron_elapsed_ms (of_mono s) now) (find (\<lambda>s. of_id s \<noteq> [] \<and> of_id s = job_id) offers)"

definition cron_slot_reusable :: "timespec \<Rightarrow> cron_offer_slot \<Rightarrow> bool" where
  "cron_slot_reusable now slot \<longleftrightarrow>
     (if of_id slot = [] then True
      else if of_timeout_ms slot \<le> 0 then False
      else cron_elapsed_ms (of_mono slot) now \<ge> of_timeout_ms slot)"

definition cron_offer_has_room :: "timespec \<Rightarrow> cron_offer_slot list \<Rightarrow> bool" where
  "cron_offer_has_room now offers = list_ex (cron_slot_reusable now) offers"

definition cron_offer_is_hot :: "string \<Rightarrow> int \<Rightarrow> timespec \<Rightarrow> cron_offer_slot list \<Rightarrow> bool" where
  "cron_offer_is_hot job_id timeout_ms now offers =
     (if timeout_ms \<le> 0 then False
      else case cron_offer_age_ms job_id now offers of None \<Rightarrow> False | Some age \<Rightarrow> age < timeout_ms)"

definition cron_due_is_returnable :: "string \<Rightarrow> int \<Rightarrow> timespec \<Rightarrow> cron_offer_slot list \<Rightarrow> bool" where
  "cron_due_is_returnable job_id timeout_ms now offers =
     (if cron_offer_is_hot job_id timeout_ms now offers then False
      else if cron_offer_age_ms job_id now offers = None \<and> \<not> cron_offer_has_room now offers then False
      else True)"

definition cron_mark_offered :: "string \<Rightarrow> int \<Rightarrow> timespec option \<Rightarrow> cron_offer_slot list \<Rightarrow> cron_offer_slot list" where
  "cron_mark_offered job_id timeout_ms clock offers =
     (if job_id = [] then offers
      else case clock of
             None \<Rightarrow> offers
           | Some now \<Rightarrow>
               (case find_index (\<lambda>s. of_id s = job_id) offers of
                  Some i \<Rightarrow> offers[i := (offers ! i)\<lparr>of_mono := now, of_timeout_ms := timeout_ms\<rparr>]
                | None \<Rightarrow>
                    (case find_index (cron_slot_reusable now) offers of
                       None \<Rightarrow> offers
                     | Some i \<Rightarrow> offers[i := \<lparr>of_id = buf_trunc 128 job_id, of_mono = now, of_timeout_ms = timeout_ms\<rparr>])))"

definition cron_offer_release :: "string \<Rightarrow> cron_offer_slot list \<Rightarrow> cron_offer_slot list" where
  "cron_offer_release job_id offers =
     (if job_id = [] then offers
      else case find_index (\<lambda>s. of_id s = job_id) offers of None \<Rightarrow> offers | Some i \<Rightarrow> offers[i := no_offer])"

text \<open>The scan over the due keys: the first returnable one whose row can be read.\<close>

fun pick_returnable :: "(string \<Rightarrow> bool) \<Rightarrow> memdb option \<Rightarrow> (string \<times> int) list \<Rightarrow> cron_job_row option" where
  "pick_returnable ok db [] = None"
| "pick_returnable ok db (k # ks) =
     (if \<not> ok (fst k) then pick_returnable ok db ks
      else case cron_job_get_by_id (fst k) db of One_Row r \<Rightarrow> Some r | _ \<Rightarrow> pick_returnable ok db ks)"

definition cron_pick_due_row :: "int \<Rightarrow> int \<Rightarrow> timespec option \<Rightarrow> memdb option \<Rightarrow> cron_offer_slot list \<Rightarrow> cron_job_row option" where
  "cron_pick_due_row now timeout_ms clock db offers =
     (let mono = (case clock of Some t \<Rightarrow> t | None \<Rightarrow> \<lparr>tv_sec = 0, tv_nsec = 0\<rparr>) in
      case cron_job_list_due now CRON_DUE_SCAN_MAX db of
        None \<Rightarrow> None
      | Some [] \<Rightarrow> None
      | Some (k # ks) \<Rightarrow>
          (case pick_returnable (\<lambda>i. cron_due_is_returnable i timeout_ms mono offers) db (k # ks) of
             Some r \<Rightarrow> Some r
           | None \<Rightarrow> (case cron_job_get_by_id (fst k) db of One_Row r \<Rightarrow> Some r | _ \<Rightarrow> None)))"

record incoming_msg =
  im_session_id :: string
  im_user_id :: string
  im_text :: string

definition or_default :: "string \<Rightarrow> string \<Rightarrow> string" where
  "or_default s d = (if s \<noteq> [] then s else d)"

definition cron_poll ::
  "int \<Rightarrow> int \<Rightarrow> timespec option \<Rightarrow> timespec option \<Rightarrow> memdb option \<Rightarrow> cron_offer_slot list \<Rightarrow> incoming_msg option \<times> cron_offer_slot list" where
  "cron_poll now timeout_ms clock clock2 db offers =
     (case cron_pick_due_row now timeout_ms clock db offers of
        None \<Rightarrow> (None, offers)
      | Some row \<Rightarrow>
          (Some \<lparr>im_session_id = buf_trunc 256 (or_default (jr_channel row) ''cli'' @ '':'' @ or_default (jr_recipient row) ''default''),
                 im_user_id = jr_id row, im_text = jr_message row\<rparr>,
           cron_mark_offered (jr_id row) timeout_ms clock2 offers))"

definition cron_ack_delivery ::
  "(int \<Rightarrow> tm option) \<Rightarrow> string option \<Rightarrow> int \<Rightarrow> memdb option \<Rightarrow> cron_offer_slot list \<Rightarrow> int \<times> memdb option \<times> cron_offer_slot list" where
  "cron_ack_delivery lt job_id now db offers =
     (case job_id of
        None \<Rightarrow> (- 1, db, offers)
      | Some jid \<Rightarrow>
          if jid = [] then (- 1, db, offers)
          else case cron_job_get_by_id jid db of
                 One_Row row \<Rightarrow>
                   if cron_is_one_shot (jr_schedule row) then
                     (let (rc, db1) = cron_job_delete (jr_id row) db in
                      (rc, db1, if rc = 0 then cron_offer_release jid offers else offers))
                   else
                     (let next = (case cron_parse_next_run lt (jr_schedule row) now of
                                    Some t \<Rightarrow> t | None \<Rightarrow> now + 365 * 24 * 3600);
                          (rc, db1) = cron_job_update_next_run jid next db in
                      (rc, db1, if rc = 0 then cron_offer_release jid offers else offers))
               | _ \<Rightarrow> (- 1, db, offers))"

definition hex2 :: "nat \<Rightarrow> string" where
  "hex2 b = (let d = (\<lambda>v. if v < 10 then char_of (48 + v) else char_of (87 + v)) in [d (b div 16), d (b mod 16)])"

definition cron_create_job ::
  "(int \<Rightarrow> tm option) \<Rightarrow> string \<Rightarrow> string \<Rightarrow> string option \<Rightarrow> string option \<Rightarrow> string \<Rightarrow> nat \<Rightarrow> (nat \<times> nat) option \<Rightarrow> int \<Rightarrow> memdb option
   \<Rightarrow> int \<times> string \<times> memdb option" where
  "cron_create_job lt schedule message channel recipient id_in id_size rnd now db =
     (if id_size = 0 then (- 1, id_in, db)
      else let ch = (case channel of Some c \<Rightarrow> c | None \<Rightarrow> ''cli'');
               rec = (case recipient of Some r \<Rightarrow> r | None \<Rightarrow> ''default'') in
        case (if id_in \<noteq> [] then Some id_in
              else map_option (\<lambda>(a, b). buf_trunc id_size (''cron_'' @ int_str now @ ''_'' @ hex2 a @ hex2 b)) rnd) of
          None \<Rightarrow> (- 1, id_in, db)
        | Some jid \<Rightarrow>
            (case cron_parse_next_run lt schedule now of
               None \<Rightarrow> (- 1, jid, db)
             | Some next \<Rightarrow>
                 let (rc, db1) = cron_job_create \<lparr>jr_id = jid, jr_schedule = schedule, jr_message = message, jr_channel = ch,
                       jr_recipient = rec, jr_next_run = next, jr_enabled = 1\<rparr> db in
                 (rc, jid, db1)))"

text \<open>Where \<open>cron_send\<close> passes a message on: the channel named before the colon, and the rest as its recipient.\<close>

definition cron_send_target :: "string option \<Rightarrow> (string \<times> string) option" where
  "cron_send_target recipient =
     (case recipient of
        None \<Rightarrow> None
      | Some r \<Rightarrow>
          (case strchr_split (CHR '':'') r of
             None \<Rightarrow> None
           | Some (name, rest) \<Rightarrow> if length name \<ge> 64 then None else Some (name, rest)))"

definition cron_cleanup :: "cron_offer_slot list" where
  "cron_cleanup = replicate CRON_OFFER_TRACK no_offer"

text \<open>The tool: the code and the result text; the list operation answers with the rows.\<close>

datatype cron_answer = Ans_Text int string | Ans_Rows "cron_job_row list"

definition nonempty_string :: "cjson option \<Rightarrow> string option" where
  "nonempty_string x = (case string_of x of Some s \<Rightarrow> if s \<noteq> [] then Some s else None | None \<Rightarrow> None)"

definition json_error_text :: "string \<Rightarrow> string" where
  "json_error_text msg = ''{'' @ [dquote] @ ''error'' @ [dquote] @ '':'' @ [dquote] @ msg @ [dquote] @ ''}''"

definition ok_text :: string where
  "ok_text = ''{'' @ [dquote] @ ''ok'' @ [dquote] @ '':true}''"

definition cron_tool_execute ::
  "(string \<Rightarrow> cjson option) \<Rightarrow> (int \<Rightarrow> tm option) \<Rightarrow> (nat \<times> nat) option \<Rightarrow> int \<Rightarrow> string \<Rightarrow> nat \<Rightarrow> memdb option
   \<Rightarrow> cron_answer \<times> memdb option" where
  "cron_tool_execute parse lt rnd now args max_len db =
     (let answer = (\<lambda>rc txt. Ans_Text rc (buf_trunc max_len txt)) in
      if max_len = 0 then (Ans_Text (- 1) [], db)
      else case parse args of
        None \<Rightarrow> (answer (- 1) (json_error_text ''invalid JSON''), db)
      | Some root \<Rightarrow>
          (case string_of (cJSON_GetObjectItem root ''operation'') of
             None \<Rightarrow> (answer (- 1) (json_error_text ''operation required''), db)
           | Some operation \<Rightarrow>
               if operation = ''list'' then
                 (case cron_job_list 64 db of
                    None \<Rightarrow> (answer (- 1) (json_error_text ''failed to list jobs''), db)
                  | Some rows \<Rightarrow> (Ans_Rows rows, db))
               else if operation = ''create'' then
                 (case (string_of (cJSON_GetObjectItem root ''schedule''), string_of (cJSON_GetObjectItem root ''message'')) of
                    (Some schedule, Some message) \<Rightarrow>
                      let id_in = (case nonempty_string (cJSON_GetObjectItem root ''id'') of Some i \<Rightarrow> buf_trunc 128 i | None \<Rightarrow> []);
                          (rc, jid, db1) = cron_create_job lt schedule message (string_of (cJSON_GetObjectItem root ''channel''))
                             (string_of (cJSON_GetObjectItem root ''recipient'')) id_in 128 rnd now db in
                      if rc \<noteq> 0 then (answer (- 1) (json_error_text ''failed to create job''), db1)
                      else (answer 0 (''{'' @ [dquote] @ ''ok'' @ [dquote] @ '':true,'' @ [dquote] @ ''id'' @ [dquote] @ '':'' @
                              [dquote] @ jid @ [dquote] @ ''}''), db1)
                  | _ \<Rightarrow> (answer (- 1) (json_error_text ''schedule and message required''), db))
               else if operation = ''delete'' \<or> operation = ''toggle'' then
                 (case nonempty_string (cJSON_GetObjectItem root ''id'') of
                    None \<Rightarrow> (answer (- 1) (json_error_text ''id required''), db)
                  | Some i \<Rightarrow>
                      let (rc, db1) = (if operation = ''delete'' then cron_job_delete i db else cron_job_toggle i db) in
                      if rc \<noteq> 0 then (answer (- 1) (json_error_text ''job not found''), db1) else (answer 0 ok_text, db1))
               else (answer (- 1) (json_error_text ''invalid operation''), db)))"

section \<open>Offers\<close>

interpretation offers: keyed_slots of_id "\<lambda>jid. \<lparr>of_id = buf_trunc 128 jid, of_mono = now, of_timeout_ms = tmo\<rparr>" 127
  by unfold_locales (simp add: buf_trunc_def)

definition offers_wf :: "cron_offer_slot list \<Rightarrow> bool" where
  "offers_wf t \<longleftrightarrow> length t = CRON_OFFER_TRACK \<and> keys_distinct of_id t"

lemma offer_age_view:
  assumes "jid \<noteq> []"
  shows "cron_offer_age_ms jid now t = map_option (\<lambda>s. cron_elapsed_ms (of_mono s) now) (slot_view of_id jid t)"
proof -
  have "(\<lambda>s. of_id s \<noteq> [] \<and> of_id s = jid) = (\<lambda>s. of_id s = jid)" using assms by auto
  then show ?thesis unfolding cron_offer_age_ms_def slot_view_def by (rule arg_cong)
qed

lemma cleanup_wf: "offers_wf cron_cleanup"
  by (simp add: offers_wf_def cron_cleanup_def no_offer_def offers.replicate_free_distinct)

text \<open>Marking: the job's slot carries the new time, a slot of another job changes only if it was stale.\<close>

lemma mark_offered_cases:
  assumes "offers_wf t" "jid \<noteq> []" "length jid < 128"
  obtains (marked) i where "i < length t" "of_id (t ! i) = jid \<or> (slot_view of_id jid t = None \<and> cron_slot_reusable now (t ! i))"
      "cron_mark_offered jid tmo (Some now) t = t[i := \<lparr>of_id = jid, of_mono = now, of_timeout_ms = tmo\<rparr>]"
  | (full) "cron_mark_offered jid tmo (Some now) t = t" "slot_view of_id jid t = None" "\<not> cron_offer_has_room now t"
proof (cases "find_index (\<lambda>s. of_id s = jid) t")
  case (Some i)
  have f: "i < length t" "of_id (t ! i) = jid" using find_index_Some [OF Some] by auto
  then have "(t ! i)\<lparr>of_mono := now, of_timeout_ms := tmo\<rparr> = \<lparr>of_id = jid, of_mono = now, of_timeout_ms = tmo\<rparr>"
    by (cases "t ! i") simp
  then have "cron_mark_offered jid tmo (Some now) t = t[i := \<lparr>of_id = jid, of_mono = now, of_timeout_ms = tmo\<rparr>]"
    using Some assms(2) by (simp only: cron_mark_offered_def option.case if_False)
  then show thesis using marked [of i] f by blast
next
  case None
  then have v: "slot_view of_id jid t = None" by (auto simp: find_index_None_iff slot_view_None)
  show thesis
  proof (cases "find_index (cron_slot_reusable now) t")
    case (Some i)
    then show thesis
      using marked [of i] find_index_Some [OF Some] None v assms(2,3) by (simp add: cron_mark_offered_def)
  next
    case full': None
    have "\<not> cron_offer_has_room now t"
      using full' by (simp add: cron_offer_has_room_def list_ex_iff find_index_None_iff)
    then show thesis using full None full' v assms(2) by (simp add: cron_mark_offered_def)
  qed
qed

lemma mark_offered_wf:
  assumes "offers_wf t" "length jid < 128" shows "offers_wf (cron_mark_offered jid tmo clk t)"
proof (cases "jid = [] \<or> clk = None")
  case True
  then show ?thesis using assms by (auto simp: cron_mark_offered_def)
next
  case False
  then obtain now where "clk = Some now" by auto
  moreover have "offers_wf (cron_mark_offered jid tmo (Some now) t)"
  proof (rule mark_offered_cases [of t jid now tmo])
    fix i assume i: "i < length t" "of_id (t ! i) = jid \<or> slot_view of_id jid t = None \<and> cron_slot_reusable now (t ! i)"
      "cron_mark_offered jid tmo (Some now) t = t[i := \<lparr>of_id = jid, of_mono = now, of_timeout_ms = tmo\<rparr>]"
    then show ?thesis
      using assms(1) offers.update_distinct [of t i "\<lparr>of_id = jid, of_mono = now, of_timeout_ms = tmo\<rparr>"]
      by (auto simp: offers_wf_def)
  qed (use assms False in auto)
  ultimately show ?thesis by simp
qed

lemma release_wf: "offers_wf t \<Longrightarrow> offers_wf (cron_offer_release jid t)"
proof (cases "find_index (\<lambda>s. of_id s = jid) t")
  case (Some i)
  assume wf: "offers_wf t"
  have i: "i < length t" using find_index_Some [OF Some] by simp
  have "keys_distinct of_id (t[i := no_offer])"
    using offers.free_distinct [of t i no_offer] wf i by (simp add: offers_wf_def no_offer_def)
  then show ?thesis using wf Some by (simp add: cron_offer_release_def offers_wf_def)
qed (simp add: cron_offer_release_def)

section \<open>Choosing a job\<close>

definition mono_of :: "timespec option \<Rightarrow> timespec" where
  "mono_of clock = (case clock of Some t \<Rightarrow> t | None \<Rightarrow> \<lparr>tv_sec = 0, tv_nsec = 0\<rparr>)"

text \<open>The jobs one poll looks at.\<close>

definition scanned :: "int \<Rightarrow> memdb \<Rightarrow> cron_job_row list" where
  "scanned now d = take CRON_DUE_SCAN_MAX (due_rows now d)"

lemma scanned_due: "r \<in> set (scanned now d) \<Longrightarrow> r \<in> set (db_cron d) \<and> is_due now r"
  by (auto simp: scanned_def due_rows_set dest: in_set_takeD)

lemma list_due_wf:
  assumes "db_wf d"
  shows "cron_job_list_due now CRON_DUE_SCAN_MAX (Some d) = Some (map (\<lambda>r. (jr_id r, jr_next_run r)) (scanned now d))"
proof -
  have "copy_str_bounded 128 (jr_id r) = jr_id r" if "r \<in> set (scanned now d)" for r
    using assms scanned_due [OF that] by (simp add: db_wf_def)
  then show ?thesis by (simp add: cron_job_list_due_def scanned_def CRON_DUE_SCAN_MAX_def)
qed

lemma get_by_id_wf:
  assumes "db_wf d" "r \<in> set (db_cron d)"
  obtains x where "cron_job_get_by_id (jr_id r) (Some d) = One_Row x" "fill_cron_job_row r = Some x"
    "jr_id x = jr_id r" "jr_schedule x = jr_schedule r" "jr_message x = jr_message r"
proof -
  obtain x where x: "fill_cron_job_row r = Some x" "jr_id x = jr_id r" "jr_schedule x = jr_schedule r" "jr_message x = jr_message r"
    using fill_row_wf [OF assms] by metis
  have "filter (\<lambda>q. jr_id q = jr_id r) (db_cron d) = [r]"
    using assms by (intro filter_distinct_key) (auto simp: db_wf_def)
  then show thesis using that x by (simp add: cron_job_get_by_id_def first_row_def)
qed

lemma pick_returnable_wf:
  assumes "db_wf d" "set rs \<subseteq> set (db_cron d)"
  shows "pick_returnable ok (Some d) (map (\<lambda>r. (jr_id r, jr_next_run r)) rs) =
    (case find (\<lambda>r. ok (jr_id r)) rs of None \<Rightarrow> None | Some r \<Rightarrow> fill_cron_job_row r)"
  using assms(2)
proof (induction rs)
  case (Cons r rs)
  obtain x where "cron_job_get_by_id (jr_id r) (Some d) = One_Row x" "fill_cron_job_row r = Some x"
    using get_by_id_wf [OF assms(1), of r] Cons.prems by auto
  then show ?case using Cons by simp
qed simp

lemma pick_due_row_wf:
  assumes "db_wf d"
  shows "cron_pick_due_row now tmo clock (Some d) offers =
    (case scanned now d of
       [] \<Rightarrow> None
     | r0 # _ \<Rightarrow>
         (case find (\<lambda>r. cron_due_is_returnable (jr_id r) tmo (mono_of clock) offers) (scanned now d) of
            Some r \<Rightarrow> fill_cron_job_row r
          | None \<Rightarrow> fill_cron_job_row r0))"
proof (cases "scanned now d")
  case Nil
  then show ?thesis using list_due_wf [OF assms, of now] by (simp add: cron_pick_due_row_def Let_def)
next
  case (Cons r0 rs)
  have sub: "set (scanned now d) \<subseteq> set (db_cron d)" using scanned_due by blast
  obtain x where x: "cron_job_get_by_id (jr_id r0) (Some d) = One_Row x" "fill_cron_job_row r0 = Some x"
    using get_by_id_wf [OF assms, of r0] sub Cons by auto
  let ?ok = "\<lambda>i. cron_due_is_returnable i tmo (mono_of clock) offers"
  let ?keys = "map (\<lambda>r. (jr_id r, jr_next_run r)) (scanned now d)"
  have 1: "cron_pick_due_row now tmo clock (Some d) offers =
      (case pick_returnable ?ok (Some d) ?keys of Some r \<Rightarrow> Some r | None \<Rightarrow> Some x)"
    unfolding cron_pick_due_row_def list_due_wf [OF assms] mono_of_def Cons
    using x(1) by (simp add: Let_def del: pick_returnable.simps split: option.split)
  have 2: "pick_returnable ?ok (Some d) ?keys =
      (case find (\<lambda>r. ?ok (jr_id r)) (scanned now d) of None \<Rightarrow> None | Some r \<Rightarrow> fill_cron_job_row r)"
    by (rule pick_returnable_wf [OF assms sub])
  show ?thesis
  proof (cases "find (\<lambda>r. ?ok (jr_id r)) (scanned now d)")
    case None
    then show ?thesis using 1 2 Cons x(2) by (simp del: find.simps pick_returnable.simps)
  next
    case (Some r)
    then have "r \<in> set (scanned now d)" by (auto simp: find_Some_iff)
    then obtain y where "fill_cron_job_row r = Some y" using fill_row_wf [OF assms, of r] sub by blast
    then show ?thesis using 1 2 Cons Some by (simp del: find.simps pick_returnable.simps)
  qed
qed

lemma poll_wf:
  assumes "db_wf d" "cron_poll now tmo clock clock2 (Some d) offers = (Some msg, offers')"
  obtains r where "r \<in> set (scanned now d)" "im_user_id msg = jr_id r" "im_text msg = jr_message r"
    "offers' = cron_mark_offered (jr_id r) tmo clock2 offers"
    "cron_due_is_returnable (jr_id r) tmo (mono_of clock) offers \<or>
     (\<forall>q \<in> set (scanned now d). \<not> cron_due_is_returnable (jr_id q) tmo (mono_of clock) offers)"
proof -
  obtain row where row: "cron_pick_due_row now tmo clock (Some d) offers = Some row"
    "im_user_id msg = jr_id row" "im_text msg = jr_message row" "offers' = cron_mark_offered (jr_id row) tmo clock2 offers"
    using assms(2) by (auto simp: cron_poll_def split: option.splits)
  let ?ok = "\<lambda>r. cron_due_is_returnable (jr_id r) tmo (mono_of clock) offers"
  obtain r where r: "r \<in> set (scanned now d)" "fill_cron_job_row r = Some row" "?ok r \<or> (\<forall>q \<in> set (scanned now d). \<not> ?ok q)"
  proof (cases "find ?ok (scanned now d)")
    case None
    then have "\<forall>q \<in> set (scanned now d). \<not> ?ok q" unfolding find_None_iff by blast
    then show thesis
      using that None row(1) unfolding pick_due_row_wf [OF assms(1)] by (cases "scanned now d") auto
  next
    case (Some r)
    then have "r \<in> set (scanned now d)" "?ok r" by (auto simp: find_Some_iff)
    then show thesis
      using that [of r] Some row(1) unfolding pick_due_row_wf [OF assms(1)]
      by (cases "scanned now d") (simp_all del: find.simps)
  qed
  have "jr_id row = jr_id r" "jr_message row = jr_message r"
    using fill_row_wf [OF assms(1), of r] scanned_due [OF r(1)] r(2) by (auto elim!: fill_row_wf [OF assms(1)])
  then show thesis using that r row by metis
qed

section \<open>Properties\<close>


text \<open>Two due jobs, of which the first was offered a moment ago.\<close>

definition demo_offers :: "cron_offer_slot list" where
  "demo_offers = cron_mark_offered ''a'' 1000 (Some \<lparr>tv_sec = 100, tv_nsec = 0\<rparr>) cron_cleanup"

definition demo_poll :: "incoming_msg option \<times> cron_offer_slot list" where
  "demo_poll = cron_poll 7 1000 (Some \<lparr>tv_sec = 100, tv_nsec = 500\<rparr>) (Some \<lparr>tv_sec = 100, tv_nsec = 600\<rparr>) (Some demo_db) demo_offers"

lemma demo_poll_msg: "\<exists>msg offers'. demo_poll = (Some msg, offers') \<and> im_user_id msg = ''b''"
proof -
  have "map_option im_user_id (fst demo_poll) = Some ''b''" by code_simp
  then obtain msg where "fst demo_poll = Some msg" "im_user_id msg = ''b''" by auto
  then show ?thesis by (metis prod.collapse)
qed

lemma demo_row_b: "r \<in> set (db_cron demo_db) \<Longrightarrow> jr_id r = ''b'' \<Longrightarrow> jr_message r = ''m''"
  by (auto simp: demo_db_def)


text \<open>A delivered job is not offered again before its timeout: after a poll that delivered a
  returnable job, the job counts as hot at every later clock reading less than the timeout after the
  offer was noted, as long as the offer table is not changed.\<close>

theorem offered_job_is_hot:
  assumes "db_wf d" "offers_wf offers" "cron_poll now tmo (Some m1) (Some m2) (Some d) offers = (Some msg, offers')"
    and "im_user_id msg \<noteq> []" "cron_due_is_returnable (im_user_id msg) tmo m1 offers"
    and "0 < tmo" "cron_elapsed_ms m2 m3 < tmo" "cron_offer_has_room m1 offers \<longrightarrow> cron_offer_has_room m2 offers"
  shows "offers_wf offers' \<and> cron_offer_is_hot (im_user_id msg) tmo m3 offers'"
proof -
  let ?j = "im_user_id msg"
  obtain r where r: "r \<in> set (scanned now d)" "?j = jr_id r" "offers' = cron_mark_offered ?j tmo (Some m2) offers"
    using poll_wf [OF assms(1,3)] by metis
  have len: "length ?j < 128" using assms(1) scanned_due [OF r(1)] r(2) by (simp add: db_wf_def)
  have wf: "offers_wf offers'" using mark_offered_wf [OF assms(2) len] r(3) by simp
  have "slot_view of_id ?j offers' = Some \<lparr>of_id = ?j, of_mono = m2, of_timeout_ms = tmo\<rparr>"
  proof (rule mark_offered_cases [OF assms(2,4) len, of m2 tmo])
    fix i
    let ?s = "\<lparr>of_id = ?j, of_mono = m2, of_timeout_ms = tmo\<rparr>"
    assume i: "i < length offers" "of_id (offers ! i) = ?j \<or> slot_view of_id ?j offers = None \<and> cron_slot_reusable m2 (offers ! i)"
      "cron_mark_offered ?j tmo (Some m2) offers = offers[i := ?s]"
    have "slot_view of_id (of_id ?s) (offers[i := ?s]) = Some ?s"
      by (rule offers.view_update_same) (use i assms(2,4) in \<open>auto simp: offers_wf_def\<close>)
    then show ?thesis using i(3) r(3) by simp
  next
    assume "slot_view of_id ?j offers = None" "\<not> cron_offer_has_room m2 offers"
    then show ?thesis
      using assms(4,5,8) by (auto simp: cron_due_is_returnable_def offer_age_view split: if_splits)
  qed
  then show ?thesis using wf assms(4,6,7) by (simp add: cron_offer_is_hot_def offer_age_view)
qed

theorem offered_job_is_hot_witness:
  "\<exists>msg offers'. demo_poll = (Some msg, offers') \<and> cron_offer_is_hot ''b'' 1000 \<lparr>tv_sec = 100, tv_nsec = 900\<rparr> offers'"
proof -
  obtain msg offers' where m: "demo_poll = (Some msg, offers')" "im_user_id msg = ''b''" using demo_poll_msg by blast
  have wf: "offers_wf demo_offers"
    using mark_offered_wf [OF cleanup_wf, of "''a''"] by (simp add: demo_offers_def)
  have ret: "cron_due_is_returnable (im_user_id msg) 1000 \<lparr>tv_sec = 100, tv_nsec = 500\<rparr> demo_offers"
    unfolding m(2) by code_simp
  have room: "cron_offer_has_room \<lparr>tv_sec = 100, tv_nsec = 600\<rparr> demo_offers" by code_simp
  have el: "cron_elapsed_ms \<lparr>tv_sec = 100, tv_nsec = 600\<rparr> \<lparr>tv_sec = 100, tv_nsec = 900\<rparr> < 1000" by code_simp
  show ?thesis
    using offered_job_is_hot [OF demo_db_wf wf m(1) [unfolded demo_poll_def] _ ret _ el] m(2) room m(1) by fastforce
qed

text \<open>Acknowledging a delivery settles the job: a one-shot job is deleted, a recurring one stays and is
  no longer due at the time of the acknowledgement (even when its stored schedule is rejected), the
  other jobs are untouched, and the store invariant is kept.\<close>

theorem ack_settles_job:
  assumes "db_wf d" "r \<in> set (db_cron d)" "jr_id r \<noteq> []"
    and "cron_ack_delivery lt (Some (jr_id r)) now (Some d) offers = (rc, db', offers')"
  shows "\<exists>d'. rc = 0 \<and> db' = Some d' \<and> db_wf d' \<and> offers' = cron_offer_release (jr_id r) offers \<and>
    filter (\<lambda>q. jr_id q \<noteq> jr_id r) (db_cron d') = filter (\<lambda>q. jr_id q \<noteq> jr_id r) (db_cron d) \<and>
    (if cron_is_one_shot (jr_schedule r) then jr_id r \<notin> jr_id ` set (db_cron d')
     else (\<exists>q \<in> set (db_cron d'). jr_id q = jr_id r \<and> jr_schedule q = jr_schedule r \<and> \<not> is_due now q))"
proof -
  obtain x where x: "cron_job_get_by_id (jr_id r) (Some d) = One_Row x" "jr_id x = jr_id r" "jr_schedule x = jr_schedule r"
    using get_by_id_wf [OF assms(1,2)] by metis
  have mem: "jr_id r \<in> jr_id ` set (db_cron d)" using assms(2) by blast
  show ?thesis
  proof (cases "cron_is_one_shot (jr_schedule r)")
    case True
    have del: "cron_job_delete (jr_id r) (Some d) = (0, Some (d\<lparr>db_cron := filter (\<lambda>q. jr_id q \<noteq> jr_id r) (db_cron d)\<rparr>))"
      using mem by (simp add: cron_job_delete_def)
    have "db_wf (d\<lparr>db_cron := filter (\<lambda>q. jr_id q \<noteq> jr_id r) (db_cron d)\<rparr>)"
      using db_wf_delete [OF assms(1), of "jr_id r"] del by simp
    then show ?thesis using assms(3,4) x True del by (auto simp: cron_ack_delivery_def)
  next
    case False
    let ?n = "case cron_parse_next_run lt (jr_schedule r) now of Some t \<Rightarrow> t | None \<Rightarrow> now + 365 * 24 * 3600"
    let ?u = "\<lambda>q. if jr_id q = jr_id r then q\<lparr>jr_next_run := ?n\<rparr> else q"
    have n: "now < ?n"
      using reschedule_ahead [of lt "jr_schedule r" now] False by (auto split: option.splits)
    have upd: "cron_job_update_next_run (jr_id r) ?n (Some d) = (0, Some (d\<lparr>db_cron := map ?u (db_cron d)\<rparr>))"
      by (simp add: cron_job_update_next_run_def)
    have wf: "db_wf (d\<lparr>db_cron := map ?u (db_cron d)\<rparr>)"
      using db_wf_next_run [OF assms(1), of "jr_id r" ?n] upd by simp
    have keep: "filter (\<lambda>q. jr_id q \<noteq> jr_id r) (map ?u t) = filter (\<lambda>q. jr_id q \<noteq> jr_id r) t" for t
      by (induction t) auto
    have "?u r \<in> set (map ?u (db_cron d))" using assms(2) by (simp add: image_iff) blast
    moreover have "\<not> is_due now (?u r)" using n by (simp add: is_due_def)
    ultimately have "\<exists>q \<in> set (map ?u (db_cron d)). jr_id q = jr_id r \<and> jr_schedule q = jr_schedule r \<and> \<not> is_due now q"
      by (intro bexI [of _ "?u r"]) simp_all
    moreover have "rc = 0" "db' = Some (d\<lparr>db_cron := map ?u (db_cron d)\<rparr>)" "offers' = cron_offer_release (jr_id r) offers"
      using assms(3,4) x False upd by (auto simp: cron_ack_delivery_def Let_def)
    moreover have c: "db_cron (d\<lparr>db_cron := map ?u (db_cron d)\<rparr>) = map ?u (db_cron d)" by simp
    ultimately show ?thesis
      using False wf keep [of "db_cron d"]
      by (intro exI [of _ "d\<lparr>db_cron := map ?u (db_cron d)\<rparr>"]) (simp only: c if_False simp_thms)
  qed
qed

theorem ack_settles_job_witness:
  "\<exists>d' offers'. cron_ack_delivery demo_lt (Some ''b'') 7 (Some demo_db) demo_offers = (0, Some d', offers') \<and>
     filter (\<lambda>q. jr_id q \<noteq> ''b'') (db_cron d') = filter (\<lambda>q. jr_id q \<noteq> ''b'') (db_cron demo_db)"
proof -
  let ?r = "hd (db_cron demo_db)"
  have r: "?r \<in> set (db_cron demo_db)" "jr_id ?r \<noteq> []" "jr_id ?r = ''b''" by (simp_all add: demo_db_def)
  obtain rc db' offers' where a: "cron_ack_delivery demo_lt (Some (jr_id ?r)) 7 (Some demo_db) demo_offers = (rc, db', offers')"
    by (metis surj_pair)
  show ?thesis using ack_settles_job [OF demo_db_wf r(1,2) a] a r(3) by auto
qed

end
