(* ===== verification/Channel_Common.thy ===== *)
theory Channel_Common
  imports Utf8
begin

text \<open>
  \<open>src/channels/channel_common.c\<close>: cutting an outgoing text into chunks, the sender that posts them, and the registry
  of channels by name.  The callback \<open>post\<close> of the platform is a function on its context \<open>'c\<close>, whose result is the C
  return code.  Allocation succeeds; a \<open>NULL\<close> text is \<open>None\<close>.
\<close>

section \<open>Definitions\<close>

definition MAX_REGISTERED_CHANNELS :: nat where "MAX_REGISTERED_CHANNELS = 8"

definition channel_register :: "string option \<Rightarrow> 'ch option \<Rightarrow> (string \<times> 'ch) list \<Rightarrow> (string \<times> 'ch) list" where
  "channel_register name c reg =
     (case (name, c) of
        (Some n, Some d) \<Rightarrow> if length reg \<ge> MAX_REGISTERED_CHANNELS then reg else reg @ [(n, d)]
      | _ \<Rightarrow> reg)"

fun channel_get_by_name :: "string \<Rightarrow> (string \<times> 'ch) list \<Rightarrow> 'ch option" where
  "channel_get_by_name name [] = None"
| "channel_get_by_name name ((n, c) # reg) = (if n = name then Some c else channel_get_by_name name reg)"

definition channel_outbound_chunk_len :: "string \<Rightarrow> nat \<Rightarrow> nat" where
  "channel_outbound_chunk_len t max_bytes =
     (if max_bytes = 0 then 0
      else if length t \<le> max_bytes then length t
      else let n = back_up t max_bytes in if n > 0 then n else max_bytes)"

record channel_chunk_fail =
  cf_index :: nat
  cf_offset :: nat

definition no_chunk_fail :: channel_chunk_fail where
  "no_chunk_fail = \<lparr>cf_index = 0, cf_offset = 0\<rparr>"

function (sequential) chunk_loop ::
  "nat \<Rightarrow> (string \<Rightarrow> 'c \<Rightarrow> int \<times> 'c) \<Rightarrow> string \<Rightarrow> nat \<Rightarrow> nat \<Rightarrow> 'c \<Rightarrow> int \<times> channel_chunk_fail \<times> 'c" where
  "chunk_loop max_bytes post [] index offset ctx = (0, no_chunk_fail, ctx)"
| "chunk_loop max_bytes post cursor index offset ctx =
     (let n = channel_outbound_chunk_len cursor max_bytes in
      if n = 0 \<or> n > max_bytes then (- 1, \<lparr>cf_index = index, cf_offset = offset\<rparr>, ctx)
      else let (r, ctx') = post (take n cursor) ctx in
        if r \<noteq> 0 then (- 1, \<lparr>cf_index = index, cf_offset = offset\<rparr>, ctx')
        else chunk_loop max_bytes post (drop n cursor) (index + 1) (offset + n) ctx')"
  by pat_completeness auto
termination by (relation "measure (\<lambda>(m, p, cur, i, off, c). length cur)") auto

definition channel_send_chunked ::
  "string option \<Rightarrow> nat \<Rightarrow> (string \<Rightarrow> 'c \<Rightarrow> int \<times> 'c) option \<Rightarrow> 'c \<Rightarrow> int \<times> channel_chunk_fail \<times> 'c" where
  "channel_send_chunked t max_bytes post ctx =
     (case (t, post) of
        (Some s, Some p) \<Rightarrow> if max_bytes = 0 then (- 1, no_chunk_fail, ctx) else chunk_loop max_bytes p s 0 0 ctx
      | _ \<Rightarrow> (- 1, no_chunk_fail, ctx))"

section \<open>The registry\<close>

text \<open>The first registration of a name wins, up to eight channels.\<close>

lemma get_by_name_append:
  "channel_get_by_name name (reg @ reg') =
     (case channel_get_by_name name reg of None \<Rightarrow> channel_get_by_name name reg' | Some c \<Rightarrow> Some c)"
  by (induction reg rule: channel_get_by_name.induct) auto

lemma register_then_get:
  "length reg < MAX_REGISTERED_CHANNELS \<Longrightarrow>
   channel_get_by_name name (channel_register (Some name) (Some c) reg) =
     Some (case channel_get_by_name name reg of None \<Rightarrow> c | Some old \<Rightarrow> old)"
  by (auto simp: channel_register_def get_by_name_append split: option.splits)

lemma register_bounded: "length reg \<le> MAX_REGISTERED_CHANNELS \<Longrightarrow> length (channel_register name c reg) \<le> MAX_REGISTERED_CHANNELS"
  by (auto simp: channel_register_def split: option.splits)

section \<open>Chunks\<close>

lemma chunk_len_bounds:
  assumes "t \<noteq> []" "0 < max_bytes"
  shows "0 < channel_outbound_chunk_len t max_bytes" "channel_outbound_chunk_len t max_bytes \<le> max_bytes"
    "channel_outbound_chunk_len t max_bytes \<le> length t"
  using assms le_trans [OF back_up_le [of t max_bytes], of "length t"] by (auto simp: channel_outbound_chunk_len_def Let_def)

text \<open>With at least four bytes, UTF-8 text is cut between runes.\<close>

lemma chunk_len_utf8:
  assumes "utf8 t" "4 \<le> max_bytes"
  shows "utf8 (take (channel_outbound_chunk_len t max_bytes) t) \<and> utf8 (drop (channel_outbound_chunk_len t max_bytes) t)"
proof (cases "length t \<le> max_bytes")
  case False
  then have pos: "0 < back_up t max_bytes" using utf8_back_up_pos [of t max_bytes] assms by simp
  then have "utf8 (take (back_up t max_bytes) t) \<and> utf8 (drop (back_up t max_bytes) t)"
    using utf8_cut [OF assms(1) back_up_boundary [OF pos]] back_up_le [of t max_bytes] False by simp
  then show ?thesis using False pos assms(2) by (simp add: channel_outbound_chunk_len_def)
qed (use assms in \<open>auto simp: channel_outbound_chunk_len_def\<close>)

text \<open>The pieces of a whole text.\<close>

function (sequential) chunks :: "nat \<Rightarrow> string \<Rightarrow> string list" where
  "chunks m [] = []"
| "chunks m t =
     (let n = channel_outbound_chunk_len t m in if n = 0 then [] else take n t # chunks m (drop n t))"
  by pat_completeness auto
termination by (relation "measure (\<lambda>(m, s). length s)") auto

lemma chunks_step: "t \<noteq> [] \<Longrightarrow> 0 < m \<Longrightarrow>
  chunks m t = take (channel_outbound_chunk_len t m) t # chunks m (drop (channel_outbound_chunk_len t m) t)"
  using chunk_len_bounds [of t m] by (cases t) (auto simp: Let_def)

lemma concat_chunks: "0 < m \<Longrightarrow> concat (chunks m t) = t"
proof (induction t rule: measure_induct_rule [of length])
  case (less t)
  show ?case
  proof (cases "t = []")
    case False
    then show ?thesis
      using less(1) [of "drop (channel_outbound_chunk_len t m) t"] chunk_len_bounds [of t m] less(2)
      by (simp add: chunks_step)
  qed simp
qed

lemma chunks_sizes: "0 < m \<Longrightarrow> list_all (\<lambda>p. p \<noteq> [] \<and> length p \<le> m) (chunks m t)"
proof (induction t rule: measure_induct_rule [of length])
  case (less t)
  show ?case
  proof (cases "t = []")
    case False
    then show ?thesis
      using less(1) [of "drop (channel_outbound_chunk_len t m) t"] chunk_len_bounds [of t m] less(2)
      by (simp add: chunks_step)
  qed simp
qed

lemma chunks_utf8: "4 \<le> m \<Longrightarrow> utf8 t \<Longrightarrow> list_all utf8 (chunks m t)"
proof (induction t rule: measure_induct_rule [of length])
  case (less t)
  show ?case
  proof (cases "t = []")
    case False
    then show ?thesis
      using less(1) [of "drop (channel_outbound_chunk_len t m) t"] chunk_len_bounds [of t m] less(2,3)
        chunk_len_utf8 [OF less(3,2)]
      by (simp add: chunks_step)
  qed simp
qed

section \<open>Sending\<close>

text \<open>Posting pieces in order until one is refused: how many were accepted, and the context then.\<close>

fun post_all :: "(string \<Rightarrow> 'c \<Rightarrow> int \<times> 'c) \<Rightarrow> string list \<Rightarrow> 'c \<Rightarrow> nat \<times> 'c" where
  "post_all post [] ctx = (0, ctx)"
| "post_all post (p # ps) ctx =
     (let (r, ctx') = post p ctx in if r \<noteq> 0 then (0, ctx') else let (k, ctx'') = post_all post ps ctx' in (Suc k, ctx''))"

lemma post_all_le: "fst (post_all post ps ctx) \<le> length ps"
  by (induction ps arbitrary: ctx) (auto simp: Let_def split: prod.splits, metis fst_conv)

lemma chunk_loop_spec:
  assumes "0 < m"
  shows "chunk_loop m post t index offset ctx =
    (let ps = chunks m t; (k, ctx') = post_all post ps ctx in
     if k = length ps then (0, no_chunk_fail, ctx')
     else (- 1, \<lparr>cf_index = index + k, cf_offset = offset + length (concat (take k ps))\<rparr>, ctx'))"
  using assms
proof (induction t arbitrary: index offset ctx rule: measure_induct_rule [of length])
  case (less t)
  show ?case
  proof (cases "t = []")
    case False
    let ?n = "channel_outbound_chunk_len t m"
    note b = chunk_len_bounds [OF False less(2)]
    obtain r c where p: "post (take ?n t) ctx = (r, c)" by force
    have s: "chunk_loop m post t index offset ctx =
        (if r \<noteq> 0 then (- 1, \<lparr>cf_index = index, cf_offset = offset\<rparr>, c) else chunk_loop m post (drop ?n t) (index + 1) (offset + ?n) c)"
      using False b p by (cases t) (auto simp: Let_def)
    show ?thesis
    proof (cases "r = 0")
      case True
      have "length (drop ?n t) < length t" using b False by simp
      then show ?thesis
        using less(1) [of "drop ?n t" "index + 1" "offset + ?n" c] s True p b less(2) chunks_step [OF False less(2)]
        by (auto simp: Let_def split: prod.splits)
    qed (use s p chunks_step [OF False less(2)] in simp)
  qed simp
qed

text \<open>Chunked delivery.  For a non-zero limit the text is cut into non-empty pieces of at most that many bytes whose
  concatenation is the text, and every piece of UTF-8 text is UTF-8 text when the limit is at least four.  The send
  posts the pieces in order; it returns 0 exactly when every piece was accepted, and otherwise stops at the first
  refused one and reports its index and its byte offset in the text.\<close>

theorem chunked_delivery:
  assumes "0 < m"
  shows "concat (chunks m t) = t \<and> list_all (\<lambda>p. p \<noteq> [] \<and> length p \<le> m) (chunks m t) \<and>
    (4 \<le> m \<and> utf8 t \<longrightarrow> list_all utf8 (chunks m t)) \<and>
    channel_send_chunked (Some t) m (Some post) ctx =
      (let ps = chunks m t; (k, ctx') = post_all post ps ctx in
       if k = length ps then (0, no_chunk_fail, ctx')
       else (- 1, \<lparr>cf_index = k, cf_offset = length (concat (take k ps))\<rparr>, ctx'))"
  using assms chunks_sizes [OF assms] chunks_utf8 [of m t] concat_chunks [OF assms]
  by (auto simp: channel_send_chunked_def chunk_loop_spec [OF assms] Let_def split: prod.splits)

definition demo_post :: "string \<Rightarrow> string list \<Rightarrow> int \<times> string list" where
  "demo_post p sent = (if length sent \<ge> 2 then (1, sent) else (0, sent @ [p]))"

theorem chunked_delivery_witness:
  "concat (chunks 4 ''hello, world'') = ''hello, world'' \<and> list_all utf8 (chunks 4 ''hello, world'') \<and>
   channel_send_chunked (Some ''hello, world'') 4 (Some demo_post) [] = (- 1, \<lparr>cf_index = 2, cf_offset = 8\<rparr>, [''hell'', ''o, w''])"
proof -
  have u: "utf8 ''hello, world''" by code_simp
  have e: "(let ps = chunks 4 ''hello, world''; (k, ctx') = post_all demo_post ps [] in
       if k = length ps then (0, no_chunk_fail, ctx')
       else (- 1, \<lparr>cf_index = k, cf_offset = length (concat (take k ps))\<rparr>, ctx')) = (- 1 :: int, \<lparr>cf_index = 2, cf_offset = 8\<rparr>, [''hell'', ''o, w''])"
    by code_simp
  show ?thesis
    using chunked_delivery [of 4 "''hello, world''" demo_post "[]"] u e by simp
qed

end
