(* ===== verification/Ws_Queue.thy ===== *)
theory Ws_Queue
  imports Prelude
begin

text \<open>
  The singly linked message queues of \<open>src/gateway/ws.c\<close>, on an explicit heap.

  A \<open>ws_msg\<close> node lives at an address of the heap; \<open>malloc\<close> takes the next address of a
  counter that never goes back, so a freed node is never reused and a use after \<open>free\<close> reads an
  unmapped address, which makes the operation return \<^const>\<open>None\<close>.  The traversals are
  \<open>partial_function\<close>s, so that a cyclic list would make them return \<^const>\<open>None\<close> too.  The locale
  \<open>conn_queue\<close> states what the queue promises to the WebChat layer; \<open>hq\<close> interprets it on
  the heap model, for every frame of cells that do not belong to the queue.
\<close>

section \<open>Definitions\<close>

record ws_msg =
  wm_conn_id :: int
  wm_text :: string
  wm_next :: "nat option"

type_synonym ws_heap = "nat \<Rightarrow> ws_msg option"

record ws_list =
  wl_head :: "nat option"
  wl_tail :: "nat option"
  wl_count :: int

record ws_mem =
  mem_heap :: ws_heap
  mem_brk :: nat

definition empty_list :: ws_list where
  "empty_list = \<lparr>wl_head = None, wl_tail = None, wl_count = 0\<rparr>"

definition ws_msg_new :: "int \<Rightarrow> string \<Rightarrow> ws_mem \<Rightarrow> nat \<times> ws_mem" where
  "ws_msg_new conn_id txt m =
     (mem_brk m, m\<lparr>mem_heap := (mem_heap m)(mem_brk m \<mapsto> \<lparr>wm_conn_id = conn_id, wm_text = txt, wm_next = None\<rparr>),
                  mem_brk := mem_brk m + 1\<rparr>)"

definition ws_free_outgoing :: "nat \<Rightarrow> ws_heap \<Rightarrow> ws_heap" where
  "ws_free_outgoing a h = h(a := None)"

definition set_next :: "nat \<Rightarrow> nat option \<Rightarrow> ws_heap \<Rightarrow> ws_heap option" where
  "set_next a nx h = (case h a of None \<Rightarrow> None | Some n \<Rightarrow> Some (h(a \<mapsto> n\<lparr>wm_next := nx\<rparr>)))"

definition ws_enqueue_outgoing_locked :: "nat \<Rightarrow> ws_heap \<Rightarrow> ws_list \<Rightarrow> (ws_heap \<times> ws_list) option" where
  "ws_enqueue_outgoing_locked a h q =
     (case wl_tail q of
        None \<Rightarrow> Some (h, q\<lparr>wl_head := Some a, wl_tail := Some a, wl_count := wl_count q + 1\<rparr>)
      | Some t \<Rightarrow>
          (case set_next t (Some a) h of
             None \<Rightarrow> None
           | Some h1 \<Rightarrow> Some (h1, q\<lparr>wl_tail := Some a, wl_count := wl_count q + 1\<rparr>)))"

text \<open>The unlinking of node \<open>p\<close> behind \<open>prev\<close>, the same statements in both traversals.\<close>

definition ws_unlink :: "nat option \<Rightarrow> nat \<Rightarrow> nat option \<Rightarrow> ws_heap \<Rightarrow> ws_list \<Rightarrow> (ws_heap \<times> ws_list) option" where
  "ws_unlink prev p nx h q =
     (case (case prev of
              Some a \<Rightarrow> (case set_next a nx h of None \<Rightarrow> None | Some h1 \<Rightarrow> Some (h1, q))
            | None \<Rightarrow> Some (h, q\<lparr>wl_head := nx\<rparr>)) of
        None \<Rightarrow> None
      | Some (h1, q1) \<Rightarrow>
          Some (h1, (if wl_tail q1 = Some p then q1\<lparr>wl_tail := prev\<rparr> else q1)\<lparr>wl_count := wl_count q1 - 1\<rparr>))"

partial_function (option) ws_drop_loop ::
  "int \<Rightarrow> ws_heap \<Rightarrow> ws_list \<Rightarrow> nat option \<Rightarrow> nat option \<Rightarrow> (ws_heap \<times> ws_list) option" where
  "ws_drop_loop conn_id h q prev p =
     (case p of
        None \<Rightarrow> Some (h, q)
      | Some a \<Rightarrow>
          (case h a of
             None \<Rightarrow> None
           | Some n \<Rightarrow>
               if wm_conn_id n \<noteq> conn_id then ws_drop_loop conn_id h q (Some a) (wm_next n)
               else
                 (case ws_unlink prev a (wm_next n) h q of
                    None \<Rightarrow> None
                  | Some (h1, q1) \<Rightarrow> ws_drop_loop conn_id (ws_free_outgoing a h1) q1 prev (wm_next n))))"

declare ws_drop_loop.simps [code]

definition ws_drop_outgoing_locked :: "int \<Rightarrow> ws_heap \<Rightarrow> ws_list \<Rightarrow> (ws_heap \<times> ws_list) option" where
  "ws_drop_outgoing_locked conn_id h q = ws_drop_loop conn_id h q None (wl_head q)"

text \<open>The search of \<open>ws_dequeue_outgoing\<close>: the text of the first node of the connection, unlinked and freed.\<close>

partial_function (option) ws_dequeue_loop ::
  "int \<Rightarrow> ws_heap \<Rightarrow> ws_list \<Rightarrow> nat option \<Rightarrow> nat option \<Rightarrow> (string option \<times> ws_heap \<times> ws_list) option" where
  "ws_dequeue_loop conn_id h q prev p =
     (case p of
        None \<Rightarrow> Some (None, h, q)
      | Some a \<Rightarrow>
          (case h a of
             None \<Rightarrow> None
           | Some n \<Rightarrow>
               if wm_conn_id n = conn_id then
                 (case ws_unlink prev a (wm_next n) h q of
                    None \<Rightarrow> None
                  | Some (h1, q1) \<Rightarrow> Some (Some (wm_text n), ws_free_outgoing a h1, q1))
               else ws_dequeue_loop conn_id h q (Some a) (wm_next n)))"

declare ws_dequeue_loop.simps [code]

text \<open>The scan of \<open>ws_has_pending_outgoing\<close> and of \<open>ws_on_service_cancel\<close>.\<close>

partial_function (option) ws_scan :: "int \<Rightarrow> ws_heap \<Rightarrow> nat option \<Rightarrow> bool option" where
  "ws_scan conn_id h p =
     (case p of
        None \<Rightarrow> Some False
      | Some a \<Rightarrow>
          (case h a of
             None \<Rightarrow> None
           | Some n \<Rightarrow> if wm_conn_id n = conn_id then Some True else ws_scan conn_id h (wm_next n)))"

declare ws_scan.simps [code]

text \<open>The unlinking of the head in \<open>ws_pop_incoming\<close>; the queue is not empty there.\<close>

definition ws_pop_head :: "ws_heap \<Rightarrow> ws_list \<Rightarrow> ((int \<times> string) \<times> ws_heap \<times> ws_list) option" where
  "ws_pop_head h q =
     (case wl_head q of
        None \<Rightarrow> None
      | Some a \<Rightarrow>
          (case h a of
             None \<Rightarrow> None
           | Some n \<Rightarrow>
               let q1 = q\<lparr>wl_head := wm_next n\<rparr>;
                   q2 = (if wl_head q1 = None then q1\<lparr>wl_tail := None\<rparr> else q1) in
               Some ((wm_conn_id n, wm_text n), ws_free_outgoing a h, q2\<lparr>wl_count := wl_count q2 - 1\<rparr>)))"

text \<open>The freeing loops of \<open>ws_cleanup\<close>.\<close>

partial_function (option) ws_free_all :: "ws_heap \<Rightarrow> nat option \<Rightarrow> ws_heap option" where
  "ws_free_all h p =
     (case p of
        None \<Rightarrow> Some h
      | Some a \<Rightarrow>
          (case h a of
             None \<Rightarrow> None
           | Some n \<Rightarrow> ws_free_all (ws_free_outgoing a h) (wm_next n)))"

declare ws_free_all.simps [code]

text \<open>The heap operations on memory and list together, as the callers compose them.\<close>

definition push_msg :: "int \<Rightarrow> string \<Rightarrow> ws_mem \<times> ws_list \<Rightarrow> (ws_mem \<times> ws_list) option" where
  "push_msg conn_id txt mq =
     (case ws_msg_new conn_id txt (fst mq) of
        (a, m) \<Rightarrow> map_option (\<lambda>(h, q). (m\<lparr>mem_heap := h\<rparr>, q))
                     (ws_enqueue_outgoing_locked a (mem_heap m) (snd mq)))"

definition pull_msg :: "int \<Rightarrow> ws_mem \<times> ws_list \<Rightarrow> (string option \<times> ws_mem \<times> ws_list) option" where
  "pull_msg conn_id mq =
     map_option (\<lambda>(r, h, q). (r, (fst mq)\<lparr>mem_heap := h\<rparr>, q))
       (ws_dequeue_loop conn_id (mem_heap (fst mq)) (snd mq) None (wl_head (snd mq)))"

definition drop_msgs :: "int \<Rightarrow> ws_mem \<times> ws_list \<Rightarrow> (ws_mem \<times> ws_list) option" where
  "drop_msgs conn_id mq =
     map_option (\<lambda>(h, q). ((fst mq)\<lparr>mem_heap := h\<rparr>, q))
       (ws_drop_outgoing_locked conn_id (mem_heap (fst mq)) (snd mq))"

section \<open>What a queue on the heap holds\<close>

text \<open>The nodes \<open>as\<close> are linked from the pointer \<open>p\<close> on, and the last one points to \<open>r\<close>.\<close>

fun seg :: "ws_heap \<Rightarrow> nat option \<Rightarrow> nat list \<Rightarrow> nat option \<Rightarrow> bool" where
  "seg h p [] r \<longleftrightarrow> p = r"
| "seg h p (a # as) r \<longleftrightarrow> p = Some a \<and> (\<exists>n. h a = Some n \<and> seg h (wm_next n) as r)"

definition payload :: "ws_heap \<Rightarrow> nat \<Rightarrow> int \<times> string" where
  "payload h a = (wm_conn_id (the (h a)), wm_text (the (h a)))"

definition last_opt :: "'a list \<Rightarrow> 'a option" where
  "last_opt xs = (if xs = [] then None else Some (last xs))"

definition queue_on :: "ws_heap \<Rightarrow> ws_list \<Rightarrow> nat list \<Rightarrow> bool" where
  "queue_on h q as \<longleftrightarrow> distinct as \<and> seg h (wl_head q) as None \<and> wl_tail q = last_opt as \<and>
     wl_count q = int (length as)"

text \<open>
  \<open>queue_rep F h q xs\<close>: the heap is the disjoint union of the frame \<open>F\<close> and of the nodes of \<open>q\<close>,
  which carry the messages \<open>xs\<close> in order.
\<close>

definition queue_rep :: "ws_heap \<Rightarrow> ws_heap \<Rightarrow> ws_list \<Rightarrow> (int \<times> string) list \<Rightarrow> bool" where
  "queue_rep F h q xs \<longleftrightarrow> (\<exists>as. queue_on h q as \<and> map (payload h) as = xs \<and>
     set as \<inter> dom F = {} \<and> dom h = set as \<union> dom F \<and> (\<forall>a \<in> dom F. h a = F a))"

lemma seg_cong: "\<forall>a \<in> set as. h a = h' a \<Longrightarrow> seg h p as r = seg h' p as r"
  by (induction as arbitrary: p) auto

lemma seg_append: "seg h p (as @ bs) r \<longleftrightarrow> (\<exists>m. seg h p as m \<and> seg h m bs r)"
  by (induction as arbitrary: p) auto

lemma seg_upd_notin: "a \<notin> set as \<Longrightarrow> seg (h(a := x)) p as r = seg h p as r"
  by (rule seg_cong) auto

lemma seg_relink_last:
  assumes "seg h p (as @ [a]) r" "distinct (as @ [a])" "h a = Some n"
  shows "seg (h(a \<mapsto> n\<lparr>wm_next := r'\<rparr>)) p (as @ [a]) r'"
  using assms by (auto simp: seg_append seg_upd_notin)

lemma seg_mapped: "seg h p as r \<Longrightarrow> a \<in> set as \<Longrightarrow> \<exists>n. h a = Some n"
  by (induction as arbitrary: p) auto

lemma payload_upd_next [simp]:
  "h a = Some n \<Longrightarrow> payload (h(a \<mapsto> n\<lparr>wm_next := r\<rparr>)) b = payload h b"
  by (auto simp: payload_def)

lemma payload_upd_other: "a \<noteq> b \<Longrightarrow> payload (h(a := x)) b = payload h b"
  by (simp add: payload_def)

lemma last_opt_simps [simp]: "last_opt [] = None" "last_opt (xs @ [x]) = Some x"
  by (auto simp: last_opt_def)

text \<open>The one lemma about unlinking: node \<open>a\<close>, behind the nodes \<open>as\<close>, leaves the chain.\<close>

lemma unlink_free:
  assumes q: "queue_on h q (as @ a # bs)" and a: "h a = Some n"
  shows "\<exists>h1 q1. ws_unlink (last_opt as) a (wm_next n) h q = Some (h1, q1) \<and>
    queue_on (ws_free_outgoing a h1) q1 (as @ bs) \<and>
    (\<forall>b. b \<notin> insert a (set as) \<longrightarrow> h1 b = h b) \<and>
    (\<forall>b \<in> set (as @ bs). payload (ws_free_outgoing a h1) b = payload h b) \<and>
    dom h1 = dom h"
proof (cases as rule: rev_cases)
  case Nil
  let ?q1 = "(if wl_tail q = Some a then q\<lparr>wl_head := wm_next n, wl_tail := None\<rparr> else q\<lparr>wl_head := wm_next n\<rparr>)
    \<lparr>wl_count := wl_count q - 1\<rparr>"
  have "ws_unlink (last_opt as) a (wm_next n) h q = Some (h, ?q1)"
    using Nil by (simp add: ws_unlink_def)
  moreover have "queue_on (ws_free_outgoing a h) ?q1 (as @ bs)"
    using q a Nil by (auto simp: queue_on_def ws_free_outgoing_def seg_upd_notin last_opt_def split: if_splits)
  moreover have "\<forall>b \<in> set (as @ bs). payload (ws_free_outgoing a h) b = payload h b"
    using q Nil by (auto simp: queue_on_def ws_free_outgoing_def intro: payload_upd_other)
  ultimately show ?thesis by blast
next
  case (snoc cs l)
  have d: "distinct (cs @ l # a # bs)" and t: "wl_tail q = last_opt (a # bs)"
    using q snoc by (auto simp: queue_on_def last_opt_def)
  obtain m where s1: "seg h (wl_head q) (cs @ [l]) m" and s2: "seg h m (a # bs) None"
    using q snoc by (auto simp: queue_on_def seg_append)
  obtain nl where nl: "h l = Some nl" using seg_mapped [OF s1] by auto
  let ?h1 = "h(l \<mapsto> nl\<lparr>wm_next := wm_next n\<rparr>)"
  let ?q1 = "(if wl_tail q = Some a then q\<lparr>wl_tail := Some l\<rparr> else q)\<lparr>wl_count := wl_count q - 1\<rparr>"
  have u: "ws_unlink (last_opt as) a (wm_next n) h q = Some (?h1, ?q1)"
    using snoc nl by (simp add: ws_unlink_def set_next_def)
  have "seg ?h1 (wl_head q) (cs @ [l]) (wm_next n)"
    using seg_relink_last [OF s1 _ nl] d by simp
  moreover have "seg ?h1 (wm_next n) bs None" using s2 a d by (simp add: seg_upd_notin)
  ultimately have "seg ?h1 (wl_head q) (as @ bs) None" unfolding snoc seg_append [of _ _ "cs @ [l]"] by blast
  then have "seg (ws_free_outgoing a ?h1) (wl_head q) (as @ bs) None"
    unfolding ws_free_outgoing_def by (subst seg_upd_notin) (use d snoc in auto)
  moreover have "(if wl_tail q = Some a then Some l else wl_tail q) = last_opt (as @ bs)"
    using t d snoc by (cases bs rule: rev_cases) (auto simp: last_opt_def)
  ultimately have "queue_on (ws_free_outgoing a ?h1) ?q1 (as @ bs)"
    using d snoc q by (auto simp: queue_on_def split: if_splits)
  moreover have "\<forall>b \<in> set (as @ bs). payload (ws_free_outgoing a ?h1) b = payload h b"
    using d snoc nl by (auto simp: ws_free_outgoing_def payload_def)
  moreover have "\<forall>b. b \<notin> insert a (set as) \<longrightarrow> ?h1 b = h b" using snoc by simp
  moreover have "dom ?h1 = dom h" using nl by auto
  ultimately show ?thesis using u by blast
qed

definition first_opt :: "'a list \<Rightarrow> 'a option" where
  "first_opt xs = (case xs of [] \<Rightarrow> None | x # _ \<Rightarrow> Some x)"

lemma seg_first: "seg h p as None \<Longrightarrow> p = first_opt as"
  by (cases as) (auto simp: first_opt_def)

lemma queue_on_head: "queue_on h q as \<Longrightarrow> wl_head q = first_opt as"
  by (auto simp: queue_on_def dest: seg_first)

lemma queue_on_next:
  "queue_on h q (as @ a # bs) \<Longrightarrow> \<exists>n. h a = Some n \<and> wm_next n = first_opt bs"
  by (auto simp: queue_on_def seg_append dest: seg_first)

definition sent_to :: "int \<Rightarrow> ws_heap \<Rightarrow> nat \<Rightarrow> bool" where
  "sent_to c h a \<longleftrightarrow> fst (payload h a) = c"

lemma drop_loop_correct:
  "queue_on h q (as @ bs) \<Longrightarrow>
   \<exists>h' q'. ws_drop_loop c h q (last_opt as) (first_opt bs) = Some (h', q') \<and>
     queue_on h' q' (as @ filter (\<lambda>b. \<not> sent_to c h b) bs) \<and>
     (\<forall>b \<in> set (as @ filter (\<lambda>b. \<not> sent_to c h b) bs). payload h' b = payload h b) \<and>
     (\<forall>b. b \<notin> set (as @ bs) \<longrightarrow> h' b = h b) \<and>
     dom h' = dom h - {b \<in> set bs. sent_to c h b}"
proof (induction bs arbitrary: h q as)
  case Nil
  then show ?case by (simp add: ws_drop_loop.simps first_opt_def)
next
  case (Cons a bs)
  have d: "distinct (as @ a # bs)" using Cons.prems by (simp add: queue_on_def)
  obtain n where n: "h a = Some n" "wm_next n = first_opt bs" using queue_on_next [OF Cons.prems] by auto
  have st: "sent_to c h a \<longleftrightarrow> wm_conn_id n = c" using n by (simp add: sent_to_def payload_def)
  show ?case
  proof (cases "sent_to c h a")
    case False
    have "queue_on h q ((as @ [a]) @ bs)" using Cons.prems by simp
    from Cons.IH [OF this] obtain h' q' where
      "ws_drop_loop c h q (Some a) (first_opt bs) = Some (h', q')"
      "queue_on h' q' ((as @ [a]) @ filter (\<lambda>b. \<not> sent_to c h b) bs)"
      "\<forall>b \<in> set ((as @ [a]) @ filter (\<lambda>b. \<not> sent_to c h b) bs). payload h' b = payload h b"
      "\<forall>b. b \<notin> set ((as @ [a]) @ bs) \<longrightarrow> h' b = h b"
      "dom h' = dom h - {b \<in> set bs. sent_to c h b}" by auto
    moreover from this(1) have "ws_drop_loop c h q (last_opt as) (first_opt (a # bs)) = Some (h', q')"
      using False st n by (subst ws_drop_loop.simps) (simp add: first_opt_def)
    ultimately show ?thesis using False by auto
  next
    case True
    from unlink_free [OF Cons.prems n(1)] obtain h1 q1 where u: "ws_unlink (last_opt as) a (wm_next n) h q = Some (h1, q1)"
      "queue_on (ws_free_outgoing a h1) q1 (as @ bs)" "\<forall>b. b \<notin> insert a (set as) \<longrightarrow> h1 b = h b"
      "\<forall>b \<in> set (as @ bs). payload (ws_free_outgoing a h1) b = payload h b" "dom h1 = dom h"
      by blast
    let ?h = "ws_free_outgoing a h1"
    have keep: "\<And>b. b \<in> set bs \<Longrightarrow> sent_to c ?h b = sent_to c h b" using u(4) by (simp add: sent_to_def)
    then have f: "filter (\<lambda>b. \<not> sent_to c ?h b) bs = filter (\<lambda>b. \<not> sent_to c h b) bs"
      by (intro filter_cong) auto
    have s: "{b \<in> set bs. sent_to c ?h b} = {b \<in> set bs. sent_to c h b}" using keep by blast
    from Cons.IH [OF u(2)] obtain h' q' where l:
      "ws_drop_loop c ?h q1 (last_opt as) (first_opt bs) = Some (h', q')"
      "queue_on h' q' (as @ filter (\<lambda>b. \<not> sent_to c h b) bs)"
      "\<forall>b \<in> set (as @ filter (\<lambda>b. \<not> sent_to c h b) bs). payload h' b = payload ?h b"
      "\<forall>b. b \<notin> set (as @ bs) \<longrightarrow> h' b = ?h b"
      "dom h' = dom ?h - {b \<in> set bs. sent_to c h b}" unfolding f s by blast
    have "ws_drop_loop c h q (last_opt as) (first_opt (a # bs)) = Some (h', q')"
      using True st n u(1) l(1) by (subst ws_drop_loop.simps) (simp add: first_opt_def)
    moreover have "\<forall>b \<in> set (as @ filter (\<lambda>b. \<not> sent_to c h b) bs). payload h' b = payload h b"
      using l(3) u(4) by auto
    moreover have "dom h' = dom h - {b \<in> set (a # bs). sent_to c h b}"
      using l(5) u(5) True by (auto simp: ws_free_outgoing_def split: if_splits)
    ultimately show ?thesis using l(2,4) True u(3) by (auto simp: ws_free_outgoing_def)
  qed
qed

lemma dequeue_loop_correct:
  "queue_on h q (as @ bs) \<Longrightarrow> \<forall>b \<in> set as. \<not> sent_to c h b \<Longrightarrow>
   case filter (sent_to c h) bs of
     [] \<Rightarrow> ws_dequeue_loop c h q (last_opt as) (first_opt bs) = Some (None, h, q)
   | a # _ \<Rightarrow> \<exists>h' q'. ws_dequeue_loop c h q (last_opt as) (first_opt bs) = Some (Some (snd (payload h a)), h', q') \<and>
       queue_on h' q' (remove1 a (as @ bs)) \<and>
       (\<forall>b \<in> set (remove1 a (as @ bs)). payload h' b = payload h b) \<and>
       (\<forall>b. b \<notin> set (as @ bs) \<longrightarrow> h' b = h b) \<and> dom h' = dom h - {a}"
proof (induction bs arbitrary: as)
  case Nil
  then show ?case by (simp add: ws_dequeue_loop.simps first_opt_def)
next
  case (Cons a bs)
  have d: "distinct (as @ a # bs)" using Cons.prems by (simp add: queue_on_def)
  obtain n where n: "h a = Some n" "wm_next n = first_opt bs" using queue_on_next [OF Cons.prems(1)] by auto
  have st: "sent_to c h a \<longleftrightarrow> wm_conn_id n = c" using n by (simp add: sent_to_def payload_def)
  show ?case
  proof (cases "sent_to c h a")
    case False
    have "ws_dequeue_loop c h q (last_opt as) (first_opt (a # bs)) =
        ws_dequeue_loop c h q (last_opt (as @ [a])) (first_opt bs)"
      using False st n by (subst ws_dequeue_loop.simps) (simp add: first_opt_def)
    moreover have "queue_on h q ((as @ [a]) @ bs)" "\<forall>b \<in> set (as @ [a]). \<not> sent_to c h b"
      using Cons.prems False by auto
    note Cons.IH [OF this]
    ultimately show ?thesis using False by (auto split: list.splits)
  next
    case True
    from unlink_free [OF Cons.prems(1) n(1)] obtain h1 q1 where u: "ws_unlink (last_opt as) a (wm_next n) h q = Some (h1, q1)"
      "queue_on (ws_free_outgoing a h1) q1 (as @ bs)" "\<forall>b. b \<notin> insert a (set as) \<longrightarrow> h1 b = h b"
      "\<forall>b \<in> set (as @ bs). payload (ws_free_outgoing a h1) b = payload h b" "dom h1 = dom h"
      by blast
    have r: "remove1 a (as @ a # bs) = as @ bs" using d by (simp add: remove1_append)
    have "ws_dequeue_loop c h q (last_opt as) (first_opt (a # bs)) =
        Some (Some (snd (payload h a)), ws_free_outgoing a h1, q1)"
      using True st n u(1) by (subst ws_dequeue_loop.simps) (simp add: first_opt_def payload_def)
    then show ?thesis using True u r by (auto simp: ws_free_outgoing_def)
  qed
qed

lemma scan_correct: "seg h p as None \<Longrightarrow> ws_scan c h p = Some (\<exists>a \<in> set as. sent_to c h a)"
proof (induction as arbitrary: p)
  case (Cons a as)
  then show ?case
    by (subst ws_scan.simps) (auto simp: sent_to_def payload_def)
qed (simp add: ws_scan.simps)

lemma free_all_correct:
  "seg h p as None \<Longrightarrow> distinct as \<Longrightarrow> ws_free_all h p = Some (\<lambda>a. if a \<in> set as then None else h a)"
proof (induction as arbitrary: p h)
  case (Cons a as)
  then obtain n where n: "p = Some a" "h a = Some n" "seg h (wm_next n) as None" by auto
  then have "seg (ws_free_outgoing a h) (wm_next n) as None"
    using Cons.prems by (simp add: ws_free_outgoing_def seg_upd_notin)
  then have "ws_free_all (ws_free_outgoing a h) (wm_next n) =
      Some (\<lambda>b. if b \<in> set as then None else ws_free_outgoing a h b)"
    using Cons.IH Cons.prems by simp
  then show ?case
    using n by (subst ws_free_all.simps) (auto simp: ws_free_outgoing_def fun_eq_iff)
qed (simp add: ws_free_all.simps)

section \<open>The operations on represented queues\<close>

definition remove_first :: "('a \<Rightarrow> bool) \<Rightarrow> 'a list \<Rightarrow> 'a list" where
  "remove_first P xs = takeWhile (\<lambda>x. \<not> P x) xs @ tl (dropWhile (\<lambda>x. \<not> P x) xs)"

lemma remove_first_simps [simp]:
  "remove_first P [] = []"
  "remove_first P (x # xs) = (if P x then xs else x # remove_first P xs)"
  by (auto simp: remove_first_def)

lemma remove_first_id: "\<forall>x \<in> set xs. \<not> P x \<Longrightarrow> remove_first P xs = xs"
  by (induction xs) auto

lemma remove_first_map:
  "distinct as \<Longrightarrow> filter (\<lambda>a. P (f a)) as = a # rest \<Longrightarrow> map f (remove1 a as) = remove_first P (map f as)"
proof (induction as)
  case (Cons b as)
  show ?case
  proof (cases "P (f b)")
    case False
    then have "a \<in> set as" "P (f a)" using Cons.prems by (auto simp: filter_eq_Cons_iff)
    then show ?thesis using False Cons by auto
  qed (use Cons in auto)
qed simp

lemma queue_rep_enqueue:
  assumes "queue_rep F h q xs" "a \<notin> dom h"
  shows "\<exists>h' q'. ws_enqueue_outgoing_locked a (h(a \<mapsto> \<lparr>wm_conn_id = c, wm_text = txt, wm_next = None\<rparr>)) q = Some (h', q') \<and>
    queue_rep F h' q' (xs @ [(c, txt)]) \<and> dom h' = insert a (dom h)"
proof -
  let ?n = "\<lparr>wm_conn_id = c, wm_text = txt, wm_next = None\<rparr>"
  obtain as where r: "queue_on h q as" "map (payload h) as = xs" "set as \<inter> dom F = {}"
    "dom h = set as \<union> dom F" "\<forall>b \<in> dom F. h b = F b" using assms(1) by (auto simp: queue_rep_def)
  have na: "a \<notin> set as" "a \<notin> dom F" using assms(2) r(4) by auto
  show ?thesis
  proof (cases as rule: rev_cases)
    case Nil
    then have "queue_on (h(a \<mapsto> ?n)) (q\<lparr>wl_head := Some a, wl_tail := Some a, wl_count := wl_count q + 1\<rparr>) [a]"
      using r(1) by (simp add: queue_on_def last_opt_def)
    moreover have "wl_tail q = None" using r(1) Nil by (simp add: queue_on_def)
    moreover have "queue_rep F (h(a \<mapsto> ?n)) (q\<lparr>wl_head := Some a, wl_tail := Some a, wl_count := wl_count q + 1\<rparr>) (xs @ [(c, txt)])"
      unfolding queue_rep_def by (rule exI [of _ "[a]"]) (use calculation r na Nil in \<open>auto simp: payload_def\<close>)
    ultimately show ?thesis by (simp add: ws_enqueue_outgoing_locked_def)
  next
    case (snoc cs l)
    obtain nl where nl: "h l = Some nl" using r(4) snoc by auto
    have la: "l \<noteq> a" using na snoc by auto
    let ?h = "h(a \<mapsto> ?n, l \<mapsto> nl\<lparr>wm_next := Some a\<rparr>)"
    let ?q = "q\<lparr>wl_tail := Some a, wl_count := wl_count q + 1\<rparr>"
    have t: "wl_tail q = Some l" using r(1) snoc by (simp add: queue_on_def)
    have e: "ws_enqueue_outgoing_locked a (h(a \<mapsto> ?n)) q = Some (?h, ?q)"
      using t nl la by (simp add: ws_enqueue_outgoing_locked_def set_next_def)
    have "seg (h(a \<mapsto> ?n)) (wl_head q) (cs @ [l]) None"
      using r(1) snoc na by (simp add: queue_on_def seg_upd_notin del: fun_upd_apply)
    then have "seg ?h (wl_head q) (cs @ [l]) (Some a)"
      using r(1) snoc nl la by (intro seg_relink_last) (auto simp: queue_on_def)
    then have "seg ?h (wl_head q) (as @ [a]) None"
      using la snoc by (auto simp: seg_append)
    then have "queue_on ?h ?q (as @ [a])" using r(1) na by (auto simp: queue_on_def)
    moreover have "map (payload ?h) (as @ [a]) = xs @ [(c, txt)]"
      using r(2) na(1) la nl by (auto simp: payload_def split: if_splits)
    moreover have "dom ?h = set (as @ [a]) \<union> dom F" using r(4) nl snoc by auto
    moreover have "\<forall>b \<in> dom F. ?h b = F b" using r(3,5) na snoc by auto
    moreover have "set (as @ [a]) \<inter> dom F = {}" using r(3) na by auto
    ultimately have "queue_rep F ?h ?q (xs @ [(c, txt)])" unfolding queue_rep_def by blast
    then show ?thesis using e r(4) snoc by auto
  qed
qed

lemma queue_rep_drop:
  assumes "queue_rep F h q xs"
  shows "\<exists>h' q'. ws_drop_outgoing_locked c h q = Some (h', q') \<and>
    queue_rep F h' q' (filter (\<lambda>x. fst x \<noteq> c) xs) \<and> dom h' \<subseteq> dom h"
proof -
  obtain as where r: "queue_on h q as" "map (payload h) as = xs" "set as \<inter> dom F = {}"
    "dom h = set as \<union> dom F" "\<forall>b \<in> dom F. h b = F b" using assms(1) by (auto simp: queue_rep_def)
  let ?as = "filter (\<lambda>b. \<not> sent_to c h b) as"
  from drop_loop_correct [of h q "[]" as c] r(1) obtain h' q' where d:
    "ws_drop_outgoing_locked c h q = Some (h', q')" "queue_on h' q' ?as"
    "\<forall>b \<in> set ?as. payload h' b = payload h b" "\<forall>b. b \<notin> set as \<longrightarrow> h' b = h b"
    "dom h' = dom h - {b \<in> set as. sent_to c h b}"
    by (auto simp: ws_drop_outgoing_locked_def queue_on_head)
  have "map (payload h') ?as = filter (\<lambda>x. fst x \<noteq> c) xs"
    using d(3) r(2) by (auto simp: filter_map o_def sent_to_def cong: map_cong)
  moreover have "dom h' = set ?as \<union> dom F" using d(5) r(3,4) by auto
  moreover have "\<forall>b \<in> dom F. h' b = F b" using d(4) r(3,5) by (metis disjoint_iff)
  moreover have "set ?as \<inter> dom F = {}" using r(3) by auto
  ultimately have "queue_rep F h' q' (filter (\<lambda>x. fst x \<noteq> c) xs)" using d(2) unfolding queue_rep_def by blast
  then show ?thesis using d(1,5) by auto
qed

lemma queue_rep_dequeue:
  assumes "queue_rep F h q xs"
  shows "\<exists>h' q'. ws_dequeue_loop c h q None (wl_head q) = Some (map_option snd (find (\<lambda>x. fst x = c) xs), h', q') \<and>
    queue_rep F h' q' (remove_first (\<lambda>x. fst x = c) xs) \<and> dom h' \<subseteq> dom h"
proof -
  obtain as where r: "queue_on h q as" "map (payload h) as = xs" "set as \<inter> dom F = {}"
    "dom h = set as \<union> dom F" "\<forall>b \<in> dom F. h b = F b" using assms(1) by (auto simp: queue_rep_def)
  have d: "distinct as" using r(1) by (simp add: queue_on_def)
  note l = dequeue_loop_correct [of h q "[]" as c]
  show ?thesis
  proof (cases "filter (sent_to c h) as")
    case Nil
    then have "\<forall>x \<in> set xs. fst x \<noteq> c" unfolding r(2) [symmetric] by (simp add: sent_to_def filter_empty_conv)
    then have "find (\<lambda>x. fst x = c) xs = None" "remove_first (\<lambda>x. fst x = c) xs = xs"
      by (auto simp: find_None_iff remove_first_id)
    then show ?thesis using l Nil r assms by (auto simp: queue_on_head)
  next
    case (Cons a rest)
    obtain h' q' where q': "ws_dequeue_loop c h q None (wl_head q) = Some (Some (snd (payload h a)), h', q')"
      "queue_on h' q' (remove1 a as)" "\<forall>b \<in> set (remove1 a as). payload h' b = payload h b"
      "\<forall>b. b \<notin> set as \<longrightarrow> h' b = h b" "dom h' = dom h - {a}"
      using l Cons r(1) by (auto simp: queue_on_head)
    have a: "a \<in> set as" using Cons by (auto simp: filter_eq_Cons_iff)
    have "map (payload h') (remove1 a as) = remove_first (\<lambda>x. fst x = c) xs"
      using remove_first_map [OF d, of "\<lambda>x. fst x = c" "payload h" a rest] Cons q'(3) r(2)
      by (simp add: sent_to_def [abs_def] cong: map_cong)
    moreover have "dom h' = set (remove1 a as) \<union> dom F" using q'(5) r(3,4) d a by auto
    moreover have "\<forall>b \<in> dom F. h' b = F b" using q'(4) r(3,5) by (metis disjoint_iff)
    moreover have "set (remove1 a as) \<inter> dom F = {}" using r(3) d by auto
    ultimately have "queue_rep F h' q' (remove_first (\<lambda>x. fst x = c) xs)"
      using q'(2) unfolding queue_rep_def by blast
    moreover have "find (\<lambda>x. fst x = c) xs = Some (payload h a)"
    proof -
      have "find (\<lambda>x. fst x = c) xs = map_option (payload h) (find (sent_to c h) as)"
        unfolding r(2) [symmetric] by (induction as) (auto simp: sent_to_def)
      moreover have "find (sent_to c h) as = Some a"
        using Cons by (induction as) (auto split: if_splits)
      ultimately show ?thesis by simp
    qed
    ultimately show ?thesis using q'(1,5) by auto
  qed
qed

lemma queue_rep_scan:
  assumes "queue_rep F h q xs" shows "ws_scan c h (wl_head q) = Some (c \<in> fst ` set xs)"
proof -
  obtain as where r: "seg h (wl_head q) as None" "xs = map (payload h) as"
    using assms by (auto simp: queue_rep_def queue_on_def)
  then show ?thesis using scan_correct [OF r(1), of c] by (auto simp: sent_to_def image_image)
qed

lemma queue_rep_pop:
  assumes "queue_rep F h q (x # xs)"
  shows "\<exists>h' q'. ws_pop_head h q = Some (x, h', q') \<and> queue_rep F h' q' xs \<and> dom h' \<subseteq> dom h"
proof -
  obtain a as where r: "queue_on h q (a # as)" "payload h a = x" "map (payload h) as = xs" "set (a # as) \<inter> dom F = {}"
    "dom h = set (a # as) \<union> dom F" "\<forall>b \<in> dom F. h b = F b" using assms(1) by (auto simp: queue_rep_def)
  obtain n where n: "h a = Some n" "wm_next n = first_opt as" using queue_on_next [of h q "[]"] r(1) by auto
  let ?h = "ws_free_outgoing a h"
  let ?q = "(if wm_next n = None then q\<lparr>wl_head := wm_next n, wl_tail := None\<rparr> else q\<lparr>wl_head := wm_next n\<rparr>)
    \<lparr>wl_count := wl_count q - 1\<rparr>"
  have p: "ws_pop_head h q = Some (x, ?h, ?q)"
    using r(1,2) n by (auto simp: ws_pop_head_def queue_on_head first_opt_def payload_def Let_def)
  have "seg ?h (wm_next n) as None"
    using r(1) n by (auto simp: queue_on_def ws_free_outgoing_def seg_upd_notin)
  then have "queue_on ?h ?q as"
    using r(1) n by (cases as) (auto simp: queue_on_def last_opt_def first_opt_def)
  moreover have "map (payload ?h) as = xs"
    using r(1,3) by (auto simp: ws_free_outgoing_def queue_on_def payload_def)
  moreover have "dom ?h = set as \<union> dom F" "\<forall>b \<in> dom F. ?h b = F b" "set as \<inter> dom F = {}"
    using r(1,4,5,6) by (auto simp: ws_free_outgoing_def queue_on_def)
  ultimately have "queue_rep F ?h ?q xs" unfolding queue_rep_def by blast
  then show ?thesis using p by (auto simp: ws_free_outgoing_def)
qed

lemma queue_rep_free_all:
  assumes "queue_rep F h q xs" shows "ws_free_all h (wl_head q) = Some F"
proof -
  obtain as where r: "queue_on h q as" "set as \<inter> dom F = {}" "dom h = set as \<union> dom F" "\<forall>b \<in> dom F. h b = F b"
    using assms(1) by (auto simp: queue_rep_def)
  have "(\<lambda>a. if a \<in> set as then None else h a) = F"
  proof
    fix a show "(if a \<in> set as then None else h a) = F a"
      using r(2,3,4) by (cases "a \<in> dom F") (auto simp: domIff disjoint_iff)
  qed
  then show ?thesis using free_all_correct [of h "wl_head q" as] r(1) by (simp add: queue_on_def)
qed

lemma queue_rep_empty: "queue_rep F F empty_list []"
  by (auto simp: queue_rep_def queue_on_def empty_list_def)

lemma queue_rep_count: "queue_rep F h q xs \<Longrightarrow> wl_count q = int (length xs) \<and> (wl_head q = None \<longleftrightarrow> xs = [])"
  by (auto simp: queue_rep_def queue_on_def last_opt_def dest!: seg_first split: list.splits simp: first_opt_def)

section \<open>The interface\<close>

text \<open>
  What the WebChat layer relies on: a representation of a list of (connection, text) pairs,
  and operations that always return and act on that list.  Derived here, once for every
  implementation: the view of one connection is first-in first-out and private.
\<close>

definition pending_of :: "int \<Rightarrow> (int \<times> string) list \<Rightarrow> string list" where
  "pending_of c xs = map snd (filter (\<lambda>x. fst x = c) xs)"

locale conn_queue =
  fixes rep :: "'q \<Rightarrow> (int \<times> string) list \<Rightarrow> bool"
    and enq :: "int \<Rightarrow> string \<Rightarrow> 'q \<Rightarrow> 'q option"
    and deq :: "int \<Rightarrow> 'q \<Rightarrow> (string option \<times> 'q) option"
    and drop_conn :: "int \<Rightarrow> 'q \<Rightarrow> 'q option"
  assumes enq_rep: "rep q xs \<Longrightarrow> \<exists>q'. enq c s q = Some q' \<and> rep q' (xs @ [(c, s)])"
    and deq_rep: "rep q xs \<Longrightarrow> \<exists>q'. deq c q = Some (map_option snd (find (\<lambda>x. fst x = c) xs), q') \<and>
      rep q' (remove_first (\<lambda>x. fst x = c) xs)"
    and drop_rep: "rep q xs \<Longrightarrow> \<exists>q'. drop_conn c q = Some q' \<and> rep q' (filter (\<lambda>x. fst x \<noteq> c) xs)"
begin

lemma enq_pending:
  assumes "rep q xs"
  obtains q' ys where "enq c s q = Some q'" "rep q' ys" "pending_of c ys = pending_of c xs @ [s]"
    "d \<noteq> c \<longrightarrow> pending_of d ys = pending_of d xs"
  using enq_rep [OF assms, of c s] by (auto simp: pending_of_def)

lemma deq_pending_aux:
  "map_option snd (find (\<lambda>x. fst x = c) xs) = first_opt (pending_of c xs)"
  "pending_of c (remove_first (\<lambda>x. fst x = c) xs) = tl (pending_of c xs)"
  "d \<noteq> c \<Longrightarrow> pending_of d (remove_first (\<lambda>x. fst x = c) xs) = pending_of d xs"
  by (induction xs) (auto simp: pending_of_def first_opt_def)

lemma deq_pending:
  assumes "rep q xs"
  obtains q' ys where "deq c q = Some (first_opt (pending_of c xs), q')" "rep q' ys"
    "pending_of c ys = tl (pending_of c xs)" "d \<noteq> c \<longrightarrow> pending_of d ys = pending_of d xs"
  using deq_rep [OF assms, of c] by (auto simp: deq_pending_aux)

lemma drop_pending:
  assumes "rep q xs"
  obtains q' ys where "drop_conn c q = Some q'" "rep q' ys" "pending_of c ys = []"
    "d \<noteq> c \<longrightarrow> pending_of d ys = pending_of d xs"
proof -
  obtain q' where q': "drop_conn c q = Some q'" "rep q' (filter (\<lambda>x. fst x \<noteq> c) xs)"
    using drop_rep [OF assms] by blast
  have "pending_of c (filter (\<lambda>x. fst x \<noteq> c) xs) = []" by (simp add: pending_of_def filter_empty_conv)
  moreover have "d \<noteq> c \<longrightarrow> pending_of d (filter (\<lambda>x. fst x \<noteq> c) xs) = pending_of d xs"
    by (induction xs) (auto simp: pending_of_def)
  ultimately show thesis using that q' by blast
qed

text \<open>Fill and drain: what was queued for a connection comes out in order, then nothing.\<close>

fun enq_all :: "(int \<times> string) list \<Rightarrow> 'q \<Rightarrow> 'q option" where
  "enq_all [] q = Some q"
| "enq_all ((c, s) # ms) q = (case enq c s q of None \<Rightarrow> None | Some q' \<Rightarrow> enq_all ms q')"

fun deq_n :: "nat \<Rightarrow> int \<Rightarrow> 'q \<Rightarrow> (string option list \<times> 'q) option" where
  "deq_n 0 c q = Some ([], q)"
| "deq_n (Suc n) c q = (case deq c q of None \<Rightarrow> None | Some (r, q') \<Rightarrow>
     (case deq_n n c q' of None \<Rightarrow> None | Some (rs, q'') \<Rightarrow> Some (r # rs, q'')))"

lemma enq_all_rep: "rep q xs \<Longrightarrow> \<exists>q'. enq_all ms q = Some q' \<and> rep q' (xs @ ms)"
proof (induction ms arbitrary: q xs)
  case (Cons m ms)
  obtain c s where m: "m = (c, s)" by force
  obtain q1 where q1: "enq c s q = Some q1" "rep q1 (xs @ [(c, s)])" using enq_rep [OF Cons.prems] by blast
  show ?case using Cons.IH [OF q1(2)] q1(1) m by auto
qed simp

lemma deq_n_rep:
  "rep q xs \<Longrightarrow> n \<le> length (pending_of c xs) \<Longrightarrow>
   \<exists>q' ys. deq_n n c q = Some (map Some (take n (pending_of c xs)), q') \<and> rep q' ys \<and>
     pending_of c ys = drop n (pending_of c xs)"
proof (induction n arbitrary: q xs)
  case (Suc n)
  obtain q1 ys where q1: "deq c q = Some (first_opt (pending_of c xs), q1)" "rep q1 ys"
    "pending_of c ys = tl (pending_of c xs)" using deq_pending [OF Suc.prems(1), of c] by metis
  have ne: "pending_of c xs \<noteq> []" and n: "n \<le> length (tl (pending_of c xs))" using Suc.prems(2) by auto
  obtain q' zs where "deq_n n c q1 = Some (map Some (take n (tl (pending_of c xs))), q')" "rep q' zs"
    "pending_of c zs = drop n (tl (pending_of c xs))"
    using Suc.IH [OF q1(2)] n unfolding q1(3) by auto
  then show ?case using q1(1) ne by (cases "pending_of c xs") (auto simp: first_opt_def)
qed auto

end

definition mem_rep :: "ws_heap \<Rightarrow> ws_mem \<times> ws_list \<Rightarrow> (int \<times> string) list \<Rightarrow> bool" where
  "mem_rep F mq xs \<longleftrightarrow> queue_rep F (mem_heap (fst mq)) (snd mq) xs \<and> dom (mem_heap (fst mq)) \<subseteq> {..< mem_brk (fst mq)}"

interpretation hq: conn_queue "mem_rep F" push_msg pull_msg drop_msgs
proof
  fix mq :: "ws_mem \<times> ws_list" and xs c s
  assume "mem_rep F mq xs"
  then have r: "queue_rep F (mem_heap (fst mq)) (snd mq) xs" and b: "dom (mem_heap (fst mq)) \<subseteq> {..< mem_brk (fst mq)}"
    by (simp_all add: mem_rep_def)
  have "mem_brk (fst mq) \<notin> dom (mem_heap (fst mq))" using b by auto
  from queue_rep_enqueue [OF r this, of c s] b
  show "\<exists>q'. push_msg c s mq = Some q' \<and> mem_rep F q' (xs @ [(c, s)])"
    by (force simp: push_msg_def ws_msg_new_def mem_rep_def less_Suc_eq)
  from queue_rep_dequeue [OF r, of c] b
  show "\<exists>q'. pull_msg c mq = Some (map_option snd (find (\<lambda>x. fst x = c) xs), q') \<and>
      mem_rep F q' (remove_first (\<lambda>x. fst x = c) xs)"
    by (force simp: pull_msg_def mem_rep_def)
  from queue_rep_drop [OF r, of c] b
  show "\<exists>q'. drop_msgs c mq = Some q' \<and> mem_rep F q' (filter (\<lambda>x. fst x \<noteq> c) xs)"
    by (force simp: drop_msgs_def mem_rep_def)
qed

end
