(* ===== verification/Ws.thy ===== *)
theory Ws
  imports Ws_Queue
begin

text \<open>
  The WebChat queues and connection map: \<open>src/gateway/ws.c\<close>.  Every public function is one
  operation on the state record; \<open>g_mutex\<close> makes it atomic, so the interleavings of the agent
  thread and the libwebsockets thread are the sequences of operations (\<open>ws_run\<close>).  The part of
  the state without the queues (\<open>ws_base\<close>) is shared between the heap model \<open>ws_state\<close> and the
  list specification \<open>ws_abs\<close>.  A wait in \<open>ws_pop_incoming\<close> that ends by timeout returns 0; one
  that ends by a signal is the pop that follows the push.
\<close>

section \<open>Definitions\<close>

definition MAX_CONNECTIONS :: nat where "MAX_CONNECTIONS = 16"
definition MAX_QUEUE :: nat where "MAX_QUEUE = 64"
definition WS_TEXT_MAX :: nat where "WS_TEXT_MAX = 32768"

definition ws_text_len_ok :: "string option \<Rightarrow> bool" where
  "ws_text_len_ok txt = (case txt of None \<Rightarrow> False | Some t \<Rightarrow> 0 < length t \<and> length t \<le> WS_TEXT_MAX)"

text \<open>A null \<open>wsi\<close> is 0.\<close>

record ws_conn_entry =
  ce_wsi :: nat
  ce_conn_id :: int

record ws_base =
  g_conns :: "ws_conn_entry list"
  g_next_conn_id :: int
  g_ws_shutdown :: bool
  g_lws_ctx :: nat
  lws_cancels :: nat

record ws_state = ws_base +
  w_mem :: ws_mem
  w_in :: ws_list
  w_out :: ws_list

definition ws_set_context :: "nat \<Rightarrow> 'a ws_base_scheme \<Rightarrow> 'a ws_base_scheme" where
  "ws_set_context ctx s = s\<lparr>g_lws_ctx := ctx\<rparr>"

definition ws_wake_service :: "'a ws_base_scheme \<Rightarrow> 'a ws_base_scheme" where
  "ws_wake_service s = (if g_lws_ctx s \<noteq> 0 then s\<lparr>lws_cancels := lws_cancels s + 1\<rparr> else s)"

text \<open>The handles passed to \<open>lws_callback_on_writable\<close>, in order.\<close>

fun wake_list :: "ws_heap \<Rightarrow> nat option \<Rightarrow> ws_conn_entry list \<Rightarrow> nat list option" where
  "wake_list h p [] = Some []"
| "wake_list h p (e # es) =
     (if ce_wsi e = 0 then wake_list h p es
      else (case ws_scan (ce_conn_id e) h p of
              None \<Rightarrow> None
            | Some b \<Rightarrow> map_option (\<lambda>ws. if b then ce_wsi e # ws else ws) (wake_list h p es)))"

definition ws_on_service_cancel :: "ws_state \<Rightarrow> nat list option" where
  "ws_on_service_cancel s = wake_list (mem_heap (w_mem s)) (wl_head (w_out s)) (g_conns s)"

definition ws_next_conn_id :: "'a ws_base_scheme \<Rightarrow> int \<times> 'a ws_base_scheme" where
  "ws_next_conn_id s = (wrap32 (g_next_conn_id s + 1), s\<lparr>g_next_conn_id := wrap32 (g_next_conn_id s + 1)\<rparr>)"

definition ws_register_conn :: "int \<Rightarrow> nat \<Rightarrow> 'a ws_base_scheme \<Rightarrow> int \<times> 'a ws_base_scheme" where
  "ws_register_conn conn_id wsi s =
     (case find_index (\<lambda>e. ce_wsi e = 0) (g_conns s) of
        Some i \<Rightarrow> (0, s\<lparr>g_conns := (g_conns s)[i := \<lparr>ce_wsi = wsi, ce_conn_id = conn_id\<rparr>]\<rparr>)
      | None \<Rightarrow> (- 1, s))"

definition is_conn :: "int \<Rightarrow> ws_conn_entry \<Rightarrow> bool" where
  "is_conn conn_id e \<longleftrightarrow> ce_wsi e \<noteq> 0 \<and> ce_conn_id e = conn_id"

definition ws_find_wsi_locked :: "int \<Rightarrow> 'a ws_base_scheme \<Rightarrow> nat" where
  "ws_find_wsi_locked conn_id s = (case find (is_conn conn_id) (g_conns s) of Some e \<Rightarrow> ce_wsi e | None \<Rightarrow> 0)"

definition clear_conn :: "int \<Rightarrow> 'a ws_base_scheme \<Rightarrow> 'a ws_base_scheme" where
  "clear_conn conn_id s =
     (case find_index (is_conn conn_id) (g_conns s) of
        Some i \<Rightarrow> s\<lparr>g_conns := (g_conns s)[i := \<lparr>ce_wsi = 0, ce_conn_id = 0\<rparr>]\<rparr>
      | None \<Rightarrow> s)"

definition ws_unregister_conn :: "int \<Rightarrow> ws_state \<Rightarrow> ws_state option" where
  "ws_unregister_conn conn_id s =
     map_option (\<lambda>(m, q). (clear_conn conn_id s)\<lparr>w_mem := m, w_out := q\<rparr>) (drop_msgs conn_id (w_mem s, w_out s))"

text \<open>A message that finds the queue full is allocated and freed again; only the address is used up.\<close>

definition alloc_free :: "ws_mem \<Rightarrow> ws_mem" where
  "alloc_free m = m\<lparr>mem_brk := mem_brk m + 1\<rparr>"

definition ws_push_incoming :: "int \<Rightarrow> string option \<Rightarrow> ws_state \<Rightarrow> ws_state option" where
  "ws_push_incoming conn_id txt s =
     (if \<not> ws_text_len_ok txt then Some s
      else if wl_count (w_in s) \<ge> int MAX_QUEUE then Some (s\<lparr>w_mem := alloc_free (w_mem s)\<rparr>)
      else map_option (\<lambda>(m, q). s\<lparr>w_mem := m, w_in := q\<rparr>) (push_msg conn_id (the txt) (w_mem s, w_in s)))"

definition parse_conn_id :: "string option \<Rightarrow> int" where
  "parse_conn_id session_id =
     (case session_id of
        None \<Rightarrow> - 1
      | Some sid \<Rightarrow> if take 8 sid \<noteq> ''webchat:'' then - 1 else atoi (drop 8 sid))"

definition webchat_session :: "int \<Rightarrow> string" where
  "webchat_session conn_id = ''webchat:'' @ int_str conn_id"

text \<open>Result: \<open>-1\<close> for missing buffers, \<open>0\<close> for a timeout or shutdown, \<open>1\<close> with both buffers.\<close>

definition ws_pop_incoming :: "nat \<Rightarrow> nat \<Rightarrow> ws_state \<Rightarrow> ((int \<times> string \<times> string) \<times> ws_state) option" where
  "ws_pop_incoming session_size text_size s =
     (if session_size = 0 \<or> text_size = 0 then Some ((- 1, [], []), s)
      else if wl_head (w_in s) = None \<or> g_ws_shutdown s then Some ((0, [], []), s)
      else map_option (\<lambda>((c, t), h, q).
             ((1, buf_trunc session_size (webchat_session c), buf_trunc text_size t),
              s\<lparr>w_mem := (w_mem s)\<lparr>mem_heap := h\<rparr>, w_in := q\<rparr>))
           (ws_pop_head (mem_heap (w_mem s)) (w_in s)))"

text \<open>
  The bytes \<open>memcpy(buf, m->text, len + 1)\<close> writes and \<open>*len_out\<close>: a text that fits comes with its
  terminator, a longer one fills the buffer without one.
\<close>

definition out_bytes :: "nat \<Rightarrow> string \<Rightarrow> string \<times> nat" where
  "out_bytes buf_size t =
     (let len = (if length t \<ge> buf_size then buf_size - 1 else length t) in (take (len + 1) (t @ [nul]), len))"

definition ws_dequeue_outgoing :: "int \<Rightarrow> nat \<Rightarrow> ws_state \<Rightarrow> ((string \<times> nat) option \<times> ws_state) option" where
  "ws_dequeue_outgoing conn_id buf_size s =
     (if buf_size = 0 then Some (None, s)
      else map_option (\<lambda>(r, m, q). (map_option (out_bytes buf_size) r, s\<lparr>w_mem := m, w_out := q\<rparr>))
             (pull_msg conn_id (w_mem s, w_out s)))"

definition ws_has_pending_outgoing :: "int \<Rightarrow> ws_state \<Rightarrow> bool option" where
  "ws_has_pending_outgoing conn_id s = ws_scan conn_id (mem_heap (w_mem s)) (wl_head (w_out s))"

definition ws_send_to :: "string option \<Rightarrow> string option \<Rightarrow> ws_state \<Rightarrow> (int \<times> ws_state) option" where
  "ws_send_to session_id txt s =
     (if session_id = None \<or> \<not> ws_text_len_ok txt then Some (- 1, s)
      else let conn_id = parse_conn_id session_id in
        if conn_id < 0 then Some (- 1, s)
        else if ws_find_wsi_locked conn_id s = 0 then Some (0, s\<lparr>w_mem := alloc_free (w_mem s)\<rparr>)
        else if wl_count (w_out s) \<ge> int MAX_QUEUE then Some (- 1, s\<lparr>w_mem := alloc_free (w_mem s)\<rparr>)
        else map_option (\<lambda>(m, q). (0, ws_wake_service (s\<lparr>w_mem := m, w_out := q\<rparr>)))
               (push_msg conn_id (the txt) (w_mem s, w_out s)))"

text \<open>The loop of \<open>ws_broadcast_text\<close> over the connection table.\<close>

fun broadcast_loop :: "string \<Rightarrow> ws_conn_entry list \<Rightarrow> bool \<Rightarrow> ws_mem \<times> ws_list \<Rightarrow> (bool \<times> ws_mem \<times> ws_list) option" where
  "broadcast_loop t [] queued mq = Some (queued, mq)"
| "broadcast_loop t (e # es) queued mq =
     (if ce_wsi e = 0 then broadcast_loop t es queued mq
      else if wl_count (snd mq) \<ge> int MAX_QUEUE then Some (queued, mq)
      else (case push_msg (ce_conn_id e) t mq of
              None \<Rightarrow> None
            | Some mq' \<Rightarrow> broadcast_loop t es True mq'))"

definition ws_broadcast_text :: "string option \<Rightarrow> ws_state \<Rightarrow> ws_state option" where
  "ws_broadcast_text txt s =
     (if \<not> ws_text_len_ok txt then Some s
      else map_option (\<lambda>(queued, m, q). let s1 = s\<lparr>w_mem := m, w_out := q\<rparr> in
             if queued then ws_wake_service s1 else s1)
           (broadcast_loop (the txt) (g_conns s) False (w_mem s, w_out s)))"

definition ws_shutdown_signal :: "'a ws_base_scheme \<Rightarrow> 'a ws_base_scheme" where
  "ws_shutdown_signal s = s\<lparr>g_ws_shutdown := True\<rparr>"

definition free_conn :: ws_conn_entry where
  "free_conn = \<lparr>ce_wsi = 0, ce_conn_id = 0\<rparr>"

definition clear_conns :: "'a ws_base_scheme \<Rightarrow> 'a ws_base_scheme" where
  "clear_conns s = s\<lparr>g_conns := replicate MAX_CONNECTIONS free_conn\<rparr>"

definition ws_cleanup :: "ws_state \<Rightarrow> ws_state option" where
  "ws_cleanup s =
     (case ws_free_all (mem_heap (w_mem s)) (wl_head (w_in s)) of
        None \<Rightarrow> None
      | Some h \<Rightarrow>
          (case ws_free_all h (wl_head (w_out s)) of
             None \<Rightarrow> None
           | Some h' \<Rightarrow> Some ((clear_conns s)\<lparr>w_mem := (w_mem s)\<lparr>mem_heap := h'\<rparr>, w_in := empty_list, w_out := empty_list\<rparr>)))"

text \<open>The static initialisers.\<close>

definition ws_init :: ws_state where
  "ws_init = \<lparr>g_conns = replicate MAX_CONNECTIONS free_conn, g_next_conn_id = 0, g_ws_shutdown = False,
     g_lws_ctx = 0, lws_cancels = 0,
     w_mem = \<lparr>mem_heap = (\<lambda>_. None), mem_brk = 0\<rparr>, w_in = empty_list, w_out = empty_list\<rparr>"

section \<open>Sequences of operations\<close>

datatype ws_op =
    Set_Context nat | Service_Cancel | Next_Conn_Id | Register int nat | Unregister int
  | Push_Incoming int "string option" | Pop_Incoming nat nat | Dequeue int nat | Has_Pending int
  | Send_To "string option" "string option" | Broadcast "string option" | Shutdown | Cleanup

datatype ws_result =
    Done | Code int | Woken "nat list" | Popped "int \<times> string \<times> string" | Bytes "(string \<times> nat) option" | Answer bool

fun ws_exec :: "ws_op \<Rightarrow> ws_state \<Rightarrow> (ws_result \<times> ws_state) option" where
  "ws_exec (Set_Context c) s = Some (Done, ws_set_context c s)"
| "ws_exec Service_Cancel s = map_option (\<lambda>ws. (Woken ws, s)) (ws_on_service_cancel s)"
| "ws_exec Next_Conn_Id s = Some (map_prod Code id (ws_next_conn_id s))"
| "ws_exec (Register c w) s = Some (map_prod Code id (ws_register_conn c w s))"
| "ws_exec (Unregister c) s = map_option (\<lambda>s. (Done, s)) (ws_unregister_conn c s)"
| "ws_exec (Push_Incoming c t) s = map_option (\<lambda>s. (Done, s)) (ws_push_incoming c t s)"
| "ws_exec (Pop_Incoming a b) s = map_option (map_prod Popped id) (ws_pop_incoming a b s)"
| "ws_exec (Dequeue c n) s = map_option (map_prod Bytes id) (ws_dequeue_outgoing c n s)"
| "ws_exec (Has_Pending c) s = map_option (\<lambda>b. (Answer b, s)) (ws_has_pending_outgoing c s)"
| "ws_exec (Send_To i t) s = map_option (map_prod Code id) (ws_send_to i t s)"
| "ws_exec (Broadcast t) s = map_option (\<lambda>s. (Done, s)) (ws_broadcast_text t s)"
| "ws_exec Shutdown s = Some (Done, ws_shutdown_signal s)"
| "ws_exec Cleanup s = map_option (\<lambda>s. (Done, s)) (ws_cleanup s)"

fun ws_run :: "ws_op list \<Rightarrow> ws_state \<Rightarrow> (ws_result list \<times> ws_state) option" where
  "ws_run [] s = Some ([], s)"
| "ws_run (x # xs) s =
     (case ws_exec x s of
        None \<Rightarrow> None
      | Some (r, s1) \<Rightarrow> map_option (\<lambda>(rs, s2). (r # rs, s2)) (ws_run xs s1))"

section \<open>Specification on lists\<close>

record ws_abs = ws_base +
  a_in :: "(int \<times> string) list"
  a_out :: "(int \<times> string) list"

definition abs_init :: ws_abs where
  "abs_init = \<lparr>g_conns = replicate MAX_CONNECTIONS free_conn, g_next_conn_id = 0, g_ws_shutdown = False,
     g_lws_ctx = 0, lws_cancels = 0, a_in = [], a_out = []\<rparr>"

definition live_ids :: "'a ws_base_scheme \<Rightarrow> int list" where
  "live_ids s = map ce_conn_id (filter (\<lambda>e. ce_wsi e \<noteq> 0) (g_conns s))"

definition broadcast_ids :: "ws_abs \<Rightarrow> int list" where
  "broadcast_ids a = take (MAX_QUEUE - length (a_out a)) (live_ids a)"

text \<open>What a \<open>Send_To\<close> puts on the queue: nothing unless the target is live and there is room.\<close>

definition sends :: "string option \<Rightarrow> string option \<Rightarrow> ws_abs \<Rightarrow> bool" where
  "sends i t a \<longleftrightarrow> i \<noteq> None \<and> ws_text_len_ok t \<and> 0 \<le> parse_conn_id i \<and> parse_conn_id i \<in> set (live_ids a) \<and>
     length (a_out a) < MAX_QUEUE"

definition send_code :: "string option \<Rightarrow> string option \<Rightarrow> ws_abs \<Rightarrow> int" where
  "send_code i t a = (if i = None \<or> \<not> ws_text_len_ok t \<or> parse_conn_id i < 0 \<or>
     (parse_conn_id i \<in> set (live_ids a) \<and> length (a_out a) \<ge> MAX_QUEUE) then - 1 else 0)"

fun abs_exec :: "ws_op \<Rightarrow> ws_abs \<Rightarrow> ws_result \<times> ws_abs" where
  "abs_exec (Set_Context c) a = (Done, ws_set_context c a)"
| "abs_exec Service_Cancel a =
     (Woken (map ce_wsi (filter (\<lambda>e. ce_wsi e \<noteq> 0 \<and> ce_conn_id e \<in> fst ` set (a_out a)) (g_conns a))), a)"
| "abs_exec Next_Conn_Id a = map_prod Code id (ws_next_conn_id a)"
| "abs_exec (Register c w) a = map_prod Code id (ws_register_conn c w a)"
| "abs_exec (Unregister c) a = (Done, (clear_conn c a)\<lparr>a_out := filter (\<lambda>x. fst x \<noteq> c) (a_out a)\<rparr>)"
| "abs_exec (Push_Incoming c t) a =
     (Done, if ws_text_len_ok t \<and> length (a_in a) < MAX_QUEUE then a\<lparr>a_in := a_in a @ [(c, the t)]\<rparr> else a)"
| "abs_exec (Pop_Incoming m n) a =
     (if m = 0 \<or> n = 0 then (Popped (- 1, [], []), a)
      else if g_ws_shutdown a then (Popped (0, [], []), a)
      else (case a_in a of
              [] \<Rightarrow> (Popped (0, [], []), a)
            | (c, t) # xs \<Rightarrow> (Popped (1, buf_trunc m (webchat_session c), buf_trunc n t), a\<lparr>a_in := xs\<rparr>)))"
| "abs_exec (Dequeue c n) a =
     (if n = 0 then (Bytes None, a)
      else (Bytes (map_option (out_bytes n \<circ> snd) (find (\<lambda>x. fst x = c) (a_out a))),
            a\<lparr>a_out := remove_first (\<lambda>x. fst x = c) (a_out a)\<rparr>))"
| "abs_exec (Has_Pending c) a = (Answer (c \<in> fst ` set (a_out a)), a)"
| "abs_exec (Send_To i t) a =
     (Code (send_code i t a),
      if sends i t a then ws_wake_service (a\<lparr>a_out := a_out a @ [(parse_conn_id i, the t)]\<rparr>) else a)"
| "abs_exec (Broadcast t) a =
     (Done, if \<not> ws_text_len_ok t \<or> broadcast_ids a = [] then a
      else ws_wake_service (a\<lparr>a_out := a_out a @ map (\<lambda>c. (c, the t)) (broadcast_ids a)\<rparr>))"
| "abs_exec Shutdown a = (Done, ws_shutdown_signal a)"
| "abs_exec Cleanup a = (Done, (clear_conns a)\<lparr>a_in := [], a_out := []\<rparr>)"

fun abs_run :: "ws_op list \<Rightarrow> ws_abs \<Rightarrow> ws_result list \<times> ws_abs" where
  "abs_run [] a = ([], a)"
| "abs_run (x # xs) a = (let (r, a1) = abs_exec x a; (rs, a2) = abs_run xs a1 in (r # rs, a2))"

section \<open>Two queues on one heap\<close>

definition two_queues :: "ws_mem \<Rightarrow> ws_list \<Rightarrow> (int \<times> string) list \<Rightarrow> ws_list \<Rightarrow> (int \<times> string) list \<Rightarrow> bool" where
  "two_queues m qi xs qo ys \<longleftrightarrow> (\<exists>hi ho. mem_rep ho (m, qi) xs \<and> mem_rep hi (m, qo) ys \<and>
     dom hi \<inter> dom ho = {} \<and> dom (mem_heap m) = dom hi \<union> dom ho)"

definition ws_rel :: "ws_state \<Rightarrow> ws_abs \<Rightarrow> bool" where
  "ws_rel s a \<longleftrightarrow> ws_base.truncate s = ws_base.truncate a \<and> two_queues (w_mem s) (w_in s) (a_in a) (w_out s) (a_out a)"

lemma disjoint_complement_eq: "A \<inter> C = {} \<Longrightarrow> C \<inter> B = {} \<Longrightarrow> H = A \<union> C \<Longrightarrow> H = C \<union> B \<Longrightarrow> A = B"
  by blast

lemma two_queues_sym: "two_queues m qi xs qo ys \<Longrightarrow> two_queues m qo ys qi xs"
  unfolding two_queues_def by blast

text \<open>Any change of the first queue inside its own cells leaves the second queue as it was.\<close>

lemma two_queues_frame:
  assumes "two_queues m qi xs qo ys"
  shows "\<exists>F. mem_rep F (m, qi) xs \<and> (\<forall>m' qi' xs'. mem_rep F (m', qi') xs' \<longrightarrow> two_queues m' qi' xs' qo ys)"
proof -
  obtain hi ho where r: "mem_rep ho (m, qi) xs" "mem_rep hi (m, qo) ys" "dom hi \<inter> dom ho = {}"
    "dom (mem_heap m) = dom hi \<union> dom ho" using assms unfolding two_queues_def by blast
  obtain as where as: "queue_on (mem_heap m) qo as" "map (payload (mem_heap m)) as = ys"
    "set as \<inter> dom hi = {}" "dom (mem_heap m) = set as \<union> dom hi"
    using r(2) by (auto simp: mem_rep_def queue_rep_def)
  have own: "set as = dom ho" using disjoint_complement_eq [OF as(3) r(3) as(4) r(4)] .
  have ho: "\<forall>a \<in> dom ho. mem_heap m a = ho a" using r(1) by (auto simp: mem_rep_def queue_rep_def)
  have "two_queues m' qi' xs' qo ys" if m': "mem_rep ho (m', qi') xs'" for m' qi' xs'
  proof -
    let ?h = "mem_heap m'"
    have agree: "\<forall>a \<in> set as. ?h a = mem_heap m a"
      using m' ho own by (auto simp: mem_rep_def queue_rep_def)
    have q: "queue_on ?h qo as"
      using as(1) seg_cong [OF agree] by (simp add: queue_on_def)
    have p: "map (payload ?h) as = ys"
      unfolding as(2) [symmetric] by (rule map_cong [OF refl]) (simp add: payload_def agree)
    have sub: "dom ho \<subseteq> dom ?h" using m' by (auto simp: mem_rep_def queue_rep_def)
    let ?F = "?h |` (- dom ho)"
    have dF: "dom ?F = dom ?h - dom ho" by (simp add: dom_restrict Diff_eq)
    have "\<forall>a \<in> dom ?F. ?h a = ?F a" unfolding dF by simp
    moreover have "set as \<inter> dom ?F = {}" "dom ?h = set as \<union> dom ?F" unfolding dF own using sub by blast+
    ultimately have "queue_rep ?F ?h qo ys" using q p unfolding queue_rep_def by blast
    moreover have "dom ?h \<subseteq> {..< mem_brk m'}" using m' by (simp add: mem_rep_def)
    ultimately have "mem_rep ?F (m', qo) ys" by (simp add: mem_rep_def)
    moreover have "dom ?F \<inter> dom ho = {}" "dom ?h = dom ?F \<union> dom ho" unfolding dF using sub by blast+
    ultimately show ?thesis using m' unfolding two_queues_def by blast
  qed
  then show ?thesis using r(1) by blast
qed

lemma two_queues_alloc_free: "two_queues m qi xs qo ys \<Longrightarrow> two_queues (alloc_free m) qi xs qo ys"
proof -
  have "mem_rep F (m, q) zs \<Longrightarrow> mem_rep F (alloc_free m, q) zs" for F q zs
    by (auto simp: mem_rep_def alloc_free_def less_Suc_eq)
  moreover have "mem_heap (alloc_free m) = mem_heap m" by (simp add: alloc_free_def)
  ultimately show "two_queues m qi xs qo ys \<Longrightarrow> two_queues (alloc_free m) qi xs qo ys"
    unfolding two_queues_def by metis
qed

lemma two_queues_count:
  assumes "two_queues m qi xs qo ys"
  shows "wl_count qi = int (length xs)" "wl_head qi = None \<longleftrightarrow> xs = []"
    "wl_count qo = int (length ys)" "wl_head qo = None \<longleftrightarrow> ys = []"
  using assms queue_rep_count by (auto simp: two_queues_def mem_rep_def)

lemma two_queues_card:
  assumes "two_queues m qi xs qo ys"
  shows "card (dom (mem_heap m)) = length xs + length ys"
proof -
  obtain hi ho where r: "mem_rep ho (m, qi) xs" "mem_rep hi (m, qo) ys" "dom hi \<inter> dom ho = {}"
    "dom (mem_heap m) = dom hi \<union> dom ho" using assms unfolding two_queues_def by blast
  obtain as where as: "distinct as" "length as = length xs" "set as \<inter> dom ho = {}" "dom (mem_heap m) = set as \<union> dom ho"
    using r(1) by (auto simp: mem_rep_def queue_rep_def queue_on_def)
  obtain bs where bs: "distinct bs" "length bs = length ys" "set bs \<inter> dom hi = {}" "dom (mem_heap m) = set bs \<union> dom hi"
    using r(2) by (auto simp: mem_rep_def queue_rep_def queue_on_def)
  have "set bs = dom ho" using disjoint_complement_eq [OF bs(3) r(3) bs(4) r(4)] .
  then have "dom (mem_heap m) = set (as @ bs)" "distinct (as @ bs)" using as bs by simp_all
  then have "card (dom (mem_heap m)) = length (as @ bs)" by (simp only: distinct_card)
  then show ?thesis using as(2) bs(2) by simp
qed

lemma two_queues_push:
  assumes "two_queues m qi xs qo ys"
  shows "\<exists>m' qi'. push_msg c t (m, qi) = Some (m', qi') \<and> two_queues m' qi' (xs @ [(c, t)]) qo ys"
  using two_queues_frame [OF assms] hq.enq_rep by (metis surj_pair)

lemma two_queues_pull:
  assumes "two_queues m qi xs qo ys"
  shows "\<exists>m' qi'. pull_msg c (m, qi) = Some (map_option snd (find (\<lambda>x. fst x = c) xs), m', qi') \<and>
    two_queues m' qi' (remove_first (\<lambda>x. fst x = c) xs) qo ys"
  using two_queues_frame [OF assms] hq.deq_rep by (metis surj_pair)

lemma two_queues_drop:
  assumes "two_queues m qi xs qo ys"
  shows "\<exists>m' qi'. drop_msgs c (m, qi) = Some (m', qi') \<and> two_queues m' qi' (filter (\<lambda>x. fst x \<noteq> c) xs) qo ys"
  using two_queues_frame [OF assms] hq.drop_rep by (metis surj_pair)

lemma two_queues_pop:
  assumes "two_queues m qi (x # xs) qo ys"
  shows "\<exists>h qi'. ws_pop_head (mem_heap m) qi = Some (x, h, qi') \<and> two_queues (m\<lparr>mem_heap := h\<rparr>) qi' xs qo ys"
proof -
  obtain F where F: "mem_rep F (m, qi) (x # xs)"
    "\<forall>m' qi' xs'. mem_rep F (m', qi') xs' \<longrightarrow> two_queues m' qi' xs' qo ys"
    using two_queues_frame [OF assms] by blast
  then have q: "queue_rep F (mem_heap m) qi (x # xs)" and d: "dom (mem_heap m) \<subseteq> {..< mem_brk m}"
    by (simp_all add: mem_rep_def)
  from queue_rep_pop [OF q] obtain h qi' where "ws_pop_head (mem_heap m) qi = Some (x, h, qi')"
    "queue_rep F h qi' xs" "dom h \<subseteq> dom (mem_heap m)" by blast
  moreover from this d have "mem_rep F (m\<lparr>mem_heap := h\<rparr>, qi') xs" by (auto simp: mem_rep_def)
  ultimately show ?thesis using F(2) by blast
qed

lemma two_queues_scan:
  "two_queues m qi xs qo ys \<Longrightarrow> ws_scan c (mem_heap m) (wl_head qo) = Some (c \<in> fst ` set ys)"
  using queue_rep_scan by (fastforce simp: two_queues_def mem_rep_def)

lemma two_queues_empty:
  "two_queues \<lparr>mem_heap = (\<lambda>_. None), mem_brk = n\<rparr> empty_list [] empty_list []"
  using queue_rep_empty [of "\<lambda>_. None"] by (auto simp: two_queues_def mem_rep_def intro!: exI [of _ "\<lambda>_. None"])

lemma two_queues_cleanup:
  assumes "two_queues m qi xs qo ys"
  shows "\<exists>h. ws_free_all (mem_heap m) (wl_head qi) = Some h \<and> ws_free_all h (wl_head qo) = Some (\<lambda>_. None)"
proof -
  obtain F where F: "mem_rep F (m, qi) xs"
    "\<forall>m' qi' xs'. mem_rep F (m', qi') xs' \<longrightarrow> two_queues m' qi' xs' qo ys"
    using two_queues_frame [OF assms] by blast
  then have q: "queue_rep F (mem_heap m) qi xs" and d: "dom (mem_heap m) \<subseteq> {..< mem_brk m}"
    by (simp_all add: mem_rep_def)
  have "dom F \<subseteq> dom (mem_heap m)" using q by (auto simp: queue_rep_def)
  then have "mem_rep F (m\<lparr>mem_heap := F\<rparr>, empty_list) []"
    using d queue_rep_empty [of F] by (auto simp: mem_rep_def)
  then have "two_queues (m\<lparr>mem_heap := F\<rparr>) empty_list [] qo ys" using F(2) by blast
  then obtain hi ho where h: "mem_rep ho (m\<lparr>mem_heap := F\<rparr>, empty_list) []" "mem_rep hi (m\<lparr>mem_heap := F\<rparr>, qo) ys"
    "dom hi \<inter> dom ho = {}" "dom F = dom hi \<union> dom ho" by (auto simp: two_queues_def)
  have "dom F = dom ho"
    using h(1) by (auto simp: mem_rep_def queue_rep_def queue_on_def empty_list_def last_opt_def split: if_splits)
  then have "hi = (\<lambda>_. None)" using h(3,4) by (auto simp: fun_eq_iff domIff)
  then have "ws_free_all F (wl_head qo) = Some (\<lambda>_. None)"
    using h(2) queue_rep_free_all by (auto simp: mem_rep_def)
  then show ?thesis using queue_rep_free_all [OF q] by blast
qed

section \<open>Refinement\<close>

lemma base_eq:
  assumes "ws_base.truncate s = ws_base.truncate a"
  shows "g_conns s = g_conns a" "g_next_conn_id s = g_next_conn_id a" "g_ws_shutdown s = g_ws_shutdown a"
    "g_lws_ctx s = g_lws_ctx a" "lws_cancels s = lws_cancels a"
  using assms by (simp_all add: ws_base.truncate_def)

lemma find_wsi_live: "ws_find_wsi_locked c s = 0 \<longleftrightarrow> c \<notin> set (live_ids s)"
  unfolding ws_find_wsi_locked_def live_ids_def
  by (auto simp: is_conn_def find_None_iff find_Some_iff split: option.splits)

lemma wake_list_correct:
  assumes "\<And>c. ws_scan c h p = Some (c \<in> C)"
  shows "wake_list h p es = Some (map ce_wsi (filter (\<lambda>e. ce_wsi e \<noteq> 0 \<and> ce_conn_id e \<in> C) es))"
  by (induction es) (auto simp: assms)

lemma broadcast_loop_correct:
  assumes "two_queues m qo ys qi xs"
  shows "\<exists>m' qo'. broadcast_loop t es b (m, qo) =
      Some (b \<or> take (MAX_QUEUE - length ys) (filter (\<lambda>e. ce_wsi e \<noteq> 0) es) \<noteq> [], m', qo') \<and>
    two_queues m' qo' (ys @ map (\<lambda>e. (ce_conn_id e, t)) (take (MAX_QUEUE - length ys) (filter (\<lambda>e. ce_wsi e \<noteq> 0) es))) qi xs"
  using assms
proof (induction es arbitrary: b m qo ys)
  case (Cons e es)
  have count: "wl_count qo = int (length ys)" using two_queues_count(1) [OF Cons.prems] .
  show ?case
  proof (cases "ce_wsi e = 0 \<or> MAX_QUEUE \<le> length ys")
    case True
    then show ?thesis using Cons.IH [OF Cons.prems, of b] Cons.prems count by auto
  next
    case False
    obtain m1 q1 where p: "push_msg (ce_conn_id e) t (m, qo) = Some (m1, q1)"
      "two_queues m1 q1 (ys @ [(ce_conn_id e, t)]) qi xs" using two_queues_push [OF Cons.prems] by blast
    have "MAX_QUEUE - length ys = Suc (MAX_QUEUE - Suc (length ys))" using False by linarith
    then show ?thesis using Cons.IH [OF p(2), of True] p(1) False count by auto
  qed
qed auto

definition step_ok :: "(ws_result \<times> ws_state) option \<Rightarrow> ws_result \<times> ws_abs \<Rightarrow> bool" where
  "step_ok c x \<longleftrightarrow> (\<exists>r s a. c = Some (r, s) \<and> x = (r, a) \<and> ws_rel s a)"

named_theorems ws_defs \<open>the base operations, which both models share\<close>

lemmas [ws_defs] = ws_set_context_def ws_wake_service_def ws_next_conn_id_def ws_register_conn_def
  clear_conn_def clear_conns_def ws_shutdown_signal_def ws_base.truncate_def

text \<open>The simulation, one lemma per operation, from any pair of related states.\<close>

locale ws_sim =
  fixes s :: ws_state and a :: ws_abs
  assumes rel: "ws_rel s a"
begin

lemma rel_base: "ws_base.truncate s = ws_base.truncate a"
  and rel_queues: "two_queues (w_mem s) (w_in s) (a_in a) (w_out s) (a_out a)"
  using rel by (simp_all add: ws_rel_def)

lemmas base = base_eq [OF rel_base]
lemmas counts = two_queues_count [OF rel_queues]

lemma refine_shared:
  "step_ok (ws_exec (Set_Context c) s) (abs_exec (Set_Context c) a)"
  "step_ok (ws_exec Next_Conn_Id s) (abs_exec Next_Conn_Id a)"
  "step_ok (ws_exec (Register i w) s) (abs_exec (Register i w) a)"
  "step_ok (ws_exec Shutdown s) (abs_exec Shutdown a)"
  using rel_queues base
  by (auto simp: step_ok_def ws_rel_def ws_defs split: option.splits)

lemma refine_queries:
  "step_ok (ws_exec Service_Cancel s) (abs_exec Service_Cancel a)"
  "step_ok (ws_exec (Has_Pending c) s) (abs_exec (Has_Pending c) a)"
  using rel base two_queues_scan [OF rel_queues]
    wake_list_correct [of "mem_heap (w_mem s)" "wl_head (w_out s)" "fst ` set (a_out a)"]
  by (simp_all add: step_ok_def ws_on_service_cancel_def ws_has_pending_outgoing_def)

lemma refine_unregister: "step_ok (ws_exec (Unregister c) s) (abs_exec (Unregister c) a)"
  using two_queues_drop [OF two_queues_sym [OF rel_queues], of c] base
  by (auto simp: step_ok_def ws_unregister_conn_def ws_rel_def ws_defs dest: two_queues_sym split: option.splits)

lemma refine_push: "step_ok (ws_exec (Push_Incoming c t) s) (abs_exec (Push_Incoming c t) a)"
  using two_queues_push [OF rel_queues, of c "the t"] two_queues_alloc_free [OF rel_queues] rel rel_base counts
  by (auto simp: step_ok_def ws_push_incoming_def ws_rel_def ws_base.truncate_def)

lemma refine_pop: "step_ok (ws_exec (Pop_Incoming m n) s) (abs_exec (Pop_Incoming m n) a)"
proof (cases "a_in a")
  case Nil
  then show ?thesis using rel base counts by (auto simp: step_ok_def ws_pop_incoming_def)
next
  case (Cons x xs)
  then obtain h q where "ws_pop_head (mem_heap (w_mem s)) (w_in s) = Some (x, h, q)"
    "two_queues ((w_mem s)\<lparr>mem_heap := h\<rparr>) q xs (w_out s) (a_out a)"
    using two_queues_pop [of "w_mem s" "w_in s" x xs "w_out s" "a_out a"] rel_queues by auto
  then show ?thesis
    using Cons rel base counts by (cases x) (auto simp: step_ok_def ws_pop_incoming_def ws_rel_def ws_base.truncate_def)
qed

lemma refine_dequeue: "step_ok (ws_exec (Dequeue c n) s) (abs_exec (Dequeue c n) a)"
  using two_queues_pull [OF two_queues_sym [OF rel_queues], of c] rel base
  by (auto simp: step_ok_def ws_dequeue_outgoing_def ws_rel_def ws_base.truncate_def option.map_comp
    dest: two_queues_sym)

lemma live_same: "live_ids s = live_ids a"
  using base by (simp add: live_ids_def)

lemma refine_send: "step_ok (ws_exec (Send_To i t) s) (abs_exec (Send_To i t) a)"
proof (cases "sends i t a")
  case False
  then show ?thesis
    using two_queues_alloc_free [OF rel_queues] rel base counts
    by (auto simp: step_ok_def ws_send_to_def ws_rel_def ws_base.truncate_def sends_def send_code_def
      find_wsi_live live_same Let_def)
next
  case True
  then have t: "i \<noteq> None" "ws_text_len_ok t" "\<not> parse_conn_id i < 0" "parse_conn_id i \<in> set (live_ids a)"
    "length (a_out a) < MAX_QUEUE" by (auto simp: sends_def)
  obtain m q where "push_msg (parse_conn_id i) (the t) (w_mem s, w_out s) = Some (m, q)"
    "two_queues m q (a_out a @ [(parse_conn_id i, the t)]) (w_in s) (a_in a)"
    using two_queues_push [OF two_queues_sym [OF rel_queues]] by blast
  then show ?thesis
    using True t base counts
    by (auto simp: step_ok_def ws_send_to_def ws_rel_def ws_defs send_code_def find_wsi_live live_same Let_def
      dest: two_queues_sym)
qed

lemma refine_broadcast: "step_ok (ws_exec (Broadcast t) s) (abs_exec (Broadcast t) a)"
proof -
  obtain m q where b: "broadcast_loop (the t) (g_conns a) False (w_mem s, w_out s) = Some (broadcast_ids a \<noteq> [], m, q)"
    "two_queues m q (a_out a @ map (\<lambda>c. (c, the t)) (broadcast_ids a)) (w_in s) (a_in a)"
    using broadcast_loop_correct [OF two_queues_sym [OF rel_queues], of "the t" "g_conns a" False]
    by (auto simp: broadcast_ids_def live_ids_def take_map o_def)
  then show ?thesis
    using rel base two_queues_sym [OF b(2)]
    by (auto simp: step_ok_def ws_broadcast_text_def ws_rel_def ws_defs Let_def)
qed

lemma refine_cleanup: "step_ok (ws_exec Cleanup s) (abs_exec Cleanup a)"
proof -
  have "two_queues ((w_mem s)\<lparr>mem_heap := (\<lambda>_. None)\<rparr>) empty_list [] empty_list []"
    using two_queues_empty [of "mem_brk (w_mem s)"] by (cases "w_mem s") simp
  then show ?thesis
    using two_queues_cleanup [OF rel_queues] base
    by (auto simp: step_ok_def ws_cleanup_def ws_rel_def ws_defs)
qed

lemma refine_step: "step_ok (ws_exec x s) (abs_exec x a)"
  by (cases x) (simp_all only: refine_shared refine_queries refine_unregister refine_push refine_pop refine_dequeue
    refine_send refine_broadcast refine_cleanup)

end

lemma ws_step_refines: "ws_rel s a \<Longrightarrow> step_ok (ws_exec x s) (abs_exec x a)"
  by (rule ws_sim.refine_step) (rule ws_sim.intro)

lemma ws_run_refines_from:
  "ws_rel s a \<Longrightarrow> \<exists>s'. ws_run xs s = Some (fst (abs_run xs a), s') \<and> ws_rel s' (snd (abs_run xs a))"
proof (induction xs arbitrary: s a)
  case (Cons x xs)
  obtain r s1 a1 where 1: "ws_exec x s = Some (r, s1)" "abs_exec x a = (r, a1)" "ws_rel s1 a1"
    using ws_step_refines [OF Cons.prems, of x] by (auto simp: step_ok_def)
  show ?case using Cons.IH [OF 1(3)] 1(1,2) by (auto simp: split_def Let_def)
qed simp

lemma ws_rel_init: "ws_rel ws_init abs_init"
  using two_queues_empty by (simp add: ws_rel_def ws_init_def abs_init_def ws_base.truncate_def)

interpretation ws0: ws_sim ws_init abs_init
  by unfold_locales (rule ws_rel_init)

section \<open>Invariant and order\<close>

text \<open>Both queues are bounded, every queued text is sendable, every outgoing frame has a live socket.\<close>

definition ws_inv :: "ws_abs \<Rightarrow> bool" where
  "ws_inv a \<longleftrightarrow> length (a_in a) \<le> MAX_QUEUE \<and> length (a_out a) \<le> MAX_QUEUE \<and>
     length (g_conns a) = MAX_CONNECTIONS \<and>
     (\<forall>x \<in> set (a_out a). ws_text_len_ok (Some (snd x)) \<and> fst x \<in> set (live_ids a))"

lemma live_ids_register:
  "set (live_ids a) \<subseteq> set (live_ids (snd (ws_register_conn c w a)))"
proof (cases "find_index (\<lambda>e. ce_wsi e = 0) (g_conns a)")
  case (Some i)
  have keep: "e \<in> set ((g_conns a)[i := e'])" if e: "e \<in> set (g_conns a)" "ce_wsi e \<noteq> 0" for e e'
  proof -
    obtain j where j: "j < length (g_conns a)" "g_conns a ! j = e" using e(1) by (auto simp: in_set_conv_nth)
    then have "j \<noteq> i" using find_index_Some(2) [OF Some] e(2) by auto
    then show ?thesis using j by (metis length_list_update nth_list_update_neq nth_mem)
  qed
  show ?thesis
    using keep Some by (fastforce simp: ws_register_conn_def live_ids_def)
qed (simp add: ws_register_conn_def)

lemma live_ids_clear:
  assumes "d \<in> set (live_ids a)" "d \<noteq> c" shows "d \<in> set (live_ids (clear_conn c a))"
proof (cases "find_index (is_conn c) (g_conns a)")
  case (Some i)
  obtain e where e: "e \<in> set (g_conns a)" "ce_wsi e \<noteq> 0" "ce_conn_id e = d"
    using assms(1) by (auto simp: live_ids_def)
  obtain j where j: "j < length (g_conns a)" "g_conns a ! j = e" using e(1) by (auto simp: in_set_conv_nth)
  then have "j \<noteq> i" using find_index_Some(2) [OF Some] e assms(2) by (auto simp: is_conn_def)
  then have "e \<in> set ((g_conns a)[i := \<lparr>ce_wsi = 0, ce_conn_id = 0\<rparr>])"
    using j by (metis length_list_update nth_list_update_neq nth_mem)
  then show ?thesis using Some e by (fastforce simp: clear_conn_def live_ids_def)
qed (use assms in \<open>simp add: clear_conn_def\<close>)

lemma live_ids_wake [simp]: "live_ids (ws_wake_service s) = live_ids s"
  by (simp add: ws_wake_service_def live_ids_def)

lemma wake_sel [simp]:
  "a_in (ws_wake_service a) = a_in a" "a_out (ws_wake_service a) = a_out a" "g_conns (ws_wake_service a) = g_conns a"
  by (simp_all add: ws_wake_service_def)

lemma live_ids_upd [simp]:
  "live_ids (a\<lparr>a_out := x\<rparr>) = live_ids a" "live_ids (a\<lparr>a_in := y\<rparr>) = live_ids a"
  "live_ids (a\<lparr>g_next_conn_id := z\<rparr>) = live_ids a" "live_ids (a\<lparr>g_lws_ctx := w\<rparr>) = live_ids a"
  "live_ids (a\<lparr>g_ws_shutdown := v\<rparr>) = live_ids a"
  by (simp_all add: live_ids_def)

lemma length_remove_first: "length (remove_first P xs) \<le> length xs"
  by (induction xs) auto

lemma set_remove_first: "set (remove_first P xs) \<subseteq> set xs"
  by (induction xs) auto

lemma ws_inv_step:
  assumes "ws_inv a" shows "ws_inv (snd (abs_exec x a))"
proof (cases x)
  case (Register c w)
  have "a_in (snd (ws_register_conn c w a)) = a_in a" "a_out (snd (ws_register_conn c w a)) = a_out a"
    "length (g_conns (snd (ws_register_conn c w a))) = length (g_conns a)"
    by (simp_all add: ws_register_conn_def split: option.splits)
  then show ?thesis using assms Register live_ids_register [of a c w] by (auto simp: ws_inv_def)
next
  case (Unregister c)
  have "a_in (clear_conn c a) = a_in a" "length (g_conns (clear_conn c a)) = length (g_conns a)"
    by (simp_all add: clear_conn_def split: option.splits)
  then show ?thesis
    using assms Unregister live_ids_clear [of _ a c] by (auto simp: ws_inv_def intro: order_trans [OF length_filter_le])
next
  case (Dequeue c n)
  then show ?thesis
    using assms set_remove_first [of "\<lambda>x. fst x = c" "a_out a"]
    by (auto simp: ws_inv_def intro: order_trans [OF length_remove_first])
next
  case (Broadcast t)
  have "set (broadcast_ids a) \<subseteq> set (live_ids a)" by (simp add: broadcast_ids_def set_take_subset)
  moreover have "length (a_out a) + length (broadcast_ids a) \<le> MAX_QUEUE"
    using assms by (auto simp: broadcast_ids_def ws_inv_def)
  moreover have "ws_text_len_ok t \<Longrightarrow> ws_text_len_ok (Some (the t))" by (cases t) (auto simp: ws_text_len_ok_def)
  ultimately show ?thesis using assms Broadcast by (auto simp: ws_inv_def)
next
  case (Send_To i t)
  have "ws_text_len_ok t \<Longrightarrow> ws_text_len_ok (Some (the t))" by (cases t) (auto simp: ws_text_len_ok_def)
  then show ?thesis using assms Send_To by (auto simp: ws_inv_def sends_def)
qed (use assms in \<open>auto simp: ws_inv_def ws_set_context_def ws_next_conn_id_def ws_shutdown_signal_def clear_conns_def
  split: list.splits\<close>)

lemma ws_inv_run: "ws_inv a \<Longrightarrow> ws_inv (snd (abs_run xs a))"
  by (induction xs arbitrary: a) (auto simp: split_def Let_def ws_inv_step)

lemma ws_inv_init: "ws_inv abs_init"
  by (simp add: ws_inv_def abs_init_def)

text \<open>What an operation queues for a connection, what it delivers to it, and which ones keep its frames.\<close>

fun queued_by :: "int \<Rightarrow> ws_op \<Rightarrow> ws_abs \<Rightarrow> string list" where
  "queued_by c (Send_To i t) a = (if sends i t a \<and> parse_conn_id i = c then [the t] else [])"
| "queued_by c (Broadcast t) a =
     (if ws_text_len_ok t then map (\<lambda>_. the t) (filter (\<lambda>d. d = c) (broadcast_ids a)) else [])"
| "queued_by c _ a = []"

fun queued_run :: "int \<Rightarrow> ws_op list \<Rightarrow> ws_abs \<Rightarrow> string list" where
  "queued_run c [] a = []"
| "queued_run c (x # xs) a = queued_by c x a @ queued_run c xs (snd (abs_exec x a))"

fun delivered_by :: "int \<Rightarrow> ws_op \<Rightarrow> ws_result \<Rightarrow> string list" where
  "delivered_by c (Dequeue d n) (Bytes (Some (bs, len))) = (if c = d then [take len bs] else [])"
| "delivered_by c _ _ = []"

definition delivered :: "int \<Rightarrow> ws_op list \<Rightarrow> ws_result list \<Rightarrow> string list" where
  "delivered c xs rs = concat (map2 (delivered_by c) xs rs)"

fun keeps_frames :: "int \<Rightarrow> ws_op \<Rightarrow> bool" where
  "keeps_frames c (Unregister d) = (d \<noteq> c)"
| "keeps_frames c Cleanup = False"
| "keeps_frames c (Dequeue d n) = (n > WS_TEXT_MAX)"
| "keeps_frames c _ = True"

lemma out_bytes_whole: "length t \<le> WS_TEXT_MAX \<Longrightarrow> WS_TEXT_MAX < n \<Longrightarrow> out_bytes n t = (t @ [nul], length t)"
  by (simp add: out_bytes_def)

lemma pending_of_append [simp]: "pending_of c (xs @ ys) = pending_of c xs @ pending_of c ys"
  by (simp add: pending_of_def)

lemma pending_of_find:
  "find (\<lambda>x. fst x = d) xs = Some x \<Longrightarrow> pending_of d xs = snd x # pending_of d (remove_first (\<lambda>x. fst x = d) xs)"
  by (induction xs) (auto simp: pending_of_def split: if_splits)

lemma fifo_dequeue:
  assumes "ws_inv a" "WS_TEXT_MAX < n"
  shows "delivered_by c (Dequeue d n) (fst (abs_exec (Dequeue d n) a)) @
    pending_of c (remove_first (\<lambda>x. fst x = d) (a_out a)) = pending_of c (a_out a)"
proof (cases "find (\<lambda>x. fst x = d) (a_out a)")
  case None
  then have "\<forall>x \<in> set (a_out a). fst x \<noteq> d" unfolding find_None_iff by blast
  then show ?thesis using None assms(2) remove_first_id [of "a_out a" "\<lambda>x. fst x = d"] by simp
next
  case (Some x)
  then have x: "x \<in> set (a_out a)" "fst x = d" by (auto simp: find_Some_iff)
  then have l: "length (snd x) \<le> WS_TEXT_MAX" using assms(1) by (auto simp: ws_inv_def ws_text_len_ok_def)
  have p: "pending_of d (a_out a) = snd x # pending_of d (remove_first (\<lambda>x. fst x = d) (a_out a))"
    using Some pending_of_find by blast
  show ?thesis
    using Some assms(2) l p hq.deq_pending_aux(3) [of c d "a_out a"] by (auto simp: out_bytes_whole)
qed

lemma fifo_step:
  assumes "ws_inv a" "keeps_frames c x"
  shows "delivered_by c x (fst (abs_exec x a)) @ pending_of c (a_out (snd (abs_exec x a))) =
    pending_of c (a_out a) @ queued_by c x a"
proof (cases x)
  case (Register d w)
  have "a_out (snd (ws_register_conn d w a)) = a_out a" by (simp add: ws_register_conn_def split: option.splits)
  then show ?thesis using Register by simp
next
  case (Unregister d)
  have "filter (\<lambda>x. fst x = c) (filter (\<lambda>x. fst x \<noteq> d) (a_out a)) = filter (\<lambda>x. fst x = c) (a_out a)"
    using assms(2) Unregister by (auto intro!: filter_cong)
  then show ?thesis using Unregister by (simp add: pending_of_def)
next
  case (Dequeue d n)
  then show ?thesis using fifo_dequeue [OF assms(1), of n c d] assms(2) by simp
next
  case (Broadcast t)
  have "pending_of c (map (\<lambda>d. (d, the t)) ds) = map (\<lambda>_. the t) (filter (\<lambda>d. d = c) ds)" for ds
    by (induction ds) (auto simp: pending_of_def)
  then show ?thesis using Broadcast by auto
qed (use assms(2) in \<open>auto simp: ws_set_context_def ws_next_conn_id_def ws_shutdown_signal_def pending_of_def
  split: list.splits\<close>)

lemma fifo_run:
  "ws_inv a \<Longrightarrow> list_all (keeps_frames c) xs \<Longrightarrow>
   delivered c xs (fst (abs_run xs a)) @ pending_of c (a_out (snd (abs_run xs a))) =
   pending_of c (a_out a) @ queued_run c xs a"
proof (induction xs arbitrary: a)
  case (Cons x xs)
  have ih: "delivered c xs (fst (abs_run xs (snd (abs_exec x a)))) @
      pending_of c (a_out (snd (abs_run xs (snd (abs_exec x a))))) =
      pending_of c (a_out (snd (abs_exec x a))) @ queued_run c xs (snd (abs_exec x a))"
    using Cons.IH [OF ws_inv_step [OF Cons.prems(1)]] Cons.prems(2) by simp
  have "delivered c (x # xs) (fst (abs_run (x # xs) a)) =
      delivered_by c x (fst (abs_exec x a)) @ delivered c xs (fst (abs_run xs (snd (abs_exec x a))))"
    by (simp add: delivered_def split_def Let_def)
  moreover have "snd (abs_run (x # xs) a) = snd (abs_run xs (snd (abs_exec x a)))" by (simp add: split_def Let_def)
  ultimately show ?case using ih fifo_step [OF Cons.prems(1), of c x] Cons.prems(2) by simp
qed (simp add: delivered_def)

lemma ws_run_abs:
  assumes "ws_run xs ws_init = Some (rs, s)"
  shows "rs = fst (abs_run xs abs_init)" "ws_rel s (snd (abs_run xs abs_init))" "ws_inv (snd (abs_run xs abs_init))"
  using ws_run_refines_from [OF ws_rel_init, of xs] ws_inv_run [OF ws_inv_init, of xs] assms by auto

section \<open>Properties\<close>

text \<open>(C4) Every sequence of operations on the linked queues, from the initial state, returns (no
  traversal runs on, no freed node is read), gives the same results as the specification on lists,
  and leaves on the heap exactly the queued messages, so that nothing leaks.\<close>

theorem ws_refines_lists:
  "\<exists>s. ws_run xs ws_init = Some (fst (abs_run xs abs_init), s) \<and> ws_rel s (snd (abs_run xs abs_init)) \<and>
     card (dom (mem_heap (w_mem s))) = length (a_in (snd (abs_run xs abs_init))) + length (a_out (snd (abs_run xs abs_init)))"
proof -
  obtain s where s: "ws_run xs ws_init = Some (fst (abs_run xs abs_init), s)" "ws_rel s (snd (abs_run xs abs_init))"
    using ws_run_refines_from [OF ws_rel_init] by blast
  then have "two_queues (w_mem s) (w_in s) (a_in (snd (abs_run xs abs_init))) (w_out s) (a_out (snd (abs_run xs abs_init)))"
    by (simp add: ws_rel_def)
  then show ?thesis using s two_queues_card by blast
qed

text \<open>(C5) After any sequence of operations both queues hold at most 64 messages, their counters
  are the true lengths, and a frame is pending for a connection only while that connection has a
  live socket in the table: a closed session never pins the shared queue.\<close>

theorem ws_bounded_and_live:
  assumes "ws_run xs ws_init = Some (rs, s)"
  shows "wl_count (w_in s) = int (length (a_in (snd (abs_run xs abs_init)))) \<and>
    wl_count (w_out s) = int (length (a_out (snd (abs_run xs abs_init)))) \<and>
    wl_count (w_in s) \<le> 64 \<and> wl_count (w_out s) \<le> 64 \<and>
    (ws_has_pending_outgoing c s = Some True \<longrightarrow> ws_find_wsi_locked c s \<noteq> 0)"
proof -
  let ?a = "snd (abs_run xs abs_init)"
  have rel: "ws_rel s ?a" and inv: "ws_inv ?a" using ws_run_abs [OF assms] by auto
  then have q: "two_queues (w_mem s) (w_in s) (a_in ?a) (w_out s) (a_out ?a)"
    and l: "live_ids s = live_ids ?a" by (auto simp: ws_rel_def live_ids_def dest: base_eq(1))
  show ?thesis
    using two_queues_count [OF q] inv two_queues_scan [OF q, of c] l
    by (auto simp: ws_inv_def MAX_QUEUE_def ws_has_pending_outgoing_def find_wsi_live)
qed

definition demo_ops :: "ws_op list" where
  "demo_ops = [Register 1 100, Push_Incoming 7 (Some ''hi''), Send_To (Some ''webchat:1'') (Some ''a''),
     Broadcast (Some ''b''), Dequeue 1 40000]"

lemma demo_run: "\<exists>s. ws_run demo_ops ws_init = Some (fst (abs_run demo_ops abs_init), s)"
  using ws_run_refines_from [OF ws_rel_init] by blast

theorem ws_bounded_and_live_witness:
  "\<exists>s. ws_run demo_ops ws_init = Some (fst (abs_run demo_ops abs_init), s) \<and>
     wl_count (w_in s) = 1 \<and> wl_count (w_out s) = 1 \<and> wl_count (w_out s) \<le> 64"
proof -
  obtain s where s: "ws_run demo_ops ws_init = Some (fst (abs_run demo_ops abs_init), s)" using demo_run by blast
  have "length (a_in (snd (abs_run demo_ops abs_init))) = 1" "length (a_out (snd (abs_run demo_ops abs_init))) = 1"
    by code_simp+
  then show ?thesis using ws_bounded_and_live [OF s, of 1] s by simp
qed

text \<open>Delivery is first-in first-out per connection.  As long as a connection is not
  unregistered and the queue is not cleaned up, and frames are dequeued with the 32 KiB buffer the
  service loop uses, the texts delivered to it followed by those still pending are exactly the texts
  queued for it, in order, whatever the other connections do in between.\<close>

theorem ws_fifo_per_connection:
  assumes "ws_run xs ws_init = Some (rs, s)" and "list_all (keeps_frames c) xs"
  shows "delivered c xs rs @ pending_of c (a_out (snd (abs_run xs abs_init))) = queued_run c xs abs_init"
  using fifo_run [OF ws_inv_init assms(2)] ws_run_abs(1) [OF assms(1)] by (simp add: abs_init_def pending_of_def)

theorem ws_fifo_per_connection_witness:
  "delivered 1 demo_ops (fst (abs_run demo_ops abs_init)) @ pending_of 1 (a_out (snd (abs_run demo_ops abs_init)))
     = [''a'', ''b'']"
proof -
  obtain s where s: "ws_run demo_ops ws_init = Some (fst (abs_run demo_ops abs_init), s)" using demo_run by blast
  have "list_all (keeps_frames 1) demo_ops" by code_simp
  moreover have "queued_run 1 demo_ops abs_init = [''a'', ''b'']" by code_simp
  ultimately show ?thesis using ws_fifo_per_connection [OF s, of 1] by simp
qed

text \<open>The session id a popped message carries leads back to its connection: with a buffer of
  at least 32 bytes, parse_conn_id recovers every non-negative connection id from it.\<close>

theorem session_id_roundtrip:
  assumes "0 \<le> c" "c < 2 ^ 31" "32 \<le> session_size" "0 < text_size" "\<not> g_ws_shutdown s"
    and "ws_run xs ws_init = Some (rs, s)" "a_in (snd (abs_run xs abs_init)) = (c, t) # rest"
  shows "\<exists>sid s'. ws_pop_incoming session_size text_size s = Some ((1, sid, buf_trunc text_size t), s') \<and>
    parse_conn_id (Some sid) = c"
proof -
  let ?a = "snd (abs_run xs abs_init)"
  have rel: "ws_rel s ?a" using ws_run_abs(2) [OF assms(6)] .
  have "nat c < 10 ^ 10" using assms(1,2) by (simp add: nat_less_iff)
  then have "length (nat_str (nat c)) \<le> 10" using length_nat_str [of "nat c" 9] by simp
  then have "length (webchat_session c) < session_size"
    using assms(1,3) by (simp add: webchat_session_def int_str_def)
  then have sid: "buf_trunc session_size (webchat_session c) = webchat_session c" by simp
  have "parse_conn_id (Some (webchat_session c)) = c"
    using atoi_int_str [OF assms(1,2)] by (simp add: parse_conn_id_def webchat_session_def)
  moreover obtain h q where "ws_pop_head (mem_heap (w_mem s)) (w_in s) = Some ((c, t), h, q)"
    using two_queues_pop [of "w_mem s" "w_in s" "(c, t)" rest "w_out s" "a_out ?a"] rel assms(7) by (auto simp: ws_rel_def)
  moreover have "wl_head (w_in s) \<noteq> None"
    using rel assms(7) two_queues_count(2) by (fastforce simp: ws_rel_def)
  ultimately show ?thesis
    using assms(3,4,5) sid by (auto simp: ws_pop_incoming_def)
qed

theorem session_id_roundtrip_witness:
  "\<exists>s sid s'. ws_pop_incoming 64 100 s = Some ((1, sid, ''hi''), s') \<and> parse_conn_id (Some sid) = 7"
proof -
  obtain s where s: "ws_run demo_ops ws_init = Some (fst (abs_run demo_ops abs_init), s)" using demo_run by blast
  have "\<not> g_ws_shutdown (snd (abs_run demo_ops abs_init))" by code_simp
  then have n: "\<not> g_ws_shutdown s" using ws_run_abs(2) [OF s] base_eq(3) by (auto simp: ws_rel_def)
  have "a_in (snd (abs_run demo_ops abs_init)) = [(7, ''hi'')]" by code_simp
  then show ?thesis
    using session_id_roundtrip [OF _ _ _ _ n s, of 7 64 100 "''hi''" "[]"] by (auto simp: buf_trunc_def)
qed

end
