(* ===== verification/Channels.thy ===== *)
theory Channels
  imports Channel_Common Config Ws
begin

text \<open>
  The channel interface of \<open>src/channels/channel.h\<close> and four of its implementations: the terminal (\<open>cli.c\<close>), the dashboard chat
  (\<open>webchat.c\<close>, on top of theory \<open>Ws\<close>), the timer (\<open>heartbeat.c\<close>) and the test stub (\<open>stub.c\<close>).  A poll returns the C code and, for
  code 1, the message; attachments are never set by these channels.  Standard input and output are byte strings of the state.
\<close>

section \<open>Definitions\<close>

record channel_incoming_msg =
  cm_session_id :: string
  cm_user_id :: "string option"
  cm_text :: "string option"

record 'w channel =
  ch_name :: string
  ch_poll :: "int \<Rightarrow> 'w \<Rightarrow> (int \<times> channel_incoming_msg option) \<times> 'w"
  ch_send :: "string \<Rightarrow> string option \<Rightarrow> 'w \<Rightarrow> int \<times> 'w"

subsection \<open>Terminal\<close>

definition CLI_SESSION_ID :: string where "CLI_SESSION_ID = ''cli:default''"
definition CLI_USER_ID :: string where "CLI_USER_ID = ''default''"
definition LINE_BUF_SIZE :: nat where "LINE_BUF_SIZE = 8192"

record cli_state =
  cli_one_shot :: "string option"
  cli_verbose :: bool
  cli_stdin :: string
  cli_stdout :: string

definition channel_cli_set_one_shot :: "string option \<Rightarrow> cli_state \<Rightarrow> cli_state" where
  "channel_cli_set_one_shot msg s = s\<lparr>cli_one_shot := msg\<rparr>"

definition channel_cli_set_verbose :: "bool \<Rightarrow> cli_state \<Rightarrow> cli_state" where
  "channel_cli_set_verbose v s = s\<lparr>cli_verbose := v\<rparr>"

text \<open>\<open>fgets\<close> on what is left of standard input.\<close>

definition fgets :: "nat \<Rightarrow> string \<Rightarrow> (string \<times> string) option" where
  "fgets n inp =
     (if inp = [] then None
      else let k = length (takeWhile (\<lambda>c. c \<noteq> newline) inp); len = min (n - 1) (k + 1) in Some (take len inp, drop len inp))"

definition strip_eol :: "string \<Rightarrow> string" where
  "strip_eol line = rev (dropWhile (\<lambda>c. c = newline \<or> c = CHR 0x0D) (rev line))"

text \<open>\<open>sel\<close> is what \<open>select\<close> and \<open>FD_ISSET\<close> say, \<open>tty\<close> whether input is a terminal.\<close>

definition cli_poll :: "int \<times> bool \<Rightarrow> bool \<Rightarrow> cli_state \<Rightarrow> (int \<times> channel_incoming_msg option) \<times> cli_state" where
  "cli_poll sel tty s =
     (let msg = (\<lambda>t. \<lparr>cm_session_id = CLI_SESSION_ID, cm_user_id = Some CLI_USER_ID, cm_text = Some t\<rparr>) in
      case cli_one_shot s of
        Some t \<Rightarrow> ((1, Some (msg t)), s\<lparr>cli_one_shot := None\<rparr>)
      | None \<Rightarrow>
          if fst sel \<le> 0 then ((fst sel, None), s)
          else if \<not> snd sel then ((0, None), s)
          else let s1 = (if tty then s\<lparr>cli_stdout := cli_stdout s @ ''You: ''\<rparr> else s) in
            (case fgets LINE_BUF_SIZE (cli_stdin s1) of
               None \<Rightarrow> ((0, None), s1)
             | Some (line, rest) \<Rightarrow> ((1, Some (msg (strip_eol (cstr line)))), s1\<lparr>cli_stdin := rest\<rparr>)))"

definition cli_send :: "string \<Rightarrow> string option \<Rightarrow> cli_state \<Rightarrow> int \<times> cli_state" where
  "cli_send recipient t s =
     (case t of
        None \<Rightarrow> (- 1, s)
      | Some x \<Rightarrow>
          (0, s\<lparr>cli_stdout := cli_stdout s @ (if cli_verbose s then [CHR 0x1B] @ ''[36mAgent:'' @ [CHR 0x1B] @ ''[0m '' else []) @ x @ [newline]\<rparr>))"

definition cli_cleanup :: "cli_state \<Rightarrow> cli_state" where
  "cli_cleanup s = s\<lparr>cli_one_shot := None\<rparr>"

subsection \<open>Dashboard chat\<close>

definition WEBCHAT_USER_ID :: string where "WEBCHAT_USER_ID = ''webchat''"

definition webchat_poll :: "ws_state \<Rightarrow> ((int \<times> channel_incoming_msg option) \<times> ws_state) option" where
  "webchat_poll s =
     map_option (\<lambda>((r, sid, t), s'). ((r, if r = 1 then Some \<lparr>cm_session_id = sid, cm_user_id = Some WEBCHAT_USER_ID, cm_text = Some t\<rparr> else None), s'))
       (ws_pop_incoming 128 (WS_TEXT_MAX + 1) s)"

definition webchat_send :: "string \<Rightarrow> string option \<Rightarrow> ws_state \<Rightarrow> (int \<times> ws_state) option" where
  "webchat_send recipient t s = (if t = None then Some (- 1, s) else ws_send_to (Some recipient) t s)"

subsection \<open>Timer\<close>

definition HEARTBEAT_PROMPT :: string where
  "HEARTBEAT_PROMPT = ''Check for pending tasks, reminders, or scheduled items. If nothing urgent, respond briefly.''"
definition HEARTBEAT_SESSION :: string where "HEARTBEAT_SESSION = ''heartbeat:default''"

record heartbeat_state =
  hb_cfg :: "config option"
  hb_last :: int

definition heartbeat_init :: "config \<Rightarrow> int \<Rightarrow> heartbeat_state \<Rightarrow> int \<times> heartbeat_state" where
  "heartbeat_init cfg now s = (0, \<lparr>hb_cfg = Some cfg, hb_last = now\<rparr>)"

definition heartbeat_poll :: "int \<Rightarrow> heartbeat_state \<Rightarrow> (int \<times> channel_incoming_msg option) \<times> heartbeat_state" where
  "heartbeat_poll now s =
     (case hb_cfg s of
        None \<Rightarrow> ((- 1, None), s)
      | Some cfg \<Rightarrow>
          if \<not> heartbeat_enabled (c_misc cfg) then ((0, None), s)
          else if config_heartbeat_interval_minutes cfg \<le> 0 then ((0, None), s)
          else if now - hb_last s < config_heartbeat_interval_minutes cfg * 60 then ((0, None), s)
          else ((1, Some \<lparr>cm_session_id = HEARTBEAT_SESSION, cm_user_id = None, cm_text = Some HEARTBEAT_PROMPT\<rparr>), s\<lparr>hb_last := now\<rparr>))"

text \<open>\<open>reg\<close> is the channel registry; a line on standard error is not part of the state.\<close>

definition heartbeat_send :: "(string \<times> 'w channel) list \<Rightarrow> heartbeat_state \<Rightarrow> string \<Rightarrow> string option \<Rightarrow> 'w \<Rightarrow> int \<times> 'w" where
  "heartbeat_send reg s recipient t w =
     (if t = None then (- 1, w)
      else case hb_cfg s of
        None \<Rightarrow> (0, w)
      | Some cfg \<Rightarrow>
          let ch = config_heartbeat_default_channel cfg in
          if ch = ''log'' then (0, w)
          else case channel_get_by_name (if ch \<noteq> [] then ch else ''cli'') reg of
            None \<Rightarrow> (- 1, w)
          | Some dest \<Rightarrow> ch_send dest ''default'' t w)"

definition heartbeat_cleanup :: "heartbeat_state \<Rightarrow> heartbeat_state" where
  "heartbeat_cleanup s = s\<lparr>hb_cfg := None\<rparr>"

definition heartbeat_set_live_config :: "config \<Rightarrow> heartbeat_state \<Rightarrow> heartbeat_state" where
  "heartbeat_set_live_config cfg s = s\<lparr>hb_cfg := Some cfg\<rparr>"

subsection \<open>Stub\<close>

definition channel_stub :: "'w channel" where
  "channel_stub = \<lparr>ch_name = ''stub'', ch_poll = (\<lambda>timeout w. ((0, None), w)), ch_send = (\<lambda>r t w. (0, w))\<rparr>"

section \<open>Lines\<close>

text \<open>Reading lines loses nothing: what \<open>fgets\<close> returns and what it leaves are the input, and each call consumes at least a byte.\<close>

lemma fgets_splits: "1 < n \<Longrightarrow> fgets n inp = Some (line, rest) \<Longrightarrow> line @ rest = inp \<and> line \<noteq> [] \<and> length line < n"
  by (auto simp: fgets_def Let_def split: if_splits)

lemma cli_poll_progress:
  assumes "cli_poll sel tty s = ((1, Some m), s')" "cli_one_shot s = None"
  shows "length (cli_stdin s') < length (cli_stdin s)"
proof -
  obtain line rest where f: "fgets LINE_BUF_SIZE (cli_stdin s) = Some (line, rest)" and r: "cli_stdin s' = rest"
    using assms by (auto simp: cli_poll_def Let_def split: if_splits option.splits)
  have "line @ rest = cli_stdin s" "line \<noteq> []" using fgets_splits [OF _ f] by (simp_all add: LINE_BUF_SIZE_def)
  then show ?thesis using r by (metis length_append length_greater_0_conv less_add_same_cancel2)
qed

text \<open>A one-shot message is delivered once.\<close>

lemma cli_one_shot_once:
  "cli_one_shot s = Some t \<Longrightarrow> \<exists>m s'. cli_poll sel tty s = ((1, Some m), s') \<and> cm_text m = Some t \<and> cli_one_shot s' = None"
  by (simp add: cli_poll_def Let_def)

section \<open>Replies reach the asker\<close>

text \<open>The session id of a dashboard message names the connection it came from, so that the reply is queued for it.\<close>

lemma webchat_session_names_connection:
  assumes "0 \<le> c" "c < 2 ^ 31" "\<not> g_ws_shutdown s" "ws_run xs ws_init = Some (rs, s)" "a_in (snd (abs_run xs abs_init)) = (c, t) # rest"
  shows "\<exists>m s'. webchat_poll s = Some ((1, Some m), s') \<and> parse_conn_id (Some (cm_session_id m)) = c \<and> cm_text m = Some (buf_trunc (WS_TEXT_MAX + 1) t)"
  using session_id_roundtrip [OF assms(1,2) _ _ assms(3-5), of 128 "WS_TEXT_MAX + 1"] by (auto simp: webchat_poll_def)

section \<open>Heartbeats are spaced\<close>

text \<open>The times at which a sequence of polls fires.\<close>

fun heartbeat_fires :: "int list \<Rightarrow> heartbeat_state \<Rightarrow> int list" where
  "heartbeat_fires [] s = []"
| "heartbeat_fires (now # ts) s =
     (let ((r, m), s') = heartbeat_poll now s in (if r = 1 then [now] else []) @ heartbeat_fires ts s')"

lemma heartbeat_spacing:
  "hb_cfg s = Some cfg \<Longrightarrow> successively (\<lambda>a b. b - a \<ge> config_heartbeat_interval_minutes cfg * 60) (hb_last s # heartbeat_fires ts s)"
proof (induction ts arbitrary: s)
  case (Cons now ts)
  obtain r m s' where p: "heartbeat_poll now s = ((r, m), s')" by (metis prod.collapse)
  have "hb_cfg s' = Some cfg" using p Cons(2) by (auto simp: heartbeat_poll_def split: if_splits)
  note ih = Cons(1) [OF this]
  show ?case using p Cons(2) ih by (auto simp: heartbeat_poll_def successively_Cons split: if_splits)
qed simp

end
