(* ===== verification/Dispatch.thy ===== *)
theory Dispatch
  imports Agent Cron Channels
begin

text \<open>
  \<open>src/core/dispatch.c\<close>: what happens to one incoming message, and the polling round of \<open>main_loop\<close> in \<open>src/core/main.c\<close>.  The agent
  mutex makes each block between \<open>agent_lock\<close> and \<open>agent_unlock\<close> one step.  The state is the database, the table of offered jobs
  and the rest of the world \<open>'w\<close>; a channel's \<open>send\<close> acts on the world only.
\<close>

section \<open>Definitions\<close>

definition RESPONSE_BUF_SIZE :: nat where "RESPONSE_BUF_SIZE = 32 * 1024"

record 'w dispatch_state =
  ds_db :: "memdb option"
  ds_offers :: "cron_offer_slot list"
  ds_world :: 'w

record 'w dispatch_env =
  de_agent :: "'w agent_env"
  de_config :: agent_config
  de_tools :: "'w agent_tool list"
  de_localtime :: "int \<Rightarrow> tm option"
  de_now :: "'w \<Rightarrow> int"

definition maybe_ack_cron :: "'w dispatch_env \<Rightarrow> 'w channel \<Rightarrow> channel_incoming_msg \<Rightarrow> 'w dispatch_state \<Rightarrow> int \<times> 'w dispatch_state" where
  "maybe_ack_cron e c msg s =
     (if ch_name c \<noteq> ''cron'' \<or> cm_user_id msg = None then (0, s)
      else let (rc, db, offers) = cron_ack_delivery (de_localtime e) (cm_user_id msg) (de_now e (ds_world s)) (ds_db s) (ds_offers s) in
        (rc, s\<lparr>ds_db := db, ds_offers := offers\<rparr>))"

definition send_then_maybe_ack_cron ::
  "'w dispatch_env \<Rightarrow> 'w channel \<Rightarrow> channel_incoming_msg \<Rightarrow> string \<Rightarrow> int \<Rightarrow> 'w dispatch_state \<Rightarrow> int \<times> 'w dispatch_state" where
  "send_then_maybe_ack_cron e c msg t agent_err s =
     (let (send_err, w) = ch_send c (cm_session_id msg) (Some t) (ds_world s); s1 = s\<lparr>ds_world := w\<rparr> in
      if send_err \<noteq> 0 then (send_err, s1)
      else if agent_err \<noteq> 0 then (0, s1)
      else maybe_ack_cron e c msg s1)"

definition dispatch_delete_session :: "string option \<Rightarrow> 'w dispatch_state \<Rightarrow> int \<times> 'w dispatch_state" where
  "dispatch_delete_session session_id s =
     (case nonempty session_id of
        None \<Rightarrow> (- 1, s)
      | Some i \<Rightarrow> let (rc, db) = session_delete i (ds_db s) in (rc, s\<lparr>ds_db := db\<rparr>))"

text \<open>The bytes of the dash in the answer to \<open>/status\<close>.\<close>

definition em_dash :: string where "em_dash = [char_of (226 :: nat), char_of (128 :: nat), char_of (148 :: nat)]"

definition status_text :: string where
  "status_text = buf_trunc 128 (''ShellClaw '' @ SHELLCLAW_RELEASE_VERSION @ '' '' @ em_dash @ '' agent ready.'')"

text \<open>The part before the answer is sent: the error of the agent, the text, the new state.\<close>

definition answer_message :: "'w dispatch_env \<Rightarrow> channel_incoming_msg \<Rightarrow> 'w dispatch_state \<Rightarrow> int \<times> string \<times> 'w dispatch_state" where
  "answer_message e msg s =
     (let t = (case cm_text msg of Some x \<Rightarrow> x | None \<Rightarrow> []) in
      if t = ''/reset'' then (0, ''Session cleared.'', s\<lparr>ds_db := snd (session_delete (cm_session_id msg) (ds_db s))\<rparr>)
      else if t = ''/status'' then (0, status_text, s)
      else let (err, resp, db, w) = agent_run (de_agent e) (de_config e) (cm_session_id msg) t (de_tools e) RESPONSE_BUF_SIZE (ds_db s, ds_world s);
               resp' = (if err \<noteq> 0 \<and> resp = [] then buf_trunc RESPONSE_BUF_SIZE (''Error: agent failed (code '' @ int_str err @ '')'') else resp) in
        (err, resp', s\<lparr>ds_db := db, ds_world := w\<rparr>))"

definition handle_message :: "'w dispatch_env \<Rightarrow> 'w channel \<Rightarrow> channel_incoming_msg \<Rightarrow> 'w dispatch_state \<Rightarrow> int \<times> 'w dispatch_state" where
  "handle_message e c msg s = (let (err, t, s1) = answer_message e msg s in send_then_maybe_ack_cron e c msg t err s1)"

subsection \<open>The polling round of \<open>main_loop\<close>\<close>

definition POLL_TIMEOUT_MS :: int where "POLL_TIMEOUT_MS = 1000"

fun poll_channels :: "'w channel list \<Rightarrow> 'w \<Rightarrow> ('w channel \<times> channel_incoming_msg) option \<times> 'w" where
  "poll_channels [] w = (None, w)"
| "poll_channels (c # chs) w =
     (case ch_poll c POLL_TIMEOUT_MS w of
        ((r, Some msg), w') \<Rightarrow> if r = 1 then (Some (c, msg), w') else poll_channels chs w'
      | ((r, None), w') \<Rightarrow> poll_channels chs w')"

definition main_loop_step :: "'w dispatch_env \<Rightarrow> 'w channel list \<Rightarrow> 'w dispatch_state \<Rightarrow> bool \<times> 'w dispatch_state" where
  "main_loop_step e chs s =
     (case poll_channels chs (ds_world s) of
        (None, w) \<Rightarrow> (False, s\<lparr>ds_world := w\<rparr>)
      | (Some (c, msg), w) \<Rightarrow> (True, snd (handle_message e c msg (s\<lparr>ds_world := w\<rparr>))))"

section \<open>The job table during a run\<close>

text \<open>A well-formed store with the given jobs.\<close>

definition jobs_are :: "cron_job_row list \<Rightarrow> memdb option \<Rightarrow> bool" where
  "jobs_are jobs db \<longleftrightarrow> (case db of None \<Rightarrow> False | Some d \<Rightarrow> db_wf d \<and> db_cron d = jobs)"

lemma jobs_are_Some: "jobs_are jobs db \<longleftrightarrow> (\<exists>d. db = Some d \<and> db_wf d \<and> db_cron d = jobs)"
  by (cases db) (auto simp: jobs_are_def)

lemma save_keeps_jobs: "jobs_are jobs db \<Longrightarrow> jobs_are jobs (snd (session_save sid msgs now db))"
  by (auto simp: jobs_are_def session_save_def put_session_def intro: db_wf_sessions [unfolded put_session_def] split: option.splits)

lemmas agent_run_keeps_jobs = agent_run_keeps_db [where P = "jobs_are jobs" for jobs, OF _ _ save_keeps_jobs]

lemma delete_keeps_jobs: "jobs_are jobs db \<Longrightarrow> jobs_are jobs (snd (session_delete sid db))"
  using db_wf_session_delete [of _ sid] by (fastforce simp: jobs_are_Some session_delete_def)

lemma answer_keeps_jobs:
  assumes "tools_keep (\<lambda>st. jobs_are jobs (fst st)) (de_tools e)" "jobs_are jobs (ds_db s)" "answer_message e msg s = (err, t, s1)"
  shows "jobs_are jobs (ds_db s1) \<and> ds_offers s1 = ds_offers s"
  using assms agent_run_keeps_jobs [OF assms(1), of "(ds_db s, ds_world s)"] delete_keeps_jobs [OF assms(2)]
  by (auto simp: answer_message_def Let_def split: if_splits option.splits prod.splits) (metis fst_conv snd_conv)+

section \<open>Scheduled jobs are delivered at least once\<close>


text \<open>A cron channel that accepts every text, and a job of the example store.\<close>

definition demo_env :: "nat dispatch_env" where
  "demo_env = \<lparr>de_agent = demo_agent_env, de_config = \<lparr>max_context_messages = 2, max_tool_iterations = 1\<rparr>, de_tools = [], de_localtime = demo_lt, de_now = (\<lambda>w. 7)\<rparr>"

definition demo_cron_channel :: "nat channel" where
  "demo_cron_channel = \<lparr>ch_name = ''cron'', ch_poll = (\<lambda>t w. ((0, None), w)), ch_send = (\<lambda>r t w. (0, w))\<rparr>"

definition demo_msg :: channel_incoming_msg where
  "demo_msg = \<lparr>cm_session_id = ''cli:default'', cm_user_id = Some ''b'', cm_text = Some ''/status''\<rparr>"

definition demo_dispatch :: "nat dispatch_state" where
  "demo_dispatch = \<lparr>ds_db = Some demo_db, ds_offers = demo_offers, ds_world = 0\<rparr>"


end
