(* ===== verification/Jcs.thy ===== *)
theory Jcs
  imports Cjson "HOL-Library.List_Lexorder" "HOL-Library.Multiset"
begin

text \<open>
  \<open>src/crypto/jcs.c\<close>: the canonical bytes that a manifest signature covers.  The growing buffer is the string under construction;
  its reallocations succeed.  \<open>fmt\<close> stands for \<open>snprintf("%.*g")\<close> and \<open>strtod\<close> for the conversion back, both of the C library.
  Keys are sorted with \<open>strcmp\<close>, which is the lexicographic order of byte strings.
\<close>

section \<open>Definitions\<close>

subsection \<open>Strings\<close>

definition u_digit :: "nat \<Rightarrow> char" where
  "u_digit v = (if v < 10 then char_of (48 + v) else char_of (87 + v))"

definition escape_char :: "char \<Rightarrow> string" where
  "escape_char c =
     (if c = dquote then [CHR 0x5C, dquote]
      else if c = CHR 0x5C then [CHR 0x5C, CHR 0x5C]
      else if c = CHR 0x08 then [CHR 0x5C, CHR ''b'']
      else if c = CHR 0x0C then [CHR 0x5C, CHR ''f'']
      else if c = newline then [CHR 0x5C, CHR ''n'']
      else if c = CHR 0x0D then [CHR 0x5C, CHR ''r'']
      else if c = tab then [CHR 0x5C, CHR ''t'']
      else if (of_char c :: nat) < 32 then CHR 0x5C # ''u00'' @ [u_digit (of_char c div 16), u_digit (of_char c mod 16)]
      else [c])"

definition jcs_append_escaped_string :: "string \<Rightarrow> string" where
  "jcs_append_escaped_string s = dquote # concat (map escape_char (cstr s)) @ [dquote]"

subsection \<open>Numbers\<close>

definition double_exponent :: "64 word \<Rightarrow> nat" where
  "double_exponent v = (unat v div 2 ^ 52) mod 2048"

definition double_fraction :: "64 word \<Rightarrow> nat" where
  "double_fraction v = unat v mod 2 ^ 52"

definition isfinite :: "64 word \<Rightarrow> bool" where
  "isfinite v \<longleftrightarrow> double_exponent v \<noteq> 2047"

text \<open>
  An integer of at most 53 bits: zero, or \<open>(2^52 + fraction) / 2^k\<close> for the \<open>k\<close> given by the exponent, without remainder.
\<close>

definition jcs_is_safe_integer :: "64 word \<Rightarrow> int option" where
  "jcs_is_safe_integer v =
     (let ex = double_exponent v; m = 2 ^ 52 + double_fraction v; k = 1075 - ex; neg = unat v \<ge> 2 ^ 63 in
      if \<not> isfinite v then None
      else if ex = 0 then (if double_fraction v = 0 then Some 0 else None)
      else if ex > 1075 \<or> k > 52 \<or> m mod 2 ^ k \<noteq> 0 then None
      else Some (if neg then - int (m div 2 ^ k) else int (m div 2 ^ k)))"

definition jcs_shortest_roundtrip :: "(nat \<Rightarrow> 64 word \<Rightarrow> string) \<Rightarrow> (string \<Rightarrow> 64 word) \<Rightarrow> 64 word \<Rightarrow> string" where
  "jcs_shortest_roundtrip fmt strtod v =
     (case find (\<lambda>prec. strtod (buf_trunc 64 (fmt prec v)) = v) [1..<18] of
        Some prec \<Rightarrow> buf_trunc 64 (fmt prec v)
      | None \<Rightarrow> buf_trunc 64 (fmt 17 v))"

definition jcs_append_exponential :: "string \<Rightarrow> int \<Rightarrow> string" where
  "jcs_append_exponential s e =
     hd s # (if length s > 1 then CHR ''.'' # tl s else []) @ CHR ''e'' #
       (if e < 0 then CHR ''-'' # int_str (- e) else CHR ''+'' # int_str e)"

definition jcs_append_decimal :: "string \<Rightarrow> int \<Rightarrow> string" where
  "jcs_append_decimal s n =
     (if n \<le> 0 then ''0.'' @ replicate (nat (- n)) (CHR ''0'') @ s
      else concat (map (\<lambda>i. (if i = nat n then ''.'' else []) @ [if i < length s then s ! i else CHR ''0'']) [0..<max (length s) (nat n)]))"

text \<open>The two parts of a text with an exponent, in ECMAScript form.\<close>

definition jcs_reformat :: "string \<Rightarrow> string \<Rightarrow> string option" where
  "jcs_reformat pre post =
     (let signed = (pre \<noteq> [] \<and> hd pre \<in> set ''-+'');
          mant = (if signed then tl pre else pre);
          digits = filter (\<lambda>c. c \<noteq> CHR ''.'') mant;
          n_pos = wrap32 (fst (strtol10 post)) + 1;
          sign = (if signed \<and> hd pre = CHR ''-'' then ''-'' else []) in
      if length mant \<ge> 64 \<or> length digits \<ge> 64 then None
      else if digits = [] then None
      else Some (sign @ (if n_pos > 21 \<or> n_pos \<le> - 6 then jcs_append_exponential digits (n_pos - 1) else jcs_append_decimal digits n_pos)))"

definition jcs_append_number :: "(nat \<Rightarrow> 64 word \<Rightarrow> string) \<Rightarrow> (string \<Rightarrow> 64 word) \<Rightarrow> 64 word \<Rightarrow> string option" where
  "jcs_append_number fmt strtod v =
     (if \<not> isfinite v then None
      else case jcs_is_safe_integer v of
        Some n \<Rightarrow> Some (int_str n)
      | None \<Rightarrow>
          let tmp = jcs_shortest_roundtrip fmt strtod v in
          (case (case strchr_split (CHR ''e'') tmp of Some x \<Rightarrow> Some x | None \<Rightarrow> strchr_split (CHR ''E'') tmp) of
             None \<Rightarrow> Some tmp
           | Some (pre, post) \<Rightarrow> jcs_reformat pre post))"

subsection \<open>Trees\<close>

definition commas :: "string list \<Rightarrow> string" where
  "commas xs = (case xs of [] \<Rightarrow> [] | y # ys \<Rightarrow> y @ concat (map (\<lambda>z. CHR '','' # z) ys))"

definition jcs_keys :: "(string \<times> cjson) list \<Rightarrow> string list" where
  "jcs_keys ms = sort (map fst ms)"

lemma case_sensitive_smaller:
  "cJSON_GetObjectItemCaseSensitive (CObject ms) k = Some c \<Longrightarrow> size c < Suc (size_list (size_prod (\<lambda>_. 0) size) ms)"
proof (induction ms)
  case (Cons m ms)
  then show ?case by (cases m) (auto split: if_splits)
qed simp

text \<open>\<open>None\<close> is the return code -1.\<close>

function (sequential) jcs_serialize :: "(64 word \<Rightarrow> string option) \<Rightarrow> cjson \<Rightarrow> string option" where
  "jcs_serialize num CNull = Some ''null''"
| "jcs_serialize num CFalse = Some ''false''"
| "jcs_serialize num CTrue = Some ''true''"
| "jcs_serialize num (CNumber v) = num v"
| "jcs_serialize num (CString s) = Some (jcs_append_escaped_string s)"
| "jcs_serialize num (CArray xs) = map_option (\<lambda>ts. CHR ''['' # commas ts @ '']'') (those (map (jcs_serialize num) xs))"
| "jcs_serialize num (CObject ms) =
     (if ms = [] then Some ''{}''
      else map_option (\<lambda>ts. CHR ''{'' # commas ts @ ''}'')
        (those (map (\<lambda>k. case cJSON_GetObjectItemCaseSensitive (CObject ms) k of
             None \<Rightarrow> None
           | Some c \<Rightarrow> map_option (\<lambda>t. jcs_append_escaped_string k @ '':'' @ t) (jcs_serialize num c)) (jcs_keys ms))))"
  by pat_completeness auto
termination
  by (relation "measure (\<lambda>(n, j). size j)") (auto simp: less_Suc_eq_le intro: size_list_estimation' dest!: case_sensitive_smaller)

definition jcs_canonicalize :: "(nat \<Rightarrow> 64 word \<Rightarrow> string) \<Rightarrow> (string \<Rightarrow> 64 word) \<Rightarrow> cjson \<Rightarrow> string option" where
  "jcs_canonicalize fmt strtod root = jcs_serialize (jcs_append_number fmt strtod) root"

section \<open>Canonical trees\<close>

text \<open>
  What the bytes stand for: a value in which numbers are their texts and the members of objects are sorted.
\<close>

datatype jtree = JNull | JFalse | JTrue | JNum string | JStr string | JArr "jtree list" | JObj "(string \<times> jtree) list"

function (sequential) canon :: "(64 word \<Rightarrow> string option) \<Rightarrow> cjson \<Rightarrow> jtree option" where
  "canon num CNull = Some JNull"
| "canon num CFalse = Some JFalse"
| "canon num CTrue = Some JTrue"
| "canon num (CNumber v) = map_option JNum (num v)"
| "canon num (CString s) = Some (JStr (cstr s))"
| "canon num (CArray xs) = map_option JArr (those (map (canon num) xs))"
| "canon num (CObject ms) =
     map_option JObj (those (map (\<lambda>k. case cJSON_GetObjectItemCaseSensitive (CObject ms) k of
         None \<Rightarrow> None | Some c \<Rightarrow> map_option (Pair (cstr k)) (canon num c)) (jcs_keys ms)))"
  by pat_completeness auto
termination
  by (relation "measure (\<lambda>(n, j). size j)") (auto simp: less_Suc_eq_le intro: size_list_estimation' dest!: case_sensitive_smaller)

definition quoted :: "string \<Rightarrow> string" where
  "quoted s = dquote # concat (map escape_char s) @ [dquote]"

fun render :: "jtree \<Rightarrow> string" where
  "render JNull = ''null''"
| "render JFalse = ''false''"
| "render JTrue = ''true''"
| "render (JNum t) = t"
| "render (JStr s) = quoted s"
| "render (JArr ts) = CHR ''['' # commas (map render ts) @ '']''"
| "render (JObj ms) = CHR ''{'' # commas (map (\<lambda>(k, t). quoted k @ '':'' @ render t) ms) @ ''}''"

lemma those_map_option: "those (map (\<lambda>x. map_option f (g x)) xs) = map_option (map f) (those (map g xs))"
  by (induction xs) (auto simp: option.map_comp comp_def split: option.splits)

lemma those_map_cong: "(\<And>x. x \<in> set xs \<Longrightarrow> f x = g x) \<Longrightarrow> those (map f xs) = those (map g xs)"
  by (metis map_cong)

lemma serialize_renders: "jcs_serialize num j = map_option render (canon num j)"
proof (induction num j rule: jcs_serialize.induct)
  case (6 num xs)
  have "those (map (jcs_serialize num) xs) = those (map (\<lambda>x. map_option render (canon num x)) xs)" using 6 by (rule those_map_cong)
  then show ?case by (simp add: those_map_option option.map_comp comp_def)
next
  case (7 num ms)
  let ?get = "\<lambda>k. cJSON_GetObjectItemCaseSensitive (CObject ms) k"
  show ?case
  proof (cases "ms = []")
    case False
    let ?r = "\<lambda>(k, t). quoted k @ '':'' @ render t"
    let ?f = "\<lambda>k. case ?get k of None \<Rightarrow> None | Some c \<Rightarrow> map_option (\<lambda>t. jcs_append_escaped_string k @ '':'' @ t) (jcs_serialize num c)"
    let ?g = "\<lambda>k. case ?get k of None \<Rightarrow> None | Some c \<Rightarrow> map_option (Pair (cstr k)) (canon num c)"
    have "?f k = map_option ?r (?g k)" if h: "k \<in> set (jcs_keys ms)" for k
      using 7 [OF False h] by (auto simp: jcs_append_escaped_string_def quoted_def option.map_comp comp_def split: option.splits)
    then have "those (map ?f (jcs_keys ms)) = those (map (\<lambda>k. map_option ?r (?g k)) (jcs_keys ms))" by (rule those_map_cong)
    then show ?thesis using False by (simp add: those_map_option option.map_comp comp_def)
  qed (simp add: jcs_keys_def commas_def)
qed (simp_all add: jcs_append_escaped_string_def quoted_def option.map_comp comp_def option.map_ident)

section \<open>The order of members does not matter\<close>

lemma get_case_sensitive_map_of: "cJSON_GetObjectItemCaseSensitive (CObject ms) k = map_of ms k"
  by (induction ms) auto

lemma canon_reordered:
  assumes "distinct (map fst ms)" "mset ms = mset ns"
  shows "canon num (CObject ms) = canon num (CObject ns)"
proof -
  have "distinct (map fst ns)" using assms by (metis mset_eq_imp_distinct_iff mset_map)
  then have "map_of ms = map_of ns" using assms by (metis map_of_inject_set mset_eq_setD)
  moreover have "jcs_keys ms = jcs_keys ns"
    unfolding jcs_keys_def using assms(2) by (metis mset_map properties_for_sort mset_sort sorted_sort)
  ultimately show ?thesis by (simp add: get_case_sensitive_map_of)
qed

section \<open>The bytes determine the value\<close>

subsection \<open>Strings\<close>

definition hex_value :: "char \<Rightarrow> nat" where
  "hex_value c = (if of_char c \<ge> (87 :: nat) then of_char c - 87 else of_char c - 48)"

fun take_char :: "string \<Rightarrow> (char \<times> string) option" where
  "take_char (a # b # u # v # x # y # r) =
     (if a \<noteq> CHR 0x5C then Some (a, b # u # v # x # y # r)
      else if b = CHR ''u'' then Some (char_of (16 * hex_value x + hex_value y), r)
      else Some (if b = CHR ''b'' then CHR 0x08 else if b = CHR ''f'' then CHR 0x0C else if b = CHR ''n'' then newline
                 else if b = CHR ''r'' then CHR 0x0D else if b = CHR ''t'' then tab else b, u # v # x # y # r))"
| "take_char _ = None"

lemma hex_value_digit: "v < 16 \<Longrightarrow> hex_value (u_digit v) = v"
  by (simp add: hex_value_def u_digit_def)

lemma control_char:
  assumes "(of_char c :: nat) < 32"
  shows "char_of (16 * hex_value (u_digit (of_char c div 16)) + hex_value (u_digit (of_char c mod 16))) = c"
  using assms by (simp add: hex_value_digit)

lemma take_escaped: "5 \<le> length r \<Longrightarrow> take_char (escape_char c @ r) = Some (c, r)"
proof -
  assume "5 \<le> length r"
  then obtain u v x y z r' where "r = u # v # x # y # z # r'" by (auto simp: Suc_le_length_iff numeral_eq_Suc)
  then show ?thesis using control_char [of c] by (auto simp: escape_char_def)
qed

lemma escape_start: "\<exists>x xs. escape_char c = x # xs \<and> x \<noteq> dquote"
  by (simp add: escape_char_def)

lemma escaped_inj:
  assumes "concat (map escape_char s) @ dquote # r = concat (map escape_char s') @ dquote # r'"
  shows "s = s' \<and> r = r'"
  using assms
proof (induction s arbitrary: s')
  case Nil
  then show ?case using escape_start [of "hd s'"] by (cases s') auto
next
  case (Cons c cs)
  show ?case
  proof (cases s')
    case Nil
    then show ?thesis using Cons(2) escape_start [of c] by auto
  next
    case (Cons d ds)
    let ?pad = "replicate 5 dquote"
    have "take_char (escape_char c @ concat (map escape_char cs) @ dquote # r @ ?pad) =
        take_char (escape_char d @ concat (map escape_char ds) @ dquote # r' @ ?pad)"
      using Cons.prems Cons by (metis append.assoc append_Cons concat.simps(2) list.simps(9))
    then have "c = d" "concat (map escape_char cs) @ dquote # r @ ?pad = concat (map escape_char ds) @ dquote # r' @ ?pad"
      by (simp_all add: take_escaped)
    then show ?thesis using Cons Cons.IH [of ds] Cons.prems by simp
  qed
qed

lemma quoted_inj: "quoted s @ r = quoted s' @ r' \<Longrightarrow> s = s' \<and> r = r'"
  using escaped_inj [of s r s' r'] by (simp add: quoted_def)

subsection \<open>Trees\<close>

definition number_char :: "char \<Rightarrow> bool" where
  "number_char c \<longleftrightarrow> is_digit c \<or> c \<in> set ''+-.eE''"

text \<open>What follows a value in a canonical text.\<close>

definition delim :: "string \<Rightarrow> bool" where
  "delim r \<longleftrightarrow> r = [] \<or> hd r \<in> set '',]}''"

fun good :: "jtree \<Rightarrow> bool" where
  "good (JNum t) \<longleftrightarrow> t \<noteq> [] \<and> list_all number_char t"
| "good (JArr ts) \<longleftrightarrow> list_all good ts"
| "good (JObj ms) \<longleftrightarrow> list_all (\<lambda>(k, t). good t) ms"
| "good _ \<longleftrightarrow> True"

text \<open>The kind of a value shows in its first byte.\<close>

fun starts :: "jtree \<Rightarrow> char \<Rightarrow> bool" where
  "starts JNull c \<longleftrightarrow> c = CHR ''n''"
| "starts JFalse c \<longleftrightarrow> c = CHR ''f''"
| "starts JTrue c \<longleftrightarrow> c = CHR ''t''"
| "starts (JNum t) c \<longleftrightarrow> number_char c"
| "starts (JStr s) c \<longleftrightarrow> c = dquote"
| "starts (JArr ts) c \<longleftrightarrow> c = CHR ''[''"
| "starts (JObj ms) c \<longleftrightarrow> c = CHR ''{''"

lemma render_starts: "good t \<Longrightarrow> \<exists>c cs. render t = c # cs \<and> starts t c"
  by (cases t) (auto simp: quoted_def neq_Nil_conv)

lemma not_number_char [simp]:
  "\<not> number_char (CHR ''n'')" "\<not> number_char (CHR ''f'')" "\<not> number_char (CHR ''t'')" "\<not> number_char dquote" "\<not> number_char (CHR ''['')"
  "\<not> number_char (CHR ''{'')" "\<not> number_char (CHR '']'')" "\<not> number_char (CHR ''}'')" "\<not> number_char (CHR '','')"
  by (simp_all add: number_char_def is_digit_def)

lemma same_kind:
  assumes "good t" "good t'" "render t @ r = render t' @ r'"
  shows "\<exists>c. starts t c \<and> starts t' c"
  using render_starts [OF assms(1)] render_starts [OF assms(2)] assms(3) by auto

lemma render_not_close: "good t \<Longrightarrow> render t @ r \<noteq> CHR '']'' # r'"
  using render_starts [of t] by (cases t) auto

lemma number_end:
  assumes "list_all number_char t" "list_all number_char t'" "delim r" "delim r'" "t @ r = t' @ r'"
  shows "t = t' \<and> r = r'"
proof -
  have "takeWhile number_char (x @ y) = x" if "list_all number_char x" "delim y" for x y
    using that by (cases y) (auto simp: takeWhile_append delim_def list_all_iff)
  then show ?thesis using assms by (metis same_append_eq)
qed

text \<open>Two separated lists in closed brackets, for a predicate \<open>P\<close> on the pieces that makes the first piece unique.\<close>

lemma pieces_inj:
  assumes uniq: "\<And>x y r r'. x \<in> set xs \<Longrightarrow> Q y \<Longrightarrow> delim r \<Longrightarrow> delim r' \<Longrightarrow> f x @ r = f y @ r' \<Longrightarrow> x = y \<and> r = r'"
    and "list_all Q ys" "close \<in> set '']}''"
    and "concat (map (\<lambda>z. CHR '','' # f z) xs) @ close # r = concat (map (\<lambda>z. CHR '','' # f z) ys) @ close # r'"
  shows "xs = ys \<and> r = r'"
  using assms
proof (induction xs arbitrary: ys)
  case Nil
  then show ?case by (cases ys) auto
next
  case (Cons x xs)
  obtain y zs where ys: "ys = y # zs" using Cons(4,5) by (cases ys) auto
  let ?rest = "\<lambda>us e. concat (map (\<lambda>z. CHR '','' # f z) us) @ close # e"
  have d: "delim (?rest us e)" for us e using Cons(4) by (cases us) (auto simp: delim_def)
  have "f x @ ?rest xs r = f y @ ?rest zs r'" using Cons(5) ys by simp
  then have "x = y" "?rest xs r = ?rest zs r'" using Cons(2) [of x y "?rest xs r" "?rest zs r'"] Cons(3) ys d by simp_all
  moreover have "xs = zs \<and> r = r'"
  proof (rule Cons(1))
    show "x = y \<and> r = r'" if h: "x \<in> set xs" "Q y" "delim r" "delim r'" "f x @ r = f y @ r'" for x y r r'
      using Cons(2) [OF _ h(2-5)] h(1) by simp
  qed (use Cons(3,4) ys \<open>?rest xs r = ?rest zs r'\<close> in simp_all)
  ultimately show ?case using ys by simp
qed

lemma commas_inj:
  assumes uniq: "\<And>x y r r'. x \<in> set xs \<Longrightarrow> Q y \<Longrightarrow> delim r \<Longrightarrow> delim r' \<Longrightarrow> f x @ r = f y @ r' \<Longrightarrow> x = y \<and> r = r'"
    and "\<And>x r. x \<in> set xs \<Longrightarrow> f x @ r \<noteq> close # r'" "\<And>y r'. Q y \<Longrightarrow> f y @ r' \<noteq> close # r" "list_all Q ys" "close \<in> set '']}''"
    and "commas (map f xs) @ close # r = commas (map f ys) @ close # r'"
  shows "xs = ys \<and> r = r'"
proof (cases xs)
  case Nil
  then show ?thesis using assms(3,4,6) by (cases ys) (auto simp: commas_def)
next
  case (Cons x us)
  obtain y vs where ys: "ys = y # vs" using assms(2,6) Cons by (cases ys) (auto simp: commas_def)
  have "concat (map (\<lambda>z. CHR '','' # f z) (x # us)) @ close # r = concat (map (\<lambda>z. CHR '','' # f z) (y # vs)) @ close # r'"
    using assms(6) Cons ys by (simp add: commas_def comp_def)
  then show ?thesis using pieces_inj [of xs Q f ys close r r'] assms(1,4,5) Cons ys by blast
qed

lemma render_inj: "good t \<Longrightarrow> good t' \<Longrightarrow> delim r \<Longrightarrow> delim r' \<Longrightarrow> render t @ r = render t' @ r' \<Longrightarrow> t = t' \<and> r = r'"
proof (induction t arbitrary: t' r r')
  case (JNum x)
  then obtain y where "t' = JNum y" using same_kind [OF JNum(1,2,5)] by (cases t') auto
  then show ?case using JNum number_end [of x y r r'] by simp
next
  case (JStr x)
  then obtain y where "t' = JStr y" using same_kind [OF JStr(1,2,5)] by (cases t') auto
  then show ?case using JStr quoted_inj [of x r y r'] by simp
next
  case (JArr ts)
  then obtain us where u: "t' = JArr us" using same_kind [OF JArr(2,3,6)] by (cases t') auto
  have "ts = us \<and> r = r'"
  proof (rule commas_inj [where f = render and Q = good and close = "CHR '']''"])
    show "x = y \<and> r = r'" if "x \<in> set ts" "good y" "delim r" "delim r'" "render x @ r = render y @ r'" for x y r r'
      using JArr(1) [OF that(1) _ that(2-5)] JArr(2) that(1) by (auto simp: list_all_iff)
  qed (use JArr(2,3,6) u render_not_close in \<open>auto simp: list_all_iff\<close>)
  then show ?case using u by simp
next
  case (JObj ms)
  then obtain us where u: "t' = JObj us" using same_kind [OF JObj(2,3,6)] by (cases t') auto
  let ?f = "\<lambda>(k, t). quoted k @ '':'' @ render t"
  have "ms = us \<and> r = r'"
  proof (rule commas_inj [where f = ?f and Q = "\<lambda>(k, t). good t" and close = "CHR ''}''"])
    show "x = y \<and> r = r'" if h: "x \<in> set ms" "case y of (k, t) \<Rightarrow> good t" "delim r" "delim r'" "?f x @ r = ?f y @ r'" for x y r r'
    proof -
      obtain k t l v where xy: "x = (k, t)" "y = (l, v)" by (cases x; cases y)
      have "k = l \<and> CHR '':'' # render t @ r = CHR '':'' # render v @ r'" using quoted_inj [of k "CHR '':'' # render t @ r" l "CHR '':'' # render v @ r'"] h(5) xy by simp
      moreover have "good t" using JObj(2) h(1) xy by (auto simp: list_all_iff)
      ultimately show ?thesis using JObj(1) [of x t v r r'] h xy by auto
    qed
  qed (use JObj(2,3,6) u in \<open>auto simp: quoted_def\<close>)
  then show ?case using u by simp
next
  case JNull
  then show ?case using same_kind [OF JNull(1,2,5)] by (cases t') auto
next
  case JFalse
  then show ?case using same_kind [OF JFalse(1,2,5)] by (cases t') auto
next
  case JTrue
  then show ?case using same_kind [OF JTrue(1,2,5)] by (cases t') auto
qed

subsection \<open>Numbers\<close>

text \<open>What \<open>printf\<close> guarantees for a finite number: digits, signs, a point, an exponent.\<close>

definition fmt_ok :: "(nat \<Rightarrow> 64 word \<Rightarrow> string) \<Rightarrow> bool" where
  "fmt_ok fmt \<longleftrightarrow> (\<forall>p v. isfinite v \<longrightarrow> fmt p v \<noteq> [] \<and> list_all number_char (fmt p v))"

lemma int_str_number: "int_str i \<noteq> [] \<and> list_all number_char (int_str i)"
  using nat_str_digits by (auto simp: int_str_def list_all_iff number_char_def nat_str_nonempty)

lemma number_char_lits [simp]:
  "number_char (CHR ''0'')" "number_char (CHR ''.'')" "number_char (CHR ''e'')" "number_char (CHR ''-'')" "number_char (CHR ''+'')"
  by (simp_all add: number_char_def is_digit_def)

lemma exponential_chars: "s \<noteq> [] \<Longrightarrow> list_all number_char s \<Longrightarrow> list_all number_char (jcs_append_exponential s e)"
  using int_str_number by (cases s) (auto simp: jcs_append_exponential_def list_all_iff)

lemma decimal_chars:
  assumes "s \<noteq> []" "list_all number_char s"
  shows "jcs_append_decimal s n \<noteq> [] \<and> list_all number_char (jcs_append_decimal s n)"
proof -
  have "0 < max (length s) (nat n)" using assms(1) by (cases s) auto
  then show ?thesis using assms by (auto simp: jcs_append_decimal_def list_all_iff)
qed

lemma shortest_chars: "fmt_ok fmt \<Longrightarrow> isfinite v \<Longrightarrow> jcs_shortest_roundtrip fmt strtod v \<noteq> [] \<and> list_all number_char (jcs_shortest_roundtrip fmt strtod v)"
  by (auto simp: jcs_shortest_roundtrip_def fmt_ok_def buf_trunc_def list_all_iff dest!: in_set_takeD split: option.splits)

lemma reformat_chars:
  assumes "list_all number_char pre" "jcs_reformat pre post = Some t"
  shows "t \<noteq> [] \<and> list_all number_char t"
proof -
  define mant where "mant = (if pre \<noteq> [] \<and> hd pre \<in> set ''-+'' then tl pre else pre)"
  define digits where "digits = filter (\<lambda>c. c \<noteq> CHR ''.'') mant"
  define n where "n = wrap32 (fst (strtol10 post)) + 1"
  have "list_all number_char mant" using assms(1) by (cases pre) (auto simp: mant_def)
  then have d: "list_all number_char digits" by (auto simp: digits_def list_all_iff)
  have t: "digits \<noteq> []" "\<exists>sign \<in> {[], ''-''}. t = sign @ (if n > 21 \<or> n \<le> - 6 then jcs_append_exponential digits (n - 1) else jcs_append_decimal digits n)"
    using assms(2) unfolding jcs_reformat_def Let_def mant_def [symmetric] digits_def [symmetric] n_def [symmetric] by (auto split: if_splits)
  have "jcs_append_exponential digits (n - 1) \<noteq> []" by (simp add: jcs_append_exponential_def)
  then show ?thesis using t exponential_chars [OF t(1) d, of "n - 1"] decimal_chars [OF t(1) d, of n] by (auto split: if_splits)
qed

lemma append_number_chars:
  assumes "fmt_ok fmt" "jcs_append_number fmt strtod v = Some t"
  shows "t \<noteq> [] \<and> list_all number_char t"
proof -
  let ?tmp = "jcs_shortest_roundtrip fmt strtod v"
  have f: "isfinite v" using assms(2) by (auto simp: jcs_append_number_def split: if_splits)
  note c = shortest_chars [OF assms(1) f, of strtod]
  have pre: "list_all number_char pre" if h: "strchr_split x ?tmp = Some (pre, post)" for x pre post
    using strchr_split_Some(1) [OF h] c by (metis list_all_append)
  then have re: "t \<noteq> [] \<and> list_all number_char t" if h: "strchr_split x ?tmp = Some (pre, post)" "jcs_reformat pre post = Some t" for x pre post
    using reformat_chars h by blast
  show ?thesis
  proof (cases "jcs_is_safe_integer v")
    case None
    then show ?thesis using assms(2) f c re by (force simp: jcs_append_number_def Let_def split: option.splits)
  qed (use assms(2) f int_str_number in \<open>auto simp: jcs_append_number_def\<close>)
qed

section \<open>Signatures bind values\<close>

lemma those_Some: "those xs = Some ys \<longleftrightarrow> xs = map Some ys"
  by (induction xs arbitrary: ys) (auto split: option.splits)

lemma canon_good:
  assumes "\<And>v t. num v = Some t \<Longrightarrow> t \<noteq> [] \<and> list_all number_char t"
  shows "canon num j = Some t \<Longrightarrow> good t"
  using assms
proof (induction num j arbitrary: t rule: canon.induct)
  case (6 num xs)
  then obtain ts where ts: "map (canon num) xs = map Some ts" "t = JArr ts" by (auto simp: those_Some)
  have "good u" if h: "u \<in> set ts" for u
  proof -
    obtain x where "x \<in> set xs" "canon num x = Some u" using ts(1) h by (metis (no_types, lifting) in_set_conv_nth length_map nth_map)
    then show ?thesis using 6(1) 6(3) by blast
  qed
  then show ?case using ts(2) by (simp add: list_all_iff)
next
  case (7 num ms)
  let ?g = "\<lambda>k. case cJSON_GetObjectItemCaseSensitive (CObject ms) k of None \<Rightarrow> None | Some c \<Rightarrow> map_option (Pair (cstr k)) (canon num c)"
  obtain ts where ts: "map ?g (jcs_keys ms) = map Some ts" "t = JObj ts" using 7(2) by (auto simp: those_Some)
  have "good (snd u)" if h: "u \<in> set ts" for u
  proof -
    obtain k where k: "k \<in> set (jcs_keys ms)" "?g k = Some u" using ts(1) h by (metis (no_types, lifting) in_set_conv_nth length_map nth_map)
    then obtain c w where c: "cJSON_GetObjectItemCaseSensitive (CObject ms) k = Some c" "canon num c = Some w" "u = (cstr k, w)" by (auto split: option.splits)
    then show ?thesis using 7(1) [OF k(1) c(1,2)] 7(3) by simp
  qed
  then show ?case using ts(2) by (auto simp: list_all_iff)
qed auto

text \<open>A canonical tree gives back every member by its name.\<close>

lemma map_of_assoc:
  "map f ks = map Some ts \<Longrightarrow> (\<And>k u. k \<in> set ks \<Longrightarrow> f k = Some u \<Longrightarrow> fst u = k) \<Longrightarrow>
   map_of ts k = (if k \<in> set ks then map_option snd (f k) else None)"
proof (induction ts arbitrary: ks)
  case (Cons u ts)
  obtain q ks' where ks: "ks = q # ks'" "f q = Some u" "map f ks' = map Some ts" using Cons(2) by (cases ks) auto
  have "fst u = q" using Cons(3) ks by simp
  moreover have "map_of ts k = (if k \<in> set ks' then map_option snd (f k) else None)" using Cons(1) [OF ks(3)] Cons(3) ks(1) by simp
  ultimately show ?case using ks by (cases u) auto
qed simp

lemma canon_members:
  assumes "canon num (CObject ms) = Some t" "list_all (\<lambda>m. nul \<notin> set (fst m)) ms"
  shows "\<exists>ts. t = JObj ts \<and> (\<forall>k. map_of ts k = Option.bind (map_of ms k) (canon num))"
proof -
  let ?g = "\<lambda>k. case cJSON_GetObjectItemCaseSensitive (CObject ms) k of None \<Rightarrow> None | Some c \<Rightarrow> map_option (Pair (cstr k)) (canon num c)"
  obtain ts where ts: "map ?g (jcs_keys ms) = map Some ts" "t = JObj ts" using assms(1) by (auto simp: those_Some)
  have k: "set (jcs_keys ms) = fst ` set ms" by (simp add: jcs_keys_def)
  have nul: "cstr k = k" if "k \<in> set (jcs_keys ms)" for k using that assms(2) by (auto simp: k list_all_iff cstr_no_nul)
  have "map_of ts k = (if k \<in> set (jcs_keys ms) then map_option snd (?g k) else None)" for k
    by (rule map_of_assoc [OF ts(1)]) (use nul in \<open>auto split: option.splits\<close>)
  moreover have "map_of ms k = None" if "k \<notin> set (jcs_keys ms)" for k using that by (simp add: k map_of_eq_None_iff)
  ultimately show ?thesis using ts(2) by (auto simp: get_case_sensitive_map_of option.map_comp comp_def option.map_ident split: option.splits)
qed


definition demo_fmt :: "nat \<Rightarrow> 64 word \<Rightarrow> string" where "demo_fmt p v = ''2.5e-7''"

definition demo_members :: "(string \<times> cjson) list" where
  "demo_members = [(''b'', CArray [CTrue, CNumber 0x3E90C6F7A0B5ED8D]), (''a'', CString [dquote, newline, CHR ''x''])]"

lemma demo_fmt_ok: "fmt_ok demo_fmt"
  by (simp add: fmt_ok_def demo_fmt_def number_char_def is_digit_def)

lemma demo_canonical:
  "jcs_canonicalize demo_fmt (\<lambda>_. 0x3E90C6F7A0B5ED8D) (CObject demo_members) =
    Some (''{'' @ [dquote] @ ''a'' @ [dquote] @ '':'' @ [dquote, CHR 0x5C, dquote, CHR 0x5C] @ ''nx'' @ [dquote] @ '','' @ [dquote] @ ''b'' @ [dquote] @ '':[true,2.5e-7]}'')"
  by code_simp


end
