(* ===== verification/Asap_Log.thy ===== *)
theory Asap_Log
  imports Prelude
begin

text \<open>
  \<open>src/asap/log.c\<close>: the ring of recent ASAP events shown on the dashboard.  The mutex makes each call one step; times are arguments.
\<close>

section \<open>Definitions\<close>

definition ASAP_LOG_RING_SIZE :: nat where "ASAP_LOG_RING_SIZE = 50"
definition ASAP_LOG_SNIPPET_MAX :: nat where "ASAP_LOG_SNIPPET_MAX = 256"
definition ASAP_LOG_TYPE_MAX :: nat where "ASAP_LOG_TYPE_MAX = 32"
definition ASAP_LOG_ID_MAX :: nat where "ASAP_LOG_ID_MAX = 64"
definition ASAP_LOG_DIR_IN :: int where "ASAP_LOG_DIR_IN = 0"
definition ASAP_LOG_DIR_OUT :: int where "ASAP_LOG_DIR_OUT = 1"

record asap_log_entry =
  le_ts :: int
  le_direction :: int
  le_payload_type :: string
  le_id :: string
  le_json_snippet :: string

record asap_log =
  lg_ring :: "asap_log_entry list"
  lg_head :: nat
  lg_count :: nat

definition copy_truncated :: "nat \<Rightarrow> string option \<Rightarrow> string" where
  "copy_truncated dst_sz src = (case src of None \<Rightarrow> [] | Some s \<Rightarrow> if length s \<ge> dst_sz then take (dst_sz - 1) s else s)"

definition log_entry :: "int \<Rightarrow> int \<Rightarrow> string option \<Rightarrow> string option \<Rightarrow> string option \<Rightarrow> asap_log_entry" where
  "log_entry now direction ptype i snippet =
     \<lparr>le_ts = now, le_direction = direction, le_payload_type = copy_truncated ASAP_LOG_TYPE_MAX ptype,
      le_id = copy_truncated ASAP_LOG_ID_MAX i, le_json_snippet = copy_truncated ASAP_LOG_SNIPPET_MAX snippet\<rparr>"

definition do_append :: "asap_log_entry \<Rightarrow> asap_log \<Rightarrow> asap_log" where
  "do_append e l =
     \<lparr>lg_ring = (lg_ring l)[lg_head l := e], lg_head = (lg_head l + 1) mod ASAP_LOG_RING_SIZE,
      lg_count = (if lg_count l < ASAP_LOG_RING_SIZE then lg_count l + 1 else lg_count l)\<rparr>"

definition asap_log_append_in :: "int \<Rightarrow> string option \<Rightarrow> string option \<Rightarrow> string option \<Rightarrow> asap_log \<Rightarrow> asap_log" where
  "asap_log_append_in now ptype i snippet = do_append (log_entry now ASAP_LOG_DIR_IN ptype i snippet)"

definition asap_log_append_out :: "int \<Rightarrow> string option \<Rightarrow> string option \<Rightarrow> string option \<Rightarrow> asap_log \<Rightarrow> asap_log" where
  "asap_log_append_out now ptype i snippet = do_append (log_entry now ASAP_LOG_DIR_OUT ptype i snippet)"

definition asap_log_get_snapshot :: "int \<Rightarrow> asap_log \<Rightarrow> asap_log_entry list" where
  "asap_log_get_snapshot max_entries l =
     (if max_entries \<le> 0 then []
      else let n = min (lg_count l) (nat max_entries);
               start = (lg_head l + ASAP_LOG_RING_SIZE * 2 - lg_count l) mod ASAP_LOG_RING_SIZE in
        map (\<lambda>i. lg_ring l ! ((start + i) mod ASAP_LOG_RING_SIZE)) [0..<n])"

definition asap_log_reset :: asap_log where
  "asap_log_reset = \<lparr>lg_ring = replicate ASAP_LOG_RING_SIZE \<lparr>le_ts = 0, le_direction = 0, le_payload_type = [], le_id = [], le_json_snippet = []\<rparr>,
     lg_head = 0, lg_count = 0\<rparr>"

section \<open>The log keeps the last fifty events\<close>

definition log_abs :: "asap_log \<Rightarrow> asap_log_entry list" where
  "log_abs l = map (\<lambda>i. lg_ring l ! ((lg_head l + 100 - lg_count l + i) mod 50)) [0..<lg_count l]"

definition log_wf :: "asap_log \<Rightarrow> bool" where
  "log_wf l \<longleftrightarrow> length (lg_ring l) = 50 \<and> lg_head l < 50 \<and> lg_count l \<le> 50"

lemma snapshot_abs: "log_wf l \<Longrightarrow> 0 < m \<Longrightarrow> asap_log_get_snapshot m l = take (nat m) (log_abs l)"
  by (auto simp: asap_log_get_snapshot_def log_abs_def log_wf_def ASAP_LOG_RING_SIZE_def Let_def take_map min_def mod_add_left_eq intro!: nth_equalityI)

lemma ring_index:
  fixes h c i :: nat
  assumes "h < 50" "c \<le> 50" "i < 50"
  shows "(h + 100 - c + i) mod 50 = h \<longleftrightarrow> i = c \<or> c = 50 \<and> i = 0"
proof -
  consider "h + 100 - c + i < 50" | "50 \<le> h + 100 - c + i" "h + 100 - c + i < 100" | "100 \<le> h + 100 - c + i" "h + 100 - c + i < 150"
    | "150 \<le> h + 100 - c + i" "h + 100 - c + i < 200" using assms by linarith
  then show ?thesis using assms by cases (auto simp: mod_if)
qed

lemma start_kept:
  fixes h c i :: nat
  assumes "h < 50" "c < 50"
  shows "((h + 1) mod 50 + 100 - (c + 1) + i) mod 50 = (h + 100 - c + i) mod 50"
proof (cases "h = 49")
  case True
  then have "h + 100 - c + i = (99 - c + i) + 50" using assms by simp
  then have "(h + 100 - c + i) mod 50 = (99 - c + i) mod 50" by (metis mod_add_self2)
  moreover have "(h + 1) mod 50 + 100 - (c + 1) + i = 99 - c + i" using True by simp
  ultimately show ?thesis by simp
next
  case False
  then have "(h + 1) mod 50 + 100 - (c + 1) + i = h + 100 - c + i" using assms by simp
  then show ?thesis by simp
qed

lemma start_moves:
  fixes h i :: nat
  assumes "h < 50"
  shows "((h + 1) mod 50 + 100 - 50 + i) mod 50 = (h + 100 - 50 + Suc i) mod 50"
proof -
  have "((h + 1) mod 50 + 100 - 50 + i) mod 50 = ((h + 1) mod 50 + (50 + i)) mod 50" by (simp add: ac_simps)
  also have "\<dots> = (h + 1 + (50 + i)) mod 50" by (rule mod_add_left_eq)
  also have "h + 1 + (50 + i) = h + 100 - 50 + Suc i" by simp
  finally show ?thesis .
qed

lemma ring_read:
  assumes "length r = 50" "h < 50" "c \<le> 50" "i < (50 :: nat)"
  shows "(r[h := e]) ! ((h + 100 - c + i) mod 50) = (if i = c \<or> c = 50 \<and> i = 0 then e else r ! ((h + 100 - c + i) mod 50))"
  unfolding ring_index [OF assms(2-4), symmetric] using assms(1,2) by (auto simp: nth_list_update)

lemma append_abs:
  assumes "log_wf l"
  shows "log_wf (do_append e l)"
    "log_abs (do_append e l) = (if lg_count l < 50 then log_abs l else tl (log_abs l)) @ [e]"
proof -
  let ?h = "lg_head l" and ?c = "lg_count l" and ?r = "lg_ring l"
  have b: "length ?r = 50" "?h < 50" "?c \<le> 50" using assms by (simp_all add: log_wf_def)
  have top: "(?h + 100) mod 50 = ?h" using mod_mult_self1 [of ?h 2 "50 :: nat"] b(2) by simp
  show "log_wf (do_append e l)" using b by (simp add: log_wf_def do_append_def ASAP_LOG_RING_SIZE_def)
  show "log_abs (do_append e l) = (if ?c < 50 then log_abs l else tl (log_abs l)) @ [e]"
  proof (cases "?c < 50")
    case True
    have ix: "((?h + 1) mod 50 + 100 - (?c + 1) + i) mod 50 = (?h + 100 - ?c + i) mod 50" for i using start_kept b(2) True by blast
    have "log_abs (do_append e l) = map (\<lambda>i. (?r[?h := e]) ! ((?h + 100 - ?c + i) mod 50)) ([0..<?c] @ [?c])"
      using True ix by (simp add: log_abs_def do_append_def ASAP_LOG_RING_SIZE_def)
    also have "\<dots> = log_abs l @ [e]"
      using ring_read [OF b] b(1,2) top True by (simp add: log_abs_def del: upt_Suc)
    finally show ?thesis using True by simp
  next
    case False
    then have c: "?c = 50" using b by simp
    have ix: "((?h + 1) mod 50 + 100 - 50 + i) mod 50 = (?h + 100 - 50 + Suc i) mod 50" for i using start_moves b(2) by blast
    have u: "[0..<50] = [0..<49] @ [49 :: nat]" using upt_Suc_append [of 0 49] by simp
    have "log_abs (do_append e l) = map (\<lambda>i. (?r[?h := e]) ! ((?h + 100 - 50 + Suc i) mod 50)) ([0..<49] @ [49])"
      using c ix unfolding u [symmetric] by (simp add: log_abs_def do_append_def ASAP_LOG_RING_SIZE_def)
    also have "\<dots> = map (\<lambda>i. ?r ! ((?h + 100 - 50 + Suc i) mod 50)) [0..<49] @ [e]"
      using ring_read [of ?r ?h 50 "Suc _" e] b(1,2) top by (simp add: add.commute [of 100])
    also have "map (\<lambda>i. ?r ! ((?h + 100 - 50 + Suc i) mod 50)) [0..<49] = tl (log_abs l)"
      unfolding log_abs_def c by (rule nth_equalityI) (auto simp: nth_tl)
    finally show ?thesis using False by simp
  qed
qed

text \<open>The event log of the dashboard refines a list: after any events since a reset, a snapshot of at most m entries shows,
  oldest first, the beginning of the last fifty events in the order they happened.\<close>

theorem log_keeps_last_fifty:
  assumes "0 < m"
  shows "asap_log_get_snapshot m (fold do_append es asap_log_reset) = take (nat m) (drop (length es - 50) es)"
proof -
  have "log_wf (fold do_append es asap_log_reset) \<and> log_abs (fold do_append es asap_log_reset) = drop (length es - 50) es"
  proof (induction es rule: rev_induct)
    case Nil
    then show ?case by (simp add: log_wf_def log_abs_def asap_log_reset_def ASAP_LOG_RING_SIZE_def)
  next
    case (snoc e es)
    let ?l = "fold do_append es asap_log_reset"
    have ih: "log_wf ?l" "log_abs ?l = drop (length es - 50) es" using snoc by simp_all
    have "lg_count ?l = length (log_abs ?l)" by (simp add: log_abs_def)
    then have c: "lg_count ?l = min 50 (length es)" using ih(2) by simp
    have "(if lg_count ?l < 50 then log_abs ?l else tl (log_abs ?l)) = drop (Suc (length es) - 50) es"
    proof (cases "length es < 50")
      case False
      then have "Suc (length es) - 50 = Suc (length es - 50)" by simp
      then show ?thesis using c ih(2) False by (simp add: drop_Suc tl_drop)
    qed (use c ih(2) in simp)
    then show ?case using append_abs [OF ih(1), of e] by simp
  qed
  then show ?thesis using snapshot_abs assms by simp
qed

theorem log_keeps_last_fifty_witness:
  "asap_log_get_snapshot 2 (fold do_append (map (\<lambda>i. log_entry i 0 None None None) [1..60]) asap_log_reset) =
     take (nat 2) (drop (length (map (\<lambda>i. log_entry i 0 None None None) [1..60]) - 50) (map (\<lambda>i. log_entry i 0 None None None) [1..60])) \<and> (0 :: int) < 2"
  using log_keeps_last_fifty [of 2 "map (\<lambda>i. log_entry i 0 None None None) [1..60]"] by simp

end
