(* ===== verification/Envelope.thy ===== *)
theory Envelope
  imports Cjson
begin

text \<open>
  \<open>src/asap/envelope.c\<close>: ASAP messages as JSON-RPC objects.  Error results are the JSON-RPC error object that \<open>*err_out\<close> receives
  (\<open>None\<close> where the code sets none); the caller passes \<open>err_out\<close>.  Copies of strings and trees succeed.  \<open>conv\<close> is the conversion of
  an integer to a double.
\<close>

section \<open>Definitions\<close>

record asap_envelope =
  jsonrpc_request_id :: "cjson option"
  env_id :: "string option"
  asap_version :: "string option"
  sender :: "string option"
  recipient :: "string option"
  payload_type :: "string option"
  payload :: "cjson option"
  correlation_id :: "string option"
  trace_id :: "string option"
  timestamp :: "string option"

definition asap_envelope_init :: asap_envelope where
  "asap_envelope_init = \<lparr>jsonrpc_request_id = None, env_id = None, asap_version = None, sender = None, recipient = None,
     payload_type = None, payload = None, correlation_id = None, trace_id = None, timestamp = None\<rparr>"

definition asap_jsonrpc_error :: "(int \<Rightarrow> 64 word) \<Rightarrow> int \<Rightarrow> string \<Rightarrow> cjson option \<Rightarrow> cjson" where
  "asap_jsonrpc_error conv code message i =
     CObject [(''jsonrpc'', CString ''2.0''),
       (''error'', CObject [(''code'', CNumber (conv code)), (''message'', CString message)]),
       (''id'', case i of Some j \<Rightarrow> j | None \<Rightarrow> CNull)]"

definition allowed_payload_types :: "string list" where
  "allowed_payload_types = [''task.request'', ''task.response'', ''task.cancel'', ''state.query'', ''mcp.tool_call'', ''mcp.tool_result'']"

definition payload_type_is_allowed :: "string \<Rightarrow> bool" where
  "payload_type_is_allowed t \<longleftrightarrow> t \<in> set allowed_payload_types"

subsection \<open>Reading\<close>

type_synonym 'a parsed = "cjson option + 'a"

definition parse_fail :: "(int \<Rightarrow> 64 word) \<Rightarrow> cjson option \<Rightarrow> string \<Rightarrow> 'a parsed" where
  "parse_fail conv rpc_id msg = Inl (Some (asap_jsonrpc_error conv (- 32602) msg rpc_id))"

text \<open>
  The presence test ignores case, the lookup does not: a root with only \<open>"ID"\<close> has no id to copy (\<open>None\<close>, the code's \<open>NULL\<close>).
\<close>

definition dup_request_id :: "cjson \<Rightarrow> cjson option" where
  "dup_request_id root =
     (if cJSON_HasObjectItem root ''id'' then cJSON_GetObjectItemCaseSensitive root ''id'' else Some CNull)"

definition require_str_in_params :: "(int \<Rightarrow> 64 word) \<Rightarrow> cjson \<Rightarrow> string \<Rightarrow> cjson option \<Rightarrow> string parsed" where
  "require_str_in_params conv params key rpc_id =
     (case string_of (cJSON_GetObjectItemCaseSensitive params key) of
        None \<Rightarrow> parse_fail conv rpc_id (buf_trunc 120 (''Invalid params: missing or bad type for '' @ [squote] @ take 48 key @ [squote]))
      | Some s \<Rightarrow> Inr s)"

definition optional_str_in_params :: "(int \<Rightarrow> 64 word) \<Rightarrow> cjson \<Rightarrow> string \<Rightarrow> cjson option \<Rightarrow> string option parsed" where
  "optional_str_in_params conv params key rpc_id =
     (if \<not> cJSON_HasObjectItem params key then Inr None
      else case string_of (cJSON_GetObjectItemCaseSensitive params key) of
        None \<Rightarrow> parse_fail conv rpc_id ''Invalid params: optional field has wrong type''
      | Some s \<Rightarrow> Inr (Some s))"

fun parsed_bind :: "'a parsed \<Rightarrow> ('a \<Rightarrow> 'b parsed) \<Rightarrow> 'b parsed" where
  "parsed_bind (Inl e) f = Inl e"
| "parsed_bind (Inr x) f = f x"

definition asap_envelope_from_object :: "(int \<Rightarrow> 64 word) \<Rightarrow> cjson \<Rightarrow> cjson option \<Rightarrow> asap_envelope parsed" where
  "asap_envelope_from_object conv obj rpc_id =
     (if \<not> cJSON_IsObject obj then Inl None
      else let rid = (case rpc_id of Some r \<Rightarrow> Some r | None \<Rightarrow> Some CNull); req = (\<lambda>k. require_str_in_params conv obj k rid);
               opt = (\<lambda>k. optional_str_in_params conv obj k rid) in
       parsed_bind (req ''id'') (\<lambda>i.
       parsed_bind (req ''asap_version'') (\<lambda>v.
       parsed_bind (req ''sender'') (\<lambda>s.
       parsed_bind (req ''recipient'') (\<lambda>r.
       parsed_bind (req ''payload_type'') (\<lambda>t.
       if \<not> payload_type_is_allowed t then parse_fail conv rid ''Invalid params: unknown payload_type''
       else case cJSON_GetObjectItemCaseSensitive obj ''payload'' of
         None \<Rightarrow> parse_fail conv rid (''Invalid params: missing or null '' @ [squote] @ ''payload'' @ [squote])
       | Some CNull \<Rightarrow> parse_fail conv rid (''Invalid params: missing or null '' @ [squote] @ ''payload'' @ [squote])
       | Some pl \<Rightarrow>
           parsed_bind (opt ''correlation_id'') (\<lambda>c.
           parsed_bind (opt ''trace_id'') (\<lambda>tr.
           parsed_bind (opt ''timestamp'') (\<lambda>ts.
             Inr \<lparr>jsonrpc_request_id = None, env_id = Some i, asap_version = Some v, sender = Some s, recipient = Some r, payload_type = Some t,
                  payload = Some pl, correlation_id = c, trace_id = tr, timestamp = ts\<rparr>)))))))))"

definition asap_envelope_parse :: "(int \<Rightarrow> 64 word) \<Rightarrow> (string \<Rightarrow> cjson option) \<Rightarrow> string \<Rightarrow> asap_envelope parsed" where
  "asap_envelope_parse conv parse json =
     (case parse json of
        None \<Rightarrow> Inl (Some (asap_jsonrpc_error conv (- 32700) ''Parse error'' (Some CNull)))
      | Some root \<Rightarrow>
          (case dup_request_id root of
             None \<Rightarrow> Inl None
           | Some rpc_id \<Rightarrow>
               if string_of (cJSON_GetObjectItemCaseSensitive root ''jsonrpc'') \<noteq> Some ''2.0''
               then parse_fail conv (Some rpc_id) (''Invalid Request: jsonrpc must be '' @ [dquote] @ ''2.0'' @ [dquote])
               else (case string_of (cJSON_GetObjectItemCaseSensitive root ''method'') of
                       Some (c # cs) \<Rightarrow>
                         (case cJSON_GetObjectItemCaseSensitive root ''params'' of
                            Some (CObject ps) \<Rightarrow>
                              parsed_bind (asap_envelope_from_object conv (CObject ps) (Some rpc_id))
                                (\<lambda>e. Inr (e\<lparr>jsonrpc_request_id := Some rpc_id\<rparr>))
                          | _ \<Rightarrow> parse_fail conv (Some rpc_id) ''Invalid Request: params must be an object'')
                     | _ \<Rightarrow> parse_fail conv (Some rpc_id) ''Invalid Request: method must be a non-empty string'')))"

text \<open>The error text of a response parser, before it is cut to the caller's buffer.\<close>

definition asap_envelope_parse_jsonrpc_response ::
  "(int \<Rightarrow> 64 word) \<Rightarrow> (string \<Rightarrow> cjson option) \<Rightarrow> string \<Rightarrow> string + asap_envelope" where
  "asap_envelope_parse_jsonrpc_response conv parse json =
     (case parse json of
        None \<Rightarrow> Inl ''Invalid JSON in response''
      | Some root \<Rightarrow>
          if string_of (cJSON_GetObjectItemCaseSensitive root ''jsonrpc'') \<noteq> Some ''2.0'' then Inl ''Invalid response: jsonrpc''
          else case cJSON_GetObjectItemCaseSensitive root ''error'' of
            Some (CObject er) \<Rightarrow>
              Inl (case string_of (cJSON_GetObjectItemCaseSensitive (CObject er) ''message'') of Some m \<Rightarrow> m | None \<Rightarrow> ''JSON-RPC error'')
          | _ \<Rightarrow>
              (case cJSON_GetObjectItemCaseSensitive root ''result'' of
                 Some (CObject res) \<Rightarrow>
                   (case dup_request_id root of
                      None \<Rightarrow> Inl ''Out of memory''
                    | Some rpc_id \<Rightarrow>
                        (case asap_envelope_from_object conv (CObject res) (Some rpc_id) of
                           Inr e \<Rightarrow> Inr (e\<lparr>jsonrpc_request_id := Some rpc_id\<rparr>)
                         | Inl None \<Rightarrow> Inl ''Invalid result envelope''
                         | Inl (Some err) \<Rightarrow>
                             Inl (case Option.bind (cJSON_GetObjectItem err ''error'') (\<lambda>e. string_of (cJSON_GetObjectItem e ''message'')) of
                                    Some m \<Rightarrow> m | None \<Rightarrow> [])))
               | _ \<Rightarrow> Inl ''Invalid response: missing result''))"

subsection \<open>Writing\<close>

definition opt_member :: "string \<Rightarrow> string option \<Rightarrow> (string \<times> cjson) list" where
  "opt_member k v = (case v of Some s \<Rightarrow> [(k, CString s)] | None \<Rightarrow> [])"

definition envelope_fields_cjson :: "asap_envelope \<Rightarrow> cjson option" where
  "envelope_fields_cjson env =
     (case (env_id env, asap_version env, sender env, recipient env, payload_type env, payload env) of
        (Some i, Some v, Some s, Some r, Some t, Some pl) \<Rightarrow>
          if pl = CNull \<or> \<not> payload_type_is_allowed t then None
          else Some (CObject ([(''id'', CString i), (''asap_version'', CString v), (''sender'', CString s), (''recipient'', CString r),
                 (''payload_type'', CString t), (''payload'', pl)] @
                 opt_member ''correlation_id'' (correlation_id env) @ opt_member ''trace_id'' (trace_id env) @ opt_member ''timestamp'' (timestamp env)))
      | _ \<Rightarrow> None)"

definition response_id :: "cjson option \<Rightarrow> asap_envelope \<Rightarrow> cjson" where
  "response_id i env =
     (case (case i of Some j \<Rightarrow> Some j | None \<Rightarrow> jsonrpc_request_id env) of Some j \<Rightarrow> j | None \<Rightarrow> CNull)"

definition asap_envelope_to_jsonrpc :: "asap_envelope \<Rightarrow> cjson option \<Rightarrow> cjson option" where
  "asap_envelope_to_jsonrpc env i =
     map_option (\<lambda>res. CObject [(''jsonrpc'', CString ''2.0''), (''result'', res), (''id'', response_id i env)]) (envelope_fields_cjson env)"

definition asap_envelope_to_jsonrpc_string :: "(cjson \<Rightarrow> string option) \<Rightarrow> asap_envelope \<Rightarrow> cjson option \<Rightarrow> string option" where
  "asap_envelope_to_jsonrpc_string print env i = Option.bind (asap_envelope_to_jsonrpc env i) print"

definition asap_envelope_to_jsonrpc_request :: "asap_envelope \<Rightarrow> cjson option \<Rightarrow> string \<Rightarrow> cjson option" where
  "asap_envelope_to_jsonrpc_request env i meth =
     map_option (\<lambda>params. CObject [(''jsonrpc'', CString ''2.0''), (''method'', CString (if meth \<noteq> [] then meth else ''asap.send'')),
       (''params'', params), (''id'', response_id i env)]) (envelope_fields_cjson env)"

definition asap_envelope_to_jsonrpc_request_string :: "(cjson \<Rightarrow> string option) \<Rightarrow> asap_envelope \<Rightarrow> cjson option \<Rightarrow> string \<Rightarrow> string option" where
  "asap_envelope_to_jsonrpc_request_string print env i meth = Option.bind (asap_envelope_to_jsonrpc_request env i meth) print"

section \<open>Round trips\<close>

text \<open>An envelope with all that the wire format requires.\<close>

definition complete :: "asap_envelope \<Rightarrow> bool" where
  "complete env \<longleftrightarrow> env_id env \<noteq> None \<and> asap_version env \<noteq> None \<and> sender env \<noteq> None \<and> recipient env \<noteq> None \<and>
     payload env \<noteq> None \<and> payload env \<noteq> Some CNull \<and>
     (case payload_type env of None \<Rightarrow> False | Some t \<Rightarrow> payload_type_is_allowed t)"

lemma lower_fields:
  "lower ''id'' = ''id''" "lower ''asap_version'' = ''asap_version''" "lower ''sender'' = ''sender''" "lower ''recipient'' = ''recipient''"
  "lower ''payload_type'' = ''payload_type''" "lower ''payload'' = ''payload''" "lower ''correlation_id'' = ''correlation_id''"
  "lower ''trace_id'' = ''trace_id''" "lower ''timestamp'' = ''timestamp''" "lower ''jsonrpc'' = ''jsonrpc''" "lower ''method'' = ''method''"
  "lower ''params'' = ''params''" "lower ''result'' = ''result''" "lower ''error'' = ''error''"
  by code_simp+

lemma fields_complete: "envelope_fields_cjson env \<noteq> None \<longleftrightarrow> complete env"
  by (auto simp: envelope_fields_cjson_def complete_def split: option.splits)

lemma fields_object: "envelope_fields_cjson env = Some j \<Longrightarrow> \<exists>ms. j = CObject ms"
  by (auto simp: envelope_fields_cjson_def split: option.splits if_splits)

lemma from_fields:
  assumes "envelope_fields_cjson env = Some j"
  shows "asap_envelope_from_object conv j rid = Inr (env\<lparr>jsonrpc_request_id := None\<rparr>)"
proof -
  obtain i v s r t pl where f: "env_id env = Some i" "asap_version env = Some v" "sender env = Some s" "recipient env = Some r"
    "payload_type env = Some t" "payload env = Some pl" "pl \<noteq> CNull" "payload_type_is_allowed t"
    using assms by (auto simp: envelope_fields_cjson_def split: option.splits if_splits)
  have j: "j = CObject ([(''id'', CString i), (''asap_version'', CString v), (''sender'', CString s), (''recipient'', CString r),
      (''payload_type'', CString t), (''payload'', pl)] @
      opt_member ''correlation_id'' (correlation_id env) @ opt_member ''trace_id'' (trace_id env) @ opt_member ''timestamp'' (timestamp env))"
    using assms f by (simp add: envelope_fields_cjson_def)
  have o: "optional_str_in_params conv j ''correlation_id'' q = Inr (correlation_id env)" "optional_str_in_params conv j ''trace_id'' q = Inr (trace_id env)"
    "optional_str_in_params conv j ''timestamp'' q = Inr (timestamp env)" for q
    unfolding j by (cases "correlation_id env"; cases "trace_id env"; cases "timestamp env";
        simp add: optional_str_in_params_def opt_member_def cJSON_HasObjectItem_def lower_fields)+
  have q: "require_str_in_params conv j ''id'' q = Inr i" "require_str_in_params conv j ''asap_version'' q = Inr v" "require_str_in_params conv j ''sender'' q = Inr s"
    "require_str_in_params conv j ''recipient'' q = Inr r" "require_str_in_params conv j ''payload_type'' q = Inr t"
    "cJSON_GetObjectItemCaseSensitive j ''payload'' = Some pl" "cJSON_IsObject j" for q
    unfolding j by (simp_all add: require_str_in_params_def)
  show ?thesis using f by (cases pl) (simp_all add: asap_envelope_from_object_def o q)
qed

text \<open>(C23) ASAP envelopes survive the wire in both directions.  For an envelope with the required fields and a payload type the
  protocol knows, the request text that is sent and the response text that is returned parse back to the same envelope with the
  JSON-RPC id that was sent; for any other envelope no text is produced.  The JSON printer and parser are assumed to be inverse on
  the trees built here.\<close>

theorem envelope_roundtrip:
  assumes "\<And>j s. asap_envelope_to_jsonrpc_request env i meth = Some j \<or> asap_envelope_to_jsonrpc env i = Some j \<Longrightarrow> print j = Some s \<Longrightarrow>
    parse s = Some j"
  shows "(case asap_envelope_to_jsonrpc_request_string print env i meth of
      Some s \<Rightarrow> asap_envelope_parse conv parse s = Inr (env\<lparr>jsonrpc_request_id := Some (response_id i env)\<rparr>)
    | None \<Rightarrow> complete env \<longrightarrow> print (the (asap_envelope_to_jsonrpc_request env i meth)) = None) \<and>
    (case asap_envelope_to_jsonrpc_string print env i of
      Some s \<Rightarrow> asap_envelope_parse_jsonrpc_response conv parse s = Inr (env\<lparr>jsonrpc_request_id := Some (response_id i env)\<rparr>)
    | None \<Rightarrow> complete env \<longrightarrow> print (the (asap_envelope_to_jsonrpc env i)) = None) \<and>
    (asap_envelope_to_jsonrpc_request env i meth \<noteq> None \<longleftrightarrow> complete env) \<and> (asap_envelope_to_jsonrpc env i \<noteq> None \<longleftrightarrow> complete env)"
proof (cases "envelope_fields_cjson env")
  case None
  then show ?thesis using fields_complete [of env]
    by (simp add: asap_envelope_to_jsonrpc_request_string_def asap_envelope_to_jsonrpc_string_def asap_envelope_to_jsonrpc_request_def
        asap_envelope_to_jsonrpc_def)
next
  case (Some j)
  have c: "complete env" using fields_complete [of env] Some by simp
  obtain ms where ms: "j = CObject ms" using fields_object [OF Some] by blast
  let ?req = "CObject [(''jsonrpc'', CString ''2.0''), (''method'', CString (if meth \<noteq> [] then meth else ''asap.send'')), (''params'', j), (''id'', response_id i env)]"
  let ?res = "CObject [(''jsonrpc'', CString ''2.0''), (''result'', j), (''id'', response_id i env)]"
  have t: "asap_envelope_to_jsonrpc_request env i meth = Some ?req" "asap_envelope_to_jsonrpc env i = Some ?res"
    using Some by (simp_all add: asap_envelope_to_jsonrpc_request_def asap_envelope_to_jsonrpc_def)
  have "asap_envelope_parse conv parse s = Inr (env\<lparr>jsonrpc_request_id := Some (response_id i env)\<rparr>)" if "print ?req = Some s" for s
    using assms [OF disjI1 [OF t(1)] that] from_fields [OF Some] ms
    by (cases meth) (simp_all add: asap_envelope_parse_def dup_request_id_def cJSON_HasObjectItem_def lower_fields)
  moreover have "asap_envelope_parse_jsonrpc_response conv parse s = Inr (env\<lparr>jsonrpc_request_id := Some (response_id i env)\<rparr>)"
    if "print ?res = Some s" for s
    using assms [OF disjI2 [OF t(2)] that] from_fields [OF Some] ms
    by (simp add: asap_envelope_parse_jsonrpc_response_def dup_request_id_def cJSON_HasObjectItem_def lower_fields)
  ultimately show ?thesis using c unfolding asap_envelope_to_jsonrpc_request_string_def asap_envelope_to_jsonrpc_string_def t
    by (auto split: option.splits)
qed

definition demo_envelope :: asap_envelope where
  "demo_envelope = \<lparr>jsonrpc_request_id = None, env_id = Some ''01'', asap_version = Some ''2.1'', sender = Some ''urn:a'', recipient = Some ''urn:b'',
     payload_type = Some ''task.request'', payload = Some (CObject [(''input'', CString ''hi'')]), correlation_id = None, trace_id = Some ''t'', timestamp = None\<rparr>"

definition demo_print :: "cjson \<Rightarrow> string option" where
  "demo_print j = (if Some j = asap_envelope_to_jsonrpc_request demo_envelope (Some CTrue) [] then Some ''q''
     else if Some j = asap_envelope_to_jsonrpc demo_envelope (Some CTrue) then Some ''r'' else None)"

definition demo_parse :: "string \<Rightarrow> cjson option" where
  "demo_parse s = (if s = ''q'' then asap_envelope_to_jsonrpc_request demo_envelope (Some CTrue) [] else asap_envelope_to_jsonrpc demo_envelope (Some CTrue))"

theorem envelope_roundtrip_witness:
  "asap_envelope_parse (\<lambda>_. 0) demo_parse ''q'' = Inr (demo_envelope\<lparr>jsonrpc_request_id := Some CTrue\<rparr>) \<and>
   asap_envelope_parse_jsonrpc_response (\<lambda>_. 0) demo_parse ''r'' = Inr (demo_envelope\<lparr>jsonrpc_request_id := Some CTrue\<rparr>)"
proof -
  have h: "demo_parse s = Some j"
    if "asap_envelope_to_jsonrpc_request demo_envelope (Some CTrue) [] = Some j \<or> asap_envelope_to_jsonrpc demo_envelope (Some CTrue) = Some j"
      "demo_print j = Some s" for j s
    using that by (auto simp: demo_print_def demo_parse_def split: if_splits)
  have "asap_envelope_to_jsonrpc_request_string demo_print demo_envelope (Some CTrue) [] = Some ''q''"
    "asap_envelope_to_jsonrpc_string demo_print demo_envelope (Some CTrue) = Some ''r''" "response_id (Some CTrue) demo_envelope = CTrue" by code_simp+
  then show ?thesis using envelope_roundtrip [of demo_envelope "Some CTrue" "[]" demo_print demo_parse "\<lambda>_. 0", OF h] by simp
qed

end
