(* ===== verification/Asap_Server.thy ===== *)
theory Asap_Server
  imports Envelope Agent Config Ulid
begin

text \<open>
  Inbound ASAP: the dispatch of \<open>src/asap/server.c\<close> and the request body buffer of
  \<open>src/gateway/asap_http_body.c\<close>.  The identifier of a response (what \<open>ulid_generate\<close> stored, theory \<open>Ulid\<close>; \<open>None\<close> when it failed) is an
  argument.  Error texts are given before they are cut to the caller's buffer.  The agent mutex makes each run one step.
\<close>

section \<open>Definitions\<close>

subsection \<open>The request body\<close>

definition ASAP_BODY_MAX :: nat where "ASAP_BODY_MAX = 1024 * 1024"
definition BODY_BUF_SIZE :: nat where "BODY_BUF_SIZE = 65536"

record asap_http_body =
  hb_static :: string
  hb_dyn :: string
  hb_dyn_cap :: nat
  hb_use_dyn :: bool
  hb_too_large :: bool

definition asap_http_body_parse_content_length :: "string \<Rightarrow> int option" where
  "asap_http_body_parse_content_length cl_buf =
     (case strtol_scan cl_buf of
        None \<Rightarrow> None
      | Some (v, rest) \<Rightarrow> if v < LLONG_MIN \<or> v > LLONG_MAX \<or> rest \<noteq> [] then None
          else if v < 0 \<or> v > int ASAP_BODY_MAX then None else Some v)"

definition asap_http_body_exceeds_static_cap :: "asap_http_body \<Rightarrow> int \<Rightarrow> bool" where
  "asap_http_body_exceeds_static_cap b content_length \<longleftrightarrow> \<not> hb_use_dyn b \<and> content_length > int BODY_BUF_SIZE"

text \<open>
  \<open>uri\<close> is the POST URI of the request (\<open>None\<close> when it has none), \<open>cl\<close> its content length header, which libwebsockets copies only when
  it fits the buffer of 32 bytes.
\<close>

definition asap_http_body_init_from_request :: "string option \<Rightarrow> string option \<Rightarrow> asap_http_body \<Rightarrow> int \<times> asap_http_body" where
  "asap_http_body_init_from_request uri cl b =
     (if uri \<noteq> Some ''/asap'' then (0, b)
      else case (case cl of None \<Rightarrow> Some 0 | Some t \<Rightarrow> if t = [] \<or> length t \<ge> 32 then Some 0 else asap_http_body_parse_content_length t) of
        None \<Rightarrow> (- 1, b)
      | Some n \<Rightarrow>
          (0, b\<lparr>hb_dyn := [], hb_dyn_cap := (if n > 0 then nat n else ASAP_BODY_MAX), hb_use_dyn := True, hb_too_large := False\<rparr>))"

definition asap_http_body_append :: "string \<Rightarrow> asap_http_body \<Rightarrow> asap_http_body" where
  "asap_http_body_append inp b =
     (if inp = [] then b
      else if hb_use_dyn b then
        (let remain = hb_dyn_cap b - length (hb_dyn b) in
         b\<lparr>hb_dyn := hb_dyn b @ take remain inp, hb_too_large := (hb_too_large b \<or> length inp > remain)\<rparr>)
      else
        (let remain = BODY_BUF_SIZE - length (hb_static b) - 1 in
         b\<lparr>hb_static := hb_static b @ take remain inp, hb_too_large := (hb_too_large b \<or> length inp > remain)\<rparr>))"

definition asap_http_body_free :: "asap_http_body \<Rightarrow> asap_http_body" where
  "asap_http_body_free b = \<lparr>hb_static = [], hb_dyn = [], hb_dyn_cap = 0, hb_use_dyn = False, hb_too_large = False\<rparr>"

subsection \<open>The server\<close>

definition ASAP_SERVER_AGENT_RESPONSE_CAP :: nat where "ASAP_SERVER_AGENT_RESPONSE_CAP = 256 * 1024"
definition ASAP_TASK_SESSION_ID_CAP :: nat where "ASAP_TASK_SESSION_ID_CAP = 512"
definition RESULT_CAP :: nat where "RESULT_CAP = 65536"
definition ASAP_PROTOCOL_VERSION :: string where "ASAP_PROTOCOL_VERSION = ''2.1''"
definition ASAP_SERVER_RPC_SENDER_UNTRUSTED :: int where "ASAP_SERVER_RPC_SENDER_UNTRUSTED = - 32002"
definition ASAP_SERVER_RPC_TOOL_NOT_FOUND :: int where "ASAP_SERVER_RPC_TOOL_NOT_FOUND = - 32001"

record 'w asap_server_ctx =
  sx_cfg :: "config option"
  sx_agent :: "'w agent_env option"
  sx_tools :: "'w agent_tool list"
  sx_task_request_hook :: "(asap_envelope \<Rightarrow> 'w agent_state \<Rightarrow> (int \<times> string) \<times> 'w agent_state) option"
  sx_tool_call_hook :: "(string \<Rightarrow> string \<Rightarrow> 'w agent_state \<Rightarrow> (int \<times> string) \<times> 'w agent_state) option"
  sx_state_query_hook :: "('w agent_state \<Rightarrow> int \<times> cjson option) option"

definition agent_config_of :: "config \<Rightarrow> agent_config" where
  "agent_config_of cfg = \<lparr>max_context_messages = agent_max_context_messages (c_agent cfg), max_tool_iterations = agent_max_tool_iterations (c_agent cfg)\<rparr>"

definition sender_is_trusted :: "config option \<Rightarrow> string option \<Rightarrow> bool" where
  "sender_is_trusted cfg s =
     (case cfg of
        None \<Rightarrow> True
      | Some c \<Rightarrow>
          let trusted = asap_trusted_senders (c_asap c) in
          if trusted = [] then True
          else case nonempty s of None \<Rightarrow> False | Some x \<Rightarrow> x \<in> set trusted)"

definition payload_pick_string :: "cjson \<Rightarrow> string \<Rightarrow> string option" where
  "payload_pick_string p key = string_of (cJSON_GetObjectItemCaseSensitive p key)"

definition task_payload_to_prompt :: "(cjson \<Rightarrow> string option) \<Rightarrow> cjson \<Rightarrow> string option" where
  "task_payload_to_prompt print p =
     (case payload_pick_string p ''input'' of
        Some s \<Rightarrow> Some s
      | None \<Rightarrow> (case payload_pick_string p ''prompt'' of
          Some s \<Rightarrow> Some s
        | None \<Rightarrow> (case payload_pick_string p ''message'' of Some s \<Rightarrow> Some s | None \<Rightarrow> print p)))"

definition dispatch_tool_by_name :: "'w agent_tool list \<Rightarrow> string \<Rightarrow> string \<Rightarrow> 'w agent_state \<Rightarrow> (int \<times> string) \<times> 'w agent_state" where
  "dispatch_tool_by_name tools name args st =
     (case find (\<lambda>t. at_name t = name) tools of
        None \<Rightarrow> ((1, []), st)
      | Some t \<Rightarrow>
          (case at_execute t of
             None \<Rightarrow> ((2, []), st)
           | Some execute \<Rightarrow> let ((er, r), st') = execute args RESULT_CAP st in ((if er = 0 then 0 else 2, r), st')))"

type_synonym reply = "int \<times> string \<times> asap_envelope"

definition fill_response_envelope :: "string option \<Rightarrow> asap_envelope \<Rightarrow> string \<Rightarrow> cjson \<Rightarrow> string \<Rightarrow> reply" where
  "fill_response_envelope ulid inp ptype pl err =
     (case ulid of
        None \<Rightarrow> (- 32603, err, asap_envelope_init)
      | Some u \<Rightarrow>
          if recipient inp = None \<or> sender inp = None then (- 32603, err, asap_envelope_init)
          else (0, [], asap_envelope_init\<lparr>env_id := Some u, asap_version := Some ASAP_PROTOCOL_VERSION, sender := recipient inp, recipient := sender inp,
                 payload_type := Some ptype, payload := Some pl, correlation_id := correlation_id inp, trace_id := trace_id inp\<rparr>))"

definition asap_resolve_task_session_id :: "string option \<Rightarrow> nat \<Rightarrow> string option" where
  "asap_resolve_task_session_id s buf_size =
     (case nonempty s of
        None \<Rightarrow> Some ''asap:inbound''
      | Some x \<Rightarrow> if buf_size = 0 \<or> length ''asap:'' + length x + 1 > buf_size then None else Some (''asap:'' @ x))"

definition handle_task_request ::
  "(cjson \<Rightarrow> string option) \<Rightarrow> string option \<Rightarrow> asap_envelope \<Rightarrow> 'w asap_server_ctx \<Rightarrow> 'w agent_state \<Rightarrow> reply \<times> 'w agent_state" where
  "handle_task_request print ulid inp ctx st =
     (case nonempty (Option.bind (payload inp) (task_payload_to_prompt print)) of
        None \<Rightarrow> ((- 32602, ''task.request: missing input text in payload'', asap_envelope_init), st)
      | Some prompt \<Rightarrow>
          (case asap_resolve_task_session_id (sender inp) ASAP_TASK_SESSION_ID_CAP of
             None \<Rightarrow> ((- 32602, ''task.request: sender URN length '' @ int_str (int (length (the (sender inp)))) @ '' exceeds session id cap '' @
                      int_str (int ASAP_TASK_SESSION_ID_CAP), asap_envelope_init), st)
           | Some sid \<Rightarrow>
               (case (case sx_task_request_hook ctx of
                        Some hook \<Rightarrow> Some (hook inp st)
                      | None \<Rightarrow>
                          (case (sx_cfg ctx, sx_agent ctx) of
                             (Some cfg, Some env) \<Rightarrow>
                               (let (ar, resp, st') = agent_run env (agent_config_of cfg) sid prompt (sx_tools ctx) ASAP_SERVER_AGENT_RESPONSE_CAP st in
                                Some ((ar, resp), st'))
                           | _ \<Rightarrow> None)) of
                  None \<Rightarrow> ((- 32603, ''task.request: server missing cfg or provider'', asap_envelope_init), st)
                | Some ((ar, resp), st') \<Rightarrow>
                    if ar \<noteq> 0 then ((- 32603, if resp \<noteq> [] then resp else ''agent_run failed'', asap_envelope_init), st')
                    else (fill_response_envelope ulid inp ''task.response'' (CObject [(''output'', CString resp)])
                            ''task.request: failed to build envelope'', st'))))"

definition handle_task_cancel :: "string option \<Rightarrow> asap_envelope \<Rightarrow> reply" where
  "handle_task_cancel ulid inp =
     fill_response_envelope ulid inp ''task.response''
       (CObject [(''cancelled'', CFalse), (''reason'', CString ''cancellation not supported in this build'')]) ''task.cancel: failed to build envelope''"

definition handle_state_query :: "(int \<Rightarrow> 64 word) \<Rightarrow> string option \<Rightarrow> asap_envelope \<Rightarrow> 'w asap_server_ctx \<Rightarrow> 'w agent_state \<Rightarrow> reply" where
  "handle_state_query conv ulid inp ctx st =
     (let fill = (\<lambda>pl. fill_response_envelope ulid inp ''task.response'' pl ''state.query: failed to build envelope'') in
      case sx_state_query_hook ctx of
        Some hook \<Rightarrow> (let (rc, out) = hook st in case out of Some pl \<Rightarrow> if rc = 0 then fill pl else (- 32603, ''state.query: hook failed'', asap_envelope_init)
          | None \<Rightarrow> (- 32603, ''state.query: hook failed'', asap_envelope_init))
      | None \<Rightarrow>
          (case memory_get_row_counts (fst st) of
             None \<Rightarrow> (- 32603, ''state.query: memory store unavailable'', asap_envelope_init)
           | Some (sess, mem, cron) \<Rightarrow>
               fill (CObject [(''sessions'', CNumber (conv (int sess))), (''memories'', CNumber (conv (int mem))), (''cron_jobs'', CNumber (conv (int cron)))])))"

definition args_json_from_payload :: "(cjson \<Rightarrow> string option) \<Rightarrow> cjson \<Rightarrow> string + string" where
  "args_json_from_payload print p =
     (case cJSON_GetObjectItemCaseSensitive p ''arguments'' of
        None \<Rightarrow> Inr ''{}''
      | Some (CString s) \<Rightarrow> Inr s
      | Some j \<Rightarrow>
          if cJSON_IsObject j \<or> cJSON_IsArray j
          then (case print j of Some aj \<Rightarrow> Inr aj | None \<Rightarrow> Inl ''mcp.tool_call: allocation failed'')
          else Inl ''mcp.tool_call: invalid arguments field'')"

definition handle_mcp_tool_call ::
  "(cjson \<Rightarrow> string option) \<Rightarrow> string option \<Rightarrow> asap_envelope \<Rightarrow> 'w asap_server_ctx \<Rightarrow> 'w agent_state \<Rightarrow> reply \<times> 'w agent_state" where
  "handle_mcp_tool_call print ulid inp ctx st =
     (case Option.bind (payload inp) (\<lambda>p. payload_pick_string p ''name'') of
        None \<Rightarrow> ((- 32602, ''mcp.tool_call: missing name'', asap_envelope_init), st)
      | Some name \<Rightarrow>
          (case args_json_from_payload print (the (payload inp)) of
             Inl e \<Rightarrow> ((- 32602, e, asap_envelope_init), st)
           | Inr args \<Rightarrow>
               let ((rc, r), st') =
                 (case sx_tool_call_hook ctx of
                    Some hook \<Rightarrow> (let ((hr, t), st1) = hook name args st in ((if hr = 0 then 0 else 2, t), st1))
                  | None \<Rightarrow> dispatch_tool_by_name (sx_tools ctx) name args st) in
               if rc = 1 then ((ASAP_SERVER_RPC_TOOL_NOT_FOUND, ''mcp.tool_call: unknown tool'', asap_envelope_init), st')
               else if rc \<noteq> 0 then ((- 32603, if r \<noteq> [] then r else ''mcp.tool_call: tool execute failed'', asap_envelope_init), st')
               else (fill_response_envelope ulid inp ''mcp.tool_result'' (CObject [(''result'', CString r)]) ''mcp.tool_call: failed to build envelope'', st')))"

definition asap_server_handle ::
  "(int \<Rightarrow> 64 word) \<Rightarrow> (cjson \<Rightarrow> string option) \<Rightarrow> string option \<Rightarrow> asap_envelope \<Rightarrow> 'w asap_server_ctx \<Rightarrow> 'w agent_state \<Rightarrow> reply \<times> 'w agent_state" where
  "asap_server_handle conv print ulid inp ctx st =
     (case payload_type inp of
        None \<Rightarrow> ((- 32602, ''missing envelope fields'', asap_envelope_init), st)
      | Some t \<Rightarrow>
          if payload inp = None then ((- 32602, ''missing envelope fields'', asap_envelope_init), st)
          else if \<not> sender_is_trusted (sx_cfg ctx) (sender inp)
          then ((ASAP_SERVER_RPC_SENDER_UNTRUSTED, ''sender not trusted'', asap_envelope_init), st)
          else if t = ''task.response'' \<or> t = ''mcp.tool_result''
          then ((- 32601, ''payload_type not accepted on inbound server'', asap_envelope_init), st)
          else if t = ''task.request'' then handle_task_request print ulid inp ctx st
          else if t = ''task.cancel'' then (handle_task_cancel ulid inp, st)
          else if t = ''state.query'' then (handle_state_query conv ulid inp ctx st, st)
          else if t = ''mcp.tool_call'' then handle_mcp_tool_call print ulid inp ctx st
          else ((- 32601, ''unsupported payload_type'', asap_envelope_init), st))"

section \<open>Replies\<close>

text \<open>A reply to the envelope \<open>inp\<close>: complete, sent back to its sender, under the same correlation and trace ids.\<close>

definition answers :: "asap_envelope \<Rightarrow> asap_envelope \<Rightarrow> bool" where
  "answers inp out \<longleftrightarrow> complete out \<and> sender out = recipient inp \<and> recipient out = sender inp \<and> asap_version out = Some ASAP_PROTOCOL_VERSION \<and>
     correlation_id out = correlation_id inp \<and> trace_id out = trace_id inp \<and> payload_type out \<in> {Some ''task.response'', Some ''mcp.tool_result''}"

definition reply_ok :: "asap_envelope \<Rightarrow> reply \<Rightarrow> bool" where
  "reply_ok inp r = (case r of (rc, err, out) \<Rightarrow> if rc = 0 then answers inp out else rc < 0 \<and> err \<noteq> [] \<and> out = asap_envelope_init)"

lemma fill_ok:
  "pl \<noteq> CNull \<Longrightarrow> err \<noteq> [] \<Longrightarrow> t \<in> {''task.response'', ''mcp.tool_result''} \<Longrightarrow> reply_ok inp (fill_response_envelope ulid inp t pl err)"
  by (auto simp: reply_ok_def answers_def complete_def fill_response_envelope_def payload_type_is_allowed_def allowed_payload_types_def
      asap_envelope_init_def split: option.splits)

lemma error_ok: "rc < 0 \<Longrightarrow> err \<noteq> [] \<Longrightarrow> reply_ok inp (rc, err, asap_envelope_init)"
  by (simp add: reply_ok_def)

lemma task_request_ok: "reply_ok inp (fst (handle_task_request print ulid inp ctx st))"
  unfolding handle_task_request_def by (auto intro!: fill_ok error_ok split: option.splits prod.splits)

lemma state_query_ok: "sx_state_query_hook ctx = None \<Longrightarrow> reply_ok inp (handle_state_query conv ulid inp ctx st)"
  unfolding handle_state_query_def Let_def by (auto intro!: fill_ok error_ok split: option.splits prod.splits)

lemma args_error: "args_json_from_payload print p = Inl e \<Longrightarrow> e \<noteq> []"
  by (auto simp: args_json_from_payload_def split: option.splits cjson.splits if_splits)

lemma tool_call_ok: "reply_ok inp (fst (handle_mcp_tool_call print ulid inp ctx st))"
  unfolding handle_mcp_tool_call_def Let_def ASAP_SERVER_RPC_TOOL_NOT_FOUND_def
  by (auto intro!: fill_ok error_ok dest: args_error split: option.splits prod.splits sum.splits)

section \<open>Which requests change anything\<close>

lemma nonempty_other: "nonempty v = Some x \<Longrightarrow> v = Some x"
  by (cases v) (auto simp: nonempty_def split: list.splits)

text \<open>The sessions a run on behalf of \<open>s\<close> may not touch.\<close>

definition others_kept :: "string \<Rightarrow> memdb option \<Rightarrow> memdb option \<Rightarrow> bool" where
  "others_kept sid db db' \<longleftrightarrow> (case (db, db') of
      (Some d, Some d') \<Rightarrow> (\<forall>k. k \<noteq> sid \<longrightarrow> find_session k d' = find_session k d)
    | (None, None) \<Rightarrow> True
    | _ \<Rightarrow> False)"

lemma save_keeps_others: "others_kept sid db db' \<Longrightarrow> others_kept sid db (snd (session_save sid msgs now db'))"
  by (auto simp: others_kept_def session_save_def sess.get_put_other split: option.splits)

lemma others_kept_refl [simp]: "others_kept sid db db"
  by (simp add: others_kept_def split: option.splits)

lemma task_request_others:
  assumes "sx_task_request_hook ctx = None" "tools_keep (\<lambda>s. others_kept sid (fst st) (fst s)) (sx_tools ctx)"
    "asap_resolve_task_session_id (sender inp) ASAP_TASK_SESSION_ID_CAP = Some sid"
  shows "others_kept sid (fst st) (fst (snd (handle_task_request print ulid inp ctx st)))"
proof -
  have "others_kept sid (fst st) (fst (snd (snd (agent_run env cfg sid u (sx_tools ctx) n st))))" for env cfg u n
    by (rule agent_run_keeps_db [OF assms(2)]) (simp_all add: save_keeps_others)
  then show ?thesis using assms(1,3)
    by (auto simp: handle_task_request_def split: option.splits prod.splits) (metis fst_conv snd_conv)+
qed


text \<open>Different senders have different conversations; only the name \<open>inbound\<close> meets the one of an empty sender.\<close>

lemma task_session_injective:
  assumes "asap_resolve_task_session_id (Some a) n = Some sid" "asap_resolve_task_session_id (Some b) n = Some sid"
  shows "a = b \<or> {a, b} = {[], ''inbound''}"
  using assms by (cases a; cases b) (auto simp: asap_resolve_task_session_id_def nonempty_def split: if_splits)

text \<open>The body buffers never hold more than they can, and a body that was cut is flagged.\<close>

definition body_ok :: "asap_http_body \<Rightarrow> bool" where
  "body_ok b \<longleftrightarrow> length (hb_static b) < BODY_BUF_SIZE \<and> (hb_use_dyn b \<longrightarrow> length (hb_dyn b) \<le> hb_dyn_cap b)"

lemma body_append_ok: "body_ok b \<Longrightarrow> body_ok (asap_http_body_append inp b)"
  by (auto simp: body_ok_def asap_http_body_append_def Let_def min_def)

lemma body_append_whole:
  assumes "hb_use_dyn b" "\<not> hb_too_large (asap_http_body_append inp b)"
  shows "hb_dyn (asap_http_body_append inp b) = hb_dyn b @ inp"
  using assms by (auto simp: asap_http_body_append_def Let_def split: if_splits)

definition demo_ctx :: "nat asap_server_ctx" where
  "demo_ctx = \<lparr>sx_cfg = Some config_defaults, sx_agent = Some demo_agent_env, sx_tools = [], sx_task_request_hook = None,
     sx_tool_call_hook = None, sx_state_query_hook = None\<rparr>"


end
