(* ===== verification/Http_Reply.thy ===== *)
theory Http_Reply
  imports Cjson Config
begin

text \<open>
  What the handlers of the gateway share: \<open>uri_match.h\<close>, the JSON replies and the small parsers of \<open>routes.c\<close>, the path tests of
  \<open>http_lws.c\<close>, the asset lookup of \<open>static.c\<close> and the choice of the listening interface in \<open>http.h\<close>.  A reply is the status and the
  text that a handler leaves in the response buffer of \<open>size\<close> bytes.
\<close>

section \<open>Definitions\<close>

definition RESP_BUF_SIZE :: nat where "RESP_BUF_SIZE = 65536"
definition CONFIG_BODY_MAX :: nat where "CONFIG_BODY_MAX = 65536"

datatype http_method = HTTP_GET | HTTP_POST | HTTP_PUT | HTTP_DELETE

record http_reply =
  rp_status :: int
  rp_body :: string

subsection \<open>Paths\<close>

definition uri_exact_eq :: "string \<Rightarrow> int \<Rightarrow> string \<Rightarrow> bool" where
  "uri_exact_eq uri uri_len path \<longleftrightarrow> uri_len = int (length path) \<and> prefix path uri"

definition uri_has_prefix :: "string \<Rightarrow> int \<Rightarrow> string \<Rightarrow> bool" where
  "uri_has_prefix uri uri_len pre \<longleftrightarrow> uri_len \<ge> int (length pre) \<and> prefix pre uri"

text \<open>The segment after the prefix, as a C string; \<open>memchr\<close> and \<open>memcpy\<close> do not stop at a zero byte.\<close>

definition extract_path_param :: "string \<Rightarrow> int \<Rightarrow> string \<Rightarrow> nat \<Rightarrow> string option" where
  "extract_path_param uri uri_len pre out_size =
     (if uri_len \<le> int (length pre) then None
      else let rest_len = nat (uri_len - int (length pre));
               rest = take rest_len (drop (length pre) uri);
               seg_len = (case find_index (\<lambda>c. c = CHR ''/'') rest of Some i \<Rightarrow> i | None \<Rightarrow> rest_len) in
        if seg_len = 0 \<or> seg_len \<ge> out_size then None else Some (cstr (take seg_len rest)))"

definition is_static_path :: "string \<Rightarrow> int \<Rightarrow> http_method \<Rightarrow> bool" where
  "is_static_path uri uri_len meth =
     (if meth \<noteq> HTTP_GET then False
      else if uri_exact_eq uri uri_len ''/health'' then False
      else if uri_exact_eq uri uri_len ''/pair'' then False
      else if uri_has_prefix uri uri_len ''/.well-known/'' then False
      else if uri_has_prefix uri uri_len ''/api/'' then False
      else True)"

definition requires_auth :: "string \<Rightarrow> int \<Rightarrow> bool" where
  "requires_auth uri uri_len =
     (if uri_exact_eq uri uri_len ''/health'' then False
      else if uri_exact_eq uri uri_len ''/pair'' then False
      else if uri_has_prefix uri uri_len ''/.well-known/'' then False
      else if uri_exact_eq uri uri_len ''/'' then False
      else if uri_has_prefix uri uri_len ''/api/'' then True
      else False)"

text \<open>The generated table of assets: path, content and content type; its first entry is the start page.\<close>

type_synonym ui_asset = "string \<times> string \<times> string"

definition static_lookup :: "ui_asset list \<Rightarrow> string \<Rightarrow> (string \<times> string) option" where
  "static_lookup ui_asset_table path =
     (let p = takeWhile (\<lambda>c. c \<noteq> CHR ''?'') path in
      if p = [] then None
      else case find (\<lambda>a. fst a = p) ui_asset_table of
        Some a \<Rightarrow> Some (snd a)
      | None \<Rightarrow> Some (fst (snd (hd ui_asset_table)), ''text/html''))"

subsection \<open>Replies\<close>

definition json_response :: "nat \<Rightarrow> string \<Rightarrow> http_reply \<Rightarrow> http_reply" where
  "json_response sz json r = (if sz = 0 then r else \<lparr>rp_status = 200, rp_body = take (if length json \<ge> sz then sz - 1 else length json) json\<rparr>)"

text \<open>A reply whose text cannot be printed keeps what the buffer holds.\<close>

definition json_error :: "(cjson \<Rightarrow> string option) \<Rightarrow> nat \<Rightarrow> int \<Rightarrow> string \<Rightarrow> http_reply \<Rightarrow> http_reply" where
  "json_error print sz code msg r =
     (if sz = 0 then r
      else case print (CObject [(''error'', CString msg)]) of
        None \<Rightarrow> r\<lparr>rp_status := code\<rparr>
      | Some s \<Rightarrow> \<lparr>rp_status = code, rp_body = take (if length s \<ge> sz then sz - 1 else length s) s\<rparr>)"

definition json_print_to_buf :: "(cjson \<Rightarrow> string option) \<Rightarrow> nat \<Rightarrow> cjson \<Rightarrow> http_reply \<Rightarrow> bool \<times> http_reply" where
  "json_print_to_buf print sz obj r =
     (case print obj of
        None \<Rightarrow> (False, json_error print sz 500 ''Internal error'' r)
      | Some s \<Rightarrow> (True, json_response sz s r))"

text \<open>Most handlers print their answer and report a failure to do so.\<close>

definition print_or_500 :: "(cjson \<Rightarrow> string option) \<Rightarrow> nat \<Rightarrow> cjson \<Rightarrow> http_reply \<Rightarrow> http_reply" where
  "print_or_500 print sz obj r = snd (json_print_to_buf print sz obj r)"

definition jsonrpc_error :: "(cjson \<Rightarrow> string option) \<Rightarrow> (int \<Rightarrow> 64 word) \<Rightarrow> nat \<Rightarrow> int \<Rightarrow> int \<Rightarrow> string \<Rightarrow> http_reply \<Rightarrow> http_reply" where
  "jsonrpc_error print conv sz http_code rpc_code msg r =
     (if sz = 0 then r
      else case print (CObject [(''jsonrpc'', CString ''2.0''), (''id'', CNull),
             (''error'', CObject [(''code'', CNumber (conv rpc_code)), (''message'', CString msg)])]) of
        None \<Rightarrow> r\<lparr>rp_status := http_code\<rparr>
      | Some s \<Rightarrow> \<lparr>rp_status = http_code, rp_body = take (if length s \<ge> sz then sz - 1 else length s) s\<rparr>)"

definition write_asap_jsonrpc :: "(cjson \<Rightarrow> string option) \<Rightarrow> (int \<Rightarrow> 64 word) \<Rightarrow> nat \<Rightarrow> string \<Rightarrow> http_reply \<Rightarrow> bool \<times> http_reply" where
  "write_asap_jsonrpc print conv sz resp_json r =
     (if length resp_json \<ge> sz
      then (False, jsonrpc_error print conv sz 500 (- 32603)
              (buf_trunc 96 (''ASAP response length '' @ nat_str (length resp_json) @ '' exceeds gateway buffer '' @ nat_str sz)) r)
      else (True, \<lparr>rp_status = 200, rp_body = resp_json\<rparr>))"

subsection \<open>Arguments\<close>

definition MEMORY_API_LIMIT_DEFAULT :: int where "MEMORY_API_LIMIT_DEFAULT = 20"
definition MEMORY_API_LIMIT_MAX :: int where "MEMORY_API_LIMIT_MAX = 100"

definition parse_memory_limit_arg :: "string option \<Rightarrow> int" where
  "parse_memory_limit_arg raw =
     (case nonempty raw of
        None \<Rightarrow> MEMORY_API_LIMIT_DEFAULT
      | Some s \<Rightarrow>
          (case strtol_scan s of
             None \<Rightarrow> MEMORY_API_LIMIT_DEFAULT
           | Some _ \<Rightarrow>
               let (val, rest) = strtol10 s in
               if rest \<noteq> [] then MEMORY_API_LIMIT_DEFAULT
               else if val < 1 then 1
               else if val > MEMORY_API_LIMIT_MAX then MEMORY_API_LIMIT_MAX
               else val))"

fun body_is_json_object :: "string \<Rightarrow> bool" where
  "body_is_json_object [] = False"
| "body_is_json_object (c # cs) =
     (if c = CHR '' '' \<or> c = tab \<or> c = CHR 0x0D \<or> c = newline then body_is_json_object cs else c = CHR ''{'')"

subsection \<open>The interface to listen on\<close>

definition INET6_ADDRSTRLEN :: nat where "INET6_ADDRSTRLEN = 46"

definition http_host_without_brackets :: "string \<Rightarrow> nat \<Rightarrow> string" where
  "http_host_without_brackets host buf_sz =
     (if ch host 0 \<noteq> CHR ''['' then host
      else if length host < 2 \<or> last host \<noteq> CHR '']'' then host
      else if length host - 2 \<ge> buf_sz then host
      else take (length host - 2) (drop 1 host))"

text \<open>\<open>pton4\<close> and \<open>pton6\<close> are \<open>inet_pton\<close> for the two address families: the address, or \<open>None\<close> for text that is none.\<close>

definition http_host_is_bind_all :: "(string \<Rightarrow> 32 word option) \<Rightarrow> (string \<Rightarrow> 128 word option) \<Rightarrow> string \<Rightarrow> bool" where
  "http_host_is_bind_all pton4 pton6 host =
     (if host = [] \<or> host = ''*'' then True
      else let p = http_host_without_brackets host INET6_ADDRSTRLEN in
        if p = [] \<or> p = ''*'' then True
        else case pton4 p of
          Some a4 \<Rightarrow> a4 = 0
        | None \<Rightarrow> (case pton6 p of Some a6 \<Rightarrow> a6 = 0 | None \<Rightarrow> False))"

text \<open>\<open>None\<close> refuses to start; \<open>Some None\<close> listens on all interfaces.\<close>

definition http_listen_iface :: "(string \<Rightarrow> 32 word option) \<Rightarrow> (string \<Rightarrow> 128 word option) \<Rightarrow> string \<Rightarrow> bool \<Rightarrow> string option option" where
  "http_listen_iface pton4 pton6 host allow_bind_all =
     (if http_host_is_bind_all pton4 pton6 host then (if \<not> allow_bind_all then None else Some None) else Some (Some host))"

section \<open>Lemmas\<close>

text \<open>The status a reply ends with.\<close>

lemma status_simps [simp]:
  "0 < sz \<Longrightarrow> rp_status (json_response sz json r) = 200"
  "0 < sz \<Longrightarrow> rp_status (json_error print sz code msg r) = code"
  "0 < sz \<Longrightarrow> rp_status (jsonrpc_error print conv sz http_code rpc_code msg r) = http_code"
  by (auto simp: json_response_def json_error_def jsonrpc_error_def split: option.splits)

lemma print_or_500_status: "0 < sz \<Longrightarrow> rp_status (print_or_500 print sz obj r) \<in> {200, 500}"
  by (auto simp: print_or_500_def json_print_to_buf_def split: option.splits)

text \<open>Whatever a handler writes fits the buffer with its terminator.\<close>

lemma reply_fits:
  assumes "length (rp_body r) < sz"
  shows "length (rp_body (json_response sz json r)) < sz" "length (rp_body (json_error print sz code msg r)) < sz"
    "length (rp_body (print_or_500 print sz obj r)) < sz" "length (rp_body (jsonrpc_error print conv sz hc rc msg r)) < sz"
    "length (rp_body (snd (write_asap_jsonrpc print conv sz resp_json r))) < sz"
  using assms by (auto simp: json_response_def json_error_def print_or_500_def json_print_to_buf_def jsonrpc_error_def write_asap_jsonrpc_def
      split: option.splits)

text \<open>A path is either matched exactly or not at all: two exact matches agree, and an exact match decides every prefix test.\<close>

lemma exact_eq_unique: "uri_exact_eq uri n p \<Longrightarrow> uri_exact_eq uri n q \<longleftrightarrow> p = q"
  by (auto simp: uri_exact_eq_def) (metis prefix_length_prefix prefix_order.antisym order_refl)

lemma exact_has_prefix: "uri_exact_eq uri n p \<Longrightarrow> uri_has_prefix uri n q \<longleftrightarrow> prefix q p"
  by (auto simp: uri_exact_eq_def uri_has_prefix_def dest: prefix_length_prefix prefix_length_le prefix_order.trans)

lemma prefix_chain: "uri_has_prefix uri n p \<Longrightarrow> prefix q p \<Longrightarrow> uri_has_prefix uri n q"
  by (auto simp: uri_has_prefix_def dest: prefix_length_le prefix_order.trans)

text \<open>Exactly the paths under \<open>/api/\<close> need a token.\<close>

lemma requires_auth_iff: "requires_auth uri n \<longleftrightarrow> uri_has_prefix uri n ''/api/''"
proof -
  have "\<not> uri_has_prefix uri n ''/api/''" if "uri_has_prefix uri n ''/.well-known/''"
    using that unfolding uri_has_prefix_def by (auto simp: prefix_def)
  then show ?thesis by (auto simp: requires_auth_def exact_has_prefix)
qed

lemma extract_path_param_segment:
  assumes "extract_path_param uri n pre sz = Some s"
  shows "CHR ''/'' \<notin> set s" "length s < sz"
proof -
  let ?rest = "take (nat (n - int (length pre))) (drop (length pre) uri)"
  let ?k = "case find_index (\<lambda>c. c = CHR ''/'') ?rest of Some i \<Rightarrow> i | None \<Rightarrow> nat (n - int (length pre))"
  have s: "s = cstr (take ?k ?rest)" "?k < sz" using assms by (auto simp: extract_path_param_def Let_def split: if_splits)
  have sub: "set s \<subseteq> set (take ?k ?rest)" "length s \<le> length (take ?k ?rest)"
    using s(1) cstr_prefix [of "take ?k ?rest"] by (auto dest: set_mono_prefix prefix_length_le)
  have "CHR ''/'' \<notin> set (take ?k ?rest)"
  proof (cases "find_index (\<lambda>c. c = CHR ''/'') ?rest")
    case None
    then show ?thesis using find_index_None_iff [of "\<lambda>c. c = CHR ''/''" ?rest] by (auto dest: in_set_takeD)
  next
    case (Some i)
    note f = find_index_Some [OF Some]
    then show ?thesis using Some by (auto simp: in_set_conv_nth)
  qed
  then show "CHR ''/'' \<notin> set s" using sub(1) by blast
  show "length s < sz" using sub(2) s(2) by simp
qed

lemma memory_limit_range: "1 \<le> parse_memory_limit_arg raw \<and> parse_memory_limit_arg raw \<le> MEMORY_API_LIMIT_MAX"
  by (auto simp: parse_memory_limit_arg_def MEMORY_API_LIMIT_DEFAULT_def MEMORY_API_LIMIT_MAX_def Let_def split: option.splits prod.splits)

lemma bind_all_needs_consent:
  "http_listen_iface pton4 pton6 host allow = Some iface \<Longrightarrow> http_host_is_bind_all pton4 pton6 host \<or> iface = None \<Longrightarrow> allow"
  by (auto simp: http_listen_iface_def split: if_splits)

text \<open>A text that does not fit is cut in a successful reply, so that the JSON sent is not the JSON printed.\<close>

lemma cut_reply:
  assumes "sz \<le> length json" "0 < sz"
  shows "json_response sz json r = \<lparr>rp_status = 200, rp_body = take (sz - 1) json\<rparr>" "rp_body (json_response sz json r) \<noteq> json"
  using assms by (auto simp: json_response_def)

end
