(* ===== verification/Skill.thy ===== *)
theory Skill
  imports Atomic_Write Config
begin

text \<open>
  \<open>src/core/skill.c\<close>: skill files in the skills directory, their text for the system prompt, and the cache that the watch thread refreshes.
  File contents are the map \<open>fsys\<close>, a directory is the list of names \<open>readdir\<close> yields (\<open>None\<close> when it cannot be opened).  The watch
  thread's part is \<open>do_reload_cache\<close>, one step under the mutex; \<open>inotify\<close> and the thread itself are left out.  A short read, which the
  code takes for the end of the file, does not occur.
\<close>

section \<open>Definitions\<close>

definition SKILL_SEP :: string where "SKILL_SEP = [newline, newline] @ ''---'' @ [newline, newline]"
definition PROMPT_SEP :: string where "PROMPT_SEP = [newline, newline]"
definition READ_CHUNK :: nat where "READ_CHUNK = 4096"
definition MAX_PATH_LEN :: nat where "MAX_PATH_LEN = 1024"
definition SKILL_CACHE_SIZE :: nat where "SKILL_CACHE_SIZE = 32 * 1024"

record skill_state =
  g_skills_cache :: "string option"
  g_watch_running :: bool
  g_watch_cfg :: "config option"

definition ends_with_md :: "string \<Rightarrow> bool" where
  "ends_with_md name \<longleftrightarrow> length name \<ge> 3 \<and> drop (length name - 3) name = ''.md''"

definition append_str :: "nat \<Rightarrow> string \<Rightarrow> string \<Rightarrow> string" where
  "append_str out_size buf str =
     (let remain = (if out_size > length buf then out_size - length buf - 1 else 0) in
      if remain = 0 then buf else buf @ take remain str)"

text \<open>What one \<open>fgets\<close> into a buffer of \<open>n\<close> bytes takes: up to and with the first newline, at most \<open>n - 1\<close> bytes.\<close>

definition fgets_len :: "nat \<Rightarrow> string \<Rightarrow> nat" where
  "fgets_len n s = (case find_index (\<lambda>c. c = newline) (take (n - 1) s) of Some i \<Rightarrow> Suc i | None \<Rightarrow> min (n - 1) (length s))"

function fgets_chunks :: "nat \<Rightarrow> string \<Rightarrow> string list" where
  "fgets_chunks n s =
     (if s = [] \<or> n \<le> 1 then [] else take (fgets_len n s) s # fgets_chunks n (drop (fgets_len n s) s))"
  by pat_completeness auto
termination
proof (relation "measure (\<lambda>(n, s). length s)")
  fix n :: nat and s :: string assume "\<not> (s = [] \<or> n \<le> 1)"
  then have "0 < fgets_len n s" by (auto simp: fgets_len_def split: option.splits)
  then show "((n, drop (fgets_len n s) s), n, s) \<in> measure (\<lambda>(n, s). length s)" using \<open>\<not> (s = [] \<or> n \<le> 1)\<close> by simp
qed simp

declare fgets_chunks.simps [simp del]

fun append_chunks :: "nat \<Rightarrow> string \<Rightarrow> string list \<Rightarrow> string" where
  "append_chunks out_size buf [] = buf"
| "append_chunks out_size buf (c # cs) =
     (if length buf < out_size - 1 then append_chunks out_size (buf @ take (out_size - length buf - 1) (cstr c)) cs else buf)"

definition append_file_content :: "nat \<Rightarrow> string \<Rightarrow> string \<Rightarrow> string" where
  "append_file_content out_size buf content = append_chunks out_size buf (fgets_chunks READ_CHUNK content)"

definition append_file_by_path :: "fsys \<Rightarrow> nat \<Rightarrow> string \<Rightarrow> string \<Rightarrow> string" where
  "append_file_by_path fs out_size buf path =
     (if path = [] then buf else case fs path of None \<Rightarrow> buf | Some content \<Rightarrow> append_file_content out_size buf content)"

definition skills_dir_of :: "config \<Rightarrow> string option" where
  "skills_dir_of cfg = (case skills_dir (c_storage cfg) of None \<Rightarrow> None | Some d \<Rightarrow> if d = [] then None else Some d)"

fun load_entries :: "fsys \<Rightarrow> string \<Rightarrow> nat \<Rightarrow> bool \<Rightarrow> string \<Rightarrow> string list \<Rightarrow> string" where
  "load_entries fs dir_path out_size first buf [] = buf"
| "load_entries fs dir_path out_size first buf (name # names) =
     (if ch name 0 = CHR ''.'' then load_entries fs dir_path out_size first buf names
      else if \<not> ends_with_md name then load_entries fs dir_path out_size first buf names
      else case snprintf_checked MAX_PATH_LEN (dir_path @ ''/'' @ name) of
        None \<Rightarrow> load_entries fs dir_path out_size first buf names
      | Some path \<Rightarrow>
          (case fs path of
             None \<Rightarrow> load_entries fs dir_path out_size first buf names
           | Some content \<Rightarrow>
               load_entries fs dir_path out_size False
                 (append_file_content out_size (if first then buf else append_str out_size buf SKILL_SEP) content) names))"

definition load_skills_from_disk :: "fsys \<Rightarrow> (string \<Rightarrow> string list option) \<Rightarrow> config \<Rightarrow> nat \<Rightarrow> int \<times> string" where
  "load_skills_from_disk fs dirs cfg out_size =
     (if out_size = 0 then (-1, [])
      else case skills_dir_of cfg of
        None \<Rightarrow> (0, [])
      | Some dir_path \<Rightarrow>
          (case dirs dir_path of
             None \<Rightarrow> (0, [])
           | Some names \<Rightarrow> (0, load_entries fs dir_path out_size True [] names)))"

definition do_reload_cache :: "fsys \<Rightarrow> (string \<Rightarrow> string list option) \<Rightarrow> skill_state \<Rightarrow> skill_state" where
  "do_reload_cache fs dirs s =
     (case g_watch_cfg s of
        None \<Rightarrow> s
      | Some cfg \<Rightarrow> s\<lparr>g_skills_cache := Some (snd (load_skills_from_disk fs dirs cfg SKILL_CACHE_SIZE))\<rparr>)"

definition skill_load_all :: "fsys \<Rightarrow> (string \<Rightarrow> string list option) \<Rightarrow> config \<Rightarrow> nat \<Rightarrow> skill_state \<Rightarrow> int \<times> string" where
  "skill_load_all fs dirs cfg out_size s =
     (if out_size = 0 then (-1, [])
      else if g_watch_running s \<and> g_skills_cache s \<noteq> None then (0, take (out_size - 1) (the (g_skills_cache s)))
      else load_skills_from_disk fs dirs cfg out_size)"

definition skill_build_system_prompt_base :: "fsys \<Rightarrow> config \<Rightarrow> string option \<Rightarrow> nat \<Rightarrow> int \<times> string" where
  "skill_build_system_prompt_base fs cfg skills_content out_size =
     (if out_size = 0 then (-1, [])
      else let part = (\<lambda>path buf. case path of None \<Rightarrow> buf
                        | Some p \<Rightarrow> if p = [] then buf else append_str out_size (append_file_by_path fs out_size buf p) PROMPT_SEP);
               buf = part (agent_soul_path (c_agent cfg)) [];
               buf = part (agent_identity_path (c_agent cfg)) buf in
        (0, case skills_content of None \<Rightarrow> buf | Some t \<Rightarrow> if t = [] then buf else append_str out_size buf t))"

fun no_separator :: "string \<Rightarrow> bool" where
  "no_separator [] = True"
| "no_separator (c # cs) =
     (if c = CHR ''/'' \<or> c = CHR 0x5C then False
      else if c = CHR ''.'' \<and> ch cs 0 = CHR ''.'' then False
      else no_separator cs)"

definition is_safe_skill_name :: "string \<Rightarrow> bool" where
  "is_safe_skill_name name = (if name = [] then False else if ch name 0 = CHR ''.'' then False else no_separator name)"

definition build_skill_path :: "config \<Rightarrow> string \<Rightarrow> nat \<Rightarrow> string option" where
  "build_skill_path cfg name path_size =
     (if \<not> is_safe_skill_name name then None
      else case skills_dir_of cfg of None \<Rightarrow> None | Some dir \<Rightarrow> snprintf_checked path_size (dir @ ''/'' @ name @ ''.md''))"

fun list_names :: "nat \<Rightarrow> string list \<Rightarrow> string list \<Rightarrow> string list" where
  "list_names max_count out [] = out"
| "list_names max_count out (name # names) =
     (if \<not> length out < max_count then out
      else if ch name 0 = CHR ''.'' then list_names max_count out names
      else if \<not> ends_with_md name then list_names max_count out names
      else if length name \<le> 3 then list_names max_count out names
      else list_names max_count (out @ [take (length name - 3) name]) names)"

definition skill_list_names :: "(string \<Rightarrow> string list option) \<Rightarrow> config \<Rightarrow> nat \<Rightarrow> string list option" where
  "skill_list_names dirs cfg max_count =
     (if max_count = 0 then None
      else case skills_dir_of cfg of
        None \<Rightarrow> Some []
      | Some dir_path \<Rightarrow> (case dirs dir_path of None \<Rightarrow> Some [] | Some names \<Rightarrow> Some (list_names max_count [] names)))"

text \<open>\<open>Inl\<close> is the error code.\<close>

definition skill_get_content :: "fsys \<Rightarrow> config \<Rightarrow> string \<Rightarrow> nat \<Rightarrow> int + string" where
  "skill_get_content fs cfg name out_size =
     (if out_size = 0 then Inl (-1)
      else case build_skill_path cfg name MAX_PATH_LEN of
        None \<Rightarrow> Inl (-1)
      | Some path \<Rightarrow>
          (case fs path of
             None \<Rightarrow> Inl (-1)
           | Some content \<Rightarrow>
               if length content \<ge> out_size then Inl (-2)
               else let out = append_file_content out_size [] content in
                 if length out \<noteq> length content then Inl (-2) else Inr out))"

definition skip_blank :: "string \<Rightarrow> string" where
  "skip_blank s = dropWhile (\<lambda>c. c = CHR '' '' \<or> c = tab) s"

definition skill_get_description :: "fsys \<Rightarrow> config \<Rightarrow> string \<Rightarrow> nat \<Rightarrow> string option" where
  "skill_get_description fs cfg name out_size =
     (if out_size = 0 then None
      else case (case config_asap_skill_description cfg name of None \<Rightarrow> None | Some t \<Rightarrow> if t = [] then None else Some t) of
        Some override \<Rightarrow> Some (buf_trunc out_size override)
      | None \<Rightarrow>
          (case build_skill_path cfg name 512 of
             None \<Rightarrow> None
           | Some path \<Rightarrow>
               (case fs path of
                  None \<Rightarrow> None
                | Some content \<Rightarrow>
                    if content = [] then None
                    else let line = takeWhile (\<lambda>c. c \<noteq> newline) (cstr (take (fgets_len 512 content) content));
                             start = skip_blank line;
                             start = (if ch start 0 = CHR ''#'' \<and> ch start 1 = CHR '' '' then drop 2 start
                                      else if ch start 0 = CHR ''#'' then drop 1 start else start);
                             start = skip_blank start in
                      if start = [] then None else Some (take (out_size - 1) start))))"

text \<open>\<open>skill_write_all\<close> and \<open>discard_skill_tmp\<close> repeat the functions of \<open>tools/file.c\<close>.\<close>

definition skill_write_all :: "(nat \<Rightarrow> int) \<Rightarrow> string \<Rightarrow> string \<Rightarrow> nat \<Rightarrow> fsys list \<Rightarrow> fsys list \<times> bool" where
  "skill_write_all = write_all"

definition discard_skill_tmp :: "string \<Rightarrow> fsys list \<Rightarrow> fsys list" where
  "discard_skill_tmp = discard_file_tmp"

definition write_skill_atomic :: "save_env \<Rightarrow> string \<Rightarrow> string \<Rightarrow> fsys \<Rightarrow> fsys list \<times> bool" where
  "write_skill_atomic e path content fs =
     (if length path \<ge> PATH_MAX then ([fs], False)
      else if dirname path = [] then ([fs], False)
      else if length (dirname path @ ''/.sc-skill-XXXXXX'') \<ge> PATH_MAX then ([fs], False)
      else case se_mkstemp e of
             None \<Rightarrow> ([fs], False)
           | Some tmp \<Rightarrow>
               let (states, written) = skill_write_all (se_write e) tmp content 0 [fs(tmp \<mapsto> []), fs] in
               if \<not> written then (discard_skill_tmp tmp states, False)
               else if \<not> se_fsync e then (discard_skill_tmp tmp states, False)
               else if \<not> se_close e then (discard_skill_tmp tmp states, False)
               else if \<not> se_rename e then (discard_skill_tmp tmp states, False)
               else ((hd states)(tmp := None, path \<mapsto> content) # states, True))"

definition skill_create :: "save_env \<Rightarrow> config \<Rightarrow> string \<Rightarrow> string \<Rightarrow> fsys \<Rightarrow> fsys list \<times> bool" where
  "skill_create e cfg name content fs =
     (case build_skill_path cfg name MAX_PATH_LEN of
        None \<Rightarrow> ([fs], False)
      | Some path \<Rightarrow> if fs path \<noteq> None then ([fs], False) else write_skill_atomic e path content fs)"

definition skill_update :: "save_env \<Rightarrow> config \<Rightarrow> string \<Rightarrow> string \<Rightarrow> fsys \<Rightarrow> fsys list \<times> bool" where
  "skill_update e cfg name content fs =
     (case build_skill_path cfg name MAX_PATH_LEN of None \<Rightarrow> ([fs], False) | Some path \<Rightarrow> write_skill_atomic e path content fs)"

definition skill_delete :: "bool \<Rightarrow> config \<Rightarrow> string \<Rightarrow> fsys \<Rightarrow> fsys list \<times> bool" where
  "skill_delete remove_ok cfg name fs =
     (case build_skill_path cfg name MAX_PATH_LEN of
        None \<Rightarrow> ([fs], False)
      | Some path \<Rightarrow> if fs path = None \<or> \<not> remove_ok then ([fs], False) else ([fs(path := None), fs], True))"

text \<open>\<open>started\<close>: whether the pipe and the thread can be created.\<close>

definition skill_watch_start ::
  "fsys \<Rightarrow> (string \<Rightarrow> string list option) \<Rightarrow> bool \<Rightarrow> bool \<Rightarrow> config \<Rightarrow> skill_state \<Rightarrow> bool \<times> skill_state" where
  "skill_watch_start fs dirs pipe_ok thread_ok cfg s =
     (if skills_dir_of cfg = None then (False, s)
      else if g_watch_running s then (True, s)
      else if \<not> pipe_ok then (False, s)
      else let s1 = do_reload_cache fs dirs (s\<lparr>g_watch_cfg := Some cfg\<rparr>) in
        if thread_ok then (True, s1\<lparr>g_watch_running := True\<rparr>)
        else (False, s1\<lparr>g_watch_running := False, g_skills_cache := None\<rparr>))"

definition skill_watch_stop :: "skill_state \<Rightarrow> skill_state" where
  "skill_watch_stop s =
     (if \<not> g_watch_running s then s else s\<lparr>g_watch_running := False, g_skills_cache := None, g_watch_cfg := None\<rparr>)"

section \<open>The text of a file\<close>

text \<open>What reaches a buffer of unlimited size: every line up to its first zero byte.\<close>

definition file_text :: "string \<Rightarrow> string" where
  "file_text content = concat (map cstr (fgets_chunks READ_CHUNK content))"

lemma concat_fgets_chunks: "1 < n \<Longrightarrow> concat (fgets_chunks n s) = s"
proof (induction n s rule: fgets_chunks.induct)
  case (1 n s)
  show ?case using 1 by (subst fgets_chunks.simps) auto
qed

lemma take_trunc: "take n (take n xs @ ys) = take n (xs @ ys)"
  by (cases "n \<le> length xs") (simp_all add: take_append)

lemma append_chunks_text:
  "length buf \<le> out_size - 1 \<Longrightarrow> append_chunks out_size buf cs = take (out_size - 1) (buf @ concat (map cstr cs))"
proof (induction out_size buf cs rule: append_chunks.induct)
  case (2 out_size buf c cs)
  show ?case
  proof (cases "length buf < out_size - 1")
    case True
    have e: "buf @ take (out_size - length buf - 1) (cstr c) = take (out_size - 1) (buf @ cstr c)" using True by (simp add: take_append)
    have "append_chunks out_size buf (c # cs) = take (out_size - 1) (take (out_size - 1) (buf @ cstr c) @ concat (map cstr cs))"
      using "2.IH" [OF True] True e by simp
    also have "\<dots> = take (out_size - 1) (buf @ concat (map cstr (c # cs)))" by (simp only: take_trunc) simp
    finally show ?thesis .
  next
    case False
    then show ?thesis using "2.prems" by simp
  qed
qed simp

lemma append_file_text:
  "length buf \<le> out_size - 1 \<Longrightarrow> append_file_content out_size buf content = take (out_size - 1) (buf @ file_text content)"
  by (simp add: append_file_content_def append_chunks_text file_text_def)

lemma append_str_text: "length buf \<le> out_size - 1 \<Longrightarrow> append_str out_size buf t = take (out_size - 1) (buf @ t)"
  by (auto simp: append_str_def Let_def take_append)

lemma file_text_plain: "nul \<notin> set content \<Longrightarrow> file_text content = content"
proof -
  assume n: "nul \<notin> set content"
  have c: "concat (fgets_chunks READ_CHUNK content) = content" by (simp add: concat_fgets_chunks READ_CHUNK_def)
  then have "\<forall>k \<in> set (fgets_chunks READ_CHUNK content). nul \<notin> set k" using n by (metis UN_I set_concat)
  then have "map cstr (fgets_chunks READ_CHUNK content) = fgets_chunks READ_CHUNK content" by (simp add: map_idI)
  then show ?thesis using c by (simp add: file_text_def)
qed

lemma length_concat_cstr: "length (concat (map cstr cs)) \<le> length (concat cs)"
  by (induction cs) (auto intro: add_mono prefix_length_le [OF cstr_prefix])

lemma concat_cstr_full: "length (concat (map cstr cs)) = length (concat cs) \<Longrightarrow> concat (map cstr cs) = concat cs"
proof (induction cs)
  case (Cons c cs)
  have "length (cstr c) \<le> length c" by (rule prefix_length_le [OF cstr_prefix])
  then have "length (cstr c) = length c" "length (concat (map cstr cs)) = length (concat cs)"
    using Cons.prems length_concat_cstr [of cs] by auto
  moreover from this have "cstr c = c" using cstr_prefix [of c] by (metis append_eq_conv_conj prefix_def take_all order_refl)
  ultimately show ?case using Cons.IH by simp
qed simp

text \<open>A read is the whole file or an error.\<close>

lemma get_content_whole:
  assumes "skill_get_content fs cfg name out_size = Inr out" "build_skill_path cfg name MAX_PATH_LEN = Some path"
  shows "fs path = Some out \<and> length out < out_size"
proof -
  obtain content where c: "fs path = Some content" "length content < out_size" "out = append_file_content out_size [] content"
    "length out = length content"
    using assms by (auto simp: skill_get_content_def Let_def split: option.splits if_splits)
  then have t: "out = take (out_size - 1) (file_text content)" using append_file_text [of "[]" out_size content] by simp
  have le: "length (file_text content) \<le> length content"
    using length_concat_cstr [of "fgets_chunks READ_CHUNK content"] by (simp add: file_text_def concat_fgets_chunks READ_CHUNK_def)
  then have "out = file_text content" using t c(2) by simp
  then have "length (file_text content) = length content" using c(4) by simp
  then have "file_text content = content"
    using concat_cstr_full [of "fgets_chunks READ_CHUNK content"] by (simp add: file_text_def concat_fgets_chunks READ_CHUNK_def)
  then show ?thesis using c \<open>out = file_text content\<close> by simp
qed

section \<open>The prompt text\<close>

definition skill_text :: "fsys \<Rightarrow> string \<Rightarrow> string \<Rightarrow> string list" where
  "skill_text fs dir_path name =
     (if ch name 0 \<noteq> CHR ''.'' \<and> ends_with_md name \<and> length (dir_path @ ''/'' @ name) < MAX_PATH_LEN
      then (case fs (dir_path @ ''/'' @ name) of None \<Rightarrow> [] | Some content \<Rightarrow> [file_text content]) else [])"

fun join_skills :: "string list \<Rightarrow> string" where
  "join_skills [] = []"
| "join_skills [t] = t"
| "join_skills (t # ts) = t @ SKILL_SEP @ join_skills ts"

definition later_skills :: "string list \<Rightarrow> string" where
  "later_skills ts = concat (map (\<lambda>t. SKILL_SEP @ t) ts)"

lemma join_skills_Cons: "join_skills (t # ts) = t @ later_skills ts"
  by (induction ts arbitrary: t) (simp_all add: later_skills_def)

lemma load_entries_skip:
  assumes "ch name 0 = CHR ''.'' \<or> \<not> ends_with_md name \<or> \<not> length (d @ ''/'' @ name) < MAX_PATH_LEN \<or> fs (d @ ''/'' @ name) = None"
  shows "load_entries fs d out_size first buf (name # names) = load_entries fs d out_size first buf names"
proof -
  consider "ch name 0 = CHR ''.'' \<or> \<not> ends_with_md name"
    | "snprintf_checked MAX_PATH_LEN (d @ ''/'' @ name) = None"
    | "snprintf_checked MAX_PATH_LEN (d @ ''/'' @ name) = Some (d @ ''/'' @ name)" "fs (d @ ''/'' @ name) = None"
    using assms by (metis snprintf_checked_def linorder_not_less)
  then show ?thesis by cases ((elim disjE)?; simp only: load_entries.simps(2) simp_thms if_True if_cancel option.case)+
qed

lemma load_entries_take:
  assumes "ch name 0 \<noteq> CHR ''.''" "ends_with_md name" "length (d @ ''/'' @ name) < MAX_PATH_LEN" "fs (d @ ''/'' @ name) = Some content"
  shows "load_entries fs d out_size first buf (name # names) =
    load_entries fs d out_size False (append_file_content out_size (if first then buf else append_str out_size buf SKILL_SEP) content) names"
proof -
  have "snprintf_checked MAX_PATH_LEN (d @ ''/'' @ name) = Some (d @ ''/'' @ name)" using assms(3) by (simp add: snprintf_checked_def)
  then show ?thesis using assms(1,2,4) by (simp only: load_entries.simps(2) option.case if_False not_True_eq_False)
qed

lemma load_entries_text:
  "length buf \<le> out_size - 1 \<Longrightarrow>
   load_entries fs d out_size first buf names =
     take (out_size - 1) (buf @ (if first then join_skills else later_skills) (concat (map (skill_text fs d) names)))"
proof (induction names arbitrary: first buf)
  case (Cons name names)
  show ?case
  proof (cases "ch name 0 = CHR ''.'' \<or> \<not> ends_with_md name \<or> \<not> length (d @ ''/'' @ name) < MAX_PATH_LEN \<or> fs (d @ ''/'' @ name) = None")
    case True
    then have "load_entries fs d out_size first buf (name # names) = load_entries fs d out_size first buf names"
      by (rule load_entries_skip)
    moreover from True have "skill_text fs d name = []" unfolding skill_text_def by (elim disjE) simp_all
    ultimately show ?thesis using Cons.IH [OF Cons.prems] by simp
  next
    case False
    then obtain content where c: "fs (d @ ''/'' @ name) = Some content" by auto
    let ?b = "if first then buf else append_str out_size buf SKILL_SEP"
    let ?buf = "append_file_content out_size ?b content"
    let ?ts = "concat (map (skill_text fs d) names)"
    have b: "?b = take (out_size - 1) (buf @ (if first then [] else SKILL_SEP))" "length ?b \<le> out_size - 1"
      using append_str_text [OF Cons.prems] Cons.prems by auto
    have t: "skill_text fs d name = [file_text content]" using False c by (simp add: skill_text_def)
    have buf: "?buf = take (out_size - 1) (buf @ (if first then [] else SKILL_SEP) @ file_text content)"
      unfolding append_file_text [OF b(2)] unfolding b(1) take_trunc by (simp only: append.assoc)
    then have lb: "length ?buf \<le> out_size - 1" by (simp only: length_take min.cobounded2)
    have "load_entries fs d out_size first buf (name # names) = load_entries fs d out_size False ?buf names"
      by (rule load_entries_take) (use False c in blast)+
    also have "\<dots> = take (out_size - 1) (?buf @ later_skills ?ts)"
      using Cons.IH [OF lb, of False] by (simp only: if_False)
    also have "\<dots> = take (out_size - 1) (buf @ (if first then [] else SKILL_SEP) @ file_text content @ later_skills ?ts)"
      unfolding buf take_trunc by simp
    also have "\<dots> = take (out_size - 1) (buf @ (if first then join_skills else later_skills) (concat (map (skill_text fs d) (name # names))))"
      using t by (simp add: join_skills_Cons later_skills_def)
    finally show ?thesis .
  qed
qed (simp add: later_skills_def)

text \<open>The skills text of the system prompt is, cut to the buffer, the texts of the Markdown files of the skills directory joined by
  the separator, in the order of the directory; the cache that the watch thread keeps yields the same text as reading the files, cut
  to its own size.\<close>

theorem skills_text_from_disk_or_cache:
  assumes "skills_dir_of cfg = Some d" "dirs d = Some names" "0 < out_size"
  shows "load_skills_from_disk fs dirs cfg out_size = (0, take (out_size - 1) (join_skills (concat (map (skill_text fs d) names)))) \<and>
    (g_watch_cfg s = Some cfg \<and> g_watch_running s \<longrightarrow>
       skill_load_all fs' dirs' cfg out_size (do_reload_cache fs dirs s) =
         (0, take (min (out_size - 1) (SKILL_CACHE_SIZE - 1)) (join_skills (concat (map (skill_text fs d) names)))))"
proof -
  have l: "load_skills_from_disk fs dirs cfg n = (0, take (n - 1) (join_skills (concat (map (skill_text fs d) names))))" if n: "0 < n" for n
    using assms(1,2) n load_entries_text [of "[]" n fs d True names] by (simp add: load_skills_from_disk_def)
  have "0 < SKILL_CACHE_SIZE" by (simp add: SKILL_CACHE_SIZE_def)
  then show ?thesis using l assms(3) by (auto simp: skill_load_all_def do_reload_cache_def min.commute)
qed

definition demo_skill_cfg :: config where
  "demo_skill_cfg = config_defaults\<lparr>c_storage := (c_storage config_defaults)\<lparr>skills_dir := Some ''/s''\<rparr>\<rparr>"

theorem skills_text_from_disk_or_cache_witness:
  "load_skills_from_disk [''/s/a.md'' \<mapsto> ''A'', ''/s/b.md'' \<mapsto> ''B''] (\<lambda>_. Some [''a.md'', ''x.txt'', ''.c.md'', ''b.md'']) demo_skill_cfg 8 =
     (0, ''A'' @ [newline, newline] @ ''---'' @ [newline])"
proof -
  have d: "skills_dir_of demo_skill_cfg = Some ''/s''" by (simp add: skills_dir_of_def demo_skill_cfg_def)
  have "take 7 (join_skills (concat (map (skill_text [''/s/a.md'' \<mapsto> ''A'', ''/s/b.md'' \<mapsto> ''B''] ''/s'') [''a.md'', ''x.txt'', ''.c.md'', ''b.md'']))) =
      ''A'' @ [newline, newline] @ ''---'' @ [newline]" by code_simp
  then show ?thesis
    using skills_text_from_disk_or_cache [OF d, of "\<lambda>_. Some [''a.md'', ''x.txt'', ''.c.md'', ''b.md'']" "[''a.md'', ''x.txt'', ''.c.md'', ''b.md'']" 8] by simp
qed

section \<open>Editing skills\<close>

interpretation skill_writer: atomic_replace write_skill_atomic
  by unfold_locales
    (auto simp: write_skill_atomic_def skill_write_all_def discard_skill_tmp_def Let_def split: option.splits prod.splits intro: atomic_outcome.intros)

lemma no_separator_chars: "no_separator s \<Longrightarrow> CHR ''/'' \<notin> set s \<and> CHR 0x5C \<notin> set s"
  by (induction s) (auto split: if_splits)

lemma skill_path_shape:
  "build_skill_path cfg name n = Some path \<Longrightarrow>
     \<exists>d. skills_dir_of cfg = Some d \<and> path = d @ ''/'' @ name @ ''.md'' \<and> name \<noteq> [] \<and> hd name \<noteq> CHR ''.'' \<and> CHR ''/'' \<notin> set name"
  by (cases name) (auto simp: build_skill_path_def is_safe_skill_name_def split: option.splits if_splits dest: no_separator_chars)

text \<open>Editing skills: a name from the dashboard reaches only a file directly in the skills directory; while a skill is written every
  reader sees its old content or the new one, and no other file changes; an accepted write is read back unchanged, a read never
  returns a part of a file, and a failed write leaves everything as it was.\<close>

theorem skill_edit_roundtrip:
  assumes "fresh_tmp e (d @ ''/'' @ name @ ''.md'') fs" "skills_dir_of cfg = Some d"
    and "skill_update e cfg name content fs = (states, ok)"
  shows "list_all (\<lambda>s. \<forall>q. se_mkstemp e \<noteq> Some q \<and> s q \<noteq> fs q \<longrightarrow>
       q = d @ ''/'' @ name @ ''.md'' \<and> CHR ''/'' \<notin> set name \<and> name \<noteq> [] \<and> s q = Some content) states \<and>
    hd states = (if ok then fs(d @ ''/'' @ name @ ''.md'' \<mapsto> content) else fs) \<and>
    (ok \<and> nul \<notin> set content \<and> length content < out_size \<longrightarrow> skill_get_content (hd states) cfg name out_size = Inr content) \<and>
    (skill_get_content fs' cfg name out_size = Inr out \<longrightarrow> fs' (d @ ''/'' @ name @ ''.md'') = Some out)"
proof (cases "build_skill_path cfg name MAX_PATH_LEN")
  case None
  then have "states = [fs]" "\<not> ok" "skill_get_content fs' cfg name out_size = Inl (-1)"
    using assms(3) by (auto simp: skill_update_def skill_get_content_def)
  then show ?thesis by simp
next
  case (Some path)
  have p: "path = d @ ''/'' @ name @ ''.md''" "name \<noteq> []" "CHR ''/'' \<notin> set name" using skill_path_shape [OF Some] assms(2) by auto
  have w: "write_skill_atomic e path content fs = (states, ok)" using assms(3) Some by (simp add: skill_update_def)
  have fresh: "fresh_tmp e path fs" using assms(1) p(1) by simp
  have 1: "list_all (\<lambda>s. \<forall>q. se_mkstemp e \<noteq> Some q \<and> s q \<noteq> fs q \<longrightarrow> q = path \<and> s q = Some content) states"
    using skill_writer.replace_frame [of _ e path content fs] w by (auto simp: list_all_iff)
  have 2: "hd states = (if ok then fs(path \<mapsto> content) else fs)" using skill_writer.replace_result [OF fresh, of content] w by simp
  have 3: "skill_get_content (hd states) cfg name out_size = Inr content" if h: "ok" "nul \<notin> set content" "length content < out_size"
    using h Some 2 append_file_text [of "[]" out_size content] file_text_plain [OF h(2)] by (simp add: skill_get_content_def Let_def)
  show ?thesis using 1 2 3 get_content_whole [OF _ Some] p by (auto simp: list_all_iff)
qed

theorem skill_edit_roundtrip_witness:
  "skill_get_content (hd (fst (skill_update \<lparr>se_mkdir = True, se_mkstemp = Some ''/s/.sc-skill-a1b2c3'', se_fchmod = True, se_write = (\<lambda>_. 2),
      se_fsync = True, se_close = True, se_rename = True\<rparr> demo_skill_cfg ''note'' ''text'' Map.empty))) demo_skill_cfg ''note'' 64 = Inr ''text''"
proof -
  let ?e = "\<lparr>se_mkdir = True, se_mkstemp = Some ''/s/.sc-skill-a1b2c3'', se_fchmod = True, se_write = (\<lambda>_. 2), se_fsync = True, se_close = True, se_rename = True\<rparr>"
  have d: "skills_dir_of demo_skill_cfg = Some ''/s''" by (simp add: skills_dir_of_def demo_skill_cfg_def)
  have f: "fresh_tmp ?e (''/s'' @ ''/'' @ ''note'' @ ''.md'') Map.empty" by (simp add: fresh_tmp_def)
  obtain states ok where u: "skill_update ?e demo_skill_cfg ''note'' ''text'' Map.empty = (states, ok)" by (metis surj_pair)
  have n: "nul \<notin> set ''text''" by (simp add: nul_def)
  have "snd (skill_update ?e demo_skill_cfg ''note'' ''text'' Map.empty)" by code_simp
  then show ?thesis using skill_edit_roundtrip [OF f d u, where out_size = 64, THEN conjunct2, THEN conjunct2, THEN conjunct1] u n by (simp del: fun_upd_apply)
qed

end
