(* ===== verification/Config_Patch.thy ===== *)
theory Config_Patch
  imports Config Atomic_Write Cjson
begin

text \<open>
  \<open>src/core/config_patch.c\<close>: the dashboard changes five settings by editing lines of the TOML file, and checks the result by loading it.
  The buffer is modelled with the size it was allocated with beside the capacity the code believes it has, and a write behind the
  allocation is a result of its own.  The JSON parser, the TOML parser, \<open>printf\<close> of a double and the conversion of a JSON number to
  \<open>int\<close> are arguments.
\<close>

section \<open>Definitions\<close>

record tbuf =
  tb_text :: string
  tb_cap :: nat
  tb_alloc :: nat

datatype patch_result = Patched tbuf | Patch_failed | Heap_overflow

text \<open>The doubling of \<open>buf_reserve\<close>; it starts with a positive capacity.\<close>

function patch_grow_cap :: "nat \<Rightarrow> nat \<Rightarrow> nat option" where
  "patch_grow_cap new_cap need =
     (if new_cap < need \<and> 0 < new_cap then
        (if new_cap > (2 ^ 64 - 1) div 2 then None else patch_grow_cap (new_cap * 2) need)
      else Some new_cap)"
  by pat_completeness auto
termination by (relation "measure (\<lambda>(c, n). n - c)") auto

declare patch_grow_cap.simps [simp del]

definition buf_reserve :: "tbuf \<Rightarrow> nat \<Rightarrow> tbuf option" where
  "buf_reserve b extra =
     (let need = length (tb_text b) + extra + 1 in
      if need \<le> tb_cap b then Some b
      else map_option (\<lambda>c. b\<lparr>tb_cap := c, tb_alloc := c\<rparr>) (patch_grow_cap (if tb_cap b = 0 then need else tb_cap b) need))"

definition append_section_key :: "tbuf \<Rightarrow> string \<Rightarrow> string \<Rightarrow> string \<Rightarrow> patch_result" where
  "append_section_key b section key line_value =
     (let extra = [newline] @ ''['' @ section @ '']'' @ [newline] @ key @ '' = '' @ line_value @ [newline] in
      if length extra \<ge> 768 then Patch_failed
      else case buf_reserve b (length extra) of
        None \<Rightarrow> Patch_failed
      | Some b' \<Rightarrow>
          if length (tb_text b') + length extra + 1 > tb_alloc b' then Heap_overflow
          else Patched (b'\<lparr>tb_text := tb_text b' @ extra\<rparr>))"

fun escape_toml_char :: "char \<Rightarrow> string" where
  "escape_toml_char c =
     (if c = dquote \<or> c = CHR 0x5C then [CHR 0x5C, c]
      else if c = newline then [CHR 0x5C, CHR ''n'']
      else if c = CHR 0x0D then [CHR 0x5C, CHR ''r'']
      else if c = tab then [CHR 0x5C, CHR ''t'']
      else [c])"

definition escape_toml_string :: "string \<Rightarrow> string" where
  "escape_toml_string s = [dquote] @ concat (map escape_toml_char s) @ [dquote]"

definition toml_blank :: "char \<Rightarrow> bool" where
  "toml_blank c \<longleftrightarrow> c = CHR '' '' \<or> c = tab"

definition section_header_closed :: "string \<Rightarrow> bool" where
  "section_header_closed after =
     (let c = ch (dropWhile toml_blank after) 0 in c = CHR ''#'' \<or> c = nul \<or> c = CHR 0x0D \<or> c = newline)"

text \<open>The three searches work on the C string \<open>s\<close>; a pointer is an offset into it.\<close>

definition find_section :: "string \<Rightarrow> string \<Rightarrow> nat option" where
  "find_section s section =
     (let marker = buf_trunc 128 (''['' @ section @ '']'') in
      find (\<lambda>p. prefix marker (drop p s) \<and> (p = 0 \<or> s ! (p - 1) = newline) \<and> section_header_closed (drop (p + length marker) s))
        [0 ..< length s])"

definition section_end :: "string \<Rightarrow> nat \<Rightarrow> nat" where
  "section_end s start =
     (case find (\<lambda>p. s ! p = newline) [start + 1 ..< length s] of
        None \<Rightarrow> length s
      | Some nl \<Rightarrow>
          (case find (\<lambda>p. s ! p = CHR ''['' \<and> (p = start \<or> s ! (p - 1) = newline)) [nl ..< length s] of
             None \<Rightarrow> length s
           | Some p \<Rightarrow> p))"

text \<open>The test of one line, from its start to \<open>line_end\<close>.\<close>

definition key_line :: "string \<Rightarrow> string \<Rightarrow> bool" where
  "key_line key line =
     (let key_at = dropWhile toml_blank line;
          span = length (rev (dropWhile is_space (rev key_at)));
          after_key = dropWhile toml_blank (drop (length key) key_at) in
      span > length key \<and> prefix key key_at \<and> after_key \<noteq> [] \<and> hd after_key = CHR ''='')"

function find_key_line :: "string \<Rightarrow> nat \<Rightarrow> nat \<Rightarrow> string \<Rightarrow> (nat \<times> nat) option" where
  "find_key_line s p sec_end key =
     (if p < sec_end then
        let line_end = (case find (\<lambda>i. s ! i = newline) [p ..< length s] of
                          None \<Rightarrow> sec_end | Some e \<Rightarrow> if e > sec_end then sec_end else e);
            line = take (line_end - p) (drop p s) in
        if key_line key line then Some (p, line_end - p + (if ch s line_end = newline then 1 else 0))
        else if line_end \<ge> length s \<or> line_end < p then None
        else find_key_line s (line_end + 1) sec_end key
      else None)"
  by pat_completeness auto
termination by (relation "measure (\<lambda>(s, p, e, k). Suc e - p)") (auto split: option.splits)

declare find_key_line.simps [simp del]

definition splice_text :: "tbuf \<Rightarrow> nat \<Rightarrow> nat \<Rightarrow> string \<Rightarrow> patch_result" where
  "splice_text b off old_len ins =
     (if off > length (tb_text b) \<or> old_len > length (tb_text b) - off then Patch_failed
      else let next = take off (tb_text b) @ ins @ drop (off + old_len) (tb_text b) in
        Patched \<lparr>tb_text = next, tb_cap = (if length next + 1 > tb_cap b then length next + 1 else tb_cap b), tb_alloc = length next + 1\<rparr>)"

definition patch_key_line :: "tbuf \<Rightarrow> string \<Rightarrow> string \<Rightarrow> string \<Rightarrow> patch_result" where
  "patch_key_line b section key line_value =
     (let insert_line = key @ '' = '' @ line_value @ [newline]; s = cstr (tb_text b) in
      if length insert_line \<ge> 512 then Patch_failed
      else case find_section s section of
        None \<Rightarrow> append_section_key b section key line_value
      | Some sec \<Rightarrow>
          let sec_end = section_end s sec in
          (case find_key_line s sec sec_end key of
             None \<Rightarrow> splice_text b sec_end 0 insert_line
           | Some (line, line_len) \<Rightarrow> splice_text b line line_len insert_line))"

definition patch_string_field :: "tbuf \<Rightarrow> string \<Rightarrow> string \<Rightarrow> string \<Rightarrow> patch_result" where
  "patch_string_field b section key value = patch_key_line b section key (escape_toml_string value)"

definition patch_int_field :: "tbuf \<Rightarrow> string \<Rightarrow> string \<Rightarrow> int \<Rightarrow> patch_result" where
  "patch_int_field b section key value = patch_key_line b section key (buf_trunc 32 (int_str value))"

definition patch_double_field :: "(64 word \<Rightarrow> string) \<Rightarrow> tbuf \<Rightarrow> string \<Rightarrow> string \<Rightarrow> 64 word \<Rightarrow> patch_result" where
  "patch_double_field fmt_g b section key value = patch_key_line b section key (buf_trunc 32 (fmt_g value))"

text \<open>The message for a member of the wrong type, \<open>None\<close> when it is absent or right.\<close>

fun is_string :: "cjson \<Rightarrow> bool" where
  "is_string (CString _) = True"
| "is_string _ = False"

fun is_number :: "cjson \<Rightarrow> bool" where
  "is_number (CNumber _) = True"
| "is_number _ = False"

definition reject_wrong_type :: "cjson option \<Rightarrow> bool \<Rightarrow> string \<Rightarrow> string option" where
  "reject_wrong_type item expect_string field =
     (case item of
        None \<Rightarrow> None
      | Some j \<Rightarrow>
          if (if expect_string then is_string j else is_number j) then None
          else Some (''field '' @ [dquote] @ field @ [dquote] @ '' must be a JSON '' @ (if expect_string then ''string'' else ''number'')))"

text \<open>One \<open>if (item && patch_...(...) != 0) return -1\<close>; the buffer of an earlier failure is not touched again.\<close>

definition patch_if :: "cjson option \<Rightarrow> (tbuf \<Rightarrow> cjson \<Rightarrow> patch_result) \<Rightarrow> patch_result \<Rightarrow> patch_result" where
  "patch_if item patch r = (case r of Patched b \<Rightarrow> (case item of None \<Rightarrow> r | Some j \<Rightarrow> patch b j) | _ \<Rightarrow> r)"

fun valuestring :: "cjson \<Rightarrow> string" where
  "valuestring (CString s) = s"
| "valuestring _ = []"

fun valuedouble :: "cjson \<Rightarrow> 64 word" where
  "valuedouble (CNumber d) = d"
| "valuedouble _ = 0"

text \<open>\<open>Inl\<close> carries the message of the type check, empty when a patch failed.\<close>

definition apply_dashboard_fields :: "(64 word \<Rightarrow> int) \<Rightarrow> (64 word \<Rightarrow> string) \<Rightarrow> cjson \<Rightarrow> tbuf \<Rightarrow> string + patch_result" where
  "apply_dashboard_fields valueint fmt_g root b =
     (let model = cJSON_GetObjectItem root ''model'';
          max_tokens = cJSON_GetObjectItem root ''max_tokens'';
          temperature = cJSON_GetObjectItem root ''temperature'';
          gateway_host = cJSON_GetObjectItem root ''gateway_host'';
          gateway_port = cJSON_GetObjectItem root ''gateway_port'' in
      case List.find (\<lambda>e. e \<noteq> None) [reject_wrong_type model True ''model'', reject_wrong_type max_tokens False ''max_tokens'',
             reject_wrong_type temperature False ''temperature'', reject_wrong_type gateway_host True ''gateway_host'',
             reject_wrong_type gateway_port False ''gateway_port''] of
        Some (Some e) \<Rightarrow> Inl e
      | _ \<Rightarrow>
          Inr (patch_if gateway_port (\<lambda>b j. patch_int_field b ''gateway'' ''port'' (valueint (valuedouble j)))
              (patch_if gateway_host (\<lambda>b j. patch_string_field b ''gateway'' ''host'' (valuestring j))
              (patch_if temperature (\<lambda>b j. patch_double_field fmt_g b ''agent'' ''temperature'' (valuedouble j))
              (patch_if max_tokens (\<lambda>b j. patch_int_field b ''agent'' ''max_tokens'' (valueint (valuedouble j)))
              (patch_if model (\<lambda>b j. patch_string_field b ''agent'' ''model'' (valuestring j)) (Patched b)))))))"

definition write_all_fd :: "(nat \<Rightarrow> int) \<Rightarrow> string \<Rightarrow> string \<Rightarrow> nat \<Rightarrow> fsys list \<Rightarrow> fsys list \<times> bool" where
  "write_all_fd = write_all"

text \<open>\<open>load\<close> is \<open>config_load\<close> on a path of a file system.\<close>

definition validate_patched_toml ::
  "(fsys \<Rightarrow> string \<Rightarrow> string + config) \<Rightarrow> save_env \<Rightarrow> string \<Rightarrow> string \<Rightarrow> fsys \<Rightarrow> fsys list \<times> string option" where
  "validate_patched_toml load e config_path content fs =
     (let failed = ''failed to validate patched config'' in
      if length config_path \<ge> PATH_MAX then ([fs], Some failed)
      else if dirname config_path = [] then ([fs], Some failed)
      else if length (dirname config_path @ ''/.sc-patch-XXXXXX'') \<ge> PATH_MAX then ([fs], Some failed)
      else case se_mkstemp e of
             None \<Rightarrow> ([fs], Some failed)
           | Some tmp_path \<Rightarrow>
               let (states, written) = write_all_fd (se_write e) tmp_path content 0 [fs(tmp_path \<mapsto> []), fs] in
               if \<not> written \<or> \<not> se_fsync e then (discard_file_tmp tmp_path states, Some failed)
               else if \<not> se_close e then (discard_file_tmp tmp_path states, Some failed)
               else case load (hd states) tmp_path of
                      Inl err \<Rightarrow> (discard_file_tmp tmp_path states, Some err)
                    | Inr cfg \<Rightarrow> (discard_file_tmp tmp_path states, None))"

datatype patch_outcome = Rejected string | Memory_error | Accepted string

definition config_patch_dashboard_json ::
  "(string \<Rightarrow> cjson option) \<Rightarrow> (64 word \<Rightarrow> int) \<Rightarrow> (64 word \<Rightarrow> string) \<Rightarrow> (fsys \<Rightarrow> string \<Rightarrow> string + config) \<Rightarrow> save_env \<Rightarrow> string \<Rightarrow> string
   \<Rightarrow> fsys \<Rightarrow> fsys list \<times> patch_outcome" where
  "config_patch_dashboard_json parse valueint fmt_g load e config_path json_body fs =
     (case parse json_body of
        None \<Rightarrow> ([fs], Rejected ''invalid JSON body'')
      | Some root \<Rightarrow>
          if \<not> cJSON_IsObject root then ([fs], Rejected ''invalid JSON body'')
          else case fs config_path of
            None \<Rightarrow> ([fs], Rejected ''cannot open config file'')
          | Some content \<Rightarrow>
              (case apply_dashboard_fields valueint fmt_g root
                      \<lparr>tb_text = content, tb_cap = length content + 1, tb_alloc = length content + 1\<rparr> of
                 Inl err \<Rightarrow> ([fs], Rejected err)
               | Inr Patch_failed \<Rightarrow> ([fs], Rejected ''failed to patch config fields'')
               | Inr Heap_overflow \<Rightarrow> ([fs], Memory_error)
               | Inr (Patched b) \<Rightarrow>
                   (case validate_patched_toml load e config_path (tb_text b) fs of
                      (states, Some err) \<Rightarrow> (states, Rejected err)
                    | (states, None) \<Rightarrow> (states, Accepted (tb_text b)))))"

section \<open>The searches\<close>

lemma find_upt_Some: "find P [a ..< b] = Some i \<longleftrightarrow> a \<le> i \<and> i < b \<and> P i \<and> (\<forall>j. a \<le> j \<and> j < i \<longrightarrow> \<not> P j)"
proof (induction "b - a" arbitrary: a)
  case (Suc n)
  then have step: "[a ..< b] = a # [Suc a ..< b]" by (simp add: upt_conv_Cons)
  have IH: "find P [Suc a ..< b] = Some i \<longleftrightarrow> Suc a \<le> i \<and> i < b \<and> P i \<and> (\<forall>j. Suc a \<le> j \<and> j < i \<longrightarrow> \<not> P j)"
    by (rule Suc.hyps(1)) (use Suc.hyps(2) in simp)
  show ?case
  proof (cases "P a")
    case True
    then show ?thesis using Suc.hyps(2) unfolding step by (auto intro: le_antisym)
  next
    case False
    have r: "a \<le> j \<longleftrightarrow> j = a \<or> Suc a \<le> j" for j by auto
    show ?thesis unfolding step r using False IH by auto
  qed
qed simp

lemma find_upt_None: "find P [a ..< b] = None \<longleftrightarrow> (\<forall>j. a \<le> j \<and> j < b \<longrightarrow> \<not> P j)"
  by (auto simp: find_None_iff)

definition marker_of :: "string \<Rightarrow> string" where
  "marker_of section = ''['' @ section @ '']''"

text \<open>The lines from \<open>i\<close> to \<open>e\<close> are a section: its header and the lines up to the next one that starts with a bracket.\<close>

definition section_at :: "string \<Rightarrow> string \<Rightarrow> nat \<Rightarrow> nat \<Rightarrow> bool" where
  "section_at section s i e \<longleftrightarrow>
     prefix (marker_of section) (drop i s) \<and> (i = 0 \<or> s ! (i - 1) = newline) \<and> i < e \<and> e \<le> length s \<and>
     (\<forall>j. i < j \<and> j < e \<and> s ! (j - 1) = newline \<longrightarrow> s ! j \<noteq> CHR ''['') \<and> (e = length s \<or> s ! e = CHR ''['' \<and> s ! (e - 1) = newline)"

lemma find_section_Some:
  assumes "find_section s section = Some i" "length section < 126"
  shows "i < length s" "prefix (marker_of section) (drop i s)" "i = 0 \<or> s ! (i - 1) = newline"
  using assms by (auto simp: find_section_def Let_def find_upt_Some marker_of_def buf_trunc_def)

lemma section_end_spec:
  assumes "i < length s" "s ! i \<noteq> newline"
  shows "i < section_end s i" "section_end s i \<le> length s"
    "\<And>j. i < j \<Longrightarrow> j < section_end s i \<Longrightarrow> s ! (j - 1) = newline \<Longrightarrow> s ! j \<noteq> CHR ''[''"
    "section_end s i = length s \<or> s ! section_end s i = CHR ''['' \<and> s ! (section_end s i - 1) = newline"
proof -
  have "i < section_end s i \<and> section_end s i \<le> length s \<and>
    (\<forall>j. i < j \<and> j < section_end s i \<and> s ! (j - 1) = newline \<longrightarrow> s ! j \<noteq> CHR ''['') \<and> 
    (section_end s i = length s \<or> s ! section_end s i = CHR ''['' \<and> s ! (section_end s i - 1) = newline)"
  proof (cases "find (\<lambda>p. s ! p = newline) [i + 1 ..< length s]")
    case None
    then have "\<forall>j. i + 1 \<le> j \<and> j < length s \<longrightarrow> s ! j \<noteq> newline" by (simp only: find_upt_None)
    then have "s ! (j - 1) \<noteq> newline" if "i < j" "j < length s" for j
      using that assms(2) by (cases j) (auto simp: less_Suc_eq)
    then show ?thesis using assms None by (auto simp: section_end_def)
  next
    case (Some nl)
    then have nl: "i < nl" "nl < length s" "s ! nl = newline" "\<forall>j. i + 1 \<le> j \<and> j < nl \<longrightarrow> s ! j \<noteq> newline" by (simp_all add: find_upt_Some)
    have start: "nl < j" if "i < j" "s ! (j - 1) = newline" for j
    proof -
      have "j - 1 \<noteq> i" using that assms(2) by metis
      then have "i + 1 \<le> j - 1" using that(1) by simp
      then have "\<not> j - 1 < nl" using nl(4) that(2) by blast
      then show ?thesis using that(1) by simp
    qed
    show ?thesis
    proof (cases "find (\<lambda>p. s ! p = CHR ''['' \<and> (p = i \<or> s ! (p - 1) = newline)) [nl ..< length s]")
      case None
      then have "\<forall>j. nl \<le> j \<and> j < length s \<longrightarrow> \<not> (s ! j = CHR ''['' \<and> (j = i \<or> s ! (j - 1) = newline))" by (simp only: find_upt_None)
      then show ?thesis using Some None assms start unfolding section_end_def by (auto dest: less_imp_le)
    next
      case e: (Some e)
      then have e': "nl \<le> e" "e < length s" "s ! e = CHR ''[''" "e = i \<or> s ! (e - 1) = newline"
        "\<forall>j. nl \<le> j \<and> j < e \<longrightarrow> \<not> (s ! j = CHR ''['' \<and> (j = i \<or> s ! (j - 1) = newline))" by (simp_all add: find_upt_Some)
      have "section_end s i = e" using Some e by (simp add: section_end_def)
      then show ?thesis using e' nl start by (auto dest: less_imp_le)
    qed
  qed
  then show "i < section_end s i" "section_end s i \<le> length s"
    "\<And>j. i < j \<Longrightarrow> j < section_end s i \<Longrightarrow> s ! (j - 1) = newline \<Longrightarrow> s ! j \<noteq> CHR ''[''"
    "section_end s i = length s \<or> s ! section_end s i = CHR ''['' \<and> s ! (section_end s i - 1) = newline" by blast+
qed

text \<open>The line that starts at \<open>p\<close>.\<close>

definition line_at :: "string \<Rightarrow> nat \<Rightarrow> string" where
  "line_at s p = takeWhile (\<lambda>c. c \<noteq> newline) (drop p s)"

lemma nth_ch: "ch s i = newline \<longleftrightarrow> i < length s \<and> s ! i = newline"
  by (simp add: ch_def nul_def)

lemma line_at_span:
  assumes "p \<le> length s"
  defines "n \<equiv> p + length (line_at s p)"
  shows "n \<le> length s" "\<forall>j. p \<le> j \<and> j < n \<longrightarrow> s ! j \<noteq> newline" "n = length s \<or> s ! n = newline"
    "line_at s p = take (n - p) (drop p s)"
proof -
  have l: "length (line_at s p) \<le> length s - p" using length_takeWhile_le [of _ "drop p s"] by (simp add: line_at_def)
  then show "n \<le> length s" using assms by simp
  show "\<forall>j. p \<le> j \<and> j < n \<longrightarrow> s ! j \<noteq> newline"
  proof (intro allI impI)
    fix j assume j: "p \<le> j \<and> j < n"
    then have "j - p < length (line_at s p)" by (auto simp: n_def)
    then have "line_at s p ! (j - p) \<in> set (line_at s p)" "line_at s p ! (j - p) = drop p s ! (j - p)"
      unfolding line_at_def by (rule nth_mem, rule takeWhile_nth)
    moreover have "newline \<notin> set (line_at s p)" unfolding line_at_def by (blast dest: set_takeWhileD)
    ultimately have "drop p s ! (j - p) \<noteq> newline" by metis
    then show "s ! j \<noteq> newline" using j assms(1) by simp
  qed
  show "n = length s \<or> s ! n = newline"
  proof (cases "n = length s")
    case False
    then have "length (line_at s p) < length (drop p s)" using l assms by simp
    then have "drop p s ! length (line_at s p) = newline" using nth_length_takeWhile unfolding line_at_def by fastforce
    then show ?thesis using assms(1) by (simp add: n_def)
  qed simp
  show "line_at s p = take (n - p) (drop p s)" unfolding n_def line_at_def by (simp add: takeWhile_eq_take [symmetric])
qed

lemma find_key_line_step:
  assumes "p < e" "e \<le> length s" "e = length s \<or> s ! (e - 1) = newline"
  defines "n \<equiv> p + length (line_at s p)"
  shows "n \<le> e" "n = e \<longrightarrow> e = length s" "find_key_line s p e key =
    (if key_line key (line_at s p) then Some (p, n - p + (if n < length s then 1 else 0))
     else if n = length s then None else find_key_line s (n + 1) e key)"
proof -
  have "p \<le> length s" using assms by simp
  note sp = line_at_span [OF this, folded n_def]
  have "n < e" if "e \<noteq> length s"
  proof (rule ccontr)
    assume "\<not> n < e"
    then have "p \<le> e - 1 \<and> e - 1 < n" using assms(1) by arith
    then show False using that sp(2) assms(3) by blast
  qed
  then show ne: "n \<le> e" "n = e \<longrightarrow> e = length s" using sp(1) by (metis le_less less_imp_le, blast)
  have le: "(case find (\<lambda>i. s ! i = newline) [p ..< length s] of None \<Rightarrow> e | Some e' \<Rightarrow> if e' > e then e else e') = n"
  proof (cases "n = length s")
    case True
    then have "find (\<lambda>i. s ! i = newline) [p ..< length s] = None" using sp(2) by (simp add: find_upt_None)
    then show ?thesis using True ne assms(2) by simp
  next
    case False
    then have "find (\<lambda>i. s ! i = newline) [p ..< length s] = Some n" using sp(1,2,3) by (auto simp: find_upt_Some n_def)
    then show ?thesis using ne by simp
  qed
  have c: "ch s n = newline \<longleftrightarrow> n < length s" using sp(1,3) by (auto simp: nth_ch)
  have "\<not> n < p" by (simp add: n_def)
  then show "find_key_line s p e key =
    (if key_line key (line_at s p) then Some (p, n - p + (if n < length s then 1 else 0))
     else if n = length s then None else find_key_line s (n + 1) e key)"
    unfolding find_key_line.simps [of s p e key] le Let_def sp(4) [symmetric] c using assms(1) sp(1) by simp
qed

lemma find_key_line_result:
  assumes "e \<le> length s" "e = length s \<or> s ! (e - 1) = newline"
  shows "case find_key_line s p e key of
      None \<Rightarrow> \<forall>q. p \<le> q \<and> q < e \<and> (q = p \<or> s ! (q - 1) = newline) \<longrightarrow> \<not> key_line key (line_at s q)
    | Some (q, l) \<Rightarrow> p \<le> q \<and> q < e \<and> (q = p \<or> s ! (q - 1) = newline) \<and> key_line key (line_at s q) \<and>
        l = length (line_at s q) + (if q + length (line_at s q) < length s then 1 else 0)"
proof (induction "Suc e - p" arbitrary: p rule: less_induct)
  case less
  show ?case
  proof (cases "p < e")
    case True
    let ?n = "p + length (line_at s p)"
    note st = find_key_line_step [OF True assms]
    have "p \<le> length s" using True assms by simp
    note sp = line_at_span [OF this]
    show ?thesis
    proof (cases "key_line key (line_at s p) \<or> ?n = length s")
      case t: True
      have "q = p" if "p \<le> q" "q < e" "q = p \<or> s ! (q - 1) = newline" "?n = length s" for q
        using that sp(2) assms(1) by (cases q) (auto simp: le_Suc_eq)
      then show ?thesis using True t st(3) by auto
    next
      case False
      then have f: "find_key_line s p e key = find_key_line s (?n + 1) e key" "s ! ?n = newline" using st(3) sp(3) by simp_all
      have q: "?n + 1 \<le> q" if "p \<le> q" "q \<noteq> p" "s ! (q - 1) = newline" for q
      proof -
        have "p \<le> q - 1" using that by simp
        then have "\<not> q - 1 < ?n" using sp(2) that(3) by blast
        then show ?thesis using that(1,2) by simp
      qed
      have "?n < e" using st(1,2) False by auto
      then have IH: "case find_key_line s (?n + 1) e key of
          None \<Rightarrow> \<forall>q. ?n + 1 \<le> q \<and> q < e \<and> (q = ?n + 1 \<or> s ! (q - 1) = newline) \<longrightarrow> \<not> key_line key (line_at s q)
        | Some (q, l) \<Rightarrow> ?n + 1 \<le> q \<and> q < e \<and> (q = ?n + 1 \<or> s ! (q - 1) = newline) \<and> key_line key (line_at s q) \<and>
            l = length (line_at s q) + (if q + length (line_at s q) < length s then 1 else 0)"
        by (intro less) simp
      show ?thesis using IH q f False by (auto split: option.splits prod.splits)
    qed
  qed (auto simp: find_key_line.simps)
qed

section \<open>One patch\<close>

text \<open>\<open>patched_line section key v t t'\<close>: \<open>t'\<close> is \<open>t\<close> with the one line \<open>key = v\<close>, either in place of the line of that key in the section, or
  at the end of a section that has no such line, or in a new section at the end of the text.\<close>

definition patched_line :: "string \<Rightarrow> string \<Rightarrow> string \<Rightarrow> string \<Rightarrow> string \<Rightarrow> bool" where
  "patched_line section key v t t' \<longleftrightarrow>
     (let s = cstr t; new_line = key @ '' = '' @ v @ [newline] in
      (\<exists>i e p l. section_at section s i e \<and> t' = take p t @ new_line @ drop (p + l) t \<and>
         (i < p \<and> p < e \<and> s ! (p - 1) = newline \<and> key_line key (line_at s p) \<and>
            (take l (drop p t) = line_at s p @ [newline] \<or> p + l = length s \<and> take l (drop p t) = line_at s p) \<or>
          p = e \<and> l = 0 \<and> (\<forall>q. i < q \<and> q < e \<and> s ! (q - 1) = newline \<longrightarrow> \<not> key_line key (line_at s q)))) \<or>
      find_section s section = None \<and> t' = t @ [newline] @ marker_of section @ [newline] @ new_line)"

lemma section_found:
  assumes "find_section s section = Some i" "length section < 126"
  shows "section_at section s i (section_end s i)" "s ! i = CHR ''[''"
proof -
  note f = find_section_Some [OF assms]
  show h: "s ! i = CHR ''[''" using f(1,2) by (auto simp: marker_of_def prefix_def) (metis Cons_nth_drop_Suc list.inject)
  then show "section_at section s i (section_end s i)" using f section_end_spec [of i s] by (auto simp: section_at_def)
qed

lemma key_line_not_header:
  assumes "i < length s" "s ! i = CHR ''[''" "key \<noteq> []" "hd key \<noteq> CHR ''[''" shows "\<not> key_line key (line_at s i)"
proof -
  obtain rest where "line_at s i = CHR ''['' # rest" using assms(1,2) by (simp add: line_at_def Cons_nth_drop_Suc [symmetric])
  then show ?thesis using assms(3,4) by (cases key) (auto simp: key_line_def Let_def toml_blank_def)
qed

lemma patch_key_line_spec:
  assumes "patch_key_line b section key v = Patched b'" "length section < 126" "key \<noteq> []" "hd key \<noteq> CHR ''[''"
  shows "patched_line section key v (tb_text b) (tb_text b')"
proof (cases "find_section (cstr (tb_text b)) section")
  case None
  then have "append_section_key b section key v = Patched b'" using assms(1) by (auto simp: patch_key_line_def Let_def split: if_splits)
  then have "tb_text b' = tb_text b @ [newline] @ marker_of section @ [newline] @ key @ '' = '' @ v @ [newline]"
    by (auto simp: append_section_key_def buf_reserve_def marker_of_def Let_def split: if_splits option.splits)
  then show ?thesis using None by (simp add: patched_line_def Let_def)
next
  case (Some i)
  let ?t = "tb_text b" and ?s = "cstr (tb_text b)"
  let ?e = "section_end ?s i" and ?new = "key @ '' = '' @ v @ [newline]"
  note sec = section_found [OF Some assms(2)]
  then have e: "?e \<le> length ?s" "?e = length ?s \<or> ?s ! (?e - 1) = newline" "i < ?e" by (auto simp: section_at_def)
  have le: "length ?s \<le> length ?t" by (simp add: cstr_def length_takeWhile_le)
  have pre: "take k ?t = take k ?s" if "k \<le> length ?s" for k using that unfolding cstr_def by (metis takeWhile_eq_take take_take min_absorb1)
  note r = find_key_line_result [OF e(1,2), of i key]
  have header: "\<not> key_line key (line_at ?s i)" using key_line_not_header sec(2) e assms(3,4) by simp
  show ?thesis
  proof (cases "find_key_line ?s i ?e key")
    case None
    then have "tb_text b' = take ?e ?t @ ?new @ drop (?e + 0) ?t"
      using assms(1) Some e(1) le by (auto simp: patch_key_line_def splice_text_def Let_def split: if_splits)
    moreover have "\<forall>q. i < q \<and> q < ?e \<and> ?s ! (q - 1) = newline \<longrightarrow> \<not> key_line key (line_at ?s q)" using r None by auto
    ultimately show ?thesis unfolding patched_line_def Let_def using sec(1) by blast
  next
    case (Some pl)
    obtain p l where pl: "pl = (p, l)" by (metis surj_pair)
    have p: "i \<le> p" "p < ?e" "p = i \<or> ?s ! (p - 1) = newline" "key_line key (line_at ?s p)"
      "l = length (line_at ?s p) + (if p + length (line_at ?s p) < length ?s then 1 else 0)" using r Some pl by auto
    have ip: "i < p" using p(1,4) header by (metis le_neq_implies_less)
    have new: "tb_text b' = take p ?t @ ?new @ drop (p + l) ?t"
      using assms(1) \<open>find_section ?s section = _\<close> Some pl by (auto simp: patch_key_line_def splice_text_def Let_def split: if_splits)
    have "p \<le> length ?s" using p(2) e(1) by simp
    note sp = line_at_span [OF this]
    have pl': "p + l \<le> length ?s" using sp(1) p(5) by auto
    have "take l (drop p ?t) = take l (drop p ?s)" using pre [OF pl'] by (metis drop_take add.commute diff_add_inverse)
    moreover have "take l (drop p ?s) = line_at ?s p @ [newline] \<or> p + l = length ?s \<and> take l (drop p ?s) = line_at ?s p"
    proof (cases "p + length (line_at ?s p) < length ?s")
      case True
      then show ?thesis using sp(3,4) p(5) by (simp add: take_Suc_conv_app_nth)
    next
      case False
      then show ?thesis using sp(1,4) p(5) by simp
    qed
    ultimately show ?thesis unfolding patched_line_def Let_def using sec(1) new ip p by (metis less_imp_neq)
  qed
qed

section \<open>Escaping\<close>

text \<open>Reading a basic string of TOML back: the text behind the opening quote up to the closing one.\<close>

fun toml_unescape :: "string \<Rightarrow> (string \<times> string) option" where
  "toml_unescape [] = None"
| "toml_unescape (c # cs) =
     (if c = dquote then Some ([], cs)
      else if c = CHR 0x5C then
        (case cs of
           [] \<Rightarrow> None
         | d # ds \<Rightarrow>
             (case (if d = dquote \<or> d = CHR 0x5C then Some d else if d = CHR ''n'' then Some newline else if d = CHR ''r'' then Some (CHR 0x0D)
                    else if d = CHR ''t'' then Some tab else None) of
                None \<Rightarrow> None
              | Some x \<Rightarrow> map_option (\<lambda>(v, rest). (x # v, rest)) (toml_unescape ds)))
      else if c = newline then None
      else map_option (\<lambda>(v, rest). (c # v, rest)) (toml_unescape cs))"

lemma unescape_char: "toml_unescape (escape_toml_char c @ cs) = map_option (\<lambda>(v, rest). (c # v, rest)) (toml_unescape cs)"
  by auto

lemma escape_toml_string_back: "toml_unescape (tl (escape_toml_string s @ rest)) = Some (s, rest)"
proof -
  have "toml_unescape (concat (map escape_toml_char s) @ dquote # rest) = Some (s, rest)"
    by (induction s) (simp_all add: unescape_char del: escape_toml_char.simps)
  then show ?thesis by (simp add: escape_toml_string_def)
qed

lemma escape_toml_string_one_line: "newline \<notin> set (escape_toml_string s)"
  by (auto simp: escape_toml_string_def split: if_splits)

section \<open>A dashboard request\<close>

text \<open>The edits a request asks for, and their effect one after the other.\<close>

definition dashboard_edits :: "(64 word \<Rightarrow> int) \<Rightarrow> (64 word \<Rightarrow> string) \<Rightarrow> cjson \<Rightarrow> (string \<times> string \<times> string) list" where
  "dashboard_edits valueint fmt_g root =
     (let edit = (\<lambda>name section key f. case cJSON_GetObjectItem root name of None \<Rightarrow> [] | Some j \<Rightarrow> [(section, key, f j)]) in
      edit ''model'' ''agent'' ''model'' (\<lambda>j. escape_toml_string (valuestring j)) @
      edit ''max_tokens'' ''agent'' ''max_tokens'' (\<lambda>j. buf_trunc 32 (int_str (valueint (valuedouble j)))) @
      edit ''temperature'' ''agent'' ''temperature'' (\<lambda>j. buf_trunc 32 (fmt_g (valuedouble j))) @
      edit ''gateway_host'' ''gateway'' ''host'' (\<lambda>j. escape_toml_string (valuestring j)) @
      edit ''gateway_port'' ''gateway'' ''port'' (\<lambda>j. buf_trunc 32 (int_str (valueint (valuedouble j)))))"

fun edits_applied :: "(string \<times> string \<times> string) list \<Rightarrow> string \<Rightarrow> string \<Rightarrow> bool" where
  "edits_applied [] t t' \<longleftrightarrow> t' = t"
| "edits_applied ((section, key, v) # es) t t' \<longleftrightarrow> (\<exists>u. patched_line section key v t u \<and> edits_applied es u t')"

lemma edits_applied_append: "edits_applied (es @ fs) t t' \<longleftrightarrow> (\<exists>u. edits_applied es t u \<and> edits_applied fs u t')"
  by (induction es arbitrary: t) (auto, blast+)

lemma patch_if_applied:
  assumes "patch_if item patch r = Patched b'" "\<And>b. r = Patched b \<Longrightarrow> edits_applied es t (tb_text b)"
    and "\<And>b j. patch b j = patch_key_line b section key (f j)" "length section < 126" "key \<noteq> []" "hd key \<noteq> CHR ''[''"
  shows "edits_applied (es @ (case item of None \<Rightarrow> [] | Some j \<Rightarrow> [(section, key, f j)])) t (tb_text b')"
proof -
  obtain b where b: "r = Patched b" using assms(1) by (cases r) (auto simp: patch_if_def)
  show ?thesis
  proof (cases item)
    case None
    then show ?thesis using assms(1,2) b by (auto simp: patch_if_def)
  next
    case (Some j)
    then have "patch_key_line b section key (f j) = Patched b'" using assms(1,3) b by (simp add: patch_if_def)
    then show ?thesis using patch_key_line_spec [OF _ assms(4-6)] assms(2) [OF b] Some by (auto simp: edits_applied_append)
  qed
qed

lemma apply_dashboard_edits:
  assumes "apply_dashboard_fields valueint fmt_g root b = Inr (Patched b')"
  shows "edits_applied (dashboard_edits valueint fmt_g root) (tb_text b) (tb_text b')"
proof -
  let ?g = "cJSON_GetObjectItem root"
  have "patch_if (?g ''gateway_port'') (\<lambda>b j. patch_int_field b ''gateway'' ''port'' (valueint (valuedouble j)))
              (patch_if (?g ''gateway_host'') (\<lambda>b j. patch_string_field b ''gateway'' ''host'' (valuestring j))
              (patch_if (?g ''temperature'') (\<lambda>b j. patch_double_field fmt_g b ''agent'' ''temperature'' (valuedouble j))
              (patch_if (?g ''max_tokens'') (\<lambda>b j. patch_int_field b ''agent'' ''max_tokens'' (valueint (valuedouble j)))
              (patch_if (?g ''model'') (\<lambda>b j. patch_string_field b ''agent'' ''model'' (valuestring j)) (Patched b))))) = Patched b'"
    using assms unfolding apply_dashboard_fields_def Let_def by (auto split: option.splits)
  note p = patch_if_applied [OF this]
  have "edits_applied ((((([] @ (case ?g ''model'' of None \<Rightarrow> [] | Some j \<Rightarrow> [(''agent'', ''model'', escape_toml_string (valuestring j))])) @
      (case ?g ''max_tokens'' of None \<Rightarrow> [] | Some j \<Rightarrow> [(''agent'', ''max_tokens'', buf_trunc 32 (int_str (valueint (valuedouble j))))])) @
      (case ?g ''temperature'' of None \<Rightarrow> [] | Some j \<Rightarrow> [(''agent'', ''temperature'', buf_trunc 32 (fmt_g (valuedouble j)))])) @
      (case ?g ''gateway_host'' of None \<Rightarrow> [] | Some j \<Rightarrow> [(''gateway'', ''host'', escape_toml_string (valuestring j))])) @
      (case ?g ''gateway_port'' of None \<Rightarrow> [] | Some j \<Rightarrow> [(''gateway'', ''port'', buf_trunc 32 (int_str (valueint (valuedouble j))))])) (tb_text b) (tb_text b')"
    by (rule p, rule patch_if_applied, assumption, rule patch_if_applied, assumption, rule patch_if_applied, assumption, rule patch_if_applied, assumption)
      (simp_all add: patch_int_field_def patch_string_field_def patch_double_field_def)
  then show ?thesis by (simp add: dashboard_edits_def Let_def)
qed

lemma validate_frame:
  assumes "validate_patched_toml load e path content fs = (states, r)" "\<And>tmp. se_mkstemp e = Some tmp \<Longrightarrow> fs tmp = None"
  shows "\<And>s q. s \<in> set states \<Longrightarrow> se_mkstemp e \<noteq> Some q \<Longrightarrow> s q = fs q" "hd states = fs"
    "r = None \<Longrightarrow> \<exists>tmp cfg. se_mkstemp e = Some tmp \<and> load (fs(tmp \<mapsto> content)) tmp = Inr cfg"
proof -
  have "(\<forall>s \<in> set states. \<forall>q. se_mkstemp e \<noteq> Some q \<longrightarrow> s q = fs q) \<and> hd states = fs \<and>
    (r = None \<longrightarrow> (\<exists>tmp cfg. se_mkstemp e = Some tmp \<and> load (fs(tmp \<mapsto> content)) tmp = Inr cfg))"
  proof (cases "states = [fs] \<and> r \<noteq> None")
    case False
    then obtain tmp where tmp: "se_mkstemp e = Some tmp"
      using assms(1) by (auto simp: validate_patched_toml_def Let_def split: if_splits option.splits)
    obtain ws w where w: "write_all (se_write e) tmp content 0 [fs(tmp \<mapsto> []), fs] = (ws, w)" by (metis surj_pair)
    obtain k where k: "hd ws = fs(tmp \<mapsto> take k content)" "w \<longrightarrow> k = length content"
      using write_all_final [of "[fs(tmp \<mapsto> []), fs]" fs tmp 0 content "se_write e"] w by auto
    have all: "\<forall>s \<in> set ws. s q = fs q" if "q \<noteq> tmp" for q
      using write_all_states [of "[fs(tmp \<mapsto> []), fs]" q "fs q" tmp "se_write e" content 0] w that by auto
    have "states = discard_file_tmp tmp ws" "r = None \<longrightarrow> w \<and> (\<exists>cfg. load (hd ws) tmp = Inr cfg)"
      using assms(1) False tmp w by (auto simp: validate_patched_toml_def write_all_fd_def Let_def split: if_splits sum.splits)
    moreover have "(hd ws)(tmp := None) = fs" using k(1) assms(2) [OF tmp] by auto
    ultimately show ?thesis using all k tmp by (auto simp: discard_file_tmp_def)
  qed auto
  then show "\<And>s q. s \<in> set states \<Longrightarrow> se_mkstemp e \<noteq> Some q \<Longrightarrow> s q = fs q" "hd states = fs"
    "r = None \<Longrightarrow> \<exists>tmp cfg. se_mkstemp e = Some tmp \<and> load (fs(tmp \<mapsto> content)) tmp = Inr cfg" by blast+
qed

lemma dashboard_edits_one_line:
  assumes "\<And>d. newline \<notin> set (fmt_g d)" "(section, key, v) \<in> set (dashboard_edits valueint fmt_g root)"
  shows "newline \<notin> set v"
proof -
  have i: "newline \<notin> set (buf_trunc 32 (int_str n))" for n
  proof -
    have "newline \<notin> set (int_str n)" by (auto simp: int_str_def is_digit_def less_eq_char_def dest: nat_str_digits)
    then show ?thesis by (auto simp: buf_trunc_def dest: in_set_takeD)
  qed
  have g: "newline \<notin> set (buf_trunc 32 (fmt_g d))" for d using assms(1) by (auto simp: buf_trunc_def dest: in_set_takeD)
  show ?thesis
    using assms(2) i g escape_toml_string_one_line by (auto simp: dashboard_edits_def Let_def split: option.splits)
qed


definition demo_patch_env :: save_env where
  "demo_patch_env = \<lparr>se_mkdir = True, se_mkstemp = Some ''/c/.sc-patch-a1b2c3'', se_fchmod = True, se_write = (\<lambda>_. 9), se_fsync = True, se_close = True, se_rename = True\<rparr>"

definition demo_toml :: "string \<Rightarrow> string" where
  "demo_toml model = ''[agent]'' @ [newline] @ ''model = '' @ [dquote] @ model @ [dquote, newline] @ ''max_tokens = 5'' @ [newline]"


text \<open>After a line was shortened the capacity is larger than the new buffer; a section that is then appended is written behind its end.\<close>

theorem shortened_buffer_overflows:
  "snd (config_patch_dashboard_json (\<lambda>_. Some (CObject [(''model'', CString ''x''), (''gateway_host'', CString ''h'')])) (\<lambda>_. 0) (\<lambda>_. [])
     (\<lambda>_ _. Inr config_defaults) demo_patch_env ''/c/config.toml'' []
     [''/c/config.toml'' \<mapsto> demo_toml ''a-rather-long-model-name-2026-01-01'']) = Memory_error"
  by code_simp

text \<open>A file whose last line lacks its newline: the new line is joined to the last one.\<close>

theorem unterminated_line_joined:
  "patch_string_field \<lparr>tb_text = ''[agent]'' @ [newline] @ ''max_tokens = 5'', tb_cap = 23, tb_alloc = 23\<rparr> ''agent'' ''model'' ''x'' =
     Patched \<lparr>tb_text = ''[agent]'' @ [newline] @ ''max_tokens = 5model = '' @ [dquote] @ ''x'' @ [dquote, newline], tb_cap = 35, tb_alloc = 35\<rparr>"
  by code_simp

end
