(* ===== verification/Board.thy ===== *)
theory Board
  imports Config
begin

text \<open>
  \<open>src/hardware/board_detect.c\<close>: which board the program runs on, from the environment or from the device tree, and
  \<open>src/asap/manifest_profiles.c\<close>: what the manifest says of each board.  The bytes of the device-tree file and the uninitialised
  bytes that follow them in the buffer are arguments.
\<close>

section \<open>Definitions\<close>

datatype board_id = BOARD_UNKNOWN | BOARD_JETSON_ORIN_NANO | BOARD_RPI_ZERO2W | BOARD_STUB

definition board_id_from_string :: "string option \<Rightarrow> board_id" where
  "board_id_from_string s =
     (case s of
        None \<Rightarrow> BOARD_UNKNOWN
      | Some t \<Rightarrow>
          if t = [] then BOARD_UNKNOWN
          else if t = ''jetson'' then BOARD_JETSON_ORIN_NANO
          else if t = ''rpi'' then BOARD_RPI_ZERO2W
          else if t = ''stub'' then BOARD_STUB
          else BOARD_UNKNOWN)"

text \<open>The loop over the entries: \<open>entry\<close> is the buffer from the current offset on, of which the first \<open>len\<close> bytes were read from
  the file.  \<open>strncmp\<close> may look at the bytes behind them.\<close>

function classify_loop :: "string \<Rightarrow> nat \<Rightarrow> board_id" where
  "classify_loop entry len =
     (if len = 0 then BOARD_UNKNOWN
      else let entry_len = length (cstr (take len entry)) in
        if take 12 entry = ''nvidia,p3768'' \<or> take 8 entry = ''tegra234'' then BOARD_JETSON_ORIN_NANO
        else if take 26 entry = ''raspberrypi,model-zero-2-w'' then BOARD_RPI_ZERO2W
        else if entry_len = 0 then BOARD_UNKNOWN
        else classify_loop (drop (entry_len + 1) entry) (len - (entry_len + 1)))"
  by pat_completeness auto
termination by (relation "measure snd") auto

declare classify_loop.simps [simp del]

definition classify_compatible :: "string \<Rightarrow> string \<Rightarrow> board_id" where
  "classify_compatible rest data = classify_loop (data @ rest) (length data)"

text \<open>The read loop fills the buffer with the whole file and leaves room behind it.\<close>

definition detect_from_compatible_file :: "string \<Rightarrow> string option \<Rightarrow> board_id" where
  "detect_from_compatible_file rest file =
     (case file of
        None \<Rightarrow> BOARD_UNKNOWN
      | Some data \<Rightarrow> if data = [] then BOARD_UNKNOWN else classify_compatible rest data)"

definition board_detect :: "(string \<Rightarrow> string option) \<Rightarrow> string \<Rightarrow> string option \<Rightarrow> board_id" where
  "board_detect env rest file =
     (case board_id_from_string (env ''SHELLCLAW_BOARD'') of
        BOARD_UNKNOWN \<Rightarrow> detect_from_compatible_file rest file
      | board \<Rightarrow> board)"

fun board_name :: "board_id \<Rightarrow> string" where
  "board_name BOARD_JETSON_ORIN_NANO = ''jetson_orin_nano''"
| "board_name BOARD_RPI_ZERO2W = ''rpi_zero2w''"
| "board_name BOARD_STUB = ''stub''"
| "board_name BOARD_UNKNOWN = ''unknown''"

text \<open>\<open>manifest_profiles.c\<close>\<close>

record board_profile =
  bp_class_name :: string
  bp_model_name :: string
  bp_io :: "string list"
  bp_modes :: "string list"
  bp_local_model_id :: string
  bp_local_quantization :: string

definition DEFAULT_IO_GPIO_I2C :: "string list" where "DEFAULT_IO_GPIO_I2C = [''gpio'', ''i2c'']"
definition JETSON_MODES :: "string list" where "JETSON_MODES = [''cloud'', ''local_cuda'']"
definition RPI_MODES :: "string list" where "RPI_MODES = [''cloud'', ''local_cpu'']"
definition STUB_MODES :: "string list" where "STUB_MODES = [''cloud'', ''local_cpu'']"

definition manifest_resolve_board :: "(string \<Rightarrow> string option) \<Rightarrow> string \<Rightarrow> string option \<Rightarrow> config \<Rightarrow> board_id" where
  "manifest_resolve_board env rest file cfg =
     (let from_cfg = board_id_from_string (hardware_board (c_hardware cfg)) in
      if from_cfg \<noteq> BOARD_UNKNOWN then from_cfg
      else let from_cfg = board_detect env rest file in
        if from_cfg \<noteq> BOARD_UNKNOWN then from_cfg else BOARD_STUB)"

fun manifest_board_profile :: "board_id \<Rightarrow> board_profile" where
  "manifest_board_profile BOARD_JETSON_ORIN_NANO =
     \<lparr>bp_class_name = ''edge_accelerator'', bp_model_name = ''jetson_orin_nano_super_8gb'', bp_io = DEFAULT_IO_GPIO_I2C, bp_modes = JETSON_MODES,
      bp_local_model_id = ''Phi-3-mini-4k-instruct-Q4_K_M'', bp_local_quantization = ''Q4_K_M''\<rparr>"
| "manifest_board_profile BOARD_RPI_ZERO2W =
     \<lparr>bp_class_name = ''sbc'', bp_model_name = ''raspberry_pi_zero_2_w'', bp_io = DEFAULT_IO_GPIO_I2C, bp_modes = RPI_MODES,
      bp_local_model_id = ''tinyllama-1.1b-chat-Q4_K_M'', bp_local_quantization = ''Q4_K_M''\<rparr>"
| "manifest_board_profile _ =
     \<lparr>bp_class_name = ''sbc'', bp_model_name = ''stub'', bp_io = [], bp_modes = STUB_MODES,
      bp_local_model_id = ''tinyllama-1.1b-chat-Q4_K_M'', bp_local_quantization = ''Q4_K_M''\<rparr>"

section \<open>Lemmas\<close>

lemma manifest_resolve_board_known: "manifest_resolve_board env rest file cfg \<noteq> BOARD_UNKNOWN"
  by (simp add: manifest_resolve_board_def Let_def)

text \<open>A file that ends in a NUL byte, as the kernel writes it, is classified by its own bytes alone.\<close>

lemma take_literal_before_nul:
  assumes "nul \<in> set xs" "length lit = n" "nul \<notin> set lit"
  shows "take n (xs @ ys) = lit \<longleftrightarrow> take n xs = lit"
proof (cases "n \<le> length xs")
  case False
  then have "take n xs = xs" by simp
  moreover have "take n (xs @ ys) = xs @ take (n - length xs) ys" using False by (simp add: take_append)
  ultimately show ?thesis using assms by (metis Un_iff set_append)
qed simp

lemma classify_own_bytes:
  "len = length xs \<Longrightarrow> xs \<noteq> [] \<Longrightarrow> last xs = nul \<Longrightarrow> classify_loop (xs @ ys) len = classify_loop xs len"
proof (induction "xs @ ys" len arbitrary: xs rule: classify_loop.induct)
  case (1 len)
  let ?e = "length (cstr xs)"
  have n: "nul \<in> set xs" using 1(3,4) by (metis last_in_set)
  have t: "take 12 (xs @ ys) = ''nvidia,p3768'' \<longleftrightarrow> take 12 xs = ''nvidia,p3768''" "take 8 (xs @ ys) = ''tegra234'' \<longleftrightarrow> take 8 xs = ''tegra234''"
    "take 26 (xs @ ys) = ''raspberrypi,model-zero-2-w'' \<longleftrightarrow> take 26 xs = ''raspberrypi,model-zero-2-w''"
    by (rule take_literal_before_nul [OF n], simp, simp add: nul_def)+
  have e: "Suc ?e \<le> length xs" using n unfolding cstr_def by (induction xs) auto
  have d: "drop (Suc ?e) (xs @ ys) = drop (Suc ?e) xs @ ys" using e by simp
  have IH: "classify_loop (drop (Suc ?e) xs @ ys) (len - Suc ?e) = classify_loop (drop (Suc ?e) xs) (len - Suc ?e)"
    if "len \<noteq> 0" "\<not> (take 12 (xs @ ys) = ''nvidia,p3768'' \<or> take 8 (xs @ ys) = ''tegra234'')"
      "take 26 (xs @ ys) \<noteq> ''raspberrypi,model-zero-2-w''" "?e \<noteq> 0"
  proof (cases "drop (Suc ?e) xs = []")
    case True
    then show ?thesis using 1(2) by (simp add: classify_loop.simps)
  next
    case False
    then show ?thesis using 1(1) [OF that(1) refl that(2,3), of "drop (Suc ?e) xs"] that(4) d 1(2,4) by simp
  qed
  show ?case
    unfolding classify_loop.simps [of "xs @ ys" len] classify_loop.simps [of xs len] Let_def
    using t IH d 1(2) by simp
qed

lemma detect_ignores_garbage:
  "data \<noteq> [] \<Longrightarrow> last data = nul \<Longrightarrow> detect_from_compatible_file rest (Some data) = detect_from_compatible_file rest' (Some data)"
  by (simp add: detect_from_compatible_file_def classify_compatible_def classify_own_bytes)

text \<open>A file that ends in the middle of an entry is read on into bytes the program never wrote.\<close>

lemma truncated_entry_reads_garbage:
  "detect_from_compatible_file ''4'' (Some ''tegra23'') \<noteq> detect_from_compatible_file ''5'' (Some ''tegra23'')"
  by code_simp

end
