(* ===== verification/Manifest_Keys.thy ===== *)
theory Manifest_Keys
  imports Config
begin

text \<open>
  \<open>src/asap/manifest_keys.c\<close>: the Ed25519 key pair that signs manifests, on disk and in memory.  The state holds the loaded keys, the key
  files, the earlier states of the files (latest first, because a crash can leave any of them) and what the system calls answer: whether the \<open>n\<close>-th one succeeds, and how many bytes \<open>write\<close>
  takes at an offset.  \<open>crypto_ed25519_keypair\<close>, a wrapper of TweetNaCl, is an argument: the pair, or \<open>None\<close> when it fails.  \<open>realpath\<close>-like aliasing of key paths does not occur: the
  code uses the same strings throughout.
\<close>

section \<open>Definitions\<close>

definition MANIFEST_KEYS_SUBDIR :: string where "MANIFEST_KEYS_SUBDIR = ''keys''"
definition MANIFEST_PRIV_FILENAME :: string where "MANIFEST_PRIV_FILENAME = ''ed25519.priv''"
definition MANIFEST_PUB_FILENAME :: string where "MANIFEST_PUB_FILENAME = ''ed25519.pub''"
definition MANIFEST_KEY_FILE_MODE :: nat where "MANIFEST_KEY_FILE_MODE = 384"
definition MANIFEST_KEY_BACKUPS_KEEP :: nat where "MANIFEST_KEY_BACKUPS_KEEP = 5"
definition ED25519_PUBLIC_KEY_SIZE :: nat where "ED25519_PUBLIC_KEY_SIZE = 32"
definition ED25519_PRIVATE_KEY_SIZE :: nat where "ED25519_PRIVATE_KEY_SIZE = 64"

text \<open>A file: its bytes, its permission bits, and whether it is a regular file rather than a link.\<close>

record kfile =
  kf_data :: "nat list"
  kf_mode :: nat
  kf_regular :: bool

type_synonym kfs = "string \<Rightarrow> kfile option"

record keys =
  g_manifest_pubkey :: "nat list"
  g_manifest_privkey :: "nat list"
  g_manifest_keys_loaded :: bool
  fail_pub_write :: bool
  fail_backup_write :: bool
  k_fs :: kfs
  k_hist :: "kfs list"
  k_sys :: "nat \<Rightarrow> bool"
  k_calls :: nat
  k_write :: "nat \<Rightarrow> int"

definition k_call :: "keys \<Rightarrow> bool \<times> keys" where
  "k_call s = (k_sys s (k_calls s), s\<lparr>k_calls := Suc (k_calls s)\<rparr>)"

definition k_set :: "(kfs \<Rightarrow> kfs) \<Rightarrow> keys \<Rightarrow> keys" where
  "k_set f s = s\<lparr>k_fs := f (k_fs s), k_hist := k_fs s # k_hist s\<rparr>"

definition k_unlink :: "string \<Rightarrow> keys \<Rightarrow> keys" where
  "k_unlink path = k_set (\<lambda>fs. fs(path := None))"

subsection \<open>State\<close>

definition manifest_keys_test_set_fail_pub_write :: "bool \<Rightarrow> keys \<Rightarrow> keys" where
  "manifest_keys_test_set_fail_pub_write enabled s = s\<lparr>fail_pub_write := enabled\<rparr>"

definition manifest_keys_test_set_fail_backup_write :: "bool \<Rightarrow> keys \<Rightarrow> keys" where
  "manifest_keys_test_set_fail_backup_write enabled s = s\<lparr>fail_backup_write := enabled\<rparr>"

definition manifest_keys_clear_loaded :: "keys \<Rightarrow> keys" where
  "manifest_keys_clear_loaded s =
     s\<lparr>g_manifest_keys_loaded := False, g_manifest_pubkey := replicate 32 0, g_manifest_privkey := replicate 64 0\<rparr>"

definition manifest_keys_reset :: "keys \<Rightarrow> keys" where
  "manifest_keys_reset s = (manifest_keys_clear_loaded s)\<lparr>fail_pub_write := False, fail_backup_write := False\<rparr>"

definition manifest_keys_public :: "keys \<Rightarrow> nat list option" where
  "manifest_keys_public s = (if g_manifest_keys_loaded s then Some (g_manifest_pubkey s) else None)"

definition manifest_keys_private :: "keys \<Rightarrow> nat list option" where
  "manifest_keys_private s = (if g_manifest_keys_loaded s then Some (g_manifest_privkey s) else None)"

subsection \<open>Paths\<close>

definition manifest_resolve_home_dir :: "(string \<Rightarrow> string option) \<Rightarrow> string" where
  "manifest_resolve_home_dir env =
     (case env ''SHELLCLAW_HOME'' of
        Some h \<Rightarrow> if h \<noteq> [] then h else config_expand_tilde env ''~/.shellclaw''
      | None \<Rightarrow> config_expand_tilde env ''~/.shellclaw'')"

definition key_dir :: "(string \<Rightarrow> string option) \<Rightarrow> string option \<Rightarrow> string option" where
  "key_dir env test_dir =
     (if (case test_dir of Some d \<Rightarrow> d \<noteq> [] | None \<Rightarrow> False) then test_dir
      else snprintf_checked 512 (manifest_resolve_home_dir env @ ''/'' @ MANIFEST_KEYS_SUBDIR))"

definition manifest_keys_build_paths :: "(string \<Rightarrow> string option) \<Rightarrow> string option \<Rightarrow> (string \<times> string) option" where
  "manifest_keys_build_paths env test_dir =
     (case key_dir env test_dir of
        None \<Rightarrow> None
      | Some keys_dir \<Rightarrow>
          (case (snprintf_checked 512 (keys_dir @ ''/'' @ MANIFEST_PRIV_FILENAME), snprintf_checked 512 (keys_dir @ ''/'' @ MANIFEST_PUB_FILENAME)) of
             (Some priv_path, Some pub_path) \<Rightarrow> Some (priv_path, pub_path)
           | _ \<Rightarrow> None))"

text \<open>\<open>manifest_keys_dir_of\<close>, and the directory that \<open>manifest_keys_ensure_dir\<close> creates.\<close>

definition manifest_keys_dir_of :: "string \<Rightarrow> nat \<Rightarrow> string option" where
  "manifest_keys_dir_of key_path out_sz =
     (case strrchr_split (CHR ''/'') key_path of
        None \<Rightarrow> None
      | Some (dir, _) \<Rightarrow> if dir = [] then None else if length dir \<ge> out_sz then None else Some dir)"

definition manifest_keys_ensure_dir :: "string \<Rightarrow> keys \<Rightarrow> bool \<times> keys" where
  "manifest_keys_ensure_dir priv_path s =
     (case manifest_keys_dir_of priv_path 512 of None \<Rightarrow> (False, s) | Some dir \<Rightarrow> k_call s)"

subsection \<open>Files\<close>

definition manifest_priv_permissions_ok :: "string \<Rightarrow> keys \<Rightarrow> bool" where
  "manifest_priv_permissions_ok priv_path s =
     (case k_fs s priv_path of None \<Rightarrow> False | Some k \<Rightarrow> kf_regular k \<and> kf_mode k mod 64 = 0)"

definition manifest_build_tmp_path :: "string \<Rightarrow> nat \<Rightarrow> string option" where
  "manifest_build_tmp_path final_path tmp_sz = snprintf_checked tmp_sz (final_path @ ''.tmp'')"

definition set_data :: "string \<Rightarrow> nat list \<Rightarrow> kfs \<Rightarrow> kfs" where
  "set_data path d fs = (case fs path of None \<Rightarrow> fs | Some k \<Rightarrow> fs(path \<mapsto> k\<lparr>kf_data := d\<rparr>))"

definition set_mode :: "string \<Rightarrow> nat \<Rightarrow> kfs \<Rightarrow> kfs" where
  "set_mode path m fs = (case fs path of None \<Rightarrow> fs | Some k \<Rightarrow> fs(path \<mapsto> k\<lparr>kf_mode := m\<rparr>))"

function key_write_loop :: "string \<Rightarrow> nat list \<Rightarrow> nat \<Rightarrow> keys \<Rightarrow> bool \<times> keys" where
  "key_write_loop path data off s =
     (if off < length data then
        let n = min (k_write s off) (int (length data - off)) in
        if n \<le> 0 then (False, k_unlink path s)
        else key_write_loop path data (off + nat n) (k_set (set_data path (take (off + nat n) data)) s)
      else (True, s))"
  by pat_completeness auto
termination by (relation "measure (\<lambda>(_, data, off, _). length data - off)") auto

declare key_write_loop.simps [simp del]

text \<open>The file opened for writing: truncated, or new with mode 0600; \<open>O_NOFOLLOW\<close> refuses a link.\<close>

definition open_trunc :: "string \<Rightarrow> kfs \<Rightarrow> kfs" where
  "open_trunc path fs =
     fs(path \<mapsto> (case fs path of Some k \<Rightarrow> k\<lparr>kf_data := []\<rparr>
                   | None \<Rightarrow> \<lparr>kf_data = [], kf_mode = MANIFEST_KEY_FILE_MODE, kf_regular = True\<rparr>))"

definition manifest_write_key_file :: "string \<Rightarrow> nat list \<Rightarrow> keys \<Rightarrow> bool \<times> keys" where
  "manifest_write_key_file path data s =
     (if fail_backup_write s \<and> strstr ''.bak.'' path \<noteq> None then (False, s\<lparr>fail_backup_write := False\<rparr>)
      else case k_call s of
        (opened, s1) \<Rightarrow>
          if \<not> opened \<or> (case k_fs s1 path of Some k \<Rightarrow> \<not> kf_regular k | None \<Rightarrow> False) then (False, s1)
          else case key_write_loop path data 0 (k_set (open_trunc path) s1) of
            (False, s2) \<Rightarrow> (False, s2)
          | (True, s2) \<Rightarrow>
              (case k_call s2 of
                 (False, s3) \<Rightarrow> (False, k_unlink path s3)
               | (True, s3) \<Rightarrow>
                   let s4 = k_set (set_mode path MANIFEST_KEY_FILE_MODE) s3 in
                   (case k_call s4 of
                      (stat_ok, s5) \<Rightarrow>
                        if \<not> stat_ok \<or> \<not> manifest_priv_permissions_ok path s5 then (False, k_unlink path s5)
                        else (case k_call s5 of
                                (False, s6) \<Rightarrow> (False, k_unlink path s6)
                              | (True, s6) \<Rightarrow> (True, s6)))))"

definition ends_with :: "string \<Rightarrow> string \<Rightarrow> bool" where
  "ends_with suf s = suffix suf s"

definition manifest_write_key_file_atomic :: "string \<Rightarrow> nat list \<Rightarrow> keys \<Rightarrow> bool \<times> keys" where
  "manifest_write_key_file_atomic final_path data s =
     (if fail_pub_write s \<and> ends_with MANIFEST_PUB_FILENAME final_path then (False, s\<lparr>fail_pub_write := False\<rparr>)
      else case manifest_build_tmp_path final_path 576 of
        None \<Rightarrow> (False, s)
      | Some tmp_path \<Rightarrow>
          (case manifest_write_key_file tmp_path data s of
             (False, s1) \<Rightarrow> (False, k_unlink tmp_path s1)
           | (True, s1) \<Rightarrow>
               (case k_call s1 of
                  (False, s2) \<Rightarrow> (False, k_unlink tmp_path s2)
                | (True, s2) \<Rightarrow> (True, k_set (\<lambda>fs. fs(tmp_path := None, final_path := fs tmp_path)) s2))))"

definition manifest_read_key_file :: "string \<Rightarrow> nat \<Rightarrow> keys \<Rightarrow> nat list option \<times> keys" where
  "manifest_read_key_file path len s =
     (case k_fs s path of
        None \<Rightarrow> (None, s)
      | Some k \<Rightarrow>
          if \<not> kf_regular k then (None, s)
          else case k_call s of
            (ok, s1) \<Rightarrow> if \<not> ok \<or> length (kf_data k) \<noteq> len then (None, s1) else (Some (kf_data k), s1))"

definition manifest_keys_create_and_persist :: "(nat list \<times> nat list) option \<Rightarrow> string \<Rightarrow> string \<Rightarrow> keys \<Rightarrow> bool \<times> keys" where
  "manifest_keys_create_and_persist keypair priv_path pub_path s =
     (case manifest_keys_ensure_dir priv_path s of
        (False, s1) \<Rightarrow> (False, s1)
      | (True, s1) \<Rightarrow>
          (case keypair of
             None \<Rightarrow> (False, s1)
           | Some (pub, priv) \<Rightarrow>
               let s2 = s1\<lparr>g_manifest_pubkey := pub, g_manifest_privkey := priv\<rparr> in
               (case manifest_write_key_file_atomic priv_path priv s2 of
                  (False, s3) \<Rightarrow> (False, s3)
                | (True, s3) \<Rightarrow>
                    (case manifest_write_key_file_atomic pub_path pub s3 of
                       (False, s4) \<Rightarrow> (False, k_unlink priv_path s4)
                     | (True, s4) \<Rightarrow> (True, s4)))))"

subsection \<open>Backups\<close>

text \<open>The timestamp of \<open><prefix>.bak.<digits>\<close>; \<open>strtoll\<close> must consume the whole suffix without overflow.\<close>

definition manifest_keys_parse_bak_ts :: "string \<Rightarrow> string \<Rightarrow> nat \<Rightarrow> (string \<times> int) option" where
  "manifest_keys_parse_bak_ts name pre out_sz =
     (if \<not> prefix pre name then None
      else let suf = drop (length pre) name in
        if \<not> prefix ''.bak.'' suf \<or> drop 5 suf = [] then None
        else case strtol10 (drop 5 suf) of
          (ts, rest) \<Rightarrow>
            if strtol_erange (drop 5 suf) \<or> rest \<noteq> [] then None
            else if length name \<ge> out_sz then None else Some (name, ts))"

text \<open>The inner loop: behind every entry whose timestamp is not smaller.\<close>

definition bak_insert :: "string \<times> int \<Rightarrow> (string \<times> int) list \<Rightarrow> (string \<times> int) list" where
  "bak_insert e out = (let older = rev (takeWhile (\<lambda>x. snd x < snd e) (rev out)) in take (length out - length older) out @ e # older)"

fun collect_baks :: "string \<Rightarrow> nat \<Rightarrow> string list \<Rightarrow> (string \<times> int) list \<Rightarrow> (string \<times> int) list" where
  "collect_baks pre cap [] out = out"
| "collect_baks pre cap (name # names) out =
     (if length out \<ge> cap then out
      else case manifest_keys_parse_bak_ts name pre 576 of
        None \<Rightarrow> collect_baks pre cap names out
      | Some e \<Rightarrow> collect_baks pre cap names (bak_insert e out))"

text \<open>\<open>entries\<close>: the names of the directory, in the order of \<open>readdir\<close>; \<open>None\<close> when it cannot be opened.\<close>

definition manifest_keys_collect_baks :: "string list option \<Rightarrow> string \<Rightarrow> nat \<Rightarrow> (string \<times> int) list" where
  "manifest_keys_collect_baks entries pre cap = (case entries of None \<Rightarrow> [] | Some names \<Rightarrow> collect_baks pre cap names [])"

definition manifest_keys_prune_prefix :: "string \<Rightarrow> (string \<times> int) list \<Rightarrow> keys \<Rightarrow> keys" where
  "manifest_keys_prune_prefix keys_dir entries s =
     fold (\<lambda>e s. case snprintf_checked 576 (keys_dir @ ''/'' @ fst e) of None \<Rightarrow> s | Some full \<Rightarrow> k_unlink full s)
       (drop MANIFEST_KEY_BACKUPS_KEEP entries) s"

definition manifest_keys_prune_backups :: "string list option \<Rightarrow> string \<Rightarrow> keys \<Rightarrow> keys" where
  "manifest_keys_prune_backups entries keys_dir s =
     manifest_keys_prune_prefix keys_dir (manifest_keys_collect_baks entries MANIFEST_PUB_FILENAME 64)
       (manifest_keys_prune_prefix keys_dir (manifest_keys_collect_baks entries MANIFEST_PRIV_FILENAME 64) s)"

subsection \<open>Loading\<close>

definition manifest_keys_pub_matches_priv :: "keys \<Rightarrow> bool" where
  "manifest_keys_pub_matches_priv s \<longleftrightarrow>
     take ED25519_PUBLIC_KEY_SIZE (g_manifest_pubkey s) =
     take ED25519_PUBLIC_KEY_SIZE (drop ED25519_PUBLIC_KEY_SIZE (g_manifest_privkey s))"

text \<open>The result is the error text, \<open>None\<close> on success.  A buffer into which a read failed keeps its content here; it is not used before it is
  written again.\<close>

definition manifest_keys_load_from_disk :: "string \<Rightarrow> string \<Rightarrow> keys \<Rightarrow> string option \<times> keys" where
  "manifest_keys_load_from_disk priv_path pub_path s =
     (if k_fs s priv_path \<noteq> None \<and> \<not> manifest_priv_permissions_ok priv_path s
      then (Some ''ed25519.priv permissions too open (expected 0600)'', s)
      else case manifest_read_key_file priv_path ED25519_PRIVATE_KEY_SIZE s of
        (None, s1) \<Rightarrow> (Some ''failed to read ed25519.priv'', s1)
      | (Some priv, s1) \<Rightarrow>
          let s2 = s1\<lparr>g_manifest_privkey := priv\<rparr> in
          (case manifest_read_key_file pub_path ED25519_PUBLIC_KEY_SIZE s2 of
             (None, s3) \<Rightarrow> (Some ''failed to read ed25519.pub'', s3)
           | (Some pub, s3) \<Rightarrow>
               let s4 = s3\<lparr>g_manifest_pubkey := pub\<rparr> in
               if \<not> manifest_keys_pub_matches_priv s4 then (Some ''ed25519.pub does not match ed25519.priv'', s4)
               else (None, s4)))"

definition manifest_keys_load ::
  "(string \<Rightarrow> string option) \<Rightarrow> string option \<Rightarrow> (nat list \<times> nat list) option \<Rightarrow> keys \<Rightarrow> string option \<times> keys" where
  "manifest_keys_load env test_dir keypair s =
     (if g_manifest_keys_loaded s then (None, s)
      else case manifest_keys_build_paths env test_dir of
        None \<Rightarrow> (Some ''failed to resolve keys directory'', s)
      | Some (priv_path, pub_path) \<Rightarrow>
          if k_fs s priv_path \<noteq> None then
            (case manifest_keys_load_from_disk priv_path pub_path s of
               (Some err, s1) \<Rightarrow> (Some err, s1)
             | (None, s1) \<Rightarrow> (None, s1\<lparr>g_manifest_keys_loaded := True\<rparr>))
          else
            (case manifest_keys_create_and_persist keypair priv_path pub_path s of
               (False, s1) \<Rightarrow> (Some ''failed to create Ed25519 keypair'', s1)
             | (True, s1) \<Rightarrow> (None, s1\<lparr>g_manifest_keys_loaded := True\<rparr>)))"

definition manifest_keys_ensure_loaded ::
  "(string \<Rightarrow> string option) \<Rightarrow> string option \<Rightarrow> (nat list \<times> nat list) option \<Rightarrow> keys \<Rightarrow> string option \<times> keys" where
  "manifest_keys_ensure_loaded env test_dir keypair s =
     (if g_manifest_keys_loaded s then
        (case manifest_keys_build_paths env test_dir of
           None \<Rightarrow> (Some ''failed to resolve keys directory'', s)
         | Some (priv_path, pub_path) \<Rightarrow>
             if k_fs s priv_path \<noteq> None \<and> \<not> manifest_priv_permissions_ok priv_path s
             then (Some ''ed25519.priv permissions too open (expected 0600)'', manifest_keys_clear_loaded s)
             else (None, s))
      else manifest_keys_load env test_dir keypair s)"

subsection \<open>Rotation\<close>

text \<open>The old pair, when both files are there and readable.\<close>

definition read_old_keys :: "string \<Rightarrow> string \<Rightarrow> keys \<Rightarrow> (nat list \<times> nat list) option \<times> keys" where
  "read_old_keys priv_path pub_path s =
     (if k_fs s priv_path \<noteq> None \<and> k_fs s pub_path \<noteq> None then
        (case manifest_read_key_file priv_path ED25519_PRIVATE_KEY_SIZE s of
           (None, s1) \<Rightarrow> (None, s1)
         | (Some old_priv, s1) \<Rightarrow>
             (case manifest_read_key_file pub_path ED25519_PUBLIC_KEY_SIZE s1 of
                (None, s2) \<Rightarrow> (None, s2)
              | (Some old_pub, s2) \<Rightarrow> (Some (old_priv, old_pub), s2)))
      else (None, s))"

definition backup_old_keys :: "string \<Rightarrow> string \<Rightarrow> int \<Rightarrow> (nat list \<times> nat list) option \<Rightarrow> keys \<Rightarrow> string option \<times> keys" where
  "backup_old_keys priv_path pub_path ts old s =
     (case old of
        None \<Rightarrow> (None, s)
      | Some (old_priv, old_pub) \<Rightarrow>
          (case (snprintf_checked 576 (priv_path @ ''.bak.'' @ int_str ts), snprintf_checked 576 (pub_path @ ''.bak.'' @ int_str ts)) of
             (Some bak_priv, Some bak_pub) \<Rightarrow>
               (case manifest_write_key_file bak_priv old_priv s of
                  (False, s1) \<Rightarrow> (Some ''failed to backup ed25519.priv'', s1)
                | (True, s1) \<Rightarrow>
                    (case manifest_write_key_file bak_pub old_pub s1 of
                       (False, s2) \<Rightarrow> (Some ''failed to backup ed25519.pub'', s2)
                     | (True, s2) \<Rightarrow> (None, s2)))
           | _ \<Rightarrow> (Some ''backup path too long'', s)))"

text \<open>The two writes, with the rollback when the second one fails.\<close>

definition install_new_keys ::
  "string \<Rightarrow> string \<Rightarrow> (nat list \<times> nat list) option \<Rightarrow> string list option \<Rightarrow> keys \<Rightarrow> string option \<times> keys" where
  "install_new_keys priv_path pub_path old entries s =
     (case manifest_write_key_file_atomic priv_path (g_manifest_privkey s) s of
        (False, s1) \<Rightarrow> (Some ''failed to write ed25519.priv'', s1)
      | (True, s1) \<Rightarrow>
          (case manifest_write_key_file_atomic pub_path (g_manifest_pubkey s1) s1 of
             (False, s2) \<Rightarrow>
               (case old of
                  Some (old_priv, old_pub) \<Rightarrow>
                    (case manifest_write_key_file_atomic priv_path old_priv s2 of
                       (restored, s3) \<Rightarrow>
                         (Some (if restored then ''failed to write ed25519.pub'' else ''failed to restore ed25519.priv after pub write error''),
                          s3\<lparr>g_manifest_pubkey := old_pub, g_manifest_privkey := old_priv, g_manifest_keys_loaded := True\<rparr>))
                | None \<Rightarrow> (Some ''failed to write ed25519.pub'', manifest_keys_clear_loaded (k_unlink priv_path s2)))
           | (True, s2) \<Rightarrow>
               let s3 = s2\<lparr>g_manifest_keys_loaded := True\<rparr> in
               (None, if old \<noteq> None
                      then (case manifest_keys_dir_of priv_path 512 of
                              None \<Rightarrow> s3 | Some keys_dir \<Rightarrow> manifest_keys_prune_backups entries keys_dir s3)
                      else s3)))"

text \<open>\<open>now\<close> is what \<open>time\<close> returns, \<open>None\<close> on failure.\<close>

definition manifest_keys_rotate ::
  "(string \<Rightarrow> string option) \<Rightarrow> string option \<Rightarrow> (nat list \<times> nat list) option \<Rightarrow> int option \<Rightarrow> string list option \<Rightarrow> keys
   \<Rightarrow> string option \<times> keys" where
  "manifest_keys_rotate env test_dir keypair now entries s0 =
     (let s = manifest_keys_clear_loaded s0 in
      case manifest_keys_build_paths env test_dir of
        None \<Rightarrow> (Some ''failed to resolve keys directory'', s)
      | Some (priv_path, pub_path) \<Rightarrow>
          if k_fs s priv_path \<noteq> None \<and> \<not> manifest_priv_permissions_ok priv_path s
          then (Some ''ed25519.priv permissions too open (expected 0600)'', s)
          else case read_old_keys priv_path pub_path s of
            (old, s1) \<Rightarrow>
              (case now of
                 None \<Rightarrow> (Some ''failed to read current time'', s1)
               | Some ts \<Rightarrow>
                   (case manifest_keys_ensure_dir priv_path s1 of
                      (False, s2) \<Rightarrow> (Some ''failed to create keys directory'', s2)
                    | (True, s2) \<Rightarrow>
                        (case keypair of
                           None \<Rightarrow> (Some ''failed to generate Ed25519 keypair'', s2)
                         | Some (pub, priv) \<Rightarrow>
                             (case backup_old_keys priv_path pub_path ts old
                                     (s2\<lparr>g_manifest_pubkey := pub, g_manifest_privkey := priv\<rparr>) of
                                (Some err, s3) \<Rightarrow> (Some err, s3)
                              | (None, s3) \<Rightarrow> install_new_keys priv_path pub_path old entries s3)))))"

section \<open>What the writers touch\<close>

definition k_states :: "keys \<Rightarrow> kfs set" where
  "k_states s = insert (k_fs s) (set (k_hist s))"

text \<open>The keys in memory are as before, and on the way only the files of \<open>P\<close> changed.\<close>

definition only_at :: "string set \<Rightarrow> keys \<Rightarrow> keys \<Rightarrow> bool" where
  "only_at P s s' \<longleftrightarrow>
     g_manifest_pubkey s' = g_manifest_pubkey s \<and> g_manifest_privkey s' = g_manifest_privkey s \<and>
     g_manifest_keys_loaded s' = g_manifest_keys_loaded s \<and>
     (\<forall>q. q \<notin> P \<longrightarrow> k_fs s' q = k_fs s q) \<and> (\<forall>f \<in> k_states s'. f \<in> k_states s \<or> (\<forall>q. q \<notin> P \<longrightarrow> f q = k_fs s q))"

lemma only_at_refl: "only_at P s s"
  by (simp add: only_at_def)

lemma only_at_trans: "only_at P s s1 \<Longrightarrow> only_at P s1 s2 \<Longrightarrow> only_at P s s2"
  unfolding only_at_def by (metis (no_types, lifting))

lemma only_at_mono: "only_at P s s' \<Longrightarrow> P \<subseteq> Q \<Longrightarrow> only_at Q s s'"
  unfolding only_at_def by blast

lemma only_at_calls: "only_at P s s1 \<Longrightarrow> only_at P s (s1\<lparr>k_calls := n\<rparr>)"
  by (simp add: only_at_def k_states_def)

lemma only_at_set: "only_at P s s1 \<Longrightarrow> (\<And>q. q \<notin> P \<Longrightarrow> f (k_fs s1) q = k_fs s1 q) \<Longrightarrow> only_at P s (k_set f s1)"
  unfolding only_at_def k_set_def k_states_def by simp

lemma only_at_unlink: "only_at P s s1 \<Longrightarrow> path \<in> P \<Longrightarrow> only_at P s (k_unlink path s1)"
  unfolding k_unlink_def by (rule only_at_set) auto

lemma set_data_other: "q \<noteq> path \<Longrightarrow> set_data path d fs q = fs q" "q \<noteq> path \<Longrightarrow> set_mode path m fs q = fs q"
  "q \<noteq> path \<Longrightarrow> open_trunc path fs q = fs q"
  by (auto simp: set_data_def set_mode_def open_trunc_def split: option.splits)

lemmas only_at_steps = only_at_refl only_at_calls only_at_set only_at_unlink set_data_other

lemma write_loop_only_at: "only_at {path} s (snd (key_write_loop path data off s))"
proof (induction path data off s rule: key_write_loop.induct)
  case (1 path data off s)
  let ?n = "min (k_write s off) (int (length data - off))"
  have set: "only_at {path} s (k_set (set_data path (take (off + nat ?n) data)) s)"
    by (intro only_at_steps) simp
  show ?case
    using 1 only_at_trans [OF set]
    by (subst key_write_loop.simps) (auto simp: Let_def intro!: only_at_steps)
qed

lemma write_loop_ok:
  assumes "key_write_loop path data off s = (True, s')" "k_fs s path = Some k" "kf_data k = take off data" "off \<le> length data"
  shows "k_fs s' path = Some (k\<lparr>kf_data := data\<rparr>)"
  using assms
proof (induction path data off s arbitrary: k rule: key_write_loop.induct)
  case (1 path data off s)
  let ?n = "min (k_write s off) (int (length data - off))"
  let ?s = "k_set (set_data path (take (off + nat ?n) data)) s"
  show ?case
  proof (cases "off < length data")
    case True
    then have n: "\<not> ?n \<le> 0" and l: "key_write_loop path data (off + nat ?n) ?s = (True, s')"
      using "1.prems"(1) by (subst (asm) key_write_loop.simps, auto simp: Let_def split: if_splits)+
    have "k_fs ?s path = Some (k\<lparr>kf_data := take (off + nat ?n) data\<rparr>)"
      using "1.prems"(2) by (simp add: k_set_def set_data_def)
    then show ?thesis
      using "1.IH" [OF True refl n l, of "k\<lparr>kf_data := take (off + nat ?n) data\<rparr>"] True n by simp
  next
    case False
    then show ?thesis using "1.prems" by (subst (asm) key_write_loop.simps) (cases k, simp)
  qed
qed

lemma write_key_only_at: "only_at {path} s (snd (manifest_write_key_file path data s))"
proof -
  let ?s1 = "s\<lparr>k_calls := Suc (k_calls s)\<rparr>"
  have o: "only_at {path} s (k_set (open_trunc path) ?s1)" by (intro only_at_steps) simp
  have l: "only_at {path} s (snd (key_write_loop path data 0 (k_set (open_trunc path) ?s1)))"
    by (rule only_at_trans [OF o write_loop_only_at])
  have "only_at {path} s (s\<lparr>fail_backup_write := False\<rparr>)" by (simp add: only_at_def k_states_def)
  then show ?thesis
    using l unfolding manifest_write_key_file_def k_call_def
    by (auto simp: Let_def split: prod.splits bool.splits intro!: only_at_steps)
qed

text \<open>A key file as the writers leave it.\<close>

definition key_file_of :: "nat list \<Rightarrow> kfile \<Rightarrow> bool" where
  "key_file_of data k \<longleftrightarrow> kf_data k = data \<and> kf_regular k \<and> kf_mode k mod 64 = 0"

lemma write_key_ok:
  assumes "manifest_write_key_file path data s = (True, s')"
  shows "\<exists>k. k_fs s' path = Some k \<and> key_file_of data k"
proof -
  let ?s1 = "s\<lparr>k_calls := Suc (k_calls s)\<rparr>"
  obtain s2 where l: "key_write_loop path data 0 (k_set (open_trunc path) ?s1) = (True, s2)"
    and p: "manifest_priv_permissions_ok path s'"
    and s': "k_fs s' = set_mode path MANIFEST_KEY_FILE_MODE (k_fs s2)"
    using assms unfolding manifest_write_key_file_def k_call_def
    by (auto simp: Let_def k_set_def manifest_priv_permissions_ok_def split: prod.splits bool.splits if_splits)
  obtain k0 where k0: "k_fs (k_set (open_trunc path) ?s1) path = Some k0" "kf_data k0 = []"
    by (auto simp: k_set_def open_trunc_def split: option.splits)
  have "k_fs s2 path = Some (k0\<lparr>kf_data := data\<rparr>)" using write_loop_ok [OF l k0(1)] k0(2) by simp
  then show ?thesis using p s' by (auto simp: set_mode_def manifest_priv_permissions_ok_def key_file_of_def)
qed

section \<open>The live pair\<close>

text \<open>What is in the two key files; in the current state, and in every state passed through.\<close>

definition live :: "string \<Rightarrow> string \<Rightarrow> kfs \<Rightarrow> nat list option \<times> nat list option" where
  "live priv pub f = (map_option kf_data (f priv), map_option kf_data (f pub))"

definition lives :: "string \<Rightarrow> string \<Rightarrow> keys \<Rightarrow> (nat list option \<times> nat list option) set" where
  "lives priv pub s = live priv pub ` k_states s"

text \<open>Writing files other than the two.\<close>

lemma aux_live:
  assumes "only_at P s s'" "priv \<notin> P" "pub \<notin> P"
  shows "live priv pub (k_fs s') = live priv pub (k_fs s)" "lives priv pub s' \<subseteq> lives priv pub s"
proof -
  show "live priv pub (k_fs s') = live priv pub (k_fs s)" using assms by (simp add: only_at_def live_def)
  show "lives priv pub s' \<subseteq> lives priv pub s"
  proof
    fix x assume "x \<in> lives priv pub s'"
    then obtain f where f: "f \<in> k_states s'" "x = live priv pub f" by (auto simp: lives_def)
    then have "f \<in> k_states s \<or> live priv pub f = live priv pub (k_fs s)" using assms by (auto simp: only_at_def live_def)
    then show "x \<in> lives priv pub s" using f by (auto simp: lives_def k_states_def)
  qed
qed

lemma mem_frame:
  assumes "only_at P s s'"
  shows "g_manifest_pubkey s' = g_manifest_pubkey s" "g_manifest_privkey s' = g_manifest_privkey s"
    "g_manifest_keys_loaded s' = g_manifest_keys_loaded s"
  using assms by (simp_all add: only_at_def)

lemma lives_set: "lives priv pub (k_set f s) = insert (live priv pub (f (k_fs s))) (lives priv pub s)"
  by (auto simp: lives_def k_states_def k_set_def)

text \<open>One of the two files is replaced.\<close>

lemma atomic_write_steps:
  assumes "manifest_write_key_file_atomic final data s = (ok, s')"
  shows "only_at {final, final @ ''.tmp''} s s'"
    "\<exists>s1. only_at {final @ ''.tmp''} s s1 \<and> (\<not> ok \<longrightarrow> s' = s1) \<and>
      (ok \<longrightarrow> (\<exists>k. k_fs s1 (final @ ''.tmp'') = Some k \<and> key_file_of data k \<and>
        s' = k_set (\<lambda>fs. fs(final @ ''.tmp'' := None, final := fs (final @ ''.tmp''))) s1))"
proof -
  let ?tmp = "final @ ''.tmp''"
  have w: "only_at {?tmp} s (snd (manifest_write_key_file ?tmp data s))" by (rule write_key_only_at)
  have h: "only_at {?tmp} s (s\<lparr>fail_pub_write := False\<rparr>)" by (simp add: only_at_def k_states_def)
  show ex: "\<exists>s1. only_at {?tmp} s s1 \<and> (\<not> ok \<longrightarrow> s' = s1) \<and>
      (ok \<longrightarrow> (\<exists>k. k_fs s1 ?tmp = Some k \<and> key_file_of data k \<and>
        s' = k_set (\<lambda>fs. fs(?tmp := None, final := fs ?tmp)) s1))"
  proof (cases ok)
    case True
    then obtain s1 where s1: "manifest_write_key_file ?tmp data s = (True, s1)"
      "s' = k_set (\<lambda>fs. fs(?tmp := None, final := fs ?tmp)) (s1\<lparr>k_calls := Suc (k_calls s1)\<rparr>)"
      using assms by (auto simp: manifest_write_key_file_atomic_def manifest_build_tmp_path_def k_call_def
          split: option.splits if_splits prod.splits bool.splits)
    have "only_at {?tmp} s (s1\<lparr>k_calls := Suc (k_calls s1)\<rparr>)" using w s1(1) by (simp add: only_at_calls)
    then show ?thesis using s1(2) write_key_ok [OF s1(1)] True by (intro exI [of _ "s1\<lparr>k_calls := Suc (k_calls s1)\<rparr>"]) simp
  next
    case False
    have "only_at {?tmp} s s'"
      using assms False w h
      by (auto simp: manifest_write_key_file_atomic_def manifest_build_tmp_path_def k_call_def
          split: option.splits if_splits prod.splits bool.splits intro!: only_at_steps)
    then show ?thesis using False by blast
  qed
  then obtain s1 where s1: "only_at {?tmp} s s1" "\<not> ok \<longrightarrow> s' = s1"
    "ok \<longrightarrow> s' = k_set (\<lambda>fs. fs(?tmp := None, final := fs ?tmp)) s1" by blast
  have "only_at {final, ?tmp} s s1" using s1(1) only_at_mono by blast
  then show "only_at {final, ?tmp} s s'" using s1(2,3) by (cases ok) (auto intro!: only_at_set split: if_splits)
qed

lemma atomic_write_live:
  assumes "manifest_write_key_file_atomic final data s = (ok, s')" "final \<in> {priv, pub}" "priv \<noteq> pub"
    and "priv \<notin> {priv @ ''.tmp'', pub @ ''.tmp''}" "pub \<notin> {priv @ ''.tmp'', pub @ ''.tmp''}"
  defines "new \<equiv> if final = priv then (Some data, snd (live priv pub (k_fs s))) else (fst (live priv pub (k_fs s)), Some data)"
  shows "live priv pub (k_fs s') = (if ok then new else live priv pub (k_fs s))" "lives priv pub s' \<subseteq> insert new (lives priv pub s)"
proof -
  obtain s1 where s1: "only_at {final @ ''.tmp''} s s1" "\<not> ok \<longrightarrow> s' = s1"
    "ok \<longrightarrow> (\<exists>k. k_fs s1 (final @ ''.tmp'') = Some k \<and> key_file_of data k \<and>
       s' = k_set (\<lambda>fs. fs(final @ ''.tmp'' := None, final := fs (final @ ''.tmp''))) s1)"
    using atomic_write_steps(2) [OF assms(1)] by blast
  have ne: "priv \<notin> {final @ ''.tmp''}" "pub \<notin> {final @ ''.tmp''}" using assms(2,4,5) by auto
  note a = aux_live [OF s1(1) ne]
  have fin: "live priv pub ((k_fs s1)(final @ ''.tmp'' := None, final := k_fs s1 (final @ ''.tmp''))) = new" if ok
    using s1(3) that assms(2,3) ne a(1) by (auto simp: live_def new_def key_file_of_def)
  show "live priv pub (k_fs s') = (if ok then new else live priv pub (k_fs s))"
  proof (cases ok)
    case True
    then have "k_fs s' = (k_fs s1)(final @ ''.tmp'' := None, final := k_fs s1 (final @ ''.tmp''))" using s1(3) by (auto simp: k_set_def)
    then show ?thesis using fin True by simp
  next
    case False
    then show ?thesis using s1(2) a(1) by simp
  qed
  show "lives priv pub s' \<subseteq> insert new (lives priv pub s)"
  proof (cases ok)
    case True
    then show ?thesis using s1(3) fin a(2) by (auto simp: lives_set)
  next
    case False
    then show ?thesis using s1(2) a(2) by auto
  qed
qed

section \<open>Names\<close>

definition key_paths :: "string \<Rightarrow> string \<Rightarrow> string \<Rightarrow> bool" where
  "key_paths d priv pub \<longleftrightarrow> priv = d @ ''/ed25519.priv'' \<and> pub = d @ ''/ed25519.pub''"

lemma build_paths_names: "manifest_keys_build_paths env test_dir = Some (priv, pub) \<Longrightarrow> \<exists>d. key_paths d priv pub"
  by (auto simp: manifest_keys_build_paths_def key_paths_def MANIFEST_PRIV_FILENAME_def MANIFEST_PUB_FILENAME_def
      snprintf_checked_def split: option.splits if_splits)

lemma key_paths_distinct:
  assumes "key_paths d priv pub"
  shows "priv \<noteq> pub" "priv \<notin> {priv @ ''.tmp'', pub @ ''.tmp''}" "pub \<notin> {priv @ ''.tmp'', pub @ ''.tmp''}"
    "priv \<notin> {priv @ ''.bak.'' @ x}" "pub \<notin> {priv @ ''.bak.'' @ x}" "priv \<notin> {pub @ ''.bak.'' @ x}" "pub \<notin> {pub @ ''.bak.'' @ x}"
  using assms by (auto simp: key_paths_def)

lemma bak_name: "manifest_keys_parse_bak_ts name pre n = Some e \<Longrightarrow> \<exists>x. fst e = pre @ ''.bak.'' @ x"
  by (auto simp: manifest_keys_parse_bak_ts_def Let_def prefix_def split: if_splits prod.splits)

lemma bak_insert_set: "set (bak_insert e out) \<subseteq> insert e (set out)"
  by (auto simp: bak_insert_def Let_def dest: in_set_takeD set_takeWhileD)

lemma collect_baks_names:
  "x \<in> set (collect_baks pre cap names out) \<Longrightarrow> \<forall>e \<in> set out. \<exists>y. fst e = pre @ ''.bak.'' @ y \<Longrightarrow> \<exists>y. fst x = pre @ ''.bak.'' @ y"
proof (induction pre cap names out rule: collect_baks.induct)
  case (2 pre cap name names out)
  show ?case
  proof (cases "length out \<ge> cap")
    case True
    then show ?thesis using "2.prems" by simp
  next
    case False
    show ?thesis
    proof (cases "manifest_keys_parse_bak_ts name pre 576")
      case None
      then show ?thesis using "2.IH"(1) "2.prems" False by simp
    next
      case (Some e)
      have "\<forall>e' \<in> set (bak_insert e out). \<exists>y. fst e' = pre @ ''.bak.'' @ y"
        using bak_insert_set [of e out] bak_name [OF Some] "2.prems"(2) by auto
      then show ?thesis using "2.IH"(2) [OF False Some] "2.prems"(1) False Some by simp
    qed
  qed
qed auto

lemma fold_only_at:
  "(\<And>e t. e \<in> set es \<Longrightarrow> only_at P s t \<Longrightarrow> only_at P s (g e t)) \<Longrightarrow> only_at P s t \<Longrightarrow> only_at P s (fold g es t)"
  by (induction es arbitrary: t) simp_all

lemma prune_prefix_only_at:
  assumes "\<forall>e \<in> set entries. \<exists>y. fst e = pre @ ''.bak.'' @ y"
  shows "only_at {q. \<exists>y. q = d @ ''/'' @ pre @ ''.bak.'' @ y} s (manifest_keys_prune_prefix d entries s)"
  unfolding manifest_keys_prune_prefix_def
proof (rule fold_only_at [OF _ only_at_refl])
  fix e t
  assume "e \<in> set (drop MANIFEST_KEY_BACKUPS_KEEP entries)"
  then obtain y where "fst e = pre @ ''.bak.'' @ y" using assms by (meson in_set_dropD)
  moreover assume "only_at {q. \<exists>y. q = d @ ''/'' @ pre @ ''.bak.'' @ y} s t"
  ultimately show "only_at {q. \<exists>y. q = d @ ''/'' @ pre @ ''.bak.'' @ y} s
      (case snprintf_checked 576 (d @ ''/'' @ fst e) of None \<Rightarrow> t | Some full \<Rightarrow> k_unlink full t)"
    unfolding snprintf_checked_def by (simp add: only_at_unlink)
qed

lemma prune_backups_only_at:
  "only_at {q. \<exists>y. q = d @ ''/ed25519.priv.bak.'' @ y \<or> q = d @ ''/ed25519.pub.bak.'' @ y} s (manifest_keys_prune_backups entries d s)"
proof -
  have c: "\<forall>e \<in> set (manifest_keys_collect_baks entries pre 64). \<exists>y. fst e = pre @ ''.bak.'' @ y" for pre
    using collect_baks_names [of _ pre 64] by (auto simp: manifest_keys_collect_baks_def split: option.splits)
  let ?s = "manifest_keys_prune_prefix d (manifest_keys_collect_baks entries MANIFEST_PRIV_FILENAME 64) s"
  have "only_at {q. \<exists>y. q = d @ ''/ed25519.priv.bak.'' @ y \<or> q = d @ ''/ed25519.pub.bak.'' @ y} s ?s"
    by (rule only_at_mono [OF prune_prefix_only_at [OF c]]) (auto simp: MANIFEST_PRIV_FILENAME_def)
  moreover have "only_at {q. \<exists>y. q = d @ ''/ed25519.priv.bak.'' @ y \<or> q = d @ ''/ed25519.pub.bak.'' @ y} ?s
      (manifest_keys_prune_prefix d (manifest_keys_collect_baks entries MANIFEST_PUB_FILENAME 64) ?s)"
    by (rule only_at_mono [OF prune_prefix_only_at [OF c]]) (auto simp: MANIFEST_PUB_FILENAME_def)
  ultimately show ?thesis unfolding manifest_keys_prune_backups_def by (rule only_at_trans)
qed

section \<open>Rotation\<close>

lemma dir_of_priv: "key_paths d priv pub \<Longrightarrow> manifest_keys_dir_of priv n = Some d' \<Longrightarrow> d' = d"
  by (auto simp: key_paths_def manifest_keys_dir_of_def strrchr_split_def split: if_splits)

lemma same_calls: "\<exists>m. s = s\<lparr>k_calls := m\<rparr>" for s :: keys
  by (rule exI [of _ "k_calls s"]) simp

lemma read_key_frame: "manifest_read_key_file path n s = (r, s') \<Longrightarrow> \<exists>m. s' = s\<lparr>k_calls := m\<rparr>"
  by (auto simp: manifest_read_key_file_def k_call_def split: option.splits if_splits intro: exI [of _ "k_calls s"])

lemma read_key_data: "manifest_read_key_file path n s = (Some data, s') \<Longrightarrow> \<exists>k. k_fs s path = Some k \<and> kf_data k = data \<and> length data = n"
  by (auto simp: manifest_read_key_file_def k_call_def split: option.splits if_splits)

lemma read_old:
  assumes "read_old_keys priv pub s = (old, s')"
  shows "\<exists>m. s' = s\<lparr>k_calls := m\<rparr>" "old = Some (opriv, opub) \<Longrightarrow> live priv pub (k_fs s) = (Some opriv, Some opub)"
proof -
  obtain r1 s1 where 1: "manifest_read_key_file priv ED25519_PRIVATE_KEY_SIZE s = (r1, s1)" by (metis surj_pair)
  obtain r2 s2 where 2: "manifest_read_key_file pub ED25519_PUBLIC_KEY_SIZE s1 = (r2, s2)" by (metis surj_pair)
  obtain m1 m2 where m: "s1 = s\<lparr>k_calls := m1\<rparr>" "s2 = s1\<lparr>k_calls := m2\<rparr>" using read_key_frame [OF 1] read_key_frame [OF 2] by blast
  have "s' = s\<lparr>k_calls := k_calls s\<rparr> \<or> s' = s1 \<or> s' = s2"
    using assms 1 2 by (auto simp: read_old_keys_def split: option.splits if_splits)
  then show "\<exists>m. s' = s\<lparr>k_calls := m\<rparr>" using m same_calls by auto
  assume "old = Some (opriv, opub)"
  then have "r1 = Some opriv" "r2 = Some opub" using assms 1 2 by (auto simp: read_old_keys_def split: option.splits if_splits)
  then show "live priv pub (k_fs s) = (Some opriv, Some opub)"
    using read_key_data 1 2 m by (fastforce simp: live_def)
qed

lemma backup_only_at:
  "only_at {priv @ ''.bak.'' @ int_str ts, pub @ ''.bak.'' @ int_str ts} s (snd (backup_old_keys priv pub ts old s))"
proof (cases old)
  case None
  then show ?thesis by (simp add: backup_old_keys_def only_at_refl)
next
  case (Some o2)
  obtain op ou where o: "o2 = (op, ou)" by (metis surj_pair)
  let ?a = "priv @ ''.bak.'' @ int_str ts" and ?b = "pub @ ''.bak.'' @ int_str ts"
  have w1: "only_at {?a, ?b} s (snd (manifest_write_key_file ?a op s))" by (rule only_at_mono [OF write_key_only_at]) simp
  have w2: "only_at {?a, ?b} t (snd (manifest_write_key_file ?b ou t))" for t by (rule only_at_mono [OF write_key_only_at]) simp
  show ?thesis
    using w1 only_at_trans [OF w1 w2] Some o
    by (auto simp: backup_old_keys_def only_at_refl snprintf_checked_def split: prod.splits bool.splits)
qed

lemma insert_chain: "A \<subseteq> insert x B \<Longrightarrow> B \<subseteq> insert y C \<Longrightarrow> C \<subseteq> insert z D \<Longrightarrow> x \<in> D \<Longrightarrow> A \<subseteq> D \<union> {z, y, w}"
  by blast

text \<open>The states that installing the new pair passes through, and how it ends.\<close>

lemma install_live:
  assumes kp: "key_paths d priv pub" and i: "install_new_keys priv pub old entries s = (r, s')"
    and old: "\<And>op ou. old = Some (op, ou) \<Longrightarrow> live priv pub (k_fs s) = (Some op, Some ou)"
  defines "np \<equiv> Some (g_manifest_privkey s)" and "nu \<equiv> Some (g_manifest_pubkey s)" and "u \<equiv> snd (live priv pub (k_fs s))"
  shows "lives priv pub s' \<subseteq> lives priv pub s \<union> {(np, u), (np, nu), (None, u)}"
    "r = None \<Longrightarrow> live priv pub (k_fs s') = (np, nu) \<and> g_manifest_privkey s' = g_manifest_privkey s \<and>
       g_manifest_pubkey s' = g_manifest_pubkey s \<and> g_manifest_keys_loaded s'"
    "r \<noteq> None \<Longrightarrow> g_manifest_keys_loaded s' \<Longrightarrow> \<not> g_manifest_keys_loaded s \<Longrightarrow> old = Some (g_manifest_privkey s', g_manifest_pubkey s')"
proof -
  note dist = key_paths_distinct [OF kp]
  obtain ok1 s1 where 1: "manifest_write_key_file_atomic priv (g_manifest_privkey s) s = (ok1, s1)" by (metis surj_pair)
  obtain ok2 s2 where 2: "manifest_write_key_file_atomic pub (g_manifest_pubkey s1) s1 = (ok2, s2)" by (metis surj_pair)
  note m1 = mem_frame [OF atomic_write_steps(1) [OF 1]] and m2 = mem_frame [OF atomic_write_steps(1) [OF 2]]
  have l1: "live priv pub (k_fs s1) = (if ok1 then (np, u) else live priv pub (k_fs s))" "lives priv pub s1 \<subseteq> insert (np, u) (lives priv pub s)"
    using atomic_write_live [OF 1, of priv pub] dist by (auto simp: np_def u_def)
  have l2: "live priv pub (k_fs s2) = (if ok2 then (np, nu) else (np, u))" "lives priv pub s2 \<subseteq> insert (np, nu) (lives priv pub s1)" if ok1
    using atomic_write_live [OF 2, of priv pub] dist l1(1) m1 that by (auto simp: nu_def)
  consider (a) "\<not> ok1" | (b) "ok1" "\<not> ok2" "old = None" | (c) op ou where "ok1" "\<not> ok2" "old = Some (op, ou)" | (e) "ok1" "ok2" by fastforce
  then have "lives priv pub s' \<subseteq> lives priv pub s \<union> {(np, u), (np, nu), (None, u)} \<and>
    (r = None \<longrightarrow> live priv pub (k_fs s') = (np, nu) \<and> g_manifest_privkey s' = g_manifest_privkey s \<and>
       g_manifest_pubkey s' = g_manifest_pubkey s \<and> g_manifest_keys_loaded s') \<and>
    (r \<noteq> None \<longrightarrow> g_manifest_keys_loaded s' \<longrightarrow> \<not> g_manifest_keys_loaded s \<longrightarrow> old = Some (g_manifest_privkey s', g_manifest_pubkey s'))"
  proof cases
    case a
    then have "s' = s1" "r \<noteq> None" using i 1 by (auto simp: install_new_keys_def)
    then show ?thesis using l1(2) m1(3) by auto
  next
    case b
    then have s': "s' = manifest_keys_clear_loaded (k_unlink priv s2)" "r \<noteq> None" using i 1 2 by (auto simp: install_new_keys_def)
    have "lives priv pub s' = lives priv pub (k_unlink priv s2)" unfolding s'(1) manifest_keys_clear_loaded_def by (simp add: lives_def k_states_def)
    moreover have "live priv pub ((k_fs s2)(priv := None)) = (None, u)"
      using l2(1) b dist(1) by (simp add: live_def)
    ultimately show ?thesis using l1(2) l2(2) b(1) s' by (auto simp: k_unlink_def lives_set manifest_keys_clear_loaded_def)
  next
    case c
    obtain ok3 s3 where 3: "manifest_write_key_file_atomic priv op s2 = (ok3, s3)" by (metis surj_pair)
    have s': "s' = s3\<lparr>g_manifest_pubkey := ou, g_manifest_privkey := op, g_manifest_keys_loaded := True\<rparr>" "r \<noteq> None"
      using i 1 2 3 c by (auto simp: install_new_keys_def)
    have "(Some op, snd (live priv pub (k_fs s2))) = live priv pub (k_fs s)"
      using l2(1) c old [OF c(3)] by (simp add: u_def)
    then have l3: "lives priv pub s3 \<subseteq> insert (live priv pub (k_fs s)) (lives priv pub s2)"
      using atomic_write_live(2) [OF 3, of priv pub] dist by simp
    have "lives priv pub s' = lives priv pub s3" using s'(1) by (simp add: lives_def k_states_def)
    then have "lives priv pub s' \<subseteq> lives priv pub s \<union> {(np, u), (np, nu), (None, u)}"
      using insert_chain [OF l3 l2(2) [OF c(1)] l1(2)] by (simp add: lives_def k_states_def)
    then show ?thesis using c(3) s' by auto
  next
    case e
    let ?s3 = "s2\<lparr>g_manifest_keys_loaded := True\<rparr>"
    have r: "r = None" using i 1 2 e by (auto simp: install_new_keys_def Let_def)
    have "\<exists>P. only_at P ?s3 s' \<and> priv \<notin> P \<and> pub \<notin> P"
    proof (cases "old = None \<or> manifest_keys_dir_of priv 512 = None")
      case True
      then have "s' = ?s3" using i 1 2 e by (auto simp: install_new_keys_def Let_def)
      then show ?thesis using only_at_refl by (intro exI [of _ "{}"]) auto
    next
      case False
      then have "s' = manifest_keys_prune_backups entries d ?s3"
        using i 1 2 e dir_of_priv [OF kp] by (auto simp: install_new_keys_def Let_def)
      then show ?thesis using prune_backups_only_at [of d ?s3 entries] kp by (auto simp: key_paths_def)
    qed
    then obtain P where P: "only_at P ?s3 s'" "priv \<notin> P" "pub \<notin> P" by blast
    have "live priv pub (k_fs ?s3) = (np, nu)" "lives priv pub ?s3 = lives priv pub s2" using l2(1) e by (auto simp: lives_def k_states_def)
    then show ?thesis using aux_live [OF P] mem_frame [OF P(1)] m1 m2 l1(2) l2(2) e r by auto
  qed
  then show "lives priv pub s' \<subseteq> lives priv pub s \<union> {(np, u), (np, nu), (None, u)}"
    "r = None \<Longrightarrow> live priv pub (k_fs s') = (np, nu) \<and> g_manifest_privkey s' = g_manifest_privkey s \<and>
       g_manifest_pubkey s' = g_manifest_pubkey s \<and> g_manifest_keys_loaded s'"
    "r \<noteq> None \<Longrightarrow> g_manifest_keys_loaded s' \<Longrightarrow> \<not> g_manifest_keys_loaded s \<Longrightarrow> old = Some (g_manifest_privkey s', g_manifest_pubkey s')"
    by blast+
qed

lemma ensure_dir_frame: "manifest_keys_ensure_dir p s = (b, s') \<Longrightarrow> \<exists>m. s' = s\<lparr>k_calls := m\<rparr>"
  by (auto simp: manifest_keys_ensure_dir_def k_call_def same_calls split: option.splits)

lemma lives_mem: "lives priv pub (s\<lparr>k_calls := n, g_manifest_pubkey := a, g_manifest_privkey := b\<rparr>) = lives priv pub s"
  "lives priv pub (s\<lparr>k_calls := n\<rparr>) = lives priv pub s" "lives priv pub (manifest_keys_clear_loaded s) = lives priv pub s"
  by (simp_all add: lives_def k_states_def manifest_keys_clear_loaded_def)

lemma rotate_live:
  assumes kp: "manifest_keys_build_paths env test_dir = Some (priv, pub)"
    and r: "manifest_keys_rotate env test_dir (Some (npub, npriv)) now entries s0 = (r, s')"
  shows "lives priv pub s' \<subseteq> lives priv pub s0 \<union> {(Some npriv, snd (live priv pub (k_fs s0))), (Some npriv, Some npub), (None, snd (live priv pub (k_fs s0)))}"
    "r = None \<Longrightarrow> live priv pub (k_fs s') = (Some npriv, Some npub) \<and> manifest_keys_private s' = Some npriv \<and> manifest_keys_public s' = Some npub"
    "r \<noteq> None \<Longrightarrow> g_manifest_keys_loaded s' \<Longrightarrow> live priv pub (k_fs s0) = (manifest_keys_private s', manifest_keys_public s')"
proof -
  obtain d where d: "key_paths d priv pub" using build_paths_names [OF kp] by blast
  let ?s = "manifest_keys_clear_loaded s0"
  have cl: "k_fs ?s = k_fs s0" "\<not> g_manifest_keys_loaded ?s" by (simp_all add: manifest_keys_clear_loaded_def)
  obtain old s1 where 1: "read_old_keys priv pub ?s = (old, s1)" by (metis surj_pair)
  obtain b s2 where 2: "manifest_keys_ensure_dir priv s1 = (b, s2)" by (metis surj_pair)
  obtain m1 m2 where m: "s1 = ?s\<lparr>k_calls := m1\<rparr>" "s2 = ?s\<lparr>k_calls := m2\<rparr>"
    using read_old(1) [OF 1] ensure_dir_frame [OF 2] by auto
  let ?t = "?s\<lparr>k_calls := m2, g_manifest_pubkey := npub, g_manifest_privkey := npriv\<rparr>"
  consider (early) "r \<noteq> None" "lives priv pub s' = lives priv pub s0" "\<not> g_manifest_keys_loaded s'"
    | (bak) ts e s3 where "backup_old_keys priv pub ts old ?t = (Some e, s3)" "r = Some e" "s' = s3"
    | (inst) ts s3 where "backup_old_keys priv pub ts old ?t = (None, s3)" "install_new_keys priv pub old entries s3 = (r, s')"
    using r kp 1 2 m cl lives_mem
    by (auto simp: manifest_keys_rotate_def Let_def split: option.splits if_splits prod.splits bool.splits)
  then have "lives priv pub s' \<subseteq> lives priv pub s0 \<union> {(Some npriv, snd (live priv pub (k_fs s0))), (Some npriv, Some npub), (None, snd (live priv pub (k_fs s0)))} \<and>
    (r = None \<longrightarrow> live priv pub (k_fs s') = (Some npriv, Some npub) \<and> manifest_keys_private s' = Some npriv \<and> manifest_keys_public s' = Some npub) \<and>
    (r \<noteq> None \<longrightarrow> g_manifest_keys_loaded s' \<longrightarrow> live priv pub (k_fs s0) = (manifest_keys_private s', manifest_keys_public s'))"
  proof cases
    case (bak ts e s3)
    have o: "only_at {priv @ ''.bak.'' @ int_str ts, pub @ ''.bak.'' @ int_str ts} ?t s'"
      using backup_only_at [of priv ts pub ?t old] bak by simp
    have "lives priv pub s' \<subseteq> lives priv pub ?t" by (rule aux_live(2) [OF o]) (use key_paths_distinct [OF d] in auto)
    then show ?thesis using mem_frame(3) [OF o] bak(2) cl(2) lives_mem by auto
  next
    case (inst ts s3)
    have o: "only_at {priv @ ''.bak.'' @ int_str ts, pub @ ''.bak.'' @ int_str ts} ?t s3"
      using backup_only_at [of priv ts pub ?t old] inst by simp
    have l3: "live priv pub (k_fs s3) = live priv pub (k_fs s0)" "lives priv pub s3 \<subseteq> lives priv pub s0"
      using aux_live [OF o] key_paths_distinct [OF d] cl(1) lives_mem by auto
    have old: "old = Some (op, ou) \<Longrightarrow> live priv pub (k_fs s3) = (Some op, Some ou)" for op ou
      using read_old(2) [OF 1] l3(1) cl(1) by simp
    note m3 = mem_frame [OF o]
    note il = install_live [OF d inst(2) old]
    have "r \<noteq> None \<Longrightarrow> g_manifest_keys_loaded s' \<Longrightarrow> old = Some (g_manifest_privkey s', g_manifest_pubkey s')" using il(3) m3(3) cl(2) by simp
    then show ?thesis using il(1,2) m3 l3 read_old(2) [OF 1] cl(1) by (auto simp: manifest_keys_private_def manifest_keys_public_def)
  qed auto
  then show "lives priv pub s' \<subseteq> lives priv pub s0 \<union> {(Some npriv, snd (live priv pub (k_fs s0))), (Some npriv, Some npub), (None, snd (live priv pub (k_fs s0)))}"
    "r = None \<Longrightarrow> live priv pub (k_fs s') = (Some npriv, Some npub) \<and> manifest_keys_private s' = Some npriv \<and> manifest_keys_public s' = Some npub"
    "r \<noteq> None \<Longrightarrow> g_manifest_keys_loaded s' \<Longrightarrow> live priv pub (k_fs s0) = (manifest_keys_private s', manifest_keys_public s')"
    by blast+
qed

text \<open>The layout of an Ed25519 pair in TweetNaCl: the private key ends with the public key.\<close>

definition key_pair :: "nat list \<Rightarrow> nat list \<Rightarrow> bool" where
  "key_pair pub priv \<longleftrightarrow> length pub = 32 \<and> length priv = 64 \<and> drop 32 priv = pub"

lemma load_from_disk_ok:
  assumes "manifest_keys_load_from_disk priv pub t = (None, t')"
  shows "live priv pub (k_fs t) = (Some (g_manifest_privkey t'), Some (g_manifest_pubkey t'))"
    "key_pair (g_manifest_pubkey t') (g_manifest_privkey t')"
proof -
  obtain p s1 u s3 where r: "manifest_read_key_file priv ED25519_PRIVATE_KEY_SIZE t = (Some p, s1)"
    "manifest_read_key_file pub ED25519_PUBLIC_KEY_SIZE (s1\<lparr>g_manifest_privkey := p\<rparr>) = (Some u, s3)"
    "t' = s3\<lparr>g_manifest_pubkey := u\<rparr>" "manifest_keys_pub_matches_priv t'"
    using assms by (auto simp: manifest_keys_load_from_disk_def Let_def split: if_splits option.splits prod.splits)
  obtain m1 m3 where f: "s1 = t\<lparr>k_calls := m1\<rparr>" "s3 = s1\<lparr>g_manifest_privkey := p, k_calls := m3\<rparr>"
    using read_key_frame [OF r(1)] read_key_frame [OF r(2)] by auto
  have d: "map_option kf_data (k_fs t priv) = Some p" "map_option kf_data (k_fs t pub) = Some u" "length p = 64" "length u = 32"
    using read_key_data [OF r(1)] read_key_data [OF r(2)] f by (auto simp: ED25519_PRIVATE_KEY_SIZE_def ED25519_PUBLIC_KEY_SIZE_def)
  have g: "g_manifest_pubkey t' = u" "g_manifest_privkey t' = p" using r(3) f(2) by auto
  show "live priv pub (k_fs t) = (Some (g_manifest_privkey t'), Some (g_manifest_pubkey t'))" using d g by (simp add: live_def)
  show "key_pair (g_manifest_pubkey t') (g_manifest_privkey t')"
    using r(4) d g by (simp add: key_pair_def manifest_keys_pub_matches_priv_def ED25519_PUBLIC_KEY_SIZE_def)
qed


definition demo_key :: "nat list \<Rightarrow> kfile" where
  "demo_key data = \<lparr>kf_data = data, kf_mode = MANIFEST_KEY_FILE_MODE, kf_regular = True\<rparr>"

definition demo_keys :: "kfs \<Rightarrow> keys" where
  "demo_keys fs = \<lparr>g_manifest_pubkey = [], g_manifest_privkey = [], g_manifest_keys_loaded = False, fail_pub_write = False,
     fail_backup_write = False, k_fs = fs, k_hist = [], k_sys = (\<lambda>_. True), k_calls = 0, k_write = (\<lambda>_. 64)\<rparr>"

definition demo_pair :: "kfs" where
  "demo_pair = [''/k/ed25519.priv'' \<mapsto> demo_key (replicate 32 1 @ replicate 32 2), ''/k/ed25519.pub'' \<mapsto> demo_key (replicate 32 2)]"


text \<open>The rollback of a failed rotation loads the old pair without comparing its two halves, as loading from disk does.\<close>

theorem rollback_loads_unchecked_pair:
  "let s' = snd (manifest_keys_rotate (\<lambda>_. None) (Some ''/k'') (Some (replicate 32 4, replicate 32 3 @ replicate 32 4)) (Some 7) None
       ((demo_keys [''/k/ed25519.priv'' \<mapsto> demo_key (replicate 64 1), ''/k/ed25519.pub'' \<mapsto> demo_key (replicate 32 2)])\<lparr>fail_pub_write := True\<rparr>))
   in g_manifest_keys_loaded s' \<and> \<not> manifest_keys_pub_matches_priv s'"
  by code_simp

text \<open>A private key whose public file is missing is not backed up, and a rotation that fails afterwards removes it.\<close>

theorem orphan_private_key_lost:
  "let r = manifest_keys_rotate (\<lambda>_. None) (Some ''/k'') (Some (replicate 32 4, replicate 32 3 @ replicate 32 4)) (Some 7) None
       ((demo_keys [''/k/ed25519.priv'' \<mapsto> demo_key (replicate 64 1)])\<lparr>fail_pub_write := True\<rparr>)
   in fst r \<noteq> None \<and> Option.is_none (k_fs (snd r) ''/k/ed25519.priv'') \<and> Option.is_none (k_fs (snd r) ''/k/ed25519.priv.bak.7'')"
  by code_simp

end
