(* ===== verification/Manifest.thy ===== *)
theory Manifest
  imports Board Skill Manifest_Keys Jcs Crypto
begin

text \<open>
  \<open>src/asap/manifest_build.c\<close>, \<open>manifest_sign.c\<close> and \<open>manifest.c\<close>: the manifest other agents read, its signed form and the health
  document.  Every call of the JSON library that allocates may fail: \<open>a i\<close> says whether the \<open>i\<close>-th call succeeds.  A child that
  the code attaches to its parent before filling it is attached here when it is filled, with the allocation of its key in the original
  place; on a failure the code frees the whole tree, so that no half-filled tree can be told from its absence.
\<close>

section \<open>Allocating calls\<close>

type_synonym 'a mk = "(nat \<Rightarrow> bool) \<Rightarrow> nat \<Rightarrow> 'a option \<times> nat"

definition mk_ret :: "'a \<Rightarrow> 'a mk" where
  "mk_ret x a n = (Some x, n)"

definition mk_bind :: "'a mk \<Rightarrow> ('a \<Rightarrow> 'b mk) \<Rightarrow> 'b mk" where
  "mk_bind m f a n = (case m a n of (None, k) \<Rightarrow> (None, k) | (Some x, k) \<Rightarrow> f x a k)"

text \<open>One of the \<open>cJSON_Create\<close> functions, or the duplication of a key.\<close>

definition mk_new :: "'a \<Rightarrow> 'a mk" where
  "mk_new x a n = (if a n then Some x else None, Suc n)"

definition cjson_add_item_to_object_checked :: "cjson \<Rightarrow> string \<Rightarrow> cjson \<Rightarrow> cjson mk" where
  "cjson_add_item_to_object_checked parent key item = mk_bind (mk_new key) (\<lambda>k. mk_ret (cJSON_AddItemToObject parent k item))"

definition cjson_add_item_to_array_checked :: "cjson \<Rightarrow> cjson \<Rightarrow> cjson mk" where
  "cjson_add_item_to_array_checked array item = mk_new (CArray (array_items array @ [item]))"

definition cjson_add_string_to_object_checked :: "cjson \<Rightarrow> string \<Rightarrow> string \<Rightarrow> cjson mk" where
  "cjson_add_string_to_object_checked parent key value =
     mk_bind (mk_new (CString value)) (\<lambda>item. cjson_add_item_to_object_checked parent key item)"

text \<open>The same call with its result ignored: when the key cannot be duplicated the item is not attached.\<close>

definition cjson_add_item_unchecked :: "cjson \<Rightarrow> string \<Rightarrow> cjson \<Rightarrow> cjson mk" where
  "cjson_add_item_unchecked parent key item a n = (Some (if a n then cJSON_AddItemToObject parent key item else parent), Suc n)"

section \<open>\<open>manifest_build.c\<close>\<close>

definition MAX_SKILL_NAMES :: nat where "MAX_SKILL_NAMES = 64"
definition MAX_SKILL_DESC :: nat where "MAX_SKILL_DESC = 512"
definition MAX_ASAP_ENDPOINT :: nat where "MAX_ASAP_ENDPOINT = 512"
definition MANIFEST_ASAP_VERSION :: string where "MANIFEST_ASAP_VERSION = ''2.1.0''"
definition MANIFEST_DEFAULT_TRANSPORT_VERSION :: string where "MANIFEST_DEFAULT_TRANSPORT_VERSION = ''2.2''"

text \<open>The double 300.\<close>

definition MANIFEST_DEFAULT_TTL_SECONDS :: "64 word" where "MANIFEST_DEFAULT_TTL_SECONDS = 0x4072C00000000000"

definition build_asap_endpoint :: "nat \<Rightarrow> config \<Rightarrow> string option" where
  "build_asap_endpoint out_size cfg =
     (let base = config_asap_public_base_url cfg in
      if base = [] then None
      else snprintf_checked out_size (rev (dropWhile (\<lambda>c. c = CHR ''/'') (rev base)) @ ''/asap''))"

definition skill_defaults :: "(string \<times> string) list" where
  "skill_defaults =
     [(''assistant'', ''General assistant on edge hardware''), (''edge_briefing'', ''Local briefing with optional cloud fallback''),
      (''server_admin'', ''Host administration tasks''), (''gpio_control'', ''GPIO pin control'')]"

definition skill_description_for :: "fsys \<Rightarrow> config \<Rightarrow> string \<Rightarrow> string option" where
  "skill_description_for fs cfg skill_id =
     (if skill_id = [] then None
      else case (case config_asap_skill_description cfg skill_id of None \<Rightarrow> None | Some t \<Rightarrow> if t = [] then None else Some t) of
        Some override \<Rightarrow> Some override
      | None \<Rightarrow>
          (case (case skill_get_description fs cfg skill_id MAX_SKILL_DESC of None \<Rightarrow> None | Some t \<Rightarrow> if t = [] then None else Some t) of
             Some buf \<Rightarrow> Some buf
           | None \<Rightarrow> (case map_of skill_defaults skill_id of Some desc \<Rightarrow> Some desc | None \<Rightarrow> Some skill_id)))"

definition count_skills_on_disk :: "(string \<Rightarrow> string list option) \<Rightarrow> config \<Rightarrow> nat" where
  "count_skills_on_disk dirs cfg =
     (case skills_dir_of cfg of
        None \<Rightarrow> 0
      | Some dir_path \<Rightarrow>
          (case dirs dir_path of
             None \<Rightarrow> 0
           | Some names \<Rightarrow> length (filter (\<lambda>n. ch n 0 \<noteq> CHR ''.'' \<and> \<not> (length n \<le> 3 \<or> drop (length n - 3) n \<noteq> ''.md'')) names)))"

text \<open>One round of the loop of \<open>add_capabilities_skills\<close>.\<close>

definition add_skill :: "fsys \<Rightarrow> config \<Rightarrow> cjson \<Rightarrow> string \<Rightarrow> cjson mk" where
  "add_skill fs cfg skills name =
     mk_bind (mk_new (CObject [])) (\<lambda>item.
     mk_bind (mk_new (CString name)) (\<lambda>id_str.
     mk_bind (cjson_add_item_to_object_checked item ''id'' id_str) (\<lambda>item.
     mk_bind (mk_new (CString (case skill_description_for fs cfg name of Some d \<Rightarrow> d | None \<Rightarrow> name))) (\<lambda>desc_str.
     mk_bind (cjson_add_item_to_object_checked item ''description'' desc_str) (\<lambda>item.
     mk_bind (mk_new CNull) (\<lambda>input_schema.
     mk_bind (mk_new CNull) (\<lambda>output_schema.
     mk_bind (cjson_add_item_to_object_checked item ''input_schema'' input_schema) (\<lambda>item.
     mk_bind (cjson_add_item_to_object_checked item ''output_schema'' output_schema) (\<lambda>item.
     cjson_add_item_to_array_checked skills item)))))))))"

fun add_skills :: "fsys \<Rightarrow> config \<Rightarrow> cjson \<Rightarrow> string list \<Rightarrow> cjson mk" where
  "add_skills fs cfg skills [] = mk_ret skills"
| "add_skills fs cfg skills (name # names) = mk_bind (add_skill fs cfg skills name) (\<lambda>skills. add_skills fs cfg skills names)"

definition add_capabilities_skills :: "fsys \<Rightarrow> (string \<Rightarrow> string list option) \<Rightarrow> cjson \<Rightarrow> config \<Rightarrow> cjson mk" where
  "add_capabilities_skills fs dirs capabilities cfg =
     mk_bind (mk_new (CArray [])) (\<lambda>skills.
     mk_bind (mk_new ''skills'') (\<lambda>key.
     case skill_list_names dirs cfg MAX_SKILL_NAMES of
       None \<Rightarrow> (\<lambda>a n. (None, n))
     | Some names \<Rightarrow> mk_bind (add_skills fs cfg skills (take MAX_SKILL_NAMES names)) (\<lambda>skills. mk_ret (cJSON_AddItemToObject capabilities key skills))))"

fun add_strings :: "cjson \<Rightarrow> string list \<Rightarrow> cjson mk" where
  "add_strings array [] = mk_ret array"
| "add_strings array (s # ss) =
     mk_bind (mk_new (CString s)) (\<lambda>str. mk_bind (cjson_add_item_to_array_checked array str) (\<lambda>array. add_strings array ss))"

definition add_capabilities_hardware :: "cjson \<Rightarrow> config \<Rightarrow> board_id \<Rightarrow> cjson mk" where
  "add_capabilities_hardware capabilities cfg board =
     (let profile = manifest_board_profile board;
          class_name = or_nonempty (hardware_class (c_hardware cfg)) (bp_class_name profile);
          model_name = or_nonempty (hardware_model (c_hardware cfg)) (bp_model_name profile) in
      mk_bind (mk_new (CObject [])) (\<lambda>hardware.
      mk_bind (mk_new ''hardware'') (\<lambda>key.
      mk_bind (cjson_add_string_to_object_checked hardware ''class_'' class_name) (\<lambda>hardware.
      mk_bind (cjson_add_string_to_object_checked hardware ''model'' model_name) (\<lambda>hardware.
      mk_bind (mk_new (CArray [])) (\<lambda>io_arr.
      mk_bind (mk_new ''io'') (\<lambda>io_key.
      mk_bind (add_strings io_arr
        (if length (hardware_io (c_hardware cfg)) > 0 then filter (\<lambda>entry. entry \<noteq> []) (hardware_io (c_hardware cfg)) else bp_io profile)) (\<lambda>io_arr.
      mk_ret (cJSON_AddItemToObject capabilities key (cJSON_AddItemToObject hardware io_key io_arr))))))))))"

definition add_capabilities_inference :: "cjson \<Rightarrow> board_id \<Rightarrow> cjson mk" where
  "add_capabilities_inference capabilities board =
     (let profile = manifest_board_profile board in
      mk_bind (mk_new (CObject [])) (\<lambda>inference.
      mk_bind (mk_new ''inference'') (\<lambda>key.
      mk_bind (mk_new (CArray [])) (\<lambda>modes.
      mk_bind (mk_new ''modes'') (\<lambda>modes_key.
      mk_bind (add_strings modes (bp_modes profile)) (\<lambda>modes.
      mk_bind (mk_new (CArray [])) (\<lambda>local_models.
      mk_bind (mk_new ''local_models'') (\<lambda>models_key.
      mk_bind (mk_new (CObject [])) (\<lambda>model_entry.
      mk_bind (cjson_add_string_to_object_checked model_entry ''id'' (bp_local_model_id profile)) (\<lambda>model_entry.
      mk_bind (cjson_add_string_to_object_checked model_entry ''quantization'' (bp_local_quantization profile)) (\<lambda>model_entry.
      mk_bind (mk_new CNull) (\<lambda>throughput.
      mk_bind (cjson_add_item_to_object_checked model_entry ''throughput_tokens_per_second'' throughput) (\<lambda>model_entry.
      mk_bind (cjson_add_item_to_array_checked local_models model_entry) (\<lambda>local_models.
      mk_ret (cJSON_AddItemToObject capabilities key
        (cJSON_AddItemToObject (cJSON_AddItemToObject inference modes_key modes) models_key local_models))))))))))))))))"

text \<open>A value created and added to an object, both calls checked.\<close>

definition add_new :: "cjson \<Rightarrow> string \<Rightarrow> cjson \<Rightarrow> cjson mk" where
  "add_new parent key item = mk_bind (mk_new item) (\<lambda>item. cjson_add_item_to_object_checked parent key item)"

text \<open>The members of \<open>capabilities\<close>, in the order of \<open>manifest_build_tree\<close>.\<close>

definition build_capabilities :: "fsys \<Rightarrow> (string \<Rightarrow> string list option) \<Rightarrow> config \<Rightarrow> board_id \<Rightarrow> cjson \<Rightarrow> cjson mk" where
  "build_capabilities fs dirs cfg board capabilities =
     mk_bind (add_new capabilities ''asap_version'' (CString MANIFEST_ASAP_VERSION)) (\<lambda>capabilities.
     mk_bind (add_capabilities_skills fs dirs capabilities cfg) (\<lambda>capabilities.
     mk_bind (add_new capabilities ''state_persistence'' CFalse) (\<lambda>capabilities.
     mk_bind (add_new capabilities ''streaming'' CFalse) (\<lambda>capabilities.
     mk_bind (add_new capabilities ''mcp_tools'' (CArray [])) (\<lambda>capabilities.
     mk_bind (add_capabilities_hardware capabilities cfg board) (\<lambda>capabilities.
     add_capabilities_inference capabilities board))))))"

definition build_endpoints :: "config \<Rightarrow> cjson \<Rightarrow> cjson mk" where
  "build_endpoints cfg endpoints =
     (case build_asap_endpoint MAX_ASAP_ENDPOINT cfg of
        None \<Rightarrow> (\<lambda>a n. (None, n))
      | Some asap_url \<Rightarrow>
          mk_bind (add_new endpoints ''asap'' (CString asap_url)) (\<lambda>endpoints. add_new endpoints ''events'' CNull))"

definition manifest_build_tree ::
  "(string \<Rightarrow> string option) \<Rightarrow> string \<Rightarrow> string option \<Rightarrow> fsys \<Rightarrow> (string \<Rightarrow> string list option) \<Rightarrow> config \<Rightarrow> cjson mk" where
  "manifest_build_tree env rest file fs dirs cfg =
     (let board = manifest_resolve_board env rest file cfg in
      mk_bind (mk_new (CObject [])) (\<lambda>root.
      mk_bind (add_new root ''id'' (CString (config_asap_agent_urn cfg))) (\<lambda>root.
      mk_bind (add_new root ''name'' (CString (config_asap_agent_name cfg))) (\<lambda>root.
      mk_bind (add_new root ''version'' (CString SHELLCLAW_RELEASE_VERSION)) (\<lambda>root.
      mk_bind (add_new root ''description'' (CString (config_asap_description cfg))) (\<lambda>root.
      mk_bind (mk_new (CObject [])) (\<lambda>capabilities.
      mk_bind (mk_new ''capabilities'') (\<lambda>key.
      mk_bind (build_capabilities fs dirs cfg board capabilities) (\<lambda>capabilities.
      mk_bind (mk_ret (cJSON_AddItemToObject root key capabilities)) (\<lambda>root.
      mk_bind (mk_new (CObject [])) (\<lambda>endpoints.
      mk_bind (mk_new ''endpoints'') (\<lambda>key.
      mk_bind (build_endpoints cfg endpoints) (\<lambda>endpoints.
      mk_bind (mk_ret (cJSON_AddItemToObject root key endpoints)) (\<lambda>root.
      mk_bind (mk_new (CArray [])) (\<lambda>supported.
      mk_bind (mk_new ''supported_versions'') (\<lambda>key.
      mk_bind (add_strings supported [MANIFEST_DEFAULT_TRANSPORT_VERSION]) (\<lambda>supported.
      mk_bind (mk_ret (cJSON_AddItemToObject root key supported)) (\<lambda>root.
      mk_bind (add_new root ''auth'' CNull) (\<lambda>root.
      mk_bind (add_new root ''sla'' CNull) (\<lambda>root.
      mk_bind (add_new root ''verification'' CNull) (\<lambda>root.
      add_new root ''ttl_seconds'' (CNumber MANIFEST_DEFAULT_TTL_SECONDS))))))))))))))))))))))"

text \<open>\<open>print\<close> is \<open>cJSON_PrintUnformatted\<close>.\<close>

definition mk_print :: "(cjson \<Rightarrow> string option) \<Rightarrow> cjson \<Rightarrow> string mk" where
  "mk_print print root a n = (print root, n)"

definition manifest_build_json ::
  "(cjson \<Rightarrow> string option) \<Rightarrow> (string \<Rightarrow> string option) \<Rightarrow> string \<Rightarrow> string option \<Rightarrow> fsys \<Rightarrow> (string \<Rightarrow> string list option) \<Rightarrow> config \<Rightarrow> string mk" where
  "manifest_build_json print env rest file fs dirs cfg = mk_bind (manifest_build_tree env rest file fs dirs cfg) (mk_print print)"

section \<open>\<open>manifest_sign.c\<close> and \<open>manifest.c\<close>\<close>

definition MANIFEST_SIG_ALG :: string where "MANIFEST_SIG_ALG = ''ed25519''"
definition MANIFEST_TRUST_SELF_SIGNED :: string where "MANIFEST_TRUST_SELF_SIGNED = ''self-signed''"
definition MANIFEST_B64_SIG_MAX :: nat where "MANIFEST_B64_SIG_MAX = 96"
definition MANIFEST_B64_PUB_MAX :: nat where "MANIFEST_B64_PUB_MAX = 48"

text \<open>The wrapper around the finished manifest; \<open>cJSON_AddItemToObject\<close> is not checked here.\<close>

definition build_wrapper :: "cjson \<Rightarrow> string \<Rightarrow> string \<Rightarrow> cjson mk" where
  "build_wrapper manifest sig_b64 pub_b64 =
     mk_bind (mk_new (CObject [])) (\<lambda>wrapper.
     mk_bind (cjson_add_item_unchecked wrapper ''manifest'' manifest) (\<lambda>wrapper.
     mk_bind (mk_new (CObject [])) (\<lambda>sig_block.
     mk_bind (\<lambda>a n. (Some (a n), Suc n)) (\<lambda>attached.
     mk_bind (mk_new (CString MANIFEST_SIG_ALG)) (\<lambda>alg_item.
     mk_bind (mk_new (CString sig_b64)) (\<lambda>sig_item.
     mk_bind (mk_new (CString MANIFEST_TRUST_SELF_SIGNED)) (\<lambda>trust_item.
     mk_bind (mk_new (CString pub_b64)) (\<lambda>pub_item.
     mk_bind (cjson_add_item_unchecked sig_block ''alg'' alg_item) (\<lambda>sig_block.
     mk_bind (cjson_add_item_unchecked sig_block ''signature'' sig_item) (\<lambda>sig_block.
     mk_bind (cjson_add_item_unchecked sig_block ''trust_level'' trust_item) (\<lambda>sig_block.
     cjson_add_item_unchecked (if attached then cJSON_AddItemToObject wrapper ''signature'' sig_block else wrapper) ''public_key'' pub_item)))))))))))"

definition manifest_build_signed_json ::
  "(nat list \<Rightarrow> nat list \<Rightarrow> nat list option) \<Rightarrow> (nat \<Rightarrow> 64 word \<Rightarrow> string) \<Rightarrow> (string \<Rightarrow> 64 word) \<Rightarrow> (cjson \<Rightarrow> string option) \<Rightarrow> keys
   \<Rightarrow> (string \<Rightarrow> string option) \<Rightarrow> string \<Rightarrow> string option \<Rightarrow> fsys \<Rightarrow> (string \<Rightarrow> string list option) \<Rightarrow> config \<Rightarrow> string mk" where
  "manifest_build_signed_json sign fmt strtod print keys env rest file fs dirs cfg =
     (case (manifest_keys_private keys, manifest_keys_public keys) of
        (Some priv, Some pub) \<Rightarrow>
          mk_bind (manifest_build_tree env rest file fs dirs cfg) (\<lambda>manifest.
          case jcs_canonicalize fmt strtod manifest of
            None \<Rightarrow> (\<lambda>a n. (None, n))
          | Some canonical \<Rightarrow>
              (case crypto_ed25519_sign sign priv (map byte_of canonical) 64 of
                 None \<Rightarrow> (\<lambda>a n. (None, n))
               | Some sig_raw \<Rightarrow>
                   (case (crypto_base64_encode sig_raw MANIFEST_B64_SIG_MAX, crypto_base64_encode (take 32 pub) MANIFEST_B64_PUB_MAX) of
                      (Some sig_b64, Some pub_b64) \<Rightarrow> mk_bind (build_wrapper manifest sig_b64 pub_b64) (mk_print print)
                    | _ \<Rightarrow> (\<lambda>a n. (None, n)))))
      | _ \<Rightarrow> (\<lambda>a n. (None, n)))"

definition manifest_health_json :: string where
  "manifest_health_json = ''{'' @ [dquote] @ ''status'' @ [dquote] @ '':'' @ [dquote] @ ''ok'' @ [dquote] @ ''}''"

section \<open>All or nothing\<close>

text \<open>\<open>produces m x\<close>: whichever calls fail, the only tree \<open>m\<close> returns is \<open>x\<close>, and it returns it when no call fails.\<close>

definition produces :: "'a mk \<Rightarrow> 'a \<Rightarrow> bool" where
  "produces m x \<longleftrightarrow> (\<forall>a n. fst (m a n) \<in> {None, Some x} \<and> ((\<forall>i. a i) \<longrightarrow> fst (m a n) = Some x))"

named_theorems builds \<open>what the builders produce\<close>

lemma produces_ret [builds]: "produces (mk_ret x) x"
  by (simp add: produces_def mk_ret_def)

lemma produces_new [builds]: "produces (mk_new x) x"
  by (simp add: produces_def mk_new_def)

lemma produces_bind: "produces m x \<Longrightarrow> produces (f x) y \<Longrightarrow> produces (mk_bind m f) y"
proof -
  assume m: "produces m x" and f: "produces (f x) y"
  have "fst (mk_bind m f a n) \<in> {None, Some y} \<and> ((\<forall>i. a i) \<longrightarrow> fst (mk_bind m f a n) = Some y)" for a n
  proof -
    obtain r k where r: "m a n = (r, k)" by (metis surj_pair)
    have "r \<in> {None, Some x} \<and> ((\<forall>i. a i) \<longrightarrow> r = Some x)" using m r unfolding produces_def by (metis fst_conv)
    then show ?thesis using f r by (cases r) (simp_all add: produces_def mk_bind_def)
  qed
  then show ?thesis by (simp add: produces_def)
qed

lemma produces_eq: "produces m x \<Longrightarrow> x = y \<Longrightarrow> produces m y"
  by simp

lemma produces_add [builds]:
  "produces (cjson_add_item_to_object_checked parent key item) (cJSON_AddItemToObject parent key item)"
  "produces (cjson_add_item_to_array_checked array item) (CArray (array_items array @ [item]))"
  "produces (cjson_add_string_to_object_checked parent key s) (cJSON_AddItemToObject parent key (CString s))"
  "produces (add_new parent key item) (cJSON_AddItemToObject parent key item)"
  unfolding cjson_add_item_to_object_checked_def cjson_add_item_to_array_checked_def cjson_add_string_to_object_checked_def add_new_def
  by (rule produces_bind produces_new produces_ret)+

lemma produces_strings [builds]: "produces (add_strings array ss) (if ss = [] then array else CArray (array_items array @ map CString ss))"
proof (induction ss arbitrary: array)
  case (Cons s ss)
  show ?case unfolding add_strings.simps by (rule produces_eq, (rule produces_bind builds Cons)+) simp
qed (simp add: produces_ret)

definition skill_entry :: "fsys \<Rightarrow> config \<Rightarrow> string \<Rightarrow> cjson" where
  "skill_entry fs cfg name =
     CObject [(''id'', CString name), (''description'', CString (case skill_description_for fs cfg name of Some d \<Rightarrow> d | None \<Rightarrow> name)),
       (''input_schema'', CNull), (''output_schema'', CNull)]"

lemma produces_skill: "produces (add_skill fs cfg skills name) (CArray (array_items skills @ [skill_entry fs cfg name]))"
  unfolding add_skill_def by (rule produces_eq, (rule produces_bind builds)+) (simp add: skill_entry_def cJSON_AddItemToObject_def)

lemma produces_skills [builds]:
  "produces (add_skills fs cfg skills names) (if names = [] then skills else CArray (array_items skills @ map (skill_entry fs cfg) names))"
proof (induction names arbitrary: skills)
  case (Cons name names)
  show ?case unfolding add_skills.simps by (rule produces_eq, (rule produces_bind produces_skill Cons)+) simp
qed (simp add: produces_ret)

text \<open>The complete document.\<close>

definition listed_skills :: "(string \<Rightarrow> string list option) \<Rightarrow> config \<Rightarrow> string list" where
  "listed_skills dirs cfg = (case skill_list_names dirs cfg MAX_SKILL_NAMES of Some names \<Rightarrow> names | None \<Rightarrow> [])"

definition capabilities_document :: "fsys \<Rightarrow> string list \<Rightarrow> config \<Rightarrow> board_id \<Rightarrow> cjson" where
  "capabilities_document fs names cfg board =
     CObject [(''asap_version'', CString ''2.1.0''), (''skills'', CArray (map (skill_entry fs cfg) names)),
       (''state_persistence'', CFalse), (''streaming'', CFalse), (''mcp_tools'', CArray []),
       (''hardware'', CObject [(''class_'', CString (or_nonempty (hardware_class (c_hardware cfg)) (bp_class_name (manifest_board_profile board)))),
          (''model'', CString (or_nonempty (hardware_model (c_hardware cfg)) (bp_model_name (manifest_board_profile board)))),
          (''io'', CArray (map CString (if hardware_io (c_hardware cfg) = [] then bp_io (manifest_board_profile board)
             else filter (\<lambda>entry. entry \<noteq> []) (hardware_io (c_hardware cfg)))))]),
       (''inference'', CObject [(''modes'', CArray (map CString (bp_modes (manifest_board_profile board)))),
          (''local_models'', CArray [CObject [(''id'', CString (bp_local_model_id (manifest_board_profile board))),
             (''quantization'', CString (bp_local_quantization (manifest_board_profile board))), (''throughput_tokens_per_second'', CNull)]])])]"

definition manifest_document :: "cjson \<Rightarrow> string \<Rightarrow> config \<Rightarrow> cjson" where
  "manifest_document capabilities asap_url cfg =
     CObject [(''id'', CString (config_asap_agent_urn cfg)), (''name'', CString (config_asap_agent_name cfg)), (''version'', CString ''1.0.0''),
       (''description'', CString (config_asap_description cfg)), (''capabilities'', capabilities),
       (''endpoints'', CObject [(''asap'', CString asap_url), (''events'', CNull)]),
       (''supported_versions'', CArray [CString ''2.2'']), (''auth'', CNull), (''sla'', CNull), (''verification'', CNull),
       (''ttl_seconds'', CNumber MANIFEST_DEFAULT_TTL_SECONDS)]"

lemma list_names_length: "length out \<le> m \<Longrightarrow> length (list_names m out names) =
    min m (length out + length (filter (\<lambda>n. ch n 0 \<noteq> CHR ''.'' \<and> \<not> (length n \<le> 3 \<or> drop (length n - 3) n \<noteq> ''.md'')) names))"
  by (induction m out names rule: list_names.induct) (auto simp: ends_with_md_def)

lemma listed_skills_length: "length (listed_skills dirs cfg) = min MAX_SKILL_NAMES (count_skills_on_disk dirs cfg)"
  by (auto simp: listed_skills_def skill_list_names_def count_skills_on_disk_def MAX_SKILL_NAMES_def list_names_length split: option.splits)

lemma skill_list_names_Some: "skill_list_names dirs cfg MAX_SKILL_NAMES = Some (listed_skills dirs cfg)"
  by (auto simp: listed_skills_def skill_list_names_def MAX_SKILL_NAMES_def split: option.splits)

lemma produces_capabilities_skills [builds]:
  "produces (add_capabilities_skills fs dirs c cfg)
     (cJSON_AddItemToObject c ''skills'' (CArray (map (skill_entry fs cfg) (listed_skills dirs cfg))))"
proof -
  have t: "take MAX_SKILL_NAMES (listed_skills dirs cfg) = listed_skills dirs cfg" using listed_skills_length [of dirs cfg] by simp
  show ?thesis
    unfolding add_capabilities_skills_def skill_list_names_Some option.case t
    by (rule produces_eq, (rule produces_bind builds)+) simp
qed

lemma produces_hardware [builds]:
  "produces (add_capabilities_hardware c cfg board) (cJSON_AddItemToObject c ''hardware''
     (CObject [(''class_'', CString (or_nonempty (hardware_class (c_hardware cfg)) (bp_class_name (manifest_board_profile board)))),
        (''model'', CString (or_nonempty (hardware_model (c_hardware cfg)) (bp_model_name (manifest_board_profile board)))),
        (''io'', CArray (map CString (if hardware_io (c_hardware cfg) = [] then bp_io (manifest_board_profile board)
           else filter (\<lambda>entry. entry \<noteq> []) (hardware_io (c_hardware cfg)))))]))"
  unfolding add_capabilities_hardware_def Let_def
  by (rule produces_eq, (rule produces_bind builds)+) (auto simp: cJSON_AddItemToObject_def)

lemma produces_inference [builds]:
  "produces (add_capabilities_inference c board) (cJSON_AddItemToObject c ''inference''
     (CObject [(''modes'', CArray (map CString (bp_modes (manifest_board_profile board)))),
        (''local_models'', CArray [CObject [(''id'', CString (bp_local_model_id (manifest_board_profile board))),
           (''quantization'', CString (bp_local_quantization (manifest_board_profile board))), (''throughput_tokens_per_second'', CNull)]])]))"
  unfolding add_capabilities_inference_def Let_def
  by (rule produces_eq, (rule produces_bind builds)+) (auto simp: cJSON_AddItemToObject_def)

lemma produces_capabilities [builds]:
  "produces (build_capabilities fs dirs cfg board (CObject [])) (capabilities_document fs (listed_skills dirs cfg) cfg board)"
  unfolding build_capabilities_def
  by (rule produces_eq, (rule produces_bind builds)+) (simp add: cJSON_AddItemToObject_def capabilities_document_def MANIFEST_ASAP_VERSION_def)

definition never :: "'a mk \<Rightarrow> bool" where
  "never m \<longleftrightarrow> (\<forall>a n. fst (m a n) = None)"

lemma never_first: "never m \<Longrightarrow> never (mk_bind m f)"
  by (auto simp: never_def mk_bind_def split: prod.splits option.splits) (metis fst_conv option.distinct(1))

lemma never_later: "(\<And>x. never (f x)) \<Longrightarrow> never (mk_bind m f)"
  by (auto simp: never_def mk_bind_def split: prod.splits option.splits)

lemma manifest_needs_endpoint:
  assumes "build_asap_endpoint MAX_ASAP_ENDPOINT cfg = None"
  shows "fst (manifest_build_tree env rest file fs dirs cfg a n) = None"
proof -
  have e: "never (build_endpoints cfg e)" for e by (simp add: build_endpoints_def assms never_def)
  have "never (manifest_build_tree env rest file fs dirs cfg)"
    unfolding manifest_build_tree_def Let_def by (rule never_first, rule e | rule never_later)+
  then show ?thesis by (simp add: never_def)
qed

lemma produces_manifest:
  assumes "build_asap_endpoint MAX_ASAP_ENDPOINT cfg = Some url"
  shows "produces (manifest_build_tree env rest file fs dirs cfg)
    (manifest_document (capabilities_document fs (listed_skills dirs cfg) cfg (manifest_resolve_board env rest file cfg)) url cfg)"
proof -
  have [builds]: "produces (build_endpoints cfg (CObject [])) (CObject [(''asap'', CString url), (''events'', CNull)])"
    unfolding build_endpoints_def assms option.case by (rule produces_eq, (rule produces_bind builds)+) (simp add: cJSON_AddItemToObject_def)
  show ?thesis
    unfolding manifest_build_tree_def Let_def
    by (rule produces_eq, (rule produces_bind builds)+)
      (simp add: cJSON_AddItemToObject_def manifest_document_def SHELLCLAW_RELEASE_VERSION_def MANIFEST_DEFAULT_TRANSPORT_VERSION_def)
qed

section \<open>Signing\<close>

text \<open>What NaCl promises of a key pair: the signed message is the signature, 64 bytes, before the message, and opening it gives the
  message back.\<close>

definition signs_for :: "(nat list \<Rightarrow> nat list \<Rightarrow> nat list option) \<Rightarrow> (nat list \<Rightarrow> nat list \<Rightarrow> nat list option) \<Rightarrow> nat list \<Rightarrow> nat list \<Rightarrow> bool" where
  "signs_for sign sign_open priv pub \<longleftrightarrow>
     (\<forall>m sm. sign m priv = Some sm \<longrightarrow> list_all (\<lambda>x. x < 256) (take 64 sm) \<and> sign_open (take 64 sm @ m) pub = Some m)"

lemma sign_verifies:
  assumes "signs_for sign sign_open priv pub" "length pub = 32" "crypto_ed25519_sign sign priv m 64 = Some sig"
  shows "length sig = 64" "list_all (\<lambda>x. x < 256) sig" "crypto_ed25519_verify sign_open pub m sig = 1"
proof -
  obtain sm where sm: "sign m priv = Some sm" "length sm = length m + 64" "sig = take 64 sm"
    using assms(3) by (auto simp: crypto_ed25519_sign_def ED25519_BYTES_def split: option.splits if_splits)
  have o: "list_all (\<lambda>x. x < 256) (take 64 sm)" "sign_open (take 64 sm @ m) pub = Some m" using assms(1) sm(1) by (auto simp: signs_for_def)
  show "length sig = 64" using sm by simp
  show "list_all (\<lambda>x. x < 256) sig" using o(1) sm(3) by simp
  show "crypto_ed25519_verify sign_open pub m sig = 1" using o(2) sm assms(2) by (simp add: crypto_ed25519_verify_def)
qed

lemma base64_back:
  assumes "crypto_base64_encode xs cap = Some t" "list_all (\<lambda>x. x < 256) xs" "xs \<noteq> []"
  shows "crypto_base64_decode t (length xs) = Some xs"
proof -
  have t: "t = b64_encode_loop xs" using assms(1) by (auto simp: crypto_base64_encode_def Let_def split: if_splits)
  have "length t mod 4 = 0" "t \<noteq> []" using encode_length [of xs] assms(3) t by (cases xs; auto)+
  then show ?thesis using decode_encode_loop [OF assms(2), of "[]" "length xs" 0] t by (simp add: crypto_base64_decode_def)
qed

text \<open>A member of the wrapper, if it is there, is the one that was meant.\<close>

lemma wrapper_members:
  assumes "fst (build_wrapper manifest s p a n) = Some w"
  shows "cJSON_GetObjectItemCaseSensitive w ''manifest'' \<in> {None, Some manifest}"
    and "cJSON_GetObjectItemCaseSensitive w ''public_key'' \<in> {None, Some (CString p)}"
    and "cJSON_GetObjectItemCaseSensitive w ''signature'' = Some sb \<Longrightarrow> cJSON_GetObjectItemCaseSensitive sb ''signature'' \<in> {None, Some (CString s)}"
    and "(\<And>i. a i) \<Longrightarrow> w = CObject [(''manifest'', manifest), (''signature'', CObject [(''alg'', CString ''ed25519''), (''signature'', CString s),
        (''trust_level'', CString ''self-signed'')]), (''public_key'', CString p)]"
  using assms
  by (auto simp: build_wrapper_def mk_bind_def mk_new_def cjson_add_item_unchecked_def cJSON_AddItemToObject_def MANIFEST_SIG_ALG_def
      MANIFEST_TRUST_SELF_SIGNED_def split: if_splits)


definition demo_signing_keys :: keys where
  "demo_signing_keys = (demo_keys Map.empty)\<lparr>g_manifest_keys_loaded := True, g_manifest_pubkey := replicate 32 2, g_manifest_privkey := replicate 64 1\<rparr>"

lemma demo_canonicalized:
  "\<not> Option.is_none (jcs_canonicalize demo_fmt (\<lambda>_. 0) (manifest_document (capabilities_document Map.empty [] config_defaults BOARD_STUB)
     ''https://shellclaw.example.com/asap'' config_defaults))"
  by code_simp

lemma demo_signed:
  "fst (manifest_build_signed_json (\<lambda>m _. Some (replicate 64 7 @ m)) demo_fmt (\<lambda>_. 0) (\<lambda>_. Some ''doc'') demo_signing_keys (\<lambda>_. None) [] None Map.empty
     (\<lambda>_. None) config_defaults (\<lambda>_. True) 0) = Some ''doc''"
proof -
  let ?doc = "manifest_document (capabilities_document Map.empty [] config_defaults BOARD_STUB) ''https://shellclaw.example.com/asap'' config_defaults"
  have e: "build_asap_endpoint MAX_ASAP_ENDPOINT config_defaults = Some ''https://shellclaw.example.com/asap''"
    "manifest_resolve_board (\<lambda>_. None) [] None config_defaults = BOARD_STUB" "listed_skills (\<lambda>_. None) config_defaults = []" by code_simp+
  obtain k where t: "manifest_build_tree (\<lambda>_. None) [] None Map.empty (\<lambda>_. None) config_defaults (\<lambda>_. True) 0 = (Some ?doc, k)"
    using produces_manifest [OF e(1), of "\<lambda>_. None" "[]" None Map.empty "\<lambda>_. None"] unfolding e produces_def by (metis prod.collapse)
  obtain c where c: "jcs_canonicalize demo_fmt (\<lambda>_. 0) ?doc = Some c" using demo_canonicalized by (auto simp: Option.is_none_def)
  obtain s p where s: "crypto_base64_encode (replicate 64 7) MANIFEST_B64_SIG_MAX = Some s" "crypto_base64_encode (replicate 32 2) MANIFEST_B64_PUB_MAX = Some p"
    by (simp add: crypto_base64_encode_def MANIFEST_B64_SIG_MAX_def MANIFEST_B64_PUB_MAX_def)
  show ?thesis
    using s by (simp add: manifest_build_signed_json_def demo_signing_keys_def manifest_keys_private_def manifest_keys_public_def mk_bind_def t c
        crypto_ed25519_sign_def ED25519_BYTES_def build_wrapper_def mk_new_def cjson_add_item_unchecked_def mk_print_def)
qed


text \<open>The four calls that attach the finished parts to the wrapper are not checked: when the key of the signature cannot be duplicated, a
  manifest without a signature is printed.\<close>

theorem unsigned_manifest_printed:
  "\<exists>w. fst (build_wrapper manifest s p (\<lambda>i. i \<noteq> 3) 0) = Some w \<and> cJSON_GetObjectItemCaseSensitive w ''manifest'' = Some manifest \<and>
     cJSON_GetObjectItemCaseSensitive w ''signature'' = None"
  by (simp add: build_wrapper_def mk_bind_def mk_new_def cjson_add_item_unchecked_def cJSON_AddItemToObject_def)

end
