(* ===== verification/Hardware.thy ===== *)
theory Hardware
  imports Board Cjson
begin

text \<open>
  The hardware back ends: the pin tables of the two boards (\<open>src/hardware/boards\<close>), their selection (\<open>hardware_init.c\<close>), the GPIO lines
  held through libgpiod (\<open>hardware_libgpiod.c\<close>) and the picture of the header that the dashboard shows (\<open>hardware_gpio_snapshot.c\<close>).
  libgpiod is an argument: what it answers to each call; the state keeps a log of the calls.
\<close>

section \<open>Definitions\<close>

subsection \<open>Pin tables\<close>

definition HARDWARE_HEADER_PIN_COUNT :: nat where "HARDWARE_HEADER_PIN_COUNT = 40"

record hardware_pin_entry =
  pe_pin :: nat
  pe_chip :: nat
  pe_line :: nat
  pe_sfio :: bool
  pe_label :: string

definition hdr_pwr :: "nat \<Rightarrow> string \<Rightarrow> hardware_pin_entry" where
  "hdr_pwr pin label = \<lparr>pe_pin = pin, pe_chip = 0, pe_line = 4000 + pin, pe_sfio = True, pe_label = label\<rparr>"

definition hdr_sfio :: "nat \<Rightarrow> nat \<Rightarrow> string \<Rightarrow> hardware_pin_entry" where
  "hdr_sfio pin line label = \<lparr>pe_pin = pin, pe_chip = 0, pe_line = line, pe_sfio = True, pe_label = label\<rparr>"

definition hdr_gpio :: "nat \<Rightarrow> nat \<Rightarrow> string \<Rightarrow> hardware_pin_entry" where
  "hdr_gpio pin line label = \<lparr>pe_pin = pin, pe_chip = 0, pe_line = line, pe_sfio = False, pe_label = label\<rparr>"

definition jetson_orin_nano_pin_table :: "hardware_pin_entry list" where
  "jetson_orin_nano_pin_table =
    [hdr_pwr 1 ''3V3'', hdr_pwr 2 ''5V'', hdr_sfio 3 2 ''I2C1_SDA'', hdr_pwr 4 ''5V'',
     hdr_sfio 5 3 ''I2C1_SCL'', hdr_pwr 6 ''GND'', hdr_gpio 7 144 ''GPIO09'', hdr_sfio 8 108 ''UART1_TX'',
     hdr_pwr 9 ''GND'', hdr_sfio 10 109 ''UART1_RX'', hdr_sfio 11 112 ''UART1_RTS'', hdr_sfio 12 50 ''I2S0_SCLK'',
     hdr_sfio 13 122 ''SPI1_SCK'', hdr_pwr 14 ''GND'', hdr_gpio 15 85 ''GPIO12'', hdr_sfio 16 126 ''SPI1_CS1'',
     hdr_pwr 17 ''3V3'', hdr_sfio 18 125 ''SPI1_CS0'', hdr_sfio 19 135 ''SPI0_MOSI'', hdr_pwr 20 ''GND'',
     hdr_sfio 21 134 ''SPI0_MISO'', hdr_sfio 22 123 ''SPI1_MISO'', hdr_sfio 23 133 ''SPI0_SCK'', hdr_sfio 24 136 ''SPI0_CS0'',
     hdr_pwr 25 ''GND'', hdr_sfio 26 137 ''SPI0_CS1'', hdr_sfio 27 140 ''I2C0_SDA'', hdr_sfio 28 141 ''I2C0_SCL'',
     hdr_gpio 29 105 ''GPIO01'', hdr_pwr 30 ''GND'', hdr_gpio 31 106 ''GPIO11'', hdr_gpio 32 41 ''GPIO07'',
     hdr_gpio 33 43 ''GPIO13'', hdr_pwr 34 ''GND'', hdr_sfio 35 53 ''I2S0_FS'', hdr_sfio 36 113 ''UART1_CTS'',
     hdr_sfio 37 124 ''SPI1_MOSI'', hdr_sfio 38 52 ''I2S0_SDIN'', hdr_pwr 39 ''GND'', hdr_sfio 40 51 ''I2S0_SDOUT'']"

definition rpi_zero2w_pin_table :: "hardware_pin_entry list" where
  "rpi_zero2w_pin_table =
    [hdr_pwr 1 ''3V3'', hdr_pwr 2 ''5V'', hdr_sfio 3 2 ''GPIO2_SDA1'', hdr_pwr 4 ''5V'',
     hdr_sfio 5 3 ''GPIO3_SCL1'', hdr_pwr 6 ''GND'', hdr_gpio 7 4 ''GPIO4'', hdr_sfio 8 14 ''GPIO14_TXD0'',
     hdr_pwr 9 ''GND'', hdr_sfio 10 15 ''GPIO15_RXD0'', hdr_gpio 11 17 ''GPIO17'', hdr_gpio 12 18 ''GPIO18'',
     hdr_gpio 13 27 ''GPIO27'', hdr_pwr 14 ''GND'', hdr_gpio 15 22 ''GPIO22'', hdr_gpio 16 23 ''GPIO23'',
     hdr_pwr 17 ''3V3'', hdr_gpio 18 24 ''GPIO24'', hdr_sfio 19 10 ''GPIO10_MOSI'', hdr_pwr 20 ''GND'',
     hdr_sfio 21 9 ''GPIO9_MISO'', hdr_gpio 22 25 ''GPIO25'', hdr_sfio 23 11 ''GPIO11_SCLK'', hdr_sfio 24 8 ''GPIO8_CE0'',
     hdr_pwr 25 ''GND'', hdr_sfio 26 7 ''GPIO7_CE1'', hdr_sfio 27 0 ''ID_SDA'', hdr_sfio 28 1 ''ID_SCL'',
     hdr_gpio 29 5 ''GPIO5'', hdr_pwr 30 ''GND'', hdr_gpio 31 6 ''GPIO6'', hdr_gpio 32 12 ''GPIO12'',
     hdr_gpio 33 13 ''GPIO13'', hdr_pwr 34 ''GND'', hdr_gpio 35 19 ''GPIO19'', hdr_gpio 36 16 ''GPIO16'',
     hdr_gpio 37 26 ''GPIO26'', hdr_gpio 38 20 ''GPIO20'', hdr_pwr 39 ''GND'', hdr_gpio 40 21 ''GPIO21'']"

subsection \<open>Lines\<close>

text \<open>What libgpiod answers: opening a chip and requesting a line fail with the text of \<open>errno\<close>, reading a value may fail.\<close>

datatype line_direction = Dir_Input | Dir_Output | Dir_Other

record 'w gpio_env =
  ge_open :: "nat \<Rightarrow> 'w \<Rightarrow> string option"
  ge_request :: "nat \<Rightarrow> nat \<Rightarrow> bool \<Rightarrow> bool \<Rightarrow> 'w \<Rightarrow> (string + nat) \<times> 'w"
  ge_set :: "nat \<Rightarrow> nat \<Rightarrow> bool \<Rightarrow> 'w \<Rightarrow> string option \<times> 'w"
  ge_get :: "nat \<Rightarrow> nat \<Rightarrow> 'w \<Rightarrow> (string + bool) \<times> 'w"
  ge_release :: "nat \<Rightarrow> 'w \<Rightarrow> 'w"
  ge_direction :: "nat \<Rightarrow> nat \<Rightarrow> 'w \<Rightarrow> line_direction option"

datatype gpio_call = Granted nat nat bool | Refused nat nat | Released nat | Value_Set nat nat bool | Value_Got nat nat

text \<open>Only outputs are held: an input is requested for the moment of its reading.\<close>

record held_line =
  hl_request :: nat
  hl_offset :: nat

record 'w gpio_state =
  gs_table :: "hardware_pin_entry list option"
  gs_ready :: bool
  gs_held :: "nat \<Rightarrow> held_line option"
  gs_log :: "gpio_call list"
  gs_world :: 'w

definition lookup_pin :: "int \<Rightarrow> 'w gpio_state \<Rightarrow> string + hardware_pin_entry" where
  "lookup_pin pin s =
     (case gs_table s of
        None \<Rightarrow> Inl ''gpio: pin table not configured''
      | Some table \<Rightarrow>
          if table = [] then Inl ''gpio: pin table not configured''
          else if pin < 1 \<or> pin > int HARDWARE_HEADER_PIN_COUNT then Inl (''gpio: pin '' @ int_str pin @ '' out of range (1-40)'')
          else case find (\<lambda>en. int (pe_pin en) = pin) table of
            Some en \<Rightarrow> Inr en
          | None \<Rightarrow> Inl (''gpio: pin '' @ int_str pin @ '' not mapped on this board''))"

definition reject_sfio :: "hardware_pin_entry \<Rightarrow> int \<Rightarrow> string option" where
  "reject_sfio en pin = (if \<not> pe_sfio en then None else Some (''pin '' @ int_str pin @ '' is configured as SFIO (I2C/UART/SPI) in pinmux''))"

definition chip_path_for_num :: "nat \<Rightarrow> nat \<Rightarrow> string option" where
  "chip_path_for_num n pathsz = (let path = ''/dev/gpiochip'' @ nat_str n in if length path \<ge> pathsz then None else Some path)"

definition ask_line :: "'w gpio_env \<Rightarrow> hardware_pin_entry \<Rightarrow> bool \<Rightarrow> bool \<Rightarrow> 'w gpio_state \<Rightarrow> (string + nat) \<times> 'w gpio_state" where
  "ask_line e en as_output v s =
     (case ge_request e (pe_chip en) (pe_line en) as_output v (gs_world s) of
        (Inl err, w) \<Rightarrow> (Inl err, s\<lparr>gs_log := Refused (pe_chip en) (pe_line en) # gs_log s, gs_world := w\<rparr>)
      | (Inr h, w) \<Rightarrow> (Inr h, s\<lparr>gs_log := Granted (pe_chip en) (pe_line en) as_output # gs_log s, gs_world := w\<rparr>))"

definition request_line :: "'w gpio_env \<Rightarrow> hardware_pin_entry \<Rightarrow> bool \<Rightarrow> bool \<Rightarrow> 'w gpio_state \<Rightarrow> (string + nat) \<times> 'w gpio_state" where
  "request_line e en as_output v s =
     (case chip_path_for_num (pe_chip en) 32 of
        None \<Rightarrow> (Inl (''gpio: chip path too long for gpiochip'' @ nat_str (pe_chip en)), s)
      | Some path \<Rightarrow>
          (case ge_open e (pe_chip en) (gs_world s) of
             Some err \<Rightarrow> (Inl (''gpio: open '' @ path @ '' failed: '' @ err), s)
           | None \<Rightarrow>
               (case ask_line e en as_output v s of
                  (Inl err, s') \<Rightarrow> (Inl (''gpio: request line '' @ nat_str (pe_line en) @ '' on '' @ path @ '' failed: '' @ err), s')
                | (Inr h, s') \<Rightarrow> (Inr h, s'))))"

definition release_request :: "'w gpio_env \<Rightarrow> nat \<Rightarrow> 'w gpio_state \<Rightarrow> 'w gpio_state" where
  "release_request e h s = s\<lparr>gs_log := Released h # gs_log s, gs_world := ge_release e h (gs_world s)\<rparr>"

definition line_set_value :: "'w gpio_env \<Rightarrow> nat \<Rightarrow> nat \<Rightarrow> bool \<Rightarrow> 'w gpio_state \<Rightarrow> string option \<times> 'w gpio_state" where
  "line_set_value e h line v s =
     (let (r, w) = ge_set e h line v (gs_world s) in (r, s\<lparr>gs_log := Value_Set h line v # gs_log s, gs_world := w\<rparr>))"

definition line_get_value :: "'w gpio_env \<Rightarrow> nat \<Rightarrow> nat \<Rightarrow> 'w gpio_state \<Rightarrow> (string + bool) \<times> 'w gpio_state" where
  "line_get_value e h line s = (let (r, w) = ge_get e h line (gs_world s) in (r, s\<lparr>gs_log := Value_Got h line # gs_log s, gs_world := w\<rparr>))"

definition held_clear_pin :: "'w gpio_env \<Rightarrow> nat \<Rightarrow> 'w gpio_state \<Rightarrow> 'w gpio_state" where
  "held_clear_pin e pin s =
     (if pin < 1 \<or> pin > HARDWARE_HEADER_PIN_COUNT then s
      else case gs_held s pin of
        None \<Rightarrow> s
      | Some l \<Rightarrow> (release_request e (hl_request l) s)\<lparr>gs_held := (gs_held s)(pin := None)\<rparr>)"

definition held_clear_all :: "'w gpio_env \<Rightarrow> 'w gpio_state \<Rightarrow> 'w gpio_state" where
  "held_clear_all e s = fold (held_clear_pin e) [1..<HARDWARE_HEADER_PIN_COUNT + 1] s"

definition held_keep :: "nat \<Rightarrow> nat \<Rightarrow> nat \<Rightarrow> 'w gpio_state \<Rightarrow> 'w gpio_state" where
  "held_keep pin h line s =
     (if pin < 1 \<or> pin > HARDWARE_HEADER_PIN_COUNT then s
      else s\<lparr>gs_held := (gs_held s)(pin \<mapsto> \<lparr>hl_request = h, hl_offset = line\<rparr>)\<rparr>)"

definition hardware_libgpiod_init :: "hardware_pin_entry list \<Rightarrow> 'w gpio_state \<Rightarrow> bool \<times> 'w gpio_state" where
  "hardware_libgpiod_init table s = (if table = [] then (False, s) else (True, s\<lparr>gs_table := Some table, gs_ready := True\<rparr>))"

definition hardware_libgpiod_shutdown :: "'w gpio_env \<Rightarrow> 'w gpio_state \<Rightarrow> 'w gpio_state" where
  "hardware_libgpiod_shutdown e s = (held_clear_all e s)\<lparr>gs_table := None, gs_ready := False\<rparr>"

text \<open>What read, write and mode share: the pin's entry, or the error text.\<close>

definition usable_pin :: "int \<Rightarrow> 'w gpio_state \<Rightarrow> string + hardware_pin_entry" where
  "usable_pin pin s =
     (if \<not> gs_ready s then Inl ''gpio: libgpiod backend not initialized''
      else case lookup_pin pin s of Inl err \<Rightarrow> Inl err | Inr en \<Rightarrow> (case reject_sfio en pin of Some err \<Rightarrow> Inl err | None \<Rightarrow> Inr en))"

definition got_value :: "int \<Rightarrow> string + bool \<Rightarrow> string + int" where
  "got_value pin r = (case r of Inl err \<Rightarrow> Inl (''gpio: read pin '' @ int_str pin @ '' failed: '' @ err) | Inr v \<Rightarrow> Inr (if v then 1 else 0))"

definition hardware_gpio_read :: "'w gpio_env \<Rightarrow> int \<Rightarrow> 'w gpio_state \<Rightarrow> (string + int) \<times> 'w gpio_state" where
  "hardware_gpio_read e pin s =
     (case usable_pin pin s of
        Inl err \<Rightarrow> (Inl err, s)
      | Inr en \<Rightarrow>
          (case gs_held s (nat pin) of
             Some l \<Rightarrow> (let (r, s1) = line_get_value e (hl_request l) (hl_offset l) s in (got_value pin r, s1))
           | None \<Rightarrow>
               (case request_line e en False False s of
                  (Inl err, s1) \<Rightarrow> (Inl err, s1)
                | (Inr h, s1) \<Rightarrow> (let (r, s2) = line_get_value e h (pe_line en) s1 in (got_value pin r, release_request e h s2)))))"

definition write_failed :: "int \<Rightarrow> string \<Rightarrow> string" where
  "write_failed pin err = ''gpio: write pin '' @ int_str pin @ '' failed: '' @ err"

definition hardware_gpio_write :: "'w gpio_env \<Rightarrow> int \<Rightarrow> bool \<Rightarrow> 'w gpio_state \<Rightarrow> string option \<times> 'w gpio_state" where
  "hardware_gpio_write e pin v s =
     (case usable_pin pin s of
        Inl err \<Rightarrow> (Some err, s)
      | Inr en \<Rightarrow>
          (case gs_held s (nat pin) of
             Some l \<Rightarrow> (let (r, s1) = line_set_value e (hl_request l) (hl_offset l) v s in (map_option (write_failed pin) r, s1))
           | None \<Rightarrow>
               (case request_line e en True v (held_clear_pin e (nat pin) s) of
                  (Inl err, s1) \<Rightarrow> (Some err, s1)
                | (Inr h, s1) \<Rightarrow>
                    (case line_set_value e h (pe_line en) v s1 of
                       (Some err, s2) \<Rightarrow> (Some (write_failed pin err), release_request e h s2)
                     | (None, s2) \<Rightarrow> (None, held_keep (nat pin) h (pe_line en) s2)))))"

definition hardware_gpio_mode :: "'w gpio_env \<Rightarrow> int \<Rightarrow> string \<Rightarrow> 'w gpio_state \<Rightarrow> string option \<times> 'w gpio_state" where
  "hardware_gpio_mode e pin mode s =
     (if mode \<noteq> ''input'' \<and> mode \<noteq> ''output'' then (Some (''gpio: invalid mode '' @ [CHR 0x27] @ mode @ [CHR 0x27] @ '' (expected input|output)''), s)
      else case usable_pin pin s of
        Inl err \<Rightarrow> (Some err, s)
      | Inr en \<Rightarrow>
          (case request_line e en (mode = ''output'') False (held_clear_pin e (nat pin) s) of
             (Inl err, s1) \<Rightarrow> (Some err, s1)
           | (Inr h, s1) \<Rightarrow> (None, if mode = ''output'' then held_keep (nat pin) h (pe_line en) s1 else release_request e h s1)))"

subsection \<open>Selection of the back ends\<close>

datatype gpio_backend = HARDWARE_GPIO_BACKEND_LIBGPIOD | HARDWARE_GPIO_BACKEND_STUB | HARDWARE_GPIO_BACKEND_UNAVAILABLE

record 'w hw_state =
  hs_board :: board_id
  hs_gpio_backend :: gpio_backend
  hs_i2c_active :: bool
  hs_camera_active :: bool
  hs_i2c_ready :: bool
  hs_camera_ready :: bool
  hs_workspace :: "string option"
  hs_gpio :: "'w gpio_state"

definition resolve_board :: "board_id \<Rightarrow> config \<Rightarrow> board_id" where
  "resolve_board detected cfg =
     (let from_cfg = board_id_from_string (hardware_board (c_hardware cfg)) in
      if from_cfg \<noteq> BOARD_UNKNOWN then from_cfg else if detected \<noteq> BOARD_UNKNOWN then detected else BOARD_STUB)"

text \<open>\<open>hs_workspace\<close>: \<open>None\<close> when the camera is not confined.\<close>

definition shutdown_backends :: "'w gpio_env \<Rightarrow> 'w hw_state \<Rightarrow> 'w hw_state" where
  "shutdown_backends e s =
     s\<lparr>hs_gpio := hardware_libgpiod_shutdown e (hs_gpio s), hs_i2c_ready := False, hs_camera_ready := False, hs_workspace := None\<rparr>"

fun board_pin_table :: "board_id \<Rightarrow> hardware_pin_entry list option" where
  "board_pin_table BOARD_JETSON_ORIN_NANO = Some jetson_orin_nano_pin_table"
| "board_pin_table BOARD_RPI_ZERO2W = Some rpi_zero2w_pin_table"
| "board_pin_table _ = None"

definition bind_gpio_backend :: "board_id \<Rightarrow> 'w hw_state \<Rightarrow> 'w hw_state" where
  "bind_gpio_backend board s =
     (case board_pin_table board of
        None \<Rightarrow> s\<lparr>hs_gpio_backend := HARDWARE_GPIO_BACKEND_UNAVAILABLE\<rparr>
      | Some table \<Rightarrow>
          let (ok, g) = hardware_libgpiod_init table (hs_gpio s) in
          s\<lparr>hs_gpio := g, hs_gpio_backend := if ok then HARDWARE_GPIO_BACKEND_LIBGPIOD else HARDWARE_GPIO_BACKEND_UNAVAILABLE\<rparr>)"

definition bind_enabled_backends :: "board_id \<Rightarrow> 'w hw_state \<Rightarrow> 'w hw_state" where
  "bind_enabled_backends board s =
     (let s1 = s\<lparr>hs_board := board, hs_gpio_backend := HARDWARE_GPIO_BACKEND_UNAVAILABLE, hs_i2c_active := False, hs_camera_active := False\<rparr>;
          s2 = (if board = BOARD_STUB \<or> board = BOARD_UNKNOWN then s1 else bind_gpio_backend board s1) in
      s2\<lparr>hs_i2c_ready := True, hs_i2c_active := True, hs_camera_ready := True, hs_camera_active := True\<rparr>)"

definition bind_disabled_backends :: "'w hw_state \<Rightarrow> 'w hw_state" where
  "bind_disabled_backends s =
     s\<lparr>hs_board := BOARD_STUB, hs_gpio_backend := HARDWARE_GPIO_BACKEND_STUB, hs_i2c_active := False, hs_camera_active := False\<rparr>"

definition hardware_init :: "'w gpio_env \<Rightarrow> board_id \<Rightarrow> config option \<Rightarrow> 'w hw_state \<Rightarrow> 'w hw_state" where
  "hardware_init e detected cfg s =
     (let s1 = shutdown_backends e s in
      case cfg of
        None \<Rightarrow> bind_disabled_backends s1
      | Some c \<Rightarrow> if \<not> hardware_enabled (c_hardware c) then bind_disabled_backends s1 else bind_enabled_backends (resolve_board detected c) s1)"

definition hardware_gpio_test_pin_of :: "config option \<Rightarrow> board_id \<Rightarrow> int" where
  "hardware_gpio_test_pin_of cfg board =
     (case cfg of
        None \<Rightarrow> 0
      | Some c \<Rightarrow>
          if hardware_gpio_test_pin (c_hardware c) \<noteq> None then config_hardware_gpio_test_pin c
          else case board of BOARD_JETSON_ORIN_NANO \<Rightarrow> 33 | BOARD_RPI_ZERO2W \<Rightarrow> 11 | _ \<Rightarrow> 0)"

definition hardware_default_i2c_bus :: "board_id \<Rightarrow> int" where
  "hardware_default_i2c_bus board = (case board of BOARD_JETSON_ORIN_NANO \<Rightarrow> 7 | _ \<Rightarrow> 1)"

definition hardware_resolve_i2c_bus :: "config option \<Rightarrow> board_id \<Rightarrow> int" where
  "hardware_resolve_i2c_bus cfg board =
     (case cfg of
        Some c \<Rightarrow> if hardware_i2c_bus (c_hardware c) \<noteq> None then config_hardware_i2c_bus c else hardware_default_i2c_bus board
      | None \<Rightarrow> hardware_default_i2c_bus board)"

subsection \<open>The picture of the header\<close>

definition HARDWARE_LIBGPIOD_SNAPSHOT_MAX_CHIPS :: nat where "HARDWARE_LIBGPIOD_SNAPSHOT_MAX_CHIPS = 8"
definition HARDWARE_PWR_LINE_BASE :: nat where "HARDWARE_PWR_LINE_BASE = 4000"

text \<open>The chips opened so far; \<open>None\<close> when the chip is not to be had.\<close>

definition snapshot_chip_get :: "'w gpio_env \<Rightarrow> nat \<Rightarrow> nat list \<times> 'w gpio_state \<Rightarrow> nat list option" where
  "snapshot_chip_get e chip c =
     (if chip \<in> set (fst c) then Some (fst c)
      else if length (fst c) \<ge> HARDWARE_LIBGPIOD_SNAPSHOT_MAX_CHIPS then None
      else if chip_path_for_num chip 32 = None \<or> ge_open e chip (gs_world (snd c)) \<noteq> None then None
      else Some (fst c @ [chip]))"

definition snapshot_pin_status ::
  "'w gpio_env \<Rightarrow> hardware_pin_entry \<Rightarrow> nat list \<times> 'w gpio_state \<Rightarrow> (string \<times> string option) option \<times> nat list \<times> 'w gpio_state" where
  "snapshot_pin_status e en c =
     (if \<not> gs_ready (snd c) \<or> pe_sfio en then (None, c)
      else case snapshot_chip_get e (pe_chip en) c of
        None \<Rightarrow> (None, c)
      | Some chips \<Rightarrow>
          (case ge_direction e (pe_chip en) (pe_line en) (gs_world (snd c)) of
             Some Dir_Output \<Rightarrow> (Some (''output'', None), chips, snd c)
           | Some Dir_Input \<Rightarrow>
               (case ask_line e en False False (snd c) of
                  (Inl err, s1) \<Rightarrow> (None, chips, s1)
                | (Inr h, s1) \<Rightarrow>
                    (case line_get_value e h (pe_line en) s1 of
                       (Inl err, s2) \<Rightarrow> (None, chips, release_request e h s2)
                     | (Inr v, s2) \<Rightarrow> (Some (''input'', Some (if v then ''high'' else ''low'')), chips, release_request e h s2)))
           | _ \<Rightarrow> (None, chips, snd c)))"

definition is_power_row :: "hardware_pin_entry \<Rightarrow> bool" where
  "is_power_row en \<longleftrightarrow> pe_sfio en \<and> pe_line en \<ge> HARDWARE_PWR_LINE_BASE"

definition pin_object :: "(nat \<Rightarrow> 64 word) \<Rightarrow> hardware_pin_entry \<Rightarrow> string \<times> string option \<Rightarrow> cjson" where
  "pin_object num en st =
     CObject [(''pin'', CNumber (num (pe_pin en))), (''label'', CString (pe_label en)), (''sfio'', if pe_sfio en then CTrue else CFalse),
       (''mode'', CString (fst st)), (''state'', case snd st of None \<Rightarrow> CNull | Some v \<Rightarrow> CString v)]"

text \<open>\<open>active\<close>: the snapshot could be begun.\<close>

definition append_pin_object ::
  "'w gpio_env \<Rightarrow> (nat \<Rightarrow> 64 word) \<Rightarrow> gpio_backend \<Rightarrow> bool \<Rightarrow> hardware_pin_entry \<Rightarrow> nat list \<times> 'w gpio_state \<Rightarrow> cjson \<times> nat list \<times> 'w gpio_state" where
  "append_pin_object e num backend active en c =
     (if is_power_row en \<or> pe_sfio en then (pin_object num en (''sfio'', None), c)
      else if backend = HARDWARE_GPIO_BACKEND_LIBGPIOD \<and> active then
        (case snapshot_pin_status e en c of (None, c') \<Rightarrow> (pin_object num en (''unavailable'', None), c') | (Some st, c') \<Rightarrow> (pin_object num en st, c'))
      else (pin_object num en (''unavailable'', None), c))"

fun snapshot_pins ::
  "'w gpio_env \<Rightarrow> (nat \<Rightarrow> 64 word) \<Rightarrow> gpio_backend \<Rightarrow> bool \<Rightarrow> hardware_pin_entry list \<Rightarrow> nat list \<Rightarrow> nat list \<times> 'w gpio_state \<Rightarrow> (string + cjson list) \<times> 'w gpio_state" where
  "snapshot_pins e num backend active table [] c = (Inr [], snd c)"
| "snapshot_pins e num backend active table (pin # pins) c =
     (case find (\<lambda>en. pe_pin en = pin) table of
        None \<Rightarrow> (Inl (''gpio snapshot: missing header pin '' @ nat_str pin @ '' in table''), snd c)
      | Some en \<Rightarrow>
          let (j, c') = append_pin_object e num backend active en c; (r, s) = snapshot_pins e num backend active table pins c' in
          (case r of Inl err \<Rightarrow> Inl err | Inr js \<Rightarrow> Inr (j # js), s))"

definition hardware_gpio_snapshot_fill :: "'w gpio_env \<Rightarrow> (nat \<Rightarrow> 64 word) \<Rightarrow> 'w hw_state \<Rightarrow> (string + cjson list) \<times> 'w gpio_state" where
  "hardware_gpio_snapshot_fill e num s =
     (case board_pin_table (hs_board s) of
        None \<Rightarrow> (Inl (''gpio snapshot: no pin table for board '' @ [CHR 0x27] @ board_name (hs_board s) @ [CHR 0x27]), hs_gpio s)
      | Some table \<Rightarrow>
          snapshot_pins e num (hs_gpio_backend s) (hs_gpio_backend s = HARDWARE_GPIO_BACKEND_LIBGPIOD \<and> gs_ready (hs_gpio s)) table
            [1..<HARDWARE_HEADER_PIN_COUNT + 1] ([], hs_gpio s))"

subsection \<open>Any use of the hardware\<close>

text \<open>The calls of the tools, of the dashboard and of a configuration reload, in any order.\<close>

datatype hw_op = Op_Read int | Op_Write int bool | Op_Mode int string | Op_Snapshot | Op_Init "config option"

fun hw_step :: "'w gpio_env \<Rightarrow> (nat \<Rightarrow> 64 word) \<Rightarrow> board_id \<Rightarrow> hw_op \<Rightarrow> 'w hw_state \<Rightarrow> 'w hw_state" where
  "hw_step e num detected (Op_Read pin) s = s\<lparr>hs_gpio := snd (hardware_gpio_read e pin (hs_gpio s))\<rparr>"
| "hw_step e num detected (Op_Write pin v) s = s\<lparr>hs_gpio := snd (hardware_gpio_write e pin v (hs_gpio s))\<rparr>"
| "hw_step e num detected (Op_Mode pin mode) s = s\<lparr>hs_gpio := snd (hardware_gpio_mode e pin mode (hs_gpio s))\<rparr>"
| "hw_step e num detected Op_Snapshot s = s\<lparr>hs_gpio := snd (hardware_gpio_snapshot_fill e num s)\<rparr>"
| "hw_step e num detected (Op_Init cfg) s = hardware_init e detected cfg s"

definition hw_start :: "'w \<Rightarrow> 'w hw_state" where
  "hw_start w = \<lparr>hs_board = BOARD_UNKNOWN, hs_gpio_backend = HARDWARE_GPIO_BACKEND_UNAVAILABLE, hs_i2c_active = False, hs_camera_active = False,
     hs_i2c_ready = False, hs_camera_ready = False, hs_workspace = None,
     hs_gpio = \<lparr>gs_table = None, gs_ready = False, gs_held = (\<lambda>_. None), gs_log = [], gs_world = w\<rparr>\<rparr>"

definition board_pins :: "board_id \<Rightarrow> hardware_pin_entry list" where
  "board_pins b = (case board_pin_table b of None \<Rightarrow> [] | Some table \<Rightarrow> table)"

section \<open>The tables\<close>

lemma table_pins:
  "board_pin_table b = Some table \<Longrightarrow> map pe_pin table = [1..<41] \<and> distinct (map pe_line table) \<and> list_all (\<lambda>en. pe_chip en = 0) table"
proof -
  have "map pe_pin jetson_orin_nano_pin_table = [1..<41] \<and> distinct (map pe_line jetson_orin_nano_pin_table) \<and> list_all (\<lambda>en. pe_chip en = 0) jetson_orin_nano_pin_table"
    by code_simp
  moreover have "map pe_pin rpi_zero2w_pin_table = [1..<41] \<and> distinct (map pe_line rpi_zero2w_pin_table) \<and> list_all (\<lambda>en. pe_chip en = 0) rpi_zero2w_pin_table"
    by code_simp
  ultimately show "board_pin_table b = Some table \<Longrightarrow> map pe_pin table = [1..<41] \<and> distinct (map pe_line table) \<and> list_all (\<lambda>en. pe_chip en = 0) table"
    by (cases b) auto
qed

text \<open>So the picture of a known board never fails, and shows every pin once.\<close>

lemma snapshot_pins_all:
  "(\<And>pin. pin \<in> set pins \<Longrightarrow> find (\<lambda>en. pe_pin en = pin) table \<noteq> None) \<Longrightarrow>
   \<exists>js s'. snapshot_pins e num backend active table pins c = (Inr js, s') \<and> length js = length pins"
proof (induction pins arbitrary: c)
  case (Cons pin pins)
  obtain en where en: "find (\<lambda>en. pe_pin en = pin) table = Some en" using Cons.prems [of pin] by auto
  obtain j c' where j: "append_pin_object e num backend active en c = (j, c')" by (metis surj_pair)
  obtain js s' where "snapshot_pins e num backend active table pins c' = (Inr js, s')" "length js = length pins" using Cons by (metis list.set_intros(2))
  then show ?case using en j by simp
qed simp

lemma snapshot_complete:
  assumes "board_pin_table (hs_board s) = Some table"
  shows "\<exists>js s'. hardware_gpio_snapshot_fill e num s = (Inr js, s') \<and> length js = 40"
proof -
  have m: "pe_pin ` set table = {1..<41}" using table_pins [OF assms] by (metis list.set_map set_upt)
  have f: "find (\<lambda>en. pe_pin en = pin) table \<noteq> None" if "pin \<in> set [1..<HARDWARE_HEADER_PIN_COUNT + 1]" for pin
  proof -
    have "pin \<in> {1..<41}" using that by (simp only: set_upt HARDWARE_HEADER_PIN_COUNT_def) simp
    then obtain en where "en \<in> set table" "pe_pin en = pin" unfolding m [symmetric] by blast
    then show ?thesis unfolding find_None_iff by blast
  qed
  have l: "length [1..<HARDWARE_HEADER_PIN_COUNT + 1] = 40" by (simp only: length_upt HARDWARE_HEADER_PIN_COUNT_def)
  show ?thesis using snapshot_pins_all [of "[1..<HARDWARE_HEADER_PIN_COUNT + 1]", OF f] unfolding hardware_gpio_snapshot_fill_def assms option.case l by blast
qed

section \<open>Lines are free for GPIO, and none leaks\<close>

definition free_line :: "hardware_pin_entry list \<Rightarrow> nat \<Rightarrow> bool" where
  "free_line table line \<longleftrightarrow> (\<exists>en \<in> set table. \<not> pe_sfio en \<and> pe_line en = line)"

fun free_call :: "hardware_pin_entry list \<Rightarrow> gpio_call \<Rightarrow> bool" where
  "free_call table (Granted c l v) \<longleftrightarrow> free_line table l"
| "free_call table (Refused c l) \<longleftrightarrow> free_line table l"
| "free_call table (Value_Set h l v) \<longleftrightarrow> free_line table l"
| "free_call table (Value_Got h l) \<longleftrightarrow> free_line table l"
| "free_call table (Released h) \<longleftrightarrow> True"

fun line_count :: "gpio_call \<Rightarrow> int" where
  "line_count (Granted c l v) = 1"
| "line_count (Released h) = - 1"
| "line_count _ = 0"

definition open_lines :: "'w gpio_state \<Rightarrow> int" where
  "open_lines s = sum_list (map line_count (gs_log s))"

text \<open>What a piece of an operation keeps, \<open>d\<close> lines more being open afterwards.\<close>

definition gpio_keeps :: "hardware_pin_entry list \<Rightarrow> int \<Rightarrow> 'w gpio_state \<Rightarrow> 'w gpio_state \<Rightarrow> bool" where
  "gpio_keeps table d s s' \<longleftrightarrow> gs_table s' = gs_table s \<and> gs_ready s' = gs_ready s \<and>
     (\<exists>new. gs_log s' = new @ gs_log s \<and> list_all (free_call table) new \<and> sum_list (map line_count new) = d)"

lemma keeps_refl: "gpio_keeps table 0 s s"
  by (simp add: gpio_keeps_def)

lemma keeps_trans:
  assumes "gpio_keeps table d s s1" "gpio_keeps table d' s1 s2"
  shows "gpio_keeps table (d + d') s s2"
proof -
  obtain new1 new2 where n: "gs_log s1 = new1 @ gs_log s" "list_all (free_call table) new1" "sum_list (map line_count new1) = d"
    "gs_log s2 = new2 @ gs_log s1" "list_all (free_call table) new2" "sum_list (map line_count new2) = d'"
    using assms unfolding gpio_keeps_def by blast
  then have "gs_log s2 = (new2 @ new1) @ gs_log s \<and> list_all (free_call table) (new2 @ new1) \<and> sum_list (map line_count (new2 @ new1)) = d + d'" by simp
  then show ?thesis using assms unfolding gpio_keeps_def by metis
qed

lemma keeps_held: "gpio_keeps table d s s' \<Longrightarrow> gpio_keeps table d s (s'\<lparr>gs_held := h\<rparr>)"
  by (simp add: gpio_keeps_def)

lemma keeps_one: "free_call table c \<Longrightarrow> gpio_keeps table (line_count c) s (s\<lparr>gs_log := c # gs_log s, gs_world := w\<rparr>)"
  by (simp add: gpio_keeps_def)

lemma ask_line_keeps:
  assumes "ask_line e en out v s = (r, s')" "free_line table (pe_line en)"
  shows "gpio_keeps table (case r of Inl _ \<Rightarrow> 0 | Inr _ \<Rightarrow> 1) s s'" "gs_held s' = gs_held s"
  using assms keeps_one [of table "Granted (pe_chip en) (pe_line en) out"] keeps_one [of table "Refused (pe_chip en) (pe_line en)"]
  by (auto simp: ask_line_def split: prod.splits sum.splits)

lemma request_line_keeps:
  assumes "request_line e en out v s = (r, s')" "free_line table (pe_line en)"
  shows "gpio_keeps table (case r of Inl _ \<Rightarrow> 0 | Inr _ \<Rightarrow> 1) s s'" "gs_held s' = gs_held s"
  using assms ask_line_keeps [of e en out v s _ s' table] keeps_refl
  by (auto simp: request_line_def split: option.splits prod.splits sum.splits)

lemma release_keeps: "gpio_keeps table (- 1) s (release_request e h s)" "gs_held (release_request e h s) = gs_held s"
  using keeps_one [of table "Released h" s] by (simp_all add: release_request_def)

lemma value_keeps:
  assumes "free_line table l"
  shows "gpio_keeps table 0 s (snd (line_set_value e h l v s))" "gs_held (snd (line_set_value e h l v s)) = gs_held s"
    "gpio_keeps table 0 s (snd (line_get_value e h l s))" "gs_held (snd (line_get_value e h l s)) = gs_held s"
  using assms keeps_one [of table "Value_Set h l v" s] keeps_one [of table "Value_Got h l" s]
  by (simp_all add: line_set_value_def line_get_value_def case_prod_beta Let_def)

lemma clear_keeps:
  assumes "pin \<in> {1..HARDWARE_HEADER_PIN_COUNT}"
  shows "gpio_keeps table (if gs_held s pin = None then 0 else - 1) s (held_clear_pin e pin s)" "gs_held (held_clear_pin e pin s) = (gs_held s)(pin := None)"
  using assms keeps_held [OF release_keeps(1)] keeps_refl by (auto simp: held_clear_pin_def fun_upd_idem_iff split: option.split)

text \<open>Every held line is free, belongs to its pin, and the open lines are the held ones.\<close>

definition gpio_inv :: "hardware_pin_entry list \<Rightarrow> 'w gpio_state \<Rightarrow> bool" where
  "gpio_inv table s \<longleftrightarrow> (gs_ready s \<longrightarrow> gs_table s = Some table) \<and> dom (gs_held s) \<subseteq> {1..HARDWARE_HEADER_PIN_COUNT} \<and>
     (\<forall>pin l. gs_held s pin = Some l \<longrightarrow> free_line table (hl_offset l)) \<and> open_lines s = int (card (dom (gs_held s)))"

definition gpio_step_ok :: "hardware_pin_entry list \<Rightarrow> 'w gpio_state \<Rightarrow> 'w gpio_state \<Rightarrow> bool" where
  "gpio_step_ok table s s' \<longleftrightarrow> gpio_inv table s' \<and> (\<exists>new. gs_log s' = new @ gs_log s \<and> list_all (free_call table) new)"

lemma held_card:
  assumes "dom h \<subseteq> {1..HARDWARE_HEADER_PIN_COUNT}"
  shows "int (card (dom (h(p := None)))) = int (card (dom h)) + (if h p = None then 0 else - 1)" "h p = None \<Longrightarrow> int (card (dom (h(p \<mapsto> l)))) = int (card (dom h)) + 1"
proof -
  have f: "finite (dom h)" using assms finite_subset by blast
  show "int (card (dom (h(p := None)))) = int (card (dom h)) + (if h p = None then 0 else - 1)"
  proof (cases "h p = None")
    case False
    then have "p \<in> dom h" by auto
    then have "card (dom h) = Suc (card (dom h - {p}))" by (rule card.remove [OF f])
    then show ?thesis using False by (simp add: dom_fun_upd)
  qed (simp add: fun_upd_idem)
  show "h p = None \<Longrightarrow> int (card (dom (h(p \<mapsto> l)))) = int (card (dom h)) + 1"
    using f by (simp add: domIff)
qed

lemma keeps_step_ok:
  assumes "gpio_inv table s" "gpio_keeps table d s s'" "dom (gs_held s') \<subseteq> {1..HARDWARE_HEADER_PIN_COUNT}"
    and "\<And>pin l. gs_held s' pin = Some l \<Longrightarrow> free_line table (hl_offset l)" "int (card (dom (gs_held s'))) = int (card (dom (gs_held s))) + d"
  shows "gpio_step_ok table s s'"
  using assms unfolding gpio_step_ok_def gpio_inv_def gpio_keeps_def open_lines_def by auto

lemma same_held_ok:
  assumes "gpio_inv table s" "gpio_keeps table 0 s s'" "gs_held s' = gs_held s"
  shows "gpio_step_ok table s s'"
  by (rule keeps_step_ok [OF assms(1,2)]) (use assms(1,3) in \<open>auto simp: gpio_inv_def\<close>)

lemma usable_pin_free:
  assumes "usable_pin pin s = Inr en" "gpio_inv table s"
  shows "free_line table (pe_line en)" "nat pin \<in> {1..HARDWARE_HEADER_PIN_COUNT}"
proof -
  have t: "gs_table s = Some table" "find (\<lambda>en. int (pe_pin en) = pin) table = Some en" "\<not> pe_sfio en" "1 \<le> pin" "pin \<le> int HARDWARE_HEADER_PIN_COUNT"
    using assms by (auto simp: usable_pin_def lookup_pin_def reject_sfio_def gpio_inv_def split: if_splits option.splits sum.splits)
  have "en \<in> set table" using t(2) by (metis find_Some_iff nth_mem)
  then show "free_line table (pe_line en)" using t(3) unfolding free_line_def by blast
  show "nat pin \<in> {1..HARDWARE_HEADER_PIN_COUNT}" using t(4,5) by auto
qed

lemma read_ok:
  assumes "gpio_inv table s"
  shows "gpio_step_ok table s (snd (hardware_gpio_read e pin s))"
proof (cases "usable_pin pin s")
  case (Inl err)
  then show ?thesis using same_held_ok [OF assms keeps_refl] by (simp add: hardware_gpio_read_def)
next
  case (Inr en)
  note free = usable_pin_free [OF Inr assms]
  show ?thesis
  proof (cases "gs_held s (nat pin)")
    case (Some l)
    then have "free_line table (hl_offset l)" using assms by (simp add: gpio_inv_def)
    then have "gpio_step_ok table s (snd (line_get_value e (hl_request l) (hl_offset l) s))" by (intro same_held_ok [OF assms] value_keeps)
    then show ?thesis using Inr Some by (simp add: hardware_gpio_read_def case_prod_beta Let_def)
  next
    case None
    obtain r s1 where r: "request_line e en False False s = (r, s1)" by (metis surj_pair)
    note k = request_line_keeps [OF r free(1)]
    show ?thesis
    proof (cases r)
      case (Inl err)
      then show ?thesis using same_held_ok [OF assms] k Inr None r by (simp add: hardware_gpio_read_def)
    next
      case (Inr h)
      let ?s2 = "snd (line_get_value e h (pe_line en) s1)"
      have "gpio_keeps table (1 + (0 + - 1)) s (release_request e h ?s2)"
        using keeps_trans [OF k(1) keeps_trans [OF value_keeps(3) [OF free(1)] release_keeps(1)]] Inr by simp
      moreover have "gs_held (release_request e h ?s2) = gs_held s" using k(2) by (simp only: release_keeps(2) value_keeps(4) [OF free(1)])
      ultimately have "gpio_step_ok table s (release_request e h ?s2)" using same_held_ok [OF assms] by simp
      then show ?thesis using \<open>usable_pin pin s = Inr en\<close> None r Inr by (simp add: hardware_gpio_read_def case_prod_beta Let_def)
    qed
  qed
qed

text \<open>Taking a line for a pin whose old one has been cleared, and keeping it as an output.\<close>

lemma keep_ok:
  assumes "gpio_inv table s" "nat pin \<in> {1..HARDWARE_HEADER_PIN_COUNT}" "free_line table l" "gpio_keeps table (1 + (if gs_held s (nat pin) = None then 0 else - 1)) s s'"
    and "gs_held s' = (gs_held s)(nat pin := None)"
  shows "gpio_step_ok table s (held_keep (nat pin) h l s')"
proof -
  have k: "held_keep (nat pin) h l s' = s'\<lparr>gs_held := (gs_held s)(nat pin \<mapsto> \<lparr>hl_request = h, hl_offset = l\<rparr>)\<rparr>"
  proof -
    have "\<not> (nat pin < 1 \<or> nat pin > HARDWARE_HEADER_PIN_COUNT)" using assms(2) by (simp only: atLeastAtMost_iff not_less de_Morgan_disj)
    then show ?thesis by (simp only: held_keep_def if_False assms(5) fun_upd_upd)
  qed
  have d: "dom (gs_held s) \<subseteq> {1..HARDWARE_HEADER_PIN_COUNT}" using assms(1) by (simp add: gpio_inv_def)
  have "int (card (dom ((gs_held s)(nat pin \<mapsto> \<lparr>hl_request = h, hl_offset = l\<rparr>)))) =
     int (card (dom (gs_held s))) + (1 + (if gs_held s (nat pin) = None then 0 else - 1))"
  proof -
    have d': "dom ((gs_held s)(nat pin := None)) \<subseteq> {1..HARDWARE_HEADER_PIN_COUNT}" using d by auto
    show ?thesis using held_card(1) [OF d, of "nat pin"] held_card(2) [OF d', of "nat pin" "\<lparr>hl_request = h, hl_offset = l\<rparr>"] by (simp only: fun_upd_same fun_upd_upd refl simp_thms)
  qed
  then show ?thesis unfolding k
    by (intro keeps_step_ok [OF assms(1) keeps_held [OF assms(4)]]) (use assms(1-3) d in \<open>auto simp: gpio_inv_def split: if_splits\<close>)
qed

lemma cleared_ok:
  assumes "gpio_inv table s" "gpio_keeps table (if gs_held s p = None then 0 else - 1) s s'" "gs_held s' = (gs_held s)(p := None)"
  shows "gpio_step_ok table s s'"
  by (rule keeps_step_ok [OF assms(1,2)]) (use assms held_card(1) [of "gs_held s" p] in \<open>auto simp: gpio_inv_def split: if_splits\<close>)

lemma write_ok:
  assumes "gpio_inv table s"
  shows "gpio_step_ok table s (snd (hardware_gpio_write e pin v s))"
proof (cases "usable_pin pin s")
  case (Inl err)
  then show ?thesis using same_held_ok [OF assms keeps_refl] by (simp add: hardware_gpio_write_def)
next
  case (Inr en)
  note free = usable_pin_free [OF Inr assms]
  show ?thesis
  proof (cases "gs_held s (nat pin)")
    case (Some l)
    then have "free_line table (hl_offset l)" using assms by (simp add: gpio_inv_def)
    then have "gpio_step_ok table s (snd (line_set_value e (hl_request l) (hl_offset l) v s))" by (intro same_held_ok [OF assms] value_keeps)
    then show ?thesis using Inr Some by (simp add: hardware_gpio_write_def case_prod_beta Let_def)
  next
    case None
    have c: "held_clear_pin e (nat pin) s = s" using None by (simp add: held_clear_pin_def)
    obtain r s1 where r: "request_line e en True v s = (r, s1)" by (metis surj_pair)
    note k = request_line_keeps [OF r free(1)]
    show ?thesis
    proof (cases r)
      case (Inl err)
      then show ?thesis using same_held_ok [OF assms] k \<open>usable_pin pin s = Inr en\<close> None r c by (simp add: hardware_gpio_write_def)
    next
      case (Inr h)
      obtain q s2 where q: "line_set_value e h (pe_line en) v s1 = (q, s2)" by (metis surj_pair)
      have k2: "gpio_keeps table 0 s1 s2" "gs_held s2 = gs_held s1" using value_keeps(1) [OF free(1), of s1 e h v] value_keeps(2) [OF free(1), of e h v s1] q by simp_all
      have k1: "gpio_keeps table 1 s s1" "gs_held s1 = gs_held s" using k Inr by simp_all
      note w = hardware_gpio_write_def
      show ?thesis
      proof (cases q)
        case None
        have "gpio_step_ok table s (held_keep (nat pin) h (pe_line en) s2)"
          using keep_ok [OF assms free(2,1)] keeps_trans [OF k1(1) k2(1)] k1(2) k2(2) \<open>gs_held s (nat pin) = None\<close> by (simp add: fun_upd_idem)
        then show ?thesis using \<open>usable_pin pin s = Inr en\<close> \<open>gs_held s (nat pin) = None\<close> r c Inr q None by (simp add: w)
      next
        case (Some err)
        have "gpio_keeps table (1 + (0 + - 1)) s (release_request e h s2)" using keeps_trans [OF k1(1) keeps_trans [OF k2(1) release_keeps(1)]] by simp
        moreover have "gs_held (release_request e h s2) = gs_held s" by (simp only: release_keeps(2) k2(2) k1(2))
        ultimately have "gpio_step_ok table s (release_request e h s2)" using same_held_ok [OF assms] by simp
        then show ?thesis using \<open>usable_pin pin s = Inr en\<close> \<open>gs_held s (nat pin) = None\<close> r c Inr q Some by (simp add: w)
      qed
    qed
  qed
qed

lemma mode_ok:
  assumes "gpio_inv table s"
  shows "gpio_step_ok table s (snd (hardware_gpio_mode e pin mode s))"
proof (cases "(mode \<noteq> ''input'' \<and> mode \<noteq> ''output'') \<or> (\<exists>err. usable_pin pin s = Inl err)")
  case True
  then show ?thesis using same_held_ok [OF assms keeps_refl] by (auto simp: hardware_gpio_mode_def)
next
  case False
  then obtain en where en: "usable_pin pin s = Inr en" "\<not> (mode \<noteq> ''input'' \<and> mode \<noteq> ''output'')" by (metis sum.exhaust)
  note free = usable_pin_free [OF en(1) assms]
  let ?c = "held_clear_pin e (nat pin) s"
  have kc: "gpio_keeps table (if gs_held s (nat pin) = None then 0 else - 1) s ?c" "gs_held ?c = (gs_held s)(nat pin := None)"
    by (rule clear_keeps [OF free(2)])+
  obtain r s1 where r: "request_line e en (mode = ''output'') False ?c = (r, s1)" by (metis surj_pair)
  note k = request_line_keeps [OF r free(1)]
  have h1: "gs_held s1 = (gs_held s)(nat pin := None)" using k(2) kc(2) by simp
  show ?thesis
  proof (cases r)
    case (Inl err)
    have "gpio_keeps table (if gs_held s (nat pin) = None then 0 else - 1) s s1" using keeps_trans [OF kc(1) k(1)] Inl by simp
    then have "gpio_step_ok table s s1" by (rule cleared_ok [OF assms _ h1])
    then show ?thesis using en r Inl by (auto simp: hardware_gpio_mode_def)
  next
    case (Inr h)
    have k1: "gpio_keeps table (1 + (if gs_held s (nat pin) = None then 0 else - 1)) s s1" using keeps_trans [OF kc(1) k(1)] Inr by (simp add: add.commute)
    show ?thesis
    proof (cases "mode = ''output''")
      case True
      then show ?thesis using keep_ok [OF assms free(2,1) k1 h1, of h] en r Inr by (auto simp: hardware_gpio_mode_def)
    next
      case False
      have "gpio_keeps table (if gs_held s (nat pin) = None then 0 else - 1) s (release_request e h s1)"
        using keeps_trans [OF k1 release_keeps(1) [of table s1 e h]] by (simp split: if_splits)
      then have "gpio_step_ok table s (release_request e h s1)" by (rule cleared_ok [OF assms]) (simp only: release_keeps(2) h1)
      then show ?thesis using en r Inr False by (auto simp: hardware_gpio_mode_def)
    qed
  qed
qed

section \<open>The header picture, and any sequence of calls\<close>

lemma step_ok_refl: "gpio_inv table s \<Longrightarrow> gpio_step_ok table s s"
  by (simp add: gpio_step_ok_def)

lemma step_ok_trans: "gpio_step_ok table s s1 \<Longrightarrow> gpio_step_ok table s1 s2 \<Longrightarrow> gpio_step_ok table s s2"
  unfolding gpio_step_ok_def by (metis append_assoc list_all_append)

lemma step_ok_inv: "gpio_step_ok table s s' \<Longrightarrow> gpio_inv table s'"
  by (simp add: gpio_step_ok_def)

lemma snapshot_chip_only: "snapshot_chip_get e chip c = Some chips \<Longrightarrow> chips = fst c \<or> chips = fst c @ [chip]"
  by (auto simp: snapshot_chip_get_def split: if_splits)

lemma pin_status_ok:
  assumes i: "gpio_inv table (snd c)" and en: "en \<in> set table"
  shows "gpio_step_ok table (snd c) (snd (snd (snapshot_pin_status e en c)))"
proof (cases "gs_ready (snd c) \<and> \<not> pe_sfio en \<and> snapshot_chip_get e (pe_chip en) c \<noteq> None \<and> ge_direction e (pe_chip en) (pe_line en) (gs_world (snd c)) = Some Dir_Input")
  case False
  then have "snd (snd (snapshot_pin_status e en c)) = snd c"
    by (auto simp: snapshot_pin_status_def split: option.splits line_direction.splits)
  then show ?thesis using step_ok_refl [OF i] by simp
next
  case True
  then obtain chips where c: "snapshot_chip_get e (pe_chip en) c = Some chips" by blast
  have free: "free_line table (pe_line en)" using True en unfolding free_line_def by blast
  obtain r s1 where r: "ask_line e en False False (snd c) = (r, s1)" by (metis surj_pair)
  note k = ask_line_keeps [OF r free]
  show ?thesis
  proof (cases r)
    case (Inl err)
    then have "gpio_step_ok table (snd c) s1" using same_held_ok [OF i] k by simp
    then show ?thesis using True c r Inl by (simp add: snapshot_pin_status_def)
  next
    case (Inr h)
    obtain q s2 where q: "line_get_value e h (pe_line en) s1 = (q, s2)" by (metis surj_pair)
    have k2: "gpio_keeps table 0 s1 s2" "gs_held s2 = gs_held s1" using value_keeps(3) [OF free, of s1 e h] value_keeps(4) [OF free, of e h s1] q by simp_all
    have "gpio_keeps table (1 + (0 + - 1)) (snd c) (release_request e h s2)"
      using keeps_trans [OF k(1) keeps_trans [OF k2(1) release_keeps(1)]] Inr by simp
    moreover have "gs_held (release_request e h s2) = gs_held (snd c)" by (simp only: release_keeps(2) k2(2) k(2))
    ultimately have "gpio_step_ok table (snd c) (release_request e h s2)" using same_held_ok [OF i] by simp
    then show ?thesis using True c r q Inr by (simp add: snapshot_pin_status_def split: sum.split)
  qed
qed

lemma append_pin_ok:
  assumes "gpio_inv table (snd c)" "en \<in> set table"
  shows "gpio_step_ok table (snd c) (snd (snd (append_pin_object e num backend active en c)))"
  using pin_status_ok [OF assms, of e] step_ok_refl [OF assms(1)]
  by (auto simp: append_pin_object_def split: prod.splits option.splits)

lemma snapshot_pins_ok:
  "gpio_inv table (snd c) \<Longrightarrow> gpio_step_ok table (snd c) (snd (snapshot_pins e num backend active table pins c))"
proof (induction pins arbitrary: c)
  case Nil
  then show ?case using step_ok_refl by simp
next
  case (Cons pin pins)
  show ?case
  proof (cases "find (\<lambda>en. pe_pin en = pin) table")
    case None
    then show ?thesis using step_ok_refl [OF Cons.prems] by simp
  next
    case (Some en)
    then have "en \<in> set table" by (metis find_Some_iff nth_mem)
    then have a: "gpio_step_ok table (snd c) (snd (snd (append_pin_object e num backend active en c)))" by (rule append_pin_ok [OF Cons.prems])
    obtain j c' where c': "append_pin_object e num backend active en c = (j, c')" by (metis surj_pair)
    obtain r s where r: "snapshot_pins e num backend active table pins c' = (r, s)" by (metis surj_pair)
    have "gpio_step_ok table (snd c') s" using Cons.IH [of c'] step_ok_inv [OF a] c' r by simp
    then have "gpio_step_ok table (snd c) s" using step_ok_trans a c' by simp
    then show ?thesis using Some c' r by simp
  qed
qed

lemma clear_ok:
  assumes "gpio_inv table s" "p \<in> {1..HARDWARE_HEADER_PIN_COUNT}"
  shows "gpio_step_ok table s (held_clear_pin e p s)"
  by (rule cleared_ok [OF assms(1) clear_keeps [OF assms(2)]])

lemma clear_pins_ok:
  "gpio_inv table s \<Longrightarrow> set ps \<subseteq> {1..HARDWARE_HEADER_PIN_COUNT} \<Longrightarrow> gpio_step_ok table s (fold (held_clear_pin e) ps s)"
proof (induction ps arbitrary: s)
  case (Cons p ps)
  have a: "gpio_step_ok table s (held_clear_pin e p s)" using Cons.prems by (intro clear_ok) simp_all
  have "gpio_step_ok table (held_clear_pin e p s) (fold (held_clear_pin e) ps (held_clear_pin e p s))"
    using Cons.prems by (intro Cons.IH step_ok_inv [OF a]) simp
  then show ?case using step_ok_trans [OF a] by simp
qed (simp add: step_ok_refl)

lemma clear_pins_held:
  "set ps \<subseteq> {1..HARDWARE_HEADER_PIN_COUNT} \<Longrightarrow> gs_held (fold (held_clear_pin e) ps s) = (\<lambda>p. if p \<in> set ps then None else gs_held s p)"
proof (induction ps arbitrary: s)
  case (Cons p ps)
  have "gs_held (held_clear_pin e p s) = (gs_held s)(p := None)" using Cons.prems by (intro clear_keeps) simp
  then show ?case using Cons by auto
qed simp

text \<open>Shutting down releases every line, whatever table is bound next.\<close>

lemma shutdown_ok:
  assumes "gpio_inv table s"
  shows "\<exists>new. gs_log (hardware_libgpiod_shutdown e s) = new @ gs_log s \<and> list_all (free_call table) new"
    "gs_held (hardware_libgpiod_shutdown e s) = (\<lambda>_. None)" "open_lines (hardware_libgpiod_shutdown e s) = 0"
proof -
  let ?p = "[1..<HARDWARE_HEADER_PIN_COUNT + 1]"
  have p: "set ?p = {1..HARDWARE_HEADER_PIN_COUNT}" by auto
  have ok: "gpio_step_ok table s (held_clear_all e s)" unfolding held_clear_all_def by (rule clear_pins_ok [OF assms]) (simp only: p subset_refl)
  then show "\<exists>new. gs_log (hardware_libgpiod_shutdown e s) = new @ gs_log s \<and> list_all (free_call table) new"
    by (simp add: gpio_step_ok_def hardware_libgpiod_shutdown_def)
  have h: "gs_held (held_clear_all e s) = (\<lambda>_. None)"
  proof
    fix q
    have "gs_held (held_clear_all e s) q = (if q \<in> {1..HARDWARE_HEADER_PIN_COUNT} then None else gs_held s q)"
      unfolding held_clear_all_def by (subst clear_pins_held) (simp_all only: p subset_refl)
    moreover have "q \<notin> {1..HARDWARE_HEADER_PIN_COUNT} \<Longrightarrow> gs_held s q = None" using assms unfolding gpio_inv_def by blast
    ultimately show "gs_held (held_clear_all e s) q = None" by presburger
  qed
  then show "gs_held (hardware_libgpiod_shutdown e s) = (\<lambda>_. None)" by (simp add: hardware_libgpiod_shutdown_def)
  have "open_lines (held_clear_all e s) = 0" using step_ok_inv [OF ok] h by (simp add: gpio_inv_def)
  then show "open_lines (hardware_libgpiod_shutdown e s) = 0" by (simp add: open_lines_def hardware_libgpiod_shutdown_def)
qed

abbreviation hw_inv :: "'w hw_state \<Rightarrow> bool" where
  "hw_inv s \<equiv> gpio_inv (board_pins (hs_board s)) (hs_gpio s)"

lemma idle_inv: "gs_held s = (\<lambda>_. None) \<Longrightarrow> open_lines s = 0 \<Longrightarrow> gs_ready s \<longrightarrow> gs_table s = Some table \<Longrightarrow> gpio_inv table s"
  by (simp add: gpio_inv_def)

lemma bind_gpio:
  assumes "board_pin_table b = Some table"
  shows "hs_gpio (bind_gpio_backend b s) = (hs_gpio s)\<lparr>gs_table := Some table, gs_ready := True\<rparr>" "hs_board (bind_gpio_backend b s) = hs_board s"
proof -
  have "table \<noteq> []" using table_pins [OF assms] upt_conv_Cons [of 1 41] by fastforce
  then show "hs_gpio (bind_gpio_backend b s) = (hs_gpio s)\<lparr>gs_table := Some table, gs_ready := True\<rparr>" "hs_board (bind_gpio_backend b s) = hs_board s"
    using assms by (simp_all add: bind_gpio_backend_def hardware_libgpiod_init_def)
qed

text \<open>What \<open>hardware_init\<close> leaves: no line open, and a table only where the board has one.\<close>

lemma init_gpio:
  fixes s :: "'w hw_state"
  shows "hs_gpio (hardware_init e d cfg s) =
    (case board_pin_table (hs_board (hardware_init e d cfg s)) of
       None \<Rightarrow> hardware_libgpiod_shutdown e (hs_gpio s)
     | Some table \<Rightarrow> (hardware_libgpiod_shutdown e (hs_gpio s))\<lparr>gs_table := Some table, gs_ready := True\<rparr>)"
proof -
  have bound: "hs_gpio (bind_enabled_backends b t) = (case board_pin_table (hs_board (bind_enabled_backends b t)) of None \<Rightarrow> hs_gpio t | Some table \<Rightarrow> (hs_gpio t)\<lparr>gs_table := Some table, gs_ready := True\<rparr>)"
    for b and t :: "'w hw_state"
    by (cases b) (simp_all add: bind_enabled_backends_def bind_gpio)
  show ?thesis by (auto simp: hardware_init_def Let_def shutdown_backends_def bind_disabled_backends_def bound split: option.split)
qed

lemma init_inv:
  assumes "hw_inv s"
  shows "hw_inv (hardware_init e d cfg s)" "open_lines (hs_gpio (hardware_init e d cfg s)) = 0"
    "\<exists>new. gs_log (hs_gpio (hardware_init e d cfg s)) = new @ gs_log (hs_gpio s) \<and> list_all (free_call (board_pins (hs_board s))) new"
proof -
  note g = shutdown_ok [OF assms, of e]
  note i = init_gpio [of e d cfg s]
  have r: "\<not> gs_ready (hardware_libgpiod_shutdown e (hs_gpio s))" by (simp add: hardware_libgpiod_shutdown_def)
  show o: "open_lines (hs_gpio (hardware_init e d cfg s)) = 0" using g(3) unfolding i by (auto simp: open_lines_def split: option.split)
  show "hw_inv (hardware_init e d cfg s)"
    by (rule idle_inv [OF _ o]) (use g(2) r in \<open>auto simp: i board_pins_def split: option.split\<close>)
  show "\<exists>new. gs_log (hs_gpio (hardware_init e d cfg s)) = new @ gs_log (hs_gpio s) \<and> list_all (free_call (board_pins (hs_board s))) new"
    using g(1) unfolding i by (auto split: option.split)
qed

lemma snapshot_fill_ok:
  assumes "hw_inv s"
  shows "gpio_step_ok (board_pins (hs_board s)) (hs_gpio s) (snd (hardware_gpio_snapshot_fill e num s))"
  using step_ok_refl [OF assms] snapshot_pins_ok [of "board_pins (hs_board s)" "([], hs_gpio s)"] assms
  by (auto simp: hardware_gpio_snapshot_fill_def board_pins_def split: option.split)

lemma hw_step_ok:
  assumes "hw_inv s"
  shows "hw_inv (hw_step e num d op s) \<and>
    (\<exists>new. gs_log (hs_gpio (hw_step e num d op s)) = new @ gs_log (hs_gpio s) \<and> list_all (free_call (board_pins (hs_board s))) new)"
proof (cases op)
  case (Op_Read pin)
  then show ?thesis using read_ok [OF assms, of e pin] by (simp add: gpio_step_ok_def)
next
  case (Op_Write pin v)
  then show ?thesis using write_ok [OF assms, of e pin v] by (simp add: gpio_step_ok_def)
next
  case (Op_Mode pin mode)
  then show ?thesis using mode_ok [OF assms, of e pin mode] by (simp add: gpio_step_ok_def)
next
  case Op_Snapshot
  then show ?thesis using snapshot_fill_ok [OF assms, of e num] by (simp add: gpio_step_ok_def)
next
  case (Op_Init cfg)
  then show ?thesis using init_inv [OF assms, of e d cfg] by simp
qed

lemma hw_reachable_inv: "hw_inv (fold (hw_step e num d) ops (hw_start w))"
proof (induction ops rule: rev_induct)
  case Nil
  show ?case by (simp add: hw_start_def gpio_inv_def open_lines_def)
next
  case (snoc op ops)
  then show ?case using hw_step_ok [OF snoc.IH, of e num d op] by simp
qed


end
