(* ===== verification/Routes.thy ===== *)
theory Routes
  imports Http_Reply Auth Dispatch Skill Config_Patch Manifest Asap_Server Asap_Log Rate_Limit Hardware
begin

text \<open>
  The REST handlers of \<open>src/gateway/routes.c\<close> and \<open>routes_hardware.c\<close> and their dispatch.  The state is what the server context reaches:
  the live configuration, the pairing state, the store, the file system, the rate limiter, the event log and the signing keys.
  A handler takes the state and the reply buffer and returns both.  The operations behind the handlers are those of the other
  theories; the hardware drivers, the provider status, the Discord status and the context snapshot are values of the environment
  of a request.  Two routes are proved safe: what a client without a token can change, and what \<open>PUT /api/config\<close> does to the
  configuration file.
\<close>

section \<open>Definitions\<close>

subsection \<open>State and environment\<close>

record 'w gateway =
  gw_cfg :: config
  gw_bootstrapped :: bool
  gw_auth :: auth_ctx
  gw_config_path :: "string option"
  gw_start_time :: int
  gw_fs :: fsys
  gw_hist :: "fsys list"
  gw_corrupt :: bool
  gw_store :: "'w dispatch_state"
  gw_rates :: rate_table
  gw_log :: asap_log
  gw_keys :: keys

text \<open>\<open>gw_bootstrapped\<close>: the process holds a configuration (\<open>bootstrap_get_cfg\<close>); \<open>gw_hist\<close>: the earlier states of the files, latest
  first; \<open>gw_corrupt\<close>: a handler has written behind a heap buffer.  The configuration path of the server is the one
  of the process.\<close>

record hw_env =
  hw_board :: board_id
  hw_gpio_backend :: gpio_backend
  hw_i2c_backend :: bool
  hw_i2c_available :: bool
  hw_camera_backend :: bool
  hw_gpio_snapshot :: "string + cjson list"
  hw_i2c_bus :: "config \<Rightarrow> int"
  hw_i2c_scan :: "int \<Rightarrow> string + nat list"
  hw_gpu_json :: "string + (string \<times> cjson) list"

record 'w route_env =
  rv_parse :: "string \<Rightarrow> cjson option"
  rv_print :: "cjson \<Rightarrow> string option"
  rv_token_text :: "cjson \<Rightarrow> string"
  rv_conv :: "int \<Rightarrow> 64 word"
  rv_now :: int
  rv_getenv :: "string \<Rightarrow> string option"
  rv_save :: save_env
  rv_patch_save :: save_env
  rv_remove :: bool
  rv_token_bytes :: "nat list option"
  rv_job_bytes :: "(nat \<times> nat) option"
  rv_valueint :: "64 word \<Rightarrow> int"
  rv_fmt_g :: "64 word \<Rightarrow> string"
  rv_toml :: "string \<Rightarrow> string + toml_table"
  rv_strtod :: "string \<Rightarrow> double \<times> string"
  rv_dirs :: "string \<Rightarrow> string list option"
  rv_match :: "string \<Rightarrow> memory_row list \<Rightarrow> string list"
  rv_localtime :: "int \<Rightarrow> tm option"
  rv_utc :: "int \<Rightarrow> string"
  rv_ulid :: "string option"
  rv_agent :: "'w agent_env option"
  rv_tools :: "'w agent_tool list"
  rv_keys_dir :: "string option"
  rv_keypair :: "(nat list \<times> nat list) option"
  rv_sign :: "nat list \<Rightarrow> nat list \<Rightarrow> nat list option"
  rv_fmt :: "nat \<Rightarrow> 64 word \<Rightarrow> string"
  rv_compatible :: "string \<times> string option"
  rv_alloc :: "nat \<Rightarrow> bool"
  rv_provider_status :: "string option"
  rv_discord :: "string \<times> string"
  rv_context :: "string option"
  rv_hw :: hw_env

text \<open>What libwebsockets gives a handler of a request: the peer, the pairing header and the query arguments, each as copied into
  the buffer of the caller.\<close>

record http_args =
  ra_ip :: string
  ra_pairing_header :: string
  ra_urlarg :: "string \<Rightarrow> string"

definition files_pass :: "fsys list \<Rightarrow> 'w gateway \<Rightarrow> 'w gateway" where
  "files_pass states g = g\<lparr>gw_fs := hd states, gw_hist := tl states @ gw_hist g\<rparr>"

definition live_load :: "'w route_env \<Rightarrow> fsys \<Rightarrow> string \<Rightarrow> string + config" where
  "live_load e fs path = config_load (\<lambda>q. map_option (rv_toml e) (fs q)) (rv_conv e) (rv_strtod e) (rv_getenv e) path"

definition reply_error :: "'w route_env \<Rightarrow> nat \<Rightarrow> int \<Rightarrow> string \<Rightarrow> http_reply \<Rightarrow> http_reply" where
  "reply_error e sz code msg r = json_error (rv_print e) sz code msg r"

definition reply_json :: "'w route_env \<Rightarrow> nat \<Rightarrow> cjson \<Rightarrow> http_reply \<Rightarrow> http_reply" where
  "reply_json e sz obj r = print_or_500 (rv_print e) sz obj r"

definition ok_json :: string where
  "ok_json = ''{'' @ [dquote] @ ''ok'' @ [dquote] @ '':true}''"

subsection \<open>Health and pairing\<close>

definition handle_health :: "'w route_env \<Rightarrow> nat \<Rightarrow> 'w gateway \<Rightarrow> http_reply \<Rightarrow> http_reply" where
  "handle_health e sz g r =
     reply_json e sz (CObject [(''status'', CString ''ok''), (''uptime'', CNumber (rv_conv e (rv_now e - gw_start_time g))),
       (''version'', CString SHELLCLAW_RELEASE_VERSION)]) r"

text \<open>The code from the body, then from the header, then, in test mode, from the file.\<close>

definition pairing_code_of :: "'w route_env \<Rightarrow> http_args \<Rightarrow> string \<Rightarrow> fsys \<Rightarrow> string" where
  "pairing_code_of e a body fs =
     (let code = (if body = [] then []
                  else case rv_parse e body of
                    None \<Rightarrow> []
                  | Some root \<Rightarrow>
                      let c = (case string_of (cJSON_GetObjectItem root ''code'') of Some s \<Rightarrow> take 15 s | None \<Rightarrow> []) in
                      if c \<noteq> [] then c
                      else case string_of (cJSON_GetObjectItem root ''pairing_code'') of Some s \<Rightarrow> take 15 s | None \<Rightarrow> []);
          code = (if code \<noteq> [] then code else take 15 (ra_pairing_header a)) in
      if code \<noteq> [] then code
      else if rv_getenv e ''SHELLCLAW_TEST_MODE'' = None then []
      else case nonempty (rv_getenv e ''HOME'') of
        None \<Rightarrow> []
      | Some home \<Rightarrow>
          (case fs (buf_trunc 512 (home @ ''/.shellclaw/test_pairing_code'')) of
             None \<Rightarrow> []
           | Some text \<Rightarrow> take 6 (takeWhile is_digit text)))"

definition handle_pair :: "'w route_env \<Rightarrow> http_args \<Rightarrow> string \<Rightarrow> nat \<Rightarrow> 'w gateway \<Rightarrow> http_reply \<Rightarrow> 'w gateway \<times> http_reply" where
  "handle_pair e a body sz g r =
     (let (token, ctx, fs) = auth_pair (rv_parse e) (rv_token_text e) (rv_save e) (rv_token_bytes e) (gw_fs g)
             (gw_auth g) (Some (pairing_code_of e a body (gw_fs g))) 64;
          g' = files_pass [fs, gw_fs g] (g\<lparr>gw_auth := ctx\<rparr>) in
      case token of
        None \<Rightarrow> (g', reply_error e sz 400 ''Invalid pairing code'' r)
      | Some t \<Rightarrow> (g', reply_json e sz (CObject [(''token'', CString t)]) r))"

subsection \<open>The configuration\<close>

definition handle_config_get :: "'w route_env \<Rightarrow> config \<Rightarrow> nat \<Rightarrow> http_reply \<Rightarrow> http_reply" where
  "handle_config_get e cfg sz r =
     reply_json e sz (CObject [(''model'', CString (or_string (agent_model (c_agent cfg)) [])), (''max_tokens'', CNumber (rv_conv e (agent_max_tokens (c_agent cfg)))),
       (''temperature'', CNumber (agent_temperature (c_agent cfg))), (''gateway_host'', CString (config_gateway_host cfg)),
       (''gateway_port'', CNumber (rv_conv e (config_gateway_port cfg)))]) r"

text \<open>\<open>write_all_fd\<close> and \<open>discard_cfg_tmp\<close> repeat the functions of \<open>config_patch.c\<close>.\<close>

definition write_all_cfg :: "(nat \<Rightarrow> int) \<Rightarrow> string \<Rightarrow> string \<Rightarrow> nat \<Rightarrow> fsys list \<Rightarrow> fsys list \<times> bool" where
  "write_all_cfg = write_all"

definition discard_cfg_tmp :: "string \<Rightarrow> fsys list \<Rightarrow> fsys list" where
  "discard_cfg_tmp = discard_file_tmp"

text \<open>The name of the temporary file, or \<open>None\<close> on failure.\<close>

definition write_config_temp :: "save_env \<Rightarrow> string \<Rightarrow> string \<Rightarrow> fsys \<Rightarrow> fsys list \<times> string option" where
  "write_config_temp s path content fs =
     (if length path \<ge> PATH_MAX then ([fs], None)
      else if dirname path = [] then ([fs], None)
      else if length (dirname path @ ''/.sc-cfg-XXXXXX'') \<ge> PATH_MAX then ([fs], None)
      else case se_mkstemp s of
        None \<Rightarrow> ([fs], None)
      | Some tmp \<Rightarrow>
          if \<not> se_fchmod s then (discard_cfg_tmp tmp [fs(tmp \<mapsto> []), fs], None)
          else let (states, written) = write_all_cfg (se_write s) tmp content 0 [fs(tmp \<mapsto> []), fs] in
            if \<not> written \<or> \<not> se_fsync s then (discard_cfg_tmp tmp states, None)
            else if \<not> se_close s then (discard_cfg_tmp tmp states, None)
            else (states, Some tmp))"

text \<open>The text to write: the body itself, or the file with the fields of a JSON body patched in.\<close>

definition config_put_text :: "'w route_env \<Rightarrow> string \<Rightarrow> string \<Rightarrow> fsys \<Rightarrow> fsys list \<times> patch_outcome" where
  "config_put_text e path body fs =
     (if body_is_json_object body
      then config_patch_dashboard_json (rv_parse e) (rv_valueint e) (rv_fmt_g e) (live_load e) (rv_patch_save e) path (cstr body) fs
      else ([fs], Accepted body))"

text \<open>\<open>try_config_reload\<close>, as far as the gateway sees it: the live configuration becomes what the file now says.\<close>

definition reload_live :: "'w route_env \<Rightarrow> string \<Rightarrow> 'w gateway \<Rightarrow> bool \<times> 'w gateway" where
  "reload_live e path g =
     (if \<not> gw_bootstrapped g then (False, g)
      else case live_load e (gw_fs g) path of Inl err \<Rightarrow> (False, g) | Inr cfg \<Rightarrow> (True, g\<lparr>gw_cfg := cfg\<rparr>))"

definition errbuf :: "string \<Rightarrow> string \<Rightarrow> string" where
  "errbuf err dflt = (if err \<noteq> [] then buf_trunc 256 err else dflt)"

definition config_put_save :: "'w route_env \<Rightarrow> string \<Rightarrow> string \<Rightarrow> nat \<Rightarrow> 'w gateway \<Rightarrow> http_reply \<Rightarrow> 'w gateway \<times> http_reply" where
  "config_put_save e path text sz g r =
     (case write_config_temp (rv_save e) path text (gw_fs g) of
        (states, None) \<Rightarrow> (files_pass states g, reply_error e sz 500 ''Failed to write config'' r)
      | (states, Some tmp) \<Rightarrow>
          (case live_load e (hd states) tmp of
             Inl err \<Rightarrow> (files_pass (discard_cfg_tmp tmp states) g, reply_error e sz 400 (errbuf err ''Invalid TOML'') r)
           | Inr cfg \<Rightarrow>
               if \<not> se_rename (rv_save e)
               then (files_pass (discard_cfg_tmp tmp states) g, reply_error e sz 500 ''Failed to save config'' r)
               else let g1 = files_pass ((hd states)(tmp := None, path := hd states tmp) # states) g;
                        (ok, g2) = reload_live e path g1 in
                 if ok then (g2, json_response sz ok_json r) else (g2, reply_error e sz 500 ''Config saved but live reload failed'' r)))"

definition handle_config_put :: "'w route_env \<Rightarrow> string \<Rightarrow> nat \<Rightarrow> 'w gateway \<Rightarrow> http_reply \<Rightarrow> 'w gateway \<times> http_reply" where
  "handle_config_put e body sz g r =
     (case gw_config_path g of
        None \<Rightarrow> (g, reply_error e sz 400 ''Bad request'' r)
      | Some path \<Rightarrow>
          if body = [] then (g, reply_error e sz 400 ''Bad request'' r)
          else if length body > CONFIG_BODY_MAX then (g, reply_error e sz 400 ''Config too large'' r)
          else case config_put_text e path body (gw_fs g) of
            (states, Rejected err) \<Rightarrow> (files_pass states g, reply_error e sz 400 (errbuf err ''Invalid config patch'') r)
          | (states, Memory_error) \<Rightarrow> ((files_pass states g)\<lparr>gw_corrupt := True\<rparr>, r)
          | (states, Accepted text) \<Rightarrow> config_put_save e path text sz (files_pass states g) r)"

subsection \<open>Skills\<close>

definition SKILL_CONTENT_MAX :: nat where "SKILL_CONTENT_MAX = 32768"
definition MEMORY_RESULTS_MAX :: nat where "MEMORY_RESULTS_MAX = 16384"

definition handle_skills_list :: "'w route_env \<Rightarrow> nat \<Rightarrow> 'w gateway \<Rightarrow> http_reply \<Rightarrow> http_reply" where
  "handle_skills_list e sz g r =
     reply_json e sz (CArray (map CString (case skill_list_names (rv_dirs e) (gw_cfg g) 64 of Some names \<Rightarrow> names | None \<Rightarrow> []))) r"

definition skill_too_large :: "'w route_env \<Rightarrow> nat \<Rightarrow> string \<Rightarrow> string \<Rightarrow> http_reply \<Rightarrow> http_reply" where
  "skill_too_large e sz name limit_desc r =
     (let msg = ''skill '' @ [dquote] @ name @ [dquote] @ '' exceeds '' @ limit_desc in
      reply_error e sz 413 (if length msg \<ge> 256 then ''skill exceeds edit buffer'' else msg) r)"

definition skill_get_send :: "'w route_env \<Rightarrow> nat \<Rightarrow> string \<Rightarrow> string \<Rightarrow> http_reply \<Rightarrow> http_reply" where
  "skill_get_send e sz name content r =
     (case rv_print e (CObject [(''name'', CString name), (''content'', CString content)]) of
        None \<Rightarrow> reply_error e sz 500 ''Internal error'' r
      | Some printed \<Rightarrow>
          if length printed \<ge> sz then skill_too_large e sz name (buf_trunc 64 (nat_str sz @ '' byte response buffer'')) r
          else json_response sz printed r)"

definition handle_skill_get :: "'w route_env \<Rightarrow> string \<Rightarrow> nat \<Rightarrow> 'w gateway \<Rightarrow> http_reply \<Rightarrow> http_reply" where
  "handle_skill_get e name sz g r =
     (case skill_get_content (gw_fs g) (gw_cfg g) name SKILL_CONTENT_MAX of
        Inl rc \<Rightarrow> if rc = - 2 then skill_too_large e sz name (buf_trunc 64 (nat_str (SKILL_CONTENT_MAX - 1) @ '' byte edit buffer'')) r
                  else reply_error e sz 404 ''Skill not found'' r
      | Inr content \<Rightarrow> skill_get_send e sz name content r)"

text \<open>The status 201 that \<open>handle_skill_create\<close> sets is overwritten by \<open>json_response\<close>.\<close>

definition handle_skill_create :: "'w route_env \<Rightarrow> string \<Rightarrow> nat \<Rightarrow> 'w gateway \<Rightarrow> http_reply \<Rightarrow> 'w gateway \<times> http_reply" where
  "handle_skill_create e body sz g r =
     (case rv_parse e body of
        None \<Rightarrow> (g, reply_error e sz 400 ''Invalid JSON'' r)
      | Some root \<Rightarrow>
          (case (string_of (cJSON_GetObjectItem root ''name''), string_of (cJSON_GetObjectItem root ''content'')) of
             (Some name, Some content) \<Rightarrow>
               (let (states, ok) = skill_create (rv_save e) (gw_cfg g) name content (gw_fs g); g' = files_pass states g in
                if \<not> ok then (g', reply_error e sz 500 ''Failed to create skill'' r)
                else (g', json_response sz ok_json (r\<lparr>rp_status := 201\<rparr>)))
           | _ \<Rightarrow> (g, reply_error e sz 400 ''name and content required'' r)))"

definition handle_skill_update :: "'w route_env \<Rightarrow> string \<Rightarrow> string \<Rightarrow> nat \<Rightarrow> 'w gateway \<Rightarrow> http_reply \<Rightarrow> 'w gateway \<times> http_reply" where
  "handle_skill_update e name body sz g r =
     (case rv_parse e body of
        None \<Rightarrow> (g, reply_error e sz 400 ''Invalid JSON'' r)
      | Some root \<Rightarrow>
          (case string_of (cJSON_GetObjectItem root ''content'') of
             None \<Rightarrow> (g, reply_error e sz 400 ''content required'' r)
           | Some content \<Rightarrow>
               (let (states, ok) = skill_update (rv_save e) (gw_cfg g) name content (gw_fs g); g' = files_pass states g in
                if \<not> ok then (g', reply_error e sz 500 ''Failed to update skill'' r) else (g', json_response sz ok_json r))))"

definition handle_skill_delete :: "'w route_env \<Rightarrow> string \<Rightarrow> nat \<Rightarrow> 'w gateway \<Rightarrow> http_reply \<Rightarrow> 'w gateway \<times> http_reply" where
  "handle_skill_delete e name sz g r =
     (let (states, ok) = skill_delete (rv_remove e) (gw_cfg g) name (gw_fs g); g' = files_pass states g in
      if \<not> ok then (g', reply_error e sz 404 ''Skill not found'' r) else (g', json_response sz ok_json r))"

subsection \<open>Memory, sessions and jobs\<close>

definition handle_memory_get :: "'w route_env \<Rightarrow> string option \<Rightarrow> int \<Rightarrow> nat \<Rightarrow> 'w gateway \<Rightarrow> http_reply \<Rightarrow> http_reply" where
  "handle_memory_get e query limit sz g r =
     (case memory_recall (rv_match e) (or_string query []) MEMORY_RESULTS_MAX (if limit > 0 then limit else 20) (ds_db (gw_store g)) of
        None \<Rightarrow> reply_error e sz 500 ''Memory recall failed'' r
      | Some results \<Rightarrow> reply_json e sz (CObject [(''results'', CString results)]) r)"

definition handle_sessions_list :: "'w route_env \<Rightarrow> nat \<Rightarrow> 'w gateway \<Rightarrow> http_reply \<Rightarrow> http_reply" where
  "handle_sessions_list e sz g r =
     reply_json e sz (CArray (map CString (case session_list 64 (ds_db (gw_store g)) of Some ids \<Rightarrow> ids | None \<Rightarrow> []))) r"

definition handle_session_delete :: "'w route_env \<Rightarrow> string \<Rightarrow> nat \<Rightarrow> 'w gateway \<Rightarrow> http_reply \<Rightarrow> 'w gateway \<times> http_reply" where
  "handle_session_delete e i sz g r =
     (let (rc, st) = dispatch_delete_session (Some i) (gw_store g); g' = g\<lparr>gw_store := st\<rparr> in
      if rc \<noteq> 0 then (g', reply_error e sz 404 ''Session not found'' r) else (g', json_response sz ok_json r))"

definition cron_row_json :: "(int \<Rightarrow> 64 word) \<Rightarrow> cron_job_row \<Rightarrow> cjson" where
  "cron_row_json conv row =
     CObject [(''id'', CString (jr_id row)), (''schedule'', CString (jr_schedule row)), (''message'', CString (jr_message row)),
       (''channel'', CString (jr_channel row)), (''recipient'', CString (jr_recipient row)), (''next_run'', CNumber (conv (jr_next_run row))),
       (''enabled'', if jr_enabled row \<noteq> 0 then CTrue else CFalse)]"

definition handle_cron_list :: "'w route_env \<Rightarrow> nat \<Rightarrow> 'w gateway \<Rightarrow> http_reply \<Rightarrow> http_reply" where
  "handle_cron_list e sz g r =
     (case cron_job_list 64 (ds_db (gw_store g)) of
        None \<Rightarrow> reply_error e sz 500 ''Internal error'' r
      | Some rows \<Rightarrow> reply_json e sz (CArray (map (cron_row_json (rv_conv e)) rows)) r)"

definition handle_cron_create :: "'w route_env \<Rightarrow> string \<Rightarrow> nat \<Rightarrow> 'w gateway \<Rightarrow> http_reply \<Rightarrow> 'w gateway \<times> http_reply" where
  "handle_cron_create e body sz g r =
     (case rv_parse e body of
        None \<Rightarrow> (g, reply_error e sz 400 ''Invalid JSON'' r)
      | Some root \<Rightarrow>
          (case (string_of (cJSON_GetObjectItem root ''schedule''), string_of (cJSON_GetObjectItem root ''message'')) of
             (Some schedule, Some message) \<Rightarrow>
               (let i = (case string_of (cJSON_GetObjectItem root ''id'') of Some s \<Rightarrow> take 127 s | None \<Rightarrow> []);
                    (rc, jid, db) = cron_create_job (rv_localtime e) schedule message (string_of (cJSON_GetObjectItem root ''channel''))
                      (string_of (cJSON_GetObjectItem root ''recipient'')) i 128 (rv_job_bytes e) (rv_now e) (ds_db (gw_store g));
                    g' = g\<lparr>gw_store := (gw_store g)\<lparr>ds_db := db\<rparr>\<rparr> in
                if rc \<noteq> 0 then (g', reply_error e sz 400 ''Failed to create job'' r)
                else case json_print_to_buf (rv_print e) sz (CObject [(''ok'', CTrue), (''id'', CString jid)]) r of
                  (True, r') \<Rightarrow> (g', r'\<lparr>rp_status := 201\<rparr>)
                | (False, r') \<Rightarrow> (g', r'))
           | _ \<Rightarrow> (g, reply_error e sz 400 ''schedule and message required'' r)))"

definition handle_cron_delete :: "'w route_env \<Rightarrow> string \<Rightarrow> nat \<Rightarrow> 'w gateway \<Rightarrow> http_reply \<Rightarrow> 'w gateway \<times> http_reply" where
  "handle_cron_delete e i sz g r =
     (let (rc, db) = cron_job_delete i (ds_db (gw_store g)); g' = g\<lparr>gw_store := (gw_store g)\<lparr>ds_db := db\<rparr>\<rparr> in
      if rc \<noteq> 0 then (g', reply_error e sz 404 ''Job not found'' r) else (g', json_response sz ok_json r))"

definition handle_cron_toggle :: "'w route_env \<Rightarrow> string \<Rightarrow> nat \<Rightarrow> 'w gateway \<Rightarrow> http_reply \<Rightarrow> 'w gateway \<times> http_reply" where
  "handle_cron_toggle e i sz g r =
     (let (rc, db) = cron_job_toggle i (ds_db (gw_store g)); g' = g\<lparr>gw_store := (gw_store g)\<lparr>ds_db := db\<rparr>\<rparr> in
      if rc \<noteq> 0 then (g', reply_error e sz 404 ''Job not found'' r) else (g', json_response sz ok_json r))"

subsection \<open>ASAP\<close>

definition log_entry_json :: "'w route_env \<Rightarrow> asap_log_entry \<Rightarrow> cjson" where
  "log_entry_json e x =
     CObject ([(''timestamp'', CString (rv_utc e (le_ts x))), (''direction'', CString (if le_direction x = ASAP_LOG_DIR_IN then ''in'' else ''out'')),
       (''payload_type'', CString (le_payload_type x)), (''id'', CString (le_id x))] @
       (if le_json_snippet x \<noteq> [] then [(''snippet'', CString (le_json_snippet x))] else []))"

definition handle_asap_log_get :: "'w route_env \<Rightarrow> nat \<Rightarrow> 'w gateway \<Rightarrow> http_reply \<Rightarrow> http_reply" where
  "handle_asap_log_get e sz g r =
     (if sz = 0 then r
      else reply_json e sz (CObject [(''entries'', CArray (map (log_entry_json e) (asap_log_get_snapshot (int ASAP_LOG_RING_SIZE) (gw_log g))))]) r)"

definition SHELLCLAW_MAX_TOOLS :: nat where "SHELLCLAW_MAX_TOOLS = 16"

definition bootstrap_fill_agent_tools :: "'w agent_tool list \<Rightarrow> nat \<Rightarrow> 'w agent_tool list" where
  "bootstrap_fill_agent_tools tools cap = take cap tools"

definition asap_ctx_bind_bootstrap :: "'w route_env \<Rightarrow> 'w gateway \<Rightarrow> 'w asap_server_ctx" where
  "asap_ctx_bind_bootstrap e g =
     \<lparr>sx_cfg = Some (gw_cfg g), sx_agent = rv_agent e, sx_tools = bootstrap_fill_agent_tools (rv_tools e) SHELLCLAW_MAX_TOOLS,
      sx_task_request_hook = None, sx_tool_call_hook = None, sx_state_query_hook = None\<rparr>"

text \<open>The message after it has been parsed: logged, handled and answered.\<close>

definition asap_answer :: "'w route_env \<Rightarrow> asap_envelope \<Rightarrow> nat \<Rightarrow> 'w gateway \<Rightarrow> http_reply \<Rightarrow> 'w gateway \<times> http_reply" where
  "asap_answer e inp sz g r =
     (let g1 = g\<lparr>gw_log := asap_log_append_in (rv_now e) (payload_type inp) (env_id inp) (Option.bind (payload inp) (rv_print e)) (gw_log g)\<rparr>;
          ((rc, err, out), (db, w)) = asap_server_handle (rv_conv e) (rv_print e) (rv_ulid e) inp (asap_ctx_bind_bootstrap e g)
             (ds_db (gw_store g), ds_world (gw_store g));
          g2 = g1\<lparr>gw_store := (gw_store g)\<lparr>ds_db := db, ds_world := w\<rparr>\<rparr> in
      if rc \<noteq> 0 then (g2, jsonrpc_error (rv_print e) (rv_conv e) sz 400 rc (errbuf err ''handler error'') r)
      else case asap_envelope_to_jsonrpc_string (rv_print e) out None of
        None \<Rightarrow> (g2, jsonrpc_error (rv_print e) (rv_conv e) sz 500 (- 32603) ''failed to serialize response'' r)
      | Some resp_json \<Rightarrow>
          (case write_asap_jsonrpc (rv_print e) (rv_conv e) sz resp_json r of
             (False, r') \<Rightarrow> (g2, r')
           | (True, r') \<Rightarrow>
               (g2\<lparr>gw_log := asap_log_append_out (rv_now e) (payload_type out) (env_id out) (Option.bind (payload out) (rv_print e)) (gw_log g2)\<rparr>, r')))"

definition handle_asap :: "'w route_env \<Rightarrow> string \<Rightarrow> string \<Rightarrow> nat \<Rightarrow> 'w gateway \<Rightarrow> http_reply \<Rightarrow> 'w gateway \<times> http_reply" where
  "handle_asap e client_ip body sz g r =
     (let (t, limited) = rate_limit_asap (Some client_ip) (rv_now e) (gw_rates g); g1 = g\<lparr>gw_rates := t\<rparr> in
      if limited then (g1, jsonrpc_error (rv_print e) (rv_conv e) sz 429 (- 32000) ''rate limit exceeded'' r)
      else case asap_envelope_parse (rv_conv e) (rv_parse e) (cstr body) of
        Inl parse_err \<Rightarrow>
          (g1, jsonrpc_error (rv_print e) (rv_conv e) sz 400 (- 32700) (or_string (Option.bind parse_err (rv_print e)) ''parse error'') r)
      | Inr inp \<Rightarrow> asap_answer e inp sz g1 r)"

definition handle_well_known :: "'w route_env \<Rightarrow> string \<Rightarrow> int \<Rightarrow> nat \<Rightarrow> 'w gateway \<Rightarrow> http_reply \<Rightarrow> 'w gateway \<times> http_reply" where
  "handle_well_known e uri uri_len sz g r =
     (if uri_exact_eq uri uri_len ''/.well-known/asap/manifest.json'' then
        (case manifest_keys_ensure_loaded (rv_getenv e) (rv_keys_dir e) (rv_keypair e) (gw_keys g) of
           (Some err, k) \<Rightarrow> (g\<lparr>gw_keys := k\<rparr>, reply_error e sz 500 ''Signing key unavailable'' r)
         | (None, k) \<Rightarrow>
             (case fst (manifest_build_signed_json (rv_sign e) (rv_fmt e) (fst \<circ> rv_strtod e) (rv_print e) k (rv_getenv e) (fst (rv_compatible e))
                          (snd (rv_compatible e)) (gw_fs g) (rv_dirs e) (gw_cfg g) (rv_alloc e) 0) of
                None \<Rightarrow> (g\<lparr>gw_keys := k\<rparr>, reply_error e sz 500 ''Internal error'' r)
              | Some json \<Rightarrow> (g\<lparr>gw_keys := k\<rparr>, json_response sz json r)))
      else if uri_exact_eq uri uri_len ''/.well-known/asap/health'' then (g, json_response sz manifest_health_json r)
      else (g, reply_error e sz 404 ''Not found'' r))"

definition handle_api_status :: "'w route_env \<Rightarrow> nat \<Rightarrow> http_reply \<Rightarrow> http_reply" where
  "handle_api_status e sz r =
     (case Option.bind (rv_provider_status e) (rv_parse e) of
        None \<Rightarrow> reply_error e sz 500 ''Internal error'' r
      | Some root \<Rightarrow>
          (let (lifecycle, reason) = rv_discord e in
           reply_json e sz (cJSON_AddItemToObject root ''discord'' (CObject ((''lifecycle'', CString lifecycle) #
             (if reason \<noteq> [] then [(''reason'', CString reason)] else [])))) r))"

definition handle_api_context_snapshot :: "'w route_env \<Rightarrow> nat \<Rightarrow> http_reply \<Rightarrow> http_reply" where
  "handle_api_context_snapshot e sz r =
     (case rv_context e of None \<Rightarrow> reply_error e sz 500 ''Internal error'' r | Some snapshot \<Rightarrow> json_response sz snapshot r)"

subsection \<open>Hardware\<close>

fun board_display_name :: "board_id \<Rightarrow> string" where
  "board_display_name BOARD_JETSON_ORIN_NANO = ''Jetson Orin Nano Super''"
| "board_display_name BOARD_RPI_ZERO2W = ''Raspberry Pi Zero 2 W''"
| "board_display_name BOARD_STUB = ''Stub''"
| "board_display_name BOARD_UNKNOWN = ''Unknown''"

fun gpio_backend_string :: "gpio_backend \<Rightarrow> string" where
  "gpio_backend_string HARDWARE_GPIO_BACKEND_LIBGPIOD = ''libgpiod''"
| "gpio_backend_string HARDWARE_GPIO_BACKEND_STUB = ''stub''"
| "gpio_backend_string HARDWARE_GPIO_BACKEND_UNAVAILABLE = ''none''"

definition camera_backend_string :: "hw_env \<Rightarrow> config \<Rightarrow> board_id \<Rightarrow> string" where
  "camera_backend_string h cfg board =
     (if \<not> hw_camera_backend h then ''none''
      else if config_hardware_camera_type cfg = ''usb'' then ''v4l2''
      else if board = BOARD_JETSON_ORIN_NANO then ''nvargus''
      else if board = BOARD_RPI_ZERO2W then ''libcamera''
      else ''none'')"

definition handle_hardware_board :: "'w route_env \<Rightarrow> config \<Rightarrow> nat \<Rightarrow> http_reply \<Rightarrow> http_reply" where
  "handle_hardware_board e cfg sz r =
     (let h = rv_hw e; board = hw_board h in
      reply_json e sz (CObject [(''id'', CString (board_name board)), (''name'', CString (board_display_name board)),
        (''backends'', CObject [(''gpio'', CString (gpio_backend_string (hw_gpio_backend h))),
           (''i2c'', CString (if hw_i2c_backend h then ''linux'' else ''none'')),
           (''camera'', CString (camera_backend_string h cfg board))])]) r)"

definition handle_hardware_gpio :: "'w route_env \<Rightarrow> nat \<Rightarrow> http_reply \<Rightarrow> http_reply" where
  "handle_hardware_gpio e sz r =
     (case hw_gpio_snapshot (rv_hw e) of
        Inl err \<Rightarrow> reply_error e sz 503 (errbuf err ''GPIO unavailable'') r
      | Inr pins \<Rightarrow> reply_json e sz (CObject [(''pins'', CArray pins)]) r)"

definition handle_hardware_i2c_scan :: "'w route_env \<Rightarrow> config \<Rightarrow> nat \<Rightarrow> http_reply \<Rightarrow> http_reply" where
  "handle_hardware_i2c_scan e cfg sz r =
     (let h = rv_hw e; bus = hw_i2c_bus h cfg in
      if \<not> hw_i2c_backend h \<or> \<not> hw_i2c_available h then reply_error e sz 503 ''I2C backend not available'' r
      else case hw_i2c_scan h bus of
        Inl err \<Rightarrow> reply_error e sz 503 (errbuf err ''I2C scan failed'') r
      | Inr addrs \<Rightarrow>
          reply_json e sz (CObject [(''bus'', CNumber (rv_conv e bus)), (''addresses'', CArray (map (\<lambda>a. CNumber (rv_conv e (int a))) addrs))]) r)"

definition DEFERRED_SENSORS_MSG :: string where "DEFERRED_SENSORS_MSG = ''sensor decoders ship in v1.2 (Phase 7)''"
definition DEFERRED_CAMERA_MSG :: string where "DEFERRED_CAMERA_MSG = ''camera image return path ships in v1.2 (Phase 7)''"

definition handle_hardware_deferred_v12 :: "'w route_env \<Rightarrow> string \<Rightarrow> nat \<Rightarrow> http_reply \<Rightarrow> http_reply" where
  "handle_hardware_deferred_v12 e message sz r =
     reply_json e sz (CObject [(''status'', CString ''deferred_v12''), (''message'', CString message)]) r"

definition handle_hardware_gpu :: "'w route_env \<Rightarrow> nat \<Rightarrow> http_reply \<Rightarrow> http_reply" where
  "handle_hardware_gpu e sz r =
     (let unavailable = (\<lambda>reason. CObject [(''available'', CFalse), (''reason'', CString reason)]) in
      reply_json e sz (if hw_board (rv_hw e) \<noteq> BOARD_JETSON_ORIN_NANO then unavailable ''non-jetson board''
        else case hw_gpu_json (rv_hw e) of
          Inl err \<Rightarrow> unavailable (errbuf err ''tegrastats unavailable'')
        | Inr gpu \<Rightarrow> CObject gpu) r)"

text \<open>An entry of the route table: whether it answers only to POST, and its handler.\<close>

definition hw_routes :: "'w route_env \<Rightarrow> config \<Rightarrow> nat \<Rightarrow> (string \<times> bool \<times> (http_reply \<Rightarrow> http_reply)) list" where
  "hw_routes e cfg sz =
     [(''/api/hardware/board'', False, handle_hardware_board e cfg sz), (''/api/hardware/gpio'', False, handle_hardware_gpio e sz),
      (''/api/hardware/i2c-scan'', False, handle_hardware_i2c_scan e cfg sz), (''/api/hardware/gpu'', False, handle_hardware_gpu e sz),
      (''/api/hardware/sensors'', False, handle_hardware_deferred_v12 e DEFERRED_SENSORS_MSG sz),
      (''/api/hardware/camera/snapshot'', True, handle_hardware_deferred_v12 e DEFERRED_CAMERA_MSG sz)]"

definition routes_hardware_dispatch ::
  "'w route_env \<Rightarrow> http_method \<Rightarrow> string \<Rightarrow> int \<Rightarrow> nat \<Rightarrow> 'w gateway \<Rightarrow> http_reply \<Rightarrow> http_reply option" where
  "routes_hardware_dispatch e meth uri uri_len sz g r =
     (if uri_len \<le> 0 then None
      else case find (\<lambda>route. uri_exact_eq uri uri_len (fst route)) (hw_routes e (gw_cfg g) sz) of
        None \<Rightarrow> None
      | Some (path, post_only, handler) \<Rightarrow>
          Some (if meth = (if post_only then HTTP_POST else HTTP_GET) then handler r else reply_error e sz 405 ''Method not allowed'' r))"

subsection \<open>Dispatch\<close>

definition not_allowed :: "'w route_env \<Rightarrow> nat \<Rightarrow> 'w gateway \<Rightarrow> http_reply \<Rightarrow> 'w gateway \<times> http_reply" where
  "not_allowed e sz g r = (g, reply_error e sz 405 ''Method not allowed'' r)"

definition route_pair :: "'w route_env \<Rightarrow> http_args \<Rightarrow> string \<Rightarrow> nat \<Rightarrow> 'w gateway \<Rightarrow> http_reply \<Rightarrow> 'w gateway \<times> http_reply" where
  "route_pair e a body sz g r =
     (case auth_pair_check_lockout (Some (ra_ip a)) (rv_now e) (gw_auth g) of
        (True, ctx) \<Rightarrow> (g\<lparr>gw_auth := ctx\<rparr>, reply_error e sz 429 ''Too many failed attempts'' r)
      | (False, ctx) \<Rightarrow>
          (let (g', r') = handle_pair e a body sz (g\<lparr>gw_auth := ctx\<rparr>) r in
           (g'\<lparr>gw_auth := (if rp_status r' = 200 then auth_pair_clear_ip (Some (ra_ip a)) (gw_auth g')
                           else auth_pair_record_failure (Some (ra_ip a)) (rv_now e) (gw_auth g'))\<rparr>, r')))"

definition route_skill :: "'w route_env \<Rightarrow> http_method \<Rightarrow> string \<Rightarrow> int \<Rightarrow> string \<Rightarrow> nat \<Rightarrow> 'w gateway \<Rightarrow> http_reply \<Rightarrow> 'w gateway \<times> http_reply" where
  "route_skill e meth uri uri_len body sz g r =
     (case extract_path_param uri uri_len ''/api/skills/'' 128 of
        None \<Rightarrow> (g, reply_error e sz 404 ''Not found'' r)
      | Some name \<Rightarrow>
          if meth = HTTP_GET then (g, handle_skill_get e name sz g r)
          else if meth = HTTP_PUT then handle_skill_update e name body sz g r
          else if meth = HTTP_DELETE then handle_skill_delete e name sz g r
          else not_allowed e sz g r)"

definition route_memory :: "'w route_env \<Rightarrow> http_args \<Rightarrow> http_method \<Rightarrow> nat \<Rightarrow> 'w gateway \<Rightarrow> http_reply \<Rightarrow> 'w gateway \<times> http_reply" where
  "route_memory e a meth sz g r =
     (if meth \<noteq> HTTP_GET then not_allowed e sz g r
      else let qbuf = buf_trunc 256 (ra_urlarg a ''q''); lbuf = buf_trunc 32 (ra_urlarg a ''limit'') in
        (g, handle_memory_get e (if qbuf = [] then None else Some qbuf) (parse_memory_limit_arg (if lbuf = [] then None else Some lbuf)) sz g r))"

definition route_session :: "'w route_env \<Rightarrow> http_method \<Rightarrow> string \<Rightarrow> int \<Rightarrow> nat \<Rightarrow> 'w gateway \<Rightarrow> http_reply \<Rightarrow> 'w gateway \<times> http_reply" where
  "route_session e meth uri uri_len sz g r =
     (if meth \<noteq> HTTP_DELETE then not_allowed e sz g r
      else case extract_path_param uri uri_len ''/api/sessions/'' 128 of
        None \<Rightarrow> (g, reply_error e sz 404 ''Not found'' r)
      | Some i \<Rightarrow> handle_session_delete e i sz g r)"

definition route_job :: "'w route_env \<Rightarrow> http_method \<Rightarrow> string \<Rightarrow> int \<Rightarrow> nat \<Rightarrow> 'w gateway \<Rightarrow> http_reply \<Rightarrow> 'w gateway \<times> http_reply" where
  "route_job e meth uri uri_len sz g r =
     (case extract_path_param uri uri_len ''/api/cron/'' 128 of
        None \<Rightarrow> (g, reply_error e sz 404 ''Not found'' r)
      | Some i \<Rightarrow>
          (let suf = length ''/api/cron/'' + length i;
               is_toggle = (uri_len = int (suf + 7) \<and> prefix ''/toggle'' (drop suf uri)) in
           if is_toggle then (if meth = HTTP_POST then handle_cron_toggle e i sz g r else not_allowed e sz g r)
           else if meth = HTTP_DELETE then handle_cron_delete e i sz g r
           else not_allowed e sz g r))"

definition dispatch_route ::
  "'w route_env \<Rightarrow> http_args \<Rightarrow> http_method \<Rightarrow> string \<Rightarrow> int \<Rightarrow> string \<Rightarrow> nat \<Rightarrow> 'w gateway \<Rightarrow> http_reply \<Rightarrow> 'w gateway \<times> http_reply" where
  "dispatch_route e a meth uri uri_len body sz g r =
     (if uri_exact_eq uri uri_len ''/health'' then (g, handle_health e sz g r)
      else if uri_exact_eq uri uri_len ''/pair'' \<and> meth = HTTP_POST then route_pair e a body sz g r
      else if uri_has_prefix uri uri_len ''/.well-known/'' then handle_well_known e uri uri_len sz g r
      else if uri_exact_eq uri uri_len ''/api/config'' then
        (if meth = HTTP_GET then (g, handle_config_get e (gw_cfg g) sz r)
         else if meth = HTTP_PUT then handle_config_put e body sz g r
         else not_allowed e sz g r)
      else if uri_exact_eq uri uri_len ''/api/status'' then
        (if meth = HTTP_GET then (g, handle_api_status e sz r) else not_allowed e sz g r)
      else if uri_exact_eq uri uri_len ''/api/context/snapshot'' then
        (if meth = HTTP_GET then (g, handle_api_context_snapshot e sz r) else not_allowed e sz g r)
      else if uri_exact_eq uri uri_len ''/api/skills'' then
        (if meth = HTTP_GET then (g, handle_skills_list e sz g r)
         else if meth = HTTP_POST then handle_skill_create e body sz g r
         else not_allowed e sz g r)
      else if uri_has_prefix uri uri_len ''/api/skills/'' then route_skill e meth uri uri_len body sz g r
      else if uri_has_prefix uri uri_len ''/api/memory'' then route_memory e a meth sz g r
      else if uri_exact_eq uri uri_len ''/api/sessions'' then
        (if meth = HTTP_GET then (g, handle_sessions_list e sz g r) else not_allowed e sz g r)
      else if uri_has_prefix uri uri_len ''/api/sessions/'' then route_session e meth uri uri_len sz g r
      else if uri_exact_eq uri uri_len ''/api/cron'' then
        (if meth = HTTP_GET then (g, handle_cron_list e sz g r)
         else if meth = HTTP_POST then handle_cron_create e body sz g r
         else not_allowed e sz g r)
      else if uri_has_prefix uri uri_len ''/api/cron/'' then route_job e meth uri uri_len sz g r
      else if uri_exact_eq uri uri_len ''/api/asap/log'' then
        (if meth = HTTP_GET then (g, handle_asap_log_get e sz g r) else not_allowed e sz g r)
      else case routes_hardware_dispatch e meth uri uri_len sz g r of
        Some r' \<Rightarrow> (g, r')
      | None \<Rightarrow>
          if uri_exact_eq uri uri_len ''/asap'' \<and> meth = HTTP_POST then handle_asap e (ra_ip a) body sz g r
          else (g, reply_error e sz 404 ''Not found'' r))"

section \<open>What a handler leaves alone\<close>

lemmas reply_defs = reply_error_def reply_json_def not_allowed_def

lemma files_pass_simps [simp]:
  "gw_cfg (files_pass st g) = gw_cfg g" "gw_bootstrapped (files_pass st g) = gw_bootstrapped g" "gw_auth (files_pass st g) = gw_auth g"
  "gw_config_path (files_pass st g) = gw_config_path g" "gw_fs (files_pass st g) = hd st" "gw_hist (files_pass st g) = tl st @ gw_hist g"
  "gw_store (files_pass st g) = gw_store g" "gw_rates (files_pass st g) = gw_rates g" "gw_log (files_pass st g) = gw_log g"
  "gw_keys (files_pass st g) = gw_keys g" "gw_corrupt (files_pass st g) = gw_corrupt g"
  by (simp_all add: files_pass_def)

text \<open>Only the store: the configuration and the files of two states agree.\<close>

definition same_files :: "'w gateway \<Rightarrow> 'w gateway \<Rightarrow> bool" where
  "same_files g g' \<longleftrightarrow> gw_cfg g' = gw_cfg g \<and> gw_config_path g' = gw_config_path g \<and> gw_fs g' = gw_fs g \<and> gw_hist g' = gw_hist g"

lemma same_files_simps [simp]:
  "same_files g g" "same_files g (g\<lparr>gw_store := st\<rparr>)" "same_files g (fst (not_allowed e sz g r))"
  by (simp_all add: same_files_def not_allowed_def)

lemma same_files_handlers [simp]:
  "same_files g (fst (handle_session_delete e i sz g r))" "same_files g (fst (handle_cron_delete e i sz g r))"
  "same_files g (fst (handle_cron_toggle e i sz g r))"
  by (simp_all add: handle_session_delete_def handle_cron_delete_def handle_cron_toggle_def Let_def split: option.split prod.split)

lemma same_files_cron_create [simp]: "same_files g (fst (handle_cron_create e body sz g r))"
  by (simp add: handle_cron_create_def Let_def split: option.split prod.split bool.split)

lemma same_files_well_known [simp]: "same_files g (fst (handle_well_known e uri n sz g r))"
  by (auto simp: same_files_def handle_well_known_def Let_def split: option.splits prod.splits if_splits)

lemma same_files_session [simp]: "same_files g (fst (route_session e meth uri n sz g r))"
  by (auto simp: route_session_def Let_def split: option.splits prod.splits if_splits bool.splits)

lemma same_files_memory [simp]: "same_files g (fst (route_memory e a meth sz g r))"
  by (auto simp: same_files_def not_allowed_def route_memory_def Let_def split: option.splits prod.splits if_splits bool.splits)

lemma same_files_job [simp]: "same_files g (fst (route_job e meth uri n sz g r))"
  by (auto simp: route_job_def Let_def split: option.splits prod.splits if_splits bool.splits)

lemmas same_files_all = same_files_simps same_files_handlers same_files_cron_create same_files_well_known same_files_session same_files_memory same_files_job

lemma asap_same_files [simp]: "same_files g (fst (handle_asap e ip body sz g r))"
  by (auto simp: same_files_def handle_asap_def asap_answer_def Let_def split: option.splits sum.splits prod.splits if_splits bool.splits)

text \<open>Exactly the table of hardware routes lies under \<open>/api/\<close>.\<close>

lemma hardware_under_api: "routes_hardware_dispatch e meth uri n sz g r = Some r' \<Longrightarrow> uri_has_prefix uri n ''/api/''"
  by (auto simp: routes_hardware_dispatch_def hw_routes_def exact_has_prefix split: if_splits option.splits)

section \<open>Pairing\<close>

lemma auth_pair_fs:
  assumes "auth_pair parse print s raw fs ctx code n = (tok, ctx', fs')" "se_mkstemp s \<noteq> Some q" "q \<noteq> tokens_path ctx"
  shows "fs' q = fs q" "tokens_path ctx' = tokens_path ctx" "lockout ctx' = lockout ctx"
proof -
  have f: "hd (fst (write_tokens_atomic s p json fs)) q = fs q" if "q \<noteq> p" for p json
  proof -
    have "fst (write_tokens_atomic s p json fs) \<noteq> []"
      using write_tokens_atomic_shape [of s p json fs] by (cases rule: atomic_outcome.cases) (auto simp: discard_file_tmp_def)
    then show ?thesis using tokens_writer.replace_frame [of _ s p json fs q] assms(2) that hd_in_set by blast
  qed
  show "fs' q = fs q" "tokens_path ctx' = tokens_path ctx" "lockout ctx' = lockout ctx"
    using assms(1,3) f [of "tokens_path ctx"]
    by (auto simp: auth_pair_def Let_def split: option.splits if_splits prod.splits) (metis fst_conv)+
qed

lemma lockout_keeps [simp]:
  "tokens_path (snd (auth_pair_check_lockout ip now ctx)) = tokens_path ctx" "pending_pairing_code (snd (auth_pair_check_lockout ip now ctx)) = pending_pairing_code ctx"
  "tokens_path (auth_pair_clear_ip ip ctx) = tokens_path ctx" "tokens_path (auth_pair_record_failure ip now ctx) = tokens_path ctx"
  "pending_pairing_code (auth_pair_clear_ip ip ctx) = pending_pairing_code ctx" "pending_pairing_code (auth_pair_record_failure ip now ctx) = pending_pairing_code ctx"
  by (auto simp: auth_pair_check_lockout_def auth_pair_clear_ip_def auth_pair_record_failure_def Let_def split: prod.splits)

lemma code_is_pending:
  assumes "is_valid_6digit c" "constant_time_cmp c pending 6"
  shows "take 6 pending = c"
proof (rule nth_equalityI)
  have c: "length c = 6" "\<And>i. i < 6 \<Longrightarrow> is_digit (ch c i)" using assms(1) by (auto simp: is_valid_6digit_def PAIRING_CODE_LEN_def list_all_iff)
  have same: "ch pending i = ch c i" if "i < 6" for i using assms(2) that by (simp add: constant_time_cmp_iff)
  have len: "6 \<le> length pending"
  proof (rule ccontr)
    assume "\<not> 6 \<le> length pending"
    then have "ch c 5 = nul" using same [of 5] by (simp add: ch_def)
    then show False using c(2) [of 5] by (simp add: is_digit_def nul_def less_eq_char_def)
  qed
  then show "length (take 6 pending) = length c" using c(1) by simp
  show "take 6 pending ! i = c ! i" if "i < length (take 6 pending)" for i
    using same [of i] that len c(1) by (simp add: ch_def)
qed

lemma handle_pair_effect:
  assumes "handle_pair e a body sz g r = (g', r')" "fresh_tmp (rv_save e) (tokens_path (gw_auth g)) (gw_fs g)" "0 < sz"
  shows "gw_cfg g' = gw_cfg g" "gw_store g' = gw_store g" "gw_config_path g' = gw_config_path g" "gw_hist g' = gw_fs g # gw_hist g"
    "gw_fs g' = gw_fs g \<or> (\<exists>pending text. pending_pairing_code (gw_auth g) = Some pending \<and> take 6 pending = pairing_code_of e a body (gw_fs g) \<and>
       gw_fs g' = (gw_fs g)(tokens_path (gw_auth g) \<mapsto> text) \<and> pending_pairing_code (gw_auth g') = None)"
proof -
  let ?code = "pairing_code_of e a body (gw_fs g)"
  obtain tok ctx fs where p: "auth_pair (rv_parse e) (rv_token_text e) (rv_save e) (rv_token_bytes e) (gw_fs g) (gw_auth g) (Some ?code) 64 = (tok, ctx, fs)"
    by (metis surj_pair)
  have g': "g' = files_pass [fs, gw_fs g] (g\<lparr>gw_auth := ctx\<rparr>)" using assms(1) p by (auto simp: handle_pair_def Let_def split: option.splits)
  then show "gw_cfg g' = gw_cfg g" "gw_store g' = gw_store g" "gw_config_path g' = gw_config_path g" "gw_hist g' = gw_fs g # gw_hist g" by simp_all
  show "gw_fs g' = gw_fs g \<or> (\<exists>pending text. pending_pairing_code (gw_auth g) = Some pending \<and> take 6 pending = ?code \<and>
       gw_fs g' = (gw_fs g)(tokens_path (gw_auth g) \<mapsto> text) \<and> pending_pairing_code (gw_auth g') = None)"
  proof (cases tok)
    case None
    then show ?thesis using auth_pair_failure [OF p [unfolded None] assms(2)] g' by simp
  next
    case (Some t)
    show ?thesis
      by (rule auth_pair_success [OF p [unfolded Some] assms(2)]) (use g' code_is_pending in fastforce)
  qed
qed

lemma route_pair_effect:
  assumes "route_pair e a body sz g r = (g', r')" "fresh_tmp (rv_save e) (tokens_path (gw_auth g)) (gw_fs g)" "0 < sz"
  shows "gw_cfg g' = gw_cfg g" "gw_store g' = gw_store g" "gw_config_path g' = gw_config_path g" "set (gw_hist g') \<subseteq> insert (gw_fs g) (set (gw_hist g))"
    "gw_fs g' = gw_fs g \<or> (\<exists>pending text. pending_pairing_code (gw_auth g) = Some pending \<and> take 6 pending = pairing_code_of e a body (gw_fs g) \<and>
       gw_fs g' = (gw_fs g)(tokens_path (gw_auth g) \<mapsto> text) \<and> pending_pairing_code (gw_auth g') = None)"
proof -
  obtain locked ctx where c: "auth_pair_check_lockout (Some (ra_ip a)) (rv_now e) (gw_auth g) = (locked, ctx)" by (metis surj_pair)
  have keep: "tokens_path ctx = tokens_path (gw_auth g)" "pending_pairing_code ctx = pending_pairing_code (gw_auth g)"
    using lockout_keeps(1,2) [of "Some (ra_ip a)" "rv_now e" "gw_auth g"] c by simp_all
  have "gw_cfg g' = gw_cfg g \<and> gw_store g' = gw_store g \<and> gw_config_path g' = gw_config_path g \<and> set (gw_hist g') \<subseteq> insert (gw_fs g) (set (gw_hist g)) \<and>
    (gw_fs g' = gw_fs g \<or> (\<exists>pending text. pending_pairing_code (gw_auth g) = Some pending \<and> take 6 pending = pairing_code_of e a body (gw_fs g) \<and>
       gw_fs g' = (gw_fs g)(tokens_path (gw_auth g) \<mapsto> text) \<and> pending_pairing_code (gw_auth g') = None))"
  proof (cases locked)
    case True
    then show ?thesis using assms(1) c by (auto simp: route_pair_def)
  next
    case False
    obtain g1 r1 where h: "handle_pair e a body sz (g\<lparr>gw_auth := ctx\<rparr>) r = (g1, r1)" by (metis surj_pair)
    have g': "g' = g1\<lparr>gw_auth := (if rp_status r1 = 200 then auth_pair_clear_ip (Some (ra_ip a)) (gw_auth g1)
                           else auth_pair_record_failure (Some (ra_ip a)) (rv_now e) (gw_auth g1))\<rparr>"
      using assms(1) c False h by (auto simp: route_pair_def)
    show ?thesis using handle_pair_effect [OF h _ assms(3)] assms(2) keep g' by auto
  qed
  then show "gw_cfg g' = gw_cfg g" "gw_store g' = gw_store g" "gw_config_path g' = gw_config_path g" "set (gw_hist g') \<subseteq> insert (gw_fs g) (set (gw_hist g))"
    "gw_fs g' = gw_fs g \<or> (\<exists>pending text. pending_pairing_code (gw_auth g) = Some pending \<and> take 6 pending = pairing_code_of e a body (gw_fs g) \<and>
       gw_fs g' = (gw_fs g)(tokens_path (gw_auth g) \<mapsto> text) \<and> pending_pairing_code (gw_auth g') = None)" by simp_all
qed

section \<open>Clients without a token\<close>

lemma server_leaves_state:
  assumes "asap_server_handle conv print ulid inp ctx st = (reply, st')" "st' \<noteq> st"
  shows "sender_is_trusted (sx_cfg ctx) (sender inp) \<and> payload_type inp \<in> {Some ''task.request'', Some ''mcp.tool_call''}"
  using assms by (auto simp: asap_server_handle_def split: option.splits if_splits)

lemma asap_effect:
  assumes "handle_asap e ip body sz g r = (g', r')" "gw_store g' \<noteq> gw_store g"
  shows "\<not> snd (rate_limit_asap (Some ip) (rv_now e) (gw_rates g)) \<and>
    (\<exists>inp. asap_envelope_parse (rv_conv e) (rv_parse e) (cstr body) = Inr inp \<and> sender_is_trusted (Some (gw_cfg g)) (sender inp) \<and>
       payload_type inp \<in> {Some ''task.request'', Some ''mcp.tool_call''})"
proof -
  obtain t limited where l: "rate_limit_asap (Some ip) (rv_now e) (gw_rates g) = (t, limited)" by (metis surj_pair)
  have nl: "\<not> limited" using assms l by (auto simp: handle_asap_def)
  obtain inp where p: "asap_envelope_parse (rv_conv e) (rv_parse e) (cstr body) = Inr inp"
    using assms l nl by (auto simp: handle_asap_def Let_def split: sum.splits)
  obtain rc err out db w where h: "asap_server_handle (rv_conv e) (rv_print e) (rv_ulid e) inp (asap_ctx_bind_bootstrap e (g\<lparr>gw_rates := t\<rparr>))
      (ds_db (gw_store g), ds_world (gw_store g)) = ((rc, err, out), db, w)" by (metis surj_pair)
  have "gw_store g' = (gw_store g)\<lparr>ds_db := db, ds_world := w\<rparr>"
    using assms(1) l nl p h by (auto simp: handle_asap_def asap_answer_def Let_def split: option.splits if_splits prod.splits bool.splits)
  then have "(db, w) \<noteq> (ds_db (gw_store g), ds_world (gw_store g))" using assms(2) by auto
  from server_leaves_state [OF h this] show ?thesis using nl l p by (simp add: asap_ctx_bind_bootstrap_def)
qed

text \<open>What a request can do without a token, which every path under \<open>/api/\<close> needs: the configuration is left alone; a file changes
  only through \<open>POST /pair\<close> with the pending code, which is then spent, and only the token file; and the store changes only
  through \<open>POST /asap\<close> by a sender that is trusted and under the rate limit, with a task or a tool call.\<close>

lemma public_request_effect:
  assumes "dispatch_route e a meth uri n body sz g r = (g', r')" "\<not> requires_auth uri n" "0 < sz"
    and "fresh_tmp (rv_save e) (tokens_path (gw_auth g)) (gw_fs g)"
  shows "gw_cfg g' = gw_cfg g \<and>
    (gw_fs g' = gw_fs g \<or> uri_exact_eq uri n ''/pair'' \<and> meth = HTTP_POST \<and>
       (\<exists>pending text. pending_pairing_code (gw_auth g) = Some pending \<and> take 6 pending = pairing_code_of e a body (gw_fs g) \<and>
          gw_fs g' = (gw_fs g)(tokens_path (gw_auth g) \<mapsto> text) \<and> pending_pairing_code (gw_auth g') = None)) \<and>
    (gw_store g' = gw_store g \<or> uri_exact_eq uri n ''/asap'' \<and> meth = HTTP_POST \<and>
       \<not> snd (rate_limit_asap (Some (ra_ip a)) (rv_now e) (gw_rates g)) \<and>
       (\<exists>inp. asap_envelope_parse (rv_conv e) (rv_parse e) (cstr body) = Inr inp \<and> sender_is_trusted (Some (gw_cfg g)) (sender inp) \<and>
          payload_type inp \<in> {Some ''task.request'', Some ''mcp.tool_call''}))"
proof -
  have api: "\<not> uri_exact_eq uri n p" "\<not> uri_has_prefix uri n p" if "prefix ''/api/'' p" for p
    using assms(2) that exact_has_prefix [of uri n p "''/api/''"] prefix_chain [of uri n p "''/api/''"] by (auto simp: requires_auth_iff)
  have hw: "routes_hardware_dispatch e meth uri n sz g r = None"
    using assms(2) hardware_under_api [of e meth uri n sz g r] by (cases "routes_hardware_dispatch e meth uri n sz g r") (auto simp: requires_auth_iff)
  consider (health) "g' = g" | (pair) "uri_exact_eq uri n ''/pair''" "meth = HTTP_POST" "route_pair e a body sz g r = (g', r')"
    | (known) "handle_well_known e uri n sz g r = (g', r')"
    | (asap) "uri_exact_eq uri n ''/asap''" "meth = HTTP_POST" "handle_asap e (ra_ip a) body sz g r = (g', r')"
    using assms(1) hw by (auto simp: dispatch_route_def api split: if_splits)
  then show ?thesis
  proof cases
    case health
    then show ?thesis by simp
  next
    case pair
    then show ?thesis using route_pair_effect [OF pair(3) assms(4,3)] by simp
  next
    case known
    have "gw_store (fst (handle_well_known e uri n sz g r)) = gw_store g" by (auto simp: handle_well_known_def split: option.splits prod.splits)
    then show ?thesis using same_files_well_known [of g e uri n sz r] known by (simp add: same_files_def)
  next
    case asap
    then show ?thesis using asap_same_files [of g e "ra_ip a" body sz r] asap_effect [OF asap(3)] by (auto simp: same_files_def)
  qed
qed

section \<open>The configuration file\<close>

text \<open>A path that does not start with a tilde is taken as it is, and what is loaded is then decided by the text of the file.\<close>

lemma live_load_text:
  assumes "ch p 0 \<noteq> CHR ''~''" "ch q 0 \<noteq> CHR ''~''" "fs p = fs' q" "fs p \<noteq> None"
  shows "live_load e fs p = live_load e fs' q"
  using assms by (auto simp: live_load_def config_load_def config_expand_tilde_def)

lemma live_load_exists: "live_load e fs p = Inr cfg \<Longrightarrow> ch p 0 \<noteq> CHR ''~'' \<Longrightarrow> fs p \<noteq> None"
  by (auto simp: live_load_def config_load_def config_expand_tilde_def split: option.splits)

definition loads :: "'w route_env \<Rightarrow> string \<Rightarrow> fsys \<Rightarrow> bool" where
  "loads e path fs = (case live_load e fs path of Inl _ \<Rightarrow> False | Inr _ \<Rightarrow> True)"

text \<open>Every state the files have been in holds a configuration that loads, and the live configuration is the one of the file.\<close>

definition config_ok :: "'w route_env \<Rightarrow> string \<Rightarrow> 'w gateway \<Rightarrow> bool" where
  "config_ok e path g \<longleftrightarrow> list_all (loads e path) (gw_fs g # gw_hist g) \<and> live_load e (gw_fs g) path = Inr (gw_cfg g)"

lemma loads_cong:
  assumes "loads e path fs" "fs' path = fs path" "ch path 0 \<noteq> CHR ''~''"
  shows "loads e path fs'"
proof -
  obtain cfg where c: "live_load e fs path = Inr cfg" using assms(1) by (auto simp: loads_def split: sum.splits)
  then show ?thesis using live_load_text [of path path fs' fs e] live_load_exists [OF c] assms(2,3) by (simp add: loads_def)
qed

lemma config_ok_cong:
  assumes "config_ok e path g" "ch path 0 \<noteq> CHR ''~''" "gw_cfg g' = gw_cfg g" "gw_fs g' path = gw_fs g path"
    and "\<And>fs. fs \<in> set (gw_hist g') \<Longrightarrow> fs path = gw_fs g path \<or> fs \<in> set (gw_hist g)"
  shows "config_ok e path g'"
proof -
  have c: "live_load e (gw_fs g) path = Inr (gw_cfg g)" "loads e path (gw_fs g)" "\<And>fs. fs \<in> set (gw_hist g) \<Longrightarrow> loads e path fs"
    using assms(1) by (auto simp: config_ok_def list_all_iff)
  have "live_load e (gw_fs g') path = Inr (gw_cfg g)"
    using live_load_text [of path path "gw_fs g'" "gw_fs g" e] live_load_exists [OF c(1)] assms(2,4) c(1) by simp
  moreover have "loads e path (gw_fs g')" using loads_cong [of e path "gw_fs g" "gw_fs g'"] c(2) assms(2,4) by simp
  moreover have "loads e path fs" if "fs \<in> set (gw_hist g')" for fs using assms(5) [OF that] loads_cong [of e path "gw_fs g" fs] c(2,3) assms(2) by blast
  ultimately show ?thesis using assms(3) by (simp add: config_ok_def list_all_iff)
qed

lemma files_pass_ok:
  assumes "config_ok e path g" "ch path 0 \<noteq> CHR ''~''" "states \<noteq> []" "\<And>s. s \<in> set states \<Longrightarrow> s path = gw_fs g path"
  shows "config_ok e path (files_pass states g)"
  using assms(3,4) by (intro config_ok_cong [OF assms(1,2)]) (auto dest: list.set_sel(2))

text \<open>What every route but \<open>PUT /api/config\<close> does.\<close>

definition keeps_config :: "'w route_env \<Rightarrow> string \<Rightarrow> 'w gateway \<Rightarrow> 'w gateway \<Rightarrow> bool" where
  "keeps_config e path g g' \<longleftrightarrow> config_ok e path g' \<and> gw_cfg g' = gw_cfg g"

lemma keeps_if:
  "(c \<Longrightarrow> keeps_config e path g (fst x)) \<Longrightarrow> (\<not> c \<Longrightarrow> keeps_config e path g (fst y)) \<Longrightarrow> keeps_config e path g (fst (if c then x else y))"
  by simp

lemma keeps_pass:
  assumes "config_ok e path g" "ch path 0 \<noteq> CHR ''~''" "states \<noteq> []" "\<forall>s \<in> set states. s path = gw_fs g path"
  shows "keeps_config e path g (files_pass states g)"
  using files_pass_ok [OF assms(1-3)] assms(4) by (simp add: keeps_config_def)

lemma same_files_ok: "same_files g g' \<Longrightarrow> config_ok e path g \<Longrightarrow> config_ok e path g'"
  by (simp add: same_files_def config_ok_def)

text \<open>The names \<open>mkstemp\<close> picks for one request.\<close>

definition temps_apart :: "'w route_env \<Rightarrow> string \<Rightarrow> bool" where
  "temps_apart e path \<longleftrightarrow> se_mkstemp (rv_save e) \<noteq> Some path \<and> se_mkstemp (rv_patch_save e) \<noteq> Some path \<and>
     (case se_mkstemp (rv_save e) of Some tmp \<Rightarrow> ch tmp 0 \<noteq> CHR ''~'' | None \<Rightarrow> True)"

lemma validate_states:
  assumes "validate_patched_toml load s path content fs = (states, o')" "se_mkstemp s \<noteq> Some q"
  shows "states \<noteq> []" "\<And>x. x \<in> set states \<Longrightarrow> x q = fs q"
proof -
  have "states \<noteq> [] \<and> (\<forall>x \<in> set states. x q = fs q)"
  proof (cases "states = [fs]")
    case False
    then obtain tmp where tmp: "se_mkstemp s = Some tmp"
      using assms(1) by (auto simp: validate_patched_toml_def Let_def split: if_splits option.splits)
    obtain ws w where w: "write_all (se_write s) tmp content 0 [fs(tmp \<mapsto> []), fs] = (ws, w)" by (metis surj_pair)
    note ws = written_states(1,2) [OF w]
    have "states = discard_file_tmp tmp ws"
      using assms(1) False tmp w by (auto simp: validate_patched_toml_def write_all_fd_def Let_def split: if_splits sum.splits)
    then show ?thesis using ws assms(2) tmp hd_in_set [OF ws(1)] by (auto simp: discard_file_tmp_def)
  qed auto
  then show "states \<noteq> []" "\<And>x. x \<in> set states \<Longrightarrow> x q = fs q" by blast+
qed

lemma put_text_states:
  assumes "config_put_text e path body fs = (states, res)" "se_mkstemp (rv_patch_save e) \<noteq> Some q"
  shows "states \<noteq> []" "\<And>x. x \<in> set states \<Longrightarrow> x q = fs q"
proof -
  have "states = [fs] \<or> (\<exists>t o'. validate_patched_toml (live_load e) (rv_patch_save e) path t fs = (states, o'))"
    using assms(1)
    by (auto simp: config_put_text_def config_patch_dashboard_json_def split: if_splits option.splits sum.splits patch_result.splits prod.splits)
  then have "states \<noteq> [] \<and> (\<forall>x \<in> set states. x q = fs q)"
  proof (elim disjE exE)
    fix t o'
    assume "validate_patched_toml (live_load e) (rv_patch_save e) path t fs = (states, o')"
    note v = validate_states [OF this assms(2)]
    show ?thesis using v by blast
  qed simp
  then show "states \<noteq> []" "\<And>x. x \<in> set states \<Longrightarrow> x q = fs q" by blast+
qed

lemma config_temp_states:
  assumes "write_config_temp s path content fs = (states, o')" "se_mkstemp s \<noteq> Some q"
  shows "states \<noteq> []" "\<And>x. x \<in> set states \<Longrightarrow> x q = fs q" "o' = Some tmp \<Longrightarrow> se_mkstemp s = Some tmp \<and> hd states tmp = Some content"
proof -
  have "states \<noteq> [] \<and> (\<forall>x \<in> set states. x q = fs q) \<and> (o' = Some tmp \<longrightarrow> se_mkstemp s = Some tmp \<and> hd states tmp = Some content)"
  proof (cases "states = [fs] \<and> o' = None")
    case False
    then obtain t where tmp: "se_mkstemp s = Some t"
      using assms(1) by (auto simp: write_config_temp_def Let_def split: if_splits option.splits)
    obtain ws w where w: "write_all (se_write s) t content 0 [fs(t \<mapsto> []), fs] = (ws, w)" by (metis surj_pair)
    note ws = written_states(1,2) [OF w]
    have f: "w \<Longrightarrow> hd ws t = Some content" using write_all_final [of "[fs(t \<mapsto> []), fs]" fs t 0 content "se_write s"] w by auto
    have "states = discard_file_tmp t [fs(t \<mapsto> []), fs] \<and> o' = None \<or> states = discard_file_tmp t ws \<and> o' = None \<or> states = ws \<and> o' = Some t \<and> w"
      using assms(1) False tmp w by (auto simp: write_config_temp_def write_all_cfg_def discard_cfg_tmp_def Let_def split: if_splits)
    then show ?thesis using ws f assms(2) tmp hd_in_set [OF ws(1)] by (auto simp: discard_file_tmp_def)
  qed auto
  then show "states \<noteq> []" "\<And>x. x \<in> set states \<Longrightarrow> x q = fs q" "o' = Some tmp \<Longrightarrow> se_mkstemp s = Some tmp \<and> hd states tmp = Some content" by blast+
qed

lemma put_save_ok:
  assumes "config_put_save e path text sz g r = (g', r')" "config_ok e path g" "ch path 0 \<noteq> CHR ''~''" "temps_apart e path" "gw_bootstrapped g" "0 < sz"
  shows "config_ok e path g' \<and> (gw_cfg g' = gw_cfg g \<or> rp_status r' = 200)"
proof -
  obtain states o' where w: "write_config_temp (rv_save e) path text (gw_fs g) = (states, o')" by (metis surj_pair)
  have t: "se_mkstemp (rv_save e) \<noteq> Some path" using assms(4) by (simp add: temps_apart_def)
  note st = config_temp_states [OF w t]
  have pass: "config_ok e path (files_pass states g)" by (rule files_pass_ok [OF assms(2,3)]) (use st(1,2) in blast)+
  show ?thesis
  proof (cases o')
    case None
    then show ?thesis using assms(1) w pass by (auto simp: config_put_save_def)
  next
    case (Some tmp)
    have tmp: "se_mkstemp (rv_save e) = Some tmp" "hd states tmp = Some text" using st(3) [of tmp] Some by simp_all
    have plain: "ch tmp 0 \<noteq> CHR ''~''" "tmp \<noteq> path" using assms(4) tmp(1) by (auto simp: temps_apart_def)
    have disc: "config_ok e path (files_pass (discard_cfg_tmp tmp states) g)"
      using st(1,2) plain(2) hd_in_set [OF st(1)]
      by (intro files_pass_ok [OF assms(2,3)]) (auto simp: discard_cfg_tmp_def discard_file_tmp_def)
    show ?thesis
    proof (cases "live_load e (hd states) tmp")
      case (Inl err)
      then show ?thesis using assms(1) w Some disc by (auto simp: config_put_save_def)
    next
      case (Inr cfg)
      show ?thesis
      proof (cases "se_rename (rv_save e)")
        case False
        then show ?thesis using assms(1) w Some Inr disc by (auto simp: config_put_save_def)
      next
        case True
        let ?fs = "(hd states)(tmp := None, path := hd states tmp)"
        have l: "live_load e ?fs path = Inr cfg" using live_load_text [of path tmp ?fs "hd states" e] assms(3) plain tmp(2) Inr by simp
        have g': "g' = (files_pass (?fs # states) g)\<lparr>gw_cfg := cfg\<rparr>" "r' = json_response sz ok_json r"
          using assms(1,5) w Some Inr True l by (auto simp: config_put_save_def reload_live_def Let_def)
        have "loads e path x" if "x \<in> set states" for x
          using loads_cong [of e path "gw_fs g" x] st(2) [OF that] assms(2,3) by (simp add: config_ok_def)
        then show ?thesis using g' l assms(2,6) by (auto simp: config_ok_def list_all_iff loads_def [of e path ?fs])
      qed
    qed
  qed
qed

lemma config_put_ok:
  assumes "handle_config_put e body sz g r = (g', r')" "gw_config_path g = Some path" "config_ok e path g" "ch path 0 \<noteq> CHR ''~''"
    "temps_apart e path" "gw_bootstrapped g" "0 < sz"
  shows "config_ok e path g' \<and> (gw_cfg g' = gw_cfg g \<or> rp_status r' = 200)"
proof (cases "g' = g")
  case False
  obtain states res where t: "config_put_text e path body (gw_fs g) = (states, res)" by (metis surj_pair)
  have p: "se_mkstemp (rv_patch_save e) \<noteq> Some path" using assms(5) by (simp add: temps_apart_def)
  have pass: "config_ok e path (files_pass states g)"
    by (rule files_pass_ok [OF assms(3,4)]) (use put_text_states [OF t p] in blast)+
  show ?thesis
  proof (cases res)
    case (Accepted new)
    then have "config_put_save e path new sz (files_pass states g) r = (g', r')"
      using assms(1,2) False t by (auto simp: handle_config_put_def split: if_splits)
    from put_save_ok [OF this pass assms(4,5)] assms(6,7) show ?thesis by simp
  next
    case (Rejected err)
    then show ?thesis using assms(1,2) False t pass by (auto simp: handle_config_put_def split: if_splits)
  next
    case Memory_error
    then show ?thesis using assms(1,2) False t pass by (auto simp: handle_config_put_def config_ok_def split: if_splits)
  qed
qed (use assms in simp)

lemma skill_states:
  assumes "se_mkstemp s \<noteq> Some q" "\<not> suffix ''.md'' q"
  shows "fst (skill_create s cfg name content fs) \<noteq> []" "x \<in> set (fst (skill_create s cfg name content fs)) \<Longrightarrow> x q = fs q"
    "fst (skill_update s cfg name content fs) \<noteq> []" "x \<in> set (fst (skill_update s cfg name content fs)) \<Longrightarrow> x q = fs q"
    "fst (skill_delete rm cfg name fs) \<noteq> []" "x \<in> set (fst (skill_delete rm cfg name fs)) \<Longrightarrow> x q = fs q"
proof -
  have sfx: "p \<noteq> q" if b: "build_skill_path cfg name k = Some p" for p k
  proof -
    obtain d where "p = (d @ ''/'' @ name) @ ''.md''" using skill_path_shape [OF b] by auto
    then have "suffix ''.md'' p" unfolding suffix_def by blast
    then show ?thesis using assms(2) by blast
  qed
  have f: "x q = fs q" if "x \<in> set (fst (write_skill_atomic s p content fs))" "p \<noteq> q" for p
    using skill_writer.replace_frame [OF that(1) assms(1)] that(2) by auto
  have ne: "fst (write_skill_atomic s p content fs) \<noteq> []" for p
    using skill_writer.replace_outcome [of s p content fs] write_all_nonempty by (cases rule: atomic_outcome.cases) (auto simp: discard_file_tmp_def)
  show "fst (skill_create s cfg name content fs) \<noteq> []" "x \<in> set (fst (skill_create s cfg name content fs)) \<Longrightarrow> x q = fs q"
    using f ne sfx by (auto simp: skill_create_def split: option.splits if_splits)
  show "fst (skill_update s cfg name content fs) \<noteq> []" "x \<in> set (fst (skill_update s cfg name content fs)) \<Longrightarrow> x q = fs q"
    using f ne sfx by (auto simp: skill_update_def split: option.splits)
  show "fst (skill_delete rm cfg name fs) \<noteq> []" "x \<in> set (fst (skill_delete rm cfg name fs)) \<Longrightarrow> x q = fs q"
    using sfx [of MAX_PATH_LEN] by (auto simp: skill_delete_def split: option.splits if_splits)
qed

text \<open>The handlers of a skill pass the files through states in which the configuration file is what it was.\<close>

lemma skill_routes_ok:
  assumes "config_ok e path g" "ch path 0 \<noteq> CHR ''~''" "temps_apart e path" "\<not> suffix ''.md'' path"
  shows "keeps_config e path g (fst (handle_skill_create e body sz g r))" "keeps_config e path g (fst (route_skill e meth uri n body sz g r))"
proof -
  have t: "se_mkstemp (rv_save e) \<noteq> Some path" using assms(3) by (simp add: temps_apart_def)
  have g: "keeps_config e path g g" using assms(1) by (simp add: keeps_config_def)
  note st = skill_states [OF t assms(4)]
  have ok: "keeps_config e path g (files_pass (fst (skill_create (rv_save e) (gw_cfg g) name content (gw_fs g))) g)"
    "keeps_config e path g (files_pass (fst (skill_update (rv_save e) (gw_cfg g) name content (gw_fs g))) g)"
    "keeps_config e path g (files_pass (fst (skill_delete (rv_remove e) (gw_cfg g) name (gw_fs g))) g)" for name content
    by (rule keeps_pass [OF assms(1,2)], rule st, rule ballI, erule st)+
  show "keeps_config e path g (fst (handle_skill_create e body sz g r))"
    using g ok(1) by (auto simp: handle_skill_create_def Let_def split: option.splits prod.splits) (metis fst_conv)+
  have u: "keeps_config e path g (fst (handle_skill_update e name body sz g r))" for name
    using g ok(2) by (auto simp: handle_skill_update_def Let_def split: option.splits prod.splits) (metis fst_conv)+
  have d: "keeps_config e path g (fst (handle_skill_delete e name sz g r))" for name
    using ok(3) by (auto simp: handle_skill_delete_def Let_def split: prod.splits) (metis fst_conv)+
  show "keeps_config e path g (fst (route_skill e meth uri n body sz g r))"
    using u d g by (auto simp: route_skill_def not_allowed_def split: option.splits)
qed

lemma route_pair_ok:
  assumes "config_ok e path g" "ch path 0 \<noteq> CHR ''~''" "tokens_path (gw_auth g) \<noteq> path" "0 < sz"
    and "fresh_tmp (rv_save e) (tokens_path (gw_auth g)) (gw_fs g)"
  shows "keeps_config e path g (fst (route_pair e a body sz g r))"
proof -
  obtain g' r' where h: "route_pair e a body sz g r = (g', r')" by (metis surj_pair)
  note p = route_pair_effect [OF h assms(5,4)]
  have "gw_fs g' path = gw_fs g path" using p(5) assms(3) by auto
  then have "config_ok e path g'" using p(4) by (intro config_ok_cong [OF assms(1,2) p(1)]) auto
  then show ?thesis using h p(1) by (simp add: keeps_config_def)
qed


text \<open>A gateway with one configuration file, and the environment of a request.\<close>

definition demo_save :: save_env where
  "demo_save = \<lparr>se_mkdir = True, se_mkstemp = Some ''/h/.sc-cfg-a1b2c3'', se_fchmod = True, se_write = (\<lambda>_. 2), se_fsync = True,
     se_close = True, se_rename = True\<rparr>"

definition demo_hw :: hw_env where
  "demo_hw = \<lparr>hw_board = BOARD_STUB, hw_gpio_backend = HARDWARE_GPIO_BACKEND_STUB, hw_i2c_backend = False, hw_i2c_available = False,
     hw_camera_backend = False, hw_gpio_snapshot = Inr [], hw_i2c_bus = (\<lambda>_. 1), hw_i2c_scan = (\<lambda>_. Inr []), hw_gpu_json = Inl []\<rparr>"

definition demo_route_env :: "nat route_env" where
  "demo_route_env = \<lparr>rv_parse = (\<lambda>_. None), rv_print = (\<lambda>_. Some ''{}''), rv_token_text = (\<lambda>_. ''[]''), rv_conv = (\<lambda>_. 0), rv_now = 7,
     rv_getenv = Config.demo_getenv, rv_save = demo_save, rv_patch_save = demo_save, rv_remove = True, rv_token_bytes = Some (replicate 16 171),
     rv_job_bytes = None, rv_valueint = (\<lambda>_. 0), rv_fmt_g = (\<lambda>_. ''0''),
     rv_toml = (\<lambda>t. if t = ''bad'' then Inl ''syntax'' else Inr [(''agent'', TTable [(''model'', TString t)])]), rv_strtod = (\<lambda>t. (0, t)),
     rv_dirs = (\<lambda>_. None), rv_match = (\<lambda>_ _. []), rv_localtime = (\<lambda>_. None), rv_utc = (\<lambda>_. []), rv_ulid = None, rv_agent = None, rv_tools = [],
     rv_keys_dir = None, rv_keypair = None, rv_sign = (\<lambda>_ _. None), rv_fmt = (\<lambda>_ _. []), rv_compatible = ([], None), rv_alloc = (\<lambda>_. True),
     rv_provider_status = None, rv_discord = ([], []), rv_context = None, rv_hw = demo_hw\<rparr>"

definition demo_files :: fsys where
  "demo_files = [''/h/config.toml'' \<mapsto> ''old'']"

definition demo_live :: config where
  "demo_live = (case live_load demo_route_env demo_files ''/h/config.toml'' of Inr c \<Rightarrow> c | Inl _ \<Rightarrow> config_defaults)"

definition demo_gateway :: "nat gateway" where
  "demo_gateway = \<lparr>gw_cfg = demo_live, gw_bootstrapped = True, gw_auth = Auth.demo_ctx, gw_config_path = Some ''/h/config.toml'', gw_start_time = 0,
     gw_fs = demo_files, gw_hist = [], gw_corrupt = False, gw_store = \<lparr>ds_db = None, ds_offers = [], ds_world = 0\<rparr>,
     gw_rates = rate_limit_reset, gw_log = asap_log_reset, gw_keys = demo_keys Map.empty\<rparr>"

definition demo_args :: http_args where
  "demo_args = \<lparr>ra_ip = ''10.0.0.1'', ra_pairing_header = [], ra_urlarg = (\<lambda>_. [])\<rparr>"

lemma demo_config_ok: "config_ok demo_route_env ''/h/config.toml'' demo_gateway"
proof -
  have "case live_load demo_route_env demo_files ''/h/config.toml'' of Inr _ \<Rightarrow> True | Inl _ \<Rightarrow> False" by code_simp
  then show ?thesis by (auto simp: config_ok_def loads_def demo_gateway_def demo_live_def split: sum.splits)
qed


subsection \<open>Where the routes and the comments part\<close>

text \<open>Creating a skill answers 200: the 201 is overwritten.\<close>

lemma create_answers_200:
  assumes "handle_skill_create e body sz g r = (g', r')" "0 < sz" "rp_status r' < 400"
  shows "rp_status r' = 200"
  using assms by (auto simp: handle_skill_create_def reply_error_def Let_def split: option.splits prod.splits if_splits bool.splits)

text \<open>The default configuration path starts with a tilde.  \<open>config_load\<close> expands it, so the process starts; the gateway gets the
  path as it stands, and a JSON patch is refused because no file has that name.\<close>

definition DEFAULT_CONFIG_PATH :: string where "DEFAULT_CONFIG_PATH = ''~/.shellclaw/config.toml''"

lemma default_path_not_patched:
  assumes "gw_config_path g = Some DEFAULT_CONFIG_PATH" "gw_fs g DEFAULT_CONFIG_PATH = None" "body_is_json_object body" "length body \<le> CONFIG_BODY_MAX"
    and "0 < sz" "live_load e (gw_fs g) DEFAULT_CONFIG_PATH = Inr cfg" "handle_config_put e body sz g r = (g', r')"
  shows "rp_status r' = 400 \<and> gw_cfg g' = gw_cfg g \<and> gw_fs g' = gw_fs g"
proof -
  have "\<exists>err. config_put_text e DEFAULT_CONFIG_PATH body (gw_fs g) = ([gw_fs g], Rejected err)"
    using assms(2,3) by (auto simp: config_put_text_def config_patch_dashboard_json_def split: option.splits)
  moreover have "body \<noteq> []" using assms(3) by auto
  ultimately show ?thesis using assms(1,4,5,7) by (auto simp: handle_config_put_def reply_error_def)
qed

end
