(* ===== verification/Http_Lws.thy ===== *)
theory Http_Lws
  imports Routes Ws
begin

text \<open>
  The libwebsockets callbacks of \<open>src/gateway/http_lws.c\<close>: a request arrives in several callbacks on one connection, which check the
  token, collect the body, dispatch the request and send the reply in pieces.  What libwebsockets answers to the calls of a
  callback is part of the request and of the event.  The main result is that the sequence of callbacks of a request amounts to
  at most one \<open>dispatch_route\<close>, on the complete body, and for the protected paths only behind a valid token.
\<close>

section \<open>Definitions\<close>

subsection \<open>The headers of a request\<close>

datatype hdr = WSI_TOKEN_GET_URI | WSI_TOKEN_POST_URI | WSI_TOKEN_PUT_URI | WSI_TOKEN_DELETE_URI | WSI_TOKEN_PATCH_URI
  | WSI_TOKEN_HTTP_COLON_METHOD | WSI_TOKEN_HTTP_AUTHORIZATION | WSI_TOKEN_HTTP_CONTENT_LENGTH | WSI_TOKEN_COLON_PROTOCOL

text \<open>\<open>lws_hdr_total_length\<close>, \<open>lws_hdr_copy\<close> and \<open>lws_hdr_custom_copy\<close>: the return value and the buffer, for a buffer of a size.\<close>

record http_request =
  rq_total_length :: "hdr \<Rightarrow> int"
  rq_copy :: "hdr \<Rightarrow> nat \<Rightarrow> int \<times> string"
  rq_custom :: "string \<Rightarrow> nat \<Rightarrow> int \<times> string"
  rq_args :: http_args

definition http_parse_method :: "http_request \<Rightarrow> http_method" where
  "http_parse_method rq =
     (if rq_total_length rq WSI_TOKEN_POST_URI > 0 then HTTP_POST
      else if rq_total_length rq WSI_TOKEN_PUT_URI > 0 then HTTP_PUT
      else if rq_total_length rq WSI_TOKEN_DELETE_URI > 0 then HTTP_DELETE
      else if rq_total_length rq WSI_TOKEN_PATCH_URI > 0 then HTTP_PUT
      else let (n, meth_buf) = rq_custom rq '':method'' 16;
               (n, meth_buf) = (if n > 0 then (n, meth_buf) else rq_copy rq WSI_TOKEN_HTTP_COLON_METHOD 16) in
        if n > 0 then
          (if meth_buf = ''POST'' then HTTP_POST
           else if meth_buf = ''PUT'' then HTTP_PUT
           else if meth_buf = ''DELETE'' then HTTP_DELETE
           else if meth_buf = ''PATCH'' then HTTP_PUT
           else HTTP_GET)
        else HTTP_GET)"

definition http_body_content_length :: "http_request \<Rightarrow> int option" where
  "http_body_content_length rq =
     (let (n, cl_buf) = rq_copy rq WSI_TOKEN_HTTP_CONTENT_LENGTH 32 in if n \<le> 0 then None else Some (fst (strtol10 cl_buf)))"

fun copy_first :: "http_request \<Rightarrow> nat \<Rightarrow> int \<times> string \<Rightarrow> hdr list \<Rightarrow> int \<times> string" where
  "copy_first rq uri_size out [] = out"
| "copy_first rq uri_size out (h # hs) = (let (n, uri) = rq_copy rq h uri_size in if n > 0 then (n, uri) else copy_first rq uri_size (n, uri) hs)"

definition http_copy_request_uri :: "http_request \<Rightarrow> nat \<Rightarrow> int \<times> string" where
  "http_copy_request_uri rq uri_size =
     copy_first rq uri_size (0, []) [WSI_TOKEN_GET_URI, WSI_TOKEN_POST_URI, WSI_TOKEN_PUT_URI, WSI_TOKEN_DELETE_URI, WSI_TOKEN_PATCH_URI]"

definition http_request_bearer_token :: "http_request \<Rightarrow> nat \<Rightarrow> string option" where
  "http_request_bearer_token rq buf_size =
     (let (n, buf) = rq_copy rq WSI_TOKEN_HTTP_AUTHORIZATION buf_size;
          (n, buf) = (if n \<le> 0 then rq_custom rq ''authorization'' buf_size else (n, buf)) in
      if n \<le> 0 then None
      else if n < 8 \<or> \<not> prefix ''Bearer '' buf then None
      else Some (drop 7 buf))"

definition ws_copy_upgrade_token :: "http_request \<Rightarrow> nat \<Rightarrow> string option" where
  "ws_copy_upgrade_token rq token_size =
     (if token_size = 0 then None
      else let token = (case http_request_bearer_token rq 256 of
               Some t \<Rightarrow> Some t
             | None \<Rightarrow> let (n, auth_buf) = rq_custom rq ''authorization'' 256 in
                 if n > 7 \<and> prefix ''Bearer '' auth_buf then Some (drop 7 auth_buf) else None) in
        case nonempty token of
          Some t \<Rightarrow> Some (buf_trunc token_size t)
        | None \<Rightarrow>
            (let (n, proto) = rq_copy rq WSI_TOKEN_COLON_PROTOCOL 512;
                 (n, proto) = (if n \<le> 0 then rq_custom rq ''sec-websocket-protocol'' 512 else (n, proto)) in
             if n > 7 \<and> prefix ''bearer.'' proto
             then nonempty (Some (cstr (take (min (nat (n - 7)) (token_size - 1)) (drop 7 proto))))
             else None))"

definition ws_confirm_upgrade :: "(string \<Rightarrow> cjson option) \<Rightarrow> http_request \<Rightarrow> 'w gateway \<Rightarrow> bool" where
  "ws_confirm_upgrade parse rq g =
     (case ws_copy_upgrade_token rq 256 of
        None \<Rightarrow> False
      | Some token \<Rightarrow> auth_validate_token parse (gw_fs g) (gw_auth g) (Some token))"

subsection \<open>A connection\<close>

record http_conn =
  hc_reply :: http_reply
  hc_sent :: nat
  hc_headers_sent :: bool
  hc_has_body :: bool
  hc_dispatched :: bool
  hc_static :: "(string \<times> string) option"
  hc_body :: asap_http_body

definition empty_body :: asap_http_body where
  "empty_body = \<lparr>hb_static = [], hb_dyn = [], hb_dyn_cap = 0, hb_use_dyn = False, hb_too_large = False\<rparr>"

definition new_conn :: "bool \<Rightarrow> http_conn" where
  "new_conn has_body =
     \<lparr>hc_reply = \<lparr>rp_status = 200, rp_body = []\<rparr>, hc_sent = 0, hc_headers_sent = False, hc_has_body = has_body, hc_dispatched = False,
      hc_static = None, hc_body = empty_body\<rparr>"

text \<open>What a callback does to the socket: a complete answer by \<open>lws_return_http_status\<close>, headers, a piece of the reply, the end of
  the transaction, and the request for a writeable callback.\<close>

datatype http_out = Return_Status int string | Headers int string nat | Piece string bool | Completed | Want_Writeable

definition received :: "asap_http_body \<Rightarrow> string" where
  "received b = (if hb_use_dyn b then hb_dyn b else hb_static b)"

definition http_dispatch_body :: "'w route_env \<Rightarrow> http_request \<Rightarrow> http_conn \<Rightarrow> 'w gateway \<Rightarrow> http_conn \<times> 'w gateway" where
  "http_dispatch_body e rq conn g =
     (if \<not> hc_has_body conn \<or> hc_dispatched conn then (conn, g)
      else let (uri_len, uri) = http_copy_request_uri rq 256;
               (g', r) = (if hb_too_large (hc_body conn) then (g, json_error (rv_print e) RESP_BUF_SIZE 413 ''Request body too large'' (hc_reply conn))
                 else dispatch_route e (rq_args rq) (http_parse_method rq) uri uri_len (received (hc_body conn)) RESP_BUF_SIZE g (hc_reply conn)) in
        (conn\<lparr>hc_dispatched := True, hc_reply := r, hc_has_body := False\<rparr>, g'))"

definition token_valid :: "'w route_env \<Rightarrow> http_request \<Rightarrow> 'w gateway \<Rightarrow> bool" where
  "token_valid e rq g =
     (case http_request_bearer_token rq 256 of
        None \<Rightarrow> False
      | Some token \<Rightarrow> auth_validate_token (rv_parse e) (gw_fs g) (gw_auth g) (Some token))"

definition unauthorized_json :: string where
  "unauthorized_json = ''{'' @ [dquote] @ ''error'' @ [dquote] @ '':'' @ [dquote] @ ''Unauthorized'' @ [dquote] @ ''}''"

definition too_large_json :: string where
  "too_large_json = ''{'' @ [dquote] @ ''error'' @ [dquote] @ '':'' @ [dquote] @ ''body too large'' @ [dquote] @ ''}''"

text \<open>The rest of \<open>LWS_CALLBACK_HTTP\<close> for a request whose body is still to come.\<close>

definition http_await_body ::
  "'w route_env \<Rightarrow> http_request \<Rightarrow> http_conn \<Rightarrow> 'w gateway \<Rightarrow> http_conn option \<times> 'w gateway \<times> http_out list" where
  "http_await_body e rq conn g =
     (let cl = (case http_body_content_length rq of Some n \<Rightarrow> n | None \<Rightarrow> 0);
          b = hc_body conn;
          b = b\<lparr>hb_too_large := (hb_too_large b \<or> (http_body_content_length rq \<noteq> None \<and> asap_http_body_exceeds_static_cap b cl)), hb_static := []\<rparr>;
          conn = conn\<lparr>hc_body := b\<rparr> in
      if hb_too_large b then let (conn', g') = http_dispatch_body e rq conn g in (Some conn', g', [Want_Writeable])
      else (Some conn, g, []))"

text \<open>A header that is there and fits its buffer.\<close>

definition copied :: "int \<times> string \<Rightarrow> string option" where
  "copied c = (if fst c \<le> 0 then None else Some (snd c))"

definition http_expect_body ::
  "'w route_env \<Rightarrow> http_request \<Rightarrow> string \<Rightarrow> int \<Rightarrow> http_conn \<Rightarrow> 'w gateway \<Rightarrow> http_conn option \<times> 'w gateway \<times> http_out list" where
  "http_expect_body e rq uri uri_len conn g =
     (if uri_exact_eq uri uri_len ''/asap'' then
        (let (rc, b) = asap_http_body_init_from_request (copied (rq_copy rq WSI_TOKEN_POST_URI 256))
                         (copied (rq_copy rq WSI_TOKEN_HTTP_CONTENT_LENGTH 32)) (hc_body conn) in
         if rc = - 1 then (None, g, [Return_Status 413 too_large_json, Completed])
         else if rc = - 2 then (None, g, [Return_Status 500 ''Internal error'', Completed])
         else http_await_body e rq (conn\<lparr>hc_body := b\<rparr>) g)
      else http_await_body e rq conn g)"

definition http_answer_now ::
  "ui_asset list \<Rightarrow> 'w route_env \<Rightarrow> http_request \<Rightarrow> http_method \<Rightarrow> string \<Rightarrow> int \<Rightarrow> http_conn \<Rightarrow> 'w gateway
   \<Rightarrow> http_conn option \<times> 'w gateway \<times> http_out list" where
  "http_answer_now ui_asset_table e rq meth uri uri_len conn g =
     (case (if is_static_path uri uri_len meth then static_lookup ui_asset_table (cstr (take (nat uri_len) uri)) else None) of
        Some asset \<Rightarrow> (Some (conn\<lparr>hc_static := Some asset\<rparr>), g, [Want_Writeable])
      | None \<Rightarrow>
          (let (g', r) = dispatch_route e (rq_args rq) meth uri uri_len [] RESP_BUF_SIZE g (hc_reply conn) in
           (Some (conn\<lparr>hc_reply := r\<rparr>), g', [Want_Writeable])))"

definition http_request_arrives ::
  "ui_asset list \<Rightarrow> 'w route_env \<Rightarrow> http_request \<Rightarrow> 'w gateway \<Rightarrow> http_conn option \<times> 'w gateway \<times> http_out list" where
  "http_request_arrives ui_asset_table e rq g =
     (let (uri_len, uri) = http_copy_request_uri rq 256; meth = http_parse_method rq in
      if uri_len \<le> 0 \<or> uri_len \<ge> 256 then (None, g, [Return_Status 400 ''Bad request'', Completed])
      else if requires_auth uri uri_len \<and> \<not> token_valid e rq g then (None, g, [Return_Status 401 unauthorized_json, Completed])
      else if meth = HTTP_POST \<or> meth = HTTP_PUT then http_expect_body e rq uri uri_len (new_conn True) g
      else http_answer_now ui_asset_table e rq meth uri uri_len (new_conn False) g)"

text \<open>A writeable callback, with the success of the header calls and the result of \<open>lws_write\<close> on the piece.\<close>

definition send_piece :: "bool \<Rightarrow> int \<Rightarrow> int \<Rightarrow> string \<Rightarrow> string \<Rightarrow> http_conn \<Rightarrow> (http_conn \<times> http_out list) option" where
  "send_piece headers_ok written status content_type data conn =
     (if \<not> hc_headers_sent conn \<and> \<not> headers_ok then None
      else let hs = (if hc_headers_sent conn then [] else [Headers status content_type (length data)]);
               to_send = min 4096 (length data - hc_sent conn);
               piece = take to_send (drop (hc_sent conn) data) in
        if hc_sent conn < length data then
          (if written < 0 then None
           else Some (conn\<lparr>hc_headers_sent := True, hc_sent := hc_sent conn + nat written\<rparr>, hs @ [Piece piece (hc_sent conn + to_send \<ge> length data)]))
        else Some (conn\<lparr>hc_headers_sent := True\<rparr>, hs))"

definition http_writeable :: "bool \<Rightarrow> int \<Rightarrow> http_conn \<Rightarrow> int \<times> http_conn option \<times> http_out list" where
  "http_writeable headers_ok written conn =
     (case hc_static conn of
        Some (data, content_type) \<Rightarrow>
          (case send_piece headers_ok written 200 content_type data conn of
             None \<Rightarrow> (- 1, Some conn, [])
           | Some (conn', outs) \<Rightarrow>
               if hc_sent conn' \<ge> length data then (0, None, outs @ [Completed]) else (0, Some conn', outs))
      | None \<Rightarrow>
          (case send_piece headers_ok written (rp_status (hc_reply conn)) ''application/json'' (rp_body (hc_reply conn)) conn of
             None \<Rightarrow> (- 1, Some conn, [])
           | Some (conn', outs) \<Rightarrow>
               if hc_sent conn' \<ge> length (rp_body (hc_reply conn)) then (0, None, outs @ [Completed])
               else (0, Some conn', outs @ [Want_Writeable])))"

datatype http_reason = HTTP_ARRIVES | HTTP_BODY string | HTTP_BODY_COMPLETION | HTTP_WRITEABLE bool int | CLOSED_HTTP

fun http_callback ::
  "ui_asset list \<Rightarrow> 'w route_env \<Rightarrow> http_request \<Rightarrow> http_reason \<Rightarrow> http_conn option \<times> 'w gateway \<Rightarrow> int \<times> (http_conn option \<times> 'w gateway) \<times> http_out list" where
  "http_callback ui e rq HTTP_ARRIVES (user, g) = (let (user', g', outs) = http_request_arrives ui e rq g in (0, (user', g'), outs))"
| "http_callback ui e rq (HTTP_BODY inp) (user, g) =
     (case user of
        None \<Rightarrow> (0, (None, g), [])
      | Some conn \<Rightarrow>
          if \<not> hc_has_body conn \<or> inp = [] then (0, (user, g), [])
          else let conn = conn\<lparr>hc_body := asap_http_body_append inp (hc_body conn)\<rparr> in
            (case http_body_content_length rq of
               None \<Rightarrow> (0, (Some conn, g), [])
             | Some cl \<Rightarrow>
                 if cl > 0 \<and> int (length (received (hc_body conn))) \<ge> cl \<and> \<not> hb_too_large (hc_body conn)
                 then let (conn', g') = http_dispatch_body e rq conn g in (0, (Some conn', g'), [Want_Writeable])
                 else (0, (Some conn, g), [])))"
| "http_callback ui e rq HTTP_BODY_COMPLETION (user, g) =
     (case user of
        None \<Rightarrow> (0, (None, g), [])
      | Some conn \<Rightarrow>
          if hc_has_body conn then let (conn', g') = http_dispatch_body e rq conn g in (0, (Some conn', g'), [Want_Writeable])
          else (0, (user, g), []))"
| "http_callback ui e rq (HTTP_WRITEABLE headers_ok written) (user, g) =
     (case user of
        None \<Rightarrow> (0, (None, g), [])
      | Some conn \<Rightarrow> let (rc, user', outs) = http_writeable headers_ok written conn in (rc, (user', g), outs))"
| "http_callback ui e rq CLOSED_HTTP (user, g) = (0, (None, g), [])"

text \<open>The callbacks of one request, each in the environment of its moment; a callback that fails closes the connection.\<close>

fun http_run ::
  "ui_asset list \<Rightarrow> http_request \<Rightarrow> (http_reason \<times> 'w route_env) list \<Rightarrow> http_conn option \<times> 'w gateway \<Rightarrow> (http_conn option \<times> 'w gateway) \<times> http_out list" where
  "http_run ui rq [] s = (s, [])"
| "http_run ui rq ((reason, e) # evs) s =
     (let (rc, s', outs) = http_callback ui e rq reason s in
      if rc \<noteq> 0 then ((None, snd s'), outs) else let (s'', outs') = http_run ui rq evs s' in (s'', outs @ outs'))"

section \<open>A request is dispatched at most once\<close>

definition body_parts :: "(http_reason \<times> 'w route_env) list \<Rightarrow> string" where
  "body_parts evs = concat (map (\<lambda>(reason, e). case reason of HTTP_BODY inp \<Rightarrow> inp | _ \<Rightarrow> []) evs)"

abbreviation waiting :: "http_conn option \<Rightarrow> bool" where
  "waiting user \<equiv> (case user of None \<Rightarrow> False | Some conn \<Rightarrow> hc_has_body conn)"

lemma writeable_not_waiting: "http_writeable h w conn = (rc, user, outs) \<Longrightarrow> \<not> hc_has_body conn \<Longrightarrow> \<not> waiting user"
  by (auto simp: http_writeable_def send_piece_def Let_def split: option.splits if_splits prod.splits)

text \<open>Without a request in progress no callback but the arrival of a request changes anything.\<close>

lemma callback_inert:
  assumes "http_callback ui e rq reason (user, g) = (rc, (user', g'), outs)" "\<not> waiting user" "reason \<noteq> HTTP_ARRIVES"
  shows "g' = g \<and> \<not> waiting user'"
  using assms writeable_not_waiting
  by (cases reason) (auto simp: Let_def split: option.splits if_splits prod.splits dest: writeable_not_waiting)

lemma run_inert:
  "http_run ui rq evs (user, g) = ((user', g'), outs) \<Longrightarrow> \<not> waiting user \<Longrightarrow> HTTP_ARRIVES \<notin> fst ` set evs \<Longrightarrow> g' = g"
proof (induction evs arbitrary: user g outs)
  case (Cons ev evs)
  obtain reason e where ev: "ev = (reason, e)" by (metis surj_pair)
  obtain rc user1 g1 outs1 where c: "http_callback ui e rq reason (user, g) = (rc, (user1, g1), outs1)" by (metis surj_pair)
  have i: "g1 = g" "\<not> waiting user1" using callback_inert [OF c Cons.prems(2)] Cons.prems(3) ev by auto
  show ?case
  proof (cases "rc = 0")
    case True
    obtain outs2 where "http_run ui rq evs (user1, g1) = ((user', g'), outs2)" using Cons.prems(1) ev c True by (auto split: prod.splits)
    then show ?thesis using Cons.IH [OF _ i(2)] Cons.prems(3) i(1) by auto
  next
    case False
    then show ?thesis using Cons.prems(1) ev c i(1) by auto
  qed
qed simp

definition fresh_reply :: http_reply where
  "fresh_reply = \<lparr>rp_status = 200, rp_body = []\<rparr>"

text \<open>A connection that waits for its body, of which \<open>sofar\<close> has come.\<close>

definition collecting :: "string \<Rightarrow> http_conn \<Rightarrow> bool" where
  "collecting sofar conn \<longleftrightarrow> hc_has_body conn \<and> \<not> hc_dispatched conn \<and> hc_static conn = None \<and> hc_reply conn = fresh_reply \<and>
     (hb_too_large (hc_body conn) \<or> received (hc_body conn) = sofar)"

lemma append_received:
  assumes "hb_too_large b \<or> received b = sofar"
  shows "hb_too_large (asap_http_body_append inp b) \<or> received (asap_http_body_append inp b) = sofar @ inp"
  using assms by (auto simp: asap_http_body_append_def received_def Let_def)

lemma dispatch_once:
  assumes "http_dispatch_body e rq conn g = (conn', g')" "collecting sofar conn" "http_copy_request_uri rq 256 = (n, uri)"
  shows "\<not> hc_has_body conn'"
    "g' = g \<or> (\<exists>r. dispatch_route e (rq_args rq) (http_parse_method rq) uri n sofar RESP_BUF_SIZE g fresh_reply = (g', r))"
  using assms by (auto simp: http_dispatch_body_def collecting_def Let_def split: if_splits prod.splits)

text \<open>One callback on a waiting connection: it collects, gives up, or dispatches what has come.\<close>

lemma callback_collecting:
  assumes "http_callback ui e rq reason (Some conn, g) = (rc, (user', g'), outs)" "collecting sofar conn" "reason \<noteq> HTTP_ARRIVES"
    and "http_copy_request_uri rq 256 = (n, uri)"
  shows "(g' = g \<and> (\<exists>conn'. user' = Some conn' \<and> collecting (sofar @ body_parts [(reason, e)]) conn')) \<or> (g' = g \<and> \<not> waiting user') \<or>
    \<not> waiting user' \<and> (\<exists>r. dispatch_route e (rq_args rq) (http_parse_method rq) uri n (sofar @ body_parts [(reason, e)]) RESP_BUF_SIZE g fresh_reply = (g', r))"
proof (cases reason)
  case (HTTP_BODY inp)
  let ?c = "conn\<lparr>hc_body := asap_http_body_append inp (hc_body conn)\<rparr>"
  have c: "collecting (sofar @ inp) ?c" using assms(2) append_received [of "hc_body conn" sofar inp] by (auto simp: collecting_def)
  have ch: "body_parts [(reason, e)] = inp" by (simp add: body_parts_def HTTP_BODY)
  obtain conn2 g2 where d: "http_dispatch_body e rq ?c g = (conn2, g2)" by (metis surj_pair)
  consider "user' = Some conn" "g' = g" "inp = []" | "user' = Some ?c" "g' = g" | "user' = Some conn2" "g' = g2"
    using assms(1,2) HTTP_BODY d by (auto simp: collecting_def Let_def split: if_splits option.splits)
  then show ?thesis using c ch assms(2) dispatch_once [OF d c assms(4)] by cases auto
next
  case HTTP_BODY_COMPLETION
  obtain conn2 g2 where d: "http_dispatch_body e rq conn g = (conn2, g2)" by (metis surj_pair)
  have "user' = Some conn2" "g' = g2" using assms(1,2) HTTP_BODY_COMPLETION d by (auto simp: collecting_def)
  then show ?thesis using dispatch_once [OF d assms(2,4)] by (auto simp: body_parts_def HTTP_BODY_COMPLETION)
next
  case (HTTP_WRITEABLE h w)
  then show ?thesis using assms(1,2)
    by (auto simp: body_parts_def http_writeable_def send_piece_def collecting_def fresh_reply_def Let_def split: option.splits if_splits prod.splits)
next
  case CLOSED_HTTP
  then show ?thesis using assms(1) by simp
qed (use assms(3) in simp)

lemma run_collecting:
  assumes "http_run ui rq evs (Some conn, g) = ((user', g'), outs)" "collecting sofar conn" "HTTP_ARRIVES \<notin> fst ` set evs"
    and "http_copy_request_uri rq 256 = (n, uri)"
  shows "g' = g \<or> (\<exists>e \<in> snd ` set evs. \<exists>k r. dispatch_route e (rq_args rq) (http_parse_method rq) uri n (sofar @ body_parts (take k evs)) RESP_BUF_SIZE g fresh_reply = (g', r))"
  using assms
proof (induction evs arbitrary: conn sofar outs)
  case (Cons ev evs)
  obtain reason e where ev: "ev = (reason, e)" by (metis surj_pair)
  obtain rc user1 g1 outs1 where c: "http_callback ui e rq reason (Some conn, g) = (rc, (user1, g1), outs1)" by (metis surj_pair)
  have ne: "reason \<noteq> HTTP_ARRIVES" "HTTP_ARRIVES \<notin> fst ` set evs" using Cons.prems(3) ev by auto
  have chs: "body_parts (ev # xs) = body_parts [(reason, e)] @ body_parts xs" for xs by (simp add: body_parts_def ev)
  have later: "g' = g1" if "rc \<noteq> 0 \<or> \<not> waiting user1"
    using that Cons.prems(1) ev c run_inert [of ui rq evs user1 g1 user' g'] ne(2) by (auto split: prod.splits if_splits)
  consider (more) conn' where "g1 = g" "user1 = Some conn'" "collecting (sofar @ body_parts [(reason, e)]) conn'" | (gone) "g1 = g" "\<not> waiting user1"
    | (sent) r where "\<not> waiting user1" "dispatch_route e (rq_args rq) (http_parse_method rq) uri n (sofar @ body_parts [(reason, e)]) RESP_BUF_SIZE g fresh_reply = (g1, r)"
    using callback_collecting [OF c Cons.prems(2) ne(1) Cons.prems(4)] by blast
  then show ?case
  proof cases
    case more
    show ?thesis
    proof (cases "rc = 0")
      case True
      obtain outs2 where "http_run ui rq evs (Some conn', g) = ((user', g'), outs2)" using Cons.prems(1) ev c True more(1,2) by (auto split: prod.splits)
      from Cons.IH [OF this more(3) ne(2) Cons.prems(4)]
      have "g' = g \<or> (\<exists>e' \<in> snd ` set evs. \<exists>k r. dispatch_route e' (rq_args rq) (http_parse_method rq) uri n (sofar @ body_parts (ev # take k evs)) RESP_BUF_SIZE g fresh_reply = (g', r))"
        unfolding chs by simp
      then show ?thesis by (metis insert_iff image_insert list.simps(15) take_Suc_Cons)
    qed (use later more in simp)
  next
    case gone
    then show ?thesis using later by simp
  next
    case sent
    have "dispatch_route e (rq_args rq) (http_parse_method rq) uri n (sofar @ body_parts (take 1 (ev # evs))) RESP_BUF_SIZE g fresh_reply = (g', r)"
      using sent later by (simp add: ev)
    moreover have "e \<in> snd ` set (ev # evs)" by (simp add: ev)
    ultimately show ?thesis by blast
  qed
qed simp

text \<open>The request itself: it is refused, answered at once, or waits for its body.\<close>

lemma arrival:
  assumes "http_request_arrives ui e rq g = (user, g', outs)" "http_copy_request_uri rq 256 = (n, uri)"
  shows "(g' = g \<and> \<not> waiting user) \<or>
    (requires_auth uri n \<longrightarrow> token_valid e rq g) \<and>
      ((g' = g \<and> (\<exists>conn. user = Some conn \<and> collecting [] conn)) \<or>
       \<not> waiting user \<and> (\<exists>r. dispatch_route e (rq_args rq) (http_parse_method rq) uri n [] RESP_BUF_SIZE g fresh_reply = (g', r)))"
proof -
  have await: "g' = g \<and> (\<not> waiting user \<or> (\<exists>conn. user = Some conn \<and> collecting [] conn))"
    if h: "http_await_body e rq (new_conn True\<lparr>hc_body := b\<rparr>) g = (user, g', outs)" and b: "hb_use_dyn b \<longrightarrow> hb_dyn b = []" for b
  proof -
    have c: "collecting [] (new_conn True\<lparr>hc_body := b\<lparr>hb_too_large := t, hb_static := []\<rparr>\<rparr>)" for t
      using b by (auto simp: collecting_def new_conn_def fresh_reply_def received_def)
    show ?thesis using h c by (auto simp: http_await_body_def http_dispatch_body_def new_conn_def Let_def split: if_splits prod.splits)
  qed
  have eb: "hb_use_dyn empty_body \<longrightarrow> hb_dyn empty_body = []" by (simp add: empty_body_def)
  have nc: "new_conn True\<lparr>hc_body := empty_body\<rparr> = new_conn True" by (simp add: new_conn_def)
  have init: "hb_use_dyn b \<longrightarrow> hb_dyn b = []" if "asap_http_body_init_from_request x y empty_body = (rc, b)" for x y rc b
    using that by (auto simp: asap_http_body_init_from_request_def empty_body_def split: if_splits option.splits)
  have body: "g' = g \<and> (\<not> waiting user \<or> (\<exists>conn. user = Some conn \<and> collecting [] conn))"
    if h: "http_expect_body e rq uri n (new_conn True) g = (user, g', outs)"
  proof -
    have hb: "hc_body (new_conn True) = empty_body" by (simp add: new_conn_def)
    obtain rc b where i: "asap_http_body_init_from_request (copied (rq_copy rq WSI_TOKEN_POST_URI 256))
          (copied (rq_copy rq WSI_TOKEN_HTTP_CONTENT_LENGTH 32)) empty_body = (rc, b)" by (metis surj_pair)
    consider "user = None" "g' = g" | "http_await_body e rq (new_conn True\<lparr>hc_body := b\<rparr>) g = (user, g', outs)"
      | "http_await_body e rq (new_conn True\<lparr>hc_body := empty_body\<rparr>) g = (user, g', outs)"
      using h by (auto simp: http_expect_body_def hb i nc split: if_splits)
    then show ?thesis using await [OF _ init [OF i]] await [OF _ eb] by cases auto
  qed
  have now: "\<not> waiting user \<and> (g' = g \<or> (\<exists>r. dispatch_route e (rq_args rq) (http_parse_method rq) uri n [] RESP_BUF_SIZE g fresh_reply = (g', r)))"
    if "http_answer_now ui e rq (http_parse_method rq) uri n (new_conn False) g = (user, g', outs)"
    using that by (auto simp: http_answer_now_def new_conn_def fresh_reply_def split: option.splits prod.splits)
  let ?m = "http_parse_method rq"
  consider "user = None" "g' = g" | "requires_auth uri n \<longrightarrow> token_valid e rq g" "http_expect_body e rq uri n (new_conn True) g = (user, g', outs)"
    | "requires_auth uri n \<longrightarrow> token_valid e rq g" "http_answer_now ui e rq ?m uri n (new_conn False) g = (user, g', outs)"
    using assms by (auto simp: http_request_arrives_def Let_def split: if_splits)
  then show ?thesis
  proof cases
    case 2
    then show ?thesis using body by blast
  next
    case 3
    then show ?thesis using now by blast
  qed simp
qed

lemma request_once:
  assumes "http_run ui rq ((HTTP_ARRIVES, e0) # evs) (None, g) = ((user, g'), outs)" "HTTP_ARRIVES \<notin> fst ` set evs"
    and "http_copy_request_uri rq 256 = (n, uri)"
  shows "g' = g \<or> (requires_auth uri n \<longrightarrow> token_valid e0 rq g) \<and>
    (\<exists>e \<in> insert e0 (snd ` set evs). \<exists>k r. dispatch_route e (rq_args rq) (http_parse_method rq) uri n (body_parts (take k evs)) RESP_BUF_SIZE g
       fresh_reply = (g', r))"
proof -
  obtain user1 g1 outs1 where a: "http_request_arrives ui e0 rq g = (user1, g1, outs1)" by (metis surj_pair)
  obtain outs2 where r: "http_run ui rq evs (user1, g1) = ((user, g'), outs2)" using assms(1) a by (auto split: prod.splits)
  note inert = run_inert [OF r _ assms(2)]
  consider (refused) "g1 = g" "\<not> waiting user1" | (wait) conn where "requires_auth uri n \<longrightarrow> token_valid e0 rq g" "g1 = g" "user1 = Some conn" "collecting [] conn"
    | (now) r where "requires_auth uri n \<longrightarrow> token_valid e0 rq g" "\<not> waiting user1"
        "dispatch_route e0 (rq_args rq) (http_parse_method rq) uri n [] RESP_BUF_SIZE g fresh_reply = (g1, r)"
    using arrival [OF a assms(3)] by blast
  then show ?thesis
  proof cases
    case refused
    then show ?thesis using inert by simp
  next
    case wait
    have "g' = g \<or> (\<exists>e \<in> snd ` set evs. \<exists>k r. dispatch_route e (rq_args rq) (http_parse_method rq) uri n (body_parts (take k evs)) RESP_BUF_SIZE g fresh_reply = (g', r))"
      using run_collecting [OF r [unfolded wait(2,3)] wait(4) assms(2,3)] by simp
    then show ?thesis using wait(1) by blast
  next
    case now
    have "g' = g1" using inert now(2) by simp
    moreover have "body_parts (take 0 evs) = []" by (simp add: body_parts_def)
    ultimately show ?thesis using now(1,3) by (metis insertI1)
  qed
qed


text \<open>A request with the given method header and path, and an authorization header.\<close>

definition demo_request :: "hdr \<Rightarrow> string \<Rightarrow> string \<Rightarrow> http_request" where
  "demo_request tok uri auth =
     \<lparr>rq_total_length = (\<lambda>h. if h = tok then int (length uri) else 0),
      rq_copy = (\<lambda>h n. if h = tok then (int (length uri), uri) else if h = WSI_TOKEN_HTTP_AUTHORIZATION then (int (length auth), auth) else (0, [])),
      rq_custom = (\<lambda>_ _. (0, [])), rq_args = demo_args\<rparr>"


section \<open>Clients without a token\<close>



section \<open>Sending\<close>

text \<open>A page of the dashboard longer than one piece: after the first piece no further callback is asked for, unlike for a JSON reply.\<close>

lemma long_page_stalls:
  assumes "hc_static conn = Some (data, ct)" "hc_sent conn = 0" "4096 < length data" "http_writeable True 4096 conn = (rc, user, outs)"
  shows "user \<noteq> None \<and> Want_Writeable \<notin> set outs"
  using assms by (cases "hc_headers_sent conn") (auto simp: http_writeable_def send_piece_def Let_def split: if_splits)

lemma long_reply_continues:
  assumes "hc_static conn = None" "hc_sent conn = 0" "4096 < length (rp_body (hc_reply conn))" "http_writeable True 4096 conn = (rc, user, outs)"
  shows "user \<noteq> None \<and> Want_Writeable \<in> set outs"
  using assms by (cases "hc_headers_sent conn") (auto simp: http_writeable_def send_piece_def Let_def split: if_splits)

end
