(* ===== verification/Asap_Registry.thy ===== *)
theory Asap_Registry
  imports Envelope Openai
begin

text \<open>
  \<open>src/asap/client.c\<close>, \<open>src/asap/registry.c\<close> and \<open>src/tools/asap_invoke.c\<close>: outbound tasks.  A target is found in the registry document,
  which is cached, and checked against the revocation list, which is fetched anew each time.  libcurl is the arguments \<open>get\<close> and
  \<open>post\<close>, \<open>clock\<close> the seconds of the monotonic clock, \<open>ulid\<close> the generator of theory \<open>Ulid\<close> with its state in the world.  Allocation
  succeeds; hooks compiled only for tests are left out.
\<close>

section \<open>\<open>client.c\<close>\<close>

record asap_client_config =
  timeout_sec :: int
  connect_timeout_sec :: int
  ssl_verifypeer :: int

type_synonym 'w client_get = "asap_client_config \<Rightarrow> string \<Rightarrow> string list \<Rightarrow> 'w \<Rightarrow> http_result \<times> 'w"
type_synonym 'w client_post = "asap_client_config \<Rightarrow> string \<Rightarrow> string list \<Rightarrow> string \<Rightarrow> 'w \<Rightarrow> http_result \<times> 'w"

definition asap_client_config_init :: asap_client_config where
  "asap_client_config_init = \<lparr>timeout_sec = 30, connect_timeout_sec = 30, ssl_verifypeer = 1\<rparr>"

definition asap_client_config_from_config :: "config option \<Rightarrow> asap_client_config" where
  "asap_client_config_from_config cfg =
     (case cfg of
        None \<Rightarrow> asap_client_config_init
      | Some c \<Rightarrow> asap_client_config_init\<lparr>timeout_sec := config_asap_client_timeout_sec c\<rparr>)"

text \<open>The options of the caller over the defaults, as three functions repeat it.\<close>

definition merge_client_opt :: "asap_client_config option \<Rightarrow> asap_client_config \<Rightarrow> asap_client_config" where
  "merge_client_opt client sc =
     (case client of
        None \<Rightarrow> sc
      | Some c \<Rightarrow>
          \<lparr>timeout_sec = (if timeout_sec c > 0 then timeout_sec c else timeout_sec sc),
           connect_timeout_sec = (if connect_timeout_sec c > 0 then connect_timeout_sec c else connect_timeout_sec sc),
           ssl_verifypeer = ssl_verifypeer c\<rparr>)"

text \<open>What the parser sees of the response buffer: the callback terminates the text it stores, but the fresh buffer is not initialised,
  so that an empty reply leaves the bytes \<open>garbage\<close> of an earlier use.\<close>

definition buffer_text :: "string \<Rightarrow> string \<Rightarrow> string" where
  "buffer_text garbage body = (if body = [] then cstr garbage else cstr body)"

definition ASAP_DEFAULT_JSONRPC_METHOD :: string where "ASAP_DEFAULT_JSONRPC_METHOD = ''asap.send''"

definition bearer_headers :: "string option \<Rightarrow> string list" where
  "bearer_headers bearer =
     ''Content-Type: application/json'' # (case bearer of None \<Rightarrow> [] | Some b \<Rightarrow> if b = [] then [] else [''Authorization: Bearer '' @ b])"

text \<open>\<open>Inl\<close> is the message for \<open>errbuf\<close>.\<close>

definition asap_client_send_task ::
  "(int \<Rightarrow> 64 word) \<Rightarrow> (string \<Rightarrow> cjson option) \<Rightarrow> (cjson \<Rightarrow> string option) \<Rightarrow> ('w \<Rightarrow> string option \<times> 'w) \<Rightarrow> 'w client_post \<Rightarrow> string
   \<Rightarrow> string \<Rightarrow> string option \<Rightarrow> string \<Rightarrow> asap_envelope \<Rightarrow> asap_client_config option \<Rightarrow> config option \<Rightarrow> 'w \<Rightarrow> (string + asap_envelope) \<times> 'w" where
  "asap_client_send_task conv parse print ulid post garbage url bearer jsonrpc_method env client cfg w =
     (let meth = (if jsonrpc_method \<noteq> [] then jsonrpc_method else ASAP_DEFAULT_JSONRPC_METHOD);
          sc = merge_client_opt client (asap_client_config_from_config cfg);
          (req_id, w1) = (case jsonrpc_request_id env of
                            Some i \<Rightarrow> (Some i, w)
                          | None \<Rightarrow> (case ulid w of (None, w1) \<Rightarrow> (None, w1) | (Some u, w1) \<Rightarrow> (Some (CString u), w1))) in
      case req_id of
        None \<Rightarrow> (Inl ''failed to generate id'', w1)
      | Some i \<Rightarrow>
          (case asap_envelope_to_jsonrpc_request_string print env (Some i) meth of
             None \<Rightarrow> (Inl ''failed to build request JSON'', w1)
           | Some body \<Rightarrow>
               (case post sc url (bearer_headers bearer) body w1 of
                  (Curl_Failed e, w2) \<Rightarrow> (Inl (''curl: '' @ e), w2)
                | (Http_Response code reply, w2) \<Rightarrow>
                    if code \<noteq> 200 then (Inl (''HTTP '' @ int_str code), w2)
                    else (asap_envelope_parse_jsonrpc_response conv parse (buffer_text garbage reply), w2))))"

section \<open>\<open>registry.c\<close>\<close>

subsection \<open>The registry document\<close>

record registry_agent =
  ra_urn :: string
  ra_base_url :: string
  ra_capabilities :: "string list"

type_synonym registry_index = "registry_agent list"

definition json_string_cstr :: "cjson \<Rightarrow> string \<Rightarrow> string option" where
  "json_string_cstr obj key =
     (case string_of (cJSON_GetObjectItemCaseSensitive obj key) of None \<Rightarrow> None | Some s \<Rightarrow> if s = [] then None else Some s)"

definition pick_urn :: "cjson \<Rightarrow> string option" where
  "pick_urn obj = (case json_string_cstr obj ''urn'' of Some s \<Rightarrow> Some s | None \<Rightarrow> json_string_cstr obj ''id'')"

definition pick_base_url :: "cjson \<Rightarrow> string option" where
  "pick_base_url obj =
     (case json_string_cstr obj ''base_url'' of
        Some s \<Rightarrow> Some s
      | None \<Rightarrow> (case json_string_cstr obj ''baseUrl'' of Some s \<Rightarrow> Some s | None \<Rightarrow> json_string_cstr obj ''endpoint''))"

fun capability_strings :: "cjson list \<Rightarrow> string + string list" where
  "capability_strings [] = Inr []"
| "capability_strings (CString s # its) = (case capability_strings its of Inl e \<Rightarrow> Inl e | Inr ss \<Rightarrow> Inr (s # ss))"
| "capability_strings (_ # its) = Inl ''capabilities entries must be strings''"

definition parse_capabilities :: "cjson \<Rightarrow> string + string list" where
  "parse_capabilities obj =
     (case cJSON_GetObjectItemCaseSensitive obj ''capabilities'' of
        None \<Rightarrow> Inr []
      | Some CNull \<Rightarrow> Inr []
      | Some (CArray its) \<Rightarrow> capability_strings its
      | Some _ \<Rightarrow> Inl ''capabilities must be a JSON array'')"

fun index_items :: "cjson list \<Rightarrow> registry_index \<Rightarrow> string + registry_index" where
  "index_items [] tmp = Inr tmp"
| "index_items (item # items) tmp =
     (if \<not> cJSON_IsObject item then index_items items tmp
      else case (pick_urn item, pick_base_url item) of
        (Some urn, Some base) \<Rightarrow>
          (case parse_capabilities item of
             Inl e \<Rightarrow> Inl e
           | Inr caps \<Rightarrow> index_items items (tmp @ [\<lparr>ra_urn = urn, ra_base_url = base, ra_capabilities = caps\<rparr>]))
      | _ \<Rightarrow> index_items items tmp)"

definition registry_index_from_json :: "(string \<Rightarrow> cjson option) \<Rightarrow> string \<Rightarrow> string + registry_index" where
  "registry_index_from_json parse json =
     (case parse json of
        None \<Rightarrow> Inl ''invalid JSON''
      | Some (CArray items) \<Rightarrow> index_items items []
      | Some (CObject ms) \<Rightarrow>
          (case cJSON_GetObjectItemCaseSensitive (CObject ms) ''agents'' of
             Some (CArray items) \<Rightarrow> index_items items []
           | _ \<Rightarrow> Inl ''missing agents array'')
      | Some _ \<Rightarrow> Inl ''registry root must be object or array'')"

definition registry_http_get_body :: "'w client_get \<Rightarrow> string \<Rightarrow> string \<Rightarrow> asap_client_config \<Rightarrow> 'w \<Rightarrow> (string + string) \<times> 'w" where
  "registry_http_get_body get garbage url sc w =
     (case get sc url [''Accept: application/json''] w of
        (Curl_Failed e, w') \<Rightarrow> (Inl e, w')
      | (Http_Response code body, w') \<Rightarrow> (if code \<noteq> 200 then Inl (''HTTP '' @ int_str code) else Inr (buffer_text garbage body), w'))"

definition registry_fetch ::
  "'w client_get \<Rightarrow> string \<Rightarrow> (string \<Rightarrow> cjson option) \<Rightarrow> string \<Rightarrow> asap_client_config option \<Rightarrow> 'w \<Rightarrow> (string + registry_index) \<times> 'w" where
  "registry_fetch get garbage parse url client_opt w =
     (case registry_http_get_body get garbage url (merge_client_opt client_opt asap_client_config_init) w of
        (Inl e, w') \<Rightarrow> (Inl e, w')
      | (Inr body, w') \<Rightarrow> (registry_index_from_json parse body, w'))"

subsection \<open>Revocation\<close>

definition REGISTRY_REVOCATION_DEFAULT_TIMEOUT_SEC :: int where "REGISTRY_REVOCATION_DEFAULT_TIMEOUT_SEC = 10"
definition REGISTRY_REVOCATION_DEFAULT_CONNECT_TIMEOUT_SEC :: int where "REGISTRY_REVOCATION_DEFAULT_CONNECT_TIMEOUT_SEC = 5"

fun revocation_pick_array :: "cjson \<Rightarrow> cjson list option" where
  "revocation_pick_array (CArray its) = Some its"
| "revocation_pick_array (CObject ms) =
     (case cJSON_GetObjectItemCaseSensitive (CObject ms) ''revoked'' of
        Some (CArray its) \<Rightarrow> Some its
      | _ \<Rightarrow> (case cJSON_GetObjectItemCaseSensitive (CObject ms) ''revoked_agents'' of
                Some (CArray its) \<Rightarrow> Some its
              | _ \<Rightarrow> (case cJSON_GetObjectItemCaseSensitive (CObject ms) ''revokedAgents'' of
                        Some (CArray its) \<Rightarrow> Some its
                      | _ \<Rightarrow> None)))"
| "revocation_pick_array _ = None"

text \<open>The test of one entry.\<close>

fun revocation_entry_matches :: "string \<Rightarrow> cjson \<Rightarrow> bool" where
  "revocation_entry_matches urn (CString s) = (s = urn)"
| "revocation_entry_matches urn (CObject ms) =
     ((case json_string_cstr (CObject ms) ''urn'' of Some u \<Rightarrow> Some u | None \<Rightarrow> json_string_cstr (CObject ms) ''id'') = Some urn)"
| "revocation_entry_matches urn _ = False"

definition revocation_json_contains_urn :: "(string \<Rightarrow> cjson option) \<Rightarrow> string \<Rightarrow> string \<Rightarrow> string + bool" where
  "revocation_json_contains_urn parse json urn =
     (case parse json of
        None \<Rightarrow> Inl ''invalid JSON''
      | Some root \<Rightarrow>
          (case revocation_pick_array root of
             None \<Rightarrow> Inl ''revocation list must be array or object with revoked array''
           | Some arr \<Rightarrow> Inr (list_ex (revocation_entry_matches urn) arr)))"

definition registry_revocation_list_contains ::
  "'w client_get \<Rightarrow> string \<Rightarrow> (string \<Rightarrow> cjson option) \<Rightarrow> string option \<Rightarrow> string \<Rightarrow> asap_client_config option \<Rightarrow> 'w \<Rightarrow> (string + bool) \<times> 'w" where
  "registry_revocation_list_contains get garbage parse revocation_list_url urn client_opt w =
     (case revocation_list_url of
        None \<Rightarrow> (Inr False, w)
      | Some url \<Rightarrow>
          if url = [] then (Inr False, w)
          else if urn = [] then (Inl ''invalid argument'', w)
          else let sc = (case client_opt of
                           Some c \<Rightarrow> merge_client_opt (Some c) asap_client_config_init
                         | None \<Rightarrow> asap_client_config_init\<lparr>timeout_sec := REGISTRY_REVOCATION_DEFAULT_TIMEOUT_SEC,
                                     connect_timeout_sec := REGISTRY_REVOCATION_DEFAULT_CONNECT_TIMEOUT_SEC\<rparr>) in
            (case registry_http_get_body get garbage url sc w of
               (Inl e, w') \<Rightarrow> (Inl e, w')
             | (Inr body, w') \<Rightarrow> (revocation_json_contains_urn parse body urn, w')))"

subsection \<open>The cache\<close>

record registry_cache =
  rc_index :: registry_index
  rc_url :: "string option"
  rc_fetched_at :: int
  rc_ttl_sec :: int
  rc_has_data :: bool

definition REGISTRY_DEFAULT_TTL_SEC :: int where "REGISTRY_DEFAULT_TTL_SEC = 300"

definition cache_stale :: "registry_cache \<Rightarrow> int \<Rightarrow> bool" where
  "cache_stale cache now =
     (if \<not> rc_has_data cache then True
      else if rc_ttl_sec cache \<le> 0 then True
      else now - rc_fetched_at cache \<ge> rc_ttl_sec cache)"

definition registry_cache_init :: registry_cache where
  "registry_cache_init = \<lparr>rc_index = [], rc_url = None, rc_fetched_at = 0, rc_ttl_sec = REGISTRY_DEFAULT_TTL_SEC, rc_has_data = False\<rparr>"

definition registry_cache_clear :: "registry_cache \<Rightarrow> registry_cache" where
  "registry_cache_clear cache = cache\<lparr>rc_index := [], rc_url := None, rc_has_data := False\<rparr>"

definition registry_cache_set_ttl :: "int \<Rightarrow> registry_cache \<Rightarrow> registry_cache" where
  "registry_cache_set_ttl ttl cache = cache\<lparr>rc_ttl_sec := (if ttl > 0 then ttl else REGISTRY_DEFAULT_TTL_SEC)\<rparr>"

definition registry_cache_get ::
  "'w client_get \<Rightarrow> string \<Rightarrow> (string \<Rightarrow> cjson option) \<Rightarrow> ('w \<Rightarrow> int option) \<Rightarrow> registry_cache \<Rightarrow> string \<Rightarrow> asap_client_config option \<Rightarrow> 'w
   \<Rightarrow> (string + registry_index) \<times> registry_cache \<times> 'w" where
  "registry_cache_get get garbage parse clock cache url client_opt w =
     (case clock w of
        None \<Rightarrow> (Inl ''clock_gettime failed'', cache, w)
      | Some now \<Rightarrow>
          if rc_has_data cache \<and> rc_url cache = Some url \<and> \<not> cache_stale cache now then (Inr (rc_index cache), cache, w)
          else case registry_fetch get garbage parse url client_opt w of
            (Inr fresh, w') \<Rightarrow>
              (Inr fresh, cache\<lparr>rc_index := fresh, rc_url := Some url, rc_has_data := True,
                 rc_fetched_at := (case clock w' of Some t \<Rightarrow> t | None \<Rightarrow> now)\<rparr>, w')
          | (Inl e, w') \<Rightarrow>
              if rc_has_data cache \<and> rc_url cache = Some url then (Inr (rc_index cache), cache, w')
              else (Inl e, cache, w'))"

definition registry_index_find_urn :: "registry_index \<Rightarrow> string \<Rightarrow> registry_agent option" where
  "registry_index_find_urn idx urn = find (\<lambda>a. ra_urn a = urn) idx"

text \<open>The fields of \<open>registry_resolve_ctx_t\<close> beside the cache are arguments.\<close>

definition registry_resolve ::
  "'w client_get \<Rightarrow> string \<Rightarrow> (string \<Rightarrow> cjson option) \<Rightarrow> ('w \<Rightarrow> int option) \<Rightarrow> string option \<Rightarrow> string option \<Rightarrow> asap_client_config option \<Rightarrow> string
   \<Rightarrow> registry_cache \<Rightarrow> 'w \<Rightarrow> (string + registry_agent) \<times> registry_cache \<times> 'w" where
  "registry_resolve get garbage parse clock registry_url revocation_list_url client_opt urn cache w =
     (case registry_url of
        None \<Rightarrow> (Inl ''invalid argument'', cache, w)
      | Some url \<Rightarrow>
          if url = [] \<or> urn = [] then (Inl ''invalid argument'', cache, w)
          else case registry_revocation_list_contains get garbage parse revocation_list_url urn client_opt w of
            (Inl e, w1) \<Rightarrow> (Inl e, cache, w1)
          | (Inr True, w1) \<Rightarrow> (Inl ''agent URN is revoked'', cache, w1)
          | (Inr False, w1) \<Rightarrow>
              (case registry_cache_get get garbage parse clock cache url client_opt w1 of
                 (Inl e, cache', w2) \<Rightarrow> (Inl e, cache', w2)
               | (Inr idx, cache', w2) \<Rightarrow>
                   (case registry_index_find_urn idx urn of
                      None \<Rightarrow> (Inl ''URN not found in registry'', cache', w2)
                    | Some found \<Rightarrow> (Inr found, cache', w2))))"

definition registry_refresh ::
  "'w client_get \<Rightarrow> string \<Rightarrow> (string \<Rightarrow> cjson option) \<Rightarrow> ('w \<Rightarrow> int option) \<Rightarrow> string option \<Rightarrow> asap_client_config option \<Rightarrow> registry_cache \<Rightarrow> 'w
   \<Rightarrow> string option \<times> registry_cache \<times> 'w" where
  "registry_refresh get garbage parse clock registry_url client_opt cache w =
     (case registry_url of
        None \<Rightarrow> (Some ''invalid argument'', cache, w)
      | Some url \<Rightarrow>
          if url = [] then (Some ''invalid argument'', cache, w)
          else case registry_fetch get garbage parse url client_opt w of
            (Inl e, w') \<Rightarrow> (Some e, cache, w')
          | (Inr fresh, w') \<Rightarrow>
              (None, cache\<lparr>rc_index := fresh, rc_url := Some url, rc_has_data := True,
                 rc_fetched_at := (case clock w' of Some t \<Rightarrow> t | None \<Rightarrow> rc_fetched_at cache)\<rparr>, w'))"

section \<open>\<open>asap_invoke.c\<close>\<close>

definition error_text :: "string \<Rightarrow> string" where
  "error_text msg = ''{'' @ [dquote] @ ''error'' @ [dquote] @ '':'' @ [dquote] @ msg @ [dquote] @ ''}''"

definition extract_response_text :: "(cjson \<Rightarrow> string option) \<Rightarrow> asap_envelope \<Rightarrow> string" where
  "extract_response_text print resp =
     (case payload resp of
        None \<Rightarrow> ''(empty response)''
      | Some pl \<Rightarrow>
          (case cJSON_GetObjectItem pl ''result'' of
             Some (CString s) \<Rightarrow> s
           | _ \<Rightarrow> (case print pl of Some s \<Rightarrow> s | None \<Rightarrow> ''(serialisation error)'')))"

definition task_payload :: "cjson \<Rightarrow> cjson \<Rightarrow> cjson" where
  "task_payload root input_node =
     CObject ((case cJSON_GetObjectItem root ''skill_id'' of
                 Some (CString s) \<Rightarrow> if s \<noteq> [] then [(''skill_id'', CString s)] else []
               | _ \<Rightarrow> []) @ [(''input'', input_node)])"

text \<open>The configuration may be missing (\<open>s_cfg\<close> is \<open>NULL\<close>).\<close>

definition task_envelope :: "config option \<Rightarrow> string \<Rightarrow> string \<Rightarrow> cjson \<Rightarrow> asap_envelope" where
  "task_envelope s_cfg ulid_buf urn pl =
     asap_envelope_init\<lparr>env_id := Some ulid_buf, asap_version := Some ''2.1'',
       sender := Some (case s_cfg of Some c \<Rightarrow> config_asap_agent_urn c | None \<Rightarrow> []),
       recipient := Some urn, payload_type := Some ''task.request'', payload := Some pl\<rparr>"

text \<open>The second half of \<open>asap_invoke_execute\<close>: resolve and send.\<close>

definition delegate_task ::
  "(int \<Rightarrow> 64 word) \<Rightarrow> (string \<Rightarrow> cjson option) \<Rightarrow> (cjson \<Rightarrow> string option) \<Rightarrow> ('w \<Rightarrow> string option \<times> 'w) \<Rightarrow> 'w client_get \<Rightarrow> 'w client_post
   \<Rightarrow> ('w \<Rightarrow> int option) \<Rightarrow> string \<Rightarrow> config option \<Rightarrow> nat \<Rightarrow> string \<Rightarrow> asap_envelope \<Rightarrow> registry_cache \<Rightarrow> 'w \<Rightarrow> int \<times> string \<times> registry_cache \<times> 'w" where
  "delegate_task conv parse print ulid get post clock garbage s_cfg max_len urn req_env cache w =
     (let ccfg = asap_client_config_from_config s_cfg;
          url_of = (\<lambda>f. case s_cfg of Some c \<Rightarrow> f (c_asap c) | None \<Rightarrow> None) in
      case registry_resolve get garbage parse clock (url_of asap_registry_url) (url_of asap_revocation_list_url) (Some ccfg) urn cache w of
        (Inl e, cache', w2) \<Rightarrow>
          (-1, buf_trunc max_len (error_text (''registry resolve failed: '' @ (if e \<noteq> [] then buf_trunc 256 e else ''unknown''))), cache', w2)
      | (Inr agent, cache', w2) \<Rightarrow>
          (case asap_client_send_task conv parse print ulid post garbage (ra_base_url agent) None ASAP_DEFAULT_JSONRPC_METHOD req_env (Some ccfg) s_cfg w2 of
             (Inl e, w3) \<Rightarrow>
               (-1, buf_trunc max_len (error_text (''send_task failed: '' @ (if e \<noteq> [] then buf_trunc 256 e else ''transport error''))), cache', w3)
           | (Inr resp_env, w3) \<Rightarrow> (0, buf_trunc max_len (extract_response_text print resp_env), cache', w3)))"

text \<open>The result is the code and the text for the model.\<close>

definition asap_invoke_execute ::
  "(int \<Rightarrow> 64 word) \<Rightarrow> (string \<Rightarrow> cjson option) \<Rightarrow> (cjson \<Rightarrow> string option) \<Rightarrow> ('w \<Rightarrow> string option \<times> 'w) \<Rightarrow> 'w client_get \<Rightarrow> 'w client_post
   \<Rightarrow> ('w \<Rightarrow> int option) \<Rightarrow> string \<Rightarrow> config option \<Rightarrow> string \<Rightarrow> nat \<Rightarrow> registry_cache \<Rightarrow> 'w \<Rightarrow> int \<times> string \<times> registry_cache \<times> 'w" where
  "asap_invoke_execute conv parse print ulid get post clock garbage s_cfg args_json max_len cache w =
     (case parse args_json of
        None \<Rightarrow> (-1, buf_trunc max_len (error_text ''invalid JSON''), cache, w)
      | Some root \<Rightarrow>
          (case string_of (cJSON_GetObjectItem root ''urn'') of
             None \<Rightarrow> (-1, buf_trunc max_len (error_text ''urn required''), cache, w)
           | Some urn \<Rightarrow>
               if urn = [] then (-1, buf_trunc max_len (error_text ''urn required''), cache, w)
               else case cJSON_GetObjectItem root ''input'' of
                 Some (CObject ms) \<Rightarrow>
                   (case ulid w of
                      (None, w1) \<Rightarrow> (-1, buf_trunc max_len (error_text ''failed to generate ULID''), cache, w1)
                    | (Some u, w1) \<Rightarrow>
                        delegate_task conv parse print ulid get post clock garbage s_cfg max_len urn
                          (task_envelope s_cfg u urn (task_payload root (CObject ms))) cache w1)
               | _ \<Rightarrow> (-1, buf_trunc max_len (error_text ''input object required''), cache, w)))"

section \<open>Where a registry entry comes from\<close>

text \<open>\<open>served u body\<close>: a request for \<open>u\<close> was answered with this body.  What the cache holds was read from an answer for its address.\<close>

definition cache_from :: "(string \<Rightarrow> cjson option) \<Rightarrow> string \<Rightarrow> (string \<Rightarrow> string \<Rightarrow> bool) \<Rightarrow> registry_cache \<Rightarrow> bool" where
  "cache_from parse garbage served cache \<longleftrightarrow>
     (rc_has_data cache \<longrightarrow> (\<exists>u body. rc_url cache = Some u \<and> served u body \<and>
        registry_index_from_json parse (buffer_text garbage body) = Inr (rc_index cache)))"

definition serves :: "'w client_get \<Rightarrow> (string \<Rightarrow> string \<Rightarrow> bool) \<Rightarrow> bool" where
  "serves get served \<longleftrightarrow> (\<forall>c u h w body w'. get c u h w = (Http_Response 200 body, w') \<longrightarrow> served u body)"

lemma servesD: "serves get served \<Longrightarrow> get c u h w = (Http_Response 200 body, w') \<Longrightarrow> served u body"
  unfolding serves_def by blast

lemma cache_from_init: "cache_from parse garbage served registry_cache_init" "cache_from parse garbage served (registry_cache_clear cache)"
  by (simp_all add: cache_from_def registry_cache_init_def registry_cache_clear_def)

lemma cache_from_set_ttl: "cache_from parse garbage served cache \<Longrightarrow> cache_from parse garbage served (registry_cache_set_ttl ttl cache)"
  by (simp add: cache_from_def registry_cache_set_ttl_def)

lemma get_body_Inr:
  "registry_http_get_body get garbage url sc w = (Inr t, w') \<longleftrightarrow>
     (\<exists>body. get sc url [''Accept: application/json''] w = (Http_Response 200 body, w') \<and> t = buffer_text garbage body)"
  by (auto simp: registry_http_get_body_def split: prod.splits http_result.splits if_splits)

lemma fetch_Inr:
  assumes "registry_fetch get garbage parse url opt w = (Inr idx, w')"
  obtains sc body where "get sc url [''Accept: application/json''] w = (Http_Response 200 body, w')"
    "registry_index_from_json parse (buffer_text garbage body) = Inr idx"
proof -
  obtain t where "registry_http_get_body get garbage url (merge_client_opt opt asap_client_config_init) w = (Inr t, w')"
    "registry_index_from_json parse t = Inr idx"
    using assms by (auto simp: registry_fetch_def split: prod.splits sum.splits)
  then show thesis using that by (auto simp: get_body_Inr)
qed

lemma cache_get_from:
  assumes "registry_cache_get get garbage parse clock cache url opt w = (r, cache', w')" "cache_from parse garbage served cache"
    and "serves get served"
  shows "cache_from parse garbage served cache'"
    "r = Inr idx \<Longrightarrow> \<exists>body. served url body \<and> registry_index_from_json parse (buffer_text garbage body) = Inr idx"
proof -
  have "cache_from parse garbage served cache' \<and>
    (\<forall>idx. r = Inr idx \<longrightarrow> (\<exists>body. served url body \<and> registry_index_from_json parse (buffer_text garbage body) = Inr idx))"
  proof (cases "cache' = cache")
    case True
    have "r \<noteq> Inr i \<or> rc_has_data cache \<and> rc_url cache = Some url \<and> i = rc_index cache \<or> (\<exists>w2. registry_fetch get garbage parse url opt w = (Inr i, w2))" for i
      using assms(1) by (auto simp: registry_cache_get_def split: option.splits if_splits prod.splits sum.splits)
    moreover have "\<exists>body. served url body \<and> registry_index_from_json parse (buffer_text garbage body) = Inr i"
      if "registry_fetch get garbage parse url opt w = (Inr i, w2)" for i w2
      by (rule fetch_Inr [OF that]) (use servesD [OF assms(3)] in blast)
    ultimately show ?thesis using True assms(2) by (fastforce simp: cache_from_def)
  next
    case False
    then obtain fresh w2 where f: "registry_fetch get garbage parse url opt w = (Inr fresh, w2)" "r = Inr fresh" "rc_index cache' = fresh"
      "rc_url cache' = Some url"
      using assms(1) by (auto simp: registry_cache_get_def split: option.splits if_splits prod.splits sum.splits)
    obtain body where "served url body" "registry_index_from_json parse (buffer_text garbage body) = Inr fresh"
      by (rule fetch_Inr [OF f(1)]) (use servesD [OF assms(3)] in blast)
    then show ?thesis using f by (auto simp: cache_from_def)
  qed
  then show "cache_from parse garbage served cache'"
    "r = Inr idx \<Longrightarrow> \<exists>body. served url body \<and> registry_index_from_json parse (buffer_text garbage body) = Inr idx" by blast+
qed

lemma refresh_from:
  assumes "registry_refresh get garbage parse clock url opt cache w = (r, cache', w')" "cache_from parse garbage served cache"
    and "serves get served"
  shows "cache_from parse garbage served cache'"
proof (cases "r = None")
  case True
  then obtain u fresh w2 where f: "url = Some u" "registry_fetch get garbage parse u opt w = (Inr fresh, w2)" "rc_index cache' = fresh" "rc_url cache' = Some u"
    using assms(1) by (auto simp: registry_refresh_def split: option.splits if_splits prod.splits sum.splits)
  obtain body where "served u body" "registry_index_from_json parse (buffer_text garbage body) = Inr fresh"
    by (rule fetch_Inr [OF f(2)]) (use servesD [OF assms(3)] in blast)
  then show ?thesis using f by (auto simp: cache_from_def)
next
  case False
  then show ?thesis using assms(1,2) by (auto simp: registry_refresh_def split: option.splits if_splits prod.splits sum.splits)
qed

lemma revocation_passed:
  assumes "registry_revocation_list_contains get garbage parse url urn opt w = (Inr False, w')" "url = Some rl" "rl \<noteq> []"
  shows "\<exists>sc body. get sc rl [''Accept: application/json''] w = (Http_Response 200 body, w') \<and>
    revocation_json_contains_urn parse (buffer_text garbage body) urn = Inr False"
proof -
  obtain sc t where "registry_http_get_body get garbage rl sc w = (Inr t, w')" "revocation_json_contains_urn parse t urn = Inr False"
    using assms unfolding registry_revocation_list_contains_def Let_def by (auto split: if_splits prod.splits sum.splits)
  then show ?thesis by (auto simp: get_body_Inr)
qed

lemma find_urn_Some: "registry_index_find_urn idx urn = Some a \<Longrightarrow> a \<in> set idx \<and> ra_urn a = urn"
  by (auto simp: registry_index_find_urn_def find_Some_iff)

section \<open>What a call sends\<close>

text \<open>An observer of the requests: an address, with a body when it is a POST.\<close>

definition observed ::
  "('w \<Rightarrow> (string \<times> string option) list) \<Rightarrow> 'w client_get \<Rightarrow> 'w client_post \<Rightarrow> ('w \<Rightarrow> string option \<times> 'w) \<Rightarrow> bool" where
  "observed tr get post ulid \<longleftrightarrow>
     (\<forall>c u h w. tr (snd (get c u h w)) = tr w @ [(u, None)]) \<and> (\<forall>c u h b w. tr (snd (post c u h b w)) = tr w @ [(u, Some b)]) \<and>
     (\<forall>w. tr (snd (ulid w)) = tr w)"

definition only_gets :: "('w \<Rightarrow> (string \<times> string option) list) \<Rightarrow> 'w \<Rightarrow> 'w \<Rightarrow> bool" where
  "only_gets tr w w' \<longleftrightarrow> (\<exists>evs. tr w' = tr w @ evs \<and> (\<forall>e \<in> set evs. snd e = None))"

lemma only_gets_refl [simp]: "only_gets tr w w"
  by (simp add: only_gets_def)

lemma only_gets_trans: "only_gets tr w w1 \<Longrightarrow> only_gets tr w1 w2 \<Longrightarrow> only_gets tr w w2"
  by (fastforce simp: only_gets_def)

lemma get_body_quiet:
  assumes "observed tr get post ulid" "registry_http_get_body get garbage url sc w = (r, w')"
  shows "only_gets tr w w'"
proof -
  have "w' = snd (get sc url [''Accept: application/json''] w)"
    using assms(2) by (auto simp: registry_http_get_body_def split: prod.splits http_result.splits)
  then have "tr w' = tr w @ [(url, None)]" using assms(1) by (simp add: observed_def)
  then show ?thesis by (simp add: only_gets_def)
qed

lemma fetch_quiet: "observed tr get post ulid \<Longrightarrow> registry_fetch get garbage parse url opt w = (r, w') \<Longrightarrow> only_gets tr w w'"
  by (auto simp: registry_fetch_def split: prod.splits sum.splits dest: get_body_quiet)

lemma revocation_quiet:
  "observed tr get post ulid \<Longrightarrow> registry_revocation_list_contains get garbage parse url urn opt w = (r, w') \<Longrightarrow> only_gets tr w w'"
  by (auto simp: registry_revocation_list_contains_def Let_def split: option.splits if_splits prod.splits sum.splits dest: get_body_quiet)

lemma cache_get_quiet:
  "observed tr get post ulid \<Longrightarrow> registry_cache_get get garbage parse clock cache url opt w = (r, cache', w') \<Longrightarrow> only_gets tr w w'"
  by (auto simp: registry_cache_get_def split: option.splits if_splits prod.splits sum.splits dest: fetch_quiet)

lemma resolve_quiet:
  assumes "observed tr get post ulid" "registry_resolve get garbage parse clock ru rl opt urn cache w = (r, cache', w')"
  shows "only_gets tr w w'"
  using assms revocation_quiet [OF assms(1)] cache_get_quiet [OF assms(1)]
  by (auto simp: registry_resolve_def split: option.splits if_splits prod.splits sum.splits bool.splits intro: only_gets_trans) (blast intro: only_gets_trans)+

lemma resolve_cache_from:
  assumes "registry_resolve get garbage parse clock ru rl opt urn cache w = (r, cache', w')" "cache_from parse garbage served cache"
    and "serves get served"
  shows "cache_from parse garbage served cache'"
proof (cases "cache' = cache")
  case False
  then obtain url w1 r1 where "registry_cache_get get garbage parse clock cache url opt w1 = (r1, cache', w')"
    using assms(1) by (auto simp: registry_resolve_def split: option.splits if_splits prod.splits sum.splits bool.splits)
  then show ?thesis using assms(2,3) by (rule cache_get_from(1))
qed (use assms(2) in simp)

text \<open>An agent that was resolved: listed in a document of the registry and, when there is a revocation list, absent from the list as it is now.\<close>

definition vetted ::
  "'w client_get \<Rightarrow> string \<Rightarrow> (string \<Rightarrow> cjson option) \<Rightarrow> (string \<Rightarrow> string \<Rightarrow> bool) \<Rightarrow> string option \<Rightarrow> string option \<Rightarrow> 'w \<Rightarrow> string \<Rightarrow> registry_agent \<Rightarrow> bool" where
  "vetted get garbage parse served ru rl w urn agent \<longleftrightarrow>
     (\<exists>url body idx. ru = Some url \<and> served url body \<and> registry_index_from_json parse (buffer_text garbage body) = Inr idx \<and>
        agent \<in> set idx \<and> ra_urn agent = urn) \<and>
     (\<forall>u. rl = Some u \<and> u \<noteq> [] \<longrightarrow> (\<exists>sc body w'. get sc u [''Accept: application/json''] w = (Http_Response 200 body, w') \<and>
        revocation_json_contains_urn parse (buffer_text garbage body) urn = Inr False))"

lemma resolve_vetted:
  assumes "registry_resolve get garbage parse clock ru rl opt urn cache w = (Inr agent, cache', w')" "cache_from parse garbage served cache"
    and "serves get served"
  shows "vetted get garbage parse served ru rl w urn agent"
proof -
  obtain url w1 idx where u: "ru = Some url" and r: "registry_revocation_list_contains get garbage parse rl urn opt w = (Inr False, w1)"
    and c: "registry_cache_get get garbage parse clock cache url opt w1 = (Inr idx, cache', w')" and f: "registry_index_find_urn idx urn = Some agent"
    using assms(1) by (auto simp: registry_resolve_def split: option.splits if_splits prod.splits sum.splits bool.splits)
  obtain body where "served url body" "registry_index_from_json parse (buffer_text garbage body) = Inr idx"
    using cache_get_from(2) [OF c assms(2,3) refl] by blast
  moreover have "\<exists>sc body w'. get sc v [''Accept: application/json''] w = (Http_Response 200 body, w') \<and>
      revocation_json_contains_urn parse (buffer_text garbage body) urn = Inr False" if "rl = Some v \<and> v \<noteq> []" for v
    using revocation_passed [OF r] that by blast
  ultimately show ?thesis using u find_urn_Some [OF f] unfolding vetted_def by auto
qed

lemma send_task_posts:
  assumes "observed tr get post ulid" "asap_client_send_task conv parse print ulid post garbage url bearer m env client cfg w = (r, w')"
  shows "tr w' = tr w \<or> (\<exists>b i. tr w' = tr w @ [(url, Some b)] \<and>
    asap_envelope_to_jsonrpc_request_string print env (Some i) (if m \<noteq> [] then m else ASAP_DEFAULT_JSONRPC_METHOD) = Some b)"
proof -
  have o: "tr (snd (post c u h b w)) = tr w @ [(u, Some b)]" "tr (snd (ulid w)) = tr w" for c u h b w using assms(1) by (simp_all add: observed_def)
  define start where "start = (case jsonrpc_request_id env of Some i \<Rightarrow> (Some i, w)
      | None \<Rightarrow> (case ulid w of (None, w1) \<Rightarrow> (None, w1) | (Some u, w1) \<Rightarrow> (Some (CString u), w1)))"
  have s: "tr (snd start) = tr w" using o(2) [of w] by (auto simp: start_def split: option.splits prod.splits)
  let ?m = "if m \<noteq> [] then m else ASAP_DEFAULT_JSONRPC_METHOD"
  let ?sc = "merge_client_opt client (asap_client_config_from_config cfg)"
  consider "w' = snd start" | i b where "asap_envelope_to_jsonrpc_request_string print env (Some i) ?m = Some b"
      "w' = snd (post ?sc url (bearer_headers bearer) b (snd start))"
    using assms(2) unfolding asap_client_send_task_def Let_def start_def [symmetric]
    by (cases start) (fastforce split: option.splits prod.splits http_result.splits if_splits)
  then show ?thesis using o(1) s by cases auto
qed

text \<open>The request that a call posts, when it posts one.\<close>

definition request_to ::
  "'w client_get \<Rightarrow> string \<Rightarrow> (string \<Rightarrow> cjson option) \<Rightarrow> (cjson \<Rightarrow> string option) \<Rightarrow> (string \<Rightarrow> string \<Rightarrow> bool) \<Rightarrow> config option \<Rightarrow> 'w \<Rightarrow> string
   \<Rightarrow> string \<Rightarrow> string \<Rightarrow> bool" where
  "request_to get garbage parse print served s_cfg w urn u b \<longleftrightarrow>
     (\<exists>c agent env i. s_cfg = Some c \<and>
        vetted get garbage parse served (asap_registry_url (c_asap c)) (asap_revocation_list_url (c_asap c)) w urn agent \<and> u = ra_base_url agent \<and>
        asap_envelope_to_jsonrpc_request_string print env (Some i) ''asap.send'' = Some b \<and> recipient env = Some urn \<and>
        sender env = Some (config_asap_agent_urn c))"

lemma delegate_requests:
  assumes "observed tr get post ulid" "serves get served" "cache_from parse garbage served cache"
    and "delegate_task conv parse print ulid get post clock garbage s_cfg max_len urn (task_envelope s_cfg v urn pl) cache w = (code, out, cache', w')"
  shows "cache_from parse garbage served cache'"
    and "\<exists>gs ps. tr w' = tr w @ gs @ ps \<and> (\<forall>e \<in> set gs. snd e = None) \<and>
      (ps = [] \<or> (\<exists>u b. ps = [(u, Some b)] \<and> request_to get garbage parse print served s_cfg w urn u b))"
proof -
  let ?url = "\<lambda>f. case s_cfg of Some c \<Rightarrow> f (c_asap c) | None \<Rightarrow> None"
  obtain r w2 where r: "registry_resolve get garbage parse clock (?url asap_registry_url) (?url asap_revocation_list_url)
      (Some (asap_client_config_from_config s_cfg)) urn cache w = (r, cache', w2)"
    using assms(4) by (auto simp: delegate_task_def Let_def split: prod.splits sum.splits)
  show "cache_from parse garbage served cache'" by (rule resolve_cache_from [OF r assms(3,2)])
  obtain gs where gs: "tr w2 = tr w @ gs" "\<forall>e \<in> set gs. snd e = None" using resolve_quiet [OF assms(1) r] by (auto simp: only_gets_def)
  show "\<exists>gs ps. tr w' = tr w @ gs @ ps \<and> (\<forall>e \<in> set gs. snd e = None) \<and>
      (ps = [] \<or> (\<exists>u b. ps = [(u, Some b)] \<and> request_to get garbage parse print served s_cfg w urn u b))"
  proof (cases r)
    case (Inl e)
    then have "w' = w2" using assms(4) r by (auto simp: delegate_task_def Let_def)
    then show ?thesis using gs by auto
  next
    case (Inr agent)
    obtain q where q: "asap_client_send_task conv parse print ulid post garbage (ra_base_url agent) None ASAP_DEFAULT_JSONRPC_METHOD
        (task_envelope s_cfg v urn pl) (Some (asap_client_config_from_config s_cfg)) s_cfg w2 = (q, w')"
      using assms(4) r Inr by (auto simp: delegate_task_def Let_def split: prod.splits sum.splits)
    note v = resolve_vetted [OF r [unfolded Inr] assms(3,2)]
    obtain c where c: "s_cfg = Some c" using v by (cases s_cfg) (auto simp: vetted_def)
    from send_task_posts [OF assms(1) q] show ?thesis
    proof
      assume "tr w' = tr w2"
      then show ?thesis using gs by auto
    next
      assume "\<exists>b i. tr w' = tr w2 @ [(ra_base_url agent, Some b)] \<and> asap_envelope_to_jsonrpc_request_string print (task_envelope s_cfg v urn pl) (Some i)
          (if ASAP_DEFAULT_JSONRPC_METHOD \<noteq> [] then ASAP_DEFAULT_JSONRPC_METHOD else ASAP_DEFAULT_JSONRPC_METHOD) = Some b"
      then obtain b i where b: "tr w' = tr w @ gs @ [(ra_base_url agent, Some b)]"
        "asap_envelope_to_jsonrpc_request_string print (task_envelope s_cfg v urn pl) (Some i) ''asap.send'' = Some b"
        using gs(1) by (auto simp: ASAP_DEFAULT_JSONRPC_METHOD_def)
      have "recipient (task_envelope s_cfg v urn pl) = Some urn" "sender (task_envelope s_cfg v urn pl) = Some (config_asap_agent_urn c)"
        by (simp_all add: task_envelope_def c)
      then have "request_to get garbage parse print served s_cfg w urn (ra_base_url agent) b"
        unfolding request_to_def using v b(2) c by auto
      then show ?thesis using b(1) gs(2) by blast
    qed
  qed
qed


definition demo_asap_cfg :: config where
  "demo_asap_cfg = config_defaults\<lparr>c_asap := (c_asap config_defaults)\<lparr>asap_registry_url := Some ''r'', asap_revocation_list_url := Some ''v''\<rparr>\<rparr>"

definition demo_asap_parse :: "string \<Rightarrow> cjson option" where
  "demo_asap_parse t =
     (if t = ''args'' then Some (CObject [(''urn'', CString ''u1''), (''input'', CObject [])])
      else if t = ''reg'' then Some (CArray [CObject [(''urn'', CString ''u1''), (''base_url'', CString ''http://a'')]])
      else if t = ''rev'' then Some (CArray [CString ''u2'']) else None)"

definition demo_get :: "(string \<times> string option) list client_get" where
  "demo_get c u h w = (Http_Response 200 (if u = ''r'' then ''reg'' else ''rev''), w @ [(u, None)])"

definition demo_post :: "(string \<times> string option) list client_post" where
  "demo_post c u h b w = (Http_Response 200 ''ok'', w @ [(u, Some b)])"


text \<open>A reply without a body is parsed from whatever the buffer held before.\<close>

theorem empty_reply_parses_garbage:
  "fst (registry_fetch (\<lambda>c u h w. (Http_Response 200 [], w)) ''reg'' demo_asap_parse ''r'' None ()) =
     Inr [\<lparr>ra_urn = ''u1'', ra_base_url = ''http://a'', ra_capabilities = []\<rparr>]"
  by code_simp

end
