(* ===== verification/Lifecycle.thy ===== *)
theory Lifecycle
  imports Config Atomic_Write Channel_Common
begin

text \<open>
  The life of the process: the command line and the end of \<open>main\<close> (\<open>src/core/main.c\<close>), start-up and clean-up of the subsystems
  (\<open>bootstrap.c\<close>), daemon mode (\<open>daemon.c\<close>) and the reload of the configuration with its list of stale configurations (\<open>reload.c\<close>).  A
  configuration is an address; the state records which addresses are allocated, which were freed, in order, and who holds
  which.  The thread of the gateway runs beside the main thread, so that the end of the process is a sequence of events in which
  its reloads may fall.
\<close>

section \<open>Definitions\<close>

subsection \<open>The command line\<close>

record cli_args =
  ca_config_path :: string
  ca_one_shot :: "string option"
  ca_verbose :: bool
  ca_daemon :: bool

datatype cli_outcome = Cli_Version | Cli_Detect_Board | Cli_Rotate_Keys | Cli_Error | Cli_Run cli_args

definition cli_defaults :: cli_args where
  "cli_defaults = \<lparr>ca_config_path = ''~/.shellclaw/config.toml'', ca_one_shot = None, ca_verbose = False, ca_daemon = False\<rparr>"

fun parse_args_loop :: "string list \<Rightarrow> cli_args \<Rightarrow> cli_outcome" where
  "parse_args_loop [] a = Cli_Run a"
| "parse_args_loop (x # xs) a =
     (if x = ''--version'' then Cli_Version
      else if x = ''--detect-board'' then Cli_Detect_Board
      else if x = ''--rotate-keys'' then Cli_Rotate_Keys
      else if x = ''--verbose'' then parse_args_loop xs (a\<lparr>ca_verbose := True\<rparr>)
      else if x = ''--daemon'' then parse_args_loop xs (a\<lparr>ca_daemon := True\<rparr>)
      else if x = ''--config'' then (case xs of [] \<Rightarrow> Cli_Error | v # ys \<Rightarrow> parse_args_loop ys (a\<lparr>ca_config_path := v\<rparr>))
      else if x = ''-m'' then (case xs of [] \<Rightarrow> Cli_Error | v # ys \<Rightarrow> parse_args_loop ys (a\<lparr>ca_one_shot := Some v\<rparr>))
      else Cli_Error)"

definition parse_args :: "string list \<Rightarrow> cli_outcome" where
  "parse_args argv = parse_args_loop argv cli_defaults"

subsection \<open>Daemon mode\<close>

text \<open>The process after the second fork.  \<open>dv_\<close> are the results of the system calls; the lock fails when another process holds it.\<close>

record daemon_env =
  dv_getenv :: "string \<Rightarrow> string option"
  dv_mkdir :: bool
  dv_open_log :: bool
  dv_open_null :: bool
  dv_dup2 :: bool
  dv_open_pid :: bool
  dv_lock :: bool
  dv_ftruncate :: bool
  dv_write :: "nat \<Rightarrow> int"
  dv_pid :: int

record daemon_state =
  g_pid_fd :: bool
  g_pid_path_alloc :: "string option"
  dm_fs :: fsys

definition daemon_base :: "daemon_env \<Rightarrow> string" where
  "daemon_base e = config_expand_tilde (dv_getenv e) ''~/.shellclaw''"

definition pid_text :: "daemon_env \<Rightarrow> string" where
  "pid_text e = int_str (dv_pid e) @ [newline]"

definition open_create :: "string \<Rightarrow> fsys \<Rightarrow> fsys" where
  "open_create path fs = (case fs path of None \<Rightarrow> fs(path \<mapsto> []) | Some _ \<Rightarrow> fs)"

text \<open>From the lock on: \<open>pidpath\<close> is open.\<close>

definition write_pid_file :: "daemon_env \<Rightarrow> string \<Rightarrow> daemon_state \<Rightarrow> bool \<times> daemon_state" where
  "write_pid_file e pidpath s =
     (if \<not> dv_lock e then (False, s\<lparr>g_pid_fd := False\<rparr>)
      else if \<not> dv_ftruncate e then (False, s\<lparr>g_pid_fd := False\<rparr>)
      else let n = length (pid_text e); w = dv_write e n; s1 = s\<lparr>dm_fs := (dm_fs s)(pidpath \<mapsto> take (nat w) (pid_text e))\<rparr> in
        if n \<ge> 64 then (False, s\<lparr>dm_fs := (dm_fs s)(pidpath \<mapsto> []), g_pid_fd := False\<rparr>)
        else if w \<noteq> int n then (False, s1\<lparr>g_pid_fd := False\<rparr>)
        else (True, s1\<lparr>g_pid_path_alloc := Some pidpath\<rparr>))"

definition finish_daemon_stdio_and_pid :: "daemon_env \<Rightarrow> daemon_state \<Rightarrow> bool \<times> daemon_state" where
  "finish_daemon_stdio_and_pid e s =
     (if nonempty (dv_getenv e ''HOME'') = None then (False, s)
      else if \<not> dv_mkdir e then (False, s)
      else let pidpath = daemon_base e @ ''/shellclaw.pid''; logpath = daemon_base e @ ''/shellclaw.log'' in
        if length pidpath \<ge> PATH_MAX \<or> length logpath \<ge> PATH_MAX then (False, s)
        else if \<not> dv_open_log e then (False, s)
        else let s1 = s\<lparr>dm_fs := open_create logpath (dm_fs s)\<rparr> in
          if \<not> dv_open_null e \<or> \<not> dv_dup2 e then (False, s1)
          else if \<not> dv_open_pid e then (False, s1\<lparr>g_pid_fd := False\<rparr>)
          else write_pid_file e pidpath (s1\<lparr>g_pid_fd := True, dm_fs := open_create pidpath (dm_fs s1)\<rparr>))"

datatype fork_result = Fork_Failed | Fork_Parent | Fork_Child

text \<open>\<open>None\<close>: the process is a parent and exits with 0.\<close>

definition enter_daemon_mode ::
  "bool \<Rightarrow> fork_result \<Rightarrow> bool \<Rightarrow> fork_result \<Rightarrow> daemon_env \<Rightarrow> daemon_state \<Rightarrow> (bool \<times> daemon_state) option" where
  "enter_daemon_mode want p1 setsid_ok p2 e s =
     (if \<not> want then Some (True, s)
      else case p1 of
        Fork_Failed \<Rightarrow> Some (False, s)
      | Fork_Parent \<Rightarrow> None
      | Fork_Child \<Rightarrow>
          if \<not> setsid_ok then Some (False, s)
          else case p2 of
            Fork_Failed \<Rightarrow> Some (False, s)
          | Fork_Parent \<Rightarrow> None
          | Fork_Child \<Rightarrow> Some (finish_daemon_stdio_and_pid e s))"

definition daemon_pid_cleanup :: "daemon_state \<Rightarrow> daemon_state" where
  "daemon_pid_cleanup s =
     (case g_pid_path_alloc s of
        None \<Rightarrow> s\<lparr>g_pid_fd := False\<rparr>
      | Some p \<Rightarrow> s\<lparr>g_pid_fd := False, g_pid_path_alloc := None, dm_fs := (dm_fs s)(p := None)\<rparr>)"

subsection \<open>Start-up and clean-up\<close>

datatype subsystem = Memory_Db | Skill_Watcher | Providers | Channel_Table | Auth_Ctx | Http_Thread | Tool_Table
datatype boot_act = Start subsystem | Stop subsystem

text \<open>Which of the steps succeed; \<open>bv_watch\<close>: the watcher thread was created, \<open>bv_skills\<close>: the skills text and the prompt were built.\<close>

record boot_env =
  bv_memory :: bool
  bv_watch :: bool
  bv_skills :: bool
  bv_providers :: bool
  bv_channels :: bool
  bv_gateway :: bool
  bv_auth :: bool
  bv_keys :: bool
  bv_http :: bool
  bv_tools :: bool

definition unwind :: "subsystem list \<Rightarrow> boot_act list" where
  "unwind ss = map Stop ss"

definition skills_init :: "boot_env \<Rightarrow> bool \<times> boot_act list" where
  "skills_init b = (bv_skills b, if bv_watch b then [Start Skill_Watcher] else [])"

text \<open>\<open>skills_cleanup\<close> stops the watcher when it runs; \<open>http_stop\<close> and \<open>auth_cleanup\<close> are called only for what was started.\<close>

definition gateway_init :: "boot_env \<Rightarrow> bool \<times> boot_act list" where
  "gateway_init b =
     (if \<not> bv_gateway b then (True, [])
      else if \<not> bv_auth b then (False, unwind [Channel_Table, Providers, Skill_Watcher, Memory_Db])
      else if \<not> bv_keys b then (False, Start Auth_Ctx # unwind [Auth_Ctx, Channel_Table, Providers, Skill_Watcher, Memory_Db])
      else if \<not> bv_http b then (False, Start Auth_Ctx # unwind [Auth_Ctx, Channel_Table, Providers, Skill_Watcher, Memory_Db])
      else (True, [Start Auth_Ctx, Start Http_Thread]))"

definition init_subsystems :: "boot_env \<Rightarrow> bool \<times> boot_act list" where
  "init_subsystems b =
     (if \<not> bv_memory b then (False, [])
      else let (skills_ok, acts_s) = skills_init b; acts1 = Start Memory_Db # acts_s in
        if \<not> skills_ok then (False, acts1 @ unwind [Memory_Db])
        else if \<not> bv_providers b then (False, acts1 @ unwind [Skill_Watcher, Memory_Db])
        else if \<not> bv_channels b then (False, acts1 @ [Start Providers] @ unwind [Providers, Skill_Watcher, Memory_Db])
        else let (gateway_ok, acts_g) = gateway_init b; acts2 = acts1 @ [Start Providers, Start Channel_Table] @ acts_g in
          if \<not> gateway_ok then (False, acts2)
          else if \<not> bv_tools b
          then (False, acts2 @ unwind [Http_Thread, Auth_Ctx, Channel_Table, Providers, Skill_Watcher, Memory_Db])
          else (True, acts2 @ [Start Tool_Table]))"

definition cleanup_subsystems :: "boot_act list" where
  "cleanup_subsystems = unwind [Http_Thread, Auth_Ctx, Tool_Table, Channel_Table, Providers, Skill_Watcher, Memory_Db]"

text \<open>What runs after a sequence of acts.\<close>

fun running :: "boot_act list \<Rightarrow> subsystem list \<Rightarrow> subsystem list" where
  "running [] up = up"
| "running (Start x # as) up = running as (x # up)"
| "running (Stop x # as) up = running as (removeAll x up)"

subsection \<open>Channels, the workspace directory and tools\<close>

datatype channel_kind = Chan_Cli | Chan_Telegram | Chan_Discord | Chan_Webchat | Chan_Cron | Chan_Heartbeat

fun channel_key :: "channel_kind \<Rightarrow> string" where
  "channel_key Chan_Cli = ''cli''"
| "channel_key Chan_Telegram = ''telegram''"
| "channel_key Chan_Discord = ''discord''"
| "channel_key Chan_Webchat = ''webchat''"
| "channel_key Chan_Cron = ''cron''"
| "channel_key Chan_Heartbeat = ''heartbeat''"

fun channel_wanted :: "config \<Rightarrow> channel_kind \<Rightarrow> bool" where
  "channel_wanted c Chan_Telegram = chan_enabled (c_telegram c)"
| "channel_wanted c Chan_Discord = chan_enabled (c_discord c)"
| "channel_wanted c Chan_Webchat = gateway_enabled (c_gateway c)"
| "channel_wanted c Chan_Heartbeat = heartbeat_enabled (c_misc c)"
| "channel_wanted c _ = True"

definition MAX_CHANNELS :: nat where "MAX_CHANNELS = 8"

text \<open>Only the terminal must come up; another channel that does not is left out.\<close>

definition channels_init ::
  "(channel_kind \<Rightarrow> bool) \<Rightarrow> config \<Rightarrow> (string \<times> channel_kind) list \<Rightarrow> bool \<times> channel_kind list \<times> (string \<times> channel_kind) list" where
  "channels_init init_ok c reg =
     (if \<not> init_ok Chan_Cli then (False, [], reg)
      else let chans = Chan_Cli # filter (\<lambda>k. channel_wanted c k \<and> init_ok k) [Chan_Telegram, Chan_Discord, Chan_Webchat, Chan_Cron, Chan_Heartbeat] in
        (True, chans, fold (\<lambda>k. channel_register (Some (channel_key k)) (Some k)) chans reg))"

datatype inode = No_Entry | Sym_Link | Directory | Other_File

definition mkdir_at :: "(string \<Rightarrow> bool) \<Rightarrow> string \<Rightarrow> (string \<Rightarrow> inode) \<Rightarrow> string \<Rightarrow> inode" where
  "mkdir_at ok path fs = (if fs path = No_Entry \<and> ok path then fs(path := Directory) else fs)"

definition workspace_is_real_dir :: "(string \<Rightarrow> inode) \<Rightarrow> string \<Rightarrow> bool" where
  "workspace_is_real_dir fs workspace =
     (case fs workspace of No_Entry \<Rightarrow> False | Sym_Link \<Rightarrow> False | Directory \<Rightarrow> True | Other_File \<Rightarrow> False)"

definition ensure_workspace_directory ::
  "(string \<Rightarrow> bool) \<Rightarrow> string option \<Rightarrow> (string \<Rightarrow> inode) \<Rightarrow> bool \<times> (string \<Rightarrow> inode)" where
  "ensure_workspace_directory ok workspace fs =
     (case nonempty workspace of
        None \<Rightarrow> (True, fs)
      | Some w \<Rightarrow>
          let fs1 = (case strrchr_split slash w of
                       None \<Rightarrow> fs
                     | Some (parent, _) \<Rightarrow> if parent = [] \<or> length parent \<ge> PATH_MAX then fs else mkdir_at ok parent fs);
              fs2 = mkdir_at ok w fs1 in
          (workspace_is_real_dir fs2 w, fs2))"

subsection \<open>Configurations and their holders\<close>

datatype holder = H_Bootstrap | H_Router | H_Anthropic | H_Openai | H_Local | H_Tools | H_Heartbeat | H_Telegram | H_Discord | H_Http | H_Watcher

record cfg_heap =
  ch_heap :: "nat \<Rightarrow> config option"
  ch_next :: nat
  ch_freed :: "nat list"
  ch_stale :: "nat list"
  ch_held :: "holder \<Rightarrow> nat option"
  ch_ready :: "holder \<Rightarrow> bool"

definition config_free :: "nat option \<Rightarrow> cfg_heap \<Rightarrow> cfg_heap" where
  "config_free p s = (case p of None \<Rightarrow> s | Some a \<Rightarrow> s\<lparr>ch_heap := (ch_heap s)(a := None), ch_freed := a # ch_freed s\<rparr>)"

definition stale_enqueue :: "bool \<Rightarrow> nat option \<Rightarrow> cfg_heap \<Rightarrow> bool \<times> cfg_heap" where
  "stale_enqueue alloc old s =
     (case old of None \<Rightarrow> (True, s) | Some a \<Rightarrow> if \<not> alloc then (False, s) else (True, s\<lparr>ch_stale := a # ch_stale s\<rparr>))"

definition stale_free_all :: "cfg_heap \<Rightarrow> cfg_heap" where
  "stale_free_all s = (fold (\<lambda>a s. config_free (Some a) s) (ch_stale s) s)\<lparr>ch_stale := []\<rparr>"

text \<open>The setters of the reload: those of the router, of the two backends with a key and of Telegram do nothing before initialisation,
  that of the gateway nothing without a server.\<close>

definition set_live :: "holder \<Rightarrow> nat \<Rightarrow> cfg_heap \<Rightarrow> cfg_heap" where
  "set_live h a s = (if ch_ready s h then s\<lparr>ch_held := (ch_held s)(h \<mapsto> a)\<rparr> else s)"

definition reload_order :: "holder list" where
  "reload_order = [H_Router, H_Anthropic, H_Openai, H_Local, H_Tools, H_Heartbeat, H_Telegram, H_Discord, H_Http]"

definition config_new :: "config \<Rightarrow> cfg_heap \<Rightarrow> nat \<times> cfg_heap" where
  "config_new c s = (ch_next s, s\<lparr>ch_heap := (ch_heap s)(ch_next s \<mapsto> c), ch_next := Suc (ch_next s)\<rparr>)"

text \<open>\<open>loaded\<close> is what \<open>config_load\<close> makes of the file, \<open>pcfg\<close> the caller's pointer, which only matters when it is missing.\<close>

definition try_config_reload :: "config option \<Rightarrow> bool \<Rightarrow> nat option \<Rightarrow> cfg_heap \<Rightarrow> bool \<times> nat option \<times> cfg_heap" where
  "try_config_reload loaded alloc pcfg s =
     (case pcfg of
        None \<Rightarrow> (False, pcfg, s)
      | Some p \<Rightarrow>
          let old = (case ch_held s H_Bootstrap of None \<Rightarrow> Some p | Some a \<Rightarrow> Some a) in
          (case loaded of
             None \<Rightarrow> (False, pcfg, s)
           | Some c \<Rightarrow>
               let (new_cfg, s1) = config_new c s; (ok, s2) = stale_enqueue alloc old s1 in
               if \<not> ok then (False, pcfg, config_free (Some new_cfg) s2)
               else let s3 = fold (\<lambda>h. set_live h new_cfg) reload_order s2 in
                 (True, Some new_cfg, s3\<lparr>ch_held := (ch_held s3)(H_Bootstrap \<mapsto> new_cfg)\<rparr>)))"

subsection \<open>The end of the process\<close>

text \<open>Where the main thread is: in its loop, after \<open>live = bootstrap_get_cfg()\<close>, after \<open>http_stop\<close> has joined the thread of the
  gateway, after the rest of the clean-up, after \<open>stale_free_all\<close>, and after \<open>config_free(live)\<close>.\<close>

datatype phase = In_Loop | Captured "nat option" | Http_Stopped "nat option" | Cleaned "nat option" | Stale_Freed "nat option" | Exited

record process =
  ps_phase :: phase
  ps_http :: bool
  ps_cfg :: "nat option"
  ps_heap :: cfg_heap

datatype life_event = Hup "config option" bool | Dashboard_Put "config option" bool | Shutdown | Stop_Http | Clean_Up | Free_Stale | Free_Live

text \<open>Cleaning up the channels clears the pointer of \<open>bootstrap.c\<close>, stopping the watcher clears its own; the other pointers are left, but no
  thread is left either that would follow them.\<close>

fun life_step :: "life_event \<Rightarrow> process \<Rightarrow> process option" where
  "life_step (Hup loaded alloc) s =
     (if ps_phase s \<noteq> In_Loop then None
      else let (ok, p, h) = try_config_reload loaded alloc (ps_cfg s) (ps_heap s) in Some (s\<lparr>ps_cfg := p, ps_heap := h\<rparr>))"
| "life_step (Dashboard_Put loaded alloc) s =
     (if \<not> ps_http s then None
      else case ch_held (ps_heap s) H_Bootstrap of
        None \<Rightarrow> Some s
      | Some a \<Rightarrow> let (ok, p, h) = try_config_reload loaded alloc (Some a) (ps_heap s) in Some (s\<lparr>ps_heap := h\<rparr>))"
| "life_step Shutdown s = (if ps_phase s \<noteq> In_Loop then None else Some (s\<lparr>ps_phase := Captured (ch_held (ps_heap s) H_Bootstrap)\<rparr>))"
| "life_step Stop_Http s =
     (case ps_phase s of
        Captured live \<Rightarrow> Some (s\<lparr>ps_phase := Http_Stopped live, ps_http := False, ps_heap := (ps_heap s)\<lparr>ch_held := (ch_held (ps_heap s))(H_Http := None)\<rparr>\<rparr>)
      | _ \<Rightarrow> None)"
| "life_step Clean_Up s =
     (case ps_phase s of
        Http_Stopped live \<Rightarrow> Some (s\<lparr>ps_phase := Cleaned live, ps_heap := (ps_heap s)\<lparr>ch_held := (ch_held (ps_heap s))(H_Bootstrap := None, H_Watcher := None)\<rparr>\<rparr>)
      | _ \<Rightarrow> None)"
| "life_step Free_Stale s =
     (case ps_phase s of Cleaned live \<Rightarrow> Some (s\<lparr>ps_phase := Stale_Freed live, ps_heap := stale_free_all (ps_heap s)\<rparr>) | _ \<Rightarrow> None)"
| "life_step Free_Live s =
     (case ps_phase s of Stale_Freed live \<Rightarrow> Some (s\<lparr>ps_phase := Exited, ps_heap := config_free live (ps_heap s)\<rparr>) | _ \<Rightarrow> None)"

fun life_run :: "life_event list \<Rightarrow> process \<Rightarrow> process option" where
  "life_run [] s = Some s"
| "life_run (ev # evs) s = Option.bind (life_step ev s) (life_run evs)"

text \<open>The process after \<open>init_subsystems\<close>: one configuration, held by the bootstrap and by those that took it at their initialisation.\<close>

definition process_started :: "config \<Rightarrow> bool \<Rightarrow> (holder \<Rightarrow> bool) \<Rightarrow> (holder \<Rightarrow> bool) \<Rightarrow> process" where
  "process_started c http took ready =
     \<lparr>ps_phase = In_Loop, ps_http = http, ps_cfg = Some 0,
      ps_heap = \<lparr>ch_heap = [0 \<mapsto> c], ch_next = 1, ch_freed = [], ch_stale = [],
        ch_held = (\<lambda>h. if h = H_Bootstrap \<or> took h then Some 0 else None), ch_ready = ready\<rparr>\<rparr>"

section \<open>Configurations are freed once\<close>

text \<open>Every address given out is the live configuration \<open>a\<close>, on the stale list or freed, and only one of the three.\<close>

definition owned :: "nat \<Rightarrow> cfg_heap \<Rightarrow> bool" where
  "owned a h \<longleftrightarrow> distinct (a # ch_stale h @ ch_freed h) \<and> set (a # ch_stale h @ ch_freed h) = {..<ch_next h} \<and>
     (\<forall>p. ch_heap h p \<noteq> None \<longleftrightarrow> p \<in> set (a # ch_stale h))"

definition holders_ok :: "nat \<Rightarrow> cfg_heap \<Rightarrow> bool" where
  "holders_ok a h \<longleftrightarrow> ch_held h H_Bootstrap = Some a \<and> (\<forall>x p. ch_held h x = Some p \<longrightarrow> p \<in> set (a # ch_stale h))"

definition life_inv :: "process \<Rightarrow> bool" where
  "life_inv s \<longleftrightarrow>
     (case ps_phase s of
        In_Loop \<Rightarrow> ps_cfg s \<noteq> None \<and> (\<exists>a. owned a (ps_heap s) \<and> holders_ok a (ps_heap s))
      | Captured live \<Rightarrow> (\<exists>a. live = Some a \<and> owned a (ps_heap s) \<and> holders_ok a (ps_heap s))
      | Http_Stopped live \<Rightarrow> (\<exists>a. live = Some a \<and> owned a (ps_heap s) \<and> holders_ok a (ps_heap s))
      | Cleaned live \<Rightarrow> (\<exists>a. live = Some a \<and> owned a (ps_heap s))
      | Stale_Freed live \<Rightarrow> (\<exists>a. live = Some a \<and> owned a (ps_heap s) \<and> ch_stale (ps_heap s) = [])
      | Exited \<Rightarrow> distinct (ch_freed (ps_heap s)) \<and> set (ch_freed (ps_heap s)) = {..<ch_next (ps_heap s)})"

lemma set_live_all:
  "fold (\<lambda>h. set_live h a) hs s = s\<lparr>ch_held := (\<lambda>h. if h \<in> set hs \<and> ch_ready s h then Some a else ch_held s h)\<rparr>"
  by (induction hs arbitrary: s) (auto simp: set_live_def fun_eq_iff intro!: cfg_heap.equality)

lemma free_all:
  "fold (\<lambda>a s. config_free (Some a) s) as s =
     s\<lparr>ch_heap := (\<lambda>p. if p \<in> set as then None else ch_heap s p), ch_freed := rev as @ ch_freed s\<rparr>"
  by (induction as arbitrary: s) (auto simp: config_free_def fun_eq_iff intro!: cfg_heap.equality)

lemma reload_owned:
  assumes "try_config_reload loaded alloc (Some p) s = (ok, p', s')" "owned a s" "holders_ok a s"
  shows "\<exists>b. owned b s' \<and> holders_ok b s'" "p' \<noteq> None"
proof -
  have held: "ch_held s H_Bootstrap = Some a" using assms(3) by (simp add: holders_ok_def)
  have o: "a \<notin> set (ch_stale s)" "distinct (ch_stale s)" "distinct (ch_freed s)" "a \<notin> set (ch_freed s)" "set (ch_stale s) \<inter> set (ch_freed s) = {}"
    "insert a (set (ch_stale s) \<union> set (ch_freed s)) = {..<ch_next s}" "\<And>q. ch_heap s q \<noteq> None \<longleftrightarrow> q = a \<or> q \<in> set (ch_stale s)"
    using assms(2) by (auto simp: owned_def)
  have lt: "x < ch_next s" if "x = a \<or> x \<in> set (ch_stale s) \<or> x \<in> set (ch_freed s)" for x using o(6) that by (metis UnCI insertCI lessThan_iff)
  have fresh: "ch_next s \<noteq> a" "ch_next s \<notin> set (ch_stale s)" "ch_next s \<notin> set (ch_freed s)" using lt by (metis less_irrefl_nat)+
  have grow: "insert (ch_next s) {..<ch_next s} = {..<Suc (ch_next s)}" by auto
  have "p' \<noteq> None \<and> (\<exists>b. owned b s' \<and> holders_ok b s')"
  proof (cases loaded)
    case None
    then show ?thesis using assms by (auto simp: try_config_reload_def)
  next
    case (Some c)
    show ?thesis
    proof (cases alloc)
      case False
      then have s': "p' = Some p" "s' = s\<lparr>ch_next := Suc (ch_next s), ch_heap := (ch_heap s)(ch_next s := None), ch_freed := ch_next s # ch_freed s\<rparr>"
        using assms(1) Some held by (auto simp: try_config_reload_def config_new_def stale_enqueue_def config_free_def Let_def)
      have "insert a (set (ch_stale s) \<union> insert (ch_next s) (set (ch_freed s))) = {..<Suc (ch_next s)}" using o(6) grow by auto
      then have "owned a s'" using o fresh s'(2) by (auto simp: owned_def)
      then show ?thesis using s' assms(3) by (auto simp: holders_ok_def)
    next
      case True
      let ?b = "ch_next s"
      have s': "p' = Some ?b" "ch_stale s' = a # ch_stale s" "ch_freed s' = ch_freed s" "ch_next s' = Suc ?b" "ch_heap s' = (ch_heap s)(?b \<mapsto> c)"
        "ch_held s' H_Bootstrap = Some ?b" "\<And>h q. ch_held s' h = Some q \<Longrightarrow> q = ?b \<or> ch_held s h = Some q"
        using assms(1) Some held True
        by (auto simp: try_config_reload_def config_new_def stale_enqueue_def set_live_all Let_def split: if_splits)
      have "insert ?b (insert a (set (ch_stale s) \<union> set (ch_freed s))) = {..<Suc ?b}" using o(6) grow by simp
      then have "owned ?b s'" using o fresh s' by (auto simp: owned_def)
      moreover have "holders_ok ?b s'" using s' assms(3) by (auto simp: holders_ok_def)
      ultimately show ?thesis using s'(1) by blast
    qed
  qed
  then show "\<exists>b. owned b s' \<and> holders_ok b s'" "p' \<noteq> None" by blast+
qed

lemma stale_free_owned: "owned a h \<Longrightarrow> owned a (stale_free_all h) \<and> ch_stale (stale_free_all h) = []"
  by (auto simp: stale_free_all_def free_all owned_def)

lemma free_live_all: "owned a h \<Longrightarrow> ch_stale h = [] \<Longrightarrow> distinct (ch_freed (config_free (Some a) h)) \<and> set (ch_freed (config_free (Some a) h)) = {..<ch_next (config_free (Some a) h)}"
  by (auto simp: owned_def config_free_def)

text \<open>A dashboard reload in the window between reading the live pointer and stopping the gateway is the one step that can break this.\<close>

lemma life_step_inv:
  assumes "life_step ev s = Some s'" "life_inv s" "ps_phase s = In_Loop \<or> (\<forall>l b. ev \<noteq> Dashboard_Put l b)"
  shows "life_inv s'"
  using assms
proof (cases ev)
  case (Hup loaded alloc)
  obtain p a where p: "ps_cfg s = Some p" "ps_phase s = In_Loop" "owned a (ps_heap s)" "holders_ok a (ps_heap s)"
    using assms(1,2) Hup by (auto simp: life_inv_def split: if_splits)
  obtain ok p' h where r: "try_config_reload loaded alloc (Some p) (ps_heap s) = (ok, p', h)" by (metis surj_pair)
  show ?thesis using reload_owned [OF r p(3,4)] assms(1) Hup p r by (auto simp: life_inv_def)
next
  case (Dashboard_Put loaded alloc)
  then have "ps_phase s = In_Loop" using assms(3) by blast
  then obtain a where p: "ps_phase s = In_Loop" "owned a (ps_heap s)" "holders_ok a (ps_heap s)" "ps_cfg s \<noteq> None" using assms(2) by (auto simp: life_inv_def)
  have held: "ch_held (ps_heap s) H_Bootstrap = Some a" using p(3) by (simp add: holders_ok_def)
  obtain ok p' h where r: "try_config_reload loaded alloc (Some a) (ps_heap s) = (ok, p', h)" by (metis surj_pair)
  show ?thesis using reload_owned [OF r p(2,3)] assms(1) Dashboard_Put p held r by (auto simp: life_inv_def split: if_splits)
next
  case Stop_Http
  then obtain live where ph: "ps_phase s = Captured live"
    and s': "s' = s\<lparr>ps_phase := Http_Stopped live, ps_http := False, ps_heap := (ps_heap s)\<lparr>ch_held := (ch_held (ps_heap s))(H_Http := None)\<rparr>\<rparr>"
    using assms(1) by (auto split: phase.splits)
  obtain a where "live = Some a" "owned a (ps_heap s)" "holders_ok a (ps_heap s)" using assms(2) ph by (auto simp: life_inv_def)
  then show ?thesis unfolding life_inv_def s' by (auto simp: owned_def holders_ok_def intro!: exI [of _ a])
next
  case Clean_Up
  then obtain live where ph: "ps_phase s = Http_Stopped live"
    and s': "s' = s\<lparr>ps_phase := Cleaned live, ps_heap := (ps_heap s)\<lparr>ch_held := (ch_held (ps_heap s))(H_Bootstrap := None, H_Watcher := None)\<rparr>\<rparr>"
    using assms(1) by (auto split: phase.splits)
  obtain a where "live = Some a" "owned a (ps_heap s)" using assms(2) ph by (auto simp: life_inv_def)
  then show ?thesis unfolding life_inv_def s' by (auto simp: owned_def intro!: exI [of _ a])
next
  case Free_Stale
  then show ?thesis using assms(1,2) stale_free_owned by (auto simp: life_inv_def split: phase.splits)
next
  case Free_Live
  then show ?thesis using assms(1,2) free_live_all by (auto simp: life_inv_def split: phase.splits)
next
  case Shutdown
  then show ?thesis using assms(1,2) by (auto simp: life_inv_def holders_ok_def split: if_splits)
qed

text \<open>Every request of the dashboard that changes the configuration comes before the shut-down.\<close>

fun punctual :: "life_event list \<Rightarrow> bool" where
  "punctual [] \<longleftrightarrow> True"
| "punctual (Shutdown # evs) \<longleftrightarrow> list_all (\<lambda>ev. case ev of Dashboard_Put _ _ \<Rightarrow> False | _ \<Rightarrow> True) evs"
| "punctual (_ # evs) \<longleftrightarrow> punctual evs"

lemma step_leaves_loop:
  assumes "life_step ev s = Some s'" "ps_phase s = In_Loop" "ev \<noteq> Shutdown"
  shows "ps_phase s' = In_Loop"
  using assms by (cases ev) (auto simp: Let_def split: if_splits option.splits prod.splits)

lemma late_run_inv:
  assumes "life_run evs s = Some s'" "life_inv s" "list_all (\<lambda>ev. case ev of Dashboard_Put _ _ \<Rightarrow> False | _ \<Rightarrow> True) evs"
  shows "life_inv s'"
  using assms
proof (induction evs arbitrary: s)
  case (Cons ev evs)
  then obtain s1 where s1: "life_step ev s = Some s1" "life_run evs s1 = Some s'" by (auto simp: bind_eq_Some_conv)
  have "life_inv s1" by (rule life_step_inv [OF s1(1) Cons.prems(2)]) (use Cons.prems(3) in auto)
  then show ?case using Cons.IH s1(2) Cons.prems(3) by simp
qed simp

lemma punctual_run_inv:
  assumes "life_run evs s = Some s'" "life_inv s" "ps_phase s = In_Loop" "punctual evs"
  shows "life_inv s'"
  using assms
proof (induction evs arbitrary: s)
  case (Cons ev evs)
  then obtain s1 where s1: "life_step ev s = Some s1" "life_run evs s1 = Some s'" by (auto simp: bind_eq_Some_conv)
  have inv: "life_inv s1" using life_step_inv [OF s1(1) Cons.prems(2)] Cons.prems(3) by blast
  show ?case
  proof (cases "ev = Shutdown")
    case True
    then show ?thesis using late_run_inv [OF s1(2) inv] Cons.prems(4) by simp
  next
    case False
    then have "punctual evs" using Cons.prems(4) by (cases ev) auto
    then show ?thesis using Cons.IH [OF s1(2) inv step_leaves_loop [OF s1(1) Cons.prems(3) False]] by blast
  qed
qed simp

lemma process_started_inv: "life_inv (process_started c http took ready)"
  by (auto simp: process_started_def life_inv_def owned_def holders_ok_def lessThan_Suc)

text \<open>A pointer is followed by its holder only up to the clean-up, so that it must point to a configuration until then.\<close>

definition followed :: "process \<Rightarrow> bool" where
  "followed s \<longleftrightarrow> (case ps_phase s of In_Loop \<Rightarrow> True | Captured _ \<Rightarrow> True | Http_Stopped _ \<Rightarrow> True | _ \<Rightarrow> False)"

text \<open>(C35) Whatever reloads happen, by SIGHUP or from the dashboard, succeed or fail, as long as none of the dashboard falls into the
  shut-down: no configuration is ever freed twice; until the clean-up of the subsystems every configuration pointer anybody holds
  points to a configuration that is still allocated; and when the process exits every configuration it ever loaded has been freed.\<close>

theorem configs_freed_once:
  assumes "life_run evs (process_started c http took ready) = Some s" "punctual evs"
  shows "distinct (ch_freed (ps_heap s)) \<and>
    (followed s \<longrightarrow> (\<forall>x p. ch_held (ps_heap s) x = Some p \<longrightarrow> ch_heap (ps_heap s) p \<noteq> None)) \<and>
    (ps_phase s = Exited \<longrightarrow> set (ch_freed (ps_heap s)) = {..<ch_next (ps_heap s)})"
proof (intro conjI)
  have "ps_phase (process_started c http took ready) = In_Loop" by (simp add: process_started_def)
  then have inv: "life_inv s" using punctual_run_inv [OF assms(1) process_started_inv _ assms(2)] by blast
  show "distinct (ch_freed (ps_heap s))" using inv by (auto simp: life_inv_def owned_def split: phase.splits)
  show "followed s \<longrightarrow> (\<forall>x p. ch_held (ps_heap s) x = Some p \<longrightarrow> ch_heap (ps_heap s) p \<noteq> None)"
    using inv unfolding life_inv_def followed_def owned_def holders_ok_def by (fastforce split: phase.splits)
  show "ps_phase s = Exited \<longrightarrow> set (ch_freed (ps_heap s)) = {..<ch_next (ps_heap s)}" using inv by (auto simp: life_inv_def)
qed

text \<open>A reload from the dashboard, a failed one, a SIGHUP that runs out of memory, a SIGHUP that succeeds, and the shut-down.\<close>

definition sample_life :: "config \<Rightarrow> life_event list" where
  "sample_life c = [Dashboard_Put (Some c) True, Dashboard_Put None True, Hup (Some c) False, Hup (Some c) True,
     Shutdown, Stop_Http, Clean_Up, Free_Stale, Free_Live]"

lemma reload_done:
  "ch_held s H_Bootstrap = Some a \<Longrightarrow> try_config_reload (Some c) True (Some p) s = (True, Some (ch_next s),
     s\<lparr>ch_heap := (ch_heap s)(ch_next s \<mapsto> c), ch_next := Suc (ch_next s), ch_stale := a # ch_stale s,
       ch_held := (\<lambda>h. if h = H_Bootstrap \<or> h \<in> set reload_order \<and> ch_ready s h then Some (ch_next s) else ch_held s h)\<rparr>)"
  by (auto simp: try_config_reload_def config_new_def stale_enqueue_def set_live_all fun_eq_iff Let_def intro!: cfg_heap.equality)

lemma reload_out_of_memory:
  "ch_held s H_Bootstrap = Some a \<Longrightarrow> try_config_reload (Some c) False (Some p) s = (False, Some p,
     s\<lparr>ch_heap := (ch_heap s)(ch_next s := None), ch_next := Suc (ch_next s), ch_freed := ch_next s # ch_freed s\<rparr>)"
  by (simp add: try_config_reload_def config_new_def stale_enqueue_def config_free_def Let_def)

lemma reload_failed: "try_config_reload None alloc (Some p) s = (False, Some p, s)"
  by (simp add: try_config_reload_def)

lemma stale_free_closed:
  "stale_free_all s = s\<lparr>ch_heap := (\<lambda>p. if p \<in> set (ch_stale s) then None else ch_heap s p), ch_freed := rev (ch_stale s) @ ch_freed s, ch_stale := []\<rparr>"
  by (simp add: stale_free_all_def free_all)

lemmas life_eval = sample_life_def process_started_def reload_done reload_out_of_memory reload_failed stale_free_closed config_free_def

lemma sample_life_freed:
  "map_option (\<lambda>s. ch_freed (ps_heap s)) (life_run (sample_life c) (process_started c True (\<lambda>_. True) (\<lambda>_. True))) = Some [3, 0, 1, 2]"
  by (simp add: life_eval)

theorem configs_freed_once_witness:
  "\<exists>s. life_run (sample_life config_defaults) (process_started config_defaults True (\<lambda>_. True) (\<lambda>_. True)) = Some s \<and> punctual (sample_life config_defaults) \<and>
     ch_freed (ps_heap s) = [3, 0, 1, 2] \<and> distinct (ch_freed (ps_heap s))"
proof -
  obtain s where s: "life_run (sample_life config_defaults) (process_started config_defaults True (\<lambda>_. True) (\<lambda>_. True)) = Some s" "ch_freed (ps_heap s) = [3, 0, 1, 2]"
    using sample_life_freed by (auto simp: map_option_eq_Some)
  have "punctual (sample_life config_defaults)" by (simp add: sample_life_def)
  then show ?thesis using configs_freed_once [OF s(1)] s by blast
qed

text \<open>A reload of the dashboard between the reading of the live pointer and the end of the gateway's thread puts that very
  configuration on the stale list: it is freed with the list and again at the end, and the new one is never freed.\<close>

lemma late_put_double_free:
  "map_option (\<lambda>s. (ps_phase s, ch_freed (ps_heap s), Option.is_none (ch_heap (ps_heap s) 1)))
     (life_run [Shutdown, Dashboard_Put (Some c) True, Stop_Http, Clean_Up, Free_Stale, Free_Live]
        (process_started c True (\<lambda>_. True) (\<lambda>_. True))) = Some (Exited, [0, 0], False)"
  by (simp add: life_eval)

section \<open>Start-up and clean-up\<close>

lemma running_append: "running (xs @ ys) up = running ys (running xs up)"
  by (induction xs up rule: running.induct) auto

lemma running_unwind: "running (unwind ss) up = filter (\<lambda>x. x \<notin> set ss) up"
  by (induction ss arbitrary: up) (auto simp: unwind_def removeAll_filter_not_eq intro!: filter_cong)

text \<open>The thread of the gateway validates tokens against the table of tokens: at every moment of start-up and clean-up at which it runs, the
  table is there.\<close>

definition threads_safe :: "subsystem list \<Rightarrow> bool" where
  "threads_safe up \<longleftrightarrow> (Http_Thread \<in> set up \<longrightarrow> Auth_Ctx \<in> set up \<and> Memory_Db \<in> set up \<and> Channel_Table \<in> set up \<and> Providers \<in> set up)"

fun always :: "(subsystem list \<Rightarrow> bool) \<Rightarrow> boot_act list \<Rightarrow> subsystem list \<Rightarrow> bool" where
  "always P [] up \<longleftrightarrow> P up"
| "always P (Start x # as) up \<longleftrightarrow> P up \<and> always P as (x # up)"
| "always P (Stop x # as) up \<longleftrightarrow> P up \<and> always P as (removeAll x up)"

text \<open>A failed start leaves nothing running but, when it is the skills that failed, the skill watcher it had already started; a
  successful start followed by the clean-up leaves nothing running; and at every moment of either sequence at which the thread of the
  gateway runs, the tokens, the memory, the channels and the providers its handlers use are there.\<close>

theorem subsystems_unwound:
  "(case init_subsystems b of
      (False, acts) \<Rightarrow> set (running acts []) \<subseteq> (if bv_skills b then {} else {Skill_Watcher}) \<and> always threads_safe acts []
    | (True, acts) \<Rightarrow> running (acts @ cleanup_subsystems) [] = [] \<and> always threads_safe (acts @ cleanup_subsystems) [])"
  by (auto simp: init_subsystems_def skills_init_def gateway_init_def cleanup_subsystems_def unwind_def threads_safe_def Let_def)

lemma skills_failure_leaves_watcher:
  "\<lbrakk>bv_memory b; bv_watch b; \<not> bv_skills b\<rbrakk> \<Longrightarrow> fst (init_subsystems b) = False \<and> running (snd (init_subsystems b)) [] = [Skill_Watcher]"
  by (simp add: init_subsystems_def skills_init_def unwind_def)

section \<open>Channels and workspace\<close>

lemma wanted_distinct_keys: "channel_key k = channel_key k' \<longleftrightarrow> k = k'"
  by (cases k; cases k') auto

lemma registered_in_order:
  assumes "length reg + length ks \<le> MAX_REGISTERED_CHANNELS"
  shows "fold (\<lambda>k. channel_register (Some (channel_key k)) (Some k)) ks reg = reg @ map (\<lambda>k. (channel_key k, k)) ks"
  using assms by (induction ks arbitrary: reg) (auto simp: channel_register_def)

lemma get_by_key: "channel_get_by_name (channel_key k) (map (\<lambda>k. (channel_key k, k)) ks) = (if k \<in> set ks then Some k else None)"
  by (induction ks) (auto simp: wanted_distinct_keys)

text \<open>The table of polled channels never overflows, and every polled channel, and no other, is found under its name: a message that came
  in by a channel can be answered on it.\<close>

lemma channels_init_registered:
  assumes "channels_init init_ok c [] = (True, chans, reg)"
  shows "length chans \<le> MAX_CHANNELS" "distinct chans" "channel_get_by_name (channel_key k) reg = (if k \<in> set chans then Some k else None)"
    "k \<in> set chans \<longleftrightarrow> channel_wanted c k \<and> init_ok k"
proof -
  let ?ks = "[Chan_Telegram, Chan_Discord, Chan_Webchat, Chan_Cron, Chan_Heartbeat]"
  let ?P = "\<lambda>k. channel_wanted c k \<and> init_ok k"
  have ch: "init_ok Chan_Cli" "chans = Chan_Cli # filter ?P ?ks" "reg = fold (\<lambda>k. channel_register (Some (channel_key k)) (Some k)) chans []"
    using assms by (auto simp: channels_init_def Let_def split: if_splits)
  have "length (filter ?P ?ks) \<le> 5" using length_filter_le [of ?P ?ks] by simp
  then show len: "length chans \<le> MAX_CHANNELS" using ch(2) by (simp add: MAX_CHANNELS_def)
  show "distinct chans" using ch(2) by simp
  show "channel_get_by_name (channel_key k) reg = (if k \<in> set chans then Some k else None)"
    using registered_in_order [of "[]" chans] len ch(3) get_by_key by (simp add: MAX_CHANNELS_def MAX_REGISTERED_CHANNELS_def)
  show "k \<in> set chans \<longleftrightarrow> ?P k" using ch by (cases k) auto
qed

text \<open>The tools start only on a workspace that is a directory, not on a link to one; nothing else than it and its parent is created.\<close>

lemma workspace_real:
  assumes "ensure_workspace_directory ok (Some w) fs = (True, fs')" "w \<noteq> []"
  shows "fs' w = Directory" "fs w \<noteq> Sym_Link"
proof -
  define fs1 where "fs1 = (case strrchr_split slash w of
      None \<Rightarrow> fs | Some (parent, _) \<Rightarrow> if parent = [] \<or> length parent \<ge> PATH_MAX then fs else mkdir_at ok parent fs)"
  have fs1: "fs1 w = fs w \<or> fs1 w = Directory \<and> fs w = No_Entry"
    by (auto simp: fs1_def mkdir_at_def split: option.splits)
  have "nonempty (Some w) = Some w" using assms(2) by (cases w) (simp_all add: nonempty_def)
  then have r: "fs' = mkdir_at ok w fs1" "workspace_is_real_dir fs' w"
    using assms by (auto simp: ensure_workspace_directory_def fs1_def [symmetric] Let_def)
  show "fs' w = Directory" using r(2) by (simp add: workspace_is_real_dir_def split: inode.splits)
  then show "fs w \<noteq> Sym_Link" using fs1 r(1) by (auto simp: mkdir_at_def split: if_splits)
qed

section \<open>The pid file\<close>

text \<open>An instance that does not get the lock leaves the pid file of the one that holds it alone.\<close>

lemma second_instance_keeps_pid_file:
  assumes "\<not> dv_lock e" "dm_fs s (daemon_base e @ ''/shellclaw.pid'') = Some old" "finish_daemon_stdio_and_pid e s = (ok, s')"
  shows "\<not> ok" "dm_fs s' (daemon_base e @ ''/shellclaw.pid'') = Some old" "g_pid_path_alloc s' = g_pid_path_alloc s"
  using assms by (auto simp: finish_daemon_stdio_and_pid_def write_pid_file_def open_create_def Let_def split: if_splits option.splits)

lemma daemon_owns_pid_file:
  assumes "finish_daemon_stdio_and_pid e s = (True, s')"
  shows "g_pid_fd s'" "g_pid_path_alloc s' = Some (daemon_base e @ ''/shellclaw.pid'')"
    "dm_fs s' (daemon_base e @ ''/shellclaw.pid'') = Some (pid_text e)" "dv_lock e"
  using assms by (auto simp: finish_daemon_stdio_and_pid_def write_pid_file_def Let_def split: if_splits)

text \<open>The pid file: when entering daemon mode succeeds for the process that goes on, the lock is held, the file holds the
  number of the process, and the clean-up at the end removes it; when another process holds the lock, entering fails and
  the other's file keeps its content, also through the clean-up.\<close>

theorem pid_file_single_owner:
  assumes "enter_daemon_mode True Fork_Child sid p2 e s = Some (ok, s')" "g_pid_path_alloc s = None"
  shows "(ok \<longrightarrow> dv_lock e \<and> dm_fs s' (daemon_base e @ ''/shellclaw.pid'') = Some (pid_text e) \<and>
            dm_fs (daemon_pid_cleanup s') (daemon_base e @ ''/shellclaw.pid'') = None) \<and>
    (\<not> dv_lock e \<longrightarrow> dm_fs s (daemon_base e @ ''/shellclaw.pid'') = Some old \<longrightarrow>
       \<not> ok \<and> dm_fs (daemon_pid_cleanup s') (daemon_base e @ ''/shellclaw.pid'') = Some old)"
proof -
  have cases: "(ok = False \<and> s' = s) \<or> finish_daemon_stdio_and_pid e s = (ok, s')"
    using assms(1) by (auto simp: enter_daemon_mode_def split: if_splits fork_result.splits)
  then show ?thesis
  proof
    assume "ok = False \<and> s' = s"
    then show ?thesis using assms(2) by (auto simp: daemon_pid_cleanup_def)
  next
    assume f: "finish_daemon_stdio_and_pid e s = (ok, s')"
    then show ?thesis using daemon_owns_pid_file [of e s s'] second_instance_keeps_pid_file [of e s old ok s'] assms(2)
      by (auto simp: daemon_pid_cleanup_def)
  qed
qed

definition sample_daemon :: "bool \<Rightarrow> daemon_env" where
  "sample_daemon locked = \<lparr>dv_getenv = (\<lambda>v. if v = ''HOME'' then Some ''/home/u'' else None), dv_mkdir = True, dv_open_log = True,
     dv_open_null = True, dv_dup2 = True, dv_open_pid = True, dv_lock = locked, dv_ftruncate = True, dv_write = int, dv_pid = 4711\<rparr>"

definition sample_daemon_state :: daemon_state where
  "sample_daemon_state = \<lparr>g_pid_fd = False, g_pid_path_alloc = None, dm_fs = [''/home/u/.shellclaw/shellclaw.pid'' \<mapsto> ''99'']\<rparr>"

lemma sample_daemon_locked_out:
  "map_option (\<lambda>(ok, s). (ok, g_pid_fd s)) (enter_daemon_mode True Fork_Child True Fork_Child (sample_daemon False) sample_daemon_state)
     = Some (False, False)"
  by code_simp

lemma sample_daemon_path: "daemon_base (sample_daemon k) @ ''/shellclaw.pid'' = ''/home/u/.shellclaw/shellclaw.pid''"
  unfolding daemon_base_def sample_daemon_def by code_simp

theorem pid_file_single_owner_witness:
  "\<exists>s'. enter_daemon_mode True Fork_Child True Fork_Child (sample_daemon False) sample_daemon_state = Some (False, s') \<and>
     dm_fs (daemon_pid_cleanup s') ''/home/u/.shellclaw/shellclaw.pid'' = Some ''99''"
proof -
  obtain s' where s': "enter_daemon_mode True Fork_Child True Fork_Child (sample_daemon False) sample_daemon_state = Some (False, s')"
    using sample_daemon_locked_out by (auto simp: map_option_eq_Some)
  have "\<not> dv_lock (sample_daemon False)" "g_pid_path_alloc sample_daemon_state = None"
    "dm_fs sample_daemon_state ''/home/u/.shellclaw/shellclaw.pid'' = Some ''99''" by (simp_all add: sample_daemon_def sample_daemon_state_def)
  then show ?thesis using pid_file_single_owner [OF s'] s' by (auto simp: sample_daemon_path)
qed

end
