(* ===== verification/Curl_Buffer.thy ===== *)
theory Curl_Buffer
  imports Prelude
begin

text \<open>
  The growing response buffer that \<open>src/channels/telegram.c\<close> and \<open>src/tools/web_search.c\<close> give libcurl, with its two sizes as
  arguments: the capacity it starts from and the limit.
\<close>

section \<open>Definitions\<close>

record curl_buf =
  tb_buf :: string
  tb_cap :: nat

definition curl_buf_new :: "nat \<Rightarrow> curl_buf" where
  "curl_buf_new init = \<lparr>tb_buf = [], tb_cap = init\<rparr>"

function (sequential) curl_grow :: "nat \<Rightarrow> nat \<Rightarrow> nat \<Rightarrow> nat" where
  "curl_grow limit need 0 = 0"
| "curl_grow limit need c = (if c < need \<and> c \<le> limit then curl_grow limit need (2 * c) else c)"
  by pat_completeness auto
termination by (relation "measure (\<lambda>(limit, need, c). need - c)") auto

text \<open>\<open>None\<close>: the callback returns 0, and libcurl gives up.\<close>

definition curl_write :: "nat \<Rightarrow> nat \<Rightarrow> string \<Rightarrow> curl_buf \<Rightarrow> curl_buf option" where
  "curl_write init limit p b =
     (let need = length (tb_buf b) + length p + 1 in
      if need > limit then None
      else if need > tb_cap b then
        (let new_cap = curl_grow limit need (if tb_cap b \<noteq> 0 then tb_cap b * 2 else init) in
         if need > new_cap then None else Some \<lparr>tb_buf = tb_buf b @ p, tb_cap = new_cap\<rparr>)
      else Some (b\<lparr>tb_buf := tb_buf b @ p\<rparr>))"

fun curl_receive :: "nat \<Rightarrow> nat \<Rightarrow> string list \<Rightarrow> curl_buf \<Rightarrow> bool \<times> curl_buf" where
  "curl_receive init limit [] b = (True, b)"
| "curl_receive init limit (p # ps) b = (case curl_write init limit p b of None \<Rightarrow> (False, b) | Some b' \<Rightarrow> curl_receive init limit ps b')"

section \<open>The buffer holds what was sent\<close>

definition buf_ok :: "nat \<Rightarrow> curl_buf \<Rightarrow> bool" where
  "buf_ok limit b \<longleftrightarrow> length (tb_buf b) < tb_cap b \<and> length (tb_buf b) < limit"

lemma curl_grow_enough: "0 < c \<Longrightarrow> need \<le> limit \<Longrightarrow> need \<le> curl_grow limit need c"
  by (induction limit need c rule: curl_grow.induct) auto

lemma curl_write_cases:
  assumes "buf_ok limit b"
  shows "length (tb_buf b) + length p < limit \<Longrightarrow> \<exists>b'. curl_write init limit p b = Some b' \<and> tb_buf b' = tb_buf b @ p \<and> buf_ok limit b'"
    and "length (tb_buf b) + length p \<ge> limit \<Longrightarrow> curl_write init limit p b = None"
proof -
  assume fits: "length (tb_buf b) + length p < limit"
  then have "length (tb_buf b) + length p + 1 \<le> curl_grow limit (length (tb_buf b) + length p + 1) (tb_cap b * 2)"
    using assms curl_grow_enough [of "tb_cap b * 2"] by (simp add: buf_ok_def)
  then show "\<exists>b'. curl_write init limit p b = Some b' \<and> tb_buf b' = tb_buf b @ p \<and> buf_ok limit b'"
    using fits assms by (auto simp: curl_write_def buf_ok_def Let_def)
qed (simp add: curl_write_def)

text \<open>A response is kept whole or the transfer fails; the buffer never holds more bytes than it has.\<close>

lemma receive_whole:
  assumes "buf_ok limit b"
  shows "fst (curl_receive init limit ps b) \<longleftrightarrow> ps = [] \<or> length (tb_buf b) + length (concat ps) < limit"
    and "fst (curl_receive init limit ps b) \<Longrightarrow> tb_buf (snd (curl_receive init limit ps b)) = tb_buf b @ concat ps"
    and "buf_ok limit (snd (curl_receive init limit ps b))"
proof -
  have "(fst (curl_receive init limit ps b) \<longleftrightarrow> ps = [] \<or> length (tb_buf b) + length (concat ps) < limit) \<and>
     (fst (curl_receive init limit ps b) \<longrightarrow> tb_buf (snd (curl_receive init limit ps b)) = tb_buf b @ concat ps) \<and> buf_ok limit (snd (curl_receive init limit ps b))"
    using assms
  proof (induction ps arbitrary: b)
    case (Cons p ps)
    show ?case
    proof (cases "length (tb_buf b) + length p < limit")
      case True
      obtain b' where b': "curl_write init limit p b = Some b'" "tb_buf b' = tb_buf b @ p" "buf_ok limit b'"
        using curl_write_cases(1) [OF Cons.prems True] by blast
      show ?thesis using Cons.IH [OF b'(3)] b' True by auto
    next
      case False
      then show ?thesis using curl_write_cases(2) [OF Cons.prems, of p init] Cons.prems by simp
    qed
  qed simp
  then show "fst (curl_receive init limit ps b) \<longleftrightarrow> ps = [] \<or> length (tb_buf b) + length (concat ps) < limit"
    "fst (curl_receive init limit ps b) \<Longrightarrow> tb_buf (snd (curl_receive init limit ps b)) = tb_buf b @ concat ps"
    "buf_ok limit (snd (curl_receive init limit ps b))" by blast+
qed

end
