(* ===== verification/Telegram.thy ===== *)
theory Telegram
  imports Channels Cjson Curl_Buffer
begin

text \<open>
  The Telegram channel (\<open>src/channels/telegram.c\<close>): the growing response buffer, the allowlist, the reading of one update, long
  polling with its offset, and sending in paced pieces with one retry after a rate limit.  The HTTP client and the parser of JSON
  text are arguments; a transfer is the pieces it hands to the write callback, whether libcurl is content, and the status.  The state of
  the world \<open>'w\<close> is whatever the transfers and the pauses depend on.
\<close>

section \<open>Definitions\<close>

definition TG_API_BASE :: string where "TG_API_BASE = ''https://api.telegram.org/bot''"
definition TG_GET_UPDATES :: string where "TG_GET_UPDATES = ''getUpdates''"
definition TG_SEND_MSG :: string where "TG_SEND_MSG = ''sendMessage''"
definition TG_RESP_BUF_SIZE :: nat where "TG_RESP_BUF_SIZE = 256 * 1024"
definition TG_RESP_BUF_INIT :: nat where "TG_RESP_BUF_INIT = 4096"
definition TG_TEXT_MAX :: nat where "TG_TEXT_MAX = 4096"
definition TG_CHUNK_PAUSE_MS :: int where "TG_CHUNK_PAUSE_MS = 500"
definition TG_429_WAIT_CAP_SEC :: int where "TG_429_WAIT_CAP_SEC = 30"

record telegram_ctx =
  tg_token :: "string option"
  tg_cfg :: "config option"
  tg_last_update_id :: int
  tg_initialized :: bool

record tg_transfer =
  tf_pieces :: "string list"
  tf_ok :: bool
  tf_status :: int

text \<open>\<open>tv_long\<close> is the conversion of a double to \<open>long\<close>, \<open>tv_round\<close> the one of \<open>(int)(x + 0.5)\<close>.\<close>

record 'w tg_env =
  tv_getenv :: "string \<Rightarrow> string option"
  tv_parse :: "string \<Rightarrow> cjson option"
  tv_long :: "double \<Rightarrow> int"
  tv_round :: "double \<Rightarrow> int"
  tv_escape :: "string \<Rightarrow> string"
  tv_transfer :: "string \<Rightarrow> string option \<Rightarrow> 'w \<Rightarrow> tg_transfer \<times> 'w"
  tv_sleep :: "int \<Rightarrow> 'w \<Rightarrow> 'w"

subsection \<open>Transfers\<close>

definition tg_buf_new :: curl_buf where
  "tg_buf_new = curl_buf_new TG_RESP_BUF_INIT"

definition write_cb :: "string \<Rightarrow> curl_buf \<Rightarrow> curl_buf option" where
  "write_cb p b = curl_write TG_RESP_BUF_INIT TG_RESP_BUF_SIZE p b"

fun receive :: "string list \<Rightarrow> curl_buf \<Rightarrow> bool \<times> curl_buf" where
  "receive [] b = (True, b)"
| "receive (p # ps) b = (case write_cb p b of None \<Rightarrow> (False, b) | Some b' \<Rightarrow> receive ps b')"

definition tg_curl_perform :: "'w tg_env \<Rightarrow> string \<Rightarrow> string option \<Rightarrow> curl_buf \<Rightarrow> 'w \<Rightarrow> (int option \<times> curl_buf) \<times> 'w" where
  "tg_curl_perform e url post b w =
     (let (t, w') = tv_transfer e url post w; (whole, b') = receive (tf_pieces t) b in
      ((if whole \<and> tf_ok t then Some (tf_status t) else None, b'), w'))"

subsection \<open>Updates\<close>

definition is_user_allowed :: "config option \<Rightarrow> int \<Rightarrow> bool" where
  "is_user_allowed cfg user_id = (case cfg of None \<Rightarrow> False | Some c \<Rightarrow> list_ex (\<lambda>a. a = Some (int_str user_id)) (chan_allowed (c_telegram c)))"

definition make_session_id :: "int \<Rightarrow> string" where
  "make_session_id user_id = ''telegram:'' @ int_str user_id"

record tg_msg = channel_incoming_msg +
  tm_attachments :: "(string \<times> nat \<times> bool) list"

definition photo_attachments :: "cjson \<Rightarrow> (string \<times> nat \<times> bool) list" where
  "photo_attachments msg =
     (case cJSON_GetObjectItem msg ''photo'' of
        None \<Rightarrow> []
      | Some photo \<Rightarrow>
          if \<not> cJSON_IsArray photo \<or> array_items photo = [] then []
          else case string_of (object_item (cJSON_GetArrayItem photo (length (array_items photo) - 1)) ''file_id'') of
            None \<Rightarrow> []
          | Some fid \<Rightarrow> [(fid, length fid, False)])"

definition message_text :: "cjson \<Rightarrow> string" where
  "message_text msg =
     (let t = (case string_of (cJSON_GetObjectItem msg ''text'') of None \<Rightarrow> [] | Some s \<Rightarrow> s) in
      case string_of (cJSON_GetObjectItem msg ''caption'') of None \<Rightarrow> t | Some s \<Rightarrow> if t = [] then s else t)"

text \<open>From the number of the update on: \<open>None\<close> where the update is skipped.\<close>

definition read_message :: "'w tg_env \<Rightarrow> config option \<Rightarrow> cjson \<Rightarrow> tg_msg option" where
  "read_message e cfg first =
     (case cJSON_GetObjectItem first ''message'' of
        None \<Rightarrow> None
      | Some msg \<Rightarrow>
          if \<not> cJSON_IsObject msg then None
          else case number_of (object_item (cJSON_GetObjectItem msg ''from'') ''id'') of
            None \<Rightarrow> None
          | Some d \<Rightarrow>
              let user_id = tv_long e d in
              if \<not> is_user_allowed cfg user_id then None
              else Some \<lparr>cm_session_id = make_session_id user_id, cm_user_id = Some (int_str user_id), cm_text = Some (message_text msg),
                     tm_attachments = photo_attachments msg\<rparr>)"

text \<open>The C code, the message for code 1, and \<open>update_id_out\<close>, which the caller has set to 0.\<close>

definition parse_update :: "'w tg_env \<Rightarrow> config option \<Rightarrow> string \<Rightarrow> int \<times> tg_msg option \<times> int" where
  "parse_update e cfg json =
     (case tv_parse e json of
        None \<Rightarrow> (- 1, None, 0)
      | Some root \<Rightarrow>
          if \<not> cJSON_IsObject root then (- 1, None, 0)
          else case cJSON_GetObjectItem root ''result'' of
            None \<Rightarrow> (- 1, None, 0)
          | Some result \<Rightarrow>
              if \<not> cJSON_IsArray result then (- 1, None, 0)
              else case array_items result of
                [] \<Rightarrow> (0, None, 0)
              | first # _ \<Rightarrow>
                  if \<not> cJSON_IsObject first then (- 1, None, 0)
                  else case number_of (cJSON_GetObjectItem first ''update_id'') of
                    None \<Rightarrow> (- 1, None, 0)
                  | Some d \<Rightarrow>
                      (case read_message e cfg first of
                         None \<Rightarrow> (0, None, tv_long e d)
                       | Some m \<Rightarrow> (1, Some m, tv_long e d)))"

definition getupdates_text :: "string \<Rightarrow> int \<Rightarrow> int \<Rightarrow> string" where
  "getupdates_text token timeout_sec offset =
     TG_API_BASE @ token @ ''/'' @ TG_GET_UPDATES @ ''?timeout='' @ int_str timeout_sec @ ''&offset='' @ int_str offset @ ''&limit=1''"

definition format_getupdates_url :: "nat \<Rightarrow> string option \<Rightarrow> int \<Rightarrow> int \<Rightarrow> string option" where
  "format_getupdates_url url_cap token timeout_sec offset =
     (case token of
        None \<Rightarrow> None
      | Some t \<Rightarrow>
          if url_cap = 0 \<or> t = [] then None
          else let u = getupdates_text t timeout_sec offset in if length u \<ge> url_cap then None else Some u)"

subsection \<open>The channel\<close>

definition tg_init :: "'w tg_env \<Rightarrow> config option \<Rightarrow> telegram_ctx \<Rightarrow> int \<times> telegram_ctx" where
  "tg_init e cfg g =
     (case cfg of
        None \<Rightarrow> (0, g)
      | Some c \<Rightarrow>
          if \<not> chan_enabled (c_telegram c) then (0, g)
          else case chan_token_env (c_telegram c) of
            None \<Rightarrow> (- 1, g)
          | Some env_name \<Rightarrow>
              (case nonempty (tv_getenv e env_name) of
                 None \<Rightarrow> (- 1, g)
               | Some token \<Rightarrow> (0, \<lparr>tg_token = Some token, tg_cfg = cfg, tg_last_update_id = 0, tg_initialized = True\<rparr>)))"

definition poll_seconds :: "int \<Rightarrow> int" where
  "poll_seconds timeout_ms = (if timeout_ms \<ge> 1000 then timeout_ms div 1000 else 1)"

definition tg_poll :: "'w tg_env \<Rightarrow> int \<Rightarrow> telegram_ctx \<Rightarrow> 'w \<Rightarrow> (int \<times> tg_msg option) \<times> telegram_ctx \<times> 'w" where
  "tg_poll e timeout_ms g w =
     (if \<not> tg_initialized g \<or> tg_token g = None then ((- 1, None), g, w)
      else case format_getupdates_url 512 (tg_token g) (poll_seconds timeout_ms) (tg_last_update_id g + 1) of
        None \<Rightarrow> ((- 1, None), g, w)
      | Some url \<Rightarrow>
          (case tg_curl_perform e url None tg_buf_new w of
             ((None, b), w') \<Rightarrow> ((0, None), g, w')
           | ((Some code, b), w') \<Rightarrow>
               let (r, m, update_id) = parse_update e (tg_cfg g) (cstr (tb_buf b)) in
               if r > 0 then ((1, m), g\<lparr>tg_last_update_id := update_id\<rparr>, w')
               else if r < 0 then ((- 1, None), g, w')
               else ((0, None), if update_id > 0 then g\<lparr>tg_last_update_id := update_id\<rparr> else g, w')))"

definition telegram_response_ok :: "'w tg_env \<Rightarrow> int \<Rightarrow> string \<Rightarrow> bool" where
  "telegram_response_ok e http_code body =
     (if http_code < 200 \<or> http_code \<ge> 300 then False
      else if body = [] then False
      else case tv_parse e body of
        None \<Rightarrow> False
      | Some root \<Rightarrow> cJSON_IsObject root \<and> cJSON_GetObjectItemCaseSensitive root ''ok'' = Some CTrue)"

definition telegram_retry_after_sec :: "'w tg_env \<Rightarrow> string \<Rightarrow> int" where
  "telegram_retry_after_sec e body =
     (if body = [] then 0
      else case tv_parse e body of
        None \<Rightarrow> 0
      | Some root \<Rightarrow>
          if \<not> cJSON_IsObject root then 0
          else let params = cJSON_GetObjectItem root ''parameters'';
                   ra = (case params of None \<Rightarrow> None | Some p \<Rightarrow> if cJSON_IsObject p then cJSON_GetObjectItemCaseSensitive p ''retry_after'' else None);
                   wait_sec = (case number_of ra of None \<Rightarrow> 0 | Some d \<Rightarrow> if double_less d_0 d then tv_round e d else 0) in
            if wait_sec > TG_429_WAIT_CAP_SEC then TG_429_WAIT_CAP_SEC else wait_sec)"

definition tg_sleep_ms :: "'w tg_env \<Rightarrow> int \<Rightarrow> 'w \<Rightarrow> 'w" where
  "tg_sleep_ms e ms w = (if ms \<le> 0 then w else tv_sleep e ms w)"

definition telegram_perform_post :: "'w tg_env \<Rightarrow> string \<Rightarrow> string \<Rightarrow> 'w \<Rightarrow> int \<times> 'w" where
  "telegram_perform_post e url postfields w =
     (case tg_curl_perform e url (Some postfields) tg_buf_new w of
        ((None, b), w1) \<Rightarrow> (- 1, w1)
      | ((Some code, b), w1) \<Rightarrow>
          if \<not> telegram_response_ok e code (cstr (tb_buf b)) \<and> code = 429 then
            (let wait_sec = telegram_retry_after_sec e (cstr (tb_buf b));
                 w2 = (if wait_sec > 0 then tg_sleep_ms e (wait_sec * 1000) w1 else w1) in
             case tg_curl_perform e url (Some postfields) (b\<lparr>tb_buf := []\<rparr>) w2 of
               ((None, b'), w3) \<Rightarrow> (if telegram_response_ok e code (cstr (tb_buf b')) then 0 else - 1, w3)
             | ((Some code', b'), w3) \<Rightarrow> (if telegram_response_ok e code' (cstr (tb_buf b')) then 0 else - 1, w3))
          else (if telegram_response_ok e code (cstr (tb_buf b)) then 0 else - 1, w1))"

definition telegram_post_chunk :: "'w tg_env \<Rightarrow> telegram_ctx \<Rightarrow> string \<Rightarrow> string \<Rightarrow> 'w \<Rightarrow> int \<times> 'w" where
  "telegram_post_chunk e g chat_id t w =
     telegram_perform_post e (take 511 (TG_API_BASE @ the (tg_token g) @ ''/'' @ TG_SEND_MSG))
       (''chat_id='' @ chat_id @ ''&text='' @ tv_escape e t) w"

definition tg_post_piece :: "'w tg_env \<Rightarrow> telegram_ctx \<Rightarrow> string \<Rightarrow> string \<Rightarrow> bool \<times> 'w \<Rightarrow> int \<times> bool \<times> 'w" where
  "tg_post_piece e g chat_id piece ctx =
     (let w1 = (if fst ctx then tg_sleep_ms e TG_CHUNK_PAUSE_MS (snd ctx) else snd ctx); (r, w2) = telegram_post_chunk e g chat_id piece w1 in
      (r, True, w2))"

definition recipient_chat :: "string \<Rightarrow> string" where
  "recipient_chat recipient = (if CHR '':'' \<in> set recipient then tl (dropWhile (\<lambda>c. c \<noteq> CHR '':'') recipient) else recipient)"

definition tg_send :: "'w tg_env \<Rightarrow> telegram_ctx \<Rightarrow> string option \<Rightarrow> string option \<Rightarrow> 'w \<Rightarrow> int \<times> 'w" where
  "tg_send e g recipient t w =
     (if \<not> tg_initialized g \<or> tg_token g = None then (- 1, w)
      else case (recipient, nonempty t) of
        (Some rcp, Some x) \<Rightarrow>
          if recipient_chat rcp = [] then (- 1, w)
          else let (r, fail, ctx) = channel_send_chunked (Some x) TG_TEXT_MAX (Some (tg_post_piece e g (recipient_chat rcp))) (False, w) in
            (if r \<noteq> 0 then - 1 else 0, snd ctx)
      | _ \<Rightarrow> (- 1, w))"

definition tg_cleanup :: "telegram_ctx \<Rightarrow> telegram_ctx" where
  "tg_cleanup g = g\<lparr>tg_token := None, tg_cfg := None, tg_initialized := False\<rparr>"

definition shellclaw_telegram_set_live_cfg :: "config option \<Rightarrow> telegram_ctx \<Rightarrow> telegram_ctx" where
  "shellclaw_telegram_set_live_cfg cfg g = (if tg_initialized g then g\<lparr>tg_cfg := cfg\<rparr> else g)"

section \<open>Responses\<close>

lemma receive_is: "receive ps b = curl_receive TG_RESP_BUF_INIT TG_RESP_BUF_SIZE ps b"
  by (induction ps arbitrary: b) (auto simp: write_cb_def split: option.split)

lemma buf_new_ok: "buf_ok TG_RESP_BUF_SIZE tg_buf_new"
  by (simp add: buf_ok_def tg_buf_new_def curl_buf_new_def TG_RESP_BUF_INIT_def TG_RESP_BUF_SIZE_def)

section \<open>Who is heard, and who is answered\<close>

lemma recipient_of_session: "recipient_chat (make_session_id i) = int_str i"
  by (simp add: recipient_chat_def make_session_id_def)

lemma read_message_allowed:
  assumes "read_message e cfg first = Some m"
  shows "\<exists>uid. is_user_allowed cfg uid \<and> cm_user_id m = Some (int_str uid) \<and> recipient_chat (cm_session_id m) = int_str uid"
  using assms by (auto simp: read_message_def Let_def recipient_of_session split: option.splits if_splits)

text \<open>The wait that a rate limit may ask for is capped.\<close>

lemma retry_after_capped: "telegram_retry_after_sec e body \<le> TG_429_WAIT_CAP_SEC"
  by (simp add: telegram_retry_after_sec_def Let_def TG_429_WAIT_CAP_SEC_def split: option.split)

section \<open>Updates are delivered once and in order\<close>

text \<open>The documented behaviour of \<open>getUpdates\<close> with \<open>limit=1\<close>: the earliest update whose number is at least the offset.  The world is
  the list of what the network does for the next transfers.\<close>

definition pending :: "(int \<times> cjson) list \<Rightarrow> int \<Rightarrow> cjson list" where
  "pending ups off = map snd (take 1 (filter (\<lambda>u. off \<le> fst u) ups))"

definition bot_api :: "bool list tg_env \<Rightarrow> string \<Rightarrow> int \<Rightarrow> (int \<times> cjson) list \<Rightarrow> (int \<Rightarrow> string) \<Rightarrow> bool" where
  "bot_api e token secs ups reply \<longleftrightarrow>
     (\<forall>off \<in> set (1 # map (\<lambda>u. fst u + 1) ups).
        length (getupdates_text token secs off) < 512 \<and> length (reply off) < TG_RESP_BUF_SIZE \<and> nul \<notin> set (reply off) \<and>
        tv_parse e (reply off) = Some (CObject [(''ok'', CTrue), (''result'', CArray (pending ups off))]) \<and>
        (\<forall>b bs. tv_transfer e (getupdates_text token secs off) None (b # bs) =
           (if b then \<lparr>tf_pieces = [reply off], tf_ok = True, tf_status = 200\<rparr> else \<lparr>tf_pieces = [], tf_ok = False, tf_status = 0\<rparr>, bs)))"

definition updates_ok :: "'w tg_env \<Rightarrow> (int \<times> cjson) list \<Rightarrow> bool" where
  "updates_ok e ups \<longleftrightarrow> sorted_wrt (<) (0 # map fst ups) \<and>
     list_all (\<lambda>(i, u). cJSON_IsObject u \<and> map_option (tv_long e) (number_of (cJSON_GetObjectItem u ''update_id'')) = Some i) ups"

fun poll_run :: "'w tg_env \<Rightarrow> int \<Rightarrow> nat \<Rightarrow> telegram_ctx \<Rightarrow> 'w \<Rightarrow> tg_msg list \<times> telegram_ctx \<times> 'w" where
  "poll_run e ms 0 g w = ([], g, w)"
| "poll_run e ms (Suc n) g w =
     (let ((r, m), g1, w1) = tg_poll e ms g w; (rest, g2, w2) = poll_run e ms n g1 w1 in
      ((case m of Some x \<Rightarrow> [x] | None \<Rightarrow> []) @ rest, g2, w2))"

text \<open>The number of the \<open>k\<close>-th update, counted from 1; none before the first.\<close>

definition nth_id :: "(int \<times> cjson) list \<Rightarrow> nat \<Rightarrow> int" where
  "nth_id ups k = (0 # map fst ups) ! k"

lemma pending_drop:
  assumes "sorted_wrt (<) (0 # map fst ups)" "k \<le> length ups"
  shows "filter (\<lambda>u. nth_id ups k + 1 \<le> fst u) ups = drop k ups"
proof -
  have below: "fst u \<le> nth_id ups k" if "u \<in> set (take k ups)" for u
  proof -
    obtain i where i: "i < k" "u = ups ! i" using \<open>u \<in> set (take k ups)\<close> assms(2) by (auto simp: in_set_conv_nth)
    have "Suc i \<le> k" using i by simp
    then have "(0 # map fst ups) ! Suc i \<le> (0 # map fst ups) ! k"
      using sorted_wrt_nth_less [OF assms(1), of "Suc i" k] assms(2) by (cases "Suc i = k") auto
    then show ?thesis using i assms(2) by (simp add: nth_id_def)
  qed
  have above: "nth_id ups k < fst u" if "u \<in> set (drop k ups)" for u
  proof -
    obtain i where "i < length (drop k ups)" "u = drop k ups ! i" using \<open>u \<in> set (drop k ups)\<close> by (metis in_set_conv_nth)
    then have i: "k + i < length ups" "u = ups ! (k + i)" by auto
    then show ?thesis using sorted_wrt_nth_less [OF assms(1), of k "Suc (k + i)"] by (simp add: nth_id_def)
  qed
  have "filter (\<lambda>u. nth_id ups k + 1 \<le> fst u) (take k ups) = []" using below by (fastforce simp: filter_empty_conv)
  moreover have "filter (\<lambda>u. nth_id ups k + 1 \<le> fst u) (drop k ups) = drop k ups" using above by (fastforce simp: filter_id_conv)
  ultimately show ?thesis by (metis append_Nil append_take_drop_id filter_append)
qed

definition polling :: "telegram_ctx \<Rightarrow> string \<Rightarrow> (int \<times> cjson) list \<Rightarrow> nat \<Rightarrow> bool" where
  "polling g token ups k \<longleftrightarrow> tg_initialized g \<and> tg_token g = Some token \<and> token \<noteq> [] \<and> tg_last_update_id g = nth_id ups k \<and> k \<le> length ups"

lemma offset_known: "k \<le> length ups \<Longrightarrow> nth_id ups k + 1 \<in> set (1 # map (\<lambda>u. fst u + 1) ups)"
  by (cases k) (auto simp: nth_id_def)

lemma perform_up:
  assumes "bot_api e token secs ups reply" "k \<le> length ups"
  shows "\<exists>b. tg_curl_perform e (getupdates_text token secs (nth_id ups k + 1)) None tg_buf_new (True # bs) = ((Some 200, b), bs) \<and>
     cstr (tb_buf b) = reply (nth_id ups k + 1)"
proof -
  let ?off = "nth_id ups k + 1"
  have api: "length (reply ?off) < TG_RESP_BUF_SIZE" "nul \<notin> set (reply ?off)"
    "tv_transfer e (getupdates_text token secs ?off) None (True # bs) = (\<lparr>tf_pieces = [reply ?off], tf_ok = True, tf_status = 200\<rparr>, bs)"
    using assms(1) offset_known [OF assms(2)] unfolding bot_api_def by (auto simp del: set_simps)
  obtain whole b where r: "receive [reply ?off] tg_buf_new = (whole, b)" by (metis surj_pair)
  have "whole" "tb_buf b = reply ?off" using receive_whole [OF buf_new_ok, of TG_RESP_BUF_INIT "[reply ?off]"] api(1) r [unfolded receive_is]
    by (auto simp: tg_buf_new_def curl_buf_new_def)
  then show ?thesis using api r by (simp add: tg_curl_perform_def del: receive.simps)
qed

lemma poll_down:
  assumes "bot_api e token (poll_seconds ms) ups reply" "polling g token ups k"
  shows "tg_poll e ms g (False # bs) = ((0, None), g, bs)"
proof -
  let ?off = "nth_id ups k + 1"
  have api: "length (getupdates_text token (poll_seconds ms) ?off) < 512"
    "tv_transfer e (getupdates_text token (poll_seconds ms) ?off) None (False # bs) = (\<lparr>tf_pieces = [], tf_ok = False, tf_status = 0\<rparr>, bs)"
    using assms offset_known [of k ups] unfolding bot_api_def polling_def by (auto simp del: set_simps)
  then show ?thesis using assms(2) by (simp add: tg_poll_def polling_def format_getupdates_url_def tg_curl_perform_def Let_def)
qed

lemma poll_up:
  assumes "bot_api e token (poll_seconds ms) ups reply" "polling g token ups k" "updates_ok e ups"
  shows "tg_poll e ms g (True # bs) =
    (if k < length ups
     then let m = read_message e (tg_cfg g) (snd (ups ! k)) in ((if m = None then 0 else 1, m), g\<lparr>tg_last_update_id := nth_id ups (Suc k)\<rparr>, bs)
     else ((0, None), g, bs))"
proof -
  let ?off = "nth_id ups k + 1"
  have k: "k \<le> length ups" using assms(2) by (simp add: polling_def)
  have api: "length (getupdates_text token (poll_seconds ms) ?off) < 512"
    "tv_parse e (reply ?off) = Some (CObject [(''ok'', CTrue), (''result'', CArray (pending ups ?off))])"
    using assms(1) offset_known [OF k] unfolding bot_api_def by (auto simp del: set_simps)
  obtain b where b: "tg_curl_perform e (getupdates_text token (poll_seconds ms) ?off) None tg_buf_new (True # bs) = ((Some 200, b), bs)"
    "cstr (tb_buf b) = reply ?off" using perform_up [OF assms(1) k] by blast
  have sorted: "sorted_wrt (<) (0 # map fst ups)" using assms(3) by (simp add: updates_ok_def)
  have pend: "pending ups ?off = map snd (take 1 (drop k ups))" using pending_drop [OF sorted k] by (simp add: pending_def)
  have url: "format_getupdates_url 512 (tg_token g) (poll_seconds ms) (tg_last_update_id g + 1) = Some (getupdates_text token (poll_seconds ms) ?off)"
    using api(1) assms(2) by (simp add: format_getupdates_url_def polling_def Let_def)
  have poll: "tg_poll e ms g (True # bs) =
     (let (r, m, i) = parse_update e (tg_cfg g) (reply ?off) in
      if r > 0 then ((1, m), g\<lparr>tg_last_update_id := i\<rparr>, bs) else if r < 0 then ((- 1, None), g, bs)
      else ((0, None), if i > 0 then g\<lparr>tg_last_update_id := i\<rparr> else g, bs))"
    using assms(2) url b by (simp add: tg_poll_def polling_def)
  show ?thesis
  proof (cases "k < length ups")
    case False
    then show ?thesis using poll api(2) pend k by (simp add: parse_update_def lower_def)
  next
    case True
    obtain i u where u: "ups ! k = (i, u)" by (metis surj_pair)
    have first: "pending ups ?off = [u]" using pend True u by (simp add: take_Suc hd_drop_conv_nth)
    have "(i, u) \<in> set ups" using True u by (metis nth_mem)
    then obtain d where d: "cJSON_IsObject u" "number_of (cJSON_GetObjectItem u ''update_id'') = Some d" "tv_long e d = i"
      using assms(3) by (auto simp: updates_ok_def list_all_iff map_option_eq_Some)
    have i: "nth_id ups (Suc k) = i" "0 < i" using True u sorted nth_mem [OF True] by (auto simp: nth_id_def)
    have "parse_update e (tg_cfg g) (reply ?off) =
       (case read_message e (tg_cfg g) u of None \<Rightarrow> (0, None, i) | Some m \<Rightarrow> (1, Some m, i))"
      using api(2) first d by (simp add: parse_update_def lower_def split: option.split)
    then show ?thesis using poll True u i by (simp add: Let_def split: option.split)
  qed
qed

lemma polling_next: "polling g token ups k \<Longrightarrow> k < length ups \<Longrightarrow> polling (g\<lparr>tg_last_update_id := nth_id ups (Suc k)\<rparr>) token ups (Suc k)"
  by (simp add: polling_def)

lemma poll_run_from:
  assumes "bot_api e token (poll_seconds ms) ups reply" "updates_ok e ups" "polling g token ups k"
  shows "\<exists>g'. poll_run e ms (length net) g net =
    (List.map_filter (\<lambda>u. read_message e (tg_cfg g) (snd u)) (take (length (filter (\<lambda>b. b) net)) (drop k ups)), g', [])"
  using assms(3)
proof (induction net arbitrary: g k)
  case (Cons b net)
  show ?case
  proof (cases "b \<and> k < length ups")
    case False
    then have "tg_poll e ms g (b # net) = ((0, None), g, net)" "take (length (filter (\<lambda>b. b) (b # net))) (drop k ups) = take (length (filter (\<lambda>b. b) net)) (drop k ups)"
      using poll_down [OF assms(1) Cons.prems] poll_up [OF assms(1) Cons.prems assms(2)] by (cases b; simp)+
    then show ?thesis using Cons.IH [OF Cons.prems] by auto
  next
    case True
    let ?g = "g\<lparr>tg_last_update_id := nth_id ups (Suc k)\<rparr>"
    let ?m = "read_message e (tg_cfg g) (snd (ups ! k))"
    have p: "tg_poll e ms g (b # net) = ((if ?m = None then 0 else 1, ?m), ?g, net)"
      using poll_up [OF assms(1) Cons.prems assms(2), of net] True by (simp add: Let_def)
    have d: "take (length (filter (\<lambda>b. b) (b # net))) (drop k ups) = ups ! k # take (length (filter (\<lambda>b. b) net)) (drop (Suc k) ups)"
      using True by (simp add: Cons_nth_drop_Suc [symmetric])
    obtain g' where "poll_run e ms (length net) ?g net =
      (List.map_filter (\<lambda>u. read_message e (tg_cfg g) (snd u)) (take (length (filter (\<lambda>b. b) net)) (drop (Suc k) ups)), g', [])"
      using Cons.IH [OF polling_next [OF Cons.prems]] True by auto
    then show ?thesis unfolding d using p by (auto simp: map_filter_simps split: option.split)
  qed
qed (simp add: map_filter_simps)

text \<open>(C36) Polling Telegram, with a network that fails whenever it likes: given that getUpdates answers with the earliest update at or
  after the offset, the messages handed on by any number of polls after initialisation are those of the first updates, as many
  as there were polls with a working network, in order, each once, updates that are skipped never blocking those after them; and
  each of these messages is by a user of the allowlist, to whose chat a reply to its session goes.\<close>

theorem telegram_delivers_allowed:
  assumes "tg_init e (Some c) g0 = (0, g)" "chan_enabled (c_telegram c)" "poll_run e ms (length net) g net = (msgs, g', w)"
    and "bot_api e (the (tg_token g)) (poll_seconds ms) ups reply" "updates_ok e ups"
  shows "msgs = List.map_filter (\<lambda>u. read_message e (Some c) (snd u)) (take (length (filter (\<lambda>b. b) net)) ups) \<and>
    (\<forall>m \<in> set msgs. \<exists>uid. Some (int_str uid) \<in> set (chan_allowed (c_telegram c)) \<and> cm_user_id m = Some (int_str uid) \<and>
       recipient_chat (cm_session_id m) = int_str uid)"
proof -
  have g: "polling g (the (tg_token g)) ups 0" "tg_cfg g = Some c"
    using assms(1,2) by (auto simp: tg_init_def polling_def nth_id_def nonempty_def split: option.splits list.splits)
  have msgs: "msgs = List.map_filter (\<lambda>u. read_message e (Some c) (snd u)) (take (length (filter (\<lambda>b. b) net)) ups)"
    using poll_run_from [OF assms(4,5) g(1), of net] assms(3) g(2) by auto
  have "\<exists>uid. Some (int_str uid) \<in> set (chan_allowed (c_telegram c)) \<and> cm_user_id m = Some (int_str uid) \<and> recipient_chat (cm_session_id m) = int_str uid"
    if m: "m \<in> set msgs" for m
  proof -
    obtain u where "read_message e (Some c) u = Some m" using m unfolding msgs by (auto simp: List.map_filter_def)
    from read_message_allowed [OF this] show ?thesis by (auto simp: is_user_allowed_def list_ex_iff)
  qed
  then show ?thesis using msgs by blast
qed

text \<open>Three updates: of an allowed user, of a stranger, and a photo with a caption of the allowed user.\<close>

definition sample_double :: "double \<Rightarrow> int" where
  "sample_double d = (if d = 0x4014000000000000 then 5 else if d = 0x4018000000000000 then 6 else if d = 0x401C000000000000 then 7
     else if d = 0x4020000000000000 then 8 else if d = 0x4022000000000000 then 9 else 0)"

definition sample_update :: "double \<Rightarrow> double \<Rightarrow> (string \<times> cjson) list \<Rightarrow> cjson" where
  "sample_update i user body = CObject [(''update_id'', CNumber i), (''message'', CObject ((''from'', CObject [(''id'', CNumber user)]) # body))]"

definition sample_updates :: "(int \<times> cjson) list" where
  "sample_updates = [(5, sample_update 0x4014000000000000 0x401C000000000000 [(''text'', CString ''hi'')]),
     (6, sample_update 0x4018000000000000 0x4020000000000000 [(''text'', CString ''let me in'')]),
     (9, sample_update 0x4022000000000000 0x401C000000000000
           [(''photo'', CArray [CObject [(''file_id'', CString ''small'')], CObject [(''file_id'', CString ''large'')]]), (''caption'', CString ''look'')])]"

definition sample_reply :: "int \<Rightarrow> string" where
  "sample_reply off = (if off = 1 then ''a'' else if off = 6 then ''b'' else if off = 7 then ''c'' else ''d'')"

definition sample_tg_env :: "bool list tg_env" where
  "sample_tg_env = \<lparr>tv_getenv = (\<lambda>v. if v = ''TG_TOKEN'' then Some ''42:abc'' else None),
     tv_parse = (\<lambda>s. map_option (\<lambda>off. CObject [(''ok'', CTrue), (''result'', CArray (pending sample_updates off))])
        (if s = ''a'' then Some 1 else if s = ''b'' then Some 6 else if s = ''c'' then Some 7 else if s = ''d'' then Some 10 else None)),
     tv_long = sample_double, tv_round = sample_double, tv_escape = (\<lambda>s. s),
     tv_transfer = (\<lambda>url post w. if hd w
        then (\<lparr>tf_pieces = [sample_reply (if url = getupdates_text ''42:abc'' 1 1 then 1 else if url = getupdates_text ''42:abc'' 1 6 then 6
                else if url = getupdates_text ''42:abc'' 1 7 then 7 else 10)], tf_ok = True, tf_status = 200\<rparr>, tl w)
        else (\<lparr>tf_pieces = [], tf_ok = False, tf_status = 0\<rparr>, tl w)),
     tv_sleep = (\<lambda>ms w. w)\<rparr>"

definition sample_tg_config :: config where
  "sample_tg_config = config_defaults\<lparr>c_telegram := \<lparr>chan_enabled = True, chan_token_env = Some ''TG_TOKEN'', chan_allowed = [Some ''7'']\<rparr>\<rparr>"

definition sample_tg_ctx :: telegram_ctx where
  "sample_tg_ctx = \<lparr>tg_token = Some ''42:abc'', tg_cfg = Some sample_tg_config, tg_last_update_id = 0, tg_initialized = True\<rparr>"

lemma sample_urls:
  "list_all (\<lambda>off. length (getupdates_text ''42:abc'' 1 off) < 512) [1, 6, 7, 10]"
  "getupdates_text ''42:abc'' 1 6 \<noteq> getupdates_text ''42:abc'' 1 1" "getupdates_text ''42:abc'' 1 7 \<noteq> getupdates_text ''42:abc'' 1 1"
  "getupdates_text ''42:abc'' 1 7 \<noteq> getupdates_text ''42:abc'' 1 6" "getupdates_text ''42:abc'' 1 10 \<noteq> getupdates_text ''42:abc'' 1 1"
  "getupdates_text ''42:abc'' 1 10 \<noteq> getupdates_text ''42:abc'' 1 6" "getupdates_text ''42:abc'' 1 10 \<noteq> getupdates_text ''42:abc'' 1 7"
  by code_simp+

lemma sample_bot_api: "bot_api sample_tg_env ''42:abc'' (poll_seconds 1000) sample_updates sample_reply"
proof -
  have offs: "set (1 # map (\<lambda>u. fst u + 1) sample_updates) = {1, 6, 7, 10}" by (auto simp: sample_updates_def)
  have secs: "poll_seconds 1000 = 1" by (simp add: poll_seconds_def)
  show ?thesis unfolding bot_api_def offs secs using sample_urls
    by (simp add: sample_tg_env_def sample_reply_def TG_RESP_BUF_SIZE_def nul_def)
qed

lemma sample_updates_ok: "updates_ok sample_tg_env sample_updates"
  by (simp add: updates_ok_def sample_updates_def sample_update_def sample_tg_env_def sample_double_def lower_def)

lemma sample_tg_init: "tg_init sample_tg_env (Some sample_tg_config) sample_tg_ctx = (0, sample_tg_ctx)"
  by (simp add: tg_init_def sample_tg_config_def sample_tg_env_def sample_tg_ctx_def nonempty_def)

lemma sample_messages:
  "map (read_message sample_tg_env (Some sample_tg_config) \<circ> snd) sample_updates =
     [Some \<lparr>cm_session_id = ''telegram:7'', cm_user_id = Some ''7'', cm_text = Some ''hi'', tm_attachments = []\<rparr>, None,
      Some \<lparr>cm_session_id = ''telegram:7'', cm_user_id = Some ''7'', cm_text = Some ''look'', tm_attachments = [(''large'', 5, False)]\<rparr>]"
  by code_simp

theorem telegram_delivers_allowed_witness:
  "map (\<lambda>m. (cm_session_id m, cm_text m)) (fst (poll_run sample_tg_env 1000 5 sample_tg_ctx [True, False, True, False, True])) =
     [(''telegram:7'', Some ''hi''), (''telegram:7'', Some ''look'')]"
proof -
  let ?net = "[True, False, True, False, True]"
  obtain msgs g' w where run5: "poll_run sample_tg_env 1000 5 sample_tg_ctx ?net = (msgs, g', w)" by (metis surj_pair)
  have "length ?net = 5" by simp
  then have run: "poll_run sample_tg_env 1000 (length ?net) sample_tg_ctx ?net = (msgs, g', w)" using run5 by (simp only:)
  have tok: "the (tg_token sample_tg_ctx) = ''42:abc''" "chan_enabled (c_telegram sample_tg_config)" by (simp_all add: sample_tg_ctx_def sample_tg_config_def)
  have "msgs = List.map_filter (\<lambda>u. read_message sample_tg_env (Some sample_tg_config) (snd u)) (take 3 sample_updates)"
    using telegram_delivers_allowed [OF sample_tg_init tok(2) run, of sample_updates sample_reply] sample_bot_api sample_updates_ok tok(1)
    by (simp add: numeral_3_eq_3)
  also have "... = List.map_filter (\<lambda>x. x) (map (read_message sample_tg_env (Some sample_tg_config) \<circ> snd) sample_updates)"
    by (simp add: sample_updates_def List.map_filter_def comp_def)
  finally have "map (\<lambda>m. (cm_session_id m, cm_text m)) msgs = [(''telegram:7'', Some ''hi''), (''telegram:7'', Some ''look'')]"
    unfolding sample_messages by (simp add: map_filter_simps)
  then show ?thesis unfolding run5 by simp
qed

text \<open>A reply is posted as the pieces of theory \<open>Channel_Common\<close>, in order, up to the first one that is refused.\<close>

lemma tg_send_pieces:
  assumes "tg_initialized g" "tg_token g = Some token" "recipient_chat rcp \<noteq> []" "t \<noteq> []"
  shows "tg_send e g (Some rcp) (Some t) w =
    (let ps = chunks TG_TEXT_MAX t; (k, ctx) = post_all (tg_post_piece e g (recipient_chat rcp)) ps (False, w) in
     (if k = length ps then 0 else - 1, snd ctx))"
proof -
  have "nonempty (Some t) = Some t" using assms(4) by (cases t) (simp_all add: nonempty_def)
  moreover have "0 < TG_TEXT_MAX" by (simp add: TG_TEXT_MAX_def)
  ultimately show ?thesis using assms chunked_delivery [of TG_TEXT_MAX t "tg_post_piece e g (recipient_chat rcp)" "(False, w)"]
    by (simp add: tg_send_def Let_def split: prod.split)
qed

end
