(* ===== verification/Discord.thy ===== *)
theory Discord
  imports Channels Cjson
begin

text \<open>
  The Discord channel (\<open>src/channels/discord.c\<close> and \<open>discord_helpers.c\<close>): the callbacks of its gateway connection, which
  reassemble fragments into payloads, keep the session and queue the messages of allowed users; the loop of its thread, which reconnects
  and asks for heartbeats; and sending by REST with back-off.  libwebsockets, libcurl and the JSON text are arguments: an event is a callback
  of libwebsockets, and what a callback does to the connection is a list of outputs.
\<close>

section \<open>Definitions\<close>

subsection \<open>Helpers\<close>

definition discord_helpers_allow_entry_equals :: "string option \<Rightarrow> string option \<Rightarrow> bool" where
  "discord_helpers_allow_entry_equals allow_entry author_id =
     (case (nonempty allow_entry, nonempty author_id) of (Some a, Some b) \<Rightarrow> a = b | _ \<Rightarrow> False)"

definition discord_helpers_user_in_allowlist :: "string option list \<Rightarrow> string option \<Rightarrow> bool" where
  "discord_helpers_user_in_allowlist allowed author_id =
     (if allowed = [] \<or> nonempty author_id = None then False
      else list_ex (\<lambda>a. discord_helpers_allow_entry_equals a author_id) allowed)"

definition DISCORD_SESSION_PREFIX :: string where "DISCORD_SESSION_PREFIX = ''discord:c:''"

definition discord_helpers_session_id_from_channel :: "string option \<Rightarrow> nat \<Rightarrow> string option" where
  "discord_helpers_session_id_from_channel channel_id outsiz =
     (case nonempty channel_id of
        None \<Rightarrow> None
      | Some c \<Rightarrow> if outsiz = 0 \<or> length DISCORD_SESSION_PREFIX + length c + 1 > outsiz then None else Some (DISCORD_SESSION_PREFIX @ c))"

definition discord_helpers_mentions_include_bot :: "cjson option \<Rightarrow> string option \<Rightarrow> bool" where
  "discord_helpers_mentions_include_bot mentions bot_id =
     (case (mentions, nonempty bot_id) of
        (Some ms, Some b) \<Rightarrow> cJSON_IsArray ms \<and> list_ex (\<lambda>user. string_of (object_item (Some user) ''id'') = Some b) (array_items ms)
      | _ \<Rightarrow> False)"

definition is_guild_message :: "cjson \<Rightarrow> bool" where
  "is_guild_message pl \<longleftrightarrow> nonempty (string_of (cJSON_GetObjectItem pl ''guild_id'')) \<noteq> None"

text \<open>\<open>Some\<close> the session is the code 1; the codes 0 and -1 are both \<open>None\<close>, the caller tells them not apart.\<close>

definition discord_helpers_route_message_create :: "cjson \<Rightarrow> string option list \<Rightarrow> string option \<Rightarrow> nat \<Rightarrow> string option" where
  "discord_helpers_route_message_create pl allowed bot_user_id session_outsz =
     (if \<not> cJSON_IsObject pl \<or> session_outsz = 0 then None
      else case cJSON_GetObjectItem pl ''author'' of
        None \<Rightarrow> None
      | Some author \<Rightarrow>
          if \<not> cJSON_IsObject author then None
          else if cJSON_GetObjectItem author ''bot'' = Some CTrue then None
          else case nonempty (string_of (cJSON_GetObjectItem author ''id'')) of
            None \<Rightarrow> None
          | Some author_id \<Rightarrow>
              if \<not> discord_helpers_user_in_allowlist allowed (Some author_id) then None
              else if is_guild_message pl \<and>
                (nonempty bot_user_id = None \<or> \<not> discord_helpers_mentions_include_bot (cJSON_GetObjectItem pl ''mentions'') bot_user_id) then None
              else discord_helpers_session_id_from_channel (string_of (cJSON_GetObjectItem pl ''channel_id'')) session_outsz)"

text \<open>\<open>ms\<close> is \<open>(int)(retry_after_sec * 1000.0)\<close> where the header was positive.\<close>

definition discord_helpers_send_backoff_ms :: "nat \<Rightarrow> int option \<Rightarrow> int \<Rightarrow> int \<Rightarrow> int \<Rightarrow> int" where
  "discord_helpers_send_backoff_ms attempt ms jitter_raw base_ms cap_ms =
     (let sleep_ms = (case ms of Some m \<Rightarrow> m + jitter_raw mod 50 | None \<Rightarrow> 2 ^ attempt * base_ms + jitter_raw);
          sleep_ms = (if sleep_ms < 100 then 100 else sleep_ms) in
      if sleep_ms > cap_ms then cap_ms else sleep_ms)"

record discord_rx =
  rx_buf :: string
  rx_cap :: nat
  rx_skip :: bool

function (sequential) double_until :: "nat \<Rightarrow> nat \<Rightarrow> nat" where
  "double_until need 0 = 0"
| "double_until need c = (if c < need then double_until need (2 * c) else c)"
  by pat_completeness auto
termination by (relation "measure (\<lambda>(need, c). need - c)") auto

definition discord_helpers_rx_append :: "string \<Rightarrow> nat \<Rightarrow> discord_rx \<Rightarrow> discord_rx option" where
  "discord_helpers_rx_append chunk max_cap r =
     (if max_cap < 1 \<or> length chunk > max_cap \<or> length (rx_buf r) > max_cap - length chunk then None
      else let need = length (rx_buf r) + length chunk + 1 in
        if need > max_cap then None
        else if rx_cap r < need then
          (let ncap = min max_cap (double_until need (if rx_cap r \<noteq> 0 then rx_cap r * 2 else 4096)) in
           if ncap < need then None else Some (r\<lparr>rx_buf := rx_buf r @ chunk, rx_cap := ncap\<rparr>))
        else Some (r\<lparr>rx_buf := rx_buf r @ chunk\<rparr>))"

subsection \<open>State\<close>

definition DISCORD_INTENTS :: nat where "DISCORD_INTENTS = 37377"
definition RX_MAX :: nat where "RX_MAX = 512 * 1024"
definition WRITE_CHUNK :: nat where "WRITE_CHUNK = 65536"
definition DISCORD_SEND_MAX_ATTEMPTS :: nat where "DISCORD_SEND_MAX_ATTEMPTS = 6"
definition DISCORD_SEND_BASE_BACKOFF_MS :: int where "DISCORD_SEND_BASE_BACKOFF_MS = 400"
definition DISCORD_MSG_MAX_LEN :: nat where "DISCORD_MSG_MAX_LEN = 2000"
definition DISCORD_RECIPIENT_PREFIX :: string where "DISCORD_RECIPIENT_PREFIX = ''discord:c:''"
definition DISCORD_CHANNEL_ID_CAP :: nat where "DISCORD_CHANNEL_ID_CAP = 32"
definition DISCORD_AUTH_HDR_CAP :: nat where "DISCORD_AUTH_HDR_CAP = 384"
definition DISCORD_URL_CAP :: nat where "DISCORD_URL_CAP = 512"
definition DISCORD_SEND_WAIT_CAP_MS :: int where "DISCORD_SEND_WAIT_CAP_MS = 300000"
definition DISCORD_RECONNECT_BASE_MS :: nat where "DISCORD_RECONNECT_BASE_MS = 750"
definition DISCORD_RECONNECT_MAX_MS :: nat where "DISCORD_RECONNECT_MAX_MS = 120000"

text \<open>\<open>struct discord_ctx\<close> without the receive buffer.  \<open>dc_wsi\<close>: a connection exists or is being made.\<close>

record discord_ctx =
  dc_cfg :: "config option"
  dc_token :: "string option"
  dc_lws :: bool
  dc_wsi :: bool
  dc_run :: bool
  dc_heartbeat_ms :: int
  dc_last_seq :: nat
  dc_session_id :: "string option"
  dc_bot_user_id :: "string option"
  dc_saw_hello :: bool
  dc_pending_identify :: bool
  dc_pending_resume :: bool
  dc_pending_hb :: bool
  dc_ready :: bool
  dc_schedule :: bool
  dc_outbound :: bool
  dc_backoff_ms :: nat
  dc_deadline_ms :: nat
  dc_queue :: "channel_incoming_msg list"

text \<open>\<open>de_u64\<close> and \<open>de_int\<close> are conversions of doubles, \<open>de_num\<close> the one to a double, \<open>de_ms\<close> is \<open>(int)(x * 1000.0)\<close>.\<close>

record 'w discord_env =
  de_parse :: "string \<Rightarrow> cjson option"
  de_print :: "cjson \<Rightarrow> string option"
  de_u64 :: "double \<Rightarrow> nat"
  de_int :: "double \<Rightarrow> int"
  de_num :: "nat \<Rightarrow> double"
  de_strtod :: "string \<Rightarrow> double"
  de_ms :: "double \<Rightarrow> int"
  de_jitter :: "'w \<Rightarrow> int"
  de_post :: "string \<Rightarrow> string \<Rightarrow> string \<Rightarrow> 'w \<Rightarrow> (bool \<times> int \<times> string list) \<times> 'w"
  de_sleep :: "int \<Rightarrow> 'w \<Rightarrow> 'w"

datatype dc_out = Sent string | Want_Writeable | Set_Close_Reason

subsection \<open>Payloads\<close>

definition discord_send_json :: "string option \<Rightarrow> dc_out list" where
  "discord_send_json json = (case json of None \<Rightarrow> [] | Some j \<Rightarrow> if j = [] \<or> length j > WRITE_CHUNK then [] else [Sent j])"

definition discord_build_identify :: "'w discord_env \<Rightarrow> string \<Rightarrow> cjson" where
  "discord_build_identify e token =
     CObject [(''op'', CNumber (de_num e 2)),
       (''d'', CObject [(''token'', CString token),
          (''properties'', CObject [(''os'', CString ''linux''), (''browser'', CString ''shellclaw''), (''device'', CString ''shellclaw'')]),
          (''intents'', CNumber (de_num e DISCORD_INTENTS))])]"

definition discord_build_resume :: "'w discord_env \<Rightarrow> string \<Rightarrow> string \<Rightarrow> nat \<Rightarrow> cjson option" where
  "discord_build_resume e token session_id seq =
     (if session_id = [] \<or> seq = 0 then None
      else Some (CObject [(''op'', CNumber (de_num e 6)),
        (''d'', CObject [(''token'', CString token), (''session_id'', CString session_id), (''seq'', CNumber (de_num e seq))])]))"

definition discord_build_heartbeat :: "'w discord_env \<Rightarrow> nat \<Rightarrow> cjson" where
  "discord_build_heartbeat e seq = CObject [(''op'', CNumber (de_num e 1)), (''d'', if seq > 0 then CNumber (de_num e seq) else CNull)]"

definition discord_on_message_create :: "cjson \<Rightarrow> discord_ctx \<Rightarrow> discord_ctx" where
  "discord_on_message_create d dc =
     (case dc_cfg dc of
        None \<Rightarrow> dc
      | Some c \<Rightarrow>
          if \<not> cJSON_IsObject d then dc
          else case discord_helpers_route_message_create d (chan_allowed (c_discord c)) (dc_bot_user_id dc) 128 of
            None \<Rightarrow> dc
          | Some sess \<Rightarrow>
              (case nonempty (string_of (cJSON_GetObjectItem d ''content'')) of
                 None \<Rightarrow> dc
               | Some t \<Rightarrow>
                   (case string_of (object_item (cJSON_GetObjectItem d ''author'') ''id'') of
                      None \<Rightarrow> dc
                    | Some author_id \<Rightarrow>
                        dc\<lparr>dc_queue := dc_queue dc @ [\<lparr>cm_session_id = sess, cm_user_id = Some author_id, cm_text = Some t\<rparr>]\<rparr>)))"

definition discord_has_resume_state :: "discord_ctx \<Rightarrow> bool" where
  "discord_has_resume_state dc \<longleftrightarrow> nonempty (dc_session_id dc) \<noteq> None \<and> dc_last_seq dc > 0"

definition discord_handle_dispatch :: "'w discord_env \<Rightarrow> cjson \<Rightarrow> discord_ctx \<Rightarrow> discord_ctx" where
  "discord_handle_dispatch e root dc =
     (let dc1 = (case number_of (cJSON_GetObjectItem root ''s'') of None \<Rightarrow> dc | Some s \<Rightarrow> dc\<lparr>dc_last_seq := de_u64 e s\<rparr>) in
      case (string_of (cJSON_GetObjectItem root ''t''), cJSON_GetObjectItem root ''d'') of
        (Some t, Some d) \<Rightarrow>
          if t = ''READY'' then
            dc1\<lparr>dc_session_id := string_of (cJSON_GetObjectItem d ''session_id''),
                dc_bot_user_id := (case cJSON_GetObjectItem d ''user'' of None \<Rightarrow> None | Some user \<Rightarrow> string_of (cJSON_GetObjectItem user ''id'')),
                dc_ready := True\<rparr>
          else if t = ''RESUMED'' then dc1\<lparr>dc_ready := True\<rparr>
          else if t = ''MESSAGE_CREATE'' then discord_on_message_create d dc1
          else dc1
      | _ \<Rightarrow> dc1)"

definition close_requested :: "discord_ctx \<Rightarrow> discord_ctx \<times> dc_out list" where
  "close_requested dc = (dc\<lparr>dc_schedule := True, dc_deadline_ms := 0\<rparr>, if dc_wsi dc then [Set_Close_Reason] else [])"

definition discord_hello :: "'w discord_env \<Rightarrow> cjson \<Rightarrow> discord_ctx \<Rightarrow> discord_ctx \<times> dc_out list" where
  "discord_hello e d dc =
     (let dc1 = (case number_of (cJSON_GetObjectItem d ''heartbeat_interval'') of None \<Rightarrow> dc | Some v \<Rightarrow> dc\<lparr>dc_heartbeat_ms := de_int e v\<rparr>) in
      (dc1\<lparr>dc_saw_hello := True, dc_pending_identify := \<not> discord_has_resume_state dc, dc_pending_resume := discord_has_resume_state dc\<rparr>,
       [Want_Writeable]))"

definition discord_handle_payload :: "'w discord_env \<Rightarrow> string \<Rightarrow> discord_ctx \<Rightarrow> discord_ctx \<times> dc_out list" where
  "discord_handle_payload e json dc =
     (case de_parse e json of
        None \<Rightarrow> (dc, [])
      | Some root \<Rightarrow>
          (case number_of (cJSON_GetObjectItem root ''op'') of
             None \<Rightarrow> (dc, [])
           | Some op \<Rightarrow>
               let opcode = de_int e op; d = cJSON_GetObjectItem root ''d'' in
               if opcode = 7 then close_requested dc
               else if opcode = 9 then
                 (if d = Some CFalse then close_requested (dc\<lparr>dc_session_id := None, dc_last_seq := 0\<rparr>)
                  else if d = Some CTrue then close_requested dc
                  else (dc, []))
               else if opcode = 10 then
                 (case d of None \<Rightarrow> (dc, []) | Some x \<Rightarrow> if cJSON_IsObject x then discord_hello e x dc else (dc, []))
               else if opcode = 0 then (discord_handle_dispatch e root dc, [])
               else (dc, [])))"

subsection \<open>Callbacks\<close>

datatype dc_event = Established | Connection_Error | Receive string bool | Writeable | Closed

definition connection_lost :: "discord_ctx \<Rightarrow> discord_ctx" where
  "connection_lost dc =
     (let dc1 = dc\<lparr>dc_wsi := False, dc_outbound := False, dc_saw_hello := False, dc_pending_identify := False, dc_pending_resume := False,
                   dc_pending_hb := False, dc_heartbeat_ms := 0, dc_ready := False\<rparr> in
      if dc_run dc then dc1\<lparr>dc_schedule := True, dc_deadline_ms := 0\<rparr> else dc1)"

definition write_handshake :: "'w discord_env \<Rightarrow> discord_ctx \<Rightarrow> discord_ctx \<times> dc_out list" where
  "write_handshake e dc =
     (case dc_token dc of
        None \<Rightarrow> (dc, [])
      | Some token \<Rightarrow>
          if dc_pending_resume dc \<and> dc_saw_hello dc then
            (case Option.bind (dc_session_id dc) (\<lambda>sid. Option.bind (discord_build_resume e token sid (dc_last_seq dc)) (de_print e)) of
               Some json \<Rightarrow> (dc\<lparr>dc_pending_resume := False\<rparr>, discord_send_json (Some json))
             | None \<Rightarrow> (dc\<lparr>dc_pending_resume := False, dc_pending_identify := True\<rparr>, [Want_Writeable]))
          else if dc_pending_identify dc \<and> dc_saw_hello dc then
            (dc\<lparr>dc_pending_identify := False\<rparr>, discord_send_json (de_print e (discord_build_identify e token)))
          else (dc, []))"

definition write_heartbeat :: "'w discord_env \<Rightarrow> discord_ctx \<Rightarrow> discord_ctx \<times> dc_out list" where
  "write_heartbeat e dc =
     (if dc_pending_hb dc
      then (dc\<lparr>dc_pending_hb := False\<rparr>, discord_send_json (de_print e (discord_build_heartbeat e (dc_last_seq dc))))
      else (dc, []))"

definition discord_rx_reset :: "discord_rx \<Rightarrow> discord_rx" where
  "discord_rx_reset r = r\<lparr>rx_buf := [], rx_skip := False\<rparr>"

definition discord_receive :: "'w discord_env \<Rightarrow> string \<Rightarrow> bool \<Rightarrow> discord_rx \<times> discord_ctx \<Rightarrow> (discord_rx \<times> discord_ctx) \<times> dc_out list" where
  "discord_receive e chunk final s =
     (let (r, dc) = s in
      if rx_skip r then ((if final then r\<lparr>rx_skip := False\<rparr> else r, dc), [])
      else case discord_helpers_rx_append chunk RX_MAX r of
        None \<Rightarrow> (((discord_rx_reset r)\<lparr>rx_skip := \<not> final\<rparr>, dc), [])
      | Some r1 \<Rightarrow>
          if final then (let (dc', outs) = discord_handle_payload e (cstr (rx_buf r1)) dc in ((discord_rx_reset r1, dc'), outs))
          else ((r1, dc), []))"

fun callback_discord :: "'w discord_env \<Rightarrow> dc_event \<Rightarrow> discord_rx \<times> discord_ctx \<Rightarrow> (discord_rx \<times> discord_ctx) \<times> dc_out list" where
  "callback_discord e Established (r, dc) =
     ((discord_rx_reset r, dc\<lparr>dc_wsi := True, dc_outbound := False, dc_schedule := False, dc_backoff_ms := DISCORD_RECONNECT_BASE_MS, dc_deadline_ms := 0\<rparr>), [])"
| "callback_discord e Connection_Error (r, dc) = ((r, connection_lost dc), [])"
| "callback_discord e (Receive chunk final) (r, dc) = discord_receive e chunk final (r, dc)"
| "callback_discord e Writeable (r, dc) =
     (let (dc1, o1) = write_handshake e dc; (dc2, o2) = write_heartbeat e dc1 in ((r, dc2), o1 @ o2))"
| "callback_discord e Closed (r, dc) = ((r, connection_lost dc), [])"

subsection \<open>The thread\<close>

text \<open>One round after \<open>lws_service\<close>, at the time \<open>now\<close>; \<open>jitter\<close> is \<open>discord_jitter_ms() % 400\<close>, \<open>started\<close> whether libwebsockets took the
  connection request, which sets \<open>wsi\<close>.  The result says whether a request was made.\<close>

definition reconnect_round :: "nat \<Rightarrow> nat \<Rightarrow> bool \<Rightarrow> discord_ctx \<Rightarrow> discord_ctx \<times> bool" where
  "reconnect_round now jitter started dc =
     (if dc_schedule dc \<and> dc_lws dc \<and> \<not> dc_wsi dc \<and> \<not> dc_outbound dc then
        (let dc1 = (if dc_deadline_ms dc = 0 then dc\<lparr>dc_deadline_ms := now + dc_backoff_ms dc + jitter\<rparr> else dc) in
         if now \<ge> dc_deadline_ms dc1 then
           (if \<not> started
            then (dc1\<lparr>dc_deadline_ms := now + dc_backoff_ms dc + jitter,
                      dc_backoff_ms := if dc_backoff_ms dc < DISCORD_RECONNECT_MAX_MS then min DISCORD_RECONNECT_MAX_MS (dc_backoff_ms dc * 2) else dc_backoff_ms dc\<rparr>, True)
            else (dc1\<lparr>dc_deadline_ms := 0, dc_outbound := True, dc_wsi := True\<rparr>, True))
         else (dc1, False))
      else (if dc_wsi dc then dc\<lparr>dc_deadline_ms := 0\<rparr> else dc, False))"

definition heartbeat_round :: "nat \<Rightarrow> nat \<times> discord_ctx \<Rightarrow> (nat \<times> discord_ctx) \<times> dc_out list" where
  "heartbeat_round now s =
     (let (next_hb, dc) = s in
      if dc_wsi dc \<and> dc_saw_hello dc \<and> dc_heartbeat_ms dc > 0 then
        (let next_hb = (if next_hb = 0 then now + nat (dc_heartbeat_ms dc) else next_hb) in
         if now \<ge> next_hb then ((now + nat (dc_heartbeat_ms dc), dc\<lparr>dc_pending_hb := True\<rparr>), [Want_Writeable])
         else ((next_hb, dc), []))
      else if \<not> dc_wsi dc then ((0, dc), []) else ((next_hb, dc), []))"

subsection \<open>The channel\<close>

definition discord_zero :: discord_ctx where
  "discord_zero = \<lparr>dc_cfg = None, dc_token = None, dc_lws = False, dc_wsi = False, dc_run = False, dc_heartbeat_ms = 0, dc_last_seq = 0,
     dc_session_id = None, dc_bot_user_id = None, dc_saw_hello = False, dc_pending_identify = False, dc_pending_resume = False,
     dc_pending_hb = False, dc_ready = False, dc_schedule = False, dc_outbound = False, dc_backoff_ms = 0, dc_deadline_ms = 0, dc_queue = []\<rparr>"

definition discord_rx_zero :: discord_rx where
  "discord_rx_zero = \<lparr>rx_buf = [], rx_cap = 0, rx_skip = False\<rparr>"

text \<open>Whether the context, the connection request and the thread could be made.\<close>

definition discord_init ::
  "(string \<Rightarrow> string option) \<Rightarrow> bool \<Rightarrow> bool \<Rightarrow> bool \<Rightarrow> config option \<Rightarrow> discord_rx \<times> discord_ctx \<Rightarrow> int \<times> discord_rx \<times> discord_ctx" where
  "discord_init getenv context_ok started thread_ok cfg s =
     (case cfg of
        None \<Rightarrow> (0, s)
      | Some c \<Rightarrow>
          if \<not> chan_enabled (c_discord c) then (0, s)
          else case nonempty (getenv (config_discord_token_env c)) of
            None \<Rightarrow> (- 1, s)
          | Some tok \<Rightarrow>
              let dc = discord_zero\<lparr>dc_cfg := cfg\<rparr>; dc1 = dc\<lparr>dc_backoff_ms := DISCORD_RECONNECT_BASE_MS\<rparr> in
              if \<not> context_ok then (- 1, discord_rx_zero, dc)
              else if \<not> started then (- 1, discord_rx_zero, dc1)
              else if \<not> thread_ok then (- 1, discord_rx_zero, dc1\<lparr>dc_wsi := True\<rparr>)
              else (0, discord_rx_zero, dc1\<lparr>dc_token := Some tok, dc_lws := True, dc_wsi := True, dc_run := True\<rparr>))"

text \<open>The wait for a message is the caller's: \<open>None\<close> in the queue means that the wait timed out or the service ended.\<close>

definition discord_poll :: "discord_ctx \<Rightarrow> (int \<times> channel_incoming_msg option) \<times> discord_ctx" where
  "discord_poll dc =
     (if dc_cfg dc = None then ((- 1, None), dc)
      else case dc_queue dc of [] \<Rightarrow> ((0, None), dc) | m # ms \<Rightarrow> ((1, Some m), dc\<lparr>dc_queue := ms\<rparr>))"

definition shellclaw_discord_set_live_cfg :: "config option \<Rightarrow> discord_ctx \<Rightarrow> discord_ctx" where
  "shellclaw_discord_set_live_cfg cfg dc = (if cfg = None then dc else dc\<lparr>dc_cfg := cfg\<rparr>)"

definition discord_cleanup :: "discord_rx \<times> discord_ctx \<Rightarrow> discord_rx \<times> discord_ctx" where
  "discord_cleanup s =
     ((fst s)\<lparr>rx_buf := [], rx_cap := 0\<rparr>,
      (snd s)\<lparr>dc_run := False, dc_queue := [], dc_lws := False, dc_token := None, dc_session_id := None, dc_bot_user_id := None\<rparr>)"

datatype discord_lifecycle = DISCORD_LIFECYCLE_DISABLED | DISCORD_LIFECYCLE_DISCONNECTED | DISCORD_LIFECYCLE_CONNECTING
  | DISCORD_LIFECYCLE_CONNECTED | DISCORD_LIFECYCLE_RECONNECTING

fun discord_lifecycle_str :: "discord_lifecycle \<Rightarrow> string" where
  "discord_lifecycle_str DISCORD_LIFECYCLE_DISABLED = ''disabled''"
| "discord_lifecycle_str DISCORD_LIFECYCLE_DISCONNECTED = ''disconnected''"
| "discord_lifecycle_str DISCORD_LIFECYCLE_CONNECTING = ''connecting''"
| "discord_lifecycle_str DISCORD_LIFECYCLE_CONNECTED = ''connected''"
| "discord_lifecycle_str DISCORD_LIFECYCLE_RECONNECTING = ''reconnecting''"

definition discord_status_snapshot_fill :: "bool \<Rightarrow> config option \<Rightarrow> discord_ctx \<Rightarrow> discord_lifecycle \<times> string" where
  "discord_status_snapshot_fill active cfg dc =
     (case cfg of
        None \<Rightarrow> (DISCORD_LIFECYCLE_DISABLED, [])
      | Some c \<Rightarrow>
          if \<not> chan_enabled (c_discord c) then (DISCORD_LIFECYCLE_DISABLED, [])
          else if \<not> active then (DISCORD_LIFECYCLE_DISCONNECTED, ''not running'')
          else if dc_ready dc then (DISCORD_LIFECYCLE_CONNECTED, [])
          else if dc_schedule dc then (DISCORD_LIFECYCLE_RECONNECTING, [])
          else (DISCORD_LIFECYCLE_CONNECTING, []))"

subsection \<open>Sending\<close>

definition discord_header_retry_after_cb :: "'w discord_env \<Rightarrow> string \<Rightarrow> double option \<Rightarrow> double option" where
  "discord_header_retry_after_cb e header h =
     (if length header < 13 then h
      else let line = cstr (takeWhile (\<lambda>c. c \<noteq> CHR 0x0D \<and> c \<noteq> newline) (take 95 header)) in
        if lower (take 12 line) \<noteq> ''retry-after:'' then h else Some (de_strtod e (drop 12 line)))"

definition discord_recipient_channel_id :: "string \<Rightarrow> nat \<Rightarrow> string option" where
  "discord_recipient_channel_id recipient outsiz =
     (if outsiz = 0 \<or> \<not> prefix DISCORD_RECIPIENT_PREFIX recipient then None
      else let i = drop (length DISCORD_RECIPIENT_PREFIX) recipient in if i = [] \<or> length i \<ge> outsiz then None else Some i)"

definition discord_message_url :: "string \<Rightarrow> string" where
  "discord_message_url channel_id = ''https://discord.com/api/v10/channels/'' @ channel_id @ ''/messages''"

text \<open>A missing header counts as -1.\<close>

definition backoff_after :: "'w discord_env \<Rightarrow> nat \<Rightarrow> string list \<Rightarrow> 'w \<Rightarrow> int" where
  "backoff_after e attempt headers w =
     discord_helpers_send_backoff_ms attempt
       (case fold (discord_header_retry_after_cb e) headers None of None \<Rightarrow> None | Some d \<Rightarrow> if double_less d_0 d then Some (de_ms e d) else None)
       (de_jitter e w) DISCORD_SEND_BASE_BACKOFF_MS DISCORD_SEND_WAIT_CAP_MS"

function (sequential) post_attempts :: "'w discord_env \<Rightarrow> string \<Rightarrow> string \<Rightarrow> string \<Rightarrow> nat \<Rightarrow> 'w \<Rightarrow> int \<times> 'w" where
  "post_attempts e url body auth attempt w =
     (if attempt \<ge> DISCORD_SEND_MAX_ATTEMPTS then (- 1, w)
      else case de_post e url body auth w of
        ((ok, http_code, headers), w1) \<Rightarrow>
          if \<not> ok then (- 1, w1)
          else if http_code \<ge> 200 \<and> http_code < 300 then (0, w1)
          else if http_code = 429 \<and> attempt + 1 < DISCORD_SEND_MAX_ATTEMPTS
          then post_attempts e url body auth (attempt + 1) (de_sleep e (backoff_after e attempt headers w1) w1)
          else (- 1, w1))"
  by pat_completeness auto
termination by (relation "measure (\<lambda>(e, url, body, auth, attempt, w). DISCORD_SEND_MAX_ATTEMPTS - attempt)") auto

definition discord_post_text :: "'w discord_env \<Rightarrow> string \<Rightarrow> string \<Rightarrow> string \<Rightarrow> 'w \<Rightarrow> int \<times> 'w" where
  "discord_post_text e channel_id auth t w =
     (case de_print e (CObject [(''content'', CString t)]) of
        None \<Rightarrow> (- 1, w)
      | Some body \<Rightarrow>
          if length (discord_message_url channel_id) \<ge> DISCORD_URL_CAP then (- 1, w)
          else post_attempts e (discord_message_url channel_id) body auth 0 w)"

definition discord_send :: "'w discord_env \<Rightarrow> discord_ctx \<Rightarrow> string option \<Rightarrow> string option \<Rightarrow> nat \<Rightarrow> 'w \<Rightarrow> int \<times> 'w" where
  "discord_send e dc recipient t att_count w =
     (if att_count > 0 then (- 1, w)
      else case (dc_token dc, recipient, nonempty t) of
        (Some token, Some rcp, Some x) \<Rightarrow>
          (case discord_recipient_channel_id rcp DISCORD_CHANNEL_ID_CAP of
             None \<Rightarrow> (- 1, w)
           | Some channel_id \<Rightarrow>
               let auth = ''Authorization: Bot '' @ token in
               if length auth \<ge> DISCORD_AUTH_HDR_CAP then (- 1, w)
               else let (r, fail, w') = channel_send_chunked (Some x) DISCORD_MSG_MAX_LEN (Some (discord_post_text e channel_id auth)) w in
                 (if r \<noteq> 0 then - 1 else 0, w'))
      | _ \<Rightarrow> (- 1, w))"

section \<open>Payloads are reassembled\<close>

lemma double_until_enough: "0 < c \<Longrightarrow> need \<le> double_until need c"
  by (induction need c rule: double_until.induct) auto

text \<open>A fragment is appended whole, with a byte to spare for the terminator, exactly when the bound allows it.\<close>

lemma rx_append_fits:
  assumes "length (rx_buf r) + length chunk < m"
  shows "\<exists>c. discord_helpers_rx_append chunk m r = Some (r\<lparr>rx_buf := rx_buf r @ chunk, rx_cap := c\<rparr>) \<and> length (rx_buf r @ chunk) < c"
proof -
  let ?need = "length (rx_buf r) + length chunk + 1"
  define n where "n = min m (double_until ?need (if rx_cap r \<noteq> 0 then rx_cap r * 2 else 4096))"
  have "?need \<le> double_until ?need (if rx_cap r \<noteq> 0 then rx_cap r * 2 else 4096)" by (rule double_until_enough) simp
  then have n: "?need \<le> n" using assms by (simp add: n_def)
  have fits: "\<not> (m < 1 \<or> length chunk > m \<or> length (rx_buf r) > m - length chunk)" "\<not> ?need > m" using assms by auto
  show ?thesis
  proof (cases "rx_cap r < ?need")
    case True
    then have "discord_helpers_rx_append chunk m r = Some (r\<lparr>rx_buf := rx_buf r @ chunk, rx_cap := n\<rparr>)"
      unfolding discord_helpers_rx_append_def Let_def n_def [symmetric] using fits n by simp
    then show ?thesis using n by (intro exI [of _ n]) simp
  next
    case False
    then have "discord_helpers_rx_append chunk m r = Some (r\<lparr>rx_buf := rx_buf r @ chunk, rx_cap := rx_cap r\<rparr>)"
      unfolding discord_helpers_rx_append_def Let_def using fits by simp
    then show ?thesis using False by (intro exI [of _ "rx_cap r"]) simp
  qed
qed

lemma rx_append_overflows: "m \<le> length (rx_buf r) + length chunk \<Longrightarrow> discord_helpers_rx_append chunk m r = None"
  by (auto simp: discord_helpers_rx_append_def Let_def)

fun dc_events :: "'w discord_env \<Rightarrow> dc_event list \<Rightarrow> discord_rx \<times> discord_ctx \<Rightarrow> (discord_rx \<times> discord_ctx) \<times> dc_out list" where
  "dc_events e [] s = (s, [])"
| "dc_events e (ev # evs) s = (let (s1, o1) = callback_discord e ev s; (s2, o2) = dc_events e evs s1 in (s2, o1 @ o2))"

lemma dc_events_append: "dc_events e (xs @ ys) s = (let (s1, o1) = dc_events e xs s; (s2, o2) = dc_events e ys s1 in (s2, o1 @ o2))"
  by (induction xs arbitrary: s) (auto simp: Let_def split: prod.splits)

text \<open>The fragments of a message, the last one marked, and the payloads one after the other.\<close>

fun fragments :: "string list \<Rightarrow> dc_event list" where
  "fragments [] = []"
| "fragments [x] = [Receive x True]"
| "fragments (x # xs) = Receive x False # fragments xs"

fun handle_all :: "'w discord_env \<Rightarrow> string list \<Rightarrow> discord_ctx \<Rightarrow> discord_ctx \<times> dc_out list" where
  "handle_all e [] dc = (dc, [])"
| "handle_all e (p # ps) dc = (let (dc1, o1) = discord_handle_payload e (cstr p) dc; (dc2, o2) = handle_all e ps dc1 in (dc2, o1 @ o2))"

definition rx_idle :: "discord_rx \<Rightarrow> bool" where
  "rx_idle r \<longleftrightarrow> rx_buf r = [] \<and> \<not> rx_skip r"

lemma skip_rest: "rx_skip r \<Longrightarrow> xs \<noteq> [] \<Longrightarrow> dc_events e (fragments xs) (r, dc) = ((r\<lparr>rx_skip := False\<rparr>, dc), [])"
  by (induction xs rule: fragments.induct) (auto simp: discord_receive_def)

lemma one_message:
  assumes "\<not> rx_skip r" "xs \<noteq> []"
  shows "\<exists>r'. rx_idle r' \<and> dc_events e (fragments xs) (r, dc) =
    (if length (rx_buf r) + length (concat xs) < RX_MAX
     then let (dc', outs) = discord_handle_payload e (cstr (rx_buf r @ concat xs)) dc in ((r', dc'), outs) else ((r', dc), []))"
  using assms
proof (induction xs arbitrary: r rule: fragments.induct)
  case (2 x)
  show ?case
  proof (cases "length (rx_buf r) + length x < RX_MAX")
    case True
    from rx_append_fits [OF this] obtain c where "discord_helpers_rx_append x RX_MAX r = Some (r\<lparr>rx_buf := rx_buf r @ x, rx_cap := c\<rparr>)" by blast
    then show ?thesis using True 2
      by (auto simp: discord_receive_def discord_rx_reset_def rx_idle_def Let_def split: prod.splits intro!: exI [of _ "r\<lparr>rx_buf := [], rx_cap := c, rx_skip := False\<rparr>"])
  next
    case False
    then have "discord_helpers_rx_append x RX_MAX r = None" using rx_append_overflows by simp
    then show ?thesis using False 2
      by (auto simp: discord_receive_def discord_rx_reset_def rx_idle_def Let_def intro!: exI [of _ "r\<lparr>rx_buf := [], rx_skip := False\<rparr>"])
  qed
next
  case (3 x y ys)
  show ?case
  proof (cases "length (rx_buf r) + length x < RX_MAX")
    case True
    from rx_append_fits [OF this] obtain c where a: "discord_helpers_rx_append x RX_MAX r = Some (r\<lparr>rx_buf := rx_buf r @ x, rx_cap := c\<rparr>)" by blast
    let ?r = "r\<lparr>rx_buf := rx_buf r @ x, rx_cap := c\<rparr>"
    have "\<not> rx_skip ?r" using 3(2) by simp
    from 3(1) [OF this] obtain r' where r': "rx_idle r'" "dc_events e (fragments (y # ys)) (?r, dc) =
      (if length (rx_buf ?r) + length (concat (y # ys)) < RX_MAX
       then let (dc', outs) = discord_handle_payload e (cstr (rx_buf ?r @ concat (y # ys))) dc in ((r', dc'), outs) else ((r', dc), []))" by blast
    have "dc_events e (fragments (x # y # ys)) (r, dc) = dc_events e (fragments (y # ys)) (?r, dc)"
      using a 3(2) by (simp add: discord_receive_def)
    then show ?thesis using r' by (intro exI [of _ r']) (simp add: add.assoc)
  next
    case False
    then have a: "discord_helpers_rx_append x RX_MAX r = None" using rx_append_overflows by simp
    let ?r = "r\<lparr>rx_buf := [], rx_skip := True\<rparr>"
    have "dc_events e (fragments (x # y # ys)) (r, dc) = ((?r\<lparr>rx_skip := False\<rparr>, dc), [])"
      using a 3(2) skip_rest [of ?r "y # ys" e dc] by (simp add: discord_receive_def discord_rx_reset_def)
    then show ?thesis using False by (intro exI [of _ "?r\<lparr>rx_skip := False\<rparr>"]) (simp add: rx_idle_def)
  qed
qed simp

text \<open>(C38) Reassembly.  However the messages of the gateway are cut into fragments, the callbacks do to the state, and write to the connection,
  what handling the payloads one after the other does; a message of 512 KiB or more is dropped as a whole and leaves no trace in the
  messages after it.\<close>

theorem discord_payloads_reassembled:
  assumes "rx_idle r" "list_all (\<lambda>xs. xs \<noteq> []) msgs"
  shows "\<exists>r'. rx_idle r' \<and> dc_events e (concat (map fragments msgs)) (r, dc) =
    (let (dc', outs) = handle_all e (filter (\<lambda>p. length p < RX_MAX) (map concat msgs)) dc in ((r', dc'), outs))"
  using assms
proof (induction msgs arbitrary: r dc)
  case (Cons xs msgs)
  have i: "\<not> rx_skip r" "rx_buf r = []" "xs \<noteq> []" using Cons.prems by (auto simp: rx_idle_def)
  obtain r1 where r1: "rx_idle r1" "dc_events e (fragments xs) (r, dc) =
    (if length (concat xs) < RX_MAX then let (dc', outs) = discord_handle_payload e (cstr (concat xs)) dc in ((r1, dc'), outs) else ((r1, dc), []))"
    using one_message [OF i(1,3), of e dc] i(2) by auto
  obtain dc1 o1 where d: "discord_handle_payload e (cstr (concat xs)) dc = (dc1, o1)" by (metis surj_pair)
  let ?dc = "if length (concat xs) < RX_MAX then dc1 else dc"
  have "list_all (\<lambda>xs. xs \<noteq> []) msgs" using Cons.prems by simp
  from Cons.IH [OF r1(1) this, of ?dc] obtain r' where r': "rx_idle r'" "dc_events e (concat (map fragments msgs)) (r1, ?dc) =
    (let (dc', outs) = handle_all e (filter (\<lambda>p. length p < RX_MAX) (map concat msgs)) ?dc in ((r', dc'), outs))" by blast
  show ?case
  proof (cases "length (concat xs) < RX_MAX")
    case True
    then show ?thesis using r1 d r' by (intro exI [of _ r']) (simp add: dc_events_append Let_def split: prod.split)
  next
    case False
    then show ?thesis using r1 d r' by (intro exI [of _ r']) (simp add: dc_events_append Let_def split: prod.split)
  qed
qed simp

text \<open>A session: the greeting in two fragments, then a direct message of an allowed user.\<close>

definition sample_json :: "string \<Rightarrow> cjson option" where
  "sample_json t =
     (if t = ''hello'' then Some (CObject [(''op'', CNumber 0x4024000000000000), (''d'', CObject [(''heartbeat_interval'', CNumber 0x40E4244000000000)])])
      else if t = ''message'' then Some (CObject [(''op'', CNumber 0), (''s'', CNumber 0x4010000000000000), (''t'', CString ''MESSAGE_CREATE''),
        (''d'', CObject [(''author'', CObject [(''id'', CString ''77'')]), (''channel_id'', CString ''500''), (''content'', CString ''hi'')])])
      else None)"

definition sample_dc_env :: "unit discord_env" where
  "sample_dc_env = \<lparr>de_parse = sample_json, de_print = (\<lambda>j. Some ''{}''), de_u64 = (\<lambda>d. if d = 0x4010000000000000 then 4 else 0),
     de_int = (\<lambda>d. if d = 0x4024000000000000 then 10 else if d = 0x40E4244000000000 then 41250 else 0), de_num = (\<lambda>n. 0),
     de_strtod = (\<lambda>s. 0), de_ms = (\<lambda>d. 0), de_jitter = (\<lambda>w. 0), de_post = (\<lambda>u b a w. ((True, 200, []), w)), de_sleep = (\<lambda>ms w. w)\<rparr>"

definition sample_dc_config :: config where
  "sample_dc_config = config_defaults\<lparr>c_discord := \<lparr>chan_enabled = True, chan_token_env = None, chan_allowed = [Some ''77'']\<rparr>\<rparr>"

definition sample_dc :: discord_ctx where
  "sample_dc = discord_zero\<lparr>dc_cfg := Some sample_dc_config, dc_backoff_ms := DISCORD_RECONNECT_BASE_MS, dc_token := Some ''tok'',
     dc_lws := True, dc_wsi := True, dc_run := True\<rparr>"

lemma sample_dc_init: "discord_init (\<lambda>v. Some ''tok'') True True True (Some sample_dc_config) s = (0, discord_rx_zero, sample_dc)"
  by (simp add: discord_init_def sample_dc_config_def nonempty_def sample_dc_def discord_zero_def)

definition sample_message :: channel_incoming_msg where
  "sample_message = \<lparr>cm_session_id = ''discord:c:500'', cm_user_id = Some ''77'', cm_text = Some ''hi''\<rparr>"

lemma sample_handled:
  "(let (dc, outs) = handle_all sample_dc_env [''hello'', ''message''] sample_dc in (dc_queue dc, dc_pending_identify dc, dc_heartbeat_ms dc, outs)) =
     ([sample_message], True, 41250, [Want_Writeable])"
  by code_simp

theorem discord_payloads_reassembled_witness:
  "dc_queue (snd (fst (dc_events sample_dc_env [Receive ''hel'' False, Receive ''lo'' True, Receive ''message'' True] (discord_rx_zero, sample_dc)))) = [sample_message]"
proof -
  have "rx_idle discord_rx_zero" by (simp add: rx_idle_def discord_rx_zero_def)
  moreover have "list_all (\<lambda>xs. xs \<noteq> []) [[''hel'', ''lo''], [''message'']]" by simp
  ultimately obtain r' where "dc_events sample_dc_env (concat (map fragments [[''hel'', ''lo''], [''message'']])) (discord_rx_zero, sample_dc) =
    (let (dc', outs) = handle_all sample_dc_env (filter (\<lambda>p. length p < RX_MAX) (map concat [[''hel'', ''lo''], [''message'']])) sample_dc in ((r', dc'), outs))"
    using discord_payloads_reassembled by blast
  moreover have "filter (\<lambda>p. length p < RX_MAX) (map concat [[''hel'', ''lo''], [''message'']]) = [''hello'', ''message'']" by (simp add: RX_MAX_def)
  ultimately show ?thesis using sample_handled by (simp add: Let_def split: prod.splits)
qed

section \<open>Who is heard\<close>

text \<open>A message the bot may act on: by an author who is no bot and is on the list, in a direct message or with a mention of the bot; its
  session names the channel.\<close>

definition addressed_to_bot :: "string set \<Rightarrow> channel_incoming_msg \<Rightarrow> bool" where
  "addressed_to_bot users m \<longleftrightarrow>
     (\<exists>pl author uid channel t. cJSON_GetObjectItem pl ''author'' = Some author \<and> cJSON_GetObjectItem author ''bot'' \<noteq> Some CTrue \<and>
        cJSON_GetObjectItem author ''id'' = Some (CString uid) \<and> uid \<in> users \<and> cJSON_GetObjectItem pl ''channel_id'' = Some (CString channel) \<and>
        (is_guild_message pl \<longrightarrow> (\<exists>b. discord_helpers_mentions_include_bot (cJSON_GetObjectItem pl ''mentions'') (Some b))) \<and> channel \<noteq> [] \<and> t \<noteq> [] \<and>
        m = \<lparr>cm_session_id = DISCORD_SESSION_PREFIX @ channel, cm_user_id = Some uid, cm_text = Some t\<rparr>)"

definition listed :: "config \<Rightarrow> string set" where
  "listed c = {u. Some u \<in> set (chan_allowed (c_discord c))}"

lemma nonempty_Some: "nonempty v = Some x \<longleftrightarrow> v = Some x \<and> x \<noteq> []"
  by (cases v) (auto simp: nonempty_def split: list.splits)

lemma in_allowlist: "discord_helpers_user_in_allowlist allowed (Some uid) \<Longrightarrow> Some uid \<in> set allowed"
  by (auto simp: discord_helpers_user_in_allowlist_def discord_helpers_allow_entry_equals_def list_ex_iff nonempty_Some split: if_splits option.splits)

lemma route_addressed:
  assumes "discord_helpers_route_message_create pl (chan_allowed (c_discord c)) bid n = Some sess" "t \<noteq> []"
    and "string_of (object_item (cJSON_GetObjectItem pl ''author'') ''id'') = Some uid"
  shows "addressed_to_bot (listed c) \<lparr>cm_session_id = sess, cm_user_id = Some uid, cm_text = Some t\<rparr>"
proof -
  obtain author where a: "cJSON_GetObjectItem pl ''author'' = Some author" "cJSON_IsObject author" "cJSON_GetObjectItem author ''bot'' \<noteq> Some CTrue"
      "discord_helpers_user_in_allowlist (chan_allowed (c_discord c)) (Some uid)"
      "\<not> (is_guild_message pl \<and> (nonempty bid = None \<or> \<not> discord_helpers_mentions_include_bot (cJSON_GetObjectItem pl ''mentions'') bid))"
      "discord_helpers_session_id_from_channel (string_of (cJSON_GetObjectItem pl ''channel_id'')) n = Some sess"
      "cJSON_GetObjectItem author ''id'' = Some (CString uid)"
    using assms(1,3) by (auto simp: discord_helpers_route_message_create_def object_item_def nonempty_Some split: if_splits option.splits)
  obtain channel where ch: "cJSON_GetObjectItem pl ''channel_id'' = Some (CString channel)" "channel \<noteq> []" "sess = DISCORD_SESSION_PREFIX @ channel"
    using a(6) by (auto simp: discord_helpers_session_id_from_channel_def nonempty_Some split: option.splits if_splits)
  have "\<exists>b. discord_helpers_mentions_include_bot (cJSON_GetObjectItem pl ''mentions'') (Some b)" if "is_guild_message pl"
    using a(5) that by (cases bid) (auto simp: nonempty_def)
  then show ?thesis using a ch assms(2) in_allowlist [OF a(4)] unfolding addressed_to_bot_def listed_def by blast
qed

lemma addressed_mono: "addressed_to_bot A m \<Longrightarrow> A \<subseteq> B \<Longrightarrow> addressed_to_bot B m"
  unfolding addressed_to_bot_def by blast

text \<open>The configuration is kept by everything but the reload; the queue grows by messages addressed to the bot only.\<close>

definition queue_grows :: "discord_ctx \<Rightarrow> discord_ctx \<Rightarrow> bool" where
  "queue_grows dc dc' \<longleftrightarrow> dc_cfg dc' = dc_cfg dc \<and>
     (dc_queue dc' = dc_queue dc \<or> (\<exists>c m. dc_cfg dc = Some c \<and> addressed_to_bot (listed c) m \<and> dc_queue dc' = dc_queue dc @ [m]))"

lemma grows_refl: "dc_cfg dc' = dc_cfg dc \<Longrightarrow> dc_queue dc' = dc_queue dc \<Longrightarrow> queue_grows dc dc'"
  by (simp add: queue_grows_def)

lemma message_create_grows: "queue_grows dc (discord_on_message_create d dc)"
  using route_addressed by (auto simp: queue_grows_def discord_on_message_create_def nonempty_Some split: option.splits)

lemma dispatch_grows: "queue_grows dc (discord_handle_dispatch e root dc)"
proof -
  define dc1 where "dc1 = (case number_of (cJSON_GetObjectItem root ''s'') of None \<Rightarrow> dc | Some s \<Rightarrow> dc\<lparr>dc_last_seq := de_u64 e s\<rparr>)"
  have same: "dc_cfg dc1 = dc_cfg dc" "dc_queue dc1 = dc_queue dc" by (simp_all add: dc1_def split: option.split)
  have msg: "queue_grows dc (discord_on_message_create d dc1)" for d using message_create_grows [of dc1 d] same by (simp add: queue_grows_def)
  have upd: "queue_grows dc (dc1\<lparr>dc_session_id := x, dc_bot_user_id := y, dc_ready := True\<rparr>)" "queue_grows dc (dc1\<lparr>dc_ready := True\<rparr>)" "queue_grows dc dc1" for x y
    using same by (simp_all add: queue_grows_def)
  show ?thesis unfolding discord_handle_dispatch_def Let_def dc1_def [symmetric] by (simp add: msg upd split: option.split)
qed

lemma close_grows: "queue_grows dc (fst (close_requested dc))" "queue_grows dc (fst (close_requested (dc\<lparr>dc_session_id := x, dc_last_seq := n\<rparr>)))"
  by (simp_all add: close_requested_def queue_grows_def)

lemma hello_grows: "queue_grows dc (fst (discord_hello e d dc))"
  by (simp add: discord_hello_def queue_grows_def Let_def split: option.split)

lemma handle_payload_grows: "queue_grows dc (fst (discord_handle_payload e json dc))"
  by (simp add: discord_handle_payload_def Let_def dispatch_grows close_grows hello_grows grows_refl split: option.split)

lemma receive_grows: "queue_grows dc (snd (fst (discord_receive e chunk final (r, dc))))"
  using handle_payload_grows [of dc e]
  by (simp add: discord_receive_def Let_def grows_refl case_prod_beta split: option.split)

lemma write_grows: "queue_grows dc (fst (write_handshake e dc))" "dc_cfg (fst (write_heartbeat e dc)) = dc_cfg dc" "dc_queue (fst (write_heartbeat e dc)) = dc_queue dc"
  by (simp_all add: write_handshake_def write_heartbeat_def queue_grows_def split: option.split)

lemma callback_grows: "queue_grows dc (snd (fst (callback_discord e ev (r, dc))))"
proof (cases ev)
  case (Receive chunk final)
  then show ?thesis using receive_grows by simp
next
  case Writeable
  then show ?thesis using write_grows(1) [of dc e] write_grows(2,3) [of e "fst (write_handshake e dc)"] by (simp add: queue_grows_def case_prod_beta Let_def)
qed (simp_all add: connection_lost_def queue_grows_def Let_def)

lemma round_grows: "queue_grows dc (fst (reconnect_round now j st dc))" "queue_grows dc (snd (fst (heartbeat_round now (n, dc))))"
  by (simp_all add: reconnect_round_def heartbeat_round_def queue_grows_def Let_def)

text \<open>What happens to the channel: callbacks, rounds of its thread, polls of the main loop and reloads of the configuration.\<close>

datatype dc_action = Callback dc_event | Round nat nat bool | Poll | Live_Config config

record dc_world =
  dw_rx :: discord_rx
  dw_dc :: discord_ctx
  dw_next_hb :: nat
  dw_handed :: "channel_incoming_msg list"

fun dc_act :: "'w discord_env \<Rightarrow> dc_action \<Rightarrow> dc_world \<Rightarrow> dc_world" where
  "dc_act e (Callback ev) s = (let ((r, dc), outs) = callback_discord e ev (dw_rx s, dw_dc s) in s\<lparr>dw_rx := r, dw_dc := dc\<rparr>)"
| "dc_act e (Round now j st) s =
     (let (dc, asked) = reconnect_round now j st (dw_dc s); ((n, dc'), outs) = heartbeat_round now (dw_next_hb s, dc) in s\<lparr>dw_dc := dc', dw_next_hb := n\<rparr>)"
| "dc_act e Poll s = (let ((r, m), dc) = discord_poll (dw_dc s) in s\<lparr>dw_dc := dc, dw_handed := dw_handed s @ (case m of None \<Rightarrow> [] | Some x \<Rightarrow> [x])\<rparr>)"
| "dc_act e (Live_Config c) s = s\<lparr>dw_dc := shellclaw_discord_set_live_cfg (Some c) (dw_dc s)\<rparr>"

text \<open>Everything handed on or queued is addressed to the bot, under users listed by some configuration that was in force.\<close>

definition dc_inv :: "string set \<Rightarrow> dc_world \<Rightarrow> bool" where
  "dc_inv users s \<longleftrightarrow> (\<forall>c. dc_cfg (dw_dc s) = Some c \<longrightarrow> listed c \<subseteq> users) \<and>
     (\<forall>m \<in> set (dw_handed s) \<union> set (dc_queue (dw_dc s)). addressed_to_bot users m)"

lemma grows_inv:
  assumes "dc_inv users s" "queue_grows (dw_dc s) dc'" "dw_dc s' = dc'" "dw_handed s' = dw_handed s"
  shows "dc_inv users s'"
proof -
  have cfg: "dc_cfg (dw_dc s') = dc_cfg (dw_dc s)" using assms(2,3) by (simp add: queue_grows_def)
  consider "dc_queue dc' = dc_queue (dw_dc s)"
    | c m where "dc_cfg (dw_dc s) = Some c" "addressed_to_bot (listed c) m" "dc_queue dc' = dc_queue (dw_dc s) @ [m]"
    using assms(2) unfolding queue_grows_def by blast
  then show ?thesis
  proof cases
    case 1
    then show ?thesis using assms(1,3,4) cfg by (simp add: dc_inv_def)
  next
    case 2
    then have "addressed_to_bot users m" using assms(1) addressed_mono unfolding dc_inv_def by blast
    then show ?thesis using assms(1,3,4) cfg 2(3) by (auto simp: dc_inv_def)
  qed
qed

lemma grows_trans_same: "queue_grows dc dc1 \<Longrightarrow> dc_cfg dc2 = dc_cfg dc1 \<Longrightarrow> dc_queue dc2 = dc_queue dc1 \<Longrightarrow> queue_grows dc dc2"
  by (auto simp: queue_grows_def)

lemma dc_act_inv:
  assumes "dc_inv users s" "case a of Live_Config c \<Rightarrow> listed c \<subseteq> users | _ \<Rightarrow> True"
  shows "dc_inv users (dc_act e a s)"
proof (cases a)
  case (Callback ev)
  show ?thesis by (rule grows_inv [OF assms(1) callback_grows [of "dw_dc s" e ev "dw_rx s"]]) (simp_all add: Callback case_prod_beta Let_def)
next
  case (Round now j st)
  have "queue_grows (dw_dc s) (snd (fst (heartbeat_round now (dw_next_hb s, fst (reconnect_round now j st (dw_dc s))))))"
    by (rule grows_trans_same [OF round_grows(1) [of _ now j st]]) (simp_all add: heartbeat_round_def Let_def)
  then show ?thesis by (rule grows_inv [OF assms(1)]) (simp_all add: Round case_prod_beta Let_def)
next
  case Poll
  then show ?thesis using assms(1) by (auto simp: dc_inv_def discord_poll_def split: list.splits)
next
  case (Live_Config c)
  then show ?thesis using assms by (auto simp: dc_inv_def shellclaw_discord_set_live_cfg_def)
qed

lemma dc_acts_inv:
  "dc_inv users s \<Longrightarrow> list_all (\<lambda>a. case a of Live_Config c \<Rightarrow> listed c \<subseteq> users | _ \<Rightarrow> True) as \<Longrightarrow> dc_inv users (fold (dc_act e) as s)"
  by (induction as arbitrary: s) (auto intro: dc_act_inv)

lemma recipient_of_discord_session:
  "channel \<noteq> [] \<Longrightarrow> length channel < DISCORD_CHANNEL_ID_CAP \<Longrightarrow> discord_recipient_channel_id (DISCORD_SESSION_PREFIX @ channel) DISCORD_CHANNEL_ID_CAP = Some channel"
  by (simp add: discord_recipient_channel_id_def DISCORD_SESSION_PREFIX_def DISCORD_RECIPIENT_PREFIX_def)


definition sample_acts :: "dc_action list" where
  "sample_acts = [Callback Established, Callback (Receive ''hello'' True), Callback Writeable, Round 5 0 True, Callback (Receive ''message'' True), Poll]"

lemma sample_handed:
  "dw_handed (fold (dc_act sample_dc_env) sample_acts \<lparr>dw_rx = discord_rx_zero, dw_dc = sample_dc, dw_next_hb = 0, dw_handed = []\<rparr>) = [sample_message]"
  by code_simp


section \<open>Handshake, heartbeats and reconnection\<close>

text \<open>After the greeting the next writeable callback sends exactly one handshake: RESUME when a session and a sequence number are known,
  IDENTIFY otherwise.\<close>

lemma hello_then_handshake:
  assumes "dc_token dc = Some token" "discord_hello e d dc = (dc1, outs)" "write_handshake e dc1 = (dc2, outs')"
    and "\<And>j. \<exists>t. de_print e j = Some t \<and> t \<noteq> [] \<and> length t \<le> WRITE_CHUNK"
  shows "outs' = [Sent (the (de_print e (if discord_has_resume_state dc
      then the (discord_build_resume e token (the (dc_session_id dc)) (dc_last_seq dc)) else discord_build_identify e token)))]"
    and "\<not> dc_pending_resume dc2 \<and> \<not> dc_pending_identify dc2"
proof -
  have d1: "dc_token dc1 = Some token" "dc_saw_hello dc1" "dc_pending_resume dc1 = discord_has_resume_state dc" "dc_session_id dc1 = dc_session_id dc"
    "dc_last_seq dc1 = dc_last_seq dc" "dc_pending_identify dc1 = (\<not> discord_has_resume_state dc)"
    using assms(1,2) by (auto simp: discord_hello_def Let_def split: option.splits)
  obtain pr where pr: "\<And>j. de_print e j = Some (pr j)" "\<And>j. discord_send_json (Some (pr j)) = [Sent (pr j)]"
  proof
    fix j
    show "de_print e j = Some (the (de_print e j))" "discord_send_json (Some (the (de_print e j))) = [Sent (the (de_print e j))]"
      using assms(4) [of j] by (auto simp: discord_send_json_def)
  qed
  show "outs' = [Sent (the (de_print e (if discord_has_resume_state dc
      then the (discord_build_resume e token (the (dc_session_id dc)) (dc_last_seq dc)) else discord_build_identify e token)))]"
    "\<not> dc_pending_resume dc2 \<and> \<not> dc_pending_identify dc2"
    using assms(3) d1
    by (auto simp: pr write_handshake_def discord_has_resume_state_def nonempty_Some discord_build_resume_def split: option.splits if_splits)
qed

text \<open>The pause before another attempt to send is between 100 ms and the cap; six attempts at most are made.\<close>

lemma backoff_bounds: "100 \<le> cap \<Longrightarrow> 100 \<le> discord_helpers_send_backoff_ms k ms j base cap \<and> discord_helpers_send_backoff_ms k ms j base cap \<le> cap"
  by (simp add: discord_helpers_send_backoff_ms_def Let_def)

lemma reconnect_backoff_bounds:
  assumes "DISCORD_RECONNECT_BASE_MS \<le> dc_backoff_ms dc \<and> dc_backoff_ms dc \<le> DISCORD_RECONNECT_MAX_MS"
  shows "DISCORD_RECONNECT_BASE_MS \<le> dc_backoff_ms (fst (reconnect_round now j st dc)) \<and>
    dc_backoff_ms (fst (reconnect_round now j st dc)) \<le> DISCORD_RECONNECT_MAX_MS"
  using assms by (simp add: reconnect_round_def Let_def DISCORD_RECONNECT_BASE_MS_def DISCORD_RECONNECT_MAX_MS_def)

text \<open>A lost connection is requested anew at the latest when the back-off and the jitter have passed since the first round after the loss.\<close>

lemma reconnects_after_backoff:
  assumes "dc_run dc" "dc_lws dc" "reconnect_round t j st (connection_lost dc) = (dc1, False)" "t + dc_backoff_ms dc + j \<le> t'" "0 < t"
  shows "snd (reconnect_round t' j' st' dc1)"
  using assms by (auto simp: reconnect_round_def connection_lost_def Let_def split: if_splits)

text \<open>Connections that are taken and then fail do not lengthen the back-off, only requests that libwebsockets refuses at once do.\<close>

lemma failed_connections_keep_backoff: "dc_backoff_ms (connection_lost (fst (reconnect_round now j True dc))) = dc_backoff_ms dc"
  by (simp add: connection_lost_def reconnect_round_def Let_def)

text \<open>RECONNECT and INVALID SESSION set a close reason and nothing else: as the callback asks for no close, the connection stays, and while it
  does no new one is requested.\<close>

lemma close_reason_does_not_reconnect:
  assumes "dc_wsi dc" "close_requested dc = (dc1, outs)"
  shows "dc_wsi dc1" "dc_ready dc1 = dc_ready dc" "\<not> snd (reconnect_round now j st dc1)" "dc_wsi (fst (reconnect_round now j st dc1))"
  using assms by (auto simp: close_requested_def reconnect_round_def)

end
