(* ===== verification/Context.thy ===== *)
theory Context
  imports Config Cjson "HOL-Library.List_Lexorder" "HOL-Library.Char_ord"
begin

text \<open>
  The context tool (\<open>src/tools/context.c\<close>, \<open>context_http.c\<close>, \<open>context_geo.c\<close>, \<open>context_cache.c\<close>): location, weather and public
  holidays, each from a web service behind a cache, merged into one JSON text that the dashboard shows, too.  libcurl, JSON text, the
  clock and the formatting of doubles are arguments; \<open>'w\<close> is the state of the world the transfers and the clock depend on.  A transfer
  that writes past its buffer sets \<open>cx_overrun\<close>.
\<close>

section \<open>Definitions\<close>

definition CTX_URL_IP_API :: string where "CTX_URL_IP_API = ''https://ip-api.com/json/''"
definition CTX_RESP_MAX :: nat where "CTX_RESP_MAX = 96 * 1024"
definition CTX_WX_TTL_SEC :: int where "CTX_WX_TTL_SEC = 3600"
definition CTX_HY_TTL_SEC :: int where "CTX_HY_TTL_SEC = 86400 * 365"

record ctx_state =
  cx_cfg :: "config option"
  cx_geo_inited :: bool
  cx_lat :: double
  cx_lon :: double
  cx_city :: string
  cx_country :: string
  cx_cc :: string
  cx_tz :: string
  cx_src :: string
  cx_ck_lat :: double
  cx_ck_lon :: double
  cx_wx_exp :: int
  cx_wx_store :: "string option"
  cx_cal_y_a :: int
  cx_cal_y_b :: int
  cx_cal_cc :: string
  cx_h_exp :: int
  cx_h_store :: "string option"
  cx_last_json :: "string option"
  cx_overrun :: bool

text \<open>\<open>ce_transfer\<close>: the pieces of the body, whether libcurl is content, the status.  \<open>ce_localtime\<close>: the year and the date as
  \<open>YYYY-MM-DD\<close>.  \<open>ce_fmt n\<close> prints with \<open>n\<close> decimals, \<open>ce_close\<close> is \<open>fabs(x - y) < 1e-5\<close>.\<close>

record 'w ctx_env =
  ce_transfer :: "string \<Rightarrow> 'w \<Rightarrow> (string list \<times> bool \<times> int) \<times> 'w"
  ce_time :: "'w \<Rightarrow> int"
  ce_localtime :: "int \<Rightarrow> (int \<times> string) option"
  ce_stack_year :: int
  ce_parse :: "string \<Rightarrow> cjson option"
  ce_print :: "cjson \<Rightarrow> string option"
  ce_num :: "int \<Rightarrow> double"
  ce_long :: "double \<Rightarrow> int"
  ce_fmt :: "nat \<Rightarrow> double \<Rightarrow> string"
  ce_close :: "double \<Rightarrow> double \<Rightarrow> bool"

subsection \<open>Fetching\<close>

text \<open>The buffer has \<open>CTX_RESP_MAX\<close> bytes; the flag says that the terminator was written past it.  \<open>None\<close>: the callback returns
  less than it was given.\<close>

definition curl_cb :: "string \<Rightarrow> string \<times> bool \<Rightarrow> (string \<times> bool) option" where
  "curl_cb chunk b =
     (if chunk = [] then Some b
      else if length chunk > CTX_RESP_MAX - length (fst b) then None
      else let p = fst b @ chunk in Some (p, snd b \<or> \<not> length p < CTX_RESP_MAX))"

fun curl_pieces :: "string list \<Rightarrow> string \<times> bool \<Rightarrow> bool \<times> string \<times> bool" where
  "curl_pieces [] b = (True, b)"
| "curl_pieces (c # cs) b = (case curl_cb c b of None \<Rightarrow> (False, b) | Some b' \<Rightarrow> curl_pieces cs b')"

definition ctx_fetch_url :: "'w ctx_env \<Rightarrow> string \<Rightarrow> ctx_state \<times> 'w \<Rightarrow> (int \<times> string) option \<times> ctx_state \<times> 'w" where
  "ctx_fetch_url e url s =
     (let ((pieces, content, code), w) = ce_transfer e url (snd s); (whole, body, overrun) = curl_pieces pieces ([], False);
          st = (fst s)\<lparr>cx_overrun := cx_overrun (fst s) \<or> overrun\<rparr> in
      if \<not> whole \<or> \<not> content \<or> code < 100 \<or> body = [] then (None, st, w) else (Some (code, cstr body), st, w))"

text \<open>What the callers take: a body with status 200.\<close>

definition fetched :: "(int \<times> string) option \<Rightarrow> string option" where
  "fetched r = (case r of Some (code, body) \<Rightarrow> if code = 200 then Some body else None | None \<Rightarrow> None)"

subsection \<open>Location\<close>

definition ctx_cc_up :: "string \<Rightarrow> string" where
  "ctx_cc_up s = map (\<lambda>c. if CHR ''a'' \<le> c \<and> c \<le> CHR ''z'' then char_of (of_char c - 32 :: nat) else c) s"

definition del_item :: "cjson \<Rightarrow> string \<Rightarrow> cjson" where
  "del_item j name = (case j of
     CObject ms \<Rightarrow> CObject (takeWhile (\<lambda>m. lower (fst m) \<noteq> lower name) ms @ tl (dropWhile (\<lambda>m. lower (fst m) \<noteq> lower name) ms)) | _ \<Rightarrow> j)"

definition bool_item :: "bool \<Rightarrow> cjson" where "bool_item b = (if b then CTrue else CFalse)"

definition add_if :: "string \<Rightarrow> string \<Rightarrow> cjson \<Rightarrow> cjson" where
  "add_if name s j = (if s \<noteq> [] then cJSON_AddItemToObject j name (CString s) else j)"

definition has_location :: "ctx_state \<Rightarrow> bool" where
  "has_location st \<longleftrightarrow> cx_geo_inited st \<and> cx_src st \<noteq> ''none''"

definition ctx_geo_emit :: "ctx_state \<Rightarrow> cjson \<Rightarrow> cjson" where
  "ctx_geo_emit st loc =
     (let loc = foldl del_item loc [''available'', ''source'', ''latitude'', ''longitude'', ''city'', ''country'', ''country_code'', ''timezone'', ''error''] in
      if has_location st then
        add_if ''timezone'' (cx_tz st) (add_if ''country_code'' (cx_cc st) (add_if ''country'' (cx_country st) (add_if ''city'' (cx_city st)
          (cJSON_AddItemToObject (cJSON_AddItemToObject (cJSON_AddItemToObject (cJSON_AddItemToObject loc ''available'' CTrue)
            ''source'' (CString (cx_src st))) ''latitude'' (CNumber (cx_lat st))) ''longitude'' (CNumber (cx_lon st))))))
      else cJSON_AddItemToObject (cJSON_AddItemToObject loc ''available'' CFalse) ''error'' (CString ''geolocation unavailable''))"

definition geo_cfg_fb :: "config \<Rightarrow> ctx_state \<Rightarrow> ctx_state" where
  "geo_cfg_fb c st =
     st\<lparr>cx_src := ''agent_fallback'', cx_lat := config_agent_latitude c, cx_lon := config_agent_longitude c, cx_city := [], cx_country := [], cx_tz := [],
        cx_cc := (case nonempty (agent_country_code (c_agent c)) of Some x \<Rightarrow> ctx_cc_up (take 7 x) | None \<Rightarrow> []), cx_geo_inited := True\<rparr>"

definition geo_none :: "ctx_state \<Rightarrow> ctx_state" where
  "geo_none st = st\<lparr>cx_src := ''none'', cx_geo_inited := True\<rparr>"

text \<open>The branch that the failures share, but the one of a body that is no JSON.\<close>

definition geo_failed :: "ctx_state \<Rightarrow> ctx_state" where
  "geo_failed st =
     (case cx_cfg st of
        None \<Rightarrow> geo_none st
      | Some c \<Rightarrow> if agent_latitude (c_agent c) \<noteq> None \<and> agent_longitude (c_agent c) \<noteq> None then geo_cfg_fb c st else geo_none st)"

definition text_item :: "nat \<Rightarrow> cjson \<Rightarrow> string \<Rightarrow> string" where
  "text_item n root name = take (n - 1) (case string_of (cJSON_GetObjectItem root name) of Some s \<Rightarrow> s | None \<Rightarrow> [])"

definition geo_located :: "cjson \<Rightarrow> ctx_state \<Rightarrow> ctx_state" where
  "geo_located root st =
     (if string_of (cJSON_GetObjectItem root ''status'') \<noteq> Some ''success'' then geo_failed st
      else case (number_of (cJSON_GetObjectItem root ''lat''), number_of (cJSON_GetObjectItem root ''lon'')) of
        (Some lat, Some lon) \<Rightarrow>
          st\<lparr>cx_lat := lat, cx_lon := lon, cx_city := text_item 96 root ''city'', cx_country := text_item 96 root ''country'',
             cx_cc := ctx_cc_up (text_item 8 root ''countryCode''), cx_tz := text_item 64 root ''timezone'', cx_src := ''ip-api'', cx_geo_inited := True\<rparr>
      | _ \<Rightarrow> geo_failed st)"

definition ctx_geo_resolve :: "'w ctx_env \<Rightarrow> cjson \<Rightarrow> ctx_state \<times> 'w \<Rightarrow> (bool \<times> cjson) \<times> ctx_state \<times> 'w" where
  "ctx_geo_resolve e loc s =
     (if cx_geo_inited (fst s) then ((cx_src (fst s) \<noteq> ''none'', ctx_geo_emit (fst s) loc), s)
      else let (r, st, w) = ctx_fetch_url e CTX_URL_IP_API s;
               st' = (case fetched r of
                        None \<Rightarrow> geo_failed st
                      | Some raw \<Rightarrow> (case ce_parse e raw of None \<Rightarrow> geo_none st | Some root \<Rightarrow> geo_located root st)) in
        ((has_location st', ctx_geo_emit st' loc), st', w))"

subsection \<open>Weather\<close>

definition weather_url :: "'w ctx_env \<Rightarrow> double \<Rightarrow> double \<Rightarrow> string" where
  "weather_url e lat lon =
     take 447 (''https://api.open-meteo.com/v1/forecast?'' @ ''latitude='' @ ce_fmt e 6 lat @ ''&longitude='' @ ce_fmt e 6 lon
       @ ''&daily=temperature_2m_max,temperature_2m_min,precipitation_sum,weathercode'' @ ''&timezone=auto&forecast_days=3'')"

definition daily_of :: "cjson option \<Rightarrow> cjson option" where
  "daily_of doc = (case doc of None \<Rightarrow> None | Some d \<Rightarrow> (case cJSON_GetObjectItem d ''daily'' of Some b \<Rightarrow> if cJSON_IsObject b then Some b else None | None \<Rightarrow> None))"

definition unavailable :: "string \<Rightarrow> cjson \<Rightarrow> cjson" where
  "unavailable err j = cJSON_AddItemToObject (cJSON_AddItemToObject j ''available'' CFalse) ''error'' (CString err)"

definition wx_cached :: "'w ctx_env \<Rightarrow> ctx_state \<times> 'w \<Rightarrow> cjson option" where
  "wx_cached e s =
     (case cx_wx_store (fst s) of
        None \<Rightarrow> None
      | Some t \<Rightarrow>
          if ce_time e (snd s) < cx_wx_exp (fst s) \<and> ce_close e (cx_ck_lat (fst s)) (cx_lat (fst s)) \<and> ce_close e (cx_ck_lon (fst s)) (cx_lon (fst s))
          then daily_of (ce_parse e t) else None)"

text \<open>The slice with the forecast: the flag, the days, the reference day and the end of validity.\<close>

definition wx_slice :: "'w ctx_env \<Rightarrow> cjson option \<Rightarrow> string \<Rightarrow> int \<Rightarrow> cjson \<Rightarrow> cjson" where
  "wx_slice e daily ref_iso expiry wx =
     (let wx1 = del_item (cJSON_AddItemToObject wx ''available'' CTrue) ''daily'';
          wx2 = (case daily of Some d \<Rightarrow> cJSON_AddItemToObject wx1 ''daily'' d | None \<Rightarrow> wx1) in
      cJSON_AddItemToObject (cJSON_AddItemToObject wx2 ''reference_day'' (CString ref_iso)) ''cached_until'' (CNumber (ce_num e expiry)))"

definition ctx_wx_fill :: "'w ctx_env \<Rightarrow> cjson \<Rightarrow> string \<Rightarrow> ctx_state \<times> 'w \<Rightarrow> (int \<times> cjson) \<times> ctx_state \<times> 'w" where
  "ctx_wx_fill e wx ref_iso s =
     (case wx_cached e s of
        Some daily \<Rightarrow> ((0, wx_slice e (Some daily) ref_iso (cx_wx_exp (fst s)) (del_item wx ''reference_day'')), s)
      | None \<Rightarrow>
          let (r, st, w) = ctx_fetch_url e (weather_url e (cx_lat (fst s)) (cx_lon (fst s))) s in
          (case fetched r of
             None \<Rightarrow> ((- 1, unavailable ''open-meteo unavailable'' wx), st, w)
           | Some rsp \<Rightarrow>
               (case (ce_parse e rsp, daily_of (ce_parse e rsp)) of
                  (Some doc, Some _) \<Rightarrow>
                    let st1 = st\<lparr>cx_wx_store := ce_print e doc, cx_wx_exp := ce_time e w + CTX_WX_TTL_SEC, cx_ck_lat := cx_lat (fst s), cx_ck_lon := cx_lon (fst s)\<rparr>;
                        daily = Option.bind (Option.bind (cx_wx_store st1) (ce_parse e)) (\<lambda>d. cJSON_GetObjectItem d ''daily'') in
                    ((if daily \<noteq> None then 0 else - 1, wx_slice e daily ref_iso (cx_wx_exp st1) wx), st1, w)
                | _ \<Rightarrow> ((- 1, unavailable ''open-meteo parse failure'' wx), st, w))))"

subsection \<open>Holidays\<close>

definition hol_merge_arrays :: "cjson option \<Rightarrow> cjson option \<Rightarrow> cjson" where
  "hol_merge_arrays a b = CArray ((case a of Some x \<Rightarrow> array_items x | None \<Rightarrow> []) @ (case b of Some x \<Rightarrow> array_items x | None \<Rightarrow> []))"

text \<open>The date and the name of an entry that counts.\<close>

definition holiday_entry :: "cjson \<Rightarrow> (string \<times> string) option" where
  "holiday_entry entry =
     (if \<not> cJSON_IsObject entry then None
      else case string_of (cJSON_GetObjectItem entry ''date'') of
        None \<Rightarrow> None
      | Some d \<Rightarrow> if length d \<noteq> 10 then None
          else Some (d, case string_of (cJSON_GetObjectItem entry ''localName'') of Some n \<Rightarrow> n | None \<Rightarrow> []))"

fun hol_scan :: "cjson list \<Rightarrow> string \<Rightarrow> string \<Rightarrow> bool \<times> bool \<times> (string \<times> string) option \<Rightarrow> bool \<times> bool \<times> (string \<times> string) option" where
  "hol_scan [] d_today d_tomo acc = acc"
| "hol_scan (x # xs) d_today d_tomo (today_flag, tomo_flag, closest) =
     (case holiday_entry x of
        None \<Rightarrow> hol_scan xs d_today d_tomo (today_flag, tomo_flag, closest)
      | Some (ds, ns) \<Rightarrow>
          hol_scan xs d_today d_tomo (today_flag \<or> ds = d_today, tomo_flag \<or> ds = d_tomo,
            if d_today \<le> ds \<and> (case closest of None \<Rightarrow> True | Some (c, _) \<Rightarrow> ds < c) then Some (ds, ns) else closest))"

definition hol_mark :: "cjson \<Rightarrow> cjson option \<Rightarrow> string \<Rightarrow> string \<Rightarrow> cjson" where
  "hol_mark dst items d_today d_tomo =
     (case items of
        None \<Rightarrow> dst
      | Some a \<Rightarrow>
          if \<not> cJSON_IsArray a then dst
          else let (today_flag, tomo_flag, closest) = hol_scan (array_items a) d_today d_tomo (False, False, None);
                   dst1 = cJSON_AddItemToObject (cJSON_AddItemToObject (cJSON_AddItemToObject dst ''available'' CTrue)
                            ''is_public_holiday_today'' (bool_item today_flag)) ''is_public_holiday_tomorrow'' (bool_item tomo_flag) in
            (case closest of
               None \<Rightarrow> dst1
             | Some (d, n) \<Rightarrow> cJSON_AddItemToObject (cJSON_AddItemToObject dst1 ''next_public_holiday_date'' (CString d)) ''next_public_holiday_name'' (CString n)))"

definition holidays_url :: "int \<Rightarrow> string \<Rightarrow> string" where
  "holidays_url y cc = take 143 (''https://date.nager.at/api/v3/PublicHolidays/'' @ int_str y @ ''/'' @ cc)"

definition second_year :: "'w ctx_env \<Rightarrow> int \<Rightarrow> int \<Rightarrow> string \<Rightarrow> ctx_state \<times> 'w \<Rightarrow> cjson option \<times> ctx_state \<times> 'w" where
  "second_year e ya yb cc s =
     (if yb = ya then (None, s)
      else let (r, s') = ctx_fetch_url e (holidays_url yb cc) s in
        (Option.bind (Option.bind (fetched r) (ce_parse e)) (\<lambda>j. if cJSON_IsArray j then Some j else None), s'))"

definition ctx_holidays_fill ::
  "'w ctx_env \<Rightarrow> cjson \<Rightarrow> string \<Rightarrow> string \<Rightarrow> int \<Rightarrow> int \<Rightarrow> string \<Rightarrow> ctx_state \<times> 'w \<Rightarrow> (int \<times> cjson) \<times> ctx_state \<times> 'w" where
  "ctx_holidays_fill e hy d0 d1 ya yb ccode s =
     (if ccode = [] then ((- 1, unavailable ''missing country code for holidays'' hy), s)
      else let cc = ctx_cc_up (take 7 ccode); st = fst s in
        if cx_h_store st \<noteq> None \<and> ce_time e (snd s) < cx_h_exp st \<and> cx_cal_cc st = cc \<and> cx_cal_y_a st = ya \<and> cx_cal_y_b st = yb then
          ((0, cJSON_AddItemToObject (hol_mark hy (ce_parse e (the (cx_h_store st))) d0 d1) ''cached_until'' (CNumber (ce_num e (cx_h_exp st)))), s)
        else let (r, s1) = ctx_fetch_url e (holidays_url ya cc) s in
          (case fetched r of
             None \<Rightarrow> ((- 1, unavailable ''nager fetch failed'' hy), s1)
           | Some rsp \<Rightarrow>
               (case ce_parse e rsp of
                  None \<Rightarrow> ((- 1, unavailable ''nager parse failed'' hy), s1)
                | Some a1 \<Rightarrow>
                    if \<not> cJSON_IsArray a1 then ((- 1, unavailable ''nager parse failed'' hy), s1)
                    else let (a2, st2, w) = second_year e ya yb cc s1; merged = hol_merge_arrays (Some a1) a2;
                             st3 = st2\<lparr>cx_h_store := ce_print e merged, cx_h_exp := ce_time e w + CTX_HY_TTL_SEC, cx_cal_cc := cc, cx_cal_y_a := ya, cx_cal_y_b := yb\<rparr> in
                      ((0, cJSON_AddItemToObject (hol_mark hy (Some merged) d0 d1) ''cached_until'' (CNumber (ce_num e (cx_h_exp st3)))), st3, w))))"

subsection \<open>The merged text\<close>

definition number_at :: "cjson option \<Rightarrow> nat \<Rightarrow> double option" where
  "number_at a i = (case a of None \<Rightarrow> None | Some x \<Rightarrow> number_of (cJSON_GetArrayItem x i))"

fun day_index :: "cjson list \<Rightarrow> string \<Rightarrow> nat option" where
  "day_index [] day = None"
| "day_index (x # xs) day = (if x = CString day then Some 0 else map_option Suc (day_index xs day))"

definition or_zero :: "double option \<Rightarrow> double" where "or_zero d = (case d of Some x \<Rightarrow> x | None \<Rightarrow> d_0)"

definition wx_day_line :: "'w ctx_env \<Rightarrow> nat \<Rightarrow> cjson option \<Rightarrow> string \<Rightarrow> string" where
  "wx_day_line e cap daily day_iso =
     (case daily of
        None \<Rightarrow> []
      | Some d \<Rightarrow>
          (case Option.bind (cJSON_GetObjectItem d ''time'') (\<lambda>t. day_index (array_items t) day_iso) of
             None \<Rightarrow> []
           | Some ix \<Rightarrow>
               take (cap - 1) (day_iso @ '' max '' @ ce_fmt e 1 (or_zero (number_at (cJSON_GetObjectItem d ''temperature_2m_max'') ix))
                 @ ''C min '' @ ce_fmt e 1 (or_zero (number_at (cJSON_GetObjectItem d ''temperature_2m_min'') ix))
                 @ ''C precip '' @ ce_fmt e 2 (or_zero (number_at (cJSON_GetObjectItem d ''precipitation_sum'') ix))
                 @ '' mm wcode '' @ int_str (case number_at (cJSON_GetObjectItem d ''weathercode'') ix of Some x \<Rightarrow> ce_long e x | None \<Rightarrow> - 1))))"

definition flag_present :: "cjson \<Rightarrow> bool" where
  "flag_present j \<longleftrightarrow> cJSON_GetObjectItem j ''available'' = Some CTrue \<or> cJSON_GetObjectItem j ''available'' = Some CFalse"

definition location_line :: "'w ctx_env \<Rightarrow> ctx_state \<Rightarrow> string" where
  "location_line e st =
     (if \<not> has_location st then []
      else take 207 (if cx_city st \<noteq> [] then cx_city st @ '', '' @ (if cx_cc st \<noteq> [] then cx_cc st else cx_country st)
                     else ce_fmt e 4 (cx_lat st) @ '' '' @ ce_fmt e 4 (cx_lon st)))"

definition weather_line :: "'w ctx_env \<Rightarrow> cjson \<Rightarrow> string" where
  "weather_line e root =
     (case cJSON_GetObjectItem root ''weather'' of
        None \<Rightarrow> []
      | Some wobj \<Rightarrow>
          if flag_present wobj
          then wx_day_line e 256 (case cJSON_GetObjectItem wobj ''daily'' of Some d \<Rightarrow> if cJSON_IsObject d then Some d else None | None \<Rightarrow> None)
                 (case string_of (cJSON_GetObjectItem wobj ''reference_day'') of Some s \<Rightarrow> s | None \<Rightarrow> [])
          else [])"

definition holiday_line :: "cjson \<Rightarrow> string" where
  "holiday_line root =
     (case cJSON_GetObjectItem root ''holidays'' of
        None \<Rightarrow> []
      | Some hh \<Rightarrow>
          (case nonempty (string_of (cJSON_GetObjectItem hh ''next_public_holiday_date'')) of
             None \<Rightarrow> []
           | Some nxd \<Rightarrow>
               if flag_present hh
               then take 207 (''next '' @ (case string_of (cJSON_GetObjectItem hh ''next_public_holiday_name'') of Some n \<Rightarrow> n | None \<Rightarrow> []) @ '' on '' @ nxd)
               else []))"

definition ctx_dashboard_fill :: "'w ctx_env \<Rightarrow> ctx_state \<Rightarrow> cjson \<Rightarrow> cjson" where
  "ctx_dashboard_fill e st root =
     cJSON_AddItemToObject (del_item root ''dashboard'') ''dashboard''
       (add_if ''holiday_line'' (holiday_line root) (add_if ''location_line'' (location_line e st) (add_if ''weather_line'' (weather_line e root) (CObject []))))"

definition location_hint :: "'w ctx_env \<Rightarrow> config \<Rightarrow> string option" where
  "location_hint e c =
     (case (agent_latitude (c_agent c), agent_longitude (c_agent c)) of
        (Some lat, Some lon) \<Rightarrow>
          let hint = take 207 (''agent fallback coords '' @ ce_fmt e 5 lat @ '' '' @ ce_fmt e 5 lon) in
          Some (take 207 (hint @ (case nonempty (agent_country_code (c_agent c)) of Some cc \<Rightarrow> take 39 ('' ('' @ cc @ '')'') | None \<Rightarrow> [])))
      | _ \<Rightarrow> None)"

definition ctx_minimal_snapshot :: "'w ctx_env \<Rightarrow> ctx_state \<Rightarrow> string" where
  "ctx_minimal_snapshot e st =
     (let hint = Option.bind (cx_cfg st) (location_hint e);
          dash = CObject ((case hint of Some h \<Rightarrow> [(''location_hint'', CString h)] | None \<Rightarrow> []) @
            [(''note'', CString ''Dashboard cache empty - invoke get_context after startup for live enrichment.'')]) in
      case ce_print e (CObject [(''dashboard'', dash)]) of Some t \<Rightarrow> t | None \<Rightarrow> ''{}'')"

definition tool_context_snapshot_json :: "'w ctx_env \<Rightarrow> ctx_state \<Rightarrow> string" where
  "tool_context_snapshot_json e st = (case cx_last_json st of Some t \<Rightarrow> t | None \<Rightarrow> ctx_minimal_snapshot e st)"

definition tool_context_set_config :: "config option \<Rightarrow> ctx_state \<Rightarrow> ctx_state" where
  "tool_context_set_config cfg st = st\<lparr>cx_cfg := cfg\<rparr>"

definition holiday_country :: "ctx_state \<Rightarrow> string" where
  "holiday_country st =
     (if cx_cc st \<noteq> [] then cx_cc st
      else case Option.bind (cx_cfg st) (\<lambda>c. nonempty (agent_country_code (c_agent c))) of Some x \<Rightarrow> x | None \<Rightarrow> [])"

text \<open>Weather and holidays of a known place: the two slices.\<close>

definition place_slices :: "'w ctx_env \<Rightarrow> int \<Rightarrow> int \<times> string \<Rightarrow> ctx_state \<times> 'w \<Rightarrow> (cjson \<times> cjson) \<times> ctx_state \<times> 'w" where
  "place_slices e nw lt s =
     (let (y_a, day0) = lt;
          (y_b, day1) = (case ce_localtime e (nw + 86400) of Some (y, d) \<Rightarrow> (y, d) | None \<Rightarrow> (ce_stack_year e, day0));
          ((_, wx), s1) = ctx_wx_fill e (CObject []) day0 s;
          hcode = holiday_country (fst s1) in
      if hcode \<noteq> [] then (let ((_, hy), s2) = ctx_holidays_fill e (CObject []) day0 day1 y_a y_b hcode s1 in ((wx, hy), s2))
      else ((wx, unavailable ''country code unavailable for holidays'' (CObject [])), s1))"

definition exec_tool :: "'w ctx_env \<Rightarrow> nat \<Rightarrow> ctx_state \<times> 'w \<Rightarrow> (int \<times> string) \<times> ctx_state \<times> 'w" where
  "exec_tool e max_len s =
     (if max_len = 0 then ((- 1, []), s)
      else let ((has_geo, loc), s1) = ctx_geo_resolve e (CObject []) s; nw = ce_time e (snd s1);
               ((wx, hy), st, w) = (case ce_localtime e nw of
                  None \<Rightarrow> ((unavailable ''time unavailable'' (CObject []), CObject []), s1)
                | Some lt \<Rightarrow> if \<not> has_geo then ((unavailable ''no coordinates'' (CObject []), CObject []), s1) else place_slices e nw lt s1);
               root = ctx_dashboard_fill e st (CObject [(''location'', loc), (''weather'', wx), (''holidays'', hy)]);
               serialized = ce_print e root; st' = st\<lparr>cx_last_json := serialized\<rparr> in
        (case serialized of
           None \<Rightarrow> ((- 1, take (max_len - 1) ''{\"error\":\"serialization failed\"}''), st', w)
         | Some t \<Rightarrow> if length t \<ge> max_len then ((- 1, take (max_len - 1) ''{\"error\":\"get_context payload too large for buffer\"}''), st', w) else ((0, t), st', w)))"

section \<open>Fetching\<close>

text \<open>The callback accepts a response that fills the buffer to its last byte and then writes the terminator behind it.\<close>

lemma full_response_overruns:
  assumes "length t = CTX_RESP_MAX" "ce_transfer e url w = (([t], True, 200), w')"
  shows "cx_overrun (fst (snd (ctx_fetch_url e url (st, w))))"
  using assms by (cases t) (auto simp: ctx_fetch_url_def curl_cb_def Let_def CTX_RESP_MAX_def)

lemma pieces_spec:
  "length (fst b) \<le> CTX_RESP_MAX \<Longrightarrow> curl_pieces ps b = (whole, p, o') \<Longrightarrow>
     length p \<le> CTX_RESP_MAX \<and> prefix (fst b) p \<and> (o' \<longrightarrow> snd b \<or> length p = CTX_RESP_MAX) \<and> (whole \<longrightarrow> p = fst b @ concat ps)"
proof (induction ps arbitrary: b)
  case (Cons c cs)
  show ?case
  proof (cases "curl_cb c b")
    case None
    then show ?thesis using Cons.prems by auto
  next
    case (Some b')
    then have b': "fst b' = fst b @ c" "length (fst b') \<le> CTX_RESP_MAX" "snd b' \<longrightarrow> snd b \<or> length (fst b') = CTX_RESP_MAX"
      using Cons.prems(1) by (auto simp: curl_cb_def Let_def split: if_splits)
    from Cons.IH [OF b'(2)] Cons.prems(2) Some
    have IH: "length p \<le> CTX_RESP_MAX" "prefix (fst b') p" "o' \<longrightarrow> snd b' \<or> length p = CTX_RESP_MAX" "whole \<longrightarrow> p = fst b' @ concat cs" by auto
    then show ?thesis using b' prefix_length_le [OF IH(2)] by (auto simp: prefix_def)
  qed
qed auto

text \<open>Shorter responses are kept whole and inside the buffer.\<close>

lemma fetch_within_buffer:
  assumes "ce_transfer e url w = ((ps, True, 200), w')" "ps \<noteq> []" "list_all (\<lambda>p. p \<noteq> []) ps" "length (concat ps) < CTX_RESP_MAX"
  shows "ctx_fetch_url e url (st, w) = (Some (200, cstr (concat ps)), st, w')"
proof -
  have acc: "curl_pieces qs (b, False) = (True, b @ concat qs, False)" if "list_all (\<lambda>p. p \<noteq> []) qs" "length b + length (concat qs) < CTX_RESP_MAX" for qs b
    using that by (induction qs arbitrary: b) (auto simp: curl_cb_def Let_def)
  have "curl_pieces ps ([], False) = (True, concat ps, False)" using acc [OF assms(3), of "[]"] assms(4) by simp
  moreover have "concat ps \<noteq> []" using assms(2,3) by (cases ps) auto
  ultimately show ?thesis using assms(1) by (simp add: ctx_fetch_url_def Let_def)
qed

section \<open>Holidays\<close>

text \<open>What the scan computes: the flags, and the entry with the earliest date from today on, the first one of that date.\<close>

lemma hol_scan_spec:
  assumes "hol_scan xs d0 d1 (f0, f1, best) = (f0', f1', best')"
  defines "es \<equiv> List.map_filter holiday_entry xs"
  shows "f0' \<longleftrightarrow> f0 \<or> d0 \<in> fst ` set es" "f1' \<longleftrightarrow> f1 \<or> d1 \<in> fst ` set es"
    and "best' = None \<longleftrightarrow> best = None \<and> (\<forall>x \<in> set es. fst x < d0)"
    and "best' = Some y \<Longrightarrow> (best = Some y \<or> y \<in> set es \<and> d0 \<le> fst y) \<and> (\<forall>x \<in> set es. d0 \<le> fst x \<longrightarrow> fst y \<le> fst x) \<and> (\<forall>z. best = Some z \<longrightarrow> fst y \<le> fst z)"
  using assms(1) unfolding es_def
proof (induction xs arbitrary: f0 f1 best)
  case Nil
  { case 1 then show ?case by (simp add: map_filter_simps) }
  { case 2 then show ?case by (simp add: map_filter_simps) }
  { case 3 then show ?case by (simp add: map_filter_simps) }
  { case 4 then show ?case by (simp add: map_filter_simps) }
next
  case (Cons x xs)
  { case 1 then show ?case using Cons.IH(1) by (auto simp: map_filter_simps split: option.splits prod.splits) }
  { case 2 then show ?case using Cons.IH(2) by (auto simp: map_filter_simps split: option.splits prod.splits) }
  { case 3 then show ?case using Cons.IH(3) by (auto simp: map_filter_simps not_le split: option.splits prod.splits if_splits) }
  { case 4
    show ?case
    proof (cases "holiday_entry x")
      case None
      then show ?thesis using 4 Cons.IH(4) by (simp add: map_filter_simps)
    next
      case (Some h)
      obtain ds ns where h: "h = (ds, ns)" by (metis surj_pair)
      let ?b = "if d0 \<le> ds \<and> (case best of None \<Rightarrow> True | Some (c, _) \<Rightarrow> ds < c) then Some (ds, ns) else best"
      have s: "hol_scan xs d0 d1 (f0 \<or> ds = d0, f1 \<or> ds = d1, ?b) = (f0', f1', best')" using 4(2) Some h by simp
      from Cons.IH(4) [OF 4(1) s]
      have IH: "?b = Some y \<or> y \<in> set (List.map_filter holiday_entry xs) \<and> d0 \<le> fst y"
        "\<forall>x \<in> set (List.map_filter holiday_entry xs). d0 \<le> fst x \<longrightarrow> fst y \<le> fst x" "\<forall>z. ?b = Some z \<longrightarrow> fst y \<le> fst z" by blast+
      show ?thesis using IH Some h by (auto simp: map_filter_simps not_less split: if_splits option.splits prod.splits)
    qed }
qed

text \<open>The slice of the holidays says whether today and tomorrow are holidays and names the earliest holiday from today on.\<close>

theorem holidays_marked:
  assumes "hol_mark (CObject []) (Some (CArray xs)) d0 d1 = j"
  defines "dates \<equiv> fst ` set (List.map_filter holiday_entry xs)"
  shows "cJSON_GetObjectItem j ''is_public_holiday_today'' = Some (bool_item (d0 \<in> dates)) \<and>
    cJSON_GetObjectItem j ''is_public_holiday_tomorrow'' = Some (bool_item (d1 \<in> dates)) \<and>
    (case cJSON_GetObjectItem j ''next_public_holiday_date'' of
       None \<Rightarrow> \<forall>d \<in> dates. d < d0
     | Some x \<Rightarrow> \<exists>d \<in> dates. x = CString d \<and> d0 \<le> d \<and> (\<forall>d' \<in> dates. d0 \<le> d' \<longrightarrow> d \<le> d'))"
proof -
  obtain f0 f1 best where s: "hol_scan xs d0 d1 (False, False, None) = (f0, f1, best)" by (metis surj_pair)
  have f: "f0 \<longleftrightarrow> d0 \<in> dates" "f1 \<longleftrightarrow> d1 \<in> dates" using hol_scan_spec(1,2) [OF s] by (simp_all add: dates_def)
  have items: "cJSON_GetObjectItem j ''is_public_holiday_today'' = Some (bool_item f0)" "cJSON_GetObjectItem j ''is_public_holiday_tomorrow'' = Some (bool_item f1)"
    "cJSON_GetObjectItem j ''next_public_holiday_date'' = map_option (\<lambda>b. CString (fst b)) best"
    using assms(1) s by (auto simp: hol_mark_def cJSON_AddItemToObject_def lower_def to_lower_def is_upper_az_def Let_def split: option.splits prod.splits)
  show ?thesis
  proof (cases best)
    case None
    then show ?thesis using items f hol_scan_spec(3) [OF s] by (auto simp: dates_def)
  next
    case (Some y)
    have y: "y \<in> set (List.map_filter holiday_entry xs)" "d0 \<le> fst y" "\<forall>x \<in> set (List.map_filter holiday_entry xs). d0 \<le> fst x \<longrightarrow> fst y \<le> fst x"
      using hol_scan_spec(4) [OF s, of y] Some by auto
    then have "\<exists>d \<in> dates. CString (fst y) = CString d \<and> d0 \<le> d \<and> (\<forall>d' \<in> dates. d0 \<le> d' \<longrightarrow> d \<le> d')" unfolding dates_def by auto
    then show ?thesis using items f Some by simp
  qed
qed

section \<open>The caches\<close>

text \<open>After a forecast has been fetched, further calls for the same place within the hour repeat it without asking the service.\<close>

lemma weather_cached_for_an_hour:
  assumes "wx_cached e s = None" "ctx_wx_fill e wx d s = ((0, j), st1, w1)" "ce_time e w2 < ce_time e w1 + CTX_WX_TTL_SEC"
    and "\<And>x. ce_close e x x" "\<And>doc t. ce_print e doc = Some t \<Longrightarrow> ce_parse e t = Some doc"
  shows "\<exists>daily. j = wx_slice e (Some daily) d (cx_wx_exp st1) wx \<and>
    ctx_wx_fill e wx2 d2 (st1, w2) = ((0, wx_slice e (Some daily) d2 (cx_wx_exp st1) (del_item wx2 ''reference_day'')), st1, w2)"
proof -
  obtain r st w where f: "ctx_fetch_url e (weather_url e (cx_lat (fst s)) (cx_lon (fst s))) s = (r, st, w)" by (metis surj_pair)
  have lat: "cx_lat st = cx_lat (fst s)" "cx_lon st = cx_lon (fst s)" using f by (auto simp: ctx_fetch_url_def Let_def split: prod.splits if_splits)
  obtain rsp doc b where p: "fetched r = Some rsp" "ce_parse e rsp = Some doc" "daily_of (Some doc) = Some b"
    using assms(1,2) f by (auto simp: ctx_wx_fill_def Let_def split: option.splits)
  have b: "cJSON_GetObjectItem doc ''daily'' = Some b" "cJSON_IsObject b" using p(3) by (auto simp: daily_of_def split: option.splits if_splits)
  define st' where "st' = st\<lparr>cx_wx_store := ce_print e doc, cx_wx_exp := ce_time e w + CTX_WX_TTL_SEC, cx_ck_lat := cx_lat (fst s), cx_ck_lon := cx_lon (fst s)\<rparr>"
  define daily where "daily = Option.bind (Option.bind (ce_print e doc) (ce_parse e)) (\<lambda>x. cJSON_GetObjectItem x ''daily'')"
  have fill: "ctx_wx_fill e wx d s = ((if daily \<noteq> None then 0 else - 1, wx_slice e daily d (cx_wx_exp st') wx), st', w)"
    using assms(1) f p by (simp add: ctx_wx_fill_def Let_def st'_def daily_def)
  then have r: "st1 = st'" "w1 = w" "daily \<noteq> None" "j = wx_slice e daily d (cx_wx_exp st') wx" using assms(2) by (auto split: if_splits)
  then obtain t where t: "ce_print e doc = Some t" "ce_parse e t = Some doc" using assms(5) by (cases "ce_print e doc") (auto simp: daily_def)
  have d: "daily = Some b" using t b by (simp add: daily_def)
  have "wx_cached e (st1, w2) = Some b"
    using r(1,2) t p(3) assms(3,4) lat by (simp add: wx_cached_def st'_def)
  then show ?thesis using r d by (intro exI [of _ b]) (simp add: ctx_wx_fill_def)
qed

text \<open>The location is asked for once: whatever came of it is kept until the process ends.\<close>

lemma location_asked_once:
  assumes "ctx_geo_resolve e loc s = (r, s1)"
  shows "cx_geo_inited (fst s1)" "snd (ctx_geo_resolve e loc' s1) = s1"
proof -
  have inited: "cx_geo_inited (geo_none st)" "cx_geo_inited (geo_failed st)" "cx_geo_inited (geo_located root st)" for st root
    by (auto simp: geo_none_def geo_failed_def geo_cfg_fb_def geo_located_def split: option.split)
  show g: "cx_geo_inited (fst s1)" using assms by (auto simp: ctx_geo_resolve_def Let_def inited split: if_splits prod.splits option.splits)
  show "snd (ctx_geo_resolve e loc' s1) = s1" using g by (simp add: ctx_geo_resolve_def)
qed

text \<open>A location service that answers with something other than JSON hides the configured coordinates, any other failure falls back to them.\<close>

lemma unparsable_answer_skips_fallback:
  assumes "\<not> cx_geo_inited (fst s)" "ctx_fetch_url e CTX_URL_IP_API s = (Some (200, raw), st, w)" "ce_parse e raw = None"
  shows "fst (fst (ctx_geo_resolve e loc s)) = False"
  using assms by (simp add: ctx_geo_resolve_def fetched_def geo_none_def has_location_def Let_def)

lemma failed_fetch_falls_back:
  assumes "\<not> cx_geo_inited (fst s)" "ctx_fetch_url e CTX_URL_IP_API s = (None, st, w)" "cx_cfg st = Some c"
    and "agent_latitude (c_agent c) \<noteq> None" "agent_longitude (c_agent c) \<noteq> None"
  shows "fst (fst (ctx_geo_resolve e loc s))"
  using assms by (simp add: ctx_geo_resolve_def fetched_def geo_failed_def geo_cfg_fb_def has_location_def Let_def)

section \<open>The tool\<close>

text \<open>The answer fits the buffer; whatever the services do, the tool succeeds unless the text is too long or cannot be printed, and then
  the dashboard shows what the agent saw.\<close>

lemma exec_tool_answers:
  assumes "exec_tool e n s = ((r, t), st, w)" "0 < n"
  shows "length t < n" "r = 0 \<Longrightarrow> tool_context_snapshot_json e st = t"
    and "r \<noteq> 0 \<Longrightarrow> cx_last_json st = None \<or> (\<exists>u. cx_last_json st = Some u \<and> n \<le> length u)"
  using assms by (auto simp: exec_tool_def tool_context_snapshot_json_def Let_def split: prod.splits option.splits if_splits)

end
