(* ===== verification/Web_Search.thy ===== *)
theory Web_Search
  imports Config Cjson Curl_Buffer
begin

text \<open>
  The web search tool (\<open>src/tools/web_search.c\<close>): three services asked in order, the snippets of the first one that has any
  appended line by line to the result buffer.  libcurl and JSON text are arguments; \<open>'w\<close> is the state of the world.
\<close>

section \<open>Definitions\<close>

definition TAVILY_URL :: string where "TAVILY_URL = ''https://api.tavily.com/search''"
definition WEB_RESP_BUF_SIZE :: nat where "WEB_RESP_BUF_SIZE = 64 * 1024"
definition WEB_RESP_BUF_MAX :: nat where "WEB_RESP_BUF_MAX = 256 * 1024"

record web_request =
  wq_url :: string
  wq_header :: string
  wq_post :: "string option"

record 'w web_env =
  wb_getenv :: "string \<Rightarrow> string option"
  wb_parse :: "string \<Rightarrow> cjson option"
  wb_print :: "cjson \<Rightarrow> string option"
  wb_ten :: "64 word"
  wb_escape :: "string \<Rightarrow> string option"
  wb_transfer :: "web_request \<Rightarrow> 'w \<Rightarrow> (string list \<times> bool) \<times> 'w"

text \<open>The body of a transfer that libcurl is content with and that is not empty.\<close>

definition web_fetch :: "'w web_env \<Rightarrow> web_request \<Rightarrow> 'w \<Rightarrow> string option \<times> 'w" where
  "web_fetch e rq w =
     (let ((pieces, content), w') = wb_transfer e rq w; (whole, b) = curl_receive WEB_RESP_BUF_SIZE WEB_RESP_BUF_MAX pieces (curl_buf_new WEB_RESP_BUF_SIZE) in
      (if whole \<and> content \<and> tb_buf b \<noteq> [] then Some (cstr (tb_buf b)) else None, w'))"

definition append_result :: "nat \<Rightarrow> string option \<Rightarrow> string \<Rightarrow> string" where
  "append_result max_len t out =
     (case nonempty t of
        None \<Rightarrow> out
      | Some x \<Rightarrow> if length out + length x + 2 \<ge> max_len then out else (if out \<noteq> [] then out @ [newline] else out) @ x)"

text \<open>The named texts of the first \<open>n\<close> items of an array, in order.\<close>

definition append_item :: "nat \<Rightarrow> string list \<Rightarrow> cjson \<Rightarrow> string \<Rightarrow> string" where
  "append_item max_len names item out =
     (if cJSON_IsObject item then fold (\<lambda>name. append_result max_len (string_of (cJSON_GetObjectItem item name))) names out else out)"

definition append_items :: "nat \<Rightarrow> nat \<Rightarrow> string list \<Rightarrow> cjson option \<Rightarrow> string \<Rightarrow> string" where
  "append_items max_len n names results out =
     (case results of None \<Rightarrow> out | Some a \<Rightarrow> fold (append_item max_len names) (take n (array_items a)) out)"

text \<open>A search returns its code and what it left in the buffer, which it clears only once there is a JSON object.\<close>

definition searched :: "string \<Rightarrow> int \<times> string" where
  "searched out = (if out \<noteq> [] then 0 else - 1, out)"

definition object_body :: "'w web_env \<Rightarrow> string option \<Rightarrow> cjson option" where
  "object_body e body = Option.bind (Option.bind body (wb_parse e)) (\<lambda>j. if cJSON_IsObject j then Some j else None)"

definition search_tavily :: "'w web_env \<Rightarrow> config option \<Rightarrow> string \<Rightarrow> nat \<Rightarrow> string \<times> 'w \<Rightarrow> (int \<times> string) \<times> 'w" where
  "search_tavily e cfg query max_len s =
     (let env_name = (case cfg of Some c \<Rightarrow> config_tavily_api_key_env c | None \<Rightarrow> ''TAVILY_API_KEY'') in
      case nonempty (wb_getenv e env_name) of
        None \<Rightarrow> ((- 1, fst s), snd s)
      | Some api_key \<Rightarrow>
          (case wb_print e (CObject [(''api_key'', CString api_key), (''query'', CString query), (''max_results'', CNumber (wb_ten e))]) of
             None \<Rightarrow> ((- 1, fst s), snd s)
           | Some body \<Rightarrow>
               let (r, w) = web_fetch e \<lparr>wq_url = TAVILY_URL, wq_header = ''Content-Type: application/json'', wq_post = Some body\<rparr> (snd s) in
               (case object_body e r of
                  None \<Rightarrow> ((- 1, fst s), w)
                | Some root \<Rightarrow> (searched (append_items max_len 10 [''title'', ''content'', ''url''] (cJSON_GetObjectItem root ''results'') []), w))))"

definition brave_url :: "string \<Rightarrow> string" where
  "brave_url q = take 1023 (''https://api.search.brave.com/res/v1/web/search?q='' @ q @ ''&count=10'')"

definition search_brave :: "'w web_env \<Rightarrow> config option \<Rightarrow> string \<Rightarrow> nat \<Rightarrow> string \<times> 'w \<Rightarrow> (int \<times> string) \<times> 'w" where
  "search_brave e cfg query max_len s =
     (let env_name = (case cfg of Some c \<Rightarrow> config_brave_api_key_env c | None \<Rightarrow> ''BRAVE_API_KEY'') in
      case (nonempty (wb_getenv e env_name), wb_escape e query) of
        (Some api_key, Some q) \<Rightarrow>
          let (r, w) = web_fetch e \<lparr>wq_url = brave_url q, wq_header = take 255 (''X-Subscription-Token: '' @ api_key), wq_post = None\<rparr> (snd s) in
          (case object_body e r of
             None \<Rightarrow> ((- 1, fst s), w)
           | Some root \<Rightarrow>
               (searched (append_items max_len 10 [''title'', ''description'', ''url''] (object_item (cJSON_GetObjectItem root ''web'') ''results'') []), w))
      | _ \<Rightarrow> ((- 1, fst s), snd s))"

definition ddg_url :: "string \<Rightarrow> string" where
  "ddg_url q = take 1023 (''https://api.duckduckgo.com/?q='' @ q @ ''&format=json'')"

definition search_duckduckgo :: "'w web_env \<Rightarrow> string \<Rightarrow> nat \<Rightarrow> string \<times> 'w \<Rightarrow> (int \<times> string) \<times> 'w" where
  "search_duckduckgo e query max_len s =
     (case wb_escape e query of
        None \<Rightarrow> ((- 1, fst s), snd s)
      | Some q \<Rightarrow>
          let (r, w) = web_fetch e \<lparr>wq_url = ddg_url q, wq_header = [], wq_post = None\<rparr> (snd s) in
          (case object_body e r of
             None \<Rightarrow> ((- 1, fst s), w)
           | Some ddg \<Rightarrow>
               let o1 = append_result max_len (string_of (cJSON_GetObjectItem ddg ''AbstractText'')) [];
                   o2 = append_result max_len (string_of (cJSON_GetObjectItem ddg ''Answer'')) o1;
                   o3 = append_items max_len 5 [''Text''] (cJSON_GetObjectItem ddg ''RelatedTopics'') o2;
                   o4 = append_items max_len 5 [''Text''] (cJSON_GetObjectItem ddg ''Results'') o3 in
               (searched o4, w)))"

text \<open>The three services in turn; \<open>s\<close> is the result buffer as the caller left it, and the world.\<close>

definition search_all :: "'w web_env \<Rightarrow> config option \<Rightarrow> string \<Rightarrow> nat \<Rightarrow> string \<times> 'w \<Rightarrow> (int \<times> string) \<times> 'w" where
  "search_all e cfg query max_len s =
     (let ((r1, b1), w1) = search_tavily e cfg query max_len s in
      if r1 = 0 then ((r1, b1), w1)
      else let ((r2, b2), w2) = search_brave e cfg query max_len (b1, w1) in
        if r2 = 0 then ((r2, b2), w2) else search_duckduckgo e query max_len (b2, w2))"

definition web_search_execute :: "'w web_env \<Rightarrow> config option \<Rightarrow> string \<Rightarrow> nat \<Rightarrow> string \<times> 'w \<Rightarrow> (int \<times> string) \<times> 'w" where
  "web_search_execute e cfg args_json max_len s =
     (if max_len = 0 then ((- 1, fst s), snd s)
      else case wb_parse e args_json of
        None \<Rightarrow> ((- 1, take (max_len - 1) ''{\"error\":\"invalid JSON\"}''), snd s)
      | Some root \<Rightarrow>
          if \<not> cJSON_IsObject root then ((- 1, take (max_len - 1) ''{\"error\":\"invalid JSON\"}''), snd s)
          else case string_of (cJSON_GetObjectItem root ''query'') of
            None \<Rightarrow> ((- 1, take (max_len - 1) (''{\"error\":\"missing or invalid '' @ [CHR 0x27] @ ''query'' @ [CHR 0x27] @ ''\"}'')), snd s)
          | Some query \<Rightarrow>
              let ((r, b), w) = search_all e cfg query max_len s in
              ((0, if r \<noteq> 0 \<and> b = [] then take (max_len - 1) (''No results found for: '' @ query) else b), w))"

section \<open>The result\<close>

text \<open>The result buffer holds what was appended and its terminator.\<close>

lemma append_result_fits: "length out < m \<Longrightarrow> length (append_result m t out) < m"
  by (auto simp: append_result_def split: option.split)

lemma append_item_fits: "length out < m \<Longrightarrow> length (append_item m names item out) < m"
proof -
  have "length (fold (\<lambda>name. append_result m (string_of (cJSON_GetObjectItem item name))) names out) < m" if "length out < m"
    using that by (induction names arbitrary: out) (auto intro: append_result_fits)
  then show "length out < m \<Longrightarrow> length (append_item m names item out) < m" by (simp add: append_item_def)
qed

lemma append_items_fits: "length out < m \<Longrightarrow> length (append_items m n names results out) < m"
proof -
  have "length (fold (append_item m names) xs out) < m" if "length out < m" for xs
    using that by (induction xs arbitrary: out) (auto intro: append_item_fits)
  then show "length out < m \<Longrightarrow> length (append_items m n names results out) < m" by (simp add: append_items_def split: option.split)
qed

lemma search_fits:
  assumes "length (fst s) < m" "0 < m"
  shows "length (snd (fst (search_tavily e cfg query m s))) < m" "length (snd (fst (search_brave e cfg query m s))) < m"
    "length (snd (fst (search_duckduckgo e query m s))) < m"
  using assms
  by (auto simp: search_tavily_def search_brave_def search_duckduckgo_def searched_def Let_def append_items_fits append_result_fits split: option.split prod.split)

lemma search_all_fits:
  assumes "length (fst s) < m" "0 < m"
  shows "length (snd (fst (search_all e cfg query m s))) < m"
proof -
  obtain r1 b1 w1 where t: "search_tavily e cfg query m s = ((r1, b1), w1)" by (metis surj_pair)
  obtain r2 b2 w2 where v: "search_brave e cfg query m (b1, w1) = ((r2, b2), w2)" by (metis surj_pair)
  have b1: "length b1 < m" using search_fits(1) [OF assms, of e cfg query] t by simp
  have b2: "length b2 < m" using search_fits(2) [of "(b1, w1)" m e cfg query] b1 assms(2) v by simp
  show ?thesis using search_fits(3) [of "(b2, w2)" m e query] b1 b2 assms(2) t v by (simp add: search_all_def)
qed

lemma web_search_fits:
  assumes "length (fst s) < m" "web_search_execute e cfg args m s = ((r, out), w)"
  shows "length out < m"
proof -
  have "length (snd (fst (search_all e cfg query m s))) < m" for query using search_all_fits [of s m] assms(1) by auto
  then show ?thesis using assms unfolding web_search_execute_def Let_def case_prod_beta by (auto split: if_splits option.splits)
qed

text \<open>A service with a result ends the search: the later ones are not asked.\<close>

lemma tavily_first:
  assumes "search_tavily e cfg query m s = ((0, b), w)"
  shows "search_all e cfg query m s = ((0, b), w)"
  using assms by (simp add: search_all_def)

text \<open>A failed service leaves the buffer or empties it, so that the next one starts from nothing; when all fail on an empty buffer the
  answer says so.\<close>

lemma searched_iff:
  assumes "fst s = []"
  shows "fst (fst (search_tavily e cfg query m s)) = 0 \<longleftrightarrow> snd (fst (search_tavily e cfg query m s)) \<noteq> []"
    and "fst (fst (search_brave e cfg query m s)) = 0 \<longleftrightarrow> snd (fst (search_brave e cfg query m s)) \<noteq> []"
    and "fst (fst (search_duckduckgo e query m s)) = 0 \<longleftrightarrow> snd (fst (search_duckduckgo e query m s)) \<noteq> []"
  using assms by (simp_all add: search_tavily_def search_brave_def search_duckduckgo_def searched_def Let_def split: option.split prod.split)

lemma all_failed_says_so:
  assumes "fst s = []" "search_all e cfg query m s = ((r, b), w)" "r \<noteq> 0" "wb_parse e args = Some root" "cJSON_IsObject root" "0 < m"
    and "string_of (cJSON_GetObjectItem root ''query'') = Some query"
  shows "web_search_execute e cfg args m s = ((0, take (m - 1) (''No results found for: '' @ query)), w)"
proof -
  obtain r1 b1 w1 where t: "search_tavily e cfg query m s = ((r1, b1), w1)" by (metis surj_pair)
  obtain r2 b2 w2 where v: "search_brave e cfg query m (b1, w1) = ((r2, b2), w2)" by (metis surj_pair)
  have r1: "r1 \<noteq> 0" "b1 = []" using searched_iff(1) [of s e cfg query m] assms(1-3) t by (auto simp: search_all_def split: if_splits)
  have r2: "r2 \<noteq> 0" "b2 = []" using searched_iff(2) [of "(b1, w1)" e cfg query m] r1 assms(2,3) t v by (auto simp: search_all_def split: if_splits)
  have "b = []" using searched_iff(3) [of "(b2, w2)" e query m] r1 r2 assms(2,3) t v by (auto simp: search_all_def)
  then show ?thesis using assms(2-7) by (simp add: web_search_execute_def)
qed

end
