(* ===== verification/I2c.thy ===== *)
theory I2c
  imports Prelude "HOL-Library.Word"
begin

text \<open>
  The I2C back end (\<open>src/hardware/hardware_i2c.c\<close>): one register read, one register write and a scan of a bus, each on a descriptor of
  \<open>/dev/i2c-N\<close> opened for that operation.  The system calls are an argument, and the state keeps a log of them.
\<close>

section \<open>Definitions\<close>

definition I2C_ADDR_MIN :: nat where "I2C_ADDR_MIN = 0x03"
definition I2C_ADDR_MAX :: nat where "I2C_ADDR_MAX = 0x77"
definition I2C_XFER_LEN_MAX :: nat where "I2C_XFER_LEN_MAX = 256"

text \<open>The answers of the system: a descriptor or the text of \<open>errno\<close>; for \<open>read\<close> and \<open>write\<close> the count, the bytes and that text.\<close>

record 'w i2c_env =
  ie_open :: "string \<Rightarrow> 'w \<Rightarrow> (string + nat) \<times> 'w"
  ie_slave :: "nat \<Rightarrow> 8 word \<Rightarrow> 'w \<Rightarrow> string option \<times> 'w"
  ie_probe :: "nat \<Rightarrow> 'w \<Rightarrow> bool \<times> 'w"
  ie_write :: "nat \<Rightarrow> 8 word list \<Rightarrow> 'w \<Rightarrow> (int \<times> string) \<times> 'w"
  ie_read :: "nat \<Rightarrow> nat \<Rightarrow> 'w \<Rightarrow> (int \<times> 8 word list \<times> string) \<times> 'w"
  ie_close :: "nat \<Rightarrow> 'w \<Rightarrow> 'w"

datatype i2c_call = Bus_Opened nat | Bus_Closed nat | Slave_Set nat "8 word" | Bytes_Written nat "8 word list" | Bytes_Read nat nat | Slave_Probed nat

record 'w i2c_state =
  is_log :: "i2c_call list"
  is_world :: 'w

definition i2c_call :: "i2c_call \<Rightarrow> 'w \<Rightarrow> 'w i2c_state \<Rightarrow> 'w i2c_state" where
  "i2c_call c w s = s\<lparr>is_log := c # is_log s, is_world := w\<rparr>"

text \<open>\<open>%02x\<close> of a byte.\<close>

definition hex_byte :: "8 word \<Rightarrow> string" where
  "hex_byte b = (let d = (\<lambda>v. if v < 10 then char_of (48 + v) else char_of (87 + v)) in [d (unat b div 16), d (unat b mod 16)])"

definition bus_path :: "int \<Rightarrow> nat \<Rightarrow> string option" where
  "bus_path bus pathsz = snprintf_checked pathsz (''/dev/i2c-'' @ int_str bus)"

definition open_bus :: "'w i2c_env \<Rightarrow> int \<Rightarrow> 'w i2c_state \<Rightarrow> (string + nat) \<times> 'w i2c_state" where
  "open_bus e bus s =
     (if bus < 0 \<or> bus > 255 then (Inl (''i2c: bus '' @ int_str bus @ '' out of range (0-255)''), s)
      else case bus_path bus 32 of
        None \<Rightarrow> (Inl (''i2c: bus path too long for bus '' @ int_str bus), s)
      | Some path \<Rightarrow>
          (case ie_open e path (is_world s) of
             (Inl err, w) \<Rightarrow> (Inl (''i2c: open '' @ path @ '' failed: '' @ err), s\<lparr>is_world := w\<rparr>)
           | (Inr fd, w) \<Rightarrow> (Inr fd, i2c_call (Bus_Opened fd) w s)))"

definition close_bus :: "'w i2c_env \<Rightarrow> nat \<Rightarrow> 'w i2c_state \<Rightarrow> 'w i2c_state" where
  "close_bus e fd s = i2c_call (Bus_Closed fd) (ie_close e fd (is_world s)) s"

definition set_slave :: "'w i2c_env \<Rightarrow> nat \<Rightarrow> 8 word \<Rightarrow> 'w i2c_state \<Rightarrow> string option \<times> 'w i2c_state" where
  "set_slave e fd addr s =
     (let (r, w) = ie_slave e fd addr (is_world s) in
      (map_option (\<lambda>err. ''i2c: I2C_SLAVE 0x'' @ hex_byte addr @ '' failed: '' @ err) r, i2c_call (Slave_Set fd addr) w s))"

definition probe_address :: "'w i2c_env \<Rightarrow> nat \<Rightarrow> 'w i2c_state \<Rightarrow> bool \<times> 'w i2c_state" where
  "probe_address e fd s = (let (r, w) = ie_probe e fd (is_world s) in (r, i2c_call (Slave_Probed fd) w s))"

definition write_bytes :: "'w i2c_env \<Rightarrow> nat \<Rightarrow> 8 word list \<Rightarrow> 'w i2c_state \<Rightarrow> (int \<times> string) \<times> 'w i2c_state" where
  "write_bytes e fd bs s = (let (r, w) = ie_write e fd bs (is_world s) in (r, i2c_call (Bytes_Written fd bs) w s))"

definition read_bytes :: "'w i2c_env \<Rightarrow> nat \<Rightarrow> nat \<Rightarrow> 'w i2c_state \<Rightarrow> (int \<times> 8 word list \<times> string) \<times> 'w i2c_state" where
  "read_bytes e fd len s = (let (r, w) = ie_read e fd len (is_world s) in (r, i2c_call (Bytes_Read fd len) w s))"

definition validate_i2c_xfer :: "8 word \<Rightarrow> nat \<Rightarrow> string option" where
  "validate_i2c_xfer addr len =
     (if unat addr < I2C_ADDR_MIN \<or> unat addr > I2C_ADDR_MAX then Some (''i2c: addr 0x'' @ hex_byte addr @ '' out of range (0x03-0x77)'')
      else if len < 1 \<or> len > I2C_XFER_LEN_MAX then Some (''i2c: len '' @ nat_str len @ '' out of range (1-256)'')
      else None)"

text \<open>What both transfers begin with: a descriptor on which the slave is selected.\<close>

definition open_slave :: "'w i2c_env \<Rightarrow> bool \<Rightarrow> int \<Rightarrow> 8 word \<Rightarrow> nat \<Rightarrow> 'w i2c_state \<Rightarrow> (string + nat) \<times> 'w i2c_state" where
  "open_slave e ready bus addr len s =
     (if \<not> ready then (Inl ''i2c: backend not initialized'', s)
      else case validate_i2c_xfer addr len of
        Some err \<Rightarrow> (Inl err, s)
      | None \<Rightarrow>
          (case open_bus e bus s of
             (Inl err, s1) \<Rightarrow> (Inl err, s1)
           | (Inr fd, s1) \<Rightarrow>
               (case set_slave e fd addr s1 of
                  (Some err, s2) \<Rightarrow> (Inl err, close_bus e fd s2)
                | (None, s2) \<Rightarrow> (Inr fd, s2))))"

definition xfer_failed :: "string \<Rightarrow> nat \<Rightarrow> 8 word \<Rightarrow> 8 word \<Rightarrow> string \<Rightarrow> string" where
  "xfer_failed verb len addr reg err =
     ''i2c: '' @ verb @ '' '' @ nat_str len @ '' bytes at 0x'' @ hex_byte addr @ '' reg 0x'' @ hex_byte reg @ '' failed: '' @ err"

definition hardware_i2c_read :: "'w i2c_env \<Rightarrow> bool \<Rightarrow> int \<Rightarrow> 8 word \<Rightarrow> 8 word \<Rightarrow> nat \<Rightarrow> 'w i2c_state \<Rightarrow> (string + 8 word list) \<times> 'w i2c_state" where
  "hardware_i2c_read e ready bus addr reg len s =
     (case open_slave e ready bus addr len s of
        (Inl err, s1) \<Rightarrow> (Inl err, s1)
      | (Inr fd, s1) \<Rightarrow>
          (case write_bytes e fd [reg] s1 of
             ((n, err), s2) \<Rightarrow>
               if n \<noteq> 1 then (Inl (''i2c: write reg 0x'' @ hex_byte reg @ '' failed: '' @ err), close_bus e fd s2)
               else case read_bytes e fd len s2 of
                 ((n, bs, err), s3) \<Rightarrow> (if n \<noteq> int len then Inl (xfer_failed ''read'' len addr reg err) else Inr bs, close_bus e fd s3)))"

definition hardware_i2c_write :: "'w i2c_env \<Rightarrow> bool \<Rightarrow> int \<Rightarrow> 8 word \<Rightarrow> 8 word \<Rightarrow> 8 word list \<Rightarrow> 'w i2c_state \<Rightarrow> string option \<times> 'w i2c_state" where
  "hardware_i2c_write e ready bus addr reg data s =
     (case open_slave e ready bus addr (length data) s of
        (Inl err, s1) \<Rightarrow> (Some err, s1)
      | (Inr fd, s1) \<Rightarrow>
          (case write_bytes e fd (reg # data) s1 of
             ((n, err), s2) \<Rightarrow>
               (if n \<noteq> int (1 + length data) then Some (xfer_failed ''write'' (length data) addr reg err) else None, close_bus e fd s2)))"

text \<open>The loop of the scan, over the addresses still to be probed; with \<open>max_addrs\<close> not positive only the number of the addresses found is kept.\<close>

fun scan_from :: "'w i2c_env \<Rightarrow> nat \<Rightarrow> int \<Rightarrow> nat \<Rightarrow> nat list \<Rightarrow> 'w i2c_state \<Rightarrow> 8 word list \<times> 'w i2c_state" where
  "scan_from e fd max_addrs count [] s = ([], s)"
| "scan_from e fd max_addrs count (a # as) s =
     (if max_addrs > 0 \<and> int count \<ge> max_addrs then ([], s)
      else case set_slave e fd (of_nat a) s of
        (Some err, s1) \<Rightarrow> scan_from e fd max_addrs count as s1
      | (None, s1) \<Rightarrow>
          (case probe_address e fd s1 of
             (False, s2) \<Rightarrow> scan_from e fd max_addrs count as s2
           | (True, s2) \<Rightarrow> (let (found, s3) = scan_from e fd max_addrs (count + 1) as s2 in (of_nat a # found, s3))))"

definition hardware_i2c_scan :: "'w i2c_env \<Rightarrow> bool \<Rightarrow> int \<Rightarrow> int \<Rightarrow> 'w i2c_state \<Rightarrow> (string + 8 word list) \<times> 'w i2c_state" where
  "hardware_i2c_scan e ready bus max_addrs s =
     (if \<not> ready then (Inl ''i2c: backend not initialized'', s)
      else case open_bus e bus s of
        (Inl err, s1) \<Rightarrow> (Inl err, s1)
      | (Inr fd, s1) \<Rightarrow> (let (found, s2) = scan_from e fd max_addrs 0 [I2C_ADDR_MIN..<I2C_ADDR_MAX + 1] s1 in (Inr found, close_bus e fd s2)))"

section \<open>One descriptor per operation\<close>

fun session_call :: "nat \<Rightarrow> i2c_call \<Rightarrow> bool" where
  "session_call fd (Slave_Set h a) \<longleftrightarrow> h = fd \<and> I2C_ADDR_MIN \<le> unat a \<and> unat a \<le> I2C_ADDR_MAX"
| "session_call fd (Bytes_Written h bs) \<longleftrightarrow> h = fd \<and> 1 \<le> length bs \<and> length bs \<le> I2C_XFER_LEN_MAX + 1"
| "session_call fd (Bytes_Read h n) \<longleftrightarrow> h = fd \<and> 1 \<le> n \<and> n \<le> I2C_XFER_LEN_MAX"
| "session_call fd (Slave_Probed h) \<longleftrightarrow> h = fd"
| "session_call fd _ \<longleftrightarrow> False"

text \<open>An operation makes no call at all, or opens a descriptor, uses only that one, and closes it.\<close>

definition one_session :: "'w i2c_state \<Rightarrow> 'w i2c_state \<Rightarrow> bool" where
  "one_session s s' \<longleftrightarrow>
     is_log s' = is_log s \<or> (\<exists>fd mid. is_log s' = Bus_Closed fd # mid @ Bus_Opened fd # is_log s \<and> list_all (session_call fd) mid)"

text \<open>In the middle of it.\<close>

definition in_session :: "nat \<Rightarrow> 'w i2c_state \<Rightarrow> 'w i2c_state \<Rightarrow> bool" where
  "in_session fd s s' \<longleftrightarrow> (\<exists>mid. is_log s' = mid @ Bus_Opened fd # is_log s \<and> list_all (session_call fd) mid)"

lemma session_step: "in_session fd s s1 \<Longrightarrow> session_call fd c \<Longrightarrow> in_session fd s (i2c_call c w s1)"
proof -
  assume "in_session fd s s1" "session_call fd c"
  then obtain mid where "is_log s1 = mid @ Bus_Opened fd # is_log s" "list_all (session_call fd) (c # mid)" unfolding in_session_def by auto
  then show "in_session fd s (i2c_call c w s1)" unfolding in_session_def i2c_call_def by (intro exI [of _ "c # mid"]) simp
qed

lemma session_closed: "in_session fd s s1 \<Longrightarrow> one_session s (close_bus e fd s1)"
  unfolding in_session_def one_session_def close_bus_def i2c_call_def by auto

lemma open_bus_session:
  assumes "open_bus e bus s = (r, s1)"
  shows "case r of Inl _ \<Rightarrow> one_session s s1 | Inr fd \<Rightarrow> in_session fd s s1"
  using assms by (auto simp: open_bus_def one_session_def in_session_def i2c_call_def split: if_splits option.splits prod.splits sum.splits)

lemma set_slave_session:
  assumes "in_session fd s s1" "set_slave e fd a s1 = (r, s2)" "I2C_ADDR_MIN \<le> unat a" "unat a \<le> I2C_ADDR_MAX"
  shows "in_session fd s s2"
  using assms session_step [OF assms(1), of "Slave_Set fd a"] by (auto simp: set_slave_def split: prod.splits)

lemma valid_xfer: "validate_i2c_xfer a n = None \<Longrightarrow> I2C_ADDR_MIN \<le> unat a \<and> unat a \<le> I2C_ADDR_MAX \<and> 1 \<le> n \<and> n \<le> I2C_XFER_LEN_MAX"
  by (auto simp: validate_i2c_xfer_def split: if_splits)

lemma open_slave_session:
  assumes "open_slave e ready bus a n s = (r, s1)"
  shows "case r of Inl _ \<Rightarrow> one_session s s1 | Inr fd \<Rightarrow> in_session fd s s1 \<and> 1 \<le> n \<and> n \<le> I2C_XFER_LEN_MAX"
proof (cases "ready \<and> validate_i2c_xfer a n = None")
  case False
  then show ?thesis using assms by (auto simp: open_slave_def one_session_def split: if_splits option.splits)
next
  case True
  note v = valid_xfer [OF conjunct2 [OF True]]
  obtain r1 s2 where b: "open_bus e bus s = (r1, s2)" by (metis surj_pair)
  show ?thesis
  proof (cases r1)
    case (Inl err)
    then show ?thesis using assms True b open_bus_session [OF b] by (auto simp: open_slave_def)
  next
    case (Inr fd)
    then have i: "in_session fd s s2" using open_bus_session [OF b] by simp
    obtain r2 s3 where c: "set_slave e fd a s2 = (r2, s3)" by (metis surj_pair)
    have "in_session fd s s3" using set_slave_session [OF i c] v by simp
    then show ?thesis using assms True b c Inr v session_closed by (auto simp: open_slave_def split: option.splits)
  qed
qed

lemma read_session: "one_session s (snd (hardware_i2c_read e ready bus a reg n s))"
proof -
  obtain r s1 where o: "open_slave e ready bus a n s = (r, s1)" by (metis surj_pair)
  note i = open_slave_session [OF o]
  show ?thesis
  proof (cases r)
    case (Inl err)
    then show ?thesis using o i by (simp add: hardware_i2c_read_def)
  next
    case (Inr fd)
    obtain k err s2 where w: "write_bytes e fd [reg] s1 = ((k, err), s2)" by (metis surj_pair)
    obtain k' bs err' s3 where d: "read_bytes e fd n s2 = ((k', bs, err'), s3)" by (metis surj_pair)
    have i2: "in_session fd s s2" using i Inr w session_step [of fd s s1 "Bytes_Written fd [reg]"] by (auto simp: write_bytes_def I2C_XFER_LEN_MAX_def split: prod.splits)
    have i3: "in_session fd s s3" using i Inr d session_step [OF i2, of "Bytes_Read fd n"] by (auto simp: read_bytes_def split: prod.splits)
    show ?thesis using o Inr w d session_closed [OF i2] session_closed [OF i3] by (simp add: hardware_i2c_read_def)
  qed
qed

lemma write_session: "one_session s (snd (hardware_i2c_write e ready bus a reg data s))"
proof -
  obtain r s1 where o: "open_slave e ready bus a (length data) s = (r, s1)" by (metis surj_pair)
  note i = open_slave_session [OF o]
  show ?thesis
  proof (cases r)
    case (Inl err)
    then show ?thesis using o i by (simp add: hardware_i2c_write_def)
  next
    case (Inr fd)
    obtain k err s2 where w: "write_bytes e fd (reg # data) s1 = ((k, err), s2)" by (metis surj_pair)
    have i2: "in_session fd s s2" using i Inr w session_step [of fd s s1 "Bytes_Written fd (reg # data)"] by (auto simp: write_bytes_def split: prod.splits)
    show ?thesis using o Inr w session_closed [OF i2] by (simp add: hardware_i2c_write_def)
  qed
qed

lemma scan_from_session:
  assumes "in_session fd s s1" "\<forall>a \<in> set as. I2C_ADDR_MIN \<le> a \<and> a \<le> I2C_ADDR_MAX"
  shows "in_session fd s (snd (scan_from e fd m count as s1))"
  using assms
proof (induction as arbitrary: count s1)
  case (Cons a as)
  have u: "unat (of_nat a :: 8 word) = a" using Cons.prems(2) by (simp add: unat_of_nat I2C_ADDR_MAX_def)
  obtain r s2 where c: "set_slave e fd (of_nat a) s1 = (r, s2)" by (metis surj_pair)
  obtain q s3 where p: "probe_address e fd s2 = (q, s3)" by (metis surj_pair)
  have i2: "in_session fd s s2" using set_slave_session [OF Cons.prems(1) c] Cons.prems(2) u by simp
  have i3: "in_session fd s s3" using p session_step [OF i2, of "Slave_Probed fd"] by (auto simp: probe_address_def split: prod.splits)
  have rest: "\<forall>a \<in> set as. I2C_ADDR_MIN \<le> a \<and> a \<le> I2C_ADDR_MAX" using Cons.prems(2) by simp
  show ?case using Cons.prems(1) c p Cons.IH [OF i2 rest] Cons.IH [OF i3 rest] by (auto simp: case_prod_beta split: option.split bool.split)
qed simp

lemma scan_session: "one_session s (snd (hardware_i2c_scan e ready bus m s))"
proof -
  obtain r s1 where o: "open_bus e bus s = (r, s1)" by (metis surj_pair)
  show ?thesis
  proof (cases r)
    case (Inl err)
    then show ?thesis using o open_bus_session [OF o] by (simp add: hardware_i2c_scan_def one_session_def)
  next
    case (Inr fd)
    then have "in_session fd s (snd (scan_from e fd m 0 [I2C_ADDR_MIN..<I2C_ADDR_MAX + 1] s1))"
      using open_bus_session [OF o] by (intro scan_from_session) auto
    then have "one_session s (close_bus e fd (snd (scan_from e fd m 0 [I2C_ADDR_MIN..<I2C_ADDR_MAX + 1] s1)))" by (rule session_closed)
    then show ?thesis using o Inr by (simp add: hardware_i2c_scan_def one_session_def case_prod_beta)
  qed
qed

section \<open>No descriptor stays open\<close>

fun bus_count :: "i2c_call \<Rightarrow> int" where
  "bus_count (Bus_Opened h) = 1"
| "bus_count (Bus_Closed h) = - 1"
| "bus_count _ = 0"

definition open_buses :: "'w i2c_state \<Rightarrow> int" where
  "open_buses s = sum_list (map bus_count (is_log s))"

lemma session_call_count: "list_all (session_call fd) mid \<Longrightarrow> sum_list (map bus_count mid) = 0"
proof (induction mid)
  case (Cons c mid)
  then show ?case by (cases c) auto
qed simp

text \<open>What the back end promises of an operation, and what its users get from it.\<close>

locale bus_operation =
  fixes run :: "'w i2c_state \<Rightarrow> 'a \<times> 'w i2c_state"
  assumes session: "one_session s (snd (run s))"
begin

lemma keeps_open: "open_buses (snd (run s)) = open_buses s"
  using session [of s] unfolding one_session_def open_buses_def by (auto simp: session_call_count)

lemma repeated_keeps_open: "open_buses (((\<lambda>s. snd (run s)) ^^ n) s) = open_buses s"
  by (induction n) (simp_all add: keeps_open)

end

interpretation i2c_reads: bus_operation "hardware_i2c_read e ready bus a reg n" for e ready bus a reg n
  by unfold_locales (rule read_session)

interpretation i2c_writes: bus_operation "hardware_i2c_write e ready bus a reg data" for e ready bus a reg data
  by unfold_locales (rule write_session)

interpretation i2c_scans: bus_operation "hardware_i2c_scan e ready bus m" for e ready bus m
  by unfold_locales (rule scan_session)

section \<open>What the operations return\<close>

lemma scan_from_found:
  "map unat (fst (scan_from e fd m count as s1)) \<in> set (subseqs as)" if "\<forall>a \<in> set as. a \<le> I2C_ADDR_MAX"
  using that
proof (induction as arbitrary: count s1)
  case (Cons a as)
  have u: "unat (of_nat a :: 8 word) = a" using Cons.prems by (simp add: unat_of_nat I2C_ADDR_MAX_def)
  have IH: "map unat (fst (scan_from e fd m c as s2)) \<in> set (subseqs as)" for c s2 using Cons by simp
  have n: "[] \<in> set (subseqs as)" using IH [of _ s1] by (induction as) (auto simp: Let_def)
  show ?case using IH n u by (auto simp: Let_def case_prod_beta split: option.split bool.split prod.split)
qed simp

text \<open>A scan reports each answering address once, in ascending order, and none that is reserved.\<close>

theorem scan_sorted:
  assumes "hardware_i2c_scan e ready bus m s = (Inr found, s')"
  shows "sorted (map unat found) \<and> distinct (map unat found) \<and> set (map unat found) \<subseteq> {I2C_ADDR_MIN..I2C_ADDR_MAX}"
proof -
  obtain fd s1 where "found = fst (scan_from e fd m 0 [I2C_ADDR_MIN..<I2C_ADDR_MAX + 1] s1)"
    using assms by (auto simp: hardware_i2c_scan_def case_prod_beta split: if_splits prod.splits sum.splits)
  then have "subseq (map unat found) [I2C_ADDR_MIN..<I2C_ADDR_MAX + 1]" using scan_from_found [of "[I2C_ADDR_MIN..<I2C_ADDR_MAX + 1]" e fd m 0 s1] by auto
  then obtain N where "map unat found = nths [I2C_ADDR_MIN..<I2C_ADDR_MAX + 1] N" unfolding subseq_conv_nths by blast
  then show ?thesis
    using sorted_nths [OF sorted_upt, of I2C_ADDR_MIN "I2C_ADDR_MAX + 1" N] distinct_nthsI [OF distinct_upt, of I2C_ADDR_MIN "I2C_ADDR_MAX + 1" N]
      set_nths_subset [of "[I2C_ADDR_MIN..<I2C_ADDR_MAX + 1]" N] by (simp only: set_upt atLeastLessThanSuc_atLeastAtMost Suc_eq_plus1 [symmetric])
qed

text \<open>A write that is reported successful put the register and then the data on the bus, in one call.\<close>

lemma write_succeeds:
  assumes "hardware_i2c_write e ready bus a reg data s = (None, s')"
  shows "ready \<and> 0 \<le> bus \<and> bus \<le> 255 \<and> (\<exists>fd. is_log s' = Bus_Closed fd # Bytes_Written fd (reg # data) # Slave_Set fd a # Bus_Opened fd # is_log s)"
  using assms
  by (auto simp: hardware_i2c_write_def open_slave_def open_bus_def set_slave_def write_bytes_def close_bus_def i2c_call_def
      split: if_splits option.splits prod.splits sum.splits)

end
