(* ===== verification/Scanf.thy ===== *)
theory Scanf
  imports Prelude
begin

text \<open>
  The conversions of \<open>sscanf\<close> that the hardware code uses.  A matcher returns what is left of the text; \<^const>\<open>None\<close> is a mismatch.
\<close>

text \<open>\<open>%u\<close>: the value of \<open>strtoul\<close>, cut to 32 bits.\<close>

definition scan_unsigned :: "string \<Rightarrow> (nat \<times> string) option" where
  "scan_unsigned s =
     (case strtol_scan s of
        None \<Rightarrow> None
      | Some (v, r) \<Rightarrow> Some (nat ((if \<bar>v\<bar> \<ge> 2 ^ 64 then 2 ^ 64 - 1 else v) mod 2 ^ 32), r))"

text \<open>Plain characters of the format match themselves; a blank matches any run of white space.\<close>

fun scan_literal :: "string \<Rightarrow> string \<Rightarrow> string option" where
  "scan_literal [] s = Some s"
| "scan_literal (f # fs) s =
     (if f = CHR '' '' then scan_literal fs (dropWhile is_space s)
      else case s of [] \<Rightarrow> None | c # cs \<Rightarrow> if c = f then scan_literal fs cs else None)"

text \<open>\<open>%%\<close>: white space, then the sign.\<close>

definition scan_percent :: "string \<Rightarrow> string option" where
  "scan_percent s = scan_literal ''%'' (dropWhile is_space s)"

lemma scan_unsigned_nat_str:
  assumes "n < 2 ^ 32" "rest = [] \<or> \<not> is_digit (hd rest)"
  shows "scan_unsigned (nat_str n @ rest) = Some (n, rest)"
proof -
  have "int n < 2 ^ 32" using assms(1) by (metis of_nat_less_iff of_nat_numeral of_nat_power)
  then show ?thesis using strtol_scan_nat_str [OF assms(2), of n] by (simp add: scan_unsigned_def)
qed

lemma scan_literal_prefix: "CHR '' '' \<notin> set f \<Longrightarrow> scan_literal f (f @ s) = Some s"
  by (induction f) auto

end
