(* ===== verification/Camera.thy ===== *)
theory Camera
  imports Board Atomic_Write Scanf
begin

text \<open>
  The camera back end (\<open>src/hardware/hardware_camera.c\<close>): a still picture taken by one of three command-line programs, run without a
  shell on an argument vector built here.  The file system, the process calls and what the program does to the files are the
  argument \<open>cam_env\<close>.  The workspace is \<^const>\<open>None\<close> when no containment is asked for; the test hooks of the file are left out.
\<close>

section \<open>Definitions\<close>

definition CAMERA_ARG_BUF_SZ :: nat where "CAMERA_ARG_BUF_SZ = 64"
definition MIN_JPEG_BYTES :: nat where "MIN_JPEG_BYTES = 2"
definition HARDWARE_CAMERA_SPAWN_TIMEOUT_MS :: nat where "HARDWARE_CAMERA_SPAWN_TIMEOUT_MS = 15000"
definition HARDWARE_CAMERA_ERR_UNAVAILABLE :: string where "HARDWARE_CAMERA_ERR_UNAVAILABLE = ''camera not available''"

datatype camera_cli_kind = CAMERA_CLI_NONE | CAMERA_CLI_JETSON_CSI | CAMERA_CLI_USB_UVC | CAMERA_CLI_RPI_CSI

text \<open>What \<open>waitpid\<close> with \<open>WNOHANG\<close> answers: no change, an exit status, a death by signal, an error.\<close>

datatype wait_answer = Wait_Nothing | Wait_Exit nat | Wait_Signal | Wait_Error

record cam_env =
  ce_os :: os
  ce_executable :: "string \<Rightarrow> bool"
  ce_mkstemp :: "string option"
  ce_fork :: bool
  ce_wait :: "nat \<Rightarrow> wait_answer"
  ce_run :: "string list \<Rightarrow> fsys \<Rightarrow> fsys"

subsection \<open>The output path\<close>

definition path_char_ok :: "char \<Rightarrow> bool" where
  "path_char_ok c \<longleftrightarrow> is_lower_az c \<or> is_upper_az c \<or> is_digit c \<or> c \<in> set ''/_-.''"

definition path_chars_safe :: "string \<Rightarrow> bool" where
  "path_chars_safe path \<longleftrightarrow> path \<noteq> [] \<and> strstr ''..'' path = None \<and> list_all path_char_ok path"

definition resolved_under_workspace :: "string \<Rightarrow> string \<Rightarrow> bool" where
  "resolved_under_workspace resolved ws_resolved \<longleftrightarrow>
     prefix ws_resolved resolved \<and> (ch resolved (length ws_resolved) = nul \<or> ch resolved (length ws_resolved) = slash)"

text \<open>The loop over the ancestors.\<close>

function inside_ancestor :: "os \<Rightarrow> string \<Rightarrow> string \<Rightarrow> bool" where
  "inside_ancestor k ws path_copy =
     (let dir = dirname path_copy in
      if dir = [] then False
      else case os_realpath k dir of
        Some resolved \<Rightarrow> resolved_under_workspace resolved ws
      | None \<Rightarrow> if dir = ''.'' \<or> dir = ''/'' then False else inside_ancestor k ws (buf_trunc PATH_MAX dir))"
  by pat_completeness auto
termination
  by (relation "measure (\<lambda>(_, _, p). length p)")
    (auto simp: buf_trunc_def dest: dirname_shorter intro: le_less_trans [OF min.cobounded1])

declare inside_ancestor.simps [simp del]

definition path_inside_workspace :: "os \<Rightarrow> string option \<Rightarrow> string \<Rightarrow> bool" where
  "path_inside_workspace k workspace path =
     (case workspace of
        None \<Rightarrow> True
      | Some root \<Rightarrow>
          if root = [] \<or> path = [] then False
          else case os_realpath k root of
            None \<Rightarrow> False
          | Some ws \<Rightarrow>
              (case os_realpath k path of
                 Some resolved \<Rightarrow> resolved_under_workspace resolved ws
               | None \<Rightarrow> if os_islnk k path then False else inside_ancestor k ws (buf_trunc PATH_MAX path)))"

definition hardware_camera_set_workspace :: "string option \<Rightarrow> string option" where
  "hardware_camera_set_workspace workspace = map_option (buf_trunc PATH_MAX) workspace"

definition hardware_camera_output_allowed :: "os \<Rightarrow> string option \<Rightarrow> string option \<Rightarrow> bool" where
  "hardware_camera_output_allowed k workspace path = (case path of None \<Rightarrow> True | Some p \<Rightarrow> p = [] \<or> path_inside_workspace k workspace p)"

subsection \<open>What is asked for\<close>

definition parse_resolution :: "string \<Rightarrow> string + (nat \<times> nat)" where
  "parse_resolution resolution =
     (if resolution = [] then Inl ''camera: missing resolution''
      else case scan_unsigned resolution of
        Some (width, c # r) \<Rightarrow>
          (case (if c = CHR ''x'' then scan_unsigned r else None) of
             Some (height, rest) \<Rightarrow>
               if width = 0 \<or> height = 0 \<or> width > 4096 \<or> height > 4096 \<or> rest \<noteq> [] then Inl ''camera: invalid resolution (expected WxH)''
               else Inr (width, height)
           | None \<Rightarrow> Inl ''camera: invalid resolution (expected WxH)'')
      | _ \<Rightarrow> Inl ''camera: invalid resolution (expected WxH)'')"

definition camera_type_allowed :: "string \<Rightarrow> bool" where
  "camera_type_allowed camera_type \<longleftrightarrow> camera_type = [] \<or> camera_type = ''auto'' \<or> camera_type = ''csi'' \<or> camera_type = ''usb''"

definition resolve_cli :: "board_id \<Rightarrow> string \<Rightarrow> camera_cli_kind" where
  "resolve_cli board camera_type =
     (if board = BOARD_STUB \<or> board = BOARD_UNKNOWN then CAMERA_CLI_NONE
      else if camera_type = ''usb'' then CAMERA_CLI_USB_UVC
      else if board = BOARD_JETSON_ORIN_NANO then
        (if camera_type = ''csi'' \<or> camera_type = ''auto'' then CAMERA_CLI_JETSON_CSI else CAMERA_CLI_NONE)
      else if board = BOARD_RPI_ZERO2W then
        (if camera_type = ''csi'' \<or> camera_type = ''auto'' then CAMERA_CLI_RPI_CSI else CAMERA_CLI_NONE)
      else CAMERA_CLI_NONE)"

fun program_for_kind :: "camera_cli_kind \<Rightarrow> string option" where
  "program_for_kind CAMERA_CLI_JETSON_CSI = Some ''gst-launch-1.0''"
| "program_for_kind CAMERA_CLI_USB_UVC = Some ''v4l2-ctl''"
| "program_for_kind CAMERA_CLI_RPI_CSI = Some ''libcamera-still''"
| "program_for_kind CAMERA_CLI_NONE = None"

definition tool_executable :: "cam_env \<Rightarrow> string option \<Rightarrow> bool" where
  "tool_executable e prog =
     (case prog of
        None \<Rightarrow> False
      | Some p \<Rightarrow>
          if ce_executable e p then True
          else case snprintf_checked 128 (''/usr/bin/'' @ p) of None \<Rightarrow> False | Some path \<Rightarrow> ce_executable e path)"

definition validate_capture_inputs ::
  "cam_env \<Rightarrow> bool \<Rightarrow> board_id \<Rightarrow> string \<Rightarrow> string \<Rightarrow> int \<Rightarrow> int \<Rightarrow> int \<Rightarrow> nat \<Rightarrow> string + (nat \<times> nat \<times> camera_cli_kind)" where
  "validate_capture_inputs e ready board camera_type resolution quality sensor_id video_index result_pathsz =
     (if \<not> ready then Inl ''camera: backend not initialized''
      else if result_pathsz = 0 then Inl ''camera: result_path is NULL''
      else if quality < 1 \<or> quality > 100 then Inl ''camera: quality must be 1-100''
      else if sensor_id < 0 \<or> sensor_id > 3 then Inl ''camera: sensor_id must be 0-3''
      else if video_index < 0 \<or> video_index > 99 then Inl ''camera: video_index must be 0-99''
      else if \<not> camera_type_allowed camera_type then Inl ''camera: invalid camera_type''
      else case parse_resolution resolution of
        Inl err \<Rightarrow> Inl err
      | Inr (width, height) \<Rightarrow>
          let kind = resolve_cli board camera_type in
          if kind = CAMERA_CLI_NONE then Inl HARDWARE_CAMERA_ERR_UNAVAILABLE
          else if \<not> tool_executable e (program_for_kind kind) then Inl HARDWARE_CAMERA_ERR_UNAVAILABLE
          else Inr (width, height, kind))"

subsection \<open>The program\<close>

definition build_jetson_csi_argv :: "nat \<Rightarrow> nat \<Rightarrow> nat \<Rightarrow> int \<Rightarrow> int \<Rightarrow> string \<Rightarrow> string list option" where
  "build_jetson_csi_argv sz width height sensor_id quality out_path =
     (case (snprintf_checked sz (''sensor-id='' @ int_str sensor_id),
            snprintf_checked sz (''video/x-raw(memory:NVMM),width='' @ nat_str width @ '',height='' @ nat_str height @ '',format=NV12''),
            snprintf_checked sz (''location='' @ out_path),
            snprintf_checked sz (''quality='' @ int_str quality)) of
        (Some arg0, Some arg1, Some arg2, Some arg_q) \<Rightarrow>
          Some [''gst-launch-1.0'', ''-e'', ''nvarguscamerasrc'', arg0, ''num-buffers=4'', ''!'', arg1, ''!'', ''nvjpegenc'', arg_q, ''!'', ''filesink'', arg2]
      | _ \<Rightarrow> None)"

definition build_usb_argv :: "nat \<Rightarrow> nat \<Rightarrow> nat \<Rightarrow> int \<Rightarrow> string \<Rightarrow> string list option" where
  "build_usb_argv sz width height video_index out_path =
     (case (snprintf_checked sz (''/dev/video'' @ int_str video_index),
            snprintf_checked sz (''width='' @ nat_str width @ '',height='' @ nat_str height @ '',pixelformat=MJPG'')) of
        (Some arg0, Some arg1) \<Rightarrow>
          Some [''v4l2-ctl'', ''--device'', arg0, ''--set-fmt-video'', arg1, ''--stream-mmap'', ''--stream-count=1'', ''--stream-to'', out_path]
      | _ \<Rightarrow> None)"

definition build_rpi_csi_argv :: "nat \<Rightarrow> nat \<Rightarrow> int \<Rightarrow> string \<Rightarrow> string list" where
  "build_rpi_csi_argv width height quality out_path =
     [''libcamera-still'', ''--output'', out_path, ''--width'', buf_trunc 16 (nat_str width), ''--height'', buf_trunc 16 (nat_str height),
      ''--quality'', buf_trunc 16 (int_str quality), ''--nopreview'', ''--timeout'', ''1000'']"

text \<open>\<open>None\<close> when the argument vector could not be built.\<close>

definition build_argv :: "camera_cli_kind \<Rightarrow> nat \<Rightarrow> nat \<Rightarrow> int \<Rightarrow> int \<Rightarrow> int \<Rightarrow> string \<Rightarrow> string list option" where
  "build_argv kind width height sensor_id video_index quality out_path =
     (if kind = CAMERA_CLI_JETSON_CSI then build_jetson_csi_argv CAMERA_ARG_BUF_SZ width height sensor_id quality out_path
      else if kind = CAMERA_CLI_USB_UVC then build_usb_argv CAMERA_ARG_BUF_SZ width height video_index out_path
      else Some (build_rpi_csi_argv width height quality out_path))"

text \<open>The polls of \<open>waitpid\<close>, every 20 ms.  The answer: the error, if any, and whether the child was killed.\<close>

function wait_child_timeout :: "(nat \<Rightarrow> wait_answer) \<Rightarrow> nat \<Rightarrow> string option \<times> bool" where
  "wait_child_timeout wait elapsed =
     (if elapsed < HARDWARE_CAMERA_SPAWN_TIMEOUT_MS then
        (case wait elapsed of
           Wait_Exit n \<Rightarrow> (if n \<noteq> 0 then Some HARDWARE_CAMERA_ERR_UNAVAILABLE else None, False)
         | Wait_Signal \<Rightarrow> (Some HARDWARE_CAMERA_ERR_UNAVAILABLE, False)
         | Wait_Error \<Rightarrow> (Some HARDWARE_CAMERA_ERR_UNAVAILABLE, False)
         | Wait_Nothing \<Rightarrow> wait_child_timeout wait (elapsed + 20))
      else (Some ''camera: capture timed out'', True))"
  by pat_completeness auto
termination by (relation "measure (\<lambda>(_, elapsed). HARDWARE_CAMERA_SPAWN_TIMEOUT_MS - elapsed)") auto

declare wait_child_timeout.simps [simp del]

definition default_spawn :: "cam_env \<Rightarrow> string list \<Rightarrow> fsys \<Rightarrow> string option \<times> fsys" where
  "default_spawn e argv fs =
     (if argv = [] \<or> \<not> ce_fork e then (Some HARDWARE_CAMERA_ERR_UNAVAILABLE, fs) else (fst (wait_child_timeout (ce_wait e) 0), ce_run e argv fs))"

definition make_temp_output :: "cam_env \<Rightarrow> nat \<Rightarrow> fsys \<Rightarrow> string option \<times> fsys" where
  "make_temp_output e pathsz fs =
     (case ce_mkstemp e of
        None \<Rightarrow> (None, fs)
      | Some name \<Rightarrow> if length name + 1 > pathsz then (None, fs(name := None)) else (Some name, fs(name \<mapsto> [])))"

definition output_jpeg_valid :: "fsys \<Rightarrow> string \<Rightarrow> bool" where
  "output_jpeg_valid fs path =
     (case fs path of None \<Rightarrow> False | Some b \<Rightarrow> length b \<ge> MIN_JPEG_BYTES \<and> take 2 b = [CHR 0xFF, CHR 0xD8])"

text \<open>The path, and whether it is a temporary file of this module.\<close>

definition prepare_capture_output_path ::
  "cam_env \<Rightarrow> string option \<Rightarrow> string option \<Rightarrow> nat \<Rightarrow> fsys \<Rightarrow> (string + (string \<times> bool)) \<times> fsys" where
  "prepare_capture_output_path e workspace output_path out_pathsz fs =
     (case nonempty output_path of
        Some p \<Rightarrow>
          if \<not> path_chars_safe p then (Inl ''camera: unsafe output path'', fs)
          else if \<not> path_inside_workspace (ce_os e) workspace p then (Inl ''camera: path outside workspace'', fs)
          else (Inr (buf_trunc out_pathsz p, False), fs)
      | None \<Rightarrow>
          (case make_temp_output e out_pathsz fs of
             (None, fs') \<Rightarrow> (Inl HARDWARE_CAMERA_ERR_UNAVAILABLE, fs')
           | (Some t, fs') \<Rightarrow> (Inr (t, True), fs')))"

definition unlink_if :: "bool \<Rightarrow> string \<Rightarrow> fsys \<Rightarrow> fsys" where
  "unlink_if auto_output path fs = (if auto_output then fs(path := None) else fs)"

definition build_argv_and_run ::
  "cam_env \<Rightarrow> camera_cli_kind \<Rightarrow> nat \<Rightarrow> nat \<Rightarrow> int \<Rightarrow> int \<Rightarrow> int \<Rightarrow> bool \<Rightarrow> string \<Rightarrow> nat \<Rightarrow> fsys \<Rightarrow> (string + string) \<times> fsys" where
  "build_argv_and_run e kind width height sensor_id video_index quality auto_output out_path result_pathsz fs =
     (case build_argv kind width height sensor_id video_index quality out_path of
        None \<Rightarrow> (Inl HARDWARE_CAMERA_ERR_UNAVAILABLE, fs)
      | Some argv \<Rightarrow>
          (case default_spawn e argv fs of
             (Some err, fs') \<Rightarrow> (Inl err, unlink_if auto_output out_path fs')
           | (None, fs') \<Rightarrow>
               if \<not> output_jpeg_valid fs' out_path then (Inl HARDWARE_CAMERA_ERR_UNAVAILABLE, unlink_if auto_output out_path fs')
               else (Inr (buf_trunc result_pathsz out_path), fs')))"

definition hardware_camera_capture ::
  "cam_env \<Rightarrow> bool \<Rightarrow> string option \<Rightarrow> board_id \<Rightarrow> string \<Rightarrow> string \<Rightarrow> int \<Rightarrow> int \<Rightarrow> int \<Rightarrow> string option \<Rightarrow> nat \<Rightarrow> fsys \<Rightarrow> (string + string) \<times> fsys" where
  "hardware_camera_capture e ready workspace board camera_type resolution quality sensor_id video_index output_path result_pathsz fs =
     (case validate_capture_inputs e ready board camera_type resolution quality sensor_id video_index result_pathsz of
        Inl err \<Rightarrow> (Inl err, fs)
      | Inr (width, height, kind) \<Rightarrow>
          (case prepare_capture_output_path e workspace output_path 256 fs of
             (Inl err, fs') \<Rightarrow> (Inl err, fs')
           | (Inr (out_path, auto_output), fs') \<Rightarrow>
               build_argv_and_run e kind width height sensor_id video_index quality auto_output out_path result_pathsz fs'))"

section \<open>Numbers fit their buffers\<close>

lemma resolution_bounds: "parse_resolution r = Inr (w, h) \<Longrightarrow> 0 < w \<and> w \<le> 4096 \<and> 0 < h \<and> h \<le> 4096"
  by (auto simp: parse_resolution_def split: if_splits option.splits list.splits prod.splits)

lemma validated:
  assumes "validate_capture_inputs e ready b ct r q sid vi n = Inr (w, h, kind)"
  shows "0 < w \<and> w \<le> 4096 \<and> 0 < h \<and> h \<le> 4096" "1 \<le> q \<and> q \<le> 100" "0 \<le> sid \<and> sid \<le> 3" "0 \<le> vi \<and> vi \<le> 99" "0 < n" "kind \<noteq> CAMERA_CLI_NONE" "ready"
  using assms resolution_bounds [of r w h] by (auto simp: validate_capture_inputs_def Let_def split: if_splits sum.splits)

lemma small_int_str: "0 \<le> i \<Longrightarrow> i < 1000 \<Longrightarrow> length (int_str i) \<le> 3"
  using length_nat_str [of "nat i" 2] by (simp add: int_str_def)

text \<open>Of validated inputs the vector is always built when the path leaves room for \<open>location=\<close>.\<close>

lemma argv_built:
  assumes "0 < w \<and> w \<le> 4096 \<and> 0 < h \<and> h \<le> 4096" "1 \<le> q \<and> q \<le> 100" "0 \<le> sid \<and> sid \<le> 3" "0 \<le> vi \<and> vi \<le> 99" "length p \<le> 54"
  shows "build_argv kind w h sid vi q p \<noteq> None"
proof -
  have l: "length (nat_str w) \<le> 4" "length (nat_str h) \<le> 4" using length_nat_str [of w 3] length_nat_str [of h 3] assms(1) by simp_all
  have i: "length (int_str q) \<le> 3" "length (int_str sid) \<le> 3" "length (int_str vi) \<le> 3" using small_int_str assms(2-4) by simp_all
  show ?thesis using l i assms(5)
    by (simp add: build_argv_def build_jetson_csi_argv_def build_usb_argv_def snprintf_checked_def CAMERA_ARG_BUF_SZ_def)
qed

section \<open>Where the picture is written\<close>

lemma captured:
  assumes "hardware_camera_capture e ready ws b ct r q sid vi (Some p) n fs = (Inr path, fs')" "p \<noteq> []"
  shows "path_chars_safe p \<and> path_inside_workspace (ce_os e) ws p \<and> output_jpeg_valid fs' (buf_trunc 256 p) \<and> path = buf_trunc n (buf_trunc 256 p)"
proof -
  obtain c cs where p: "p = c # cs" using assms(2) by (cases p) auto
  show ?thesis using assms(1)
    by (auto simp: hardware_camera_capture_def prepare_capture_output_path_def nonempty_def p build_argv_and_run_def
        split: if_splits sum.splits option.splits prod.splits)
qed

text \<open>A picture taken at a path the caller names is reported only if every byte of that path is a letter, a digit or one of four
punctuation characters, the path holds no two dots in a row, it lies inside the workspace when one is enforced, and the file at the path reported
is a JPEG; a path of at most 255 bytes is the one written, byte for byte.\<close>

theorem camera_output_confined:
  assumes "hardware_camera_capture e ready ws b ct r q sid vi (Some p) n fs = (Inr path, fs')" "p \<noteq> []" "length p < 256" "length p < n"
  shows "path = p \<and> list_all path_char_ok p \<and> strstr ''..'' p = None \<and> path_inside_workspace (ce_os e) ws p \<and> output_jpeg_valid fs' path"
  using captured [OF assms(1,2)] assms(3,4) by (simp add: buf_trunc_def path_chars_safe_def)

text \<open>A machine on which a long name inside the workspace has a prefix that is a link out of it.\<close>

definition long_path :: string where "long_path = ''/ws/'' @ replicate 252 CHR ''a''"
definition cut_path :: string where "cut_path = ''/ws/'' @ replicate 251 CHR ''a''"

definition camera_link_env :: cam_env where
  "camera_link_env =
     \<lparr>ce_os = \<lparr>os_realpath = (\<lambda>p. if p = ''/ws'' then Some ''/ws'' else if p = cut_path then Some ''/etc/x'' else None), os_access = (\<lambda>_. True),
        os_islnk = (\<lambda>p. p = cut_path), os_home = None, os_pwd = None, os_strdup = True\<rparr>,
      ce_executable = (\<lambda>_. True), ce_mkstemp = None, ce_fork = True, ce_wait = (\<lambda>_. Wait_Exit 0),
      ce_run = (\<lambda>argv fs. fs(argv ! 2 \<mapsto> [CHR 0xFF, CHR 0xD8]))\<rparr>"

theorem camera_output_confined_witness:
  "\<exists>fs'. hardware_camera_capture camera_link_env True (Some ''/ws'') BOARD_RPI_ZERO2W ''auto'' ''640x480'' 85 0 0 (Some ''/ws/a.jpg'') 512 (\<lambda>_. None) =
     (Inr ''/ws/a.jpg'', fs') \<and> list_all path_char_ok ''/ws/a.jpg''"
proof -
  have "fst (hardware_camera_capture camera_link_env True (Some ''/ws'') BOARD_RPI_ZERO2W ''auto'' ''640x480'' 85 0 0 (Some ''/ws/a.jpg'') 512 (\<lambda>_. None)) = Inr ''/ws/a.jpg''"
    by code_simp
  then obtain fs' where h: "hardware_camera_capture camera_link_env True (Some ''/ws'') BOARD_RPI_ZERO2W ''auto'' ''640x480'' 85 0 0 (Some ''/ws/a.jpg'') 512 (\<lambda>_. None) =
     (Inr ''/ws/a.jpg'', fs')" by (metis prod.collapse)
  show ?thesis using h camera_output_confined [OF h] by simp
qed

lemma long_path_accepted: "path_inside_workspace (ce_os camera_link_env) (Some ''/ws'') long_path"
  by code_simp

lemma cut_path_outside: "\<not> path_inside_workspace (ce_os camera_link_env) (Some ''/ws'') cut_path"
  by code_simp

lemma long_path_safe: "path_chars_safe long_path"
  by code_simp

lemma long_path_cut: "buf_trunc 256 long_path = cut_path" "buf_trunc 512 cut_path = cut_path"
  by (simp_all add: buf_trunc_def long_path_def cut_path_def take_Cons' min_def)

lemma default_spawn_link: "default_spawn camera_link_env (x # xs) fs = (None, fs((x # xs) ! 2 \<mapsto> [CHR 0xFF, CHR 0xD8]))"
  by (simp add: default_spawn_def camera_link_env_def wait_child_timeout.simps [of _ 0] HARDWARE_CAMERA_SPAWN_TIMEOUT_MS_def)

text \<open>A path of 256 bytes is checked as a whole and written cut to 255, here through the link.\<close>

lemma long_path_leaves_workspace:
  "fst (hardware_camera_capture camera_link_env True (Some ''/ws'') BOARD_RPI_ZERO2W ''auto'' ''640x480'' 85 0 0 (Some long_path) 512 fs) = Inr cut_path \<and>
   path_inside_workspace (ce_os camera_link_env) (Some ''/ws'') long_path \<and> \<not> path_inside_workspace (ce_os camera_link_env) (Some ''/ws'') cut_path"
proof -
  have v: "validate_capture_inputs camera_link_env True BOARD_RPI_ZERO2W ''auto'' ''640x480'' 85 0 0 512 = Inr (640, 480, CAMERA_CLI_RPI_CSI)" by code_simp
  have p: "prepare_capture_output_path camera_link_env (Some ''/ws'') (Some long_path) 256 fs = (Inr (cut_path, False), fs)"
    using long_path_accepted long_path_safe
    by (simp add: prepare_capture_output_path_def long_path_cut(1) nonempty_def path_chars_safe_def split: list.split)
  have "fst (build_argv_and_run camera_link_env CAMERA_CLI_RPI_CSI 640 480 0 0 85 False cut_path 512 fs) = Inr cut_path"
    by (simp add: build_argv_and_run_def build_argv_def build_rpi_csi_argv_def default_spawn_link output_jpeg_valid_def MIN_JPEG_BYTES_def long_path_cut(2))
  then show ?thesis using v p long_path_accepted cut_path_outside by (simp add: hardware_camera_capture_def)
qed

section \<open>Temporary files\<close>

lemma run_unlinks:
  assumes "build_argv_and_run e kind w h sid vi q True t n fs = (Inl err, fs')" "build_argv kind w h sid vi q t \<noteq> None"
  shows "fs' t = None"
  using assms by (auto simp: build_argv_and_run_def unlink_if_def split: option.splits prod.splits if_splits)

text \<open>A capture into a temporary file that fails leaves no temporary file: \<open>mkstemp\<close> fills in a template of 25 bytes.\<close>

theorem failed_capture_leaves_no_temp:
  assumes "hardware_camera_capture e ready ws b ct r q sid vi None n fs = (Inl err, fs')" "ce_mkstemp e = Some t" "length t = 25"
  shows "fs' = fs \<or> fs' t = None"
proof (cases "validate_capture_inputs e ready b ct r q sid vi n")
  case (Inl x)
  then show ?thesis using assms(1) by (simp add: hardware_camera_capture_def)
next
  case (Inr x)
  obtain w h kind where x: "x = (w, h, kind)" by (metis surj_pair)
  note v = validated [OF Inr [unfolded x]]
  have "build_argv_and_run e kind w h sid vi q True t n (fs(t \<mapsto> [])) = (Inl err, fs')"
    using assms Inr x by (simp add: hardware_camera_capture_def prepare_capture_output_path_def nonempty_def make_temp_output_def)
  moreover have "build_argv kind w h sid vi q t \<noteq> None" by (rule argv_built) (use v assms(3) in simp_all)
  ultimately have "fs' t = None" by (rule run_unlinks)
  then show ?thesis ..
qed

text \<open>The wait ends after at most 750 polls; a child that has not ended by then is killed.\<close>

theorem wait_killed_only_after_timeout:
  "(wait_child_timeout wait elapsed = (r, True)) \<longleftrightarrow>
     r = Some ''camera: capture timed out'' \<and> (\<forall>k. elapsed + 20 * k < HARDWARE_CAMERA_SPAWN_TIMEOUT_MS \<longrightarrow> wait (elapsed + 20 * k) = Wait_Nothing)"
proof (induction wait elapsed rule: wait_child_timeout.induct)
  case (1 wait elapsed)
  show ?case
  proof (cases "elapsed < HARDWARE_CAMERA_SPAWN_TIMEOUT_MS \<and> wait elapsed = Wait_Nothing")
    case True
    have "(\<forall>k. elapsed + 20 * k < HARDWARE_CAMERA_SPAWN_TIMEOUT_MS \<longrightarrow> wait (elapsed + 20 * k) = Wait_Nothing) \<longleftrightarrow>
       (\<forall>k. elapsed + 20 + 20 * k < HARDWARE_CAMERA_SPAWN_TIMEOUT_MS \<longrightarrow> wait (elapsed + 20 + 20 * k) = Wait_Nothing)"
      (is "(\<forall>k. ?P k) \<longleftrightarrow> (\<forall>k. ?Q k)")
    proof -
      have "?Q k = ?P (Suc k)" for k by (simp add: algebra_simps)
      moreover have "?P 0" using True by simp
      ultimately show ?thesis by (metis not0_implies_Suc)
    qed
    then show ?thesis using 1 True by (simp add: wait_child_timeout.simps [of wait elapsed])
  next
    case False
    show ?thesis
    proof (cases "elapsed < HARDWARE_CAMERA_SPAWN_TIMEOUT_MS")
      case True
      then have "\<not> (\<forall>k. elapsed + 20 * k < HARDWARE_CAMERA_SPAWN_TIMEOUT_MS \<longrightarrow> wait (elapsed + 20 * k) = Wait_Nothing)"
        using False by (auto intro!: exI [of _ 0])
      then show ?thesis using True False by (auto simp: wait_child_timeout.simps [of wait elapsed] split: wait_answer.splits)
    next
      case False
      then show ?thesis by (auto simp: wait_child_timeout.simps [of wait elapsed])
    qed
  qed
qed

end
