(* ===== verification/Hardware_Tools.thy ===== *)
theory Hardware_Tools
  imports Hardware I2c Camera
begin

text \<open>
  The tools through which the model reaches the hardware (\<open>src/tools/hardware_tools.c\<close>, \<open>hardware_tools_gpio.c\<close>, \<open>hardware_tools_i2c.c\<close>,
  \<open>hardware_tools_helpers.c\<close>).  A tool returns its code and what it leaves in the result buffer of \<open>max_len\<close> bytes.  JSON text and
  the conversion of numbers are arguments, as in the other theories.
\<close>

section \<open>Definitions\<close>

subsection \<open>Helpers\<close>

text \<open>What the tools read of their surroundings: the parser and printer, \<open>valueint\<close> of a number, and the number of an integer.\<close>

record hw_tool_env =
  ht_parse :: "string \<Rightarrow> cjson option"
  ht_print :: "cjson \<Rightarrow> string option"
  ht_valueint :: "64 word \<Rightarrow> int"
  ht_number :: "nat \<Rightarrow> 64 word"

definition HW_ERR_DISABLED :: string where "HW_ERR_DISABLED = ''{\"error\":\"hardware disabled in config\"}''"
definition HW_ERR_GPIO :: string where "HW_ERR_GPIO = ''{\"error\":\"GPIO not available (libgpiod or pin table missing)\"}''"
definition HW_ERR_I2C :: string where "HW_ERR_I2C = ''{\"error\":\"I2C backend not initialized\"}''"
definition HW_ERR_CAMERA :: string where "HW_ERR_CAMERA = ''{\"error\":\"camera backend not initialized\"}''"

definition hw_tools_enabled :: "config option \<Rightarrow> bool" where
  "hw_tools_enabled cfg = (case cfg of None \<Rightarrow> False | Some c \<Rightarrow> hardware_enabled (c_hardware c))"

definition quoted_error :: "string \<Rightarrow> string" where
  "quoted_error msg = ''{\"error\":\"'' @ msg @ ''\"}''"

definition hw_tools_parse_root :: "hw_tool_env \<Rightarrow> string \<Rightarrow> string + cjson" where
  "hw_tools_parse_root t args_json =
     (case ht_parse t args_json of
        None \<Rightarrow> Inl (quoted_error ''invalid JSON'')
      | Some root \<Rightarrow> if cJSON_IsObject root then Inr root else Inl (quoted_error ''invalid JSON''))"

definition hw_tools_require_int :: "hw_tool_env \<Rightarrow> cjson \<Rightarrow> string \<Rightarrow> string + int" where
  "hw_tools_require_int t root key =
     (case number_of (cJSON_GetObjectItem root key) of
        None \<Rightarrow> Inl (quoted_error (''missing or invalid '' @ key))
      | Some d \<Rightarrow> Inr (ht_valueint t d))"

definition hw_tools_json_error :: "hw_tool_env \<Rightarrow> string \<Rightarrow> string" where
  "hw_tools_json_error t msg = (case ht_print t (CObject [(''error'', CString msg)]) of Some p \<Rightarrow> p | None \<Rightarrow> quoted_error ''internal error'')"

text \<open>The loop over the array, with the bytes taken so far.\<close>

fun byte_items :: "hw_tool_env \<Rightarrow> string \<Rightarrow> nat \<Rightarrow> cjson list \<Rightarrow> 8 word list \<Rightarrow> string + 8 word list" where
  "byte_items t key max_len [] acc = Inr acc"
| "byte_items t key max_len (item # items) acc =
     (case number_of (Some item) of
        None \<Rightarrow> Inl (quoted_error (''invalid byte in '' @ key))
      | Some d \<Rightarrow>
          let v = ht_valueint t d in
          if v < 0 \<or> v > 255 then Inl (quoted_error (''invalid byte in '' @ key))
          else if length acc \<ge> max_len then Inl (quoted_error (key @ '' too long''))
          else byte_items t key max_len items (acc @ [word_of_int v]))"

definition hw_tools_parse_byte_array :: "hw_tool_env \<Rightarrow> cjson \<Rightarrow> string \<Rightarrow> nat \<Rightarrow> string + 8 word list" where
  "hw_tools_parse_byte_array t root key max_len =
     (case cJSON_GetObjectItem root key of
        Some arr \<Rightarrow>
          if \<not> cJSON_IsArray arr then Inl (quoted_error (''missing or invalid '' @ key))
          else (case byte_items t key max_len (array_items arr) [] of
                  Inl err \<Rightarrow> Inl err
                | Inr bs \<Rightarrow> if bs = [] then Inl (quoted_error (key @ '' must not be empty'')) else Inr bs)
      | None \<Rightarrow> Inl (quoted_error (''missing or invalid '' @ key)))"

definition hw_tools_validate_gpio_pin :: "int \<Rightarrow> string option" where
  "hw_tools_validate_gpio_pin pin = (if pin < 1 \<or> pin > 40 then Some (quoted_error ''pin must be 1-40'') else None)"

definition hw_tools_validate_i2c_addr :: "int \<Rightarrow> string option" where
  "hw_tools_validate_i2c_addr addr = (if addr < 0x03 \<or> addr > 0x77 then Some (quoted_error ''addr must be 0x03-0x77'') else None)"

definition hw_tools_resolve_i2c_bus :: "hw_tool_env \<Rightarrow> config option \<Rightarrow> board_id \<Rightarrow> cjson \<Rightarrow> string + int" where
  "hw_tools_resolve_i2c_bus t cfg board root =
     (case cJSON_GetObjectItem root ''bus'' of
        None \<Rightarrow> Inr (hardware_resolve_i2c_bus cfg board)
      | Some item \<Rightarrow>
          (case number_of (Some item) of
             None \<Rightarrow> Inl (quoted_error ''missing or invalid bus'')
           | Some d \<Rightarrow> if ht_valueint t d < 0 \<or> ht_valueint t d > 255 then Inl (quoted_error ''bus must be 0-255'') else Inr (ht_valueint t d)))"

definition hw_tools_gpio_ready :: "'w hw_state \<Rightarrow> bool" where
  "hw_tools_gpio_ready s \<longleftrightarrow> hs_gpio_backend s = HARDWARE_GPIO_BACKEND_LIBGPIOD \<and> gs_ready (hs_gpio s)"

subsection \<open>GPIO\<close>

text \<open>\<open>refused\<close>: the code and text of a tool that stops.\<close>

definition refused :: "nat \<Rightarrow> string \<Rightarrow> int \<times> string" where
  "refused max_len msg = (- 1, buf_trunc max_len msg)"

definition answered :: "nat \<Rightarrow> string \<Rightarrow> int \<times> string" where
  "answered max_len msg = (0, buf_trunc max_len msg)"

definition backend_error :: "hw_tool_env \<Rightarrow> nat \<Rightarrow> string \<Rightarrow> int \<times> string" where
  "backend_error t max_len err = refused max_len (hw_tools_json_error t (buf_trunc 256 err))"

definition gpio_read_args :: "hw_tool_env \<Rightarrow> config option \<Rightarrow> 'w hw_state \<Rightarrow> string \<Rightarrow> string + int" where
  "gpio_read_args t cfg s args_json =
     (if \<not> hw_tools_enabled cfg then Inl HW_ERR_DISABLED
      else case hw_tools_parse_root t args_json of
        Inl err \<Rightarrow> Inl err
      | Inr root \<Rightarrow>
          (case hw_tools_require_int t root ''pin'' of
             Inl err \<Rightarrow> Inl err
           | Inr pin \<Rightarrow>
               (case hw_tools_validate_gpio_pin pin of
                  Some err \<Rightarrow> Inl err
                | None \<Rightarrow> if \<not> hw_tools_gpio_ready s then Inl HW_ERR_GPIO else Inr pin)))"

definition gpio_read_exec ::
  "hw_tool_env \<Rightarrow> 'w gpio_env \<Rightarrow> config option \<Rightarrow> string \<Rightarrow> nat \<Rightarrow> 'w hw_state \<Rightarrow> (int \<times> string) \<times> 'w hw_state" where
  "gpio_read_exec t e cfg args_json max_len s =
     (case gpio_read_args t cfg s args_json of
        Inl err \<Rightarrow> (refused max_len err, s)
      | Inr pin \<Rightarrow>
          let (r, g) = hardware_gpio_read e pin (hs_gpio s) in
          (case r of
             Inl err \<Rightarrow> backend_error t max_len err
           | Inr v \<Rightarrow> answered max_len (''{\"pin\":'' @ int_str pin @ '',\"value\":'' @ int_str v @ ''}''), s\<lparr>hs_gpio := g\<rparr>))"

definition gpio_write_args :: "hw_tool_env \<Rightarrow> config option \<Rightarrow> 'w hw_state \<Rightarrow> string \<Rightarrow> string + (int \<times> int)" where
  "gpio_write_args t cfg s args_json =
     (if \<not> hw_tools_enabled cfg then Inl HW_ERR_DISABLED
      else case hw_tools_parse_root t args_json of
        Inl err \<Rightarrow> Inl err
      | Inr root \<Rightarrow>
          (case hw_tools_require_int t root ''pin'' of
             Inl err \<Rightarrow> Inl err
           | Inr pin \<Rightarrow>
               (case hw_tools_require_int t root ''value'' of
                  Inl err \<Rightarrow> Inl err
                | Inr v \<Rightarrow>
                    (case hw_tools_validate_gpio_pin pin of
                       Some err \<Rightarrow> Inl err
                     | None \<Rightarrow>
                         if v \<noteq> 0 \<and> v \<noteq> 1 then Inl (quoted_error (''value must be 0 or 1 (got '' @ int_str v @ '')''))
                         else if \<not> hw_tools_gpio_ready s then Inl HW_ERR_GPIO
                         else Inr (pin, v)))))"

definition gpio_write_exec ::
  "hw_tool_env \<Rightarrow> 'w gpio_env \<Rightarrow> config option \<Rightarrow> string \<Rightarrow> nat \<Rightarrow> 'w hw_state \<Rightarrow> (int \<times> string) \<times> 'w hw_state" where
  "gpio_write_exec t e cfg args_json max_len s =
     (case gpio_write_args t cfg s args_json of
        Inl err \<Rightarrow> (refused max_len err, s)
      | Inr (pin, v) \<Rightarrow>
          let (r, g) = hardware_gpio_write e pin (v \<noteq> 0) (hs_gpio s) in
          (case r of
             Some err \<Rightarrow> backend_error t max_len err
           | None \<Rightarrow> answered max_len (''{\"pin\":'' @ int_str pin @ '',\"value\":'' @ int_str (if v \<noteq> 0 then 1 else 0) @ ''}''), s\<lparr>hs_gpio := g\<rparr>))"

definition gpio_mode_parse_args :: "hw_tool_env \<Rightarrow> string \<Rightarrow> nat \<Rightarrow> string + (int \<times> string)" where
  "gpio_mode_parse_args t args_json mode_buf_sz =
     (case hw_tools_parse_root t args_json of
        Inl err \<Rightarrow> Inl err
      | Inr root \<Rightarrow>
          (case hw_tools_require_int t root ''pin'' of
             Inl err \<Rightarrow> Inl err
           | Inr pin \<Rightarrow>
               (case nonempty (string_of (cJSON_GetObjectItem root ''mode'')) of
                  None \<Rightarrow> Inl (quoted_error ''missing or invalid mode'')
                | Some mode \<Rightarrow>
                    if mode \<noteq> ''input'' \<and> mode \<noteq> ''output'' then Inl (quoted_error ''mode must be input or output'')
                    else Inr (pin, buf_trunc mode_buf_sz mode))))"

definition gpio_mode_args :: "hw_tool_env \<Rightarrow> config option \<Rightarrow> 'w hw_state \<Rightarrow> string \<Rightarrow> string + (int \<times> string)" where
  "gpio_mode_args t cfg s args_json =
     (if \<not> hw_tools_enabled cfg then Inl HW_ERR_DISABLED
      else case gpio_mode_parse_args t args_json 8 of
        Inl err \<Rightarrow> Inl err
      | Inr (pin, mode) \<Rightarrow>
          (case hw_tools_validate_gpio_pin pin of
             Some err \<Rightarrow> Inl err
           | None \<Rightarrow> if \<not> hw_tools_gpio_ready s then Inl HW_ERR_GPIO else Inr (pin, mode)))"

definition gpio_mode_exec ::
  "hw_tool_env \<Rightarrow> 'w gpio_env \<Rightarrow> config option \<Rightarrow> string \<Rightarrow> nat \<Rightarrow> 'w hw_state \<Rightarrow> (int \<times> string) \<times> 'w hw_state" where
  "gpio_mode_exec t e cfg args_json max_len s =
     (case gpio_mode_args t cfg s args_json of
        Inl err \<Rightarrow> (refused max_len err, s)
      | Inr (pin, mode) \<Rightarrow>
          let (r, g) = hardware_gpio_mode e pin mode (hs_gpio s) in
          (case r of
             Some err \<Rightarrow> backend_error t max_len err
           | None \<Rightarrow> answered max_len (''{\"pin\":'' @ int_str pin @ '',\"mode\":\"'' @ mode @ ''\"}''), s\<lparr>hs_gpio := g\<rparr>))"

subsection \<open>I2C\<close>

definition i2c_ready :: "'w hw_state \<Rightarrow> bool" where
  "i2c_ready s \<longleftrightarrow> hs_i2c_active s \<and> hs_i2c_ready s"

text \<open>The bus, the address and the register of a transfer; the address is checked only after the remaining argument has been read.\<close>

definition i2c_args :: "hw_tool_env \<Rightarrow> config option \<Rightarrow> 'w hw_state \<Rightarrow> (cjson \<Rightarrow> string + 'a) \<Rightarrow> string \<Rightarrow> string + (int \<times> int \<times> int \<times> 'a)" where
  "i2c_args t cfg s rest args_json =
     (if \<not> hw_tools_enabled cfg then Inl HW_ERR_DISABLED
      else if \<not> i2c_ready s then Inl HW_ERR_I2C
      else case hw_tools_parse_root t args_json of
        Inl err \<Rightarrow> Inl err
      | Inr root \<Rightarrow>
          (case hw_tools_resolve_i2c_bus t cfg (hs_board s) root of
             Inl err \<Rightarrow> Inl err
           | Inr bus \<Rightarrow>
               (case hw_tools_require_int t root ''addr'' of
                  Inl err \<Rightarrow> Inl err
                | Inr addr \<Rightarrow>
                    (case hw_tools_require_int t root ''reg'' of
                       Inl err \<Rightarrow> Inl err
                     | Inr reg \<Rightarrow>
                         (case rest root of
                            Inl err \<Rightarrow> Inl err
                          | Inr x \<Rightarrow> (case hw_tools_validate_i2c_addr addr of Some err \<Rightarrow> Inl err | None \<Rightarrow> Inr (bus, addr, reg, x)))))))"

definition byte_array_text :: "hw_tool_env \<Rightarrow> string \<Rightarrow> 8 word list \<Rightarrow> string" where
  "byte_array_text t key bs =
     (case ht_print t (CObject [(key, CArray (map (\<lambda>b. CNumber (ht_number t (unat b))) bs))]) of
        Some p \<Rightarrow> p
      | None \<Rightarrow> quoted_error ''internal error'')"

definition i2c_read_exec ::
  "hw_tool_env \<Rightarrow> 'v i2c_env \<Rightarrow> config option \<Rightarrow> 'w hw_state \<Rightarrow> string \<Rightarrow> nat \<Rightarrow> 'v i2c_state \<Rightarrow> (int \<times> string) \<times> 'v i2c_state" where
  "i2c_read_exec t e cfg hw args_json max_len s =
     (case i2c_args t cfg hw (\<lambda>root. hw_tools_require_int t root ''len'') args_json of
        Inl err \<Rightarrow> (refused max_len err, s)
      | Inr (bus, addr, reg, len) \<Rightarrow>
          if len \<le> 0 \<or> len > 256 then (refused max_len (quoted_error ''len must be 1-256''), s)
          else let (r, s') = hardware_i2c_read e (hs_i2c_ready hw) bus (word_of_int addr) (word_of_int reg) (nat len) s in
            (case r of Inl err \<Rightarrow> backend_error t max_len err | Inr bs \<Rightarrow> answered max_len (byte_array_text t ''data'' bs), s'))"

definition i2c_write_exec ::
  "hw_tool_env \<Rightarrow> 'v i2c_env \<Rightarrow> config option \<Rightarrow> 'w hw_state \<Rightarrow> string \<Rightarrow> nat \<Rightarrow> 'v i2c_state \<Rightarrow> (int \<times> string) \<times> 'v i2c_state" where
  "i2c_write_exec t e cfg hw args_json max_len s =
     (case i2c_args t cfg hw (\<lambda>root. hw_tools_parse_byte_array t root ''data'' 256) args_json of
        Inl err \<Rightarrow> (refused max_len err, s)
      | Inr (bus, addr, reg, data) \<Rightarrow>
          let (r, s') = hardware_i2c_write e (hs_i2c_ready hw) bus (word_of_int addr) (word_of_int reg) data s in
          (case r of
             Some err \<Rightarrow> backend_error t max_len err
           | None \<Rightarrow> answered max_len (''{\"bus\":'' @ int_str bus @ '',\"addr\":'' @ int_str addr @ '',\"reg\":'' @ int_str reg @
                 '',\"bytes_written\":'' @ nat_str (length data) @ ''}''), s'))"

definition i2c_scan_exec ::
  "hw_tool_env \<Rightarrow> 'v i2c_env \<Rightarrow> config option \<Rightarrow> 'w hw_state \<Rightarrow> string \<Rightarrow> nat \<Rightarrow> 'v i2c_state \<Rightarrow> (int \<times> string) \<times> 'v i2c_state" where
  "i2c_scan_exec t e cfg hw args_json max_len s =
     (if \<not> hw_tools_enabled cfg then (refused max_len HW_ERR_DISABLED, s)
      else if \<not> i2c_ready hw then (refused max_len HW_ERR_I2C, s)
      else case (if args_json = [] then Inr (CObject []) else hw_tools_parse_root t args_json) of
        Inl err \<Rightarrow> (refused max_len err, s)
      | Inr root \<Rightarrow>
          (case hw_tools_resolve_i2c_bus t cfg (hs_board hw) root of
             Inl err \<Rightarrow> (refused max_len err, s)
           | Inr bus \<Rightarrow>
               let (r, s') = hardware_i2c_scan e (hs_i2c_ready hw) bus 128 s in
               (case r of Inl err \<Rightarrow> backend_error t max_len err | Inr found \<Rightarrow> answered max_len (byte_array_text t ''addresses'' found), s')))"

subsection \<open>Camera\<close>

definition camera_path_arg :: "hw_tool_env \<Rightarrow> string \<Rightarrow> string + string option" where
  "camera_path_arg t args_json =
     (if args_json = [] then Inr None
      else case hw_tools_parse_root t args_json of
        Inl err \<Rightarrow> Inl err
      | Inr root \<Rightarrow> Inr (map_option (buf_trunc PATH_MAX) (nonempty (string_of (cJSON_GetObjectItem root ''path'')))))"

definition camera_capture_exec ::
  "hw_tool_env \<Rightarrow> cam_env \<Rightarrow> config \<Rightarrow> 'w hw_state \<Rightarrow> string \<Rightarrow> nat \<Rightarrow> fsys \<Rightarrow> (int \<times> string) \<times> fsys" where
  "camera_capture_exec t e cfg hw args_json max_len fs =
     (if \<not> hw_tools_enabled (Some cfg) then (refused max_len HW_ERR_DISABLED, fs)
      else case camera_path_arg t args_json of
        Inl err \<Rightarrow> (refused max_len err, fs)
      | Inr output_path \<Rightarrow>
          if \<not> hardware_camera_output_allowed (ce_os e) (hs_workspace hw) output_path
          then (refused max_len (hw_tools_json_error t ''camera: path outside workspace''), fs)
          else if \<not> (hs_camera_active hw \<and> hs_camera_ready hw) then (refused max_len HW_ERR_CAMERA, fs)
          else let (r, fs') = hardware_camera_capture e (hs_camera_ready hw) (hs_workspace hw) (hs_board hw) (config_hardware_camera_type cfg)
                 (config_hardware_camera_resolution cfg) (config_hardware_camera_quality cfg) 0 0 output_path 512 fs in
            (case r of
               Inl err \<Rightarrow> backend_error t max_len err
             | Inr p \<Rightarrow> answered max_len (''{\"path\":\"'' @ p @ ''\"}''), fs'))"

definition tool_hardware_set_config :: "config option \<Rightarrow> 'w hw_state \<Rightarrow> 'w hw_state" where
  "tool_hardware_set_config cfg s =
     s\<lparr>hs_workspace :=
       (case cfg of
          Some c \<Rightarrow>
            if workspace_only (c_storage c) then hardware_camera_set_workspace (Some (case workspace_path (c_storage c) of Some ws \<Rightarrow> ws | None \<Rightarrow> []))
            else hardware_camera_set_workspace None
        | None \<Rightarrow> hardware_camera_set_workspace None)\<rparr>"

definition HARDWARE_TOOLS :: "string list" where
  "HARDWARE_TOOLS = [''gpio_read'', ''gpio_write'', ''gpio_mode'', ''i2c_read'', ''i2c_write'', ''i2c_scan'', ''camera_capture'']"

definition tool_hardware_get_all :: "config option \<Rightarrow> nat \<Rightarrow> string list" where
  "tool_hardware_get_all cfg max_count = (if \<not> hw_tools_enabled cfg then [] else take max_count HARDWARE_TOOLS)"

text \<open>\<open>src/tools/registry.c\<close>: the tools of the agent, and what a new configuration does to the hardware.\<close>

definition tool_get_all :: "config option \<Rightarrow> nat \<Rightarrow> string list" where
  "tool_get_all cfg max_count =
     (let base = take max_count [''shell'', ''web_search'', ''file'', ''cron'', ''get_context'', ''asap_invoke''] in
      base @ tool_hardware_get_all cfg (max_count - length base))"

definition tool_set_config :: "'w gpio_env \<Rightarrow> board_id \<Rightarrow> config option \<Rightarrow> 'w hw_state \<Rightarrow> 'w hw_state" where
  "tool_set_config e detected cfg s = tool_hardware_set_config cfg (hardware_init e detected cfg s)"

section \<open>Tools and back ends\<close>

lemma gpio_args_ok:
  "gpio_read_args t cfg s a = Inr pin \<Longrightarrow> hw_tools_enabled cfg \<and> 1 \<le> pin \<and> pin \<le> 40 \<and> hw_tools_gpio_ready s"
  "gpio_write_args t cfg s a = Inr (pin, v) \<Longrightarrow> hw_tools_enabled cfg \<and> 1 \<le> pin \<and> pin \<le> 40 \<and> (v = 0 \<or> v = 1) \<and> hw_tools_gpio_ready s"
  "gpio_mode_args t cfg s a = Inr (pin, m) \<Longrightarrow> hw_tools_enabled cfg \<and> 1 \<le> pin \<and> pin \<le> 40 \<and> hw_tools_gpio_ready s"
  by (auto simp: gpio_read_args_def gpio_write_args_def gpio_mode_args_def hw_tools_validate_gpio_pin_def split: if_splits sum.splits option.splits prod.splits)

text \<open>A GPIO tool leaves the hardware alone or makes one call of the back end, on a pin of the header and with the hardware enabled.\<close>

definition tool_step :: "'w gpio_env \<Rightarrow> config option \<Rightarrow> (int \<Rightarrow> hw_op) \<Rightarrow> 'w hw_state \<Rightarrow> 'w hw_state \<Rightarrow> bool" where
  "tool_step e cfg op s s' \<longleftrightarrow>
     s' = s \<or> hw_tools_enabled cfg \<and> hw_tools_gpio_ready s \<and> (\<exists>pin \<in> {1..40}. \<forall>num d. s' = hw_step e num d (op pin) s)"

lemma gpio_read_step: "tool_step e cfg Op_Read s (snd (gpio_read_exec t e cfg a n s))"
proof (cases "gpio_read_args t cfg s a")
  case (Inr pin)
  then show ?thesis using gpio_args_ok(1) [OF Inr]
    by (auto simp: tool_step_def gpio_read_exec_def case_prod_beta Let_def intro!: bexI [of _ pin])
qed (simp add: tool_step_def gpio_read_exec_def)

lemma gpio_write_step: "\<exists>v. tool_step e cfg (\<lambda>pin. Op_Write pin v) s (snd (gpio_write_exec t e cfg a n s))"
proof (cases "gpio_write_args t cfg s a")
  case (Inr x)
  obtain pin v where x: "x = (pin, v)" by (metis surj_pair)
  show ?thesis using gpio_args_ok(2) [OF Inr [unfolded x]] Inr x
    by (auto simp: tool_step_def gpio_write_exec_def case_prod_beta Let_def intro!: exI [of _ "v \<noteq> 0"] bexI [of _ pin])
qed (simp add: tool_step_def gpio_write_exec_def)

lemma gpio_mode_step: "\<exists>m. tool_step e cfg (\<lambda>pin. Op_Mode pin m) s (snd (gpio_mode_exec t e cfg a n s))"
proof (cases "gpio_mode_args t cfg s a")
  case (Inr x)
  obtain pin m where x: "x = (pin, m)" by (metis surj_pair)
  show ?thesis using gpio_args_ok(3) [OF Inr [unfolded x]] Inr x
    by (auto simp: tool_step_def gpio_mode_exec_def case_prod_beta Let_def intro!: exI [of _ m] bexI [of _ pin])
qed (simp add: tool_step_def gpio_mode_exec_def)

text \<open>So a tool call keeps the invariant of the lines.\<close>

lemma tool_step_inv:
  assumes "tool_step e cfg op s s'" "hw_inv s"
  shows "hw_inv s'"
proof (cases "s' = s")
  case False
  then obtain pin where "s' = hw_step e (\<lambda>_. 0) BOARD_STUB (op pin) s" using assms(1) unfolding tool_step_def by blast
  then show ?thesis using hw_step_ok [OF assms(2)] by simp
qed (simp add: assms(2))

theorem gpio_tools_keep_lines:
  assumes "hw_inv s"
  shows "hw_inv (snd (gpio_read_exec t e cfg a n s)) \<and> hw_inv (snd (gpio_write_exec t e cfg a n s)) \<and> hw_inv (snd (gpio_mode_exec t e cfg a n s))"
proof (intro conjI)
  show "hw_inv (snd (gpio_read_exec t e cfg a n s))" by (rule tool_step_inv [OF gpio_read_step assms])
  obtain v where "tool_step e cfg (\<lambda>pin. Op_Write pin v) s (snd (gpio_write_exec t e cfg a n s))" using gpio_write_step by blast
  then show "hw_inv (snd (gpio_write_exec t e cfg a n s))" by (rule tool_step_inv [OF _ assms])
  obtain m where "tool_step e cfg (\<lambda>pin. Op_Mode pin m) s (snd (gpio_mode_exec t e cfg a n s))" using gpio_mode_step by blast
  then show "hw_inv (snd (gpio_mode_exec t e cfg a n s))" by (rule tool_step_inv [OF _ assms])
qed

section \<open>I2C\<close>

lemma unchanged_session: "one_session s s"
  by (simp add: one_session_def)

lemma i2c_read_tool_session: "one_session s (snd (i2c_read_exec t e cfg hw a n s))"
  by (auto simp: i2c_read_exec_def unchanged_session case_prod_beta Let_def intro: i2c_reads.session split: sum.split)

lemma i2c_write_tool_session: "one_session s (snd (i2c_write_exec t e cfg hw a n s))"
  by (auto simp: i2c_write_exec_def unchanged_session case_prod_beta Let_def intro: i2c_writes.session split: sum.split)

lemma i2c_scan_tool_session: "one_session s (snd (i2c_scan_exec t e cfg hw a n s))"
  by (auto simp: i2c_scan_exec_def unchanged_session case_prod_beta Let_def intro: i2c_scans.session split: sum.split)

interpretation i2c_read_tool: bus_operation "i2c_read_exec t e cfg hw a n" for t e cfg hw a n
  by unfold_locales (rule i2c_read_tool_session)

interpretation i2c_write_tool: bus_operation "i2c_write_exec t e cfg hw a n" for t e cfg hw a n
  by unfold_locales (rule i2c_write_tool_session)

interpretation i2c_scan_tool: bus_operation "i2c_scan_exec t e cfg hw a n" for t e cfg hw a n
  by unfold_locales (rule i2c_scan_tool_session)

text \<open>The calls the model makes, in any order.\<close>

datatype i2c_tool = I2c_Read_Tool string | I2c_Write_Tool string | I2c_Scan_Tool string

fun i2c_tool_call :: "hw_tool_env \<Rightarrow> 'v i2c_env \<Rightarrow> config option \<Rightarrow> 'w hw_state \<Rightarrow> nat \<Rightarrow> i2c_tool \<Rightarrow> 'v i2c_state \<Rightarrow> 'v i2c_state" where
  "i2c_tool_call t e cfg hw n (I2c_Read_Tool a) s = snd (i2c_read_exec t e cfg hw a n s)"
| "i2c_tool_call t e cfg hw n (I2c_Write_Tool a) s = snd (i2c_write_exec t e cfg hw a n s)"
| "i2c_tool_call t e cfg hw n (I2c_Scan_Tool a) s = snd (i2c_scan_exec t e cfg hw a n s)"

lemma tool_calls_keep_open: "open_buses (fold (i2c_tool_call t e cfg hw n) calls s) = open_buses s"
proof (induction calls arbitrary: s)
  case (Cons c calls)
  have "open_buses (i2c_tool_call t e cfg hw n c s) = open_buses s"
    by (cases c) (simp_all add: i2c_read_tool.keeps_open i2c_write_tool.keeps_open i2c_scan_tool.keeps_open)
  then show ?case using Cons.IH by simp
qed simp

text \<open>(C40) Whatever the model passes to the three I2C tools, in whatever order it calls them, and whatever the kernel answers, a call makes
no system call at all or opens one bus descriptor, selects on it only slave addresses between 0x03 and 0x77, moves between one byte and the
register plus 256 bytes at a time on that descriptor alone, and closes it as its last call; after any number of calls as many descriptors are
open as before, error paths included.\<close>

theorem i2c_tools_one_session:
  "one_session (fold (i2c_tool_call t e cfg hw n) calls s) (i2c_tool_call t e cfg hw n c (fold (i2c_tool_call t e cfg hw n) calls s)) \<and>
   open_buses (fold (i2c_tool_call t e cfg hw n) calls s) = open_buses s"
proof
  show "one_session (fold (i2c_tool_call t e cfg hw n) calls s) (i2c_tool_call t e cfg hw n c (fold (i2c_tool_call t e cfg hw n) calls s))"
    by (cases c) (simp_all add: i2c_read_tool_session i2c_write_tool_session i2c_scan_tool_session)
  show "open_buses (fold (i2c_tool_call t e cfg hw n) calls s) = open_buses s" by (rule tool_calls_keep_open)
qed

text \<open>The bytes of a JSON array, one for one.\<close>

lemma byte_items_values:
  "byte_items t key m items acc = Inr bs \<Longrightarrow> length acc \<le> m \<Longrightarrow>
   length bs \<le> m \<and> bs = acc @ map (\<lambda>j. word_of_int (case j of CNumber d \<Rightarrow> ht_valueint t d | _ \<Rightarrow> 0)) items"
proof (induction items arbitrary: acc)
  case (Cons j items)
  obtain d where j: "j = CNumber d" using Cons.prems(1) by (cases j) auto
  show ?case using Cons.prems Cons.IH [of "acc @ [word_of_int (ht_valueint t d)]"] by (auto simp: j Let_def split: if_splits)
qed simp

text \<open>The register is not checked: 256 is written to register 0 and reported as register 256.\<close>

lemma register_wraps:
  assumes "i2c_args t cfg hw (\<lambda>root. hw_tools_parse_byte_array t root ''data'' 256) a = Inr (bus, addr, 256, data)"
    "fst (i2c_write_exec t e cfg hw a n s) = (0, msg)"
  shows "msg = buf_trunc n (''{\"bus\":'' @ int_str bus @ '',\"addr\":'' @ int_str addr @ '',\"reg\":'' @ int_str 256 @ '',\"bytes_written\":'' @ nat_str (length data) @ ''}'')"
    "\<exists>fd. is_log (snd (i2c_write_exec t e cfg hw a n s)) =
       Bus_Closed fd # Bytes_Written fd (0 # data) # Slave_Set fd (word_of_int addr) # Bus_Opened fd # is_log s"
proof -
  obtain r s' where w: "hardware_i2c_write e (hs_i2c_ready hw) bus (word_of_int addr) 0 data s = (r, s')" by (metis surj_pair)
  have z: "(word_of_int 256 :: 8 word) = 0" by simp
  have x: "i2c_write_exec t e cfg hw a n s =
      (case r of
         Some err \<Rightarrow> backend_error t n err
       | None \<Rightarrow> answered n (''{\"bus\":'' @ int_str bus @ '',\"addr\":'' @ int_str addr @ '',\"reg\":'' @ int_str 256 @ '',\"bytes_written\":'' @ nat_str (length data) @ ''}''), s')"
    unfolding i2c_write_exec_def assms(1) sum.case prod.case z w Let_def ..
  have r: "r = None" using assms(2) x by (cases r) (simp_all add: backend_error_def refused_def)
  show "msg = buf_trunc n (''{\"bus\":'' @ int_str bus @ '',\"addr\":'' @ int_str addr @ '',\"reg\":'' @ int_str 256 @ '',\"bytes_written\":'' @ nat_str (length data) @ ''}'')"
    using assms(2) unfolding x r option.case fst_conv answered_def by blast
  show "\<exists>fd. is_log (snd (i2c_write_exec t e cfg hw a n s)) =
       Bus_Closed fd # Bytes_Written fd (0 # data) # Slave_Set fd (word_of_int addr) # Bus_Opened fd # is_log s"
    using write_succeeds [OF w [unfolded r]] unfolding x by simp
qed

section \<open>A new configuration\<close>

text \<open>After a reload the camera is confined exactly when the configuration asks for it, to the configured directory, and no line is open.\<close>

lemma reload_confines_camera:
  assumes "hw_inv s"
  shows "hs_workspace (tool_set_config e d (Some c) s) = (if workspace_only (c_storage c) then Some (buf_trunc PATH_MAX (case workspace_path (c_storage c) of Some ws \<Rightarrow> ws | None \<Rightarrow> [])) else None)"
    "open_lines (hs_gpio (tool_set_config e d cfg s)) = 0" "hw_inv (tool_set_config e d cfg s)"
  using init_inv(1,2) [OF assms] by (simp_all add: tool_set_config_def tool_hardware_set_config_def hardware_camera_set_workspace_def)

text \<open>The thirteen tools fit the table of sixteen, so a reload never loses one.\<close>

lemma all_tools_fit: "length (tool_get_all cfg 16) = (if hw_tools_enabled cfg then 13 else 6)"
  by (simp add: tool_get_all_def tool_hardware_get_all_def HARDWARE_TOOLS_def)

end
