(* ===== verification/Tegrastats.thy ===== *)
theory Tegrastats
  imports Channels Cjson Scanf
begin

text \<open>
  The GPU figures of the dashboard (\<open>src/hardware/hardware_tegrastats.c\<close>): one line of \<open>tegrastats\<close> parsed with \<open>sscanf\<close>, the power mode
  of \<open>nvpmodel\<close> and whether \<open>llama-server\<close> runs.  What a program started with \<open>popen\<close> prints and whether it ends well are arguments, as is
  the reading of a floating-point number.
\<close>

section \<open>Definitions\<close>

text \<open>\<open>None\<close>: \<open>popen\<close> fails; otherwise the output, and whether \<open>pclose\<close> reports an exit with 0.\<close>

type_synonym pipe_result = "(string \<times> bool) option"

record tegra_env =
  tv_tegrastats :: pipe_result
  tv_nvpmodel :: pipe_result
  tv_pgrep :: pipe_result
  tv_float :: "string \<Rightarrow> (64 word \<times> string) option"
  tv_number :: "nat \<Rightarrow> 64 word"

record tegrastats_parsed =
  ram_used_mb :: nat
  ram_total_mb :: nat
  gpu_usage_percent :: nat
  gpu_freq_mhz :: nat
  gpu_temp_c :: "64 word option"

definition parse_ram :: "string \<Rightarrow> (nat \<times> nat) option" where
  "parse_ram line =
     (case strstr ''RAM '' line of
        None \<Rightarrow> None
      | Some p \<Rightarrow>
          (case Option.bind (scan_literal ''RAM '' p) scan_unsigned of
             None \<Rightarrow> None
           | Some (u, r) \<Rightarrow> (case Option.bind (scan_literal ''/'' r) scan_unsigned of None \<Rightarrow> None | Some (t, _) \<Rightarrow> Some (u, t))))"

text \<open>The two forms \<open>%u%%@[%u,%u]\<close> and \<open>%u%%@%u\<close>.\<close>

definition scan_usage :: "string \<Rightarrow> (nat \<times> string) option" where
  "scan_usage p =
     (case scan_unsigned p of
        None \<Rightarrow> None
      | Some (u, r) \<Rightarrow> (case Option.bind (scan_percent r) (scan_literal ''@'') of None \<Rightarrow> None | Some r' \<Rightarrow> Some (u, r')))"

definition scan_two_freqs :: "string \<Rightarrow> (nat \<times> nat) option" where
  "scan_two_freqs r =
     (case Option.bind (scan_literal ''['' r) scan_unsigned of
        None \<Rightarrow> None
      | Some (f1, r1) \<Rightarrow> (case Option.bind (scan_literal '','' r1) scan_unsigned of None \<Rightarrow> None | Some (f2, _) \<Rightarrow> Some (f1, f2)))"

definition parse_gr3d :: "string \<Rightarrow> (nat \<times> nat) option" where
  "parse_gr3d line =
     (case strstr ''GR3D_FREQ '' line of
        None \<Rightarrow> None
      | Some p \<Rightarrow>
          (case scan_usage (drop (length ''GR3D_FREQ '') p) of
             None \<Rightarrow> None
           | Some (u, r) \<Rightarrow>
               (case scan_two_freqs r of
                  Some (f1, f2) \<Rightarrow> Some (u, if f1 > f2 then f1 else f2)
                | None \<Rightarrow> (case scan_unsigned r of None \<Rightarrow> None | Some (f1, _) \<Rightarrow> Some (u, f1)))))"

definition parse_gpu_temp :: "(string \<Rightarrow> (64 word \<times> string) option) \<Rightarrow> string \<Rightarrow> 64 word option" where
  "parse_gpu_temp float line =
     (case (case strstr ''gpu@'' line of Some p \<Rightarrow> Some p | None \<Rightarrow> strstr ''GPU@'' line) of
        None \<Rightarrow> None
      | Some p \<Rightarrow>
          (case Option.bind (scan_literal ''gpu@'' p) float of
             Some (t, _) \<Rightarrow> Some t
           | None \<Rightarrow> map_option fst (Option.bind (scan_literal ''GPU@'' p) float)))"

definition hardware_tegrastats_parse_line :: "(string \<Rightarrow> (64 word \<times> string) option) \<Rightarrow> string \<Rightarrow> tegrastats_parsed option" where
  "hardware_tegrastats_parse_line float line =
     (case parse_ram line of
        None \<Rightarrow> None
      | Some (used, whole) \<Rightarrow>
          (case parse_gr3d line of
             None \<Rightarrow> None
           | Some (usage, freq) \<Rightarrow>
               Some \<lparr>ram_used_mb = used, ram_total_mb = whole, gpu_usage_percent = usage, gpu_freq_mhz = freq, gpu_temp_c = parse_gpu_temp float line\<rparr>))"

definition before_newline :: "string \<Rightarrow> string" where
  "before_newline s = takeWhile (\<lambda>c. c \<noteq> newline) s"

definition default_collect :: "pipe_result \<Rightarrow> nat \<Rightarrow> string + string" where
  "default_collect p linebufsz =
     (case p of
        None \<Rightarrow> Inl ''tegrastats: popen failed''
      | Some (out, ok) \<Rightarrow>
          (case fgets linebufsz out of
             None \<Rightarrow> Inl ''tegrastats: no output''
           | Some (line, _) \<Rightarrow>
               if \<not> ok then Inl ''tegrastats: command failed''
               else let l = before_newline (cstr line) in if l = [] then Inl ''tegrastats: empty line'' else Inr l))"

text \<open>The loop over the lines of \<open>nvpmodel\<close>; the fuel is the length of the output, each \<open>fgets\<close> taking at least a byte.\<close>

fun power_mode_line :: "nat \<Rightarrow> nat \<Rightarrow> string \<Rightarrow> string" where
  "power_mode_line bufsz 0 out = []"
| "power_mode_line bufsz (Suc n) out =
     (case fgets 256 out of
        None \<Rightarrow> []
      | Some (line, rest) \<Rightarrow>
          (case strstr ''NV Power Mode:'' (cstr line) of
             None \<Rightarrow> power_mode_line bufsz n rest
           | Some start \<Rightarrow> before_newline (buf_trunc bufsz (dropWhile (\<lambda>c. c = CHR '' '' \<or> c = CHR 0x09) (drop (length ''NV Power Mode:'') start)))))"

definition hardware_tegrastats_read_power_mode :: "pipe_result \<Rightarrow> nat \<Rightarrow> string" where
  "hardware_tegrastats_read_power_mode p bufsz =
     (case p of None \<Rightarrow> [] | Some (out, ok) \<Rightarrow> if \<not> ok then [] else power_mode_line bufsz (length out + 1) out)"

definition hardware_llama_server_running :: "pipe_result \<Rightarrow> bool" where
  "hardware_llama_server_running p =
     (case p of None \<Rightarrow> False | Some (out, ok) \<Rightarrow> ok \<and> (case fgets 32 out of None \<Rightarrow> False | Some (line, _) \<Rightarrow> cstr line \<noteq> []))"

definition memory_percent :: "nat \<Rightarrow> nat \<Rightarrow> nat" where
  "memory_percent used whole = (if whole > 0 then (used * 100 mod 2 ^ 32) div whole else 0)"

definition hardware_jetson_gpu_json_fill :: "tegra_env \<Rightarrow> string + (string \<times> cjson) list" where
  "hardware_jetson_gpu_json_fill e =
     (case default_collect (tv_tegrastats e) 4096 of
        Inl err \<Rightarrow> Inl err
      | Inr line \<Rightarrow>
          (case hardware_tegrastats_parse_line (tv_float e) line of
             None \<Rightarrow> Inl ''tegrastats: parse failed''
           | Some p \<Rightarrow>
               let mode = hardware_tegrastats_read_power_mode (tv_nvpmodel e) 64; llama_on = hardware_llama_server_running (tv_pgrep e); num = (\<lambda>n. CNumber (tv_number e n)) in
               Inr ([(''available'', CTrue), (''gpu_usage'', num (gpu_usage_percent p)), (''gpu_freq_mhz'', num (gpu_freq_mhz p)),
                    (''memory_used_mb'', num (ram_used_mb p)), (''memory_total_mb'', num (ram_total_mb p)),
                    (''memory_percent'', num (memory_percent (ram_used_mb p) (ram_total_mb p)))] @
                  (case gpu_temp_c p of None \<Rightarrow> [] | Some t \<Rightarrow> [(''temperature'', CNumber t)]) @
                  (if mode \<noteq> [] then [(''power_mode'', CString mode)] else []) @
                  [(''llama_server'', CObject [(''running'', if llama_on then CTrue else CFalse),
                       (''status'', CString (if llama_on then ''running'' else ''stopped''))])])))"

section \<open>Reading back a line\<close>

lemma strstr_at:
  assumes "c \<notin> set pre"
  shows "strstr (c # pat) (pre @ c # pat @ rest) = Some (c # pat @ rest)"
  using assms by (induction pre) auto

lemma ram_line:
  assumes "CHR ''R'' \<notin> set pre" "u < 2 ^ 32" "t < 2 ^ 32"
  shows "parse_ram (pre @ ''RAM '' @ nat_str u @ ''/'' @ nat_str t @ ''MB'' @ rest) = Some (u, t)"
proof -
  let ?r = "nat_str u @ ''/'' @ nat_str t @ ''MB'' @ rest"
  have s: "strstr ''RAM '' (pre @ ''RAM '' @ ?r) = Some (''RAM '' @ ?r)" using strstr_at [OF assms(1), of "''AM ''" ?r] by simp
  have d: "dropWhile is_space ?r = ?r"
  proof -
    obtain c cs where n: "nat_str u = c # cs" by (cases "nat_str u") auto
    then show ?thesis using nat_str_digits [of c u] digit_not_special [of c] by simp
  qed
  have l: "scan_literal ''RAM '' (''RAM '' @ ?r) = Some ?r" using d by (simp add: is_space_def)
  have u: "scan_unsigned ?r = Some (u, ''/'' @ nat_str t @ ''MB'' @ rest)" by (rule scan_unsigned_nat_str [OF assms(2)]) (simp add: is_digit_def)
  have t: "scan_unsigned (nat_str t @ ''MB'' @ rest) = Some (t, ''MB'' @ rest)" by (rule scan_unsigned_nat_str [OF assms(3)]) (simp add: is_digit_def)
  show ?thesis unfolding parse_ram_def s option.case l bind.bind_lunit u prod.case using t by simp
qed

lemma gr3d_line:
  assumes "CHR ''G'' \<notin> set pre" "g < 2 ^ 32" "f1 < 2 ^ 32" "f2 < 2 ^ 32"
  shows "parse_gr3d (pre @ ''GR3D_FREQ '' @ nat_str g @ ''%@['' @ nat_str f1 @ '','' @ nat_str f2 @ '']'' @ rest) = Some (g, max f1 f2)"
proof -
  let ?r2 = "nat_str f1 @ '','' @ nat_str f2 @ '']'' @ rest"
  let ?r = "nat_str g @ ''%@['' @ ?r2"
  have s: "strstr ''GR3D_FREQ '' (pre @ ''GR3D_FREQ '' @ ?r) = Some (''GR3D_FREQ '' @ ?r)" using strstr_at [OF assms(1), of "''R3D_FREQ ''" ?r] by simp
  have g: "scan_unsigned ?r = Some (g, ''%@['' @ ?r2)" by (rule scan_unsigned_nat_str [OF assms(2)]) (simp add: is_digit_def)
  have u: "scan_usage ?r = Some (g, ''['' @ ?r2)" unfolding scan_usage_def g by (simp add: scan_percent_def is_space_def byte_of_def)
  have a: "scan_unsigned ?r2 = Some (f1, '','' @ nat_str f2 @ '']'' @ rest)" by (rule scan_unsigned_nat_str [OF assms(3)]) (simp add: is_digit_def)
  have b: "scan_unsigned (nat_str f2 @ '']'' @ rest) = Some (f2, '']'' @ rest)" by (rule scan_unsigned_nat_str [OF assms(4)]) (simp add: is_digit_def)
  have f: "scan_two_freqs (''['' @ ?r2) = Some (f1, f2)" using a b by (simp add: scan_two_freqs_def)
  have "drop (length ''GR3D_FREQ '') (''GR3D_FREQ '' @ ?r) = ?r" by simp
  then show ?thesis unfolding parse_gr3d_def s option.case by (simp only: u f option.case prod.case) simp
qed

text \<open>A line in the form that \<open>tegrastats\<close> prints is read back number for number; of two GPU clocks the faster one is kept.\<close>

theorem tegrastats_roundtrip:
  assumes "u < 2 ^ 32" "t < 2 ^ 32" "g < 2 ^ 32" "f1 < 2 ^ 32" "f2 < 2 ^ 32" "CHR ''R'' \<notin> set pre" "CHR ''G'' \<notin> set pre" "CHR ''G'' \<notin> set mid"
  shows "\<exists>temp. hardware_tegrastats_parse_line float
      (pre @ ''RAM '' @ nat_str u @ ''/'' @ nat_str t @ ''MB'' @ mid @ ''GR3D_FREQ '' @ nat_str g @ ''%@['' @ nat_str f1 @ '','' @ nat_str f2 @ '']'' @ rest) =
    Some \<lparr>ram_used_mb = u, ram_total_mb = t, gpu_usage_percent = g, gpu_freq_mhz = max f1 f2, gpu_temp_c = temp\<rparr>"
proof -
  let ?tail = "''GR3D_FREQ '' @ nat_str g @ ''%@['' @ nat_str f1 @ '','' @ nat_str f2 @ '']'' @ rest"
  let ?head = "pre @ ''RAM '' @ nat_str u @ ''/'' @ nat_str t @ ''MB'' @ mid"
  have r: "parse_ram (pre @ ''RAM '' @ nat_str u @ ''/'' @ nat_str t @ ''MB'' @ (mid @ ?tail)) = Some (u, t)" by (rule ram_line [OF assms(6,1,2)])
  have n: "CHR ''G'' \<notin> set (nat_str k)" for k using nat_str_digits [of "CHR ''G''" k] by (auto simp: is_digit_def)
  have "CHR ''G'' \<notin> set ?head" using assms(7,8) n by simp
  then have "parse_gr3d (?head @ ?tail) = Some (g, max f1 f2)" by (rule gr3d_line [OF _ assms(3-5)])
  then show ?thesis using r unfolding hardware_tegrastats_parse_line_def by (simp only: append_assoc option.case prod.case) blast
qed

text \<open>The share of memory in use is a percentage whenever the figures make sense and do not overflow.\<close>

lemma memory_percent_bounds: "used \<le> whole \<Longrightarrow> memory_percent used whole \<le> 100"
proof (cases "whole = 0")
  case False
  assume "used \<le> whole"
  have "(used * 100 mod 2 ^ 32) div whole \<le> (used * 100) div whole" by (intro div_le_mono mod_less_eq_dividend)
  also have "\<dots> \<le> (whole * 100) div whole" using \<open>used \<le> whole\<close> by (intro div_le_mono) simp
  finally show ?thesis using False by (simp add: memory_percent_def)
qed (simp add: memory_percent_def)

text \<open>Enough fuel: the loop ends because a line was found or because the output is read to its end.\<close>

lemma power_mode_fuel: "length out < n \<Longrightarrow> length out < m \<Longrightarrow> power_mode_line b n out = power_mode_line b m out"
proof (induction n arbitrary: m out)
  case (Suc n)
  obtain k where m: "m = Suc k" using Suc.prems by (cases m) auto
  show ?case
  proof (cases "fgets 256 out")
    case (Some x)
    obtain line rest where x: "x = (line, rest)" by (metis surj_pair)
    have "line @ rest = out" "line \<noteq> []" using fgets_splits [of 256 out line rest] Some x by simp_all
    then have "length rest < length out" by (metis length_append length_greater_0_conv less_add_same_cancel2)
    then have "power_mode_line b n rest = power_mode_line b k rest" using Suc.prems m by (intro Suc.IH) simp_all
    then show ?thesis using Some x m by (simp split: option.split)
  qed (simp add: m)
qed simp

end
