(* ===== verification/Spec2Isabelle.thy ===== *)
theory Spec2Isabelle
  imports Shell_Tool Rate_Limit Auth Ulid Crypto Router Dispatch Jcs Asap_Log Asap_Server Http_Lws Asap_Registry Lifecycle Telegram Discord Context Web_Search Hardware_Tools Tegrastats
begin

text \<open>
  ShellClaw is an agent daemon written in C: messages arrive on channels (terminal, dashboard chat, timer, cron jobs, Telegram,
  Discord, other agents over ASAP), each one runs a conversation of a language model with tools, and the answer goes back to
  the channel.  This library models the parts of it that carry logic and proves what makes each of them correct.  File names
  below are relative to \<open>src/src/\<close>.

  \<^bold>\<open>The parts and how they interact.\<close>  \<open>core/main.c\<close> starts the subsystems (\<open>core/bootstrap.c\<close>), polls the channels in turn and hands
  each message to \<open>dispatch_message\<close> (\<open>core/dispatch.c\<close>), which answers slash commands itself and otherwise calls \<open>agent_run\<close>
  (\<open>core/agent.c\<close>).  The agent reads the session from the SQLite store (\<open>core/memory.c\<close>), compacts it when it is long, calls
  the provider, executes the tools the model asks for, and stores the exchange.  The provider is the router
  (\<open>providers/router.c\<close>), which tries the configured backends in order.  The tools (\<open>tools/\<close>) run shell commands that the allowlist
  and the sandbox (\<open>sandbox/\<close>) let through, read and write files of the workspace, keep cron jobs, search the web, collect context,
  call other agents and reach the hardware (\<open>hardware/\<close>).  The gateway (\<open>gateway/\<close>) accepts HTTP requests and WebSockets, pairs
  clients, edits configuration and skills, limits requests per address and passes ASAP requests to \<open>asap/server.c\<close>, which calls the
  same agent for trusted senders.  A changed configuration replaces the live one while requests run (\<open>core/reload.c\<close>).

  \<^bold>\<open>Theories.\<close>
  \<^item> \<open>Prelude\<close>: C strings, the C library functions the sources call, bounded buffers, rule collections.  \<open>Slot_Table\<close>: fixed
    tables with a string key (a locale, interpreted by the rate limiter and the lockout table).  \<open>Utf8\<close>: cutting text between
    characters.  \<open>Cjson\<close>: the JSON tree and its accessors.  \<open>Atomic_Write\<close>: replacing a file through a temporary one (a locale, interpreted by the
    file tool, the token file and the skills).  \<open>Curl_Buffer\<close>: the growing response buffer given to libcurl.  \<open>Scanf\<close>: conversions of \<open>sscanf\<close>.
  \<^item> \<open>Allowlist_Path\<close>, \<open>Allowlist\<close>: \<open>sandbox/allowlist_path.c\<close> and \<open>sandbox/allowlist.c\<close>, function by function.  The lexical
    collapse of a path computes its normal form; an accepted path has a resolved ancestor inside the workspace; an accepted
    command contains no blocklisted text, no token, embedded path, variable or file URL that leaves the workspace, and no name
    of a runtime-state file.
  \<^item> \<open>Sandbox\<close>, \<open>Shell_Tool\<close>, \<open>File_Tool\<close>: \<open>sandbox/sandbox.c\<close>, \<open>sandbox_env.c\<close>, \<open>sandbox_landlock.c\<close>, \<open>tools/shell.c\<close>, \<open>tools/file.c\<close>.
    The child is a sequence of system calls each of which may fail: a command that runs at all runs isolated and without the secrets
    of the environment; the parent always returns, with bounded output; files are written inside the workspace only.
  \<^item> \<open>Rate_Limit\<close>: \<open>gateway/rate_limit.c\<close>; at most the configured number of requests per address and window, and exactly that
    number for an address that keeps its slot.
  \<^item> \<open>Ws_Queue\<close>, \<open>Ws\<close>: \<open>gateway/ws.c\<close> on an explicit heap; it refines a specification on lists, is bounded, never reads a freed
    node, and delivers in order per connection.
  \<^item> \<open>Auth\<close>: \<open>gateway/auth.c\<close> and the pairing route of \<open>gateway/routes.c\<close>; the token file is replaced atomically, a paired token
    validates, the number of guesses is bounded.
  \<^item> \<open>Http_Reply\<close>, \<open>Routes\<close>, \<open>Http_Lws\<close>: \<open>gateway/http.c\<close>, \<open>static.c\<close>, \<open>routes.c\<close>, \<open>routes_hardware.c\<close>, \<open>http_lws.c\<close>; every handler,
    the dispatch, and the life of a connection.  A client without a token changes nothing but the pairing state, the rate counters
    and the ASAP log; a request reaches its handler exactly once, whole; the live configuration changes only together with its file.
  \<^item> \<open>Config_Patch\<close>, \<open>Skill\<close>: \<open>core/config_patch.c\<close>, \<open>core/skill.c\<close>; a patch of the dashboard changes the named keys only, and the
    file is valid or untouched.
  \<^item> \<open>Memory_Store\<close>: \<open>core/memory.c\<close>; \<open>Cron_Schedule\<close>, \<open>Cron\<close>: \<open>tools/cron.c\<close>.  Table invariant, session round trip, meaning of
    the schedule fields, first matching minute, fairness of the polling.
  \<^item> \<open>Channel_Common\<close>, \<open>Channels\<close>: \<open>channels/channel_common.c\<close>, \<open>cli.c\<close>, \<open>webchat.c\<close>, \<open>heartbeat.c\<close>, \<open>stub.c\<close>.  \<open>Telegram\<close>, \<open>Discord\<close>:
    the two chat platforms; every update of an allowed user is delivered once, nobody else is heard, payloads in fragments are
    reassembled.
  \<^item> \<open>Provider\<close>, \<open>Openai\<close>, \<open>Anthropic\<close>, \<open>Router\<close>: the files of \<open>providers/\<close>; request builders, answer parsers, fallback and
    recovery.  The first backend whose answer decides is the one whose answer is returned; the published status is consistent.
  \<^item> \<open>Agent_Session\<close>, \<open>Conversation\<close>, \<open>Agent\<close>: \<open>core/agent.c\<close>; the number of model and tool calls is bounded, every request is a
    conversation the backends accept, stored sessions stay so, compaction loses nothing but what it summarizes.
  \<^item> \<open>Config\<close>: \<open>core/config.c\<close>; a loaded configuration satisfies the types and ranges its users rely on.  \<open>Lifecycle\<close>: \<open>core/main.c\<close>,
    \<open>bootstrap.c\<close>, \<open>daemon.c\<close>, \<open>reload.c\<close>; what was started is stopped, and each configuration is freed once and not while it is used.
  \<^item> \<open>Dispatch\<close>: \<open>core/dispatch.c\<close> and the polling round; a due job is rescheduled only after its answer was delivered.
  \<^item> \<open>Envelope\<close>, \<open>Asap_Server\<close>, \<open>Asap_Log\<close>, \<open>Ulid\<close>, \<open>Asap_Registry\<close>: \<open>asap/envelope.c\<close>, \<open>server.c\<close> with \<open>gateway/asap_http_body.c\<close>,
    \<open>log.c\<close>, \<open>ulid.c\<close>, \<open>client.c\<close>, \<open>registry.c\<close> and \<open>tools/asap_invoke.c\<close>; an untrusted sender reaches no agent, a delegated task goes
    only to an agent that was vetted.
  \<^item> \<open>Crypto\<close>, \<open>Jcs\<close>, \<open>Manifest_Keys\<close>, \<open>Manifest\<close>: Base64 and signature wrappers of \<open>crypto/crypto.c\<close>; the canonical JSON of
    \<open>crypto/jcs.c\<close>; key files with every call failing (\<open>asap/manifest_keys.c\<close>) and the signed manifest (\<open>asap/manifest*.c\<close>).
  \<^item> \<open>Board\<close>, \<open>Hardware\<close>, \<open>I2c\<close>, \<open>Camera\<close>, \<open>Tegrastats\<close>, \<open>Hardware_Tools\<close>: the files of \<open>hardware/\<close> and \<open>tools/hardware_tools*.c\<close>.  Only
    lines that are free for GPIO are touched and none leaks, a bus descriptor never outlives its operation, a picture is written
    inside the workspace, figures are read back as printed.
  \<^item> \<open>Context\<close>, \<open>Web_Search\<close>: \<open>tools/context*.c\<close> and \<open>tools/web_search.c\<close>; caches, fallbacks, and results that fit their buffer.

  \<^bold>\<open>Modelling.\<close>  A C struct is a record, static variables are a state record passed through, error returns are option or sum
  values, a \<open>NULL\<close> pointer is \<^const>\<open>None\<close> or the empty value.  A mutex-protected function is one step, so an execution of several
  threads is a sequence of steps.  What is outside \<open>src/src/\<close> (SQLite's ranking, libcurl, libwebsockets, libgpiod, the TOML and JSON text
  parsers, TweetNaCl, clocks, randomness, the kernel) is an argument of the definitions that use it.  Loops whose end is
  not structural are \<open>partial_function\<close>s (queue traversals), functions with a termination proof, or are bounded by a constant of the
  source (\<open>CRON_MAX_ITER_MINUTES\<close>, the tool rounds of the agent, the polls for a child); where fuel is used it is the length of the text scanned,
  and the lemmas show that it is enough.

  \<^bold>\<open>Not modelled.\<close>  Writing to \<open>stderr\<close> and memory exhaustion except where it decides a result; the test hooks; the builds without
  libgpiod, libwebsockets or Linux, whose functions are constants; the set-up of the libwebsockets context and its service thread
  (\<open>http_start\<close>, \<open>http_stop\<close>); key generation; the vendored libraries.  The hardware is an environment value of the routes; below, it is
  given by the hardware theories.
\<close>

section \<open>The hardware behind the routes\<close>

text \<open>What the hardware routes ask for, as the hardware theories compute it.\<close>

definition routes_hardware :: "'w gpio_env \<Rightarrow> (nat \<Rightarrow> 64 word) \<Rightarrow> 'v i2c_env \<Rightarrow> 'v i2c_state \<Rightarrow> tegra_env \<Rightarrow> 'w hw_state \<Rightarrow> hw_env" where
  "routes_hardware g num i bs t s =
     \<lparr>hw_board = hs_board s, hw_gpio_backend = hs_gpio_backend s, hw_i2c_backend = hs_i2c_active s, hw_i2c_available = hs_i2c_ready s,
      hw_camera_backend = hs_camera_active s, hw_gpio_snapshot = fst (hardware_gpio_snapshot_fill g num s),
      hw_i2c_bus = (\<lambda>c. hardware_resolve_i2c_bus (Some c) (hs_board s)),
      hw_i2c_scan = (\<lambda>bus. map_sum id (map unat) (fst (hardware_i2c_scan i (hs_i2c_ready s) bus 128 bs))),
      hw_gpu_json = hardware_jetson_gpu_json_fill t\<rparr>"

text \<open>On a board with a pin table the dashboard always gets the forty pins, and a scan that succeeds lists legal addresses in ascending order.\<close>

lemma routes_hardware_answers:
  shows "board_pin_table (hs_board s) = Some table \<Longrightarrow> \<exists>js. hw_gpio_snapshot (routes_hardware g num i bs t s) = Inr js \<and> length js = 40"
    and "hw_i2c_scan (routes_hardware g num i bs t s) bus = Inr as \<Longrightarrow> sorted as \<and> distinct as \<and> set as \<subseteq> {3..119}"
proof -
  show "\<exists>js. hw_gpio_snapshot (routes_hardware g num i bs t s) = Inr js \<and> length js = 40" if "board_pin_table (hs_board s) = Some table"
    using snapshot_complete [OF that, of g num] by (auto simp: routes_hardware_def)
  show "sorted as \<and> distinct as \<and> set as \<subseteq> {3..119}" if a: "hw_i2c_scan (routes_hardware g num i bs t s) bus = Inr as"
  proof -
    obtain r s' where r: "hardware_i2c_scan i (hs_i2c_ready s) bus 128 bs = (r, s')" by (metis surj_pair)
    then obtain found where f: "r = Inr found" "as = map unat found" using a by (cases r) (auto simp: routes_hardware_def)
    show ?thesis using scan_sorted [OF r [unfolded f(1)]] f(2) by (simp add: I2C_ADDR_MIN_def I2C_ADDR_MAX_def)
  qed
qed

end
